(* ===== verification/Prelude.thy ===== *)
theory Prelude
  imports Main "HOL-Library.Word" "HOL-Library.Char_ord"
begin

text \<open>
  Shared vocabulary of the development: the compiler's error codes
  (\<^verbatim>\<open>src/errors.h\<close>), the ways a C++ routine of the compiler can fail to
  return a value, the sequencing of fallible computations, and the generic lemmas on
  lists and results that the component theories use through their collections.
\<close>

named_theorems res_simps \<open>equations and inversion rules of the result type\<close>

section \<open>Error codes and failures\<close>

datatype Error =
    IO_ERROR | TYPE_ERROR | SYNTAX_ERROR | UNDEFINED_VARIABLE | UNEXPECTED_EOF
  | REFERENCE_ERROR | WARNING | VARIABLE_ERROR | CONFIGURATION_ERROR | ATTRIBUTE_ERROR
  | ARGUMENT_ERROR | IMPORT_ERROR | PSEUDO_ERROR | DEREFERENCE_ERROR | FUNCTION_RET_ERR
  | PM_ERROR | COMPILER_ERROR | LLVM_INTERNAL | LINKER_ERR | BUG | TODO

text \<open>
  A thrown diagnostic keeps its code, its message and the source position and width it
  was raised with; the decorative \<^verbatim>\<open>info/note/help\<close> texts are not modelled.
  \<open>AssertFail\<close> is a failed \<^verbatim>\<open>assert\<close> (the build undefines
  \<^verbatim>\<open>NDEBUG\<close>), \<open>StdException\<close> an exception of the C++ library that the code
  does not catch, \<open>Undefined\<close> an operation C++ leaves undefined.
\<close>

record diag =
  d_error :: Error
  d_msg :: string
  d_line :: int
  d_col :: int
  d_width :: int

datatype failure =
    LexerError diag
  | ParserError diag
  | CompilerError Error string
  | AssertFail
  | Abort
  | StdException string
  | Undefined string

type_synonym 'a res = "failure + 'a"

definition null_pointer :: failure where
  "null_pointer = Undefined ''null pointer''"

text \<open>\<^verbatim>\<open>at\<close> of a vector.\<close>

definition at_index :: "'a list \<Rightarrow> nat \<Rightarrow> 'a res" where
  "at_index xs i = (if i < length xs then Inr (xs ! i) else Inl (StdException ''out_of_range''))"

section \<open>Sequencing\<close>

definition bindR :: "'e + 'a \<Rightarrow> ('a \<Rightarrow> 'e + 'b) \<Rightarrow> 'e + 'b" where
  "bindR m f = (case m of Inl e \<Rightarrow> Inl e | Inr a \<Rightarrow> f a)"

lemma bindR_simps [simp]:
  "bindR (Inl e) f = Inl e"
  "bindR (Inr a) f = f a"
  by (simp_all add: bindR_def)

lemma bindR_Inr_iff [res_simps]:
  "bindR m f = Inr b \<longleftrightarrow> (\<exists>a. m = Inr a \<and> f a = Inr b)"
  by (cases m) auto

lemma bindR_Inl_iff [res_simps]:
  "bindR m f = Inl e \<longleftrightarrow> m = Inl e \<or> (\<exists>a. m = Inr a \<and> f a = Inl e)"
  by (cases m) auto

lemma bindR_cong [fundef_cong]:
  "m = m' \<Longrightarrow> (\<And>a. m' = Inr a \<Longrightarrow> f a = f' a) \<Longrightarrow> bindR m f = bindR m' f'"
  by (cases m') simp_all

lemma bindR_split:
  "P (bindR m f) \<longleftrightarrow> (\<forall>e. m = Inl e \<longrightarrow> P (Inl e)) \<and> (\<forall>a. m = Inr a \<longrightarrow> P (f a))"
  by (cases m) simp_all

fun mapR :: "('a \<Rightarrow> 'e + 'b) \<Rightarrow> 'a list \<Rightarrow> 'e + 'b list" where
  "mapR f [] = Inr []"
| "mapR f (x # xs) = bindR (f x) (\<lambda>y. bindR (mapR f xs) (\<lambda>ys. Inr (y # ys)))"

lemma mapR_cong [fundef_cong]:
  "xs = ys \<Longrightarrow> (\<And>x. x \<in> set ys \<Longrightarrow> f x = g x) \<Longrightarrow> mapR f xs = mapR g ys"
  by (induction ys arbitrary: xs) (auto intro!: bindR_cong)

lemma mapR_Inr_length: "mapR f xs = Inr ys \<Longrightarrow> length ys = length xs"
  by (induction xs arbitrary: ys) (auto simp: res_simps)

lemma mapR_Inr_set: "mapR f xs = Inr ys \<Longrightarrow> y \<in> set ys \<Longrightarrow> \<exists>x\<in>set xs. f x = Inr y"
  by (induction xs arbitrary: ys) (auto simp: res_simps)

section \<open>Loops that step until a test fails\<close>

text \<open>
  The contract of a loop of the source: while \<open>active\<close>, take a step that may fail; every
  successful step lowers \<open>rank\<close>. The client of the contract gets invariants and the origin
  of errors of the whole loop from facts about one step.
\<close>

locale iteration =
  fixes active :: "'s \<Rightarrow> bool"
    and step :: "'s \<Rightarrow> 'e + 's"
    and run :: "'s \<Rightarrow> 'e + 's"
    and rank :: "'s \<Rightarrow> nat"
  assumes run_eq: "run s = (if active s then bindR (step s) run else Inr s)"
    and step_rank: "active s \<Longrightarrow> step s = Inr s' \<Longrightarrow> rank s' < rank s"
begin

lemma run_induct:
  assumes "\<And>s. (\<And>s'. active s \<Longrightarrow> step s = Inr s' \<Longrightarrow> P s') \<Longrightarrow> P s"
  shows "P s"
  by (induction s rule: measure_induct_rule [where f = rank]) (metis assms step_rank)

lemma run_relates:
  assumes "run s = Inr s'"
    and "\<And>s. R s s" and "\<And>s t u. R s t \<Longrightarrow> R t u \<Longrightarrow> R s u"
    and "\<And>s t. active s \<Longrightarrow> step s = Inr t \<Longrightarrow> R s t"
  shows "R s s' \<and> \<not> active s'"
  using assms(1)
proof (induction s rule: run_induct)
  case (1 s)
  show ?case
  proof (cases "active s")
    case True
    with "1.prems" obtain t where t: "step s = Inr t" and "run t = Inr s'"
      by (subst (asm) run_eq) (auto simp: res_simps)
    with "1.IH" True have "R t s' \<and> \<not> active s'" by simp
    with t True assms(3,4) show ?thesis by blast
  next
    case False
    with "1.prems" assms(2) show ?thesis by (subst (asm) run_eq) simp
  qed
qed

lemma run_invariant:
  assumes "run s = Inr s'" and "I s"
    and "\<And>s t. I s \<Longrightarrow> active s \<Longrightarrow> step s = Inr t \<Longrightarrow> I t"
  shows "I s' \<and> \<not> active s'"
  using run_relates [where R = "\<lambda>s t. I s \<longrightarrow> I t", OF assms(1)] assms(2,3) by blast

lemma run_error:
  assumes "run s = Inl e" and "I s"
    and "\<And>s t. I s \<Longrightarrow> active s \<Longrightarrow> step s = Inr t \<Longrightarrow> I t"
  shows "\<exists>t. I t \<and> active t \<and> step t = Inl e"
  using assms(1,2)
proof (induction s rule: run_induct)
  case (1 s)
  then show ?case
    by (subst (asm) run_eq) (auto simp: res_simps split: if_splits dest: assms(3))
qed

end

section \<open>Searching with an equality of the program\<close>

text \<open>
  The contract of a comparison that the code searches lists with: an equivalence on the elements
  that satisfy \<open>carrier\<close>. Equal keys then find the same element.
\<close>

locale search_equality =
  fixes eq :: "'a \<Rightarrow> 'a \<Rightarrow> bool" and carrier :: "'a \<Rightarrow> bool"
  assumes eq_refl: "carrier x \<Longrightarrow> eq x x"
    and eq_sym: "carrier x \<Longrightarrow> carrier y \<Longrightarrow> eq x y \<Longrightarrow> eq y x"
    and eq_trans: "carrier x \<Longrightarrow> carrier y \<Longrightarrow> carrier z \<Longrightarrow> eq x y \<Longrightarrow> eq y z \<Longrightarrow> eq x z"
begin

lemma eq_left: "carrier x \<Longrightarrow> carrier y \<Longrightarrow> carrier z \<Longrightarrow> eq x y \<Longrightarrow> eq x z \<longleftrightarrow> eq y z"
  by (meson eq_sym eq_trans)

lemma eq_list_left:
  "list_all2 eq xs ys \<Longrightarrow> list_all carrier xs \<Longrightarrow> list_all carrier ys \<Longrightarrow> list_all carrier zs \<Longrightarrow>
   list_all2 eq xs zs \<longleftrightarrow> list_all2 eq ys zs"
proof (induction arbitrary: zs rule: list_all2_induct)
  case (Cons x xs y ys)
  then show ?case using eq_left [of x y] by (cases zs) simp_all
qed simp

lemma find_left:
  assumes "carrier x" "carrier y" "eq x y"
  shows "list_all (\<lambda>z. carrier (f z)) zs \<Longrightarrow> find (\<lambda>z. eq x (f z)) zs = find (\<lambda>z. eq y (f z)) zs"
  using eq_left [OF assms(1,2) _ assms(3)] by (induction zs) simp_all

end

section \<open>Characters\<close>

abbreviation byte_of :: "char \<Rightarrow> nat" where "byte_of c \<equiv> of_char c"

abbreviation NUL :: char where "NUL \<equiv> CHR 0x00"
abbreviation NL :: char where "NL \<equiv> CHR 0x0A"
abbreviation TAB :: char where "TAB \<equiv> CHR 0x09"
abbreviation CR :: char where "CR \<equiv> CHR 0x0D"
abbreviation ESC :: char where "ESC \<equiv> CHR 0x1B"
abbreviation BACKSLASH :: char where "BACKSLASH \<equiv> CHR 0x5C"
abbreviation SQUOTE :: char where "SQUOTE \<equiv> CHR 0x27"
abbreviation DQUOTE :: char where "DQUOTE \<equiv> CHR 0x22"

end
