(* ===== verification/Tokens.thy ===== *)
theory Tokens
  imports Prelude
begin

text \<open>
  The tokens of \<^verbatim>\<open>src/lexer/tokens/token.h\<close> and the keyword spellings of
  \<^verbatim>\<open>src/constants.h\<close>: the token types, the token structure, its printed form and the
  keyword test of the lexer.
\<close>

section \<open>Token types and tokens\<close>

text \<open>
  The flat \<^verbatim>\<open>enum class TokenType\<close> is split along its own comment sections into
  symbols, operators and keywords; every enumerator keeps its name (\<^verbatim>\<open>_EOF\<close> and
  \<^verbatim>\<open>UNKNOWN\<close> are \<open>TK_EOF\<close> and \<open>TK_UNKNOWN\<close>).
\<close>

datatype Symbol =
    SYM_AT | SYM_DOT | SYM_HASH | SYM_COMMA
  | SYM_COLLON | SYM_COLCOL | SYM_DOLLAR | SYM_QUESTION
  | SYM_SEMI_COLLON | BRACKET_LCURLY | BRACKET_RCURLY | BRACKET_LPARENT
  | BRACKET_RPARENT | BRACKET_RSQUARED | BRACKET_LSQUARED

datatype OpToken =
    OP_MUL | OP_MOD | OP_DIV | OP_PLUS
  | OP_MINUS | OP_MULEQ | OP_DIVEQ | OP_MOD_EQ
  | OP_PLUSEQ | OP_MINUSEQ | OP_GT | OP_LT
  | OP_ARROW | OP_EQEQ | OP_GTEQ | OP_LTEQ
  | OP_NOTEQ | OP_EQ | OP_NOT | OP_AND
  | OP_OR | OP_BIT_NOT | OP_BIT_OR | OP_BIT_AND
  | OP_BIT_XOR | OP_BIT_OR_EQ | OP_BIT_RSHIFT | OP_BIT_LSHIFT
  | OP_BIT_AND_EQ | OP_BIT_XOR_EQ | OP_BIT_RSHIFT_EQ | OP_BIT_LSHIFT_EQ

datatype Keyword =
    KWORD__START__POINT | KWORD_IF | KWORD_VAR | KWORD_NEW
  | KWORD_THROW | KWORD_FOR | KWORD_ENUM | KWORD_FUNC
  | KWORD_OPERATOR | KWORD_MACRO | KWORD_ELSE | KWORD_BREAK
  | KWORD_CONST | KWORD_SUPER | KWORD_WHILE | KWORD_EXTERN
  | KWORD_VIRTUAL | KWORD_OVERRIDE | KWORD_CLASS | KWORD_AS
  | KWORD_IMPORT | KWORD_UNSAFE | KWORD_CONSTEXPR | KWORD_TYPEDEF
  | KWORD_MUTABLE | KWORD_DO | KWORD_NAMESPACE | KWORD_STRUCT
  | KWORD_PUBLIC | KWORD_CASE | KWORD_SWITCH | KWORD_STATIC
  | KWORD_RETURN | KWORD_PRIVATE | KWORD_DECLTYPE | KWORD_DEFAULT
  | KWORD_TRY | KWORD_CATCH | KWORD_CONTINUE | KWORD_INTER
  | KWORD_EXTENDS | KWORD_IMPLEMENTS | KWORD__ENDING__POINT

datatype TokenType =
    IDENTIFIER | VALUE_NUMBER | VALUE_FLOAT | VALUE_BOOL
  | VALUE_STRING | VALUE_CHAR
  | Sym Symbol | Op OpToken | Kword Keyword
  | TK_EOF | TK_UNKNOWN

record Token =
  tok_type :: TokenType
  tok_line :: int
  tok_col :: int
  tok_value :: string
  tok_comment :: string

text \<open>\<^verbatim>\<open>Token tk = {}\<close>: every field has its default.\<close>

definition empty_token :: Token where
  "empty_token = \<lparr>tok_type = TK_UNKNOWN, tok_line = 0, tok_col = 0, tok_value = [], tok_comment = []\<rparr>"

definition getComment :: "Token \<Rightarrow> string" where
  "getComment t = tok_comment t"

text \<open>What \<^verbatim>\<open>std::string::c_str\<close> shows to \<^verbatim>\<open>printf\<close>: the bytes before the first NUL.\<close>

definition c_str :: "string \<Rightarrow> string" where
  "c_str s = takeWhile (\<lambda>c. c \<noteq> NUL) s"

text \<open>A \<^verbatim>\<open>%s\<close> of a message between quotes.\<close>

definition quoted :: "string \<Rightarrow> string" where
  "quoted s = [SQUOTE] @ c_str s @ [SQUOTE]"

definition dquoted :: "string \<Rightarrow> string" where
  "dquoted s = [DQUOTE] @ s @ [DQUOTE]"

definition symbol_to_string :: "Symbol \<Rightarrow> string" where
  "symbol_to_string s = (case s of
     SYM_AT \<Rightarrow> ''@''
   | SYM_DOT \<Rightarrow> ''.''
   | SYM_HASH \<Rightarrow> ''#''
   | SYM_COMMA \<Rightarrow> '',''
   | SYM_COLLON \<Rightarrow> '':''
   | SYM_COLCOL \<Rightarrow> ''::''
   | SYM_DOLLAR \<Rightarrow> ''$''
   | SYM_QUESTION \<Rightarrow> ''?''
   | SYM_SEMI_COLLON \<Rightarrow> '';''
   | BRACKET_LCURLY \<Rightarrow> ''{''
   | BRACKET_RCURLY \<Rightarrow> ''}''
   | BRACKET_LPARENT \<Rightarrow> ''(''
   | BRACKET_RPARENT \<Rightarrow> '')''
   | BRACKET_RSQUARED \<Rightarrow> '']''
   | BRACKET_LSQUARED \<Rightarrow> ''['')"

definition op_to_string :: "OpToken \<Rightarrow> string" where
  "op_to_string p = (case p of
     OP_MUL \<Rightarrow> ''*''
   | OP_MOD \<Rightarrow> ''%''
   | OP_DIV \<Rightarrow> ''/''
   | OP_PLUS \<Rightarrow> ''+''
   | OP_MINUS \<Rightarrow> ''-''
   | OP_MULEQ \<Rightarrow> ''*=''
   | OP_DIVEQ \<Rightarrow> ''/=''
   | OP_MOD_EQ \<Rightarrow> ''%=''
   | OP_PLUSEQ \<Rightarrow> ''+=''
   | OP_MINUSEQ \<Rightarrow> ''-=''
   | OP_GT \<Rightarrow> ''>''
   | OP_LT \<Rightarrow> ''<''
   | OP_ARROW \<Rightarrow> ''=>''
   | OP_EQEQ \<Rightarrow> ''==''
   | OP_GTEQ \<Rightarrow> ''>=''
   | OP_LTEQ \<Rightarrow> ''<=''
   | OP_NOTEQ \<Rightarrow> ''!=''
   | OP_EQ \<Rightarrow> ''=''
   | OP_NOT \<Rightarrow> ''!''
   | OP_AND \<Rightarrow> ''&&''
   | OP_OR \<Rightarrow> ''||''
   | OP_BIT_NOT \<Rightarrow> ''~''
   | OP_BIT_OR \<Rightarrow> ''|''
   | OP_BIT_AND \<Rightarrow> ''&''
   | OP_BIT_XOR \<Rightarrow> ''^''
   | OP_BIT_OR_EQ \<Rightarrow> ''|=''
   | OP_BIT_RSHIFT \<Rightarrow> ''|>>''
   | OP_BIT_LSHIFT \<Rightarrow> ''<<''
   | OP_BIT_AND_EQ \<Rightarrow> ''&=''
   | OP_BIT_XOR_EQ \<Rightarrow> ''^=''
   | OP_BIT_RSHIFT_EQ \<Rightarrow> ''>>=''
   | OP_BIT_LSHIFT_EQ \<Rightarrow> ''<<='')"

definition keyword_to_string :: "Keyword \<Rightarrow> string" where
  "keyword_to_string k = (case k of
     KWORD_IF \<Rightarrow> ''if''
   | KWORD_VAR \<Rightarrow> ''let''
   | KWORD_NEW \<Rightarrow> ''new''
   | KWORD_THROW \<Rightarrow> ''throw''
   | KWORD_FOR \<Rightarrow> ''for''
   | KWORD_ENUM \<Rightarrow> ''enum''
   | KWORD_FUNC \<Rightarrow> ''func''
   | KWORD_OPERATOR \<Rightarrow> ''operator''
   | KWORD_MACRO \<Rightarrow> ''macro''
   | KWORD_ELSE \<Rightarrow> ''else''
   | KWORD_BREAK \<Rightarrow> ''break''
   | KWORD_CONST \<Rightarrow> ''const''
   | KWORD_SUPER \<Rightarrow> ''super''
   | KWORD_WHILE \<Rightarrow> ''while''
   | KWORD_EXTERN \<Rightarrow> ''external''
   | KWORD_VIRTUAL \<Rightarrow> ''virtual''
   | KWORD_OVERRIDE \<Rightarrow> ''override''
   | KWORD_CLASS \<Rightarrow> ''class''
   | KWORD_AS \<Rightarrow> ''as''
   | KWORD_IMPORT \<Rightarrow> ''import''
   | KWORD_UNSAFE \<Rightarrow> ''unsafe''
   | KWORD_CONSTEXPR \<Rightarrow> ''constexpr''
   | KWORD_TYPEDEF \<Rightarrow> ''type''
   | KWORD_MUTABLE \<Rightarrow> ''mut''
   | KWORD_DO \<Rightarrow> ''do''
   | KWORD_NAMESPACE \<Rightarrow> ''namespace''
   | KWORD_STRUCT \<Rightarrow> ''struct''
   | KWORD_PUBLIC \<Rightarrow> ''public''
   | KWORD_CASE \<Rightarrow> ''case''
   | KWORD_SWITCH \<Rightarrow> ''switch''
   | KWORD_STATIC \<Rightarrow> ''static''
   | KWORD_RETURN \<Rightarrow> ''return''
   | KWORD_PRIVATE \<Rightarrow> ''private''
   | KWORD_DECLTYPE \<Rightarrow> ''decltype''
   | KWORD_DEFAULT \<Rightarrow> ''default''
   | KWORD_TRY \<Rightarrow> ''try''
   | KWORD_CATCH \<Rightarrow> ''catch''
   | KWORD_CONTINUE \<Rightarrow> ''continue''
   | KWORD_INTER \<Rightarrow> ''interface''
   | KWORD_EXTENDS \<Rightarrow> ''extends''
   | KWORD_IMPLEMENTS \<Rightarrow> ''implements''
   | _ \<Rightarrow> ''<BUG>'')"

definition token_to_string :: "Token \<Rightarrow> string" where
  "token_to_string t = (case tok_type t of
     Sym s \<Rightarrow> symbol_to_string s
   | Op p \<Rightarrow> op_to_string p
   | Kword k \<Rightarrow> keyword_to_string k
   | IDENTIFIER \<Rightarrow> tok_value t
   | VALUE_NUMBER \<Rightarrow> tok_value t
   | VALUE_FLOAT \<Rightarrow> tok_value t
   | VALUE_BOOL \<Rightarrow> tok_value t
   | VALUE_STRING \<Rightarrow> [DQUOTE] @ tok_value t @ [DQUOTE]
   | VALUE_CHAR \<Rightarrow> [SQUOTE] @ c_str (tok_value t) @ [SQUOTE]
   | TK_UNKNOWN \<Rightarrow> ''<unknown>''
   | TK_EOF \<Rightarrow> ''<EOF>'')"

definition get_pos :: "Token \<Rightarrow> int \<times> int" where
  "get_pos t = (tok_line t, tok_col t)"

definition get_width :: "Token \<Rightarrow> 32 word" where
  "get_width t = of_nat (length (token_to_string t))"

end
