(* ===== verification/Lexer.thy ===== *)
theory Lexer
  imports Tokens
begin

text \<open>
  The tokenizer of \<^verbatim>\<open>src/lexer/lexer.cc\<close>. The state is the object's
  \<^verbatim>\<open>char_ptr\<close>, \<^verbatim>\<open>cur_line\<close>, \<^verbatim>\<open>cur_col\<close> and \<^verbatim>\<open>tokens\<close>, and the
  local \<^verbatim>\<open>comments\<close> of \<^verbatim>\<open>tokenize\<close>. Every case of the character switch is a
  function of the source text and the state; a thrown error is \<open>Inl\<close>. The loops that
  read characters are recursive functions that stop at the end of the text, where
  \<^verbatim>\<open>GET_CHAR\<close> yields NUL and every loop of the source leaves.
\<close>

unbundle bit_operations_syntax

section \<open>State and primitive steps\<close>

record lexer =
  char_ptr :: nat
  cur_line :: int
  cur_col :: int
  tokens :: "Token list"
  comments :: string

definition init_lexer :: lexer where
  "init_lexer = \<lparr>char_ptr = 0, cur_line = 1, cur_col = 1, tokens = [], comments = []\<rparr>"

definition get_char :: "string \<Rightarrow> lexer \<Rightarrow> nat \<Rightarrow> char" where
  "get_char code l off =
     (if char_ptr l + off \<ge> length code then NUL else code ! (char_ptr l + off))"

definition eat_char :: "nat \<Rightarrow> lexer \<Rightarrow> lexer" where
  "eat_char n l = l\<lparr>char_ptr := char_ptr l + n, cur_col := cur_col l + int n\<rparr>"

definition eat_line :: "lexer \<Rightarrow> lexer" where
  "eat_line l = l\<lparr>char_ptr := char_ptr l + 1, cur_col := 1, cur_line := cur_line l + 1\<rparr>"

definition push_token :: "Token \<Rightarrow> lexer \<Rightarrow> lexer" where
  "push_token tk l = l\<lparr>tokens := tokens l @ [tk]\<rparr>"

definition is_num :: "char \<Rightarrow> bool" where
  "is_num c \<longleftrightarrow> 48 \<le> byte_of c \<and> byte_of c \<le> 57"

definition is_hex_char :: "char \<Rightarrow> bool" where
  "is_hex_char c \<longleftrightarrow> is_num c \<or> (97 \<le> byte_of c \<and> byte_of c \<le> 102)
     \<or> (65 \<le> byte_of c \<and> byte_of c \<le> 70)"

definition is_text :: "char \<Rightarrow> bool" where
  "is_text c \<longleftrightarrow> c = CHR ''_'' \<or> (97 \<le> byte_of c \<and> byte_of c \<le> 122)
     \<or> (65 \<le> byte_of c \<and> byte_of c \<le> 90)"

definition handle_eof :: "bool \<Rightarrow> lexer \<Rightarrow> lexer" where
  "handle_eof p_consume l =
     (let l' = push_token (empty_token\<lparr>tok_type := TK_EOF, tok_line := cur_line l, tok_col := cur_col l\<rparr>) l
      in if p_consume then eat_char 1 l' else l')"

definition consume :: "TokenType \<Rightarrow> nat \<Rightarrow> lexer \<Rightarrow> lexer" where
  "consume p_tk p_eat_size l =
     eat_char p_eat_size
       (push_token (empty_token\<lparr>tok_type := p_tk, tok_line := cur_line l, tok_col := cur_col l\<rparr>) l)"

definition lexer_error :: "lexer \<Rightarrow> Error \<Rightarrow> string \<Rightarrow> int \<Rightarrow> failure" where
  "lexer_error l err msg char_length =
     LexerError \<lparr>d_error = err, d_msg = msg, d_line = cur_line l, d_col = cur_col l, d_width = char_length\<rparr>"

text \<open>\<^verbatim>\<open>while (P(GET_CHAR(0))) { acc += GET_CHAR(0); EAT_CHAR(1); }\<close>\<close>

function eat_while :: "(char \<Rightarrow> bool) \<Rightarrow> string \<Rightarrow> lexer \<Rightarrow> string \<Rightarrow> string \<times> lexer" where
  "eat_while P code l acc =
     (if char_ptr l < length code \<and> P (get_char code l 0)
      then eat_while P code (eat_char 1 l) (acc @ [get_char code l 0])
      else (acc, l))"
  by pat_completeness auto
termination
  by (relation "measure (\<lambda>(P, code, l, acc). length code - char_ptr l)")
    (auto simp: eat_char_def)

declare eat_while.simps [simp del]

section \<open>Spaces, comments and division\<close>

function multi_line_comment :: "string \<Rightarrow> lexer \<Rightarrow> string \<Rightarrow> (string \<times> lexer) res" where
  "multi_line_comment code l comment =
     (if get_char code l 0 = CHR ''*'' \<and> get_char code l 1 = CHR ''/''
      then Inr (comment @ ''*/'', eat_char 2 l)
      else if get_char code l 0 = NUL
      then Inl (lexer_error l UNEXPECTED_EOF ''Found an unexpected EOF while parsing a comment'' 1)
      else if get_char code l 0 = NL
      then multi_line_comment code (eat_line l) (comment @ [NL])
      else multi_line_comment code (eat_char 1 l) (comment @ [get_char code l 0]))"
  by pat_completeness auto
termination
  by (relation "measure (\<lambda>(code, l, comment). length code - char_ptr l)")
    (auto simp: eat_char_def eat_line_def get_char_def split: if_splits)

declare multi_line_comment.simps [simp del]

definition line_comment :: "string \<Rightarrow> lexer \<Rightarrow> string \<times> lexer" where
  "line_comment code l =
     (let (comment, l1) = eat_while (\<lambda>c. c \<noteq> NL \<and> c \<noteq> NUL) code l []
      in (comment,
          if get_char code l1 0 = NL then eat_line l1
          else if get_char code l1 0 = NUL then handle_eof True l1
          else l1))"

definition lex_slash :: "string \<Rightarrow> lexer \<Rightarrow> lexer res" where
  "lex_slash code l =
     (if get_char code l 1 = CHR ''/''
      then (let (comment, l1) = line_comment code l in Inr (l1\<lparr>comments := comment\<rparr>))
      else if get_char code l 1 = CHR ''*''
      then bindR (multi_line_comment code (eat_char 2 l) ''/*'')
             (\<lambda>(comment, l1). Inr (l1\<lparr>comments := comment\<rparr>))
      else if get_char code l 1 = CHR ''='' then Inr (consume (Op OP_DIVEQ) 2 l)
      else Inr (consume (Op OP_DIV) 1 l))"

section \<open>Symbols and operators\<close>

definition lex_symbol :: "string \<Rightarrow> lexer \<Rightarrow> lexer option" where
  "lex_symbol code l =
     (let c = get_char code l 0; sym = (\<lambda>s. Some (consume (Sym s) 1 l)) in
      if c = CHR '':'' then
        (if get_char code l 1 = CHR '':'' then Some (consume (Sym SYM_COLCOL) 2 l)
         else sym SYM_COLLON)
      else if c = CHR '','' then sym SYM_COMMA
      else if c = CHR '';'' then sym SYM_SEMI_COLLON
      else if c = CHR ''#'' then sym SYM_HASH
      else if c = CHR ''$'' then sym SYM_DOLLAR
      else if c = CHR ''?'' then sym SYM_QUESTION
      else if c = CHR ''@'' then sym SYM_AT
      else if c = CHR ''('' then sym BRACKET_LPARENT
      else if c = CHR '')'' then sym BRACKET_RPARENT
      else if c = CHR ''{'' then sym BRACKET_LCURLY
      else if c = CHR ''}'' then sym BRACKET_RCURLY
      else if c = CHR ''['' then sym BRACKET_LSQUARED
      else if c = CHR '']'' then sym BRACKET_RSQUARED
      else None)"

text \<open>\<open>>>\<close> is lexed as two \<open>OP_GT\<close> so that nested generics close; the shift is \<open>|>>\<close>.\<close>

definition lex_operator :: "string \<Rightarrow> lexer \<Rightarrow> lexer option" where
  "lex_operator code l =
     (let c = get_char code l 0; c1 = get_char code l 1; c2 = get_char code l 2;
          op = (\<lambda>p n. Some (consume (Op p) n l)) in
      if c = CHR ''='' then
        (if c1 = CHR ''='' then op OP_EQEQ 2 else if c1 = CHR ''>'' then op OP_ARROW 2 else op OP_EQ 1)
      else if c = CHR ''+'' then (if c1 = CHR ''='' then op OP_PLUSEQ 2 else op OP_PLUS 1)
      else if c = CHR ''-'' then (if c1 = CHR ''='' then op OP_MINUSEQ 2 else op OP_MINUS 1)
      else if c = CHR ''*'' then (if c1 = CHR ''='' then op OP_MULEQ 2 else op OP_MUL 1)
      else if c = CHR ''%'' then (if c1 = CHR ''='' then op OP_MOD_EQ 2 else op OP_MOD 1)
      else if c = CHR ''<'' then
        (if c1 = CHR ''='' then op OP_LTEQ 2
         else if c1 = CHR ''<'' then
           (if c2 = CHR ''='' then op OP_BIT_LSHIFT_EQ 3 else op OP_BIT_LSHIFT 2)
         else op OP_LT 1)
      else if c = CHR ''>'' then
        (if c1 = CHR ''='' then op OP_GTEQ 2
         else if c1 = CHR ''>'' then
           (if c2 = CHR ''='' then op OP_BIT_RSHIFT_EQ 3
            else Some (consume (Op OP_GT) 1 (consume (Op OP_GT) 1 l)))
         else op OP_GT 1)
      else if c = CHR ''!'' then (if c1 = CHR ''='' then op OP_NOTEQ 2 else op OP_NOT 1)
      else if c = CHR ''~'' then op OP_BIT_NOT 1
      else if c = CHR ''|'' then
        (if c1 = CHR ''='' then op OP_BIT_OR_EQ 2
         else if c1 = CHR ''|'' then op OP_OR 2
         else if c1 = CHR ''>'' \<and> c2 = CHR ''>'' then op OP_BIT_RSHIFT 3
         else op OP_BIT_OR 1)
      else if c = CHR ''&'' then
        (if c1 = CHR ''='' then op OP_BIT_AND_EQ 2
         else if c1 = CHR ''&'' then op OP_AND 2 else op OP_BIT_AND 1)
      else if c = CHR ''^'' then (if c1 = CHR ''='' then op OP_BIT_XOR_EQ 2 else op OP_BIT_XOR 1)
      else None)"

section \<open>Character and string literals\<close>

definition hex_digit :: "char \<Rightarrow> nat" where
  "hex_digit c =
     (let n = byte_of c in
      if is_num c then n - 48 else if 97 \<le> n then n - 87 else n - 55)"

definition hex_value :: "string \<Rightarrow> nat" where
  "hex_value s = foldl (\<lambda>v c. 16 * v + hex_digit c) 0 s"

text \<open>
  The escape \<^verbatim>\<open>\x..\<close>: every hexadecimal digit that follows is read;
  \<^verbatim>\<open>std::stoi(hex, nullptr, 16)\<close> throws when the value exceeds \<^verbatim>\<open>INT_MAX\<close>,
  and the cast to \<^verbatim>\<open>char\<close> keeps the low eight bits.
\<close>

definition hex_escape :: "string \<Rightarrow> lexer \<Rightarrow> string \<Rightarrow> (string \<times> lexer) res" where
  "hex_escape code l str =
     (let (hex, l1) = eat_while is_hex_char code (eat_char 2 l) [] in
      if length hex = 0 then Inl (lexer_error l1 SYNTAX_ERROR ''invalid hex character'' 2)
      else if hex_value hex > 2147483647 then Inl (StdException ''out_of_range'')
      else Inr (str @ [char_of (hex_value hex)], l1))"

definition char_escape :: "string \<Rightarrow> lexer \<Rightarrow> string \<Rightarrow> (string \<times> lexer) res" where
  "char_escape code l str =
     (let c = get_char code l 1; add = (\<lambda>x. Inr (str @ [x], eat_char 2 l)) in
      if c = NUL
      then Inl (lexer_error l UNEXPECTED_EOF ''Unexpected EOF while lexing a string scape!'' 1)
      else if c = BACKSLASH then add BACKSLASH
      else if c = SQUOTE then add SQUOTE
      else if c = CHR ''t'' then add TAB
      else if c = CHR ''n'' then add NL
      else if c = CHR ''0'' then add NUL
      else if c = DQUOTE then add DQUOTE
      else if c = CHR ''r'' then add CR
      else if c = NL then Inr (str, eat_line (eat_char 1 l))
      else if c = CHR ''x'' then hex_escape code l str
      else Inl (lexer_error l SYNTAX_ERROR ''invalid escape character'' 2))"

definition string_escape :: "string \<Rightarrow> lexer \<Rightarrow> string \<Rightarrow> (string \<times> lexer) res" where
  "string_escape code l str =
     (let c = get_char code l 1; add = (\<lambda>x. Inr (str @ [x], eat_char 2 l)) in
      if c = NUL
      then Inl (lexer_error l UNEXPECTED_EOF ''unexpected EOF while lexing a string scape.'' 1)
      else if c = BACKSLASH then add BACKSLASH
      else if c = SQUOTE then add SQUOTE
      else if c = CHR ''t'' then add TAB
      else if c = CHR ''n'' then add NL
      else if c = DQUOTE then add DQUOTE
      else if c = CHR ''r'' then add CR
      else if c = CHR ''e'' then add ESC
      else if c = CHR ''x'' then hex_escape code l str
      else if c = NL then Inr (str, eat_line (eat_char 1 l))
      else Inl (lexer_error l SYNTAX_ERROR ''invalid escape character'' 2))"

lemma eat_char_fields [simp]:
  "char_ptr (eat_char n l) = char_ptr l + n" "cur_line (eat_char n l) = cur_line l"
  "tokens (eat_char n l) = tokens l" "comments (eat_char n l) = comments l"
  by (simp_all add: eat_char_def)

lemma eat_line_fields [simp]:
  "char_ptr (eat_line l) = char_ptr l + 1" "cur_line (eat_line l) = cur_line l + 1"
  "tokens (eat_line l) = tokens l" "comments (eat_line l) = comments l"
  by (simp_all add: eat_line_def)

lemma get_char_NUL_beyond: "length code \<le> char_ptr l + n \<Longrightarrow> get_char code l n = NUL"
  by (simp add: get_char_def)

lemma get_char_not_NUL: "get_char code l 0 \<noteq> NUL \<Longrightarrow> char_ptr l < length code"
  by (auto simp: get_char_def split: if_splits)

lemma eat_while_fields:
  "eat_while P code l acc = (s, l') \<Longrightarrow>
     char_ptr l \<le> char_ptr l' \<and> cur_line l' = cur_line l \<and> tokens l' = tokens l
       \<and> comments l' = comments l"
proof (induction P code l acc arbitrary: s l' rule: eat_while.induct)
  case (1 P code l acc)
  then show ?case
    by (subst (asm) eat_while.simps, fastforce split: if_splits)
qed

lemma eat_while_ptr: "char_ptr l \<le> char_ptr (snd (eat_while P code l acc))"
  by (metis eat_while_fields prod.collapse)

lemma hex_escape_ptr: "hex_escape code l str = Inr (s, l') \<Longrightarrow> char_ptr l + 2 \<le> char_ptr l'"
  using eat_while_ptr [of "eat_char 2 l" is_hex_char code "[]"]
  by (auto simp: hex_escape_def Let_def split: if_splits prod.splits)

lemma char_escape_ptr: "char_escape code l str = Inr (s, l') \<Longrightarrow> char_ptr l < char_ptr l'"
  by (auto simp: char_escape_def Let_def dest: hex_escape_ptr split: if_splits)

lemma string_escape_ptr: "string_escape code l str = Inr (s, l') \<Longrightarrow> char_ptr l < char_ptr l'"
  by (auto simp: string_escape_def Let_def dest: hex_escape_ptr split: if_splits)

lemma char_escape_decreases:
  assumes "char_escape code l str = Inr (s, l')"
  shows "length code - char_ptr l' < length code - char_ptr l"
proof -
  have "get_char code l 1 \<noteq> NUL"
    using assms by (auto simp: char_escape_def Let_def)
  then have "char_ptr l < length code"
    by (auto simp: get_char_def split: if_splits)
  with char_escape_ptr [OF assms] show ?thesis by simp
qed

function char_body :: "string \<Rightarrow> lexer \<Rightarrow> string \<Rightarrow> (string \<times> lexer) res" where
  "char_body code l str =
     (let c = get_char code l 0 in
      if c = SQUOTE then Inr (str, l)
      else if c = BACKSLASH then
        (case char_escape code l str of Inl e \<Rightarrow> Inl e | Inr (str', l') \<Rightarrow> char_body code l' str')
      else if c = NUL
      then Inl (lexer_error l UNEXPECTED_EOF ''Unexpected EOF while lexing character!'' 1)
      else if c = NL
      then Inl (lexer_error l SYNTAX_ERROR ''Characters can't contain new lines!'' 1)
      else char_body code (eat_char 1 l) (str @ [c]))"
  by pat_completeness auto
termination
by (relation "measure (\<lambda>(code, l, str). length code - char_ptr l)")
    (auto dest: get_char_not_NUL char_escape_decreases)

declare char_body.simps [simp del]

definition lex_char_literal :: "string \<Rightarrow> lexer \<Rightarrow> lexer res" where
  "lex_char_literal code l =
     bindR (char_body code (eat_char 1 l) []) (\<lambda>(str, l1).
       let l2 = eat_char 1 l1 in
       if length str \<noteq> 1
       then Inl (lexer_error l2 SYNTAX_ERROR ''Character values can only have a length of 1!'' 1)
       else Inr (push_token (empty_token\<lparr>tok_type := VALUE_CHAR, tok_value := str,
                   tok_col := cur_col l2 - (int (length str) + 2), tok_line := cur_line l2\<rparr>) l2))"

lemma string_escape_decreases:
  assumes "string_escape code l str = Inr (s, l')"
  shows "length code - char_ptr l' < length code - char_ptr l"
proof -
  have "get_char code l 1 \<noteq> NUL"
    using assms by (auto simp: string_escape_def Let_def)
  then have "char_ptr l < length code"
    by (auto simp: get_char_def split: if_splits)
  with string_escape_ptr [OF assms] show ?thesis by simp
qed

function string_body :: "string \<Rightarrow> lexer \<Rightarrow> string \<Rightarrow> (string \<times> lexer) res" where
  "string_body code l str =
     (let c = get_char code l 0 in
      if c = DQUOTE then Inr (str, l)
      else if c = BACKSLASH then
        (case string_escape code l str of Inl e \<Rightarrow> Inl e | Inr (str', l') \<Rightarrow> string_body code l' str')
      else if c = NUL
      then Inl (lexer_error l UNEXPECTED_EOF ''Unexpected EOF while lexing character!'' 1)
      else if c = NL then string_body code (eat_line l) (str @ [c])
      else string_body code (eat_char 1 l) (str @ [c]))"
  by pat_completeness auto
termination
by (relation "measure (\<lambda>(code, l, str). length code - char_ptr l)")
    (auto dest: get_char_not_NUL string_escape_decreases)

declare string_body.simps [simp del]

definition lex_string_literal :: "string \<Rightarrow> lexer \<Rightarrow> lexer res" where
  "lex_string_literal code l =
     (let l0 = eat_char 1 l; col = cur_col l0; line = cur_line l0 in
      bindR (string_body code l0 []) (\<lambda>(str, l1).
        let l2 = eat_char 1 l1 in
        Inr (push_token (empty_token\<lparr>tok_type := VALUE_STRING, tok_value := str,
               tok_col := col - 1, tok_line := line\<rparr>) l2)))"

section \<open>Numbers\<close>

definition dec_value :: "string \<Rightarrow> nat" where
  "dec_value s = foldl (\<lambda>v c. 10 * v + (byte_of c - 48)) 0 s"

text \<open>
  A literal \<^verbatim>\<open>.ddd\<close>: \<^verbatim>\<open>std::stod\<close> rounds \<open>d / 10 ^ n\<close> to the nearest double
  (to 1.0 when it is within half a unit of it, ties to even) and throws on an inexact
  underflow. The code then assigns the \<^verbatim>\<open>double\<close> to the token's \<^verbatim>\<open>std::string\<close>
  value, which converts it to a single \<^verbatim>\<open>char\<close>.
\<close>

definition stod_as_char :: "string \<Rightarrow> char res" where
  "stod_as_char ds =
     (let d = dec_value ds; p = 10 ^ length ds in
      if 0 < d \<and> d * 2 ^ 1022 < p \<and> \<not> p dvd d * 2 ^ 1074 then Inl (StdException ''out_of_range'')
      else if (p - d) * 2 ^ 54 \<le> p then Inr (CHR 0x01)
      else Inr (CHR 0x00))"

definition lex_float :: "string \<Rightarrow> lexer \<Rightarrow> lexer res" where
  "lex_float code l =
     (let (digits, l1) = eat_while is_num code (eat_char 1 l) [] in
      bindR (stod_as_char digits) (\<lambda>float_val.
        Inr (push_token (empty_token\<lparr>tok_type := VALUE_FLOAT, tok_line := cur_line l1,
               tok_col := cur_col l1 - (1 + int (length digits)), tok_value := [float_val]\<rparr>) l1)))"

datatype ReadMode = M_INT | M_FLOAT | M_BIN | M_HEX | M_OCT

definition read_mode :: "string \<Rightarrow> lexer \<Rightarrow> ReadMode" where
  "read_mode code l =
     (if get_char code l 0 = CHR ''0'' then
        (let c = get_char code l 1 in
         if c = CHR ''o'' \<or> c = CHR ''O'' then M_OCT
         else if c = CHR ''x'' \<or> c = CHR ''X'' then M_HEX
         else if c = CHR ''b'' \<or> c = CHR ''B'' then M_BIN else M_INT)
      else M_INT)"

text \<open>The decimal loop; a second dot turns the literal into a range and drops the last character.\<close>

function int_loop :: "string \<Rightarrow> lexer \<Rightarrow> string \<Rightarrow> ReadMode \<Rightarrow> string \<times> ReadMode \<times> bool \<times> lexer" where
  "int_loop code l num mode =
     (let c = get_char code l 0 in
      if is_num c \<or> c = CHR ''.'' then
        (if c = CHR ''.'' \<and> mode = M_FLOAT then (butlast num, M_INT, True, l)
         else int_loop code (eat_char 1 l) (num @ [c]) (if c = CHR ''.'' then M_FLOAT else mode))
      else (num, mode, False, l))"
  by pat_completeness auto
termination
  by (relation "measure (\<lambda>(code, l, num, mode). length code - char_ptr l)")
    (auto simp: get_char_def is_num_def split: if_splits)

declare int_loop.simps [simp del]

definition is_bin_char :: "char \<Rightarrow> bool" where
  "is_bin_char c \<longleftrightarrow> c = CHR ''0'' \<or> c = CHR ''1''"

definition is_oct_char :: "char \<Rightarrow> bool" where
  "is_oct_char c \<longleftrightarrow> 48 \<le> byte_of c \<and> byte_of c \<le> 55"

definition read_digits ::
    "string \<Rightarrow> lexer \<Rightarrow> string \<Rightarrow> ReadMode \<Rightarrow> string \<times> ReadMode \<times> bool \<times> lexer" where
  "read_digits code l num mode =
     (let prefixed = (\<lambda>P. let (num', l') = eat_while P code (eat_char 1 l) (num @ [get_char code l 0])
                          in (num', mode, False, l')) in
      case mode of
        M_BIN \<Rightarrow> prefixed is_bin_char
      | M_HEX \<Rightarrow> prefixed is_hex_char
      | M_OCT \<Rightarrow> prefixed is_oct_char
      | _ \<Rightarrow> int_loop code l num mode)"

text \<open>The type suffixes \<open>u\<close>, \<open>i\<close>, \<open>l\<close>, moved in front of the literal.\<close>

definition read_suffix :: "string \<Rightarrow> lexer \<Rightarrow> string \<times> lexer" where
  "read_suffix code l =
     (let c = get_char code l 0;
          (p1, l1) = (if c = CHR ''u'' \<or> c = CHR ''U'' then (''u'', eat_char 1 l)
                      else if c = CHR ''i'' \<or> c = CHR ''I'' then (''i'', eat_char 1 l)
                      else ([], l));
          c' = get_char code l1 0
      in if c' = CHR ''l'' \<or> c' = CHR ''L'' then (p1 @ ''l'', eat_char 1 l1) else (p1, l1))"

definition uneat :: "lexer \<Rightarrow> lexer" where
  "uneat l = l\<lparr>char_ptr := char_ptr l - 1\<rparr>"

definition lex_number :: "string \<Rightarrow> lexer \<Rightarrow> lexer" where
  "lex_number code l =
     (let (num0, mode0, isRange, l1) =
            read_digits code (eat_char 1 l) [get_char code l 0] (read_mode code l);
          appendDot = (last num0 = CHR ''.'');
          num = (if appendDot then butlast num0 else num0);
          mode = (if appendDot then M_INT else mode0);
          (prefix, l2) = read_suffix code l1;
          tk = empty_token\<lparr>tok_line := cur_line l1, tok_col := cur_col l1 - int (length num),
                 tok_value := prefix @ num,
                 tok_type := (if mode = M_FLOAT then VALUE_FLOAT else VALUE_NUMBER)\<rparr>;
          l3 = push_token tk l2;
          l4 = (if isRange then uneat (consume (Sym SYM_DOT) 1 (consume (Sym SYM_DOT) 1 l3)) else l3)
      in if appendDot then uneat (consume (Sym SYM_DOT) 1 l4) else l4)"

section \<open>Identifiers and keywords\<close>

definition keyword_type :: "string \<Rightarrow> TokenType" where
  "keyword_type identifier =
    (if identifier = ''new'' then Kword KWORD_NEW
     else if identifier = ''throw'' then Kword KWORD_THROW
     else if identifier = ''if'' then Kword KWORD_IF
     else if identifier = ''let'' then Kword KWORD_VAR
     else if identifier = ''for'' then Kword KWORD_FOR
     else if identifier = ''enum'' then Kword KWORD_ENUM
     else if identifier = ''decltype'' then Kword KWORD_DECLTYPE
     else if identifier = ''func'' then Kword KWORD_FUNC
     else if identifier = ''macro'' then Kword KWORD_MACRO
     else if identifier = ''operator'' then Kword KWORD_OPERATOR
     else if identifier = ''else'' then Kword KWORD_ELSE
     else if identifier = ''class'' then Kword KWORD_CLASS
     else if identifier = ''as'' then Kword KWORD_AS
     else if identifier = ''const'' then Kword KWORD_CONST
     else if identifier = ''while'' then Kword KWORD_WHILE
     else if identifier = ''break'' then Kword KWORD_BREAK
     else if identifier = ''external'' then Kword KWORD_EXTERN
     else if identifier = ''super'' then Kword KWORD_SUPER
     else if identifier = ''case'' then Kword KWORD_CASE
     else if identifier = ''switch'' then Kword KWORD_SWITCH
     else if identifier = ''static'' then Kword KWORD_STATIC
     else if identifier = ''import'' then Kword KWORD_IMPORT
     else if identifier = ''unsafe'' then Kword KWORD_UNSAFE
     else if identifier = ''constexpr'' then Kword KWORD_CONSTEXPR
     else if identifier = ''namespace'' then Kword KWORD_NAMESPACE
     else if identifier = ''struct'' then Kword KWORD_STRUCT
     else if identifier = ''type'' then Kword KWORD_TYPEDEF
     else if identifier = ''mut'' then Kword KWORD_MUTABLE
     else if identifier = ''do'' then Kword KWORD_DO
     else if identifier = ''private'' then Kword KWORD_PRIVATE
     else if identifier = ''public'' then Kword KWORD_PUBLIC
     else if identifier = ''virtual'' then Kword KWORD_VIRTUAL
     else if identifier = ''override'' then Kword KWORD_OVERRIDE
     else if identifier = ''return'' then Kword KWORD_RETURN
     else if identifier = ''default'' then Kword KWORD_DEFAULT
     else if identifier = ''continue'' then Kword KWORD_CONTINUE
     else if identifier = ''try'' then Kword KWORD_TRY
     else if identifier = ''catch'' then Kword KWORD_CATCH
     else if identifier = ''interface'' then Kword KWORD_INTER
     else if identifier = ''extends'' then Kword KWORD_EXTENDS
     else if identifier = ''implements'' then Kword KWORD_IMPLEMENTS
     else if identifier = ''true'' \<or> identifier = ''false'' then VALUE_BOOL
     else IDENTIFIER)"

text \<open>
  Declaring keywords take the pending comment, modifiers and identifiers leave it for the
  next token, everything else drops it.
\<close>

definition takes_comment :: "TokenType \<Rightarrow> bool" where
  "takes_comment ty \<longleftrightarrow> (case ty of Kword k \<Rightarrow>
      k \<in> {KWORD_FUNC, KWORD_MACRO, KWORD_CLASS, KWORD_STRUCT, KWORD_ENUM, KWORD_NAMESPACE,
           KWORD_INTER, KWORD_VAR, KWORD_CONST, KWORD_TYPEDEF, KWORD_OPERATOR}
    | _ \<Rightarrow> False)"

definition keeps_comment :: "TokenType \<Rightarrow> bool" where
  "keeps_comment ty \<longleftrightarrow> (case ty of Kword k \<Rightarrow>
      k \<in> {KWORD_PUBLIC, KWORD_PRIVATE, KWORD_VIRTUAL, KWORD_STATIC, KWORD_EXTERN,
           KWORD_UNSAFE, KWORD_MUTABLE}
    | IDENTIFIER \<Rightarrow> True
    | _ \<Rightarrow> False)"

definition lex_identifier :: "string \<Rightarrow> lexer \<Rightarrow> lexer" where
  "lex_identifier code l =
     (let (identifier, l1) = eat_while (\<lambda>c. is_text c \<or> is_num c) code (eat_char 1 l) [get_char code l 0];
          ty = keyword_type identifier;
          tk = empty_token\<lparr>tok_type := ty, tok_line := cur_line l1,
                 tok_col := cur_col l1 - int (length identifier), tok_value := identifier\<rparr>
      in if takes_comment ty
         then push_token (tk\<lparr>tok_comment := comments l1\<rparr>) (l1\<lparr>comments := []\<rparr>)
         else if keeps_comment ty then push_token tk l1
         else push_token tk (l1\<lparr>comments := []\<rparr>))"

section \<open>The character switch and the main loop\<close>

definition byte_at :: "string \<Rightarrow> nat \<Rightarrow> 8 word" where
  "byte_at s i = of_nat (byte_of (s ! i))"

text \<open>\<^verbatim>\<open>utils::getUTF8FromIndex\<close>; an ill-formed lead byte gives the empty string.\<close>

definition getUTF8FromIndex :: "string \<Rightarrow> nat \<Rightarrow> string" where
  "getUTF8FromIndex s index =
     (let c = byte_at s index in
      if c AND 0x80 \<noteq> 0 then
        (if c AND 0xE0 = 0xC0 then take 2 (drop index s)
         else if c AND 0xF0 = 0xE0 then take 3 (drop index s)
         else if c AND 0xF8 = 0xF0 then take 4 (drop index s)
         else [])
      else [s ! index])"

text \<open>The UTF-8 bytes of the monkey of the easter egg.\<close>

definition monke :: string where
  "monke = [CHR 0xF0, CHR 0x9F, CHR 0x90, CHR 0x92]"

definition lex_default :: "string \<Rightarrow> lexer \<Rightarrow> lexer res" where
  "lex_default code l =
     (let c = get_char code l 0 in
      if c = CHR ''.'' \<and> is_num (get_char code l 1) then lex_float code l
      else if is_num c then Inr (lex_number code l)
      else if is_text c then Inr (lex_identifier code l)
      else if c = CHR ''.'' then Inr (consume (Sym SYM_DOT) 1 l)
      else (let u = getUTF8FromIndex code (char_ptr l) in
            if u = monke then Inl (lexer_error l SYNTAX_ERROR ''Unexpected MONKE found!'' 1)
            else Inl (lexer_error l SYNTAX_ERROR
                   (''Unexpected character found '' @ [SQUOTE] @ c_str u @ [SQUOTE] @ '' while lexing.'') 1)))"

definition lex_step :: "string \<Rightarrow> lexer \<Rightarrow> lexer res" where
  "lex_step code l =
     (let c = get_char code l 0 in
      if c = NUL then Inr (handle_eof True l)
      else if c = CHR '' '' \<or> c = TAB then Inr (eat_char 1 l)
      else if c = NL then Inr (eat_line l)
      else if c = CHR ''/'' then lex_slash code l
      else if c = BACKSLASH
      then Inl (lexer_error l SYNTAX_ERROR (''invalid character '' @ [SQUOTE, BACKSLASH, SQUOTE] @ ''.'') 1)
      else if c = SQUOTE then lex_char_literal code l
      else if c = DQUOTE then lex_string_literal code l
      else (case lex_symbol code l of
              Some l' \<Rightarrow> Inr l'
            | None \<Rightarrow> (case lex_operator code l of
                        Some l' \<Rightarrow> Inr l'
                      | None \<Rightarrow> lex_default code l)))"

section \<open>Progress of one step\<close>

declare One_nat_def [simp del]

text \<open>
  \<open>reads l l'\<close>: characters were read, no token emitted. \<open>advances l l'\<close>: at least one
  character was consumed and the new tokens, in order, carry lines between the two positions.
\<close>

definition reads :: "lexer \<Rightarrow> lexer \<Rightarrow> bool" where
  "reads l l' \<longleftrightarrow> char_ptr l \<le> char_ptr l' \<and> cur_line l \<le> cur_line l' \<and> tokens l' = tokens l"

definition advances :: "lexer \<Rightarrow> lexer \<Rightarrow> bool" where
  "advances l l' \<longleftrightarrow> char_ptr l < char_ptr l' \<and>
     (\<exists>ts. tokens l' = tokens l @ ts \<and> sorted (cur_line l # map tok_line ts @ [cur_line l']))"

lemma reads_refl [simp]: "reads l l"
  by (simp add: reads_def)

lemma reads_trans: "reads a b \<Longrightarrow> reads b c \<Longrightarrow> reads a c"
  by (auto simp: reads_def)

lemma advancesI:
  "char_ptr l < char_ptr l' \<Longrightarrow> tokens l' = tokens l @ ts \<Longrightarrow>
     sorted (cur_line l # map tok_line ts @ [cur_line l']) \<Longrightarrow> advances l l'"
  by (auto simp: advances_def)

lemma eat_while_reads: "eat_while P code l acc = (s, l') \<Longrightarrow> reads l l'"
  using eat_while_fields [of P code l acc s l'] by (simp add: reads_def)

lemma consume_fields [simp]:
  "char_ptr (consume ty n l) = char_ptr l + n" "cur_line (consume ty n l) = cur_line l"
  "tokens (consume ty n l) = tokens l @ [\<lparr>tok_type = ty, tok_line = cur_line l,
     tok_col = cur_col l, tok_value = [], tok_comment = []\<rparr>]"
  "comments (consume ty n l) = comments l"
  by (simp_all add: consume_def push_token_def empty_token_def)

lemma push_token_fields [simp]:
  "char_ptr (push_token tk l) = char_ptr l" "cur_line (push_token tk l) = cur_line l"
  "tokens (push_token tk l) = tokens l @ [tk]" "comments (push_token tk l) = comments l"
  by (simp_all add: push_token_def)

lemma handle_eof_fields [simp]:
  "char_ptr (handle_eof b l) = char_ptr l + (if b then 1 else 0)"
  "cur_line (handle_eof b l) = cur_line l"
  "tokens (handle_eof b l) = tokens l @ [\<lparr>tok_type = TK_EOF, tok_line = cur_line l,
     tok_col = cur_col l, tok_value = [], tok_comment = []\<rparr>]"
  by (simp_all add: handle_eof_def Let_def empty_token_def)

lemma consume_advances: "0 < n \<Longrightarrow> advances l (consume ty n l)"
  by (rule advancesI) auto

lemma lex_symbol_advances: "lex_symbol code l = Some l' \<Longrightarrow> advances l l'"
  by (auto simp: lex_symbol_def Let_def intro!: consume_advances split: if_splits)

lemma lex_operator_advances: "lex_operator code l = Some l' \<Longrightarrow> advances l l'"
  by (auto simp: lex_operator_def Let_def intro!: consume_advances split: if_splits)
    (rule advancesI, auto)

lemma multi_line_comment_reads:
  "multi_line_comment code l comment = Inr (s, l') \<Longrightarrow> reads l l'"
proof (induction code l comment rule: multi_line_comment.induct)
  case (1 code l comment)
  show ?case
    using 1 by (subst (asm) multi_line_comment.simps) (auto simp: reads_def split: if_splits)
qed


lemma line_comment_advances:
  assumes "line_comment code l = (s, l')" and "get_char code l 0 = CHR ''/''"
  shows "advances l l'"
proof -
  let ?P = "\<lambda>c. c \<noteq> NL \<and> c \<noteq> NUL"
  obtain c1 l1 where e: "eat_while ?P code l [] = (c1, l1)" by fastforce
  have "char_ptr l < length code"
    using assms(2) by (intro get_char_not_NUL) simp
  then have "eat_while ?P code (eat_char 1 l) [CHR ''/''] = (c1, l1)"
    using assms(2) e by (subst (asm) eat_while.simps) simp
  from eat_while_fields [OF this]
  have "char_ptr l < char_ptr l1" "cur_line l1 = cur_line l" "tokens l1 = tokens l"
    by simp_all
  then show ?thesis
    using assms(1) e by (auto simp: line_comment_def Let_def intro!: advancesI split: if_splits)
qed

lemma lex_slash_advances:
  assumes "lex_slash code l = Inr l'" and "get_char code l 0 = CHR ''/''"
  shows "advances l l'"
proof -
  have "advances l (l1\<lparr>comments := s\<rparr>)" if "line_comment code l = (s, l1)" for s l1
    using line_comment_advances [OF that assms(2)] by (simp add: advances_def)
  moreover have "advances l (l1\<lparr>comments := s\<rparr>)"
    if "multi_line_comment code (eat_char 2 l) ''/*'' = Inr (s, l1)" for s l1
    using multi_line_comment_reads [OF that] by (auto simp: reads_def intro!: advancesI)
  ultimately show ?thesis
    using assms(1) by (auto simp: lex_slash_def res_simps Let_def intro!: consume_advances
        split: if_splits prod.splits)
qed

lemma hex_escape_reads: "hex_escape code l str = Inr (s, l') \<Longrightarrow> reads l l'"
  by (auto simp: hex_escape_def Let_def reads_def dest!: eat_while_fields split: if_splits prod.splits)

lemma char_escape_reads: "char_escape code l str = Inr (s, l') \<Longrightarrow> reads l l'"
  by (auto simp: char_escape_def Let_def dest: hex_escape_reads split: if_splits)
    (auto simp: reads_def)

lemma string_escape_reads: "string_escape code l str = Inr (s, l') \<Longrightarrow> reads l l'"
  by (auto simp: string_escape_def Let_def dest: hex_escape_reads split: if_splits)
    (auto simp: reads_def)

lemma char_body_reads: "char_body code l str = Inr (s, l') \<Longrightarrow> reads l l'"
proof (induction code l str rule: char_body.induct)
  case (1 code l str)
  note IH = "1.IH" [OF refl]
  show ?case
  proof (cases "get_char code l 0 = BACKSLASH")
    case True
    then obtain str1 l1 where e: "char_escape code l str = Inr (str1, l1)"
      and b: "char_body code l1 str1 = Inr (s, l')"
      using "1.prems" by (subst (asm) char_body.simps) (auto split: sum.splits)
    then show ?thesis
      using reads_trans [OF char_escape_reads [OF e] IH(1) [OF _ True e refl b]] True by simp
  next
    case False
    then show ?thesis
      using IH(2) "1.prems"
      by (subst (asm) (2) char_body.simps)
        (auto simp: Let_def reads_def split: if_splits)
  qed
qed

lemma string_body_reads: "string_body code l str = Inr (s, l') \<Longrightarrow> reads l l'"
proof (induction code l str rule: string_body.induct)
  case (1 code l str)
  note IH = "1.IH" [OF refl]
  show ?case
  proof (cases "get_char code l 0 = BACKSLASH")
    case True
    then obtain str1 l1 where e: "string_escape code l str = Inr (str1, l1)"
      and b: "string_body code l1 str1 = Inr (s, l')"
      using "1.prems" by (subst (asm) string_body.simps) (auto split: sum.splits)
    then show ?thesis
      using reads_trans [OF string_escape_reads [OF e] IH(1) [OF _ True e refl b]] True by simp
  next
    case False
    then show ?thesis
      using IH(2,3) "1.prems"
      by (subst (asm) (3) string_body.simps)
        (auto simp: Let_def reads_def split: if_splits)
  qed
qed

lemma lex_char_literal_advances: "lex_char_literal code l = Inr l' \<Longrightarrow> advances l l'"
  by (auto simp: lex_char_literal_def res_simps Let_def empty_token_def reads_def
      dest!: char_body_reads split: if_splits intro!: advancesI)

lemma lex_string_literal_advances: "lex_string_literal code l = Inr l' \<Longrightarrow> advances l l'"
  by (auto simp: lex_string_literal_def res_simps Let_def empty_token_def reads_def
      dest!: string_body_reads intro!: advancesI)

lemma lex_float_advances: "lex_float code l = Inr l' \<Longrightarrow> advances l l'"
  by (auto simp: lex_float_def res_simps Let_def empty_token_def
      dest!: eat_while_fields split: prod.splits intro!: advancesI)

lemma int_loop_reads: "int_loop code l num mode = (num', mode', r, l') \<Longrightarrow> reads l l'"
proof (induction code l num mode arbitrary: num' mode' r l' rule: int_loop.induct)
  case (1 code l num mode)
  note IH = "1.IH" [OF refl]
  let ?c = "get_char code l 0"
  show ?case
  proof (cases "(is_num ?c \<or> ?c = CHR ''.'') \<and> \<not> (?c = CHR ''.'' \<and> mode = M_FLOAT)")
    case True
    then have "int_loop code (eat_char 1 l) (num @ [?c]) (if ?c = CHR ''.'' then M_FLOAT else mode)
        = (num', mode', r, l')"
      using "1.prems" by (subst (asm) int_loop.simps) (auto simp: Let_def split: if_splits)
    with IH True have "reads (eat_char 1 l) l'" by blast
    then show ?thesis by (auto simp: reads_def)
  next
    case False
    then show ?thesis
      using "1.prems" by (subst (asm) int_loop.simps) (auto simp: Let_def split: if_splits)
  qed
qed

lemma read_digits_reads: "read_digits code l num mode = (num', mode', r, l') \<Longrightarrow> reads l l'"
  by (auto simp: read_digits_def Let_def reads_def split: ReadMode.splits prod.splits
      dest!: eat_while_fields int_loop_reads [unfolded reads_def])

lemma read_suffix_reads: "read_suffix code l = (s, l') \<Longrightarrow> reads l l'"
  by (auto simp: read_suffix_def Let_def reads_def split: if_splits)

lemma uneat_fields [simp]:
  "char_ptr (uneat l) = char_ptr l - 1" "cur_line (uneat l) = cur_line l" "tokens (uneat l) = tokens l"
  by (simp_all add: uneat_def)

lemma lex_number_advances: "advances l (lex_number code l)"
proof -
  obtain num mode r l1 where d: "read_digits code (eat_char 1 l) [get_char code l 0] (read_mode code l)
      = (num, mode, r, l1)" by (metis prod_cases4)
  obtain p l2 where s: "read_suffix code l1 = (p, l2)" by fastforce
  show ?thesis
    using read_digits_reads [OF d] read_suffix_reads [OF s]
    by (auto simp: lex_number_def d s Let_def reads_def empty_token_def intro!: advancesI)
qed

lemma lex_identifier_advances: "advances l (lex_identifier code l)"
proof -
  obtain i l1 where e: "eat_while (\<lambda>c. is_text c \<or> is_num c) code (eat_char 1 l)
      [get_char code l 0] = (i, l1)" by fastforce
  show ?thesis
    using eat_while_fields [OF e]
    by (auto simp: lex_identifier_def e Let_def empty_token_def intro!: advancesI)
qed

lemma lex_default_advances: "lex_default code l = Inr l' \<Longrightarrow> advances l l'"
  by (auto simp: lex_default_def Let_def lex_number_advances lex_identifier_advances
      intro: lex_float_advances consume_advances split: if_splits)

lemma lex_step_advances:
  assumes "lex_step code l = Inr l'"
  shows "advances l l'"
proof -
  have "advances l (handle_eof True l)" "advances l (eat_char 1 l)" "advances l (eat_line l)"
    by (auto intro!: advancesI)
  then show ?thesis
    using assms
    by (auto simp: lex_step_def Let_def intro: lex_slash_advances lex_char_literal_advances
        lex_string_literal_advances lex_symbol_advances lex_operator_advances lex_default_advances
        split: if_splits option.splits)
qed

section \<open>The whole text\<close>

function lex_loop :: "string \<Rightarrow> lexer \<Rightarrow> lexer res" where
  "lex_loop code l =
     (if char_ptr l < length code then bindR (lex_step code l) (lex_loop code) else Inr l)"
  by pat_completeness auto
termination
  by (relation "measure (\<lambda>(code, l). length code - char_ptr l)")
    (auto dest!: lex_step_advances simp: advances_def)

declare lex_loop.simps [simp del]

text \<open>\<^verbatim>\<open>Lexer::tokenize\<close>; an empty text leaves the token list empty.\<close>

definition tokenize :: "string \<Rightarrow> Token list res" where
  "tokenize code =
     (if length code = 0 then Inr []
      else bindR (lex_loop code init_lexer) (\<lambda>l.
        Inr (tokens (if tokens l = [] \<or> tok_type (last (tokens l)) \<noteq> TK_EOF
                     then handle_eof False l else l))))"

interpretation lex: iteration "\<lambda>l. char_ptr l < length code" "lex_step code" "lex_loop code"
    "\<lambda>l. length code - char_ptr l" for code
proof unfold_locales
  show "lex_loop code s = (if char_ptr s < length code then bindR (lex_step code s) (lex_loop code) else Inr s)" for s
    by (rule lex_loop.simps)
  show "length code - char_ptr s' < length code - char_ptr s"
    if "char_ptr s < length code" "lex_step code s = Inr s'" for s s'
    using that by (auto dest!: lex_step_advances simp: advances_def)
qed

definition later :: "lexer \<Rightarrow> lexer \<Rightarrow> bool" where
  "later l l' \<longleftrightarrow> (\<exists>ts. tokens l' = tokens l @ ts \<and> sorted (cur_line l # map tok_line ts @ [cur_line l']))"

lemma later_refl: "later l l"
  by (auto simp: later_def)

lemma later_trans: "later a b \<Longrightarrow> later b c \<Longrightarrow> later a c"
  by (fastforce simp: later_def sorted_append)

lemma advances_later: "advances l l' \<Longrightarrow> later l l'"
  by (auto simp: advances_def later_def)

lemma lex_loop_later: "lex_loop code l = Inr l' \<Longrightarrow> later l l' \<and> \<not> char_ptr l' < length code"
  by (rule lex.run_relates)
    (auto intro: later_refl later_trans advances_later dest: lex_step_advances)

end
