(* ===== verification/Lexer_Props.thy ===== *)
theory Lexer_Props
  imports Lexer
begin

text \<open>
  What the tokenizer guarantees: the shape of its output, the classification of its errors,
  the keyword table and its inverse, and the round trip through the printed form of tokens.
\<close>

declare One_nat_def [simp del]

section \<open>Shape of the output\<close>

text \<open>
  C1. Tokenizing a non-empty text, when it succeeds, yields a non-empty token list whose last
  token is the end-of-file token and whose line numbers start at 1 or later and never
  decrease.
\<close>

theorem tokenize_shape:
  assumes "tokenize code = Inr ts" and "code \<noteq> []"
  shows "ts \<noteq> [] \<and> tok_type (last ts) = TK_EOF \<and> sorted (map tok_line ts)
    \<and> (\<forall>t\<in>set ts. 1 \<le> tok_line t)"
proof -
  obtain l where l: "lex_loop code init_lexer = Inr l"
    and ts: "ts = tokens (if tokens l = [] \<or> tok_type (last (tokens l)) \<noteq> TK_EOF
                     then handle_eof False l else l)"
    using assms by (auto simp: tokenize_def res_simps)
  have "later init_lexer l"
    using lex_loop_later [OF l] by simp
  then show ?thesis
    using ts by (auto simp: later_def init_lexer_def sorted_append)
qed

theorem tokenize_shape_witness:
  "\<exists>ts. tokenize ''let x;'' = Inr ts \<and> tok_type (last ts) = TK_EOF"
proof -
  obtain ts where "tokenize ''let x;'' = Inr ts"
    by (simp add: tokenize_def init_lexer_def lex_loop.simps lex_step_def lex_default_def
        lex_symbol_def lex_operator_def lex_identifier_def eat_while.simps get_char_def is_num_def
        is_text_def eat_char_def keyword_type_def takes_comment_def keeps_comment_def
        push_token_def consume_def empty_token_def handle_eof_def Let_def)
  with tokenize_shape [OF this] show ?thesis by simp
qed

section \<open>Errors\<close>

definition lex_failure :: "failure \<Rightarrow> bool" where
  "lex_failure e \<longleftrightarrow> e = StdException ''out_of_range'' \<or>
     (\<exists>d. e = LexerError d \<and> d_error d \<in> {SYNTAX_ERROR, UNEXPECTED_EOF})"

lemma lex_failure_lexer_error [simp]:
  "lex_failure (lexer_error l err msg w) \<longleftrightarrow> err = SYNTAX_ERROR \<or> err = UNEXPECTED_EOF"
  by (auto simp: lex_failure_def lexer_error_def)

lemma multi_line_comment_failure: "multi_line_comment code l s = Inl e \<Longrightarrow> lex_failure e"
proof (induction code l s rule: multi_line_comment.induct)
  case (1 code l s)
  then show ?case
    by (subst (asm) (3) multi_line_comment.simps) (auto split: if_splits)
qed

lemma hex_escape_failure: "hex_escape code l s = Inl e \<Longrightarrow> lex_failure e"
  by (auto simp: hex_escape_def Let_def split: if_splits prod.splits) (simp add: lex_failure_def)

lemma char_escape_failure: "char_escape code l s = Inl e \<Longrightarrow> lex_failure e"
  by (auto simp: char_escape_def Let_def dest: hex_escape_failure split: if_splits)

lemma string_escape_failure: "string_escape code l s = Inl e \<Longrightarrow> lex_failure e"
  by (auto simp: string_escape_def Let_def dest: hex_escape_failure split: if_splits)

lemma char_body_failure: "char_body code l s = Inl e \<Longrightarrow> lex_failure e"
proof (induction code l s rule: char_body.induct)
  case (1 code l s)
  then show ?case
    by (subst (asm) (3) char_body.simps)
      (auto simp: Let_def dest: char_escape_failure split: if_splits sum.splits)
qed

lemma string_body_failure: "string_body code l s = Inl e \<Longrightarrow> lex_failure e"
proof (induction code l s rule: string_body.induct)
  case (1 code l s)
  then show ?case
    by (subst (asm) (4) string_body.simps)
      (auto simp: Let_def dest: string_escape_failure split: if_splits sum.splits)
qed

lemma lex_step_failure: "lex_step code l = Inl e \<Longrightarrow> lex_failure e"
  by (auto simp: lex_step_def lex_default_def lex_slash_def lex_char_literal_def
      lex_string_literal_def lex_float_def stod_as_char_def Let_def res_simps
      dest: multi_line_comment_failure char_body_failure string_body_failure
      split: if_splits option.splits prod.splits)
    (simp_all add: lex_failure_def)

text \<open>
  C2. The tokenizer is total and fails in two ways only: a lexer error with the code
  \<^verbatim>\<open>SYNTAX_ERROR\<close> or \<^verbatim>\<open>UNEXPECTED_EOF\<close>, or the uncaught
  \<^verbatim>\<open>std::out_of_range\<close> of a number conversion.
\<close>

theorem tokenize_failures:
  assumes "tokenize code = Inl e"
  shows "e = StdException ''out_of_range'' \<or>
    (\<exists>d. e = LexerError d \<and> d_error d \<in> {SYNTAX_ERROR, UNEXPECTED_EOF})"
proof -
  have "lex_loop code init_lexer = Inl e"
    using assms by (auto simp: tokenize_def res_simps split: if_splits)
  then show ?thesis
    using lex.run_error [where I = "\<lambda>_. True"] lex_step_failure
    by (metis lex_failure_def)
qed

theorem tokenize_failures_witness:
  "\<exists>d. tokenize [DQUOTE] = Inl (LexerError d) \<and> d_error d = UNEXPECTED_EOF"
proof -
  have e: "tokenize [DQUOTE] = Inl (LexerError \<lparr>d_error = UNEXPECTED_EOF,
      d_msg = ''Unexpected EOF while lexing character!'', d_line = 1, d_col = 2, d_width = 1\<rparr>)"
    by (simp add: tokenize_def init_lexer_def lex_loop.simps lex_step_def lex_string_literal_def
        string_body.simps get_char_def lexer_error_def eat_char_def Let_def)
  from tokenize_failures [OF e] show ?thesis using e by auto
qed

section \<open>Keywords\<close>

lemma keyword_type_to_string:
  "k \<notin> {KWORD__START__POINT, KWORD__ENDING__POINT} \<Longrightarrow> keyword_type (keyword_to_string k) = Kword k"
  by (cases k) (simp_all add: keyword_to_string_def keyword_type_def)

lemma keyword_type_Kword: "keyword_type s = Kword k \<Longrightarrow> keyword_to_string k = s"
  by (auto simp: keyword_type_def keyword_to_string_def split: if_splits)

lemma keyword_type_cases:
  "keyword_type s = IDENTIFIER \<or> keyword_type s = VALUE_BOOL \<or> (\<exists>k. keyword_type s = Kword k)"
  unfolding keyword_type_def by (simp split: if_split)

text \<open>
  The keyword test of the lexer is the inverse of the spelling table of the tokens: every
  keyword is recognised from its spelling, a text recognised as a keyword is that keyword's
  spelling, and everything else is an identifier or a boolean.
\<close>

theorem keyword_table:
  "(k \<noteq> KWORD__START__POINT \<and> k \<noteq> KWORD__ENDING__POINT \<longrightarrow> keyword_type (keyword_to_string k) = Kword k)
   \<and> (keyword_type s = Kword k \<longrightarrow> s = keyword_to_string k)
   \<and> keyword_type s \<in> insert IDENTIFIER (insert VALUE_BOOL (range Kword))"
  using keyword_type_to_string [of k] keyword_type_Kword [of s k] keyword_type_cases [of s] by auto

theorem keyword_table_witness:
  "keyword_type ''namespace'' = Kword KWORD_NAMESPACE"
  using keyword_table [of KWORD_NAMESPACE "[]"] by (simp add: keyword_to_string_def)

section \<open>Printing and lexing again\<close>

definition plain_string_char :: "char \<Rightarrow> bool" where
  "plain_string_char c \<longleftrightarrow> c \<noteq> DQUOTE \<and> c \<noteq> BACKSLASH \<and> c \<noteq> NUL"

definition plain_char :: "char \<Rightarrow> bool" where
  "plain_char c \<longleftrightarrow> c \<noteq> SQUOTE \<and> c \<noteq> BACKSLASH \<and> c \<noteq> NUL \<and> c \<noteq> NL"

definition identifier_text :: "string \<Rightarrow> bool" where
  "identifier_text s \<longleftrightarrow> s \<noteq> [] \<and> is_text (hd s) \<and> list_all (\<lambda>c. is_text c \<or> is_num c) s"

definition printable :: "Token \<Rightarrow> bool" where
  "printable t \<longleftrightarrow> (case tok_type t of
     Sym s \<Rightarrow> True
   | Op p \<Rightarrow> True
   | Kword k \<Rightarrow> k \<noteq> KWORD__START__POINT \<and> k \<noteq> KWORD__ENDING__POINT
   | IDENTIFIER \<Rightarrow> identifier_text (tok_value t) \<and> keyword_type (tok_value t) = IDENTIFIER
   | VALUE_BOOL \<Rightarrow> tok_value t = ''true'' \<or> tok_value t = ''false''
   | VALUE_NUMBER \<Rightarrow> tok_value t \<noteq> [] \<and> list_all is_num (tok_value t)
   | VALUE_STRING \<Rightarrow> list_all plain_string_char (tok_value t)
   | VALUE_CHAR \<Rightarrow> (\<exists>c. tok_value t = [c] \<and> plain_char c)
   | _ \<Rightarrow> False)"

lemma get_char_append:
  "char_ptr l = length pre \<Longrightarrow>
   get_char (pre @ w @ post) l i = (if i < length w then w ! i else get_char (pre @ w @ post) l i)"
  by (simp add: get_char_def nth_append)

lemma get_char_at:
  "char_ptr l = length pre \<Longrightarrow> get_char (pre @ post) l i = (if i < length post then post ! i else NUL)"
  by (simp add: get_char_def nth_append)

lemma eat_while_span:
  assumes "list_all P w" and "\<not> P c" and "char_ptr l = length pre"
  shows "eat_while P (pre @ w @ c # post) l acc = (acc @ w, eat_char (length w) l)"
  using assms
proof (induction w arbitrary: pre l acc)
  case Nil
  then show ?case
    by (subst eat_while.simps) (simp add: get_char_at eat_char_def)
next
  case (Cons a w)
  have "eat_while P ((pre @ [a]) @ w @ c # post) (eat_char 1 l) (acc @ [a])
      = ((acc @ [a]) @ w, eat_char (length w) (eat_char 1 l))"
    using Cons.prems by (intro Cons.IH) simp_all
  with Cons.prems show ?case
    by (subst eat_while.simps) (simp add: get_char_at eat_char_def)
qed

lemma is_text_distinct:
  "is_text c \<Longrightarrow> c \<noteq> NUL \<and> c \<noteq> CHR '' '' \<and> c \<noteq> TAB \<and> c \<noteq> NL \<and> c \<noteq> CHR ''/'' \<and> c \<noteq> BACKSLASH
     \<and> c \<noteq> SQUOTE \<and> c \<noteq> DQUOTE \<and> c \<noteq> CHR ''.'' \<and> \<not> is_num c"
  by (auto simp: is_text_def is_num_def)

lemma is_num_distinct:
  "is_num c \<Longrightarrow> c \<noteq> NUL \<and> c \<noteq> CHR '' '' \<and> c \<noteq> TAB \<and> c \<noteq> NL \<and> c \<noteq> CHR ''/'' \<and> c \<noteq> BACKSLASH
     \<and> c \<noteq> SQUOTE \<and> c \<noteq> DQUOTE \<and> c \<noteq> CHR ''.''"
  by (auto simp: is_num_def)

definition special_chars :: "char list" where
  "special_chars = [NUL, CHR '' '', TAB, NL, CHR ''/'', BACKSLASH, SQUOTE, DQUOTE, CHR ''.'',
     CHR '':'', CHR '','', CHR '';'', CHR ''#'', CHR ''$'', CHR ''?'', CHR ''@'', CHR ''('', CHR '')'',
     CHR ''{'', CHR ''}'', CHR ''['', CHR '']'', CHR ''='', CHR ''+'', CHR ''-'', CHR ''*'', CHR ''%'',
     CHR ''<'', CHR ''>'', CHR ''!'', CHR ''~'', CHR ''|'', CHR ''&'', CHR ''^'']"

lemma word_char_not_special: "is_text c \<or> is_num c \<Longrightarrow> c \<notin> set special_chars"
proof -
  have "list_all (\<lambda>c. \<not> is_text c \<and> \<not> is_num c) special_chars"
    by (simp add: special_chars_def is_text_def is_num_def)
  then show "is_text c \<or> is_num c \<Longrightarrow> c \<notin> set special_chars"
    by (auto simp: list_all_iff)
qed

lemma no_symbol:
  assumes "is_text (get_char code l 0) \<or> is_num (get_char code l 0)"
  shows "lex_symbol code l = None \<and> lex_operator code l = None"
  using word_char_not_special [OF assms]
  by (simp add: lex_symbol_def lex_operator_def Let_def special_chars_def)

lemma lex_step_text:
  "is_text (get_char code l 0) \<Longrightarrow> lex_step code l = Inr (lex_identifier code l)"
  using is_text_distinct no_symbol
  by (simp add: lex_step_def lex_default_def Let_def)

lemma lex_step_num:
  "is_num (get_char code l 0) \<Longrightarrow> lex_step code l = Inr (lex_number code l)"
  using is_num_distinct no_symbol
  by (simp add: lex_step_def lex_default_def Let_def)

text \<open>One step over the printed form \<open>w\<close> of a token yields a token \<open>tk\<close> of the same type and print.\<close>

definition lexes_to :: "string \<Rightarrow> lexer \<Rightarrow> string \<Rightarrow> Token \<Rightarrow> bool" where
  "lexes_to code l w t \<longleftrightarrow>
     (\<exists>l' tk. lex_step code l = Inr l' \<and> char_ptr l' = char_ptr l + length w
        \<and> tokens l' = tokens l @ [tk] \<and> tok_type tk = tok_type t
        \<and> token_to_string tk = token_to_string t)"

lemma lexes_identifier:
  assumes "identifier_text w" and "char_ptr l = length pre" and "token_to_string t = w"
    and "keyword_type w = tok_type t"
    and "\<And>tk. tok_type tk = tok_type t \<Longrightarrow> tok_value tk = w \<Longrightarrow> token_to_string tk = token_to_string t"
  shows "lexes_to (pre @ w @ CHR '' '' # post) l w t"
proof -
  obtain a u where w: "w = a # u" and a: "is_text a" and u: "list_all (\<lambda>c. is_text c \<or> is_num c) u"
    using assms(1) by (cases w) (auto simp: identifier_text_def)
  let ?code = "pre @ w @ CHR '' '' # post"
  have g: "get_char ?code l 0 = a"
    using assms(2) w by (simp add: get_char_at)
  have "eat_while (\<lambda>c. is_text c \<or> is_num c) ((pre @ [a]) @ u @ CHR '' '' # post) (eat_char 1 l) [a]
      = ([a] @ u, eat_char (length u) (eat_char 1 l))"
    using assms(2) u by (intro eat_while_span) (auto simp: is_text_def is_num_def)
  then have e: "eat_while (\<lambda>c. is_text c \<or> is_num c) ?code (eat_char 1 l) [a]
      = (w, eat_char (length u) (eat_char 1 l))"
    using w by simp
  show ?thesis
    unfolding lexes_to_def using lex_step_text [of ?code l] a g e w assms(4,5)
    by (auto simp: lex_identifier_def Let_def empty_token_def)
qed

lemma int_loop_digits:
  assumes "list_all is_num w" and "char_ptr l = length pre"
  shows "int_loop (pre @ w @ CHR '' '' # post) l acc m = (acc @ w, m, False, eat_char (length w) l)"
  using assms
proof (induction w arbitrary: pre l acc)
  case Nil
  then show ?case
    by (subst int_loop.simps) (simp add: get_char_at eat_char_def is_num_def Let_def)
next
  case (Cons a w)
  have "int_loop ((pre @ [a]) @ w @ CHR '' '' # post) (eat_char 1 l) (acc @ [a]) m
      = ((acc @ [a]) @ w, m, False, eat_char (length w) (eat_char 1 l))"
    using Cons.prems by (intro Cons.IH) simp_all
  with Cons.prems is_num_distinct [of a] show ?case
    by (subst int_loop.simps) (simp add: get_char_at eat_char_def Let_def)
qed

lemma lexes_number:
  assumes "list_all is_num w" and "w \<noteq> []" and "char_ptr l = length pre"
    and "tok_type t = VALUE_NUMBER" and "tok_value t = w"
  shows "lexes_to (pre @ w @ CHR '' '' # post) l w t"
proof -
  obtain a u where w: "w = a # u" and a: "is_num a" and u: "list_all is_num u"
    using assms(1,2) by (cases w) auto
  let ?code = "pre @ w @ CHR '' '' # post"
  have g: "get_char ?code l 0 = a"
    using assms(3) w by (simp add: get_char_at)
  have "get_char ?code l 1 = (if u = [] then CHR '' '' else hd u)"
    using assms(3) w by (cases u) (simp_all add: get_char_at nth_Cons')
  then have "read_mode ?code l = M_INT"
    using u by (cases u) (auto simp: read_mode_def Let_def is_num_def split: if_splits)
  moreover have "int_loop ((pre @ [a]) @ u @ CHR '' '' # post) (eat_char 1 l) [a] M_INT
      = ([a] @ u, M_INT, False, eat_char (length u) (eat_char 1 l))"
    using assms(3) u by (intro int_loop_digits) simp_all
  ultimately have r: "read_digits ?code (eat_char 1 l) [a] (read_mode ?code l)
      = (w, M_INT, False, eat_char (length u) (eat_char 1 l))"
    using w by (simp add: read_digits_def)
  have "get_char ?code (eat_char (length u) (eat_char 1 l)) 0 = CHR '' ''"
    using assms(3) w by (simp add: get_char_def nth_append)
  then have s: "read_suffix ?code (eat_char (length u) (eat_char 1 l))
      = ([], eat_char (length u) (eat_char 1 l))"
    by (simp add: read_suffix_def)
  have "is_num (last w)"
    using assms(1,2) by (simp add: list_all_iff)
  then have "last w \<noteq> CHR ''.''"
    using is_num_distinct by blast
  then show ?thesis
    unfolding lexes_to_def using lex_step_num [of ?code l] a g r s w assms(4,5)
    by (auto simp: lex_number_def Let_def empty_token_def token_to_string_def)
qed

lemma string_body_plain:
  assumes "list_all plain_string_char w" and "char_ptr l = length pre"
  shows "\<exists>l'. string_body (pre @ w @ DQUOTE # post) l acc = Inr (acc @ w, l')
     \<and> char_ptr l' = char_ptr l + length w \<and> tokens l' = tokens l"
  using assms
proof (induction w arbitrary: pre l acc)
  case Nil
  then show ?case
    by (subst string_body.simps) (simp add: get_char_at Let_def)
next
  case (Cons a w)
  let ?l = "if a = NL then eat_line l else eat_char 1 l"
  have "\<exists>l'. string_body ((pre @ [a]) @ w @ DQUOTE # post) ?l (acc @ [a]) = Inr ((acc @ [a]) @ w, l')
     \<and> char_ptr l' = char_ptr ?l + length w \<and> tokens l' = tokens ?l"
    using Cons.prems by (intro Cons.IH) (auto simp: eat_line_def)
  moreover have "string_body (pre @ (a # w) @ DQUOTE # post) l acc
      = string_body ((pre @ [a]) @ w @ DQUOTE # post) ?l (acc @ [a])"
    using Cons.prems by (subst string_body.simps) (simp add: get_char_at Let_def plain_string_char_def)
  ultimately show ?case by (auto split: if_splits)
qed

lemma lexes_string:
  assumes "list_all plain_string_char v" and "char_ptr l = length pre"
    and "tok_type t = VALUE_STRING" and "tok_value t = v"
  shows "lexes_to (pre @ ([DQUOTE] @ v @ [DQUOTE]) @ CHR '' '' # post) l ([DQUOTE] @ v @ [DQUOTE]) t"
proof -
  let ?code = "pre @ ([DQUOTE] @ v @ [DQUOTE]) @ CHR '' '' # post"
  have "\<exists>l'. string_body ((pre @ [DQUOTE]) @ v @ DQUOTE # CHR '' '' # post) (eat_char 1 l) []
      = Inr ([] @ v, l') \<and> char_ptr l' = char_ptr (eat_char 1 l) + length v \<and> tokens l' = tokens (eat_char 1 l)"
    using assms(1,2) by (intro string_body_plain) simp_all
  then obtain l' where "string_body ?code (eat_char 1 l) [] = Inr (v, l')"
    and l': "char_ptr l' = char_ptr l + 1 + length v" "tokens l' = tokens l"
    by auto
  moreover have "get_char ?code l 0 = DQUOTE"
    using assms(2) by (simp add: get_char_at)
  ultimately show ?thesis
    using l' assms(3,4)
    by (simp add: lexes_to_def lex_step_def lex_string_literal_def Let_def empty_token_def token_to_string_def)
qed

lemma lexes_char:
  assumes "plain_char c" and "char_ptr l = length pre"
    and "tok_type t = VALUE_CHAR" and "tok_value t = [c]"
  shows "lexes_to (pre @ [SQUOTE, c, SQUOTE] @ CHR '' '' # post) l [SQUOTE, c, SQUOTE] t"
proof -
  let ?code = "pre @ [SQUOTE, c, SQUOTE] @ CHR '' '' # post"
  have g: "get_char ?code l 0 = SQUOTE" "get_char ?code (eat_char 1 l) 0 = c"
    "get_char ?code (eat_char 1 (eat_char 1 l)) 0 = SQUOTE"
    using assms(2) by (simp_all add: get_char_def nth_append)
  have "char_body ?code (eat_char 1 l) [] = Inr ([c], eat_char 1 (eat_char 1 l))"
    using assms(1) g
    by (subst char_body.simps, subst char_body.simps) (simp add: Let_def plain_char_def)
  then show ?thesis
    using g assms
    by (simp add: lexes_to_def lex_step_def lex_char_literal_def Let_def empty_token_def
        token_to_string_def c_str_def plain_char_def)
qed

lemma lexes_symbol:
  assumes "char_ptr l = length pre" and "tok_type t = Sym s"
  shows "lexes_to (pre @ symbol_to_string s @ CHR '' '' # post) l (symbol_to_string s) t"
  using assms
  by (cases s) (simp_all add: lexes_to_def lex_step_def lex_symbol_def lex_operator_def
      lex_default_def is_num_def is_text_def symbol_to_string_def token_to_string_def get_char_at Let_def nth_Cons')

lemma lexes_operator:
  assumes "char_ptr l = length pre" and "tok_type t = Op p"
  shows "lexes_to (pre @ op_to_string p @ CHR '' '' # post) l (op_to_string p) t"
  using assms
  by (cases p) (simp_all add: lexes_to_def lex_step_def lex_symbol_def lex_operator_def lex_slash_def
      op_to_string_def token_to_string_def get_char_at Let_def nth_Cons')


lemma lexes_printable:
  assumes "printable t" and "char_ptr l = length pre"
  shows "lexes_to (pre @ token_to_string t @ CHR '' '' # post) l (token_to_string t) t"
proof (cases "tok_type t")
  case IDENTIFIER
  then show ?thesis
    using assms by (intro lexes_identifier) (auto simp: printable_def token_to_string_def)
next
  case VALUE_NUMBER
  then show ?thesis
    using assms lexes_number [of "tok_value t" l pre t post] by (auto simp: printable_def token_to_string_def)
next
  case VALUE_BOOL
  then show ?thesis
    using assms by (intro lexes_identifier)
      (auto simp: printable_def token_to_string_def identifier_text_def is_text_def keyword_type_def)
next
  case VALUE_STRING
  then show ?thesis
    using assms lexes_string [of "tok_value t" l pre t post]
    by (auto simp: printable_def token_to_string_def)
next
  case VALUE_CHAR
  then obtain c where "tok_value t = [c]" "plain_char c"
    using assms by (auto simp: printable_def)
  then show ?thesis
    using assms VALUE_CHAR lexes_char [of c l pre t post]
    by (simp add: token_to_string_def c_str_def plain_char_def)
next
  case (Sym s)
  then show ?thesis
    using assms(2) lexes_symbol [of l pre t s post] by (simp add: token_to_string_def)
next
  case (Op p)
  then show ?thesis
    using assms(2) lexes_operator [of l pre t p post] by (simp add: token_to_string_def)
next
  case (Kword k)
  have "identifier_text (keyword_to_string k)"
    using assms(1) Kword
    by (cases k) (simp_all add: identifier_text_def keyword_to_string_def is_text_def printable_def)
  then show ?thesis
    using assms Kword keyword_type_to_string [of k]
    by (intro lexes_identifier) (auto simp: printable_def token_to_string_def)
qed (use assms in \<open>auto simp: printable_def\<close>)

definition render :: "Token list \<Rightarrow> string" where
  "render ts = concat (map (\<lambda>t. token_to_string t @ '' '') ts)"

definition same_tokens :: "Token list \<Rightarrow> Token list \<Rightarrow> bool" where
  "same_tokens ts us \<longleftrightarrow> map tok_type ts = map tok_type us \<and> map token_to_string ts = map token_to_string us"

lemma lex_loop_render:
  assumes "list_all printable ts" and "char_ptr l = length pre"
  shows "\<exists>l' us. lex_loop (pre @ render ts) l = Inr l' \<and> tokens l' = tokens l @ us \<and> same_tokens us ts"
  using assms
proof (induction ts arbitrary: pre l)
  case Nil
  then show ?case
    by (subst lex_loop.simps) (simp add: render_def same_tokens_def)
next
  case (Cons t ts)
  let ?w = "token_to_string t" and ?code = "pre @ render (t # ts)"
  have code: "?code = pre @ ?w @ CHR '' '' # render ts"
    by (simp add: render_def)
  obtain l1 tk where st: "lex_step ?code l = Inr l1"
    and l1: "char_ptr l1 = char_ptr l + length ?w" "tokens l1 = tokens l @ [tk]"
    and tk: "tok_type tk = tok_type t" "token_to_string tk = ?w"
    using lexes_printable [of t l pre "render ts"] Cons.prems code by (auto simp: lexes_to_def)
  have "get_char ?code l1 0 = CHR '' ''"
    using l1(1) Cons.prems(2) by (simp add: code get_char_def nth_append)
  then have sp: "lex_step ?code l1 = Inr (eat_char 1 l1)"
    by (simp add: lex_step_def)
  have "\<exists>l' us. lex_loop ((pre @ ?w @ '' '') @ render ts) (eat_char 1 l1) = Inr l'
      \<and> tokens l' = tokens (eat_char 1 l1) @ us \<and> same_tokens us ts"
    using Cons.prems l1 by (intro Cons.IH) simp_all
  then obtain l' us where IH: "lex_loop ?code (eat_char 1 l1) = Inr l'"
    "tokens l' = tokens l1 @ us" "same_tokens us ts"
    by (auto simp: code)
  have "lex_loop ?code l = Inr l'"
    using st sp IH(1) l1(1) Cons.prems(2)
    by (subst lex_loop.simps, simp add: code, subst lex_loop.simps, simp)
  then show ?case
    using IH(2,3) l1(2) tk by (auto simp: same_tokens_def)
qed

text \<open>
  C3. Printing and lexing round trip: for a non-empty list of printable tokens (every symbol,
  operator and keyword, identifiers, booleans, decimal integers, plain character and string
  literals), printing them separated by spaces and tokenizing the text gives back tokens of
  the same types with the same printed forms, followed by the end-of-file token.
\<close>

theorem print_lex_roundtrip:
  assumes "list_all printable ts" and "ts \<noteq> []"
  shows "\<exists>us eof. tokenize (render ts) = Inr (us @ [eof]) \<and> tok_type eof = TK_EOF \<and>
    map tok_type us = map tok_type ts \<and> map token_to_string us = map token_to_string ts"
proof -
  obtain l us where l: "lex_loop (render ts) init_lexer = Inr l" "tokens l = us" "same_tokens us ts"
    using lex_loop_render [OF assms(1), of init_lexer "[]"] by (auto simp: init_lexer_def)
  have "tok_type (last us) = tok_type (last ts)" "us \<noteq> []"
    using l(3) assms(2) by (metis same_tokens_def last_map map_is_Nil_conv)+
  moreover have "tok_type (last ts) \<noteq> TK_EOF"
    using assms by (auto simp: list_all_iff printable_def dest!: last_in_set split: TokenType.splits)
  moreover have "render ts \<noteq> []"
    using assms(2) by (cases ts) (auto simp: render_def)
  ultimately show ?thesis
    using l by (auto simp: tokenize_def same_tokens_def)
qed

theorem print_lex_roundtrip_witness:
  "\<exists>us eof. tokenize ''let xs |>> 42 '' = Inr (us @ [eof]) \<and>
     map tok_type us = [Kword KWORD_VAR, IDENTIFIER, Op OP_BIT_RSHIFT, VALUE_NUMBER]"
proof -
  let ?tk = "\<lambda>ty v. empty_token\<lparr>tok_type := ty, tok_value := v\<rparr>"
  let ?ts = "[?tk (Kword KWORD_VAR) [], ?tk IDENTIFIER ''xs'', ?tk (Op OP_BIT_RSHIFT) [], ?tk VALUE_NUMBER ''42'']"
  have p: "list_all printable ?ts"
    by (simp add: printable_def identifier_text_def is_text_def is_num_def keyword_type_def)
  have r: "render ?ts = ''let xs |>> 42 ''"
    by (simp add: render_def token_to_string_def keyword_to_string_def op_to_string_def)
  from print_lex_roundtrip [OF p] r show ?thesis by auto
qed

section \<open>Number literals\<close>

text \<open>
  A float literal that starts with a dot is turned into a token of type float whose value
  is one control character (NUL, or \<^verbatim>\<open>0x01\<close> when the value rounds to one): the digits
  never reach the token.
\<close>

theorem leading_dot_float_value:
  assumes "lex_float code l = Inr l'"
  shows "\<exists>tk. tokens l' = tokens l @ [tk] \<and> tok_type tk = VALUE_FLOAT
    \<and> tok_value tk \<in> {[CHR 0x00], [CHR 0x01]}"
  using assms
  by (auto simp: lex_float_def stod_as_char_def res_simps Let_def empty_token_def
      dest!: eat_while_fields split: prod.splits if_splits)

lemma stod_in_range:
  assumes "10 ^ length ds \<le> dec_value ds * 2"
  shows "\<exists>c. stod_as_char ds = Inr c"
proof -
  have "2 \<le> (2::nat) ^ 1022"
    by (rule self_le_power) simp_all
  then have "10 ^ length ds \<le> dec_value ds * 2 ^ 1022"
    using assms by (meson le_trans mult_le_mono2)
  then have "\<not> dec_value ds * 2 ^ 1022 < 10 ^ length ds"
    by (simp only: not_less)
  then show ?thesis
    unfolding stod_as_char_def Let_def by metis
qed

theorem leading_dot_float_value_witness:
  "\<exists>l' tk. lex_float ''.5'' init_lexer = Inr l' \<and> tokens l' = [tk] \<and>
     tok_value tk \<in> {[CHR 0x00], [CHR 0x01]}"
proof -
  obtain c where "stod_as_char ''5'' = Inr c"
    using stod_in_range [of "''5''"] by (auto simp: dec_value_def)
  moreover have "eat_while is_num ''.5'' (eat_char 1 init_lexer) [] = (''5'', eat_char 2 init_lexer)"
    by (simp add: init_lexer_def eat_while.simps eat_char_def get_char_def is_num_def)
  ultimately obtain l' where "lex_float ''.5'' init_lexer = Inr l'"
    by (simp add: lex_float_def)
  with leading_dot_float_value [OF this] show ?thesis
    by (auto simp: init_lexer_def)
qed

lemma int_loop_fraction:
  assumes "list_all is_num v" and "char_ptr l = length pre"
  shows "int_loop (pre @ v @ CHR ''.'' # post) l acc M_FLOAT
    = (butlast (acc @ v), M_INT, True, eat_char (length v) l)"
  using assms
proof (induction v arbitrary: pre l acc)
  case Nil
  then show ?case
    by (subst int_loop.simps) (simp add: get_char_at eat_char_def Let_def)
next
  case (Cons a v)
  have "int_loop ((pre @ [a]) @ v @ CHR ''.'' # post) (eat_char 1 l) (acc @ [a]) M_FLOAT
      = (butlast ((acc @ [a]) @ v), M_INT, True, eat_char (length v) (eat_char 1 l))"
    using Cons.prems by (intro Cons.IH) simp_all
  with Cons.prems is_num_distinct [of a] show ?case
    by (subst int_loop.simps) (simp add: get_char_at eat_char_def Let_def)
qed

lemma int_loop_two_dots:
  assumes "list_all is_num u" and "list_all is_num v" and "char_ptr l = length pre"
  shows "int_loop (pre @ u @ CHR ''.'' # v @ CHR ''.'' # post) l acc M_INT
    = (butlast (acc @ u @ CHR ''.'' # v), M_INT, True, eat_char (length u + 1 + length v) l)"
  using assms
proof (induction u arbitrary: pre l acc)
  case Nil
  have "int_loop ((pre @ ''.'') @ v @ CHR ''.'' # post) (eat_char 1 l) (acc @ ''.'') M_FLOAT
      = (butlast ((acc @ ''.'') @ v), M_INT, True, eat_char (length v) (eat_char 1 l))"
    using Nil.prems by (intro int_loop_fraction) simp_all
  with Nil.prems show ?case
    by (subst int_loop.simps) (simp add: get_char_at eat_char_def Let_def)
next
  case (Cons a u)
  have "int_loop ((pre @ [a]) @ u @ CHR ''.'' # v @ CHR ''.'' # post) (eat_char 1 l) (acc @ [a]) M_INT
      = (butlast ((acc @ [a]) @ u @ CHR ''.'' # v), M_INT, True, eat_char (length u + 1 + length v) (eat_char 1 l))"
    using Cons.prems by (intro Cons.IH) simp_all
  with Cons.prems is_num_distinct [of a] show ?case
    by (subst int_loop.simps) (simp add: get_char_at eat_char_def Let_def)
qed

text \<open>
  A number with two dots, \<open>u.v.\<close>, becomes a number token and dots. Without digits between
  the dots (the range \<open>1..5\<close>) the token is \<open>u\<close>. With digits \<open>v\<close>, the last digit of \<open>v\<close> is
  dropped from the token although it was consumed. In every case the column counter ends one
  or two columns beyond the characters consumed.
\<close>

theorem range_literal:
  assumes "is_num a" and "list_all is_num u" and "list_all is_num v" and "char_ptr l = length pre"
    and "l' = lex_number (pre @ a # u @ CHR ''.'' # v @ CHR ''.'' # post) l"
  shows "(\<exists>tk dots. tokens l' = tokens l @ tk # dots \<and> tok_type tk = VALUE_NUMBER
      \<and> tok_value tk = a # u @ (if length v \<le> 1 then [] else CHR ''.'' # butlast v)
      \<and> map tok_type dots = replicate (if length v = 1 then 3 else 2) (Sym SYM_DOT))
    \<and> char_ptr l' = char_ptr l + length u + length v + 3
    \<and> cur_col l' - cur_col l = int (char_ptr l' - char_ptr l) + (if length v = 1 then 2 else 1)"
proof -
  let ?code = "pre @ a # u @ CHR ''.'' # v @ CHR ''.'' # post"
  let ?l1 = "eat_char (length u + 1 + length v) (eat_char 1 l)"
  define num where "num = butlast (a # u @ CHR ''.'' # v)"
  have g: "get_char ?code l 0 = a"
    using assms(4) by (simp add: get_char_at)
  have "get_char ?code l 1 = (if u = [] then CHR ''.'' else hd u)"
    using assms(4) by (cases u) (simp_all add: get_char_at nth_Cons')
  then have "read_mode ?code l = M_INT"
    using assms(2) by (cases u) (auto simp: read_mode_def Let_def is_num_def split: if_splits)
  moreover have "int_loop ((pre @ [a]) @ u @ CHR ''.'' # v @ CHR ''.'' # post) (eat_char 1 l) [a] M_INT
      = (butlast ([a] @ u @ CHR ''.'' # v), M_INT, True, ?l1)"
    using assms(2-4) by (intro int_loop_two_dots) simp_all
  ultimately have r: "read_digits ?code (eat_char 1 l) [a] (read_mode ?code l) = (num, M_INT, True, ?l1)"
    by (simp add: read_digits_def num_def)
  have "?code = (pre @ a # u @ CHR ''.'' # v) @ CHR ''.'' # post" by simp
  moreover have "char_ptr ?l1 = length (pre @ a # u @ CHR ''.'' # v)" using assms(4) by simp
  ultimately have "get_char ?code ?l1 0 = CHR ''.''"
    by (metis get_char_at length_greater_0_conv list.distinct(1) nth_Cons_0)
  then have s: "read_suffix ?code ?l1 = ([], ?l1)"
    by (simp add: read_suffix_def)
  have num: "num = a # u @ (if v = [] then [] else CHR ''.'' # butlast v) \<and>
      (last num = CHR ''.'' \<longleftrightarrow> length v = 1)"
  proof (cases v rule: rev_cases)
    case Nil
    have "is_num (last (a # u))"
      using assms(1,2) by (auto simp: list_all_iff)
    then have "last (a # u) \<noteq> CHR ''.''"
      using is_num_distinct by blast
    with Nil show ?thesis by (simp add: num_def butlast_append)
  next
    case (snoc w y)
    have "last w \<noteq> CHR ''.''" if "w \<noteq> []"
      using assms(3) snoc that is_num_distinct by (auto simp: list_all_iff)
    with snoc show ?thesis by (auto simp: num_def butlast_append)
  qed
  let ?v = "if last num = CHR ''.'' then butlast num else num"
  let ?tk = "empty_token\<lparr>tok_type := VALUE_NUMBER, tok_line := cur_line ?l1,
      tok_col := cur_col ?l1 - int (length ?v), tok_value := ?v\<rparr>"
  let ?l4 = "uneat (consume (Sym SYM_DOT) 1 (consume (Sym SYM_DOT) 1 (push_token ?tk ?l1)))"
  have l': "l' = (if last num = CHR ''.'' then uneat (consume (Sym SYM_DOT) 1 ?l4) else ?l4)"
    by (simp add: assms(5) lex_number_def g r s Let_def empty_token_def)
  have cols: "cur_col (consume ty n k) = cur_col k + int n" "cur_col (push_token tk k) = cur_col k"
    "cur_col (uneat k) = cur_col k" "cur_col (eat_char n k) = cur_col k + int n" for ty n k tk
    by (simp_all add: consume_def eat_char_def push_token_def uneat_def)
  show ?thesis
  proof (cases "length v = 1")
    case True
    with num show ?thesis
      by (auto simp: l' cols empty_token_def length_Suc_conv One_nat_def numeral_3_eq_3)
  next
    case False
    with num show ?thesis
      by (cases v) (auto simp: l' cols empty_token_def numeral_2_eq_2)
  qed
qed

theorem range_literal_witness:
  "\<exists>tk dots. tokens (lex_number ''1.25.'' init_lexer) = tk # dots \<and> tok_value tk = ''1.2''"
  using range_literal [of "CHR ''1''" "[]" "''25''" init_lexer "[]" _ "[]", OF _ _ _ _ refl]
  by (auto simp: is_num_def init_lexer_def)

end
