(* ===== verification/Operators.thy ===== *)
theory Operators
  imports Prelude
begin

text \<open>
  The operators of the language: \<^verbatim>\<open>src/defs/operators.def\<close>, the operator service
  (\<^verbatim>\<open>src/services/OperatorService.{h,cc}\<close>) and the operator predicates of
  \<^verbatim>\<open>Syntax::Expression::BinaryOp\<close> (\<^verbatim>\<open>src/ast/syntax/exprs.cc\<close>). The enumerators of
  \<^verbatim>\<open>OperatorType\<close> carry the prefix \<open>OT_\<close>; their numbers are the second column of the table.
\<close>

section \<open>The operator table\<close>

datatype OperatorType =
    OT_EQ | OT_EQEQ | OT_PLUS | OT_PLUSEQ
  | OT_MINUS | OT_UPLUS | OT_UMINUS | OT_REFERENCE
  | OT_MINUSEQ | OT_MUL | OT_MULEQ | OT_DIV
  | OT_DIVEQ | OT_MOD | OT_MOD_EQ | OT_LT
  | OT_LTEQ | OT_GT | OT_GTEQ | OT_AND
  | OT_OR | OT_NOT | OT_NOTEQ | OT_BIT_NOT
  | OT_BIT_LSHIFT | OT_BIT_LSHIFT_EQ | OT_BIT_RSHIFT | OT_BIT_RSHIFT_EQ
  | OT_BIT_OR | OT_BIT_OR_EQ | OT_BIT_AND | OT_BIT_AND_EQ
  | OT_BIT_XOR | OT_BIT_XOR_EQ | OT_CONSTRUCTOR | OT_DESTRUCTOR
  | OT_CALL | OT_BOOL | OT_INDEX | OT_DEREFERENCE
  | OT_RANGE | OT_INVALID

text \<open>The numbers given to the enumerators; the two tables are indexed by them.\<close>

primrec operator_index :: "OperatorType \<Rightarrow> nat" where
    "operator_index OT_EQ = 0"
  | "operator_index OT_EQEQ = 1"
  | "operator_index OT_PLUS = 2"
  | "operator_index OT_PLUSEQ = 3"
  | "operator_index OT_MINUS = 4"
  | "operator_index OT_UPLUS = 5"
  | "operator_index OT_UMINUS = 6"
  | "operator_index OT_REFERENCE = 7"
  | "operator_index OT_MINUSEQ = 8"
  | "operator_index OT_MUL = 9"
  | "operator_index OT_MULEQ = 10"
  | "operator_index OT_DIV = 11"
  | "operator_index OT_DIVEQ = 12"
  | "operator_index OT_MOD = 13"
  | "operator_index OT_MOD_EQ = 14"
  | "operator_index OT_LT = 15"
  | "operator_index OT_LTEQ = 16"
  | "operator_index OT_GT = 17"
  | "operator_index OT_GTEQ = 18"
  | "operator_index OT_AND = 19"
  | "operator_index OT_OR = 20"
  | "operator_index OT_NOT = 21"
  | "operator_index OT_NOTEQ = 22"
  | "operator_index OT_BIT_NOT = 23"
  | "operator_index OT_BIT_LSHIFT = 24"
  | "operator_index OT_BIT_LSHIFT_EQ = 25"
  | "operator_index OT_BIT_RSHIFT = 26"
  | "operator_index OT_BIT_RSHIFT_EQ = 27"
  | "operator_index OT_BIT_OR = 28"
  | "operator_index OT_BIT_OR_EQ = 29"
  | "operator_index OT_BIT_AND = 30"
  | "operator_index OT_BIT_AND_EQ = 31"
  | "operator_index OT_BIT_XOR = 32"
  | "operator_index OT_BIT_XOR_EQ = 33"
  | "operator_index OT_CONSTRUCTOR = 34"
  | "operator_index OT_DESTRUCTOR = 35"
  | "operator_index OT_CALL = 36"
  | "operator_index OT_BOOL = 37"
  | "operator_index OT_INDEX = 38"
  | "operator_index OT_DEREFERENCE = 39"
  | "operator_index OT_RANGE = 40"
  | "operator_index OT_INVALID = 41"

definition all_operators :: "OperatorType list" where
  "all_operators =
   [OT_EQ, OT_EQEQ, OT_PLUS, OT_PLUSEQ, OT_MINUS,
    OT_UPLUS, OT_UMINUS, OT_REFERENCE, OT_MINUSEQ, OT_MUL,
    OT_MULEQ, OT_DIV, OT_DIVEQ, OT_MOD, OT_MOD_EQ,
    OT_LT, OT_LTEQ, OT_GT, OT_GTEQ, OT_AND,
    OT_OR, OT_NOT, OT_NOTEQ, OT_BIT_NOT, OT_BIT_LSHIFT,
    OT_BIT_LSHIFT_EQ, OT_BIT_RSHIFT, OT_BIT_RSHIFT_EQ, OT_BIT_OR, OT_BIT_OR_EQ,
    OT_BIT_AND, OT_BIT_AND_EQ, OT_BIT_XOR, OT_BIT_XOR_EQ, OT_CONSTRUCTOR,
    OT_DESTRUCTOR, OT_CALL, OT_BOOL, OT_INDEX, OT_DEREFERENCE,
    OT_RANGE, OT_INVALID]"

definition operators :: "string list" where
  "operators =
   [''Eq'', ''DbEq'', ''Pl'', ''PlEq'', ''Mn'', ''Up'', ''Um'', ''Ref'',
    ''MnEq'', ''Ml'', ''MlEq'', ''Di'', ''DiEq'', ''Md'', ''MdEq'', ''Lt'',
    ''LtEq'', ''Gt'', ''GtEq'', ''An'', ''O'', ''Nt'', ''NtE'', ''BNt'',
    ''BLsShft'', ''BLsShftEq'', ''BRshft'', ''BRshftEq'', ''BOr'', ''BOrEq'', ''BAnd'', ''BAndEq'',
    ''BXor'', ''BXorEq'', ''NwC'', ''Dle'', ''Cll'', ''BlC'', ''Idx'', ''DRf'',
    ''Rng'', ''Inv'']"

definition operatorNames :: "string list" where
  "operatorNames =
   [''operator ='', ''operator =='', ''operator +'', ''operator +='',
    ''operator -'', ''operator(unary) +'', ''operator(unary) -'', ''(reference to value)'',
    ''operator -='', ''operator *'', ''operator *='', ''operator / '',
    ''operator /='', ''operator %'', ''operator %='', ''operator <'',
    ''operator <='', ''operator >'', ''operator >='', ''operator &&'',
    ''operator ||'', ''operator !'', ''operator !='', ''operator ~'',
    ''operator <<'', ''operator <<='', ''operator |>>'', ''operator >>='',
    ''operator |'', ''operator |='', ''operator &'', ''operator &='',
    ''operator ^'', ''operator ^='', ''constructor'', ''destructor'',
    ''operator ()'', ''Boolean conversion'', ''operator []'', ''(dereference to value)'',
    ''operator ..'', ''<invalid operator>'']"

lemmas operator_tables = all_operators_def operators_def operatorNames_def

lemma length_operators [simp]: "length operators = 42" "length operatorNames = 42"
  by (simp_all add: operator_tables)

lemma operator_index_less: "operator_index o' < 42"
  by (cases o') simp_all

lemma all_operators_nth: "all_operators ! operator_index o' = o'"
  by (cases o') (simp_all add: all_operators_def)

lemma operator_index_inject [simp]: "operator_index a = operator_index b \<longleftrightarrow> a = b"
  by (metis all_operators_nth)

section \<open>The operator service\<close>

text \<open>\<^verbatim>\<open>vector::at\<close> raises \<^verbatim>\<open>out_of_range\<close> outside the table.\<close>

definition vector_at :: "'a list \<Rightarrow> nat \<Rightarrow> 'a res" where
  "vector_at xs i = (if i < length xs then Inr (xs ! i) else Inl (StdException ''out_of_range''))"

definition getOperatorId :: "OperatorType \<Rightarrow> string res" where
  "getOperatorId i = vector_at operators (operator_index i)"

definition operatorName :: "OperatorType \<Rightarrow> string res" where
  "operatorName i = vector_at operatorNames (operator_index i)"

definition startsWith :: "string \<Rightarrow> string \<Rightarrow> bool" where
  "startsWith s p \<longleftrightarrow> take (length p) s = p"

definition isOperator :: "string \<Rightarrow> bool" where
  "isOperator name \<longleftrightarrow> startsWith name ''#''"

definition getOperatorMangle :: "OperatorType \<Rightarrow> string res" where
  "getOperatorMangle i = bindR (getOperatorId i) (\<lambda>s. Inr (''#'' @ s))"

text \<open>
  \<^verbatim>\<open>std::find\<close> over the table; the assertion fails when the name is not in it. The distance is
  cast to the enumeration.
\<close>

fun find_index :: "'a list \<Rightarrow> 'a \<Rightarrow> nat" where
  "find_index [] x = 0"
| "find_index (y # ys) x = (if y = x then 0 else Suc (find_index ys x))"

definition operatorID :: "string \<Rightarrow> OperatorType res" where
  "operatorID n =
     (let name = if isOperator n then drop 1 n else n;
          it = find_index operators name
      in if it = length operators then Inl AssertFail else Inr (all_operators ! it))"

definition isUnary :: "OperatorType \<Rightarrow> bool" where
  "isUnary op_type \<longleftrightarrow> op_type = OT_NOT \<or> op_type = OT_BIT_NOT \<or> op_type = OT_UPLUS
     \<or> op_type = OT_UMINUS \<or> op_type = OT_REFERENCE \<or> op_type = OT_DEREFERENCE"

definition opEquals :: "OperatorType \<Rightarrow> string \<Rightarrow> bool res" where
  "opEquals op name =
     (if isOperator name then bindR (operatorID name) (\<lambda>i. Inr (i = op)) else Inr False)"

section \<open>Predicates of binary operations\<close>

definition is_assignment :: "OperatorType \<Rightarrow> bool" where
  "is_assignment opType \<longleftrightarrow> opType = OT_EQ \<or> opType = OT_PLUSEQ
     \<or> opType = OT_MINUSEQ
     \<or> opType = OT_MULEQ \<or> opType = OT_DIVEQ
     \<or> opType = OT_MOD_EQ
     \<or> opType = OT_BIT_LSHIFT_EQ
     \<or> opType = OT_BIT_RSHIFT_EQ
     \<or> opType = OT_BIT_OR_EQ
     \<or> opType = OT_BIT_AND_EQ
     \<or> opType = OT_BIT_XOR_EQ"

definition is_comp :: "OperatorType \<Rightarrow> bool" where
  "is_comp opType \<longleftrightarrow> opType = OT_GT \<or> opType = OT_LT
     \<or> opType = OT_GTEQ \<or> opType = OT_LTEQ
     \<or> opType = OT_EQEQ \<or> opType = OT_NOTEQ"

definition BinaryOp_to_string :: "OperatorType \<Rightarrow> string res" where
  "BinaryOp_to_string op_type = (case op_type of
      OT_GT \<Rightarrow> Inr ''>'' | OT_LT \<Rightarrow> Inr ''<''
    | OT_GTEQ \<Rightarrow> Inr ''>='' | OT_EQEQ \<Rightarrow> Inr ''==''
    | OT_LTEQ \<Rightarrow> Inr ''<='' | OT_NOTEQ \<Rightarrow> Inr ''!=''
    | OT_MOD \<Rightarrow> Inr ''%'' | OT_DIV \<Rightarrow> Inr ''/''
    | OT_MUL \<Rightarrow> Inr ''*'' | OT_UPLUS \<Rightarrow> Inr ''+''
    | OT_PLUS \<Rightarrow> Inr ''+'' | OT_MINUS \<Rightarrow> Inr ''-''
    | OT_UMINUS \<Rightarrow> Inr ''-'' | OT_MULEQ \<Rightarrow> Inr ''*=''
    | OT_DIVEQ \<Rightarrow> Inr ''/='' | OT_PLUSEQ \<Rightarrow> Inr ''+=''
    | OT_MOD_EQ \<Rightarrow> Inr ''%='' | OT_MINUSEQ \<Rightarrow> Inr ''-=''
    | OT_REFERENCE \<Rightarrow> Inr ''&''
    | OT_EQ \<Rightarrow> Inr ''='' | OT_OR \<Rightarrow> Inr ''||''
    | OT_AND \<Rightarrow> Inr ''&&'' | OT_NOT \<Rightarrow> Inr ''!''
    | OT_BIT_OR \<Rightarrow> Inr ''|'' | OT_BIT_NOT \<Rightarrow> Inr ''~''
    | OT_BIT_AND \<Rightarrow> Inr ''&'' | OT_BIT_XOR \<Rightarrow> Inr ''^''
    | OT_BIT_OR_EQ \<Rightarrow> Inr ''|='' | OT_BIT_LSHIFT \<Rightarrow> Inr ''<<''
    | OT_BIT_RSHIFT \<Rightarrow> Inr ''>>'' | OT_BIT_AND_EQ \<Rightarrow> Inr ''&=''
    | OT_BIT_XOR_EQ \<Rightarrow> Inr ''^='' | OT_BIT_LSHIFT_EQ \<Rightarrow> Inr ''<<=''
    | OT_BIT_RSHIFT_EQ \<Rightarrow> Inr ''>>=''
    | _ \<Rightarrow> Inl AssertFail)"

section \<open>Names and identifiers\<close>

lemma find_index_nth:
  "distinct xs \<Longrightarrow> i < length xs \<Longrightarrow> find_index xs (xs ! i) = i"
  by (induction xs arbitrary: i) (auto simp: nth_Cons' split: nat.splits)

lemma find_index_in: "x \<in> set xs \<Longrightarrow> find_index xs x < length xs \<and> xs ! find_index xs x = x"
  by (induction xs) auto

lemma find_index_out: "find_index xs x = length xs \<longleftrightarrow> x \<notin> set xs"
  by (induction xs) auto

lemma operators_distinct: "distinct operators"
  by (simp add: operators_def)

lemma getOperatorMangle_eq:
  "getOperatorMangle i = Inr (''#'' @ operators ! operator_index i)"
  using operator_index_less [of i]
  by (simp add: getOperatorMangle_def getOperatorId_def vector_at_def)

lemma operatorID_hash:
  "operatorID (''#'' @ s) = (if s \<in> set operators then Inr (all_operators ! find_index operators s)
     else Inl AssertFail)"
  using find_index_out [of operators s]
  by (auto simp: operatorID_def isOperator_def startsWith_def)

lemma operatorID_getOperatorMangle:
  "bindR (getOperatorMangle i) operatorID = Inr i"
proof -
  have "operators ! operator_index i \<in> set operators"
    using operator_index_less [of i] by (intro nth_mem) simp
  then show ?thesis
    using operator_index_less [of i] operators_distinct
    by (simp add: getOperatorMangle_eq operatorID_hash find_index_nth all_operators_nth
        del: append_Cons)
qed

text \<open>
  C4. The mangled name of an operator determines it: it is recognised as an operator name, its
  identifier is the operator it was made from, and it is equal to no other operator.
\<close>

theorem operator_mangle_roundtrip:
  assumes "getOperatorMangle i = Inr m"
  shows "isOperator m \<and> operatorID m = Inr i \<and> (\<forall>op. opEquals op m = Inr (op = i))"
proof -
  have m: "isOperator m"
    using assms by (auto simp: getOperatorMangle_eq isOperator_def startsWith_def)
  moreover have "operatorID m = Inr i"
    using operatorID_getOperatorMangle [of i] assms by simp
  ultimately show ?thesis by (auto simp: opEquals_def)
qed

theorem operator_mangle_roundtrip_witness:
  "operatorID ''#DbEq'' = Inr OT_EQEQ \<and> opEquals OT_EQ ''#DbEq'' = Inr False"
  using operator_mangle_roundtrip [of OT_EQEQ "''#DbEq''"]
  by (simp add: getOperatorMangle_eq operators_def)

end
