(* ===== verification/Attributes.thy ===== *)
theory Attributes
  imports Prelude "HOL-Library.AList"
begin

unbundle bit_operations_syntax

text \<open>
  The attributes of syntax nodes, \<^verbatim>\<open>AttributeHolder\<close> of \<^verbatim>\<open>src/ast/syntax/common.h\<close>: a bit set in an
  unsigned 32 bit integer together with the arguments given to each attribute. The two
  unordered maps are association lists with distinct keys; no operation modelled here depends
  on their order.
\<close>

datatype Attributes =
    INVALID | CFG | ATTR | TEST | BENCH
  | LLVM_FUNC | INTERNAL_LINKAGE | EXTERNAL_LINKAGE | INLINE | NO_INLINE
  | NO_MANGLE | NOT_IMPLEMENTED | EXPORT | OVERRIDE | FIRST_ARG_IS_SELF
  | UNSAFE_FUNC_NOT_BODY | UNSAFE | BUILTIN | NO_POINTER_SELF | INTRINSIC
  | TYPECHECKED | ALLOW_FOR_TEST | ALLOW_FOR_BENCH | CLASS_EXTENDS | NO_CONSTRUCTOR
  | MACROS

primrec attribute_index :: "Attributes \<Rightarrow> nat" where
    "attribute_index INVALID = 0"
  | "attribute_index CFG = 1"
  | "attribute_index ATTR = 2"
  | "attribute_index TEST = 3"
  | "attribute_index BENCH = 4"
  | "attribute_index LLVM_FUNC = 5"
  | "attribute_index INTERNAL_LINKAGE = 6"
  | "attribute_index EXTERNAL_LINKAGE = 7"
  | "attribute_index INLINE = 8"
  | "attribute_index NO_INLINE = 9"
  | "attribute_index NO_MANGLE = 10"
  | "attribute_index NOT_IMPLEMENTED = 11"
  | "attribute_index EXPORT = 12"
  | "attribute_index OVERRIDE = 13"
  | "attribute_index FIRST_ARG_IS_SELF = 14"
  | "attribute_index UNSAFE_FUNC_NOT_BODY = 15"
  | "attribute_index UNSAFE = 16"
  | "attribute_index BUILTIN = 17"
  | "attribute_index NO_POINTER_SELF = 18"
  | "attribute_index INTRINSIC = 19"
  | "attribute_index TYPECHECKED = 20"
  | "attribute_index ALLOW_FOR_TEST = 21"
  | "attribute_index ALLOW_FOR_BENCH = 22"
  | "attribute_index CLASS_EXTENDS = 23"
  | "attribute_index NO_CONSTRUCTOR = 24"
  | "attribute_index MACROS = 25"

type_synonym StoreType = "(string \<times> string) list"

record AttributeHolder =
  m_attributes :: "32 word"
  arguments :: "(Attributes \<times> StoreType) list"

definition no_attributes :: AttributeHolder where
  "no_attributes = \<lparr>m_attributes = 0, arguments = []\<rparr>"

definition attribute_bit :: "Attributes \<Rightarrow> 32 word" where
  "attribute_bit a = push_bit (attribute_index a) 1"

definition hasAttribute :: "AttributeHolder \<Rightarrow> Attributes \<Rightarrow> bool" where
  "hasAttribute h a \<longleftrightarrow> m_attributes h AND attribute_bit a \<noteq> 0"

definition addAttribute :: "Attributes \<Rightarrow> StoreType \<Rightarrow> AttributeHolder \<Rightarrow> AttributeHolder" where
  "addAttribute a args h =
     h\<lparr>arguments := AList.update a args (arguments h),
       m_attributes := m_attributes h OR attribute_bit a\<rparr>"

definition setAttributes :: "32 word \<Rightarrow> (Attributes \<times> StoreType) list \<Rightarrow> AttributeHolder \<Rightarrow> AttributeHolder"
where
  "setAttributes attribute args h = h\<lparr>m_attributes := attribute, arguments := args\<rparr>"

text \<open>
  The arguments of the other holder are moved out of it: both holders after the call, the
  receiver first. The bits of the other holder stay set.
\<close>

definition setAttributes_from :: "AttributeHolder \<Rightarrow> AttributeHolder \<Rightarrow> AttributeHolder \<times> AttributeHolder"
where
  "setAttributes_from holder h =
     (h\<lparr>arguments := arguments holder, m_attributes := m_attributes holder\<rparr>,
      holder\<lparr>arguments := []\<rparr>)"

definition removeAttribute :: "Attributes \<Rightarrow> AttributeHolder \<Rightarrow> AttributeHolder" where
  "removeAttribute a h = h\<lparr>m_attributes := m_attributes h AND NOT (attribute_bit a)\<rparr>"

definition clearAttributes :: "AttributeHolder \<Rightarrow> AttributeHolder" where
  "clearAttributes h = h\<lparr>m_attributes := 0\<rparr>"

definition getAttributeArgs :: "AttributeHolder \<Rightarrow> Attributes \<Rightarrow> StoreType" where
  "getAttributeArgs h a = (case map_of (arguments h) a of None \<Rightarrow> [] | Some s \<Rightarrow> s)"

definition getAttrValue :: "AttributeHolder \<Rightarrow> string \<Rightarrow> string option" where
  "getAttrValue h attrName =
     (if hasAttribute h ATTR then map_of (getAttributeArgs h ATTR) attrName else None)"

section \<open>Attributes as a set\<close>

lemma attribute_index_less: "attribute_index a < 32"
  by (cases a) simp_all

lemma attribute_index_inject [simp]: "attribute_index a = attribute_index b \<longleftrightarrow> a = b"
  by (cases a; cases b; simp)

lemma bit_attribute_bit: "bit (attribute_bit a) n \<longleftrightarrow> n = attribute_index a"
  using attribute_index_less [of a]
  by (auto simp: attribute_bit_def bit_exp_iff possible_bit_def)

lemma hasAttribute_bit: "hasAttribute h a \<longleftrightarrow> bit (m_attributes h) (attribute_index a)"
proof -
  have "m_attributes h AND attribute_bit a
      = (if bit (m_attributes h) (attribute_index a) then attribute_bit a else 0)"
    by (rule bit_eqI) (auto simp: bit_and_iff bit_attribute_bit)
  moreover have "attribute_bit a \<noteq> 0"
    by (metis bit_0_eq bit_attribute_bit bot_apply bot_bool_def)
  ultimately show ?thesis
    by (simp add: hasAttribute_def)
qed

lemma hasAttribute_add [simp]:
  "hasAttribute (addAttribute a args h) b \<longleftrightarrow> b = a \<or> hasAttribute h b"
  by (auto simp: hasAttribute_bit addAttribute_def bit_or_iff bit_attribute_bit)

lemma hasAttribute_remove [simp]:
  "hasAttribute (removeAttribute a h) b \<longleftrightarrow> b \<noteq> a \<and> hasAttribute h b"
  using attribute_index_less [of b]
  by (auto simp: hasAttribute_bit removeAttribute_def bit_and_iff bit_not_iff bit_attribute_bit)

lemma hasAttribute_clear [simp]: "\<not> hasAttribute (clearAttributes h) b"
  by (simp add: hasAttribute_def clearAttributes_def)

lemma getAttributeArgs_add [simp]:
  "getAttributeArgs (addAttribute a args h) b = (if b = a then args else getAttributeArgs h b)"
  by (simp add: getAttributeArgs_def addAttribute_def update_conv)

lemma getAttributeArgs_remove [simp]:
  "getAttributeArgs (removeAttribute a h) b = getAttributeArgs h b"
  by (simp add: getAttributeArgs_def removeAttribute_def)

end
