(* ===== verification/Ast.thy ===== *)
theory Ast
  imports Operators Attributes
begin

text \<open>
  The syntax tree of \<^verbatim>\<open>src/ast/syntax/{nodes,common}.h\<close>. Every class derived from
  \<^verbatim>\<open>Syntax::Node\<close> is a constructor of \<open>node\<close>, with its fields in the order of the class; a null
  pointer is \<open>None\<close>. The plain structures that nodes hold (parameters, case and catch blocks,
  the common part of the function definitions) are datatypes over the type of nodes. Left out
  are the source positions, which only feed the messages, and the fields that later passes
  fill in (context state, macro instances). An \<open>InternalTypeRef\<close> is a \<^verbatim>\<open>TypeRef\<close> whose internal type is
  set: it stands for the type object at that address. A lambda holds the result of a cast to
  \<^verbatim>\<open>BodiedFunction\<close>, so a \<open>LambdaFunction\<close> over any other function node is the null pointer.
\<close>

datatype ConstantType = CT_String | CT_Number | CT_Float | CT_Bool | CT_Char

datatype Privacy = PUBLIC | PRIVATE

datatype ParamStatus = Normal | Generic

datatype DefinedKind = DT_CLASS | DT_STRUCT | DT_INTERFACE

datatype FlowType = Break | Continue

datatype ArguementType =
    MA_STATEMENT | MA_EXPRESSION | MA_CONSTANT | MA_TYPE
  | MA_CONSTANT_CHAR | MA_CONSTANT_NUMBER | MA_CONSTANT_STRING

text \<open>\<^verbatim>\<open>Syntax::Comment\<close>: values, body and whether it is a valid documentation comment.\<close>

datatype Comment =
  Comment (comment_values: "(string \<times> string) list") (comment_body: string) (comment_valid: bool)

text \<open>\<^verbatim>\<open>Expression::Param\<close>: name, type, default value, where clause, status, mutability.\<close>

datatype 'n Param =
  Param (param_name: string) (param_type: "'n option") (defaultValue: "'n option")
    (whereClause: "'n list option") (param_status: ParamStatus) (mutableArg: bool)

datatype 'n CaseBlock =
  CaseBlock (case_expression: "'n option \<times> string") (case_args: "string list")
    (isDefault: bool) (isVariadicCase: bool) (case_block: 'n)

datatype 'n CatchBlock =
  CatchBlock (exceptionType: 'n) (exceptionVar: string) (catch_block: 'n)

text \<open>
  \<^verbatim>\<open>Statement::FunctionDef\<close> without its subclasses: name, privacy, arguments, return type,
  the flags, generics (\<open>None\<close> when the function is not generic), comment and attributes.
\<close>

datatype 'n FunctionDefData =
  FunctionDefData (fn_name: string) (fn_privacy: Privacy) (fn_args: "'n Param list")
    (fn_retType: "'n option") (fn_variadic: bool) (fn_static: bool) (fn_virtual: bool)
    (fn_mutable: bool) (fn_generics: "'n Param list option") (fn_comment: "Comment option")
    (fn_attributes: AttributeHolder)

datatype (plugins only: size) node =
    Block AttributeHolder "node list"
  | ConstantValue ConstantType string string
  | Cast node node
  | FunctionCall node "node list"
  | NewInstance node node
  | Identifier string
  | GenericIdentifier string "node list"
  | PseudoVariable string "node list" bool bool
  | Index node node bool
  | BinaryOp OperatorType node "node option" bool bool
  | LambdaFunction node
  | TypeRef string "node list" string "node option"
  | InternalTypeRef string "node list" string nat
  | DeclType node
  | FuncType "node list" node
  | TupleType "node list"
  | ReferenceTypeRef node bool
  | PointerTypeRef node bool
  | FunctionDef "node FunctionDefData"
  | ExternFnDef string "node FunctionDefData"
  | BodiedFunction node "node FunctionDefData"
  | ConstructorDef node "node list" "(node \<times> node) list" bool "node FunctionDefData"
  | LLVMFunction string "node list" "node FunctionDefData"
  | VariableDecl string "node option" bool "node option" bool bool Privacy "Comment option"
      AttributeHolder
  | TypeAlias string node "node Param list option" Privacy "Comment option"
  | DefinedTypeDef string "node list" "node list" "node list" "node option" DefinedKind
      "node list" bool "node Param list option" Privacy "Comment option" AttributeHolder
  | EnumTypeDef string "(string \<times> node list) list" "node list" "node list"
      "node Param list option" Privacy "Comment option" AttributeHolder
  | Switch node "node CaseBlock list" bool
  | Raise node
  | Conditional node node "node option"
  | LoopFlow FlowType
  | TryCatch node "node CatchBlock list"
  | ForLoop string node node
  | WhileLoop node node bool "node option"
  | ImportStmt "string list" string "(string \<times> string) list" string AttributeHolder
  | Namespace string "node list" "Comment option" AttributeHolder
  | Return "node option"
  | Macro string "(string \<times> ArguementType \<times> node option) list" node bool AttributeHolder
      "Comment option"

end
