(* ===== verification/OperatorTree.thy ===== *)
theory OperatorTree
  imports Ast
begin

text \<open>
  \<^verbatim>\<open>Parser::buildOperatorTree\<close> (\<^verbatim>\<open>src/parser/buildOperatorTree.cc\<close>): the flat sequence of
  operands and operators collected by the expression parser is reduced to one expression, one
  operator of minimal precedence at a time. An element of the sequence is an operator node that
  waits for its operands (\<^verbatim>\<open>isOperator\<close> set, with its position and mutability flag) or a complete
  node.
\<close>

section \<open>The algorithm\<close>

datatype item = PendingOp "int \<times> int" OperatorType bool | Node node

definition is_pending :: "item \<Rightarrow> bool" where
  "is_pending x = (case x of PendingOp _ _ _ \<Rightarrow> True | Node _ \<Rightarrow> False)"

lemma is_pending_simps [simp]: "is_pending (PendingOp p op m)" "\<not> is_pending (Node n)"
  by (simp_all add: is_pending_def)

definition precedence :: "OperatorType \<Rightarrow> int" where
  "precedence op =
    (if op \<in> {OT_NOT, OT_BIT_NOT, OT_UPLUS, OT_REFERENCE, OT_DEREFERENCE, OT_UMINUS} then 0
     else if op \<in> {OT_MUL, OT_DIV, OT_MOD} then 1
     else if op \<in> {OT_PLUS, OT_MINUS} then 2
     else if op \<in> {OT_BIT_LSHIFT, OT_BIT_RSHIFT} then 3
     else if op \<in> {OT_LT, OT_LTEQ, OT_GT, OT_GTEQ} then 4
     else if op \<in> {OT_EQEQ, OT_NOTEQ} then 5
     else if op = OT_BIT_AND then 6
     else if op = OT_BIT_XOR then 7
     else if op = OT_BIT_OR then 8
     else if op = OT_AND then 9
     else if op = OT_OR then 10
     else if op \<in> {OT_EQ, OT_PLUSEQ, OT_MINUSEQ, OT_MULEQ, OT_DIVEQ, OT_MOD_EQ, OT_BIT_LSHIFT_EQ,
        OT_BIT_RSHIFT_EQ, OT_BIT_AND_EQ, OT_BIT_XOR_EQ, OT_BIT_OR_EQ} then 11
     else - 1)"

text \<open>
  The scan for the operator to reduce next: minimal precedence so far, its index (\<open>- 1\<close> for
  none) and whether it is unary. Only a strictly smaller precedence replaces the candidate.
\<close>

definition scan_item :: "int \<Rightarrow> item \<Rightarrow> int \<times> int \<times> bool \<Rightarrow> int \<times> int \<times> bool" where
  "scan_item i x acc = (case x of
      Node _ \<Rightarrow> acc
    | PendingOp _ op _ \<Rightarrow>
        (let (min_precedence, next_op, unary) = acc in
         if precedence op < min_precedence then (precedence op, i, isUnary op) else acc))"

fun scan :: "int \<Rightarrow> item list \<Rightarrow> int \<times> int \<times> bool \<Rightarrow> int \<times> int \<times> bool" where
  "scan i [] acc = acc"
| "scan i (x # xs) acc = scan (i + 1) xs (scan_item i x acc)"

definition next_operator :: "item list \<Rightarrow> int \<times> int \<times> bool" where
  "next_operator exprs = scan 0 exprs (0xFFFFF, - 1, False)"

text \<open>
  The operand of a unary operator: the first complete node at or after its index. Running off
  the end is the syntax error at the position of the last operator.
\<close>

definition item_pos :: "item \<Rightarrow> int \<times> int" where
  "item_pos x = (case x of PendingOp p _ _ \<Rightarrow> p | Node _ \<Rightarrow> (0, 0))"

definition expected_expression :: "int \<times> int \<Rightarrow> failure" where
  "expected_expression p = ParserError \<lparr>d_error = SYNTAX_ERROR, d_msg = ''expected an expression.'',
     d_line = fst p, d_col = snd p, d_width = 1\<rparr>"

function next_operand :: "item list \<Rightarrow> nat \<Rightarrow> nat res" where
  "next_operand exprs next_expr =
     (if next_expr < length exprs \<and> is_pending (exprs ! next_expr) then
        (if next_expr + 1 = length exprs
         then Inl (expected_expression (item_pos (exprs ! next_expr)))
         else next_operand exprs (next_expr + 1))
      else Inr next_expr)"
  by auto
termination by (relation "measure (\<lambda>(exprs, i). length exprs - i)") auto

declare next_operand.simps [simp del]

text \<open>
  The operators between the two indices, last first, take the node after them as operand. The
  new node starts with its flags unset.
\<close>

definition reduce_unary :: "nat \<Rightarrow> item list \<Rightarrow> item list res" where
  "reduce_unary i exprs = (case (exprs ! i, exprs ! (i + 1)) of
      (PendingOp _ op _, Node n) \<Rightarrow>
        Inr (take i exprs @ [Node (BinaryOp op n None False False)] @ drop (i + 2) exprs)
    | _ \<Rightarrow> Inl Abort)"

primrec reduce_unaries :: "nat \<Rightarrow> nat \<Rightarrow> item list \<Rightarrow> item list res" where
  "reduce_unaries next_op 0 exprs = Inr exprs"
| "reduce_unaries next_op (Suc k) exprs =
     bindR (reduce_unary (next_op + k) exprs) (reduce_unaries next_op k)"

text \<open>
  After the two assertions the neighbours are complete nodes, so the checks for an unexpected
  assignment that follow them in the source cannot fire.
\<close>

definition reduce_binary :: "int \<Rightarrow> item list \<Rightarrow> item list res" where
  "reduce_binary next_op exprs =
     (if \<not> (next_op \<ge> 1 \<and> next_op < int (length exprs) - 1) then Inl AssertFail
      else let i = nat next_op in
        if is_pending (exprs ! (i + 1)) \<or> is_pending (exprs ! (i - 1)) then Inl AssertFail
        else case (exprs ! (i - 1), exprs ! i, exprs ! (i + 1)) of
            (Node l, PendingOp _ op _, Node r) \<Rightarrow>
              Inr (take (i - 1) exprs @ [Node (BinaryOp op l (Some r) False False)]
                @ drop (i + 2) exprs)
          | _ \<Rightarrow> Inl Abort)"

definition build_step :: "item list \<Rightarrow> item list res" where
  "build_step exprs =
     (let (min_precedence, next_op, unary) = next_operator exprs in
      if next_op < 0 then Inl AssertFail
      else if unary then
        bindR (next_operand exprs (nat next_op)) (\<lambda>next_expr.
          reduce_unaries (nat next_op) (next_expr - nat next_op) exprs)
      else reduce_binary next_op exprs)"


declare split_paired_Ex [simp del] split_paired_All [simp del]

lemma next_operand_ge: "next_operand xs i = Inr j \<Longrightarrow> i \<le> j"
  by (induction xs i rule: next_operand.induct) (subst (asm) (2) next_operand.simps, auto split: if_splits)

lemma next_operand_step:
  assumes "next_operand xs i = Inr j" "i < length xs" "is_pending (xs ! i)"
  shows "i < j"
proof -
  have "next_operand xs (i + 1) = Inr j"
    using assms next_operand.simps [of xs i] by (simp split: if_splits)
  then show ?thesis
    using next_operand_ge [of xs "i + 1" j] by simp
qed

lemma next_operand_lt:
  "next_operand xs i = Inr j \<Longrightarrow> i < length xs \<Longrightarrow> j < length xs"
  by (induction xs i rule: next_operand.induct) (subst (asm) (2) next_operand.simps, auto split: if_splits)

lemma reduce_unary_length: "reduce_unary i xs = Inr ys \<Longrightarrow> i + 1 < length xs \<Longrightarrow> length ys = length xs - 1"
  by (auto simp: reduce_unary_def split: item.splits)

lemma reduce_unaries_length:
  "reduce_unaries lo k xs = Inr ys \<Longrightarrow> lo + k < length xs \<Longrightarrow> length ys = length xs - k"
  by (induction k arbitrary: xs) (auto simp: res_simps dest!: reduce_unary_length)

text \<open>What the scan finds: the leftmost operator of minimal precedence.\<close>

lemma precedence_bounds: "- 1 \<le> precedence op" "precedence op < 0xFFFFF"
  by (simp_all add: precedence_def)

lemma precedence_unary: "isUnary op \<longleftrightarrow> precedence op = 0"
  by (cases op) (simp_all add: precedence_def isUnary_def)

definition ops_of :: "item list \<Rightarrow> OperatorType set" where
  "ops_of xs = {op. \<exists>p m. PendingOp p op m \<in> set xs}"

lemma ops_of_simps [simp]:
  "ops_of [] = {}" "ops_of (PendingOp p op m # xs) = insert op (ops_of xs)"
  "ops_of (Node n # xs) = ops_of xs" "ops_of (xs @ ys) = ops_of xs \<union> ops_of ys"
  by (auto simp: ops_of_def)

lemma scan_spec:
  "scan i xs acc = acc \<and> (\<forall>op\<in>ops_of xs. fst acc \<le> precedence op) \<or>
   (\<exists>u p op m v. xs = u @ PendingOp p op m # v
      \<and> scan i xs acc = (precedence op, i + int (length u), isUnary op)
      \<and> precedence op < fst acc
      \<and> (\<forall>o'\<in>ops_of u. precedence op < precedence o')
      \<and> (\<forall>o'\<in>ops_of v. precedence op \<le> precedence o'))"
proof (induction xs arbitrary: i acc)
  case Nil
  then show ?case by simp
next
  case (Cons x xs)
  show ?case
  proof (cases x)
    case (Node n)
    then have [simp]: "scan_item i (Node n) acc = acc" by (simp add: scan_item_def)
    from Cons.IH [of "i + 1" acc] show ?thesis
    proof
      assume "scan (i + 1) xs acc = acc \<and> (\<forall>op\<in>ops_of xs. fst acc \<le> precedence op)"
      then show ?thesis using Node by simp
    next
      assume "\<exists>u p op m v. xs = u @ PendingOp p op m # v
        \<and> scan (i + 1) xs acc = (precedence op, i + 1 + int (length u), isUnary op)
        \<and> precedence op < fst acc
        \<and> (\<forall>o'\<in>ops_of u. precedence op < precedence o')
        \<and> (\<forall>o'\<in>ops_of v. precedence op \<le> precedence o')"
      then obtain u p op m v where "xs = u @ PendingOp p op m # v"
        "scan (i + 1) xs acc = (precedence op, i + 1 + int (length u), isUnary op)"
        "precedence op < fst acc" "\<forall>o'\<in>ops_of u. precedence op < precedence o'"
        "\<forall>o'\<in>ops_of v. precedence op \<le> precedence o'" by blast
      then show ?thesis using Node
        by (intro disjI2 exI [of _ "x # u"] exI [of _ p] exI [of _ op] exI [of _ m] exI [of _ v]) simp
    qed
  next
    case (PendingOp p op m)
    let ?acc = "scan_item i x acc"
    have fst_acc: "fst ?acc = min (precedence op) (fst acc)"
      by (cases acc) (simp add: PendingOp scan_item_def)
    from Cons.IH [of "i + 1" ?acc] show ?thesis
    proof
      assume *: "scan (i + 1) xs ?acc = ?acc \<and> (\<forall>op\<in>ops_of xs. fst ?acc \<le> precedence op)"
      show ?thesis
      proof (cases "precedence op < fst acc")
        case True
        then have "?acc = (precedence op, i, isUnary op)"
          by (cases acc) (simp add: PendingOp scan_item_def)
        then show ?thesis using * True PendingOp
          by (intro disjI2 exI [of _ "[]"] exI [of _ p] exI [of _ op] exI [of _ m] exI [of _ xs]) simp
      next
        case False
        then have "?acc = acc"
          by (cases acc) (simp add: PendingOp scan_item_def)
        then show ?thesis using * False PendingOp by auto
      qed
    next
      assume "\<exists>u p op m v. xs = u @ PendingOp p op m # v
        \<and> scan (i + 1) xs ?acc = (precedence op, i + 1 + int (length u), isUnary op)
        \<and> precedence op < fst ?acc
        \<and> (\<forall>o'\<in>ops_of u. precedence op < precedence o')
        \<and> (\<forall>o'\<in>ops_of v. precedence op \<le> precedence o')"
      then obtain u p' o'' m' v where "xs = u @ PendingOp p' o'' m' # v"
        "scan (i + 1) xs ?acc = (precedence o'', i + 1 + int (length u), isUnary o'')"
        "precedence o'' < fst ?acc" "\<forall>o'\<in>ops_of u. precedence o'' < precedence o'"
        "\<forall>o'\<in>ops_of v. precedence o'' \<le> precedence o'" by blast
      then show ?thesis using PendingOp fst_acc
        by (intro disjI2 exI [of _ "x # u"] exI [of _ p'] exI [of _ o''] exI [of _ m'] exI [of _ v]) simp
    qed
  qed
qed

lemma next_operator_cases:
  obtains (none) "ops_of xs = {}" "next_operator xs = (0xFFFFF, - 1, False)"
  | (found) u p op m v where "xs = u @ PendingOp p op m # v"
      "next_operator xs = (precedence op, int (length u), isUnary op)"
      "\<And>o'. o' \<in> ops_of u \<Longrightarrow> precedence op < precedence o'"
      "\<And>o'. o' \<in> ops_of v \<Longrightarrow> precedence op \<le> precedence o'"
proof -
  have none': "ops_of xs = {}" if "\<forall>op\<in>ops_of xs. 0xFFFFF \<le> precedence op"
    using that precedence_bounds(2) by (metis all_not_in_conv not_le)
  from scan_spec [of 0 xs "(0xFFFFF, - 1, False)"] show thesis
  proof
    assume "scan 0 xs (0xFFFFF, - 1, False) = (0xFFFFF, - 1, False)
      \<and> (\<forall>op\<in>ops_of xs. fst (0xFFFFF, - 1 :: int, False) \<le> precedence op)"
    then show thesis by (intro none none') (simp_all add: next_operator_def)
  next
    assume "\<exists>u p op m v. xs = u @ PendingOp p op m # v
      \<and> scan 0 xs (0xFFFFF, - 1, False) = (precedence op, 0 + int (length u), isUnary op)
      \<and> precedence op < fst (0xFFFFF, - 1 :: int, False)
      \<and> (\<forall>o'\<in>ops_of u. precedence op < precedence o')
      \<and> (\<forall>o'\<in>ops_of v. precedence op \<le> precedence o')"
    then obtain u p op m v where "xs = u @ PendingOp p op m # v"
      "scan 0 xs (0xFFFFF, - 1, False) = (precedence op, 0 + int (length u), isUnary op)"
      "\<forall>o'\<in>ops_of u. precedence op < precedence o'"
      "\<forall>o'\<in>ops_of v. precedence op \<le> precedence o'" by blast
    then show thesis by (intro found) (auto simp: next_operator_def)
  qed
qed

lemma build_step_length: "build_step xs = Inr ys \<Longrightarrow> length ys < length xs"
proof -
  assume step: "build_step xs = Inr ys"
  show ?thesis
  proof (cases xs rule: next_operator_cases)
    case none
    then show ?thesis using step by (simp add: build_step_def)
  next
    case (found u p op m v)
    show ?thesis
    proof (cases "isUnary op")
      case False
      then show ?thesis using step found(2)
        by (auto simp: build_step_def reduce_binary_def Let_def split: if_splits item.splits)
    next
      case True
      then obtain j where j: "next_operand xs (length u) = Inr j"
        and ys: "reduce_unaries (length u) (j - length u) xs = Inr ys"
        using step found(2) by (auto simp: build_step_def res_simps)
      have lt: "length u < j"
        using found(1) by (intro next_operand_step [OF j]) auto
      have "j < length xs"
        using next_operand_lt [OF j] found(1) by simp
      then show ?thesis
        using reduce_unaries_length [OF ys] lt by simp
    qed
  qed
qed

function build_loop :: "item list \<Rightarrow> item list res" where
  "build_loop exprs =
     (if length exprs > 1
      then case build_step exprs of Inl e \<Rightarrow> Inl e | Inr exprs' \<Rightarrow> build_loop exprs'
      else Inr exprs)"
  by auto
termination by (relation "measure length") (auto dest: build_step_length)

declare build_loop.simps [simp del]

text \<open>
  The last element left is returned as an expression; it is a complete node unless the caller
  passed a single operator.
\<close>

definition buildOperatorTree :: "item list \<Rightarrow> item res" where
  "buildOperatorTree exprs =
     (if exprs = [] then Inl AssertFail else bindR (build_loop exprs) (\<lambda>xs. Inr (hd xs)))"

section \<open>Specification: operator trees\<close>

text \<open>
  A tree over complete nodes, its sequence of symbols, the precedence of its root and the
  grammar it has to respect: binary operators associate to the left and bind their operands by
  precedence, unary operators bind tighter than every binary one.
\<close>

datatype optree = LeafT node | UnT OperatorType optree | BinT OperatorType optree optree

datatype symbol = SOp OperatorType | SNode node

primrec embed :: "optree \<Rightarrow> node" where
  "embed (LeafT n) = n"
| "embed (UnT op t) = BinaryOp op (embed t) None False False"
| "embed (BinT op l r) = BinaryOp op (embed l) (Some (embed r)) False False"

primrec symbols :: "optree \<Rightarrow> symbol list" where
  "symbols (LeafT n) = [SNode n]"
| "symbols (UnT op t) = SOp op # symbols t"
| "symbols (BinT op l r) = symbols l @ SOp op # symbols r"

primrec root_prec :: "optree \<Rightarrow> int" where
  "root_prec (LeafT n) = 0"
| "root_prec (UnT op t) = 0"
| "root_prec (BinT op l r) = precedence op"

primrec well_bracketed :: "optree \<Rightarrow> bool" where
  "well_bracketed (LeafT n) = True"
| "well_bracketed (UnT op t) = (isUnary op \<and> root_prec t = 0 \<and> well_bracketed t)"
| "well_bracketed (BinT op l r) = (1 \<le> precedence op \<and> well_bracketed l \<and> well_bracketed r
     \<and> root_prec l \<le> precedence op \<and> root_prec r < precedence op)"

primrec item_symbol :: "item \<Rightarrow> symbol" where
  "item_symbol (PendingOp p op m) = SOp op"
| "item_symbol (Node n) = SNode n"

text \<open>
  The sequences the expression parser means to build: operands, each after any number of unary
  operators, separated by binary operators. The flag says whether an operand is expected.
\<close>

fun alternating :: "bool \<Rightarrow> symbol list \<Rightarrow> bool" where
  "alternating True [] = False"
| "alternating False [] = True"
| "alternating True (SNode n # s) = alternating False s"
| "alternating False (SNode n # s) = False"
| "alternating True (SOp op # s) = (isUnary op \<and> alternating True s)"
| "alternating False (SOp op # s) = (1 \<le> precedence op \<and> alternating True s)"

section \<open>Correctness\<close>

text \<open>A sequence whose complete elements are trees, and its concrete counterpart.\<close>

datatype aitem = AOp "int \<times> int" OperatorType bool | ATree optree

primrec concrete :: "aitem \<Rightarrow> item" where
  "concrete (AOp p op m) = PendingOp p op m"
| "concrete (ATree t) = Node (embed t)"

primrec aitem_symbols :: "aitem \<Rightarrow> symbol list" where
  "aitem_symbols (AOp p op m) = [SOp op]"
| "aitem_symbols (ATree t) = symbols t"

fun shape :: "bool \<Rightarrow> aitem list \<Rightarrow> bool" where
  "shape True [] = False"
| "shape False [] = True"
| "shape True (ATree t # s) = shape False s"
| "shape False (ATree t # s) = False"
| "shape True (AOp p op m # s) = (isUnary op \<and> shape True s)"
| "shape False (AOp p op m # s) = (1 \<le> precedence op \<and> shape True s)"

definition aops :: "aitem list \<Rightarrow> OperatorType set" where
  "aops ys = {op. \<exists>p m. AOp p op m \<in> set ys}"

lemma aops_simps [simp]:
  "aops [] = {}" "aops (AOp p op m # ys) = insert op (aops ys)"
  "aops (ATree t # ys) = aops ys" "aops (ys @ zs) = aops ys \<union> aops zs"
  by (auto simp: aops_def)

lemma ops_of_concrete: "ops_of (map concrete ys) = aops ys"
proof (induction ys)
  case (Cons y ys)
  then show ?case by (cases y) auto
qed simp

text \<open>The operator to the left of a tree binds looser than the root of the tree.\<close>

fun left_strict :: "OperatorType option \<Rightarrow> aitem list \<Rightarrow> bool" where
  "left_strict prev [] = True"
| "left_strict prev (AOp p op m # ys) = left_strict (Some op) ys"
| "left_strict prev (ATree t # ys) =
     ((case prev of None \<Rightarrow> True | Some op \<Rightarrow> isUnary op \<or> root_prec t < precedence op)
       \<and> left_strict None ys)"

definition trees_ok :: "aitem list \<Rightarrow> bool" where
  "trees_ok ys \<longleftrightarrow> (\<forall>t. ATree t \<in> set ys \<longrightarrow> well_bracketed t
     \<and> (\<forall>op\<in>aops ys. root_prec t \<le> precedence op))"

definition ready :: "aitem list \<Rightarrow> bool" where
  "ready ys \<longleftrightarrow> shape True ys \<and> trees_ok ys \<and> left_strict None ys"

lemma shape_replace:
  assumes "\<And>s. shape s v \<Longrightarrow> shape s v'" "shape s (u @ v)"
  shows "shape s (u @ v')"
  using assms(2)
proof (induction u arbitrary: s)
  case (Cons y u)
  then show ?case by (cases y; cases s) auto
qed (simp add: assms(1))

lemma shape_append: "shape s (u @ v) \<Longrightarrow> \<exists>s'. shape s' v"
proof (induction u arbitrary: s)
  case (Cons y u)
  then show ?case by (cases y; cases s) auto
qed auto

lemma shape_prec: "shape s ys \<Longrightarrow> op \<in> aops ys \<Longrightarrow> 0 \<le> precedence op"
proof (induction ys arbitrary: s)
  case (Cons y ys)
  then show ?case by (cases y; cases s) (auto simp: precedence_unary)
qed simp

lemma shape_no_ops: "shape s ys \<Longrightarrow> aops ys = {} \<Longrightarrow> length ys \<le> 1"
proof (induction ys arbitrary: s rule: induct_list012)
  case (3 x y ys)
  then show ?case by (cases x; cases y; cases s) auto
qed auto

lemma shape_operand:
  "shape True ys \<Longrightarrow> \<exists>os t v. ys = map (\<lambda>(p, op, m). AOp p op m) os @ ATree t # v
     \<and> (\<forall>(p, op, m)\<in>set os. isUnary op) \<and> shape False v"
proof (induction ys)
  case (Cons y ys)
  show ?case
  proof (cases y)
    case (AOp p op m)
    then obtain os t v where "ys = map (\<lambda>(p, op, m). AOp p op m) os @ ATree t # v"
      "\<forall>(p, op, m)\<in>set os. isUnary op" "shape False v" "isUnary op"
      using Cons by fastforce
    then show ?thesis using AOp
      by (intro exI [of _ "(p, op, m) # os"] exI [of _ t] exI [of _ v]) auto
  next
    case (ATree t)
    then show ?thesis using Cons.prems
      by (intro exI [of _ "[]"] exI [of _ t] exI [of _ ys]) simp
  qed
qed simp

lemma shape_left_operand:
  assumes "shape s (u @ AOp p op m # v)" "1 \<le> precedence op" "s \<Longrightarrow> u \<noteq> []"
    "\<And>o'. o' \<in> aops u \<Longrightarrow> 1 \<le> precedence o'"
  shows "u = [] \<or> (\<exists>u' t. u = u' @ [ATree t])"
  using assms
proof (induction u arbitrary: s)
  case (Cons y u)
  show ?case
  proof (cases y)
    case (AOp p' o' m')
    then have "1 \<le> precedence o'" using Cons.prems(4) by simp
    then have *: "\<not> s" using Cons.prems(1) AOp
      by (cases s) (auto simp: precedence_unary)
    then have "shape True (u @ AOp p op m # v)" using AOp Cons.prems(1) by simp
    moreover have "u \<noteq> []"
      using calculation Cons.prems(2) by (auto simp: precedence_unary)
    ultimately have "u = [] \<or> (\<exists>u' t. u = u' @ [ATree t])"
      using Cons.IH [of True] Cons.prems(2,4) AOp by simp
    then show ?thesis using \<open>u \<noteq> []\<close> by (metis append_Cons)
  next
    case (ATree t)
    then have "shape False (u @ AOp p op m # v)" using Cons.prems(1) by (cases s) simp_all
    then have "u = [] \<or> (\<exists>u' t. u = u' @ [ATree t])"
      using Cons.IH [of False] Cons.prems(2,4) ATree by simp
    then show ?thesis using ATree by (metis append_Cons append_Nil)
  qed
qed simp

fun pending_after :: "OperatorType option \<Rightarrow> aitem list \<Rightarrow> OperatorType option" where
  "pending_after prev [] = prev"
| "pending_after prev (AOp p op m # ys) = pending_after (Some op) ys"
| "pending_after prev (ATree t # ys) = pending_after None ys"

lemma left_strict_append:
  "left_strict prev (u @ v) \<longleftrightarrow> left_strict prev u \<and> left_strict (pending_after prev u) v"
  by (induction prev u rule: left_strict.induct) auto

lemma pending_after_in: "pending_after prev u = Some op \<Longrightarrow> prev = Some op \<or> op \<in> aops u"
  by (induction prev u rule: pending_after.induct) auto

definition pend :: "(int \<times> int) \<times> OperatorType \<times> bool \<Rightarrow> aitem" where
  "pend = (\<lambda>(p, op, m). AOp p op m)"

definition wrap :: "((int \<times> int) \<times> OperatorType \<times> bool) list \<Rightarrow> optree \<Rightarrow> optree" where
  "wrap os t = foldr (\<lambda>(p, op, m). UnT op) os t"

lemma wrap_simps [simp]: "wrap [] t = t" "wrap ((p, op, m) # os) t = UnT op (wrap os t)"
  by (simp_all add: wrap_def)

lemma concrete_pend [simp]: "concrete (pend (p, op, m)) = PendingOp p op m"
  by (simp add: pend_def)

lemma is_pending_concrete_pend [simp]: "is_pending (concrete (pend x))"
  by (cases x) simp

lemma next_operand_run:
  "next_operand (u @ map (\<lambda>x. concrete (pend x)) os @ Node n # v) (length u)
     = Inr (length u + length os)"
proof (induction os arbitrary: u)
  case Nil
  then show ?case by (subst next_operand.simps) simp
next
  case (Cons x os)
  let ?xs = "u @ map (\<lambda>x. concrete (pend x)) (x # os) @ Node n # v"
  have "next_operand ?xs (length u) = next_operand ?xs (length u + 1)"
    by (subst next_operand.simps) (simp add: nth_append)
  also have "\<dots> = Inr (length u + 1 + length os)"
    using Cons.IH [of "u @ [concrete (pend x)]"] by simp
  finally show ?case by simp
qed

lemma reduce_unary_run:
  "reduce_unary (length u) (u @ concrete (pend (p, op, m)) # Node n # v)
     = Inr (u @ Node (BinaryOp op n None False False) # v)"
  by (simp add: reduce_unary_def nth_append)

lemma reduce_unaries_run:
  "reduce_unaries (length u) (length os) (u @ map (\<lambda>x. concrete (pend x)) os @ Node (embed t) # v)
     = Inr (u @ Node (embed (wrap os t)) # v)"
proof (induction os arbitrary: t rule: rev_induct)
  case (snoc x os)
  obtain p op m where x: "x = (p, op, m)" by (cases x) auto
  have "reduce_unary (length u + length os)
      (u @ map (\<lambda>x. concrete (pend x)) (os @ [x]) @ Node (embed t) # v)
    = Inr (u @ map (\<lambda>x. concrete (pend x)) os @ Node (embed (UnT op t)) # v)"
    using reduce_unary_run [of "u @ map (\<lambda>x. concrete (pend x)) os" p op m "embed t" v] x by simp
  moreover have "wrap (os @ [x]) t = wrap os (UnT op t)"
    by (simp add: x wrap_def)
  ultimately show ?case
    using snoc [of "UnT op t"] by simp
qed simp

lemma build_step_unary:
  assumes "next_operator (u @ map (\<lambda>x. concrete (pend x)) os @ Node (embed t) # v) = (mp, int (length u), True)"
  shows "build_step (u @ map (\<lambda>x. concrete (pend x)) os @ Node (embed t) # v)
    = Inr (u @ Node (embed (wrap os t)) # v)"
  using assms by (simp add: build_step_def next_operand_run reduce_unaries_run)

lemma build_step_binary:
  assumes "next_operator (u @ Node a # PendingOp p op m # Node b # v) = (mp, int (length u) + 1, False)"
  shows "build_step (u @ Node a # PendingOp p op m # Node b # v)
    = Inr (u @ Node (BinaryOp op a (Some b) False False) # v)"
  using assms by (simp add: build_step_def reduce_binary_def nth_append Suc_nat_eq_nat_zadd1
      nat_add_distrib Let_def)

lemma root_prec_nonneg: "well_bracketed t \<Longrightarrow> 0 \<le> root_prec t"
  by (cases t) auto

lemma wrap_ok:
  assumes "\<forall>(p, op, m)\<in>set os. isUnary op" "well_bracketed t" "root_prec t = 0"
  shows "well_bracketed (wrap os t) \<and> root_prec (wrap os t) = 0"
  using assms(1) by (induction os) (auto simp: assms)

lemma wrap_symbols: "symbols (wrap os t) = concat (map (\<lambda>x. aitem_symbols (pend x)) os) @ symbols t"
  by (induction os) (auto simp: pend_def)

lemma trees_ok_sub:
  assumes "trees_ok ys" "aops zs \<subseteq> aops ys"
    "\<And>t. ATree t \<in> set zs \<Longrightarrow> ATree t \<in> set ys
      \<or> (well_bracketed t \<and> (\<forall>op\<in>aops zs. root_prec t \<le> precedence op))"
  shows "trees_ok zs"
  using assms unfolding trees_ok_def by blast

lemma ready_unary:
  assumes ready: "ready (u @ map pend os @ ATree t # v)" and os: "os \<noteq> []"
    and un: "\<forall>(p, op, m)\<in>set os. isUnary op"
    and left: "\<And>o'. o' \<in> aops u \<Longrightarrow> 0 < precedence o'"
  shows "ready (u @ ATree (wrap os t) # v)"
proof -
  let ?ys = "u @ map pend os @ ATree t # v" and ?zs = "u @ ATree (wrap os t) # v"
  obtain p op m os' where cons: "os = (p, op, m) # os'" by (cases os) (use os in auto)
  have op: "precedence op = 0" using un cons precedence_unary by auto
  have okt: "well_bracketed t" "root_prec t \<le> precedence op"
    using ready cons unfolding ready_def trees_ok_def by (auto simp: pend_def)
  then have rt: "root_prec t = 0" using root_prec_nonneg op by fastforce
  note w = wrap_ok [OF un okt(1) rt]
  have shape: "shape True ?zs"
  proof (rule shape_replace)
    show "shape True (u @ map pend os @ ATree t # v)" using ready by (simp add: ready_def)
    fix s assume "shape s (map pend os @ ATree t # v)"
    then show "shape s (ATree (wrap os t) # v)" using un
    proof (induction os arbitrary: s)
      case (Cons x os)
      then show ?case
        using Cons.IH [of True] by (cases x; cases s) (auto simp: pend_def precedence_unary)
    qed (cases s; simp)
  qed
  have "trees_ok ?zs"
  proof (rule trees_ok_sub [of ?ys])
    show "trees_ok ?ys" using ready by (simp add: ready_def)
    show "aops ?zs \<subseteq> aops ?ys" by auto
    fix x assume "ATree x \<in> set ?zs"
    then show "ATree x \<in> set ?ys
      \<or> (well_bracketed x \<and> (\<forall>op\<in>aops ?zs. root_prec x \<le> precedence op))"
      using w shape_prec [OF shape] by auto
  qed
  moreover have "left_strict None ?zs"
  proof -
    have "left_strict None u" "left_strict None v"
      using ready by (auto simp: ready_def left_strict_append)
    moreover have "0 < precedence o'" if "pending_after None u = Some o'" for o'
      using pending_after_in [OF that] left by simp
    ultimately show ?thesis
      using w by (auto simp: left_strict_append split: option.splits)
  qed
  ultimately show ?thesis using shape by (simp add: ready_def)
qed

lemma ready_binary:
  assumes ready: "ready (u @ ATree a # AOp p op m # ATree b # v)" and op: "1 \<le> precedence op"
    and left: "\<And>o'. o' \<in> aops u \<Longrightarrow> precedence op < precedence o'"
    and right: "\<And>o'. o' \<in> aops v \<Longrightarrow> precedence op \<le> precedence o'"
  shows "ready (u @ ATree (BinT op a b) # v)"
proof -
  let ?ys = "u @ ATree a # AOp p op m # ATree b # v" and ?zs = "u @ ATree (BinT op a b) # v"
  have bin: "\<not> isUnary op" using op by (simp add: precedence_unary)
  have "well_bracketed a" "well_bracketed b" "root_prec a \<le> precedence op"
    using ready unfolding ready_def trees_ok_def by auto
  moreover have strict: "left_strict None u" "root_prec b < precedence op" "left_strict None v"
    using ready bin by (auto simp: ready_def left_strict_append)
  ultimately have w: "well_bracketed (BinT op a b)" using op by simp
  have shape: "shape True ?zs"
  proof (rule shape_replace)
    show "shape True ?ys" using ready by (simp add: ready_def)
    show "shape s (ATree (BinT op a b) # v)" if "shape s (ATree a # AOp p op m # ATree b # v)" for s
      using that by (cases s) auto
  qed
  have "trees_ok ?zs"
  proof (rule trees_ok_sub [of ?ys])
    show "trees_ok ?ys" using ready by (simp add: ready_def)
    show "aops ?zs \<subseteq> aops ?ys" by auto
    fix x assume "ATree x \<in> set ?zs"
    then show "ATree x \<in> set ?ys
      \<or> (well_bracketed x \<and> (\<forall>op\<in>aops ?zs. root_prec x \<le> precedence op))"
      using w left right by (force simp: less_imp_le)
  qed
  moreover have "left_strict None ?zs"
    using strict left pending_after_in [of None u]
    by (auto simp: left_strict_append split: option.splits)
  ultimately show ?thesis using shape by (simp add: ready_def)
qed

definition all_symbols :: "aitem list \<Rightarrow> symbol list" where
  "all_symbols ys = concat (map aitem_symbols ys)"

lemma all_symbols_simps [simp]:
  "all_symbols [] = []" "all_symbols (y # ys) = aitem_symbols y @ all_symbols ys"
  "all_symbols (ys @ zs) = all_symbols ys @ all_symbols zs"
  by (simp_all add: all_symbols_def)

lemma map_concrete_split:
  assumes "map concrete ys = u @ PendingOp p op m # v"
  obtains u' v' where "ys = u' @ AOp p op m # v'" "u = map concrete u'" "v = map concrete v'"
proof -
  from assms obtain u' w where "ys = u' @ w" "u = map concrete u'"
    "map concrete w = PendingOp p op m # v"
    by (auto simp: map_eq_append_conv)
  moreover from this obtain y v' where "w = y # v'" "concrete y = PendingOp p op m"
    "v = map concrete v'"
    by auto
  moreover from this have "y = AOp p op m" by (cases y) auto
  ultimately show thesis using that by blast
qed

text \<open>One reduction keeps the invariant and the symbols of the sequence.\<close>

lemma build_step_ready:
  assumes ready: "ready ys" and len: "length ys > 1"
  shows "\<exists>zs. build_step (map concrete ys) = Inr (map concrete zs) \<and> ready zs
     \<and> all_symbols zs = all_symbols ys"
proof (cases "map concrete ys" rule: next_operator_cases)
  case none
  then have "aops ys = {}" by (simp add: ops_of_concrete)
  then show ?thesis using ready len shape_no_ops [of True ys] by (simp add: ready_def)
next
  case (found cu p op m cv)
  obtain u v where ys: "ys = u @ AOp p op m # v" and cu: "cu = map concrete u"
    and cv: "cv = map concrete v"
    using map_concrete_split [OF found(1)] .
  have left: "precedence op < precedence o'" if "o' \<in> aops u" for o'
    using found(3) that by (simp add: cu ops_of_concrete)
  have right: "precedence op \<le> precedence o'" if "o' \<in> aops v" for o'
    using found(4) that by (simp add: cv ops_of_concrete)
  obtain s where s: "shape s (AOp p op m # v)"
    using ready ys shape_append [of True u "AOp p op m # v"] by (auto simp: ready_def)
  show ?thesis
  proof (cases "isUnary op")
    case True
    then have "shape True v" using s by (cases s) (auto simp: precedence_unary)
    then obtain os t w where v: "v = map pend os @ ATree t # w"
      and un: "\<forall>(p, op, m)\<in>set os. isUnary op"
      using shape_operand [of v] by (auto simp: pend_def)
    let ?os = "(p, op, m) # os" and ?zs = "u @ ATree (wrap ((p, op, m) # os) t) # w"
    have ys': "ys = u @ map pend ?os @ ATree t # w" by (simp add: ys v pend_def)
    have "build_step (map concrete ys) = Inr (map concrete ?zs)"
      using build_step_unary [of "map concrete u" ?os t "map concrete w" "precedence op"]
        found(2) True by (simp add: ys v cu o_def pend_def)
    moreover have "ready ?zs"
      using ready ys' un True left
      by (intro ready_unary) (auto simp: precedence_unary)
    moreover have "all_symbols ?zs = all_symbols ys"
      by (simp add: ys' wrap_symbols all_symbols_def o_def pend_def)
    ultimately show ?thesis by blast
  next
    case False
    then have op: "1 \<le> precedence op" and sv: "shape True v"
      using s by (cases s; simp)+
    have "shape True ys" using ready by (simp add: ready_def)
    then have "u \<noteq> []" using False by (cases u) (auto simp: ys)
    moreover have "1 \<le> precedence o'" if "o' \<in> aops u" for o'
      using left [OF that] op by simp
    ultimately obtain u' a where u: "u = u' @ [ATree a]"
      using shape_left_operand [of True u p op m v] \<open>shape True ys\<close> op ys by auto
    obtain os b w where v: "v = map pend os @ ATree b # w"
      and un: "\<forall>(p, op, m)\<in>set os. isUnary op"
      using shape_operand [OF sv] by (auto simp: pend_def)
    have "os = []"
    proof (rule ccontr)
      assume "os \<noteq> []"
      then obtain p' o' m' os' where "os = (p', o', m') # os'" by (cases os) auto
      then show False using un right [of o'] op v by (auto simp: pend_def precedence_unary)
    qed
    then have ys': "ys = u' @ ATree a # AOp p op m # ATree b # w" by (simp add: ys u v)
    let ?zs = "u' @ ATree (BinT op a b) # w"
    have "build_step (map concrete ys) = Inr (map concrete ?zs)"
      using build_step_binary [of "map concrete u'" "embed a" p op m "embed b" "map concrete w"
          "precedence op"] found(2) False by (simp add: ys' cu u)
    moreover have "ready ?zs"
      using ready ys' op left right u v by (intro ready_binary) auto
    moreover have "all_symbols ?zs = all_symbols ys"
      by (simp add: ys')
    ultimately show ?thesis by blast
  qed
qed

lemma build_loop_ready:
  assumes "ready ys"
  shows "\<exists>t. build_loop (map concrete ys) = Inr [Node (embed t)] \<and> well_bracketed t
     \<and> symbols t = all_symbols ys"
  using assms
proof (induction "length ys" arbitrary: ys rule: less_induct)
  case less
  show ?case
  proof (cases "length ys > 1")
    case True
    obtain zs where zs: "build_step (map concrete ys) = Inr (map concrete zs)" "ready zs"
      "all_symbols zs = all_symbols ys"
      using build_step_ready [OF less.prems True] by blast
    have "length zs < length ys"
      using build_step_length [OF zs(1)] by simp
    then have "\<exists>t. build_loop (map concrete zs) = Inr [Node (embed t)] \<and> well_bracketed t
        \<and> symbols t = all_symbols zs"
      using less.hyps zs(2) by blast
    moreover have "build_loop (map concrete ys) = build_loop (map concrete zs)"
      using True zs(1) by (subst build_loop.simps) simp
    ultimately show ?thesis using zs(3) by simp
  next
    case False
    have "shape True ys" using less.prems by (simp add: ready_def)
    then obtain y where y: "ys = [y]" using False by (cases ys) (auto simp: length_Suc_conv)
    then obtain t where "y = ATree t" using \<open>shape True ys\<close> by (cases y) auto
    then show ?thesis using less.prems y
      by (subst build_loop.simps) (auto simp: ready_def trees_ok_def)
  qed
qed

primrec abstract :: "item \<Rightarrow> aitem" where
  "abstract (PendingOp p op m) = AOp p op m"
| "abstract (Node n) = ATree (LeafT n)"

lemma concrete_abstract [simp]: "concrete (abstract x) = x"
  by (cases x) simp_all

lemma symbols_abstract [simp]: "aitem_symbols (abstract x) = [item_symbol x]"
  by (cases x) simp_all

lemma all_symbols_abstract: "all_symbols (map abstract xs) = map item_symbol xs"
  by (induction xs) simp_all

lemma shape_abstract: "alternating s (map item_symbol xs) \<Longrightarrow> shape s (map abstract xs)"
proof (induction xs arbitrary: s)
  case (Cons x xs)
  then show ?case by (cases x; cases s) auto
qed (case_tac s; simp)

lemma left_strict_abstract:
  "alternating s (map item_symbol xs) \<Longrightarrow> (\<And>op. prev = Some op \<Longrightarrow> 0 \<le> precedence op)
     \<Longrightarrow> left_strict prev (map abstract xs)"
proof (induction xs arbitrary: s prev)
  case (Cons x xs)
  show ?case
  proof (cases x)
    case (PendingOp p op m)
    then have "0 \<le> precedence op" "\<exists>s'. alternating s' (map item_symbol xs)"
      using Cons.prems(1) by (cases s; auto simp: precedence_unary)+
    then show ?thesis using Cons.IH PendingOp by auto
  next
    case (Node n)
    then have "\<exists>s'. alternating s' (map item_symbol xs)"
      using Cons.prems(1) by (cases s; auto)
    then have "left_strict None (map abstract xs)" using Cons.IH by auto
    moreover have "isUnary op \<or> 0 < precedence op" if "prev = Some op" for op
      using Cons.prems(2) [OF that] by (auto simp: precedence_unary)
    ultimately show ?thesis using Node by (auto split: option.splits)
  qed
qed simp

lemma ready_abstract:
  assumes "alternating True (map item_symbol xs)"
  shows "ready (map abstract xs)"
proof -
  note shape = shape_abstract [OF assms]
  have "trees_ok (map abstract xs)"
    unfolding trees_ok_def
  proof (intro allI impI)
    fix t assume "ATree t \<in> set (map abstract xs)"
    then obtain x where "abstract x = ATree t" by auto
    then obtain n where "t = LeafT n" by (cases x) auto
    then show "well_bracketed t \<and> (\<forall>op\<in>aops (map abstract xs). root_prec t \<le> precedence op)"
      using shape_prec [OF shape] by simp
  qed
  then show ?thesis
    using shape left_strict_abstract [OF assms, of None] by (simp add: ready_def)
qed

section \<open>The tree is determined by the sequence\<close>

primrec symbol_prec :: "symbol \<Rightarrow> int" where
  "symbol_prec (SOp op) = precedence op"
| "symbol_prec (SNode n) = 0"

lemma symbols_prec: "well_bracketed t \<Longrightarrow> x \<in> set (symbols t) \<Longrightarrow> symbol_prec x \<le> root_prec t"
proof (induction t)
  case (UnT op t)
  then show ?case by (auto simp: precedence_unary)
next
  case (BinT op l r)
  then show ?case by fastforce
qed simp

lemma symbols_no_binary:
  "well_bracketed t \<Longrightarrow> root_prec t = 0 \<Longrightarrow> x \<in> set (symbols t) \<Longrightarrow> symbol_prec x \<le> 0"
  using symbols_prec by fastforce

lemma split_rightmost:
  fixes f :: "'a \<Rightarrow> int"
  assumes "A @ x # B = A' @ x' # B'" "\<And>y. y \<in> set A \<Longrightarrow> f y \<le> f x" "\<And>y. y \<in> set B \<Longrightarrow> f y < f x"
    "\<And>y. y \<in> set A' \<Longrightarrow> f y \<le> f x'" "\<And>y. y \<in> set B' \<Longrightarrow> f y < f x'"
  shows "A = A' \<and> x = x' \<and> B = B'"
proof -
  obtain us where "A = A' @ us \<and> us @ x # B = x' # B' \<or> A @ us = A' \<and> x # B = us @ x' # B'"
    using assms(1) by (auto simp: append_eq_append_conv2)
  then consider "A = A'" "x # B = x' # B'"
    | us where "A = A' @ x' # us" "B' = us @ x # B"
    | us where "A' = A @ x # us" "B = us @ x' # B'"
    by (cases us) auto
  then show ?thesis
  proof cases
    case 1
    then show ?thesis by simp
  next
    case (2 us)
    then have "f x' \<le> f x" "f x < f x'" using assms(2) [of x'] assms(5) [of x] by auto
    then show ?thesis by simp
  next
    case (3 us)
    then have "f x \<le> f x'" "f x' < f x" using assms(4) [of x] assms(3) [of x'] by auto
    then show ?thesis by simp
  qed
qed

lemma well_bracketed_unique:
  "well_bracketed t \<Longrightarrow> well_bracketed t' \<Longrightarrow> symbols t = symbols t' \<Longrightarrow> t = t'"
proof (induction t arbitrary: t')
  case (LeafT n)
  then show ?case
  proof (cases t')
    case (BinT op l r)
    then show ?thesis using LeafT by (cases "symbols l") auto
  qed auto
next
  case (UnT op t)
  show ?case
  proof (cases t')
    case (BinT op' l r)
    then have "SOp op' \<in> set (symbols (UnT op t))" using UnT.prems(3) by simp
    then show ?thesis using symbols_no_binary [OF UnT.prems(1)] UnT.prems(2) BinT by fastforce
  qed (use UnT in auto)
next
  case (BinT op l r)
  show ?case
  proof (cases t')
    case (BinT op' l' r')
    have "symbols l = symbols l' \<and> SOp op = SOp op' \<and> symbols r = symbols r'"
    proof (rule split_rightmost [where f = symbol_prec])
      show "symbols l @ SOp op # symbols r = symbols l' @ SOp op' # symbols r'"
        using BinT.prems(3) BinT by simp
    qed (use BinT.prems BinT symbols_prec in fastforce)+
    then show ?thesis using BinT.IH BinT.prems BinT by simp
  next
    case (LeafT n)
    then show ?thesis using BinT.prems by (cases "symbols l") auto
  next
    case (UnT op' t'')
    then have "SOp op \<in> set (symbols t')" using BinT.prems(3) by (metis in_set_conv_decomp symbols.simps(3))
    then show ?thesis using symbols_no_binary [OF BinT.prems(2)] BinT.prems(1) UnT by fastforce
  qed
qed

lemma buildOperatorTree_ready:
  assumes "alternating True (map item_symbol xs)"
  shows "\<exists>t. buildOperatorTree xs = Inr (Node (embed t)) \<and> well_bracketed t \<and> symbols t = map item_symbol xs"
proof -
  have "map concrete (map abstract xs) = xs" by (simp add: o_def)
  then obtain t where t: "build_loop xs = Inr [Node (embed t)]" "well_bracketed t"
    "symbols t = map item_symbol xs"
    using build_loop_ready [OF ready_abstract [OF assms]] by (auto simp: all_symbols_abstract)
  moreover have "xs \<noteq> []" using assms by auto
  ultimately show ?thesis by (intro exI [of _ t]) (simp add: buildOperatorTree_def)
qed

text \<open>Building the tree over the symbols of a tree gives the tree back.\<close>

lemma alternating_append:
  "alternating b xs \<Longrightarrow> xs \<noteq> [] \<Longrightarrow> alternating b (xs @ ys) = alternating False ys"
  by (induction b xs rule: alternating.induct) (auto, (case_tac s; simp)+)

lemma symbols_nonempty [simp]: "symbols t \<noteq> []"
  by (induction t) simp_all

lemma alternating_symbols: "well_bracketed t \<Longrightarrow> alternating True (symbols t)"
  by (induction t) (simp_all add: alternating_append)

lemma buildOperatorTree_symbols:
  assumes "map item_symbol xs = symbols t" "well_bracketed t"
  shows "buildOperatorTree xs = Inr (Node (embed t))"
  using buildOperatorTree_ready [of xs] alternating_symbols [OF assms(2)] assms well_bracketed_unique
  by metis

section \<open>Properties\<close>

text \<open>
  C5. On every sequence of operands, each after any number of unary operators and separated by
  binary operators, building the tree succeeds. The result is the one tree over the sequence
  that respects the precedence table, with binary operators (assignments included) associating
  to the left and unary operators binding tightest.
\<close>

theorem buildOperatorTree_correct:
  assumes "alternating True (map item_symbol xs)"
  shows "\<exists>t. buildOperatorTree xs = Inr (Node (embed t)) \<and> well_bracketed t
     \<and> symbols t = map item_symbol xs
     \<and> (\<forall>t'. well_bracketed t' \<and> symbols t' = map item_symbol xs \<longrightarrow> t' = t)"
  using buildOperatorTree_ready [OF assms] well_bracketed_unique by metis

theorem buildOperatorTree_correct_witness:
  "\<exists>t. buildOperatorTree [Node (Identifier ''a''), PendingOp (1, 3) OT_PLUS False,
      PendingOp (1, 4) OT_UMINUS False, Node (Identifier ''b''), PendingOp (1, 6) OT_MUL False,
      Node (Identifier ''c'')] = Inr (Node (embed t))
    \<and> t = BinT OT_PLUS (LeafT (Identifier ''a''))
        (BinT OT_MUL (UnT OT_UMINUS (LeafT (Identifier ''b''))) (LeafT (Identifier ''c'')))"
proof -
  let ?xs = "[Node (Identifier ''a''), PendingOp (1, 3) OT_PLUS False,
      PendingOp (1, 4) OT_UMINUS False, Node (Identifier ''b''), PendingOp (1, 6) OT_MUL False,
      Node (Identifier ''c'')]"
  let ?t = "BinT OT_PLUS (LeafT (Identifier ''a''))
        (BinT OT_MUL (UnT OT_UMINUS (LeafT (Identifier ''b''))) (LeafT (Identifier ''c'')))"
  have "alternating True (map item_symbol ?xs)" "well_bracketed ?t"
    "symbols ?t = map item_symbol ?xs"
    by (simp_all add: isUnary_def precedence_def)
  with buildOperatorTree_correct [of ?xs] show ?thesis by blast
qed

text \<open>
  The parser collects \<^verbatim>\<open>!\<close> and \<^verbatim>\<open>~\<close> also between two operands (the operator switch of
  \<^verbatim>\<open>parseExpr\<close> lists both); building the tree then ends in a failed assertion instead of a
  syntax error, whatever the operands are.
\<close>

theorem infix_negation_asserts:
  "buildOperatorTree [Node a, PendingOp p OT_NOT m, Node b] = Inl AssertFail
   \<and> buildOperatorTree [Node a, PendingOp p OT_BIT_NOT m, Node b] = Inl AssertFail"
  by (simp add: buildOperatorTree_def build_loop.simps build_step_def next_operator_def
      scan_item_def precedence_def isUnary_def next_operand.simps reduce_unary_def
      eval_nat_numeral)

end
