(* ===== verification/Parser_State.thy ===== *)
theory Parser_State
  imports Tokens OperatorTree
begin

text \<open>
  The state of the parser (\<^verbatim>\<open>src/parser/Parser.{h,cc}\<close>) and the primitives its routines are
  composed of: moving over the tokens, looking ahead, testing and requiring tokens, raising
  diagnostics. A routine is a function from the state to a failure or a value with the new
  state; loops carry their local variables as the argument of \<open>loopP\<close>.
\<close>

section \<open>State and sequencing\<close>

text \<open>
  Of the class that is being parsed (\<^verbatim>\<open>m_current_class\<close>) only its presence and whether it has a
  parent are read. \<^verbatim>\<open>m_attributes\<close> holds the attributes not yet attached to a declaration; the
  unordered maps are association lists in the order of insertion.
\<close>

record pstate =
  m_tok_index :: int
  m_current :: Token
  m_tokens :: "Token list"
  m_current_class :: "bool option"
  m_inside_loop :: bool
  m_allow_comments :: bool
  m_pending_attributes :: "(string \<times> StoreType) list"
  m_source :: string

type_synonym 'a P = "pstate \<Rightarrow> ('a \<times> pstate) res"

definition returnP :: "'a \<Rightarrow> 'a P" where
  "returnP a = (\<lambda>s. Inr (a, s))"

definition bindP :: "'a P \<Rightarrow> ('a \<Rightarrow> 'b P) \<Rightarrow> 'b P" where
  "bindP m f = (\<lambda>s. case m s of Inl e \<Rightarrow> Inl e | Inr (a, s') \<Rightarrow> f a s')"

definition failP :: "failure \<Rightarrow> 'a P" where
  "failP e = (\<lambda>s. Inl e)"

definition getP :: "(pstate \<Rightarrow> 'a) \<Rightarrow> 'a P" where
  "getP f = (\<lambda>s. Inr (f s, s))"

definition updateP :: "(pstate \<Rightarrow> pstate) \<Rightarrow> unit P" where
  "updateP f = (\<lambda>s. Inr ((), f s))"

definition liftP :: "'a res \<Rightarrow> 'a P" where
  "liftP r = (\<lambda>s. case r of Inl e \<Rightarrow> Inl e | Inr a \<Rightarrow> Inr (a, s))"

definition assertP :: "bool \<Rightarrow> unit P" where
  "assertP b = (if b then returnP () else failP AssertFail)"

definition ifP :: "bool P \<Rightarrow> 'a P \<Rightarrow> 'a P \<Rightarrow> 'a P" where
  "ifP c m n = bindP c (\<lambda>b. if b then m else n)"

definition whenP :: "bool P \<Rightarrow> unit P \<Rightarrow> unit P" where
  "whenP c m = ifP c m (returnP ())"

definition andP :: "bool P \<Rightarrow> bool P \<Rightarrow> bool P" where
  "andP a b = ifP a b (returnP False)"

definition orP :: "bool P \<Rightarrow> bool P \<Rightarrow> bool P" where
  "orP a b = ifP a (returnP True) b"

definition notP :: "bool P \<Rightarrow> bool P" where
  "notP a = bindP a (\<lambda>b. returnP (\<not> b))"

text \<open>
  A loop over local variables: the body answers with the variables of the next round or with
  the value the loop leaves with. Every round of every loop of the parser moves to a later
  token, so one round more than there are tokens is enough; reaching the end of this bound is
  \<open>exhausted\<close>, and \<open>Parser_Progress\<close> shows that it never happens.
\<close>

definition exhausted :: failure where
  "exhausted = Undefined ''recursion bound''"

primrec loopN :: "nat \<Rightarrow> ('v \<Rightarrow> ('v + 'a) P) \<Rightarrow> 'v \<Rightarrow> 'a P" where
  "loopN 0 body v = failP exhausted"
| "loopN (Suc n) body v = bindP (body v) (\<lambda>r. case r of Inl v' \<Rightarrow> loopN n body v' | Inr a \<Rightarrow> returnP a)"

definition loopP :: "('v \<Rightarrow> ('v + 'a) P) \<Rightarrow> 'v \<Rightarrow> 'a P" where
  "loopP body v = (\<lambda>s. loopN (Suc (length (m_tokens s))) body v s)"

abbreviation continueP :: "'v \<Rightarrow> ('v + 'a) P" where "continueP v \<equiv> returnP (Inl v)"
abbreviation breakP :: "'a \<Rightarrow> ('v + 'a) P" where "breakP a \<equiv> returnP (Inr a)"

section \<open>Diagnostics\<close>

definition createError_at :: "Error \<Rightarrow> int \<times> int \<Rightarrow> string \<Rightarrow> int \<Rightarrow> 'a P" where
  "createError_at E location message width = failP (ParserError
     \<lparr>d_error = E, d_msg = message, d_line = fst location, d_col = snd location, d_width = width\<rparr>)"

definition createError :: "Error \<Rightarrow> string \<Rightarrow> 'a P" where
  "createError E msg = (\<lambda>s. createError_at E (get_pos (m_current s)) msg
     (int (length (token_to_string (m_current s)))) s)"

section \<open>Moving over the tokens\<close>

text \<open>
  \<^verbatim>\<open>Parser::next\<close>, \<^verbatim>\<open>prev\<close> and \<^verbatim>\<open>peek\<close>. The indexing that throws \<^verbatim>\<open>out_of_range\<close> takes a negative
  index as a huge one. The index has moved when the error is raised, but the error ends the
  parser; only a safe \<^verbatim>\<open>prev\<close> continues, with the index moved and the current token kept.
\<close>

definition in_tokens :: "pstate \<Rightarrow> int \<Rightarrow> bool" where
  "in_tokens s i \<longleftrightarrow> 0 \<le> i \<and> i < int (length (m_tokens s))"

definition token_at :: "pstate \<Rightarrow> int \<Rightarrow> Token" where
  "token_at s i = m_tokens s ! nat i"

definition next_by :: "int \<Rightarrow> Token P" where
  "next_by p_offset = (\<lambda>s.
     let i = m_tok_index s + (p_offset + 1) in
     if in_tokens s i then Inr (token_at s i, s\<lparr>m_tok_index := i, m_current := token_at s i\<rparr>)
     else createError BUG ''Index error'' s)"

definition prev_by :: "int \<Rightarrow> bool \<Rightarrow> Token P" where
  "prev_by p_offset p_safe = (\<lambda>s.
     let i = m_tok_index s - (p_offset + 1) in
     if in_tokens s i then Inr (token_at s i, s\<lparr>m_tok_index := i, m_current := token_at s i\<rparr>)
     else if p_safe then Inr (empty_token, s\<lparr>m_tok_index := i\<rparr>)
     else createError BUG ''Index error'' s)"

definition eof_token :: Token where
  "eof_token = empty_token\<lparr>tok_type := TK_EOF\<rparr>"

definition peek :: "int \<Rightarrow> bool \<Rightarrow> Token P" where
  "peek p_offset p_safe = (\<lambda>s.
     let i = (m_tok_index s + 1) + p_offset in
     if in_tokens s i then Inr (token_at s i, s)
     else if p_safe then Inr (eof_token, s)
     else createError BUG ''Parser::peek() index out of bounds'' s)"

abbreviation nextT :: "Token P" where "nextT \<equiv> next_by 0"
abbreviation prevT :: "Token P" where "prevT \<equiv> prev_by 0 False"
abbreviation peekT :: "Token P" where "peekT \<equiv> peek 0 False"
abbreviation cur :: "Token P" where "cur \<equiv> getP m_current"

section \<open>Testing and requiring tokens\<close>

definition tok_is :: "TokenType \<Rightarrow> Token \<Rightarrow> bool" where
  "tok_is ty t \<longleftrightarrow> tok_type t = ty"

definition tok_is2 :: "TokenType \<Rightarrow> TokenType \<Rightarrow> Token \<Rightarrow> bool" where
  "tok_is2 ty ty2 t \<longleftrightarrow> tok_type t = ty \<or> tok_type t = ty2"

definition cur_is :: "TokenType \<Rightarrow> bool P" where
  "cur_is ty = bindP cur (\<lambda>t. returnP (tok_is ty t))"

definition pk_is :: "int \<Rightarrow> bool \<Rightarrow> TokenType \<Rightarrow> bool P" where
  "pk_is off safe ty = bindP (peek off safe) (\<lambda>t. returnP (tok_is ty t))"

definition assert_tok :: "TokenType \<Rightarrow> string \<Rightarrow> Token P" where
  "assert_tok ty expectation =
     ifP (cur_is ty) cur
       (bindP cur (\<lambda>t. createError SYNTAX_ERROR (''Expected '' @ c_str expectation @ '' but got ''
         @ quoted (if tok_is TK_EOF t then ''an unexpected EOF'' else token_to_string t))))"

definition consume_tok :: "TokenType \<Rightarrow> string \<Rightarrow> Token P" where
  "consume_tok ty expectation = bindP (assert_tok ty expectation) (\<lambda>_. nextT)"

text \<open>The text of the current token, as \<^verbatim>\<open>m_current.to_string()\<close>.\<close>

abbreviation cur_string :: "string P" where "cur_string \<equiv> getP (\<lambda>s. token_to_string (m_current s))"

definition ident_string :: "string \<Rightarrow> string P" where
  "ident_string expectation = bindP (assert_tok IDENTIFIER expectation) (\<lambda>t. returnP (token_to_string t))"

text \<open>A message about the text of the current token, quoted.\<close>

definition createError_cur :: "Error \<Rightarrow> string \<Rightarrow> string \<Rightarrow> 'a P" where
  "createError_cur E before after =
     bindP cur_string (\<lambda>t. createError E (before @ quoted t @ after))"

definition type_starts :: "TokenType list" where
  "type_starts = [Op OP_BIT_AND, Op OP_AND, Op OP_MUL, IDENTIFIER, Kword KWORD_DECLTYPE,
     Kword KWORD_FUNC, Sym BRACKET_LPARENT]"

definition isTypeValid :: "bool P" where
  "isTypeValid = bindP cur (\<lambda>t. returnP (tok_type t \<in> set type_starts))"

definition throwIfNotType :: "unit P" where
  "throwIfNotType = whenP (notP isTypeValid)
     (createError_cur SYNTAX_ERROR ''Expected a valid type declaration but found '' '' instead'')"

definition initial_state :: "Token list \<Rightarrow> string \<Rightarrow> bool \<Rightarrow> pstate res" where
  "initial_state p_tokens source p_allow_comments =
     (if p_tokens = [] then Inl (StdException ''out_of_range'')
      else Inr \<lparr>m_tok_index = 0, m_current = hd p_tokens, m_tokens = p_tokens,
        m_current_class = None, m_inside_loop = False, m_allow_comments = p_allow_comments,
        m_pending_attributes = [], m_source = source\<rparr>)"

end
