(* ===== verification/Parser_Attributes.thy ===== *)
theory Parser_Attributes
  imports Parser_State
begin

text \<open>
  Attribute lists (\<^verbatim>\<open>src/parser/parseAttributes.cc\<close>) and documentation comments
  (\<^verbatim>\<open>src/parser/parseComment.cc\<close>) with the string helpers they use
  (\<^verbatim>\<open>src/utils/utils.cc\<close>).
\<close>

section \<open>Attributes\<close>

text \<open>
  Keyword tokens lie between the two marker values of the token type. The value of a string
  argument loses its first and last character; a number is taken as written.
\<close>

definition is_keyword_token :: "Token \<Rightarrow> bool" where
  "is_keyword_token t = (case tok_type t of
      Kword k \<Rightarrow> k \<noteq> KWORD__START__POINT \<and> k \<noteq> KWORD__ENDING__POINT
    | _ \<Rightarrow> False)"

definition strip_ends :: "string \<Rightarrow> string" where
  "strip_ends s = take (length s - 2) (drop 1 s)"

definition attribute_arg :: "string \<Rightarrow> StoreType \<Rightarrow> StoreType P" where
  "attribute_arg name attrArgs =
     (bindP nextT (\<lambda>_.
      ifP (cur_is (Op OP_EQ))
         (bindP nextT (\<lambda>_.
          ifP (cur_is VALUE_STRING)
           (bindP cur_string (\<lambda>v. returnP (AList.update name (strip_ends v) attrArgs)))
           (ifP (cur_is VALUE_NUMBER)
             (bindP cur_string (\<lambda>v. returnP (AList.update name v attrArgs)))
             (bindP peekT (\<lambda>t. createError SYNTAX_ERROR
               (''Expected a string or a number value but found '' @ quoted (token_to_string t) @ '' instead''))))))
         (bindP prevT (\<lambda>_.
          returnP (AList.update name [] attrArgs)))))"

definition attribute_args :: "StoreType P" where
  "attribute_args = loopP (\<lambda>attrArgs.
     (bindP nextT (\<lambda>_.
      ifP (cur_is (Sym BRACKET_RPARENT)) (breakP attrArgs)
       (bindP (ident_string ''an identifier'') (\<lambda>name.
        bindP (attribute_arg name attrArgs) (\<lambda>attrArgs'.
        bindP peekT (\<lambda>pk.
        if tok_is2 (Sym SYM_COMMA) (Sym BRACKET_RPARENT) pk then
           (bindP (whenP (returnP (tok_is (Sym SYM_COMMA) pk)) (bindP nextT (\<lambda>_. returnP ()))) (\<lambda>_.
            continueP attrArgs'))
       else
           (bindP nextT (\<lambda>_.
            createError SYNTAX_ERROR (''Expected a '' @ quoted '','' @ '' or a '' @ quoted '')'' @ '' but found ''
             @ quoted (token_to_string pk) @ '' instead'')))))))))) []"

text \<open>One attribute of the list: its name, its arguments, and that it is not given twice.\<close>

definition one_attribute :: "(string \<times> StoreType) list \<Rightarrow> (string \<times> StoreType) list P" where
  "one_attribute attributes =
     (bindP cur (\<lambda>t.
      (let attr = token_to_string t in
      bindP (if is_keyword_token t then returnP t else assert_tok IDENTIFIER ''an identifier'') (\<lambda>_.
      bindP (ifP (pk_is 0 False (Sym BRACKET_LPARENT))
       (bindP nextT (\<lambda>_. attribute_args)) (returnP [])) (\<lambda>attrArgs.
      if attr \<in> fst ` set attributes
     then createError SYNTAX_ERROR (''Attribute '' @ quoted attr @ '' is already defined!'')
     else returnP (attributes @ [(attr, attrArgs)]))))))"

text \<open>
  \<^verbatim>\<open>Parser::parseAttributes\<close> for a list that starts at an \<^verbatim>\<open>@\<close>; the mode for conditional
  compilation is only reached after an error.
\<close>

definition parseAttributes :: "(string \<times> StoreType) list P" where
  "parseAttributes =
     (bindP (cur_is (Sym SYM_AT)) (\<lambda>at.
      bindP (assertP at) (\<lambda>_.
      bindP (loopP (\<lambda>attributes.
       ifP (cur_is (Sym SYM_AT))
           (bindP nextT (\<lambda>_.
            bindP (one_attribute attributes) (\<lambda>attributes'.
            bindP nextT (\<lambda>_.
            continueP attributes'))))
         (breakP attributes)) []) (\<lambda>attributes.
      bindP prevT (\<lambda>_.
      bindP (updateP (\<lambda>s. s\<lparr>m_pending_attributes := attributes\<rparr>)) (\<lambda>_.
      returnP attributes))))))"

text \<open>
  The attributes collected so far are translated and cleared. The first one that the caller
  does not know is an error; the unordered map of the source may report another of them.
\<close>

primrec verify_list :: "(string \<Rightarrow> Attributes) \<Rightarrow> (string \<times> StoreType) list
    \<Rightarrow> (Attributes \<times> StoreType) list \<Rightarrow> (Attributes \<times> StoreType) list P" where
  "verify_list parseFn [] attributes = returnP attributes"
| "verify_list parseFn (a # attrs) attributes =
     (let attr = fst a;
          attrType = (if attr = ''cfg'' then CFG else if attr = ''attr'' then ATTR else parseFn attr)
      in if attrType = Attributes.INVALID
         then createError SYNTAX_ERROR (''Invalid attribute '' @ quoted attr)
         else verify_list parseFn attrs (AList.update attrType (snd a) attributes))"

definition verifyAttributes :: "(string \<Rightarrow> Attributes) \<Rightarrow> (Attributes \<times> StoreType) list P" where
  "verifyAttributes parseFn =
     (bindP (getP m_pending_attributes) (\<lambda>attrs.
      bindP (verify_list parseFn attrs []) (\<lambda>attributes.
      bindP (updateP (\<lambda>s. s\<lparr>m_pending_attributes := []\<rparr>)) (\<lambda>_.
      returnP attributes))))"

definition assertNoAttributes :: "string \<Rightarrow> unit P" where
  "assertNoAttributes context =
     (bindP (getP m_pending_attributes) (\<lambda>attrs.
      if attrs \<noteq> []
     then createError SYNTAX_ERROR (''Attributes are not allowed inside a '' @ c_str context)
     else returnP ()))"

text \<open>\<^verbatim>\<open>addAttribute\<close> for every entry of the map; they do not depend on each other.\<close>

definition attribute_holder :: "(Attributes \<times> StoreType) list \<Rightarrow> AttributeHolder" where
  "attribute_holder attributes = fold (\<lambda>(n, a). addAttribute n a) attributes no_attributes"

definition no_parseFn :: "string \<Rightarrow> Attributes" where
  "no_parseFn attr = Attributes.INVALID"

section \<open>Documentation comments\<close>

text \<open>\<^verbatim>\<open>utils::split\<close> at a newline: a trailing newline gives a last empty part.\<close>

fun split_lines :: "string \<Rightarrow> string list" where
  "split_lines [] = []"
| "split_lines (c # cs) =
     (if c = NL then (if cs = [] then [[], []] else [] # split_lines cs)
      else case split_lines cs of [] \<Rightarrow> [[c]] | l # ls \<Rightarrow> (c # l) # ls)"

definition is_word_char :: "char \<Rightarrow> bool" where
  "is_word_char c = (c \<in> set ''abcdefghijklmnopqrstuvwxyzABCDEFGHIJKLMNOPQRSTUVWXYZ0123456789_'')"

definition is_space_char :: "char \<Rightarrow> bool" where
  "is_space_char c = (c \<in> {CHR 0x20, TAB, NL, CHR 0x0B, CHR 0x0C, CR})"

text \<open>
  \<^verbatim>\<open>tagRegex\<close>, an at sign, a word, white space and the rest of the line: the first place where it
  matches, with the word and the rest. The rest ends before a line terminator.
\<close>

fun tag_match :: "string \<Rightarrow> (string \<times> string) option" where
  "tag_match [] = None"
| "tag_match (c # cs) =
     (let w = takeWhile is_word_char cs in
      if c = CHR ''@'' \<and> w \<noteq> []
      then Some (w, takeWhile (\<lambda>x. x \<noteq> NL \<and> x \<noteq> CR) (dropWhile is_space_char (drop (length w) cs)))
      else tag_match cs)"

fun digits_of :: "nat \<Rightarrow> string" where
  "digits_of n = (if n < 10 then [char_of (48 + n)] else digits_of (n div 10) @ [char_of (48 + n mod 10)])"

declare digits_of.simps [simp del]

text \<open>
  The state of the walk over the lines: number of parameters, tags, last tag, text. The map of
  tags is an association list.
\<close>

type_synonym docstate = "nat \<times> (string \<times> string) list \<times> string \<times> string"

definition doc_tag :: "string \<Rightarrow> string \<Rightarrow> docstate \<Rightarrow> docstate" where
  "doc_tag tag rest st = (case st of (paramCount, tags, lastTag, content) \<Rightarrow>
     (let tag' = (if tag = ''param'' then ''param$'' @ digits_of paramCount else tag) in
      (if tag = ''param'' then paramCount + 1 else paramCount,
       AList.update tag' rest tags, tag', content)))"

text \<open>
  The condition \<open>~trim.empty() || ~(trim != "*")\<close> of the source is that the line without blanks
  is not empty.
\<close>

definition doc_text :: "string \<Rightarrow> docstate \<Rightarrow> docstate" where
  "doc_text line st = (case st of (paramCount, tags, lastTag, content) \<Rightarrow>
     (let trim = filter (\<lambda>c. c \<noteq> CHR '' '') line;
          line' = (if startsWith trim ''*'' then drop 1 (dropWhile (\<lambda>c. c \<noteq> CHR ''*'') line) else line);
          lastTag' = (if (trim = [] \<or> trim = ''*'') \<and> lastTag \<noteq> [] then [] else lastTag)
      in if startsWith line' ''  '' \<and> (trim \<noteq> [] \<or> trim = ''*'') \<and> lastTag' \<noteq> []
         then (paramCount,
           AList.update lastTag'
             ((case map_of tags lastTag' of None \<Rightarrow> [] | Some v \<Rightarrow> v) @ [NL] @ drop 1 line') tags,
           lastTag', content)
         else (paramCount, tags, lastTag',
           if line' \<noteq> [] then content @ line' @ [NL] else content)))"

definition doc_line :: "string \<Rightarrow> docstate \<Rightarrow> docstate" where
  "doc_line line st = (case tag_match line of
      Some (tag, rest) \<Rightarrow> doc_tag tag rest st
    | None \<Rightarrow> doc_text line st)"

definition comment_body_text :: "string \<Rightarrow> string option" where
  "comment_body_text comment =
     (if startsWith comment ''///'' then Some (drop 3 comment)
      else if startsWith comment ''/**'' then
        (let c = drop 3 comment in Some (if length c < 2 then c else take (length c - 2) c))
      else None)"

text \<open>\<^verbatim>\<open>Parser::parseDocstring\<close>; it reads the comment of the current token, not its argument.\<close>

definition parseDocstring :: "Comment option P" where
  "parseDocstring =
     (bindP (getP m_allow_comments) (\<lambda>allow.
      bindP cur (\<lambda>t.
      returnP (if \<not> allow then None
       else case comment_body_text (getComment t) of
           None \<Rightarrow> None
         | Some text \<Rightarrow> (case fold doc_line (split_lines text) (0, [], [], []) of
             (_, tags, _, content) \<Rightarrow> Some (Comment tags content True))))))"

end
