(* ===== verification/Parser_Types.thy ===== *)
theory Parser_Types
  imports Parser_Attributes
begin

text \<open>
  The mutual recursion of the parser and the routines for types: \<^verbatim>\<open>parseType.cc\<close>,
  \<^verbatim>\<open>parseIdentifier.cc\<close>, \<^verbatim>\<open>parseGenericExpr.cc\<close>, \<^verbatim>\<open>parseGenericParams.cc\<close>, \<^verbatim>\<open>parseWhereClause.cc\<close>.
\<close>

section \<open>Mutual recursion\<close>

text \<open>
  The routines that take part in cycles of calls are passed to each other in a record; the
  theory \<open>Parser\<close> ties the knot.
\<close>

record calls =
  c_type :: "node P"
  c_expr :: "bool \<Rightarrow> node P"
  c_stmt :: "Token \<Rightarrow> node P"
  c_block :: "TokenType list \<Rightarrow> node P"
  c_function :: "bool \<Rightarrow> bool \<Rightarrow> bool \<Rightarrow> bool \<Rightarrow> node P"
  c_class :: "node P"
  c_global :: "TokenType \<Rightarrow> node list P"

abbreviation c_body :: "calls \<Rightarrow> node P" where
  "c_body c \<equiv> c_block c [Sym BRACKET_RCURLY]"

section \<open>Generic arguments and identifiers\<close>

definition generic_round :: "calls \<Rightarrow> node list \<Rightarrow> (node list + node list) P" where
  "generic_round c types =
     (bindP nextT (\<lambda>_.
      ifP (cur_is TK_EOF)
       (createError UNEXPECTED_EOF ''Found an unexpected EOF while parsing generic expression'')
       (ifP isTypeValid
           (bindP (c_type c) (\<lambda>ty.
            (let types' = types @ [ty] in
            ifP (cur_is (Op OP_GT)) (bindP nextT (\<lambda>_. breakP types'))
             (ifP (cur_is (Sym SYM_COMMA)) (continueP types')
               (bindP (assert_tok (Op OP_GT) ''a comma or a >'') (\<lambda>_. continueP types'))))))
         (ifP (cur_is (Op OP_GT)) (bindP nextT (\<lambda>_. breakP types))
           (createError_cur SYNTAX_ERROR ''Expected a vaid generic expression but got '' [])))))"

definition parseGenericExpr :: "calls \<Rightarrow> node list P" where
  "parseGenericExpr c =
     (bindP (cur_is (Op OP_LT)) (\<lambda>lt.
      bindP (assertP lt) (\<lambda>_.
      bindP (whenP (pk_is 0 False (Sym SYM_QUESTION)) (bindP nextT (\<lambda>_. returnP ()))) (\<lambda>_.
      loopP (generic_round c) []))))"

text \<open>
  The generic arguments are consumed; the current token is the last one of the identifier when
  the routine returns.
\<close>

definition parseIdentifier :: "calls \<Rightarrow> bool \<Rightarrow> bool \<Rightarrow> node P" where
  "parseIdentifier c isKnownType allowGenerics =
     (bindP cur (\<lambda>t.
      bindP ((if tok_is IDENTIFIER t then returnP ()
      else createError SYNTAX_ERROR
        (''Expected an identifier but got '' @ [SQUOTE] @ token_to_string t @ [SQUOTE]))) (\<lambda>_.
      bindP (pk_is 1 True (Sym SYM_QUESTION)) (\<lambda>genericContainsQuestion.
      (let name = token_to_string t in
      ifP (andP (returnP allowGenerics)
           (andP (pk_is 0 False (Op OP_LT)) (returnP (isKnownType \<or> genericContainsQuestion))))
         (bindP ((if genericContainsQuestion \<and> isKnownType
          then createError SYNTAX_ERROR (''Expected a valid generic expression but got '' @ quoted ''?'')
          else returnP ())) (\<lambda>_.
          bindP nextT (\<lambda>_.
          bindP (parseGenericExpr c) (\<lambda>generics.
          bindP prevT (\<lambda>_.
          returnP (GenericIdentifier name generics))))))
       (returnP (Identifier name)))))))"

definition identifier_name :: "node \<Rightarrow> string" where
  "identifier_name i = (case i of Identifier x \<Rightarrow> x | GenericIdentifier x _ \<Rightarrow> x | _ \<Rightarrow> [])"

definition identifier_generics :: "node \<Rightarrow> node list" where
  "identifier_generics i = (case i of GenericIdentifier _ g \<Rightarrow> g | _ \<Rightarrow> [])"

section \<open>Types\<close>

definition parseType_decltype :: "calls \<Rightarrow> node P" where
  "parseType_decltype c =
     (bindP nextT (\<lambda>_.
      bindP (assert_tok (Sym BRACKET_LPARENT) (quoted ''('')) (\<lambda>_.
      bindP (c_expr c False) (\<lambda>expr.
      bindP nextT (\<lambda>_.
      bindP (consume_tok (Sym BRACKET_RPARENT) (quoted '')'')) (\<lambda>_.
      returnP (DeclType expr)))))))"

definition func_round :: "calls \<Rightarrow> node list \<Rightarrow> (node list + node list) P" where
  "func_round c fnArgs = ifP (cur_is (Sym BRACKET_RPARENT)) (breakP fnArgs)
       (bindP nextT (\<lambda>_.
        ifP (cur_is (Sym BRACKET_RPARENT)) (breakP fnArgs)
           (bindP (c_type c) (\<lambda>arg.
            ifP (orP (cur_is (Sym SYM_COMMA)) (cur_is (Sym BRACKET_RPARENT)))
             (continueP (fnArgs @ [arg]))
             (createError SYNTAX_ERROR (''Expected '' @ quoted '')'' @ '' or '' @ quoted '',''))))))"

definition parseType_func :: "calls \<Rightarrow> node P" where
  "parseType_func c =
     (bindP nextT (\<lambda>_.
      bindP (assert_tok (Sym BRACKET_LPARENT) (quoted ''('')) (\<lambda>_.
      bindP (loopP (func_round c) []) (\<lambda>fnArgs.
      bindP (consume_tok (Sym BRACKET_RPARENT) (quoted '')'')) (\<lambda>_.
      bindP (consume_tok (Op OP_ARROW) (quoted ''=>'')) (\<lambda>_.
      bindP (c_type c) (\<lambda>retType.
      returnP (FuncType fnArgs retType))))))))"

definition tuple_round :: "calls \<Rightarrow> node list \<Rightarrow> (node list + node list) P" where
  "tuple_round c generics =
     (bindP nextT (\<lambda>_.
      ifP (cur_is (Sym BRACKET_RPARENT)) (breakP generics)
         (bindP (c_type c) (\<lambda>arg.
          (let generics' = generics @ [arg] in
          ifP (cur_is (Sym SYM_COMMA)) (continueP generics')
           (ifP (cur_is (Sym BRACKET_RPARENT)) (breakP generics')
             (createError SYNTAX_ERROR (''Expected '' @ quoted '')'' @ '' or '' @ quoted '',''))))))))"

definition parseType_tuple :: "calls \<Rightarrow> node P" where
  "parseType_tuple c =
     (bindP (loopP (tuple_round c) []) (\<lambda>generics.
      bindP nextT (\<lambda>_.
      returnP (TupleType generics))))"

definition parseType_pointer :: "calls \<Rightarrow> node P" where
  "parseType_pointer c =
     (bindP nextT (\<lambda>_.
      ifP (cur_is (Kword KWORD_CONST))
         (bindP nextT (\<lambda>_.
          bindP (c_type c) (\<lambda>ty.
          returnP (PointerTypeRef ty False))))
       (ifP (cur_is (Kword KWORD_MUTABLE))
           (bindP nextT (\<lambda>_.
            bindP (c_type c) (\<lambda>ty.
            returnP (PointerTypeRef ty True))))
         (createError SYNTAX_ERROR (''Expected '' @ quoted ''const'' @ '' or '' @ quoted ''mut''
            @ '' after '' @ quoted ''*'' @ '' (pointer type specifier)'')))))"

definition parseType_reference :: "calls \<Rightarrow> node P" where
  "parseType_reference c =
     (bindP nextT (\<lambda>_.
      bindP (cur_is (Kword KWORD_MUTABLE)) (\<lambda>isMutable.
      bindP (whenP (returnP isMutable) (bindP nextT (\<lambda>_. returnP ()))) (\<lambda>_.
      bindP (c_type c) (\<lambda>ty.
      returnP (ReferenceTypeRef ty isMutable))))))"

text \<open>A name with its generics, then \<open>::\<close> and further names; the generics of the last one count.\<close>

definition path_round :: "calls \<Rightarrow> node \<times> string \<times> string \<times> node list
    \<Rightarrow> ((node \<times> string \<times> string \<times> node list) + node) P" where
  "path_round c = (\<lambda>(ast, name, id, generics). ifP (cur_is (Sym SYM_COLCOL))
       (bindP nextT (\<lambda>_.
        bindP (parseIdentifier c True True) (\<lambda>i.
        bindP nextT (\<lambda>_.
        continueP (Index ast i True, name @ ''::'' @ identifier_name i, id @ ''.'' @ identifier_name i,
         identifier_generics i)))))
     (breakP (TypeRef name generics id (Some ast))))"

definition parseType_named :: "calls \<Rightarrow> node P" where
  "parseType_named c =
     (bindP (parseIdentifier c True True) (\<lambda>ident.
      bindP nextT (\<lambda>_.
      loopP (path_round c)
       (ident, identifier_name ident, identifier_name ident, identifier_generics ident))))"

definition parseType :: "calls \<Rightarrow> node P" where
  "parseType c =
     (bindP throwIfNotType (\<lambda>_.
      bindP isTypeValid (\<lambda>valid.
      bindP (assertP valid) (\<lambda>_.
      ifP (cur_is (Kword KWORD_DECLTYPE)) (parseType_decltype c)
       (ifP (cur_is (Kword KWORD_FUNC)) (parseType_func c)
       (ifP (cur_is (Sym BRACKET_LPARENT)) (parseType_tuple c)
       (ifP (cur_is (Op OP_MUL)) (parseType_pointer c)
       (ifP (orP (cur_is (Op OP_AND)) (cur_is (Op OP_BIT_AND))) (parseType_reference c)
       (parseType_named c)))))))))"

section \<open>Generic parameters\<close>

definition parseWhereClause :: "calls \<Rightarrow> node list P" where
  "parseWhereClause c =
     (bindP (cur_is (Sym SYM_COLLON)) (\<lambda>colon.
      bindP (assertP colon) (\<lambda>_.
      loopP (\<lambda>tests.
       (bindP nextT (\<lambda>_.
        bindP (c_type c) (\<lambda>ty.
        ifP (cur_is (Op OP_PLUS)) (continueP (tests @ [ty])) (breakP (tests @ [ty])))))) [])))"

definition generic_param :: "calls \<Rightarrow> node Param P" where
  "generic_param c =
     (bindP cur_string (\<lambda>name.
      bindP nextT (\<lambda>_.
      bindP (ifP (cur_is (Sym SYM_COLLON))
       (bindP (parseWhereClause c) (\<lambda>w. returnP (Some w))) (returnP None)) (\<lambda>whereClause.
      bindP (ifP (cur_is (Op OP_EQ))
       (bindP nextT (\<lambda>_. bindP (c_type c) (\<lambda>ty. returnP (Some ty)))) (returnP None)) (\<lambda>default_ty.
      returnP (Param name default_ty None whereClause Generic False))))))"

definition parseGenericParams :: "calls \<Rightarrow> node Param list P" where
  "parseGenericParams c =
     (bindP (cur_is (Op OP_LT)) (\<lambda>lt.
      bindP (assertP lt) (\<lambda>_.
      loopP (\<lambda>params.
       (bindP nextT (\<lambda>_.
        ifP (cur_is TK_EOF)
         (createError UNEXPECTED_EOF ''Found an unexpected EOF while parsing generic declaration'')
         (ifP (cur_is IDENTIFIER)
             (bindP (generic_param c) (\<lambda>param.
              (let params' = params @ [param] in
              ifP (cur_is (Op OP_GT)) (bindP nextT (\<lambda>_. breakP params'))
               (ifP (andP (cur_is (Sym SYM_COMMA)) (pk_is 0 True IDENTIFIER)) (continueP params')
                 (bindP (assert_tok (Op OP_GT)
                    (''a '' @ quoted '','' @ '', '' @ quoted '':'' @ '' or a '' @ quoted ''>''))
                    (\<lambda>_. continueP params'))))))
           (ifP (cur_is (Op OP_GT)) (bindP nextT (\<lambda>_. breakP params))
             (createError_cur SYNTAX_ERROR ''Expected a vaid generic declaration but got '' [])))))) [])))"

end
