(* ===== verification/Parser_Expr.thy ===== *)
theory Parser_Expr
  imports Parser_Types
begin

text \<open>
  Expressions: \<^verbatim>\<open>src/parser/parseExpr.cc\<close> and \<^verbatim>\<open>parseFunctionCall.cc\<close>. The operands and operators
  are collected in a list of items, which \<open>buildOperatorTree\<close> reduces. The source positions of
  nodes are only kept for pending operators, where the messages need them.
\<close>

section \<open>Calls\<close>

definition call_round :: "calls \<Rightarrow> TokenType \<Rightarrow> string \<Rightarrow> node list \<Rightarrow> (node list + node list) P" where
  "call_round c terminator terminatorString args =
     (bindP peekT (\<lambda>pk.
      if tok_is terminator pk then breakP args else
       (bindP (c_expr c False) (\<lambda>val.
        bindP peekT (\<lambda>pk.
        if tok_is2 (Sym SYM_COMMA) terminator pk then
           (bindP (whenP (returnP (tok_is (Sym SYM_COMMA) pk)) (bindP nextT (\<lambda>_. returnP ()))) (\<lambda>_.
            continueP (args @ [val])))
       else
           (bindP nextT (\<lambda>_.
            createError SYNTAX_ERROR (''Expected a '' @ quoted '','' @ '' or a '' @ quoted terminatorString
             @ '' but found '' @ quoted (token_to_string pk) @ '' instead''))))))))"

definition parseFunctionCall :: "calls \<Rightarrow> node \<Rightarrow> TokenType \<Rightarrow> string \<Rightarrow> node P" where
  "parseFunctionCall c callee terminator terminatorString =
     (bindP (loopP (call_round c terminator terminatorString) []) (\<lambda>arguments.
      bindP nextT (\<lambda>_.
      returnP (FunctionCall callee arguments))))"

abbreviation parseCall :: "calls \<Rightarrow> node \<Rightarrow> node P" where
  "parseCall c callee \<equiv> parseFunctionCall c callee (Sym BRACKET_RPARENT) '')''"

section \<open>Operands\<close>

definition right_next_to :: "int \<times> int \<Rightarrow> int \<times> int \<Rightarrow> bool" where
  "right_next_to atPos iPos \<longleftrightarrow> fst atPos = fst iPos \<and> snd atPos = snd iPos - 1"

text \<open>A pseudo variable: a hash sign directly before a name.\<close>

definition pseudo_variable :: "node option P" where
  "pseudo_variable = ifP (pk_is 0 False IDENTIFIER)
       (bindP (getP (\<lambda>s. get_pos (m_current s))) (\<lambda>atPos.
        bindP nextT (\<lambda>_.
        bindP (getP (\<lambda>s. get_pos (m_current s))) (\<lambda>iPos.
        if right_next_to atPos iPos
       then bindP cur_string (\<lambda>x. returnP (Some (PseudoVariable x [] False False)))
       else bindP prevT (\<lambda>_. returnP None)))))
     (returnP None)"

text \<open>
  The arguments of a macro call; the current token is the first one or the closing bracket. A
  type argument starts with a colon.
\<close>

definition macro_args :: "calls \<Rightarrow> node list P" where
  "macro_args c = ifP (notP (cur_is (Sym BRACKET_RPARENT)))
       (bindP (prev_by 1 False) (\<lambda>_.
        bindP (loopP (\<lambda>args.
         (bindP nextT (\<lambda>_.
          bindP peekT (\<lambda>pk.
          bindP ((if tok_is (Sym SYM_COLLON) pk then
               (bindP (next_by 1) (\<lambda>_.
                bindP (c_type c) (\<lambda>ty.
                bindP prevT (\<lambda>_.
                returnP ty))))
             else c_stmt c pk)) (\<lambda>arg.
          ifP (pk_is 0 False (Sym SYM_COMMA)) (continueP (args @ [arg]))
           (bindP nextT (\<lambda>_. breakP (args @ [arg])))))))) []) (\<lambda>args.
        bindP (assert_tok (Sym BRACKET_RPARENT) (quoted '')'')) (\<lambda>_.
        returnP args))))
     (returnP [])"

text \<open>
  A macro call: any token directly followed by an exclamation mark. The test of the source is
  \<^verbatim>\<open>TOKEN(IDENTIFIER), is<OP_NOT>(peek())\<close>, and the comma operator drops its first part.
\<close>

definition macro_call :: "calls \<Rightarrow> node option P" where
  "macro_call c =
     (bindP cur (\<lambda>t.
      (let atPos = (tok_line t, tok_col t + int (length (token_to_string t)) - 1) in
      (let name = token_to_string t in
      bindP nextT (\<lambda>_.
      bindP (getP (\<lambda>s. get_pos (m_current s))) (\<lambda>iPos.
      if right_next_to atPos iPos then
         (bindP nextT (\<lambda>_.
          bindP (assert_tok (Sym BRACKET_LPARENT) (quoted ''('')) (\<lambda>_.
          bindP nextT (\<lambda>_.
          bindP (macro_args c) (\<lambda>args.
          returnP (Some (PseudoVariable name args True False)))))))
     else bindP prevT (\<lambda>_. returnP None)))))))"

definition special_operand :: "calls \<Rightarrow> node option P" where
  "special_operand c = ifP (cur_is (Sym SYM_HASH)) pseudo_variable
     (ifP (pk_is 0 False (Op OP_NOT)) (macro_call c) (returnP None))"

definition deduceType :: "TokenType \<Rightarrow> ConstantType option" where
  "deduceType ty = (case ty of
      VALUE_STRING \<Rightarrow> Some CT_String | VALUE_CHAR \<Rightarrow> Some CT_Char | VALUE_FLOAT \<Rightarrow> Some CT_Float
    | VALUE_NUMBER \<Rightarrow> Some CT_Number | VALUE_BOOL \<Rightarrow> Some CT_Bool | _ \<Rightarrow> None)"

text \<open>A name, or a string with a prefix that directly precedes it.\<close>

definition named_operand :: "calls \<Rightarrow> node P" where
  "named_operand c =
     (bindP (ifP (pk_is 0 False VALUE_STRING)
         (bindP cur_string (\<lambda>identifier.
          bindP (getP (\<lambda>s. get_pos (m_current s))) (\<lambda>atPos.
          bindP nextT (\<lambda>_.
          bindP (getP (\<lambda>s. get_pos (m_current s))) (\<lambda>iPos.
          if right_next_to atPos iPos
         then bindP cur_string (\<lambda>v. returnP (Some (ConstantValue CT_String v identifier)))
         else bindP prevT (\<lambda>_. returnP None))))))
       (returnP None)) (\<lambda>expr.
      case expr of Some e \<Rightarrow> returnP e | None \<Rightarrow> parseIdentifier c False True))"

definition prefix_operator :: "TokenType \<Rightarrow> OperatorType option" where
  "prefix_operator ty =
     (if ty = Op OP_NOT then Some OT_NOT else if ty = Op OP_PLUS then Some OT_UPLUS
      else if ty = Op OP_MINUS then Some OT_UMINUS else if ty = Op OP_BIT_NOT then Some OT_BIT_NOT
      else if ty = Op OP_BIT_AND then Some OT_REFERENCE
      else if ty = Op OP_MUL then Some OT_DEREFERENCE else None)"

definition prefix_item :: "Token \<Rightarrow> OperatorType \<Rightarrow> item P" where
  "prefix_item tk op =
     (bindP ((if op = OT_REFERENCE then pk_is 0 False (Kword KWORD_MUTABLE) else returnP False)) (\<lambda>isMutable.
      bindP (whenP (returnP isMutable) (bindP nextT (\<lambda>_. returnP ()))) (\<lambda>_.
      returnP (PendingOp (get_pos tk) op isMutable))))"

text \<open>
  The other operands; a prefix operator only adds an item and another operand follows. The token
  of the round is the current one again when this is reached.
\<close>

definition normal_operand :: "calls \<Rightarrow> bool \<Rightarrow> Token \<Rightarrow> (item + node) P" where
  "normal_operand c allowAssign tk =
     (if tok_is (Sym BRACKET_LPARENT) tk then
          (bindP (c_expr c allowAssign) (\<lambda>expr.
           bindP nextT (\<lambda>_.
           bindP (assert_tok (Sym BRACKET_RPARENT) (quoted '')'')) (\<lambda>_.
           returnP (Inr expr)))))
      else case deduceType (tok_type tk) of
        Some ty \<Rightarrow> returnP (Inr (ConstantValue ty (token_to_string tk) []))
      | None \<Rightarrow>
        (if tok_is IDENTIFIER tk then bindP (named_operand c) (\<lambda>e. returnP (Inr e))
         else if tok_is (Kword KWORD_NEW) tk then
             (bindP nextT (\<lambda>_.
              bindP (c_type c) (\<lambda>ty.
              bindP (assert_tok (Sym BRACKET_LPARENT) (quoted ''('')) (\<lambda>_.
              bindP (parseCall c ty) (\<lambda>call.
              returnP (Inr (NewInstance call ty)))))))
         else case prefix_operator (tok_type tk) of
           Some op \<Rightarrow> bindP (prefix_item tk op) (\<lambda>x. returnP (Inl x))
         | None \<Rightarrow>
           (if tok_is (Kword KWORD_FUNC) tk then
               (bindP (c_function c False False True False) (\<lambda>f.
                returnP (Inr (LambdaFunction f))))
            else createError_cur SYNTAX_ERROR ''Expected a valid expression but got '' [])))"

section \<open>Suffixes\<close>

definition index_suffix :: "calls \<Rightarrow> node \<Rightarrow> node P" where
  "index_suffix c expr =
     (bindP nextT (\<lambda>_.
      bindP (c_expr c False) (\<lambda>indexExpr.
      bindP nextT (\<lambda>_.
      bindP (assert_tok (Sym BRACKET_RSQUARED) (quoted '']'')) (\<lambda>_.
      returnP (BinaryOp OT_INDEX expr (Some indexExpr) False False))))))"

definition member_suffix :: "calls \<Rightarrow> bool \<Rightarrow> node \<Rightarrow> node P" where
  "member_suffix c isStatic expr =
     ifP (andP (returnP (\<not> isStatic)) (pk_is 1 True (Sym SYM_DOT)))
         (bindP (next_by 1) (\<lambda>_.
          bindP (c_expr c False) (\<lambda>right.
          returnP (BinaryOp OT_RANGE expr (Some right) False False))))
         (bindP (next_by 1) (\<lambda>_.
          bindP (assert_tok IDENTIFIER ''an identifier'') (\<lambda>_.
          bindP (parseIdentifier c False True) (\<lambda>index.
          returnP (Index expr index isStatic)))))"

definition cast_suffix :: "calls \<Rightarrow> node \<Rightarrow> node P" where
  "cast_suffix c expr =
     (bindP (next_by 1) (\<lambda>_.
      bindP throwIfNotType (\<lambda>_.
      bindP (c_type c) (\<lambda>ty.
      bindP prevT (\<lambda>_.
      returnP (Cast expr ty))))))"

definition suffix_round :: "calls \<Rightarrow> node \<Rightarrow> (node + node) P" where
  "suffix_round c expr =
     (bindP (peek 0 True) (\<lambda>tk.
      if tok_is (Sym BRACKET_LPARENT) tk
     then bindP nextT (\<lambda>_. bindP (parseCall c expr) continueP)
     else if tok_is (Sym BRACKET_LSQUARED) tk then bindP (index_suffix c expr) continueP
     else if tok_is2 (Sym SYM_COLCOL) (Sym SYM_DOT) tk
     then bindP (member_suffix c (tok_is (Sym SYM_COLCOL) tk) expr) continueP
     else if tok_is (Kword KWORD_AS) tk then bindP (cast_suffix c expr) continueP
     else breakP expr))"

definition suffixes :: "calls \<Rightarrow> node \<Rightarrow> node P" where
  "suffixes c = loopP (suffix_round c)"

section \<open>Expressions\<close>

text \<open>The operators that may stand between two operands, as the switch of the source lists them.\<close>

definition infix_operator :: "OpToken \<Rightarrow> OperatorType option" where
  "infix_operator p = (case p of
      OP_EQ \<Rightarrow> Some OT_EQ | OP_EQEQ \<Rightarrow> Some OT_EQEQ
    | OP_PLUS \<Rightarrow> Some OT_PLUS | OP_PLUSEQ \<Rightarrow> Some OT_PLUSEQ
    | OP_MINUS \<Rightarrow> Some OT_MINUS | OP_MINUSEQ \<Rightarrow> Some OT_MINUSEQ
    | OP_MUL \<Rightarrow> Some OT_MUL | OP_MULEQ \<Rightarrow> Some OT_MULEQ
    | OP_DIV \<Rightarrow> Some OT_DIV | OP_DIVEQ \<Rightarrow> Some OT_DIVEQ
    | OP_MOD \<Rightarrow> Some OT_MOD | OP_MOD_EQ \<Rightarrow> Some OT_MOD_EQ
    | OP_LT \<Rightarrow> Some OT_LT | OP_LTEQ \<Rightarrow> Some OT_LTEQ
    | OP_GT \<Rightarrow> Some OT_GT | OP_GTEQ \<Rightarrow> Some OT_GTEQ
    | OP_AND \<Rightarrow> Some OT_AND | OP_OR \<Rightarrow> Some OT_OR
    | OP_NOT \<Rightarrow> Some OT_NOT | OP_NOTEQ \<Rightarrow> Some OT_NOTEQ
    | OP_BIT_NOT \<Rightarrow> Some OT_BIT_NOT
    | OP_BIT_LSHIFT \<Rightarrow> Some OT_BIT_LSHIFT | OP_BIT_LSHIFT_EQ \<Rightarrow> Some OT_BIT_LSHIFT_EQ
    | OP_BIT_RSHIFT \<Rightarrow> Some OT_BIT_RSHIFT | OP_BIT_RSHIFT_EQ \<Rightarrow> Some OT_BIT_RSHIFT_EQ
    | OP_BIT_OR \<Rightarrow> Some OT_BIT_OR | OP_BIT_OR_EQ \<Rightarrow> Some OT_BIT_OR_EQ
    | OP_BIT_AND \<Rightarrow> Some OT_BIT_AND | OP_BIT_AND_EQ \<Rightarrow> Some OT_BIT_AND_EQ
    | OP_BIT_XOR \<Rightarrow> Some OT_BIT_XOR | OP_BIT_XOR_EQ \<Rightarrow> Some OT_BIT_XOR_EQ
    | OP_ARROW \<Rightarrow> None)"

definition binary_operator :: "TokenType \<Rightarrow> OperatorType option" where
  "binary_operator ty = (case ty of Op p \<Rightarrow> infix_operator p | _ \<Rightarrow> None)"

definition operand :: "calls \<Rightarrow> bool \<Rightarrow> (item + node) P" where
  "operand c allowAssign =
     (bindP nextT (\<lambda>tk.
      bindP (special_operand c) (\<lambda>special.
      case special of Some e \<Rightarrow> returnP (Inr e) | None \<Rightarrow> normal_operand c allowAssign tk)))"

definition item_round :: "calls \<Rightarrow> bool \<Rightarrow> item list \<Rightarrow> (item list + item list) P" where
  "item_round c allowAssign exprs =
     (bindP (operand c allowAssign) (\<lambda>x.
      case x of
       Inl op \<Rightarrow> continueP (exprs @ [op])
     | Inr e \<Rightarrow>
         (bindP (suffixes c e) (\<lambda>expr.
          (let exprs' = exprs @ [Node expr] in
          bindP peekT (\<lambda>tk.
          case binary_operator (tok_type tk) of
           Some op_type \<Rightarrow>
             (bindP nextT (\<lambda>_.
              continueP (exprs' @ [PendingOp (get_pos tk) op_type False])))
         | None \<Rightarrow> breakP exprs'))))))"

definition expr_items :: "calls \<Rightarrow> bool \<Rightarrow> item list P" where
  "expr_items c allowAssign = loopP (item_round c allowAssign) []"

text \<open>
  The error for an assignment is raised at the position of the expression, which is that of its
  root operator: assignments bind weakest and to the left, so the root is the last one.
\<close>

definition assignment_pos :: "item list \<Rightarrow> int \<times> int" where
  "assignment_pos exprs = fold (\<lambda>x p. case x of
      PendingOp q op _ \<Rightarrow> if is_assignment op then q else p
    | Node _ \<Rightarrow> p) exprs (0, 0)"

definition check_assignment :: "bool \<Rightarrow> item list \<Rightarrow> node \<Rightarrow> unit P" where
  "check_assignment allowAssign exprs expr = (case expr of
      BinaryOp op _ _ _ _ \<Rightarrow>
        (if \<not> allowAssign \<and> is_assignment op then
           bindP (liftP (BinaryOp_to_string op)) (\<lambda>w.
             createError_at SYNTAX_ERROR (assignment_pos exprs)
               ''assignment is not allowed inside expression.'' (int (length w)))
         else returnP ())
    | _ \<Rightarrow> returnP ())"

definition parseExpr :: "calls \<Rightarrow> bool \<Rightarrow> node P" where
  "parseExpr c allowAssign =
     (bindP (expr_items c allowAssign) (\<lambda>exprs.
      bindP (liftP (buildOperatorTree exprs)) (\<lambda>tree.
      case tree of
       PendingOp _ _ _ \<Rightarrow> failP Abort
     | Node expr \<Rightarrow>
         (bindP (check_assignment allowAssign exprs expr) (\<lambda>_.
          returnP expr)))))"

end
