(* ===== verification/Parser_Stmts.thy ===== *)
theory Parser_Stmts
  imports Parser_Expr
begin

text \<open>
  Statements: \<^verbatim>\<open>parseBlock.cc\<close>, \<^verbatim>\<open>parseBlockOrStmt.cc\<close>, \<^verbatim>\<open>parseConditional.cc\<close>,
  \<^verbatim>\<open>parseConstant.cc\<close>, \<^verbatim>\<open>parseForLoop.cc\<close>, \<^verbatim>\<open>parseLoopControl.cc\<close>, \<^verbatim>\<open>parseReturn.cc\<close>,
  \<^verbatim>\<open>parseStatement.cc\<close>, \<^verbatim>\<open>parseSwitch.cc\<close>, \<^verbatim>\<open>parseThrow.cc\<close>, \<^verbatim>\<open>parseTryCatch.cc\<close>,
  \<^verbatim>\<open>parseTypeAlias.cc\<close>, \<^verbatim>\<open>parseVariable.cc\<close> and \<^verbatim>\<open>parseWhile.cc\<close> of \<^verbatim>\<open>src/parser\<close>.
\<close>

section \<open>Blocks\<close>

definition parseBlock :: "calls \<Rightarrow> TokenType list \<Rightarrow> node P" where
  "parseBlock c termination =
     (bindP (cur_is TK_EOF) (\<lambda>eof.
      bindP (assertP (\<not> eof)) (\<lambda>_.
      bindP (loopP (\<lambda>stmts.
       (bindP peekT (\<lambda>pk.
        if tok_type pk \<in> set termination then bindP nextT (\<lambda>_. breakP stmts)
       else if tok_is (Sym SYM_SEMI_COLLON) pk then bindP nextT (\<lambda>_. continueP stmts)
       else bindP (c_stmt c pk) (\<lambda>stmt. continueP (stmts @ [stmt]))))) []) (\<lambda>stmts.
      returnP (Block no_attributes stmts)))))"

definition parseBlockOrStmt :: "calls \<Rightarrow> node P" where
  "parseBlockOrStmt c = ifP (pk_is 0 False (Sym BRACKET_LCURLY))
     (bindP nextT (\<lambda>_. c_body c))
       (bindP peekT (\<lambda>tk.
        bindP (c_stmt c tk) (\<lambda>expr.
        returnP (Block no_attributes [expr]))))"

text \<open>The statements of \<open>m\<close> are inside a loop; the flag is restored after it.\<close>

definition inside_loop :: "'a P \<Rightarrow> 'a P" where
  "inside_loop m =
     (bindP (getP m_inside_loop) (\<lambda>backupLoop.
      bindP (updateP (\<lambda>s. s\<lparr>m_inside_loop := True\<rparr>)) (\<lambda>_.
      bindP m (\<lambda>a.
      bindP (updateP (\<lambda>s. s\<lparr>m_inside_loop := backupLoop\<rparr>)) (\<lambda>_.
      returnP a)))))"

section \<open>Control flow\<close>

definition parseConditional :: "calls \<Rightarrow> node P" where
  "parseConditional c =
     (bindP (cur_is (Kword KWORD_IF)) (\<lambda>kw.
      bindP (assertP kw) (\<lambda>_.
      bindP (whenP (pk_is 0 False (Kword KWORD_CONSTEXPR))
       (createError TODO ''Compile-time conditionals are not yet supported'')) (\<lambda>_.
      bindP (c_expr c False) (\<lambda>expr.
      bindP nextT (\<lambda>_.
      bindP (c_body c) (\<lambda>block.
      bindP (ifP (pk_is 0 False (Kword KWORD_ELSE))
       (bindP nextT (\<lambda>_. bindP (parseBlockOrStmt c) (\<lambda>b. returnP (Some b))))
       (returnP None)) (\<lambda>elseBlock.
      returnP (Conditional expr block elseBlock)))))))))"

definition parseWhile :: "calls \<Rightarrow> node P" where
  "parseWhile c =
     (bindP cur (\<lambda>token.
      bindP (assertP (tok_is2 (Kword KWORD_WHILE) (Kword KWORD_DO) token)) (\<lambda>_.
      (let isDoWhile = tok_is (Kword KWORD_DO) token in
      bindP (inside_loop (if \<not> isDoWhile then
           (bindP (c_expr c False) (\<lambda>expr.
            bindP nextT (\<lambda>_.
            bindP (c_body c) (\<lambda>block.
            returnP (expr, block)))))
         else
           (bindP nextT (\<lambda>_.
            bindP (c_body c) (\<lambda>block.
            bindP nextT (\<lambda>_.
            bindP (assert_tok (Kword KWORD_WHILE) (quoted ''while'')) (\<lambda>_.
            bindP (c_expr c False) (\<lambda>expr.
            bindP nextT (\<lambda>_.
            bindP (assert_tok (Sym SYM_SEMI_COLLON) (quoted '';'')) (\<lambda>_.
            returnP (expr, block))))))))))) (\<lambda>(expr, block).
      returnP (WhileLoop expr block isDoWhile None))))))"

definition loop_body :: "calls \<Rightarrow> node P" where
  "loop_body c = inside_loop
     (bindP (assert_tok (Sym BRACKET_LCURLY) (quoted ''{'')) (\<lambda>_. c_body c))"

text \<open>The header and body of a loop over a range, the current token being the word \<^verbatim>\<open>in\<close>.\<close>

definition for_in :: "calls \<Rightarrow> string \<Rightarrow> node P" where
  "for_in c var =
     (bindP (c_expr c True) (\<lambda>expr.
      bindP nextT (\<lambda>_.
      bindP (loop_body c) (\<lambda>body.
      returnP (ForLoop var expr body)))))"

text \<open>
  The C style loop, entered on the \<^verbatim>\<open>for\<close> token: a block of the initialisation, if there is one,
  and a while loop.
\<close>

definition for_c_style :: "calls \<Rightarrow> node P" where
  "for_c_style c =
     (bindP (ifP (notP (pk_is 0 False (Sym SYM_SEMI_COLLON)))
         (bindP peekT (\<lambda>tk.
          bindP (c_stmt c tk) (\<lambda>init.
          bindP (assert_tok (Sym SYM_SEMI_COLLON) (quoted '';'')) (\<lambda>_.
          returnP [init]))))
       (bindP nextT (\<lambda>_. returnP []))) (\<lambda>block.
      bindP (ifP (notP (pk_is 0 False (Sym SYM_SEMI_COLLON)))
         (bindP (c_expr c False) (\<lambda>e.
          bindP nextT (\<lambda>_.
          bindP (assert_tok (Sym SYM_SEMI_COLLON) (quoted '';'')) (\<lambda>_.
          returnP (Some e)))))
       (bindP nextT (\<lambda>_. returnP None))) (\<lambda>condExpr.
      bindP (ifP (notP (pk_is 0 False (Sym BRACKET_LCURLY)))
       (bindP (c_expr c True) (\<lambda>e. returnP (Some e))) (returnP None)) (\<lambda>step.
      bindP nextT (\<lambda>_.
      bindP (loop_body c) (\<lambda>body.
      (let cond = (case condExpr of Some e \<Rightarrow> e | None \<Rightarrow> ConstantValue CT_Bool ''true'' []) in
      returnP (Block no_attributes (block @ [WhileLoop cond body False step])))))))))"

definition parseForLoop :: "calls \<Rightarrow> node P" where
  "parseForLoop c =
     (bindP (cur_is (Kword KWORD_FOR)) (\<lambda>kw.
      bindP (assertP kw) (\<lambda>_.
      bindP nextT (\<lambda>_.
      bindP (ifP (cur_is IDENTIFIER)
         (bindP cur_string (\<lambda>var.
          bindP nextT (\<lambda>_.
          ifP (andP (cur_is IDENTIFIER) (bindP cur_string (\<lambda>x. returnP (x = ''in''))))
           (bindP (for_in c var) (\<lambda>l. returnP (Some l)))
           (bindP prevT (\<lambda>_. returnP None)))))
       (returnP None)) (\<lambda>range.
      case range of Some loop \<Rightarrow> returnP loop | None \<Rightarrow> bindP prevT (\<lambda>_. for_c_style c))))))"

definition parseLoopControl :: "node P" where
  "parseLoopControl =
     (bindP cur (\<lambda>t.
      bindP (assertP (tok_is2 (Kword KWORD_BREAK) (Kword KWORD_CONTINUE) t)) (\<lambda>_.
      bindP (getP m_inside_loop) (\<lambda>inside.
      bindP ((if \<not> inside then createError SYNTAX_ERROR ''Cannot use loop control outside of a loop!''
      else returnP ())) (\<lambda>_.
      returnP (LoopFlow (if tok_is (Kword KWORD_BREAK) t then Break else Continue)))))))"

definition parseReturn :: "calls \<Rightarrow> node P" where
  "parseReturn c =
     (bindP (cur_is (Kword KWORD_RETURN)) (\<lambda>kw.
      bindP (assertP kw) (\<lambda>_.
      bindP (ifP (notP (pk_is 0 False (Sym SYM_SEMI_COLLON)))
       (bindP (c_expr c False) (\<lambda>e. returnP (Some e))) (returnP None)) (\<lambda>expr.
      returnP (Return expr)))))"

definition parseThrow :: "calls \<Rightarrow> node P" where
  "parseThrow c =
     (bindP (cur_is (Kword KWORD_THROW)) (\<lambda>kw.
      bindP (assertP kw) (\<lambda>_.
      bindP (c_expr c False) (\<lambda>expr.
      returnP (Raise expr)))))"

definition parseTryCatch :: "calls \<Rightarrow> node P" where
  "parseTryCatch c =
     (bindP (cur_is (Kword KWORD_TRY)) (\<lambda>kw.
      bindP (assertP kw) (\<lambda>_.
      bindP nextT (\<lambda>_.
      bindP (assert_tok (Sym BRACKET_LCURLY)
       (''a left curly brace '' @ quoted ''{'' @ '' to start the try block'')) (\<lambda>_.
      bindP (c_body c) (\<lambda>tryBlock.
      bindP nextT (\<lambda>_.
      bindP (assert_tok (Kword KWORD_CATCH) ''a catch block'') (\<lambda>_.
      bindP (loopP (\<lambda>catchBlocks. ifP (cur_is (Kword KWORD_CATCH))
           (bindP nextT (\<lambda>_.
            bindP (consume_tok (Sym BRACKET_LPARENT)
             (''a left parenthesis '' @ quoted ''('' @ '' to start the catch block'')) (\<lambda>_.
            bindP (ident_string ''an identifier for the exception variable'') (\<lambda>name.
            bindP nextT (\<lambda>_.
            bindP (consume_tok (Sym SYM_COLLON)
             (''a collon '' @ quoted '':'' @ '' to separate the exception variable from the type'')) (\<lambda>_.
            bindP (c_type c) (\<lambda>ty.
            bindP (consume_tok (Sym BRACKET_RPARENT)
             (''a right parenthesis '' @ quoted '')'' @ '' to end the catch block header'')) (\<lambda>_.
            bindP (c_body c) (\<lambda>block.
            continueP (catchBlocks @ [CatchBlock ty name block]))))))))))
         (breakP catchBlocks)) []) (\<lambda>catchBlocks.
      returnP (TryCatch tryBlock catchBlocks))))))))))"

section \<open>Switches\<close>

text \<open>The pattern arguments in brackets; the current token is the opening one.\<close>

definition case_arguments :: "(string list \<times> bool) P" where
  "case_arguments =
     (bindP nextT (\<lambda>_.
      bindP (loopP (\<lambda>args. ifP (cur_is (Sym BRACKET_RPARENT)) (breakP (args, False))
         (ifP (andP (cur_is (Sym SYM_DOT)) (andP (pk_is 0 False (Sym SYM_DOT)) (pk_is 1 True (Sym SYM_DOT))))
           (bindP (next_by 2) (\<lambda>_. breakP (args, True)))
             (bindP (ident_string ''identifier expected as case argument'') (\<lambda>arg.
              bindP nextT (\<lambda>_.
              (let args' = args @ [arg] in
              ifP (cur_is (Sym SYM_COMMA)) (bindP nextT (\<lambda>_. continueP args'))
               (ifP (cur_is (Sym BRACKET_RPARENT)) (breakP (args', False))
                 (createError SYNTAX_ERROR
                   (''expected '' @ quoted '','' @ '' or '' @ quoted '')'' @ '' after case argument''))))))))) []) (\<lambda>(args, variadic).
      bindP (assert_tok (Sym BRACKET_RPARENT) (quoted '')'' @ '' expected after case arguments'')) (\<lambda>_.
      bindP nextT (\<lambda>_.
      returnP (args, variadic))))))"

definition named_case :: "calls \<Rightarrow> node CaseBlock P" where
  "named_case c =
     (bindP cur_string (\<lambda>id.
      bindP nextT (\<lambda>_.
      bindP (ifP (cur_is (Sym BRACKET_LPARENT)) case_arguments (returnP ([], False))) (\<lambda>(args, variadic).
      bindP (assert_tok (Op OP_ARROW) (quoted ''=>'' @ '' expected after case name'')) (\<lambda>_.
      bindP (parseBlockOrStmt c) (\<lambda>body.
      bindP (ifP (notP (pk_is 0 False (Sym BRACKET_RCURLY)))
         (bindP nextT (\<lambda>_.
          consume_tok (Sym SYM_COMMA) (quoted '','' @ '' expected after case block'')))
       nextT) (\<lambda>_.
      returnP (CaseBlock (None, id) args False variadic body))))))))"

text \<open>
  After a default case or a case with an expression: a comma, or the closing brace of the
  switch. The case with an expression also steps over that brace.
\<close>

definition after_case :: "bool \<Rightarrow> unit P" where
  "after_case past_brace =
     (bindP nextT (\<lambda>_.
      ifP (cur_is (Sym SYM_COMMA)) (bindP nextT (\<lambda>_. returnP ()))
       (ifP (notP (cur_is (Sym BRACKET_RCURLY)))
         (createError SYNTAX_ERROR
           (''expected '' @ quoted '','' @ '' or '' @ quoted ''}'' @ '' after case block''))
         (if past_brace then bindP nextT (\<lambda>_. returnP ()) else returnP ()))))"

definition default_case :: "calls \<Rightarrow> node CaseBlock P" where
  "default_case c =
     (bindP nextT (\<lambda>_.
      bindP (assert_tok (Op OP_ARROW) (quoted ''=>'' @ '' expected after '' @ quoted ''default'' @ '' keyword'')) (\<lambda>_.
      bindP (parseBlockOrStmt c) (\<lambda>body.
      bindP (after_case False) (\<lambda>_.
      returnP (CaseBlock (None, []) [] True False body))))))"

definition expression_case :: "calls \<Rightarrow> node CaseBlock P" where
  "expression_case c =
     (bindP prevT (\<lambda>_.
      bindP (c_expr c False) (\<lambda>stmt.
      bindP nextT (\<lambda>_.
      bindP (parseBlockOrStmt c) (\<lambda>body.
      bindP (after_case True) (\<lambda>_.
      returnP (CaseBlock (Some stmt, []) [] False False body)))))))"

text \<open>In a C style switch a name falls through to the default case.\<close>

definition switch_case :: "calls \<Rightarrow> bool \<Rightarrow> node CaseBlock P" where
  "switch_case c cStyleSwitch =
     (bindP cur (\<lambda>pk.
      if tok_is IDENTIFIER pk \<and> \<not> cStyleSwitch then named_case c
     else if tok_is2 IDENTIFIER (Kword KWORD_DEFAULT) pk then default_case c
     else if cStyleSwitch then expression_case c
     else createError SYNTAX_ERROR
       (''expected '' @ quoted ''case name'' @ '' or '' @ quoted ''default'' @ '' keyword'')))"

definition parseSwitch :: "calls \<Rightarrow> node P" where
  "parseSwitch c =
     (bindP cur (\<lambda>kw.
      bindP (assertP (tok_is2 (Kword KWORD_CASE) (Kword KWORD_SWITCH) kw)) (\<lambda>_.
      (let cStyleSwitch = tok_is (Kword KWORD_SWITCH) kw in
      bindP (c_expr c True) (\<lambda>expr.
      bindP nextT (\<lambda>_.
      bindP (consume_tok (Sym BRACKET_LCURLY) (quoted ''{'' @ '' expected after '' @ quoted ''case'' @ '' expression'')) (\<lambda>_.
      bindP (loopP (\<lambda>cases. ifP (cur_is (Sym BRACKET_RCURLY)) (breakP cases)
       (bindP (switch_case c cStyleSwitch) (\<lambda>cs. continueP (cases @ [cs])))) []) (\<lambda>cases.
      returnP (Switch expr cases cStyleSwitch)))))))))"

section \<open>Variables, constants, type aliases\<close>

definition fromInt :: "bool \<Rightarrow> Privacy" where
  "fromInt p_status = (if p_status then PUBLIC else PRIVATE)"

text \<open>A visibility keyword two tokens before the current one.\<close>

definition visible_before :: "bool P" where
  "visible_before =
     (bindP (peek (- 3) True) (\<lambda>pk.
      if tok_is2 (Kword KWORD_PUBLIC) (Kword KWORD_PRIVATE) pk
     then pk_is (- 3) True (Kword KWORD_PUBLIC) else returnP False))"

definition parseVariable :: "calls \<Rightarrow> node P" where
  "parseVariable c =
     (bindP (cur_is (Kword KWORD_VAR)) (\<lambda>kw.
      bindP (assertP kw) (\<lambda>_.
      bindP parseDocstring (\<lambda>comment.
      bindP nextT (\<lambda>_.
      bindP (verifyAttributes no_parseFn) (\<lambda>attributes.
      bindP visible_before (\<lambda>isPublic.
      bindP (cur_is (Kword KWORD_MUTABLE)) (\<lambda>isMutable.
      bindP (whenP (returnP isMutable) (bindP nextT (\<lambda>_. returnP ()))) (\<lambda>_.
      bindP (ident_string ''an identifier'') (\<lambda>name.
      bindP nextT (\<lambda>_.
      bindP (ifP (cur_is (Sym SYM_COLLON))
       (bindP nextT (\<lambda>_. bindP (c_type c) (\<lambda>ty. returnP (Some ty)))) (returnP None)) (\<lambda>typeDef.
      bindP (ifP (cur_is (Op OP_EQ))
         (bindP (c_expr c False) (\<lambda>e.
          bindP (whenP (pk_is 0 True (Sym SYM_SEMI_COLLON)) (bindP nextT (\<lambda>_. returnP ()))) (\<lambda>_.
          returnP (Some e))))
       (ifP (notP (cur_is (Sym SYM_SEMI_COLLON)))
         (createError SYNTAX_ERROR ''Invalid variable declaration syntax!'')
         (if typeDef = None
          then createError SYNTAX_ERROR ''Undeclared type for uninitialized variable declaration!''
          else returnP None))) (\<lambda>value.
      returnP (VariableDecl name value isMutable typeDef False False (fromInt isPublic) comment
       (attribute_holder attributes)))))))))))))))"

text \<open>
  The qualifiers before a constant: visibility, \<^verbatim>\<open>external\<close> or \<^verbatim>\<open>static\<close> with the visibility before
  it. The results are whether it is public, external and static.
\<close>

definition constant_qualifiers :: "(bool \<times> bool \<times> bool) P" where
  "constant_qualifiers =
     (bindP (peek (- 3) True) (\<lambda>pk.
      if tok_is2 (Kword KWORD_PUBLIC) (Kword KWORD_PRIVATE) pk
     then bindP (pk_is (- 3) True (Kword KWORD_PUBLIC)) (\<lambda>p. returnP (p, False, False))
     else if tok_is (Kword KWORD_EXTERN) pk
     then bindP (pk_is (- 4) True (Kword KWORD_PUBLIC)) (\<lambda>p. returnP (p, True, False))
     else if tok_is (Kword KWORD_STATIC) pk
     then bindP (pk_is (- 4) True (Kword KWORD_PUBLIC)) (\<lambda>p. returnP (p, False, True))
     else returnP (False, False, False)))"

definition parseConstant :: "calls \<Rightarrow> node P" where
  "parseConstant c =
     (bindP (cur_is (Kword KWORD_CONST)) (\<lambda>kw.
      bindP (assertP kw) (\<lambda>_.
      bindP parseDocstring (\<lambda>comment.
      bindP (verifyAttributes no_parseFn) (\<lambda>attributes.
      bindP nextT (\<lambda>_.
      bindP constant_qualifiers (\<lambda>(isPublic, isExternal, isStatic).
      bindP (getP m_current_class) (\<lambda>cls.
      bindP ((if \<not> isStatic \<and> cls \<noteq> None
      then createError SYNTAX_ERROR ''Cannot declare a non-static constant inside a class''
      else returnP ())) (\<lambda>_.
      bindP (ident_string ''an identifier'') (\<lambda>name.
      bindP nextT (\<lambda>_.
      bindP (consume_tok (Sym SYM_COLLON) (quoted '':'' @ '' for a type declaration'')) (\<lambda>_.
      bindP (c_type c) (\<lambda>typeDef.
      bindP ((if isExternal then returnP None else
         (bindP (assert_tok (Op OP_EQ) (quoted ''='' @ '' for a variable declaration'')) (\<lambda>_.
          bindP (c_expr c False) (\<lambda>e.
          returnP (Some e)))))) (\<lambda>value.
      bindP (whenP (pk_is 0 True (Sym SYM_SEMI_COLLON)) (bindP nextT (\<lambda>_. returnP ()))) (\<lambda>_.
      returnP (VariableDecl name value False (Some typeDef) True isExternal (fromInt isPublic) comment
       (attribute_holder attributes)))))))))))))))))"

definition parseTypeAlias :: "calls \<Rightarrow> node P" where
  "parseTypeAlias c =
     (bindP (cur_is (Kword KWORD_TYPEDEF)) (\<lambda>kw.
      bindP (assertP kw) (\<lambda>_.
      bindP parseDocstring (\<lambda>comment.
      bindP nextT (\<lambda>_.
      bindP visible_before (\<lambda>isPublic.
      bindP (ident_string ''type identifier'') (\<lambda>name.
      bindP nextT (\<lambda>_.
      bindP (ifP (cur_is (Op OP_LT))
       (bindP (parseGenericParams c) (\<lambda>g. returnP (Some g))) (returnP None)) (\<lambda>generics.
      bindP (consume_tok (Op OP_EQ) (quoted ''='')) (\<lambda>_.
      bindP (c_type c) (\<lambda>ty.
      returnP (TypeAlias name ty generics (fromInt isPublic) comment))))))))))))"

section \<open>The statement switch\<close>

definition set_unsafe :: "node \<Rightarrow> node" where
  "set_unsafe b = (case b of Block a ss \<Rightarrow> Block (addAttribute UNSAFE [] a) ss | _ \<Rightarrow> b)"

definition pseudo_as_statement :: "node \<Rightarrow> node" where
  "pseudo_as_statement expr = (case expr of
      PseudoVariable x args h _ \<Rightarrow> PseudoVariable x args h True | _ \<Rightarrow> expr)"

text \<open>
  \<open>stmt_entry context m\<close>: no attributes may be pending, then the peeked token is taken and \<open>m\<close>
  parses the statement. A lone semicolon runs into the assertion at the end of the source's
  routine.
\<close>

definition stmt_entry :: "string \<Rightarrow> node P \<Rightarrow> node P" where
  "stmt_entry context m = bindP (assertNoAttributes context) (\<lambda>_. bindP nextT (\<lambda>_. m))"

definition keyword_statement :: "calls \<Rightarrow> Keyword \<Rightarrow> node P option" where
  "keyword_statement c k =
     (if k = KWORD_UNSAFE then Some
           (bindP (assertNoAttributes ''unsafe block'') (\<lambda>_.
            bindP (next_by 1) (\<lambda>_.
            bindP (assert_tok (Sym BRACKET_LCURLY)
             (quoted ''{'' @ '' expected after '' @ quoted ''unsafe'' @ '' keyword'')) (\<lambda>_.
            bindP (c_body c) (\<lambda>b.
            returnP (set_unsafe b))))))
      else if k = KWORD_CONST then Some (stmt_entry ''constant declaration'' (parseConstant c))
      else if k = KWORD_BREAK \<or> k = KWORD_CONTINUE
      then Some (stmt_entry ''loop control statement'' parseLoopControl)
      else if k = KWORD_SWITCH \<or> k = KWORD_CASE
      then Some (stmt_entry ''case statement'' (parseSwitch c))
      else if k = KWORD_THROW then Some (stmt_entry ''throw statement'' (parseThrow c))
      else if k = KWORD_VAR then Some (stmt_entry ''variable declaration'' (parseVariable c))
      else if k = KWORD_FOR then Some (stmt_entry ''for loop'' (parseForLoop c))
      else if k = KWORD_WHILE \<or> k = KWORD_DO then Some (stmt_entry ''while loop'' (parseWhile c))
      else if k = KWORD_TYPEDEF then Some (stmt_entry ''type alias'' (parseTypeAlias c))
      else if k = KWORD_IF then Some (stmt_entry ''if statement'' (parseConditional c))
      else if k = KWORD_TRY then Some (stmt_entry ''try-catch statement'' (parseTryCatch c))
      else if k = KWORD_RETURN then Some (stmt_entry ''return statement'' (parseReturn c))
      else None)"

definition expression_statement :: "calls \<Rightarrow> node P" where
  "expression_statement c =
     (bindP (assertNoAttributes ''expression statement'') (\<lambda>_.
      bindP (c_expr c True) (\<lambda>expr.
      returnP (pseudo_as_statement expr))))"

definition parseStatement :: "calls \<Rightarrow> Token \<Rightarrow> node P" where
  "parseStatement c pk = (case tok_type pk of
      TK_EOF \<Rightarrow> bindP nextT (\<lambda>_.
        createError UNEXPECTED_EOF ''Found an unexpected EOF while parsing a block'')
    | Sym BRACKET_LCURLY \<Rightarrow> bindP nextT (\<lambda>_. c_body c)
    | Sym SYM_SEMI_COLLON \<Rightarrow> bindP nextT (\<lambda>_. failP AssertFail)
    | Kword k \<Rightarrow> (case keyword_statement c k of
          Some m \<Rightarrow> m | None \<Rightarrow> expression_statement c)
    | _ \<Rightarrow> expression_statement c)"

end
