(* ===== verification/Parser_Function.thy ===== *)
theory Parser_Function
  imports Parser_Stmts
begin

text \<open>
  Functions, methods, operators, constructors and lambdas: \<^verbatim>\<open>src/parser/parseFunction.cc\<close>. The
  routine is one long function in the source; here its stages are definitions that pass the
  variables on.
\<close>

section \<open>Qualifiers\<close>

record quals =
  q_unsafe :: bool
  q_extern :: bool
  q_public :: bool
  q_static :: bool
  q_virtual :: bool
  q_mutable :: bool
  q_override :: bool

definition no_quals :: quals where
  "no_quals = \<lparr>q_unsafe = False, q_extern = False, q_public = False, q_static = False,
     q_virtual = False, q_mutable = False, q_override = False\<rparr>"

text \<open>What a safe \<^verbatim>\<open>peek\<close> answers.\<close>

definition safe_token :: "pstate \<Rightarrow> int \<Rightarrow> Token" where
  "safe_token s off =
     (let i = (m_tok_index s + 1) + off in if in_tokens s i then token_at s i else eof_token)"

text \<open>\<^verbatim>\<open>CHECK_PRIVACY\<close>: a visibility keyword one token further back.\<close>

definition check_privacy :: "pstate \<Rightarrow> int \<Rightarrow> quals \<Rightarrow> quals" where
  "check_privacy s peekCount q =
     (let pk = safe_token s (peekCount - 1) in
      if tok_is2 (Kword KWORD_PUBLIC) (Kword KWORD_PRIVATE) pk
      then q\<lparr>q_public := tok_is (Kword KWORD_PUBLIC) pk\<rparr> else q)"

text \<open>The walk back over the tokens before the function keyword, label \<^verbatim>\<open>fetch_attrs\<close>.\<close>

lemma safe_token_in:
  "tok_is ty (safe_token s off) \<Longrightarrow> ty \<noteq> TK_EOF \<Longrightarrow> 0 \<le> m_tok_index s + 1 + off"
  by (auto simp: safe_token_def tok_is_def eof_token_def empty_token_def in_tokens_def Let_def
    split: if_splits)

function fetch_attrs :: "pstate \<Rightarrow> int \<Rightarrow> quals \<Rightarrow> quals" where
  "fetch_attrs s peekCount q =
     (let pk = safe_token s peekCount in
      if tok_is (Kword KWORD_UNSAFE) pk then fetch_attrs s (peekCount - 1) (q\<lparr>q_unsafe := True\<rparr>)
      else if tok_is (Kword KWORD_EXTERN) pk then check_privacy s peekCount (q\<lparr>q_extern := True\<rparr>)
      else if tok_is (Kword KWORD_STATIC) pk then check_privacy s peekCount (q\<lparr>q_static := True\<rparr>)
      else if tok_is (Kword KWORD_VIRTUAL) pk
      then fetch_attrs s (peekCount - 1) (q\<lparr>q_virtual := True\<rparr>)
      else if tok_is2 (Kword KWORD_PUBLIC) (Kword KWORD_PRIVATE) pk
      then q\<lparr>q_public := tok_is (Kword KWORD_PUBLIC) pk\<rparr>
      else if tok_is (Kword KWORD_MUTABLE) pk
      then fetch_attrs s (peekCount - 1) (q\<lparr>q_mutable := True\<rparr>)
      else if tok_is (Kword KWORD_OVERRIDE) pk
      then fetch_attrs s (peekCount - 1) (q\<lparr>q_override := True\<rparr>)
      else q)"
  by pat_completeness auto
termination
  by (relation "measure (\<lambda>(s, peekCount, q). nat (m_tok_index s + 2 + peekCount))")
     (auto dest: safe_token_in)

declare fetch_attrs.simps [simp del]

definition fn_parseFn :: "string \<Rightarrow> Attributes" where
  "fn_parseFn attr =
     (if attr = ''llvm_function'' then LLVM_FUNC
      else if attr = ''internal_linkage'' then INTERNAL_LINKAGE
      else if attr = ''external_linkage'' then EXTERNAL_LINKAGE
      else if attr = ''inline'' then INLINE
      else if attr = ''no_inline'' then NO_INLINE
      else if attr = ''test'' then TEST
      else if attr = ''no_mangle'' then NO_MANGLE
      else if attr = ''export'' then EXPORT
      else if attr = ''bench'' then BENCH
      else if attr = ''__internal__'' then BUILTIN
      else if attr = ''__no_pointer_self__'' then NO_POINTER_SELF
      else if attr = ''unsafe_fn_not_body'' then UNSAFE_FUNC_NOT_BODY
      else if attr = ''intrinsic'' then INTRINSIC
      else Attributes.INVALID)"

section \<open>Names\<close>

text \<open>The operator of an operator definition; \<^verbatim>\<open>[]\<close> takes two tokens.\<close>

definition fn_operator :: "OperatorType P" where
  "fn_operator =
     (bindP cur (\<lambda>t.
      (let invalid = createError_cur SYNTAX_ERROR ''Expected a valid operator type but instead got '' [] in
      case tok_type t of
       Op p \<Rightarrow> (case infix_operator p of Some op \<Rightarrow> returnP op | None \<Rightarrow> invalid)
     | Sym BRACKET_LSQUARED \<Rightarrow> ifP (pk_is 0 False (Sym BRACKET_RSQUARED))
         (bindP nextT (\<lambda>_. returnP OT_INDEX)) invalid
     | IDENTIFIER \<Rightarrow> (if token_to_string t = ''bool'' then returnP OT_BOOL else invalid)
     | Sym BRACKET_LPARENT \<Rightarrow> ifP (pk_is 0 False (Sym BRACKET_RPARENT)) (returnP OT_CALL) invalid
     | _ \<Rightarrow> invalid)))"

text \<open>The name and the external name of a function that is neither operator nor lambda.\<close>

definition fn_plain_name :: "bool \<Rightarrow> (string \<times> string) P" where
  "fn_plain_name isExtern =
     (bindP cur (\<lambda>t.
      (let s = token_to_string t in
      if tok_is IDENTIFIER t then returnP (s, s)
     else if tok_is VALUE_STRING t \<and> isExtern then
         (bindP nextT (\<lambda>_.
          bindP (consume_tok (Kword KWORD_AS) (quoted ''as'' @ '' keyword'')) (\<lambda>_.
          bindP (ident_string ''an identifier'') (\<lambda>name.
          returnP (name, strip_ends s)))))
     else if isExtern
     then createError_cur SYNTAX_ERROR ''Expected an identifier or a string constant but got ''
       '' while parsing an extern function declaration''
     else createError_cur SYNTAX_ERROR ''Expected an identifier but got ''
       '' while parsing a function declaration'')))"

definition fn_names :: "bool \<Rightarrow> bool \<Rightarrow> bool \<Rightarrow> (string \<times> string) P" where
  "fn_names isOp isLambda isExtern =
     (if isOp then
          (bindP fn_operator (\<lambda>op.
           bindP (liftP (getOperatorMangle op)) (\<lambda>name.
           returnP (name, name))))
      else if isLambda then returnP ([], [])
      else fn_plain_name isExtern)"

section \<open>Parameters\<close>

text \<open>The variables of the loop: parameters, their number, variadic mark, a leading \<^verbatim>\<open>self\<close>.\<close>

record fn_params =
  fp_arguments :: "node Param list"
  fp_count :: nat
  fp_variadic :: bool
  fp_self :: bool

definition no_params :: fn_params where
  "no_params = \<lparr>fp_arguments = [], fp_count = 0, fp_variadic = False, fp_self = False\<rparr>"

text \<open>An optional default value; the current token is the one after it.\<close>

definition default_arg :: "calls \<Rightarrow> node option P" where
  "default_arg c = ifP (cur_is (Op OP_EQ))
       (bindP (c_expr c False) (\<lambda>expr.
        bindP nextT (\<lambda>_.
        returnP (Some expr))))
     (returnP None)"

definition extern_param :: "calls \<Rightarrow> fn_params \<Rightarrow> fn_params P" where
  "extern_param c ps =
     (bindP throwIfNotType (\<lambda>_.
      bindP (c_type c) (\<lambda>ty.
      bindP (default_arg c) (\<lambda>def.
      returnP (ps\<lparr>fp_arguments := fp_arguments ps @
       [Param (''$extern-arg-'' @ digits_of (fp_count ps)) (Some ty) def None Normal False]\<rparr>)))))"

definition named_param :: "calls \<Rightarrow> bool \<Rightarrow> bool \<Rightarrow> fn_params \<Rightarrow> fn_params P" where
  "named_param c isStatic isConstructor ps =
     (bindP (cur_is (Kword KWORD_MUTABLE)) (\<lambda>isMutable.
      bindP (whenP (returnP isMutable) (bindP nextT (\<lambda>_. returnP ()))) (\<lambda>_.
      bindP cur_string (\<lambda>name.
      bindP (consume_tok IDENTIFIER ''an identifier'') (\<lambda>_.
      bindP (consume_tok (Sym SYM_COLLON) (quoted '':'')) (\<lambda>_.
      bindP (c_type c) (\<lambda>ty.
      bindP (getP m_current_class) (\<lambda>cls.
      (let self = (name = ''self'' \<and> fp_count ps = 0 \<and> \<not> isStatic \<and> \<not> isConstructor \<and> cls \<noteq> None) in
      bindP ((if \<not> self \<and> name = ''self''
      then createError SYNTAX_ERROR (quoted ''self''
        @ '' can only be used as the first argument inside a class non-static function!'')
      else returnP ())) (\<lambda>_.
      bindP (default_arg c) (\<lambda>def.
      returnP (ps\<lparr>fp_arguments := fp_arguments ps @ [Param name (Some ty) def None Normal isMutable],
       fp_self := fp_self ps \<or> self\<rparr>))))))))))))"

definition three_dots :: "bool P" where
  "three_dots = andP (cur_is (Sym SYM_DOT))
     (andP (pk_is 0 False (Sym SYM_DOT)) (pk_is 1 True (Sym SYM_DOT)))"

definition fn_param :: "calls \<Rightarrow> bool \<Rightarrow> bool \<Rightarrow> bool \<Rightarrow> fn_params \<Rightarrow> fn_params P" where
  "fn_param c isExtern isStatic isConstructor ps =
     ifP (andP (returnP isExtern) (andP isTypeValid (notP (pk_is 0 False (Sym SYM_COLLON)))))
       (extern_param c ps)
       (ifP three_dots
         (bindP (next_by 2) (\<lambda>_. returnP (ps\<lparr>fp_variadic := True\<rparr>)))
         (named_param c isStatic isConstructor ps))"

definition fn_param_list :: "calls \<Rightarrow> bool \<Rightarrow> bool \<Rightarrow> bool \<Rightarrow> fn_params P" where
  "fn_param_list c isExtern isStatic isConstructor = loopP (\<lambda>ps.
     ifP (pk_is 0 False (Sym BRACKET_RPARENT)) (breakP ps)
         (bindP nextT (\<lambda>_.
          bindP (fn_param c isExtern isStatic isConstructor ps) (\<lambda>ps'.
          bindP (ifP (cur_is (Sym SYM_COMMA))
           (if fp_variadic ps'
            then createError SYNTAX_ERROR ''Variadic arguments should be the last argument!''
            else returnP ())
           (ifP (cur_is (Sym BRACKET_RPARENT)) (bindP prevT (\<lambda>_. returnP ()))
             (createError_cur SYNTAX_ERROR
               (''Expected a '' @ quoted '','' @ '' or a '' @ quoted '')'' @ '' but found '') '' instead''))) (\<lambda>_.
          continueP (ps'\<lparr>fp_count := fp_count ps' + 1\<rparr>)))))) no_params"

definition void_type :: node where
  "void_type = TypeRef ''void'' [] [] None"

definition fn_return_type :: "calls \<Rightarrow> bool \<Rightarrow> node P" where
  "fn_return_type c isConstructor = ifP isTypeValid
       (bindP ((if isConstructor then createError SYNTAX_ERROR (''Contructor can'' @ [SQUOTE] @ ''t have return types.'')
        else returnP ())) (\<lambda>_.
        c_type c))
     (returnP void_type)"

section \<open>Constructors\<close>

definition super_args :: "calls \<Rightarrow> bool \<Rightarrow> node list P" where
  "super_args c has_parent =
     (bindP ((if \<not> has_parent then createError SYNTAX_ERROR
        (''Cant call super on a class that doesn'' @ [SQUOTE] @ ''t extend from another class!'')
      else returnP ())) (\<lambda>_.
      bindP nextT (\<lambda>_.
      bindP (assert_tok (Sym BRACKET_LPARENT) (quoted ''('')) (\<lambda>_.
      bindP (loopP (\<lambda>superArgs. ifP (pk_is 0 False (Sym BRACKET_RPARENT)) (breakP superArgs)
         (bindP (c_expr c False) (\<lambda>expr.
          bindP nextT (\<lambda>_.
          ifP (cur_is (Sym SYM_COMMA)) (continueP (superArgs @ [expr]))
           (ifP (cur_is (Sym BRACKET_RPARENT)) (bindP prevT (\<lambda>_. breakP (superArgs @ [expr])))
             (createError_cur SYNTAX_ERROR
               (''Expected a '' @ quoted '','' @ '' or a '' @ quoted '')'' @ '' but found '') '' instead'')))))) []) (\<lambda>superArgs.
      bindP nextT (\<lambda>_.
      bindP (consume_tok (Sym BRACKET_RPARENT) (quoted '')'')) (\<lambda>_.
      bindP (whenP (cur_is (Sym SYM_COMMA))
       (bindP nextT (\<lambda>_.
        bindP (assert_tok IDENTIFIER ''an identifier'') (\<lambda>_.
        returnP ())))) (\<lambda>_.
      returnP superArgs))))))))"

text \<open>
  The initialisers of members. The map of the source is keyed by the address of the new node, so
  its test for duplicates never holds; here it is the list of the entries.
\<close>

definition init_args :: "calls \<Rightarrow> (node \<times> node) list P" where
  "init_args c = loopP (\<lambda>inits. ifP (cur_is IDENTIFIER)
       (bindP (parseIdentifier c False False) (\<lambda>name.
        bindP nextT (\<lambda>_.
        bindP (assert_tok (Sym BRACKET_LPARENT) (quoted ''('')) (\<lambda>_.
        bindP (c_expr c False) (\<lambda>expr.
        (let inits' = inits @ [(name, expr)] in
        bindP nextT (\<lambda>_.
        bindP (consume_tok (Sym BRACKET_RPARENT) (quoted '')'')) (\<lambda>_.
        ifP (cur_is (Sym SYM_COMMA))
           (bindP nextT (\<lambda>_.
            bindP (assert_tok IDENTIFIER ''an identifier'') (\<lambda>_.
            continueP inits')))
         (ifP (cur_is (Sym BRACKET_LCURLY)) (breakP inits')
           (createError_cur SYNTAX_ERROR
             (''Expected a '' @ quoted '','' @ '' or a '' @ quoted ''{'' @ '' but found '') '' instead''))))))))))
     (breakP inits)) []"

text \<open>The results: \<^verbatim>\<open>hasSuperArgs\<close>, the arguments of the parent's constructor, the initialisers.\<close>

definition constructor_header :: "calls \<Rightarrow> (bool \<times> node list \<times> (node \<times> node) list) P" where
  "constructor_header c =
     (bindP (getP m_current_class) (\<lambda>cls.
      bindP ((case cls of None \<Rightarrow> failP (Undefined ''null class'') | Some p \<Rightarrow> returnP p)) (\<lambda>has_parent.
      bindP (ifP (cur_is (Sym SYM_COLLON))
         (bindP nextT (\<lambda>_.
          bindP (ifP (cur_is (Kword KWORD_SUPER))
           (bindP (super_args c has_parent) (\<lambda>as. returnP (True, as))) (returnP (False, []))) (\<lambda>(hasSuper, superArgs).
          bindP (init_args c) (\<lambda>inits.
          returnP (hasSuper, superArgs, inits)))))
       (returnP (False, [], []))) (\<lambda>(hasSuper, superArgs, inits).
      bindP ((if has_parent \<and> \<not> hasSuper then createError SYNTAX_ERROR (''Expected a '' @ quoted ''super''
         @ '' call for constructors inside a class that extends form a type!'')
      else returnP ())) (\<lambda>_.
      returnP (hasSuper, superArgs, inits))))))"

section \<open>Bodies\<close>

datatype fn_body_kind = NoBody | NotImplemented | LLVMBody string "node list" | BlockBody node

text \<open>
  \<^verbatim>\<open>utils::getSubstringByRange\<close>: the offsets of two positions by walking over the text, and
  \<^verbatim>\<open>substr\<close>, whose count is unsigned.
\<close>

fun range_scan :: "string \<Rightarrow> int \<Rightarrow> int \<times> int \<Rightarrow> int \<times> int \<Rightarrow> int \<times> int \<Rightarrow> int \<times> int \<Rightarrow> int \<times> int"
where
  "range_scan [] i at start stop acc = acc"
| "range_scan (ch # cs) i at start stop acc =
     (let acc' = (if at = start then (i, snd acc) else acc) in
      if at = stop then (fst acc', i)
      else range_scan cs (i + 1) (if ch = NL then (fst at + 1, 1) else (fst at, snd at + 1)) start stop acc')"

definition getSubstringByRange :: "string \<Rightarrow> int \<times> int \<Rightarrow> int \<times> int \<Rightarrow> string" where
  "getSubstringByRange str start stop =
     (let (startPos, endPos) = range_scan str 0 (1, 1) start stop (0, 0);
          rest = drop (nat startPos) str
      in if endPos < startPos then rest else take (nat (endPos - startPos)) rest)"

text \<open>The tokens up to the closing brace, with the types mentioned in \<^verbatim>\<open>{= type}\<close>.\<close>

definition llvm_types :: "calls \<Rightarrow> node list P" where
  "llvm_types c = loopP (\<lambda>(depth, tys). if depth = 0 then breakP tys else
     (bindP nextT (\<lambda>_.
      ifP (cur_is (Sym BRACKET_LCURLY))
       (ifP (pk_is 0 False (Op OP_EQ))
           (bindP (next_by 1) (\<lambda>_.
            bindP (c_type c) (\<lambda>ty.
            bindP (assert_tok (Sym BRACKET_RCURLY) (quoted ''}'')) (\<lambda>_.
            continueP (depth, tys @ [ty])))))
         (continueP (depth + 1, tys)))
       (ifP (cur_is (Sym BRACKET_RCURLY)) (continueP (depth - 1, tys))
         (ifP (cur_is TK_EOF) (createError SYNTAX_ERROR ''Unterminated LLVM function block code!'')
           (continueP (depth, tys))))))) (1 :: nat, [])"

definition llvm_body :: "calls \<Rightarrow> fn_body_kind P" where
  "llvm_body c =
     (bindP (getP (\<lambda>s. get_pos (m_current s))) (\<lambda>startPos.
      bindP (llvm_types c) (\<lambda>tys.
      bindP (getP (\<lambda>s. get_pos (m_current s))) (\<lambda>endPos.
      bindP (getP m_source) (\<lambda>source.
      (let code = getSubstringByRange source startPos endPos in
      if code = [] then failP (StdException ''out_of_range'')
     else returnP (LLVMBody (drop 1 code) tys)))))))"

definition virtual_body :: "bool \<Rightarrow> fn_body_kind P" where
  "virtual_body isVirtual =
     (bindP nextT (\<lambda>_.
      ifP (cur_is VALUE_NUMBER)
         (bindP cur_string (\<lambda>number.
          bindP ((if number \<noteq> ''0''
          then createError SYNTAX_ERROR (''Expected a '' @ quoted ''0'' @ '' for the function body!'')
          else if \<not> isVirtual
          then createError SYNTAX_ERROR (''Function body can only be '' @ quoted ''0'' @ '' for virtual functions!'')
          else returnP ())) (\<lambda>_.
          bindP nextT (\<lambda>_.
          returnP NotImplemented))))
       (createError SYNTAX_ERROR ''Expected a number literal for the function body!'')))"

definition fn_body :: "calls \<Rightarrow> bool \<Rightarrow> bool \<Rightarrow> bool \<Rightarrow> bool \<Rightarrow> fn_body_kind P" where
  "fn_body c isExtern isVirtual isConstructor isLLVMFunction =
     (if isExtern then bindP (assert_tok (Sym SYM_SEMI_COLLON) (quoted '';'')) (\<lambda>_. returnP NoBody)
      else ifP (cur_is (Op OP_EQ)) (virtual_body isVirtual)
        (ifP (cur_is (Sym SYM_SEMI_COLLON))
          (if isConstructor
           then createError SYNTAX_ERROR (''Constructors cant be declared as extern!'')
           else returnP NoBody)
            (bindP (assert_tok (Sym BRACKET_LCURLY) (quoted ''{'')) (\<lambda>_.
             bindP ((if isLLVMFunction then llvm_body c else bindP (c_body c) (\<lambda>b. returnP (BlockBody b)))) (\<lambda>b.
             bindP (assert_tok (Sym BRACKET_RCURLY) (quoted ''}'')) (\<lambda>_.
             returnP b))))))"

section \<open>Assembling the node\<close>

text \<open>Operators without operands besides \<^verbatim>\<open>self\<close> become the unary ones.\<close>

definition unary_name :: "bool \<Rightarrow> fn_params \<Rightarrow> string \<Rightarrow> string res" where
  "unary_name isOp ps name =
     (if isOp \<and> (fp_arguments ps = [] \<or> length (fp_arguments ps) = 1 \<and> fp_self ps) then
        bindR (operatorID name) (\<lambda>op.
          if op = OT_MINUS then getOperatorMangle OT_UMINUS
          else if op = OT_PLUS then getOperatorMangle OT_UPLUS
          else Inr name)
      else Inr name)"

definition body_block :: "fn_body_kind \<Rightarrow> node option" where
  "body_block b = (case b of
      BlockBody n \<Rightarrow> Some n | NotImplemented \<Rightarrow> Some (Block no_attributes []) | _ \<Rightarrow> None)"

text \<open>
  The node of the kind that was parsed. A constructor without a body fails the assertion; one
  with a body of LLVM code would hold a null block, but a class passes no attributes to its
  constructors.
\<close>

definition fn_node :: "bool \<Rightarrow> bool \<Rightarrow> bool \<Rightarrow> string \<Rightarrow> bool \<times> node list \<times> (node \<times> node) list
    \<Rightarrow> fn_body_kind \<Rightarrow> node FunctionDefData \<Rightarrow> node res" where
  "fn_node isConstructor isExtern isLLVMFunction externName header b d =
     (if isConstructor then
        (case (body_block b, header) of
            (Some n, hasSuper, superArgs, inits) \<Rightarrow> Inr (ConstructorDef n superArgs inits hasSuper d)
          | (None, _) \<Rightarrow> (if b = NoBody then Inl AssertFail else Inl (Undefined ''null block'')))
      else if isExtern then Inr (ExternFnDef externName d)
      else if isLLVMFunction then
        (case b of LLVMBody code tys \<Rightarrow> Inr (LLVMFunction code tys d) | _ \<Rightarrow> Inr (LLVMFunction [] [] d))
      else (case body_block b of Some n \<Rightarrow> Inr (BodiedFunction n d) | None \<Rightarrow> Inr (FunctionDef d)))"

definition fn_attributes' ::
  "(Attributes \<times> StoreType) list \<Rightarrow> quals \<Rightarrow> fn_params \<Rightarrow> fn_body_kind \<Rightarrow> AttributeHolder" where
  "fn_attributes' attributes q ps b =
     (let a1 = (if q_override q then AList.update OVERRIDE [] attributes else attributes);
          a2 = (if fp_self ps then AList.update FIRST_ARG_IS_SELF [] a1 else a1);
          h1 = attribute_holder a2;
          h2 = (if q_unsafe q then addAttribute UNSAFE [] h1 else h1)
      in if b = NotImplemented then addAttribute NOT_IMPLEMENTED [] h2 else h2)"

section \<open>The routine\<close>

text \<open>The part before the name: qualifiers, the keyword of an operator, attributes.\<close>

definition fn_prefix :: "bool \<Rightarrow> bool \<Rightarrow> bool \<Rightarrow> (quals \<times> bool \<times> (Attributes \<times> StoreType) list) P" where
  "fn_prefix isConstructor isOp isLambda =
     (bindP ((if \<not> isConstructor \<and> \<not> isLambda then bindP nextT (\<lambda>_. returnP ()) else returnP ())) (\<lambda>_.
      bindP (getP (\<lambda>s. fetch_attrs s (- 3) no_quals)) (\<lambda>q.
      bindP ((if isOp then bindP (consume_tok (Kword KWORD_FUNC) (quoted ''func'' @ '' keyword'')) (\<lambda>_. returnP ())
      else returnP ())) (\<lambda>_.
      bindP ((if q_override q \<and> q_static q
      then createError SYNTAX_ERROR (''Static functions can'' @ [SQUOTE] @ ''t be overriden!'')
      else returnP ())) (\<lambda>_.
      bindP (getP (\<lambda>s. ''llvm_function'' \<in> fst ` set (m_pending_attributes s))) (\<lambda>isLLVMFunction.
      bindP (verifyAttributes fn_parseFn) (\<lambda>attributes.
      returnP (q, isLLVMFunction, attributes))))))))"

definition fn_generics :: "calls \<Rightarrow> bool \<Rightarrow> node Param list option P" where
  "fn_generics c isLambda = ifP (cur_is (Op OP_LT))
       (bindP ((if isLambda then createError SYNTAX_ERROR ''Cant define a lambda with generics'' else returnP ())) (\<lambda>_.
        bindP (parseGenericParams c) (\<lambda>g.
        returnP (Some g))))
     (returnP None)"

text \<open>From the generics to the return type.\<close>

definition fn_signature ::
  "calls \<Rightarrow> bool \<Rightarrow> bool \<Rightarrow> quals \<Rightarrow> (node Param list option \<times> fn_params \<times> node) P" where
  "fn_signature c isConstructor isLambda q =
     (bindP nextT (\<lambda>_.
      bindP (fn_generics c isLambda) (\<lambda>generics.
      bindP (assert_tok (Sym BRACKET_LPARENT) (quoted ''('')) (\<lambda>_.
      bindP (fn_param_list c (q_extern q) (q_static q) isConstructor) (\<lambda>ps.
      bindP nextT (\<lambda>_.
      bindP (consume_tok (Sym BRACKET_RPARENT) (quoted '')'')) (\<lambda>_.
      bindP (fn_return_type c isConstructor) (\<lambda>ret.
      returnP (generics, ps, ret)))))))))"

definition parseFunction :: "calls \<Rightarrow> bool \<Rightarrow> bool \<Rightarrow> bool \<Rightarrow> bool \<Rightarrow> node P" where
  "parseFunction c isConstructor isOp isLambda allowDecl =
     (bindP cur (\<lambda>t.
      bindP (assertP (tok_is (Kword KWORD_FUNC) t \<and> \<not> isConstructor \<and> \<not> isOp
       \<or> tok_is IDENTIFIER t \<and> isConstructor \<and> \<not> isOp \<or> isOp)) (\<lambda>_.
      bindP parseDocstring (\<lambda>comment.
      bindP (fn_prefix isConstructor isOp isLambda) (\<lambda>(q, isLLVMFunction, attributes).
      bindP (fn_names isOp isLambda (q_extern q)) (\<lambda>(name, externName).
      bindP (fn_signature c isConstructor isLambda q) (\<lambda>(generics, ps, ret).
      bindP ((if isConstructor then constructor_header c else returnP (False, [], []))) (\<lambda>header.
      bindP (fn_body c (q_extern q) (q_virtual q) isConstructor isLLVMFunction) (\<lambda>b.
      bindP ((if b = NoBody \<and> isLLVMFunction
      then createError SYNTAX_ERROR ''LLVM defined functions must have a body!'' else returnP ())) (\<lambda>_.
      bindP (liftP (unary_name isOp ps name)) (\<lambda>name'.
      liftP (fn_node isConstructor (q_extern q) isLLVMFunction externName header b
       (FunctionDefData name' (fromInt (q_public q)) (fp_arguments ps) (Some ret) (fp_variadic ps)
         (q_static q) (q_virtual q) (q_mutable q \<or> isConstructor) generics comment
         (fn_attributes' attributes q ps b))))))))))))))"

end
