(* ===== verification/Parser_Decls.thy ===== *)
theory Parser_Decls
  imports Parser_Function
begin

text \<open>
  Declarations: \<^verbatim>\<open>parseImportStatement.cc\<close>, \<^verbatim>\<open>parseNamespace.cc\<close>, \<^verbatim>\<open>parseMacro.cc\<close>,
  \<^verbatim>\<open>parseStructure.cc\<close>, \<^verbatim>\<open>parseEnum.cc\<close>, \<^verbatim>\<open>parseClass.cc\<close> and \<^verbatim>\<open>parseGlobal.cc\<close> of
  \<^verbatim>\<open>src/parser\<close>.
\<close>

section \<open>Imports\<close>

definition import_parseFn :: "string \<Rightarrow> Attributes" where
  "import_parseFn attr =
     (if attr = ''use_macro'' \<or> attr = ''use_macros'' then MACROS else Attributes.INVALID)"

text \<open>The names between braces, each with its alias.\<close>

definition import_vars :: "(string \<times> string) list P" where
  "import_vars = loopP (\<lambda>vars. ifP (cur_is (Sym BRACKET_RCURLY)) (breakP vars)
     (ifP (cur_is IDENTIFIER)
         (bindP cur_string (\<lambda>name.
          bindP nextT (\<lambda>_.
          bindP (ifP (cur_is (Kword KWORD_AS))
             (bindP nextT (\<lambda>_.
              bindP (ident_string ''an identifier for variable alias'') (\<lambda>a.
              bindP nextT (\<lambda>_.
              returnP a))))
           (returnP name)) (\<lambda>alias.
          (let vars' = vars @ [(name, alias)] in
          ifP (cur_is (Sym SYM_COMMA)) (bindP nextT (\<lambda>_. continueP vars')) (breakP vars'))))))
       (createError SYNTAX_ERROR ''an identifier for variable import''))) []"

text \<open>The segments after the second one; a list of names or any other token ends the path.\<close>

definition import_path :: "string list \<Rightarrow> (string list \<times> (string \<times> string) list) P" where
  "import_path = loopP (\<lambda>paths. ifP (cur_is (Sym SYM_COLCOL))
       (bindP nextT (\<lambda>_.
        ifP (cur_is IDENTIFIER)
         (bindP cur_string (\<lambda>x. bindP nextT (\<lambda>_. continueP (paths @ [x]))))
         (ifP (andP (cur_is (Sym SYM_DOT)) (pk_is 0 False (Sym SYM_DOT)))
           (bindP nextT (\<lambda>_. continueP (paths @ [''..''])))
           (ifP (cur_is (Sym BRACKET_LCURLY))
               (bindP nextT (\<lambda>_.
                bindP import_vars (\<lambda>vars.
                bindP (consume_tok (Sym BRACKET_RCURLY) (quoted ''}'')) (\<lambda>_.
                breakP (paths, vars)))))
             (bindP prevT (\<lambda>_. breakP (paths, [])))))))
     (breakP (paths, [])))"

definition parseImportStatement :: "node P" where
  "parseImportStatement =
     (bindP (cur_is (Kword KWORD_IMPORT)) (\<lambda>kw.
      bindP (assertP kw) (\<lambda>_.
      bindP nextT (\<lambda>_.
      bindP (verifyAttributes import_parseFn) (\<lambda>attributes.
      bindP (ident_string ''an identifier for package reference'') (\<lambda>package.
      bindP nextT (\<lambda>_.
      bindP (ifP (cur_is (Sym SYM_COLCOL))
         (bindP nextT (\<lambda>_.
          bindP (ident_string ''an identifier'') (\<lambda>x.
          bindP nextT (\<lambda>_.
          import_path [x]))))
       (returnP ([], []))) (\<lambda>(paths, vars).
      bindP (ifP (cur_is (Kword KWORD_AS))
         (bindP nextT (\<lambda>_.
          bindP (ident_string ''an identifier for export name'') (\<lambda>e.
          bindP nextT (\<lambda>_.
          returnP e))))
       (returnP [])) (\<lambda>exportName.
      bindP prevT (\<lambda>_.
      returnP (ImportStmt paths package vars exportName (attribute_holder attributes))))))))))))"

section \<open>Namespaces\<close>

definition parseNamespace :: "calls \<Rightarrow> node P" where
  "parseNamespace c =
     (bindP (cur_is (Kword KWORD_NAMESPACE)) (\<lambda>kw.
      bindP (assertP kw) (\<lambda>_.
      bindP parseDocstring (\<lambda>comment.
      bindP (verifyAttributes no_parseFn) (\<lambda>attributes.
      bindP nextT (\<lambda>_.
      bindP (ident_string ''an identifier for namespace'') (\<lambda>name.
      bindP nextT (\<lambda>_.
      bindP (consume_tok (Sym BRACKET_LCURLY) (quoted ''{'')) (\<lambda>_.
      bindP (c_global c (Sym BRACKET_RCURLY)) (\<lambda>body.
      bindP (assert_tok (Sym BRACKET_RCURLY) (quoted ''}'')) (\<lambda>_.
      returnP (Namespace name body comment (attribute_holder attributes)))))))))))))"

section \<open>Macros\<close>

definition macro_parseFn :: "string \<Rightarrow> Attributes" where
  "macro_parseFn attr = (if attr = ''export'' then EXPORT else Attributes.INVALID)"

text \<open>The kind of a constant argument, in square brackets after \<^verbatim>\<open>const\<close>.\<close>

definition macro_const :: "ArguementType P" where
  "macro_const =
     (bindP nextT (\<lambda>_.
      ifP (cur_is (Sym BRACKET_LSQUARED))
         (bindP nextT (\<lambda>_.
          bindP (ident_string ''an identifier for constant value'') (\<lambda>val.
          bindP nextT (\<lambda>_.
          bindP (assert_tok (Sym BRACKET_RSQUARED) (quoted '']'')) (\<lambda>_.
          if val = ''str'' then returnP MA_CONSTANT_STRING
         else if val = ''num'' then returnP MA_CONSTANT_NUMBER
         else if val = ''chr'' then returnP MA_CONSTANT_CHAR
         else createError SYNTAX_ERROR (''Expected '' @ quoted ''str'' @ '', '' @ quoted ''num'' @ '', or ''
           @ quoted ''chr'' @ '' for constant type''))))))
       (returnP MA_CONSTANT)))"

definition macro_arg_type :: "ArguementType P" where
  "macro_arg_type =
     (bindP cur_string (\<lambda>ty.
      if ty = ''expr'' then returnP MA_EXPRESSION
     else if ty = ''type'' then returnP MA_TYPE
     else if ty = ''const'' then macro_const
     else if ty = ''stmt'' then returnP MA_STATEMENT
     else createError SYNTAX_ERROR
       (''Expected '' @ quoted ''expr'' @ '' or '' @ quoted ''stmt'' @ '' for macro arguement type'')))"

definition macro_params :: "calls \<Rightarrow> (string \<times> ArguementType \<times> node option) list P" where
  "macro_params c = loopP (\<lambda>args. ifP (cur_is IDENTIFIER)
       (bindP cur_string (\<lambda>name.
        bindP nextT (\<lambda>_.
        bindP (consume_tok (Sym SYM_COLLON) (quoted '':'')) (\<lambda>_.
        bindP macro_arg_type (\<lambda>argType.
        bindP (ifP (pk_is 0 False (Op OP_EQ))
           (bindP nextT (\<lambda>_.
            bindP peekT (\<lambda>pk.
            bindP (c_stmt c pk) (\<lambda>d.
            returnP (Some d)))))
         (returnP None)) (\<lambda>defaultArg.
        (let args' = args @ [(name, argType, defaultArg)] in
        bindP nextT (\<lambda>_.
        ifP (cur_is (Sym SYM_COMMA)) (bindP nextT (\<lambda>_. continueP args')) (breakP args')))))))))
     (breakP args)) []"

definition parseMacro :: "calls \<Rightarrow> node P" where
  "parseMacro c =
     (bindP (cur_is (Kword KWORD_MACRO)) (\<lambda>kw.
      bindP (assertP kw) (\<lambda>_.
      bindP parseDocstring (\<lambda>comment.
      bindP nextT (\<lambda>_.
      bindP (verifyAttributes macro_parseFn) (\<lambda>attributes.
      bindP (ident_string ''an identifier for macro name'') (\<lambda>name.
      bindP nextT (\<lambda>_.
      bindP (consume_tok (Sym BRACKET_LPARENT) (quoted ''('')) (\<lambda>_.
      bindP (macro_params c) (\<lambda>args.
      bindP (consume_tok (Sym BRACKET_RPARENT) (quoted '')'')) (\<lambda>_.
      ifP (cur_is (Op OP_EQ))
         (bindP (c_expr c False) (\<lambda>expr.
          returnP (Macro name args (Block no_attributes [expr]) False (attribute_holder attributes) comment)))
         (bindP (assert_tok (Sym BRACKET_LCURLY) (quoted ''{'')) (\<lambda>_.
          bindP (c_body c) (\<lambda>body.
          returnP (Macro name args body True (attribute_holder attributes) comment)))))))))))))))"

section \<open>Structures and enumerations\<close>

definition set_privacy :: "Privacy \<Rightarrow> node \<Rightarrow> node" where
  "set_privacy p n =
     (let set_fn = (\<lambda>d. case d of FunctionDefData x _ as r v s vt m g cm a \<Rightarrow>
            FunctionDefData x p as r v s vt m g cm a)
      in case n of
         VariableDecl x v m ty k e _ cm a \<Rightarrow> VariableDecl x v m ty k e p cm a
       | TypeAlias x ty g _ cm \<Rightarrow> TypeAlias x ty g p cm
       | DefinedTypeDef x fs vs ts ext k is h g _ cm a \<Rightarrow> DefinedTypeDef x fs vs ts ext k is h g p cm a
       | EnumTypeDef x fs ms is g _ cm a \<Rightarrow> EnumTypeDef x fs ms is g p cm a
       | FunctionDef d \<Rightarrow> FunctionDef (set_fn d)
       | ExternFnDef x d \<Rightarrow> ExternFnDef x (set_fn d)
       | BodiedFunction b d \<Rightarrow> BodiedFunction b (set_fn d)
       | ConstructorDef b ss is h d \<Rightarrow> ConstructorDef b ss is h (set_fn d)
       | LLVMFunction x ts d \<Rightarrow> LLVMFunction x ts (set_fn d)
       | _ \<Rightarrow> n)"

definition has_value :: "node \<Rightarrow> bool" where
  "has_value n = (case n of VariableDecl _ (Some _) _ _ _ _ _ _ _ \<Rightarrow> True | _ \<Rightarrow> False)"

text \<open>Generics after the name; the current token is the last of them afterwards.\<close>

definition type_generics :: "calls \<Rightarrow> node Param list option P" where
  "type_generics c = ifP (pk_is 0 False (Op OP_LT))
       (bindP nextT (\<lambda>_.
        bindP (parseGenericParams c) (\<lambda>generics.
        bindP prevT (\<lambda>_.
        returnP (Some generics)))))
     (returnP None)"

definition unexpected_member :: "'a P" where
  "unexpected_member = createError_cur SYNTAX_ERROR ''Expected a valid member declaration but found '' []"

definition struct_members :: "calls \<Rightarrow> node list P" where
  "struct_members c = loopP (\<lambda>members.
     ifP (orP (cur_is (Kword KWORD_PUBLIC)) (cur_is (Kword KWORD_PRIVATE)))
       (createError SYNTAX_ERROR ''Cannot declare a member as public or private inside a structure'')
       (ifP (cur_is (Kword KWORD_VAR))
           (bindP (parseVariable c) (\<lambda>member.
            bindP (consume_tok (Sym SYM_SEMI_COLLON) (quoted '';'')) (\<lambda>_.
            bindP ((if has_value member
            then createError SYNTAX_ERROR ''Cannot declare a member with a value inside a structure''
            else returnP ())) (\<lambda>_.
            continueP (members @ [set_privacy PUBLIC member])))))
         (ifP (cur_is (Sym BRACKET_RCURLY)) (breakP members) unexpected_member))) []"

text \<open>A structure always counts as generic: its list of generics is set even when there is none.\<close>

definition parseStructure :: "calls \<Rightarrow> node P" where
  "parseStructure c =
     (bindP (cur_is (Kword KWORD_STRUCT)) (\<lambda>kw.
      bindP (assertP kw) (\<lambda>_.
      bindP parseDocstring (\<lambda>comment.
      bindP nextT (\<lambda>_.
      bindP visible_before (\<lambda>isPublic.
      bindP (verifyAttributes no_parseFn) (\<lambda>attributes.
      bindP (ident_string ''structure identifier'') (\<lambda>name.
      bindP (type_generics c) (\<lambda>generics.
      bindP nextT (\<lambda>_.
      bindP (assert_tok (Sym BRACKET_LCURLY) (quoted ''{'')) (\<lambda>_.
      bindP nextT (\<lambda>_.
      bindP (struct_members c) (\<lambda>members.
      bindP (assert_tok (Sym BRACKET_RCURLY) (quoted ''}'')) (\<lambda>_.
      returnP (DefinedTypeDef name [] members [] None DT_STRUCT [] False
       (Some (case generics of Some g \<Rightarrow> g | None \<Rightarrow> [])) (fromInt isPublic) comment
       (attribute_holder attributes))))))))))))))))"

definition enum_fields :: "calls \<Rightarrow> node list P" where
  "enum_fields c = loopP (\<lambda>fields.
     (bindP nextT (\<lambda>_.
      bindP (c_type c) (\<lambda>ty.
      ifP (notP (cur_is (Sym SYM_COMMA))) (breakP (fields @ [ty])) (continueP (fields @ [ty])))))) []"

definition enum_members :: "calls \<Rightarrow> (string \<times> node list) list P" where
  "enum_members c = loopP (\<lambda>members. ifP (cur_is IDENTIFIER)
       (bindP cur_string (\<lambda>name.
        bindP (ifP (pk_is 0 False (Sym BRACKET_LPARENT))
           (bindP nextT (\<lambda>_.
            bindP (enum_fields c) (\<lambda>fields.
            bindP (assert_tok (Sym BRACKET_RPARENT) (quoted '')'')) (\<lambda>_.
            returnP fields))))
         (returnP [])) (\<lambda>fields.
        bindP nextT (\<lambda>_.
        bindP (whenP (notP (cur_is (Sym BRACKET_RCURLY)))
         (bindP (assert_tok (Sym SYM_COMMA) (quoted '','' @ '' or '' @ quoted ''}'')) (\<lambda>_.
          bindP nextT (\<lambda>_.
          returnP ())))) (\<lambda>_.
        continueP (members @ [(name, fields)]))))))
     (ifP (cur_is (Sym BRACKET_RCURLY)) (breakP members) unexpected_member)) []"

definition parseEnum :: "calls \<Rightarrow> node P" where
  "parseEnum c =
     (bindP (cur_is (Kword KWORD_ENUM)) (\<lambda>kw.
      bindP (assertP kw) (\<lambda>_.
      bindP parseDocstring (\<lambda>comment.
      bindP nextT (\<lambda>_.
      bindP visible_before (\<lambda>isPublic.
      bindP (verifyAttributes no_parseFn) (\<lambda>attributes.
      bindP (ident_string ''enum identifier'') (\<lambda>name.
      bindP (type_generics c) (\<lambda>generics.
      bindP nextT (\<lambda>_.
      bindP (assert_tok (Sym BRACKET_LCURLY) (quoted ''{'')) (\<lambda>_.
      bindP nextT (\<lambda>_.
      bindP (enum_members c) (\<lambda>members.
      bindP (assert_tok (Sym BRACKET_RCURLY) (quoted ''}'')) (\<lambda>_.
      returnP (EnumTypeDef name members [] [] generics (fromInt isPublic) comment
       (attribute_holder attributes))))))))))))))))"

section \<open>Classes and interfaces\<close>

definition class_parseFn :: "string \<Rightarrow> Attributes" where
  "class_parseFn attr =
     (if attr = ''__internal__'' then BUILTIN else if attr = ''no_constructor'' then NO_CONSTRUCTOR
      else Attributes.INVALID)"

text \<open>What is fixed for the body of a class: its name, \<^verbatim>\<open>isInterface\<close>, \<^verbatim>\<open>extends\<close>.\<close>

record class_info =
  ci_name :: string
  ci_interface :: bool
  ci_extends :: bool

text \<open>What the members change.\<close>

record class_acc =
  ca_private :: bool
  ca_hasConstructor :: bool
  ca_functions :: "node list"
  ca_variables :: "node list"
  ca_childTypes :: "node list"

definition new_class_acc :: class_acc where
  "new_class_acc = \<lparr>ca_private = True, ca_hasConstructor = False, ca_functions = [],
     ca_variables = [], ca_childTypes = []\<rparr>"

abbreviation class_privacy :: "class_acc \<Rightarrow> Privacy" where
  "class_privacy a \<equiv> fromInt (\<not> ca_private a)"

definition add_function :: "class_acc \<Rightarrow> node \<Rightarrow> class_acc" where
  "add_function a f = a\<lparr>ca_functions := ca_functions a @ [set_privacy (class_privacy a) f]\<rparr>"

definition add_variable :: "class_acc \<Rightarrow> node \<Rightarrow> class_acc" where
  "add_variable a v = a\<lparr>ca_variables := ca_variables a @ [set_privacy (class_privacy a) v]\<rparr>"

definition add_child :: "class_acc \<Rightarrow> node \<Rightarrow> class_acc" where
  "add_child a t = a\<lparr>ca_childTypes := ca_childTypes a @ [set_privacy (class_privacy a) t]\<rparr>"

text \<open>A member that neither an extension nor an interface may have; the order differs by member.\<close>

definition no_extension :: "class_info \<Rightarrow> string \<Rightarrow> unit P" where
  "no_extension ci what = (if ci_extends ci
     then createError SYNTAX_ERROR (''Classes that extend other types cant have *new* '' @ what @ ''!'')
     else returnP ())"

definition no_interface :: "class_info \<Rightarrow> string \<Rightarrow> unit P" where
  "no_interface ci what = (if ci_interface ci
     then createError SYNTAX_ERROR (''Interfaces can'' @ [SQUOTE] @ ''t have '' @ what @ ''!'')
     else returnP ())"

text \<open>A qualifier of a member: only the next token is looked at.\<close>

definition qualifier :: "Keyword list \<Rightarrow> string \<Rightarrow> unit P" where
  "qualifier kws msg =
     (bindP peekT (\<lambda>pk.
      if tok_type pk \<in> Kword ` set kws then returnP ()
     else bindP nextT (\<lambda>_. createError SYNTAX_ERROR msg)))"

definition static_message :: string where
  "static_message = ''expected keyword '' @ dquoted ''func'' @ '', '' @ dquoted ''override'' @ '', ''
     @ dquoted ''let'' @ '', '' @ dquoted ''operator'' @ '', '' @ dquoted ''unsafe'' @ '' or a constructor ''
     @ ''declaration after static member''"

text \<open>
  The macro \<^verbatim>\<open>IS_CONSTRUCTOR(tk)\<close> has no brackets, so its negation only negates the first test.
\<close>

definition class_static :: "string \<Rightarrow> unit P" where
  "class_static name =
     (bindP peekT (\<lambda>pk.
      if tok_is (Kword KWORD_MUTABLE) pk
     then bindP nextT (\<lambda>_. createError ARGUMENT_ERROR ''Static members cant be mutable!'')
     else if tok_type pk \<notin> {Kword KWORD_FUNC, Kword KWORD_OPERATOR, Kword KWORD_UNSAFE}
       \<and> (\<not> tok_is IDENTIFIER pk \<and> tok_value pk = name) \<and> \<not> tok_is (Kword KWORD_OVERRIDE) pk
     then bindP nextT (\<lambda>_. createError SYNTAX_ERROR static_message)
     else returnP ()))"

definition class_virtual :: "class_info \<Rightarrow> unit P" where
  "class_virtual ci =
     (bindP peekT (\<lambda>pk.
      if tok_is (Kword KWORD_STATIC) pk
     then bindP nextT (\<lambda>_. createError ARGUMENT_ERROR (''Virtual methods cant be static!''))
     else if ci_extends ci then bindP nextT (\<lambda>_. no_extension ci ''virtual methods'')
     else qualifier [KWORD_FUNC, KWORD_MUTABLE]
       (''Expected keyword '' @ dquoted ''func'' @ '' or '' @ dquoted ''mut'' @ '' after virtual declaration!'')))"

definition class_qualifier :: "class_info \<Rightarrow> Keyword \<Rightarrow> unit P option" where
  "class_qualifier ci k =
     (if k = KWORD_STATIC then Some (class_static (ci_name ci))
      else if k = KWORD_OVERRIDE then Some (qualifier
        [KWORD_FUNC, KWORD_OPERATOR, KWORD_UNSAFE, KWORD_MUTABLE, KWORD_VIRTUAL]
        (''expected keyword '' @ dquoted ''func'' @ '' or '' @ dquoted ''operator'' @ '', ''
          @ dquoted ''unsafe'' @ '', '' @ dquoted ''mut'' @ '' or '' @ dquoted ''virtual''
          @ '' after override declaration!''))
      else if k = KWORD_UNSAFE then Some (qualifier
        [KWORD_FUNC, KWORD_OPERATOR, KWORD_STATIC, KWORD_MUTABLE]
        (''expected keyword '' @ dquoted ''func'' @ '' or '' @ dquoted ''operator'' @ '', ''
          @ dquoted ''static'' @ '' or '' @ dquoted ''mut'' @ '' after unsafe declaration!''))
      else if k = KWORD_MUTABLE then Some (qualifier
        [KWORD_FUNC, KWORD_OPERATOR, KWORD_UNSAFE, KWORD_OVERRIDE]
        (''expected keyword '' @ dquoted ''func'' @ '', '' @ dquoted ''unsafe'' @ '' or ''
          @ dquoted ''operator'' @ '' after mutable declaration!''))
      else if k = KWORD_VIRTUAL then Some (class_virtual ci)
      else None)"

definition class_section :: "string \<Rightarrow> bool \<Rightarrow> class_acc \<Rightarrow> class_acc P" where
  "class_section context priv a =
     (bindP (assertNoAttributes context) (\<lambda>_.
      bindP nextT (\<lambda>_.
      bindP (assert_tok (Sym SYM_COLLON) (quoted '':'')) (\<lambda>_.
      returnP (a\<lparr>ca_private := priv\<rparr>)))))"

definition class_constant :: "calls \<Rightarrow> class_info \<Rightarrow> class_acc \<Rightarrow> class_acc P" where
  "class_constant c ci a =
     (bindP (assertNoAttributes ''before const keyword'') (\<lambda>_.
      bindP (no_interface ci ''constants'') (\<lambda>_.
      bindP (no_extension ci ''constants'') (\<lambda>_.
      bindP (parseConstant c) (\<lambda>var.
      bindP ((if \<not> has_value var then createError SYNTAX_ERROR ''expected a value for constant declaration!''
      else returnP ())) (\<lambda>_.
      bindP (assert_tok (Sym SYM_SEMI_COLLON) (''a '' @ quoted '';'')) (\<lambda>_.
      returnP (add_variable a var))))))))"

definition class_variable :: "calls \<Rightarrow> class_info \<Rightarrow> class_acc \<Rightarrow> class_acc P" where
  "class_variable c ci a =
     (bindP (assertNoAttributes ''a variable'') (\<lambda>_.
      bindP (parseVariable c) (\<lambda>var.
      bindP (assert_tok (Sym SYM_SEMI_COLLON) (''a '' @ quoted '';'')) (\<lambda>_.
      bindP (no_extension ci ''variables'') (\<lambda>_.
      returnP (add_variable a var))))))"

definition class_alias :: "calls \<Rightarrow> class_info \<Rightarrow> class_acc \<Rightarrow> class_acc P" where
  "class_alias c ci a =
     (bindP (assertNoAttributes ''a type alias'') (\<lambda>_.
      bindP (no_extension ci ''type aliases'') (\<lambda>_.
      bindP (no_interface ci ''type aliases'') (\<lambda>_.
      bindP (parseTypeAlias c) (\<lambda>typeDef.
      bindP (assert_tok (Sym SYM_SEMI_COLLON) (''a '' @ quoted '';'')) (\<lambda>_.
      returnP (add_child a typeDef)))))))"

definition class_child :: "class_info \<Rightarrow> string \<Rightarrow> node P \<Rightarrow> class_acc \<Rightarrow> class_acc P" where
  "class_child ci what m a =
     (bindP (no_extension ci what) (\<lambda>_.
      bindP (no_interface ci what) (\<lambda>_.
      bindP m (\<lambda>t.
      returnP (add_child a t)))))"

text \<open>A constructor is renamed to the mangled constructor operator and is static.\<close>

definition constructor_fn :: "string \<Rightarrow> node \<Rightarrow> node" where
  "constructor_fn name f = (case f of
      ConstructorDef b ss is h (FunctionDefData _ p as r v _ vt m g cm at) \<Rightarrow>
        ConstructorDef b ss is h (FunctionDefData name p as r v True vt m g cm at)
    | _ \<Rightarrow> f)"

definition class_constructor :: "calls \<Rightarrow> class_info \<Rightarrow> class_acc \<Rightarrow> class_acc P" where
  "class_constructor c ci a =
     (bindP (no_interface ci ''constructors'') (\<lambda>_.
      bindP (no_extension ci ''constructors'') (\<lambda>_.
      bindP (c_function c True False False False) (\<lambda>func.
      bindP (liftP (getOperatorMangle OT_CONSTRUCTOR)) (\<lambda>name.
      returnP (add_function (a\<lparr>ca_hasConstructor := True\<rparr>) (constructor_fn name func)))))))"

text \<open>One member; \<open>Inr\<close> is the closing brace.\<close>

definition class_keyword :: "calls \<Rightarrow> class_info \<Rightarrow> class_acc \<Rightarrow> Keyword \<Rightarrow> class_acc P option" where
  "class_keyword c ci a k =
     (if k = KWORD_PRIVATE then Some (class_section ''before private keyword'' True a)
      else if k = KWORD_PUBLIC then Some (class_section ''before public keyword'' False a)
      else if k = KWORD_CONST then Some (class_constant c ci a)
      else if k = KWORD_ENUM then Some (class_child ci ''enums'' (parseEnum c) a)
      else if k = KWORD_FUNC
      then Some (bindP (c_function c False False False (ci_interface ci)) (\<lambda>f. returnP (add_function a f)))
      else if k = KWORD_OPERATOR
      then Some (bindP (c_function c False True False False) (\<lambda>f. returnP (add_function a f)))
      else if k = KWORD_VAR then Some (class_variable c ci a)
      else if k = KWORD_TYPEDEF then Some (class_alias c ci a)
      else if k = KWORD_CLASS \<or> k = KWORD_INTER then Some (class_child ci ''classes'' (c_class c) a)
      else if k = KWORD_STRUCT then Some (class_child ci ''structs'' (parseStructure c) a)
      else case class_qualifier ci k of
          Some m \<Rightarrow> Some (bindP m (\<lambda>_. returnP a))
        | None \<Rightarrow> None)"

definition unexpected_in_class :: "'a P" where
  "unexpected_in_class = bindP cur_string (\<lambda>t. createError SYNTAX_ERROR
     (''Unexpected token ('' @ quoted t @ '') found while parsing class body''))"

definition class_identifier :: "calls \<Rightarrow> class_info \<Rightarrow> class_acc \<Rightarrow> class_acc P" where
  "class_identifier c ci a =
     (bindP (assertNoAttributes ''before identifier'') (\<lambda>_.
      bindP cur (\<lambda>t.
      if tok_value t = ci_name ci then class_constructor c ci a else unexpected_in_class)))"

definition class_member :: "calls \<Rightarrow> class_info \<Rightarrow> class_acc \<Rightarrow> (class_acc + class_acc) P" where
  "class_member c ci a =
     (bindP nextT (\<lambda>t.
      case tok_type t of
       Kword k \<Rightarrow> (case class_keyword c ci a k of
           Some m \<Rightarrow> bindP m continueP | None \<Rightarrow> unexpected_in_class)
     | Sym SYM_AT \<Rightarrow> bindP parseAttributes (\<lambda>_. continueP a)
     | Sym BRACKET_RCURLY \<Rightarrow> bindP (assertNoAttributes (''before '' @ quoted ''}'')) (\<lambda>_. breakP a)
     | IDENTIFIER \<Rightarrow> bindP (class_identifier c ci a) continueP
     | _ \<Rightarrow> unexpected_in_class))"

text \<open>The members, with the class as \<^verbatim>\<open>m_current_class\<close>, which is restored at the brace.\<close>

definition class_body :: "calls \<Rightarrow> class_info \<Rightarrow> bool \<Rightarrow> class_acc P" where
  "class_body c ci has_parent =
     (bindP (getP m_current_class) (\<lambda>classBackup.
      bindP (updateP (\<lambda>s. s\<lparr>m_current_class := Some has_parent\<rparr>)) (\<lambda>_.
      bindP (loopP (class_member c ci) new_class_acc) (\<lambda>a.
      bindP (updateP (\<lambda>s. s\<lparr>m_current_class := classBackup\<rparr>)) (\<lambda>_.
      returnP a)))))"

definition class_name :: "string P" where
  "class_name = ifP (cur_is (Op OP_MUL))
       (bindP nextT (\<lambda>_.
        ifP (cur_is (Kword KWORD_MUTABLE)) (returnP ''$mut-pointer'')
         (bindP (assert_tok (Kword KWORD_CONST) (quoted ''const'' @ '' or '' @ quoted ''mut''))
           (\<lambda>_. returnP ''$const-pointer''))))
     (ident_string ''class identifier'')"

definition class_impls :: "calls \<Rightarrow> node list P" where
  "class_impls c = ifP (cur_is (Kword KWORD_IMPLEMENTS))
       (bindP nextT (\<lambda>_.
        loopP (\<lambda>impls.
         (bindP (c_type c) (\<lambda>ty.
          ifP (cur_is (Sym SYM_COMMA)) (bindP nextT (\<lambda>_. continueP (impls @ [ty])))
           (breakP (impls @ [ty]))))) []))
     (returnP [])"

text \<open>The names of built in classes.\<close>

definition builtin_name :: "(Attributes \<times> StoreType) list \<Rightarrow> string \<Rightarrow> string P" where
  "builtin_name attributes name =
     (if \<not> hasAttribute (attribute_holder attributes) BUILTIN then returnP name
      else if name = ''IntegerImpl'' then returnP ''$integer-impl''
      else if name = ''FunctionImpl'' then returnP ''$function-impl''
      else if name \<noteq> ''$const-pointer'' \<and> name \<noteq> ''$mut-pointer''
      then createError ARGUMENT_ERROR (''Unknown builtin class '' @ quoted name)
      else returnP name)"

definition class_parent :: "calls \<Rightarrow> node option P" where
  "class_parent c = ifP (cur_is (Kword KWORD_EXTENDS))
       (bindP nextT (\<lambda>_.
        bindP throwIfNotType (\<lambda>_.
        bindP (c_type c) (\<lambda>ty.
        returnP (Some ty)))))
     (returnP None)"

definition parseClass :: "calls \<Rightarrow> node P" where
  "parseClass c =
     (bindP cur (\<lambda>kw.
      (let isInterface = tok_is (Kword KWORD_INTER) kw in
      bindP (assertP (tok_is (Kword KWORD_CLASS) kw \<or> isInterface)) (\<lambda>_.
      bindP parseDocstring (\<lambda>comment.
      bindP nextT (\<lambda>_.
      bindP visible_before (\<lambda>isPublic.
      bindP (verifyAttributes class_parseFn) (\<lambda>attrs.
      bindP (cur_is (Kword KWORD_EXTENDS)) (\<lambda>extends.
      bindP (whenP (returnP extends) (bindP nextT (\<lambda>_. returnP ()))) (\<lambda>_.
      (let attributes = (if extends then AList.update CLASS_EXTENDS [] attrs else attrs) in
      bindP class_name (\<lambda>name.
      bindP (type_generics c) (\<lambda>generics.
      bindP nextT (\<lambda>_.
      bindP (class_parent c) (\<lambda>parentClass.
      bindP (class_impls c) (\<lambda>impls.
      bindP (assert_tok (Sym BRACKET_LCURLY) (quoted ''{'')) (\<lambda>_.
      bindP (builtin_name attributes name) (\<lambda>cls_name.
      bindP (class_body c \<lparr>ci_name = name, ci_interface = isInterface, ci_extends = extends\<rparr>
       (parentClass \<noteq> None)) (\<lambda>a.
      returnP (DefinedTypeDef cls_name (ca_functions a) (ca_variables a) (ca_childTypes a) parentClass
       (if isInterface then DT_INTERFACE else DT_CLASS) impls (ca_hasConstructor a) generics
       (fromInt isPublic) comment (attribute_holder attributes)))))))))))))))))))))"

section \<open>The top level\<close>

text \<open>A qualifier at the top level; for \<^verbatim>\<open>static\<close> the error is raised at the next token.\<close>

definition global_qualifier :: "Keyword list \<Rightarrow> bool \<Rightarrow> string \<Rightarrow> unit P" where
  "global_qualifier kws step msg =
     (bindP peekT (\<lambda>pk.
      if tok_type pk \<in> Kword ` set kws then returnP ()
     else if step then bindP nextT (\<lambda>_. createError SYNTAX_ERROR msg)
     else createError SYNTAX_ERROR msg))"

definition visibility_message :: string where
  "visibility_message = ''expected keyword '' @ dquoted ''func'' @ '', '' @ dquoted ''static'' @ '', ''
     @ dquoted ''unsafe'' @ '', '' @ dquoted ''class'' @ '', '' @ dquoted ''let'' @ '', '' @ dquoted ''const''
     @ '', '' @ dquoted ''enum'' @ '' or '' @ dquoted ''external'' @ '' after public/private declaration''"

definition global_qualifiers :: "Keyword \<Rightarrow> unit P option" where
  "global_qualifiers k =
     (if k = KWORD_PUBLIC \<or> k = KWORD_PRIVATE then Some (global_qualifier
        [KWORD_FUNC, KWORD_VAR, KWORD_TYPEDEF, KWORD_STRUCT, KWORD_STATIC, KWORD_UNSAFE, KWORD_CLASS,
         KWORD_EXTERN, KWORD_CONST, KWORD_INTER, KWORD_ENUM] False visibility_message)
      else if k = KWORD_EXTERN then Some (global_qualifier [KWORD_FUNC, KWORD_CONST, KWORD_UNSAFE] False
        (''expected '' @ quoted ''func'' @ '' or '' @ quoted ''const''
          @ '' keyword after an external symbol declaration''))
      else if k = KWORD_STATIC then Some (global_qualifier [KWORD_FUNC, KWORD_UNSAFE] True
        (''expected '' @ quoted ''func'' @ '' or '' @ quoted ''unsafe''
          @ '' keyword after a static function declaration''))
      else if k = KWORD_UNSAFE then Some (global_qualifier [KWORD_FUNC] False
        (''expected '' @ quoted ''func'' @ '' keyword after an unsafe function declaration''))
      else None)"

definition global_declaration :: "calls \<Rightarrow> Keyword \<Rightarrow> node P option" where
  "global_declaration c k =
     (if k = KWORD_MACRO then Some (parseMacro c)
      else if k = KWORD_NAMESPACE then Some (parseNamespace c)
      else if k = KWORD_ENUM then Some (parseEnum c)
      else if k = KWORD_STRUCT then Some (parseStructure c)
      else if k = KWORD_VAR then Some (parseVariable c)
      else if k = KWORD_CONST then Some (parseConstant c)
      else if k = KWORD_FUNC then Some (c_function c False False False False)
      else if k = KWORD_CLASS \<or> k = KWORD_INTER then Some (c_class c)
      else if k = KWORD_IMPORT then Some parseImportStatement
      else if k = KWORD_TYPEDEF
      then Some (bindP (assertNoAttributes ''type alias'') (\<lambda>_. parseTypeAlias c))
      else None)"

definition unexpected_global :: "'a P" where
  "unexpected_global = bindP cur_string (\<lambda>t. createError SYNTAX_ERROR
     (''Unexpected token ('' @ quoted t @ '') found''))"

text \<open>One item of the top level: the declarations so far with the new one.\<close>

definition global_item :: "calls \<Rightarrow> node list \<Rightarrow> node list P" where
  "global_item c global =
     (bindP cur (\<lambda>t.
      case tok_type t of
       TK_EOF \<Rightarrow> createError SYNTAX_ERROR ''unexpected end of file''
     | Sym SYM_SEMI_COLLON \<Rightarrow> returnP global
     | Sym SYM_AT \<Rightarrow> bindP parseAttributes (\<lambda>_. returnP global)
     | Kword k \<Rightarrow>
         (case global_declaration c k of
             Some m \<Rightarrow> bindP m (\<lambda>n. returnP (global @ [n]))
           | None \<Rightarrow> (case global_qualifiers k of
               Some m \<Rightarrow> bindP m (\<lambda>_. returnP global)
             | None \<Rightarrow> unexpected_global))
     | _ \<Rightarrow> unexpected_global))"

definition parseGlobal :: "calls \<Rightarrow> TokenType \<Rightarrow> node list P" where
  "parseGlobal c terminator =
     (bindP (loopP (\<lambda>global. ifP (cur_is terminator) (breakP global)
         (bindP (global_item c global) (\<lambda>global'.
          bindP (whenP (notP (cur_is TK_EOF)) (bindP nextT (\<lambda>_. returnP ()))) (\<lambda>_.
          continueP global')))) []) (\<lambda>global.
      bindP (assertNoAttributes ''after global or namespace declaration'') (\<lambda>_.
      returnP global)))"

end
