(* ===== verification/Parser.thy ===== *)
theory Parser
  imports Parser_Decls
begin

text \<open>
  The recursion of the parser and its entry point \<^verbatim>\<open>Parser::parse\<close>. The calls of depth \<open>n + 1\<close>
  are the routines over the calls of depth \<open>n\<close>. Every call but three moves to a later token, and
  those three (statement of a block, expression of a statement, routine of a declaration) form
  no cycle, so four levels for each token are enough; \<open>Parser_Progress\<close> proves it.
\<close>

definition call_all :: "calls \<Rightarrow> calls" where
  "call_all c = \<lparr>c_type = parseType c, c_expr = parseExpr c, c_stmt = parseStatement c,
     c_block = parseBlock c, c_function = parseFunction c, c_class = parseClass c,
     c_global = parseGlobal c\<rparr>"

definition no_calls :: calls where
  "no_calls = \<lparr>c_type = failP exhausted, c_expr = (\<lambda>_. failP exhausted),
     c_stmt = (\<lambda>_. failP exhausted), c_block = (\<lambda>_. failP exhausted),
     c_function = (\<lambda>_ _ _ _. failP exhausted), c_class = failP exhausted,
     c_global = (\<lambda>_. failP exhausted)\<rparr>"

primrec calls_at :: "nat \<Rightarrow> calls" where
  "calls_at 0 = no_calls"
| "calls_at (Suc n) = call_all (calls_at n)"

definition depth_for :: "pstate \<Rightarrow> nat" where
  "depth_for s = 4 * length (m_tokens s) + 4"

definition parser :: "(calls \<Rightarrow> 'a P) \<Rightarrow> 'a P" where
  "parser f = (\<lambda>s. f (calls_at (depth_for s)) s)"

definition parse :: "Token list \<Rightarrow> string \<Rightarrow> bool \<Rightarrow> node list res" where
  "parse p_tokens source p_allow_comments =
     bindR (initial_state p_tokens source p_allow_comments) (\<lambda>s.
     bindR (parser (\<lambda>c. parseGlobal c TK_EOF) s) (\<lambda>(ns, s'). Inr ns))"

end
