(* ===== verification/Parser_Wp.thy ===== *)
theory Parser_Wp
  imports Parser
begin

text \<open>
  A calculus for the routines of the parser. \<open>wp m Q s\<close>: run from \<open>s\<close>, the routine \<open>m\<close> ends in a
  state and with a value that satisfy \<open>Q\<close>, or raises an allowed failure: a diagnostic, a failed
  assertion or an indexing exception, not undefined behaviour and not the recursion bound. One
  rule for each primitive drives the proofs: states are related to the one before by \<open>follows\<close>
  (same tokens, same class and loop context, the current token is the one at the index) and by the
  number of tokens left.
\<close>

section \<open>States\<close>

definition tokens_left :: "pstate \<Rightarrow> int" where
  "tokens_left s = int (length (m_tokens s)) - m_tok_index s"

definition placed :: "pstate \<Rightarrow> bool" where
  "placed s \<longleftrightarrow> in_tokens s (m_tok_index s) \<and> m_current s = token_at s (m_tok_index s)"

definition constants :: "pstate \<Rightarrow> Token list \<times> bool \<times> string" where
  "constants s = (m_tokens s, m_allow_comments s, m_source s)"

definition follows :: "pstate \<Rightarrow> pstate \<Rightarrow> bool" where
  "follows s s' \<longleftrightarrow> placed s' \<and> constants s' = constants s \<and> m_current_class s' = m_current_class s
     \<and> m_inside_loop s' = m_inside_loop s"

lemma follows_refl: "placed s \<Longrightarrow> follows s s"
  by (simp add: follows_def)

lemma follows_trans: "follows s t \<Longrightarrow> follows t u \<Longrightarrow> follows s u"
  by (simp add: follows_def)

lemma tokens_left_pos: "placed s \<Longrightarrow> 0 < tokens_left s"
  by (simp add: placed_def in_tokens_def tokens_left_def)

text \<open>A state that follows another without moving has the same current token.\<close>

lemma follows_current: "placed s \<Longrightarrow> follows s s' \<Longrightarrow> tokens_left s' = tokens_left s \<Longrightarrow> m_current s' = m_current s"
  by (simp add: follows_def placed_def tokens_left_def constants_def token_at_def)

section \<open>Failures\<close>

definition allowed :: "failure \<Rightarrow> bool" where
  "allowed e \<longleftrightarrow> (\<exists>d. e = ParserError d) \<or> e = AssertFail \<or> e = StdException ''out_of_range''"

lemma allowed_simps [simp]:
  "allowed (ParserError d)" "allowed AssertFail" "allowed (StdException ''out_of_range'')"
  "\<not> allowed exhausted" "\<not> allowed (Undefined u)"
  by (auto simp: allowed_def exhausted_def)

definition wp :: "'a P \<Rightarrow> ('a \<Rightarrow> pstate \<Rightarrow> bool) \<Rightarrow> pstate \<Rightarrow> bool" where
  "wp m Q s \<longleftrightarrow> (case m s of Inl e \<Rightarrow> allowed e | Inr (a, s') \<Rightarrow> Q a s')"

lemma wp_mono: "wp m Q s \<Longrightarrow> (\<And>a s'. Q a s' \<Longrightarrow> R a s') \<Longrightarrow> wp m R s"
  by (auto simp: wp_def split: sum.splits)

named_theorems wp_rules \<open>introduction rules of the calculus\<close>

lemma wp_return [wp_rules]: "Q a s \<Longrightarrow> wp (returnP a) Q s"
  by (simp add: wp_def returnP_def)

lemma wp_bind [wp_rules]: "wp m (\<lambda>a. wp (f a) Q) s \<Longrightarrow> wp (bindP m f) Q s"
  by (auto simp: wp_def bindP_def split: sum.splits)

lemma wp_failP [wp_rules]: "allowed e \<Longrightarrow> wp (failP e) Q s"
  by (simp add: wp_def failP_def)

lemma wp_getP [wp_rules]: "Q (f s) s \<Longrightarrow> wp (getP f) Q s"
  by (simp add: wp_def getP_def)

lemma wp_liftP [wp_rules]:
  "(\<And>e. r = Inl e \<Longrightarrow> allowed e) \<Longrightarrow> (\<And>a. r = Inr a \<Longrightarrow> Q a s) \<Longrightarrow> wp (liftP r) Q s"
  by (cases r) (simp_all add: wp_def liftP_def)

lemma wp_assertP [wp_rules]: "(b \<Longrightarrow> Q () s) \<Longrightarrow> wp (assertP b) Q s"
  by (simp add: assertP_def wp_return wp_failP)

lemma wp_if [wp_rules]: "(b \<Longrightarrow> wp m Q s) \<Longrightarrow> (\<not> b \<Longrightarrow> wp n Q s) \<Longrightarrow> wp (if b then m else n) Q s"
  by simp

lemma wp_let [wp_rules]: "wp (f x) Q s \<Longrightarrow> wp (let y = x in f y) Q s"
  by simp

lemma wp_case_option [wp_rules]:
  "(x = None \<Longrightarrow> wp m Q s) \<Longrightarrow> (\<And>a. x = Some a \<Longrightarrow> wp (f a) Q s) \<Longrightarrow>
   wp (case x of None \<Rightarrow> m | Some a \<Rightarrow> f a) Q s"
  by (simp split: option.split)

lemma wp_case_some:
  "(b \<Longrightarrow> wp (f x) Q s) \<Longrightarrow> (\<not> b \<Longrightarrow> wp (case y of None \<Rightarrow> d | Some a \<Rightarrow> f a) Q s) \<Longrightarrow>
   wp (case if b then Some x else y of None \<Rightarrow> d | Some a \<Rightarrow> f a) Q s"
  "wp d Q s \<Longrightarrow> wp (case None of None \<Rightarrow> d | Some a \<Rightarrow> f a) Q s"
  "wp (case z of None \<Rightarrow> d | Some a \<Rightarrow> f (g a)) Q s \<Longrightarrow>
   wp (case (case z of None \<Rightarrow> None | Some a \<Rightarrow> Some (g a)) of None \<Rightarrow> d | Some a \<Rightarrow> f a) Q s"
  by (simp, simp, cases z, simp_all)

lemma wp_case_sum [wp_rules]:
  "(\<And>a. x = Inl a \<Longrightarrow> wp (f a) Q s) \<Longrightarrow> (\<And>b. x = Inr b \<Longrightarrow> wp (g b) Q s) \<Longrightarrow>
   wp (case x of Inl a \<Rightarrow> f a | Inr b \<Rightarrow> g b) Q s"
  by (simp split: sum.split)

lemma wp_case_prod [wp_rules]:
  "(\<And>a b. x = (a, b) \<Longrightarrow> wp (f a b) Q s) \<Longrightarrow> wp (case x of (a, b) \<Rightarrow> f a b) Q s"
  by (simp split: prod.split)

lemma wp_case_item [wp_rules]:
  "(\<And>p op m. x = PendingOp p op m \<Longrightarrow> wp (f p op m) Q s) \<Longrightarrow> (\<And>n. x = Node n \<Longrightarrow> wp (g n) Q s) \<Longrightarrow>
   wp (case x of PendingOp p op m \<Rightarrow> f p op m | Node n \<Rightarrow> g n) Q s"
  by (simp split: item.split)

lemma wp_createError_at [wp_rules]: "wp (createError_at E p msg w) Q s"
  by (simp add: createError_at_def wp_failP)

lemma wp_createError [wp_rules]: "wp (createError E msg) Q s"
  by (simp add: createError_def wp_def createError_at_def failP_def)

lemma wp_createError_cur [wp_rules]: "wp (createError_cur E a b) Q s"
  unfolding createError_cur_def by (intro wp_rules)

section \<open>Moving and looking\<close>

lemma wp_next [wp_rules]:
  "placed s \<Longrightarrow> (\<And>t s'. follows s s' \<Longrightarrow> tokens_left s' = tokens_left s - (k + 1) \<Longrightarrow> Q t s') \<Longrightarrow> wp (next_by k) Q s"
  by (auto simp: wp_def next_by_def createError_def createError_at_def failP_def Let_def follows_def
      placed_def tokens_left_def constants_def in_tokens_def token_at_def)

lemma wp_prev [wp_rules]:
  "placed s \<Longrightarrow> (\<And>t s'. follows s s' \<Longrightarrow> tokens_left s' = tokens_left s + (k + 1) \<Longrightarrow> Q t s') \<Longrightarrow>
   wp (prev_by k False) Q s"
  by (auto simp: wp_def prev_by_def createError_def createError_at_def failP_def Let_def follows_def
      placed_def tokens_left_def constants_def in_tokens_def token_at_def)

lemma wp_peek [wp_rules]: "(\<And>t. Q t s) \<Longrightarrow> wp (peek k safe) Q s"
  by (auto simp: wp_def peek_def createError_def createError_at_def failP_def Let_def)

lemma wp_cur_is [wp_rules]: "Q (tok_is ty (m_current s)) s \<Longrightarrow> wp (cur_is ty) Q s"
  unfolding cur_is_def by (intro wp_rules)

lemma wp_pk_is [wp_rules]: "(\<And>b. Q b s) \<Longrightarrow> wp (pk_is k safe ty) Q s"
  unfolding pk_is_def by (intro wp_rules)

lemma wp_isTypeValid [wp_rules]: "(\<And>b. Q b s) \<Longrightarrow> wp isTypeValid Q s"
  unfolding isTypeValid_def by (intro wp_rules)

lemma wp_set_attributes [wp_rules]:
  "placed s \<Longrightarrow> (\<And>s'. follows s s' \<Longrightarrow> tokens_left s' = tokens_left s \<Longrightarrow> m_pending_attributes s' = a \<Longrightarrow> Q () s') \<Longrightarrow>
   wp (updateP (\<lambda>s. s\<lparr>m_pending_attributes := a\<rparr>)) Q s"
  by (simp add: wp_def updateP_def follows_def placed_def tokens_left_def constants_def in_tokens_def token_at_def)

section \<open>Tests\<close>

text \<open>The conditions of the parser do not change the state; their value is not needed below.\<close>

definition test :: "bool P \<Rightarrow> bool" where
  "test c \<longleftrightarrow> (\<forall>Q s. (\<forall>b. Q b s) \<longrightarrow> wp c Q s)"

lemma testI: "(\<And>Q s. (\<And>b. Q b s) \<Longrightarrow> wp c Q s) \<Longrightarrow> test c"
  by (simp add: test_def)

lemma testD: "test c \<Longrightarrow> (\<And>b. Q b s) \<Longrightarrow> wp c Q s"
  by (simp add: test_def)

lemma test_ifP:
  "test c \<Longrightarrow> wp m Q s \<Longrightarrow> wp n Q s \<Longrightarrow> wp (ifP c m n) Q s"
  unfolding ifP_def by (rule wp_bind, erule testD) simp

lemma test_rules [wp_rules]:
  "test (cur_is ty)" "test (pk_is k safe ty)" "test isTypeValid" "test (returnP b)"
  "test (bindP (getP f) (\<lambda>x. returnP (g x)))"
  by (intro testI wp_rules; simp)+

lemma test_ifP_test: "test a \<Longrightarrow> test b \<Longrightarrow> test d \<Longrightarrow> test (ifP a b d)"
  by (intro testI test_ifP) (simp_all add: testD)

lemma test_connectives [wp_rules]:
  "test a \<Longrightarrow> test b \<Longrightarrow> test (andP a b)" "test a \<Longrightarrow> test b \<Longrightarrow> test (orP a b)"
  "test a \<Longrightarrow> test (notP a)"
proof -
  show "test a \<Longrightarrow> test b \<Longrightarrow> test (andP a b)" "test a \<Longrightarrow> test b \<Longrightarrow> test (orP a b)"
    unfolding andP_def orP_def by (intro test_ifP_test test_rules; assumption)+
  show "test a \<Longrightarrow> test (notP a)"
    unfolding notP_def by (intro testI wp_bind) (auto elim!: testD intro: wp_return)
qed

lemma wp_ifP [wp_rules]:
  "test c \<Longrightarrow> wp m Q s \<Longrightarrow> wp n Q s \<Longrightarrow> wp (ifP c m n) Q s"
  by (rule test_ifP)

lemma wp_whenP [wp_rules]: "test c \<Longrightarrow> wp m Q s \<Longrightarrow> Q () s \<Longrightarrow> wp (whenP c m) Q s"
  unfolding whenP_def by (intro wp_rules)

lemma wp_assert_tok [wp_rules]: "Q (m_current s) s \<Longrightarrow> wp (assert_tok ty e) Q s"
  unfolding assert_tok_def by (intro wp_rules)

lemma wp_ident_string [wp_rules]: "(\<And>x. Q x s) \<Longrightarrow> wp (ident_string e) Q s"
  unfolding ident_string_def by (intro wp_rules)

lemma wp_consume_tok [wp_rules]:
  "placed s \<Longrightarrow> (\<And>t s'. follows s s' \<Longrightarrow> tokens_left s' = tokens_left s - 1 \<Longrightarrow> Q t s') \<Longrightarrow> wp (consume_tok ty e) Q s"
  unfolding consume_tok_def by (intro wp_rules) simp_all

lemma wp_throwIfNotType [wp_rules]: "Q () s \<Longrightarrow> wp throwIfNotType Q s"
  unfolding throwIfNotType_def by (intro wp_rules)

section \<open>Joining branches\<close>

text \<open>
  In front of a continuation the branches of a conditional are summarised: they stay in a state
  that follows, with at most as many tokens left.
\<close>

definition moves_on :: "pstate \<Rightarrow> 'a \<Rightarrow> pstate \<Rightarrow> bool" where
  "moves_on s a s' \<longleftrightarrow> follows s s' \<and> tokens_left s' \<le> tokens_left s"

named_theorems wp_joins \<open>rules for conditionals in front of a continuation\<close>

lemma wp_bind_join:
  assumes "wp m (moves_on s) s" and "\<And>a s'. follows s s' \<Longrightarrow> tokens_left s' \<le> tokens_left s \<Longrightarrow> wp (f a) Q s'"
  shows "wp (bindP m f) Q s"
  by (rule wp_bind, rule wp_mono [OF assms(1)]) (simp add: assms(2) moves_on_def)

lemma moves_on_rule [wp_rules]: "follows s s' \<Longrightarrow> tokens_left s' \<le> tokens_left s \<Longrightarrow> moves_on s a s'"
  by (simp add: moves_on_def)

lemmas wp_bind_ifP [wp_joins] = wp_bind_join [where m = "ifP c m' n" for c m' n]
lemmas wp_bind_if [wp_joins] = wp_bind_join [where m = "if c then m' else n" for c m' n]
lemmas wp_bind_whenP [wp_joins] = wp_bind_join [where m = "whenP c m'" for c m']

section \<open>Loops\<close>

text \<open>
  Every round moves to a later token, so the bound on the rounds is not reached. \<open>R\<close> is what the
  last round establishes: to have stayed or moved, or, in the strict form, to have moved.
\<close>

definition loop_post :: "(pstate \<Rightarrow> bool) \<Rightarrow> pstate \<Rightarrow> pstate \<Rightarrow> 'v + 'a \<Rightarrow> pstate \<Rightarrow> bool" where
  "loop_post R s0 s r s' \<longleftrightarrow> follows s0 s' \<and> (if isl r then tokens_left s' < tokens_left s else R s')"

lemma loop_post_rules [wp_rules]:
  "follows s0 s' \<Longrightarrow> tokens_left s' < tokens_left s \<Longrightarrow> loop_post R s0 s (Inl v) s'"
  "follows s0 s' \<Longrightarrow> R s' \<Longrightarrow> loop_post R s0 s (Inr a) s'"
  by (simp_all add: loop_post_def)

lemma wp_loopN:
  fixes body :: "'v \<Rightarrow> ('v + 'a) P"
  assumes body: "\<And>v s. follows s0 s \<Longrightarrow> tokens_left s \<le> tokens_left s0 \<Longrightarrow> wp (body v) (loop_post R s0 s) s"
  shows "follows s0 s \<Longrightarrow> tokens_left s \<le> tokens_left s0 \<Longrightarrow> tokens_left s < int n \<Longrightarrow>
    wp (loopN n body v) (\<lambda>a s'. follows s0 s' \<and> R s') s"
proof (induction n arbitrary: v s)
  case 0
  then show ?case using tokens_left_pos [of s] by (simp add: follows_def)
next
  case (Suc n)
  show ?case
    unfolding loopN.simps
  proof (rule wp_bind, rule wp_mono [OF body [OF Suc.prems(1,2)]])
    fix r :: "'v + 'a" and s' assume post: "loop_post R s0 s r s'"
    show "wp (case r of Inl v' \<Rightarrow> loopN n body v' | Inr a \<Rightarrow> returnP a)
      (\<lambda>a s'. follows s0 s' \<and> R s') s'"
    proof (cases r)
      case (Inl v')
      with post Suc.prems show ?thesis by (auto simp: loop_post_def intro!: Suc.IH)
    next
      case (Inr a)
      with post show ?thesis by (auto simp: loop_post_def intro!: wp_return)
    qed
  qed
qed

lemma wp_loopP_gen:
  assumes "placed s0" and "\<And>v s. follows s0 s \<Longrightarrow> tokens_left s \<le> tokens_left s0 \<Longrightarrow> wp (body v) (loop_post R s0 s) s"
    and "\<And>a s'. follows s0 s' \<Longrightarrow> R s' \<Longrightarrow> Q a s'"
  shows "wp (loopP body v) Q s0"
proof -
  have "tokens_left s0 < int (Suc (length (m_tokens s0)))"
    using assms(1) by (simp add: placed_def in_tokens_def tokens_left_def)
  then have "wp (loopN (Suc (length (m_tokens s0))) body v) (\<lambda>a s'. follows s0 s' \<and> R s') s0"
    by (intro wp_loopN assms(2) follows_refl assms(1)) simp_all
  then have "wp (loopP body v) (\<lambda>a s'. follows s0 s' \<and> R s') s0"
    by (simp add: wp_def loopP_def)
  then show ?thesis by (rule wp_mono) (auto intro: assms(3))
qed

lemmas wp_loopP [wp_rules] = wp_loopP_gen [where R = "\<lambda>s. tokens_left s \<le> tokens_left s0" and ?s0.0 = s0 for s0]
lemmas wp_loopP_strict = wp_loopP_gen [where R = "\<lambda>s. tokens_left s < tokens_left s0" and ?s0.0 = s0 for s0]

end
