(* ===== verification/Parser_Trees.thy ===== *)
theory Parser_Trees
  imports Parser_Wp
begin

text \<open>
  The operator tree over the items of an expression, which end with an operand: the reduction
  ends with a complete node or in a failed assertion, so the parser sees no other outcome.
\<close>

definition ends_node :: "item list \<Rightarrow> bool" where
  "ends_node xs \<longleftrightarrow> (\<exists>ys n. xs = ys @ [Node n])"

lemma ends_node_append [simp]: "ends_node [Node n]" "ends_node (u @ x # v) \<longleftrightarrow> ends_node (x # v)"
  by (auto simp: ends_node_def append_eq_append_conv2 append_eq_Cons_conv Cons_eq_append_conv)

lemma ends_node_run:
  "ends_node xs \<Longrightarrow> \<exists>os n v. xs = map (\<lambda>x. concrete (pend x)) os @ Node n # v"
proof (induction xs)
  case Nil
  then show ?case by (simp add: ends_node_def)
next
  case (Cons x xs)
  show ?case
  proof (cases x)
    case (Node n)
    then show ?thesis by (intro exI [of _ "[]"]) simp
  next
    case (PendingOp p op m)
    with Cons.prems have "ends_node xs" by (auto simp: ends_node_def Cons_eq_append_conv)
    with Cons.IH obtain os n v where "xs = map (\<lambda>x. concrete (pend x)) os @ Node n # v" by blast
    with PendingOp show ?thesis by (intro exI [of _ "(p, op, m) # os"]) simp
  qed
qed

lemma build_step_total:
  assumes "ends_node xs"
  shows "(\<exists>ys. build_step xs = Inr ys \<and> ends_node ys) \<or> build_step xs = Inl AssertFail"
proof (cases xs rule: next_operator_cases)
  case none
  then show ?thesis by (simp add: build_step_def)
next
  case (found u p op m v)
  show ?thesis
  proof (cases "isUnary op")
    case True
    from assms found(1) have "ends_node (PendingOp p op m # v)" by simp
    then obtain os n w where w: "PendingOp p op m # v = map (\<lambda>x. concrete (pend x)) os @ Node n # w"
      using ends_node_run by blast
    then have xs: "xs = u @ map (\<lambda>x. concrete (pend x)) os @ Node (embed (LeafT n)) # w"
      by (simp add: found(1))
    have "build_step xs = Inr (u @ Node (embed (wrap os (LeafT n))) # w)"
      unfolding xs by (rule build_step_unary) (use found(2) True xs in simp)
    moreover have "ends_node (Node a # w)" for a
    proof (cases w rule: rev_cases)
      case Nil
      then show ?thesis by (simp add: ends_node_def)
    next
      case (snoc w' y)
      with assms xs show ?thesis by (auto simp: ends_node_def Cons_eq_append_conv)
    qed
    ultimately show ?thesis by simp
  next
    case False
    show ?thesis
    proof (cases "(\<exists>u' a. u = u' @ [Node a]) \<and> (\<exists>b v'. v = Node b # v')")
      case True
      then obtain u' a b v' where *: "u = u' @ [Node a]" "v = Node b # v'" by blast
      then have "build_step xs = Inr (u' @ Node (BinaryOp op a (Some b) False False) # v')"
        using build_step_binary [of u' a p op m b v' "precedence op"] found(1,2) False by simp
      moreover have "ends_node (Node c # v')" for c
      proof (cases v' rule: rev_cases)
        case Nil
        then show ?thesis by (simp add: ends_node_def)
      next
        case (snoc w' y)
        with assms found(1) * show ?thesis by (auto simp: ends_node_def Cons_eq_append_conv)
      qed
      ultimately show ?thesis by simp
    next
      case other: False
      have "reduce_binary (int (length u)) xs = Inl AssertFail"
      proof (cases u rule: rev_cases)
        case Nil
        then show ?thesis by (simp add: reduce_binary_def)
      next
        case (snoc u' x)
        show ?thesis
        proof (cases v)
          case Nil
          then show ?thesis using found(1) by (simp add: reduce_binary_def)
        next
          case (Cons y v')
          with snoc other have "is_pending x \<or> is_pending y"
            by (cases x; cases y) auto
          then show ?thesis using found(1) snoc Cons
            by (auto simp: reduce_binary_def Let_def nth_append)
        qed
      qed
      then show ?thesis using found(2) False by (simp add: build_step_def)
    qed
  qed
qed

lemma build_loop_total:
  "ends_node xs \<Longrightarrow> (\<exists>n. build_loop xs = Inr [Node n]) \<or> build_loop xs = Inl AssertFail"
proof (induction xs rule: build_loop.induct)
  case (1 xs)
  show ?case
  proof (cases "length xs > 1")
    case True
    with build_step_total [OF "1.prems"] "1.IH" [OF True] show ?thesis
      by (subst (1 2) build_loop.simps) auto
  next
    case False
    with "1.prems" show ?thesis
      by (subst (1 2) build_loop.simps) (auto simp: ends_node_def)
  qed
qed

lemma buildOperatorTree_total:
  assumes "ends_node xs"
  shows "(\<exists>n. buildOperatorTree xs = Inr (Node n)) \<or> buildOperatorTree xs = Inl AssertFail"
  using build_loop_total [OF assms] assms by (auto simp: buildOperatorTree_def ends_node_def)

section \<open>The items of an expression\<close>

lemma loopN_result: "loopN n body v s = Inr (a, s') \<Longrightarrow> \<exists>v1 s1. body v1 s1 = Inr (Inr a, s')"
  by (induction n arbitrary: v s)
     (auto simp: failP_def bindP_def returnP_def split: sum.splits prod.splits)

lemma expr_items_end:
  assumes "expr_items c b s = Inr (xs, s')"
  shows "ends_node xs"
  using assms unfolding expr_items_def item_round_def loopP_def
  by (auto dest!: loopN_result simp: bindP_def returnP_def Let_def
      split: sum.splits prod.splits option.splits)

lemma wp_mono_run:
  "wp m Q s \<Longrightarrow> (\<And>a s'. m s = Inr (a, s') \<Longrightarrow> Q a s' \<Longrightarrow> R a s') \<Longrightarrow> wp m R s"
  by (auto simp: wp_def split: sum.splits)

end
