(* ===== verification/Parser_Progress.thy ===== *)
theory Parser_Progress
  imports Parser_Trees
begin

text \<open>
  Every routine of the parser stays within the tokens, keeps the class and loop context, moves
  forward and never runs into the bounds on recursion. The contract of the mutually recursive
  routines is the locale \<open>progressing_calls\<close>; inside it each routine of the source is shown to
  respect the calculus, and the interpretation at the end puts the knot in its place.
\<close>

section \<open>Routines without calls\<close>

lemma wp_doc [wp_rules]: "(\<And>x. Q x s) \<Longrightarrow> wp parseDocstring Q s"
  unfolding parseDocstring_def by (intro wp_rules)

lemma wp_assertNoAttributes [wp_rules]:
  "(m_pending_attributes s = [] \<Longrightarrow> Q () s) \<Longrightarrow> wp (assertNoAttributes x) Q s"
  unfolding assertNoAttributes_def by (intro wp_rules) simp

lemma wp_verify_list: "(\<And>a. Q a s) \<Longrightarrow> wp (verify_list f as acc) Q s"
  by (induction as arbitrary: acc) (auto simp: Let_def intro!: wp_rules)

lemma wp_verifyAttributes [wp_rules]:
  "placed s \<Longrightarrow> (\<And>a s'. follows s s' \<Longrightarrow> tokens_left s' = tokens_left s \<Longrightarrow> Q a s') \<Longrightarrow> wp (verifyAttributes f) Q s"
  unfolding verifyAttributes_def by (intro wp_rules wp_verify_list) simp_all

lemma wp_attribute_arg [wp_rules]:
  "placed s \<Longrightarrow> (\<And>a s'. follows s s' \<Longrightarrow> tokens_left s' \<le> tokens_left s \<Longrightarrow> Q a s') \<Longrightarrow> wp (attribute_arg x as) Q s"
  unfolding attribute_arg_def by (intro wp_joins wp_rules) (simp_all add: follows_def)

lemma wp_attribute_args [wp_rules]:
  "placed s \<Longrightarrow> (\<And>a s'. follows s s' \<Longrightarrow> tokens_left s' \<le> tokens_left s \<Longrightarrow> Q a s') \<Longrightarrow> wp attribute_args Q s"
  unfolding attribute_args_def by (intro wp_joins wp_rules) (simp_all add: follows_def)

lemma wp_one_attribute [wp_rules]:
  "placed s \<Longrightarrow> (\<And>a s'. follows s s' \<Longrightarrow> tokens_left s' \<le> tokens_left s \<Longrightarrow> Q a s') \<Longrightarrow> wp (one_attribute as) Q s"
  unfolding one_attribute_def by (intro wp_joins wp_rules) (simp_all add: follows_def)

lemma wp_if_cur:
  "(tok_is ty (m_current s) \<Longrightarrow> wp m Q s) \<Longrightarrow> (\<not> tok_is ty (m_current s) \<Longrightarrow> wp n Q s) \<Longrightarrow>
   wp (ifP (cur_is ty) m n) Q s"
  unfolding ifP_def by (intro wp_rules)

lemma wp_parseAttributes [wp_rules]:
  assumes "placed s" and "\<And>a s'. follows s s' \<Longrightarrow> tokens_left s' \<le> tokens_left s \<Longrightarrow> Q a s'"
  shows "wp parseAttributes Q s"
proof -
  have moved: "tokens_left s' < tokens_left s" if "tok_is (Sym SYM_AT) (m_current s)" "follows s s'"
    "\<not> tok_is (Sym SYM_AT) (m_current s')" "tokens_left s' \<le> tokens_left s" for s'
    using follows_current [OF assms(1) that(2)] that by force
  show ?thesis
    unfolding parseAttributes_def
    by (intro wp_joins wp_if_cur wp_loopP_strict wp_rules assms)
       (simp_all add: assms moved, simp_all add: assms follows_def)
qed

section \<open>Failures of the operator tables\<close>

lemma BinaryOp_to_string_allowed: "BinaryOp_to_string op = Inl e \<Longrightarrow> allowed e"
  by (cases op) (auto simp: BinaryOp_to_string_def)

lemma getOperatorMangle_allowed: "getOperatorMangle op = Inl e \<Longrightarrow> allowed e"
  by (simp add: getOperatorMangle_eq)

lemma operatorID_allowed: "operatorID x = Inl e \<Longrightarrow> allowed e"
  by (auto simp: operatorID_def Let_def split: if_splits)

lemma unary_name_allowed: "unary_name b ps x = Inl e \<Longrightarrow> allowed e"
  by (auto simp: unary_name_def res_simps operatorID_allowed getOperatorMangle_allowed split: if_splits)

text \<open>
  The node is never built from a null block: a constructor has no attributes, so its body is not
  LLVM code.
\<close>

lemma fn_node_allowed:
  "fn_node ctor ext llvm x h b d = Inl e \<Longrightarrow> ctor \<longrightarrow> (\<forall>code tys. b \<noteq> LLVMBody code tys) \<Longrightarrow> allowed e"
  by (cases b; cases h) (auto simp: fn_node_def body_block_def split: if_splits)

section \<open>The contract of the recursive routines\<close>

text \<open>
  The calls are usable in the states whose tokens left, with a rank for the calls that do not move
  before they call another, stay within the bound \<open>m\<close>. A constructor is only asked for inside a
  class and with no attributes pending.
\<close>

named_theorems progress \<open>what the calls and routines guarantee\<close>

locale progressing_calls =
  fixes c :: calls and m :: int
  assumes call_type: "\<And>s Q. placed s \<Longrightarrow> 4 * tokens_left s \<le> m \<Longrightarrow>
      (\<And>a s'. follows s s' \<Longrightarrow> tokens_left s' < tokens_left s \<Longrightarrow> Q a s') \<Longrightarrow> wp (c_type c) Q s"
    and call_expr: "\<And>s allow Q. placed s \<Longrightarrow> 4 * tokens_left s \<le> m \<Longrightarrow>
      (\<And>a s'. follows s s' \<Longrightarrow> tokens_left s' < tokens_left s \<Longrightarrow> Q a s') \<Longrightarrow> wp (c_expr c allow) Q s"
    and call_stmt: "\<And>s pk Q. placed s \<Longrightarrow> 4 * tokens_left s + 1 \<le> m \<Longrightarrow>
      (\<And>a s'. follows s s' \<Longrightarrow> tokens_left s' < tokens_left s \<Longrightarrow> Q a s') \<Longrightarrow> wp (c_stmt c pk) Q s"
    and call_block: "\<And>s ts Q. placed s \<Longrightarrow> 4 * tokens_left s + 2 \<le> m \<Longrightarrow>
      (\<And>a s'. follows s s' \<Longrightarrow> tokens_left s' < tokens_left s \<Longrightarrow> Q a s') \<Longrightarrow> wp (c_block c ts) Q s"
    and call_function: "\<And>s ctor b1 b2 b3 Q. placed s \<Longrightarrow> 4 * tokens_left s \<le> m \<Longrightarrow>
      (ctor \<Longrightarrow> \<not> b1 \<and> m_current_class s \<noteq> None \<and> m_pending_attributes s = []) \<Longrightarrow>
      (\<And>a s'. follows s s' \<Longrightarrow> tokens_left s' < tokens_left s \<Longrightarrow> Q a s') \<Longrightarrow> wp (c_function c ctor b1 b2 b3) Q s"
    and call_class: "\<And>s Q. placed s \<Longrightarrow> 4 * tokens_left s \<le> m \<Longrightarrow>
      (\<And>a s'. follows s s' \<Longrightarrow> tokens_left s' < tokens_left s \<Longrightarrow> Q a s') \<Longrightarrow> wp (c_class c) Q s"
    and call_global: "\<And>s term Q. placed s \<Longrightarrow> 4 * tokens_left s + 1 \<le> m \<Longrightarrow>
      (\<And>a s'. follows s s' \<Longrightarrow> tokens_left s' \<le> tokens_left s \<Longrightarrow> Q a s') \<Longrightarrow> wp (c_global c term) Q s"
begin

lemmas calls_progress [progress] = call_type call_expr call_stmt call_block call_function
  call_class call_global

subsection \<open>Types\<close>

lemma wp_parseGenericExpr [progress]:
  "placed s \<Longrightarrow> 4 * tokens_left s \<le> m + 1 \<Longrightarrow> (\<And>a s'. follows s s' \<Longrightarrow> tokens_left s' \<le> tokens_left s \<Longrightarrow> Q a s') \<Longrightarrow>
   wp (parseGenericExpr c) Q s"
  unfolding parseGenericExpr_def generic_round_def
  by (intro wp_joins wp_rules progress) (simp_all add: follows_def)

lemma wp_parseIdentifier [progress]:
  "placed s \<Longrightarrow> 4 * tokens_left s \<le> m + 1 \<Longrightarrow> (\<And>a s'. follows s s' \<Longrightarrow> tokens_left s' \<le> tokens_left s \<Longrightarrow> Q a s') \<Longrightarrow>
   wp (parseIdentifier c k g) Q s"
  unfolding parseIdentifier_def
  by (intro wp_joins wp_rules progress) (simp_all add: follows_def)

lemma wp_parseType_decltype [progress]:
  "placed s \<Longrightarrow> 4 * tokens_left s \<le> m + 1 \<Longrightarrow> (\<And>a s'. follows s s' \<Longrightarrow> tokens_left s' < tokens_left s \<Longrightarrow> Q a s') \<Longrightarrow>
   wp (parseType_decltype c) Q s"
  unfolding parseType_decltype_def
  by (intro wp_joins wp_rules progress) (simp_all add: follows_def)

lemma wp_parseType_func [progress]:
  "placed s \<Longrightarrow> 4 * tokens_left s \<le> m + 1 \<Longrightarrow> (\<And>a s'. follows s s' \<Longrightarrow> tokens_left s' < tokens_left s \<Longrightarrow> Q a s') \<Longrightarrow>
   wp (parseType_func c) Q s"
  unfolding parseType_func_def func_round_def
  by (intro wp_joins wp_rules progress) (simp_all add: follows_def)

lemma wp_parseType_tuple [progress]:
  "placed s \<Longrightarrow> 4 * tokens_left s \<le> m + 1 \<Longrightarrow> (\<And>a s'. follows s s' \<Longrightarrow> tokens_left s' < tokens_left s \<Longrightarrow> Q a s') \<Longrightarrow>
   wp (parseType_tuple c) Q s"
  unfolding parseType_tuple_def tuple_round_def
  by (intro wp_joins wp_rules progress) (simp_all add: follows_def)

lemma wp_parseType_pointer [progress]:
  "placed s \<Longrightarrow> 4 * tokens_left s \<le> m + 1 \<Longrightarrow> (\<And>a s'. follows s s' \<Longrightarrow> tokens_left s' < tokens_left s \<Longrightarrow> Q a s') \<Longrightarrow>
   wp (parseType_pointer c) Q s"
  unfolding parseType_pointer_def
  by (intro wp_joins wp_rules progress) (simp_all add: follows_def)

lemma wp_parseType_reference [progress]:
  "placed s \<Longrightarrow> 4 * tokens_left s \<le> m + 1 \<Longrightarrow> (\<And>a s'. follows s s' \<Longrightarrow> tokens_left s' < tokens_left s \<Longrightarrow> Q a s') \<Longrightarrow>
   wp (parseType_reference c) Q s"
  unfolding parseType_reference_def
  by (intro wp_joins wp_rules progress) (simp_all add: follows_def)

lemma wp_parseType_named [progress]:
  "placed s \<Longrightarrow> 4 * tokens_left s \<le> m + 1 \<Longrightarrow> (\<And>a s'. follows s s' \<Longrightarrow> tokens_left s' < tokens_left s \<Longrightarrow> Q a s') \<Longrightarrow>
   wp (parseType_named c) Q s"
  unfolding parseType_named_def path_round_def
  by (intro wp_joins wp_rules progress) (simp_all add: follows_def)

lemma wp_parseType [progress]:
  "placed s \<Longrightarrow> 4 * tokens_left s \<le> m + 1 \<Longrightarrow> (\<And>a s'. follows s s' \<Longrightarrow> tokens_left s' < tokens_left s \<Longrightarrow> Q a s') \<Longrightarrow>
   wp (parseType c) Q s"
  unfolding parseType_def
  by (intro wp_joins wp_rules progress) (simp_all add: follows_def)

lemma wp_parseWhereClause [progress]:
  "placed s \<Longrightarrow> 4 * tokens_left s \<le> m + 1 \<Longrightarrow> (\<And>a s'. follows s s' \<Longrightarrow> tokens_left s' \<le> tokens_left s \<Longrightarrow> Q a s') \<Longrightarrow>
   wp (parseWhereClause c) Q s"
  unfolding parseWhereClause_def
  by (intro wp_joins wp_rules progress) (simp_all add: follows_def)

lemma wp_generic_param [progress]:
  "placed s \<Longrightarrow> 4 * tokens_left s \<le> m + 1 \<Longrightarrow> (\<And>a s'. follows s s' \<Longrightarrow> tokens_left s' \<le> tokens_left s \<Longrightarrow> Q a s') \<Longrightarrow>
   wp (generic_param c) Q s"
  unfolding generic_param_def
  by (intro wp_joins wp_rules progress) (simp_all add: follows_def)

lemma wp_parseGenericParams [progress]:
  "placed s \<Longrightarrow> 4 * tokens_left s \<le> m + 1 \<Longrightarrow> (\<And>a s'. follows s s' \<Longrightarrow> tokens_left s' \<le> tokens_left s \<Longrightarrow> Q a s') \<Longrightarrow>
   wp (parseGenericParams c) Q s"
  unfolding parseGenericParams_def
  by (intro wp_joins wp_rules progress) (simp_all add: follows_def)

subsection \<open>Expressions\<close>

lemma wp_parseFunctionCall [progress]:
  "placed s \<Longrightarrow> 4 * tokens_left s \<le> m \<Longrightarrow> (\<And>a s'. follows s s' \<Longrightarrow> tokens_left s' < tokens_left s \<Longrightarrow> Q a s') \<Longrightarrow>
   wp (parseFunctionCall c e t x) Q s"
  unfolding parseFunctionCall_def call_round_def
  by (intro wp_joins wp_rules progress) (simp_all add: follows_def)

lemma wp_pseudo_variable [progress]:
  "placed s \<Longrightarrow> (\<And>a s'. follows s s' \<Longrightarrow> tokens_left s' \<le> tokens_left s \<Longrightarrow> Q a s') \<Longrightarrow>
   wp (pseudo_variable) Q s"
  unfolding pseudo_variable_def
  by (intro wp_joins wp_rules progress) (simp_all add: follows_def)

lemma wp_macro_args [progress]:
  "placed s \<Longrightarrow> 4 * tokens_left s + 5 \<le> m \<Longrightarrow> (\<And>a s'. follows s s' \<Longrightarrow> tokens_left s' \<le> tokens_left s + 1 \<Longrightarrow> Q a s') \<Longrightarrow>
   wp (macro_args c) Q s"
  unfolding macro_args_def
  by (intro wp_joins wp_loopP_strict wp_rules progress) (simp_all add: follows_def)

lemma wp_macro_call [progress]:
  "placed s \<Longrightarrow> 4 * tokens_left s \<le> m + 1 \<Longrightarrow> (\<And>a s'. follows s s' \<Longrightarrow> tokens_left s' \<le> tokens_left s \<Longrightarrow> Q a s') \<Longrightarrow>
   wp (macro_call c) Q s"
  unfolding macro_call_def
  by (intro wp_joins wp_rules progress) (simp_all add: follows_def)

lemma wp_special_operand [progress]:
  "placed s \<Longrightarrow> 4 * tokens_left s \<le> m + 1 \<Longrightarrow> (\<And>a s'. follows s s' \<Longrightarrow> tokens_left s' \<le> tokens_left s \<Longrightarrow> Q a s') \<Longrightarrow>
   wp (special_operand c) Q s"
  unfolding special_operand_def
  by (intro wp_joins wp_rules progress) (simp_all add: follows_def)

lemma wp_named_operand [progress]:
  "placed s \<Longrightarrow> 4 * tokens_left s \<le> m + 1 \<Longrightarrow> (\<And>a s'. follows s s' \<Longrightarrow> tokens_left s' \<le> tokens_left s \<Longrightarrow> Q a s') \<Longrightarrow>
   wp (named_operand c) Q s"
  unfolding named_operand_def
  by (intro wp_joins wp_rules progress) (simp_all add: follows_def)

lemma wp_prefix_item [progress]:
  "placed s \<Longrightarrow> (\<And>a s'. follows s s' \<Longrightarrow> tokens_left s' \<le> tokens_left s \<Longrightarrow> Q a s') \<Longrightarrow>
   wp (prefix_item t p) Q s"
  unfolding prefix_item_def
  by (intro wp_joins wp_rules progress) (simp_all add: follows_def)

lemma wp_normal_operand [progress]:
  "placed s \<Longrightarrow> 4 * tokens_left s \<le> m \<Longrightarrow> (\<And>a s'. follows s s' \<Longrightarrow> tokens_left s' \<le> tokens_left s \<Longrightarrow> Q a s') \<Longrightarrow>
   wp (normal_operand c b t) Q s"
  unfolding normal_operand_def
  by (intro wp_joins wp_rules progress) (simp_all add: follows_def)

lemma wp_index_suffix [progress]:
  "placed s \<Longrightarrow> 4 * tokens_left s \<le> m + 1 \<Longrightarrow> (\<And>a s'. follows s s' \<Longrightarrow> tokens_left s' < tokens_left s \<Longrightarrow> Q a s') \<Longrightarrow>
   wp (index_suffix c e) Q s"
  unfolding index_suffix_def
  by (intro wp_joins wp_rules progress) (simp_all add: follows_def)

lemma wp_cast_suffix [progress]:
  "placed s \<Longrightarrow> 4 * tokens_left s \<le> m + 1 \<Longrightarrow> (\<And>a s'. follows s s' \<Longrightarrow> tokens_left s' < tokens_left s \<Longrightarrow> Q a s') \<Longrightarrow>
   wp (cast_suffix c e) Q s"
  unfolding cast_suffix_def
  by (intro wp_joins wp_rules progress) (simp_all add: follows_def)

lemma wp_member_suffix [progress]:
  "placed s \<Longrightarrow> 4 * tokens_left s \<le> m + 1 \<Longrightarrow> (\<And>a s'. follows s s' \<Longrightarrow> tokens_left s' < tokens_left s \<Longrightarrow> Q a s') \<Longrightarrow>
   wp (member_suffix c b e) Q s"
  unfolding member_suffix_def
  by (intro wp_joins wp_rules progress) (simp_all add: follows_def)

lemma wp_suffixes [progress]:
  "placed s \<Longrightarrow> 4 * tokens_left s \<le> m + 1 \<Longrightarrow> (\<And>a s'. follows s s' \<Longrightarrow> tokens_left s' \<le> tokens_left s \<Longrightarrow> Q a s') \<Longrightarrow>
   wp (suffixes c e) Q s"
  unfolding suffixes_def suffix_round_def
  by (intro wp_joins wp_rules progress) (simp_all add: follows_def)

lemma wp_operand [progress]:
  "placed s \<Longrightarrow> 4 * tokens_left s \<le> m + 1 \<Longrightarrow> (\<And>a s'. follows s s' \<Longrightarrow> tokens_left s' < tokens_left s \<Longrightarrow> Q a s') \<Longrightarrow>
   wp (operand c b) Q s"
  unfolding operand_def
  by (intro wp_joins wp_rules progress) (simp_all add: follows_def)

lemma wp_expr_items [progress]:
  "placed s \<Longrightarrow> 4 * tokens_left s \<le> m + 1 \<Longrightarrow> (\<And>a s'. follows s s' \<Longrightarrow> tokens_left s' < tokens_left s \<Longrightarrow> Q a s') \<Longrightarrow>
   wp (expr_items c b) Q s"
  unfolding expr_items_def item_round_def
  by (intro wp_joins wp_loopP_strict wp_rules progress) (simp_all add: follows_def)

lemma wp_check_assignment [progress]: "Q () s \<Longrightarrow> wp (check_assignment b xs e) Q s"
  unfolding check_assignment_def
  by (cases e; simp only: node.case; intro wp_rules; simp add: BinaryOp_to_string_allowed)

lemma wp_parseExpr [progress]:
  assumes "placed s" "4 * tokens_left s \<le> m + 1" "\<And>a s'. follows s s' \<Longrightarrow> tokens_left s' < tokens_left s \<Longrightarrow> Q a s'"
  shows "wp (parseExpr c b) Q s"
  unfolding parseExpr_def
proof (rule wp_bind, rule wp_mono_run)
  show "wp (expr_items c b) (\<lambda>_ s'. follows s s' \<and> tokens_left s' < tokens_left s) s"
    using assms(1,2) by (intro progress) simp_all
  fix xs s' assume "expr_items c b s = Inr (xs, s')" "follows s s' \<and> tokens_left s' < tokens_left s"
  with buildOperatorTree_total [OF expr_items_end] assms(3) show "wp (bindP (liftP (buildOperatorTree xs))
      (\<lambda>tree. case tree of PendingOp _ _ _ \<Rightarrow> failP Abort
        | Node expr \<Rightarrow> bindP (check_assignment b xs expr) (\<lambda>_. returnP expr))) Q s'"
    by (intro wp_rules progress) force+
qed

subsection \<open>Statements\<close>

lemma wp_parseBlock [progress]:
  "placed s \<Longrightarrow> 4 * tokens_left s + 1 \<le> m \<Longrightarrow> (\<And>a s'. follows s s' \<Longrightarrow> tokens_left s' < tokens_left s \<Longrightarrow> Q a s') \<Longrightarrow>
   wp (parseBlock c ts) Q s"
  unfolding parseBlock_def
  by (intro wp_joins wp_loopP_strict wp_rules progress) (simp_all add: follows_def)

lemma wp_parseBlockOrStmt [progress]:
  "placed s \<Longrightarrow> 4 * tokens_left s + 1 \<le> m \<Longrightarrow> (\<And>a s'. follows s s' \<Longrightarrow> tokens_left s' < tokens_left s \<Longrightarrow> Q a s') \<Longrightarrow>
   wp (parseBlockOrStmt c) Q s"
  unfolding parseBlockOrStmt_def
  by (intro wp_joins wp_rules progress) (simp_all add: follows_def)

lemma wp_inside_loop [progress]:
  assumes "placed s" and "\<And>t. placed t \<Longrightarrow> tokens_left t = tokens_left s \<Longrightarrow> wp k (moves_on t) t"
    and "\<And>a s'. follows s s' \<Longrightarrow> tokens_left s' \<le> tokens_left s \<Longrightarrow> Q a s'"
  shows "wp (inside_loop k) Q s"
proof -
  let ?t = "s\<lparr>m_inside_loop := True\<rparr>"
  have t: "placed ?t" "tokens_left ?t = tokens_left s"
    using assms(1) by (simp_all add: placed_def tokens_left_def in_tokens_def token_at_def)
  have "wp k (\<lambda>a s'. Q a (s'\<lparr>m_inside_loop := m_inside_loop s\<rparr>)) ?t"
    by (rule wp_mono [OF assms(2) [OF t]], rule assms(3))
       (auto simp: moves_on_def follows_def placed_def tokens_left_def in_tokens_def token_at_def constants_def)
  then show ?thesis
    by (simp add: inside_loop_def wp_def bindP_def getP_def updateP_def returnP_def split: sum.splits prod.splits)
qed

lemma wp_parseConditional [progress]:
  "placed s \<Longrightarrow> 4 * tokens_left s \<le> m \<Longrightarrow> (\<And>a s'. follows s s' \<Longrightarrow> tokens_left s' \<le> tokens_left s \<Longrightarrow> Q a s') \<Longrightarrow>
   wp (parseConditional c) Q s"
  unfolding parseConditional_def
  by (intro wp_joins wp_rules progress) (simp_all add: follows_def)

lemma wp_parseWhile [progress]:
  "placed s \<Longrightarrow> 4 * tokens_left s \<le> m \<Longrightarrow> (\<And>a s'. follows s s' \<Longrightarrow> tokens_left s' \<le> tokens_left s \<Longrightarrow> Q a s') \<Longrightarrow>
   wp (parseWhile c) Q s"
  unfolding parseWhile_def
  by (intro wp_joins wp_rules progress) (simp_all add: follows_def)

lemma wp_loop_body [progress]:
  "placed s \<Longrightarrow> 4 * tokens_left s + 2 \<le> m \<Longrightarrow> (\<And>a s'. follows s s' \<Longrightarrow> tokens_left s' \<le> tokens_left s \<Longrightarrow> Q a s') \<Longrightarrow>
   wp (loop_body c) Q s"
  unfolding loop_body_def
  by (intro wp_joins wp_rules progress) (simp_all add: follows_def)

lemma wp_for_in [progress]:
  "placed s \<Longrightarrow> 4 * tokens_left s \<le> m \<Longrightarrow> (\<And>a s'. follows s s' \<Longrightarrow> tokens_left s' \<le> tokens_left s \<Longrightarrow> Q a s') \<Longrightarrow>
   wp (for_in c x) Q s"
  unfolding for_in_def
  by (intro wp_joins wp_rules progress) (simp_all add: follows_def)

lemma wp_for_c_style [progress]:
  "placed s \<Longrightarrow> 4 * tokens_left s + 1 \<le> m \<Longrightarrow> (\<And>a s'. follows s s' \<Longrightarrow> tokens_left s' \<le> tokens_left s \<Longrightarrow> Q a s') \<Longrightarrow>
   wp (for_c_style c) Q s"
  unfolding for_c_style_def
  by (intro wp_joins wp_rules progress) (simp_all add: follows_def)

lemma wp_parseForLoop [progress]:
  "placed s \<Longrightarrow> 4 * tokens_left s + 1 \<le> m \<Longrightarrow> (\<And>a s'. follows s s' \<Longrightarrow> tokens_left s' \<le> tokens_left s \<Longrightarrow> Q a s') \<Longrightarrow>
   wp (parseForLoop c) Q s"
  unfolding parseForLoop_def
  by (intro wp_joins wp_rules progress) (simp_all add: follows_def)

lemma wp_parseLoopControl [progress]:
  "placed s \<Longrightarrow> (\<And>a s'. follows s s' \<Longrightarrow> tokens_left s' \<le> tokens_left s \<Longrightarrow> Q a s') \<Longrightarrow>
   wp (parseLoopControl) Q s"
  unfolding parseLoopControl_def
  by (intro wp_joins wp_rules progress) (simp_all add: follows_def)

lemma wp_parseReturn [progress]:
  "placed s \<Longrightarrow> 4 * tokens_left s \<le> m \<Longrightarrow> (\<And>a s'. follows s s' \<Longrightarrow> tokens_left s' \<le> tokens_left s \<Longrightarrow> Q a s') \<Longrightarrow>
   wp (parseReturn c) Q s"
  unfolding parseReturn_def
  by (intro wp_joins wp_rules progress) (simp_all add: follows_def)

lemma wp_parseThrow [progress]:
  "placed s \<Longrightarrow> 4 * tokens_left s \<le> m \<Longrightarrow> (\<And>a s'. follows s s' \<Longrightarrow> tokens_left s' \<le> tokens_left s \<Longrightarrow> Q a s') \<Longrightarrow>
   wp (parseThrow c) Q s"
  unfolding parseThrow_def
  by (intro wp_joins wp_rules progress) (simp_all add: follows_def)

lemma wp_parseTryCatch [progress]:
  "placed s \<Longrightarrow> 4 * tokens_left s \<le> m + 1 \<Longrightarrow> (\<And>a s'. follows s s' \<Longrightarrow> tokens_left s' \<le> tokens_left s \<Longrightarrow> Q a s') \<Longrightarrow>
   wp (parseTryCatch c) Q s"
  unfolding parseTryCatch_def
  by (intro wp_joins wp_rules progress) (simp_all add: follows_def)

lemma wp_case_arguments [progress]:
  "placed s \<Longrightarrow> (\<And>a s'. follows s s' \<Longrightarrow> tokens_left s' \<le> tokens_left s \<Longrightarrow> Q a s') \<Longrightarrow>
   wp (case_arguments) Q s"
  unfolding case_arguments_def
  by (intro wp_joins wp_rules progress) (simp_all add: follows_def)

lemma wp_named_case [progress]:
  "placed s \<Longrightarrow> 4 * tokens_left s \<le> m + 1 \<Longrightarrow> (\<And>a s'. follows s s' \<Longrightarrow> tokens_left s' < tokens_left s \<Longrightarrow> Q a s') \<Longrightarrow>
   wp (named_case c) Q s"
  unfolding named_case_def
  by (intro wp_joins wp_rules progress) (simp_all add: follows_def)

lemma wp_after_case [progress]:
  "placed s \<Longrightarrow> (\<And>a s'. follows s s' \<Longrightarrow> tokens_left s' < tokens_left s \<Longrightarrow> Q a s') \<Longrightarrow>
   wp (after_case b) Q s"
  unfolding after_case_def
  by (intro wp_joins wp_rules progress) (simp_all add: follows_def)

lemma wp_default_case [progress]:
  "placed s \<Longrightarrow> 4 * tokens_left s \<le> m + 1 \<Longrightarrow> (\<And>a s'. follows s s' \<Longrightarrow> tokens_left s' < tokens_left s \<Longrightarrow> Q a s') \<Longrightarrow>
   wp (default_case c) Q s"
  unfolding default_case_def
  by (intro wp_joins wp_rules progress) (simp_all add: follows_def)

lemma wp_expression_case [progress]:
  "placed s \<Longrightarrow> 4 * tokens_left s + 4 \<le> m \<Longrightarrow> (\<And>a s'. follows s s' \<Longrightarrow> tokens_left s' < tokens_left s \<Longrightarrow> Q a s') \<Longrightarrow>
   wp (expression_case c) Q s"
  unfolding expression_case_def
  by (intro wp_joins wp_rules progress) (simp_all add: follows_def)

lemma wp_switch_case [progress]:
  "placed s \<Longrightarrow> 4 * tokens_left s + 4 \<le> m \<Longrightarrow> (\<And>a s'. follows s s' \<Longrightarrow> tokens_left s' < tokens_left s \<Longrightarrow> Q a s') \<Longrightarrow>
   wp (switch_case c b) Q s"
  unfolding switch_case_def
  by (intro wp_joins wp_rules progress) (simp_all add: follows_def)

lemma wp_parseSwitch [progress]:
  "placed s \<Longrightarrow> 4 * tokens_left s \<le> m \<Longrightarrow> (\<And>a s'. follows s s' \<Longrightarrow> tokens_left s' \<le> tokens_left s \<Longrightarrow> Q a s') \<Longrightarrow>
   wp (parseSwitch c) Q s"
  unfolding parseSwitch_def
  by (intro wp_joins wp_rules progress) (simp_all add: follows_def)

lemma wp_visible_before [progress]:
  "placed s \<Longrightarrow> (\<And>a s'. follows s s' \<Longrightarrow> tokens_left s' \<le> tokens_left s \<Longrightarrow> Q a s') \<Longrightarrow>
   wp (visible_before) Q s"
  unfolding visible_before_def
  by (intro wp_joins wp_rules progress) (simp_all add: follows_def)

lemma wp_constant_qualifiers [progress]:
  "placed s \<Longrightarrow> (\<And>a s'. follows s s' \<Longrightarrow> tokens_left s' \<le> tokens_left s \<Longrightarrow> Q a s') \<Longrightarrow>
   wp (constant_qualifiers) Q s"
  unfolding constant_qualifiers_def
  by (intro wp_joins wp_rules progress) (simp_all add: follows_def)

lemma wp_parseVariable [progress]:
  "placed s \<Longrightarrow> 4 * tokens_left s \<le> m + 1 \<Longrightarrow> (\<And>a s'. follows s s' \<Longrightarrow> tokens_left s' \<le> tokens_left s \<Longrightarrow> Q a s') \<Longrightarrow>
   wp (parseVariable c) Q s"
  unfolding parseVariable_def
  by (intro wp_joins wp_rules progress) (simp_all add: follows_def)

lemma wp_parseConstant [progress]:
  "placed s \<Longrightarrow> 4 * tokens_left s \<le> m + 1 \<Longrightarrow> (\<And>a s'. follows s s' \<Longrightarrow> tokens_left s' \<le> tokens_left s \<Longrightarrow> Q a s') \<Longrightarrow>
   wp (parseConstant c) Q s"
  unfolding parseConstant_def
  by (intro wp_joins wp_rules progress) (simp_all add: follows_def)

lemma wp_parseTypeAlias [progress]:
  "placed s \<Longrightarrow> 4 * tokens_left s \<le> m + 1 \<Longrightarrow> (\<And>a s'. follows s s' \<Longrightarrow> tokens_left s' \<le> tokens_left s \<Longrightarrow> Q a s') \<Longrightarrow>
   wp (parseTypeAlias c) Q s"
  unfolding parseTypeAlias_def
  by (intro wp_joins wp_rules progress) (simp_all add: follows_def)

lemma wp_stmt_entry [progress]:
  "placed s \<Longrightarrow> (\<And>s'. follows s s' \<Longrightarrow> tokens_left s' = tokens_left s - 1 \<Longrightarrow> wp k Q s') \<Longrightarrow> wp (stmt_entry x k) Q s"
  unfolding stmt_entry_def by (intro wp_rules) simp_all

lemma wp_expression_statement [progress]:
  "placed s \<Longrightarrow> 4 * tokens_left s \<le> m \<Longrightarrow> (\<And>a s'. follows s s' \<Longrightarrow> tokens_left s' < tokens_left s \<Longrightarrow> Q a s') \<Longrightarrow>
   wp (expression_statement c) Q s"
  unfolding expression_statement_def
  by (intro wp_joins wp_rules progress) (simp_all add: follows_def)

lemma wp_parseStatement [progress]:
  "placed s \<Longrightarrow> 4 * tokens_left s \<le> m \<Longrightarrow>
   (\<And>a s'. follows s s' \<Longrightarrow> tokens_left s' < tokens_left s \<Longrightarrow> Q a s') \<Longrightarrow> wp (parseStatement c pk) Q s"
  unfolding parseStatement_def keyword_statement_def
  by (simp only: split: TokenType.split Symbol.split,
      intro conjI allI impI wp_case_some wp_joins wp_rules progress) (simp_all add: follows_def)

subsection \<open>Functions\<close>

lemma wp_fn_operator [progress]:
  "placed s \<Longrightarrow> (\<And>a s'. follows s s' \<Longrightarrow> tokens_left s' \<le> tokens_left s \<Longrightarrow> Q a s') \<Longrightarrow> wp fn_operator Q s"
  unfolding fn_operator_def Let_def
  by (rule wp_bind, rule wp_getP, simp only: split: TokenType.split Symbol.split,
      intro conjI allI impI wp_joins wp_rules progress) (simp_all add: follows_def)

lemma wp_fn_plain_name [progress]:
  "placed s \<Longrightarrow> (\<And>a s'. follows s s' \<Longrightarrow> tokens_left s' \<le> tokens_left s \<Longrightarrow> Q a s') \<Longrightarrow>
   wp (fn_plain_name b) Q s"
  unfolding fn_plain_name_def
  by (intro wp_joins wp_rules progress) (simp_all add: follows_def)

lemma wp_fn_names [progress]:
  "placed s \<Longrightarrow> (\<And>a s'. follows s s' \<Longrightarrow> tokens_left s' \<le> tokens_left s \<Longrightarrow> Q a s') \<Longrightarrow>
   wp (fn_names b b1 b2) Q s"
  unfolding fn_names_def
  by (intro wp_joins wp_rules progress) (simp_all add: follows_def getOperatorMangle_allowed)

lemma wp_default_arg [progress]:
  "placed s \<Longrightarrow> 4 * tokens_left s \<le> m \<Longrightarrow> (\<And>a s'. follows s s' \<Longrightarrow> tokens_left s' \<le> tokens_left s \<Longrightarrow> Q a s') \<Longrightarrow>
   wp (default_arg c) Q s"
  unfolding default_arg_def
  by (intro wp_joins wp_rules progress) (simp_all add: follows_def)

lemma wp_extern_param [progress]:
  "placed s \<Longrightarrow> 4 * tokens_left s \<le> m \<Longrightarrow> (\<And>a s'. follows s s' \<Longrightarrow> tokens_left s' < tokens_left s \<Longrightarrow> Q a s') \<Longrightarrow>
   wp (extern_param c ps) Q s"
  unfolding extern_param_def
  by (intro wp_joins wp_rules progress) (simp_all add: follows_def)

lemma wp_named_param [progress]:
  "placed s \<Longrightarrow> 4 * tokens_left s \<le> m + 1 \<Longrightarrow> (\<And>a s'. follows s s' \<Longrightarrow> tokens_left s' < tokens_left s \<Longrightarrow> Q a s') \<Longrightarrow>
   wp (named_param c b b1 ps) Q s"
  unfolding named_param_def
  by (intro wp_joins wp_rules progress) (simp_all add: follows_def)

lemma test_three_dots [wp_rules]: "test three_dots"
  unfolding three_dots_def by (intro wp_rules)

lemma wp_fn_param [progress]:
  "placed s \<Longrightarrow> 4 * tokens_left s \<le> m \<Longrightarrow> (\<And>a s'. follows s s' \<Longrightarrow> tokens_left s' < tokens_left s \<Longrightarrow> Q a s') \<Longrightarrow>
   wp (fn_param c b b1 b2 ps) Q s"
  unfolding fn_param_def
  by (intro wp_joins wp_rules progress) (simp_all add: follows_def)

lemma wp_fn_param_list [progress]:
  "placed s \<Longrightarrow> 4 * tokens_left s \<le> m + 1 \<Longrightarrow> (\<And>a s'. follows s s' \<Longrightarrow> tokens_left s' \<le> tokens_left s \<Longrightarrow> Q a s') \<Longrightarrow>
   wp (fn_param_list c b b1 b2) Q s"
  unfolding fn_param_list_def
  by (intro wp_joins wp_rules progress) (simp_all add: follows_def)

lemma wp_fn_return_type [progress]:
  "placed s \<Longrightarrow> 4 * tokens_left s \<le> m \<Longrightarrow> (\<And>a s'. follows s s' \<Longrightarrow> tokens_left s' \<le> tokens_left s \<Longrightarrow> Q a s') \<Longrightarrow>
   wp (fn_return_type c b) Q s"
  unfolding fn_return_type_def
  by (intro wp_joins wp_rules progress) (simp_all add: follows_def)

lemma wp_super_args [progress]:
  "placed s \<Longrightarrow> 4 * tokens_left s \<le> m + 1 \<Longrightarrow> (\<And>a s'. follows s s' \<Longrightarrow> tokens_left s' \<le> tokens_left s \<Longrightarrow> Q a s') \<Longrightarrow>
   wp (super_args c b) Q s"
  unfolding super_args_def
  by (intro wp_joins wp_rules progress) (simp_all add: follows_def)

lemma wp_init_args [progress]:
  "placed s \<Longrightarrow> 4 * tokens_left s \<le> m + 1 \<Longrightarrow> (\<And>a s'. follows s s' \<Longrightarrow> tokens_left s' \<le> tokens_left s \<Longrightarrow> Q a s') \<Longrightarrow>
   wp (init_args c) Q s"
  unfolding init_args_def
  by (intro wp_joins wp_rules progress) (simp_all add: follows_def)

lemma wp_constructor_header [progress]:
  "placed s \<Longrightarrow> m_current_class s \<noteq> None \<Longrightarrow> 4 * tokens_left s \<le> m + 1 \<Longrightarrow> (\<And>a s'. follows s s' \<Longrightarrow> tokens_left s' \<le> tokens_left s \<Longrightarrow> Q a s') \<Longrightarrow>
   wp (constructor_header c) Q s"
  unfolding constructor_header_def
  by (intro wp_joins wp_rules progress) (simp_all add: follows_def)

lemma wp_llvm_types [progress]:
  "placed s \<Longrightarrow> 4 * tokens_left s \<le> m + 1 \<Longrightarrow> (\<And>a s'. follows s s' \<Longrightarrow> tokens_left s' \<le> tokens_left s \<Longrightarrow> Q a s') \<Longrightarrow>
   wp (llvm_types c) Q s"
  unfolding llvm_types_def
  by (intro wp_joins wp_rules progress) (simp_all add: follows_def)

lemma wp_llvm_body [progress]:
  "placed s \<Longrightarrow> 4 * tokens_left s \<le> m + 1 \<Longrightarrow> (\<And>a s'. follows s s' \<Longrightarrow> tokens_left s' \<le> tokens_left s \<Longrightarrow> Q a s') \<Longrightarrow>
   wp (llvm_body c) Q s"
  unfolding llvm_body_def
  by (intro wp_joins wp_rules progress) (simp_all add: follows_def)

lemma wp_virtual_body [progress]:
  "placed s \<Longrightarrow> (\<And>a s'. follows s s' \<Longrightarrow> tokens_left s' \<le> tokens_left s \<Longrightarrow> Q a s') \<Longrightarrow>
   wp (virtual_body b) Q s"
  unfolding virtual_body_def
  by (intro wp_joins wp_rules progress) (simp_all add: follows_def)

lemma wp_fn_body [progress]:
  "placed s \<Longrightarrow> 4 * tokens_left s + 2 \<le> m \<Longrightarrow> (\<And>a s'. follows s s' \<Longrightarrow> tokens_left s' \<le> tokens_left s \<Longrightarrow> Q a s') \<Longrightarrow>
   wp (fn_body c b b1 b2 b3) Q s"
  unfolding fn_body_def
  by (intro wp_joins wp_rules progress) (simp_all add: follows_def)

lemma wp_fn_prefix [progress]:
  "placed s \<Longrightarrow> (\<And>a s'. follows s s' \<Longrightarrow> tokens_left s' \<le> tokens_left s \<Longrightarrow> Q a s') \<Longrightarrow>
   wp (fn_prefix b b1 b2) Q s"
  unfolding fn_prefix_def
  by (intro wp_joins wp_rules progress) (simp_all add: follows_def)

lemma wp_fn_generics [progress]:
  "placed s \<Longrightarrow> 4 * tokens_left s \<le> m + 1 \<Longrightarrow> (\<And>a s'. follows s s' \<Longrightarrow> tokens_left s' \<le> tokens_left s \<Longrightarrow> Q a s') \<Longrightarrow>
   wp (fn_generics c b) Q s"
  unfolding fn_generics_def
  by (intro wp_joins wp_rules progress) (simp_all add: follows_def)

lemma wp_fn_signature [progress]:
  "placed s \<Longrightarrow> 4 * tokens_left s \<le> m + 1 \<Longrightarrow> (\<And>a s'. follows s s' \<Longrightarrow> tokens_left s' < tokens_left s \<Longrightarrow> Q a s') \<Longrightarrow>
   wp (fn_signature c b b1 q) Q s"
  unfolding fn_signature_def
  by (intro wp_joins wp_rules progress) (simp_all add: follows_def)

lemma wp_fn_body_no_llvm:
  assumes "placed s" "4 * tokens_left s + 2 \<le> m" "\<not> llvm"
    and "\<And>b s'. follows s s' \<Longrightarrow> tokens_left s' \<le> tokens_left s \<Longrightarrow> (\<forall>code tys. b \<noteq> LLVMBody code tys) \<Longrightarrow> Q b s'"
  shows "wp (fn_body c ext vi ctor llvm) Q s"
  using assms unfolding fn_body_def virtual_body_def
  by (simp only: if_False, intro wp_bind_whenP wp_bind_ifP wp_rules progress) (simp_all add: follows_def)

lemma wp_fn_prefix_ctor:
  "placed s \<Longrightarrow> m_pending_attributes s = [] \<Longrightarrow>
   (\<And>q as s'. follows s s' \<Longrightarrow> tokens_left s' \<le> tokens_left s \<Longrightarrow> Q (q, False, as) s') \<Longrightarrow>
   wp (fn_prefix True False lam) Q s"
  unfolding fn_prefix_def simp_thms if_False
  by (intro wp_rules) (simp_all add: follows_def)

lemma wp_parseFunction [progress]:
  assumes "placed s" "4 * tokens_left s \<le> m + 1"
    and ctor: "ctor \<Longrightarrow> \<not> b1 \<and> m_current_class s \<noteq> None \<and> m_pending_attributes s = []"
    and Q: "\<And>a s'. follows s s' \<Longrightarrow> tokens_left s' < tokens_left s \<Longrightarrow> Q a s'"
  shows "wp (parseFunction c ctor b1 b2 b3) Q s"
proof (cases ctor)
  case False
  then show ?thesis using assms unfolding parseFunction_def
    by (simp only: False if_False simp_thms,
        intro wp_joins wp_rules progress) (simp_all add: follows_def unary_name_allowed fn_node_allowed)
next
  case True
  then show ?thesis using assms ctor [OF True] unfolding parseFunction_def
    by (simp only: True if_True simp_thms,
        intro wp_bind_if wp_rules wp_fn_prefix_ctor wp_fn_body_no_llvm progress)
       (simp_all add: follows_def unary_name_allowed fn_node_allowed)
qed

subsection \<open>Declarations\<close>

lemma wp_import_vars [progress]:
  "placed s \<Longrightarrow> (\<And>a s'. follows s s' \<Longrightarrow> tokens_left s' \<le> tokens_left s \<Longrightarrow> Q a s') \<Longrightarrow>
   wp (import_vars) Q s"
  unfolding import_vars_def
  by (intro wp_joins wp_rules progress) (simp_all add: follows_def)

lemma wp_import_path [progress]:
  "placed s \<Longrightarrow> (\<And>a s'. follows s s' \<Longrightarrow> tokens_left s' \<le> tokens_left s \<Longrightarrow> Q a s') \<Longrightarrow>
   wp (import_path ps) Q s"
  unfolding import_path_def
  by (intro wp_joins wp_rules progress) (simp_all add: follows_def)

lemma wp_parseImportStatement [progress]:
  "placed s \<Longrightarrow> (\<And>a s'. follows s s' \<Longrightarrow> tokens_left s' \<le> tokens_left s \<Longrightarrow> Q a s') \<Longrightarrow>
   wp (parseImportStatement) Q s"
  unfolding parseImportStatement_def
  by (intro wp_joins wp_rules progress) (simp_all add: follows_def)

lemma wp_parseNamespace [progress]:
  "placed s \<Longrightarrow> 4 * tokens_left s \<le> m + 1 \<Longrightarrow> (\<And>a s'. follows s s' \<Longrightarrow> tokens_left s' \<le> tokens_left s \<Longrightarrow> Q a s') \<Longrightarrow>
   wp (parseNamespace c) Q s"
  unfolding parseNamespace_def
  by (intro wp_joins wp_rules progress) (simp_all add: follows_def)

lemma wp_macro_const [progress]:
  "placed s \<Longrightarrow> (\<And>a s'. follows s s' \<Longrightarrow> tokens_left s' \<le> tokens_left s \<Longrightarrow> Q a s') \<Longrightarrow>
   wp (macro_const) Q s"
  unfolding macro_const_def
  by (intro wp_joins wp_rules progress) (simp_all add: follows_def)

lemma wp_macro_arg_type [progress]:
  "placed s \<Longrightarrow> (\<And>a s'. follows s s' \<Longrightarrow> tokens_left s' \<le> tokens_left s \<Longrightarrow> Q a s') \<Longrightarrow>
   wp (macro_arg_type) Q s"
  unfolding macro_arg_type_def
  by (intro wp_joins wp_rules progress) (simp_all add: follows_def)

lemma wp_macro_params [progress]:
  "placed s \<Longrightarrow> 4 * tokens_left s \<le> m + 1 \<Longrightarrow> (\<And>a s'. follows s s' \<Longrightarrow> tokens_left s' \<le> tokens_left s \<Longrightarrow> Q a s') \<Longrightarrow>
   wp (macro_params c) Q s"
  unfolding macro_params_def
  by (intro wp_joins wp_rules progress) (simp_all add: follows_def)

lemma wp_parseMacro [progress]:
  "placed s \<Longrightarrow> 4 * tokens_left s \<le> m + 1 \<Longrightarrow> (\<And>a s'. follows s s' \<Longrightarrow> tokens_left s' \<le> tokens_left s \<Longrightarrow> Q a s') \<Longrightarrow>
   wp (parseMacro c) Q s"
  unfolding parseMacro_def
  by (intro wp_joins wp_rules progress) (simp_all add: follows_def)

lemma wp_type_generics [progress]:
  "placed s \<Longrightarrow> 4 * tokens_left s \<le> m + 1 \<Longrightarrow> (\<And>a s'. follows s s' \<Longrightarrow> tokens_left s' \<le> tokens_left s \<Longrightarrow> Q a s') \<Longrightarrow>
   wp (type_generics c) Q s"
  unfolding type_generics_def
  by (intro wp_joins wp_rules progress) (simp_all add: follows_def)

lemma wp_struct_members [progress]:
  "placed s \<Longrightarrow> 4 * tokens_left s \<le> m + 1 \<Longrightarrow> (\<And>a s'. follows s s' \<Longrightarrow> tokens_left s' \<le> tokens_left s \<Longrightarrow> Q a s') \<Longrightarrow>
   wp (struct_members c) Q s"
  unfolding struct_members_def unexpected_member_def
  by (intro wp_joins wp_rules progress) (simp_all add: follows_def)

lemma wp_parseStructure [progress]:
  "placed s \<Longrightarrow> 4 * tokens_left s \<le> m + 1 \<Longrightarrow> (\<And>a s'. follows s s' \<Longrightarrow> tokens_left s' \<le> tokens_left s \<Longrightarrow> Q a s') \<Longrightarrow>
   wp (parseStructure c) Q s"
  unfolding parseStructure_def
  by (intro wp_joins wp_rules progress) (simp_all add: follows_def)

lemma wp_enum_fields [progress]:
  "placed s \<Longrightarrow> 4 * tokens_left s \<le> m + 1 \<Longrightarrow> (\<And>a s'. follows s s' \<Longrightarrow> tokens_left s' \<le> tokens_left s \<Longrightarrow> Q a s') \<Longrightarrow>
   wp (enum_fields c) Q s"
  unfolding enum_fields_def
  by (intro wp_joins wp_rules progress) (simp_all add: follows_def)

lemma wp_enum_members [progress]:
  "placed s \<Longrightarrow> 4 * tokens_left s \<le> m + 1 \<Longrightarrow> (\<And>a s'. follows s s' \<Longrightarrow> tokens_left s' \<le> tokens_left s \<Longrightarrow> Q a s') \<Longrightarrow>
   wp (enum_members c) Q s"
  unfolding enum_members_def unexpected_member_def
  by (intro wp_joins wp_rules progress) (simp_all add: follows_def)

lemma wp_parseEnum [progress]:
  "placed s \<Longrightarrow> 4 * tokens_left s \<le> m + 1 \<Longrightarrow> (\<And>a s'. follows s s' \<Longrightarrow> tokens_left s' \<le> tokens_left s \<Longrightarrow> Q a s') \<Longrightarrow>
   wp (parseEnum c) Q s"
  unfolding parseEnum_def
  by (intro wp_joins wp_rules progress) (simp_all add: follows_def)

lemma wp_no_extension [progress]: "Q () s \<Longrightarrow> wp (no_extension ci x) Q s"
  unfolding no_extension_def by (intro wp_rules)

lemma wp_no_interface [progress]: "Q () s \<Longrightarrow> wp (no_interface ci x) Q s"
  unfolding no_interface_def by (intro wp_rules)

lemma wp_qualifier [progress]:
  "placed s \<Longrightarrow> (\<And>a s'. follows s s' \<Longrightarrow> tokens_left s' \<le> tokens_left s \<Longrightarrow> Q a s') \<Longrightarrow>
   wp (qualifier ks x) Q s"
  unfolding qualifier_def
  by (intro wp_joins wp_rules progress) (simp_all add: follows_def)

lemma wp_class_static [progress]:
  "placed s \<Longrightarrow> (\<And>a s'. follows s s' \<Longrightarrow> tokens_left s' \<le> tokens_left s \<Longrightarrow> Q a s') \<Longrightarrow>
   wp (class_static x) Q s"
  unfolding class_static_def
  by (intro wp_joins wp_rules progress) (simp_all add: follows_def)

lemma wp_class_virtual [progress]:
  "placed s \<Longrightarrow> (\<And>a s'. follows s s' \<Longrightarrow> tokens_left s' \<le> tokens_left s \<Longrightarrow> Q a s') \<Longrightarrow>
   wp (class_virtual ci) Q s"
  unfolding class_virtual_def
  by (intro wp_joins wp_rules progress) (simp_all add: follows_def)

lemma wp_class_section [progress]:
  "placed s \<Longrightarrow> (\<And>a s'. follows s s' \<Longrightarrow> tokens_left s' \<le> tokens_left s \<Longrightarrow> Q a s') \<Longrightarrow>
   wp (class_section x b a) Q s"
  unfolding class_section_def
  by (intro wp_joins wp_rules progress) (simp_all add: follows_def)

lemma wp_class_constant [progress]:
  "placed s \<Longrightarrow> 4 * tokens_left s \<le> m + 1 \<Longrightarrow> (\<And>a s'. follows s s' \<Longrightarrow> tokens_left s' \<le> tokens_left s \<Longrightarrow> Q a s') \<Longrightarrow>
   wp (class_constant c ci a) Q s"
  unfolding class_constant_def
  by (intro wp_joins wp_rules progress) (simp_all add: follows_def)

lemma wp_class_variable [progress]:
  "placed s \<Longrightarrow> 4 * tokens_left s \<le> m + 1 \<Longrightarrow> (\<And>a s'. follows s s' \<Longrightarrow> tokens_left s' \<le> tokens_left s \<Longrightarrow> Q a s') \<Longrightarrow>
   wp (class_variable c ci a) Q s"
  unfolding class_variable_def
  by (intro wp_joins wp_rules progress) (simp_all add: follows_def)

lemma wp_class_alias [progress]:
  "placed s \<Longrightarrow> 4 * tokens_left s \<le> m + 1 \<Longrightarrow> (\<And>a s'. follows s s' \<Longrightarrow> tokens_left s' \<le> tokens_left s \<Longrightarrow> Q a s') \<Longrightarrow>
   wp (class_alias c ci a) Q s"
  unfolding class_alias_def
  by (intro wp_joins wp_rules progress) (simp_all add: follows_def)

lemma wp_class_child [progress]:
  "placed s \<Longrightarrow> wp k (moves_on s) s \<Longrightarrow> (\<And>a s'. follows s s' \<Longrightarrow> tokens_left s' \<le> tokens_left s \<Longrightarrow> Q a s') \<Longrightarrow>
   wp (class_child ci x k a) Q s"
  unfolding class_child_def by (intro wp_bind_join [where m = k] wp_rules progress) simp_all

lemma wp_class_constructor [progress]:
  "placed s \<Longrightarrow> m_current_class s \<noteq> None \<Longrightarrow> m_pending_attributes s = [] \<Longrightarrow> 4 * tokens_left s \<le> m \<Longrightarrow> (\<And>a s'. follows s s' \<Longrightarrow> tokens_left s' \<le> tokens_left s \<Longrightarrow> Q a s') \<Longrightarrow>
   wp (class_constructor c ci a) Q s"
  unfolding class_constructor_def
  by (intro wp_joins wp_rules progress) (simp_all add: follows_def getOperatorMangle_allowed)

lemma wp_class_identifier [progress]:
  "placed s \<Longrightarrow> m_current_class s \<noteq> None \<Longrightarrow> 4 * tokens_left s \<le> m \<Longrightarrow> (\<And>a s'. follows s s' \<Longrightarrow> tokens_left s' \<le> tokens_left s \<Longrightarrow> Q a s') \<Longrightarrow>
   wp (class_identifier c ci a) Q s"
  unfolding class_identifier_def unexpected_in_class_def
  by (intro wp_joins wp_rules progress) (simp_all add: follows_def)

lemma wp_class_member [progress]:
  "placed s \<Longrightarrow> m_current_class s \<noteq> None \<Longrightarrow> 4 * tokens_left s \<le> m + 1 \<Longrightarrow>
   (\<And>a s'. follows s s' \<Longrightarrow> tokens_left s' < tokens_left s \<Longrightarrow> Q a s') \<Longrightarrow> wp (class_member c ci a) Q s"
  unfolding class_member_def class_keyword_def class_qualifier_def unexpected_in_class_def
  by (rule wp_bind, rule wp_next, assumption, simp only: split: TokenType.split Symbol.split,
      intro conjI allI impI wp_case_some wp_joins wp_rules progress) (simp_all add: follows_def)

lemma wp_class_body [progress]:
  assumes "placed s" "4 * tokens_left s \<le> m + 1"
    and "\<And>a s'. follows s s' \<Longrightarrow> tokens_left s' \<le> tokens_left s \<Longrightarrow> Q a s'"
  shows "wp (class_body c ci p) Q s"
proof -
  let ?t = "s\<lparr>m_current_class := Some p\<rparr>"
  have t: "placed ?t" "tokens_left ?t = tokens_left s"
    using assms(1) by (simp_all add: placed_def tokens_left_def in_tokens_def token_at_def)
  have "wp (loopP (class_member c ci) new_class_acc) (moves_on ?t) ?t"
    using t assms(2) by (intro wp_rules progress) (simp_all add: follows_def loop_post_def split: sum.splits)
  then have "wp (loopP (class_member c ci) new_class_acc)
      (\<lambda>a s'. Q a (s'\<lparr>m_current_class := m_current_class s\<rparr>)) ?t"
    by (rule wp_mono, intro assms(3))
       (auto simp: moves_on_def follows_def placed_def tokens_left_def in_tokens_def token_at_def constants_def)
  then show ?thesis
    by (simp add: class_body_def wp_def bindP_def getP_def updateP_def returnP_def split: sum.splits prod.splits)
qed

lemma wp_class_name [progress]:
  "placed s \<Longrightarrow> (\<And>a s'. follows s s' \<Longrightarrow> tokens_left s' \<le> tokens_left s \<Longrightarrow> Q a s') \<Longrightarrow>
   wp (class_name) Q s"
  unfolding class_name_def
  by (intro wp_joins wp_rules progress) (simp_all add: follows_def)

lemma wp_class_impls [progress]:
  "placed s \<Longrightarrow> 4 * tokens_left s \<le> m + 1 \<Longrightarrow> (\<And>a s'. follows s s' \<Longrightarrow> tokens_left s' \<le> tokens_left s \<Longrightarrow> Q a s') \<Longrightarrow>
   wp (class_impls c) Q s"
  unfolding class_impls_def
  by (intro wp_joins wp_rules progress) (simp_all add: follows_def)

lemma wp_builtin_name [progress]: "(\<And>x. Q x s) \<Longrightarrow> wp (builtin_name as x) Q s"
  unfolding builtin_name_def by (intro wp_rules)

lemma wp_class_parent [progress]:
  "placed s \<Longrightarrow> 4 * tokens_left s \<le> m + 1 \<Longrightarrow> (\<And>a s'. follows s s' \<Longrightarrow> tokens_left s' \<le> tokens_left s \<Longrightarrow> Q a s') \<Longrightarrow>
   wp (class_parent c) Q s"
  unfolding class_parent_def
  by (intro wp_joins wp_rules progress) (simp_all add: follows_def)

lemma wp_parseClass [progress]:
  "placed s \<Longrightarrow> 4 * tokens_left s \<le> m + 1 \<Longrightarrow> (\<And>a s'. follows s s' \<Longrightarrow> tokens_left s' < tokens_left s \<Longrightarrow> Q a s') \<Longrightarrow>
   wp (parseClass c) Q s"
  unfolding parseClass_def
  by (intro wp_joins wp_rules progress) (simp_all add: follows_def)

lemma wp_global_qualifier [progress]:
  "placed s \<Longrightarrow> (\<And>a s'. follows s s' \<Longrightarrow> tokens_left s' \<le> tokens_left s \<Longrightarrow> Q a s') \<Longrightarrow>
   wp (global_qualifier ks b x) Q s"
  unfolding global_qualifier_def
  by (intro wp_joins wp_rules progress) (simp_all add: follows_def)

lemma wp_global_item [progress]:
  "placed s \<Longrightarrow> 4 * tokens_left s \<le> m \<Longrightarrow>
   (\<And>a s'. follows s s' \<Longrightarrow> tokens_left s' \<le> tokens_left s \<Longrightarrow> Q a s') \<Longrightarrow> wp (global_item c ns) Q s"
  unfolding global_item_def global_declaration_def global_qualifiers_def unexpected_global_def
  by (rule wp_bind, rule wp_getP, simp only: split: TokenType.split Symbol.split,
      intro conjI allI impI wp_case_some wp_joins wp_rules progress) (simp_all add: follows_def)

lemma wp_step_unless_eof:
  "placed t \<Longrightarrow> (\<And>s'. follows t s' \<Longrightarrow> tokens_left s' \<le> tokens_left t \<Longrightarrow>
     (\<not> tok_is TK_EOF (m_current t) \<longrightarrow> tokens_left s' < tokens_left t) \<Longrightarrow> Q () s') \<Longrightarrow>
   wp (whenP (notP (cur_is TK_EOF)) (bindP nextT (\<lambda>_. returnP ()))) Q t"
  unfolding whenP_def ifP_def notP_def by (intro wp_bind wp_rules) (simp_all add: follows_refl)

lemma wp_parseGlobal [progress]:
  assumes "placed s" "4 * tokens_left s \<le> m"
    and "\<And>a s'. follows s s' \<Longrightarrow> tokens_left s' \<le> tokens_left s \<Longrightarrow> Q a s'"
  shows "wp (parseGlobal c term) Q s"
proof -
  have item: "wp (global_item c ns)
      (\<lambda>ns' t. follows r t \<and> tokens_left t \<le> tokens_left r \<and> (tok_is TK_EOF (m_current t) \<longrightarrow> tokens_left t < tokens_left r)) r"
    if "placed r" "4 * tokens_left r \<le> m" for ns r
  proof (cases "tok_is TK_EOF (m_current r)")
    case True
    then show ?thesis unfolding global_item_def
      by (intro wp_rules) (simp add: tok_is_def, intro wp_rules)
  next
    case False
    have "tokens_left t < tokens_left r" if "follows r t" "tokens_left t \<le> tokens_left r" "tok_is TK_EOF (m_current t)" for t
      using follows_current [OF \<open>placed r\<close> that(1)] that False by force
    with that show ?thesis by (intro wp_global_item) auto
  qed
  have body: "wp (ifP (cur_is term) (breakP ns) (bindP (global_item c ns) (\<lambda>ns'.
        bindP (whenP (notP (cur_is TK_EOF)) (bindP nextT (\<lambda>_. returnP ()))) (\<lambda>_. continueP ns'))))
      (loop_post (\<lambda>t. tokens_left t \<le> tokens_left s) s r) r"
    if "follows s r" "tokens_left r \<le> tokens_left s" for ns r
  proof (intro wp_rules)
    have r: "placed r" "4 * tokens_left r \<le> m" using that assms(2) by (simp_all add: follows_def)
    show "wp (global_item c ns) (\<lambda>ns'. wp (bindP (whenP (notP (cur_is TK_EOF))
        (bindP nextT (\<lambda>_. returnP ()))) (\<lambda>_. continueP ns')) (loop_post (\<lambda>t. tokens_left t \<le> tokens_left s) s r)) r"
      by (rule wp_mono [OF item [OF r]], intro wp_bind wp_step_unless_eof wp_rules)
         (use that in \<open>auto simp: follows_def\<close>)
  qed (use that in simp_all)
  show ?thesis
    unfolding parseGlobal_def
    by (rule wp_bind, rule wp_loopP, rule assms(1), rule body; (intro wp_rules assms(3))?; assumption?)
qed

subsection \<open>The knot\<close>

lemma call_all_progressing: "progressing_calls (call_all c) (m + 1)"
  by unfold_locales (simp_all add: call_all_def, (rule progress; simp)+)

end

lemma progressing_calls_at: "progressing_calls (calls_at n) (int n)"
proof (induction n)
  case 0
  have "\<not> (placed s \<and> 4 * tokens_left s \<le> 0)" for s using tokens_left_pos [of s] by auto
  then show ?case by unfold_locales (use tokens_left_pos in \<open>force+\<close>)
next
  case (Suc n)
  then show ?case
    using progressing_calls.call_all_progressing [OF Suc] by (simp add: add.commute)
qed

interpretation calls_progress: progressing_calls "calls_at n" "int n" for n
  by (rule progressing_calls_at)

end
