(* ===== verification/Parser_Run.thy ===== *)
theory Parser_Run
  imports Parser
begin

text \<open>
  Running the routines of the parser symbolically: the state is a place in the tokens, and the
  equations of the collection \<open>run_simps\<close> carry a routine from one place to the next.
\<close>

section \<open>Places\<close>

named_theorems run_simps \<open>equations that execute the routines of the parser\<close>

definition seek :: "pstate \<Rightarrow> int \<Rightarrow> pstate" where
  "seek s i = s\<lparr>m_tok_index := i, m_current := token_at s i\<rparr>"

lemma seek_sel [simp]:
  "m_tok_index (seek s i) = i" "m_current (seek s i) = token_at s i" "m_tokens (seek s i) = m_tokens s"
  "m_current_class (seek s i) = m_current_class s" "m_inside_loop (seek s i) = m_inside_loop s"
  "m_allow_comments (seek s i) = m_allow_comments s"
  "m_pending_attributes (seek s i) = m_pending_attributes s" "m_source (seek s i) = m_source s"
  by (simp_all add: seek_def)

lemma seek_tokens [simp]:
  "in_tokens (seek s i) k = in_tokens s k" "token_at (seek s i) k = token_at s k"
  "seek (seek s i) k = seek s k"
  by (simp_all add: in_tokens_def token_at_def seek_def)

lemma run_basic [run_simps]:
  "returnP a s = Inr (a, s)" "failP e s = Inl e" "getP f s = Inr (f s, s)" "updateP g s = Inr ((), g s)"
  "bindP m k s = (case m s of Inl e \<Rightarrow> Inl e | Inr (a, s') \<Rightarrow> k a s')"
  "liftP r s = (case r of Inl e \<Rightarrow> Inl e | Inr a \<Rightarrow> Inr (a, s))"
  by (simp_all add: returnP_def failP_def getP_def updateP_def bindP_def liftP_def)

lemma run_control [run_simps]:
  "ifP c m n s = (case c s of Inl e \<Rightarrow> Inl e | Inr (b, s') \<Rightarrow> if b then m s' else n s')"
  "whenP c u s = ifP c u (returnP ()) s" "assertP b s = (if b then Inr ((), s) else Inl AssertFail)"
  "andP x y s = ifP x y (returnP False) s" "orP x y s = ifP x (returnP True) y s"
  "notP x s = (case x s of Inl e \<Rightarrow> Inl e | Inr (b, s') \<Rightarrow> Inr (\<not> b, s'))"
  by (simp_all add: ifP_def bindP_def whenP_def assertP_def andP_def orP_def notP_def returnP_def
      failP_def split: sum.split)

lemma run_move [run_simps]:
  "next_by k (seek s i) = (if in_tokens s (i + (k + 1))
     then Inr (token_at s (i + (k + 1)), seek s (i + (k + 1)))
     else createError BUG ''Index error'' (seek s i))"
  "prev_by k False (seek s i) = (if in_tokens s (i - (k + 1))
     then Inr (token_at s (i - (k + 1)), seek s (i - (k + 1)))
     else createError BUG ''Index error'' (seek s i))"
  "peek k b (seek s i) = (if in_tokens s ((i + 1) + k) then Inr (token_at s ((i + 1) + k), seek s i)
     else if b then Inr (eof_token, seek s i)
     else createError BUG ''Parser::peek() index out of bounds'' (seek s i))"
  by (simp_all add: next_by_def prev_by_def peek_def Let_def seek_def token_at_def in_tokens_def)

lemma run_test [run_simps]:
  "cur_is ty s = Inr (tok_is ty (m_current s), s)"
  "pk_is k b ty s = (case peek k b s of Inl e \<Rightarrow> Inl e | Inr (t, s') \<Rightarrow> Inr (tok_is ty t, s'))"
  "isTypeValid s = Inr (tok_type (m_current s) \<in> set type_starts, s)"
  by (simp_all add: cur_is_def pk_is_def isTypeValid_def bindP_def getP_def returnP_def)

lemma run_assert [run_simps]:
  "tok_type (m_current s) = ty \<Longrightarrow> assert_tok ty e s = Inr (m_current s, s)"
  "tok_type (m_current s) = ty \<Longrightarrow> consume_tok ty e s = nextT s"
  "tok_type (m_current s) = IDENTIFIER \<Longrightarrow> ident_string e s = Inr (token_to_string (m_current s), s)"
  "tok_type (m_current s) \<in> set type_starts \<Longrightarrow> throwIfNotType s = Inr ((), s)"
  by (simp_all add: assert_tok_def consume_tok_def ident_string_def throwIfNotType_def run_basic run_control
      run_test tok_is_def)

section \<open>Calls and loops\<close>

lemma run_calls [run_simps]:
  "c_type (calls_at (Suc n)) = parseType (calls_at n)"
  "c_expr (calls_at (Suc n)) = parseExpr (calls_at n)"
  "c_stmt (calls_at (Suc n)) = parseStatement (calls_at n)"
  "c_block (calls_at (Suc n)) = parseBlock (calls_at n)"
  "c_function (calls_at (Suc n)) = parseFunction (calls_at n)"
  "c_class (calls_at (Suc n)) = parseClass (calls_at n)"
  "c_global (calls_at (Suc n)) = parseGlobal (calls_at n)"
  by (simp_all add: call_all_def)

lemma loopN_continue: "body v s = Inr (Inl v', s') \<Longrightarrow> loopN (Suc n) body v s = loopN n body v' s'"
  by (simp add: run_basic)

lemma loopN_break: "body v s = Inr (Inr a, s') \<Longrightarrow> loopN (Suc n) body v s = Inr (a, s')"
  by (simp add: run_basic)

lemma loopP_seek: "loopP body v (seek s i) = loopN (Suc (length (m_tokens s))) body v (seek s i)"
  by (simp add: loopP_def)

declare calls_at.simps [simp del] loopN.simps [simp del]

section \<open>Reading tokens\<close>

text \<open>What the parser sees of a token besides its position.\<close>

type_synonym lexeme = "TokenType \<times> string"

definition lexeme_of :: "Token \<Rightarrow> lexeme" where
  "lexeme_of t = (tok_type t, token_to_string t)"

primrec reads_at :: "pstate \<Rightarrow> int \<Rightarrow> lexeme list \<Rightarrow> bool" where
  "reads_at s i [] = True"
| "reads_at s i (l # ls) =
     (in_tokens s i \<and> lexeme_of (token_at s i) = l \<and> reads_at s (i + 1) ls)"

lemma reads_at_append [simp]:
  "reads_at s i (xs @ ys) \<longleftrightarrow> reads_at s i xs \<and> reads_at s (i + int (length xs)) ys"
  by (induction xs arbitrary: i) (auto simp: ac_simps)

lemma reads_at_lexeme:
  "lexeme_of t = (ty, x) \<longleftrightarrow> tok_type t = ty \<and> token_to_string t = x"
  by (simp add: lexeme_of_def)

lemma reads_at_length: "reads_at s i ls \<Longrightarrow> 0 \<le> i \<Longrightarrow> ls \<noteq> [] \<Longrightarrow> i + int (length ls) \<le> int (length (m_tokens s))"
proof (induction ls arbitrary: i)
  case (Cons l ls)
  then show ?case using Cons.IH [of "i + 1"] by (cases ls) (auto simp: in_tokens_def)
qed simp

end
