(* ===== verification/Parser_Type_Syntax.thy ===== *)
theory Parser_Type_Syntax
  imports Parser_Run
begin

text \<open>
  The grammar of types as a datatype, the tokens it prints to and the node it stands for, and the
  proof that \<^verbatim>\<open>Parser::parseType\<close> reads the one back as the other.
\<close>

section \<open>The grammar\<close>

datatype type_syntax =
    TName segment "segment list"
  | TTuple "type_syntax list"
  | TFunc "type_syntax list" type_syntax
  | TPointer bool type_syntax
  | TReference bool type_syntax
and segment = Plain string | Gen string "type_syntax list"

fun commas :: "lexeme list list \<Rightarrow> lexeme list" where
  "commas [] = []"
| "commas [xs] = xs"
| "commas (xs # ys # zs) = xs @ (Sym SYM_COMMA, '','') # commas (ys # zs)"

primrec print_type :: "type_syntax \<Rightarrow> lexeme list" and print_segment :: "segment \<Rightarrow> lexeme list" where
  "print_type (TName x xs) =
     print_segment x @ concat (map ((#) (Sym SYM_COLCOL, ''::'')) (map print_segment xs))"
| "print_type (TTuple ts) =
     (Sym BRACKET_LPARENT, ''('') # commas (map print_type ts) @ [(Sym BRACKET_RPARENT, '')'')]"
| "print_type (TFunc ts r) = (Kword KWORD_FUNC, ''func'') # (Sym BRACKET_LPARENT, ''('')
     # commas (map print_type ts) @ (Sym BRACKET_RPARENT, '')'') # (Op OP_ARROW, ''=>'') # print_type r"
| "print_type (TPointer m t) = (Op OP_MUL, ''*'')
     # (if m then (Kword KWORD_MUTABLE, ''mut'') else (Kword KWORD_CONST, ''const'')) # print_type t"
| "print_type (TReference m t) = (Op OP_BIT_AND, ''&'')
     # (if m then [(Kword KWORD_MUTABLE, ''mut'')] else []) @ print_type t"
| "print_segment (Plain x) = [(IDENTIFIER, x)]"
| "print_segment (Gen x ts) = (IDENTIFIER, x) # (Op OP_LT, ''<'')
     # commas (map print_type ts) @ [(Op OP_GT, ''>'')]"

primrec type_node :: "type_syntax \<Rightarrow> node" and segment_node :: "segment \<Rightarrow> node" where
  "type_node (TName x xs) =
     (let i = segment_node x; is = map segment_node xs in
      TypeRef (identifier_name i @ concat (map (\<lambda>j. ''::'' @ identifier_name j) is))
        (identifier_generics (last (i # is)))
        (identifier_name i @ concat (map (\<lambda>j. ''.'' @ identifier_name j) is))
        (Some (foldl (\<lambda>a j. Index a j True) i is)))"
| "type_node (TTuple ts) = TupleType (map type_node ts)"
| "type_node (TFunc ts r) = FuncType (map type_node ts) (type_node r)"
| "type_node (TPointer m t) = PointerTypeRef (type_node t) m"
| "type_node (TReference m t) = ReferenceTypeRef (type_node t) m"
| "segment_node (Plain x) = Identifier x"
| "segment_node (Gen x ts) = GenericIdentifier x (map type_node ts)"

section \<open>Parsing\<close>

text \<open>Neither a longer path nor generics may follow the printed type.\<close>

definition ends_at :: "pstate \<Rightarrow> int \<Rightarrow> bool" where
  "ends_at s j \<longleftrightarrow> in_tokens s j \<and> tok_type (token_at s j) \<noteq> Op OP_LT
     \<and> tok_type (token_at s j) \<noteq> Sym SYM_COLCOL"

definition parses :: "nat \<Rightarrow> type_syntax \<Rightarrow> bool" where
  "parses n t \<longleftrightarrow> (\<forall>s i. 0 \<le> i \<longrightarrow> reads_at s i (print_type t) \<longrightarrow> ends_at s (i + int (length (print_type t))) \<longrightarrow>
     parseType (calls_at n) (seek s i) = Inr (type_node t, seek s (i + int (length (print_type t)))))"

lemma parsesD:
  "parses n t \<Longrightarrow> 0 \<le> i \<Longrightarrow> reads_at s i (print_type t) \<Longrightarrow> ends_at s j \<Longrightarrow>
   j = i + int (length (print_type t)) \<Longrightarrow>
   parseType (calls_at n) (seek s i) = Inr (type_node t, seek s j)"
  by (simp add: parses_def)

lemma print_type_head: "\<exists>h ls. print_type t = h # ls \<and> fst h \<in> set type_starts"
  "\<exists>x ls. print_segment g = (IDENTIFIER, x) # ls"
  by (induction t and g) (auto simp: type_starts_def)

lemma reads_type_head:
  "reads_at s i (print_type t) \<Longrightarrow> in_tokens s i \<and> tok_type (token_at s i) \<in> set type_starts"
  using print_type_head(1) [of t] by (auto simp: reads_at_lexeme lexeme_of_def)

lemma type_start_not:
  "ty \<in> set type_starts \<Longrightarrow> ty \<noteq> TK_EOF \<and> ty \<noteq> Sym BRACKET_RPARENT \<and> ty \<noteq> Op OP_GT
     \<and> ty \<noteq> Sym SYM_QUESTION \<and> ty \<noteq> Sym SYM_COMMA"
  by (auto simp: type_starts_def)

text \<open>
  A list of types behind an opening bracket or a comma at \<open>i\<close>, up to the closing token at \<open>j\<close>: the loops
  of tuples, functions and generics share it.
\<close>

lemma type_list_run:
  assumes step: "\<And>acc k t. parses m t \<Longrightarrow> reads_at s (k + 1) (print_type t) \<Longrightarrow> 0 \<le> k \<Longrightarrow>
      in_tokens s (k + 1 + int (length (print_type t))) \<Longrightarrow>
      tok_type (token_at s (k + 1 + int (length (print_type t)))) = Sym SYM_COMMA \<Longrightarrow>
      tok_type (token_at s k) \<noteq> close \<Longrightarrow>
      body acc (seek s k) = Inr (Inl (acc @ [type_node t]), seek s (k + 1 + int (length (print_type t))))"
    and final: "\<And>acc k t. parses m t \<Longrightarrow> reads_at s (k + 1) (print_type t) \<Longrightarrow> 0 \<le> k \<Longrightarrow>
      in_tokens s (k + 1 + int (length (print_type t))) \<Longrightarrow>
      tok_type (token_at s (k + 1 + int (length (print_type t)))) = close \<Longrightarrow>
      tok_type (token_at s k) \<noteq> close \<Longrightarrow> in_tokens s (k + 1 + int (length (print_type t)) + d) \<Longrightarrow>
      loopN (Suc (Suc n')) body acc (seek s k)
        = Inr (acc @ [type_node t], seek s (k + 1 + int (length (print_type t)) + d))"
    and "close \<noteq> Sym SYM_COMMA"
    and "ts \<noteq> []" "\<forall>t\<in>set ts. parses m t" "0 \<le> i" "tok_type (token_at s i) \<noteq> close"
    and "reads_at s (i + 1) (commas (map print_type ts))"
    and "j = i + 1 + int (length (commas (map print_type ts)))"
    and "in_tokens s j" "in_tokens s (j + d)" "tok_type (token_at s j) = close"
  shows "loopN (Suc (Suc n') + length ts - 1) body acc (seek s i) = Inr (acc @ map type_node ts, seek s (j + d))"
  using assms(4-)
proof (induction ts arbitrary: i acc rule: list_nonempty_induct)
  case (single t)
  then show ?case using final [of t i acc] by simp
next
  case (cons t ts)
  then obtain u us where ts: "ts = u # us" by (cases ts) auto
  let ?k = "i + 1 + int (length (print_type t))"
  from cons.prems ts have t: "parses m t" "reads_at s (i + 1) (print_type t)" "in_tokens s ?k"
      "tok_type (token_at s ?k) = Sym SYM_COMMA" and us: "reads_at s (?k + 1) (commas (map print_type ts))"
    by (simp_all add: reads_at_lexeme lexeme_of_def)
  have "body acc (seek s i) = Inr (Inl (acc @ [type_node t]), seek s ?k)"
    using step [OF t(1,2) _ t(3,4)] cons.prems(2,3) by simp
  then have "loopN (Suc (Suc n') + length (t # ts) - 1) body acc (seek s i)
      = loopN (Suc (Suc n') + length ts - 1) body (acc @ [type_node t]) (seek s ?k)"
    using loopN_continue [of body acc "seek s i" _ _ "Suc n' + length ts"] by simp
  also have "\<dots> = Inr ((acc @ [type_node t]) @ map type_node ts, seek s (j + d))"
    using cons.prems us ts t(4) assms(3) by (intro cons.IH) simp_all
  finally show ?case by simp
qed

text \<open>The type starts like a type; the case of the routine is chosen by the first token.\<close>

lemma parseType_run:
  assumes "in_tokens s i" "tok_type (token_at s i) \<in> set type_starts"
  shows "parseType c (seek s i) =
    (if tok_is (Kword KWORD_DECLTYPE) (token_at s i) then parseType_decltype c
     else if tok_is (Kword KWORD_FUNC) (token_at s i) then parseType_func c
     else if tok_is (Sym BRACKET_LPARENT) (token_at s i) then parseType_tuple c
     else if tok_is (Op OP_MUL) (token_at s i) then parseType_pointer c
     else if tok_is (Op OP_AND) (token_at s i) \<or> tok_is (Op OP_BIT_AND) (token_at s i)
     then parseType_reference c else parseType_named c) (seek s i)"
  using assms by (simp add: parseType_def run_simps)

lemma ends_at_close:
  "in_tokens s j \<Longrightarrow> tok_type (token_at s j) = Sym x \<Longrightarrow> x \<noteq> SYM_COLCOL \<Longrightarrow> ends_at s j"
  "in_tokens s j \<Longrightarrow> tok_type (token_at s j) = Op OP_GT \<Longrightarrow> ends_at s j"
  by (simp_all add: ends_at_def)

lemma call_type_run:
  assumes "parses n t" "reads_at s k (print_type t)" "0 \<le> k" "ends_at s (k + int (length (print_type t)))"
  shows "c_type (calls_at (Suc n)) (seek s k) = Inr (type_node t, seek s (k + int (length (print_type t))))"
  using assms by (simp only: run_calls) (intro parsesD; simp)

lemma round_run:
  assumes "parses n t" "reads_at s (k + 1) (print_type t)" "0 \<le> k"
    "in_tokens s (k + 1 + int (length (print_type t)))"
    "tok_type (token_at s (k + 1 + int (length (print_type t)))) = ty"
  shows "ty = Sym SYM_COMMA \<or> ty = Sym BRACKET_RPARENT \<Longrightarrow> tuple_round (calls_at (Suc n)) acc (seek s k) =
      Inr (if ty = Sym SYM_COMMA then Inl (acc @ [type_node t]) else Inr (acc @ [type_node t]),
        seek s (k + 1 + int (length (print_type t))))"
    and "ty = Sym SYM_COMMA \<or> ty = Sym BRACKET_RPARENT \<Longrightarrow> \<not> tok_is (Sym BRACKET_RPARENT) (token_at s k) \<Longrightarrow>
      func_round (calls_at (Suc n)) acc (seek s k) =
      Inr (Inl (acc @ [type_node t]), seek s (k + 1 + int (length (print_type t))))"
    and "ty = Sym SYM_COMMA \<Longrightarrow> generic_round (calls_at (Suc n)) acc (seek s k) =
      Inr (Inl (acc @ [type_node t]), seek s (k + 1 + int (length (print_type t))))"
    and "ty = Op OP_GT \<Longrightarrow> in_tokens s (k + 2 + int (length (print_type t))) \<Longrightarrow>
      generic_round (calls_at (Suc n)) acc (seek s k) =
      Inr (Inr (acc @ [type_node t]), seek s (k + 2 + int (length (print_type t))))"
proof -
  note st = reads_type_head [OF assms(2)] 
  note ns = type_start_not [OF st [THEN conjunct2]]
  have end1: "ends_at s (k + 1 + int (length (print_type t)))" if "ty = Sym SYM_COMMA \<or> ty = Sym BRACKET_RPARENT"
    using that assms(4,5) ends_at_close(1) by blast
  note call = call_type_run [OF assms(1,2) _ end1] call_type_run [OF assms(1,2) _ ends_at_close(2) [OF assms(4)]]
  show "tuple_round (calls_at (Suc n)) acc (seek s k) =
      Inr (if ty = Sym SYM_COMMA then Inl (acc @ [type_node t]) else Inr (acc @ [type_node t]),
        seek s (k + 1 + int (length (print_type t))))" if "ty = Sym SYM_COMMA \<or> ty = Sym BRACKET_RPARENT"
    using that st ns assms(3,5) call(1) by (auto simp: tuple_round_def run_simps tok_is_def Let_def)
  show "func_round (calls_at (Suc n)) acc (seek s k) =
      Inr (Inl (acc @ [type_node t]), seek s (k + 1 + int (length (print_type t))))"
    if "ty = Sym SYM_COMMA \<or> ty = Sym BRACKET_RPARENT" "\<not> tok_is (Sym BRACKET_RPARENT) (token_at s k)"
    using that st ns assms(3,5) call(1) by (auto simp: func_round_def run_simps tok_is_def)
  show "generic_round (calls_at (Suc n)) acc (seek s k) =
      Inr (Inl (acc @ [type_node t]), seek s (k + 1 + int (length (print_type t))))" if "ty = Sym SYM_COMMA"
    using that st ns assms(3,5) call(1) by (auto simp: generic_round_def run_simps tok_is_def Let_def)
  show "generic_round (calls_at (Suc n)) acc (seek s k) =
      Inr (Inr (acc @ [type_node t]), seek s (k + 2 + int (length (print_type t))))"
    if "ty = Op OP_GT" "in_tokens s (k + 2 + int (length (print_type t)))"
    using that st ns assms(3,5) call(2) by (auto simp: generic_round_def run_simps tok_is_def Let_def ac_simps)
qed

lemma length_commas: "length ts \<le> length (commas (map print_type ts))"
proof (induction ts rule: induct_list012)
  case (2 t)
  then show ?case using print_type_head(1) [of t] by auto
next
  case (3 t u us)
  then show ?case using print_type_head(1) [of t] by auto
qed simp

lemma list_fuel:
  assumes "reads_at s (i + 1) (commas (map print_type ts))" "0 \<le> i" "ts \<noteq> []"
  shows "\<exists>n'. Suc (length (m_tokens s)) = Suc (Suc n') + length ts - 1"
proof -
  have "int (length ts) \<le> int (length (m_tokens s))"
    using reads_at_length [OF assms(1)] length_commas [of ts] assms(2,3) by fastforce
  then show ?thesis by (intro exI [of _ "length (m_tokens s) - length ts"]) simp
qed

lemma list_loop_run:
  assumes "\<And>n'. loopN (Suc (Suc n') + length ts - 1) body [] (seek s i) = Inr (as, t)"
    and "reads_at s (i + 1) (commas (map print_type ts))" "0 \<le> i" "ts \<noteq> []"
  shows "loopP body [] (seek s i) = Inr (as, t)"
proof -
  obtain n' where "Suc (length (m_tokens s)) = Suc (Suc n') + length ts - 1"
    using list_fuel [OF assms(2-4)] by blast
  then show ?thesis using assms(1) [of n'] by (simp only: loopP_seek)
qed

lemma loops_run:
  assumes ts: "\<forall>t\<in>set ts. parses n t" and i: "0 \<le> i"
    and r: "reads_at s (i + 1) (commas (map print_type ts))"
    and j: "j = i + 1 + int (length (commas (map print_type ts)))" "in_tokens s j"
  shows "tok_type (token_at s j) = Sym BRACKET_RPARENT \<Longrightarrow> tok_type (token_at s i) \<noteq> Sym BRACKET_RPARENT \<Longrightarrow>
      loopP (tuple_round (calls_at (Suc n))) [] (seek s i) = Inr (map type_node ts, seek s j)"
    and "tok_type (token_at s j) = Sym BRACKET_RPARENT \<Longrightarrow> tok_type (token_at s i) \<noteq> Sym BRACKET_RPARENT \<Longrightarrow>
      loopP (func_round (calls_at (Suc n))) [] (seek s i) = Inr (map type_node ts, seek s j)"
    and "tok_type (token_at s j) = Op OP_GT \<Longrightarrow> tok_type (token_at s i) \<noteq> Op OP_GT \<Longrightarrow> in_tokens s (j + 1) \<Longrightarrow>
      loopP (generic_round (calls_at (Suc n))) [] (seek s i) = Inr (map type_node ts, seek s (j + 1))"
proof -
  have empty: "j = i + 1" if "ts = []" using j(1) that by simp
  show "loopP (tuple_round (calls_at (Suc n))) [] (seek s i) = Inr (map type_node ts, seek s j)"
    if "tok_type (token_at s j) = Sym BRACKET_RPARENT" "tok_type (token_at s i) \<noteq> Sym BRACKET_RPARENT"
  proof (cases "ts = []")
    case True
    then show ?thesis using that j empty by (simp add: loopP_seek loopN_break tuple_round_def run_simps tok_is_def)
  next
    case False
    have "loopN (Suc (Suc n') + length ts - 1) (tuple_round (calls_at (Suc n))) [] (seek s i)
        = Inr ([] @ map type_node ts, seek s (j + 0))" for n'
      by (rule type_list_run [OF _ _ _ False ts i that(2) r j _ that(1)])
         (use round_run(1) [of n] j in \<open>simp_all add: loopN_break\<close>)
    then show ?thesis by (intro list_loop_run [OF _ r i False]) simp
  qed
  show "loopP (func_round (calls_at (Suc n))) [] (seek s i) = Inr (map type_node ts, seek s j)"
    if "tok_type (token_at s j) = Sym BRACKET_RPARENT" "tok_type (token_at s i) \<noteq> Sym BRACKET_RPARENT"
  proof (cases "ts = []")
    case True
    then show ?thesis using that j empty by (simp add: loopP_seek loopN_break func_round_def run_simps tok_is_def)
  next
    case False
    have stop: "func_round c acc (seek s k) = Inr (Inr acc, seek s k)"
      if "tok_type (token_at s k) = Sym BRACKET_RPARENT" for c acc k
      using that by (simp add: func_round_def run_simps tok_is_def)
    have "loopN (Suc (Suc n') + length ts - 1) (func_round (calls_at (Suc n))) [] (seek s i)
        = Inr ([] @ map type_node ts, seek s (j + 0))" for n'
      by (rule type_list_run [OF _ _ _ False ts i that(2) r j _ that(1)])
         (use round_run(2) [of n] j in \<open>simp_all add: loopN_break loopN_continue stop tok_is_def\<close>)
    then show ?thesis by (intro list_loop_run [OF _ r i False]) simp
  qed
  show "loopP (generic_round (calls_at (Suc n))) [] (seek s i) = Inr (map type_node ts, seek s (j + 1))"
    if "tok_type (token_at s j) = Op OP_GT" "tok_type (token_at s i) \<noteq> Op OP_GT" "in_tokens s (j + 1)"
  proof (cases "ts = []")
    case True
    then show ?thesis using that j empty by (simp add: loopP_seek loopN_break generic_round_def run_simps tok_is_def type_starts_def)
  next
    case False
    have "loopN (Suc (Suc n') + length ts - 1) (generic_round (calls_at (Suc n))) [] (seek s i)
        = Inr ([] @ map type_node ts, seek s (j + 1))" for n'
      by (rule type_list_run [OF _ _ _ False ts i that(2) r j that(3,1)])
         (use round_run(3,4) [of n] in \<open>simp_all add: loopN_break ac_simps\<close>)
    then show ?thesis by (intro list_loop_run [OF _ r i False]) simp
  qed
qed

section \<open>Names\<close>

definition segment_parses :: "nat \<Rightarrow> segment \<Rightarrow> bool" where
  "segment_parses n g \<longleftrightarrow> (\<forall>s i j. 0 \<le> i \<longrightarrow> reads_at s i (print_segment g) \<longrightarrow>
     j = i + int (length (print_segment g)) \<longrightarrow> in_tokens s j \<longrightarrow> tok_type (token_at s j) \<noteq> Op OP_LT \<longrightarrow>
     parseIdentifier (calls_at n) True True (seek s i) = Inr (segment_node g, seek s (j - 1)))"

lemma segment_parsesD:
  "segment_parses n g \<Longrightarrow> 0 \<le> i \<Longrightarrow> reads_at s i (print_segment g) \<Longrightarrow>
   j = i + int (length (print_segment g)) \<Longrightarrow> in_tokens s j \<Longrightarrow> tok_type (token_at s j) \<noteq> Op OP_LT \<Longrightarrow>
   parseIdentifier (calls_at n) True True (seek s i) = Inr (segment_node g, seek s (j - 1))"
  by (simp add: segment_parses_def)

lemma segment_parses_plain: "segment_parses n (Plain x)"
  by (auto simp: segment_parses_def parseIdentifier_def run_simps reads_at_lexeme tok_is_def
      token_to_string_def lexeme_of_def eof_token_def empty_token_def Let_def)

lemma commas_head:
  assumes "reads_at s k (commas (map print_type ts) @ [(Op OP_GT, ''>'')])"
  shows "in_tokens s k \<and> tok_type (token_at s k) \<noteq> Sym SYM_QUESTION"
proof (cases ts)
  case Nil
  then show ?thesis using assms by (simp add: lexeme_of_def)
next
  case (Cons t us)
  then have "reads_at s k (print_type t)" using assms by (cases us) simp_all
  from reads_type_head [OF this] type_start_not show ?thesis by blast
qed

lemma segment_parses_gen:
  assumes "\<forall>t\<in>set ts. parses n t"
  shows "segment_parses (Suc n) (Gen x ts)"
  unfolding segment_parses_def
proof (intro allI impI)
  fix s i j assume i: "(0::int) \<le> i" and r: "reads_at s i (print_segment (Gen x ts))"
    and j: "j = i + int (length (print_segment (Gen x ts)))" "in_tokens s j" "tok_type (token_at s j) \<noteq> Op OP_LT"
  have tk: "in_tokens s i" "tok_type (token_at s i) = IDENTIFIER" "token_to_string (token_at s i) = x"
    "in_tokens s (i + 1)" "tok_type (token_at s (i + 1)) = Op OP_LT"
    "in_tokens s (j - 1)" "tok_type (token_at s (j - 1)) = Op OP_GT"
    using r j(1) by (auto simp: lexeme_of_def ac_simps)
  have "in_tokens s (2 + i)" "tok_type (token_at s (2 + i)) \<noteq> Sym SYM_QUESTION"
    using r commas_head [of s "2 + i" ts] by (simp_all add: ac_simps)
  moreover have "loopP (generic_round (calls_at (Suc n))) [] (seek s (i + 1)) = Inr (map type_node ts, seek s (j - 1 + 1))"
    by (rule loops_run(3) [OF assms]) (use i r j tk in \<open>simp_all add: ac_simps\<close>)
  ultimately show "parseIdentifier (calls_at (Suc n)) True True (seek s i) = Inr (segment_node (Gen x ts), seek s (j - 1))"
    using tk j(2) by (simp add: parseIdentifier_def parseGenericExpr_def run_simps tok_is_def)
qed

lemma path_run:
  assumes "\<forall>g\<in>set gs. segment_parses n g" "0 \<le> k"
    and "reads_at s k (concat (map ((#) (Sym SYM_COLCOL, ''::'')) (map print_segment gs)))"
    and "j = k + int (length (concat (map ((#) (Sym SYM_COLCOL, ''::'')) (map print_segment gs))))" "ends_at s j"
  shows "loopN (Suc (length gs + n')) (path_round (calls_at n)) (a, nm, ident, g) (seek s k) =
    Inr (TypeRef (nm @ concat (map (\<lambda>i. ''::'' @ identifier_name i) (map segment_node gs)))
        (if gs = [] then g else identifier_generics (last (map segment_node gs)))
        (ident @ concat (map (\<lambda>i. ''.'' @ identifier_name i) (map segment_node gs)))
        (Some (foldl (\<lambda>a i. Index a i True) a (map segment_node gs))), seek s j)"
  using assms
proof (induction gs arbitrary: k a nm ident g)
  case Nil
  then show ?case by (intro loopN_break) (simp add: path_round_def run_simps tok_is_def ends_at_def)
next
  case (Cons x xs)
  let ?k = "k + 1 + int (length (print_segment x))"
  let ?rest = "concat (map ((#) (Sym SYM_COLCOL, ''::'')) (map print_segment xs))"
  let ?i = "segment_node x"
  have tk: "in_tokens s k" "tok_type (token_at s k) = Sym SYM_COLCOL" "reads_at s (k + 1) (print_segment x)"
    and rest: "reads_at s ?k ?rest" and j: "j = ?k + int (length ?rest)"
    using Cons.prems(3,4) by (simp_all add: lexeme_of_def ac_simps)
  have stop: "in_tokens s ?k \<and> tok_type (token_at s ?k) \<noteq> Op OP_LT"
    using rest j Cons.prems(5) by (cases xs) (auto simp: ends_at_def lexeme_of_def)
  obtain y ls where hd: "print_segment x = (IDENTIFIER, y) # ls" using print_type_head(2) by blast
  have "parseIdentifier (calls_at n) True True (seek s (k + 1)) = Inr (?i, seek s (?k - 1))"
    using Cons.prems(1,2) tk stop by (intro segment_parsesD) simp_all
  moreover have "in_tokens s (k + 1)" using tk(3) hd by simp
  ultimately have "path_round (calls_at n) (a, nm, ident, g) (seek s k) = Inr (Inl (Index a ?i True,
      nm @ ''::'' @ identifier_name ?i, ident @ ''.'' @ identifier_name ?i, identifier_generics ?i), seek s ?k)"
    using tk stop by (simp add: path_round_def run_simps tok_is_def ac_simps)
  moreover have "Suc (length (x # xs) + n') = Suc (Suc (length xs + n'))" by simp
  ultimately show ?case
    using Cons.IH [of ?k "Index a ?i True"] Cons.prems rest j by (simp only: loopN_continue) simp
qed

lemma parses_name:
  assumes "segment_parses n x" "\<forall>g\<in>set xs. segment_parses n g"
  shows "parses n (TName x xs)"
  unfolding parses_def
proof (intro allI impI)
  fix s i assume i: "(0::int) \<le> i" and r: "reads_at s i (print_type (TName x xs))"
    and e: "ends_at s (i + int (length (print_type (TName x xs))))"
  let ?k = "i + int (length (print_segment x))"
  let ?rest = "concat (map ((#) (Sym SYM_COLCOL, ''::'')) (map print_segment xs))"
  have rx: "reads_at s i (print_segment x)" and rr: "reads_at s ?k ?rest" and e': "ends_at s (?k + int (length ?rest))"
    using r e by (simp_all add: ac_simps)
  obtain y ls where hd: "print_segment x = (IDENTIFIER, y) # ls" using print_type_head(2) by blast
  have tk: "in_tokens s i" "tok_type (token_at s i) = IDENTIFIER" using rx hd by (simp_all add: lexeme_of_def)
  have stop: "in_tokens s ?k \<and> tok_type (token_at s ?k) \<noteq> Op OP_LT"
    using rr e' by (cases xs) (auto simp: ends_at_def lexeme_of_def)
  have seg: "parseIdentifier (calls_at n) True True (seek s i) = Inr (segment_node x, seek s (?k - 1))"
    using assms(1) i rx stop by (intro segment_parsesD) simp_all
  have "length xs \<le> length ?rest" by (induction xs) simp_all
  moreover have "xs \<noteq> [] \<Longrightarrow> int (length ?rest) \<le> int (length (m_tokens s))"
    using reads_at_length [OF rr] i by (cases xs) auto
  ultimately have "length xs \<le> length (m_tokens s)" by (cases "xs = []") auto
  then obtain n' where n': "length (m_tokens s) = length xs + n'" by (auto simp: le_iff_add)
  have "loopP (path_round (calls_at n)) (segment_node x, identifier_name (segment_node x),
        identifier_name (segment_node x), identifier_generics (segment_node x)) (seek s ?k)
      = Inr (type_node (TName x xs), seek s (?k + int (length ?rest)))"
    unfolding loopP_seek n' by (subst path_run [OF assms(2) _ rr refl e']) (use i in \<open>simp_all add: Let_def\<close>)
  then show "parseType (calls_at n) (seek s i)
      = Inr (type_node (TName x xs), seek s (i + int (length (print_type (TName x xs)))))"
    using tk stop seg by (simp add: parseType_run type_starts_def tok_is_def parseType_named_def run_simps ac_simps
        del: type_node.simps)
qed

section \<open>The other types\<close>

lemma parses_tuple:
  assumes "\<forall>t\<in>set ts. parses n t"
  shows "parses (Suc n) (TTuple ts)"
  unfolding parses_def
proof (intro allI impI)
  fix s i assume i: "(0::int) \<le> i" and r: "reads_at s i (print_type (TTuple ts))"
    and e: "ends_at s (i + int (length (print_type (TTuple ts))))"
  let ?j = "i + 1 + int (length (commas (map print_type ts)))"
  have tk: "in_tokens s i" "tok_type (token_at s i) = Sym BRACKET_LPARENT" "in_tokens s ?j"
      "tok_type (token_at s ?j) = Sym BRACKET_RPARENT" "in_tokens s (?j + 1)"
    using r e by (simp_all add: lexeme_of_def ends_at_def ac_simps)
  have "loopP (tuple_round (calls_at (Suc n))) [] (seek s i) = Inr (map type_node ts, seek s ?j)"
    by (rule loops_run(1) [OF assms i]) (use r tk in simp_all)
  then show "parseType (calls_at (Suc n)) (seek s i)
      = Inr (type_node (TTuple ts), seek s (i + int (length (print_type (TTuple ts)))))"
    using tk by (simp add: parseType_run type_starts_def tok_is_def parseType_tuple_def run_simps ac_simps)
qed

lemma parses_func:
  assumes "\<forall>t\<in>set ts. parses n t" "parses n u"
  shows "parses (Suc n) (TFunc ts u)"
  unfolding parses_def
proof (intro allI impI)
  fix s i assume i: "(0::int) \<le> i" and r: "reads_at s i (print_type (TFunc ts u))"
    and e: "ends_at s (i + int (length (print_type (TFunc ts u))))"
  let ?j = "i + 2 + int (length (commas (map print_type ts)))"
  have tk: "in_tokens s i" "tok_type (token_at s i) = Kword KWORD_FUNC" "in_tokens s (i + 1)"
      "tok_type (token_at s (i + 1)) = Sym BRACKET_LPARENT" "in_tokens s ?j"
      "tok_type (token_at s ?j) = Sym BRACKET_RPARENT" "in_tokens s (?j + 1)"
      "tok_type (token_at s (?j + 1)) = Op OP_ARROW" and u: "reads_at s (?j + 2) (print_type u)"
    using r by (simp_all add: lexeme_of_def ac_simps)
  have "loopP (func_round (calls_at (Suc n))) [] (seek s (i + 1)) = Inr (map type_node ts, seek s ?j)"
    by (rule loops_run(2) [OF assms(1)]) (use i r tk in \<open>simp_all add: ac_simps\<close>)
  moreover have "c_type (calls_at (Suc n)) (seek s (?j + 2))
      = Inr (type_node u, seek s (?j + 2 + int (length (print_type u))))"
    using e i by (intro call_type_run [OF assms(2) u]) (simp_all add: ac_simps)
  ultimately show "parseType (calls_at (Suc n)) (seek s i)
      = Inr (type_node (TFunc ts u), seek s (i + int (length (print_type (TFunc ts u)))))"
    using tk reads_type_head [OF u]
    by (simp add: parseType_run type_starts_def tok_is_def parseType_func_def run_simps ac_simps)
qed

lemma parses_pointer:
  assumes "parses n t"
  shows "parses (Suc n) (TPointer m t)"
  unfolding parses_def
proof (intro allI impI)
  fix s i assume i: "(0::int) \<le> i" and r: "reads_at s i (print_type (TPointer m t))"
    and e: "ends_at s (i + int (length (print_type (TPointer m t))))"
  have tk: "in_tokens s i" "tok_type (token_at s i) = Op OP_MUL" "in_tokens s (i + 1)"
      "tok_type (token_at s (i + 1)) = Kword (if m then KWORD_MUTABLE else KWORD_CONST)"
      and t: "reads_at s (i + 2) (print_type t)"
    using r by (auto simp: lexeme_of_def ac_simps split: if_splits)
  have "c_type (calls_at (Suc n)) (seek s (i + 2)) = Inr (type_node t, seek s (i + 2 + int (length (print_type t))))"
    using e i by (intro call_type_run [OF assms t]) (simp_all add: ac_simps)
  then show "parseType (calls_at (Suc n)) (seek s i)
      = Inr (type_node (TPointer m t), seek s (i + int (length (print_type (TPointer m t)))))"
    using tk reads_type_head [OF t]
    by (auto simp: parseType_run type_starts_def tok_is_def parseType_pointer_def run_simps ac_simps)
qed

lemma parses_reference:
  assumes "parses n t"
  shows "parses (Suc n) (TReference m t)"
  unfolding parses_def
proof (intro allI impI)
  fix s i assume i: "(0::int) \<le> i" and r: "reads_at s i (print_type (TReference m t))"
    and e: "ends_at s (i + int (length (print_type (TReference m t))))"
  let ?k = "if m then i + 2 else i + 1"
  have tk: "in_tokens s i" "tok_type (token_at s i) = Op OP_BIT_AND"
      "m \<Longrightarrow> in_tokens s (i + 1) \<and> tok_type (token_at s (i + 1)) = Kword KWORD_MUTABLE"
      and t: "reads_at s ?k (print_type t)"
    using r by (auto simp: lexeme_of_def ac_simps split: if_splits)
  have "c_type (calls_at (Suc n)) (seek s ?k) = Inr (type_node t, seek s (?k + int (length (print_type t))))"
    using e i by (intro call_type_run [OF assms t]) (auto simp: ac_simps split: if_splits)
  moreover have "tok_type (token_at s ?k) \<noteq> Kword KWORD_MUTABLE"
    using reads_type_head [OF t] by (auto simp: type_starts_def)
  ultimately show "parseType (calls_at (Suc n)) (seek s i)
      = Inr (type_node (TReference m t), seek s (i + int (length (print_type (TReference m t)))))"
    using tk reads_type_head [OF t]
    by (cases m) (simp_all add: parseType_run type_starts_def tok_is_def parseType_reference_def run_simps ac_simps)
qed

section \<open>Every type\<close>

text \<open>The depth of calls: one for each level of nesting, so the number of tokens is enough.\<close>

lemma length_part: "t \<in> set ts \<Longrightarrow> length (print_type t) \<le> length (commas (map print_type ts))"
  by (induction ts rule: induct_list012) auto

lemma length_segment:
  "g \<in> set gs \<Longrightarrow> length (print_segment g) \<le> length (concat (map ((#) (Sym SYM_COLCOL, ''::'')) (map print_segment gs)))"
  by (induction gs) auto

lemma parses_all:
  "length (print_type t) \<le> Suc n \<Longrightarrow> parses n t"
  "length (print_segment g) \<le> Suc n \<Longrightarrow> segment_parses n g"
proof (induction t and g arbitrary: n and n)
  case (TName x xs)
  have "segment_parses n x" using TName.prems by (intro TName.IH(1)) simp
  moreover have "segment_parses n g" if "g \<in> set xs" for g
    using TName.prems length_segment [OF that] by (intro TName.IH(2) [OF that]) simp
  ultimately show ?case by (simp add: parses_name)
next
  case (TTuple ts)
  then obtain m where m: "n = Suc m" by (cases n) auto
  have "parses m t" if "t \<in> set ts" for t
    using TTuple.prems m length_part [OF that] by (intro TTuple.IH [OF that]) simp
  then show ?case using m by (simp add: parses_tuple)
next
  case (TFunc ts u)
  then obtain m where m: "n = Suc m" by (cases n) auto
  have "parses m t" if "t \<in> set ts" for t
    using TFunc.prems m length_part [OF that] by (intro TFunc.IH(1) [OF that]) simp
  moreover have "parses m u" using TFunc.prems m by (intro TFunc.IH(2)) simp
  ultimately show ?case using m by (simp add: parses_func)
next
  case (TPointer m t)
  then obtain k where k: "n = Suc k" by (cases n) auto
  have "parses k t" using TPointer.prems k by (intro TPointer.IH) simp
  then show ?case using k by (simp add: parses_pointer)
next
  case (TReference m t)
  then obtain k where k: "n = Suc k"
    using print_type_head(1) [of t] by (cases n) auto
  have "parses k t" using TReference.prems k by (intro TReference.IH) simp
  then show ?case using k by (simp add: parses_reference)
next
  case (Plain x)
  then show ?case by (simp add: segment_parses_plain)
next
  case (Gen x ts)
  then obtain m where m: "n = Suc m" by (cases n) auto
  have "parses m t" if "t \<in> set ts" for t
    using Gen.prems m length_part [OF that] by (intro Gen.IH [OF that]) simp
  then show ?case using m by (simp add: segment_parses_gen)
qed

end
