(* ===== verification/Parser_Expr_Syntax.thy ===== *)
theory Parser_Expr_Syntax
  imports Parser_Type_Syntax
begin

text \<open>
  The grammar of operator expressions as a datatype, with values, names, brackets, \<^verbatim>\<open>new\<close>, calls,
  indices and members as operands; the tokens an expression prints to and the node it stands for;
  and the proof that \<^verbatim>\<open>Parser::parseExpr\<close> reads the one back as the other.
\<close>

section \<open>The grammar\<close>

datatype expr_syntax =
    EUnary OpToken bool expr_syntax
  | EBinary expr_syntax OpToken expr_syntax
  | EOperand base_syntax "suffix_syntax list"
and base_syntax =
    BValue TokenType string
  | BName string
  | BParen expr_syntax
  | BNew type_syntax "expr_syntax list"
and suffix_syntax =
    SCall "expr_syntax list"
  | SIndex expr_syntax
  | SMember bool string

definition sign :: "TokenType \<Rightarrow> lexeme" where
  "sign ty = lexeme_of (empty_token\<lparr>tok_type := ty\<rparr>)"

primrec print_expr :: "expr_syntax \<Rightarrow> lexeme list" and print_base :: "base_syntax \<Rightarrow> lexeme list"
  and print_suffix :: "suffix_syntax \<Rightarrow> lexeme list" where
  "print_expr (EUnary p m e) =
     sign (Op p) # (if m then [sign (Kword KWORD_MUTABLE)] else []) @ print_expr e"
| "print_expr (EBinary l p r) = print_expr l @ sign (Op p) # print_expr r"
| "print_expr (EOperand b xs) = print_base b @ concat (map print_suffix xs)"
| "print_base (BValue ty x) = [(ty, x)]"
| "print_base (BName x) = [(IDENTIFIER, x)]"
| "print_base (BParen e) = sign (Sym BRACKET_LPARENT) # print_expr e @ [sign (Sym BRACKET_RPARENT)]"
| "print_base (BNew t es) = sign (Kword KWORD_NEW) # print_type t @ sign (Sym BRACKET_LPARENT)
     # commas (map print_expr es) @ [sign (Sym BRACKET_RPARENT)]"
| "print_suffix (SCall es) = sign (Sym BRACKET_LPARENT) # commas (map print_expr es) @ [sign (Sym BRACKET_RPARENT)]"
| "print_suffix (SIndex e) = sign (Sym BRACKET_LSQUARED) # print_expr e @ [sign (Sym BRACKET_RSQUARED)]"
| "print_suffix (SMember st x) = [sign (Sym (if st then SYM_COLCOL else SYM_DOT)), (IDENTIFIER, x)]"

primrec expr_node :: "expr_syntax \<Rightarrow> node" and base_node :: "base_syntax \<Rightarrow> node"
  and suffix_node :: "suffix_syntax \<Rightarrow> node \<Rightarrow> node" where
  "expr_node (EUnary p m e) = BinaryOp (the (prefix_operator (Op p))) (expr_node e) None False False"
| "expr_node (EBinary l p r) =
     BinaryOp (the (infix_operator p)) (expr_node l) (Some (expr_node r)) False False"
| "expr_node (EOperand b xs) = foldl (\<lambda>n f. f n) (base_node b) (map suffix_node xs)"
| "base_node (BValue ty x) = ConstantValue (the (deduceType ty)) x []"
| "base_node (BName x) = Identifier x"
| "base_node (BParen e) = expr_node e"
| "base_node (BNew t es) = NewInstance (FunctionCall (type_node t) (map expr_node es)) (type_node t)"
| "suffix_node (SCall es) = (\<lambda>n. FunctionCall n (map expr_node es))"
| "suffix_node (SIndex e) = (\<lambda>n. BinaryOp OT_INDEX n (Some (expr_node e)) False False)"
| "suffix_node (SMember st x) = (\<lambda>n. Index n (Identifier x) st)"

text \<open>
  The operator tree of an expression, and the expressions that need no further brackets. No
  exclamation mark may directly follow another operator or an opening bracket, where the parser
  would take it for a macro call; the flag tells whether the expression may be an assignment.
\<close>

fun expr_tree :: "expr_syntax \<Rightarrow> optree" where
  "expr_tree (EUnary p m e) = UnT (the (prefix_operator (Op p))) (expr_tree e)"
| "expr_tree (EBinary l p r) = BinT (the (infix_operator p)) (expr_tree l) (expr_tree r)"
| "expr_tree (EOperand b xs) = LeafT (expr_node (EOperand b xs))"

fun bang :: "expr_syntax \<Rightarrow> bool" where
  "bang (EUnary p m e) = (p = OP_NOT)"
| "bang (EBinary l p r) = bang l"
| "bang (EOperand b xs) = False"

primrec expr_ok :: "expr_syntax \<Rightarrow> bool \<Rightarrow> bool" and base_ok :: "base_syntax \<Rightarrow> bool \<Rightarrow> bool"
  and suffix_ok :: "suffix_syntax \<Rightarrow> bool" where
  "expr_ok (EUnary p m e) = (\<lambda>b. prefix_operator (Op p) \<noteq> None \<and> (m \<longrightarrow> p = OP_BIT_AND) \<and> \<not> bang e
     \<and> root_prec (expr_tree e) = 0 \<and> expr_ok e b)"
| "expr_ok (EBinary l p r) = (\<lambda>b. case infix_operator p of None \<Rightarrow> False | Some op \<Rightarrow>
     1 \<le> precedence op \<and> (is_assignment op \<longrightarrow> b) \<and> root_prec (expr_tree l) \<le> precedence op
     \<and> root_prec (expr_tree r) < precedence op \<and> expr_ok l b \<and> expr_ok r b)"
| "expr_ok (EOperand g xs) = (\<lambda>b. base_ok g b \<and> list_all id (map suffix_ok xs))"
| "base_ok (BValue ty x) = (\<lambda>b. deduceType ty \<noteq> None)"
| "base_ok (BName x) = (\<lambda>b. True)"
| "base_ok (BParen e) = (\<lambda>b. \<not> bang e \<and> expr_ok e b)"
| "base_ok (BNew t es) = (\<lambda>b. list_all (\<lambda>ok. ok False) (map expr_ok es))"
| "suffix_ok (SCall es) = list_all (\<lambda>ok. ok False) (map expr_ok es)"
| "suffix_ok (SIndex e) = expr_ok e False"
| "suffix_ok (SMember st x) = True"

section \<open>The tree of an expression\<close>

lemma embed_expr_tree: "embed (expr_tree e) = expr_node e"
  by (induction e rule: expr_tree.induct) simp_all

lemma prefix_unary: "prefix_operator ty = Some op \<Longrightarrow> isUnary op"
  by (auto simp: prefix_operator_def isUnary_def split: if_splits)

lemma prefix_no_assignment: "prefix_operator ty = Some op \<Longrightarrow> \<not> is_assignment op"
  by (auto simp: prefix_operator_def is_assignment_def split: if_splits)

lemma expr_tree_ok: "expr_ok e b \<Longrightarrow> well_bracketed (expr_tree e)"
  by (induction e arbitrary: b rule: expr_tree.induct) (auto split: option.splits simp: prefix_unary)

fun is_assignment_node :: "node \<Rightarrow> bool" where
  "is_assignment_node (BinaryOp op l r m ov) = is_assignment op"
| "is_assignment_node n = False"

lemma expr_ok_assignment:
  "expr_ok e False \<Longrightarrow> \<not> is_assignment_node (expr_node e)"
  "base_ok g False \<Longrightarrow> \<not> is_assignment_node (base_node g)"
  "\<not> is_assignment_node (suffix_node x n)"
proof (induction e and g and x arbitrary: and and n)
  case (EUnary p m e)
  then show ?case by (auto simp: prefix_no_assignment)
next
  case (EOperand g xs)
  then show ?case by (cases xs rule: rev_cases) auto
qed (auto split: option.splits simp: is_assignment_def)

lemma check_assignment_ok:
  "expr_ok e b \<Longrightarrow> check_assignment b xs (expr_node e) s = Inr ((), s)"
  using expr_ok_assignment(1) [of e]
  by (cases b; cases "expr_node e") (auto simp: check_assignment_def run_simps)

section \<open>First and following tokens\<close>

definition expr_start :: "TokenType \<Rightarrow> bool" where
  "expr_start ty \<longleftrightarrow> deduceType ty \<noteq> None \<or> ty = IDENTIFIER \<or> ty = Sym BRACKET_LPARENT
     \<or> ty = Kword KWORD_NEW \<or> prefix_operator ty \<noteq> None"

lemma fst_sign [simp]: "fst (sign ty) = ty"
  by (simp add: sign_def lexeme_of_def)

lemma lexeme_sign: "lexeme_of t = sign ty \<Longrightarrow> tok_type t = ty"
  by (simp add: sign_def lexeme_of_def)

lemma print_base_head:
  "base_ok g b \<Longrightarrow> \<exists>h ls. print_base g = h # ls \<and> expr_start (fst h) \<and> fst h \<noteq> Op OP_NOT"
  by (cases g) (auto simp: expr_start_def deduceType_def)

lemma print_expr_head:
  "expr_ok e b \<Longrightarrow> \<exists>h ls. print_expr e = h # ls \<and> expr_start (fst h) \<and> (fst h = Op OP_NOT \<longrightarrow> bang e)"
proof (induction e arbitrary: b rule: expr_tree.induct)
  case (2 l p r)
  then have "expr_ok l b" by (auto split: option.splits)
  from "2.IH"(1) [OF this] show ?case by auto
next
  case (3 g xs)
  then show ?case using print_base_head [of g b] by auto
qed (auto simp: expr_start_def)

lemma reads_expr_head:
  assumes "expr_ok e b" "reads_at s k (print_expr e)"
  shows "in_tokens s k" "expr_start (tok_type (token_at s k))" "tok_type (token_at s k) = Op OP_NOT \<Longrightarrow> bang e"
  using print_expr_head [OF assms(1)] assms(2) by (auto simp: lexeme_of_def)

lemma expr_start_not: "expr_start ty \<Longrightarrow> ty \<noteq> Sym BRACKET_RPARENT \<and> ty \<noteq> Sym SYM_QUESTION \<and> ty \<noteq> Sym SYM_DOT
    \<and> ty \<noteq> Kword KWORD_MUTABLE"
  by (auto simp: expr_start_def deduceType_def prefix_operator_def)

text \<open>What may follow an operand, a complete operand with its suffixes, and an expression.\<close>

definition operand_end :: "pstate \<Rightarrow> int \<Rightarrow> bool" where
  "operand_end s j \<longleftrightarrow> in_tokens s j \<and> tok_type (token_at s j) \<noteq> VALUE_STRING
     \<and> tok_type (token_at s j) \<noteq> Op OP_NOT
     \<and> (tok_type (token_at s j) = Op OP_LT \<longrightarrow> in_tokens s (j + 1) \<longrightarrow> tok_type (token_at s (j + 1)) \<noteq> Sym SYM_QUESTION)"

definition suffix_starts :: "TokenType set" where
  "suffix_starts = {Sym BRACKET_LPARENT, Sym BRACKET_LSQUARED, Sym SYM_COLCOL, Sym SYM_DOT, Kword KWORD_AS}"

definition expr_end :: "pstate \<Rightarrow> int \<Rightarrow> bool" where
  "expr_end s j \<longleftrightarrow> operand_end s j \<and> tok_type (token_at s j) \<notin> suffix_starts"

definition stops :: "pstate \<Rightarrow> int \<Rightarrow> bool" where
  "stops s j \<longleftrightarrow> in_tokens s j \<and> binary_operator (tok_type (token_at s j)) = None
     \<and> tok_type (token_at s j) \<notin> suffix_starts \<and> tok_type (token_at s j) \<noteq> VALUE_STRING"

lemma stops_end: "stops s j \<Longrightarrow> expr_end s j"
  by (auto simp: stops_def expr_end_def operand_end_def binary_operator_def infix_operator_def)

lemma stops_close:
  "in_tokens s j \<Longrightarrow> tok_type (token_at s j) \<in> {Sym SYM_COMMA, Sym BRACKET_RPARENT, Sym BRACKET_RSQUARED} \<Longrightarrow> stops s j"
  by (auto simp: stops_def suffix_starts_def binary_operator_def)

lemma operand_end_suffix: "reads_at s k (print_suffix g) \<Longrightarrow> operand_end s k"
  by (cases g) (auto simp: operand_end_def dest!: lexeme_sign)

section \<open>Operands and suffixes\<close>

definition parses_expr :: "nat \<Rightarrow> expr_syntax \<Rightarrow> bool" where
  "parses_expr n e \<longleftrightarrow> (\<forall>s i b. 0 \<le> i \<longrightarrow> expr_ok e b \<longrightarrow> reads_at s (i + 1) (print_expr e) \<longrightarrow>
     stops s (i + 1 + int (length (print_expr e))) \<longrightarrow>
     parseExpr (calls_at n) b (seek s i) = Inr (expr_node e, seek s (i + int (length (print_expr e)))))"

lemma call_expr_run:
  assumes "parses_expr n e" "expr_ok e b" "reads_at s k (print_expr e)" "k = i + 1" "0 \<le> i"
    and "j = i + int (length (print_expr e))" "stops s (j + 1)"
  shows "c_expr (calls_at (Suc n)) b (seek s i) = Inr (expr_node e, seek s j)"
  using assms by (simp add: run_calls parses_expr_def ac_simps)

text \<open>The arguments of a call, from the opening bracket at \<open>k\<close> up to the closing one at \<open>j\<close>.\<close>

abbreviation args_round :: "nat \<Rightarrow> node list \<Rightarrow> (node list + node list) P" where
  "args_round n \<equiv> call_round (calls_at n) (Sym BRACKET_RPARENT) '')''"

lemma call_round_run:
  assumes "parses_expr n e" "expr_ok e False" "reads_at s (k + 1) (print_expr e)" "0 \<le> k"
    and "j = k + int (length (print_expr e))" "in_tokens s (j + 1)"
  shows "tok_type (token_at s (j + 1)) = Sym SYM_COMMA \<Longrightarrow>
      args_round (Suc n) acc (seek s k) = Inr (Inl (acc @ [expr_node e]), seek s (j + 1))"
    and "tok_type (token_at s (j + 1)) = Sym BRACKET_RPARENT \<Longrightarrow>
      args_round (Suc n) acc (seek s k) = Inr (Inl (acc @ [expr_node e]), seek s j)"
proof -
  note hd = reads_expr_head [OF assms(2,3)]
  have run: "c_expr (calls_at (Suc n)) False (seek s k) = Inr (expr_node e, seek s j)"
    if "tok_type (token_at s (j + 1)) \<in> {Sym SYM_COMMA, Sym BRACKET_RPARENT, Sym BRACKET_RSQUARED}"
    using call_expr_run [OF assms(1,2,3) refl assms(4,5)] stops_close [OF assms(6) that] by simp
  show "args_round (Suc n) acc (seek s k) = Inr (Inl (acc @ [expr_node e]), seek s (j + 1))"
    if "tok_type (token_at s (j + 1)) = Sym SYM_COMMA"
    using that run hd expr_start_not [OF hd(2)] assms(6)
    by (simp add: call_round_def run_simps tok_is_def tok_is2_def)
  show "args_round (Suc n) acc (seek s k) = Inr (Inl (acc @ [expr_node e]), seek s j)"
    if "tok_type (token_at s (j + 1)) = Sym BRACKET_RPARENT"
    using that run hd expr_start_not [OF hd(2)] assms(6)
    by (simp add: call_round_def run_simps tok_is_def tok_is2_def)
qed

lemma call_rounds_run:
  assumes "\<forall>e\<in>set es. parses_expr n e \<and> expr_ok e False" "0 \<le> k"
    and "reads_at s (k + 1) (commas (map print_expr es))"
    and "j = k + int (length (commas (map print_expr es)))"
    and "in_tokens s (j + 1)" "tok_type (token_at s (j + 1)) = Sym BRACKET_RPARENT"
  shows "loopN (Suc (length es + n')) (args_round (Suc n)) acc (seek s k)
    = Inr (acc @ map expr_node es, seek s j)"
  using assms
proof (induction es arbitrary: k acc)
  case Nil
  then show ?case by (intro loopN_break) (simp add: call_round_def run_simps tok_is_def)
next
  case (Cons e es)
  let ?k = "k + int (length (print_expr e))"
  have fuel: "Suc (length (e # es) + n') = Suc (Suc (length es + n'))" by simp
  show ?case
  proof (cases es)
    case Nil
    then have "args_round (Suc n) acc (seek s k) = Inr (Inl (acc @ [expr_node e]), seek s j)"
      using Cons.prems by (intro call_round_run(2)) simp_all
    then show ?thesis using Cons.IH [of j "acc @ [expr_node e]"] Cons.prems Nil
      by (simp only: fuel loopN_continue) simp
  next
    case (Cons u us)
    then have tk: "reads_at s (k + 1) (print_expr e)" "in_tokens s (?k + 1)"
      "tok_type (token_at s (?k + 1)) = Sym SYM_COMMA"
      and rest: "reads_at s (?k + 1 + 1) (commas (map print_expr es))"
      and j: "j = ?k + 1 + int (length (commas (map print_expr es)))"
      using Cons.prems(3,4) by (simp_all add: reads_at_lexeme ac_simps)
    have "args_round (Suc n) acc (seek s k) = Inr (Inl (acc @ [expr_node e]), seek s (?k + 1))"
      using Cons.prems tk by (intro call_round_run(1)) simp_all
    then show ?thesis using Cons.IH [of "?k + 1" "acc @ [expr_node e]"] Cons.prems rest j
      by (simp only: fuel loopN_continue) simp
  qed
qed

lemma length_expr_commas:
  "\<forall>e\<in>set es. expr_ok e False \<Longrightarrow> length es \<le> length (commas (map print_expr es))"
proof (induction es rule: induct_list012)
  case (2 e)
  then show ?case using print_expr_head [of e False] by auto
next
  case (3 e u us)
  then show ?case using print_expr_head [of e False] by auto
qed simp

lemma call_run:
  assumes "\<forall>e\<in>set es. parses_expr n e \<and> expr_ok e False" "0 \<le> k"
    and "reads_at s (k + 1) (commas (map print_expr es) @ [sign (Sym BRACKET_RPARENT)])"
  shows "parseCall (calls_at (Suc n)) f (seek s k)
    = Inr (FunctionCall f (map expr_node es), seek s (k + int (length (commas (map print_expr es))) + 1))"
proof -
  let ?j = "k + int (length (commas (map print_expr es)))"
  have tk: "in_tokens s (?j + 1)" "tok_type (token_at s (?j + 1)) = Sym BRACKET_RPARENT"
    using assms(3) by (auto simp: ac_simps dest!: lexeme_sign)
  have "int (length es) \<le> int (length (m_tokens s))"
    using length_expr_commas [of es] assms(1,2) tk(1) by (fastforce simp: in_tokens_def)
  then obtain n' where "length (m_tokens s) = length es + n'" by (auto simp: le_iff_add)
  then have "loopP (args_round (Suc n)) [] (seek s k) = Inr (map expr_node es, seek s ?j)"
    using call_rounds_run [OF assms(1,2), of s ?j n' "[]"] assms(3) tk by (simp only: loopP_seek) simp
  then show ?thesis using tk by (simp add: parseFunctionCall_def run_simps)
qed

text \<open>An operand, after an operator or an opening bracket at \<open>i\<close>.\<close>

definition parses_base :: "nat \<Rightarrow> base_syntax \<Rightarrow> bool" where
  "parses_base n g \<longleftrightarrow> (\<forall>s i b. 0 \<le> i \<longrightarrow> base_ok g b \<longrightarrow> reads_at s (i + 1) (print_base g) \<longrightarrow>
     operand_end s (i + 1 + int (length (print_base g))) \<longrightarrow>
     operand (calls_at n) b (seek s i) = Inr (Inr (base_node g), seek s (i + int (length (print_base g)))))"

lemma special_none:
  "tok_type (token_at s k) \<noteq> Sym SYM_HASH \<Longrightarrow> in_tokens s (k + 1) \<Longrightarrow>
   tok_type (token_at s (k + 1)) \<noteq> Op OP_NOT \<Longrightarrow> special_operand c (seek s k) = Inr (None, seek s k)"
  by (simp add: special_operand_def run_simps tok_is_def)

lemma operand_normal:
  assumes "in_tokens s (i + 1)" "tok_type (token_at s (i + 1)) \<noteq> Sym SYM_HASH" "in_tokens s (2 + i)"
    "tok_type (token_at s (2 + i)) \<noteq> Op OP_NOT"
  shows "operand c b (seek s i) = normal_operand c b (token_at s (i + 1)) (seek s (i + 1))"
  using special_none [of s "i + 1" c] assms by (simp add: operand_def run_simps)

lemma name_run:
  assumes "in_tokens s k" "tok_type (token_at s k) = IDENTIFIER" "operand_end s (k + 1)"
  shows "parseIdentifier c False True (seek s k) = Inr (Identifier (token_to_string (token_at s k)), seek s k)"
  using assms by (auto simp: parseIdentifier_def run_simps tok_is_def Let_def operand_end_def ac_simps
      eof_token_def empty_token_def)

lemma parses_value: "parses_base n (BValue ty x)"
  unfolding parses_base_def
proof (intro allI impI)
  fix s i b assume "base_ok (BValue ty x) b" "reads_at s (i + 1) (print_base (BValue ty x))"
    and e: "operand_end s (i + 1 + int (length (print_base (BValue ty x))))"
  then have tk: "in_tokens s (i + 1)" "tok_type (token_at s (i + 1)) = ty" "token_to_string (token_at s (i + 1)) = x"
    and ty: "deduceType ty \<noteq> None" by (simp_all add: lexeme_of_def)
  moreover have "in_tokens s (2 + i)" "tok_type (token_at s (2 + i)) \<noteq> Op OP_NOT"
    using e by (simp_all add: operand_end_def ac_simps)
  moreover have "ty \<noteq> Sym SYM_HASH" "ty \<noteq> Sym BRACKET_LPARENT" using ty by (auto simp: deduceType_def)
  ultimately show "operand (calls_at n) b (seek s i)
      = Inr (Inr (base_node (BValue ty x)), seek s (i + int (length (print_base (BValue ty x)))))"
    by (auto simp: operand_normal normal_operand_def run_simps tok_is_def)
qed

lemma parses_bname: "parses_base n (BName x)"
  unfolding parses_base_def
proof (intro allI impI)
  fix s i b assume "reads_at s (i + 1) (print_base (BName x))"
    and e: "operand_end s (i + 1 + int (length (print_base (BName x))))"
  then have tk: "in_tokens s (i + 1)" "tok_type (token_at s (i + 1)) = IDENTIFIER" "token_to_string (token_at s (i + 1)) = x"
    by (simp_all add: lexeme_of_def)
  moreover have "in_tokens s (2 + i)" "tok_type (token_at s (2 + i)) \<noteq> Op OP_NOT"
      "tok_type (token_at s (2 + i)) \<noteq> VALUE_STRING"
    using e by (simp_all add: operand_end_def ac_simps)
  moreover have "parseIdentifier c False True (seek s (i + 1)) = Inr (Identifier x, seek s (i + 1))" for c
    using name_run [OF tk(1,2)] tk(3) e by (simp add: ac_simps)
  ultimately show "operand (calls_at n) b (seek s i)
      = Inr (Inr (base_node (BName x)), seek s (i + int (length (print_base (BName x)))))"
    by (simp add: operand_normal normal_operand_def named_operand_def deduceType_def run_simps tok_is_def)
qed

lemma parses_paren:
  assumes "parses_expr n e"
  shows "parses_base (Suc n) (BParen e)"
  unfolding parses_base_def
proof (intro allI impI)
  fix s i b assume i: "(0::int) \<le> i" and ok: "base_ok (BParen e) b"
    and r: "reads_at s (i + 1) (print_base (BParen e))"
  let ?j = "i + 1 + int (length (print_expr e))"
  have tk: "in_tokens s (i + 1)" "tok_type (token_at s (i + 1)) = Sym BRACKET_LPARENT"
    "reads_at s (2 + i) (print_expr e)" "in_tokens s (?j + 1)" "tok_type (token_at s (?j + 1)) = Sym BRACKET_RPARENT"
    using r by (auto simp: ac_simps dest!: lexeme_sign)
  have e: "expr_ok e b" "\<not> bang e" using ok by simp_all
  have "c_expr (calls_at (Suc n)) b (seek s (i + 1)) = Inr (expr_node e, seek s ?j)"
    by (rule call_expr_run [OF assms e(1) tk(3)]) (use i tk stops_close [OF tk(4)] in simp_all)
  then show "operand (calls_at (Suc n)) b (seek s i)
      = Inr (Inr (base_node (BParen e)), seek s (i + int (length (print_base (BParen e)))))"
    using tk reads_expr_head [OF e(1) tk(3)] e(2)
    by (subst operand_normal) (auto simp: normal_operand_def run_simps tok_is_def ac_simps)
qed

lemma parses_new:
  assumes "parses n t" "\<forall>e\<in>set es. parses_expr n e"
  shows "parses_base (Suc n) (BNew t es)"
  unfolding parses_base_def
proof (intro allI impI)
  fix s i b assume i: "(0::int) \<le> i" and ok: "base_ok (BNew t es) b"
    and r: "reads_at s (i + 1) (print_base (BNew t es))"
  let ?k = "2 + i + int (length (print_type t))"
  have tk: "in_tokens s (i + 1)" "tok_type (token_at s (i + 1)) = Kword KWORD_NEW"
    "reads_at s (2 + i) (print_type t)" "in_tokens s ?k" "tok_type (token_at s ?k) = Sym BRACKET_LPARENT"
    and args: "reads_at s (?k + 1) (commas (map print_expr es) @ [sign (Sym BRACKET_RPARENT)])"
    using r by (auto simp: ac_simps dest!: lexeme_sign)
  have ty: "c_type (calls_at (Suc n)) (seek s (2 + i)) = Inr (type_node t, seek s ?k)"
    using i tk(4,5) by (intro call_type_run [OF assms(1) tk(3)]) (auto intro: ends_at_close(1))
  have es: "\<forall>e\<in>set es. parses_expr n e \<and> expr_ok e False"
    using assms(2) ok by (auto simp: list_all_iff)
  have "parseCall (calls_at (Suc n)) f (seek s ?k) = Inr (FunctionCall f (map expr_node es),
      seek s (?k + int (length (commas (map print_expr es))) + 1))" for f
    using i by (intro call_run [OF es _ args]) simp
  then show "operand (calls_at (Suc n)) b (seek s i)
      = Inr (Inr (base_node (BNew t es)), seek s (i + int (length (print_base (BNew t es)))))"
    using tk ty reads_type_head [OF tk(3)]
    by (auto simp: operand_normal normal_operand_def deduceType_def type_starts_def run_simps tok_is_def ac_simps)
qed

text \<open>A suffix of the expression that ends at \<open>k\<close>.\<close>

definition parses_suffix :: "nat \<Rightarrow> suffix_syntax \<Rightarrow> bool" where
  "parses_suffix n g \<longleftrightarrow> (\<forall>s k a. 0 \<le> k \<longrightarrow> suffix_ok g \<longrightarrow> reads_at s (k + 1) (print_suffix g) \<longrightarrow>
     operand_end s (k + 1 + int (length (print_suffix g))) \<longrightarrow>
     suffix_round (calls_at n) a (seek s k) = Inr (Inl (suffix_node g a), seek s (k + int (length (print_suffix g)))))"

lemma parses_call:
  assumes "\<forall>e\<in>set es. parses_expr n e"
  shows "parses_suffix (Suc n) (SCall es)"
  unfolding parses_suffix_def
proof (intro allI impI)
  fix s k a assume k: "(0::int) \<le> k" and ok: "suffix_ok (SCall es)"
    and r: "reads_at s (k + 1) (print_suffix (SCall es))"
  have tk: "in_tokens s (k + 1)" "tok_type (token_at s (k + 1)) = Sym BRACKET_LPARENT"
    and args: "reads_at s (k + 1 + 1) (commas (map print_expr es) @ [sign (Sym BRACKET_RPARENT)])"
    using r by (auto simp: ac_simps dest!: lexeme_sign)
  have es: "\<forall>e\<in>set es. parses_expr n e \<and> expr_ok e False"
    using assms ok by (auto simp: list_all_iff)
  show "suffix_round (calls_at (Suc n)) a (seek s k)
      = Inr (Inl (suffix_node (SCall es) a), seek s (k + int (length (print_suffix (SCall es)))))"
    using tk k call_run [OF es _ args, of a] by (simp add: suffix_round_def run_simps tok_is_def ac_simps)
qed

lemma parses_index:
  assumes "parses_expr n e"
  shows "parses_suffix (Suc n) (SIndex e)"
  unfolding parses_suffix_def
proof (intro allI impI)
  fix s k a assume k: "(0::int) \<le> k" and ok: "suffix_ok (SIndex e)"
    and r: "reads_at s (k + 1) (print_suffix (SIndex e))"
  let ?j = "k + 1 + int (length (print_expr e))"
  have tk: "in_tokens s (k + 1)" "tok_type (token_at s (k + 1)) = Sym BRACKET_LSQUARED"
    "reads_at s (k + 1 + 1) (print_expr e)" "in_tokens s (?j + 1)" "tok_type (token_at s (?j + 1)) = Sym BRACKET_RSQUARED"
    using r by (auto simp: ac_simps dest!: lexeme_sign)
  have "c_expr (calls_at (Suc n)) False (seek s (k + 1)) = Inr (expr_node e, seek s ?j)"
    by (rule call_expr_run [OF assms _ tk(3)]) (use k ok tk stops_close [OF tk(4)] in simp_all)
  then show "suffix_round (calls_at (Suc n)) a (seek s k)
      = Inr (Inl (suffix_node (SIndex e) a), seek s (k + int (length (print_suffix (SIndex e)))))"
    using tk by (simp add: suffix_round_def index_suffix_def run_simps tok_is_def ac_simps)
qed

lemma parses_member: "parses_suffix n (SMember st x)"
  unfolding parses_suffix_def
proof (intro allI impI)
  fix s k a assume k: "(0::int) \<le> k" and r: "reads_at s (k + 1) (print_suffix (SMember st x))"
    and e: "operand_end s (k + 1 + int (length (print_suffix (SMember st x))))"
  have tk: "in_tokens s (k + 1)" "tok_type (token_at s (k + 1)) = Sym (if st then SYM_COLCOL else SYM_DOT)"
    "in_tokens s (2 + k)" "tok_type (token_at s (2 + k)) = IDENTIFIER" "token_to_string (token_at s (2 + k)) = x"
    using r by (auto simp: reads_at_lexeme ac_simps dest!: lexeme_sign)
  have "parseIdentifier c False True (seek s (2 + k)) = Inr (Identifier x, seek s (2 + k))" for c
    using name_run [OF tk(3,4)] tk(5) e by (simp add: ac_simps)
  then show "suffix_round (calls_at n) a (seek s k)
      = Inr (Inl (suffix_node (SMember st x) a), seek s (k + int (length (print_suffix (SMember st x)))))"
    using tk by (auto simp: suffix_round_def member_suffix_def run_simps tok_is_def tok_is2_def ac_simps)
qed

lemma suffixes_run:
  assumes "\<forall>g\<in>set gs. parses_suffix n g \<and> suffix_ok g" "0 \<le> k"
    and "reads_at s (k + 1) (concat (map print_suffix gs))"
    and "j = k + int (length (concat (map print_suffix gs)))" "expr_end s (j + 1)"
  shows "loopN (Suc (length gs + n')) (suffix_round (calls_at n)) a (seek s k)
    = Inr (foldl (\<lambda>a f. f a) a (map suffix_node gs), seek s j)"
  using assms
proof (induction gs arbitrary: k a)
  case Nil
  then show ?case
    by (intro loopN_break) (simp add: suffix_round_def run_simps tok_is_def tok_is2_def expr_end_def
        operand_end_def suffix_starts_def)
next
  case (Cons g gs)
  let ?k = "k + int (length (print_suffix g))"
  have fuel: "Suc (length (g # gs) + n') = Suc (Suc (length gs + n'))" by simp
  have r: "reads_at s (k + 1) (print_suffix g)" "reads_at s (?k + 1) (concat (map print_suffix gs))"
    using Cons.prems(3) by (simp_all add: ac_simps)
  have "operand_end s (?k + 1)"
    using r(2) Cons.prems(4,5) operand_end_suffix [of s "?k + 1"] by (cases gs) (auto simp: expr_end_def)
  then have "suffix_round (calls_at n) a (seek s k) = Inr (Inl (suffix_node g a), seek s ?k)"
    using Cons.prems(1,2) r(1) by (simp add: parses_suffix_def ac_simps)
  moreover have "j = ?k + int (length (concat (map print_suffix gs)))" using Cons.prems(4) by simp
  ultimately show ?case using Cons.IH [OF _ _ r(2) _ Cons.prems(5)] Cons.prems(1,2)
    by (simp only: fuel loopN_continue) simp
qed

section \<open>Items\<close>

text \<open>
  An expression is collected in one round for each of its operands and prefix operators; the
  round of the last operand also takes the infix operator that follows the expression, if any.
\<close>

fun rounds :: "expr_syntax \<Rightarrow> nat" where
  "rounds (EUnary p m e) = Suc (rounds e)"
| "rounds (EBinary l p r) = rounds l + rounds r"
| "rounds (EOperand b xs) = 1"

definition collected :: "nat \<Rightarrow> bool \<Rightarrow> pstate \<Rightarrow> int \<Rightarrow> nat \<Rightarrow> item list \<Rightarrow> item list P" where
  "collected n b s j k xs = (\<lambda>_. case binary_operator (tok_type (token_at s j)) of
      Some op \<Rightarrow> loopN k (item_round (calls_at n) b) (xs @ [PendingOp (get_pos (token_at s j)) op False]) (seek s j)
    | None \<Rightarrow> Inr (xs, seek s (j - 1)))"

definition collects :: "nat \<Rightarrow> expr_syntax \<Rightarrow> bool" where
  "collects n e \<longleftrightarrow> (\<forall>s i b. 0 \<le> i \<longrightarrow> expr_ok e b \<longrightarrow> reads_at s (i + 1) (print_expr e) \<longrightarrow>
     expr_end s (i + 1 + int (length (print_expr e))) \<longrightarrow>
     (\<exists>xs. map item_symbol xs = symbols (expr_tree e) \<and> (\<forall>acc k.
        loopN (rounds e + k) (item_round (calls_at n) b) acc (seek s i)
        = collected n b s (i + 1 + int (length (print_expr e))) k (acc @ xs) (seek s i))))"

lemma collectsE:
  assumes "collects n e" "0 \<le> i" "expr_ok e b" "reads_at s k (print_expr e)" "k = i + 1"
    "expr_end s j" "j = k + int (length (print_expr e))"
  obtains xs where "map item_symbol xs = symbols (expr_tree e)"
    "\<And>acc k. loopN (rounds e + k) (item_round (calls_at n) b) acc (seek s i) = collected n b s j k (acc @ xs) (seek s i)"
  using assms unfolding collects_def by blast

lemma collects_operand:
  assumes "parses_base n g" "\<forall>x\<in>set gs. parses_suffix n x"
  shows "collects n (EOperand g gs)"
  unfolding collects_def
proof (intro allI impI)
  fix s i b assume i: "(0::int) \<le> i" and ok: "expr_ok (EOperand g gs) b"
    and r: "reads_at s (i + 1) (print_expr (EOperand g gs))"
    and e: "expr_end s (i + 1 + int (length (print_expr (EOperand g gs))))"
  let ?k = "i + int (length (print_base g))"
  let ?j = "?k + int (length (concat (map print_suffix gs)))"
  let ?x = "expr_node (EOperand g gs)"
  have rr: "reads_at s (i + 1) (print_base g)" "reads_at s (?k + 1) (concat (map print_suffix gs))"
    and j: "expr_end s (?j + 1)" using r e by (simp_all add: ac_simps)
  have "operand_end s (?k + 1)"
    using rr(2) j operand_end_suffix [of s "?k + 1"] by (cases gs) (auto simp: expr_end_def)
  then have g: "operand (calls_at n) b (seek s i) = Inr (Inr (base_node g), seek s ?k)"
    using assms(1) i ok rr(1) by (simp add: parses_base_def ac_simps)
  have "length gs \<le> length (concat (map print_suffix gs))"
  proof (induction gs)
    case (Cons x xs)
    then show ?case by (cases x) auto
  qed simp
  then have "int (length gs) \<le> int (length (m_tokens s))"
    using j i by (simp add: expr_end_def operand_end_def in_tokens_def)
  then obtain n' where n': "length (m_tokens s) = length gs + n'" by (auto simp: le_iff_add)
  have "suffixes (calls_at n) (base_node g) (seek s ?k) = Inr (?x, seek s ?j)"
    unfolding suffixes_def loopP_seek n' by (subst suffixes_run [OF _ _ rr(2) refl j])
      (use assms(2) ok i in \<open>auto simp: list_all_iff\<close>)
  moreover have "in_tokens s (?j + 1)" using j by (simp add: expr_end_def operand_end_def)
  ultimately have "loopN (Suc k) (item_round (calls_at n) b) acc (seek s i)
      = collected n b s (?j + 1) k (acc @ [Node ?x]) (seek s i)" for acc k
    using g by (cases "binary_operator (tok_type (token_at s (?j + 1)))")
      (simp_all add: loopN.simps item_round_def run_simps collected_def Let_def del: expr_node.simps)
  then show "\<exists>xs. map item_symbol xs = symbols (expr_tree (EOperand g gs)) \<and> (\<forall>acc k.
      loopN (rounds (EOperand g gs) + k) (item_round (calls_at n) b) acc (seek s i)
      = collected n b s (i + 1 + int (length (print_expr (EOperand g gs)))) k (acc @ xs) (seek s i))"
    by (intro exI [of _ "[Node ?x]"]) (simp add: ac_simps del: expr_node.simps)
qed

lemma collects_unary:
  assumes "collects n e"
  shows "collects n (EUnary p m e)"
  unfolding collects_def
proof (intro allI impI)
  fix s i b assume i: "(0::int) \<le> i" and ok: "expr_ok (EUnary p m e) b"
    and r: "reads_at s (i + 1) (print_expr (EUnary p m e))"
    and e: "expr_end s (i + 1 + int (length (print_expr (EUnary p m e))))"
  let ?k = "if m then 2 + i else i + 1"
  have tk: "in_tokens s (i + 1)" "tok_type (token_at s (i + 1)) = Op p"
      "m \<Longrightarrow> in_tokens s (2 + i) \<and> tok_type (token_at s (2 + i)) = Kword KWORD_MUTABLE"
      and rr: "reads_at s (?k + 1) (print_expr e)"
    using r by (auto simp: ac_simps dest!: lexeme_sign split: if_splits)
  obtain op where op: "prefix_operator (Op p) = Some op" and okk: "expr_ok e b" "\<not> bang e" "m \<Longrightarrow> op = OT_REFERENCE"
    using ok by (auto simp: prefix_operator_def)
  note hd = reads_expr_head [OF okk(1) rr]
  from hd have hd1: "in_tokens s (?k + 1)" "tok_type (token_at s (?k + 1)) \<noteq> Op OP_NOT"
    "tok_type (token_at s (?k + 1)) \<noteq> Kword KWORD_MUTABLE"
    using okk(2) expr_start_not by auto
  let ?x = "PendingOp (get_pos (token_at s (i + 1))) op m"
  have two: "in_tokens s (2 + i)" "tok_type (token_at s (2 + i)) \<noteq> Op OP_NOT"
    "m \<longleftrightarrow> tok_type (token_at s (2 + i)) = Kword KWORD_MUTABLE"
    using hd1 tk(3) by (cases m; simp add: ac_simps)+
  have step: "operand (calls_at n) b (seek s i) = Inr (Inl ?x, seek s ?k)"
  proof -
    have "operand (calls_at n) b (seek s i) = normal_operand (calls_at n) b (token_at s (i + 1)) (seek s (i + 1))"
      using tk two by (intro operand_normal) simp_all
    moreover have "prefix_item (token_at s (i + 1)) op (seek s (i + 1)) = Inr (?x, seek s ?k)"
      using two okk(3) by (cases m) (simp_all add: prefix_item_def run_simps tok_is_def)
    ultimately show ?thesis
      using tk(2) op by (simp add: normal_operand_def deduceType_def run_simps tok_is_def)
  qed
  let ?j = "?k + 1 + int (length (print_expr e))"
  have end_j: "i + 1 + int (length (print_expr (EUnary p m e))) = ?j" by (cases m) simp_all
  have j: "expr_end s ?j" using e unfolding end_j .
  have "0 \<le> ?k" using i by simp
  from collectsE [OF assms this okk(1) rr refl j refl] obtain xs where xs: "map item_symbol xs = symbols (expr_tree e)"
    "\<And>acc k. loopN (rounds e + k) (item_round (calls_at n) b) acc (seek s ?k) = collected n b s ?j k (acc @ xs) (seek s ?k)"
    by blast
  have "loopN (Suc (rounds e + k)) (item_round (calls_at n) b) acc (seek s i)
      = loopN (rounds e + k) (item_round (calls_at n) b) (acc @ [?x]) (seek s ?k)" for acc k
    using step by (intro loopN_continue) (simp add: item_round_def run_simps)
  then show "\<exists>xs. map item_symbol xs = symbols (expr_tree (EUnary p m e)) \<and> (\<forall>acc k.
      loopN (rounds (EUnary p m e) + k) (item_round (calls_at n) b) acc (seek s i)
      = collected n b s (i + 1 + int (length (print_expr (EUnary p m e)))) k (acc @ xs) (seek s i))"
    unfolding end_j using xs op
    by (intro exI [of _ "?x # xs"]) (simp add: collected_def)
qed

lemma infix_not_suffix: "infix_operator p = Some op \<Longrightarrow> 1 \<le> precedence op \<Longrightarrow>
    Op p \<notin> suffix_starts \<and> Op p \<noteq> VALUE_STRING \<and> p \<noteq> OP_NOT"
  by (auto simp: suffix_starts_def infix_operator_def precedence_def)

lemma collects_binary:
  assumes "collects n l" "collects n r"
  shows "collects n (EBinary l p r)"
  unfolding collects_def
proof (intro allI impI)
  fix s i b assume i: "(0::int) \<le> i" and ok: "expr_ok (EBinary l p r) b"
    and reads: "reads_at s (i + 1) (print_expr (EBinary l p r))"
    and e: "expr_end s (i + 1 + int (length (print_expr (EBinary l p r))))"
  let ?k = "i + 1 + int (length (print_expr l))"
  let ?j = "?k + 1 + int (length (print_expr r))"
  have rl: "reads_at s (i + 1) (print_expr l)" and rr: "reads_at s (?k + 1) (print_expr r)"
    and tk: "in_tokens s ?k" "tok_type (token_at s ?k) = Op p" and j: "expr_end s ?j"
    using reads e by (auto simp: ac_simps dest!: lexeme_sign)
  obtain op where op: "infix_operator p = Some op" "1 \<le> precedence op" and okl: "expr_ok l b" and okr: "expr_ok r b"
    using ok by (auto split: option.splits)
  have "tok_type (token_at s (?k + 1)) \<noteq> Sym SYM_QUESTION"
    using reads_expr_head [OF okr rr] expr_start_not by auto
  then have k: "expr_end s ?k"
    using tk infix_not_suffix [OF op] by (simp add: expr_end_def operand_end_def)
  have "0 \<le> ?k" using i by simp
  from collectsE [OF assms(2) this okr rr refl j refl] obtain ys where ys: "map item_symbol ys = symbols (expr_tree r)"
    "\<And>acc k. loopN (rounds r + k) (item_round (calls_at n) b) acc (seek s ?k) = collected n b s ?j k (acc @ ys) (seek s ?k)"
    by blast
  from collectsE [OF assms(1) i okl rl refl k refl] obtain xs where xs: "map item_symbol xs = symbols (expr_tree l)"
    "\<And>acc k. loopN (rounds l + k) (item_round (calls_at n) b) acc (seek s i) = collected n b s ?k k (acc @ xs) (seek s i)"
    by blast
  let ?x = "PendingOp (get_pos (token_at s ?k)) op False"
  have "loopN (rounds (EBinary l p r) + k) (item_round (calls_at n) b) acc (seek s i)
      = collected n b s ?j k (acc @ xs @ ?x # ys) (seek s i)" for acc k
    using xs(2) [of "rounds r + k" acc] ys(2) [of k "(acc @ xs) @ [?x]"] tk op(1)
    by (simp add: collected_def binary_operator_def ac_simps)
  then show "\<exists>xs. map item_symbol xs = symbols (expr_tree (EBinary l p r)) \<and> (\<forall>acc k.
      loopN (rounds (EBinary l p r) + k) (item_round (calls_at n) b) acc (seek s i)
      = collected n b s (i + 1 + int (length (print_expr (EBinary l p r)))) k (acc @ xs) (seek s i))"
    using xs(1) ys(1) op(1) by (intro exI [of _ "xs @ ?x # ys"]) (simp add: ac_simps)
qed

section \<open>Every expression\<close>

lemma rounds_length: "expr_ok e b \<Longrightarrow> rounds e \<le> length (print_expr e)"
proof (induction e arbitrary: b rule: expr_tree.induct)
  case (2 l p r)
  then obtain "expr_ok l b" "expr_ok r b" by (auto split: option.splits)
  with "2.IH" show ?case by fastforce
next
  case (3 g xs)
  then show ?case using print_base_head [of g b] by auto
next
  case (1 p m e)
  then have "rounds e \<le> length (print_expr e)" by (intro "1.IH" [of b]) simp
  then show ?case by simp
qed

lemma collects_parses:
  assumes "collects n e"
  shows "parses_expr n e"
  unfolding parses_expr_def
proof (intro allI impI)
  fix s i b assume i: "(0::int) \<le> i" and ok: "expr_ok e b" and r: "reads_at s (i + 1) (print_expr e)"
    and j: "stops s (i + 1 + int (length (print_expr e)))"
  from collectsE [OF assms i ok r refl stops_end [OF j] refl] obtain xs where
    xs: "map item_symbol xs = symbols (expr_tree e)" "\<And>acc k. loopN (rounds e + k) (item_round (calls_at n) b) acc (seek s i)
      = collected n b s (i + 1 + int (length (print_expr e))) k (acc @ xs) (seek s i)" by blast
  have "int (rounds e) \<le> int (length (m_tokens s))"
    using rounds_length [OF ok] j i by (simp add: stops_def in_tokens_def)
  then obtain k where k: "Suc (length (m_tokens s)) = rounds e + k" by (metis le_SucI le_iff_add of_nat_le_iff)
  have "expr_items (calls_at n) b (seek s i) = Inr (xs, seek s (i + int (length (print_expr e))))"
    using xs(2) [of k "[]"] j by (simp add: expr_items_def loopP_seek k collected_def stops_def)
  then show "parseExpr (calls_at n) b (seek s i) = Inr (expr_node e, seek s (i + int (length (print_expr e))))"
    using buildOperatorTree_symbols [OF xs(1) expr_tree_ok [OF ok]] check_assignment_ok [OF ok]
    by (simp add: parseExpr_def run_simps embed_expr_tree)
qed

lemma length_arg: "e \<in> set es \<Longrightarrow> length (print_expr e) \<le> length (commas (map print_expr es))"
  by (induction es rule: induct_list012) auto

lemma length_suffix: "g \<in> set gs \<Longrightarrow> length (print_suffix g) \<le> length (concat (map print_suffix gs))"
  by (induction gs) auto

lemma collects_all:
  "length (print_expr e) \<le> Suc n \<Longrightarrow> collects n e"
  "length (print_base g) \<le> Suc n \<Longrightarrow> parses_base n g"
  "length (print_suffix x) \<le> Suc n \<Longrightarrow> parses_suffix n x"
proof (induction e and g and x arbitrary: n and n and n)
  case (EUnary p m e)
  then show ?case by (intro collects_unary EUnary.IH) simp
next
  case (EBinary l p r)
  then show ?case by (intro collects_binary EBinary.IH) simp_all
next
  case (EOperand g xs)
  have "parses_suffix n x" if "x \<in> set xs" for x
    using EOperand.prems length_suffix [OF that] by (intro EOperand.IH(2) [OF that]) simp
  moreover have "parses_base n g" using EOperand.prems by (intro EOperand.IH(1)) simp
  ultimately show ?case by (simp add: collects_operand)
next
  case (BValue ty x)
  show ?case by (rule parses_value)
next
  case (BName x)
  show ?case by (rule parses_bname)
next
  case (BParen e)
  then obtain m where m: "n = Suc m" by (cases n) auto
  then show ?case using BParen by (simp add: parses_paren collects_parses)
next
  case (BNew t es)
  then obtain m where m: "n = Suc m" by (cases n) auto
  have "parses_expr m e" if "e \<in> set es" for e
    using BNew.prems m length_arg [OF that] by (intro collects_parses BNew.IH [OF that]) simp
  moreover have "parses m t" using BNew.prems m by (intro parses_all(1)) simp
  ultimately show ?case using m by (simp add: parses_new)
next
  case (SCall es)
  then obtain m where m: "n = Suc m" by (cases n) auto
  have "parses_expr m e" if "e \<in> set es" for e
    using SCall.prems m length_arg [OF that] by (intro collects_parses SCall.IH [OF that]) simp
  then show ?case using m by (simp add: parses_call)
next
  case (SIndex e)
  then obtain m where m: "n = Suc m" by (cases n) auto
  then show ?case using SIndex by (simp add: parses_index collects_parses)
next
  case (SMember st x)
  show ?case by (rule parses_member)
qed

end
