(* ===== verification/Parser_Exec.thy ===== *)
theory Parser_Exec
  imports Parser_Run
begin

text \<open>
  Executing the parser on concrete tokens: sample states, and the equations (collection \<open>exec\<close>) by
  which the simplifier runs a statement or an expression from its first token to its last.
\<close>

named_theorems exec \<open>equations that execute the parser on concrete tokens\<close>

section \<open>Sample states\<close>

text \<open>The tokens of one line, each with its kind, column and value.\<close>

definition sample_token :: "TokenType \<times> int \<times> string \<Rightarrow> Token" where
  "sample_token = (\<lambda>(ty, c, v). \<lparr>tok_type = ty, tok_line = 1, tok_col = c, tok_value = v, tok_comment = []\<rparr>)"

definition sample :: "(TokenType \<times> int \<times> string) list \<Rightarrow> pstate" where
  "sample ls = \<lparr>m_tok_index = 0, m_current = sample_token (ls ! 0), m_tokens = map sample_token ls,
     m_current_class = None, m_inside_loop = False, m_allow_comments = False,
     m_pending_attributes = [], m_source = []\<rparr>"

lemma sample_state [simp]:
  "m_tok_index (sample ls) = 0" "m_tokens (sample ls) = map sample_token ls"
  "m_current (sample ls) = sample_token (ls ! 0)" "m_pending_attributes (sample ls) = []"
  "m_inside_loop (sample ls) = False" "m_current_class (sample ls) = None"
  "in_tokens (sample ls) i \<longleftrightarrow> 0 \<le> i \<and> i < int (length ls)"
  by (simp_all add: sample_def in_tokens_def)

lemma sample_token_sel [simp]:
  "tok_type (sample_token (ty, c, v)) = ty" "tok_line (sample_token (ty, c, v)) = 1"
  "tok_col (sample_token (ty, c, v)) = c" "tok_value (sample_token (ty, c, v)) = v"
  "get_pos (sample_token (ty, c, v)) = (1, c)"
  by (simp_all add: sample_token_def get_pos_def)

lemma token_at_sample [simp]:
  "0 \<le> i \<Longrightarrow> i < int (length ls) \<Longrightarrow> token_at (sample ls) i = sample_token (ls ! nat i)"
  by (simp add: token_at_def nat_less_iff)

lemma sample_seek: "ls \<noteq> [] \<Longrightarrow> sample ls = seek (sample ls) 0"
  by (simp add: sample_def seek_def token_at_def)

lemma sample_string [simp]:
  "token_to_string (sample_token (IDENTIFIER, c, v)) = v"
  "token_to_string (sample_token (VALUE_NUMBER, c, v)) = v"
  by (simp_all add: token_to_string_def)

lemma depth_sample [exec]: "depth_for (seek (sample ls) i) = 4 * length ls + 4"
  by (simp add: depth_for_def)

section \<open>Running\<close>

lemma calls_numeral [exec]:
  "c_type (calls_at (numeral k)) s = parseType (calls_at (pred_numeral k)) s"
  "c_expr (calls_at (numeral k)) b s = parseExpr (calls_at (pred_numeral k)) b s"
  "c_stmt (calls_at (numeral k)) t s = parseStatement (calls_at (pred_numeral k)) t s"
  "c_block (calls_at (numeral k)) ts s = parseBlock (calls_at (pred_numeral k)) ts s"
  by (simp_all add: numeral_eq_Suc calls_at.simps call_all_def)

lemma loop_Suc [exec]:
  "loopP body v s = loopN (Suc (length (m_tokens s))) body v s"
  "loopN (Suc k) body v s = (case body v s of Inl e \<Rightarrow> Inl e
    | Inr (Inl v', t) \<Rightarrow> loopN k body v' t | Inr (Inr a, t) \<Rightarrow> Inr (a, t))"
  by (simp_all add: loopP_def loopN.simps run_simps split: sum.split)

lemma seek_flag [exec]:
  "(seek s i)\<lparr>m_inside_loop := b\<rparr> = seek (s\<lparr>m_inside_loop := b\<rparr>) i"
  "token_at (s\<lparr>m_inside_loop := b\<rparr>) k = token_at s k"
  "in_tokens (s\<lparr>m_inside_loop := b\<rparr>) k = in_tokens s k"
  by (simp_all add: seek_def token_at_def in_tokens_def)

lemma sample_flag [simp]: "(sample ls)\<lparr>m_inside_loop := False\<rparr> = sample ls"
  by (simp add: sample_def)

lemmas stmt_exec [exec] = parser_def parseBlock_def [THEN fun_cong] parseStatement_def [THEN fun_cong]
  parseWhile_def [THEN fun_cong] inside_loop_def [THEN fun_cong] parseLoopControl_def
  assertNoAttributes_def stmt_entry_def keyword_statement_def expression_statement_def

lemmas expr_exec [exec] = parseExpr_def [THEN fun_cong] expr_items_def [THEN fun_cong] suffixes_def [THEN fun_cong]
  item_round_def [THEN fun_cong] suffix_round_def [THEN fun_cong] operand_def [THEN fun_cong]
  special_operand_def [THEN fun_cong] normal_operand_def [THEN fun_cong] named_operand_def [THEN fun_cong]
  parseIdentifier_def [THEN fun_cong] check_assignment_def [THEN fun_cong] buildOperatorTree_def
  build_loop.simps binary_operator_def deduceType_def tok_is_def tok_is2_def Let_def

end
