(* ===== verification/Parser_Props.thy ===== *)
theory Parser_Props
  imports Parser_Progress Parser_Expr_Syntax Parser_Exec
begin

text \<open>
  Properties of the parser: what its routines leave of the state, that it always ends in a tree
  or a diagnostic, and what it does with types and expressions.
\<close>

section \<open>Progress and termination\<close>

lemma placed_initial: "initial_state ts src cm = Inr s \<Longrightarrow> placed s"
  by (auto simp: initial_state_def placed_def in_tokens_def token_at_def hd_conv_nth split: if_splits)

lemma depth_enough: "placed s \<Longrightarrow> 4 * tokens_left s + 3 \<le> int (depth_for s)"
  by (simp add: tokens_left_def depth_for_def placed_def in_tokens_def)

lemma wp_parser: "wp (parser f) Q s \<longleftrightarrow> wp (f (calls_at (depth_for s))) Q s"
  by (simp add: parser_def wp_def)

text \<open>
  C17. A routine of the parser that succeeds leaves the index within the tokens with the current
  token at it, has moved forward, has not changed the tokens, and has restored the flag for
  loops and the current class.
\<close>

theorem parser_discipline:
  assumes "placed s" and "parser f s = Inr (n, s')"
    and "f \<in> {parseType, parseClass} \<union> range (\<lambda>b c. parseExpr c b) \<union> range (\<lambda>t c. parseStatement c t)
      \<union> range (\<lambda>ts c. parseBlock c ts) \<union> range (\<lambda>b c. parseFunction c False b False False)"
  shows "m_tok_index s < m_tok_index s' \<and> m_tok_index s' < int (length (m_tokens s))
    \<and> m_current s' = m_tokens s ! nat (m_tok_index s') \<and> m_tokens s' = m_tokens s
    \<and> m_inside_loop s' = m_inside_loop s \<and> m_current_class s' = m_current_class s"
proof -
  have "wp (parser f) (\<lambda>a t. follows s t \<and> tokens_left t < tokens_left s) s"
    using assms(1,3) depth_enough [OF assms(1)]
    by (auto simp: wp_parser intro!: calls_progress.wp_parseType calls_progress.wp_parseClass
        calls_progress.wp_parseExpr calls_progress.wp_parseStatement calls_progress.wp_parseBlock
        calls_progress.wp_parseFunction)
  then have "follows s s'" "tokens_left s' < tokens_left s"
    using assms(2) by (simp_all add: wp_def)
  then show ?thesis
    by (auto simp: follows_def placed_def tokens_left_def constants_def in_tokens_def token_at_def)
qed

lemma placed_sample: "ls \<noteq> [] \<Longrightarrow> placed (sample ls)"
  by (simp add: placed_def)

theorem parser_discipline_witness:
  "\<exists>n s'. parser (\<lambda>c. parseBlock c [Sym BRACKET_RCURLY]) (sample [(Sym BRACKET_LCURLY, 1, []),
      (Kword KWORD_WHILE, 3, []), (IDENTIFIER, 9, ''x''), (Sym BRACKET_LCURLY, 11, []),
      (Kword KWORD_BREAK, 13, []), (Sym SYM_SEMI_COLLON, 18, []), (Sym BRACKET_RCURLY, 20, []),
      (Sym BRACKET_RCURLY, 22, [])]) = Inr (n, s')
    \<and> n = Block no_attributes [WhileLoop (Identifier ''x'') (Block no_attributes [LoopFlow Break]) False None]
    \<and> 0 < m_tok_index s' \<and> m_inside_loop s' = False \<and> m_current_class s' = None"
proof -
  let ?ls = "[(Sym BRACKET_LCURLY, 1, []), (Kword KWORD_WHILE, 3, []), (IDENTIFIER, 9, ''x''),
      (Sym BRACKET_LCURLY, 11, []), (Kword KWORD_BREAK, 13, []), (Sym SYM_SEMI_COLLON, 18, []),
      (Sym BRACKET_RCURLY, 20, []), (Sym BRACKET_RCURLY, 22, [])]"
  let ?n = "Block no_attributes [WhileLoop (Identifier ''x'') (Block no_attributes [LoopFlow Break]) False None]"
  have "parser (\<lambda>c. parseBlock c [Sym BRACKET_RCURLY]) (seek (sample ?ls) 0) = Inr (?n, seek (sample ?ls) 7)"
    by (simp add: exec run_simps)
  then have run: "parser (\<lambda>c. parseBlock c [Sym BRACKET_RCURLY]) (sample ?ls) = Inr (?n, seek (sample ?ls) 7)"
    by (simp only: sample_seek [of ?ls, symmetric] list.distinct simp_thms)
  show ?thesis
    using parser_discipline [OF placed_sample run] run by auto
qed

text \<open>
  C18. The parser always ends: on every list of tokens it answers with a tree, a diagnostic, a
  failed assertion or an indexing exception. It never reaches undefined behaviour, and the depth
  and the rounds its model allows are always enough.
\<close>

theorem parse_outcome:
  "(\<exists>ns. parse ts src cm = Inr ns) \<or> (\<exists>d. parse ts src cm = Inl (ParserError d))
   \<or> parse ts src cm = Inl AssertFail \<or> parse ts src cm = Inl (StdException ''out_of_range'')"
proof (cases "initial_state ts src cm")
  case (Inl e)
  then show ?thesis by (auto simp: parse_def initial_state_def split: if_splits)
next
  case (Inr s)
  then have "wp (parseGlobal (calls_at (depth_for s)) TK_EOF) (\<lambda>_ _. True) s"
    using depth_enough [OF placed_initial [OF Inr]] placed_initial [OF Inr]
    by (intro calls_progress.wp_parseGlobal) auto
  then show ?thesis
    by (cases "parseGlobal (calls_at (depth_for s)) TK_EOF s")
       (auto simp: parse_def parser_def Inr wp_def allowed_def)
qed

section \<open>Types and expressions\<close>

lemma placed_seek: "placed s \<Longrightarrow> seek s (m_tok_index s) = s"
  by (cases s) (simp add: placed_def seek_def token_at_def)

lemma depth_length:
  assumes "reads_at s i ls" "0 \<le> i"
  shows "length ls \<le> Suc (depth_for s)"
proof (cases "ls = []")
  case False
  then show ?thesis using reads_at_length [OF assms False] assms(2) by (simp add: depth_for_def)
qed simp

text \<open>
  C19. Where a type is written, followed by neither \<^verbatim>\<open><\<close> nor \<^verbatim>\<open>::\<close>, the parser reads exactly that type and
  stops at the token after it: names with paths and generics, tuples, functions, pointers and
  references, at any depth of nesting.
\<close>

theorem parseType_printed:
  assumes "placed s" and "reads_at s (m_tok_index s) (print_type t)"
    and "ends_at s (m_tok_index s + int (length (print_type t)))"
  shows "parser parseType s = Inr (type_node t, seek s (m_tok_index s + int (length (print_type t))))"
proof -
  have i: "0 \<le> m_tok_index s" using assms(1) by (simp add: placed_def in_tokens_def)
  show ?thesis
    using parsesD [OF parses_all(1) i assms(2,3) refl] depth_length [OF assms(2) i] placed_seek [OF assms(1)]
    by (simp add: parser_def)
qed

theorem parseType_printed_witness:
  "parser parseType (sample [(Op OP_BIT_AND, 1, []), (IDENTIFIER, 2, ''A''), (Op OP_LT, 3, []),
      (IDENTIFIER, 4, ''B''), (Sym SYM_COMMA, 5, []), (Op OP_MUL, 7, []), (Kword KWORD_CONST, 8, []),
      (IDENTIFIER, 14, ''C''), (Op OP_GT, 15, []), (Sym SYM_SEMI_COLLON, 16, [])])
   = Inr (type_node (TReference False (TName (Gen ''A''
        [TName (Plain ''B'') [], TPointer False (TName (Plain ''C'') [])]) [])),
      seek (sample [(Op OP_BIT_AND, 1, []), (IDENTIFIER, 2, ''A''), (Op OP_LT, 3, []),
      (IDENTIFIER, 4, ''B''), (Sym SYM_COMMA, 5, []), (Op OP_MUL, 7, []), (Kword KWORD_CONST, 8, []),
      (IDENTIFIER, 14, ''C''), (Op OP_GT, 15, []), (Sym SYM_SEMI_COLLON, 16, [])]) 9)"
  using parseType_printed [of "sample [(Op OP_BIT_AND, 1, []), (IDENTIFIER, 2, ''A''), (Op OP_LT, 3, []),
      (IDENTIFIER, 4, ''B''), (Sym SYM_COMMA, 5, []), (Op OP_MUL, 7, []), (Kword KWORD_CONST, 8, []),
      (IDENTIFIER, 14, ''C''), (Op OP_GT, 15, []), (Sym SYM_SEMI_COLLON, 16, [])]"
    "TReference False (TName (Gen ''A'' [TName (Plain ''B'') [], TPointer False (TName (Plain ''C'') [])]) [])"]
  by (simp add: placed_sample lexeme_of_def token_to_string_def ends_at_def op_to_string_def symbol_to_string_def keyword_to_string_def del: type_node.simps)



section \<open>What the parser refuses\<close>

text \<open>
  An exclamation mark that directly follows the first token of an operand is taken for the mark of a
  macro call whatever that token is, and then requires an opening bracket: \<^verbatim>\<open>(!x)\<close>, \<^verbatim>\<open>!!x\<close> and \<^verbatim>\<open>-!x\<close> are
  syntax errors at the token behind the mark.
\<close>

theorem mark_after_any_token:
  assumes "placed s" and "in_tokens s (m_tok_index s + 3)"
    and "tok_type (token_at s (m_tok_index s + 1)) \<noteq> Sym SYM_HASH"
    and "tok_type (token_at s (m_tok_index s + 2)) = Op OP_NOT"
    and "tok_line (token_at s (m_tok_index s + 2)) = tok_line (token_at s (m_tok_index s + 1))"
    and "tok_col (token_at s (m_tok_index s + 2)) = tok_col (token_at s (m_tok_index s + 1))
      + int (length (token_to_string (token_at s (m_tok_index s + 1))))"
    and "tok_type (token_at s (m_tok_index s + 3)) \<noteq> Sym BRACKET_LPARENT"
  shows "\<exists>d. parser (\<lambda>c. parseExpr c b) s = Inl (ParserError d) \<and> d_error d = SYNTAX_ERROR
    \<and> (d_line d, d_col d) = get_pos (token_at s (m_tok_index s + 3))"
proof -
  let ?i = "m_tok_index s"
  have tk: "in_tokens s (?i + 1)" "in_tokens s (2 + ?i)" "in_tokens s (3 + ?i)"
    using assms(1,2) by (simp_all add: placed_def in_tokens_def)
  have refuse: "\<exists>d. assert_tok (Sym BRACKET_LPARENT) w (seek s (3 + ?i)) = Inl (ParserError d)
      \<and> d_error d = SYNTAX_ERROR \<and> (d_line d, d_col d) = get_pos (token_at s (3 + ?i))" for w
    using assms(7) by (simp add: assert_tok_def run_simps tok_is_def createError_def createError_at_def add.commute)
  have "right_next_to (tok_line (token_at s (?i + 1)),
      tok_col (token_at s (?i + 1)) + int (length (token_to_string (token_at s (?i + 1)))) - 1)
      (get_pos (token_at s (2 + ?i)))"
    using assms(5,6) by (simp add: right_next_to_def get_pos_def add.commute)
  then have macro: "macro_call c (seek s (?i + 1)) = (case assert_tok (Sym BRACKET_LPARENT) (quoted ''('') (seek s (3 + ?i)) of
      Inl e \<Rightarrow> Inl e | Inr (_, t) \<Rightarrow> bindP nextT (\<lambda>_. bindP (macro_args c) (\<lambda>args. returnP
        (Some (PseudoVariable (token_to_string (token_at s (?i + 1))) args True False)))) t)" for c
    using tk by (simp add: macro_call_def Let_def run_simps)
  obtain d where d: "assert_tok (Sym BRACKET_LPARENT) (quoted ''('') (seek s (3 + ?i)) = Inl (ParserError d)"
      "d_error d = SYNTAX_ERROR" "(d_line d, d_col d) = get_pos (token_at s (?i + 3))"
    using refuse [of "quoted ''(''"] by (auto simp: add.commute)
  have "tok_type (token_at s (2 + ?i)) = Op OP_NOT" using assms(4) by (simp add: add.commute)
  then have "operand c b (seek s ?i) = Inl (ParserError d)" for c
    using assms(3) tk macro d(1) by (simp add: operand_def special_operand_def run_simps tok_is_def)
  then have "operand (calls_at (depth_for s)) b s = Inl (ParserError d)"
    by (metis placed_seek [OF assms(1)])
  with d(2,3) show ?thesis
    by (simp add: parser_def parseExpr_def expr_items_def item_round_def loopP_def loopN.simps run_simps)
qed

theorem mark_after_any_token_witness:
  "\<exists>d. parser (\<lambda>c. parseExpr c False) (sample [(Kword KWORD_RETURN, 1, []), (Sym BRACKET_LPARENT, 8, []),
      (Op OP_NOT, 9, []), (IDENTIFIER, 10, ''x''), (Sym BRACKET_RPARENT, 11, []), (Sym SYM_SEMI_COLLON, 12, [])])
    = Inl (ParserError d) \<and> d_error d = SYNTAX_ERROR \<and> (d_line d, d_col d) = (1, 10)"
  using mark_after_any_token [of "sample [(Kword KWORD_RETURN, 1, []), (Sym BRACKET_LPARENT, 8, []),
      (Op OP_NOT, 9, []), (IDENTIFIER, 10, ''x''), (Sym BRACKET_RPARENT, 11, []), (Sym SYM_SEMI_COLLON, 12, [])]" False]
  by (simp add: placed_sample token_to_string_def symbol_to_string_def)

text \<open>
  The token \<^verbatim>\<open>&&\<close> in front of a type makes one reference, the same as \<^verbatim>\<open>&\<close>, and not the reference to a
  reference that the comment of the source promises.
\<close>

theorem double_ampersand_is_one_reference:
  assumes "placed s" and "reads_at s (m_tok_index s) ((Op OP_AND, ''&&'') # print_type t)"
    and "ends_at s (m_tok_index s + 1 + int (length (print_type t)))"
  shows "parser parseType s = Inr (ReferenceTypeRef (type_node t) False,
    seek s (m_tok_index s + 1 + int (length (print_type t))))"
proof -
  let ?i = "m_tok_index s"
  have i: "0 \<le> ?i" using assms(1) by (simp add: placed_def in_tokens_def)
  obtain n where n: "depth_for s = Suc n" by (simp add: depth_for_def)
  have tk: "in_tokens s ?i" "tok_type (token_at s ?i) = Op OP_AND" and t: "reads_at s (?i + 1) (print_type t)"
    using assms(2) by (simp_all add: lexeme_of_def)
  have "length (print_type t) \<le> Suc n"
    using depth_length [OF assms(2) i] n by simp
  then have "c_type (calls_at (Suc n)) (seek s (?i + 1)) = Inr (type_node t, seek s (?i + 1 + int (length (print_type t))))"
    using i assms(3) by (intro call_type_run [OF parses_all(1) t]) simp_all
  moreover have "tok_type (token_at s (?i + 1)) \<noteq> Kword KWORD_MUTABLE"
    using reads_type_head [OF t] by (auto simp: type_starts_def)
  ultimately have "parseType (calls_at (Suc n)) (seek s ?i)
      = Inr (ReferenceTypeRef (type_node t) False, seek s (?i + 1 + int (length (print_type t))))"
    using tk reads_type_head [OF t]
    by (simp add: parseType_run type_starts_def tok_is_def parseType_reference_def run_simps ac_simps)
  then show ?thesis using n placed_seek [OF assms(1)] by (simp add: parser_def)
qed

theorem double_ampersand_witness:
  "parser parseType (sample [(Op OP_AND, 1, []), (IDENTIFIER, 3, ''T''), (Sym SYM_SEMI_COLLON, 4, [])])
   = Inr (ReferenceTypeRef (TypeRef ''T'' [] ''T'' (Some (Identifier ''T''))) False,
      seek (sample [(Op OP_AND, 1, []), (IDENTIFIER, 3, ''T''), (Sym SYM_SEMI_COLLON, 4, [])]) 2)"
  using double_ampersand_is_one_reference [of "sample [(Op OP_AND, 1, []), (IDENTIFIER, 3, ''T''),
      (Sym SYM_SEMI_COLLON, 4, [])]" "TName (Plain ''T'') []"]
  by (simp add: placed_sample lexeme_of_def token_to_string_def ends_at_def op_to_string_def identifier_name_def identifier_generics_def)

text \<open>An operand that starts with the last token ends in an internal error and not in a diagnostic.\<close>

lemma expression_at_the_end:
  assumes "placed s" "m_tok_index s + 2 = int (length (m_tokens s))"
    "tok_type (token_at s (m_tok_index s + 1)) \<noteq> Sym SYM_HASH"
  shows "\<exists>d. parser (\<lambda>c. parseExpr c b) s = Inl (ParserError d) \<and> d_error d = BUG"
proof -
  let ?i = "m_tok_index s"
  have tk: "in_tokens s (?i + 1)" "\<not> in_tokens s (2 + ?i)"
    using assms(1,2) by (simp_all add: placed_def in_tokens_def)
  have "\<exists>d. operand c b (seek s ?i) = Inl (ParserError d) \<and> d_error d = BUG" for c
    using assms(3) tk by (simp add: operand_def special_operand_def run_simps createError_at_def createError_def tok_is_def)
  then obtain d where "operand (calls_at (depth_for s)) b s = Inl (ParserError d)" "d_error d = BUG"
    by (metis placed_seek [OF assms(1)])
  then show ?thesis
    by (simp add: parser_def parseExpr_def expr_items_def item_round_def loopP_def loopN.simps run_simps)
qed

end
