(* ===== verification/DefiniteAssignment.thy ===== *)
theory DefiniteAssignment
  imports Ast
begin

text \<open>
  The definite assignment analysis, \<^verbatim>\<open>src/visitors/analyzers/\<close>. A visit function takes the
  visitor \<open>accept\<close> for the nodes below, a node and the state of the analysis, and returns the
  node (the analysis sets \<^verbatim>\<open>isInitialization\<close> on assignments) with the new state, or an error.
  The knot is tied by fuel at the end: \<open>accept k\<close> is the visitor with recursion depth \<open>k\<close>,
  running out of fuel stands for the exhausted stack of the C++ program.
\<close>

section \<open>State\<close>

datatype ReferenceStatus = NotInitialized | Initialized

text \<open>
  A scope is an \<^verbatim>\<open>unordered_map\<close>; the list has distinct keys, and its order, which the source
  leaves unspecified, is the order of insertion.
\<close>

type_synonym Scope = "(string \<times> ReferenceStatus) list"

record dav =
  insideClass :: "node option"
  scopes :: "Scope list"
  inited :: "string list"

definition init_dav :: dav where
  "init_dav = \<lparr>insideClass = None, scopes = [[]], inited = []\<rparr>"

type_synonym 'a action = "dav \<Rightarrow> ('a \<times> dav) res"

type_synonym visitor = "node \<Rightarrow> node action"

text \<open>The first scope of the list; the list is never empty (\<open>dav_frame\<close> below).\<close>

definition map_front :: "(Scope \<Rightarrow> Scope) \<Rightarrow> dav \<Rightarrow> dav" where
  "map_front f st = st\<lparr>scopes := (case scopes st of [] \<Rightarrow> [] | s # ss \<Rightarrow> f s # ss)\<rparr>"

text \<open>\<^verbatim>\<open>insert\<close> and \<^verbatim>\<open>emplace\<close> keep an entry that is there, \<^verbatim>\<open>operator[]\<close> overwrites it.\<close>

definition scope_insert :: "string \<Rightarrow> ReferenceStatus \<Rightarrow> Scope \<Rightarrow> Scope" where
  "scope_insert x r s = (if map_of s x = None then s @ [(x, r)] else s)"

definition scope_set :: "string \<Rightarrow> ReferenceStatus \<Rightarrow> Scope \<Rightarrow> Scope" where
  "scope_set x r s = AList.update x r s"

section \<open>Utilities\<close>

definition withScope :: "'a action \<Rightarrow> 'a action" where
  "withScope cb st =
     bindR (cb (st\<lparr>scopes := [] # scopes st\<rparr>)) (\<lambda>(x, st').
     Inr (x, st'\<lparr>scopes := tl (scopes st')\<rparr>))"

definition withState :: "'a action \<Rightarrow> 'a action" where
  "withState cb st =
     bindR (cb (st\<lparr>inited := []\<rparr>)) (\<lambda>(x, st'). Inr (x, st'\<lparr>inited := inited st\<rparr>))"

definition asBlock :: "'a action \<Rightarrow> 'a action" where
  "asBlock cb = withScope (withState cb)"

primrec find_scopes :: "Scope list \<Rightarrow> string \<Rightarrow> ReferenceStatus option" where
  "find_scopes [] x = None"
| "find_scopes (s # ss) x = (case map_of s x of Some r \<Rightarrow> Some r | None \<Rightarrow> find_scopes ss x)"

definition getIdentifier :: "dav \<Rightarrow> string \<Rightarrow> ReferenceStatus option" where
  "getIdentifier st x = find_scopes (scopes st) x"

text \<open>What a visit does on finding an uninitialised variable assigned.\<close>

definition mark_initialized :: "string \<Rightarrow> dav \<Rightarrow> dav" where
  "mark_initialized x st =
     (map_front (scope_set x Initialized) st)\<lparr>inited := inited st @ [x]\<rparr>"

primrec visit_all :: "visitor \<Rightarrow> node list \<Rightarrow> node list action" where
  "visit_all accept [] st = Inr ([], st)"
| "visit_all accept (n # ns) st =
     bindR (accept n st) (\<lambda>(n', st1). bindR (visit_all accept ns st1) (\<lambda>(ns', st2).
     Inr (n' # ns', st2)))"

definition visit_opt :: "visitor \<Rightarrow> node option \<Rightarrow> node option action" where
  "visit_opt accept n st = (case n of None \<Rightarrow> Inr (None, st)
     | Some n \<Rightarrow> bindR (accept n st) (\<lambda>(n', st'). Inr (Some n', st')))"

definition block_stmts :: "node \<Rightarrow> node list" where
  "block_stmts b = (case b of Block a ss \<Rightarrow> ss | _ \<Rightarrow> [])"

definition with_stmts :: "node \<Rightarrow> node list \<Rightarrow> node" where
  "with_stmts b ns = (case b of Block a ss \<Rightarrow> Block a ns | _ \<Rightarrow> b)"

text \<open>
  The statements of a block visited by \<^verbatim>\<open>asBlock\<close>; the variables initialised inside are returned
  with the node.
\<close>

definition visit_block :: "visitor \<Rightarrow> node \<Rightarrow> (node \<times> string list) action" where
  "visit_block accept b =
     asBlock (\<lambda>st. bindR (visit_all accept (block_stmts b) st) (\<lambda>(ns, st').
       Inr ((with_stmts b ns, inited st'), st')))"

text \<open>Marking what the enclosing scope sees as uninitialised, in the order of the list.\<close>

definition propagate :: "string \<Rightarrow> dav \<Rightarrow> dav" where
  "propagate x st =
     (if getIdentifier st x = Some NotInitialized then mark_initialized x st else st)"

primrec propagate_all :: "string list \<Rightarrow> dav \<Rightarrow> dav" where
  "propagate_all [] st = st"
| "propagate_all (x # xs) st = propagate_all xs (propagate x st)"

definition variable_error :: "string \<Rightarrow> failure" where
  "variable_error msg = CompilerError VARIABLE_ERROR msg"

definition before_assigned :: "string \<Rightarrow> failure" where
  "before_assigned x =
     variable_error (''Variable '' @ [SQUOTE] @ x @ [SQUOTE] @ '' is used before being assigned.'')"

section \<open>Expressions\<close>

definition visit_Identifier :: "node \<Rightarrow> string \<Rightarrow> node action" where
  "visit_Identifier n x st =
     (case getIdentifier st x of
        Some NotInitialized \<Rightarrow> Inl (before_assigned x)
      | _ \<Rightarrow> Inr (n, st))"

text \<open>
  The dynamic cast to \<^verbatim>\<open>Identifier\<close> also succeeds on a generic identifier.
\<close>

definition as_identifier :: "node \<Rightarrow> string option" where
  "as_identifier n = (case n of Identifier x \<Rightarrow> Some x | GenericIdentifier x gs \<Rightarrow> Some x | _ \<Rightarrow> None)"

definition self_member :: "string \<Rightarrow> string" where
  "self_member x = ''$self::'' @ x"

definition visit_Index :: "visitor \<Rightarrow> node \<Rightarrow> node \<Rightarrow> bool \<Rightarrow> node action" where
  "visit_Index accept base ident isStatic st =
     (if isStatic then Inr (Index base ident isStatic, st)
      else if as_identifier base = Some ''self'' \<and> insideClass st \<noteq> None then
        (let x = (case as_identifier ident of Some x \<Rightarrow> x | None \<Rightarrow> []) in
         case getIdentifier st (self_member x) of
           Some NotInitialized \<Rightarrow> Inl (variable_error
              (''Class variable '' @ [SQUOTE] @ x @ [SQUOTE] @ '' is used before being assigned.''))
         | _ \<Rightarrow> Inr (Index base ident isStatic, st))
      else bindR (accept base st) (\<lambda>(base', st'). Inr (Index base' ident isStatic, st')))"

text \<open>
  An assignment. When the left side is a known identifier the function returns at once: the
  right side is not visited. When it is a member of \<^verbatim>\<open>self\<close> the member is marked and both sides
  are visited.
\<close>

definition assign_member :: "node \<Rightarrow> dav \<Rightarrow> bool \<Rightarrow> bool \<times> dav" where
  "assign_member left st isInit = (case left of
      Index base ident isStatic \<Rightarrow>
        (if as_identifier base = Some ''self'' then
          (let v = self_member (case as_identifier ident of Some x \<Rightarrow> x | None \<Rightarrow> []) in
           if getIdentifier st v = Some NotInitialized then (True, mark_initialized v st)
           else (isInit, st))
         else (isInit, st))
    | _ \<Rightarrow> (isInit, st))"

definition visit_operands ::
  "visitor \<Rightarrow> OperatorType \<Rightarrow> node \<Rightarrow> node option \<Rightarrow> bool \<Rightarrow> bool \<Rightarrow> node action" where
  "visit_operands accept op left right mref isInit st =
     bindR (accept left st) (\<lambda>(left', st1).
       if isUnary op then Inr (BinaryOp op left' right mref isInit, st1)
       else (case right of
           None \<Rightarrow> Inl (Undefined ''null right operand'')
         | Some r \<Rightarrow> bindR (accept r st1) (\<lambda>(r', st2).
             Inr (BinaryOp op left' (Some r') mref isInit, st2))))"

definition visit_BinaryOp ::
  "visitor \<Rightarrow> OperatorType \<Rightarrow> node \<Rightarrow> node option \<Rightarrow> bool \<Rightarrow> bool \<Rightarrow> node action" where
  "visit_BinaryOp accept op left right mref isInit st =
     (if op = OT_EQ then
        (case as_identifier left of
           Some x \<Rightarrow>
             (case getIdentifier st x of
                Some NotInitialized \<Rightarrow>
                  Inr (BinaryOp op left right mref True, mark_initialized x st)
              | Some Initialized \<Rightarrow> Inr (BinaryOp op left right mref isInit, st)
              | None \<Rightarrow> Inl (before_assigned x))
         | None \<Rightarrow>
             (let (isInit', st') = assign_member left st isInit in
              visit_operands accept op left right mref isInit' st'))
      else visit_operands accept op left right mref isInit st)"

primrec insert_params :: "node Param list \<Rightarrow> dav \<Rightarrow> dav" where
  "insert_params [] st = st"
| "insert_params (a # as) st =
     insert_params as (map_front (scope_insert (param_name a) Initialized) st)"

text \<open>The parameters of a lambda go to the scope around it.\<close>

definition visit_LambdaFunction :: "visitor \<Rightarrow> node \<Rightarrow> node action" where
  "visit_LambdaFunction accept f st = (case f of
      BodiedFunction body d \<Rightarrow>
        bindR (accept body (insert_params (fn_args d) st)) (\<lambda>(body', st').
        Inr (LambdaFunction (BodiedFunction body' d), st'))
    | _ \<Rightarrow> Inl (Undefined ''null function of a lambda''))"

definition visit_FunctionCall :: "visitor \<Rightarrow> node \<Rightarrow> node list \<Rightarrow> node action" where
  "visit_FunctionCall accept callee args st =
     bindR (visit_all accept args st) (\<lambda>(args', st'). Inr (FunctionCall callee args', st'))"

definition visit_NewInstance :: "visitor \<Rightarrow> node \<Rightarrow> node \<Rightarrow> node action" where
  "visit_NewInstance accept call ty st = (case call of
      FunctionCall callee args \<Rightarrow>
        bindR (visit_all accept args st) (\<lambda>(args', st').
        Inr (NewInstance (FunctionCall callee args') ty, st'))
    | _ \<Rightarrow> Inl (Undefined ''null call of a new expression''))"

section \<open>Statements\<close>

definition visit_Block :: "visitor \<Rightarrow> node \<Rightarrow> node action" where
  "visit_Block accept b st =
     bindR (visit_block accept b st) (\<lambda>((b', blockInited), st').
     Inr (b', propagate_all blockInited st'))"

definition visit_VariableDecl :: "visitor \<Rightarrow> (node option \<Rightarrow> node) \<Rightarrow> string \<Rightarrow> node option
    \<Rightarrow> bool \<Rightarrow> node action" where
  "visit_VariableDecl accept mk name value isExtern st =
     bindR (visit_opt accept value st) (\<lambda>(value', st').
       let initialized = (if value \<noteq> None then Initialized else NotInitialized);
           initialized = (if isExtern then Initialized else initialized)
       in Inr (mk value', map_front (scope_insert name initialized) st'))"

definition visit_Conditional :: "visitor \<Rightarrow> node \<Rightarrow> node \<Rightarrow> node option \<Rightarrow> node action" where
  "visit_Conditional accept cond insts elseBlock st =
     bindR (accept cond st) (\<lambda>(cond', st1).
     bindR (visit_block accept insts st1) (\<lambda>((insts', blockInited), st2).
       case elseBlock of
         None \<Rightarrow> Inr (Conditional cond' insts' None, st2)
       | Some e \<Rightarrow> bindR (visit_block accept e st2) (\<lambda>((e', elseInited), st3).
           Inr (Conditional cond' insts' (Some e'),
             propagate_all [id\<leftarrow>blockInited. id \<in> set elseInited] st3))))"

definition visit_WhileLoop ::
  "visitor \<Rightarrow> node \<Rightarrow> node \<Rightarrow> bool \<Rightarrow> node option \<Rightarrow> node action" where
  "visit_WhileLoop accept cond insts doWhile forCond st =
     bindR (accept cond st) (\<lambda>(cond', st1).
     bindR (visit_block accept insts st1) (\<lambda>((insts', _), st2).
     Inr (WhileLoop cond' insts' doWhile forCond, st2)))"

definition visit_ForLoop :: "visitor \<Rightarrow> string \<Rightarrow> node \<Rightarrow> node \<Rightarrow> node action" where
  "visit_ForLoop accept var expr block st =
     bindR (accept expr st) (\<lambda>(expr', st1).
     bindR (visit_block accept block st1) (\<lambda>((block', _), st2).
     Inr (ForLoop var expr' block', st2)))"

primrec visit_cases :: "visitor \<Rightarrow> node CaseBlock list \<Rightarrow> node CaseBlock list action" where
  "visit_cases accept [] st = Inr ([], st)"
| "visit_cases accept (c # cs) st =
     bindR (visit_block accept (case_block c) st) (\<lambda>((b, _), st1).
     bindR (visit_cases accept cs st1) (\<lambda>(cs', st2).
     Inr (CaseBlock (case_expression c) (case_args c) (isDefault c) (isVariadicCase c) b # cs', st2)))"

definition visit_Switch :: "visitor \<Rightarrow> node \<Rightarrow> node CaseBlock list \<Rightarrow> bool \<Rightarrow> node action" where
  "visit_Switch accept expr cases isCStyle st =
     bindR (accept expr st) (\<lambda>(expr', st1).
     bindR (visit_cases accept cases st1) (\<lambda>(cases', st2).
     Inr (Switch expr' cases' isCStyle, st2)))"

primrec visit_catches :: "visitor \<Rightarrow> node CatchBlock list \<Rightarrow> node CatchBlock list action" where
  "visit_catches accept [] st = Inr ([], st)"
| "visit_catches accept (c # cs) st =
     bindR (visit_block accept (catch_block c) st) (\<lambda>((b, _), st1).
     bindR (visit_catches accept cs st1) (\<lambda>(cs', st2).
     Inr (CatchBlock (exceptionType c) (exceptionVar c) b # cs', st2)))"

definition visit_TryCatch :: "visitor \<Rightarrow> node \<Rightarrow> node CatchBlock list \<Rightarrow> node action" where
  "visit_TryCatch accept tryBlock catchBlocks st =
     bindR (visit_block accept tryBlock st) (\<lambda>((tryBlock', _), st1).
     bindR (visit_catches accept catchBlocks st1) (\<lambda>(catchBlocks', st2).
     Inr (TryCatch tryBlock' catchBlocks', st2)))"

section \<open>Functions and classes\<close>

text \<open>
  Inside a class, a constructor gets one entry per class variable and visits the initial
  values; the new values are put back into the class.
\<close>

primrec visit_members :: "visitor \<Rightarrow> node list \<Rightarrow> node list action" where
  "visit_members accept [] st = Inr ([], st)"
| "visit_members accept (v # vs) st = (case v of
      VariableDecl x value mut ty cst ext prv com att \<Rightarrow>
        (let status = (if value \<noteq> None then Initialized else NotInitialized);
             st1 = map_front (scope_insert (self_member x) status) st
         in bindR (visit_opt accept value st1) (\<lambda>(value', st2).
            bindR (visit_members accept vs st2) (\<lambda>(vs', st3).
            Inr (VariableDecl x value' mut ty cst ext prv com att # vs', st3))))
    | _ \<Rightarrow> Inl (Undefined ''null class variable''))"

definition class_variables :: "node \<Rightarrow> node list" where
  "class_variables c = (case c of
      DefinedTypeDef name fs vs ts ext k im hc g p cm at \<Rightarrow> vs | _ \<Rightarrow> [])"

definition with_class_variables :: "node \<Rightarrow> node list \<Rightarrow> node" where
  "with_class_variables c vs' = (case c of
      DefinedTypeDef name fs vs ts ext k im hc g p cm at \<Rightarrow>
        DefinedTypeDef name fs vs' ts ext k im hc g p cm at | _ \<Rightarrow> c)"

definition enter_class :: "visitor \<Rightarrow> bool \<Rightarrow> unit action" where
  "enter_class accept isConstructor st = (case insideClass st of
      None \<Rightarrow> Inr ((), st)
    | Some c \<Rightarrow>
        (let st1 = map_front (scope_insert ''self'' Initialized) st in
         if isConstructor then
           bindR (visit_members accept (class_variables c) st1) (\<lambda>(vs, st2).
           Inr ((), st2\<lparr>insideClass := Some (with_class_variables c vs)\<rparr>))
         else Inr ((), st1)))"

primrec visit_inits :: "visitor \<Rightarrow> (node \<times> node) list \<Rightarrow> (node \<times> node) list action" where
  "visit_inits accept [] st = Inr ([], st)"
| "visit_inits accept (i # is) st =
     bindR (accept (snd i) st) (\<lambda>(e', st1).
       let name = self_member (case as_identifier (fst i) of Some x \<Rightarrow> x | None \<Rightarrow> []) in
       bindR (visit_inits accept is (map_front (scope_set name Initialized) st1)) (\<lambda>(is', st2).
       Inr ((fst i, e') # is', st2)))"

definition visitConstructor ::
  "visitor \<Rightarrow> node list \<Rightarrow> (node \<times> node) list \<Rightarrow> (node list \<times> (node \<times> node) list) action" where
  "visitConstructor accept superArgs initArgs st =
     bindR (visit_all accept superArgs st) (\<lambda>(superArgs', st1).
     bindR (visit_inits accept initArgs st1) (\<lambda>(initArgs', st2).
     Inr ((superArgs', initArgs'), st2)))"

text \<open>The class variables the constructor leaves unassigned, first of them in the message.\<close>

definition check_members :: "unit action" where
  "check_members st =
     (case [x \<leftarrow> (case scopes st of [] \<Rightarrow> [] | s # _ \<Rightarrow> s). startsWith (fst x) ''$self::'' \<and>
        snd x = NotInitialized] of
        [] \<Rightarrow> Inr ((), st)
      | x # _ \<Rightarrow> Inl (variable_error (''Class variable '' @ [SQUOTE] @ drop 7 (fst x) @ [SQUOTE] @
          '' has not been definitivly assigned!'')))"

definition visit_BodiedFunction :: "visitor \<Rightarrow> node \<Rightarrow> node FunctionDefData \<Rightarrow> node action" where
  "visit_BodiedFunction accept body d = withScope (\<lambda>st.
     bindR (enter_class accept False (insert_params (fn_args d) st)) (\<lambda>(_, st1).
     bindR (accept body st1) (\<lambda>(body', st2).
     Inr (BodiedFunction body' d, st2))))"

definition visit_ConstructorDef :: "visitor \<Rightarrow> node \<Rightarrow> node list \<Rightarrow> (node \<times> node) list \<Rightarrow> bool
    \<Rightarrow> node FunctionDefData \<Rightarrow> node action" where
  "visit_ConstructorDef accept body superArgs initArgs hasSuper d = withScope (\<lambda>st.
     bindR (enter_class accept True (insert_params (fn_args d) st)) (\<lambda>(_, st1).
     bindR (visitConstructor accept superArgs initArgs st1) (\<lambda>((superArgs', initArgs'), st2).
     bindR (accept body st2) (\<lambda>(body', st3).
     bindR (check_members st3) (\<lambda>(_, st4).
     Inr (ConstructorDef body' superArgs' initArgs' hasSuper d, st4))))))"

definition visit_DefinedTypeDef :: "visitor \<Rightarrow> node \<Rightarrow> node action" where
  "visit_DefinedTypeDef accept c st = (case c of
      DefinedTypeDef name fs vs ts ext k im hc g p cm at \<Rightarrow>
        bindR (visit_all accept fs (st\<lparr>insideClass := Some c\<rparr>)) (\<lambda>(fs', st').
          let vs' = (case insideClass st' of Some c' \<Rightarrow> class_variables c' | None \<Rightarrow> vs) in
          Inr (DefinedTypeDef name fs' vs' ts ext k im hc g p cm at,
            st'\<lparr>insideClass := insideClass st\<rparr>))
    | _ \<Rightarrow> Inr (c, st))"

primrec insert_names :: "string list \<Rightarrow> dav \<Rightarrow> dav" where
  "insert_names [] st = st"
| "insert_names (x # xs) st = insert_names xs (map_front (scope_insert x Initialized) st)"

definition visit_Macro :: "visitor \<Rightarrow> string \<Rightarrow> (string \<times> ArguementType \<times> node option) list \<Rightarrow> node
    \<Rightarrow> bool \<Rightarrow> AttributeHolder \<Rightarrow> Comment option \<Rightarrow> node action" where
  "visit_Macro accept name args body isStatement att com = withScope (\<lambda>st.
     bindR (accept body (insert_names (map fst args) st)) (\<lambda>(body', st').
     Inr (Macro name args body' isStatement att com, st')))"

section \<open>Dispatch\<close>

text \<open>
  One call of \<^verbatim>\<open>accept\<close>. The visit of a generic identifier casts it to its base class and calls the
  virtual \<^verbatim>\<open>accept\<close> again, which dispatches to the same visit.
\<close>

definition visit :: "visitor \<Rightarrow> visitor" where
  "visit accept n st = (case n of
      Block a ss \<Rightarrow> visit_Block accept n st
    | Cast v ty \<Rightarrow> bindR (accept v st) (\<lambda>(v', st'). Inr (Cast v' ty, st'))
    | FunctionCall c as \<Rightarrow> visit_FunctionCall accept c as st
    | NewInstance c ty \<Rightarrow> visit_NewInstance accept c ty st
    | Identifier x \<Rightarrow> visit_Identifier n x st
    | GenericIdentifier x gs \<Rightarrow> accept n st
    | Index b i s \<Rightarrow> visit_Index accept b i s st
    | BinaryOp op l r m i \<Rightarrow> visit_BinaryOp accept op l r m i st
    | LambdaFunction f \<Rightarrow> visit_LambdaFunction accept f st
    | BodiedFunction b d \<Rightarrow> visit_BodiedFunction accept b d st
    | ConstructorDef b sa ia h d \<Rightarrow> visit_ConstructorDef accept b sa ia h d st
    | VariableDecl x v m t c e p cm at \<Rightarrow>
        visit_VariableDecl accept (\<lambda>v'. VariableDecl x v' m t c e p cm at) x v e st
    | DefinedTypeDef _ _ _ _ _ _ _ _ _ _ _ _ \<Rightarrow> visit_DefinedTypeDef accept n st
    | Switch e cs b \<Rightarrow> visit_Switch accept e cs b st
    | Raise e \<Rightarrow> bindR (accept e st) (\<lambda>(e', st'). Inr (Raise e', st'))
    | Conditional c b e \<Rightarrow> visit_Conditional accept c b e st
    | TryCatch b cs \<Rightarrow> visit_TryCatch accept b cs st
    | ForLoop x e b \<Rightarrow> visit_ForLoop accept x e b st
    | WhileLoop c b d f \<Rightarrow> visit_WhileLoop accept c b d f st
    | Namespace x b c a \<Rightarrow> bindR (visit_all accept b st) (\<lambda>(b', st'). Inr (Namespace x b' c a, st'))
    | Return v \<Rightarrow> bindR (visit_opt accept v st) (\<lambda>(v', st'). Inr (Return v', st'))
    | Macro x as b s at c \<Rightarrow> visit_Macro accept x as b s at c st
    | _ \<Rightarrow> Inr (n, st))"

primrec accept :: "nat \<Rightarrow> visitor" where
  "accept 0 n st = Inl (Undefined ''stack exhausted'')"
| "accept (Suc k) n st = visit (accept k) n st"

text \<open>\<^verbatim>\<open>Analyzer::run\<close>.\<close>

definition run_analysis :: "nat \<Rightarrow> node list \<Rightarrow> node list res" where
  "run_analysis k ns = bindR (visit_all (accept k) ns init_dav) (\<lambda>(ns', _). Inr ns')"

end
