(* ===== verification/DefiniteAssignment_Props.thy ===== *)
theory DefiniteAssignment_Props
  imports DefiniteAssignment
begin

text \<open>
  What the definite assignment analysis guarantees: the discipline of its scopes, its soundness on
  a fragment with a semantics of runs, the recursion depth it needs, and the reads of unassigned
  variables it lets through.
\<close>

section \<open>Invariants of the state\<close>

text \<open>
  The interface between the analysis and what is claimed of its state: a preorder kept by every
  primitive change of the state is kept by every visit.
\<close>

locale analysis_invariant =
  fixes R :: "dav \<Rightarrow> dav \<Rightarrow> bool"
  assumes refl: "R st st"
    and trans: "R a b \<Longrightarrow> R b c \<Longrightarrow> R a c"
    and insert: "R st (map_front (scope_insert x r) st)"
    and set: "R st (map_front (scope_set x Initialized) st)"
    and inited: "R st (st\<lparr>inited := inited st @ [x]\<rparr>)"
    and scope: "R (st\<lparr>scopes := [] # scopes st\<rparr>) st' \<Longrightarrow> R st (st'\<lparr>scopes := tl (scopes st')\<rparr>)"
    and state: "R (st\<lparr>inited := []\<rparr>) st' \<Longrightarrow> R st (st'\<lparr>inited := inited st\<rparr>)"
    and in_class: "R (st\<lparr>insideClass := Some cls\<rparr>) st' \<Longrightarrow> R st (st'\<lparr>insideClass := insideClass st\<rparr>)"
    and class_vars: "R st st' \<Longrightarrow> insideClass st \<noteq> None \<Longrightarrow> R st (st'\<lparr>insideClass := Some cls\<rparr>)"
begin

definition ok :: "'a action \<Rightarrow> bool" where
  "ok f \<longleftrightarrow> (\<forall>st x st'. f st = Inr (x, st') \<longrightarrow> R st st')"

lemma okI: "(\<And>st x st'. f st = Inr (x, st') \<Longrightarrow> R st st') \<Longrightarrow> ok f"
  by (auto simp: ok_def)

lemma ok_return: "(\<And>st. R st (h st)) \<Longrightarrow> ok (\<lambda>st. Inr (f st, h st))"
  by (auto simp: ok_def)

lemma ok_fail: "ok (\<lambda>st. Inl e)"
  by (simp add: ok_def)

lemma ok_bind: "ok f \<Longrightarrow> (\<And>x. ok (g x)) \<Longrightarrow> ok (\<lambda>st. bindR (f st) (\<lambda>(x, st'). g x st'))"
  unfolding ok_def by (force simp: res_simps intro: trans)

lemma ok_before: "ok f \<Longrightarrow> (\<And>st. R st (h st)) \<Longrightarrow> ok (\<lambda>st. f (h st))"
  unfolding ok_def by (blast intro: trans)

lemma ok_prod: "(\<And>a b. ok (g a b)) \<Longrightarrow> ok (case p of (a, b) \<Rightarrow> g a b)"
  by (cases p) simp

lemma ok_if: "ok f \<Longrightarrow> ok g \<Longrightarrow> ok (\<lambda>st. if b st then f st else g st)"
  by (simp add: ok_def)

lemma ok_option: "ok f \<Longrightarrow> (\<And>x. ok (g x)) \<Longrightarrow> ok (\<lambda>st. case v of None \<Rightarrow> f st | Some x \<Rightarrow> g x st)"
  by (cases v) simp_all

lemma ok_withScope: "ok f \<Longrightarrow> ok (withScope f)"
  by (rule okI) (auto simp: ok_def withScope_def res_simps intro: scope)

lemma ok_withState: "ok f \<Longrightarrow> ok (withState f)"
  by (rule okI) (auto simp: ok_def withState_def res_simps intro: state)

lemma R_mark: "R st (mark_initialized x st)"
proof -
  let ?st = "map_front (scope_set x Initialized) st"
  have "inited ?st = inited st" by (simp add: map_front_def)
  then show ?thesis
    using trans [OF set [of st x] inited [of ?st x]] by (simp add: mark_initialized_def)
qed

lemma R_propagate: "R st (propagate x st)"
  by (simp add: propagate_def R_mark refl)

lemma R_propagate_all: "R st (propagate_all xs st)"
  by (induction xs arbitrary: st) (auto intro: refl trans R_propagate)

lemma R_params: "R st (insert_params ps st)"
  by (induction ps arbitrary: st) (auto intro: refl trans insert)

lemma R_names: "R st (insert_names xs st)"
  by (induction xs arbitrary: st) (auto intro: refl trans insert)

lemmas ok_intros = ok_return ok_fail ok_bind ok_prod ok_if ok_withScope ok_withState refl R_mark
  R_propagate_all R_params R_names insert set

lemma ok_visit_all:
  assumes rec: "\<And>n. ok (rec n)"
  shows "ok (visit_all rec ns)"
  by (induction ns; unfold visit_all.simps [abs_def]; intro ok_intros rec)

lemma ok_visit_opt:
  assumes rec: "\<And>n. ok (rec n)"
  shows "ok (visit_opt rec v)"
  unfolding visit_opt_def [abs_def] by (intro ok_intros ok_option rec)

lemma ok_visit_block:
  assumes rec: "\<And>n. ok (rec n)"
  shows "ok (visit_block rec b)"
  unfolding visit_block_def [abs_def] asBlock_def [abs_def] by (intro ok_intros ok_visit_all rec)

lemma ok_Identifier: "ok (visit_Identifier n x)"
  by (rule okI) (auto simp: visit_Identifier_def refl split: option.splits ReferenceStatus.splits)

lemma ok_Index: "(\<And>n. ok (rec n)) \<Longrightarrow> ok (visit_Index rec b i s)"
  by (rule okI) (auto simp: visit_Index_def ok_def refl res_simps Let_def
      split: if_splits option.splits ReferenceStatus.splits)

lemma R_assign_member: "R st (snd (assign_member l st b))"
  by (simp add: assign_member_def refl R_mark Let_def split: node.splits)

lemma ok_operands:
  assumes rec: "\<And>n. ok (rec n)"
  shows "ok (visit_operands rec op l r m i)"
  unfolding visit_operands_def [abs_def]
  by (cases "isUnary op"; simp only: if_True if_False; intro ok_intros ok_option rec)

lemma ok_BinaryOp: "(\<And>n. ok (rec n)) \<Longrightarrow> ok (visit_BinaryOp rec op l r m i)"
proof (rule okI)
  fix st x st'
  assume rec: "\<And>n. ok (rec n)" and v: "visit_BinaryOp rec op l r m i st = Inr (x, st')"
  have operands: "R s s'" if "visit_operands rec op l r m j s = Inr (y, s')" for s s' y j
    using ok_operands [where rec = rec, OF rec] that by (auto simp: ok_def)
  show "R st st'"
  proof (cases "op = OT_EQ \<and> as_identifier l = None")
    case True
    then have "visit_operands rec op l r m (fst (assign_member l st i)) (snd (assign_member l st i))
        = Inr (x, st')"
      using v by (simp add: visit_BinaryOp_def case_prod_unfold Let_def)
    then show ?thesis using operands R_assign_member trans by blast
  next
    case False
    then show ?thesis using v operands
      by (auto simp: visit_BinaryOp_def refl R_mark
          split: if_splits option.splits ReferenceStatus.splits)
  qed
qed

lemma ok_params:
  assumes rec: "\<And>n. ok (rec n)"
  shows "ok (\<lambda>st. rec b (insert_params ps st))"
  by (rule ok_before [where f = "rec b", OF rec R_params])

lemma ok_LambdaFunction:
  assumes rec: "\<And>n. ok (rec n)"
  shows "ok (visit_LambdaFunction rec f)"
  by (cases f; simp only: visit_LambdaFunction_def [abs_def] node.case;
      intro ok_intros ok_params rec)

lemma ok_FunctionCall:
  assumes rec: "\<And>n. ok (rec n)"
  shows "ok (visit_FunctionCall rec c as)"
  unfolding visit_FunctionCall_def [abs_def] by (intro ok_intros ok_visit_all rec)

lemma ok_NewInstance:
  assumes rec: "\<And>n. ok (rec n)"
  shows "ok (visit_NewInstance rec c ty)"
  by (cases c; simp only: visit_NewInstance_def [abs_def] node.case;
      intro ok_intros ok_visit_all rec)

lemma ok_Block:
  assumes rec: "\<And>n. ok (rec n)"
  shows "ok (visit_Block rec b)"
  unfolding visit_Block_def [abs_def] by (intro ok_intros ok_visit_block rec)

lemma ok_VariableDecl:
  assumes rec: "\<And>n. ok (rec n)"
  shows "ok (visit_VariableDecl rec mk x v e)"
  unfolding visit_VariableDecl_def [abs_def] Let_def by (intro ok_intros ok_visit_opt rec)

lemma ok_Conditional:
  assumes rec: "\<And>n. ok (rec n)"
  shows "ok (visit_Conditional rec c i e)"
  unfolding visit_Conditional_def [abs_def] by (intro ok_intros ok_option ok_visit_block rec)

lemma ok_loops:
  assumes rec: "\<And>n. ok (rec n)"
  shows "ok (visit_WhileLoop rec c i d f)" "ok (visit_ForLoop rec x e b)"
  unfolding visit_WhileLoop_def [abs_def] visit_ForLoop_def [abs_def]
  by (intro ok_intros ok_visit_block rec)+

lemma ok_cases:
  assumes rec: "\<And>n. ok (rec n)"
  shows "ok (visit_cases rec cs)"
  by (induction cs; unfold visit_cases.simps [abs_def]; intro ok_intros ok_visit_block rec)

lemma ok_catches:
  assumes rec: "\<And>n. ok (rec n)"
  shows "ok (visit_catches rec cs)"
  by (induction cs; unfold visit_catches.simps [abs_def]; intro ok_intros ok_visit_block rec)

lemma ok_branches:
  assumes rec: "\<And>n. ok (rec n)"
  shows "ok (visit_Switch rec e cs b)" "ok (visit_TryCatch rec t ks)"
  unfolding visit_Switch_def [abs_def] visit_TryCatch_def [abs_def]
  by (intro ok_intros ok_visit_block ok_cases ok_catches rec)+

lemma ok_members:
  assumes rec: "\<And>n. ok (rec n)"
  shows "ok (visit_members rec vs)"
proof (induction vs)
  case Nil
  show ?case unfolding visit_members.simps [abs_def] by (intro ok_intros)
next
  case (Cons v vs)
  have opt: "ok (\<lambda>st. visit_opt rec w (map_front (scope_insert x r) st))" for w x r
    by (rule ok_before [where f = "visit_opt rec w", OF ok_visit_opt [OF rec] insert])
  show ?case
    by (cases v; simp only: visit_members.simps [abs_def] Let_def node.case;
        intro ok_intros opt Cons.IH)
qed

lemma ok_enter_class: "(\<And>n. ok (rec n)) \<Longrightarrow> ok (enter_class rec c)"
proof (rule okI)
  fix st x st'
  assume rec: "\<And>n. ok (rec n)" and e: "enter_class rec c st = Inr (x, st')"
  show "R st st'"
  proof (cases "insideClass st")
    case None
    then show ?thesis using e by (simp add: enter_class_def refl)
  next
    case (Some cl)
    let ?st1 = "map_front (scope_insert ''self'' Initialized) st"
    show ?thesis
    proof (cases c)
      case False
      then have "st' = ?st1" using e Some by (simp add: enter_class_def)
      then show ?thesis by (simp add: insert)
    next
      case True
      then obtain vs st2 where v: "visit_members rec (class_variables cl) ?st1 = Inr (vs, st2)"
        and st': "st' = st2\<lparr>insideClass := Some (with_class_variables cl vs)\<rparr>"
        using e Some by (auto simp: enter_class_def Let_def res_simps)
      have "R ?st1 st2" using ok_members [where rec = rec, OF rec] v by (auto simp: ok_def)
      then have "R st st2" by (rule trans [OF insert])
      then show ?thesis
        using class_vars [of st st2] Some st' by simp
    qed
  qed
qed

lemma ok_inits:
  assumes rec: "\<And>n. ok (rec n)"
  shows "ok (visit_inits rec is)"
proof (induction "is")
  case Nil
  show ?case unfolding visit_inits.simps [abs_def] by (intro ok_intros)
next
  case (Cons i "is")
  have "ok (\<lambda>st. visit_inits rec is (map_front (scope_set x Initialized) st))" for x
    by (rule ok_before [where f = "visit_inits rec is", OF Cons.IH set])
  then show ?case
    unfolding visit_inits.simps [abs_def] Let_def by (intro ok_intros rec)
qed

lemma ok_Constructor:
  assumes rec: "\<And>n. ok (rec n)"
  shows "ok (visitConstructor rec as is)"
  unfolding visitConstructor_def [abs_def] by (intro ok_intros ok_visit_all ok_inits rec)

lemma ok_check_members: "ok check_members"
  by (rule okI) (auto simp: check_members_def refl split: list.splits)

lemma ok_params_enter:
  assumes rec: "\<And>n. ok (rec n)"
  shows "ok (\<lambda>st. enter_class rec c (insert_params ps st))"
  by (rule ok_before [where f = "enter_class rec c", OF ok_enter_class [OF rec] R_params])

lemma ok_functions:
  assumes rec: "\<And>n. ok (rec n)"
  shows "ok (visit_BodiedFunction rec b d)" "ok (visit_ConstructorDef rec b as is h d)"
  unfolding visit_BodiedFunction_def [abs_def] visit_ConstructorDef_def [abs_def]
  by (intro ok_intros rec ok_Constructor ok_check_members ok_params_enter)+

lemma ok_DefinedTypeDef: "(\<And>n. ok (rec n)) \<Longrightarrow> ok (visit_DefinedTypeDef rec c)"
proof (rule okI)
  fix st x st'
  assume rec: "\<And>n. ok (rec n)" and v: "visit_DefinedTypeDef rec c st = Inr (x, st')"
  have all: "R s s'" if "visit_all rec ns s = Inr (y, s')" for ns s y s'
    using ok_visit_all [where rec = rec, OF rec] that by (auto simp: ok_def)
  show "R st st'"
    using v by (auto simp: visit_DefinedTypeDef_def res_simps Let_def refl split: node.splits
        dest!: all intro: in_class)
qed

lemma ok_Macro:
  assumes rec: "\<And>n. ok (rec n)"
  shows "ok (visit_Macro rec x as b s at c)"
  unfolding visit_Macro_def [abs_def]
  by (intro ok_intros ok_before [where f = "rec b", OF rec R_names])

lemmas ok_visits = ok_Block ok_FunctionCall ok_NewInstance ok_Identifier ok_Index ok_BinaryOp ok_LambdaFunction
  ok_functions ok_VariableDecl ok_DefinedTypeDef ok_branches ok_Conditional ok_loops ok_Macro

lemma ok_visit:
  assumes rec: "\<And>n. ok (rec n)"
  shows "ok (visit rec n)"
  by (cases n; simp only: visit_def [abs_def] node.case;
      intro ok_visits ok_intros ok_visit_all ok_visit_opt rec)

lemma ok_accept: "ok (accept k n)"
proof (induction k arbitrary: n)
  case 0
  show ?case unfolding accept.simps [abs_def] by (rule ok_fail)
next
  case (Suc k)
  then show ?case unfolding accept.simps [abs_def] by (intro ok_visit)
qed

theorem accept_R: "accept k n st = Inr (n', st') \<Longrightarrow> R st st'"
  using ok_accept by (auto simp: ok_def)

lemma visit_all_R: "visit_all (accept k) ns st = Inr (ns', st') \<Longrightarrow> R st st'"
  using ok_visit_all [where rec = "accept k", OF ok_accept] unfolding ok_def by blast

lemma visit_block_R: "visit_block (accept k) b st = Inr (r, st') \<Longrightarrow> R st st'"
  using ok_visit_block [where rec = "accept k", OF ok_accept] unfolding ok_def by blast

end

section \<open>Scopes\<close>

definition scope_le :: "Scope \<Rightarrow> Scope \<Rightarrow> bool" where
  "scope_le s s' \<longleftrightarrow> (\<forall>x. (map_of s x \<noteq> None \<longrightarrow> map_of s' x \<noteq> None)
     \<and> (map_of s x = Some Initialized \<longrightarrow> map_of s' x = Some Initialized))"

definition dav_frame :: "dav \<Rightarrow> dav \<Rightarrow> bool" where
  "dav_frame st st' \<longleftrightarrow>
     (case scopes st of [] \<Rightarrow> scopes st' = []
      | s # ss \<Rightarrow> (\<exists>s'. scopes st' = s' # ss \<and> scope_le s s'))
     \<and> (\<exists>xs. inited st' = inited st @ xs)
     \<and> (insideClass st' = None) = (insideClass st = None)"

lemma scope_le_refl: "scope_le s s"
  by (simp add: scope_le_def)

lemma scope_le_trans: "scope_le a b \<Longrightarrow> scope_le b c \<Longrightarrow> scope_le a c"
  by (simp add: scope_le_def)

lemma map_of_scope_insert:
  "map_of (scope_insert x r s) y = (if y = x \<and> map_of s x = None then Some r else map_of s y)"
  by (auto simp: scope_insert_def map_add_def split: option.splits)

lemma map_of_scope_set: "map_of (scope_set x r s) = (map_of s)(x \<mapsto> r)"
  by (simp add: scope_set_def update_conv')

interpretation dav_frame: analysis_invariant dav_frame
proof
  fix a b c :: dav
  assume "dav_frame a b" "dav_frame b c"
  then show "dav_frame a c"
    by (auto simp: dav_frame_def split: list.splits intro: scope_le_trans)
qed (auto simp: dav_frame_def map_front_def map_of_scope_insert map_of_scope_set scope_le_def
    split: list.splits)


lemma visit_block_scopes:
  assumes "visit_block (accept k) b st = Inr (r, st')"
  shows "scopes st' = scopes st \<and> inited st' = inited st"
proof -
  obtain x st1 where v: "visit_all (accept k) (block_stmts b)
      (st\<lparr>scopes := [] # scopes st, inited := []\<rparr>) = Inr (x, st1)"
    and st': "st' = st1\<lparr>inited := inited st, scopes := tl (scopes st1)\<rparr>"
    using assms by (auto simp: visit_block_def asBlock_def withScope_def withState_def res_simps)
  show ?thesis
    using dav_frame.visit_all_R [OF v] st' by (auto simp: dav_frame_def)
qed

section \<open>Runs\<close>

text \<open>
  Runs of a fragment: constants, reads, calls, operators, assignments of a constant to a
  declared variable, declarations, blocks, conditionals, loops, \<^verbatim>\<open>return\<close> and \<^verbatim>\<open>throw\<close>. The
  environment is a stack of scopes that says of each declared variable whether it has a value.
  A declaration takes a name that is not visible yet (no shadowing). Branches are
  nondeterministic. \<open>Bad\<close> is the read of a variable without a value.
\<close>

type_synonym renv = "(string \<times> bool) list list"

datatype outcome = Norm renv | Stop | Bad

primrec rlookup :: "renv \<Rightarrow> string \<Rightarrow> bool option" where
  "rlookup [] x = None"
| "rlookup (s # ss) x = (case map_of s x of Some b \<Rightarrow> Some b | None \<Rightarrow> rlookup ss x)"

primrec rassign :: "string \<Rightarrow> renv \<Rightarrow> renv" where
  "rassign x [] = []"
| "rassign x (s # ss) = (if map_of s x \<noteq> None then AList.update x True s # ss else s # rassign x ss)"

definition rdeclare :: "string \<Rightarrow> bool \<Rightarrow> renv \<Rightarrow> renv" where
  "rdeclare x b E = (case E of [] \<Rightarrow> [] | s # ss \<Rightarrow> ((x, b) # s) # ss)"

definition leave :: "outcome \<Rightarrow> outcome" where
  "leave out = (case out of Norm E \<Rightarrow> Norm (tl E) | _ \<Rightarrow> out)"

inductive expression :: "node \<Rightarrow> bool" where
  "expression (ConstantValue t v p)"
| "expression (Identifier x)"
| "expression v \<Longrightarrow> expression (Cast v ty)"
| "\<forall>a\<in>set as. expression a \<Longrightarrow> expression (FunctionCall c as)"
| "expression l \<Longrightarrow> (\<And>r'. r = Some r' \<Longrightarrow> expression r') \<Longrightarrow> expression (BinaryOp op l r m i)"

inductive exec :: "node \<Rightarrow> renv \<Rightarrow> outcome \<Rightarrow> bool"
  and execs :: "node list \<Rightarrow> renv \<Rightarrow> outcome \<Rightarrow> bool" where
  Const: "exec (ConstantValue t v p) E (Norm E)"
| Read: "rlookup E x \<noteq> Some False \<Longrightarrow> exec (Identifier x) E (Norm E)"
| ReadBad: "rlookup E x = Some False \<Longrightarrow> exec (Identifier x) E Bad"
| Cast: "exec v E out \<Longrightarrow> exec (Cast v ty) E out"
| Call: "execs as E out \<Longrightarrow> exec (FunctionCall c as) E out"
| Unary: "isUnary op \<Longrightarrow> exec l E out \<Longrightarrow> exec (BinaryOp op l r m i) E out"
| Binary: "\<not> isUnary op \<Longrightarrow> op \<noteq> OT_EQ \<Longrightarrow> execs [l, r] E out
    \<Longrightarrow> exec (BinaryOp op l (Some r) m i) E out"
| Assign: "rlookup E x \<noteq> None
    \<Longrightarrow> exec (BinaryOp OT_EQ (Identifier x) (Some (ConstantValue t v p)) m i) E (Norm (rassign x E))"
| Declare: "rlookup E x = None
    \<Longrightarrow> exec (VariableDecl x None m t c False pr cm at) E (Norm (rdeclare x False E))"
| DeclareInit: "expression e \<Longrightarrow> exec e E (Norm E') \<Longrightarrow> rlookup E' x = None
    \<Longrightarrow> exec (VariableDecl x (Some e) m t c False pr cm at) E (Norm (rdeclare x True E'))"
| DeclareStop: "exec e E out \<Longrightarrow> out = Stop \<or> out = Bad
    \<Longrightarrow> exec (VariableDecl x (Some e) m t c False pr cm at) E out"
| Block: "execs ss ([] # E) out \<Longrightarrow> exec (Block a ss) E (leave out)"
| Then: "exec c E (Norm E') \<Longrightarrow> execs ss ([] # E') out
    \<Longrightarrow> exec (Conditional c (Block a ss) e) E (leave out)"
| Else: "exec c E (Norm E') \<Longrightarrow> execs ss ([] # E') out
    \<Longrightarrow> exec (Conditional c b (Some (Block a ss))) E (leave out)"
| NoElse: "exec c E (Norm E') \<Longrightarrow> exec (Conditional c b None) E (Norm E')"
| CondStop: "exec c E out \<Longrightarrow> out = Stop \<or> out = Bad \<Longrightarrow> exec (Conditional c b e) E out"
| WhileDone: "exec c E (Norm E') \<Longrightarrow> exec (WhileLoop c b False None) E (Norm E')"
| WhileStep: "expression c \<Longrightarrow> exec c E (Norm E') \<Longrightarrow> execs ss ([] # E') (Norm E'')
    \<Longrightarrow> exec (WhileLoop c (Block a ss) False None) (tl E'') out
    \<Longrightarrow> exec (WhileLoop c (Block a ss) False None) E out"
| WhileBody: "exec c E (Norm E') \<Longrightarrow> execs ss ([] # E') out \<Longrightarrow> out = Stop \<or> out = Bad
    \<Longrightarrow> exec (WhileLoop c (Block a ss) False None) E out"
| WhileStop: "exec c E out \<Longrightarrow> out = Stop \<or> out = Bad
    \<Longrightarrow> exec (WhileLoop c b False None) E out"
| ReturnVoid: "exec (Return None) E Stop"
| Return: "exec v E out \<Longrightarrow> out' = (if out = Bad then Bad else Stop) \<Longrightarrow> exec (Return (Some v)) E out'"
| Raise: "exec v E out \<Longrightarrow> out' = (if out = Bad then Bad else Stop) \<Longrightarrow> exec (Raise v) E out'"
| Done: "execs [] E (Norm E)"
| Next: "exec n E (Norm E') \<Longrightarrow> execs ns E' out \<Longrightarrow> execs (n # ns) E out"
| NextStop: "exec n E out \<Longrightarrow> out = Stop \<or> out = Bad \<Longrightarrow> execs (n # ns) E out"

text \<open>How an environment grows: the outer scopes keep their names, values are never lost.\<close>

definition level_le :: "(string \<times> bool) list \<Rightarrow> (string \<times> bool) list \<Rightarrow> bool" where
  "level_le s t \<longleftrightarrow> (\<forall>x. (map_of s x \<noteq> None \<longrightarrow> map_of t x \<noteq> None)
     \<and> (map_of s x = Some True \<longrightarrow> map_of t x = Some True))"

definition level_eq :: "(string \<times> bool) list \<Rightarrow> (string \<times> bool) list \<Rightarrow> bool" where
  "level_eq s t \<longleftrightarrow> (\<forall>x. (map_of s x = None) = (map_of t x = None)
     \<and> (map_of s x = Some True \<longrightarrow> map_of t x = Some True))"

definition grows :: "renv \<Rightarrow> renv \<Rightarrow> bool" where
  "grows E F \<longleftrightarrow> (case E of [] \<Rightarrow> F = []
     | e # es \<Rightarrow> (\<exists>f fs. F = f # fs \<and> level_le e f \<and> list_all2 level_eq es fs))"

primrec disjoint_levels :: "renv \<Rightarrow> bool" where
  "disjoint_levels [] = True"
| "disjoint_levels (s # ss) =
     ((\<forall>x. map_of s x \<noteq> None \<longrightarrow> rlookup ss x = None) \<and> disjoint_levels ss)"

lemma level_refl: "level_le s s" "level_eq s s" "list_all2 level_eq E E"
  by (simp_all add: level_le_def level_eq_def list.rel_refl)

lemma level_eq_le: "level_eq s t \<Longrightarrow> level_le s t"
  by (auto simp: level_le_def level_eq_def)

lemma level_trans:
  "level_le a b \<Longrightarrow> level_le b c \<Longrightarrow> level_le a c"
  "level_eq a b \<Longrightarrow> level_eq b c \<Longrightarrow> level_eq a c"
  by (auto simp: level_le_def level_eq_def)

lemma levels_trans:
  "list_all2 level_eq a b \<Longrightarrow> list_all2 level_eq b c \<Longrightarrow> list_all2 level_eq a c"
  using level_trans(2) by (rule list_all2_trans)

lemma grows_refl: "grows E E"
  by (cases E) (auto simp: grows_def level_refl)

lemma grows_trans: "grows a b \<Longrightarrow> grows b c \<Longrightarrow> grows a c"
  by (cases a) (auto simp: grows_def, (blast intro: level_trans(1) levels_trans)+)

lemma levels_grow: "list_all2 level_eq E F \<Longrightarrow> grows E F"
  by (cases E) (auto simp: grows_def list_all2_Cons1 level_eq_le)

lemma levels_lookup:
  "list_all2 level_eq E F \<Longrightarrow> (rlookup E x = None) = (rlookup F x = None)
     \<and> (rlookup E x = Some True \<longrightarrow> rlookup F x = Some True)"
proof (induction rule: list_all2_induct)
  case (Cons e es f fs)
  have "(map_of e x = None) = (map_of f x = None)"
    "map_of e x = Some True \<longrightarrow> map_of f x = Some True"
    using Cons by (auto simp: level_eq_def)
  then show ?case using Cons.IH by (auto split: option.splits)
qed simp

lemma grows_lookup:
  assumes "grows E F" "disjoint_levels F"
  shows "rlookup E x = Some True \<Longrightarrow> rlookup F x = Some True"
proof (cases E)
  case (Cons e es)
  assume "rlookup E x = Some True"
  then obtain f fs where F: "F = f # fs" and le: "level_le e f" and eq: "list_all2 level_eq es fs"
    using assms Cons by (auto simp: grows_def)
  show ?thesis
  proof (cases "map_of e x")
    case None
    then have "rlookup fs x = Some True"
      using \<open>rlookup E x = Some True\<close> levels_lookup [OF eq, of x] Cons by simp
    then show ?thesis using assms(2) F by (auto split: option.splits)
  next
    case (Some b)
    then show ?thesis using \<open>rlookup E x = Some True\<close> le Cons F by (simp add: level_le_def)
  qed
qed simp

lemma disjoint_levels_eq: "list_all2 level_eq E F \<Longrightarrow> disjoint_levels E \<Longrightarrow> disjoint_levels F"
proof (induction rule: list_all2_induct)
  case (Cons e es f fs)
  then show ?case using levels_lookup [OF Cons(2)] by (auto simp: level_eq_def)
qed simp

lemma rassign_levels: "list_all2 level_eq E (rassign x E)"
  by (induction E) (auto simp: level_refl, auto simp: level_eq_def update_conv')

lemma rlookup_rassign: "rlookup E x \<noteq> None \<Longrightarrow> rlookup (rassign x E) x = Some True"
  by (induction E) (auto simp: update_conv' split: option.splits if_splits)

lemma rlookup_rassign_other: "y \<noteq> x \<Longrightarrow> rlookup (rassign x E) y = rlookup E y"
  by (induction E) (auto simp: update_conv' split: option.splits)

lemma rassign_keys: "map (map fst) (rassign x E) = map (map fst) E"
proof (induction E)
  case (Cons s ss)
  have "map fst (AList.update x True s) = map fst s" if "map_of s x \<noteq> None"
    using that by (induction s) auto
  then show ?case using Cons by simp
qed simp

text \<open>Expressions declare nothing.\<close>

inductive_cases expression_cases:
  "expression (Cast v ty)" "expression (FunctionCall c as)" "expression (BinaryOp op l r m i)"
  "expression (VariableDecl x v m t c e p cm at)" "expression (Block a ss)"
  "expression (Conditional c b e)" "expression (WhileLoop c b d f)" "expression (Return v)"
  "expression (Raise v)"

lemma exec_expression_keys:
  "exec n E out \<Longrightarrow> expression n \<Longrightarrow> (\<And>F. out = Norm F \<Longrightarrow> map (map fst) F = map (map fst) E)"
  "execs ns E out \<Longrightarrow> \<forall>n\<in>set ns. expression n
     \<Longrightarrow> (\<And>F. out = Norm F \<Longrightarrow> map (map fst) F = map (map fst) E)"
  by (induction rule: exec_execs.inducts) (auto elim!: expression_cases simp: rassign_keys)

lemma same_keys_levels:
  assumes "grows E F" "map (map fst) F = map (map fst) E"
  shows "list_all2 level_eq E F"
proof (cases E)
  case (Cons e es)
  then obtain f fs where F: "F = f # fs" and le: "level_le e f" and eq: "list_all2 level_eq es fs"
    and keys: "map fst f = map fst e"
    using assms by (auto simp: grows_def)
  have "map_of f x = None \<longleftrightarrow> map_of e x = None" for x
    using arg_cong [OF keys, of set] by (auto simp: map_of_eq_None_iff)
  then show ?thesis using F le eq Cons by (auto simp: level_eq_def level_le_def)
qed (use assms in \<open>simp add: grows_def\<close>)


section \<open>Soundness\<close>

definition covers :: "dav \<Rightarrow> renv \<Rightarrow> bool" where
  "covers st E \<longleftrightarrow> scopes st \<noteq> [] \<and> E \<noteq> [] \<and> disjoint_levels E
     \<and> (\<forall>x. getIdentifier st x = Some Initialized \<longrightarrow> rlookup E x = Some True)
     \<and> (\<forall>x. (getIdentifier st x = None) = (rlookup E x = None))
     \<and> (\<forall>x\<in>set (inited st). rlookup E x = Some True)"

lemma getIdentifier_set:
  "scopes st \<noteq> [] \<Longrightarrow> getIdentifier (map_front (scope_set x r) st) y
     = (if y = x then Some r else getIdentifier st y)"
  by (cases "scopes st") (auto simp: getIdentifier_def map_front_def map_of_scope_set)

lemma getIdentifier_insert:
  "scopes st \<noteq> [] \<Longrightarrow> getIdentifier st x = None
     \<Longrightarrow> getIdentifier (map_front (scope_insert x r) st) y
     = (if y = x then Some r else getIdentifier st y)"
  by (cases "scopes st")
    (auto simp: getIdentifier_def map_front_def map_of_scope_insert split: option.splits)

lemma getIdentifier_inited [simp]: "getIdentifier (st\<lparr>inited := i\<rparr>) x = getIdentifier st x"
  by (simp add: getIdentifier_def)

lemma map_front_simps [simp]:
  "inited (map_front f st) = inited st" "(scopes (map_front f st) = []) = (scopes st = [])"
  by (auto simp: map_front_def split: list.splits)

lemma covers_levels: "covers st E \<Longrightarrow> list_all2 level_eq E F \<Longrightarrow> covers st F"
  using levels_lookup [of E F] disjoint_levels_eq [of E F] by (auto simp: covers_def)

lemma covers_same: "covers st E \<Longrightarrow> scopes st' = scopes st \<Longrightarrow> inited st' = inited st \<Longrightarrow> covers st' E"
  by (simp add: covers_def getIdentifier_def)

lemma covers_mark: "covers st E \<Longrightarrow> rlookup E x = Some True \<Longrightarrow> covers (mark_initialized x st) E"
  by (auto simp: covers_def mark_initialized_def getIdentifier_set)

lemma covers_propagate_all:
  "covers st E \<Longrightarrow> (\<And>x. x \<in> set xs \<Longrightarrow> rlookup E x \<noteq> None \<Longrightarrow> rlookup E x = Some True)
     \<Longrightarrow> covers (propagate_all xs st) E"
proof (induction xs arbitrary: st)
  case (Cons x xs)
  have "covers (propagate x st) E"
  proof (cases "getIdentifier st x = Some NotInitialized")
    case True
    then have "rlookup E x \<noteq> None" using Cons.prems(1) by (metis covers_def option.discI)
    then show ?thesis using Cons.prems True by (simp add: propagate_def covers_mark)
  qed (simp add: propagate_def Cons.prems)
  then show ?case using Cons by simp
qed simp

lemma covers_assign:
  assumes "covers st E" "rlookup E x \<noteq> None"
  shows "covers (mark_initialized x st) (rassign x E)" "covers st (rassign x E)"
    "grows E (rassign x E)"
  using assms covers_levels [OF assms(1) rassign_levels] rlookup_rassign
  by (auto intro: covers_mark levels_grow rassign_levels)

lemma covers_declare:
  assumes "covers st E" "rlookup E x = None"
  shows "covers (map_front (scope_insert x (if b then Initialized else NotInitialized)) st)
      (rdeclare x b E) \<and> grows E (rdeclare x b E)"
proof -
  obtain e es where E: "E = e # es" using assms(1) by (cases E) (auto simp: covers_def)
  have look: "rlookup (rdeclare x b E) y = (if y = x then Some b else rlookup E y)" for y
    by (simp add: E rdeclare_def)
  have "disjoint_levels (rdeclare x b E)"
    using assms by (auto simp: E rdeclare_def covers_def split: option.splits)
  moreover have "getIdentifier st x = None" "scopes st \<noteq> []" using assms by (auto simp: covers_def)
  moreover have "rdeclare x b E \<noteq> []" by (simp add: E rdeclare_def)
  moreover have "level_le e ((x, b) # e)"
    using assms(2) E by (auto simp: level_le_def split: option.splits)
  then have "grows E (rdeclare x b E)"
    by (simp add: grows_def E rdeclare_def level_refl)
  ultimately show ?thesis
    using assms by (auto simp: covers_def look getIdentifier_insert)
qed

definition good :: "renv \<Rightarrow> outcome \<Rightarrow> dav \<Rightarrow> bool" where
  "good E out st = (case out of Norm F \<Rightarrow> covers st F \<and> grows E F | Stop \<Rightarrow> True | Bad \<Rightarrow> False)"

text \<open>A block: its run from an environment the analysis covers.\<close>

lemma block_good:
  assumes v: "visit_block (accept k) (Block a ss) st = Inr ((b, ids), st')" and c: "covers st E"
    and IH: "\<And>s ns' s'. visit_all (accept k) ss s = Inr (ns', s') \<Longrightarrow> covers s ([] # E)
      \<Longrightarrow> good ([] # E) out s'"
  shows "out \<noteq> Bad \<and> (\<forall>F. out = Norm F \<longrightarrow> covers st' (tl F) \<and> list_all2 level_eq E (tl F)
     \<and> (\<forall>x\<in>set ids. rlookup (tl F) x \<noteq> None \<longrightarrow> rlookup (tl F) x = Some True))"
proof -
  let ?s = "st\<lparr>scopes := [] # scopes st, inited := []\<rparr>"
  obtain ns' s' where all: "visit_all (accept k) ss ?s = Inr (ns', s')" and ids: "ids = inited s'"
    using v by (auto simp: visit_block_def asBlock_def withScope_def withState_def res_simps
        block_stmts_def)
  have "covers ?s ([] # E)"
    using c by (simp add: covers_def getIdentifier_def)
  then have g: "good ([] # E) out s'" by (rule IH [OF all])
  have st': "scopes st' = scopes st" "inited st' = inited st"
    using visit_block_scopes [OF v] by simp_all
  show ?thesis
  proof (cases out)
    case (Norm F)
    then have cF: "covers s' F" and eq: "list_all2 level_eq E (tl F)"
      using g by (auto simp: good_def grows_def)
    have cov: "covers st' (tl F)"
      using covers_same [OF covers_levels [OF c eq]] st' by blast
    have "rlookup (tl F) x = Some True" if "x \<in> set ids" "rlookup (tl F) x \<noteq> None" for x
    proof -
      have "rlookup F x = Some True" using cF ids that(1) by (simp add: covers_def)
      then show ?thesis using cF that(2)
        by (cases F) (auto simp: covers_def split: option.splits)
    qed
    then show ?thesis using Norm cov eq by simp
  qed (use g in \<open>auto simp: good_def\<close>)
qed

lemma good_block:
  assumes v: "visit_block (accept k) (Block a ss) st = Inr ((b, ids), st')" and c: "covers st E"
    and IH: "\<And>s ns' s'. visit_all (accept k) ss s = Inr (ns', s') \<Longrightarrow> covers s ([] # E)
      \<Longrightarrow> good ([] # E) out s'"
    and sub: "scopes s = scopes st'" "inited s = inited st'" "set xs \<subseteq> set ids"
  shows "good E (leave out) (propagate_all xs s)"
proof -
  have b: "out \<noteq> Bad \<and> (\<forall>F. out = Norm F \<longrightarrow> covers st' (tl F) \<and> list_all2 level_eq E (tl F)
     \<and> (\<forall>x\<in>set ids. rlookup (tl F) x \<noteq> None \<longrightarrow> rlookup (tl F) x = Some True))"
    by (rule block_good [OF v c]) (rule IH)
  show ?thesis
  proof (cases out)
  case (Norm F)
  then have F: "covers s (tl F)" "list_all2 level_eq E (tl F)"
    "\<And>x. x \<in> set ids \<Longrightarrow> rlookup (tl F) x \<noteq> None \<Longrightarrow> rlookup (tl F) x = Some True"
    using b covers_same [of st' "tl F" s] sub by auto
  then have "covers (propagate_all xs s) (tl F)"
    using sub(3) by (intro covers_propagate_all) auto
  then show ?thesis using Norm levels_grow [OF F(2)] by (simp add: good_def leave_def)
qed (use b in \<open>auto simp: good_def leave_def\<close>)
qed

lemma good_trans: "grows E F \<Longrightarrow> good F out st \<Longrightarrow> good E out st"
  by (auto simp: good_def intro: grows_trans split: outcome.splits)

lemma accept_Suc: "accept k n st = Inr r \<Longrightarrow> \<exists>j. k = Suc j \<and> visit (accept j) n st = Inr r"
  by (cases k) auto


lemma visit_simps:
  "visit rec (ConstantValue ct cv cp) st = Inr (ConstantValue ct cv cp, st)"
  "visit rec (Identifier x) st = visit_Identifier (Identifier x) x st"
  "visit rec (Cast v ty) st = bindR (rec v st) (\<lambda>(v', st'). Inr (Cast v' ty, st'))"
  "visit rec (FunctionCall n ns) st = visit_FunctionCall rec n ns st"
  "visit rec (BinaryOp op l r m i) st = visit_BinaryOp rec op l r m i st"
  "visit rec (VariableDecl x w m t c ext pr cm at) st =
     visit_VariableDecl rec (\<lambda>v'. VariableDecl x v' m t c ext pr cm at) x w ext st"
  "visit rec (Block a ss) st = visit_Block rec (Block a ss) st"
  "visit rec (Conditional n b e) st = visit_Conditional rec n b e st"
  "visit rec (WhileLoop n b d f) st = visit_WhileLoop rec n b d f st"
  "visit rec (Return w) st = bindR (visit_opt rec w st) (\<lambda>(v', st'). Inr (Return v', st'))"
  "visit rec (Raise v) st = bindR (rec v st) (\<lambda>(e', st'). Inr (Raise e', st'))"
  by (simp_all add: visit_def)

lemma exec_good:
  "exec n E out \<Longrightarrow> (\<And>k st n' st'. accept k n st = Inr (n', st') \<Longrightarrow> covers st E \<Longrightarrow> good E out st')"
  "execs ns E out \<Longrightarrow>
     (\<And>k st ns' st'. visit_all (accept k) ns st = Inr (ns', st') \<Longrightarrow> covers st E \<Longrightarrow> good E out st')"
proof (induction rule: exec_execs.inducts)
  case (Const t v p E)
  then show ?case by (auto dest!: accept_Suc [of k] simp: visit_simps good_def grows_refl)
next
  case (Read E x)
  then show ?case
    by (auto dest!: accept_Suc [of k] simp: visit_simps visit_Identifier_def good_def grows_refl
        split: option.splits ReferenceStatus.splits)
next
  case (ReadBad E x)
  then have "getIdentifier st x \<noteq> Some Initialized" "getIdentifier st x \<noteq> None"
    by (auto simp: covers_def)
  then show ?case using ReadBad
    by (auto dest!: accept_Suc [of k] simp: visit_simps visit_Identifier_def
        split: option.splits ReferenceStatus.splits)
next
  case (Cast v E out ty)
  then show ?case by (auto dest!: accept_Suc [of k] simp: visit_simps res_simps)
next
  case (Call as E out c)
  then show ?case by (auto dest!: accept_Suc [of k] simp: visit_simps visit_FunctionCall_def res_simps)
next
  case (Unary op l E out r m i)
  then show ?case
    by (auto dest!: accept_Suc [of k] simp: visit_simps visit_BinaryOp_def visit_operands_def res_simps
        isUnary_def)
next
  case (Binary op l r E out m i)
  from Binary.prems obtain j l' s1 r' where *: "accept j l st = Inr (l', s1)"
    "accept j r s1 = Inr (r', st')"
    using Binary.hyps
    by (auto dest!: accept_Suc [of k] simp: visit_simps visit_BinaryOp_def visit_operands_def res_simps)
  then have "visit_all (accept j) [l, r] st = Inr ([l', r'], st')" by simp
  then show ?case using Binary.IH Binary.prems(2) by blast
next
  case (Assign E x t v p m i)
  then show ?case using covers_assign
    by (auto dest!: accept_Suc [of k] simp: visit_simps visit_BinaryOp_def as_identifier_def good_def
        split: option.splits ReferenceStatus.splits)
next
  case (Declare E x m t c pr cm at)
  then show ?case using covers_declare [of st E x False]
    by (auto dest!: accept_Suc [of k] simp: visit_simps visit_VariableDecl_def visit_opt_def good_def
        res_simps Let_def)
next
  case (DeclareInit e E E' x m t c pr cm at)
  then obtain j s1 e' where *: "accept j e st = Inr (e', s1)"
    "st' = map_front (scope_insert x Initialized) s1"
    by (auto dest!: accept_Suc [of k] simp: visit_simps visit_VariableDecl_def visit_opt_def res_simps Let_def)
  then have "covers s1 E'" "grows E E'"
    using DeclareInit.IH [OF *(1)] DeclareInit.prems by (auto simp: good_def)
  then show ?case
    using covers_declare [of s1 E' x True] DeclareInit.hyps *(2) grows_trans by (auto simp: good_def)
next
  case (DeclareStop e E out x m t c pr cm at)
  then show ?case
    by (fastforce dest!: accept_Suc [of k] simp: visit_simps visit_VariableDecl_def visit_opt_def good_def
        res_simps Let_def)
next
  case (Block ss E out a)
  then obtain j b ids s1 where "visit_block (accept j) (Block a ss) st = Inr ((b, ids), s1)"
    "st' = propagate_all ids s1"
    by (auto dest!: accept_Suc [of k] simp: visit_simps visit_Block_def res_simps)
  moreover from this have "good E (leave out) (propagate_all ids s1)"
    by (intro good_block [OF _ Block.prems(2)]) (auto intro: Block.IH)
  ultimately show ?case by simp
next
  case (Then c E E' ss out a e)
  then obtain j c' s1 b ids s2 where 1: "accept j c st = Inr (c', s1)"
    "visit_block (accept j) (Block a ss) s1 = Inr ((b, ids), s2)"
    "e = None \<and> st' = propagate_all [] s2 \<or> (\<exists>e1 e' ids' s3. e = Some e1
       \<and> visit_block (accept j) e1 s2 = Inr ((e', ids'), s3)
       \<and> st' = propagate_all [id\<leftarrow>ids. id \<in> set ids'] s3)"
    by (auto dest!: accept_Suc [of k] simp: visit_simps visit_Conditional_def res_simps split: option.splits)
  have c: "covers s1 E'" "grows E E'" using Then.IH(1) [OF 1(1)] Then.prems(2) by (auto simp: good_def)
  have "\<exists>s xs. st' = propagate_all xs s \<and> scopes s = scopes s2 \<and> inited s = inited s2
      \<and> set xs \<subseteq> set ids"
    using 1(3)
  proof
    assume "\<exists>e1 e' ids' s3. e = Some e1 \<and> visit_block (accept j) e1 s2 = Inr ((e', ids'), s3)
       \<and> st' = propagate_all [id\<leftarrow>ids. id \<in> set ids'] s3"
    then obtain e1 e' ids' s3 where 2: "visit_block (accept j) e1 s2 = Inr ((e', ids'), s3)"
      "st' = propagate_all [id\<leftarrow>ids. id \<in> set ids'] s3" by blast
    then show ?thesis using visit_block_scopes [OF 2(1)]
      by (intro exI [of _ s3] exI [of _ "[id\<leftarrow>ids. id \<in> set ids']"]) auto
  qed (auto intro!: exI [of _ s2] exI [of _ "[]"])
  then obtain s xs where 2: "st' = propagate_all xs s" "scopes s = scopes s2" "inited s = inited s2"
    "set xs \<subseteq> set ids" by blast
  have "good E' (leave out) (propagate_all xs s)"
    by (rule good_block [OF 1(2) c(1) _ 2(2-4)]) (rule Then.IH(2))
  then have "good E' (leave out) st'" using 2(1) by simp
  then show ?case using c(2) good_trans by blast
next
  case (Else c E E' ss out b a)
  then obtain j c' s1 b' ids s2 e' ids' s3 where 1: "accept j c st = Inr (c', s1)"
    "visit_block (accept j) b s1 = Inr ((b', ids), s2)"
    "visit_block (accept j) (Block a ss) s2 = Inr ((e', ids'), s3)"
    "st' = propagate_all [id\<leftarrow>ids. id \<in> set ids'] s3"
    by (auto dest!: accept_Suc [of k] simp: visit_simps visit_Conditional_def res_simps)
  have c: "covers s1 E'" "grows E E'" using Else.IH(1) [OF 1(1)] Else.prems(2) by (auto simp: good_def)
  have "covers s2 E'" using covers_same [OF c(1)] visit_block_scopes [OF 1(2)] by simp
  then have "good E' (leave out) (propagate_all [id\<leftarrow>ids. id \<in> set ids'] s3)"
    by (intro good_block [OF 1(3)]) (auto intro: Else.IH(2))
  then show ?case using c(2) good_trans 1(4) by blast
next
  case (NoElse c E E' b)
  then obtain j c' s1 b' ids where 1: "accept j c st = Inr (c', s1)"
    "visit_block (accept j) b s1 = Inr ((b', ids), st')"
    by (auto dest!: accept_Suc [of k] simp: visit_simps visit_Conditional_def res_simps)
  then show ?case using NoElse.IH [OF 1(1)] NoElse.prems(2) visit_block_scopes [OF 1(2)] covers_same
    by (auto simp: good_def)
next
  case (CondStop c E out b e)
  then show ?case
    by (fastforce dest!: accept_Suc [of k] simp: visit_simps visit_Conditional_def res_simps good_def)
next
  case (WhileDone c E E' b)
  then obtain j c' s1 b' ids where 1: "accept j c st = Inr (c', s1)"
    "visit_block (accept j) b s1 = Inr ((b', ids), st')"
    by (auto dest!: accept_Suc [of k] simp: visit_simps visit_WhileLoop_def res_simps)
  then show ?case using WhileDone.IH [OF 1(1)] WhileDone.prems(2) visit_block_scopes [OF 1(2)] covers_same
    by (auto simp: good_def)
next
  case (WhileStep c E E' ss E'' a out)
  then obtain j c' s1 b' ids where 1: "accept j c st = Inr (c', s1)"
    "visit_block (accept j) (Block a ss) s1 = Inr ((b', ids), st')"
    by (auto dest!: accept_Suc [of k] simp: visit_simps visit_WhileLoop_def res_simps)
  have c: "covers s1 E'" "grows E E'"
    using WhileStep.IH(1) [OF 1(1)] WhileStep.prems(2) by (auto simp: good_def)
  have "Norm E'' \<noteq> Bad \<and> (\<forall>F. Norm E'' = Norm F \<longrightarrow> covers st' (tl F) \<and> list_all2 level_eq E' (tl F)
     \<and> (\<forall>x\<in>set ids. rlookup (tl F) x \<noteq> None \<longrightarrow> rlookup (tl F) x = Some True))"
    by (rule block_good [OF 1(2) c(1)]) (rule WhileStep.IH(2))
  then have "list_all2 level_eq E' (tl E'')" by simp
  moreover have "list_all2 level_eq E E'"
    using exec_expression_keys(1) WhileStep.hyps c(2) by (intro same_keys_levels) auto
  ultimately have eq: "list_all2 level_eq E (tl E'')" using levels_trans by blast
  have "covers st (tl E'')" using covers_levels [OF WhileStep.prems(2) eq] .
  then show ?case
    using WhileStep.IH(3) WhileStep.prems(1) good_trans [OF levels_grow [OF eq]] by blast
next
  case (WhileBody c E E' ss out a)
  then obtain j c' s1 b' ids where 1: "accept j c st = Inr (c', s1)"
    "visit_block (accept j) (Block a ss) s1 = Inr ((b', ids), st')"
    by (auto dest!: accept_Suc [of k] simp: visit_simps visit_WhileLoop_def res_simps)
  have c: "covers s1 E'"
    using WhileBody.IH(1) [OF 1(1)] WhileBody.prems(2) by (auto simp: good_def)
  have "out \<noteq> Bad \<and> (\<forall>F. out = Norm F \<longrightarrow> covers st' (tl F) \<and> list_all2 level_eq E' (tl F)
     \<and> (\<forall>x\<in>set ids. rlookup (tl F) x \<noteq> None \<longrightarrow> rlookup (tl F) x = Some True))"
    by (rule block_good [OF 1(2) c]) (rule WhileBody.IH(2))
  then show ?case using WhileBody.hyps by (auto simp: good_def)
next
  case (WhileStop c E out b)
  then show ?case
    by (fastforce dest!: accept_Suc [of k] simp: visit_simps visit_WhileLoop_def res_simps good_def)
next
  case (ReturnVoid E)
  then show ?case by (simp add: good_def)
next
  case (Return v E out out')
  then show ?case
    by (fastforce dest!: accept_Suc [of k] simp: visit_simps visit_opt_def res_simps good_def)
next
  case (Raise v E out out')
  then show ?case
    by (fastforce dest!: accept_Suc [of k] simp: visit_simps res_simps good_def)
next
  case (Done E)
  then show ?case by (auto simp: good_def grows_refl)
next
  case (Next n E E' ns out)
  then obtain n' s1 ns1 where 1: "accept k n st = Inr (n', s1)" "visit_all (accept k) ns s1 = Inr (ns1, st')"
    by (auto simp: res_simps)
  have "covers s1 E'" "grows E E'" using Next.IH(1) [OF 1(1)] Next.prems(2) by (auto simp: good_def)
  then show ?case using Next.IH(2) [OF 1(2)] good_trans by blast
next
  case (NextStop n E out ns)
  then show ?case by (fastforce simp: res_simps good_def)
qed


section \<open>Termination\<close>

definition overflow :: failure where
  "overflow = Undefined ''stack exhausted''"

text \<open>
  The trees on which the recursion is structural: everything but generic identifiers, and
  classes with their constructors (a constructor visits the values of the class around it).
\<close>

inductive plain :: "node \<Rightarrow> bool" where
  "\<forall>s\<in>set ss. plain s \<Longrightarrow> plain (Block a ss)"
| "plain (ConstantValue ct cv cp)"
| "plain v \<Longrightarrow> plain (Cast v ty)"
| "\<forall>s\<in>set ss. plain s \<Longrightarrow> plain (FunctionCall c ss)"
| "\<forall>s\<in>set ss. plain s \<Longrightarrow> plain (NewInstance (FunctionCall c ss) ty)"
| "plain (Identifier x)"
| "plain (PseudoVariable x ps b1 b2)"
| "plain v \<Longrightarrow> plain (Index v i s)"
| "plain l \<Longrightarrow> (\<And>v. r = Some v \<Longrightarrow> plain v) \<Longrightarrow> plain (BinaryOp op l r m i)"
| "plain b \<Longrightarrow> plain (LambdaFunction (BodiedFunction b d))"
| "plain b \<Longrightarrow> plain (BodiedFunction b d)"
| "plain (FunctionDef d)"
| "plain (ExternFnDef x d)"
| "plain (LLVMFunction x ns d)"
| "(\<And>v. w = Some v \<Longrightarrow> plain v) \<Longrightarrow> plain (VariableDecl x w m t cst ext pr cm at)"
| "plain v \<Longrightarrow> (\<forall>c\<in>set cs. \<forall>s\<in>set (block_stmts (case_block c)). plain s) \<Longrightarrow> plain (Switch v cs b)"
| "plain v \<Longrightarrow> plain (Raise v)"
| "plain v \<Longrightarrow> \<forall>s\<in>set (block_stmts b). plain s
    \<Longrightarrow> (\<And>e' s. e = Some e' \<Longrightarrow> s \<in> set (block_stmts e') \<Longrightarrow> plain s) \<Longrightarrow> plain (Conditional v b e)"
| "plain (LoopFlow f)"
| "\<forall>s\<in>set (block_stmts b). plain s
    \<Longrightarrow> (\<forall>c\<in>set ks. \<forall>s\<in>set (block_stmts (catch_block c)). plain s) \<Longrightarrow> plain (TryCatch b ks)"
| "plain v \<Longrightarrow> \<forall>s\<in>set (block_stmts b). plain s \<Longrightarrow> plain (ForLoop x v b)"
| "plain v \<Longrightarrow> \<forall>s\<in>set (block_stmts b). plain s \<Longrightarrow> plain (WhileLoop v b d f)"
| "plain (ImportStmt p q vs e a)"
| "\<forall>s\<in>set ss. plain s \<Longrightarrow> plain (Namespace x ss cm a)"
| "(\<And>v. w = Some v \<Longrightarrow> plain v) \<Longrightarrow> plain (Return w)"
| "plain b \<Longrightarrow> plain (Macro x as b s at cm)"

lemma visit_all_overflow:
  "(\<And>n st. n \<in> set ns \<Longrightarrow> rec n st \<noteq> Inl overflow) \<Longrightarrow> visit_all rec ns st \<noteq> Inl overflow"
  by (induction ns arbitrary: st) (auto simp: res_simps)

lemma visit_opt_overflow:
  "(\<And>n st. w = Some n \<Longrightarrow> rec n st \<noteq> Inl overflow) \<Longrightarrow> visit_opt rec w st \<noteq> Inl overflow"
  by (auto simp: visit_opt_def res_simps split: option.splits)

lemma visit_block_overflow:
  "(\<And>n st. n \<in> set (block_stmts b) \<Longrightarrow> rec n st \<noteq> Inl overflow)
     \<Longrightarrow> visit_block rec b st \<noteq> Inl overflow"
  using visit_all_overflow [of "block_stmts b" rec]
  by (fastforce simp: visit_block_def asBlock_def withScope_def withState_def res_simps)

lemma visit_cases_overflow:
  "(\<And>n c st. c \<in> set cs \<Longrightarrow> n \<in> set (block_stmts (case_block c)) \<Longrightarrow> rec n st \<noteq> Inl overflow)
     \<Longrightarrow> visit_cases rec cs st \<noteq> Inl overflow"
proof (induction cs arbitrary: st)
  case (Cons c cs)
  have "visit_block rec (case_block c) s \<noteq> Inl overflow" for s
    using Cons.prems by (intro visit_block_overflow) auto
  moreover have "visit_cases rec cs s \<noteq> Inl overflow" for s
    using Cons.prems by (intro Cons.IH) auto
  ultimately show ?case by (auto simp: res_simps)
qed simp

lemma visit_catches_overflow:
  "(\<And>n c st. c \<in> set cs \<Longrightarrow> n \<in> set (block_stmts (catch_block c)) \<Longrightarrow> rec n st \<noteq> Inl overflow)
     \<Longrightarrow> visit_catches rec cs st \<noteq> Inl overflow"
proof (induction cs arbitrary: st)
  case (Cons c cs)
  have "visit_block rec (catch_block c) s \<noteq> Inl overflow" for s
    using Cons.prems by (intro visit_block_overflow) auto
  moreover have "visit_catches rec cs s \<noteq> Inl overflow" for s
    using Cons.prems by (intro Cons.IH) auto
  ultimately show ?case by (auto simp: res_simps)
qed simp

lemmas overflow_defs = overflow_def variable_error_def before_assigned_def

lemma size_block_stmts: "n \<in> set (block_stmts b) \<Longrightarrow> size n < size b"
  by (cases b) (auto simp: block_stmts_def less_Suc_eq_le intro: size_list_estimation' trans_le_add2)

lemma enter_class_plain: "enter_class rec False st = Inr ((), if insideClass st = None then st
     else map_front (scope_insert ''self'' Initialized) st)"
  by (auto simp: enter_class_def split: option.splits)


lemma size_member: "n \<in> set ns \<Longrightarrow> size n \<le> size_list size ns" for n :: node
  by (simp add: size_list_estimation')

lemma size_case_block: "c \<in> set cs \<Longrightarrow> size (case_block c) \<le> size_list (size_CaseBlock size) cs"
  by (rule size_list_estimation') (auto, cases c, simp)

lemma size_catch_block: "c \<in> set cs \<Longrightarrow> size (catch_block c) \<le> size_list (size_CatchBlock size) cs"
  by (rule size_list_estimation') (auto, cases c, simp)

lemma plain_visit:
  assumes n: "plain n" and rec: "\<And>m s. size m < size n \<Longrightarrow> plain m \<Longrightarrow> rec m s \<noteq> Inl overflow"
  shows "visit rec n st \<noteq> Inl overflow"
  using n
proof cases
  case (1 ss a)
  have "rec n s \<noteq> Inl overflow" if "n \<in> set ss" for n s
    using 1 rec that size_member [OF that] by auto
  then have "visit_block rec (Block a ss) st \<noteq> Inl overflow"
    by (intro visit_block_overflow) (simp add: block_stmts_def)
  then show ?thesis using 1 by (auto simp: visit_simps visit_Block_def res_simps)
next
  case (4 ss c)
  have "rec n s \<noteq> Inl overflow" if "n \<in> set ss" for n s
    using 4 rec that size_member [OF that] by auto
  then have "visit_all rec ss s \<noteq> Inl overflow" for s by (intro visit_all_overflow)
  then show ?thesis using 4 by (auto simp: visit_simps visit_FunctionCall_def res_simps)
next
  case (5 ss c ty)
  have "rec n s \<noteq> Inl overflow" if "n \<in> set ss" for n s
    using 5 rec that size_member [OF that] by auto
  then have "visit_all rec ss s \<noteq> Inl overflow" for s by (intro visit_all_overflow)
  then show ?thesis using 5 by (auto simp: visit_def visit_NewInstance_def res_simps)
next
  case (6 x)
  then show ?thesis using 6 by (auto simp: visit_simps visit_Identifier_def overflow_defs
        split: option.splits ReferenceStatus.splits)
next
  case (8 v i s)
  then show ?thesis using 8 rec by (auto simp: visit_def visit_Index_def overflow_defs res_simps Let_def
        split: option.splits ReferenceStatus.splits if_splits)
next
  case (9 l r op m i)
  have "visit_operands rec op l r m i' s \<noteq> Inl overflow" for s i'
    using 9 rec by (auto simp: visit_operands_def overflow_defs res_simps split: option.splits)
  then show ?thesis using 9 by (auto simp: visit_simps visit_BinaryOp_def overflow_defs Let_def case_prod_unfold
        split: option.splits ReferenceStatus.splits if_splits)
next
  case (10 b d)
  then show ?thesis using 10 rec by (auto simp: visit_def visit_LambdaFunction_def res_simps)
next
  case (11 b d)
  then show ?thesis using 11 rec
    by (auto simp: visit_def visit_BodiedFunction_def withScope_def enter_class_plain res_simps)
next
  case (15 w x m t cst ext pr cm at)
  have "visit_opt rec w s \<noteq> Inl overflow" for s
    using 15 rec by (intro visit_opt_overflow) auto
  then show ?thesis using 15 by (auto simp: visit_simps visit_VariableDecl_def res_simps Let_def)
next
  case (16 v cs b)
  have "rec n s \<noteq> Inl overflow" if "c \<in> set cs" "n \<in> set (block_stmts (case_block c))" for n c s
    using 16 rec that size_case_block [OF that(1)] size_block_stmts [OF that(2)] by auto
  then have "visit_cases rec cs s \<noteq> Inl overflow" for s by (intro visit_cases_overflow) blast
  then show ?thesis using 16 rec by (auto simp: visit_def visit_Switch_def res_simps)
next
  case (18 v b e)
  have "rec n s \<noteq> Inl overflow" if "n \<in> set (block_stmts b)" for n s
    using 18 rec that size_block_stmts [OF that] by auto
  then have b: "visit_block rec b s \<noteq> Inl overflow" for s by (intro visit_block_overflow)
  have "rec n s \<noteq> Inl overflow" if "n \<in> set (block_stmts e')" "e = Some e'" for n s e'
    using 18 rec that size_block_stmts [OF that(1)] by auto
  then have "visit_block rec e' s \<noteq> Inl overflow" if "e = Some e'" for s e'
    using that by (intro visit_block_overflow) blast
  then show ?thesis using 18 rec b
    by (auto simp: visit_simps visit_Conditional_def res_simps split: option.splits)
next
  case (20 b ks)
  have "rec n s \<noteq> Inl overflow" if "n \<in> set (block_stmts b)" for n s
    using 20 rec that size_block_stmts [OF that] by auto
  then have b: "visit_block rec b s \<noteq> Inl overflow" for s by (intro visit_block_overflow)
  have "rec n s \<noteq> Inl overflow" if "c \<in> set ks" "n \<in> set (block_stmts (catch_block c))" for n c s
    using 20 rec that size_catch_block [OF that(1)] size_block_stmts [OF that(2)] by auto
  then have "visit_catches rec ks s \<noteq> Inl overflow" for s by (intro visit_catches_overflow) blast
  then show ?thesis using 20 b by (auto simp: visit_def visit_TryCatch_def res_simps)
next
  case (21 v b x)
  have "rec n s \<noteq> Inl overflow" if "n \<in> set (block_stmts b)" for n s
    using 21 rec that size_block_stmts [OF that] by auto
  then have b: "visit_block rec b s \<noteq> Inl overflow" for s by (intro visit_block_overflow)
  then show ?thesis using 21 rec by (auto simp: visit_def visit_ForLoop_def res_simps)
next
  case (22 v b d f)
  have "rec n s \<noteq> Inl overflow" if "n \<in> set (block_stmts b)" for n s
    using 22 rec that size_block_stmts [OF that] by auto
  then have b: "visit_block rec b s \<noteq> Inl overflow" for s by (intro visit_block_overflow)
  then show ?thesis using 22 rec by (auto simp: visit_def visit_WhileLoop_def res_simps)
next
  case (24 ss x cm a)
  have "rec n s \<noteq> Inl overflow" if "n \<in> set ss" for n s
    using 24 rec that size_member [OF that] by auto
  then have "visit_all rec ss s \<noteq> Inl overflow" for s by (intro visit_all_overflow)
  then show ?thesis using 24 by (auto simp: visit_def res_simps)
next
  case (25 w)
  have "visit_opt rec w s \<noteq> Inl overflow" for s
    using 25 rec by (intro visit_opt_overflow) auto
  then show ?thesis using 25 by (auto simp: visit_simps res_simps)
next
  case (26 b x as s at cm)
  then show ?thesis using 26 rec by (auto simp: visit_def visit_Macro_def withScope_def res_simps)
qed (auto simp: visit_def res_simps rec)

lemma plain_overflow: "plain n \<Longrightarrow> size n < k \<Longrightarrow> accept k n st \<noteq> Inl overflow"
proof (induction k arbitrary: n st)
  case (Suc k)
  then show ?case by (simp add: plain_visit)
qed simp


section \<open>Properties\<close>

text \<open>
  C6. Scope discipline of the analysis: visiting any node that is accepted leaves the stack of
  scopes as deep as it was and every scope but the innermost untouched; the innermost one only
  gains names, and a variable marked as initialised stays so. The list of initialised variables
  only grows at its end.
\<close>

theorem visit_scope_discipline:
  assumes "accept k n st = Inr (n', st')" and "scopes st = s # ss"
  shows "\<exists>s'. scopes st' = s' # ss \<and> scope_le s s' \<and> (\<exists>xs. inited st' = inited st @ xs)"
  using dav_frame.accept_R [OF assms(1)] assms(2) by (auto simp: dav_frame_def)

theorem visit_scope_discipline_witness:
  "\<exists>n' st' s'. accept 5 (Block no_attributes [VariableDecl ''x'' None False None False False PUBLIC None
      no_attributes]) init_dav = Inr (n', st') \<and> scopes st' = [s']"
proof -
  obtain n' st' where *: "accept 5 (Block no_attributes [VariableDecl ''x'' None False None False False
      PUBLIC None no_attributes]) init_dav = Inr (n', st')"
    by (simp add: eval_nat_numeral visit_simps visit_Block_def visit_block_def asBlock_def
        withScope_def withState_def block_stmts_def visit_VariableDecl_def visit_opt_def)
  show ?thesis
    using * visit_scope_discipline [OF *, of "[]" "[]"] by (auto simp: init_dav_def)
qed

text \<open>
  C7. Soundness on the fragment with runs (no shadowing, no lambdas, assignments of constants):
  when the analysis accepts a program, no run of it reads a variable that has no value, however
  the branches go and however often the loops iterate.
\<close>

theorem analysis_sound:
  assumes "run_analysis k ns = Inr ns'" and "execs ns [[]] out"
  shows "out \<noteq> Bad"
proof -
  obtain st' where "visit_all (accept k) ns init_dav = Inr (ns', st')"
    using assms(1) by (auto simp: run_analysis_def res_simps)
  moreover have "covers init_dav [[]]"
    by (simp add: covers_def init_dav_def getIdentifier_def)
  ultimately have "good [[]] out st'" using exec_good(2) [OF assms(2)] by blast
  then show ?thesis by (auto simp: good_def)
qed

definition let_var :: "string \<Rightarrow> node option \<Rightarrow> node" where
  "let_var x v = VariableDecl x v True None False False PUBLIC None no_attributes"

definition assign :: "string \<Rightarrow> node \<Rightarrow> node" where
  "assign x e = BinaryOp OT_EQ (Identifier x) (Some e) False False"

definition number :: "string \<Rightarrow> node" where
  "number s = ConstantValue CT_Number s []"

lemmas run_simps = run_analysis_def init_dav_def eval_nat_numeral visit_def visit_Block_def
  visit_block_def asBlock_def withScope_def withState_def block_stmts_def with_stmts_def
  visit_VariableDecl_def visit_opt_def visit_BinaryOp_def visit_Identifier_def
  visit_Conditional_def as_identifier_def getIdentifier_def map_front_def
  scope_insert_def scope_set_def mark_initialized_def propagate_def let_var_def assign_def
  number_def visit_LambdaFunction_def

theorem analysis_sound_witness:
  "\<not> execs [let_var ''x'' None, assign ''x'' (number ''1''), Return (Some (Identifier ''x''))] [[]] Bad"
proof -
  obtain ns' where "run_analysis 3 [let_var ''x'' None, assign ''x'' (number ''1''),
      Return (Some (Identifier ''x''))] = Inr ns'"
    by (simp add: run_simps)
  from analysis_sound [OF this] show ?thesis by blast
qed



text \<open>
  No recursion depth is enough for a generic identifier: its visit calls itself.
\<close>

theorem generic_identifier_diverges:
  "accept k (GenericIdentifier x gs) st = Inl (Undefined ''stack exhausted'')"
  by (induction k) (simp_all add: visit_def)

text \<open>
  Reads of unassigned variables the analysis accepts: the right side of an assignment to a
  variable (\<open>let x; let y; y = x;\<close>), a variable whose namesake is assigned in an inner block
  (\<open>let x; { let x; x = 1; } x;\<close>), and a variable assigned in a lambda that is never called
  (\<open>let x; fn() { x = 1; }; x;\<close>). The second and third program also show the tree that is
  returned: the inner assignment is marked as the initialisation.
\<close>

theorem accepted_unassigned_reads:
  "run_analysis 9 [let_var ''x'' None, let_var ''y'' None, assign ''y'' (Identifier ''x'')]
     = Inr [let_var ''x'' None, let_var ''y'' None,
         BinaryOp OT_EQ (Identifier ''y'') (Some (Identifier ''x'')) False True]
   \<and> run_analysis 9 [let_var ''x'' None,
       Block no_attributes [let_var ''x'' None, assign ''x'' (number ''1'')], Identifier ''x'']
     = Inr [let_var ''x'' None, Block no_attributes [let_var ''x'' None,
         BinaryOp OT_EQ (Identifier ''x'') (Some (number ''1'')) False True], Identifier ''x'']
   \<and> run_analysis 9 [let_var ''x'' None,
       LambdaFunction (BodiedFunction (Block no_attributes [assign ''x'' (number ''1'')])
         (FunctionDefData [] PRIVATE [] None False False False False None None no_attributes)),
       Identifier ''x'']
     = Inr [let_var ''x'' None,
       LambdaFunction (BodiedFunction (Block no_attributes
         [BinaryOp OT_EQ (Identifier ''x'') (Some (number ''1'')) False True])
         (FunctionDefData [] PRIVATE [] None False False False False None None no_attributes)),
       Identifier ''x'']"
  by (simp add: run_simps)

end
