(* ===== verification/BodyReturns.thy ===== *)
theory BodyReturns
  imports DefiniteAssignment_Props
begin

text \<open>
  \<^verbatim>\<open>Transformer::bodyReturns\<close> (\<^verbatim>\<open>src/visitors/transform/utils/bodyReturns.cc\<close>): the check that a
  function body returns on every path, used to reject functions that fall off their end.
\<close>

section \<open>The check\<close>

lemma size_stmts_le: "size_list size (block_stmts b) \<le> size b"
  by (cases b) (auto simp: block_stmts_def)

lemma size_catch_stmts:
  "c \<in> set cs \<Longrightarrow> size_list size (block_stmts (catch_block c)) \<le> size_list (size_CatchBlock size) cs"
  using size_catch_block [of c cs] size_stmts_le [of "catch_block c"] by simp

lemma size_case_stmts:
  "c \<in> set cs \<Longrightarrow> size_list size (block_stmts (case_block c)) \<le> size_list (size_CaseBlock size) cs"
  using size_case_block [of c cs] size_stmts_le [of "case_block c"] by simp

text \<open>
  The loop over the statements. A switch ends the loop: its result is returned whatever follows.
\<close>

function bodyReturns :: "node list \<Rightarrow> bool" where
  "bodyReturns [] = False"
| "bodyReturns (e # es) = (case e of
      Return v \<Rightarrow> True
    | Block a ss \<Rightarrow> if bodyReturns ss then True else bodyReturns es
    | Conditional c b elseBlock \<Rightarrow>
        if bodyReturns (block_stmts b)
           \<and> (case elseBlock of None \<Rightarrow> False | Some b' \<Rightarrow> bodyReturns (block_stmts b'))
        then True else bodyReturns es
    | WhileLoop c b doWhile f \<Rightarrow>
        if doWhile \<and> bodyReturns (block_stmts b) then True else bodyReturns es
    | Raise v \<Rightarrow> True
    | TryCatch b cs \<Rightarrow>
        if bodyReturns (block_stmts b) \<and> list_all (\<lambda>c. bodyReturns (block_stmts (catch_block c))) cs
        then True else bodyReturns es
    | Switch v cs b \<Rightarrow> list_all (\<lambda>c. bodyReturns (block_stmts (case_block c))) cs
    | _ \<Rightarrow> bodyReturns es)"
  by pat_completeness auto
termination
  by (relation "measure (size_list size)")
    (auto simp: less_Suc_eq_le intro: le_trans [OF size_stmts_le] le_trans [OF size_catch_stmts]
      le_trans [OF size_case_stmts] trans_le_add1 trans_le_add2)

section \<open>Properties\<close>

declare bodyReturns.simps [simp del]

lemma bodyReturns_Nil [simp]: "\<not> bodyReturns []"
  by (simp add: bodyReturns.simps)

lemma bodyReturns_Cons:
  assumes "\<And>v cs b. n \<noteq> Switch v cs b"
  shows "bodyReturns (n # ns) \<longleftrightarrow> bodyReturns [n] \<or> bodyReturns ns"
proof (cases n)
  case (Switch v cs b)
  then show ?thesis using assms by blast
qed (simp_all add: bodyReturns.simps(2))

lemma bodyReturns_single [simp]:
  "\<not> bodyReturns [ConstantValue ct cv cp]" "\<not> bodyReturns [Identifier x]"
  "\<not> bodyReturns [Cast v ty]" "\<not> bodyReturns [FunctionCall f as]"
  "\<not> bodyReturns [BinaryOp op l r m i]" "\<not> bodyReturns [VariableDecl x w mu t c ext p cm at]"
  "bodyReturns [Block a ss] \<longleftrightarrow> bodyReturns ss"
  "bodyReturns [Conditional v b e] \<longleftrightarrow> bodyReturns (block_stmts b)
     \<and> (\<exists>e'. e = Some e' \<and> bodyReturns (block_stmts e'))"
  "\<not> bodyReturns [WhileLoop v b False fc]"
  "bodyReturns [Return w]" "bodyReturns [Raise v]"
  by (auto simp: bodyReturns.simps(2) split: option.splits)

lemma exec_not_switch: "exec n E out \<Longrightarrow> n \<noteq> Switch v cs b"
  by (erule exec.cases) auto

lemma exec_bodyReturns:
  "exec n E out \<Longrightarrow> bodyReturns [n] \<Longrightarrow> (\<And>F. out \<noteq> Norm F)"
  "execs ns E out \<Longrightarrow> bodyReturns ns \<Longrightarrow> (\<And>F. out \<noteq> Norm F)"
proof (induction rule: exec_execs.inducts)
  case (Next n E E' ns out)
  then show ?case using bodyReturns_Cons [of n ns] exec_not_switch by blast
qed (auto simp: leave_def block_stmts_def split: outcome.splits)

text \<open>
  C9. A body that passes the check never runs off its end: on the statements with runs (blocks,
  conditionals, loops, \<^verbatim>\<open>return\<close>, \<^verbatim>\<open>throw\<close>), no run of it completes normally.
\<close>

theorem bodyReturns_sound:
  assumes "bodyReturns ns" and "execs ns E out"
  shows "out \<noteq> Norm F"
  using exec_bodyReturns(2) [OF assms(2,1)] .

theorem bodyReturns_sound_witness:
  "\<not> execs [Conditional (Identifier ''c'') (Block no_attributes [Return None])
       (Some (Block no_attributes [Raise (Identifier ''e'')]))] [[]] (Norm [[]])"
proof
  assume *: "execs [Conditional (Identifier ''c'') (Block no_attributes [Return None])
       (Some (Block no_attributes [Raise (Identifier ''e'')]))] [[]] (Norm [[]])"
  have "bodyReturns [Conditional (Identifier ''c'') (Block no_attributes [Return None])
       (Some (Block no_attributes [Raise (Identifier ''e'')]))]"
    by (simp add: block_stmts_def)
  from bodyReturns_sound [OF this *, of "[[]]"] show False by simp
qed

text \<open>
  A switch decides the check whatever follows it: with no cases at all the body passes
  although nothing returns, and with one case that does not return the body is rejected although
  the statement after the switch returns.
\<close>

theorem bodyReturns_switch:
  "bodyReturns (Switch v [] cstyle # ns)
   \<and> \<not> bodyReturns (Switch v [CaseBlock e as d var (Block a [])] cstyle # Return w # ns)"
  by (simp add: bodyReturns.simps block_stmts_def)

end
