(* ===== verification/Runtime_Exceptions.thy ===== *)
theory Runtime_Exceptions
  imports Prelude
begin

unbundle bit_operations_syntax

text \<open>
  The exception personality of compiled programs, \<^verbatim>\<open>runtime/libs/exceptions.cc\<close>: decoding of the
  DWARF tables, the search for a matching action and for the call site of the throwing frame.
  Memory is a function from 64 bit addresses to bytes, read little endian; \<^verbatim>\<open>int\<close> has 32 bits and
  \<^verbatim>\<open>uintptr_t\<close> 64. Operations the language standard leaves undefined return
  \<open>Undefined\<close>. The unwinder (\<^verbatim>\<open>_Unwind_*\<close>) is outside the repository: what it answers is data of
  the context record.
\<close>

type_synonym addr = "64 word"
type_synonym memory = "addr \<Rightarrow> 8 word"

section \<open>Variable length integers\<close>

text \<open>
  \<^verbatim>\<open>(byte & 0x7f) << shift\<close> is a shift of an \<^verbatim>\<open>int\<close>: undefined from 32 bits on and when the product
  does not fit 32 bits; otherwise the 32 bit value is sign extended when it is joined to the
  64 bit result.
\<close>

definition shifted_bits :: "8 word \<Rightarrow> nat \<Rightarrow> 64 word res" where
  "shifted_bits b shift =
     (let v = b AND 0x7F in
      if shift \<ge> 32 then Inl (Undefined ''shift count'')
      else if unat v * 2 ^ shift \<ge> 2 ^ 32 then Inl (Undefined ''shift overflow'')
      else Inr (scast (push_bit shift (ucast v :: 32 word))))"

text \<open>The common loop of both readers: result, shift, last byte and the new position.\<close>

function leb_loop :: "memory \<Rightarrow> addr \<Rightarrow> 64 word \<Rightarrow> nat \<Rightarrow> (64 word \<times> nat \<times> 8 word \<times> addr) res" where
  "leb_loop mem p result shift =
     (let b = mem p in
      case shifted_bits b shift of
        Inl e \<Rightarrow> Inl e
      | Inr v \<Rightarrow>
          (if b AND 0x80 \<noteq> 0 then leb_loop mem (p + 1) (result OR v) (shift + 7)
           else Inr (result OR v, shift + 7, b, p + 1)))"
  by auto
termination
  by (relation "measure (\<lambda>(_, _, _, shift). 32 - shift)")
    (auto simp: shifted_bits_def Let_def split: if_splits)

declare leb_loop.simps [simp del]

definition readULEB128 :: "memory \<Rightarrow> addr \<Rightarrow> (64 word \<times> addr) res" where
  "readULEB128 mem data =
     bindR (leb_loop mem data 0 0) (\<lambda>(result, shift, b, p). Inr (result, p))"

definition readSLEB128 :: "memory \<Rightarrow> addr \<Rightarrow> (64 word \<times> addr) res" where
  "readSLEB128 mem data =
     bindR (leb_loop mem data 0 0) (\<lambda>(result, shift, b, p).
       if b AND 0x40 \<noteq> 0 \<and> shift < 64 then
         (if shift \<ge> 32 then Inl (Undefined ''shift count'')
          else Inr (result OR scast (push_bit shift (- 1 :: 32 word)), p))
       else Inr (result, p))"

section \<open>Encoded pointers\<close>

definition DW_EH_PE_omit :: "8 word" where "DW_EH_PE_omit = 0xFF"
definition DW_EH_PE_indirect :: "8 word" where "DW_EH_PE_indirect = 0x80"

primrec read_bytes :: "memory \<Rightarrow> addr \<Rightarrow> nat \<Rightarrow> nat" where
  "read_bytes mem p 0 = 0"
| "read_bytes mem p (Suc n) = unat (mem p) + 256 * read_bytes mem (p + 1) n"

definition read16 :: "memory \<Rightarrow> addr \<Rightarrow> 16 word" where
  "read16 mem p = of_nat (read_bytes mem p 2)"
definition read32 :: "memory \<Rightarrow> addr \<Rightarrow> 32 word" where
  "read32 mem p = of_nat (read_bytes mem p 4)"
definition read64 :: "memory \<Rightarrow> addr \<Rightarrow> 64 word" where
  "read64 mem p = of_nat (read_bytes mem p 8)"

definition getEncodingSize :: "8 word \<Rightarrow> 32 word res" where
  "getEncodingSize enc =
     (if enc = DW_EH_PE_omit then Inr 0
      else let f = enc AND 0x0F in
        if f = 0x00 then Inr 8
        else if f = 0x02 then Inr 2
        else if f = 0x03 then Inr 4
        else if f = 0x04 then Inr 8
        else if f = 0x0A then Inr 2
        else if f = 0x0B then Inr 4
        else if f = 0x0C then Inr 8
        else Inl Abort)"

definition encoded_value :: "memory \<Rightarrow> addr \<Rightarrow> 8 word \<Rightarrow> (64 word \<times> addr) res" where
  "encoded_value mem p enc =
     (let f = enc AND 0x0F in
      if f = 0x00 then Inr (read64 mem p, p + 8)
      else if f = 0x01 then readULEB128 mem p
      else if f = 0x09 then readSLEB128 mem p
      else if f = 0x02 then Inr (ucast (read16 mem p), p + 2)
      else if f = 0x03 then Inr (ucast (read32 mem p), p + 4)
      else if f = 0x04 then Inr (read64 mem p, p + 8)
      else if f = 0x0A then Inr (scast (read16 mem p), p + 2)
      else if f = 0x0B then Inr (scast (read32 mem p), p + 4)
      else if f = 0x0C then Inr (read64 mem p, p + 8)
      else Inl Abort)"

definition readEncodedPointer :: "memory \<Rightarrow> addr \<Rightarrow> 8 word \<Rightarrow> (64 word \<times> addr) res" where
  "readEncodedPointer mem data enc =
     (if enc = DW_EH_PE_omit then Inr (0, data)
      else bindR (encoded_value mem data enc) (\<lambda>(result, p).
        bindR (if enc AND 0x70 = 0x00 then Inr result
               else if enc AND 0x70 = 0x10 then Inr (result + data)
               else Inl Abort) (\<lambda>result.
          if enc AND DW_EH_PE_indirect \<noteq> 0 then Inr (read64 mem result, p)
          else Inr (result, p))))"

section \<open>Exception classes\<close>

definition genClass :: "8 word list \<Rightarrow> 64 word" where
  "genClass classChars =
     foldl (\<lambda>ret c. push_bit 8 ret + ucast c) (ucast (hd classChars)) (tl classChars)"

definition ourBaseExcpClassChars :: "8 word list" where
  "ourBaseExcpClassChars = [0x6F, 0x62, 0x6A, 0, 0x73, 0x6E, 0]"

definition exception_class :: "64 word" where
  "exception_class = genClass ourBaseExcpClassChars"

section \<open>Matching an action\<close>

text \<open>
  One round of the loop of \<^verbatim>\<open>handleActionValue\<close>: the answer, or the position of the next action.
  The first field of an exception object and of a type info is its \<^verbatim>\<open>int\<close> type.
\<close>

definition entry_type :: "memory \<Rightarrow> 8 word \<Rightarrow> addr \<Rightarrow> 64 word \<Rightarrow> 32 word res" where
  "entry_type mem TTypeEncoding ClassInfo typeOffset =
     bindR (getEncodingSize TTypeEncoding) (\<lambda>EncSize.
     bindR (readEncodedPointer mem (ClassInfo - typeOffset * ucast EncSize) TTypeEncoding) (\<lambda>(P, _).
     Inr (read32 mem P)))"

definition action_round ::
  "memory \<Rightarrow> 8 word \<Rightarrow> addr \<Rightarrow> 32 word \<Rightarrow> int \<Rightarrow> addr \<Rightarrow> (int option + addr) res" where
  "action_round mem TTypeEncoding ClassInfo ty i actionPos =
     bindR (readSLEB128 mem actionPos) (\<lambda>(typeOffset, actionPos).
     bindR (readSLEB128 mem actionPos) (\<lambda>(actionOffset, _).
       if sint typeOffset < 0 then Inl AssertFail
       else bindR (if sint typeOffset > 0
                   then bindR (entry_type mem TTypeEncoding ClassInfo typeOffset) (\<lambda>t. Inr (t = ty))
                   else Inr False) (\<lambda>found.
         if found then Inr (Inl (Some (i + 1)))
         else if actionOffset = 0 then Inr (Inl None)
         else Inr (Inr (actionPos + actionOffset)))))"

text \<open>
  The chain of actions may be cyclic, so the loop has fuel; \<open>None\<close> is running out of it. The
  inner option is the value given to \<^verbatim>\<open>resultAction\<close>, \<open>None\<close> when the function returns false.
\<close>

primrec action_loop ::
  "nat \<Rightarrow> memory \<Rightarrow> 8 word \<Rightarrow> addr \<Rightarrow> 32 word \<Rightarrow> int \<Rightarrow> addr \<Rightarrow> int option res option" where
  "action_loop 0 mem enc ClassInfo ty i actionPos = None"
| "action_loop (Suc k) mem enc ClassInfo ty i actionPos =
     (case action_round mem enc ClassInfo ty i actionPos of
        Inl e \<Rightarrow> Some (Inl e)
      | Inr (Inl r) \<Rightarrow> Some (Inr r)
      | Inr (Inr p) \<Rightarrow> action_loop k mem enc ClassInfo ty (i + 1) p)"

definition handleActionValue ::
  "nat \<Rightarrow> memory \<Rightarrow> int \<Rightarrow> 8 word \<Rightarrow> addr \<Rightarrow> addr \<Rightarrow> 64 word \<Rightarrow> addr \<Rightarrow> int option res option"
where
  "handleActionValue k mem ourBaseFromUnwindOffset TTypeEncoding ClassInfo actionEntry
     exceptionClass exceptionObject =
     (if exceptionObject = 0 \<or> exceptionClass \<noteq> exception_class then Some (Inr None)
      else let excp = exceptionObject + of_int ourBaseFromUnwindOffset;
               ty = read32 mem excp
           in action_loop k mem TTypeEncoding ClassInfo ty 0 actionEntry)"

section \<open>The language specific data area\<close>

datatype reason = URC_CONTINUE_UNWIND | URC_INSTALL_CONTEXT | URC_HANDLER_FOUND

text \<open>
  The context of a frame: what the unwinder answers, and the registers the function sets (the
  two exception registers and the instruction pointer), \<open>None\<close> while unset.
\<close>

record unwind_context =
  get_ip :: addr
  region_start :: addr
  gr0 :: "64 word option"
  gr1 :: "64 word option"
  new_ip :: "addr option"

record lsda_header =
  classInfo :: addr
  ttypeEncoding :: "8 word"
  callSiteEncoding :: "8 word"
  callSiteTableStart :: addr
  callSiteTableEnd :: addr

text \<open>
  The header. The class info pointer stays null when there is no type table. The length of the
  call site table is cut to 32 bits.
\<close>

definition read_header :: "memory \<Rightarrow> addr \<Rightarrow> lsda_header res" where
  "read_header mem lsda =
     (let lpStartEncoding = mem lsda; lsda = lsda + 1 in
      bindR (if lpStartEncoding \<noteq> DW_EH_PE_omit
             then bindR (readEncodedPointer mem lsda lpStartEncoding) (\<lambda>(_, p). Inr p)
             else Inr lsda) (\<lambda>lsda.
      let ttype = mem lsda; lsda = lsda + 1 in
      bindR (if ttype \<noteq> DW_EH_PE_omit
             then bindR (readULEB128 mem lsda) (\<lambda>(off, p). Inr (p + off, p))
             else Inr (0, lsda)) (\<lambda>(ci, lsda).
      let cse = mem lsda; lsda = lsda + 1 in
      bindR (readULEB128 mem lsda) (\<lambda>(len, start).
      Inr \<lparr>classInfo = ci, ttypeEncoding = ttype, callSiteEncoding = cse,
           callSiteTableStart = start,
           callSiteTableEnd = start + ucast (ucast len :: 32 word)\<rparr>))))"

record call_site =
  cs_start :: addr
  cs_length :: addr
  cs_landingPad :: addr
  cs_action :: addr

definition read_call_site :: "memory \<Rightarrow> 8 word \<Rightarrow> addr \<Rightarrow> (call_site \<times> addr) res" where
  "read_call_site mem enc p =
     bindR (readEncodedPointer mem p enc) (\<lambda>(start, p).
     bindR (readEncodedPointer mem p enc) (\<lambda>(len, p).
     bindR (readEncodedPointer mem p enc) (\<lambda>(landingPad, p).
     bindR (readULEB128 mem p) (\<lambda>(act, p).
     Inr (\<lparr>cs_start = start, cs_length = len, cs_landingPad = landingPad, cs_action = act\<rparr>, p)))))"

text \<open>
  What is done at the call site that covers the program counter. The action table starts at the
  end of the call site table.
\<close>

definition install ::
  "unwind_context \<Rightarrow> addr \<Rightarrow> int option \<Rightarrow> addr \<Rightarrow> addr \<Rightarrow> unwind_context" where
  "install ctx exceptionObject matched actionEntry landingPad =
     ctx\<lparr>gr0 := Some exceptionObject,
       gr1 := Some (case matched of
          Some v \<Rightarrow> if actionEntry = 0 then 0 else of_int v
        | None \<Rightarrow> 0),
       new_ip := Some (region_start ctx + landingPad)\<rparr>"

definition SEARCH_PHASE :: "32 word" where "SEARCH_PHASE = 1"

definition at_call_site ::
  "nat \<Rightarrow> memory \<Rightarrow> int \<Rightarrow> lsda_header \<Rightarrow> call_site \<Rightarrow> 32 word \<Rightarrow> 64 word \<Rightarrow> addr \<Rightarrow> unwind_context
     \<Rightarrow> (reason \<times> unwind_context) res option" where
  "at_call_site k mem offset h cs actions exceptionClass exceptionObject ctx =
     (let actionEntry = (if exceptionClass \<noteq> exception_class then 0 else cs_action cs);
          actionEntry = (if actionEntry \<noteq> 0 then actionEntry + callSiteTableEnd h - 1 else 0)
      in case (if actionEntry \<noteq> 0
               then handleActionValue k mem offset (ttypeEncoding h) (classInfo h) actionEntry
                 exceptionClass exceptionObject
               else Some (Inr None)) of
          None \<Rightarrow> None
        | Some (Inl e) \<Rightarrow> Some (Inl e)
        | Some (Inr matched) \<Rightarrow>
            Some (Inr (if actions AND SEARCH_PHASE = 0
              then (URC_INSTALL_CONTEXT,
                    install ctx exceptionObject matched actionEntry (cs_landingPad cs))
              else if matched \<noteq> None then (URC_HANDLER_FOUND, ctx)
              else (URC_CONTINUE_UNWIND, ctx))))"

text \<open>The walk over the call sites; a site without a landing pad is skipped.\<close>

definition covers_pc :: "call_site \<Rightarrow> addr \<Rightarrow> bool" where
  "covers_pc cs pcOffset \<longleftrightarrow> cs_start cs \<le> pcOffset \<and> pcOffset < cs_start cs + cs_length cs"

primrec call_site_loop ::
  "nat \<Rightarrow> memory \<Rightarrow> int \<Rightarrow> lsda_header \<Rightarrow> addr \<Rightarrow> 32 word \<Rightarrow> 64 word \<Rightarrow> addr \<Rightarrow> unwind_context
     \<Rightarrow> (reason \<times> unwind_context) res option" where
  "call_site_loop 0 mem offset h p actions ec eo ctx = None"
| "call_site_loop (Suc k) mem offset h p actions ec eo ctx =
     (if p < callSiteTableEnd h then
        (case read_call_site mem (callSiteEncoding h) p of
           Inl e \<Rightarrow> Some (Inl e)
         | Inr (cs, p') \<Rightarrow>
             if cs_landingPad cs \<noteq> 0 \<and> covers_pc cs (get_ip ctx - 1 - region_start ctx)
             then at_call_site k mem offset h cs actions ec eo ctx
             else call_site_loop k mem offset h p' actions ec eo ctx)
      else Some (Inr (URC_CONTINUE_UNWIND, ctx)))"

definition handleLsda ::
  "nat \<Rightarrow> memory \<Rightarrow> int \<Rightarrow> addr \<Rightarrow> 32 word \<Rightarrow> 64 word \<Rightarrow> addr \<Rightarrow> unwind_context
     \<Rightarrow> (reason \<times> unwind_context) res option" where
  "handleLsda k mem offset lsda actions exceptionClass exceptionObject ctx =
     (if lsda = 0 then Some (Inr (URC_CONTINUE_UNWIND, ctx))
      else case read_header mem lsda of
          Inl e \<Rightarrow> Some (Inl e)
        | Inr h \<Rightarrow> call_site_loop k mem offset h (callSiteTableStart h) actions exceptionClass
            exceptionObject ctx)"

text \<open>The personality function reads the data area of the frame and hands it over.\<close>

definition ourPersonality ::
  "nat \<Rightarrow> memory \<Rightarrow> int \<Rightarrow> addr \<Rightarrow> 32 word \<Rightarrow> 64 word \<Rightarrow> addr \<Rightarrow> unwind_context
     \<Rightarrow> (reason \<times> unwind_context) res option" where
  "ourPersonality k mem offset languageSpecificData actions exceptionClass exceptionObject ctx =
     handleLsda k mem offset languageSpecificData actions exceptionClass exceptionObject ctx"

end
