(* ===== verification/Runtime_Exceptions_Props.thy ===== *)
theory Runtime_Exceptions_Props
  imports Runtime_Exceptions
begin

text \<open>
  What the exception runtime guarantees: the variable length readers invert the standard
  encoding within bounds that are sharp, exception classes are unambiguous, a search along the
  actions finds the first handler, and the two phases of unwinding agree.
\<close>

section \<open>Encoding\<close>

text \<open>
  The standard's encoders: digits of 7 bits, low digits first, the high bit set on all bytes but
  the last. A signed number stops at the digit whose bit 6 is its sign.
\<close>

fun udigits :: "nat \<Rightarrow> nat list" where
  "udigits n = (if n < 128 then [n] else n mod 128 # udigits (n div 128))"

function sdigits :: "int \<Rightarrow> nat list" where
  "sdigits v = (if - 64 \<le> v \<and> v < 64 then [nat (v mod 128)]
     else nat (v mod 128) # sdigits (v div 128))"
  by auto
termination by (relation "measure (\<lambda>v. nat \<bar>v\<bar>)") auto

declare udigits.simps [simp del] sdigits.simps [simp del]

fun leb_bytes :: "nat list \<Rightarrow> 8 word list" where
  "leb_bytes [] = []"
| "leb_bytes [d] = [of_nat d]"
| "leb_bytes (d # ds) = of_nat (d + 128) # leb_bytes ds"

definition uleb :: "nat \<Rightarrow> 8 word list" where
  "uleb n = leb_bytes (udigits n)"

definition sleb :: "int \<Rightarrow> 8 word list" where
  "sleb v = leb_bytes (sdigits v)"

primrec digits_value :: "nat list \<Rightarrow> nat" where
  "digits_value [] = 0"
| "digits_value (d # ds) = d + 128 * digits_value ds"

primrec holds_at :: "memory \<Rightarrow> addr \<Rightarrow> 8 word list \<Rightarrow> bool" where
  "holds_at mem p [] = True"
| "holds_at mem p (b # bs) = (mem p = b \<and> holds_at mem (p + 1) bs)"

section \<open>Bytes of an encoding\<close>

lemma byte_low_bits:
  fixes b :: "8 word"
  shows "unat (b AND 0x7F) = unat b mod 128"
proof -
  have "b AND 0x7F = take_bit 7 b"
    by (simp add: take_bit_eq_mask mask_eq_exp_minus_1)
  then show ?thesis by (simp add: take_bit_eq_mod unat_mod)
qed

lemma byte_bit:
  fixes b :: "8 word"
  assumes "n < 8"
  shows "b AND 2 ^ n \<noteq> 0 \<longleftrightarrow> odd (unat b div 2 ^ n)"
proof -
  have "b AND 2 ^ n \<noteq> 0 \<longleftrightarrow> bit b n" by (simp add: and_exp_eq_0_iff_not_bit)
  also have "\<dots> \<longleftrightarrow> bit (unat b) n" using assms by (simp add: bit_unsigned_iff)
  finally show ?thesis by (simp add: bit_iff_odd)
qed

lemma unat_byte: "m < 256 \<Longrightarrow> unat (of_nat m :: 8 word) = m"
  by (simp add: unat_of_nat)

lemma byte_last:
  assumes "m < 128"
  shows "(of_nat m :: 8 word) AND 0x80 = 0" "unat ((of_nat m :: 8 word) AND 0x7F) = m"
  using byte_bit [of 7 "of_nat m"] byte_low_bits [of "of_nat m"] assms
  by (simp_all add: unat_byte)

lemma byte_more:
  assumes "m < 128"
  shows "(of_nat (m + 128) :: 8 word) AND 0x80 \<noteq> 0" "unat ((of_nat (m + 128) :: 8 word) AND 0x7F) = m"
proof -
  have "unat (of_nat (m + 128) :: 8 word) = m + 128" by (rule unat_byte) (use assms in simp)
  moreover have "(m + 128) div 128 = 1" using assms by simp
  ultimately show "(of_nat (m + 128) :: 8 word) AND 0x80 \<noteq> 0"
    "unat ((of_nat (m + 128) :: 8 word) AND 0x7F) = m"
    using byte_bit [of 7 "of_nat (m + 128)"] byte_low_bits [of "of_nat (m + 128)"] assms
    by simp_all
qed

lemma shifted_bits_small:
  assumes "unat (b AND 0x7F) = m" "s < 32" "m * 2 ^ s < 2 ^ 31"
  shows "shifted_bits b s = Inr (of_nat (m * 2 ^ s))"
proof -
  have m: "ucast (b AND 0x7F) = (of_nat m :: 32 word)"
    using assms(1) by (simp flip: assms(1))
  have "signed_take_bit 31 (int (m * 2 ^ s)) = int (m * 2 ^ s)"
  proof (rule signed_take_bit_int_eq_self)
    have "int (m * 2 ^ s) < int (2 ^ 31)" using assms(3) by (simp only: of_nat_less_iff)
    then show "int (m * 2 ^ s) < 2 ^ 31" by simp
    show "- (2 ^ 31) \<le> int (m * 2 ^ s)" by (rule order_trans [of _ 0]) simp_all
  qed
  moreover have "(scast (of_nat x :: 32 word) :: 64 word) = of_int (signed_take_bit 31 (int x))" for x
    by (simp add: signed_of_nat)
  moreover have "push_bit s (of_nat m :: 32 word) = of_nat (m * 2 ^ s)"
    by (simp add: push_bit_eq_mult)
  ultimately have "(scast (push_bit s (of_nat m :: 32 word)) :: 64 word) = of_nat (m * 2 ^ s)"
    by (simp only: of_int_of_nat_eq)
  then show ?thesis using assms m by (simp add: shifted_bits_def Let_def)
qed

lemma or_disjoint:
  assumes "a < 2 ^ s"
  shows "(of_nat a :: 64 word) OR of_nat (m * 2 ^ s) = of_nat (a + m * 2 ^ s)"
proof -
  have "\<not> bit a n" if "s \<le> n" for n
    using assms that by (metis bit_take_bit_iff linorder_not_less take_bit_nat_eq_self_iff)
  moreover have "(of_nat (m * 2 ^ s) :: 64 word) = push_bit s (of_nat m)"
    by (simp add: push_bit_of_nat push_bit_eq_mult)
  ultimately have "(of_nat a :: 64 word) + of_nat (m * 2 ^ s) = of_nat a OR of_nat (m * 2 ^ s)"
    by (intro disjunctive_add) (auto simp: bit_of_nat_iff bit_push_bit_iff)
  then show ?thesis by simp
qed

section \<open>The loop on encoded digits\<close>

lemma leb_bytes_simps [simp]:
  "ds \<noteq> [] \<Longrightarrow> leb_bytes (d # ds) = of_nat (d + 128) # leb_bytes ds"
  by (cases ds) simp_all

lemma length_leb_bytes [simp]: "length (leb_bytes ds) = length ds"
  by (induction ds rule: leb_bytes.induct) simp_all

lemma leb_loop_digits:
  "ds \<noteq> [] \<Longrightarrow> \<forall>d\<in>set ds. d < 128 \<Longrightarrow> holds_at mem p (leb_bytes ds)
   \<Longrightarrow> digits_value ds * 2 ^ s < 2 ^ 31 \<Longrightarrow> s + 7 * (length ds - 1) < 32 \<Longrightarrow> a < 2 ^ s
   \<Longrightarrow> leb_loop mem p (of_nat a) s = Inr (of_nat (a + digits_value ds * 2 ^ s),
        s + 7 * length ds, of_nat (last ds), p + of_nat (length ds))"
proof (induction ds arbitrary: p s a)
  case (Cons d ds)
  note d = Cons.prems(2) [THEN bspec, of d, simplified]
  have s: "s < 32" using Cons.prems(5) by simp
  show ?case
  proof (cases "ds = []")
    case True
    then show ?thesis
      using byte_last [OF d] shifted_bits_small [of "of_nat d" d s] s Cons.prems
        or_disjoint [OF Cons.prems(6), of d]
      by (subst leb_loop.simps) simp
  next
    case False
    have mem: "mem p = of_nat (d + 128)" "holds_at mem (p + 1) (leb_bytes ds)"
      using Cons.prems(3) False by simp_all
    have eq: "digits_value (d # ds) * 2 ^ s = d * 2 ^ s + digits_value ds * 2 ^ (s + 7)"
      by (simp add: power_add algebra_simps)
    have lt: "d * 2 ^ s < 2 ^ 31" "digits_value ds * 2 ^ (s + 7) < 2 ^ 31"
      using Cons.prems(4) unfolding eq by linarith+
    have "a + d * 2 ^ s < (1 + d) * 2 ^ s" using Cons.prems(6) by simp
    also have "\<dots> \<le> 128 * 2 ^ s" using d by (intro mult_le_mono1) simp
    finally have "a + d * 2 ^ s < 2 ^ (s + 7)" by (simp add: power_add)
    moreover have "s + 7 + 7 * (length ds - 1) < 32" using Cons.prems(5) False by (cases ds) auto
    ultimately have IH: "leb_loop mem (p + 1) (of_nat (a + d * 2 ^ s)) (s + 7)
        = Inr (of_nat (a + d * 2 ^ s + digits_value ds * 2 ^ (s + 7)), s + 7 + 7 * length ds,
            of_nat (last ds), p + 1 + of_nat (length ds))"
      using Cons.prems(2) by (intro Cons.IH [OF False _ mem(2) lt(2)]) simp_all
    have "leb_loop mem p (of_nat a) s = leb_loop mem (p + 1) (of_nat (a + d * 2 ^ s)) (s + 7)"
      using byte_more [OF d] shifted_bits_small [of "of_nat (d + 128)" d s] s lt(1)
        or_disjoint [OF Cons.prems(6), of d] mem(1)
      by (subst leb_loop.simps) (simp del: of_nat_add of_nat_mult of_nat_power of_nat_numeral)
    also note IH
    finally show ?thesis
      using False eq by (simp only: length_Cons add.assoc) (simp add: algebra_simps)
  qed
qed simp

section \<open>Unsigned numbers\<close>

lemma udigits_props:
  "udigits n \<noteq> [] \<and> (\<forall>d\<in>set (udigits n). d < 128) \<and> digits_value (udigits n) = n
     \<and> (length (udigits n) > 1 \<longrightarrow> 2 ^ (7 * (length (udigits n) - 1)) \<le> n)"
proof (induction n rule: udigits.induct)
  case (1 n)
  show ?case
  proof (cases "n < 128")
    case True
    then show ?thesis by (simp add: udigits.simps [of n])
  next
    case False
    let ?ds = "udigits (n div 128)"
    note IH = 1 [OF False]
    have "2 ^ (7 * length ?ds) \<le> n"
    proof (cases "length ?ds > 1")
      case True
      then have "2 ^ (7 * (length ?ds - 1)) * 128 \<le> n div 128 * 128" using IH by simp
      also have "\<dots> \<le> n" by simp
      finally show ?thesis
        using True by (cases "length ?ds") (simp_all add: power_add)
    next
      case False
      then have "length ?ds = 1" using IH by (cases ?ds) auto
      then show ?thesis using \<open>\<not> n < 128\<close> by simp
    qed
    then show ?thesis using IH False by (simp add: udigits.simps [of n])
  qed
qed

lemma readULEB128_uleb:
  assumes "holds_at mem p (uleb n)" "n < 2 ^ 31"
  shows "readULEB128 mem p = Inr (of_nat n, p + of_nat (length (uleb n)))"
proof -
  have "7 * (length (udigits n) - 1) < 31"
  proof (rule ccontr)
    assume "\<not> 7 * (length (udigits n) - 1) < 31"
    then have "31 \<le> 7 * (length (udigits n) - 1)" by simp
    then have "(2::nat) ^ 31 \<le> 2 ^ (7 * (length (udigits n) - 1))"
      by (rule power_increasing) simp
    moreover have "length (udigits n) > 1" using \<open>31 \<le> _\<close> by simp
    ultimately show False using udigits_props [of n] assms(2) by simp
  qed
  then show ?thesis
    using leb_loop_digits [of "udigits n" mem p 0 0] udigits_props [of n] assms
    by (simp add: readULEB128_def uleb_def)
qed


section \<open>Signed numbers\<close>

lemma sdigits_props:
  "sdigits v \<noteq> [] \<and> (\<forall>d\<in>set (sdigits v). d < 128)
     \<and> int (digits_value (sdigits v)) = v mod 2 ^ (7 * length (sdigits v))
     \<and> (64 \<le> last (sdigits v) \<longleftrightarrow> v < 0)"
proof (induction v rule: sdigits.induct)
  case (1 v)
  show ?case
  proof (cases "- 64 \<le> v \<and> v < 64")
    case True
    have "v mod 128 < 128" "0 \<le> v mod 128" by simp_all
    moreover have "64 \<le> v mod 128 \<longleftrightarrow> v < 0"
    proof (cases "v < 0")
      case True
      then have "v mod 128 = v + 128" using \<open>- 64 \<le> v \<and> v < 64\<close>
        using mod_pos_pos_trivial [of "v + 128" 128] by simp
      then show ?thesis using True \<open>- 64 \<le> v \<and> v < 64\<close> by simp
    next
      case False
      then show ?thesis using \<open>- 64 \<le> v \<and> v < 64\<close> by simp
    qed
    ultimately show ?thesis using True by (simp add: sdigits.simps [of v] nat_less_iff le_nat_iff)
  next
    case False
    let ?ds = "sdigits (v div 128)"
    note IH = 1 [OF False]
    have "v mod 2 ^ (7 * Suc (length ?ds)) = v mod 128 + 128 * (v div 128 mod 2 ^ (7 * length ?ds))"
      using mod_mult2_eq' [of v 128 "2 ^ (7 * length ?ds)"] by (simp add: power_add)
    moreover have "v mod 128 < 128" "0 \<le> v mod 128" by simp_all
    moreover have "v div 128 < 0 \<longleftrightarrow> v < 0" by presburger
    ultimately show ?thesis using IH False
      by (auto simp: sdigits.simps [of v] nat_less_iff)
  qed
qed

lemma sdigits_range:
  "- (64 * 128 ^ (length (sdigits v) - 1)) \<le> v \<and> v < 64 * 128 ^ (length (sdigits v) - 1)
   \<and> (length (sdigits v) > 1 \<longrightarrow> v < - (64 * 128 ^ (length (sdigits v) - 2))
        \<or> 64 * 128 ^ (length (sdigits v) - 2) \<le> v)"
proof (induction v rule: sdigits.induct)
  case (1 v)
  show ?case
  proof (cases "- 64 \<le> v \<and> v < 64")
    case True
    then show ?thesis by (simp add: sdigits.simps [of v])
  next
    case False
    note IH = 1 [OF False]
    obtain k where k: "length (sdigits (v div 128)) = Suc k"
      using sdigits_props [of "v div 128"] by (cases "sdigits (v div 128)") auto
    have len: "length (sdigits v) = Suc (Suc k)" using False k by (simp add: sdigits.simps [of v])
    have b: "- (64 * 128 ^ k) \<le> v div 128" "v div 128 < 64 * 128 ^ k"
      using IH k by simp_all
    have "- (64 * 128 ^ Suc k) \<le> v" "v < 64 * 128 ^ Suc k" using b by auto
    moreover have "v < - (64 * 128 ^ k) \<or> 64 * 128 ^ k \<le> v"
    proof (cases k)
      case 0
      then show ?thesis using False by auto
    next
      case (Suc j)
      then have "v div 128 < - (64 * 128 ^ j) \<or> 64 * 128 ^ j \<le> v div 128" using IH k by simp
      then show ?thesis using Suc by auto
    qed
    ultimately show ?thesis by (simp add: len)
  qed
qed


lemma sign_extension:
  assumes "t \<in> {7, 14, 21, 28}" "u < 2 ^ t"
  shows "(of_nat u :: 64 word) OR scast (push_bit t (- 1 :: 32 word)) = of_int (int u - 2 ^ t)"
proof -
  have "(scast (push_bit t (- 1 :: 32 word)) :: 64 word) = - (2 ^ t)"
    using assms(1) by (auto simp: push_bit_eq_mult simp del: push_bit_minus_one_eq_not_mask)
  also have "\<dots> = push_bit t (- 1)" by (simp add: push_bit_eq_mult)
  finally have s: "(scast (push_bit t (- 1 :: 32 word)) :: 64 word) = push_bit t (- 1)" .
  have "\<not> bit u n" if "t \<le> n" for n
    using assms(2) that by (metis bit_take_bit_iff linorder_not_less take_bit_nat_eq_self_iff)
  then have "(of_nat u :: 64 word) + push_bit t (- 1) = of_nat u OR push_bit t (- 1)"
    by (intro disjunctive_add)
      (auto simp: bit_of_nat_iff bit_push_bit_iff simp del: push_bit_minus_one_eq_not_mask
        intro: leI)
  then show ?thesis unfolding s by (simp add: push_bit_eq_mult)
qed

lemma last_bit6:
  assumes "d < 128"
  shows "(of_nat d :: 8 word) AND 0x40 \<noteq> 0 \<longleftrightarrow> 64 \<le> d"
proof -
  have "odd (d div 64) \<longleftrightarrow> 64 \<le> d"
  proof -
    have "d div 64 = (if 64 \<le> d then 1 else 0)" using assms by (auto simp: div_nat_eqI)
    then show ?thesis by simp
  qed
  then show ?thesis using byte_bit [of 6 "of_nat d"] assms by (simp add: unat_byte)
qed

lemma readSLEB128_sleb:
  assumes "holds_at mem p (sleb v)" "- (2 ^ 27) \<le> v" "v < 2 ^ 31"
  shows "readSLEB128 mem p = Inr (of_int v, p + of_nat (length (sleb v)))"
proof -
  let ?ds = "sdigits v"
  let ?L = "length ?ds"
  note props = sdigits_props [of v] and range = sdigits_range [of v]
  have pos: "?L \<ge> 1" using props by (cases ?ds) auto
  have last: "last ?ds < 128" using props last_in_set by blast
  have bit: "(of_nat (last ?ds) :: 8 word) AND 0x40 \<noteq> 0 \<longleftrightarrow> v < 0"
    using last_bit6 [OF last] props by simp
  have loop: "leb_loop mem p 0 0 = Inr (of_nat (digits_value ?ds), 7 * ?L, of_nat (last ?ds), p + of_nat ?L)"
    if "digits_value ?ds < 2 ^ 31" "7 * (?L - 1) < 32"
    using leb_loop_digits [of ?ds mem p 0 0] props assms(1) that by (simp add: sleb_def)
  show ?thesis
  proof (cases "v < 0")
    case True
    have L: "?L \<le> 4"
    proof (rule ccontr)
      assume "\<not> ?L \<le> 4"
      then have "(128::int) ^ 3 \<le> 128 ^ (?L - 2)" by (intro power_increasing) auto
      moreover have "v < - (64 * 128 ^ (?L - 2)) \<or> 64 * 128 ^ (?L - 2) \<le> v"
        using range \<open>\<not> ?L \<le> 4\<close> by simp
      ultimately show False using assms(2) True by simp
    qed
    have t: "7 * ?L \<in> {7, 14, 21, 28}" using L pos by auto
    have "64 * 128 ^ (?L - 1) * 2 = (2::int) ^ (7 * ?L)"
      using pos by (cases ?L) (simp_all add: power_mult power_add)
    then have "v mod 2 ^ (7 * ?L) = v + 2 ^ (7 * ?L)"
      using range True mod_pos_pos_trivial [of "v + 2 ^ (7 * ?L)" "2 ^ (7 * ?L)"] by simp
    then have val: "int (digits_value ?ds) = v + 2 ^ (7 * ?L)" using props by simp
    then have lt: "digits_value ?ds < 2 ^ (7 * ?L)" using True by (simp flip: of_nat_less_iff [where 'a = int])
    also have "(2::nat) ^ (7 * ?L) \<le> 2 ^ 28" using L by (intro power_increasing) auto
    finally have "digits_value ?ds < 2 ^ 31" by simp
    from loop [OF this] L have "leb_loop mem p 0 0 =
        Inr (of_nat (digits_value ?ds), 7 * ?L, of_nat (last ?ds), p + of_nat ?L)" by simp
    moreover have "(of_nat (digits_value ?ds) :: 64 word) OR scast (push_bit (7 * ?L) (- 1 :: 32 word))
        = of_int v"
      using sign_extension [OF t lt] val by simp
    moreover have "7 * ?L < 32" using L by simp
    ultimately show ?thesis
      using bit True by (simp add: readSLEB128_def sleb_def)
  next
    case False
    have L: "?L \<le> 5"
    proof (rule ccontr)
      assume "\<not> ?L \<le> 5"
      then have "(128::int) ^ 4 \<le> 128 ^ (?L - 2)" by (intro power_increasing) auto
      moreover have "v < - (64 * 128 ^ (?L - 2)) \<or> 64 * 128 ^ (?L - 2) \<le> v"
        using range \<open>\<not> ?L \<le> 5\<close> by simp
      ultimately show False using assms(3) False by simp
    qed
    have "64 * 128 ^ (?L - 1) * 2 = (2::int) ^ (7 * ?L)"
      using pos by (cases ?L) (simp_all add: power_mult power_add)
    then have "v mod 2 ^ (7 * ?L) = v"
      using range False mod_pos_pos_trivial [of v "2 ^ (7 * ?L)"] by simp
    then have val: "int (digits_value ?ds) = v" using props by simp
    then have "digits_value ?ds < 2 ^ 31" using assms(3) by simp
    from loop [OF this] L have "leb_loop mem p 0 0 =
        Inr (of_nat (digits_value ?ds), 7 * ?L, of_nat (last ?ds), p + of_nat ?L)" by simp
    moreover have "(of_nat (digits_value ?ds) :: 64 word) = of_int v"
      by (metis val of_int_of_nat_eq)
    ultimately show ?thesis
      using bit False by (simp add: readSLEB128_def sleb_def)
  qed
qed


section \<open>Exception classes\<close>

definition big_endian :: "8 word list \<Rightarrow> nat" where
  "big_endian cs = foldl (\<lambda>a c. a * 256 + unat c) 0 cs"

lemma big_endian_snoc: "big_endian (cs @ [c]) = big_endian cs * 256 + unat c"
  by (simp add: big_endian_def)

lemma byte_less: "unat (c :: 8 word) < 256"
  by (rule order_less_le_trans [OF unsigned_less]) simp

lemma big_endian_less: "big_endian cs < 256 ^ length cs"
proof (induction cs rule: rev_induct)
  case (snoc c cs)
  have "unat c < 256" by (rule byte_less)
  then show ?case using snoc by (simp add: big_endian_snoc)
qed (simp add: big_endian_def)

lemma big_endian_inject: "length cs = length ds \<Longrightarrow> big_endian cs = big_endian ds \<Longrightarrow> cs = ds"
proof (induction cs arbitrary: ds rule: rev_induct)
  case (snoc c cs)
  then obtain d ds' where ds: "ds = ds' @ [d]" by (cases ds rule: rev_cases) auto
  have lt: "unat c < 256" "unat d < 256" by (rule byte_less)+
  have eq: "big_endian cs * 256 + unat c = big_endian ds' * 256 + unat d"
    using snoc.prems(2) by (simp add: ds big_endian_snoc)
  have "big_endian cs = big_endian ds'"
    using arg_cong [OF eq, of "\<lambda>x. x div 256"] lt by simp
  moreover from this have "c = d" using eq by (intro unsigned_word_eqI) simp
  ultimately show ?case using snoc ds by simp
qed simp

lemma genClass_fold:
  "foldl (\<lambda>ret c. push_bit 8 ret + ucast c) (of_nat a) cs
     = (of_nat (foldl (\<lambda>a c. a * 256 + unat c) a cs) :: 64 word)"
proof (induction cs arbitrary: a)
  case (Cons c cs)
  have "push_bit 8 (of_nat a) + ucast c = (of_nat (a * 256 + unat c) :: 64 word)"
    by (simp add: push_bit_eq_mult)
  then show ?case using Cons [of "a * 256 + unat c"] by simp
qed simp

lemma genClass_big_endian: "cs \<noteq> [] \<Longrightarrow> genClass cs = of_nat (big_endian cs)"
  using genClass_fold [of "unat (hd cs)" "tl cs"]
  by (cases cs) (simp_all add: genClass_def big_endian_def)

section \<open>Chains of actions\<close>

text \<open>
  The chain of action records that starts at an address: a cleanup, or a handler with the type
  its entry of the type table holds. Each record but the last gives the distance to the next.
\<close>

fun actions_at :: "memory \<Rightarrow> 8 word \<Rightarrow> addr \<Rightarrow> addr \<Rightarrow> 32 word option list \<Rightarrow> bool" where
  "actions_at mem enc ci p [] = False"
| "actions_at mem enc ci p (e # es) =
     (\<exists>to p1 ao p2. readSLEB128 mem p = Inr (to, p1) \<and> readSLEB128 mem p1 = Inr (ao, p2)
       \<and> (case e of None \<Rightarrow> to = 0 | Some t \<Rightarrow> 0 < sint to \<and> entry_type mem enc ci to = Inr t)
       \<and> (if es = [] then ao = 0 else ao \<noteq> 0 \<and> actions_at mem enc ci (p1 + ao) es))"

primrec first_match :: "32 word \<Rightarrow> 32 word option list \<Rightarrow> int \<Rightarrow> int option" where
  "first_match ty [] i = None"
| "first_match ty (e # es) i = (if e = Some ty then Some (i + 1) else first_match ty es (i + 1))"

lemma action_loop_first_match:
  "actions_at mem enc ci p es \<Longrightarrow> length es \<le> k
     \<Longrightarrow> action_loop k mem enc ci ty i p = Some (Inr (first_match ty es i))"
proof (induction es arbitrary: k p i)
  case (Cons e es)
  then obtain to p1 ao p2 where r: "readSLEB128 mem p = Inr (to, p1)" "readSLEB128 mem p1 = Inr (ao, p2)"
    "case e of None \<Rightarrow> to = 0 | Some t \<Rightarrow> 0 < sint to \<and> entry_type mem enc ci to = Inr t"
    "if es = [] then ao = 0 else ao \<noteq> 0 \<and> actions_at mem enc ci (p1 + ao) es"
    by auto
  obtain j where k: "k = Suc j" "length es \<le> j" using Cons.prems(2) by (cases k) auto
  have round: "action_round mem enc ci ty i p = Inr (if e = Some ty then Inl (Some (i + 1))
      else if es = [] then Inl None else Inr (p1 + ao))"
    using r by (cases e) (auto simp: action_round_def split: if_splits)
  show ?case
  proof (cases "e = Some ty \<or> es = []")
    case True
    then show ?thesis using round k by auto
  next
    case False
    then show ?thesis using round k Cons.IH [of "p1 + ao" j "i + 1"] r(4) by simp
  qed
qed simp

section \<open>The two phases\<close>

lemma action_loop_index:
  "action_loop k mem enc ci ty i p = Some (Inr (Some n)) \<Longrightarrow> i < n"
proof (induction k arbitrary: i p)
  case (Suc k)
  show ?case
  proof (cases "action_round mem enc ci ty i p")
    case (Inr r)
    show ?thesis
    proof (cases r)
      case (Inl a)
      have "a = Some n" using Suc.prems Inr Inl by simp
      then show ?thesis using Inr Inl
        by (auto simp: action_round_def res_simps split: if_splits)
    next
      case (Inr p')
      then show ?thesis using Suc.prems Suc.IH [of "i + 1" p'] \<open>action_round _ _ _ _ _ _ = _\<close> by simp
    qed
  qed (use Suc.prems in simp)
qed simp

definition installed :: "unwind_context \<Rightarrow> addr \<Rightarrow> int \<Rightarrow> addr \<Rightarrow> unwind_context" where
  "installed ctx eo n pad = ctx\<lparr>gr0 := Some eo, gr1 := Some (of_int n),
     new_ip := Some (region_start ctx + pad)\<rparr>"

lemma handler_at_call_site:
  assumes "at_call_site k mem off h cs s ec eo ctx = Some (Inr (URC_HANDLER_FOUND, ctx'))"
    and "s AND SEARCH_PHASE \<noteq> 0" and c: "c AND SEARCH_PHASE = 0"
  shows "ctx' = ctx \<and> (\<exists>n>0. at_call_site k mem off h cs c ec eo ctx
     = Some (Inr (URC_INSTALL_CONTEXT, installed ctx eo n (cs_landingPad cs))))"
proof -
  let ?e = "if ec \<noteq> exception_class then 0 else cs_action cs"
  let ?entry = "if ?e \<noteq> 0 then ?e + callSiteTableEnd h - 1 else 0"
  from assms(1,2) obtain n where e: "?entry \<noteq> 0" "ctx' = ctx"
    "handleActionValue k mem off (ttypeEncoding h) (classInfo h) ?entry ec eo = Some (Inr (Some n))"
    by (auto simp: at_call_site_def Let_def split: if_splits option.splits sum.splits)
  have "n > 0"
    using e(3) action_loop_index by (auto simp: handleActionValue_def Let_def split: if_splits)
  moreover have "at_call_site k mem off h cs c ec eo ctx
     = Some (Inr (URC_INSTALL_CONTEXT, installed ctx eo n (cs_landingPad cs)))"
    using e c by (simp add: at_call_site_def Let_def install_def installed_def)
  ultimately show ?thesis using e(2) by blast
qed

lemma handler_call_site_loop:
  assumes "call_site_loop k mem off h p s ec eo ctx = Some (Inr (URC_HANDLER_FOUND, ctx'))"
    and "s AND SEARCH_PHASE \<noteq> 0" and "c AND SEARCH_PHASE = 0"
  shows "ctx' = ctx \<and> (\<exists>n>0. \<exists>pad. pad \<noteq> 0 \<and> call_site_loop k mem off h p c ec eo ctx
     = Some (Inr (URC_INSTALL_CONTEXT, installed ctx eo n pad)))"
  using assms(1)
proof (induction k arbitrary: p)
  case (Suc k)
  then obtain cs p' where *: "p < callSiteTableEnd h"
    "read_call_site mem (callSiteEncoding h) p = Inr (cs, p')"
    by (auto split: if_splits sum.splits)
  show ?case
  proof (cases "cs_landingPad cs \<noteq> 0 \<and> covers_pc cs (get_ip ctx - 1 - region_start ctx)")
    case True
    then have "at_call_site k mem off h cs s ec eo ctx = Some (Inr (URC_HANDLER_FOUND, ctx'))"
      using Suc.prems * by simp
    from handler_at_call_site [OF this assms(2,3)] show ?thesis using True * by auto
  next
    case False
    then have step: "call_site_loop (Suc k) mem off h p a ec eo ctx
        = call_site_loop k mem off h p' a ec eo ctx" for a
      using * by auto
    have "call_site_loop k mem off h p' s ec eo ctx = Some (Inr (URC_HANDLER_FOUND, ctx'))"
      using step [of s] Suc.prems by (rule trans [OF sym])
    from Suc.IH [OF this] show ?thesis unfolding step .
  qed
qed simp

section \<open>Properties\<close>

text \<open>
  C10. The unsigned reader inverts the standard encoding for every number below \<open>2 ^ 31\<close>, and
  moves the position past the encoding.
\<close>

theorem uleb128_roundtrip:
  assumes "holds_at mem p (uleb n)" and "n < 2 ^ 31"
  shows "readULEB128 mem p = Inr (of_nat n, p + of_nat (length (uleb n)))"
  using assms by (rule readULEB128_uleb)

text \<open>A memory that holds a list of bytes from address 0 on.\<close>

definition memory_of :: "8 word list \<Rightarrow> memory" where
  "memory_of bs a = (if unat a < length bs then bs ! unat a else 0)"

theorem uleb128_roundtrip_witness:
  "readULEB128 (memory_of [0xE5, 0x8E, 0x26]) 0 = Inr (624485, 3)"
proof -
  have "uleb 624485 = [0xE5, 0x8E, 0x26]"
    by (simp add: uleb_def udigits.simps)
  moreover have "holds_at (memory_of [0xE5, 0x8E, 0x26]) 0 [0xE5, 0x8E, 0x26]"
    by (simp add: memory_of_def)
  ultimately show ?thesis
    using uleb128_roundtrip [of "memory_of [0xE5, 0x8E, 0x26]" 0 624485] by simp
qed

text \<open>
  The signed reader inverts the standard encoding from \<open>- (2 ^ 27)\<close> up to \<open>2 ^ 31 - 1\<close>.
\<close>

theorem sleb128_roundtrip:
  assumes "holds_at mem p (sleb v)" and "- (2 ^ 27) \<le> v" and "v < 2 ^ 31"
  shows "readSLEB128 mem p = Inr (of_int v, p + of_nat (length (sleb v)))"
  using assms by (rule readSLEB128_sleb)

theorem sleb128_roundtrip_witness:
  "readSLEB128 (memory_of [0x80, 0x7F]) 0 = Inr (- 128, 2)"
proof -
  have "sleb (- 128) = [0x80, 0x7F]"
    by (simp add: sleb_def sdigits.simps)
  moreover have "holds_at (memory_of [0x80, 0x7F]) 0 [0x80, 0x7F]"
    by (simp add: memory_of_def)
  ultimately show ?thesis
    using sleb128_roundtrip [of "memory_of [0x80, 0x7F]" 0 "- 128"] by simp
qed

text \<open>
  The bounds are sharp: the digits are shifted as 32 bit integers, so the encoding of
  \<open>2 ^ 31\<close> is read as a sign extended number, that of \<open>2 ^ 32\<close> overflows the shift, and the
  sign extension of \<open>- (2 ^ 27) - 1\<close> shifts by more than the width. The standard encoding of
  each is well formed and its value fits the 64 bit result.
\<close>

theorem leb128_bounds_sharp:
  "readULEB128 (memory_of (uleb (2 ^ 31))) 0 = Inr (0xFFFFFFFF80000000, 5)
   \<and> readULEB128 (memory_of (uleb (2 ^ 32))) 0 = Inl (Undefined ''shift overflow'')
   \<and> readSLEB128 (memory_of (sleb (- (2 ^ 27) - 1))) 0 = Inl (Undefined ''shift overflow'')"
proof -
  have e: "uleb (2 ^ 31) = [0x80, 0x80, 0x80, 0x80, 8]" "uleb (2 ^ 32) = [0x80, 0x80, 0x80, 0x80, 16]"
    "sleb (- (2 ^ 27) - 1) = [0xFF, 0xFF, 0xFF, 0xBF, 0x7F]"
    by (simp_all add: uleb_def udigits.simps sleb_def sdigits.simps)
  show ?thesis
    unfolding e by (simp add: readULEB128_def readSLEB128_def leb_loop.simps shifted_bits_def
        memory_of_def push_bit_eq_mult)
qed

text \<open>
  The class of an exception determines the characters it was generated from, up to the
  eight that fit: two sequences of the same length, of at most eight characters, with the same
  class are equal.
\<close>

theorem genClass_inject:
  assumes "genClass cs = genClass ds" and "length cs = length ds" and "length cs \<le> 8" and "cs \<noteq> []"
  shows "cs = ds"
proof -
  have "(256::nat) ^ length cs \<le> 256 ^ 8" using assms(3) by (intro power_increasing) simp_all
  then have "big_endian cs < 2 ^ 64" "big_endian ds < 2 ^ 64"
    using big_endian_less [of cs] big_endian_less [of ds] assms(2) by simp_all
  moreover have "(of_nat (big_endian cs) :: 64 word) = of_nat (big_endian ds)"
    using assms genClass_big_endian by (metis length_0_conv)
  then have "unat (of_nat (big_endian cs) :: 64 word) = unat (of_nat (big_endian ds) :: 64 word)"
    by (simp only:)
  ultimately have "big_endian cs = big_endian ds"
    by (simp add: unat_of_nat)
  then show ?thesis using big_endian_inject assms(2) by blast
qed

theorem genClass_inject_witness:
  "genClass [0x6F, 0x62] \<noteq> genClass [0x6F, 0x63]"
  using genClass_inject [of "[0x6F, 0x62]" "[0x6F, 0x63]"] by auto

text \<open>
  Matching an action: for an exception of this runtime, whose type is at the start of its
  object, the search along a chain of action records answers with one plus the position of the
  first handler for that type, and with no match when there is none; cleanup records are passed
  over. Fuel for the length of the chain is enough.
\<close>

theorem handleActionValue_first_match:
  assumes "actions_at mem enc ci p es" and "length es \<le> k" and "eo \<noteq> 0"
  shows "handleActionValue k mem off enc ci p exception_class eo
    = Some (Inr (first_match (read32 mem (eo + of_int off)) es 0))"
  using action_loop_first_match [OF assms(1,2)] assms(3)
  by (simp add: handleActionValue_def Let_def)

text \<open>
  Example tables: an exception object of type 7 at address 1, a data area at 5 with one call
  site (offsets 0 to 15, landing pad 64, action 1), its action record at 23 and a type table
  that ends at 29, whose entry points to a type info 7.
\<close>

definition example_memory :: memory where
  "example_memory = memory_of
     [0, 7, 0, 0, 0,
      0xFF, 3, 21, 3, 13,
      0, 0, 0, 0, 16, 0, 0, 0, 64, 0, 0, 0, 1,
      1, 0,
      1, 0, 0, 0]"

lemma read32_bytes:
  "read32 mem p = of_nat (unat (mem p) + 256 * (unat (mem (p + 1)) + 256 * (unat (mem (p + 2))
     + 256 * unat (mem (p + 3)))))"
proof -
  have four: "(4::nat) = Suc (Suc (Suc (Suc 0)))" by simp
  show ?thesis unfolding read32_def four by (simp add: add.assoc)
qed

lemma example_reads:
  "readSLEB128 example_memory 23 = Inr (1, 24)" "readSLEB128 example_memory 24 = Inr (0, 25)"
  "readEncodedPointer example_memory 25 3 = Inr (1, 29)" "read32 example_memory 1 = 7"
  by (simp_all add: readSLEB128_def leb_loop.simps shifted_bits_def example_memory_def
      memory_of_def readEncodedPointer_def encoded_value_def read32_bytes
      DW_EH_PE_omit_def DW_EH_PE_indirect_def)

theorem handleActionValue_first_match_witness:
  "handleActionValue 1 example_memory 0 3 29 23 exception_class 1 = Some (Inr (Some 1))"
proof -
  have "entry_type example_memory 3 29 1 = Inr 7"
    by (simp add: entry_type_def getEncodingSize_def DW_EH_PE_omit_def example_reads)
  then have "actions_at example_memory 3 29 23 [Some 7]"
    by (simp add: example_reads)
  from handleActionValue_first_match [OF this, of 1 1 0] show ?thesis
    by (simp add: example_reads)
qed

text \<open>
  C11. The two phases agree: when the search phase reports a handler it has not touched the
  context, and the cleanup phase on the same tables installs a landing pad: it passes the
  exception and a positive selector in the registers and sets the instruction pointer to the
  landing pad.
\<close>

theorem personality_phases_agree:
  assumes "ourPersonality k mem off lsda s ec eo ctx = Some (Inr (URC_HANDLER_FOUND, ctx'))"
    and "s AND SEARCH_PHASE \<noteq> 0" and "c AND SEARCH_PHASE = 0"
  shows "ctx' = ctx \<and> (\<exists>n>0. \<exists>pad. pad \<noteq> 0 \<and> ourPersonality k mem off lsda c ec eo ctx
    = Some (Inr (URC_INSTALL_CONTEXT, installed ctx eo n pad)))"
  using assms handler_call_site_loop [OF _ assms(2,3)]
  by (auto simp: ourPersonality_def handleLsda_def split: if_splits sum.splits)


definition example_context :: unwind_context where
  "example_context = \<lparr>get_ip = 101, region_start = 96, gr0 = None, gr1 = None, new_ip = None\<rparr>"

lemma example_search:
  "ourPersonality (Suc 1) example_memory 0 5 1 exception_class 1 example_context
     = Some (Inr (URC_HANDLER_FOUND, example_context))"
proof -
  have header: "read_header example_memory 5 = Inr \<lparr>classInfo = 29, ttypeEncoding = 3,
      callSiteEncoding = 3, callSiteTableStart = 10, callSiteTableEnd = 23\<rparr>"
    by (simp add: read_header_def readULEB128_def leb_loop.simps shifted_bits_def
        example_memory_def memory_of_def DW_EH_PE_omit_def)
  have site: "read_call_site example_memory 3 10
      = Inr (\<lparr>cs_start = 0, cs_length = 16, cs_landingPad = 64, cs_action = 1\<rparr>, 23)"
    by (simp add: read_call_site_def readEncodedPointer_def encoded_value_def read32_bytes
        readULEB128_def leb_loop.simps shifted_bits_def
        example_memory_def memory_of_def DW_EH_PE_omit_def DW_EH_PE_indirect_def)
  have entry: "entry_type example_memory 3 29 1 = Inr 7"
    by (simp add: entry_type_def getEncodingSize_def DW_EH_PE_omit_def example_reads)
  have act: "handleActionValue 1 example_memory 0 3 29 23 exception_class 1 = Some (Inr (Some 1))"
    using entry by (simp add: handleActionValue_def action_round_def example_reads)
  show ?thesis
    using act by (simp add: ourPersonality_def handleLsda_def header site
        covers_pc_def example_context_def at_call_site_def SEARCH_PHASE_def)
qed

theorem personality_phases_agree_witness:
  "\<exists>n>0. \<exists>pad. ourPersonality (Suc 1) example_memory 0 5 2 exception_class 1 example_context
     = Some (Inr (URC_INSTALL_CONTEXT, installed example_context 1 n pad))"
  using personality_phases_agree [OF example_search, of 2] by (auto simp: SEARCH_PHASE_def)

end
