(* ===== verification/Types.thy ===== *)
theory Types
  imports Prelude Operators Ast "HOL-Library.Signed_Division"
begin

text \<open>
  The type objects of the compiler (\<^verbatim>\<open>src/ast/types/\<close>): the class hierarchy as one
  datatype, type equality, names and mangled names, casts, sizes and alignments.

  A \<^verbatim>\<open>Type*\<close> is the object it points to. The members of a class, enum or interface type that
  later passes fill in (fields, parent, virtual table) live in a heap of class objects, which
  a type names by location: two types with one location are one C++ object, and a class can
  hold a pointer to itself. Of a field's declaration the initial value is kept, of a static field the
  number of its variable. Source positions and the names for messages (\<^verbatim>\<open>getPrettyName\<close>) are not modelled.
\<close>

section \<open>Decimal numerals\<close>

text \<open>\<^verbatim>\<open>std::to_string\<close> and the stream output of an integer.\<close>

definition digit_char :: "nat \<Rightarrow> char" where
  "digit_char d = char_of (48 + d)"

fun nat_to_string :: "nat \<Rightarrow> string" where
  "nat_to_string n = (if n < 10 then [digit_char n] else nat_to_string (n div 10) @ [digit_char (n mod 10)])"

declare nat_to_string.simps [simp del]

definition to_string :: "int \<Rightarrow> string" where
  "to_string i = (if i < 0 then ''-'' @ nat_to_string (nat (- i)) else nat_to_string (nat i))"

text \<open>\<^verbatim>\<open>isdigit\<close>, and the number a sequence of digits stands for.\<close>

definition is_digit :: "char \<Rightarrow> bool" where
  "is_digit c \<longleftrightarrow> 48 \<le> (of_char c :: nat) \<and> (of_char c :: nat) \<le> 57"

definition decimal_value :: "string \<Rightarrow> nat" where
  "decimal_value s = foldl (\<lambda>v c. v * 10 + (of_char c - 48)) 0 s"

lemma digit_char_facts: "d < 10 \<Longrightarrow> is_digit (digit_char d) \<and> (of_char (digit_char d) :: nat) - 48 = d"
  by (simp add: is_digit_def digit_char_def)

lemma nat_to_string_facts:
  "list_all is_digit (nat_to_string n) \<and> nat_to_string n \<noteq> [] \<and> decimal_value (nat_to_string n) = n"
proof (induction n rule: nat_to_string.induct)
  case (1 n)
  show ?case
  proof (cases "n < 10")
    case True
    then show ?thesis
      by (subst (1 2 3) nat_to_string.simps) (simp add: digit_char_facts decimal_value_def)
  next
    case False
    then show ?thesis
      using 1 by (subst (1 2 3) nat_to_string.simps) (simp add: digit_char_facts decimal_value_def)
  qed
qed

section \<open>Type objects\<close>

text \<open>\<^verbatim>\<open>ir::Module\<close>, as far as types use it.\<close>

record ir_module =
  mod_name :: string
  uniqueName :: string

definition new_Module :: "string \<Rightarrow> string \<Rightarrow> ir_module" where
  "new_Module name uuid = \<lparr>mod_name = name, uniqueName = (if uuid = [] then name else uuid)\<rparr>"

text \<open>The members a \<^verbatim>\<open>BaseType\<close> gets when it is built, and the number of its \<^verbatim>\<open>IdMixin\<close>.\<close>

record base_info =
  bt_name :: string
  uuid :: string
  bt_module :: ir_module
  bt_id :: nat

text \<open>
  The first argument of every constructor is \<^verbatim>\<open>_mutable\<close>. A list of types after a
  \<open>base_info\<close> holds the generics, the number after it is the location of the object.
\<close>

datatype ty =
    VoidTy bool
  | FloatTy bool int
  | IntTy bool int bool
  | PointerTy bool ty
  | ReferenceTy bool ty
  | FunctionTy bool string "ty list" ty bool
  | TypeAliasTy bool base_info "ty list" ty
  | EnumTy bool base_info "ty list" nat
  | DefinedTy bool base_info "ty list" nat
  | InterfaceTy bool base_info "ty list" nat

text \<open>\<^verbatim>\<open>DefinedType::ClassField\<close> and \<^verbatim>\<open>InterfaceType::Member\<close> (whose kind is \<open>is_method\<close>).\<close>

record class_field =
  cf_name :: string
  cf_type :: ty
  cf_public :: bool
  cf_mutable :: bool
  cf_value :: "node option"
  is_method :: bool

record class_obj =
  cls_fields :: "class_field list"
  enum_fields :: "(string \<times> ty list) list"
  cls_parent :: "ty option"
  isStruct :: bool
  hasVtable :: bool
  classVtable :: "nat list"
  hasConstructor :: bool
  defaultGenerics :: "ty list"
  defaultGenericStart :: nat
  impls :: "ty list"
  staticFields :: "nat list"
  cls_ast :: "node option"
  obj_privacy :: Privacy

text \<open>The class objects, the next free location and the counter of \<^verbatim>\<open>IdMixin\<close>.\<close>

record type_heap =
  objs :: "nat \<Rightarrow> class_obj option"
  nextLoc :: nat
  currentId :: nat

definition empty_heap :: type_heap where
  "empty_heap = \<lparr>objs = (\<lambda>_. None), nextLoc = 0, currentId = 0\<rparr>"

definition empty_class :: class_obj where
  "empty_class = \<lparr>cls_fields = [], enum_fields = [], cls_parent = None, isStruct = False,
     hasVtable = False, classVtable = [], hasConstructor = False, defaultGenerics = [],
     defaultGenericStart = 0, impls = [], staticFields = [], cls_ast = None, obj_privacy = PRIVATE\<rparr>"

subsection \<open>Construction, copies and updates\<close>

definition alloc :: "class_obj \<Rightarrow> type_heap \<Rightarrow> nat \<times> type_heap" where
  "alloc c h = (nextLoc h, h\<lparr>objs := (objs h)(nextLoc h \<mapsto> c), nextLoc := nextLoc h + 1\<rparr>)"

definition fresh_id :: "type_heap \<Rightarrow> nat \<times> type_heap" where
  "fresh_id h = (currentId h, h\<lparr>currentId := currentId h + 1\<rparr>)"

definition new_DefinedType :: "string \<Rightarrow> string \<Rightarrow> ir_module \<Rightarrow> class_field list \<Rightarrow> ty option \<Rightarrow> ty list
    \<Rightarrow> bool \<Rightarrow> type_heap \<Rightarrow> ty \<times> type_heap" where
  "new_DefinedType name u m fs parent generics is_struct h =
     (let (i, h1) = fresh_id h;
          (l, h2) = alloc (empty_class\<lparr>cls_fields := fs, cls_parent := parent, isStruct := is_struct\<rparr>) h1
      in (DefinedTy True \<lparr>bt_name = name, uuid = u, bt_module = m, bt_id = i\<rparr> generics l, h2))"

definition new_EnumType :: "string \<Rightarrow> string \<Rightarrow> ir_module \<Rightarrow> type_heap \<Rightarrow> ty \<times> type_heap" where
  "new_EnumType name u m h =
     (let (i, h1) = fresh_id h; (l, h2) = alloc empty_class h1
      in (EnumTy False \<lparr>bt_name = name, uuid = u, bt_module = m, bt_id = i\<rparr> [] l, h2))"

definition new_InterfaceType :: "string \<Rightarrow> string \<Rightarrow> ir_module \<Rightarrow> class_field list \<Rightarrow> ty list
    \<Rightarrow> type_heap \<Rightarrow> ty \<times> type_heap" where
  "new_InterfaceType name u m fs generics h =
     (let (i, h1) = fresh_id h; (l, h2) = alloc (empty_class\<lparr>cls_fields := fs\<rparr>) h1
      in (InterfaceTy False \<lparr>bt_name = name, uuid = u, bt_module = m, bt_id = i\<rparr> generics l, h2))"

text \<open>\<^verbatim>\<open>createTypeAlias\<close> after its constructor: the alias takes the mutability of its base.\<close>

fun isMutable :: "ty \<Rightarrow> bool" where
  "isMutable (VoidTy m) = m"
| "isMutable (FloatTy m _) = m"
| "isMutable (IntTy m _ _) = m"
| "isMutable (PointerTy m _) = m"
| "isMutable (ReferenceTy m _) = m"
| "isMutable (FunctionTy m _ _ _ _) = m"
| "isMutable (TypeAliasTy m _ _ _) = m"
| "isMutable (EnumTy m _ _ _) = m"
| "isMutable (DefinedTy m _ _ _) = m"
| "isMutable (InterfaceTy m _ _ _) = m"

definition new_TypeAlias :: "string \<Rightarrow> ty \<Rightarrow> ir_module \<Rightarrow> type_heap \<Rightarrow> ty \<times> type_heap" where
  "new_TypeAlias name base m h =
     (let (i, h1) = fresh_id h
      in (TypeAliasTy (isMutable base) \<lparr>bt_name = name, uuid = [], bt_module = m, bt_id = i\<rparr> [] base, h1))"

text \<open>\<^verbatim>\<open>setMutable\<close>: a class type ignores it, its constructor made it mutable for good.\<close>

fun setMutable :: "bool \<Rightarrow> ty \<Rightarrow> ty" where
  "setMutable m (VoidTy _) = VoidTy m"
| "setMutable m (FloatTy _ b) = FloatTy m b"
| "setMutable m (IntTy _ b s) = IntTy m b s"
| "setMutable m (PointerTy _ b) = PointerTy m b"
| "setMutable m (ReferenceTy _ b) = ReferenceTy m b"
| "setMutable m (FunctionTy _ n as r v) = FunctionTy m n as r v"
| "setMutable m (TypeAliasTy _ i gs b) = TypeAliasTy m i gs b"
| "setMutable m (EnumTy _ i gs l) = EnumTy m i gs l"
| "setMutable m (DefinedTy m' i gs l) = DefinedTy m' i gs l"
| "setMutable m (InterfaceTy _ i gs l) = InterfaceTy m i gs l"

text \<open>
  \<^verbatim>\<open>copy\<close>: a copied class object is a new object with the members and the number of the old
  one; the objects a type points to are shared.
\<close>

definition copy_obj :: "nat \<Rightarrow> type_heap \<Rightarrow> nat \<times> type_heap" where
  "copy_obj l h = (nextLoc h, h\<lparr>objs := (objs h)(nextLoc h := objs h l), nextLoc := nextLoc h + 1\<rparr>)"

fun copy_type :: "ty \<Rightarrow> type_heap \<Rightarrow> ty \<times> type_heap" where
  "copy_type (EnumTy m i gs l) h = (let (l', h') = copy_obj l h in (EnumTy m i gs l', h'))"
| "copy_type (DefinedTy m i gs l) h = (let (l', h') = copy_obj l h in (DefinedTy m i gs l', h'))"
| "copy_type (InterfaceTy m i gs l) h = (let (l', h') = copy_obj l h in (InterfaceTy m i gs l', h'))"
| "copy_type t h = (t, h)"

definition getReferenceTo :: "ty \<Rightarrow> type_heap \<Rightarrow> ty \<times> type_heap" where
  "getReferenceTo t h = (let (t', h') = copy_type t h in (ReferenceTy False t', h'))"

definition getPointerTo :: "bool \<Rightarrow> ty \<Rightarrow> type_heap \<Rightarrow> ty \<times> type_heap" where
  "getPointerTo m t h = (let (t', h') = copy_type t h in (PointerTy m t', h'))"

text \<open>\<^verbatim>\<open>FunctionType::from\<close>, given the argument types, return type and flags of the function.\<close>

definition FunctionType_from :: "ty list \<Rightarrow> ty \<Rightarrow> bool \<Rightarrow> bool option \<Rightarrow> ty" where
  "FunctionType_from args ret var node_mutable =
     FunctionTy (case node_mutable of Some m \<Rightarrow> m | None \<Rightarrow> False) ''<fn type>'' args ret var"

definition update_obj :: "(class_obj \<Rightarrow> class_obj) \<Rightarrow> nat \<Rightarrow> type_heap \<Rightarrow> type_heap" where
  "update_obj f l h = h\<lparr>objs := (objs h)(l := map_option f (objs h l))\<rparr>"

definition addField :: "class_field \<Rightarrow> nat \<Rightarrow> type_heap \<Rightarrow> type_heap" where
  "addField f = update_obj (\<lambda>c. c\<lparr>cls_fields := cls_fields c @ [f]\<rparr>)"

definition addEnumField :: "string \<times> ty list \<Rightarrow> nat \<Rightarrow> type_heap \<Rightarrow> type_heap" where
  "addEnumField f = update_obj (\<lambda>c. c\<lparr>enum_fields := enum_fields c @ [f]\<rparr>)"

definition setParent :: "ty \<Rightarrow> nat \<Rightarrow> type_heap \<Rightarrow> type_heap" where
  "setParent p = update_obj (\<lambda>c. c\<lparr>cls_parent := Some p\<rparr>)"

definition addVtableItem :: "nat \<Rightarrow> nat \<Rightarrow> type_heap \<Rightarrow> nat \<times> type_heap" where
  "addVtableItem f l h =
     (case objs h l of
        None \<Rightarrow> (0, h)
      | Some c \<Rightarrow> (length (classVtable c @ [f]) - 1,
          update_obj (\<lambda>c. c\<lparr>classVtable := classVtable c @ [f]\<rparr>) l h))"

definition unsafeOverrideVtable :: "nat list \<Rightarrow> nat \<Rightarrow> type_heap \<Rightarrow> type_heap" where
  "unsafeOverrideVtable v = update_obj (\<lambda>c. c\<lparr>classVtable := v\<rparr>)"

definition setDefaultGenerics :: "ty list \<Rightarrow> nat \<Rightarrow> type_heap \<Rightarrow> type_heap" where
  "setDefaultGenerics gs = update_obj (\<lambda>c. c\<lparr>defaultGenerics := gs\<rparr>)"

definition setDefaultGenericStart :: "nat \<Rightarrow> nat \<Rightarrow> type_heap \<Rightarrow> type_heap" where
  "setDefaultGenericStart s = update_obj (\<lambda>c. c\<lparr>defaultGenericStart := s\<rparr>)"

section \<open>Names\<close>

definition CONST_PTR :: string where "CONST_PTR = ''$const-pointer''"
definition MUT_PTR :: string where "MUT_PTR = ''$mut-pointer''"
definition MANGLE_PREFIX :: string where "MANGLE_PREFIX = ''_ZN$SN''"

definition int_name :: "int \<Rightarrow> bool \<Rightarrow> string" where
  "int_name bits is_signed = (if bits = 1 then ''bool'' else (if is_signed then ''i'' else ''u'') @ to_string bits)"

definition float_name :: "int \<Rightarrow> string" where
  "float_name bits = ''f'' @ to_string bits"

fun getName :: "ty \<Rightarrow> string" where
  "getName (VoidTy _) = ''void''"
| "getName (FloatTy _ b) = float_name b"
| "getName (IntTy _ b s) = int_name b s"
| "getName (PointerTy m _) = (if m then MUT_PTR else CONST_PTR)"
| "getName (ReferenceTy _ b) = ''&'' @ getName b"
| "getName (FunctionTy _ n _ _ _) = n"
| "getName (TypeAliasTy _ i _ _) = bt_name i"
| "getName (EnumTy _ i _ _) = bt_name i"
| "getName (DefinedTy _ i _ _) = bt_name i"
| "getName (InterfaceTy _ i _ _) = bt_name i"

definition mangle_plain :: "string \<Rightarrow> string" where
  "mangle_plain name = ''T'' @ nat_to_string (length name) @ name"

text \<open>
  The head of the mangled name of a class, enum or interface: the unique name of its module when that
  is mangled itself, else the bare prefix; then the name, a tag and the number of the type.
\<close>

definition mangle_head :: "base_info \<Rightarrow> string \<Rightarrow> string" where
  "mangle_head i tag =
     (if startsWith (uniqueName (bt_module i)) MANGLE_PREFIX then uniqueName (bt_module i) else MANGLE_PREFIX)
     @ ''&'' @ nat_to_string (length (bt_name i)) @ bt_name i @ tag @ nat_to_string (bt_id i)"

primrec mangle_generics :: "nat \<Rightarrow> string list \<Rightarrow> string" where
  "mangle_generics k [] = []"
| "mangle_generics k (g # gs) = ''A'' @ nat_to_string k @ g @ mangle_generics (k + 1) gs"

definition mangle_nominal :: "base_info \<Rightarrow> string list \<Rightarrow> string \<Rightarrow> string \<Rightarrow> string \<Rightarrow> string" where
  "mangle_nominal i gs tag start finish =
     mangle_head i tag @ (if gs = [] then [] else start @ mangle_generics 1 gs) @ finish"

definition FunctionType_getMangledName :: "string \<Rightarrow> string list \<Rightarrow> bool \<Rightarrow> string" where
  "FunctionType_getMangledName ret args variadic =
     ''_FntY.'' @ ret @ ''fAr'' @ concat args @ (if variadic then ''VaGv'' else []) @ ''fAe''"

definition EnumType_getMangledName :: "base_info \<Rightarrow> string list \<Rightarrow> string" where
  "EnumType_getMangledName i gs = mangle_nominal i gs ''Ev'' ''EnuGSt'' ''EnuE''"

definition DefinedType_getMangledName :: "base_info \<Rightarrow> string list \<Rightarrow> string" where
  "DefinedType_getMangledName i gs = mangle_nominal i gs ''Cv'' ''ClsGSt'' ''ClsE''"

definition InterfaceType_getMangledName :: "base_info \<Rightarrow> string list \<Rightarrow> string" where
  "InterfaceType_getMangledName i gs = mangle_nominal i gs ''I'' ''IGSt'' ''IE''"

lemmas getMangledName_defs [simp] = FunctionType_getMangledName_def EnumType_getMangledName_def
  DefinedType_getMangledName_def InterfaceType_getMangledName_def

fun getMangledName :: "ty \<Rightarrow> string" where
  "getMangledName (VoidTy m) = mangle_plain (getName (VoidTy m))"
| "getMangledName (FloatTy m b) = mangle_plain (getName (FloatTy m b))"
| "getMangledName (IntTy m b s) = mangle_plain (getName (IntTy m b s))"
| "getMangledName (PointerTy _ b) = getMangledName b @ ''.p''"
| "getMangledName (ReferenceTy _ b) = getMangledName b @ ''.r''"
| "getMangledName (FunctionTy _ _ as r v) =
     FunctionType_getMangledName (getMangledName r) (map getMangledName as) v"
| "getMangledName (TypeAliasTy _ _ _ b) = getMangledName b"
| "getMangledName (EnumTy _ i gs _) = EnumType_getMangledName i (map getMangledName gs)"
| "getMangledName (DefinedTy _ i gs _) = DefinedType_getMangledName i (map getMangledName gs)"
| "getMangledName (InterfaceTy _ i gs _) = InterfaceType_getMangledName i (map getMangledName gs)"

section \<open>Type equality and the tests on the kind of a type\<close>

text \<open>
  The overloads of \<^verbatim>\<open>is\<close> for two types of one class; \<open>eq\<close> is the comparison of the parts.
  \<^verbatim>\<open>all_of\<close> with a running index over lists of equal length compares them pointwise.
\<close>

definition FunctionType_is :: "(ty \<Rightarrow> ty \<Rightarrow> bool) \<Rightarrow> ty list \<Rightarrow> ty \<Rightarrow> bool \<Rightarrow> ty list \<Rightarrow> ty \<Rightarrow> bool \<Rightarrow> bool" where
  "FunctionType_is eq as r v as' r' v' \<longleftrightarrow> list_all2 eq as as' \<and> eq r r' \<and> v = v'"

definition EnumType_is :: "(ty \<Rightarrow> ty \<Rightarrow> bool) \<Rightarrow> base_info \<Rightarrow> ty list \<Rightarrow> base_info \<Rightarrow> ty list \<Rightarrow> bool" where
  "EnumType_is eq i gs i' gs' \<longleftrightarrow> uuid i' = uuid i \<and> list_all2 eq gs gs'"

definition DefinedType_is :: "(ty \<Rightarrow> ty \<Rightarrow> bool) \<Rightarrow> base_info \<Rightarrow> ty list \<Rightarrow> base_info \<Rightarrow> ty list \<Rightarrow> bool" where
  "DefinedType_is eq i gs i' gs' \<longleftrightarrow> uuid i' = uuid i \<and> list_all2 eq gs gs'"

definition InterfaceType_is :: "(ty \<Rightarrow> ty \<Rightarrow> bool) \<Rightarrow> base_info \<Rightarrow> ty list \<Rightarrow> base_info \<Rightarrow> ty list \<Rightarrow> bool" where
  "InterfaceType_is eq i gs i' gs' \<longleftrightarrow> uuid i' = uuid i \<and> list_all2 eq gs gs'"

lemmas is_defs [simp] = FunctionType_is_def EnumType_is_def DefinedType_is_def InterfaceType_is_def

lemma is_congs [fundef_cong]:
  "as = bs \<Longrightarrow> r = s \<Longrightarrow> (\<And>x y. x \<in> set bs \<union> {s} \<Longrightarrow> eq x y = eq' x y) \<Longrightarrow>
   FunctionType_is eq as r v as' r' v' = FunctionType_is eq' bs s v as' r' v'"
  "gs = hs \<Longrightarrow> (\<And>x y. x \<in> set hs \<Longrightarrow> eq x y = eq' x y) \<Longrightarrow> EnumType_is eq i gs i' gs' = EnumType_is eq' i hs i' gs'"
  "gs = hs \<Longrightarrow> (\<And>x y. x \<in> set hs \<Longrightarrow> eq x y = eq' x y) \<Longrightarrow> DefinedType_is eq i gs i' gs' = DefinedType_is eq' i hs i' gs'"
  "gs = hs \<Longrightarrow> (\<And>x y. x \<in> set hs \<Longrightarrow> eq x y = eq' x y) \<Longrightarrow> InterfaceType_is eq i gs i' gs' = InterfaceType_is eq' i hs i' gs'"
  by (auto simp: list_all2_conv_all_nth)

text \<open>\<^verbatim>\<open>a->is(b)\<close>, dispatched on \<open>a\<close>.\<close>

fun is_ty :: "ty \<Rightarrow> ty \<Rightarrow> bool" where
  "is_ty (VoidTy m) b = (getName (VoidTy m) = getName b)"
| "is_ty (FloatTy m n) b = (getName (FloatTy m n) = getName b)"
| "is_ty (IntTy m n s) b = (getName (IntTy m n s) = getName b)"
| "is_ty (PointerTy _ p) b = (case b of PointerTy _ q \<Rightarrow> is_ty p q | _ \<Rightarrow> False)"
| "is_ty (ReferenceTy _ p) b = (case b of ReferenceTy _ q \<Rightarrow> is_ty p q | _ \<Rightarrow> False)"
| "is_ty (FunctionTy _ _ as r v) b =
     (case b of FunctionTy _ _ as' r' v' \<Rightarrow> FunctionType_is is_ty as r v as' r' v' | _ \<Rightarrow> False)"
| "is_ty (TypeAliasTy _ _ _ a) b = is_ty a b"
| "is_ty (EnumTy _ i gs _) b =
     (case b of EnumTy _ i' gs' _ \<Rightarrow> EnumType_is is_ty i gs i' gs' | _ \<Rightarrow> False)"
| "is_ty (DefinedTy _ i gs _) b =
     (case b of DefinedTy _ i' gs' _ \<Rightarrow> DefinedType_is is_ty i gs i' gs' | _ \<Rightarrow> False)"
| "is_ty (InterfaceTy _ i gs _) b =
     (case b of InterfaceTy _ i' gs' _ \<Rightarrow> InterfaceType_is is_ty i gs i' gs' | _ \<Rightarrow> False)"

text \<open>Equality of function types but for the first argument, which both must have.\<close>

definition isIgnoringSelf :: "ty list \<Rightarrow> ty \<Rightarrow> bool \<Rightarrow> ty list \<Rightarrow> ty \<Rightarrow> bool \<Rightarrow> bool res" where
  "isIgnoringSelf as r v as' r' v' =
     (if as' = [] \<or> as = [] then Inl AssertFail
      else if length as \<noteq> length as' then Inr False
      else Inr (is_ty r r' \<and> list_all2 is_ty (tl as) (tl as') \<and> v = v'))"

fun isNumericType :: "ty \<Rightarrow> bool" where
  "isNumericType (FloatTy _ _) = True"
| "isNumericType (IntTy _ _ _) = True"
| "isNumericType _ = False"

fun isIntType :: "int \<Rightarrow> ty \<Rightarrow> bool" where
  "isIntType bits (IntTy _ b _) = (b = bits)"
| "isIntType bits _ = False"

fun isFloatType :: "int \<Rightarrow> ty \<Rightarrow> bool" where
  "isFloatType bits (FloatTy _ b) = (b = bits)"
| "isFloatType bits _ = False"

text \<open>\<^verbatim>\<open>PointerType::getBaseType\<close>, \<^verbatim>\<open>ReferenceType::getBaseType\<close>, \<^verbatim>\<open>TypeAlias::getBaseType\<close>.\<close>

fun pointer_base :: "ty \<Rightarrow> ty" where
  "pointer_base (PointerTy _ b) = pointer_base b"
| "pointer_base t = t"

fun reference_base :: "ty \<Rightarrow> ty" where
  "reference_base (ReferenceTy _ b) = reference_base b"
| "reference_base t = t"

section \<open>Casts\<close>

definition DefinedType_canCast :: "type_heap \<Rightarrow> bool \<Rightarrow> nat \<Rightarrow> ty \<Rightarrow> bool" where
  "DefinedType_canCast h m l b =
     (if \<not> m \<and> isMutable b then False
      else case objs h l of
          Some c \<Rightarrow> (case cls_parent c of Some p \<Rightarrow> is_ty b p | None \<Rightarrow> False)
        | None \<Rightarrow> False)"

lemmas DefinedType_canCast_def [simp]

text \<open>\<^verbatim>\<open>a->canCast(b)\<close>.\<close>

fun type_canCast :: "type_heap \<Rightarrow> ty \<Rightarrow> ty \<Rightarrow> bool" where
  "type_canCast h (FloatTy _ _) b = isNumericType b"
| "type_canCast h (IntTy _ _ _) b = isNumericType b"
| "type_canCast h (PointerTy m p) b =
     (if \<not> m \<and> isMutable b then False else case b of PointerTy _ q \<Rightarrow> type_canCast h p q | _ \<Rightarrow> False)"
| "type_canCast h (ReferenceTy m p) b =
     (if \<not> m \<and> isMutable b then False else case b of ReferenceTy _ q \<Rightarrow> type_canCast h p q | _ \<Rightarrow> False)"
| "type_canCast h (TypeAliasTy _ _ _ a) b = type_canCast h a b"
| "type_canCast h (DefinedTy m _ _ l) b =
     (case b of
        DefinedTy _ _ _ _ \<Rightarrow> DefinedType_canCast h m l b
      | _ \<Rightarrow> False)"
| "type_canCast h _ b = False"

datatype CastType = NoCast | Valid | AutoDeref | AutoRef | ToPointer

fun is_VoidTy :: "ty \<Rightarrow> bool" where
  "is_VoidTy (VoidTy _) = True"
| "is_VoidTy _ = False"

fun is_PointerTy :: "ty \<Rightarrow> bool" where
  "is_PointerTy (PointerTy _ _) = True"
| "is_PointerTy _ = False"

text \<open>\<^verbatim>\<open>Transformer::canCast\<close>: the tests in the order of the code.\<close>

definition canCast :: "type_heap \<Rightarrow> ty \<Rightarrow> ty \<Rightarrow> CastType" where
  "canCast h a b =
     (if (case a of ReferenceTy _ p \<Rightarrow> is_ty p b | _ \<Rightarrow> False) then AutoDeref
      else if (case b of ReferenceTy _ p \<Rightarrow> is_ty p a | _ \<Rightarrow> False) then AutoRef
      else if (case a of PointerTy _ p \<Rightarrow> is_VoidTy p \<and> is_PointerTy b | _ \<Rightarrow> False) then Valid
      else if (case b of PointerTy _ p \<Rightarrow> is_ty p a | _ \<Rightarrow> False) then ToPointer
      else if (case b of PointerTy _ p \<Rightarrow> is_VoidTy p \<and> is_PointerTy a | _ \<Rightarrow> False) then Valid
      else if (case a of IntTy _ i _ \<Rightarrow> (case b of IntTy _ j _ \<Rightarrow> i \<le> j | _ \<Rightarrow> False) | _ \<Rightarrow> False) then Valid
      else if \<not> isMutable a \<and> isMutable b then NoCast
      else if type_canCast h a b then Valid
      else NoCast)"

section \<open>Sizes and alignments\<close>

text \<open>A result of a 64 bit signed computation; C++ leaves an overflow undefined.\<close>

definition i64 :: "int \<Rightarrow> int res" where
  "i64 x = (if - (2 ^ 63) \<le> x \<and> x < 2 ^ 63 then Inr x else Inl (Undefined ''signed overflow''))"

text \<open>The two statements that move an address to the next multiple of an alignment.\<close>

definition pad_to :: "int \<Rightarrow> int \<Rightarrow> int res" where
  "pad_to al a =
     (if al = 0 then Inl (Undefined ''division by zero'')
      else bindR (i64 (a + (a - a smod al) smod al)) (\<lambda>b. i64 (b + (al - b smod al) smod al)))"

text \<open>The loop over the fields in \<^verbatim>\<open>sizeOf\<close> of a class and of an interface.\<close>

primrec place_fields :: "(ty \<Rightarrow> int res) \<Rightarrow> (ty \<Rightarrow> int res) \<Rightarrow> ty list \<Rightarrow> int \<Rightarrow> int res" where
  "place_fields sz al [] a = Inr a"
| "place_fields sz al (t # ts) a =
     bindR (sz t) (\<lambda>s. bindR (al t) (\<lambda>l. bindR (pad_to l a) (\<lambda>b. bindR (i64 (b + s)) (\<lambda>c.
     place_fields sz al ts c))))"

text \<open>The loops that keep the largest of the values; \<open>narrow\<close> is the conversion of an assignment.\<close>

primrec max_loop :: "(int \<Rightarrow> int) \<Rightarrow> (ty \<Rightarrow> int res) \<Rightarrow> ty list \<Rightarrow> int \<Rightarrow> int res" where
  "max_loop narrow f [] m = Inr m"
| "max_loop narrow f (t # ts) m = bindR (f t) (\<lambda>s. max_loop narrow f ts (if m < s then narrow s else m))"

primrec enum_max :: "(int \<Rightarrow> int) \<Rightarrow> (ty \<Rightarrow> int res) \<Rightarrow> (string \<times> ty list) list \<Rightarrow> int \<Rightarrow> int res" where
  "enum_max narrow f [] m = Inr m"
| "enum_max narrow f (e # es) m =
     bindR (max_loop narrow f (snd e) 0) (\<lambda>s. enum_max narrow f es (if m < s then s else m))"

definition to_int32 :: "int \<Rightarrow> int" where
  "to_int32 x = (x + 2 ^ 31) mod 2 ^ 32 - 2 ^ 31"

definition class_at :: "type_heap \<Rightarrow> nat \<Rightarrow> class_obj res" where
  "class_at h l = (case objs h l of Some c \<Rightarrow> Inr c | None \<Rightarrow> Inl (Undefined ''dangling type''))"

definition at_least_one :: "int \<Rightarrow> int" where
  "at_least_one m = (if m = 0 then 1 else m)"

text \<open>
  The methods of the class types. \<open>sz\<close> and \<open>al\<close> are the calls for the types of the fields.
\<close>

definition EnumType_alignmentOf :: "(ty \<Rightarrow> int res) \<Rightarrow> class_obj \<Rightarrow> int res" where
  "EnumType_alignmentOf al c =
     bindR (enum_max to_int32 al (enum_fields c) 0) (\<lambda>m. Inr (at_least_one m))"

definition DefinedType_alignmentOf :: "(ty \<Rightarrow> int res) \<Rightarrow> class_obj \<Rightarrow> int res" where
  "DefinedType_alignmentOf al c =
     bindR (max_loop id al (map cf_type (cls_fields c)) 0) (\<lambda>m. Inr (at_least_one m))"

definition InterfaceType_alignmentOf :: "(ty \<Rightarrow> int res) \<Rightarrow> class_obj \<Rightarrow> int res" where
  "InterfaceType_alignmentOf al c =
     bindR (max_loop id al (map cf_type (cls_fields c)) 0) (\<lambda>m. Inr (at_least_one m))"

definition EnumType_sizeOf :: "(ty \<Rightarrow> int res) \<Rightarrow> class_obj \<Rightarrow> int res" where
  "EnumType_sizeOf sz c =
     bindR (enum_max id sz (enum_fields c) 0) (\<lambda>m.
     bindR (i64 (m * 8)) (\<lambda>n. i64 (n + 8)))"

definition DefinedType_sizeOf :: "(ty \<Rightarrow> int res) \<Rightarrow> (ty \<Rightarrow> int res) \<Rightarrow> class_obj \<Rightarrow> int res" where
  "DefinedType_sizeOf sz al c =
     bindR (place_fields sz al (map cf_type (cls_fields c)) 0) (\<lambda>a.
     bindR (DefinedType_alignmentOf al c) (\<lambda>l.
     bindR (pad_to l a) (\<lambda>b.
     bindR (i64 (b + of_bool (hasVtable c) * 8)) (\<lambda>s. Inr (at_least_one s)))))"

definition InterfaceType_sizeOf :: "(ty \<Rightarrow> int res) \<Rightarrow> (ty \<Rightarrow> int res) \<Rightarrow> class_obj \<Rightarrow> int res" where
  "InterfaceType_sizeOf sz al c =
     bindR (place_fields sz al (map cf_type (cls_fields c)) 0) (\<lambda>a.
     bindR (InterfaceType_alignmentOf al c) (\<lambda>l.
     bindR (pad_to l a) (\<lambda>b. i64 (at_least_one b + of_bool (hasVtable c) * 8))))"

lemmas size_defs [simp] = EnumType_alignmentOf_def DefinedType_alignmentOf_def InterfaceType_alignmentOf_def
  EnumType_sizeOf_def DefinedType_sizeOf_def InterfaceType_sizeOf_def

text \<open>
  The calls recurse through the fields of class objects. The fuel bounds the depth of the calls;
  a class that holds itself by value exhausts every stack.
\<close>

fun alignmentOf :: "nat \<Rightarrow> type_heap \<Rightarrow> ty \<Rightarrow> int res" where
  "alignmentOf 0 h t = Inl (Undefined ''stack exhausted'')"
| "alignmentOf (Suc k) h (VoidTy _) = Inr 0"
| "alignmentOf (Suc k) h (FloatTy _ b) = Inr b"
| "alignmentOf (Suc k) h (IntTy _ b _) = Inr (if b = 1 then 1 else b)"
| "alignmentOf (Suc k) h (PointerTy _ _) = Inr 8"
| "alignmentOf (Suc k) h (ReferenceTy _ _) = Inr 8"
| "alignmentOf (Suc k) h (FunctionTy _ _ _ _ _) = Inr 8"
| "alignmentOf (Suc k) h (TypeAliasTy _ _ _ b) = alignmentOf k h b"
| "alignmentOf (Suc k) h (EnumTy _ _ _ l) = bindR (class_at h l) (EnumType_alignmentOf (alignmentOf k h))"
| "alignmentOf (Suc k) h (DefinedTy _ _ _ l) = bindR (class_at h l) (DefinedType_alignmentOf (alignmentOf k h))"
| "alignmentOf (Suc k) h (InterfaceTy _ _ _ l) = bindR (class_at h l) (InterfaceType_alignmentOf (alignmentOf k h))"

fun sizeOf :: "nat \<Rightarrow> type_heap \<Rightarrow> ty \<Rightarrow> int res" where
  "sizeOf 0 h t = Inl (Undefined ''stack exhausted'')"
| "sizeOf (Suc k) h (VoidTy _) = Inr 0"
| "sizeOf (Suc k) h (FloatTy _ b) = Inr b"
| "sizeOf (Suc k) h (IntTy _ b _) = Inr (if b = 1 then 1 else b)"
| "sizeOf (Suc k) h (PointerTy _ _) = Inr 8"
| "sizeOf (Suc k) h (ReferenceTy _ _) = Inr 8"
| "sizeOf (Suc k) h (FunctionTy _ _ _ _ _) = Inr 8"
| "sizeOf (Suc k) h (TypeAliasTy _ _ _ b) = sizeOf k h b"
| "sizeOf (Suc k) h (EnumTy _ _ _ l) = bindR (class_at h l) (EnumType_sizeOf (sizeOf k h))"
| "sizeOf (Suc k) h (DefinedTy _ _ _ l) =
     bindR (class_at h l) (DefinedType_sizeOf (sizeOf k h) (alignmentOf k h))"
| "sizeOf (Suc k) h (InterfaceTy _ _ _ l) =
     bindR (class_at h l) (InterfaceType_sizeOf (sizeOf k h) (alignmentOf k h))"

end
