(* ===== verification/Types_Props.thy ===== *)
theory Types_Props
  imports Types
begin

text \<open>
  Correctness of the type objects: mangled names determine structural types, type equality is an
  equivalence on types without aliases and one-sided on aliases, sizes refine a layout specification and are
  computed in bounded depth, what the cast rules let through, and copies as snapshots.
\<close>

section \<open>Mangled names\<close>

subsection \<open>Decimal numerals\<close>

lemma nat_to_string_inject: "nat_to_string m = nat_to_string n \<longleftrightarrow> m = n"
  by (metis nat_to_string_facts)

definition starts_digit :: "string \<Rightarrow> bool" where
  "starts_digit s = (case s of [] \<Rightarrow> False | c # _ \<Rightarrow> is_digit c)"

lemma digits_unique:
  assumes "list_all p u" "list_all p v" "u @ s = v @ t"
    and "case s of [] \<Rightarrow> True | c # _ \<Rightarrow> \<not> p c" and "case t of [] \<Rightarrow> True | c # _ \<Rightarrow> \<not> p c"
  shows "u = v \<and> s = t"
proof -
  have "takeWhile p (w @ r) = w" if "list_all p w" and "case r of [] \<Rightarrow> True | c # _ \<Rightarrow> \<not> p c" for w r
    using that by (induction w) (auto split: list.splits)
  from this [of u s] this [of v t] assms show ?thesis by (metis same_append_eq)
qed

lemma nat_to_string_unique:
  assumes "nat_to_string m @ s = nat_to_string n @ t" and "\<not> starts_digit s" and "\<not> starts_digit t"
  shows "m = n \<and> s = t"
  using digits_unique [of is_digit "nat_to_string m" "nat_to_string n" s t] assms nat_to_string_facts
  by (auto simp: starts_digit_def nat_to_string_inject split: list.splits)

lemma mangle_plain_unique:
  assumes "mangle_plain n @ x = mangle_plain n' @ y" and "\<not> starts_digit n" and "\<not> starts_digit n'"
    and "n \<noteq> []" "n' \<noteq> []"
  shows "n = n' \<and> x = y"
proof -
  have "\<not> starts_digit (n @ x)" and "\<not> starts_digit (n' @ y)"
    using assms by (simp_all add: starts_digit_def neq_Nil_conv) auto
  with nat_to_string_unique [of "length n" "n @ x" "length n'" "n' @ y"] assms(1)
  have "length n = length n'" and "n @ x = n' @ y"
    by (simp_all add: mangle_plain_def)
  then show ?thesis by simp
qed

subsection \<open>Structural types\<close>

text \<open>
  Types built from the primitive types by pointers, references and function types. A mangled name is
  the name of a core followed by one mark per pointer or reference around it.
\<close>

fun structural :: "ty \<Rightarrow> bool" where
  "structural (PointerTy _ b) = structural b"
| "structural (ReferenceTy _ b) = structural b"
| "structural (FunctionTy _ n as r _) = (n = ''<fn type>'' \<and> list_all structural as \<and> structural r)"
| "structural (TypeAliasTy _ _ _ _) = False"
| "structural (EnumTy _ _ _ _) = False"
| "structural (DefinedTy _ _ _ _) = False"
| "structural (InterfaceTy _ _ _ _) = False"
| "structural _ = True"

fun type_core :: "ty \<Rightarrow> ty" where
  "type_core (PointerTy _ b) = type_core b"
| "type_core (ReferenceTy _ b) = type_core b"
| "type_core t = t"

fun type_suffix :: "ty \<Rightarrow> string" where
  "type_suffix (PointerTy _ b) = type_suffix b @ ''.p''"
| "type_suffix (ReferenceTy _ b) = type_suffix b @ ''.r''"
| "type_suffix t = []"

fun primitive :: "ty \<Rightarrow> bool" where
  "primitive (VoidTy _) = True"
| "primitive (FloatTy _ _) = True"
| "primitive (IntTy _ _ _) = True"
| "primitive _ = False"

lemma mangle_core: "getMangledName t = getMangledName (type_core t) @ type_suffix t"
  by (induction t) simp_all

lemma size_core: "size (type_core t) \<le> size t"
  by (induction t) simp_all

lemma structural_core: "structural t \<Longrightarrow> structural (type_core t)"
  by (induction t) simp_all

lemma core_cases:
  assumes "structural t"
  obtains "primitive (type_core t)" | m n as r v where "type_core t = FunctionTy m n as r v"
  using assms by (induction t) auto


fun type_marks :: "ty \<Rightarrow> char list" where
  "type_marks (PointerTy _ b) = type_marks b @ [CHR ''p'']"
| "type_marks (ReferenceTy _ b) = type_marks b @ [CHR ''r'']"
| "type_marks t = []"

definition starts_dot :: "string \<Rightarrow> bool" where
  "starts_dot s = (case s of [] \<Rightarrow> False | c # _ \<Rightarrow> c = CHR ''.'')"

lemma suffix_marks: "type_suffix t = concat (map (\<lambda>c. [CHR ''.'', c]) (type_marks t))"
  by (induction t) simp_all

lemma marks_unique:
  assumes "concat (map (\<lambda>c. [CHR ''.'', c]) u) @ x = concat (map (\<lambda>c. [CHR ''.'', c]) v) @ y"
    and "\<not> starts_dot x" and "\<not> starts_dot y"
  shows "u = v \<and> x = y"
  using assms
proof (induction u arbitrary: v)
  case Nil
  then show ?case by (cases v) (auto simp: starts_dot_def)
next
  case (Cons c u)
  then show ?case by (cases v) (auto simp: starts_dot_def)
qed

lemma is_from_core:
  "is_ty (type_core a) (type_core b) \<Longrightarrow> type_marks a = type_marks b \<Longrightarrow> structural a \<Longrightarrow> is_ty a b"
proof (induction a arbitrary: b)
  case (PointerTy m a)
  then show ?case by (cases b) simp_all
next
  case (ReferenceTy m a)
  then show ?case by (cases b) simp_all
next
  case (FunctionTy m n as r v)
  then show ?case by (cases b) simp_all
qed (case_tac b; simp)+

lemma primitive_name:
  "primitive t \<Longrightarrow> getName t \<noteq> [] \<and> \<not> starts_digit (getName t) \<and> getMangledName t = mangle_plain (getName t)"
  by (cases t) (simp_all add: float_name_def int_name_def starts_digit_def is_digit_def)

lemma primitive_is: "primitive a \<Longrightarrow> is_ty a b \<longleftrightarrow> getName a = getName b"
  by (cases a) simp_all

lemma mangle_hd:
  "primitive t \<Longrightarrow> \<exists>s. getMangledName t = CHR ''T'' # s"
  by (drule primitive_name) (simp add: mangle_plain_def)

lemma mangle_start:
  "structural t \<Longrightarrow> \<exists>c s. getMangledName t = c # s \<and> (c = CHR ''T'' \<or> c = CHR ''_'')"
  by (induction t) (auto simp: mangle_plain_def)

definition mangle_ends :: "ty \<Rightarrow> bool" where
  "mangle_ends a \<longleftrightarrow> (\<forall>b x y. structural b \<longrightarrow> getMangledName a @ x = getMangledName b @ y \<longrightarrow>
     \<not> starts_dot x \<longrightarrow> \<not> starts_dot y \<longrightarrow> is_ty a b \<and> x = y)"

lemma mangle_endsD:
  "mangle_ends a \<Longrightarrow> structural b \<Longrightarrow> getMangledName a @ x = getMangledName b @ y \<Longrightarrow>
     \<not> starts_dot x \<Longrightarrow> \<not> starts_dot y \<Longrightarrow> is_ty a b \<and> x = y"
  unfolding mangle_ends_def by blast

definition starts_type :: "string \<Rightarrow> bool" where
  "starts_type s = (case s of [] \<Rightarrow> False | c # _ \<Rightarrow> c = CHR ''T'' \<or> c = CHR ''_'')"

lemma mangle_starts_type: "structural t \<Longrightarrow> starts_type (getMangledName t @ s)"
  by (drule mangle_start) (auto simp: starts_type_def)

lemma mangle_args_unique:
  assumes "list_all mangle_ends as" and "list_all structural as" and "list_all structural bs"
    and "concat (map getMangledName as) @ x = concat (map getMangledName bs) @ y"
    and "\<not> starts_type x" and "\<not> starts_type y" and "\<not> starts_dot x" and "\<not> starts_dot y"
  shows "list_all2 is_ty as bs \<and> x = y"
  using assms
proof (induction as arbitrary: bs)
  case Nil
  then show ?case
    by (cases bs) (auto dest: mangle_starts_type)
next
  case (Cons a as)
  note prems = Cons.prems
  show ?case
  proof (cases bs)
    case Nil
    with prems mangle_starts_type [of a "concat (map getMangledName as) @ x"] show ?thesis by simp
  next
    case (Cons b bs')
    have nd: "\<not> starts_dot (concat (map getMangledName ts) @ z)"
      if "list_all structural ts" and "\<not> starts_dot z" for ts z
      using that by (cases ts) (auto simp: starts_dot_def dest!: mangle_start)
    have "is_ty a b \<and> concat (map getMangledName as) @ x = concat (map getMangledName bs') @ y"
      by (rule mangle_endsD) (use prems Cons in \<open>simp_all add: nd\<close>)
    with Cons.IH [of bs'] prems Cons show ?thesis by simp
  qed
qed

lemma mangle_ends_structural: "structural a \<Longrightarrow> mangle_ends a"
proof (induction "size a" arbitrary: a rule: less_induct)
  case less
  show ?case
    unfolding mangle_ends_def
  proof (intro allI impI)
    fix b x y
    assume b: "structural b" and eq: "getMangledName a @ x = getMangledName b @ y"
      and nx: "\<not> starts_dot x" and ny: "\<not> starts_dot y"
    let ?x = "type_suffix a @ x" and ?y = "type_suffix b @ y"
    have split: "getMangledName (type_core a) @ ?x = getMangledName (type_core b) @ ?y"
      using eq by (subst (asm) (1 2) mangle_core) simp
    have cores: "is_ty (type_core a) (type_core b) \<and> ?x = ?y"
    proof (cases rule: core_cases [OF less.prems])
      case 1
      then obtain s where "getMangledName (type_core a) = CHR ''T'' # s" by (blast dest: mangle_hd)
      with split have "primitive (type_core b)"
        by (cases rule: core_cases [OF b]) auto
      with split primitive_name [OF 1] primitive_name [of "type_core b"] show ?thesis
        using mangle_plain_unique [of "getName (type_core a)" ?x "getName (type_core b)" ?y]
        by (simp add: primitive_is 1)
    next
      case (2 m n as r v)
      note fa = this
      show ?thesis
      proof (cases rule: core_cases [OF b])
        case 1
        then show ?thesis using split fa by (auto dest: mangle_hd)
      next
        case (2 m' n' bs r' v')
        let ?u = "(if v then ''VaGv'' else []) @ ''fAe'' @ ?x"
        let ?w = "(if v' then ''VaGv'' else []) @ ''fAe'' @ ?y"
        have sizes: "size r < size a" "\<forall>t\<in>set as. size t < size a"
          using size_core [of a] fa size_list_estimation' [of _ as _ size, OF _ order_refl]
          by (auto simp: le_less_Suc_eq intro: le_less_trans [of _ "size_list size as"])
        have sub: "structural r" "list_all structural as" "structural r'" "list_all structural bs"
          using structural_core [OF less.prems] structural_core [OF b] fa 2 by simp_all
        have "mangle_ends r" "list_all mangle_ends as"
          using less.hyps sizes sub by (auto simp: list_all_iff)
        have ret: "is_ty r r' \<and> ''fAr'' @ concat (map getMangledName as) @ ?u = ''fAr'' @ concat (map getMangledName bs) @ ?w"
          by (rule mangle_endsD [OF \<open>mangle_ends r\<close> \<open>structural r'\<close>])
            (use split fa 2 in \<open>simp_all add: starts_dot_def\<close>)
        have "list_all2 is_ty as bs \<and> ?u = ?w"
          by (rule mangle_args_unique [OF \<open>list_all mangle_ends as\<close> sub(2,4)])
            (use ret in \<open>simp_all add: starts_type_def starts_dot_def\<close>)
        with ret fa 2 show ?thesis by (auto split: if_splits)
      qed
    qed
    then have "type_marks a = type_marks b \<and> x = y"
      using marks_unique nx ny by (metis suffix_marks)
    with cores is_from_core less.prems show "is_ty a b \<and> x = y" by blast
  qed
qed

lemma primitive_complete:
  assumes "primitive a" "is_ty a b" "structural b"
  shows "getMangledName a = getMangledName b"
proof -
  have "hd (getName a) \<in> {CHR ''v'', CHR ''f'', CHR ''b'', CHR ''i'', CHR ''u''}"
    using assms(1) by (cases a) (simp_all add: float_name_def int_name_def)
  with assms have "primitive b"
    by (cases b) (auto simp: primitive_is MUT_PTR_def CONST_PTR_def split: if_splits)
  with assms show ?thesis by (metis primitive_is primitive_name)
qed

lemma mangle_complete: "structural a \<Longrightarrow> is_ty a b \<Longrightarrow> structural b \<Longrightarrow> getMangledName a = getMangledName b"
proof (induction a arbitrary: b)
  case (FunctionTy m n as r v)
  from FunctionTy.prems obtain m' n' bs r' where b: "b = FunctionTy m' n' bs r' v"
    and eq: "list_all2 is_ty as bs" "is_ty r r'" by (auto split: ty.splits)
  have "list_all2 (\<lambda>s t. getMangledName s = getMangledName t) as bs"
    using eq(1) FunctionTy.IH(1) FunctionTy.prems b
    by (auto simp: list_all2_conv_all_nth list_all_length)
  then have "map getMangledName as = map getMangledName bs"
    by (simp add: list_all2_map1 list_all2_map2 flip: list.rel_eq)
  with b eq FunctionTy show ?case by simp
next
  case (PointerTy m a)
  then show ?case by (auto split: ty.splits)
next
  case (ReferenceTy m a)
  then show ?case by (auto split: ty.splits)
qed (auto intro: primitive_complete simp del: is_ty.simps getMangledName.simps)


section \<open>Type equality\<close>

text \<open>
  Types in which no class, enum, interface or alias has the name of a primitive type; the proper
  ones of them contain no alias.
\<close>

definition primitive_name :: "string \<Rightarrow> bool" where
  "primitive_name s \<longleftrightarrow> s = ''void'' \<or> s = ''bool'' \<or>
     (case s of [] \<Rightarrow> False
      | c # r \<Rightarrow> (c = CHR ''i'' \<or> c = CHR ''u'' \<or> c = CHR ''f'') \<and> r \<noteq> [] \<and>
          list_all (\<lambda>d. is_digit d \<or> d = CHR ''-'') r)"

fun proper :: "ty \<Rightarrow> bool" where
  "proper (PointerTy _ b) = proper b"
| "proper (ReferenceTy _ b) = proper b"
| "proper (FunctionTy _ n as r _) = (n = ''<fn type>'' \<and> list_all proper as \<and> proper r)"
| "proper (TypeAliasTy _ _ _ _) = False"
| "proper (EnumTy _ i gs _) = (\<not> primitive_name (bt_name i) \<and> list_all proper gs)"
| "proper (DefinedTy _ i gs _) = (\<not> primitive_name (bt_name i) \<and> list_all proper gs)"
| "proper (InterfaceTy _ i gs _) = (\<not> primitive_name (bt_name i) \<and> list_all proper gs)"
| "proper _ = True"

fun named :: "ty \<Rightarrow> bool" where
  "named (PointerTy _ b) = named b"
| "named (ReferenceTy _ b) = named b"
| "named (FunctionTy _ n as r _) = (n = ''<fn type>'' \<and> list_all named as \<and> named r)"
| "named (TypeAliasTy _ i _ b) = (\<not> primitive_name (bt_name i) \<and> named b)"
| "named (EnumTy _ i gs _) = (\<not> primitive_name (bt_name i) \<and> list_all named gs)"
| "named (DefinedTy _ i gs _) = (\<not> primitive_name (bt_name i) \<and> list_all named gs)"
| "named (InterfaceTy _ i gs _) = (\<not> primitive_name (bt_name i) \<and> list_all named gs)"
| "named _ = True"

text \<open>A type with its aliases replaced by what they stand for.\<close>

fun without_aliases :: "ty \<Rightarrow> ty" where
  "without_aliases (PointerTy m b) = PointerTy m (without_aliases b)"
| "without_aliases (ReferenceTy m b) = ReferenceTy m (without_aliases b)"
| "without_aliases (FunctionTy m n as r v) = FunctionTy m n (map without_aliases as) (without_aliases r) v"
| "without_aliases (TypeAliasTy _ _ _ b) = without_aliases b"
| "without_aliases (EnumTy m i gs l) = EnumTy m i (map without_aliases gs) l"
| "without_aliases (DefinedTy m i gs l) = DefinedTy m i (map without_aliases gs) l"
| "without_aliases (InterfaceTy m i gs l) = InterfaceTy m i (map without_aliases gs) l"
| "without_aliases t = t"

lemma without_aliases_proper: "named t \<Longrightarrow> proper (without_aliases t)"
  by (induction t) (auto simp: list_all_iff)

lemma to_string_digits: "to_string i \<noteq> [] \<and> list_all (\<lambda>d. is_digit d \<or> d = CHR ''-'') (to_string i)"
  using nat_to_string_facts by (auto simp: to_string_def list_all_iff)

lemma primitive_getName: "primitive t \<Longrightarrow> primitive_name (getName t)"
  using to_string_digits by (cases t) (auto simp: primitive_name_def float_name_def int_name_def)

lemma primitive_is_proper: "primitive a \<Longrightarrow> proper b \<Longrightarrow> is_ty a b \<longleftrightarrow> primitive b \<and> getName a = getName b"
proof -
  assume a: "primitive a" "proper b"
  have "\<not> primitive_name (getName b)" if "\<not> primitive b"
    using that \<open>proper b\<close> by (cases b) (auto simp: primitive_name_def MUT_PTR_def CONST_PTR_def)
  with a primitive_getName [of a] show ?thesis by (metis primitive_is)
qed

lemma not_primitive_is: "\<not> primitive b \<Longrightarrow> proper b \<Longrightarrow> primitive a \<Longrightarrow> \<not> is_ty a b"
  by (simp add: primitive_is_proper)

lemma list_all2_sym:
  "list_all2 P xs ys \<Longrightarrow> (\<And>x y. x \<in> set xs \<Longrightarrow> y \<in> set ys \<Longrightarrow> P x y \<Longrightarrow> Q y x) \<Longrightarrow> list_all2 Q ys xs"
  by (induction rule: list_all2_induct) auto

lemma is_refl: "proper a \<Longrightarrow> is_ty a a"
  by (induction a) (auto simp: list_all_iff list_all2_same)

lemma is_sym: "proper a \<Longrightarrow> proper b \<Longrightarrow> is_ty a b \<Longrightarrow> is_ty b a"
proof (induction a arbitrary: b)
  case (PointerTy m a)
  then show ?case by (cases b) auto
next
  case (ReferenceTy m a)
  then show ?case by (cases b) auto
next
  case (FunctionTy m n as r v)
  then show ?case by (cases b) (auto simp: list_all_iff intro: list_all2_sym)
next
  case (EnumTy m i gs l)
  then show ?case by (cases b) (auto simp: list_all_iff intro: list_all2_sym)
next
  case (DefinedTy m i gs l)
  then show ?case by (cases b) (auto simp: list_all_iff intro: list_all2_sym)
next
  case (InterfaceTy m i gs l)
  then show ?case by (cases b) (auto simp: list_all_iff intro: list_all2_sym)
next
  case (VoidTy m)
  then show ?case using primitive_is_proper [of "VoidTy m" b] primitive_is [of b] by simp
next
  case (FloatTy m n)
  then show ?case using primitive_is_proper [of "FloatTy m n" b] primitive_is [of b] by simp
next
  case (IntTy m n s)
  then show ?case using primitive_is_proper [of "IntTy m n s" b] primitive_is [of b] by simp
qed simp

lemma list_all2_transitive:
  assumes "list_all2 P xs ys" and "list_all2 P ys zs"
    and "\<And>x y z. x \<in> set xs \<Longrightarrow> y \<in> set ys \<Longrightarrow> z \<in> set zs \<Longrightarrow> P x y \<Longrightarrow> P y z \<Longrightarrow> P x z"
  shows "list_all2 P xs zs"
  using assms by (auto simp: list_all2_conv_all_nth) (metis nth_mem)

lemma is_list_trans:
  assumes "list_all2 is_ty xs ys" "list_all2 is_ty ys zs"
    and "list_all proper xs" "list_all proper ys" "list_all proper zs"
    and "\<And>x y z. x \<in> set xs \<Longrightarrow> proper x \<Longrightarrow> proper y \<Longrightarrow> proper z \<Longrightarrow> is_ty x y \<Longrightarrow> is_ty y z \<Longrightarrow> is_ty x z"
  shows "list_all2 is_ty xs zs"
  by (rule list_all2_transitive [OF assms(1,2)]) (use assms(3-5) in \<open>auto simp: list_all_iff intro: assms(6)\<close>)

lemma is_inversion:
  "is_ty (PointerTy m p) b \<longleftrightarrow> (\<exists>m' q. b = PointerTy m' q \<and> is_ty p q)"
  "is_ty (ReferenceTy m p) b \<longleftrightarrow> (\<exists>m' q. b = ReferenceTy m' q \<and> is_ty p q)"
  "is_ty (FunctionTy m n as r v) b \<longleftrightarrow>
     (\<exists>m' n' as' r'. b = FunctionTy m' n' as' r' v \<and> list_all2 is_ty as as' \<and> is_ty r r')"
  "is_ty (EnumTy m i gs l) b \<longleftrightarrow>
     (\<exists>m' i' gs' l'. b = EnumTy m' i' gs' l' \<and> uuid i' = uuid i \<and> list_all2 is_ty gs gs')"
  "is_ty (DefinedTy m i gs l) b \<longleftrightarrow>
     (\<exists>m' i' gs' l'. b = DefinedTy m' i' gs' l' \<and> uuid i' = uuid i \<and> list_all2 is_ty gs gs')"
  "is_ty (InterfaceTy m i gs l) b \<longleftrightarrow>
     (\<exists>m' i' gs' l'. b = InterfaceTy m' i' gs' l' \<and> uuid i' = uuid i \<and> list_all2 is_ty gs gs')"
  subgoal by (cases b) simp_all
  subgoal by (cases b) simp_all
  subgoal by (cases b) auto
  subgoal by (cases b) (simp_all del: split_paired_Ex)
  subgoal by (cases b) simp_all
  subgoal by (cases b) simp_all
  done

lemma is_trans: "proper a \<Longrightarrow> proper b \<Longrightarrow> proper c \<Longrightarrow> is_ty a b \<Longrightarrow> is_ty b c \<Longrightarrow> is_ty a c"
proof (induction a arbitrary: b c)
  case (VoidTy m)
  then show ?case using primitive_is_proper [of "VoidTy m" b] primitive_is [of b c] by simp
next
  case (FloatTy m n)
  then show ?case using primitive_is_proper [of "FloatTy m n" b] primitive_is [of b c] by simp
next
  case (IntTy m n s)
  then show ?case using primitive_is_proper [of "IntTy m n s" b] primitive_is [of b c] by simp
next
  case (PointerTy m a)
  from PointerTy.prems show ?case
    by (auto simp: is_inversion simp del: is_ty.simps) (blast intro: PointerTy.IH)
next
  case (ReferenceTy m a)
  from ReferenceTy.prems show ?case
    by (auto simp: is_inversion simp del: is_ty.simps) (blast intro: ReferenceTy.IH)
next
  case (FunctionTy m n as r v)
  from FunctionTy.prems show ?case
    by (auto simp: is_inversion simp del: is_ty.simps) (meson is_list_trans FunctionTy.IH)+
next
  case (EnumTy m i gs l)
  from EnumTy.prems show ?case
    by (auto simp: is_inversion simp del: is_ty.simps) (meson is_list_trans EnumTy.IH)+
next
  case (DefinedTy m i gs l)
  from DefinedTy.prems show ?case
    by (auto simp: is_inversion simp del: is_ty.simps) (meson is_list_trans DefinedTy.IH)+
next
  case (InterfaceTy m i gs l)
  from InterfaceTy.prems show ?case
    by (auto simp: is_inversion simp del: is_ty.simps) (meson is_list_trans InterfaceTy.IH)+
qed simp

interpretation types_eq: search_equality is_ty proper
  by unfold_locales (fact is_refl is_sym is_trans)+

lemma proper_is_alias:
  "proper a \<Longrightarrow> \<not> primitive_name (bt_name i) \<Longrightarrow> \<not> is_ty a (TypeAliasTy m i gs b)"
  using primitive_getName [of a] by (cases a) auto

text \<open>Only the left one of two types is looked through: an alias on the right is never reached.\<close>

lemma named_primitive: "primitive a \<Longrightarrow> named b \<Longrightarrow> is_ty a b \<longleftrightarrow> primitive b \<and> getName a = getName b"
proof -
  assume a: "primitive a" "named b"
  have "\<not> primitive_name (getName b)" if "\<not> primitive b"
    using that \<open>named b\<close> by (cases b) (auto simp: primitive_name_def MUT_PTR_def CONST_PTR_def)
  with a primitive_getName [of a] show ?thesis by (metis primitive_is)
qed

lemma primitive_proper: "primitive t \<Longrightarrow> proper t \<and> without_aliases t = t"
  by (cases t) auto

lemma is_list_without_aliases:
  assumes "list_all named ys"
    and "\<And>x y. x \<in> set xs \<Longrightarrow> named y \<Longrightarrow> is_ty x y \<longleftrightarrow> proper y \<and> is_ty (without_aliases x) y"
  shows "list_all2 is_ty xs ys \<longleftrightarrow> list_all proper ys \<and> list_all2 is_ty (map without_aliases xs) ys"
  using assms by (auto simp: list_all2_conv_all_nth list_all_length)

lemma is_without_aliases: "named a \<Longrightarrow> named b \<Longrightarrow> is_ty a b \<longleftrightarrow> proper b \<and> is_ty (without_aliases a) b"
proof (induction a arbitrary: b)
  case (VoidTy m)
  then show ?case using named_primitive [of "VoidTy m" b] primitive_proper [of b] by auto
next
  case (FloatTy m n)
  then show ?case using named_primitive [of "FloatTy m n" b] primitive_proper [of b] by auto
next
  case (IntTy m n s)
  then show ?case using named_primitive [of "IntTy m n s" b] primitive_proper [of b] by auto
next
  case (FunctionTy m n as r v)
  have *: "list_all named bs \<Longrightarrow> list_all2 is_ty as bs \<longleftrightarrow> list_all proper bs \<and> list_all2 is_ty (map without_aliases as) bs" for bs
    by (rule is_list_without_aliases) (use FunctionTy in \<open>auto simp: list_all_iff\<close>)
  with FunctionTy.prems FunctionTy.IH(2) show ?case by (cases b) auto
next
  case (EnumTy m i gs l)
  have *: "list_all named bs \<Longrightarrow> list_all2 is_ty gs bs \<longleftrightarrow> list_all proper bs \<and> list_all2 is_ty (map without_aliases gs) bs" for bs
    by (rule is_list_without_aliases) (use EnumTy in \<open>auto simp: list_all_iff\<close>)
  with EnumTy.prems show ?case by (cases b) auto
next
  case (DefinedTy m i gs l)
  have *: "list_all named bs \<Longrightarrow> list_all2 is_ty gs bs \<longleftrightarrow> list_all proper bs \<and> list_all2 is_ty (map without_aliases gs) bs" for bs
    by (rule is_list_without_aliases) (use DefinedTy in \<open>auto simp: list_all_iff\<close>)
  with DefinedTy.prems show ?case by (cases b) auto
next
  case (InterfaceTy m i gs l)
  have *: "list_all named bs \<Longrightarrow> list_all2 is_ty gs bs \<longleftrightarrow> list_all proper bs \<and> list_all2 is_ty (map without_aliases gs) bs" for bs
    by (rule is_list_without_aliases) (use InterfaceTy in \<open>auto simp: list_all_iff\<close>)
  with InterfaceTy.prems show ?case by (cases b) auto
next
  case (PointerTy m a)
  then show ?case by (cases b) auto
next
  case (ReferenceTy m a)
  then show ?case by (cases b) auto
next
  case (TypeAliasTy m i gs a)
  then show ?case by simp
qed

text \<open>
  C12. Type equality, for types in which no declared name is the name of a primitive type. On types
  without aliases it is an equivalence relation, so the order of the comparison does not matter there.
  With aliases it is not symmetric: aliases of the left type, at any depth, are looked through, and a right
  type with an alias in it, at any depth, equals nothing.
\<close>

theorem type_equality:
  assumes "named a" "named b" "named c"
  shows "(is_ty a b \<longleftrightarrow> proper b \<and> is_ty (without_aliases a) b) \<and> proper (without_aliases a)
    \<and> (proper a \<and> proper b \<and> proper c \<longrightarrow>
        is_ty a a \<and> is_ty a b = is_ty b a \<and> (is_ty a b \<and> is_ty b c \<longrightarrow> is_ty a c))"
  using is_without_aliases [OF assms(1,2)] without_aliases_proper [OF assms(1)] types_eq.eq_refl types_eq.eq_sym types_eq.eq_trans by blast

lemma type_equality_witness:
  "is_ty (PointerTy True (IntTy False 8 True)) (PointerTy False (IntTy True 8 True))
     = is_ty (PointerTy False (IntTy True 8 True)) (PointerTy True (IntTy False 8 True))
   \<and> \<not> is_ty (IntTy False 8 True) (TypeAliasTy False \<lparr>bt_name = ''Size'', uuid = ''m.Size'', bt_module = new_Module ''m'' [], bt_id = 7\<rparr> []
     (IntTy False 8 True))"
proof -
  have *: "named (TypeAliasTy False \<lparr>bt_name = ''Size'', uuid = ''m.Size'', bt_module = new_Module ''m'' [], bt_id = 7\<rparr> []
     (IntTy False 8 True))"
    by (simp add: primitive_name_def)
  show ?thesis
    using type_equality [of "PointerTy True (IntTy False 8 True)" "PointerTy False (IntTy True 8 True)" "VoidTy False"]
      type_equality [OF _ * _, of "IntTy False 8 True" "VoidTy False"]
    by simp
qed

text \<open>
  An alias left in a type is not handled: it equals its base, its base does not equal it, and
  neither the alias nor a pointer to it equals itself.
\<close>

theorem alias_not_itself:
  assumes "proper a" "\<not> primitive_name (bt_name i)"
  shows "is_ty (TypeAliasTy m i gs a) a \<and> \<not> is_ty a (TypeAliasTy m i gs a)
    \<and> \<not> is_ty (TypeAliasTy m i gs a) (TypeAliasTy m i gs a)
    \<and> \<not> is_ty (PointerTy k (TypeAliasTy m i gs a)) (PointerTy k (TypeAliasTy m i gs a))"
  using assms by (simp add: is_refl proper_is_alias)

lemma alias_not_itself_witness:
  "\<not> is_ty (TypeAliasTy False \<lparr>bt_name = ''Size'', uuid = ''m.Size'', bt_module = new_Module ''m'' [], bt_id = 7\<rparr> []
       (IntTy False 64 True))
     (TypeAliasTy False \<lparr>bt_name = ''Size'', uuid = ''m.Size'', bt_module = new_Module ''m'' [], bt_id = 7\<rparr> []
       (IntTy False 64 True))"
  using alias_not_itself [of "IntTy False 64 True"
      "\<lparr>bt_name = ''Size'', uuid = ''m.Size'', bt_module = new_Module ''m'' [], bt_id = 7\<rparr>" False "[]" False]
  by (simp add: primitive_name_def)

subsection \<open>Mangled names of equal types\<close>

text \<open>
  C13. Two structural types are equal for the compiler exactly when their mangled names are the same
  string: no two different types share a symbol, and mutability does not enter either.
\<close>

theorem mangled_name_identifies:
  assumes "structural a" "structural b"
  shows "is_ty a b \<longleftrightarrow> getMangledName a = getMangledName b"
  using mangle_complete [of a b] mangle_endsD [OF mangle_ends_structural, of a b "[]" "[]"] assms
  by (auto simp: starts_dot_def)

lemma mangled_name_identifies_witness:
  "is_ty (FunctionTy True ''<fn type>'' [PointerTy True (IntTy False 32 True)] (VoidTy False) False)
     (FunctionTy False ''<fn type>'' [PointerTy False (IntTy True 32 True)] (VoidTy False) True)
   \<longleftrightarrow> getMangledName (FunctionTy True ''<fn type>'' [PointerTy True (IntTy False 32 True)] (VoidTy False) False)
     = getMangledName (FunctionTy False ''<fn type>'' [PointerTy False (IntTy True 32 True)] (VoidTy False) True)"
  by (rule mangled_name_identifies) simp_all

text \<open>Two classes of one module with the same mangled name have the same name and number.\<close>

lemma starts_digit_append: "\<not> starts_digit n \<Longrightarrow> n \<noteq> [] \<Longrightarrow> \<not> starts_digit (n @ s)"
  by (cases n) (auto simp: starts_digit_def)

lemma class_mangling_identifies:
  assumes "uniqueName (bt_module i) = uniqueName (bt_module j)"
    and "bt_name i \<noteq> []" "\<not> starts_digit (bt_name i)" "bt_name j \<noteq> []" "\<not> starts_digit (bt_name j)"
    and "getMangledName (DefinedTy m i gs l) = getMangledName (DefinedTy m' j gs' l')"
  shows "bt_name i = bt_name j \<and> bt_id i = bt_id j"
proof -
  let ?r = "\<lambda>gs. (if gs = [] then [] else ''ClsGSt'' @ mangle_generics 1 gs) @ ''ClsE''"
  let ?id = "\<lambda>i gs. nat_to_string (bt_id i) @ ?r (map getMangledName gs)"
  have "nat_to_string (length (bt_name i)) @ bt_name i @ ''Cv'' @ ?id i gs
      = nat_to_string (length (bt_name j)) @ bt_name j @ ''Cv'' @ ?id j gs'"
    using assms(1,6) by (auto simp: mangle_nominal_def mangle_head_def split: if_splits)
  then have "mangle_plain (bt_name i) @ ''Cv'' @ ?id i gs = mangle_plain (bt_name j) @ ''Cv'' @ ?id j gs'"
    by (simp add: mangle_plain_def)
  from mangle_plain_unique [OF this] assms have name: "bt_name i = bt_name j" and r: "?id i gs = ?id j gs'"
    by simp_all
  have "\<not> starts_digit (?r gs)" for gs by (simp add: starts_digit_def is_digit_def)
  from nat_to_string_unique [OF r this this] name show ?thesis by simp
qed

section \<open>Sizes and alignments\<close>

text \<open>
  Types whose numeric parts have a positive 32 bit width and that are not \<^verbatim>\<open>void\<close>, and heaps whose
  classes and enums hold only such types: the layouts the compiler means to compute.
\<close>

fun positive :: "ty \<Rightarrow> bool" where
  "positive (VoidTy _) = False"
| "positive (FloatTy _ b) = (0 < b \<and> b < 2 ^ 31)"
| "positive (IntTy _ b _) = (0 < b \<and> b < 2 ^ 31)"
| "positive (TypeAliasTy _ _ _ b) = positive b"
| "positive _ = True"

definition held_types :: "class_obj \<Rightarrow> ty list" where
  "held_types c = map cf_type (cls_fields c) @ concat (map snd (enum_fields c))"

definition well_sized :: "type_heap \<Rightarrow> bool" where
  "well_sized h \<longleftrightarrow> (\<forall>l c. objs h l = Some c \<longrightarrow> list_all positive (held_types c))"

lemma smod_nonneg: "0 \<le> a \<Longrightarrow> 0 < b \<Longrightarrow> a smod b = a mod b" for a b :: int
  by (cases "a = 0") (simp_all add: signed_modulo_int_def)

lemma i64_Inr [res_simps]: "i64 x = Inr y \<longleftrightarrow> y = x \<and> - (2 ^ 63) \<le> x \<and> x < 2 ^ 63"
  by (auto simp: i64_def)

lemma i64_Inl [res_simps]: "i64 x = Inl e \<longleftrightarrow> e = Undefined ''signed overflow'' \<and> \<not> (- (2 ^ 63) \<le> x \<and> x < 2 ^ 63)"
  by (auto simp: i64_def)

lemma pad_term: "0 \<le> a \<Longrightarrow> 0 < al \<Longrightarrow> (a - a smod al) smod al = 0" for a al :: int
proof -
  assume "0 \<le> a" "0 < al"
  moreover have "0 \<le> a - a mod al"
    using \<open>0 \<le> a\<close> \<open>0 < al\<close> by (simp add: zmod_le_nonneg_dividend)
  ultimately show ?thesis
    by (simp add: smod_nonneg minus_mod_eq_mult_div)
qed

lemma pad_to_nonneg:
  assumes "0 \<le> a" "0 < al"
  shows "pad_to al a = bindR (i64 a) (\<lambda>b. i64 (a + (al - a mod al) mod al))"
proof -
  have "0 \<le> al - a mod al" using assms by (simp add: less_imp_le)
  then have "(al - a smod al) smod al = (al - a mod al) mod al"
    using assms by (simp add: smod_nonneg del: minus_mod_self1)
  with assms pad_term [OF assms] show ?thesis
    by (simp add: pad_to_def i64_def del: minus_mod_self1)
qed

lemma pad_arith:
  fixes a al :: int
  assumes "0 \<le> a" "0 < al"
  shows "al dvd a + (al - a mod al) mod al" and "0 \<le> (al - a mod al) mod al \<and> (al - a mod al) mod al < al"
proof -
  have "(a + (al - a mod al) mod al) mod al = ((a - a mod al) + al) mod al"
    using mod_add_right_eq [of a "al - a mod al" al] by (simp only: diff_add_eq add_diff_eq)
  also have "\<dots> = 0" by (simp add: minus_mod_eq_mult_div)
  finally show "al dvd a + (al - a mod al) mod al" by auto
  show "0 \<le> (al - a mod al) mod al \<and> (al - a mod al) mod al < al"
    using assms by simp
qed

lemma pad_to_Inr:
  assumes "0 \<le> a" "0 < al" "pad_to al a = Inr b"
  shows "al dvd b \<and> a \<le> b \<and> b < a + al"
  using assms pad_arith [OF assms(1,2)] by (auto simp: pad_to_nonneg res_simps)

lemma pad_to_Inl:
  assumes "0 \<le> a" "0 < al" "pad_to al a = Inl e"
  shows "e = Undefined ''signed overflow''"
  using assms by (auto simp: pad_to_nonneg res_simps)

lemma max_loop_bounds:
  assumes "max_loop nw f ts m = Inr n" and "\<And>t v. t \<in> set ts \<Longrightarrow> f t = Inr v \<Longrightarrow> p v"
    and "\<And>v. p v \<Longrightarrow> nw v = v"
  shows "m \<le> n \<and> (n = m \<or> p n) \<and> (\<forall>t\<in>set ts. \<exists>v. f t = Inr v \<and> v \<le> n)"
  using assms
proof (induction ts arbitrary: m)
  case (Cons t ts)
  then obtain s where s: "f t = Inr s" and r: "max_loop nw f ts (if m < s then nw s else m) = Inr n"
    by (auto simp: res_simps)
  moreover have "p s" using s Cons.prems(2) [of t s] by simp
  moreover have "(if m < s then nw s else m) \<le> n \<and> (n = (if m < s then nw s else m) \<or> p n)
    \<and> (\<forall>t\<in>set ts. \<exists>v. f t = Inr v \<and> v \<le> n)"
    by (rule Cons.IH [OF r]) (use Cons.prems(2,3) in \<open>auto\<close>)
  ultimately show ?case using Cons.prems(3) [of s] by (auto split: if_splits)
qed simp

lemma enum_max_bounds:
  assumes "enum_max nw f es m = Inr n" and "\<And>e t v. e \<in> set es \<Longrightarrow> t \<in> set (snd e) \<Longrightarrow> f t = Inr v \<Longrightarrow> p v"
    and "\<And>v. p v \<Longrightarrow> nw v = v"
  shows "m \<le> n \<and> (n = m \<or> n = 0 \<or> p n) \<and> (\<forall>e\<in>set es. \<forall>t\<in>set (snd e). \<exists>v. f t = Inr v \<and> v \<le> n)"
  using assms
proof (induction es arbitrary: m)
  case (Cons e es)
  then obtain s where s: "max_loop nw f (snd e) 0 = Inr s"
    and r: "enum_max nw f es (if m < s then s else m) = Inr n"
    by (auto simp: res_simps)
  have "0 \<le> s \<and> (s = 0 \<or> p s) \<and> (\<forall>t\<in>set (snd e). \<exists>v. f t = Inr v \<and> v \<le> s)"
    using max_loop_bounds [OF s, of p] Cons.prems(2) [of e] Cons.prems(3) by auto
  moreover have "(if m < s then s else m) \<le> n \<and> (n = (if m < s then s else m) \<or> n = 0 \<or> p n)
    \<and> (\<forall>e\<in>set es. \<forall>t\<in>set (snd e). \<exists>v. f t = Inr v \<and> v \<le> n)"
    by (rule Cons.IH [OF r]) (use Cons.prems(2,3) in \<open>auto\<close>)
  ultimately show ?case by (fastforce split: if_splits)
qed simp

lemma to_int32_id: "0 \<le> v \<Longrightarrow> v < 2 ^ 31 \<Longrightarrow> to_int32 v = v"
  by (simp add: to_int32_def)

lemma held_positive:
  assumes "well_sized h" "objs h l = Some c" "t \<in> set (held_types c)"
  shows "positive t"
  using assms by (auto simp: well_sized_def list_all_iff)

lemma class_at_Inr [res_simps]: "class_at h l = Inr c \<longleftrightarrow> objs h l = Some c"
  by (simp add: class_at_def split: option.splits)

lemma alignment_bounds:
  assumes "well_sized h"
  shows "alignmentOf k h t = Inr al \<Longrightarrow> positive t \<Longrightarrow> 0 < al \<and> al < 2 ^ 31"
proof (induction k arbitrary: t al)
  case (Suc k)
  have fields: "0 \<le> m \<and> m < 2 ^ 31"
    if "max_loop id (alignmentOf k h) (map cf_type (cls_fields c)) 0 = Inr m" "objs h l = Some c" for c l m
    using max_loop_bounds [OF that(1), of "\<lambda>v. 0 < v \<and> v < 2 ^ 31"] Suc.IH held_positive [OF assms that(2)]
    by (auto simp: held_types_def)
  have variants: "0 \<le> m \<and> m < 2 ^ 31"
    if "enum_max to_int32 (alignmentOf k h) (enum_fields c) 0 = Inr m" "objs h l = Some c" for c l m
    using enum_max_bounds [OF that(1), of "\<lambda>v. 0 < v \<and> v < 2 ^ 31"] Suc.IH held_positive [OF assms that(2)]
    by (force simp: held_types_def to_int32_id)
  from Suc show ?case
    by (cases t) (auto simp: res_simps at_least_one_def dest!: fields variants)
qed simp


text \<open>
  The specification of a layout: every member lies at a multiple of its alignment, at the first such
  address after the member before it.
\<close>

fun lays_out :: "int \<Rightarrow> (int \<times> int) list \<Rightarrow> int list \<Rightarrow> int \<Rightarrow> bool" where
  "lays_out a [] [] e = (e = a)"
| "lays_out a ((s, l) # ms) (off # offs) e =
     (l dvd off \<and> a \<le> off \<and> off < a + l \<and> lays_out (off + s) ms offs e)"
| "lays_out _ _ _ _ = False"

lemma lays_out_bound: "lays_out a ms offs e \<Longrightarrow> \<forall>m\<in>set ms. 0 \<le> fst m \<Longrightarrow> a + sum_list (map fst ms) \<le> e"
  by (induction a ms offs e rule: lays_out.induct) auto

lemma place_fields_layout:
  assumes "place_fields sz al ts a = Inr e" and "0 \<le> a"
    and "\<And>t v. t \<in> set ts \<Longrightarrow> sz t = Inr v \<Longrightarrow> 0 < v" and "\<And>t v. t \<in> set ts \<Longrightarrow> al t = Inr v \<Longrightarrow> 0 < v"
  shows "\<exists>ss ls offs. mapR sz ts = Inr ss \<and> mapR al ts = Inr ls \<and> lays_out a (zip ss ls) offs e"
  using assms
proof (induction ts arbitrary: a)
  case (Cons t ts)
  then obtain s l b where st: "sz t = Inr s" "al t = Inr l" "pad_to l a = Inr b"
    and r: "place_fields sz al ts (b + s) = Inr e"
    by (auto simp: res_simps)
  have pos: "0 < s" "0 < l" using st Cons.prems(3,4) [of t] by simp_all
  from pad_to_Inr [OF Cons.prems(2) pos(2) st(3)] have b: "l dvd b" "a \<le> b" "b < a + l" by simp_all
  have "\<exists>ss ls offs. mapR sz ts = Inr ss \<and> mapR al ts = Inr ls \<and> lays_out (b + s) (zip ss ls) offs e"
    by (rule Cons.IH [OF r]) (use Cons.prems pos b in auto)
  then obtain ss ls offs where "mapR sz ts = Inr ss" "mapR al ts = Inr ls" "lays_out (b + s) (zip ss ls) offs e"
    by blast
  with st b have "mapR sz (t # ts) = Inr (s # ss) \<and> mapR al (t # ts) = Inr (l # ls)
      \<and> lays_out a (zip (s # ss) (l # ls)) (b # offs) e"
    by simp
  then show ?case by blast
next
  case Nil
  then show ?case by (auto intro: exI [of _ "[]"])
qed

lemma place_fields_nonneg:
  assumes "place_fields sz al ts a = Inr e" and "0 \<le> a"
    and "\<And>t v. t \<in> set ts \<Longrightarrow> sz t = Inr v \<Longrightarrow> 0 < v" and "\<And>t v. t \<in> set ts \<Longrightarrow> al t = Inr v \<Longrightarrow> 0 < v"
  shows "a \<le> e"
  using assms
proof (induction ts arbitrary: a)
  case (Cons t ts)
  then obtain s l b where st: "sz t = Inr s" "al t = Inr l" "pad_to l a = Inr b"
    and r: "place_fields sz al ts (b + s) = Inr e"
    by (auto simp: res_simps)
  have pos: "0 < s" "0 < l" using st Cons.prems(3,4) [of t] by simp_all
  from pad_to_Inr [OF Cons.prems(2) pos(2) st(3)] have b: "a \<le> b" by simp
  have "b + s \<le> e" by (rule Cons.IH [OF r]) (use Cons.prems pos b in auto)
  with pos b show ?case by simp
qed simp

lemma size_positive:
  assumes "well_sized h"
  shows "sizeOf k h t = Inr n \<Longrightarrow> positive t \<Longrightarrow> 0 < n"
proof (induction k arbitrary: t n)
  case (Suc k)
  have fields: "0 \<le> a"
    if "place_fields (sizeOf k h) (alignmentOf k h) (map cf_type (cls_fields c)) 0 = Inr a" "objs h l = Some c" for c l a
    by (rule place_fields_nonneg [OF that(1)])
      (use Suc.IH alignment_bounds [OF assms] held_positive [OF assms that(2)] in \<open>auto simp: held_types_def\<close>)
  have variants: "0 \<le> m"
    if "enum_max id (sizeOf k h) (enum_fields c) 0 = Inr m" for m c
    using enum_max_bounds [OF that, of "\<lambda>_. True"] by simp
  have pad: "0 \<le> b" if "pad_to al a = Inr b" "alignmentOf (Suc k) h t = Inr al" "0 \<le> a" for al a b
    using pad_to_Inr [OF that(3) _ that(1)] alignment_bounds [OF assms that(2)] Suc.prems(2) that(3) by simp
  show ?case
  proof (cases t)
    case (EnumTy m i gs l)
    with Suc.prems(1) show ?thesis by (auto simp: res_simps dest: variants)
  next
    case (DefinedTy m i gs l)
    with Suc.prems(1) obtain c a al b where "objs h l = Some c"
      "place_fields (sizeOf k h) (alignmentOf k h) (map cf_type (cls_fields c)) 0 = Inr a"
      "alignmentOf (Suc k) h t = Inr al" "pad_to al a = Inr b"
      "n = at_least_one (b + of_bool (hasVtable c) * 8)"
      by (auto simp: res_simps)
    with fields [of c a l] pad [of al a b] show ?thesis
      by (auto simp: at_least_one_def)
  next
    case (InterfaceTy m i gs l)
    with Suc.prems(1) obtain c a al b where "objs h l = Some c"
      "place_fields (sizeOf k h) (alignmentOf k h) (map cf_type (cls_fields c)) 0 = Inr a"
      "alignmentOf (Suc k) h t = Inr al" "pad_to al a = Inr b"
      "n = at_least_one b + of_bool (hasVtable c) * 8"
      by (auto simp: res_simps)
    with fields [of c a l] pad [of al a b] show ?thesis
      by (auto simp: at_least_one_def)
  qed (use Suc in auto)
qed simp

text \<open>
  C14. The size of a class refines the layout specification: its fields are laid out in order, each
  aligned and with less than one alignment of padding; the end is padded to the alignment of the class,
  then the pointer to the virtual table is added; no field lies outside.
\<close>

theorem class_layout:
  assumes "well_sized h" and "objs h l = Some c" and "sizeOf (Suc k) h (DefinedTy m i gs l) = Inr n"
  shows "\<exists>ss ls offs e al b.
    mapR (sizeOf k h) (map cf_type (cls_fields c)) = Inr ss
    \<and> mapR (alignmentOf k h) (map cf_type (cls_fields c)) = Inr ls
    \<and> lays_out 0 (zip ss ls) offs e \<and> sum_list ss \<le> n
    \<and> alignmentOf (Suc k) h (DefinedTy m i gs l) = Inr al
    \<and> al dvd b \<and> 0 \<le> e \<and> e \<le> b \<and> b < e + al
    \<and> n = at_least_one (b + of_bool (hasVtable c) * 8)"
proof -
  from assms obtain a al b where
    pf: "place_fields (sizeOf k h) (alignmentOf k h) (map cf_type (cls_fields c)) 0 = Inr a"
    and al: "alignmentOf (Suc k) h (DefinedTy m i gs l) = Inr al" and b: "pad_to al a = Inr b"
    and n: "n = at_least_one (b + of_bool (hasVtable c) * 8)"
    by (auto simp: res_simps)
  have pos: "0 < v" if "t \<in> set (map cf_type (cls_fields c))" "sizeOf k h t = Inr v \<or> alignmentOf k h t = Inr v" for t v
    using that held_positive [OF assms(1,2), of t] size_positive [OF assms(1)] alignment_bounds [OF assms(1)]
    by (auto simp: held_types_def)
  obtain ss ls offs where lay: "mapR (sizeOf k h) (map cf_type (cls_fields c)) = Inr ss"
    "mapR (alignmentOf k h) (map cf_type (cls_fields c)) = Inr ls" "lays_out 0 (zip ss ls) offs a"
    using place_fields_layout [OF pf] pos by blast
  have "0 \<le> a" by (rule place_fields_nonneg [OF pf]) (use pos in auto)
  moreover have "0 < al" using alignment_bounds [OF assms(1) al] by simp
  ultimately have pad: "al dvd b" "a \<le> b" "b < a + al" using pad_to_Inr b by blast+
  have len: "length ss = length ls" using mapR_Inr_length [OF lay(1)] mapR_Inr_length [OF lay(2)] by simp
  have "\<forall>s\<in>set ss. 0 \<le> s"
    using mapR_Inr_set [OF lay(1)] pos by (meson less_imp_le)
  then have "sum_list ss \<le> a"
    using lays_out_bound [OF lay(3)] len by (force dest: set_zip_leftD)
  with pad n have "sum_list ss \<le> n" by (auto simp: at_least_one_def)
  with lay al pad n \<open>0 \<le> a\<close> show ?thesis by blast
qed


definition sample_class :: class_obj where
  "sample_class = empty_class\<lparr>cls_fields :=
     [\<lparr>cf_name = ''a'', cf_type = IntTy False 8 True, cf_public = True, cf_mutable = False,
        cf_value = None, is_method = False\<rparr>,
      \<lparr>cf_name = ''b'', cf_type = IntTy False 32 True, cf_public = True, cf_mutable = False,
        cf_value = None, is_method = False\<rparr>], hasVtable := True\<rparr>"

definition sample_heap :: type_heap where
  "sample_heap = \<lparr>objs = (\<lambda>_. None)(0 \<mapsto> sample_class), nextLoc = 1, currentId = 1\<rparr>"

definition sample_info :: base_info where
  "sample_info = \<lparr>bt_name = ''C'', uuid = ''m.C'', bt_module = new_Module ''m'' [], bt_id = 0\<rparr>"

abbreviation sample_type :: ty where
  "sample_type \<equiv> DefinedTy True sample_info [] 0"

lemmas sample_defs = sample_class_def sample_heap_def sample_info_def empty_class_def

lemma sample_size:
  "sizeOf (Suc (Suc 0)) sample_heap sample_type = Inr 72" "alignmentOf (Suc (Suc 0)) sample_heap sample_type = Inr 32"
  by (simp_all add: sample_defs class_at_def i64_def pad_to_def at_least_one_def smod_nonneg)

lemma sample_well_sized: "well_sized sample_heap"
  by (simp add: well_sized_def sample_defs held_types_def)

lemma class_layout_witness:
  "\<exists>ss ls offs e al b.
    mapR (sizeOf 1 sample_heap) (map cf_type (cls_fields sample_class)) = Inr ss
    \<and> mapR (alignmentOf 1 sample_heap) (map cf_type (cls_fields sample_class)) = Inr ls
    \<and> lays_out 0 (zip ss ls) offs e \<and> sum_list ss \<le> 72
    \<and> alignmentOf (Suc 1) sample_heap sample_type = Inr al
    \<and> al dvd b \<and> 0 \<le> e \<and> e \<le> b \<and> b < e + al
    \<and> 72 = at_least_one (b + of_bool (hasVtable sample_class) * 8)"
  by (rule class_layout [OF sample_well_sized]) (simp_all only: One_nat_def sample_size, simp add: sample_heap_def)

text \<open>
  The pointer to the virtual table is added after the end was padded, as 8 where sizes of fields are
  counted in bits: the size of a class with a virtual table is a multiple of its alignment only when the
  alignment divides 8.
\<close>

theorem vtable_breaks_alignment:
  assumes "well_sized h" and "objs h l = Some c" and "hasVtable c"
    and "sizeOf (Suc k) h (DefinedTy m i gs l) = Inr n" and "alignmentOf (Suc k) h (DefinedTy m i gs l) = Inr al"
  shows "al dvd n \<longleftrightarrow> al dvd 8"
proof -
  from class_layout [OF assms(1,2,4)] assms(3,5) obtain e b where
    "al dvd b" "0 \<le> e" "e \<le> b" and n: "n = at_least_one (b + 8)"
    by auto
  then have "n = b + 8" by (simp add: at_least_one_def)
  with \<open>al dvd b\<close> show ?thesis by (simp add: dvd_add_right_iff)
qed

lemma vtable_breaks_alignment_witness: "32 dvd (72::int) \<longleftrightarrow> 32 dvd (8::int)"
  using vtable_breaks_alignment [OF sample_well_sized, of 0 sample_class "Suc 0" True
      sample_info "[]" 72 32]
    sample_size
  by (simp add: sample_heap_def sample_class_def del: sizeOf.simps alignmentOf.simps)

text \<open>
  Containment by value must be well founded: \<open>r\<close> ranks the objects above the types they hold.
\<close>

fun depth :: "(nat \<Rightarrow> nat) \<Rightarrow> ty \<Rightarrow> nat" where
  "depth r (TypeAliasTy _ _ _ b) = Suc (depth r b)"
| "depth r (EnumTy _ _ _ l) = Suc (r l)"
| "depth r (DefinedTy _ _ _ l) = Suc (r l)"
| "depth r (InterfaceTy _ _ _ l) = Suc (r l)"
| "depth r _ = 0"

fun allocated :: "type_heap \<Rightarrow> ty \<Rightarrow> bool" where
  "allocated h (TypeAliasTy _ _ _ b) = allocated h b"
| "allocated h (EnumTy _ _ _ l) = (objs h l \<noteq> None)"
| "allocated h (DefinedTy _ _ _ l) = (objs h l \<noteq> None)"
| "allocated h (InterfaceTy _ _ _ l) = (objs h l \<noteq> None)"
| "allocated h _ = True"

definition ranked_heap :: "type_heap \<Rightarrow> (nat \<Rightarrow> nat) \<Rightarrow> bool" where
  "ranked_heap h r \<longleftrightarrow>
     (\<forall>l c. objs h l = Some c \<longrightarrow> list_all (\<lambda>t. allocated h t \<and> depth r t \<le> r l) (held_types c))"

definition well_founded_heap :: "type_heap \<Rightarrow> (nat \<Rightarrow> nat) \<Rightarrow> bool" where
  "well_founded_heap h r \<longleftrightarrow> well_sized h \<and> ranked_heap h r"

definition overflows :: "int res \<Rightarrow> bool" where
  "overflows x \<longleftrightarrow> (\<forall>e. x = Inl e \<longrightarrow> e = Undefined ''signed overflow'')"

lemma overflows_intros [intro]:
  "overflows (Inr v)" "overflows (i64 v)"
  "overflows m \<Longrightarrow> (\<And>v. m = Inr v \<Longrightarrow> overflows (f v)) \<Longrightarrow> overflows (bindR m f)"
  by (auto simp: overflows_def res_simps)

lemma overflows_pad: "0 \<le> a \<Longrightarrow> 0 < al \<Longrightarrow> overflows (pad_to al a)"
  using pad_to_Inl by (auto simp: overflows_def)

lemma max_loop_total:
  "(\<And>t. t \<in> set ts \<Longrightarrow> \<exists>v. f t = Inr v) \<Longrightarrow> \<exists>v. max_loop nw f ts m = Inr v"
proof (induction ts arbitrary: m)
  case (Cons t ts)
  moreover from this obtain v where "f t = Inr v" by auto
  ultimately show ?case by simp
qed simp

lemma enum_max_total:
  "(\<And>t. t \<in> set (concat (map snd es)) \<Longrightarrow> \<exists>v. f t = Inr v) \<Longrightarrow> \<exists>v. enum_max nw f es m = Inr v"
proof (induction es arbitrary: m)
  case (Cons e es)
  moreover obtain v where "max_loop nw f (snd e) 0 = Inr v"
    using max_loop_total [of "snd e" f nw 0] Cons.prems by auto
  ultimately show ?case by simp
qed simp

lemma ranked_facts:
  assumes "ranked_heap h r" "objs h l = Some c" "t \<in> set (held_types c)"
  shows "allocated h t \<and> depth r t \<le> r l"
  using assms by (auto simp: ranked_heap_def list_all_iff)

lemma held_facts:
  assumes "well_founded_heap h r" "objs h l = Some c" "t \<in> set (held_types c)"
  shows "positive t \<and> allocated h t \<and> depth r t \<le> r l"
  using assms by (auto simp: well_founded_heap_def well_sized_def ranked_heap_def list_all_iff)

lemma alignment_total:
  assumes "ranked_heap h r"
  shows "allocated h t \<Longrightarrow> depth r t < k \<Longrightarrow> \<exists>al. alignmentOf k h t = Inr al"
proof (induction k arbitrary: t)
  case (Suc k)
  have held: "\<exists>al. alignmentOf k h u = Inr al"
    if "objs h l = Some c" "u \<in> set (held_types c)" "r l < k" for l c u
    using Suc.IH ranked_facts [OF assms that(1,2)] that(3) by simp
  have cls: "\<exists>m. max_loop id (alignmentOf k h) (map cf_type (cls_fields c)) 0 = Inr m"
    if "objs h l = Some c" "r l < k" for l c
    by (rule max_loop_total) (use held [OF that(1) _ that(2)] in \<open>auto simp: held_types_def\<close>)
  have enum: "\<exists>m. enum_max to_int32 (alignmentOf k h) (enum_fields c) 0 = Inr m"
    if "objs h l = Some c" "r l < k" for l c
    by (rule enum_max_total) (use held [OF that(1) _ that(2)] in \<open>auto simp: held_types_def\<close>)
  have "\<exists>al. alignmentOf (Suc k) h t = Inr al" if "t = DefinedTy m i gs l \<or> t = InterfaceTy m i gs l" for m i gs l
    using that cls [of l] Suc.prems by (auto simp: class_at_def)
  moreover have "\<exists>al. alignmentOf (Suc k) h t = Inr al" if "t = EnumTy m i gs l" for m i gs l
    using that enum [of l] Suc.prems by (auto simp: class_at_def)
  ultimately show ?case using Suc by (cases t) auto
qed simp

lemma max_loop_overflows:
  "(\<And>t. t \<in> set ts \<Longrightarrow> overflows (f t)) \<Longrightarrow> overflows (max_loop nw f ts m)"
  by (induction ts arbitrary: m) (auto intro!: overflows_intros)

lemma enum_max_overflows:
  "(\<And>t. t \<in> set (concat (map snd es)) \<Longrightarrow> overflows (f t)) \<Longrightarrow> overflows (enum_max nw f es m)"
  by (induction es arbitrary: m) (auto intro!: overflows_intros max_loop_overflows)

lemma place_fields_overflows:
  assumes "\<And>t. t \<in> set ts \<Longrightarrow> overflows (sz t) \<and> overflows (al t)" and "0 \<le> a"
    and "\<And>t v. t \<in> set ts \<Longrightarrow> sz t = Inr v \<Longrightarrow> 0 < v" and "\<And>t v. t \<in> set ts \<Longrightarrow> al t = Inr v \<Longrightarrow> 0 < v"
  shows "overflows (place_fields sz al ts a)"
  using assms
proof (induction ts arbitrary: a)
  case (Cons t ts)
  have "overflows (place_fields sz al ts c)" if "sz t = Inr s" "al t = Inr l" "pad_to l a = Inr b" "c = b + s" for s l b c
  proof (rule Cons.IH)
    have "0 < s" "0 < l" using that Cons.prems(3,4) [of t] by simp_all
    with pad_to_Inr [OF Cons.prems(2) _ that(3)] Cons.prems(2) that(4) show "0 \<le> c" by simp
  qed (use Cons.prems in \<open>fastforce+\<close>)
  moreover have "overflows (pad_to l a)" if "al t = Inr l" for l
    using overflows_pad [OF Cons.prems(2)] Cons.prems(4) [of t] that by simp
  ultimately show ?case
    using Cons.prems(1) [of t] by (auto intro!: overflows_intros simp: i64_Inr)
qed auto

lemma sizeOf_overflows:
  assumes "well_founded_heap h r"
  shows "positive t \<Longrightarrow> allocated h t \<Longrightarrow> depth r t < k \<Longrightarrow> overflows (sizeOf k h t)"
proof (induction k arbitrary: t)
  case (Suc k)
  have ws: "well_sized h" and ranked: "ranked_heap h r" using assms by (simp_all add: well_founded_heap_def)
  have held: "overflows (sizeOf k h u) \<and> positive u \<and> (\<exists>al. alignmentOf k h u = Inr al)"
    if "objs h l = Some c" "u \<in> set (held_types c)" "r l < k" for l c u
    using Suc.IH [of u] held_facts [OF assms that(1,2)] that(3) alignment_total [OF ranked, of u k] by simp
  have cls: "overflows (place_fields (sizeOf k h) (alignmentOf k h) (map cf_type (cls_fields c)) 0)
    \<and> (\<forall>a. place_fields (sizeOf k h) (alignmentOf k h) (map cf_type (cls_fields c)) 0 = Inr a \<longrightarrow> 0 \<le> a)"
    if "objs h l = Some c" "r l < k" for l c
  proof -
    have "overflows (sizeOf k h u) \<and> overflows (alignmentOf k h u) \<and> positive u"
      if "u \<in> set (map cf_type (cls_fields c))" for u
      using held [OF \<open>objs h l = Some c\<close> _ \<open>r l < k\<close>, of u] that by (auto simp: held_types_def)
    then show ?thesis
      using size_positive [OF ws] alignment_bounds [OF ws]
      by (auto intro!: place_fields_overflows dest: place_fields_nonneg)
  qed
  obtain al where al: "alignmentOf (Suc k) h t = Inr al" "0 < al"
    using alignment_total [OF ranked Suc.prems(2,3)] alignment_bounds [OF ws] Suc.prems(1) by blast
  have "overflows (sizeOf (Suc k) h t)" if t: "t = EnumTy m i gs l" for m i gs l
  proof -
    from Suc.prems(2,3) obtain c where "objs h l = Some c" "r l < k" using t by auto
    then show ?thesis
      using t held by (auto simp: class_at_def held_types_def intro!: overflows_intros enum_max_overflows)
  qed
  moreover have "overflows (sizeOf (Suc k) h t)" if t: "t = DefinedTy m i gs l \<or> t = InterfaceTy m i gs l" for m i gs l
  proof -
    from Suc.prems(2,3) obtain c where c: "objs h l = Some c" "r l < k" using t by auto
    show ?thesis
      using t c al cls [OF c] overflows_pad [OF _ al(2)]
      by (auto simp: res_simps class_at_def intro!: overflows_intros)
  qed
  ultimately show ?case using Suc by (cases t) (auto simp: overflows_def)
qed simp

text \<open>Without the condition on the widths, a division by the alignment of a \<^verbatim>\<open>void\<close> can fail as well.\<close>

definition arithmetic_failure :: "int res \<Rightarrow> bool" where
  "arithmetic_failure x \<longleftrightarrow>
     (\<forall>e. x = Inl e \<longrightarrow> e = Undefined ''signed overflow'' \<or> e = Undefined ''division by zero'')"

lemma arithmetic_failure_intros [intro]:
  "arithmetic_failure (Inr v)" "arithmetic_failure (i64 v)" "arithmetic_failure (pad_to al a)"
  "arithmetic_failure m \<Longrightarrow> (\<And>v. m = Inr v \<Longrightarrow> arithmetic_failure (f v)) \<Longrightarrow> arithmetic_failure (bindR m f)"
  by (auto simp: arithmetic_failure_def res_simps pad_to_def)

lemma place_fields_arithmetic:
  "(\<And>t. t \<in> set ts \<Longrightarrow> arithmetic_failure (sz t) \<and> arithmetic_failure (al t)) \<Longrightarrow> arithmetic_failure (place_fields sz al ts a)"
  by (induction ts arbitrary: a) (auto intro!: arithmetic_failure_intros)

lemma max_loop_arithmetic:
  "(\<And>t. t \<in> set ts \<Longrightarrow> arithmetic_failure (f t)) \<Longrightarrow> arithmetic_failure (max_loop nw f ts m)"
  by (induction ts arbitrary: m) (auto intro!: arithmetic_failure_intros)

lemma enum_max_arithmetic:
  "(\<And>t. t \<in> set (concat (map snd es)) \<Longrightarrow> arithmetic_failure (f t)) \<Longrightarrow> arithmetic_failure (enum_max nw f es m)"
  by (induction es arbitrary: m) (auto intro!: arithmetic_failure_intros max_loop_arithmetic)

lemma sizeOf_arithmetic:
  assumes "ranked_heap h r"
  shows "allocated h t \<Longrightarrow> depth r t < k \<Longrightarrow> arithmetic_failure (sizeOf k h t)"
proof (induction k arbitrary: t)
  case (Suc k)
  have held: "arithmetic_failure (sizeOf k h u) \<and> arithmetic_failure (alignmentOf k h u)"
    if "objs h l = Some c" "u \<in> set (held_types c)" "r l < k" for l c u
    using Suc.IH [of u] ranked_facts [OF assms that(1,2)] that(3) alignment_total [OF assms, of u k]
    by (auto simp: arithmetic_failure_def)
  have cls: "arithmetic_failure (place_fields (sizeOf k h) (alignmentOf k h) (map cf_type (cls_fields c)) 0)"
    if "objs h l = Some c" "r l < k" for l c
    by (rule place_fields_arithmetic) (use held [OF that(1) _ that(2)] in \<open>auto simp: held_types_def\<close>)
  obtain al where al: "alignmentOf (Suc k) h t = Inr al"
    using alignment_total [OF assms Suc.prems] by blast
  have "arithmetic_failure (sizeOf (Suc k) h t)" if t: "t = EnumTy m i gs l" for m i gs l
  proof -
    from Suc.prems obtain c where "objs h l = Some c" "r l < k" using t by auto
    then show ?thesis
      using t held by (auto simp: class_at_def held_types_def intro!: arithmetic_failure_intros enum_max_arithmetic)
  qed
  moreover have "arithmetic_failure (sizeOf (Suc k) h t)"
    if t: "t = DefinedTy m i gs l \<or> t = InterfaceTy m i gs l" for m i gs l
  proof -
    from Suc.prems obtain c where c: "objs h l = Some c" "r l < k" using t by auto
    show ?thesis
      using t c al cls [OF c] by (auto simp: res_simps class_at_def intro!: arithmetic_failure_intros)
  qed
  ultimately show ?case using Suc by (cases t) (auto simp: arithmetic_failure_def)
qed simp

text \<open>
  C15. On a heap where no class holds itself by value and no referenced class is missing, computing a
  size with any stack deeper than the nesting of the type returns: it gives a size or fails in the
  64 bit arithmetic, by an overflow or by a division by zero. When moreover neither the type nor
  a part of a class or enum on the heap is \<^verbatim>\<open>void\<close>, and all numeric parts have a positive 32 bit
  width, an overflow is the only failure.
\<close>

theorem sizeOf_returns:
  assumes "ranked_heap h r" and "allocated h t" and "depth r t < k"
  shows "(\<forall>e. sizeOf k h t = Inl e \<longrightarrow> e = Undefined ''signed overflow'' \<or> e = Undefined ''division by zero'')
    \<and> (well_sized h \<and> positive t \<longrightarrow> (\<forall>e. sizeOf k h t = Inl e \<longrightarrow> e = Undefined ''signed overflow''))"
  using sizeOf_arithmetic [OF assms] sizeOf_overflows [of h r t k] assms
  by (simp add: arithmetic_failure_def overflows_def well_founded_heap_def)

lemma sizeOf_returns_witness:
  "\<not> (\<exists>e. sizeOf 2 sample_heap sample_type = Inl e \<and> e \<noteq> Undefined ''signed overflow'')"
proof -
  have "ranked_heap sample_heap (\<lambda>_. 0)"
    by (simp add: ranked_heap_def sample_defs held_types_def)
  from sizeOf_returns [OF this, of sample_type 2] sample_well_sized show ?thesis
    by (simp add: sample_defs del: sizeOf.simps)
qed

text \<open>A class whose first field is the class itself exhausts every stack.\<close>

lemma self_containing_class_diverges:
  assumes "objs h l = Some c" and "map cf_type (cls_fields c) = DefinedTy m i gs l # ts"
  shows "sizeOf k h (DefinedTy m i gs l) = Inl (Undefined ''stack exhausted'')"
  using assms by (induction k) (simp_all add: class_at_def)

section \<open>Casts\<close>

text \<open>Every number converts to every number: the test on the widths only lets widening skip the
  check of mutability.\<close>

lemma canCast_numeric:
  assumes "isNumericType a" "isNumericType b"
  shows "canCast h a b =
    (if (\<exists>m i s m' j s'. a = IntTy m i s \<and> b = IntTy m' j s' \<and> i \<le> j) then Valid
     else if \<not> isMutable a \<and> isMutable b then NoCast else Valid)"
  using assms by (cases a; cases b) (auto simp: canCast_def)

text \<open>A class converts to its direct parent and to no other class.\<close>

lemma canCast_class:
  assumes "objs h l = Some c"
  shows "canCast h (DefinedTy True i gs l) (DefinedTy True i' gs' l') =
    (case cls_parent c of
       Some p \<Rightarrow> if is_ty (DefinedTy True i' gs' l') p then Valid else NoCast
     | None \<Rightarrow> NoCast)"
  using assms by (auto simp: canCast_def split: option.splits)

text \<open>
  C16. A plain cast of an immutable value to a mutable type exists only between pointers one of which
  points to \<^verbatim>\<open>void\<close>, and between integers that do not get narrower.
\<close>

theorem canCast_mutability:
  assumes "\<not> isMutable a" "isMutable b" "canCast h a b = Valid"
  shows "(\<exists>m p m' q. a = PointerTy m p \<and> b = PointerTy m' q \<and> (is_VoidTy p \<or> is_VoidTy q))
    \<or> (\<exists>m i s m' j s'. a = IntTy m i s \<and> b = IntTy m' j s' \<and> i \<le> j)"
proof -
  have p: "\<exists>m q. t = PointerTy m q" if "is_PointerTy t" for t using that by (cases t) auto
  show ?thesis
    using assms p [of a] p [of b] by (auto simp: canCast_def split: if_splits ty.splits)
qed

lemma canCast_mutability_witness:
  "(\<exists>m p m' q. IntTy False 8 True = PointerTy m p \<and> IntTy True 16 True = PointerTy m' q \<and> (is_VoidTy p \<or> is_VoidTy q))
    \<or> (\<exists>m i s m' j s'. IntTy False 8 True = IntTy m i s \<and> IntTy True 16 True = IntTy m' j s' \<and> i \<le> j)"
  by (rule canCast_mutability [where h = empty_heap]) (simp_all add: canCast_def)

lemma canCast_references:
  assumes "is_ty p a"
  shows "canCast h (ReferenceTy m p) a = AutoDeref"
    and "\<forall>k q. a \<noteq> ReferenceTy k q \<Longrightarrow> canCast h a (ReferenceTy m p) = AutoRef"
    and "\<forall>k q. a \<noteq> ReferenceTy k q \<and> a \<noteq> PointerTy k q \<Longrightarrow> canCast h a (PointerTy m p) = ToPointer"
  using assms by (cases a; auto simp: canCast_def)+

section \<open>Copies\<close>

text \<open>The heap of class objects never runs ahead of its allocation pointer.\<close>

definition heap_ok :: "type_heap \<Rightarrow> bool" where
  "heap_ok h \<longleftrightarrow> (\<forall>l. objs h l \<noteq> None \<longrightarrow> l < nextLoc h)"

lemma heap_ok_ops [intro]:
  "heap_ok empty_heap"
  "heap_ok h \<Longrightarrow> heap_ok (snd (alloc c h))"
  "heap_ok h \<Longrightarrow> heap_ok (snd (fresh_id h))"
  "heap_ok h \<Longrightarrow> heap_ok (snd (copy_obj l h))"
  "heap_ok h \<Longrightarrow> heap_ok (update_obj f l h)"
  by (auto simp: heap_ok_def empty_heap_def alloc_def fresh_id_def copy_obj_def update_obj_def
      less_Suc_eq split: if_splits)

lemma heap_ok_types:
  assumes "heap_ok h"
  shows "heap_ok (snd (new_DefinedType n u m fs p gs st h))" "heap_ok (snd (new_EnumType n u m h))"
    "heap_ok (snd (new_InterfaceType n u m fs gs h))" "heap_ok (snd (new_TypeAlias n t m h))"
    "heap_ok (snd (copy_type t h))"
proof -
  show "heap_ok (snd (copy_type t h))"
    using assms heap_ok_ops(4) [OF assms] by (cases t) (auto simp: copy_obj_def)
qed (use assms in \<open>auto simp: heap_ok_def new_DefinedType_def new_EnumType_def new_InterfaceType_def
      new_TypeAlias_def alloc_def fresh_id_def less_Suc_eq split: if_splits\<close>)

text \<open>
  Copying a class type, which every pointer, reference and use of the type does, takes a snapshot: the
  copy is a new object equal to the old one under the same symbol, and a field added to the class later
  does not appear in it.
\<close>

theorem copy_is_snapshot:
  assumes "heap_ok h" "objs h l = Some c" and "copy_type (DefinedTy m i gs l) h = (t', h')"
  shows "\<exists>l'. t' = DefinedTy m i gs l' \<and> l' \<noteq> l \<and> objs h l' = None \<and> objs h' l' = Some c
    \<and> objs (addField f l h') l' = Some c
    \<and> objs (addField f l h') l = Some (c\<lparr>cls_fields := cls_fields c @ [f]\<rparr>)
    \<and> (\<forall>b. is_ty t' b = is_ty (DefinedTy m i gs l) b) \<and> getMangledName t' = getMangledName (DefinedTy m i gs l)"
proof -
  have "l < nextLoc h" and "objs h (nextLoc h) = None"
    using assms(1,2) by (auto simp: heap_ok_def)
  with assms show ?thesis
    by (auto simp: copy_obj_def addField_def update_obj_def)
qed

lemma copy_is_snapshot_witness:
  "\<exists>l. objs (addField (hd (cls_fields sample_class)) 0 (snd (copy_type sample_type sample_heap))) l = Some sample_class"
proof -
  have "heap_ok sample_heap" "objs sample_heap 0 = Some sample_class"
    by (simp_all add: heap_ok_def sample_heap_def)
  from copy_is_snapshot [OF this surjective_pairing] show ?thesis by blast
qed

end
