(* ===== verification/Ir.thy ===== *)
theory Ir
  imports Types Attributes Ast
begin

text \<open>
  The values of the intermediate representation (\<^verbatim>\<open>src/ir/values/\<close>), which the transformer
  produces and the type checker reads. A value is a tree of \<open>ir_value\<close>; functions and variables
  are shared objects with a number of their own (\<^verbatim>\<open>IdMixin\<close>), so a tree names them by number and
  their members live in two maps. The first argument of every other constructor is the type that
  \<^verbatim>\<open>setType\<close> gives the value; \<open>None\<close> is the member a constructor leaves uninitialised.
  A position that C++ declares as a block holds an \<open>IrBlock\<close>. Not kept are the source positions,
  the LLVM text and the allocated symbols of a function, and the object an initialisation
  creates: only the LLVM builder reads them.
\<close>

section \<open>Values\<close>

datatype call_kind = PlainCall | ObjectInitialization bool | BinaryOpCall bool | ZeroInitialized

datatype ir_value =
    IrFunc nat
  | IrVariable nat
  | IrArgument nat
  | IrString "ty option" string
  | IrNumber "ty option" "64 word"
  | IrFloat "ty option" "64 word"
  | IrBoolean "ty option" bool
  | IrChar "ty option" char
  | IrEnumInit "ty option" string
  | IrBlock "ty option" AttributeHolder "ir_value list"
  | IrCall "ty option" call_kind "ir_value option" "ir_value list" bool
  | IrValueExtract "ty option" ir_value
  | IrReturn "ty option" "ir_value option"
  | IrCast "ty option" ir_value ty
  | IrThrow "ty option" ir_value
  | IrVariableDeclaration "ty option" nat "ir_value option" bool
  | IrWhileLoop "ty option" ir_value ir_value bool "ir_value option"
  | IrConditional "ty option" ir_value ir_value "ir_value option"
  | IrTryCatch "ty option" ir_value "ir_value list" "ir_value list"
  | IrReferenceTo "ty option" ir_value
  | IrDereferenceTo "ty option" ir_value
  | IrIndexExtract "ty option" ir_value class_field nat
  | IrLoopFlow "ty option" FlowType
  | IrSwitch "ty option" ir_value "(ir_value list \<times> ir_value \<times> string) list" "(ir_value \<times> ir_value) list"
      "ir_value option" bool

text \<open>The members of \<^verbatim>\<open>ir::Variable\<close> and \<^verbatim>\<open>ir::Func\<close>.\<close>

record ir_var =
  v_identifier :: string
  v_isArgument :: bool
  v_isMutable :: bool
  v_scopeIndex :: int
  v_usedInLambda :: bool
  v_parentFunc :: "nat option"
  v_type :: "ty option"

record ir_func =
  f_identifier :: string
  f_variadic :: bool
  f_declaration :: bool
  f_anon :: bool
  f_static :: bool
  f_arguments :: "(string \<times> nat) list"
  f_retTy :: "ty option"
  f_type :: "ty option"
  f_body :: "ir_value option"
  f_parent :: "ty option"
  f_virtualIndex :: int
  f_scopeIndex :: int
  f_parentScope :: "nat option"
  f_usesParentScope :: bool
  f_externalName :: string
  f_module :: ir_module
  f_attributes :: AttributeHolder
  f_generics :: "(string \<times> ty) list"
  f_privacy :: Privacy

definition new_Variable :: "string \<Rightarrow> bool \<Rightarrow> bool \<Rightarrow> int \<Rightarrow> ir_var" where
  "new_Variable name is_argument is_mutable scope =
     \<lparr>v_identifier = name, v_isArgument = is_argument, v_isMutable = is_mutable, v_scopeIndex = scope,
      v_usedInLambda = False, v_parentFunc = None, v_type = None\<rparr>"

definition new_Argument :: "string \<Rightarrow> int \<Rightarrow> ir_var" where
  "new_Argument name scope = new_Variable name True False scope"

definition new_Func :: "string \<Rightarrow> ir_value option \<Rightarrow> (string \<times> nat) list \<Rightarrow> bool \<Rightarrow> bool \<Rightarrow> bool \<Rightarrow> ty option
    \<Rightarrow> ir_module \<Rightarrow> ir_func" where
  "new_Func name body args is_declaration is_variadic is_anon parent m =
     \<lparr>f_identifier = name, f_variadic = is_variadic, f_declaration = is_declaration, f_anon = is_anon,
      f_static = False, f_arguments = args, f_retTy = None, f_type = None, f_body = body,
      f_parent = parent, f_virtualIndex = - 1, f_scopeIndex = - 1, f_parentScope = None,
      f_usesParentScope = False, f_externalName = [], f_module = m, f_attributes = no_attributes,
      f_generics = [], f_privacy = PRIVATE\<rparr>"

subsection \<open>Members with assertions\<close>

definition setUsesParentScope :: "ir_func \<Rightarrow> ir_func res" where
  "setUsesParentScope f = (if f_anon f then Inr (f\<lparr>f_usesParentScope := True\<rparr>) else Inl AssertFail)"

definition setUsedInLambda :: "ir_var \<Rightarrow> ir_var" where
  "setUsedInLambda v = v\<lparr>v_usedInLambda := True\<rparr>"

definition setParentFunc :: "nat option \<Rightarrow> ir_var \<Rightarrow> ir_var res" where
  "setParentFunc p v = (if v_usedInLambda v then Inr (v\<lparr>v_parentFunc := p\<rparr>) else Inl AssertFail)"

definition getVirtualIndex :: "ir_func \<Rightarrow> int res" where
  "getVirtualIndex f = (if f_virtualIndex f \<noteq> - 1 then Inr (f_virtualIndex f) else Inl AssertFail)"

section \<open>Functions\<close>

definition Func_isConstructor :: "ir_func \<Rightarrow> bool res" where
  "Func_isConstructor f =
     bindR (opEquals OT_CONSTRUCTOR (f_identifier f)) (\<lambda>c. Inr (c \<and> f_parent f \<noteq> None))"

definition Func_getName :: "ir_func \<Rightarrow> bool \<Rightarrow> string res" where
  "Func_getName f ignoreOperators =
     (if isOperator (f_identifier f) \<and> \<not> ignoreOperators
      then bindR (operatorID (f_identifier f)) operatorName
      else Inr (f_identifier f))"

text \<open>\<^verbatim>\<open>Func::getArgs\<close>: the first argument is dropped for \<^verbatim>\<open>ignoreSelf\<close>, evaluated in the order of the code.\<close>

definition Func_getArgs :: "ir_func \<Rightarrow> bool \<Rightarrow> (string \<times> nat) list res" where
  "Func_getArgs f ignoreSelf =
     (if \<not> ignoreSelf \<or> f_arguments f = [] then Inr (f_arguments f)
      else if f_parent f \<noteq> None \<and> \<not> f_static f then Inr (tl (f_arguments f))
      else bindR (Func_isConstructor f) (\<lambda>c. Inr (if c then tl (f_arguments f) else f_arguments f)))"

definition Func_isExternal :: "string \<Rightarrow> bool" where
  "Func_isExternal name \<longleftrightarrow> \<not> startsWith name MANGLE_PREFIX"

text \<open>
  \<^verbatim>\<open>Func::argumentSizesEqual\<close>: how many parameters in a row after the provided ones have a default
  value (only syntactic parameters can have one; for other element types the predicate is constantly
  false), and the comparison of the numbers.
\<close>

definition default_args :: "('p \<Rightarrow> bool) \<Rightarrow> 'p list \<Rightarrow> nat \<Rightarrow> nat" where
  "default_args hasDefaultValue functionArgs provided =
     length (takeWhile hasDefaultValue (drop provided functionArgs))"

definition argumentSizesEqual :: "('p \<Rightarrow> bool) \<Rightarrow> 'p list \<Rightarrow> nat \<Rightarrow> bool \<Rightarrow> bool" where
  "argumentSizesEqual hasDefaultValue functionArgs provided variadic \<longleftrightarrow>
     length functionArgs - default_args hasDefaultValue functionArgs provided = provided
     \<or> (length functionArgs \<le> provided \<and> variadic)"

subsection \<open>Mangled names\<close>

text \<open>
  \<^verbatim>\<open>_SNOWBALL_LAMBDA_FUNCTIONS\<close> is an initialiser list that ends with a zero; the string built from
  it ends with that character.
\<close>

definition LAMBDA_FUNCTIONS :: string where "LAMBDA_FUNCTIONS = ''lambda function'' @ [NUL]"
definition LAMBDA_SIZE :: nat where "LAMBDA_SIZE = 17"

definition endsWith :: "string \<Rightarrow> string \<Rightarrow> bool" where
  "endsWith mainStr toMatch \<longleftrightarrow>
     length toMatch \<le> length mainStr \<and> drop (length mainStr - length toMatch) mainStr = toMatch"

text \<open>The difference of two \<^verbatim>\<open>size_t\<close> values wraps; \<^verbatim>\<open>substr\<close> takes at most what is there.\<close>

definition size_minus :: "nat \<Rightarrow> nat \<Rightarrow> nat" where
  "size_minus a b = nat ((int a - int b) mod 2 ^ 64)"

definition lambda_name :: "string \<Rightarrow> string" where
  "lambda_name name =
     (if endsWith name LAMBDA_FUNCTIONS then take (size_minus (length name) (LAMBDA_SIZE + 1)) name @ ''.$LmbdF''
      else name)"

primrec mangle_arguments :: "nat \<Rightarrow> string list \<Rightarrow> string" where
  "mangle_arguments k [] = []"
| "mangle_arguments k (a # as) = ''A'' @ nat_to_string k @ a @ mangle_arguments (k + 1) as"

definition uninitialised :: failure where
  "uninitialised = Undefined ''uninitialised or null type''"

definition the_type :: "ty option \<Rightarrow> ty res" where
  "the_type t = (case t of Some a \<Rightarrow> Inr a | None \<Rightarrow> Inl uninitialised)"

definition dangling :: failure where
  "dangling = Undefined ''dangling value''"

definition the_object :: "'a option \<Rightarrow> 'a res" where
  "the_object x = (case x of Some a \<Rightarrow> Inr a | None \<Rightarrow> Inl dangling)"

text \<open>\<^verbatim>\<open>Func::getMangle\<close>, given the variables and the number of the function.\<close>

definition Func_getMangle :: "(nat \<Rightarrow> ir_var option) \<Rightarrow> nat \<Rightarrow> ir_func \<Rightarrow> string res" where
  "Func_getMangle vars i f =
     (if f_externalName f \<noteq> [] then Inr (f_externalName f)
      else if hasAttribute (f_attributes f) EXPORT \<and> map_of (getAttributeArgs (f_attributes f) EXPORT) ''name'' \<noteq> None
      then Inr (the (map_of (getAttributeArgs (f_attributes f) EXPORT) ''name''))
      else if hasAttribute (f_attributes f) NO_MANGLE then Inr (f_identifier f)
      else bindR (mapR (\<lambda>a. bindR (the_object (vars (snd a))) (\<lambda>v. bindR (the_type (v_type v))
             (\<lambda>t. Inr (getMangledName t)))) (f_arguments f)) (\<lambda>args.
        let base = (case f_parent f of Some p \<Rightarrow> getMangledName p | None \<Rightarrow> uniqueName (f_module f));
            name = lambda_name (f_identifier f)
        in Inr ((if startsWith base MANGLE_PREFIX then base else MANGLE_PREFIX @ base) @ ''&''
             @ nat_to_string (length name) @ name @ ''Cv'' @ nat_to_string i
             @ ''Sa'' @ mangle_arguments 1 args @ ''FnE'')))"

section \<open>Types of values\<close>

text \<open>\<^verbatim>\<open>Value::getType\<close>; the members of functions and variables are looked up.\<close>

fun stored_type :: "(nat \<Rightarrow> ir_func option) \<Rightarrow> (nat \<Rightarrow> ir_var option) \<Rightarrow> ir_value \<Rightarrow> ty option" where
  "stored_type fs vs (IrFunc i) = Option.bind (fs i) f_type"
| "stored_type fs vs (IrVariable i) = Option.bind (vs i) v_type"
| "stored_type fs vs (IrArgument i) = Option.bind (vs i) v_type"
| "stored_type fs vs (IrString t _) = t"
| "stored_type fs vs (IrNumber t _) = t"
| "stored_type fs vs (IrFloat t _) = t"
| "stored_type fs vs (IrBoolean t _) = t"
| "stored_type fs vs (IrChar t _) = t"
| "stored_type fs vs (IrEnumInit t _) = t"
| "stored_type fs vs (IrBlock t _ _) = t"
| "stored_type fs vs (IrCall t _ _ _ _) = t"
| "stored_type fs vs (IrValueExtract t _) = t"
| "stored_type fs vs (IrReturn t _) = t"
| "stored_type fs vs (IrCast t _ _) = t"
| "stored_type fs vs (IrThrow t _) = t"
| "stored_type fs vs (IrVariableDeclaration t _ _ _) = t"
| "stored_type fs vs (IrWhileLoop t _ _ _ _) = t"
| "stored_type fs vs (IrConditional t _ _ _) = t"
| "stored_type fs vs (IrTryCatch t _ _ _) = t"
| "stored_type fs vs (IrReferenceTo t _) = t"
| "stored_type fs vs (IrDereferenceTo t _) = t"
| "stored_type fs vs (IrIndexExtract t _ _ _) = t"
| "stored_type fs vs (IrLoopFlow t _) = t"
| "stored_type fs vs (IrSwitch t _ _ _ _ _) = t"

text \<open>\<^verbatim>\<open>Transformer::getFunctionType\<close>: a function type, or the first generic of a class of the core runtime.\<close>

definition CORE_UUID :: string where "CORE_UUID = ''@sn.std.''"

fun getFunctionType :: "ty \<Rightarrow> ty option res" where
  "getFunctionType (FunctionTy m n as r v) = Inr (Some (FunctionTy m n as r v))"
| "getFunctionType (DefinedTy _ i gs _) =
     (if startsWith (uuid i) (CORE_UUID @ ''std.Function'')
      then (case gs of
          [] \<Rightarrow> Inl (Undefined ''vector index'')
        | g # _ \<Rightarrow> (case g of FunctionTy m n as r v \<Rightarrow> Inr (Some g) | _ \<Rightarrow> Inr None))
      else Inr None)"
| "getFunctionType _ = Inr None"

end
