(* ===== verification/TypeChecker.thy ===== *)
theory TypeChecker
  imports Ir
begin

text \<open>
  The type checker, \<^verbatim>\<open>src/visitors/TypeChecker.{h,cc}\<close>. A visit is a function from the state to a
  failure or the next state. The state holds the functions and variables of the module, the class
  objects, and the context of the checker: the current function, the unsafe flag, and the list of
  diagnostics. Diagnostics do not interrupt a visit (\<^verbatim>\<open>E\<close> appends); \<^verbatim>\<open>codegen\<close> throws them at the end.

  Every \<^verbatim>\<open>VISIT\<close> is a definition of its own with the recursive visit as parameter \<open>vis\<close>; \<open>typecheck\<close> ties
  them with fuel for the depth of the calls, which \<open>TypeChecker_Props\<close> bounds. A message is a
  constructor of \<open>tc_message\<close>; of the texts spelled into it only the names of attributes are kept.
\<close>

section \<open>State\<close>

datatype tc_message =
    Void_value | Pointer_dereference_unsafe | Not_a_reference
  | Enum_argument_count | Enum_argument_type | Case_type
  | Call_has_no_callee | Not_callable | Not_implemented | Unsafe_function
  | Cast_from_void | Pointer_to_function_unsafe | Cast_to_mutable | Cast_impossible
  | Return_with_value | Return_without_value | Return_type
  | Mutating_method_immutable | Assign_immutable | Not_assignable
  | Attribute_with_arguments | Only_on_unsafe
  | Test_without_body | Test_return_type | Test_with_arguments | Test_inline
  | Test_expect_missing | Test_expect_number | Test_skip_value | Test_attribute string
  | Bench_without_body | Bench_with_arguments | Bench_inline
  | Inline_without_body | Inline_no_inline
  | Llvm_sanitise_value | Llvm_attribute string
  | Missing_override

type_synonym tc_error = "Error \<times> tc_message"

record tc_state =
  funcs :: "nat \<Rightarrow> ir_func option"
  vars :: "nat \<Rightarrow> ir_var option"
  class_objs :: type_heap
  currentFunction :: "nat option"
  unsafeContext :: bool
  errors :: "tc_error list"

type_synonym tc = "tc_state \<Rightarrow> tc_state res"
type_synonym 'a tcq = "tc_state \<Rightarrow> 'a res"

definition skipT :: tc where
  "skipT s = Inr s"

definition seqT :: "tc \<Rightarrow> tc \<Rightarrow> tc" where
  "seqT m n s = bindR (m s) n"

definition queryT :: "'a tcq \<Rightarrow> ('a \<Rightarrow> tc) \<Rightarrow> tc" where
  "queryT q f s = bindR (q s) (\<lambda>a. f a s)"

definition failT :: "failure \<Rightarrow> tc" where
  "failT e s = Inl e"

definition assertT :: "bool \<Rightarrow> tc" where
  "assertT b = (if b then skipT else failT AssertFail)"

primrec forT :: "('a \<Rightarrow> tc) \<Rightarrow> 'a list \<Rightarrow> tc" where
  "forT f [] = skipT"
| "forT f (x # xs) = seqT (f x) (forT f xs)"

definition optT :: "('a \<Rightarrow> tc) \<Rightarrow> 'a option \<Rightarrow> tc" where
  "optT f x = (case x of Some a \<Rightarrow> f a | None \<Rightarrow> skipT)"

definition whenT :: "bool \<Rightarrow> tc \<Rightarrow> tc" where
  "whenT b m = (if b then m else skipT)"

text \<open>\<^verbatim>\<open>TypeChecker::E\<close>.\<close>

definition E :: "Error \<Rightarrow> tc_message \<Rightarrow> tc" where
  "E err message s = Inr (s\<lparr>errors := errors s @ [(err, message)]\<rparr>)"

definition update_func :: "nat \<Rightarrow> (ir_func \<Rightarrow> ir_func) \<Rightarrow> tc_state \<Rightarrow> tc_state" where
  "update_func i g s = s\<lparr>funcs := (funcs s)(i := map_option g (funcs s i))\<rparr>"

definition update_var :: "nat \<Rightarrow> (ir_var \<Rightarrow> ir_var) \<Rightarrow> tc_state \<Rightarrow> tc_state" where
  "update_var i g s = s\<lparr>vars := (vars s)(i := map_option g (vars s i))\<rparr>"

definition func_of :: "nat \<Rightarrow> ir_func tcq" where
  "func_of i s = the_object (funcs s i)"

definition var_of :: "nat \<Rightarrow> ir_var tcq" where
  "var_of i s = the_object (vars s i)"

definition current_func :: "ir_func tcq" where
  "current_func s = (case currentFunction s of None \<Rightarrow> Inl dangling | Some i \<Rightarrow> func_of i s)"

definition getType :: "ir_value \<Rightarrow> ty tcq" where
  "getType v s = the_type (stored_type (funcs s) (vars s) v)"

section \<open>Checks shared by the visits\<close>

definition cantBeVoid :: "ty \<Rightarrow> tc" where
  "cantBeVoid t = whenT (is_VoidTy t) (E TYPE_ERROR Void_value)"

text \<open>
  \<^verbatim>\<open>ADD_TO_PARENT_SCOPE\<close>: the answer is whether the visit goes on after the macro, which returns from
  the visit when the current function is no lambda.
\<close>

definition captures :: "int \<Rightarrow> ir_var \<Rightarrow> ir_func \<Rightarrow> bool" where
  "captures isArg variable func \<longleftrightarrow>
     v_scopeIndex variable + isArg \<le> f_scopeIndex func \<and> 2 < v_scopeIndex variable + isArg"

definition ADD_TO_PARENT_SCOPE :: "nat \<Rightarrow> int \<Rightarrow> tc_state \<Rightarrow> (bool \<times> tc_state) res" where
  "ADD_TO_PARENT_SCOPE x isArg s =
     (case currentFunction s of
        None \<Rightarrow> Inr (True, s)
      | Some i \<Rightarrow>
          bindR (func_of i s) (\<lambda>func.
          if \<not> f_anon func then Inr (False, s)
          else bindR (var_of x s) (\<lambda>variable.
          if captures isArg variable func then
            bindR (setUsesParentScope func) (\<lambda>func'.
            bindR (setParentFunc (f_parentScope func) (setUsedInLambda variable)) (\<lambda>variable'.
            Inr (True, update_var x (\<lambda>_. variable') (update_func i (\<lambda>_. func') s))))
          else Inr (True, s))))"

text \<open>\<^verbatim>\<open>TypeChecker::isMutable\<close> of a value; an argument is a variable.\<close>

fun value_isMutable :: "ir_value \<Rightarrow> bool tcq" where
  "value_isMutable (IrVariable x) s = bindR (var_of x s) (\<lambda>v. Inr (v_isMutable v))"
| "value_isMutable (IrArgument x) s = bindR (var_of x s) (\<lambda>v. Inr (v_isMutable v))"
| "value_isMutable (IrIndexExtract _ _ field _) s = Inr (cf_mutable field)"
| "value_isMutable (IrVariableDeclaration _ x _ _) s = bindR (var_of x s) (\<lambda>v. Inr (v_isMutable v))"
| "value_isMutable (IrValueExtract _ v) s = value_isMutable v s"
| "value_isMutable (IrDereferenceTo _ v) s = value_isMutable v s"
| "value_isMutable (IrReferenceTo _ v) s = value_isMutable v s"
| "value_isMutable v s = bindR (getType v s) (\<lambda>t. Inr (Types.isMutable t))"

text \<open>\<^verbatim>\<open>TypeChecker::accessingSelf\<close>: the loop down a chain of field accesses.\<close>

fun accessingSelf :: "ir_value \<Rightarrow> bool tcq" where
  "accessingSelf (IrIndexExtract _ v _ _) s =
     (case v of
        IrVariable x \<Rightarrow> bindR (var_of x s) (\<lambda>x. Inr (v_identifier x = ''self''))
      | IrArgument x \<Rightarrow> bindR (var_of x s) (\<lambda>x. Inr (v_identifier x = ''self''))
      | _ \<Rightarrow> accessingSelf v s)"
| "accessingSelf v s = Inr False"

text \<open>The kinds of value an assignment accepts on its left whatever their type.\<close>

fun assignable_kind :: "ir_value \<Rightarrow> bool" where
  "assignable_kind (IrVariable _) = True"
| "assignable_kind (IrArgument _) = True"
| "assignable_kind (IrVariableDeclaration _ _ _ _) = True"
| "assignable_kind (IrValueExtract _ _) = True"
| "assignable_kind (IrIndexExtract _ _ _ _) = True"
| "assignable_kind (IrDereferenceTo _ _) = True"
| "assignable_kind (IrReferenceTo _ _) = True"
| "assignable_kind (IrCall _ _ _ _ _) = True"
| "assignable_kind _ = False"

fun is_PrimitiveTy :: "ty \<Rightarrow> bool" where
  "is_PrimitiveTy (VoidTy _) = True"
| "is_PrimitiveTy (FloatTy _ _) = True"
| "is_PrimitiveTy (IntTy _ _ _) = True"
| "is_PrimitiveTy _ = False"

definition is_BinaryOp :: "call_kind \<Rightarrow> bool" where
  "is_BinaryOp k \<longleftrightarrow> (case k of BinaryOpCall _ \<Rightarrow> True | _ \<Rightarrow> False)"

definition ignoreMutability :: "call_kind \<Rightarrow> bool" where
  "ignoreMutability k \<longleftrightarrow> (case k of BinaryOpCall b \<Rightarrow> b | _ \<Rightarrow> False)"

text \<open>The check at the end of \<^verbatim>\<open>checkMutability\<close>: the flag of the function type and of the first argument.\<close>

definition check_mutating_call :: "ir_func \<Rightarrow> bool \<Rightarrow> tc" where
  "check_mutating_call fn is_mutable =
     queryT (\<lambda>_. Func_isConstructor fn) (\<lambda>c. if c then skipT else
     queryT (\<lambda>_. the_type (f_type fn)) (\<lambda>t.
     whenT (Types.isMutable t \<and> \<not> is_mutable) (E VARIABLE_ERROR Mutating_method_immutable)))"

definition check_self_assignment :: "bool \<Rightarrow> bool \<Rightarrow> tc" where
  "check_self_assignment isAssignment self =
     (if isAssignment \<and> self then
        queryT current_func (\<lambda>f. queryT (\<lambda>_. the_type (f_type f)) (\<lambda>t.
        whenT (\<not> Types.isMutable t) (E VARIABLE_ERROR Mutating_method_immutable)))
      else skipT)"

definition check_assignable :: "ir_value \<Rightarrow> tc" where
  "check_assignable value =
     (if assignable_kind value then skipT
      else queryT (getType value) (\<lambda>t. whenT (is_PrimitiveTy t) (E VARIABLE_ERROR Not_assignable)))"

definition checkMutability :: "(ir_value \<Rightarrow> tc) \<Rightarrow> call_kind \<Rightarrow> bool \<Rightarrow> ir_func \<Rightarrow> ir_value \<Rightarrow> tc" where
  "checkMutability vis kind isInitialization fn value =
     queryT (\<lambda>_. Func_getName fn True) (\<lambda>fnName.
     queryT (value_isMutable value) (\<lambda>is_mutable.
     queryT (accessingSelf value) (\<lambda>self.
     queryT (\<lambda>_. if isOperator fnName then bindR (opEquals OT_CONSTRUCTOR fnName) (\<lambda>c. Inr (\<not> c)) else Inr False)
       (\<lambda>operator.
     if operator then
       queryT (\<lambda>_. operatorID fnName) (\<lambda>opType.
       let isAssignment = is_assignment opType in
       seqT (assertT (is_BinaryOp kind)) (
       seqT (check_self_assignment isAssignment self) (
       if isAssignment \<and> \<not> ignoreMutability kind \<and> \<not> is_mutable then
         seqT (if isInitialization then skipT
               else seqT (vis value) (queryT (value_isMutable value) (\<lambda>_. E VARIABLE_ERROR Assign_immutable)))
           (check_mutating_call fn is_mutable)
       else if isAssignment then check_assignable value
       else check_mutating_call fn is_mutable)))
     else check_mutating_call fn is_mutable))))"

section \<open>Declarations of functions\<close>

definition is_number :: "string \<Rightarrow> bool" where
  "is_number s \<longleftrightarrow> s \<noteq> [] \<and> list_all (\<lambda>c. 48 \<le> byte_of c \<and> byte_of c \<le> 57) s"

text \<open>The diagnostic of one argument of the attributes \<^verbatim>\<open>test\<close> and \<^verbatim>\<open>llvm_function\<close>.\<close>

definition test_argument :: "string \<times> string \<Rightarrow> tc" where
  "test_argument a =
     (case a of (name, val) \<Rightarrow>
       if name = ''expect'' then
         if val = [] then E SYNTAX_ERROR Test_expect_missing
         else whenT (\<not> is_number val) (E SYNTAX_ERROR Test_expect_number)
       else if name = ''skip'' then whenT (val \<noteq> []) (E SYNTAX_ERROR Test_skip_value)
       else E SYNTAX_ERROR (Test_attribute name))"

definition llvm_argument :: "string \<times> string \<Rightarrow> tc" where
  "llvm_argument a =
     (case a of (name, val) \<Rightarrow>
       if name = ''sanitise_void_return'' then whenT (val \<noteq> []) (E SYNTAX_ERROR Llvm_sanitise_value)
       else E SYNTAX_ERROR (Llvm_attribute name))"

definition check_test :: "ir_func \<Rightarrow> tc" where
  "check_test f =
     seqT (if f_declaration f then E SYNTAX_ERROR Test_without_body
       else queryT (\<lambda>_. the_type (f_retTy f)) (\<lambda>r.
         if \<not> isIntType 32 r then E SYNTAX_ERROR Test_return_type
         else if f_arguments f \<noteq> [] then E SYNTAX_ERROR Test_with_arguments
         else whenT (hasAttribute (f_attributes f) INLINE) (E SYNTAX_ERROR Test_inline)))
     (forT test_argument (getAttributeArgs (f_attributes f) TEST))"

definition check_bench :: "ir_func \<Rightarrow> tc" where
  "check_bench f =
     (if f_declaration f then E SYNTAX_ERROR Bench_without_body
      else if f_arguments f \<noteq> [] then E SYNTAX_ERROR Bench_with_arguments
      else whenT (hasAttribute (f_attributes f) INLINE) (E SYNTAX_ERROR Bench_inline))"

definition check_inline :: "ir_func \<Rightarrow> tc" where
  "check_inline f =
     (if f_declaration f then E SYNTAX_ERROR Inline_without_body
      else whenT (hasAttribute (f_attributes f) NO_INLINE) (E SYNTAX_ERROR Inline_no_inline))"

definition checkFunctionDeclaration :: "ir_func \<Rightarrow> tc" where
  "checkFunctionDeclaration f =
     (let has = hasAttribute (f_attributes f) in
      if has UNSAFE then
        whenT (getAttributeArgs (f_attributes f) UNSAFE_FUNC_NOT_BODY \<noteq> []) (E SYNTAX_ERROR Attribute_with_arguments)
      else if has UNSAFE_FUNC_NOT_BODY then E SYNTAX_ERROR Only_on_unsafe
      else if has TEST then check_test f
      else if has BENCH then check_bench f
      else if has INLINE then check_inline f
      else if has LLVM_FUNC then forT llvm_argument (getAttributeArgs (f_attributes f) LLVM_FUNC)
      else skipT)"

section \<open>The visits\<close>

text \<open>
  A function is visited once: the attribute \<^verbatim>\<open>TYPECHECKED\<close> marks it before its body is entered.
  The body runs with the unsafe flag that the attributes of the function ask for; current function
  and flag come back afterwards.
\<close>

definition body_unsafe :: "ir_func \<Rightarrow> bool" where
  "body_unsafe f \<longleftrightarrow>
     hasAttribute (f_attributes f) UNSAFE \<and> \<not> hasAttribute (f_attributes f) UNSAFE_FUNC_NOT_BODY"

definition mark_checked :: "ir_func \<Rightarrow> ir_func" where
  "mark_checked f = f\<lparr>f_attributes := addAttribute TYPECHECKED [] (f_attributes f)\<rparr>"

definition typecheck_Func :: "(ir_value \<Rightarrow> tc) \<Rightarrow> nat \<Rightarrow> tc" where
  "typecheck_Func vis i s =
     bindR (func_of i s) (\<lambda>f.
     if hasAttribute (f_attributes f) TYPECHECKED then Inr s
     else bindR (checkFunctionDeclaration (mark_checked f) (update_func i mark_checked s)) (\<lambda>s1.
       bindR (optT vis (f_body f) (s1\<lparr>currentFunction := Some i, unsafeContext := body_unsafe f\<rparr>)) (\<lambda>s2.
       Inr (s2\<lparr>unsafeContext := unsafeContext s1, currentFunction := currentFunction s1\<rparr>))))"

definition typecheck_DereferenceTo :: "(ir_value \<Rightarrow> tc) \<Rightarrow> ty option \<Rightarrow> ir_value \<Rightarrow> tc" where
  "typecheck_DereferenceTo vis t val =
     seqT (vis val) (
     queryT (\<lambda>_. the_type t) (\<lambda>_.
     queryT (getType val) (\<lambda>vt.
     seqT (cantBeVoid vt) (
     if is_PointerTy vt then
       (\<lambda>s. whenT (\<not> unsafeContext s) (E SYNTAX_ERROR Pointer_dereference_unsafe) s)
     else whenT (case vt of ReferenceTy _ _ \<Rightarrow> False | _ \<Rightarrow> True) (E TYPE_ERROR Not_a_reference)))))"

definition typecheck_ReferenceTo :: "(ir_value \<Rightarrow> tc) \<Rightarrow> ty option \<Rightarrow> ir_value \<Rightarrow> tc" where
  "typecheck_ReferenceTo vis t val =
     seqT (vis val) (queryT (\<lambda>_. the_type t) (\<lambda>_. queryT (getType val) cantBeVoid))"

text \<open>
  \<^verbatim>\<open>checkEnumInit\<close>. The iterator is dereferenced even when no field has the name; the loop over the
  arguments reads the types of the field past their end when too many arguments were given, for the
  diagnostic before it does not stop the check.
\<close>

definition enum_argument :: "ty list \<Rightarrow> nat \<times> ty \<Rightarrow> tc" where
  "enum_argument field_types a =
     (if fst a < length field_types
      then whenT (\<not> is_ty (snd a) (field_types ! fst a)) (E TYPE_ERROR Enum_argument_type)
      else failT (Undefined ''vector index''))"

fun types_of :: "ir_value list \<Rightarrow> ty list tcq" where
  "types_of [] s = Inr []"
| "types_of (v # vs) s = bindR (getType v s) (\<lambda>t. bindR (types_of vs s) (\<lambda>ts. Inr (t # ts)))"

text \<open>The loop that visits the arguments and collects their types.\<close>

fun typecheck_arguments :: "(ir_value \<Rightarrow> tc) \<Rightarrow> ir_value list \<Rightarrow> tc_state \<Rightarrow> (ty list \<times> tc_state) res" where
  "typecheck_arguments vis [] s = Inr ([], s)"
| "typecheck_arguments vis (a # as) s =
     bindR (vis a s) (\<lambda>s1. bindR (getType a s1) (\<lambda>t.
     bindR (typecheck_arguments vis as s1) (\<lambda>(ts, s2). Inr (t # ts, s2))))"

definition checkEnumInit :: "(ir_value \<Rightarrow> tc) \<Rightarrow> ty option \<Rightarrow> string \<Rightarrow> ir_value list \<Rightarrow> tc" where
  "checkEnumInit vis t name args s =
     bindR (the_type t) (\<lambda>t.
     case t of
       EnumTy _ _ _ l \<Rightarrow>
         bindR (class_at (class_objs s) l) (\<lambda>c.
         case map_of (enum_fields c) name of
           None \<Rightarrow> Inl (Undefined ''end iterator'')
         | Some field_types \<Rightarrow>
             bindR (typecheck_arguments vis args s) (\<lambda>(ts, s1).
             seqT (whenT (length ts \<noteq> length field_types) (E TYPE_ERROR Enum_argument_count))
               (forT (enum_argument field_types) (List.enumerate 0 ts)) s1))
     | _ \<Rightarrow> Inl AssertFail)"

definition typecheck_Switch :: "(ir_value \<Rightarrow> tc) \<Rightarrow> ir_value \<Rightarrow> (ir_value list \<times> ir_value \<times> string) list
    \<Rightarrow> (ir_value \<times> ir_value) list \<Rightarrow> tc" where
  "typecheck_Switch vis expr cases c_cases =
     seqT (vis expr) (
     seqT (forT (\<lambda>(_, block, _). vis block) cases)
     (forT (\<lambda>(val, block). seqT (vis block) (
        queryT (getType val) (\<lambda>vt. queryT (getType expr) (\<lambda>et.
        whenT (\<not> is_ty vt et) (E TYPE_ERROR Case_type))))) c_cases))"

definition callee_callable :: "ir_value option \<Rightarrow> tc" where
  "callee_callable callee =
     (case callee of
        None \<Rightarrow> E BUG Call_has_no_callee
      | Some c \<Rightarrow> queryT (getType c) (\<lambda>t. queryT (\<lambda>_. getFunctionType t) (\<lambda>ft.
          whenT (ft = None) (E TYPE_ERROR Not_callable))))"

definition callee_usable :: "ir_func \<Rightarrow> tc" where
  "callee_usable fn =
     (if hasAttribute (f_attributes fn) NOT_IMPLEMENTED then E SYNTAX_ERROR Not_implemented
      else (\<lambda>s. whenT (hasAttribute (f_attributes fn) UNSAFE \<and> \<not> unsafeContext s)
              (E SYNTAX_ERROR Unsafe_function) s))"

definition called_function :: "ir_value option \<Rightarrow> nat option" where
  "called_function callee = (case callee of Some (IrFunc i) \<Rightarrow> Some i | _ \<Rightarrow> None)"

definition is_EnumInit :: "ir_value option \<Rightarrow> string option" where
  "is_EnumInit callee = (case callee of Some (IrEnumInit _ n) \<Rightarrow> Some n | _ \<Rightarrow> None)"

text \<open>The loop over the arguments: only the first of a known function is checked for mutability.\<close>

definition check_arguments :: "(ir_value \<Rightarrow> tc) \<Rightarrow> call_kind \<Rightarrow> bool \<Rightarrow> nat option \<Rightarrow> ir_value list \<Rightarrow> tc" where
  "check_arguments vis kind init fn args =
     (case args of
        [] \<Rightarrow> skipT
      | a # as \<Rightarrow>
          seqT (case fn of None \<Rightarrow> skipT
                | Some i \<Rightarrow> queryT (func_of i) (\<lambda>f. checkMutability vis kind init f a))
            (seqT (vis a) (forT vis as)))"

definition typecheck_Call :: "(ir_value \<Rightarrow> tc) \<Rightarrow> ty option \<Rightarrow> call_kind \<Rightarrow> ir_value option \<Rightarrow> ir_value list \<Rightarrow> bool \<Rightarrow> tc" where
  "typecheck_Call vis t kind callee args init =
     (case kind of
        ZeroInitialized \<Rightarrow> skipT
      | ObjectInitialization _ \<Rightarrow> forT vis args
      | _ \<Rightarrow> (case is_EnumInit callee of
          Some name \<Rightarrow> checkEnumInit vis t name args
        | None \<Rightarrow>
            seqT (callee_callable callee) (
            seqT (optT (\<lambda>i. seqT (queryT (func_of i) callee_usable) (vis (IrFunc i))) (called_function callee))
              (check_arguments vis kind init (called_function callee) args))))"

definition typecheck_VariableDeclaration :: "(ir_value \<Rightarrow> tc) \<Rightarrow> ir_value option \<Rightarrow> tc" where
  "typecheck_VariableDeclaration vis = optT (\<lambda>val. seqT (vis val) (queryT (getType val) cantBeVoid))"

definition typecheck_Throw :: "(ir_value \<Rightarrow> tc) \<Rightarrow> ir_value \<Rightarrow> tc" where
  "typecheck_Throw vis val = vis val"

definition typecheck_TryCatch :: "(ir_value \<Rightarrow> tc) \<Rightarrow> ir_value \<Rightarrow> ir_value list \<Rightarrow> tc" where
  "typecheck_TryCatch vis block catches = seqT (vis block) (forT vis catches)"

definition typecheck_IndexExtract :: "ty option \<Rightarrow> tc" where
  "typecheck_IndexExtract t = queryT (\<lambda>_. the_type t) cantBeVoid"

definition typecheck_Variable :: "nat \<Rightarrow> tc" where
  "typecheck_Variable x s =
     bindR (ADD_TO_PARENT_SCOPE x 0 s) (\<lambda>(continues, s1).
     if continues then queryT (getType (IrVariable x)) cantBeVoid s1 else Inr s1)"

definition typecheck_Argument :: "nat \<Rightarrow> tc" where
  "typecheck_Argument x s =
     (if currentFunction s = None then Inl AssertFail
      else bindR (ADD_TO_PARENT_SCOPE x 1 s) (\<lambda>(_, s1). Inr s1))"

definition typecheck_ValueExtract :: "(ir_value \<Rightarrow> tc) \<Rightarrow> ir_value \<Rightarrow> tc" where
  "typecheck_ValueExtract vis val = vis val"

definition typecheck_WhileLoop :: "(ir_value \<Rightarrow> tc) \<Rightarrow> ir_value \<Rightarrow> ir_value \<Rightarrow> tc" where
  "typecheck_WhileLoop vis condition block = seqT (vis condition) (vis block)"

definition typecheck_Conditional :: "(ir_value \<Rightarrow> tc) \<Rightarrow> ir_value \<Rightarrow> ir_value \<Rightarrow> ir_value option \<Rightarrow> tc" where
  "typecheck_Conditional vis condition block else_block =
     seqT (vis condition) (seqT (vis block) (optT vis else_block))"

text \<open>
  \<^verbatim>\<open>VISIT(Cast)\<close>: the conversions that end the check without one of the two last diagnostics, then
  these. The base of a pointer is the innermost one.
\<close>

definition void_pointer :: "ty \<Rightarrow> bool" where
  "void_pointer t \<longleftrightarrow> is_PointerTy t \<and> is_VoidTy (pointer_base t)"

definition pointer_conversion :: "ty \<Rightarrow> ty \<Rightarrow> bool" where
  "pointer_conversion a b \<longleftrightarrow> is_PointerTy a \<and> is_PointerTy b \<and> (void_pointer a \<or> void_pointer b)"

definition function_conversion :: "ty \<Rightarrow> ty \<Rightarrow> bool" where
  "function_conversion a b \<longleftrightarrow> void_pointer a \<and> (case b of FunctionTy _ _ _ _ _ \<Rightarrow> True | _ \<Rightarrow> False)"

definition reference_conversion :: "ty \<Rightarrow> ty \<Rightarrow> bool" where
  "reference_conversion a b \<longleftrightarrow> is_PointerTy b \<and> (case a of ReferenceTy _ p \<Rightarrow> is_ty p (pointer_base b) | _ \<Rightarrow> False)"

definition typecheck_Cast :: "(ir_value \<Rightarrow> tc) \<Rightarrow> ty option \<Rightarrow> ir_value \<Rightarrow> ty \<Rightarrow> tc" where
  "typecheck_Cast vis own v t =
     queryT (\<lambda>_. the_type own) (\<lambda>own_type.
     seqT (assertT (is_ty t own_type)) (
     seqT (vis v) (
     queryT (getType v) (\<lambda>vt.
     seqT (whenT (is_VoidTy vt) (E TYPE_ERROR Cast_from_void)) (
     if is_ty vt t \<or> pointer_conversion vt t then skipT
     else if function_conversion vt t then
       (\<lambda>s. whenT (\<not> unsafeContext s) (E SYNTAX_ERROR Pointer_to_function_unsafe) s)
     else if reference_conversion vt t then skipT
     else seqT (whenT (\<not> Types.isMutable vt \<and> Types.isMutable t) (E TYPE_ERROR Cast_to_mutable))
       (\<lambda>s. whenT (\<not> type_canCast (class_objs s) vt t) (E TYPE_ERROR Cast_impossible) s))))))"

definition typecheck_Return :: "(ir_value \<Rightarrow> tc) \<Rightarrow> ty option \<Rightarrow> ir_value option \<Rightarrow> tc" where
  "typecheck_Return vis own expr s =
     (case currentFunction s of
        None \<Rightarrow> Inl AssertFail
      | Some i \<Rightarrow>
          seqT (optT vis expr) (
          queryT (func_of i) (\<lambda>fn.
          queryT (\<lambda>_. the_type (f_retTy fn)) (\<lambda>ret.
          seqT (if is_VoidTy ret \<and> expr \<noteq> None
                then queryT (\<lambda>_. the_type own) (\<lambda>_. E TYPE_ERROR Return_with_value) else skipT) (
          seqT (whenT (\<not> is_VoidTy ret \<and> expr = None) (E TYPE_ERROR Return_without_value)) (
          queryT (\<lambda>_. the_type own) (\<lambda>own_type.
          whenT (\<not> is_ty own_type ret) (E TYPE_ERROR Return_type))))))) s)"

definition typecheck_Block :: "(ir_value \<Rightarrow> tc) \<Rightarrow> AttributeHolder \<Rightarrow> ir_value list \<Rightarrow> tc" where
  "typecheck_Block vis attrs insts s =
     (if hasAttribute attrs UNSAFE then
        bindR (forT vis insts (s\<lparr>unsafeContext := True\<rparr>)) (\<lambda>s1. Inr (s1\<lparr>unsafeContext := unsafeContext s\<rparr>))
      else forT vis insts s)"

text \<open>\<^verbatim>\<open>Value::visit\<close>: the dispatch on the class of the value.\<close>

definition typecheck_value :: "(ir_value \<Rightarrow> tc) \<Rightarrow> ir_value \<Rightarrow> tc" where
  "typecheck_value vis v =
     (case v of
        IrFunc i \<Rightarrow> typecheck_Func vis i
      | IrVariable x \<Rightarrow> typecheck_Variable x
      | IrArgument x \<Rightarrow> typecheck_Argument x
      | IrString _ _ \<Rightarrow> skipT
      | IrNumber _ _ \<Rightarrow> skipT
      | IrFloat _ _ \<Rightarrow> skipT
      | IrBoolean _ _ \<Rightarrow> skipT
      | IrChar _ _ \<Rightarrow> skipT
      | IrEnumInit _ _ \<Rightarrow> skipT
      | IrBlock _ attrs insts \<Rightarrow> typecheck_Block vis attrs insts
      | IrCall t kind callee args init \<Rightarrow> typecheck_Call vis t kind callee args init
      | IrValueExtract _ val \<Rightarrow> typecheck_ValueExtract vis val
      | IrReturn t expr \<Rightarrow> typecheck_Return vis t expr
      | IrCast t expr cast_type \<Rightarrow> typecheck_Cast vis t expr cast_type
      | IrThrow _ val \<Rightarrow> typecheck_Throw vis val
      | IrVariableDeclaration _ _ val _ \<Rightarrow> typecheck_VariableDeclaration vis val
      | IrWhileLoop _ condition block _ _ \<Rightarrow> typecheck_WhileLoop vis condition block
      | IrConditional _ condition block else_block \<Rightarrow> typecheck_Conditional vis condition block else_block
      | IrTryCatch _ block catches _ \<Rightarrow> typecheck_TryCatch vis block catches
      | IrReferenceTo t val \<Rightarrow> typecheck_ReferenceTo vis t val
      | IrDereferenceTo t val \<Rightarrow> typecheck_DereferenceTo vis t val
      | IrIndexExtract t _ _ _ \<Rightarrow> typecheck_IndexExtract t
      | IrLoopFlow _ _ \<Rightarrow> skipT
      | IrSwitch _ expr cases c_cases _ _ \<Rightarrow> typecheck_Switch vis expr cases c_cases)"

definition recursion_bound :: failure where
  "recursion_bound = Undefined ''recursion bound''"

primrec typecheck :: "nat \<Rightarrow> ir_value \<Rightarrow> tc" where
  "typecheck 0 v = failT recursion_bound"
| "typecheck (Suc k) v = typecheck_value (typecheck k) v"

section \<open>Virtual tables\<close>

text \<open>
  \<^verbatim>\<open>TypeChecker::fixTypes\<close>. A method takes the place of one with its name and its signature apart
  from the first argument. The number it is given counts on from the place of the last method that
  was overridden, and starts at 0 for every class of the chain.
\<close>

definition same_method :: "ir_func \<Rightarrow> ir_func \<Rightarrow> bool res" where
  "same_method f fn =
     bindR (Func_getName f False) (\<lambda>a. bindR (Func_getName fn False) (\<lambda>b.
     if a \<noteq> b then Inr False
     else bindR (the_type (f_type f)) (\<lambda>t. bindR (getFunctionType t) (\<lambda>ft.
          bindR (the_type (f_type fn)) (\<lambda>t'. bindR (getFunctionType t') (\<lambda>ft'.
          case (ft, ft') of
            (Some (FunctionTy _ _ as r v), Some (FunctionTy _ _ as' r' v')) \<Rightarrow> isIgnoringSelf as r v as' r' v'
          | _ \<Rightarrow> Inl (Undefined ''null function type'')))))))"

text \<open>\<^verbatim>\<open>std::find_if\<close>: the place of the first match, the length of the table when there is none.\<close>

fun find_method :: "tc_state \<Rightarrow> ir_func \<Rightarrow> nat list \<Rightarrow> nat res" where
  "find_method s fn [] = Inr 0"
| "find_method s fn (i # is) =
     bindR (func_of i s) (\<lambda>f. bindR (same_method f fn) (\<lambda>b.
     if b then Inr 0 else bindR (find_method s fn is) (\<lambda>n. Inr (Suc n))))"

definition require_override :: "ty \<Rightarrow> nat \<Rightarrow> ir_func \<Rightarrow> tc" where
  "require_override type i fn =
     (if hasAttribute (f_attributes fn) OVERRIDE then skipT
      else queryT (\<lambda>_. the_type (f_parent fn)) (\<lambda>p.
        if is_ty p type then
          seqT (E SYNTAX_ERROR Missing_override)
            (\<lambda>s. Inr (update_func i (\<lambda>f. f\<lparr>f_attributes := addAttribute OVERRIDE [] (f_attributes f)\<rparr>) s))
        else skipT))"

definition setVirtualIndex :: "nat \<Rightarrow> int \<Rightarrow> tc_state \<Rightarrow> tc_state" where
  "setVirtualIndex i n = update_func i (\<lambda>f. f\<lparr>f_virtualIndex := n\<rparr>)"

fun place_methods :: "ty \<Rightarrow> nat list \<Rightarrow> nat list \<Rightarrow> int \<Rightarrow> tc_state \<Rightarrow> (nat list \<times> tc_state) res" where
  "place_methods type [] final n s = Inr (final, s)"
| "place_methods type (i # is) final n s =
     bindR (func_of i s) (\<lambda>fn. bindR (find_method s fn final) (\<lambda>it.
     if it = length final
     then place_methods type is (final @ [i]) (n + 1) (setVirtualIndex i n s)
     else bindR (require_override type i fn s) (\<lambda>s1.
       place_methods type is (final[it := i]) (int it + 1) (setVirtualIndex i (int it) s1))))"

fun place_classes :: "ty \<Rightarrow> nat list \<Rightarrow> nat list \<Rightarrow> tc_state \<Rightarrow> (nat list \<times> tc_state) res" where
  "place_classes type [] final s = Inr (final, s)"
| "place_classes type (l # ls) final s =
     bindR (class_at (class_objs s) l) (\<lambda>c.
     bindR (place_methods type (classVtable c) final 0 s) (\<lambda>(final', s1).
     place_classes type ls final' s1))"

text \<open>The parents of a class from the root down, as locations.\<close>

primrec ancestors :: "nat \<Rightarrow> type_heap \<Rightarrow> nat \<Rightarrow> nat list res" where
  "ancestors 0 h l = Inl recursion_bound"
| "ancestors (Suc k) h l =
     bindR (class_at h l) (\<lambda>c.
     case cls_parent c of
       None \<Rightarrow> Inr []
     | Some p \<Rightarrow> (case p of
         DefinedTy _ _ _ l' \<Rightarrow> bindR (ancestors k h l') (\<lambda>ls. Inr (ls @ [l']))
       | _ \<Rightarrow> Inl (Undefined ''parent is no class'')))"

definition fixTypes :: "nat \<Rightarrow> ty \<Rightarrow> tc" where
  "fixTypes k type s =
     (case type of
        DefinedTy _ _ _ l \<Rightarrow>
          bindR (class_at (class_objs s) l) (\<lambda>c.
          if hasVtable c then
            bindR (ancestors k (class_objs s) l) (\<lambda>parents.
            bindR (place_classes type (parents @ [l]) [] s) (\<lambda>(final, s1).
            Inr (s1\<lparr>class_objs := unsafeOverrideVtable final l (class_objs s1)\<rparr>)))
          else Inr s)
      | _ \<Rightarrow> Inr s)"

section \<open>Modules\<close>

record ir_contents =
  typeInformation :: "ty list"
  module_variables :: "ir_value list"
  module_functions :: "nat list"

text \<open>\<^verbatim>\<open>TypeChecker::codegen\<close>: the left side of the result holds the diagnostics it throws.\<close>

definition codegen :: "nat \<Rightarrow> ir_contents \<Rightarrow> tc_state \<Rightarrow> (tc_error list + tc_state) res" where
  "codegen k m s =
     bindR (seqT (forT (fixTypes k) (typeInformation m)) (
            seqT (forT (typecheck k) (module_variables m))
              (forT (\<lambda>i. typecheck k (IrFunc i)) (rev (module_functions m)))) s)
       (\<lambda>s1. Inr (if errors s1 \<noteq> [] then Inl (errors s1) else Inr s1))"

definition new_TypeChecker :: "tc_state \<Rightarrow> tc_state" where
  "new_TypeChecker s = s\<lparr>errors := [], currentFunction := None, unsafeContext := False\<rparr>"

text \<open>The loop over the modules in \<^verbatim>\<open>Compiler::compile\<close>: a thrown list ends it.\<close>

fun check_modules :: "nat \<Rightarrow> ir_contents list \<Rightarrow> tc_state \<Rightarrow> (tc_error list + tc_state) res" where
  "check_modules k [] s = Inr (Inr s)"
| "check_modules k (m # ms) s =
     bindR (codegen k m (new_TypeChecker s)) (\<lambda>r. case r of
       Inl errs \<Rightarrow> Inr (Inl errs) | Inr s1 \<Rightarrow> check_modules k ms s1)"

end
