(* ===== verification/TypeChecker_Spec.thy ===== *)
theory TypeChecker_Spec
  imports TypeChecker
begin

text \<open>
  What the type checker promises, without its traversal: the parts of a value that count, the unsafe
  context they stand in, the condition every single value has to meet, and the functions that the
  code of a module can reach. The program \<open>p\<close> is a state of the checker of which only the members
  are read that no visit changes.
\<close>

section \<open>Occurrences\<close>

text \<open>
  The direct parts of a value with their unsafe flag. The base of a field access, the default block
  and the case values of a switch, the step of a for loop and a callee that is no function are not
  among them.
\<close>

fun parts :: "bool \<Rightarrow> ir_value \<Rightarrow> (bool \<times> ir_value) list" where
  "parts u (IrBlock _ attrs insts) = map (Pair (u \<or> hasAttribute attrs UNSAFE)) insts"
| "parts u (IrCall _ kind _ args _) = (if kind = ZeroInitialized then [] else map (Pair u) args)"
| "parts u (IrValueExtract _ v) = [(u, v)]"
| "parts u (IrReturn _ e) = (case e of Some v \<Rightarrow> [(u, v)] | None \<Rightarrow> [])"
| "parts u (IrCast _ v _) = [(u, v)]"
| "parts u (IrThrow _ v) = [(u, v)]"
| "parts u (IrVariableDeclaration _ _ e _) = (case e of Some v \<Rightarrow> [(u, v)] | None \<Rightarrow> [])"
| "parts u (IrWhileLoop _ c b _ _) = [(u, c), (u, b)]"
| "parts u (IrConditional _ c b e) = (u, c) # (u, b) # (case e of Some v \<Rightarrow> [(u, v)] | None \<Rightarrow> [])"
| "parts u (IrTryCatch _ b cs _) = (u, b) # map (Pair u) cs"
| "parts u (IrReferenceTo _ v) = [(u, v)]"
| "parts u (IrDereferenceTo _ v) = [(u, v)]"
| "parts u (IrSwitch _ e cs ccs _ _) = (u, e) # map (\<lambda>(_, b, _). (u, b)) cs @ map (\<lambda>(_, b). (u, b)) ccs"
| "parts u _ = []"

inductive occurs :: "bool \<Rightarrow> ir_value \<Rightarrow> bool \<Rightarrow> ir_value \<Rightarrow> bool" where
  here: "occurs u v u v"
| within: "(w, c) \<in> set (parts u v) \<Longrightarrow> occurs w c u' n \<Longrightarrow> occurs u v u' n"

text \<open>The function whose declaration and body a value leads to.\<close>

fun leads_to :: "ir_value \<Rightarrow> nat option" where
  "leads_to (IrFunc i) = Some i"
| "leads_to (IrCall _ kind callee _ _) =
     (case kind of ZeroInitialized \<Rightarrow> None | ObjectInitialization _ \<Rightarrow> None | _ \<Rightarrow> called_function callee)"
| "leads_to _ = None"

definition led_from :: "bool \<Rightarrow> ir_value \<Rightarrow> nat set" where
  "led_from u v = {i. \<exists>w n. occurs u v w n \<and> leads_to n = Some i}"

definition callees :: "tc_state \<Rightarrow> nat \<Rightarrow> nat set" where
  "callees p i = {j. \<exists>f b. funcs p i = Some f \<and> f_body f = Some b \<and> j \<in> led_from (body_unsafe f) b}"

inductive_set reached :: "tc_state \<Rightarrow> nat set \<Rightarrow> nat set" for p D where
  root: "i \<in> D \<Longrightarrow> i \<in> reached p D"
| call: "i \<in> reached p D \<Longrightarrow> j \<in> callees p i \<Longrightarrow> j \<in> reached p D"

section \<open>The condition on one value\<close>

definition has_type :: "tc_state \<Rightarrow> ir_value \<Rightarrow> (ty \<Rightarrow> bool) \<Rightarrow> bool" where
  "has_type p v P \<longleftrightarrow> (\<exists>t. getType v p = Inr t \<and> P t)"

definition not_void :: "ty \<Rightarrow> bool" where
  "not_void t \<longleftrightarrow> \<not> is_VoidTy t"

fun is_ReferenceTy :: "ty \<Rightarrow> bool" where
  "is_ReferenceTy (ReferenceTy _ _) = True"
| "is_ReferenceTy _ = False"

definition cast_ok :: "tc_state \<Rightarrow> bool \<Rightarrow> ty \<Rightarrow> ty \<Rightarrow> bool" where
  "cast_ok p u a b \<longleftrightarrow> not_void a \<and>
     (is_ty a b \<or> pointer_conversion a b \<or> (function_conversion a b \<and> u) \<or> reference_conversion a b \<or>
      ((Types.isMutable b \<longrightarrow> Types.isMutable a) \<and> type_canCast (class_objs p) a b))"

definition return_ok :: "tc_state \<Rightarrow> nat option \<Rightarrow> ty option \<Rightarrow> ir_value option \<Rightarrow> bool" where
  "return_ok p cf own e \<longleftrightarrow>
     (\<exists>i f r t. cf = Some i \<and> funcs p i = Some f \<and> f_retTy f = Some r \<and> own = Some t \<and>
        (e = None \<longleftrightarrow> is_VoidTy r) \<and> is_ty t r)"

definition enum_ok :: "tc_state \<Rightarrow> ty option \<Rightarrow> string \<Rightarrow> ir_value list \<Rightarrow> bool" where
  "enum_ok p own name args \<longleftrightarrow>
     (\<exists>m b gs l c field_types. own = Some (EnumTy m b gs l) \<and> objs (class_objs p) l = Some c \<and>
        map_of (enum_fields c) name = Some field_types \<and>
        list_all2 (\<lambda>v t. has_type p v (\<lambda>vt. is_ty vt t)) args field_types)"

text \<open>The assignment operators, as \<^verbatim>\<open>checkMutability\<close> recognises them in the name of the callee.\<close>

definition assigns :: "string \<Rightarrow> bool" where
  "assigns name \<longleftrightarrow> isOperator name \<and> opEquals OT_CONSTRUCTOR name = Inr False \<and>
     (\<exists>op. operatorID name = Inr op \<and> is_assignment op)"

definition mutating_ok :: "ir_func \<Rightarrow> bool \<Rightarrow> bool" where
  "mutating_ok f m \<longleftrightarrow> Func_isConstructor f = Inr True \<or> (\<exists>t. f_type f = Some t \<and> (Types.isMutable t \<longrightarrow> m))"

definition in_mutable_function :: "tc_state \<Rightarrow> nat option \<Rightarrow> bool" where
  "in_mutable_function p cf \<longleftrightarrow>
     (\<exists>i f t. cf = Some i \<and> funcs p i = Some f \<and> f_type f = Some t \<and> Types.isMutable t)"

definition assignment_ok :: "tc_state \<Rightarrow> nat option \<Rightarrow> call_kind \<Rightarrow> bool \<Rightarrow> ir_func \<Rightarrow> ir_value \<Rightarrow> bool \<Rightarrow> bool" where
  "assignment_ok p cf kind init f v m \<longleftrightarrow>
     (accessingSelf v p = Inr True \<longrightarrow> in_mutable_function p cf) \<and>
     (if m \<or> ignoreMutability kind
      then assignable_kind v \<or> has_type p v (\<lambda>t. \<not> is_PrimitiveTy t)
      else init \<and> mutating_ok f m)"

definition first_argument_ok :: "tc_state \<Rightarrow> nat option \<Rightarrow> call_kind \<Rightarrow> bool \<Rightarrow> ir_func \<Rightarrow> ir_value \<Rightarrow> bool" where
  "first_argument_ok p cf kind init f v \<longleftrightarrow>
     (\<exists>m. value_isMutable v p = Inr m \<and>
       (if assigns (f_identifier f) then assignment_ok p cf kind init f v m else mutating_ok f m))"

definition callable :: "tc_state \<Rightarrow> ir_value option \<Rightarrow> bool" where
  "callable p callee \<longleftrightarrow>
     (\<exists>c. callee = Some c \<and> has_type p c (\<lambda>t. \<exists>ft. getFunctionType t = Inr (Some ft)))"

definition function_call_ok :: "tc_state \<Rightarrow> nat option \<Rightarrow> bool \<Rightarrow> call_kind \<Rightarrow> bool \<Rightarrow> nat \<Rightarrow> ir_value list \<Rightarrow> bool" where
  "function_call_ok p cf u kind init i args \<longleftrightarrow>
     (\<exists>f. funcs p i = Some f \<and> \<not> hasAttribute (f_attributes f) NOT_IMPLEMENTED \<and>
        (hasAttribute (f_attributes f) UNSAFE \<longrightarrow> u) \<and>
        (case args of [] \<Rightarrow> True | a # _ \<Rightarrow> first_argument_ok p cf kind init f a))"

definition call_ok :: "tc_state \<Rightarrow> nat option \<Rightarrow> bool \<Rightarrow> ty option \<Rightarrow> call_kind \<Rightarrow> ir_value option \<Rightarrow> ir_value list
    \<Rightarrow> bool \<Rightarrow> bool" where
  "call_ok p cf u own kind callee args init \<longleftrightarrow>
     (case kind of
        ZeroInitialized \<Rightarrow> True
      | ObjectInitialization _ \<Rightarrow> True
      | _ \<Rightarrow> (case is_EnumInit callee of
          Some name \<Rightarrow> enum_ok p own name args
        | None \<Rightarrow> callable p callee \<and>
            (case called_function callee of
               None \<Rightarrow> True
             | Some i \<Rightarrow> function_call_ok p cf u kind init i args)))"

text \<open>A variable is only checked where the visit gets past the capture macro.\<close>

definition variable_ok :: "tc_state \<Rightarrow> nat option \<Rightarrow> nat \<Rightarrow> bool" where
  "variable_ok p cf x \<longleftrightarrow>
     (\<exists>i f. cf = Some i \<and> funcs p i = Some f \<and> \<not> f_anon f) \<or> has_type p (IrVariable x) not_void"

fun value_ok :: "tc_state \<Rightarrow> nat option \<Rightarrow> bool \<Rightarrow> ir_value \<Rightarrow> bool" where
  "value_ok p cf u (IrVariable x) = variable_ok p cf x"
| "value_ok p cf u (IrDereferenceTo _ v) =
     has_type p v (\<lambda>t. (is_PointerTy t \<and> u) \<or> is_ReferenceTy t)"
| "value_ok p cf u (IrReferenceTo _ v) = has_type p v not_void"
| "value_ok p cf u (IrVariableDeclaration _ _ e _) =
     (case e of Some v \<Rightarrow> has_type p v not_void | None \<Rightarrow> True)"
| "value_ok p cf u (IrIndexExtract t _ _ _) = (\<exists>a. t = Some a \<and> not_void a)"
| "value_ok p cf u (IrSwitch _ e _ ccs _ _) =
     (\<forall>(c, _)\<in>set ccs. has_type p c (\<lambda>a. has_type p e (\<lambda>b. is_ty a b)))"
| "value_ok p cf u (IrCast _ v t) = has_type p v (\<lambda>a. cast_ok p u a t)"
| "value_ok p cf u (IrReturn t e) = return_ok p cf t e"
| "value_ok p cf u (IrCall t kind callee args init) = call_ok p cf u t kind callee args init"
| "value_ok p cf u _ = True"

definition code_ok :: "tc_state \<Rightarrow> nat option \<Rightarrow> bool \<Rightarrow> ir_value \<Rightarrow> bool" where
  "code_ok p cf u v \<longleftrightarrow> (\<forall>w n. occurs u v w n \<longrightarrow> value_ok p cf w n)"

section \<open>The condition on a function\<close>

definition test_ok :: "ir_func \<Rightarrow> bool" where
  "test_ok f \<longleftrightarrow>
     \<not> f_declaration f \<and> (\<exists>r. f_retTy f = Some r \<and> isIntType 32 r) \<and> f_arguments f = [] \<and>
     \<not> hasAttribute (f_attributes f) INLINE \<and>
     (\<forall>(name, val)\<in>set (getAttributeArgs (f_attributes f) TEST).
        name = ''expect'' \<and> is_number val \<or> name = ''skip'' \<and> val = [])"

definition declaration_ok :: "ir_func \<Rightarrow> bool" where
  "declaration_ok f \<longleftrightarrow>
     (let has = hasAttribute (f_attributes f) in
      if has UNSAFE then getAttributeArgs (f_attributes f) UNSAFE_FUNC_NOT_BODY = []
      else if has UNSAFE_FUNC_NOT_BODY then False
      else if has TEST then test_ok f
      else if has BENCH then \<not> f_declaration f \<and> f_arguments f = [] \<and> \<not> has INLINE
      else if has INLINE then \<not> f_declaration f \<and> \<not> has NO_INLINE
      else if has LLVM_FUNC
      then set (getAttributeArgs (f_attributes f) LLVM_FUNC) \<subseteq> {(''sanitise_void_return'', [])}
      else True)"

definition function_ok :: "tc_state \<Rightarrow> nat \<Rightarrow> bool" where
  "function_ok p i \<longleftrightarrow>
     (\<exists>f. funcs p i = Some f \<and> declaration_ok f \<and>
        (case f_body f of None \<Rightarrow> True | Some b \<Rightarrow> code_ok p (Some i) (body_unsafe f) b))"

section \<open>What no visit changes\<close>

definition same_func :: "ir_func \<Rightarrow> ir_func \<Rightarrow> bool" where
  "same_func f0 f \<longleftrightarrow>
     f0\<lparr>f_attributes := f_attributes f, f_usesParentScope := f_usesParentScope f, f_virtualIndex := f_virtualIndex f\<rparr> = f \<and>
     (\<forall>a. a \<noteq> TYPECHECKED \<and> a \<noteq> OVERRIDE \<longrightarrow>
        hasAttribute (f_attributes f) a = hasAttribute (f_attributes f0) a \<and>
        getAttributeArgs (f_attributes f) a = getAttributeArgs (f_attributes f0) a)"

definition same_var :: "ir_var \<Rightarrow> ir_var \<Rightarrow> bool" where
  "same_var v0 v \<longleftrightarrow> v0\<lparr>v_usedInLambda := v_usedInLambda v, v_parentFunc := v_parentFunc v\<rparr> = v"

definition same_class :: "class_obj \<Rightarrow> class_obj \<Rightarrow> bool" where
  "same_class c0 c \<longleftrightarrow> c0\<lparr>classVtable := classVtable c\<rparr> = c"

definition agree :: "tc_state \<Rightarrow> tc_state \<Rightarrow> bool" where
  "agree p s \<longleftrightarrow>
     (\<forall>i. rel_option same_func (funcs p i) (funcs s i)) \<and>
     (\<forall>x. rel_option same_var (vars p x) (vars s x)) \<and>
     (\<forall>l. rel_option same_class (objs (class_objs p) l) (objs (class_objs s) l))"

definition checked :: "tc_state \<Rightarrow> nat set" where
  "checked s = {i. \<exists>f. funcs s i = Some f \<and> hasAttribute (f_attributes f) TYPECHECKED}"

end
