(* ===== verification/TypeChecker_Logic.thy ===== *)
theory TypeChecker_Logic
  imports TypeChecker_Spec
begin

text \<open>
  How a step of the checker relates two states: it keeps what \<open>agree\<close> compares and the context, only
  appends diagnostics and only marks functions. \<open>meets\<close> adds the result of the step: nothing is
  reported exactly if a condition holds and every function the step marked is in order. Both
  compose along the sequencing operators, which leaves one small fact per visit.
\<close>

section \<open>Agreement of programs\<close>

lemma same_func_refl: "same_func f f"
  by (simp add: same_func_def)

lemma same_func_trans: "same_func f g \<Longrightarrow> same_func g h \<Longrightarrow> same_func f h"
  by (cases f; cases g; cases h) (auto simp: same_func_def)

lemma same_func_fields:
  assumes "same_func f0 f"
  shows "f_identifier f = f_identifier f0" "f_declaration f = f_declaration f0" "f_anon f = f_anon f0"
    "f_arguments f = f_arguments f0" "f_retTy f = f_retTy f0" "f_type f = f_type f0" "f_body f = f_body f0"
    "f_parent f = f_parent f0" "f_scopeIndex f = f_scopeIndex f0" "f_static f = f_static f0"
    "f_parentScope f = f_parentScope f0"
  using assms by (cases f0; cases f; simp add: same_func_def)+

lemma same_func_attributes:
  assumes "same_func f0 f" "a \<noteq> TYPECHECKED" "a \<noteq> OVERRIDE"
  shows "hasAttribute (f_attributes f) a = hasAttribute (f_attributes f0) a"
    "getAttributeArgs (f_attributes f) a = getAttributeArgs (f_attributes f0) a"
  using assms by (auto simp: same_func_def)

lemmas same_funcD = same_func_fields same_func_attributes

lemma same_func_derived:
  assumes "same_func f0 f"
  shows "Func_isConstructor f = Func_isConstructor f0" "Func_getName f b = Func_getName f0 b"
    "body_unsafe f = body_unsafe f0" "declaration_ok f = declaration_ok f0"
  using same_funcD [OF assms]
  by (simp_all add: Func_isConstructor_def Func_getName_def body_unsafe_def declaration_ok_def test_ok_def Let_def)

lemma same_var_refl: "same_var v v"
  by (simp add: same_var_def)

lemma same_var_trans: "same_var u v \<Longrightarrow> same_var v w \<Longrightarrow> same_var u w"
  by (cases u; cases v; cases w) (auto simp: same_var_def)

lemma same_varD:
  assumes "same_var v0 v"
  shows "v_identifier v = v_identifier v0" "v_isMutable v = v_isMutable v0"
    "v_scopeIndex v = v_scopeIndex v0" "v_type v = v_type v0"
  using assms by (cases v0; cases v; simp add: same_var_def)+

lemma same_class_refl: "same_class c c"
  by (simp add: same_class_def)

lemma same_class_trans: "same_class c d \<Longrightarrow> same_class d e \<Longrightarrow> same_class c e"
  by (cases c; cases d; cases e) (auto simp: same_class_def)

lemma same_classD:
  assumes "same_class c0 c"
  shows "enum_fields c = enum_fields c0" "cls_parent c = cls_parent c0" "hasVtable c = hasVtable c0"
  using assms by (cases c0; cases c; simp add: same_class_def)+

lemma rel_option_trans:
  "rel_option R x y \<Longrightarrow> rel_option R y z \<Longrightarrow> (\<And>a b c. R a b \<Longrightarrow> R b c \<Longrightarrow> R a c) \<Longrightarrow> rel_option R x z"
  by (cases x; cases y; cases z) auto

lemma agree_refl: "agree p p"
  by (auto simp: agree_def same_func_refl same_var_refl same_class_refl intro: option.rel_refl)

lemma agree_trans: "agree p s \<Longrightarrow> agree s t \<Longrightarrow> agree p t"
  unfolding agree_def
  by (meson rel_option_trans same_func_trans same_var_trans same_class_trans)

lemma agree_func:
  assumes "agree p s" "funcs s i = Some f"
  obtains f0 where "funcs p i = Some f0" "same_func f0 f"
proof -
  have "rel_option same_func (funcs p i) (Some f)" using assms by (metis agree_def)
  then show thesis by (cases "funcs p i") (auto intro: that)
qed

lemma agree_var:
  assumes "agree p s" "vars s x = Some v"
  obtains v0 where "vars p x = Some v0" "same_var v0 v"
proof -
  have "rel_option same_var (vars p x) (Some v)" using assms by (metis agree_def)
  then show thesis by (cases "vars p x") (auto intro: that)
qed

lemma agree_class:
  assumes "agree p s" "objs (class_objs s) l = Some c"
  obtains c0 where "objs (class_objs p) l = Some c0" "same_class c0 c"
proof -
  have "rel_option same_class (objs (class_objs p) l) (Some c)" using assms by (metis agree_def)
  then show thesis by (cases "objs (class_objs p) l") (auto intro: that)
qed

lemma agree_none:
  assumes "agree p s"
  shows "funcs s i = None \<longleftrightarrow> funcs p i = None" "vars s i = None \<longleftrightarrow> vars p i = None"
    "objs (class_objs s) i = None \<longleftrightarrow> objs (class_objs p) i = None"
proof -
  have "rel_option same_func (funcs p i) (funcs s i)" "rel_option same_var (vars p i) (vars s i)"
    "rel_option same_class (objs (class_objs p) i) (objs (class_objs s) i)"
    using assms by (simp_all add: agree_def)
  then show "funcs s i = None \<longleftrightarrow> funcs p i = None" "vars s i = None \<longleftrightarrow> vars p i = None"
    "objs (class_objs s) i = None \<longleftrightarrow> objs (class_objs p) i = None"
    by (auto simp: rel_option_iff split: option.splits)
qed

lemma agree_stored_type:
  assumes "agree p s"
  shows "stored_type (funcs s) (vars s) v = stored_type (funcs p) (vars p) v"
proof -
  have "Option.bind (funcs s i) f_type = Option.bind (funcs p i) f_type" for i
    using agree_none(1) [OF assms, of i]
    by (cases "funcs s i") (auto elim!: agree_func [OF assms] simp: same_funcD)
  moreover have "Option.bind (vars s i) v_type = Option.bind (vars p i) v_type" for i
    using agree_none(2) [OF assms, of i]
    by (cases "vars s i") (auto elim!: agree_var [OF assms] simp: same_varD)
  ultimately show ?thesis by (cases v) simp_all
qed

lemma agree_getType: "agree p s \<Longrightarrow> getType v s = getType v p"
  by (simp add: getType_def agree_stored_type)

lemma agree_var_query:
  assumes "agree p s" "\<And>v0 v. same_var v0 v \<Longrightarrow> g v = g v0"
  shows "bindR (var_of x s) g = bindR (var_of x p) g"
  using agree_none(2) [OF assms(1), of x]
  by (cases "vars s x") (auto simp: var_of_def the_object_def assms(2) elim!: agree_var [OF assms(1)])

lemma agree_isMutable: "agree p s \<Longrightarrow> value_isMutable v s = value_isMutable v p"
  by (induction v s rule: value_isMutable.induct) (simp_all add: agree_getType agree_var_query same_varD)

lemma agree_accessingSelf: "agree p s \<Longrightarrow> accessingSelf v s = accessingSelf v p"
proof (induction v s rule: accessingSelf.induct)
  case (1 t v fl n s)
  then show ?case by (cases v) (simp_all add: agree_var_query same_varD)
qed simp_all

lemma agree_canCast:
  assumes "agree p s"
  shows "type_canCast (class_objs s) a b = type_canCast (class_objs p) a b"
proof (induction "class_objs s" a b rule: type_canCast.induct)
  case (6 m i gs l b)
  show ?case
    using agree_none(3) [OF assms, of l]
    by (cases "objs (class_objs s) l") (auto elim!: agree_class [OF assms] simp: same_classD split: ty.splits option.splits)
qed (auto split: ty.splits)

section \<open>Steps\<close>

definition step_rel :: "tc_state \<Rightarrow> tc_state \<Rightarrow> bool" where
  "step_rel s s' \<longleftrightarrow> agree s s' \<and> unsafeContext s' = unsafeContext s \<and> currentFunction s' = currentFunction s \<and>
     (\<exists>es. errors s' = errors s @ es) \<and> checked s \<subseteq> checked s'"

definition clean :: "tc_state \<Rightarrow> tc_state \<Rightarrow> bool" where
  "clean s s' \<longleftrightarrow> errors s' = errors s"

lemma step_rel_refl: "step_rel s s"
  by (simp add: step_rel_def agree_refl)

lemma step_rel_trans: "step_rel s t \<Longrightarrow> step_rel t u \<Longrightarrow> step_rel s u"
  by (auto simp: step_rel_def intro: agree_trans)

lemma clean_trans: "step_rel s t \<Longrightarrow> step_rel t u \<Longrightarrow> clean s u \<longleftrightarrow> clean s t \<and> clean t u"
  by (auto simp: step_rel_def clean_def)

text \<open>
  \<open>P\<close> is the condition under which the step itself reports nothing, \<open>D\<close> the functions it leads to.
\<close>

definition meets :: "tc_state \<Rightarrow> bool \<Rightarrow> nat set \<Rightarrow> tc_state \<Rightarrow> tc_state \<Rightarrow> bool" where
  "meets p P D s s' \<longleftrightarrow> step_rel s s' \<and> D \<subseteq> checked s' \<and>
     (\<forall>i\<in>checked s' - checked s. callees p i \<subseteq> checked s' \<and> i \<in> reached p D) \<and>
     (clean s s' \<longleftrightarrow> P \<and> (\<forall>i\<in>checked s' - checked s. function_ok p i))"

lemma reached_mono: "D \<subseteq> D' \<Longrightarrow> i \<in> reached p D \<Longrightarrow> i \<in> reached p D'"
  by (rotate_tac, induction rule: reached.induct) (auto intro: reached.intros)

lemma meets_step: "meets p P D s s' \<Longrightarrow> step_rel s s'"
  by (simp add: meets_def)

lemma meets_refl: "P \<Longrightarrow> D \<subseteq> checked s \<Longrightarrow> meets p P D s s"
  by (simp add: meets_def step_rel_refl clean_def)

lemma meets_trans:
  assumes "meets p P D s t" "meets p Q D' t u"
  shows "meets p (P \<and> Q) (D \<union> D') s u"
proof -
  have sub: "checked s \<subseteq> checked t" "checked t \<subseteq> checked u"
    using assms by (auto simp: meets_def step_rel_def)
  have step: "step_rel s t" "step_rel t u" using assms by (auto simp: meets_def)
  have new: "checked u - checked s = (checked t - checked s) \<union> (checked u - checked t)"
    using sub by auto
  have "i \<in> reached p (D \<union> D')" if "i \<in> checked u - checked s" for i
    using that assms sub unfolding meets_def new
    by (metis UnE reached_mono sup_ge1 sup_ge2)
  moreover have "callees p i \<subseteq> checked u" if "i \<in> checked u - checked s" for i
    using that assms sub unfolding meets_def new by blast
  ultimately show ?thesis
    using assms sub step_rel_trans [OF step] clean_trans [OF step]
    unfolding meets_def new by blast
qed

definition does :: "tc_state \<Rightarrow> bool \<Rightarrow> nat option \<Rightarrow> bool \<Rightarrow> nat set \<Rightarrow> tc \<Rightarrow> bool" where
  "does p u cf P D m \<longleftrightarrow>
     (\<forall>s s'. agree p s \<longrightarrow> unsafeContext s = u \<longrightarrow> currentFunction s = cf \<longrightarrow> m s = Inr s' \<longrightarrow> meets p P D s s')"

named_theorems does_intros \<open>rules for the sequencing operators\<close>

lemma doesI:
  "(\<And>s s'. agree p s \<Longrightarrow> unsafeContext s = u \<Longrightarrow> currentFunction s = cf \<Longrightarrow> m s = Inr s' \<Longrightarrow> meets p P D s s')
   \<Longrightarrow> does p u cf P D m"
  by (simp add: does_def)

lemma doesD:
  "does p u cf P D m \<Longrightarrow> agree p s \<Longrightarrow> unsafeContext s = u \<Longrightarrow> currentFunction s = cf \<Longrightarrow> m s = Inr s'
   \<Longrightarrow> meets p P D s s'"
  by (simp add: does_def)

lemma does_conv: "does p u cf P D m \<Longrightarrow> P = Q \<Longrightarrow> D = D' \<Longrightarrow> does p u cf Q D' m"
  by simp

lemma does_skip [does_intros]: "does p u cf True {} skipT"
  by (rule doesI) (simp add: skipT_def meets_refl)

lemma does_fail [does_intros]: "does p u cf P D (failT e)"
  by (simp add: does_def failT_def)

lemma does_assert [does_intros]: "does p u cf True {} (assertT b)"
  by (simp add: assertT_def does_skip does_fail)

lemma meets_report: "meets p False {} s (s\<lparr>errors := errors s @ [e]\<rparr>)"
proof -
  have "agree s (s\<lparr>errors := errors s @ [e]\<rparr>)"
    by (auto simp: agree_def same_func_refl same_var_refl same_class_refl intro: option.rel_refl)
  moreover have "checked (s\<lparr>errors := errors s @ [e]\<rparr>) = checked s" by (simp add: checked_def)
  ultimately show ?thesis by (simp add: meets_def step_rel_def clean_def)
qed

lemma does_E [does_intros]: "does p u cf False {} (E err msg)"
  by (rule doesI) (auto simp: E_def meets_report)

lemma meets_agree: "agree p s \<Longrightarrow> meets p P D s t \<Longrightarrow> agree p t"
  by (auto simp: meets_def step_rel_def intro: agree_trans)

lemma meets_context:
  "meets p P D s t \<Longrightarrow> unsafeContext t = unsafeContext s \<and> currentFunction t = currentFunction s"
  by (simp add: meets_def step_rel_def)

lemma does_seq [does_intros]:
  assumes "does p u cf P D m" "does p u cf Q D' n"
  shows "does p u cf (P \<and> Q) (D \<union> D') (seqT m n)"
proof (rule doesI)
  fix s s'
  assume s: "agree p s" "unsafeContext s = u" "currentFunction s = cf" "seqT m n s = Inr s'"
  then obtain t where t: "m s = Inr t" "n t = Inr s'" by (auto simp: seqT_def res_simps)
  have "meets p P D s t" using doesD [OF assms(1)] s t by blast
  moreover from this have "meets p Q D' t s'"
    using doesD [OF assms(2)] s t meets_agree meets_context by metis
  ultimately show "meets p (P \<and> Q) (D \<union> D') s s'" by (rule meets_trans)
qed

lemma does_query:
  assumes "\<And>s a. agree p s \<Longrightarrow> unsafeContext s = u \<Longrightarrow> currentFunction s = cf \<Longrightarrow> q s = Inr a \<Longrightarrow> does p u cf P D (f a)"
  shows "does p u cf P D (queryT q f)"
  by (rule doesI) (auto simp: queryT_def res_simps intro: doesD [OF assms])

lemma does_when [does_intros]: "does p u cf P {} m \<Longrightarrow> does p u cf (b \<longrightarrow> P) {} (whenT b m)"
  by (simp add: whenT_def does_skip)

lemma does_if: "(b \<Longrightarrow> does p u cf P D m) \<Longrightarrow> (\<not> b \<Longrightarrow> does p u cf P D n) \<Longrightarrow> does p u cf P D (if b then m else n)"
  by simp

lemma does_read:
  assumes "\<And>s. agree p s \<Longrightarrow> unsafeContext s = u \<Longrightarrow> currentFunction s = cf \<Longrightarrow> does p u cf P D (f s)"
  shows "does p u cf P D (\<lambda>s. f s s)"
  by (rule doesI) (auto intro: doesD [OF assms])

lemma does_for:
  "(\<And>x. x \<in> set xs \<Longrightarrow> does p u cf (P x) (D x) (f x)) \<Longrightarrow>
   does p u cf (\<forall>x\<in>set xs. P x) (\<Union>x\<in>set xs. D x) (forT f xs)"
proof (induction xs)
  case (Cons x xs)
  then show ?case by (auto intro!: does_conv [OF does_seq])
qed (simp add: does_skip)

lemma does_opt:
  "(\<And>a. x = Some a \<Longrightarrow> does p u cf (P a) (D a) (f a)) \<Longrightarrow>
   does p u cf (\<forall>a. x = Some a \<longrightarrow> P a) (\<Union>a\<in>set_option x. D a) (optT f x)"
  by (cases x) (auto simp: optT_def does_skip)

end
