(* ===== verification/TypeChecker_Sound.thy ===== *)
theory TypeChecker_Sound
  imports TypeChecker_Logic
begin

text \<open>
  Every visit of the type checker reports exactly the values that break the condition of
  \<open>TypeChecker_Spec\<close>, and marks exactly functions that the visited value leads to.
\<close>

section \<open>Occurrences by parts\<close>

lemma occurs_parts:
  "occurs u v w n \<longleftrightarrow> (w = u \<and> n = v) \<or> (\<exists>(x, c)\<in>set (parts u v). occurs x c w n)"
  by (subst occurs.simps) auto

lemma code_ok_parts:
  "code_ok p cf u v \<longleftrightarrow> value_ok p cf u v \<and> (\<forall>(w, c)\<in>set (parts u v). code_ok p cf w c)"
  unfolding code_ok_def by (subst occurs_parts) blast

lemma led_from_parts:
  "led_from u v = set_option (leads_to v) \<union> (\<Union>(w, c)\<in>set (parts u v). led_from w c)"
  unfolding led_from_def by (subst occurs_parts) blast

text \<open>One equation per constructor.\<close>

lemmas unfold_parts =
  code_ok_parts [where v = "IrFunc _"] led_from_parts [where v = "IrFunc _"]
  code_ok_parts [where v = "IrVariable _"] led_from_parts [where v = "IrVariable _"]
  code_ok_parts [where v = "IrArgument _"] led_from_parts [where v = "IrArgument _"]
  code_ok_parts [where v = "IrString _ _"] led_from_parts [where v = "IrString _ _"]
  code_ok_parts [where v = "IrNumber _ _"] led_from_parts [where v = "IrNumber _ _"]
  code_ok_parts [where v = "IrFloat _ _"] led_from_parts [where v = "IrFloat _ _"]
  code_ok_parts [where v = "IrBoolean _ _"] led_from_parts [where v = "IrBoolean _ _"]
  code_ok_parts [where v = "IrChar _ _"] led_from_parts [where v = "IrChar _ _"]
  code_ok_parts [where v = "IrEnumInit _ _"] led_from_parts [where v = "IrEnumInit _ _"]
  code_ok_parts [where v = "IrBlock _ _ _"] led_from_parts [where v = "IrBlock _ _ _"]
  code_ok_parts [where v = "IrCall _ _ _ _ _"] led_from_parts [where v = "IrCall _ _ _ _ _"]
  code_ok_parts [where v = "IrValueExtract _ _"] led_from_parts [where v = "IrValueExtract _ _"]
  code_ok_parts [where v = "IrReturn _ _"] led_from_parts [where v = "IrReturn _ _"]
  code_ok_parts [where v = "IrCast _ _ _"] led_from_parts [where v = "IrCast _ _ _"]
  code_ok_parts [where v = "IrThrow _ _"] led_from_parts [where v = "IrThrow _ _"]
  code_ok_parts [where v = "IrVariableDeclaration _ _ _ _"] led_from_parts [where v = "IrVariableDeclaration _ _ _ _"]
  code_ok_parts [where v = "IrWhileLoop _ _ _ _ _"] led_from_parts [where v = "IrWhileLoop _ _ _ _ _"]
  code_ok_parts [where v = "IrConditional _ _ _ _"] led_from_parts [where v = "IrConditional _ _ _ _"]
  code_ok_parts [where v = "IrTryCatch _ _ _ _"] led_from_parts [where v = "IrTryCatch _ _ _ _"]
  code_ok_parts [where v = "IrReferenceTo _ _"] led_from_parts [where v = "IrReferenceTo _ _"]
  code_ok_parts [where v = "IrDereferenceTo _ _"] led_from_parts [where v = "IrDereferenceTo _ _"]
  code_ok_parts [where v = "IrIndexExtract _ _ _ _"] led_from_parts [where v = "IrIndexExtract _ _ _ _"]
  code_ok_parts [where v = "IrLoopFlow _ _"] led_from_parts [where v = "IrLoopFlow _ _"]
  code_ok_parts [where v = "IrSwitch _ _ _ _ _ _"] led_from_parts [where v = "IrSwitch _ _ _ _ _ _"]

definition sound_visit :: "tc_state \<Rightarrow> (ir_value \<Rightarrow> tc) \<Rightarrow> bool" where
  "sound_visit p vis \<longleftrightarrow> (\<forall>u cf v. does p u cf (code_ok p cf u v) (led_from u v) (vis v))"

lemma sound_visitD: "sound_visit p vis \<Longrightarrow> does p u cf (code_ok p cf u v) (led_from u v) (vis v)"
  by (simp add: sound_visit_def)

lemma sound_visit_for:
  "sound_visit p vis \<Longrightarrow> does p u cf (\<forall>v\<in>set vs. code_ok p cf u v) (\<Union>v\<in>set vs. led_from u v) (forT vis vs)"
  by (rule does_for) (rule sound_visitD)

lemma sound_visit_opt:
  "sound_visit p vis \<Longrightarrow> does p u cf (\<forall>v. x = Some v \<longrightarrow> code_ok p cf u v) (\<Union>v\<in>set_option x. led_from u v) (optT vis x)"
  by (rule does_opt) (rule sound_visitD)

lemma the_type_Inr [simp]: "the_type t = Inr a \<longleftrightarrow> t = Some a"
  by (simp add: the_type_def split: option.splits)

lemma the_type_Some [simp]: "the_type (Some a) = Inr a"
  by (simp add: the_type_def)

lemma the_object_Inr [simp]: "the_object t = Inr a \<longleftrightarrow> t = Some a"
  by (simp add: the_object_def split: option.splits)

lemma the_object_Some [simp]: "the_object (Some a) = Inr a"
  by (simp add: the_object_def)

lemma does_type:
  assumes "\<And>t. getType v p = Inr t \<Longrightarrow> does p u cf (P t) D (f t)"
  shows "does p u cf (has_type p v P) D (queryT (getType v) f)"
proof (rule does_query)
  fix s a
  assume "agree p s" "getType v s = Inr a"
  then have "getType v p = Inr a" by (simp add: agree_getType)
  then show "does p u cf (has_type p v P) D (f a)"
    by (auto intro: does_conv [OF assms] simp: has_type_def)
qed

lemma does_stored_type:
  assumes "\<And>a. t = Some a \<Longrightarrow> does p u cf P D (f a)"
  shows "does p u cf P D (queryT (\<lambda>_. the_type t) f)"
  by (rule does_query) (simp add: assms)

lemma does_void: "does p u cf (not_void t) {} (cantBeVoid t)"
  unfolding cantBeVoid_def
  by (rule does_conv [OF does_when [OF does_E]]) (auto simp: not_void_def)

lemma void_not [simp]:
  "is_PointerTy t \<Longrightarrow> \<not> is_VoidTy t" "is_ReferenceTy t \<Longrightarrow> \<not> is_VoidTy t" "is_PointerTy t \<Longrightarrow> \<not> is_ReferenceTy t"
  by (cases t; simp)+

section \<open>The visits\<close>

lemma does_DereferenceTo:
  assumes "sound_visit p vis"
  shows "does p u cf (code_ok p cf u (IrDereferenceTo t v)) (led_from u (IrDereferenceTo t v)) (typecheck_DereferenceTo vis t v)"
proof -
  have tail: "does p u cf (not_void vt \<and> (is_PointerTy vt \<and> u \<or> is_ReferenceTy vt)) ({} \<union> {})
      (seqT (cantBeVoid vt) (if is_PointerTy vt
         then (\<lambda>s. whenT (\<not> unsafeContext s) (E SYNTAX_ERROR Pointer_dereference_unsafe) s)
         else whenT (case vt of ReferenceTy _ _ \<Rightarrow> False | _ \<Rightarrow> True) (E TYPE_ERROR Not_a_reference)))" for vt
    by (rule does_seq [OF does_void does_if])
      (rule does_read, rule does_conv [OF does_when [OF does_E]], auto,
       rule does_conv [OF does_when [OF does_E]], auto split: ty.splits)
  show ?thesis
    unfolding typecheck_DereferenceTo_def
    by (rule does_conv [OF does_seq [OF sound_visitD [OF assms] does_stored_type [OF does_type [OF tail]]]])
      (auto simp: unfold_parts
         has_type_def not_void_def)
qed

lemma does_ReferenceTo:
  assumes "sound_visit p vis"
  shows "does p u cf (code_ok p cf u (IrReferenceTo t v)) (led_from u (IrReferenceTo t v)) (typecheck_ReferenceTo vis t v)"
  unfolding typecheck_ReferenceTo_def
  by (rule does_conv [OF does_seq [OF sound_visitD [OF assms] does_stored_type [OF does_type [OF does_void]]]])
    (auto simp: unfold_parts has_type_def)

lemma does_VariableDeclaration:
  assumes "sound_visit p vis"
  shows "does p u cf (code_ok p cf u (IrVariableDeclaration t x e b)) (led_from u (IrVariableDeclaration t x e b))
     (typecheck_VariableDeclaration vis e)"
  unfolding typecheck_VariableDeclaration_def
  by (rule does_conv [OF does_opt [OF does_seq [OF sound_visitD [OF assms] does_type [OF does_void]]]])
    (auto simp: unfold_parts has_type_def split: option.splits)

lemma does_IndexExtract:
  "does p u cf (code_ok p cf u (IrIndexExtract t v f n)) (led_from u (IrIndexExtract t v f n)) (typecheck_IndexExtract t)"
  unfolding typecheck_IndexExtract_def
  by (rule does_stored_type, rule does_conv [OF does_void])
    (simp_all add: unfold_parts)

lemma does_Switch:
  assumes "sound_visit p vis"
  shows "does p u cf (code_ok p cf u (IrSwitch t e cs ccs d b)) (led_from u (IrSwitch t e cs ccs d b))
     (typecheck_Switch vis e cs ccs)"
proof -
  have first: "does p u cf (\<forall>x\<in>set cs. code_ok p cf u (fst (snd x))) (\<Union>x\<in>set cs. led_from u (fst (snd x)))
      (forT (\<lambda>(_, block, _). vis block) cs)"
    by (rule does_for) (auto split: prod.splits intro: sound_visitD [OF assms])
  have one: "does p u cf (is_ty a b) {} (whenT (\<not> is_ty a b) (E TYPE_ERROR Case_type))" for a b
    by (rule does_conv [OF does_when [OF does_E]]) auto
  have second: "does p u cf (\<forall>x\<in>set ccs. code_ok p cf u (snd x) \<and> has_type p (fst x) (\<lambda>a. has_type p e (is_ty a)))
      (\<Union>x\<in>set ccs. led_from u (snd x) \<union> {})
      (forT (\<lambda>(val, block). seqT (vis block) (queryT (getType val) (\<lambda>vt. queryT (getType e) (\<lambda>et.
        whenT (\<not> is_ty vt et) (E TYPE_ERROR Case_type))))) ccs)"
    by (rule does_for, simp only: split_beta)
      (rule does_seq [OF sound_visitD [OF assms] does_type [OF does_type [OF one]]])
  show ?thesis
    unfolding typecheck_Switch_def
    by (rule does_conv [OF does_seq [OF sound_visitD [OF assms] does_seq [OF first second]]])
      (auto simp: unfold_parts
         split: prod.splits; force)+
qed

lemma does_Cast:
  assumes "sound_visit p vis"
  shows "does p u cf (code_ok p cf u (IrCast t v c)) (led_from u (IrCast t v c)) (typecheck_Cast vis t v c)"
proof -
  have no_cast: "type_canCast h a b = False" if "function_conversion a b" for h a b
    using that by (cases a; cases b) (auto simp: function_conversion_def void_pointer_def)
  have no_reference: "\<not> reference_conversion a b" if "function_conversion a b" for a b
    using that by (cases a) (auto simp: function_conversion_def void_pointer_def reference_conversion_def)
  have tail: "does p u cf (cast_ok p u a c) ({} \<union> {}) (
     seqT (whenT (is_VoidTy a) (E TYPE_ERROR Cast_from_void)) (
     if is_ty a c \<or> pointer_conversion a c then skipT
     else if function_conversion a c then
       (\<lambda>s. whenT (\<not> unsafeContext s) (E SYNTAX_ERROR Pointer_to_function_unsafe) s)
     else if reference_conversion a c then skipT
     else seqT (whenT (\<not> Types.isMutable a \<and> Types.isMutable c) (E TYPE_ERROR Cast_to_mutable))
       (\<lambda>s. whenT (\<not> type_canCast (class_objs s) a c) (E TYPE_ERROR Cast_impossible) s)))" for a
  proof (rule does_conv [OF does_seq [OF does_when [OF does_E]
        does_if [OF does_conv [OF does_skip]
          does_if [OF does_read [OF does_conv [OF does_when [OF does_E]]]
            does_if [OF does_conv [OF does_skip]
              does_conv [OF does_seq [OF does_when [OF does_E] does_read [OF does_conv [OF does_when [OF does_E]]]]]]]]]])
    show "((is_VoidTy a \<longrightarrow> False) \<and> (is_ty a c \<or> pointer_conversion a c \<or> (function_conversion a c \<and> u) \<or>
        reference_conversion a c \<or> ((Types.isMutable c \<longrightarrow> Types.isMutable a) \<and> type_canCast (class_objs p) a c))) =
        cast_ok p u a c"
      by (auto simp: cast_ok_def not_void_def)
  qed (auto simp: agree_canCast no_cast no_reference)
  show ?thesis
    unfolding typecheck_Cast_def
    by (rule does_stored_type, rule does_conv [OF does_seq [OF does_assert does_seq [OF sound_visitD [OF assms] does_type [OF tail]]]])
      (auto simp: unfold_parts has_type_def)
qed

lemma does_Return:
  assumes "sound_visit p vis"
  shows "does p u cf (code_ok p cf u (IrReturn t e)) (led_from u (IrReturn t e)) (typecheck_Return vis t e)"
proof (rule doesI)
  fix s s'
  assume s: "agree p s" "unsafeContext s = u" "currentFunction s = cf" and run: "typecheck_Return vis t e s = Inr s'"
  from run s(3) obtain i where cf: "cf = Some i" by (cases cf) (simp_all add: typecheck_Return_def)
  have tail: "does p u cf (return_ok p cf t e) ({} \<union> ({} \<union> {})) (queryT (func_of i) (\<lambda>fn.
          queryT (\<lambda>_. the_type (f_retTy fn)) (\<lambda>ret.
          seqT (if is_VoidTy ret \<and> e \<noteq> None
                then queryT (\<lambda>_. the_type t) (\<lambda>_. E TYPE_ERROR Return_with_value) else skipT) (
          seqT (whenT (\<not> is_VoidTy ret \<and> e = None) (E TYPE_ERROR Return_without_value)) (
          queryT (\<lambda>_. the_type t) (\<lambda>own_type.
          whenT (\<not> is_ty own_type ret) (E TYPE_ERROR Return_type)))))))"
  proof (rule does_query, rule does_stored_type)
    fix s f ret
    assume "agree p s" "func_of i s = Inr f" and ret: "f_retTy f = Some ret"
    then obtain f0 where f0: "funcs p i = Some f0" "f_retTy f0 = Some ret"
      by (auto simp: func_of_def same_funcD elim!: agree_func)
    show "does p u cf (return_ok p cf t e) ({} \<union> ({} \<union> {}))
        (seqT (if is_VoidTy ret \<and> e \<noteq> None
                then queryT (\<lambda>_. the_type t) (\<lambda>_. E TYPE_ERROR Return_with_value) else skipT) (
          seqT (whenT (\<not> is_VoidTy ret \<and> e = None) (E TYPE_ERROR Return_without_value)) (
          queryT (\<lambda>_. the_type t) (\<lambda>own_type.
          whenT (\<not> is_ty own_type ret) (E TYPE_ERROR Return_type)))))"
    proof (cases t)
      case None
      then show ?thesis by (simp add: does_def seqT_def queryT_def the_type_def bindR_def split: sum.splits)
    next
      case (Some a)
      have "does p u cf ((is_VoidTy ret \<longrightarrow> e = None) \<and> ((\<not> is_VoidTy ret \<and> e = None \<longrightarrow> False) \<and> is_ty a ret)) ({} \<union> ({} \<union> {}))
        (seqT (if is_VoidTy ret \<and> e \<noteq> None
                then queryT (\<lambda>_. the_type t) (\<lambda>_. E TYPE_ERROR Return_with_value) else skipT) (
          seqT (whenT (\<not> is_VoidTy ret \<and> e = None) (E TYPE_ERROR Return_without_value)) (
          queryT (\<lambda>_. the_type t) (\<lambda>own_type.
          whenT (\<not> is_ty own_type ret) (E TYPE_ERROR Return_type)))))"
        by (intro does_seq does_if does_when does_E does_stored_type does_conv [OF does_E] does_conv [OF does_skip]
            does_conv [OF does_when [OF does_E]]) (auto simp: Some)
      then show ?thesis
        by (rule does_conv) (use cf f0 Some in \<open>auto simp: return_ok_def\<close>)
    qed
  qed
  have "does p u cf (code_ok p cf u (IrReturn t e)) (led_from u (IrReturn t e)) (typecheck_Return vis t e)" if "cf = Some i"
  proof (rule doesI)
    fix s s'
    assume "agree p s" "unsafeContext s = u" "currentFunction s = cf" "typecheck_Return vis t e s = Inr s'"
    then show "meets p (code_ok p cf u (IrReturn t e)) (led_from u (IrReturn t e)) s s'"
      by (intro doesD [OF does_conv [OF does_seq [OF sound_visit_opt [OF assms] tail]]])
        (auto simp: typecheck_Return_def that unfold_parts split: option.splits)
  qed
  then show "meets p (code_ok p cf u (IrReturn t e)) (led_from u (IrReturn t e)) s s'"
    using cf s run by (auto dest: doesD)
qed

section \<open>Variables\<close>

lemma agree_update_func:
  assumes "funcs s i = Some f" "same_func f f'"
  shows "agree s (update_func i (\<lambda>_. f') s)"
  using assms
  by (auto simp: agree_def update_func_def same_func_refl same_var_refl same_class_refl
      intro: option.rel_refl)

lemma agree_update_var:
  assumes "vars s i = Some v" "same_var v v'"
  shows "agree s (update_var i (\<lambda>_. v') s)"
  using assms
  by (auto simp: agree_def update_var_def same_func_refl same_var_refl same_class_refl
      intro: option.rel_refl)

lemma macro_meets:
  assumes "agree p s" "ADD_TO_PARENT_SCOPE x isArg s = Inr (b, s')"
  shows "meets p True {} s s' \<and>
    (b \<longleftrightarrow> (\<forall>i f. currentFunction s = Some i \<and> funcs p i = Some f \<longrightarrow> f_anon f))"
proof (cases "currentFunction s")
  case None
  then show ?thesis using assms by (simp add: ADD_TO_PARENT_SCOPE_def meets_refl)
next
  case (Some i)
  with assms obtain f where f: "funcs s i = Some f"
    by (auto simp: ADD_TO_PARENT_SCOPE_def res_simps func_of_def)
  obtain f0 where f0: "funcs p i = Some f0" "same_func f0 f" by (rule agree_func [OF assms(1) f])
  then have anon: "f_anon f0 = f_anon f" by (simp add: same_funcD)
  show ?thesis
  proof (cases "f_anon f \<and> b")
    case False
    then show ?thesis using assms(2) Some f f0 anon
      by (auto simp: ADD_TO_PARENT_SCOPE_def func_of_def var_of_def the_object_def res_simps meets_refl
          split: if_splits option.splits)
  next
    case True
    with assms(2) Some f obtain v where v: "vars s x = Some v"
      and s': "s' = s \<or> s' = update_var x (\<lambda>_. (setUsedInLambda v)\<lparr>v_parentFunc := f_parentScope f\<rparr>)
          (update_func i (\<lambda>_. f\<lparr>f_usesParentScope := True\<rparr>) s)"
      by (auto simp: ADD_TO_PARENT_SCOPE_def func_of_def var_of_def the_object_def res_simps setUsesParentScope_def
          setParentFunc_def setUsedInLambda_def split: if_splits option.splits)
    let ?t = "update_func i (\<lambda>_. f\<lparr>f_usesParentScope := True\<rparr>) s"
    let ?u = "update_var x (\<lambda>_. (setUsedInLambda v)\<lparr>v_parentFunc := f_parentScope f\<rparr>) ?t"
    have "agree s ?t" by (rule agree_update_func [OF f]) (cases f, simp add: same_func_def)
    moreover have "agree ?t ?u"
      by (rule agree_update_var) (use v in \<open>auto simp: update_func_def same_var_def setUsedInLambda_def\<close>)
    moreover have "checked ?u = checked s"
      using f by (auto simp: checked_def update_func_def update_var_def split: if_splits)
    moreover have "errors ?u = errors s" "unsafeContext ?u = unsafeContext s" "currentFunction ?u = currentFunction s"
      by (simp_all add: update_func_def update_var_def)
    ultimately have "meets p True {} s ?u"
      by (auto simp: meets_def step_rel_def clean_def intro: agree_trans)
    then show ?thesis using s' True Some f0 anon by (auto simp: meets_refl)
  qed
qed

lemma does_Variable:
  "does p u cf (code_ok p cf u (IrVariable x)) (led_from u (IrVariable x)) (typecheck_Variable x)"
proof (rule doesI)
  fix s s'
  assume s: "agree p s" "unsafeContext s = u" "currentFunction s = cf" "typecheck_Variable x s = Inr s'"
  then obtain b t where t: "ADD_TO_PARENT_SCOPE x 0 s = Inr (b, t)"
    and run: "(if b then queryT (getType (IrVariable x)) cantBeVoid t else Inr t) = Inr s'"
    by (auto simp: typecheck_Variable_def res_simps)
  have m: "meets p True {} s t" and b: "b \<longleftrightarrow> (\<forall>i f. cf = Some i \<and> funcs p i = Some f \<longrightarrow> f_anon f)"
    using macro_meets [OF s(1) t] s(3) by auto
  have "meets p (b \<longrightarrow> has_type p (IrVariable x) not_void) {} t s'"
  proof (cases b)
    case True
    have "agree p t" using m s(1) by (auto intro: meets_agree)
    then have "meets p (has_type p (IrVariable x) not_void) {} t s'"
      using True run meets_context [OF m] s by (auto intro!: doesD [OF does_type [OF does_void]])
    then show ?thesis using True by simp
  qed (use run in \<open>simp add: meets_refl\<close>)
  from meets_trans [OF m this] have "meets p (b \<longrightarrow> has_type p (IrVariable x) not_void) {} s s'" by simp
  moreover have "code_ok p cf u (IrVariable x) \<longleftrightarrow> (b \<longrightarrow> has_type p (IrVariable x) not_void)"
    using b by (auto simp: unfold_parts variable_ok_def)
  ultimately show "meets p (code_ok p cf u (IrVariable x)) (led_from u (IrVariable x)) s s'"
    by (simp add: unfold_parts)
qed

lemma does_Argument:
  "does p u cf (code_ok p cf u (IrArgument x)) (led_from u (IrArgument x)) (typecheck_Argument x)"
  by (rule doesI) (auto simp: typecheck_Argument_def res_simps unfold_parts dest!: macro_meets split: if_splits)

section \<open>Calls\<close>

lemma does_mutating:
  assumes "same_func f0 fn"
  shows "does p u cf (mutating_ok f0 m) {} (check_mutating_call fn m)"
  unfolding check_mutating_call_def
  by (rule does_query, rule does_if; (rule does_stored_type)?)
    (auto simp: mutating_ok_def same_func_derived [OF assms] same_funcD [OF assms]
      intro!: does_conv [OF does_skip] does_conv [OF does_when [OF does_E]])

lemma queryT_const: "queryT (\<lambda>_. Inr a) f = f a"
  by (rule ext) (simp add: queryT_def)

lemma does_self_assignment:
  "does p u cf (isAssignment \<and> self \<longrightarrow> in_mutable_function p cf) {} (check_self_assignment isAssignment self)"
proof (cases "isAssignment \<and> self")
  case True
  have "does p u cf (in_mutable_function p cf) {} (queryT current_func (\<lambda>f. queryT (\<lambda>_. the_type (f_type f)) (\<lambda>t.
        whenT (\<not> Types.isMutable t) (E VARIABLE_ERROR Mutating_method_immutable))))"
  proof (rule does_query, rule does_stored_type)
    fix s f t
    assume "agree p s" "currentFunction s = cf" "current_func s = Inr f" "f_type f = Some t"
    then have "in_mutable_function p cf \<longleftrightarrow> Types.isMutable t"
      by (auto simp: current_func_def func_of_def in_mutable_function_def same_funcD elim!: agree_func split: option.splits)
    then show "does p u cf (in_mutable_function p cf) {} (whenT (\<not> Types.isMutable t) (E VARIABLE_ERROR Mutating_method_immutable))"
      by (auto intro!: does_conv [OF does_when [OF does_E]])
  qed
  then show ?thesis using True by (simp add: check_self_assignment_def)
qed (auto simp: check_self_assignment_def intro: does_conv [OF does_skip])

lemma does_assignable:
  "does p u cf (assignable_kind v \<or> has_type p v (\<lambda>t. \<not> is_PrimitiveTy t)) {} (check_assignable v)"
proof (cases "assignable_kind v")
  case False
  have "does p u cf (has_type p v (\<lambda>t. \<not> is_PrimitiveTy t)) {}
      (queryT (getType v) (\<lambda>t. whenT (is_PrimitiveTy t) (E VARIABLE_ERROR Not_assignable)))"
    by (rule does_type, rule does_conv [OF does_when [OF does_E]]) auto
  then show ?thesis using False by (simp add: check_assignable_def)
qed (simp add: check_assignable_def does_skip)

text \<open>
  The one place where a value is visited although it is not in order: the visit can only add to what is
  reported anyway, and what it marks is marked by the regular visit of the argument as well.
\<close>

lemma does_assign_immutable:
  assumes "sound_visit p vis"
  shows "does p u cf False (led_from u v) (seqT (vis v) (queryT (value_isMutable v) (\<lambda>_. E VARIABLE_ERROR Assign_immutable)))"
  by (rule does_conv [OF does_seq [OF sound_visitD [OF assms] does_query]]) (auto intro: does_E)

definition extra_visit :: "tc_state \<Rightarrow> call_kind \<Rightarrow> bool \<Rightarrow> ir_func \<Rightarrow> ir_value \<Rightarrow> bool" where
  "extra_visit p kind init f v \<longleftrightarrow>
     assigns (f_identifier f) \<and> \<not> ignoreMutability kind \<and> value_isMutable v p = Inr False \<and> \<not> init"

lemma does_checkMutability:
  assumes "sound_visit p vis" "same_func f0 fn"
  shows "does p u cf (first_argument_ok p cf kind init f0 v)
     (if extra_visit p kind init f0 v then led_from u v else {}) (checkMutability vis kind init fn v)"
proof -
  let ?name = "f_identifier f0"
  let ?P = "first_argument_ok p cf kind init f0 v"
  let ?D = "if extra_visit p kind init f0 v then led_from u v else {}"
  note mut = does_mutating [OF assms(2)]
  have plain: "does p u cf ?P ?D (check_mutating_call fn m)"
    if "value_isMutable v p = Inr m" "\<not> assigns ?name" for m
    by (rule does_conv [OF mut [of _ _ _ m]]) (use that in \<open>auto simp: first_argument_ok_def extra_visit_def\<close>)
  have op: "does p u cf ?P ?D
       (seqT (assertT (is_BinaryOp kind)) (
       seqT (check_self_assignment (is_assignment opType) self) (
       if is_assignment opType \<and> \<not> ignoreMutability kind \<and> \<not> m then
         seqT (if init then skipT
               else seqT (vis v) (queryT (value_isMutable v) (\<lambda>_. E VARIABLE_ERROR Assign_immutable)))
           (check_mutating_call fn m)
       else if is_assignment opType then check_assignable v
       else check_mutating_call fn m)))"
    if m: "value_isMutable v p = Inr m" and self: "accessingSelf v p = Inr self"
      and n: "isOperator ?name" "opEquals OT_CONSTRUCTOR ?name = Inr False" "operatorID ?name = Inr opType"
    for m self opType
  proof (cases "is_assignment opType")
    case False
    then have "\<not> assigns ?name" using n by (auto simp: assigns_def)
    from plain [OF m this] show ?thesis
      using False by (auto intro!: does_conv [OF does_seq [OF does_assert does_seq [OF does_self_assignment]]])
  next
    case True
    then have a: "assigns ?name" using n by (auto simp: assigns_def)
    show ?thesis
    proof (cases "m \<or> ignoreMutability kind")
      case True
      then show ?thesis using \<open>is_assignment opType\<close> a m self
        by (auto simp: first_argument_ok_def assignment_ok_def extra_visit_def
            intro!: does_conv [OF does_seq [OF does_assert does_seq [OF does_self_assignment does_assignable]]])
    next
      case False
      have "does p u cf (init \<and> mutating_ok f0 m) ((if init then {} else led_from u v) \<union> {})
          (seqT (if init then skipT
               else seqT (vis v) (queryT (value_isMutable v) (\<lambda>_. E VARIABLE_ERROR Assign_immutable)))
           (check_mutating_call fn m))"
        by (rule does_seq [OF _ mut]) (auto intro: does_skip does_assign_immutable [OF assms(1)])
      then show ?thesis using \<open>is_assignment opType\<close> a m self False
        by (auto simp: first_argument_ok_def assignment_ok_def extra_visit_def
            intro!: does_conv [OF does_seq [OF does_assert does_seq [OF does_self_assignment]]])
    qed
  qed
  have body: "does p u cf ?P ?D (if operator then queryT (\<lambda>_. operatorID ?name) (\<lambda>opType.
       seqT (assertT (is_BinaryOp kind)) (
       seqT (check_self_assignment (is_assignment opType) self) (
       if is_assignment opType \<and> \<not> ignoreMutability kind \<and> \<not> m then
         seqT (if init then skipT
               else seqT (vis v) (queryT (value_isMutable v) (\<lambda>_. E VARIABLE_ERROR Assign_immutable)))
           (check_mutating_call fn m)
       else if is_assignment opType then check_assignable v
       else check_mutating_call fn m))) else check_mutating_call fn m)"
    if "agree p s" "value_isMutable v s = Inr m" "agree p t" "accessingSelf v t = Inr self"
      and n: "(if isOperator ?name then bindR (opEquals OT_CONSTRUCTOR ?name) (\<lambda>c. Inr (\<not> c)) else Inr False) = Inr operator"
    for s t m self operator
  proof -
    have m: "value_isMutable v p = Inr m" and self: "accessingSelf v p = Inr self"
      using that by (simp_all add: agree_isMutable agree_accessingSelf)
    show ?thesis
    proof (cases operator)
      case True
      with n have "isOperator ?name" "opEquals OT_CONSTRUCTOR ?name = Inr False"
        by (auto simp: res_simps split: if_splits)
      then show ?thesis unfolding if_P [OF True] by (rule does_query [OF op [OF m self]])
    next
      case False
      then have "\<not> assigns ?name" using n by (auto simp: assigns_def res_simps)
      then show ?thesis using False plain [OF m] by simp
    qed
  qed
  have name: "Func_getName fn True = Inr ?name"
    using same_funcD [OF assms(2)] by (simp add: Func_getName_def)
  show ?thesis
    unfolding checkMutability_def name Let_def queryT_const
    by (rule does_query, rule does_query, rule does_query, rule body)
qed

lemma does_arguments:
  assumes "sound_visit p vis" and f: "\<And>i. fn = Some i \<Longrightarrow> \<exists>f0. funcs p i = Some f0"
  shows "does p u cf ((\<forall>i f0 a as. fn = Some i \<and> funcs p i = Some f0 \<and> args = a # as
         \<longrightarrow> first_argument_ok p cf kind init f0 a) \<and> (\<forall>a\<in>set args. code_ok p cf u a))
     (\<Union>a\<in>set args. led_from u a) (check_arguments vis kind init fn args)"
proof (cases args)
  case Nil
  then show ?thesis by (simp add: check_arguments_def does_skip)
next
  case (Cons a as)
  note rest = does_seq [OF sound_visitD [OF assms(1)] sound_visit_for [OF assms(1)]]
  show ?thesis
  proof (cases fn)
    case None
    then show ?thesis unfolding Cons check_arguments_def
      by (auto intro!: does_conv [OF does_seq [OF does_skip rest]])
  next
    case (Some i)
    with f obtain f0 where f0: "funcs p i = Some f0" by blast
    have "does p u cf (first_argument_ok p cf kind init f0 a)
        (if extra_visit p kind init f0 a then led_from u a else {})
        (queryT (func_of i) (\<lambda>f. checkMutability vis kind init f a))"
      by (rule does_query, rule does_checkMutability [OF assms(1)])
        (use f0 in \<open>auto simp: func_of_def elim!: agree_func\<close>)
    then show ?thesis using f0 unfolding Some Cons check_arguments_def
      by (auto intro!: does_conv [OF does_seq [OF _ rest]] split: if_splits)
  qed
qed

lemma does_callable: "does p u cf (callable p callee) {} (callee_callable callee)"
proof (cases callee)
  case (Some c)
  have "does p u cf (has_type p c (\<lambda>t. \<exists>ft. getFunctionType t = Inr (Some ft))) {}
     (queryT (getType c) (\<lambda>t. queryT (\<lambda>_. getFunctionType t) (\<lambda>ft. whenT (ft = None) (E TYPE_ERROR Not_callable))))"
    by (rule does_type, rule does_query, rule does_conv [OF does_when [OF does_E]]) auto
  then show ?thesis using Some by (simp add: callee_callable_def callable_def)
qed (simp add: callee_callable_def callable_def does_E)

lemma does_usable:
  assumes "same_func f0 fn"
  shows "does p u cf (\<not> hasAttribute (f_attributes f0) NOT_IMPLEMENTED \<and> (hasAttribute (f_attributes f0) UNSAFE \<longrightarrow> u)) {}
     (callee_usable fn)"
  unfolding callee_usable_def
  by (rule does_if; (rule does_read)?)
    (auto simp: same_funcD [OF assms] intro!: does_conv [OF does_E] does_conv [OF does_when [OF does_E]])

text \<open>The arguments of an enumeration value.\<close>

lemma typecheck_arguments_meets:
  assumes "sound_visit p vis"
  shows "agree p s \<Longrightarrow> typecheck_arguments vis args s = Inr (ts, s') \<Longrightarrow>
    meets p (\<forall>a\<in>set args. code_ok p (currentFunction s) (unsafeContext s) a)
      (\<Union>a\<in>set args. led_from (unsafeContext s) a) s s' \<and>
    list_all2 (\<lambda>a t. getType a p = Inr t) args ts"
proof (induction args arbitrary: s ts)
  case Nil
  then show ?case by (auto intro: meets_refl)
next
  case (Cons a as)
  then obtain s1 t ts1 where s1: "vis a s = Inr s1" and t: "getType a s1 = Inr t"
    and rest: "typecheck_arguments vis as s1 = Inr (ts1, s')" and ts: "ts = t # ts1"
    by (auto simp: res_simps)
  have m: "meets p (code_ok p (currentFunction s) (unsafeContext s) a) (led_from (unsafeContext s) a) s s1"
    by (rule doesD [OF sound_visitD [OF assms] Cons.prems(1) _ _ s1]) auto
  have "agree p s1" using m Cons.prems(1) by (rule meets_agree [rotated])
  with Cons.IH [OF this rest] meets_trans [OF m] meets_context [OF m] t ts show ?case
    by (auto simp: agree_getType)
qed

lemma does_enum_arguments:
  "does p u cf (\<forall>(i, t)\<in>set its. i < length fts \<and> is_ty t (fts ! i)) {} (forT (enum_argument fts) its)"
proof (rule does_conv [OF does_for [where P = "\<lambda>(i, t). i < length fts \<and> is_ty t (fts ! i)" and D = "\<lambda>_. {}"]])
  fix x
  show "does p u cf (case x of (i, t) \<Rightarrow> i < length fts \<and> is_ty t (fts ! i)) {} (enum_argument fts x)"
    by (cases x) (auto simp: enum_argument_def does_fail intro!: does_conv [OF does_when [OF does_E]])
qed auto

lemma checkEnumInit_Inr:
  assumes "checkEnumInit vis t name args s = Inr s'"
  obtains m b gs l c fts ts s1 where "t = Some (EnumTy m b gs l)" "objs (class_objs s) l = Some c"
    "map_of (enum_fields c) name = Some fts" "typecheck_arguments vis args s = Inr (ts, s1)"
    "seqT (whenT (length ts \<noteq> length fts) (E TYPE_ERROR Enum_argument_count))
       (forT (enum_argument fts) (List.enumerate 0 ts)) s1 = Inr s'"
proof -
  from assms obtain a where t: "t = Some a" by (auto simp: checkEnumInit_def res_simps)
  show thesis
  proof (cases a)
    case (EnumTy m b gs l)
    then show thesis using that assms t
      by (auto simp: checkEnumInit_def res_simps class_at_def split: option.splits)
  qed (use assms t in \<open>simp_all add: checkEnumInit_def\<close>)
qed

lemma does_EnumInit:
  assumes "sound_visit p vis"
  shows "does p u cf (enum_ok p t name args \<and> (\<forall>a\<in>set args. code_ok p cf u a)) (\<Union>a\<in>set args. led_from u a)
    (checkEnumInit vis t name args)"
proof (rule doesI)
  fix s s'
  assume s: "agree p s" "unsafeContext s = u" "currentFunction s = cf" and run: "checkEnumInit vis t name args s = Inr s'"
  from run obtain m b gs l c fts ts s1 where t: "t = Some (EnumTy m b gs l)" and c: "objs (class_objs s) l = Some c"
    and fts: "map_of (enum_fields c) name = Some fts" and args: "typecheck_arguments vis args s = Inr (ts, s1)"
    and tail: "seqT (whenT (length ts \<noteq> length fts) (E TYPE_ERROR Enum_argument_count))
               (forT (enum_argument fts) (List.enumerate 0 ts)) s1 = Inr s'"
    by (rule checkEnumInit_Inr)
  have m: "meets p (\<forall>a\<in>set args. code_ok p cf u a) (\<Union>a\<in>set args. led_from u a) s s1"
    and ts: "list_all2 (\<lambda>a t. getType a p = Inr t) args ts"
    using typecheck_arguments_meets [OF assms s(1) args] s by auto
  have e: "((length ts \<noteq> length fts \<longrightarrow> False) \<and>
      (\<forall>(i, t)\<in>set (List.enumerate 0 ts). i < length fts \<and> is_ty t (fts ! i))) = enum_ok p t name args"
  proof -
    obtain c0 where c0: "objs (class_objs p) l = Some c0" "enum_fields c0 = enum_fields c"
      using agree_class [OF s(1) c] by (metis same_classD(1))
    have "list_all2 (\<lambda>v t. has_type p v (\<lambda>vt. is_ty vt t)) args fts \<longleftrightarrow> list_all2 is_ty ts fts"
      using ts by (auto simp: list_all2_conv_all_nth has_type_def)
    then have "enum_ok p t name args \<longleftrightarrow> list_all2 is_ty ts fts"
      using t c0 fts by (simp add: enum_ok_def)
    then show ?thesis
      by (auto simp: list_all2_conv_all_nth in_set_enumerate_eq)
  qed
  have "meets p (enum_ok p t name args) {} s1 s'"
    by (rule doesD [OF does_conv [OF does_seq [OF does_when [OF does_E] does_enum_arguments] e] meets_agree [OF s(1) m] _ _ tail])
      (use meets_context [OF m] s in auto)
  from meets_trans [OF m this]
  show "meets p (enum_ok p t name args \<and> (\<forall>a\<in>set args. code_ok p cf u a)) (\<Union>a\<in>set args. led_from u a) s s'"
    by (simp add: conj_commute)
qed

lemma does_call_function:
  assumes "sound_visit p vis"
  shows "does p u cf (function_call_ok p cf u kind init i args \<and> (\<forall>a\<in>set args. code_ok p cf u a))
     ({i} \<union> (\<Union>a\<in>set args. led_from u a))
     (seqT (seqT (queryT (func_of i) callee_usable) (vis (IrFunc i))) (check_arguments vis kind init (Some i) args))"
proof (cases "funcs p i")
  case None
  then have "func_of i s = Inl dangling" if "agree p s" for s
    using agree_none(1) [OF that, of i] by (simp add: func_of_def the_object_def)
  then show ?thesis by (simp add: does_def seqT_def queryT_def)
next
  case (Some f0)
  have usable: "does p u cf (\<not> hasAttribute (f_attributes f0) NOT_IMPLEMENTED \<and> (hasAttribute (f_attributes f0) UNSAFE \<longrightarrow> u)) {}
      (queryT (func_of i) callee_usable)"
    by (rule does_query, rule does_usable) (use Some in \<open>auto simp: func_of_def elim!: agree_func\<close>)
  have args: "does p u cf ((\<forall>i' f0 a as. Some i = Some i' \<and> funcs p i' = Some f0 \<and> args = a # as
         \<longrightarrow> first_argument_ok p cf kind init f0 a) \<and> (\<forall>a\<in>set args. code_ok p cf u a))
     (\<Union>a\<in>set args. led_from u a) (check_arguments vis kind init (Some i) args)"
    by (rule does_arguments [OF assms]) (use Some in auto)
  show ?thesis
    by (rule does_conv [OF does_seq [OF does_seq [OF usable sound_visitD [OF assms]] args]])
      (auto simp: unfold_parts function_call_ok_def Some split: list.splits)
qed

lemma does_Call:
  assumes "sound_visit p vis"
  shows "does p u cf (code_ok p cf u (IrCall t kind callee args init)) (led_from u (IrCall t kind callee args init))
     (typecheck_Call vis t kind callee args init)"
proof -
  have plain: "does p u cf ((callable p callee \<and> (case called_function callee of None \<Rightarrow> True
          | Some i \<Rightarrow> function_call_ok p cf u kind init i args)) \<and> (\<forall>a\<in>set args. code_ok p cf u a))
      (set_option (called_function callee) \<union> (\<Union>a\<in>set args. led_from u a))
      (seqT (callee_callable callee) (
       seqT (optT (\<lambda>i. seqT (queryT (func_of i) callee_usable) (vis (IrFunc i))) (called_function callee))
         (check_arguments vis kind init (called_function callee) args)))" for kind
  proof (cases "called_function callee")
    case None
    then show ?thesis
      by (auto simp: optT_def intro!: does_conv [OF does_seq [OF does_callable does_seq [OF does_skip does_arguments [OF assms]]]])
  next
    case (Some i)
    then show ?thesis
      by (auto simp: optT_def intro!: does_conv [OF does_seq [OF does_callable does_call_function [OF assms]]])
  qed
  have named: "called_function callee = None" if "is_EnumInit callee = Some n" for n
    using that by (auto simp: is_EnumInit_def called_function_def split: option.splits ir_value.splits)
  show ?thesis
  proof (cases kind)
    case (ObjectInitialization b)
    then show ?thesis unfolding typecheck_Call_def
      by (auto simp: unfold_parts call_ok_def intro!: does_conv [OF sound_visit_for [OF assms]])
  next
    case ZeroInitialized
    then show ?thesis unfolding typecheck_Call_def
      by (auto simp: unfold_parts call_ok_def intro!: does_conv [OF does_skip])
  next
    case PlainCall
    then show ?thesis unfolding typecheck_Call_def
      by (cases "is_EnumInit callee")
        (auto simp: unfold_parts call_ok_def named intro!: does_conv [OF plain] does_conv [OF does_EnumInit [OF assms]])
  next
    case (BinaryOpCall b)
    then show ?thesis unfolding typecheck_Call_def
      by (cases "is_EnumInit callee")
        (auto simp: unfold_parts call_ok_def named intro!: does_conv [OF plain] does_conv [OF does_EnumInit [OF assms]])
  qed
qed

section \<open>Blocks and functions\<close>

lemma does_Block:
  assumes "sound_visit p vis"
  shows "does p u cf (code_ok p cf u (IrBlock t attrs insts)) (led_from u (IrBlock t attrs insts)) (typecheck_Block vis attrs insts)"
proof (cases "hasAttribute attrs UNSAFE")
  case False
  have "does p u cf (code_ok p cf u (IrBlock t attrs insts)) (led_from u (IrBlock t attrs insts)) (forT vis insts)"
    by (rule does_conv [OF sound_visit_for [OF assms]]) (use False in \<open>auto simp: unfold_parts\<close>)
  then show ?thesis using False by (simp add: does_def typecheck_Block_def)
next
  case True
  show ?thesis
  proof (rule doesI)
    fix s s'
    assume s: "agree p s" "unsafeContext s = u" "currentFunction s = cf" "typecheck_Block vis attrs insts s = Inr s'"
    then obtain t1 where run: "forT vis insts (s\<lparr>unsafeContext := True\<rparr>) = Inr t1"
      and s': "s' = t1\<lparr>unsafeContext := unsafeContext s\<rparr>"
      using True by (auto simp: typecheck_Block_def res_simps)
    have "agree p (s\<lparr>unsafeContext := True\<rparr>)" using s(1) by (simp add: agree_def)
    then have "meets p (\<forall>v\<in>set insts. code_ok p cf True v) (\<Union>v\<in>set insts. led_from True v) (s\<lparr>unsafeContext := True\<rparr>) t1"
      by (rule doesD [OF sound_visit_for [OF assms]]) (use s run in auto)
    then show "meets p (code_ok p cf u (IrBlock t attrs insts)) (led_from u (IrBlock t attrs insts)) s s'"
      using True s' by (auto simp: unfold_parts meets_def step_rel_def clean_def checked_def agree_def)
  qed
qed

lemma does_test_arguments:
  "does p u cf (\<forall>(name, val)\<in>set args. name = ''expect'' \<and> is_number val \<or> name = ''skip'' \<and> val = []) {} (forT test_argument args)"
proof (rule does_conv [OF does_for [where P = "\<lambda>(name, val). name = ''expect'' \<and> is_number val \<or> name = ''skip'' \<and> val = []"
      and D = "\<lambda>_. {}"]])
  fix x
  show "does p u cf (case x of (name, val) \<Rightarrow> name = ''expect'' \<and> is_number val \<or> name = ''skip'' \<and> val = []) {} (test_argument x)"
    by (cases x) (auto simp: test_argument_def is_number_def intro!: does_conv [OF does_E] does_conv [OF does_when [OF does_E]])
qed auto

lemma does_llvm_arguments:
  "does p u cf (set args \<subseteq> {(''sanitise_void_return'', [])}) {} (forT llvm_argument args)"
proof (rule does_conv [OF does_for [where P = "\<lambda>a. a = (''sanitise_void_return'', [])" and D = "\<lambda>_. {}"]])
  fix x
  show "does p u cf (x = (''sanitise_void_return'', [])) {} (llvm_argument x)"
    by (cases x) (auto simp: llvm_argument_def intro!: does_conv [OF does_E] does_conv [OF does_when [OF does_E]])
qed auto

lemma does_declaration: "does p u cf (declaration_ok f) {} (checkFunctionDeclaration f)"
proof -
  have test: "does p u cf (test_ok f) {} (check_test f)"
  proof -
    have "does p u cf (\<not> f_declaration f \<and> (\<exists>r. f_retTy f = Some r \<and> isIntType 32 r) \<and> f_arguments f = [] \<and>
        \<not> hasAttribute (f_attributes f) INLINE) {}
      (if f_declaration f then E SYNTAX_ERROR Test_without_body
       else queryT (\<lambda>_. the_type (f_retTy f)) (\<lambda>r.
         if \<not> isIntType 32 r then E SYNTAX_ERROR Test_return_type
         else if f_arguments f \<noteq> [] then E SYNTAX_ERROR Test_with_arguments
         else whenT (hasAttribute (f_attributes f) INLINE) (E SYNTAX_ERROR Test_inline)))"
      by (rule does_if; (rule does_stored_type, (rule does_if)+)?)
        (auto intro!: does_conv [OF does_E] does_conv [OF does_when [OF does_E]])
    then show ?thesis unfolding check_test_def test_ok_def
      by (rule does_conv [OF does_seq [OF _ does_test_arguments]]) auto
  qed
  show ?thesis
    unfolding checkFunctionDeclaration_def declaration_ok_def Let_def
    by (auto simp: check_bench_def check_inline_def
        intro!: test does_llvm_arguments does_conv [OF does_E] does_conv [OF does_when [OF does_E]] does_conv [OF does_skip])
qed

lemma mark_checked_same: "same_func f (mark_checked f)"
  by (cases f) (simp add: same_func_def mark_checked_def)

lemma checked_mark:
  assumes "funcs s i = Some f"
  shows "checked (update_func i mark_checked s) = insert i (checked s)"
  using assms by (auto simp: checked_def update_func_def mark_checked_def split: if_splits)

lemma meets_context_restored:
  "meets p P D (s\<lparr>currentFunction := c, unsafeContext := u\<rparr>) t \<Longrightarrow>
   meets p P D s (t\<lparr>unsafeContext := unsafeContext s, currentFunction := currentFunction s\<rparr>)"
  by (simp add: meets_def step_rel_def clean_def checked_def agree_def)

lemma does_Func:
  assumes "sound_visit p vis"
  shows "does p u cf True {i} (typecheck_Func vis i)"
proof (rule doesI)
  fix s s'
  assume s: "agree p s" "unsafeContext s = u" "currentFunction s = cf" and run: "typecheck_Func vis i s = Inr s'"
  then obtain f where f: "funcs s i = Some f" by (auto simp: typecheck_Func_def res_simps func_of_def)
  show "meets p True {i} s s'"
  proof (cases "hasAttribute (f_attributes f) TYPECHECKED")
    case True
    then have "s' = s" "i \<in> checked s" using run f by (auto simp: typecheck_Func_def func_of_def checked_def)
    then show ?thesis by (simp add: meets_refl)
  next
    case False
    let ?m = "update_func i mark_checked s"
    obtain s1 s2 where s1: "checkFunctionDeclaration (mark_checked f) ?m = Inr s1"
      and s2: "optT vis (f_body f) (s1\<lparr>currentFunction := Some i, unsafeContext := body_unsafe f\<rparr>) = Inr s2"
      and s': "s' = s2\<lparr>unsafeContext := unsafeContext s1, currentFunction := currentFunction s1\<rparr>"
      using run f False by (auto simp: typecheck_Func_def func_of_def res_simps)
    obtain f0 where f0: "funcs p i = Some f0" "same_func f0 f" by (rule agree_func [OF s(1) f])
    have new: "i \<notin> checked s" using f False by (simp add: checked_def)
    have "agree s ?m"
      using agree_update_func [OF f mark_checked_same [of f]] f by (simp add: update_func_def)
    then have m: "agree p ?m" using s(1) by (rule agree_trans [rotated])
    have decl: "meets p (declaration_ok f0) {} ?m s1"
      using doesD [OF does_declaration m refl refl s1] same_func_derived [OF same_func_trans [OF f0(2) mark_checked_same]] by simp
    let ?b = "s1\<lparr>currentFunction := Some i, unsafeContext := body_unsafe f\<rparr>"
    have b: "agree p ?b" using meets_agree [OF m decl] by (simp add: agree_def)
    have body: "meets p (\<forall>b. f_body f0 = Some b \<longrightarrow> code_ok p (Some i) (body_unsafe f0) b)
        (\<Union>b\<in>set_option (f_body f0). led_from (body_unsafe f0) b) ?b s2"
      by (rule doesD [OF sound_visit_opt [OF assms] b])
        (use s2 same_func_fields [OF f0(2)] same_func_derived [OF f0(2)] in auto)
    have callees: "callees p i = (\<Union>b\<in>set_option (f_body f0). led_from (body_unsafe f0) b)"
      using f0 by (auto simp: callees_def)
    have ok: "function_ok p i \<longleftrightarrow> declaration_ok f0 \<and> (\<forall>b. f_body f0 = Some b \<longrightarrow> code_ok p (Some i) (body_unsafe f0) b)"
      using f0 by (auto simp: function_ok_def split: option.splits)
    have ch: "checked ?m = insert i (checked s)" by (rule checked_mark [OF f])
    have inner: "meets p (declaration_ok f0 \<and> (\<forall>b. f_body f0 = Some b \<longrightarrow> code_ok p (Some i) (body_unsafe f0) b))
        (callees p i) ?m s'"
      using meets_trans [OF decl meets_context_restored [OF body]] unfolding callees s' by simp
    have rel: "step_rel s s'"
    proof -
      have "step_rel ?m s'" using inner by (rule meets_step)
      moreover have "unsafeContext ?m = unsafeContext s" "currentFunction ?m = currentFunction s" "errors ?m = errors s"
        by (simp_all add: update_func_def)
      ultimately show ?thesis using \<open>agree s ?m\<close> ch by (auto simp: step_rel_def intro: agree_trans)
    qed
    have sub: "insert i (checked s) \<subseteq> checked s'" using inner ch by (auto simp: meets_def step_rel_def)
    have diff: "checked s' - checked s = insert i (checked s' - checked ?m)" using sub ch new by auto
    have err: "clean s s' \<longleftrightarrow> clean ?m s'" by (simp add: clean_def update_func_def)
    have reach: "j \<in> reached p {i}" if "j \<in> reached p (callees p i)" for j
      using that by (induction rule: reached.induct) (auto intro: reached.intros)
    show ?thesis
      unfolding meets_def diff err
      using rel sub inner ok reach by (auto simp: meets_def intro: reached.root)
  qed
qed

section \<open>All visits\<close>

lemma leaf_values [simp]:
  "code_ok p cf u (IrString t a)" "code_ok p cf u (IrNumber t b)" "code_ok p cf u (IrFloat t b)"
  "code_ok p cf u (IrBoolean t c)" "code_ok p cf u (IrChar t d)" "code_ok p cf u (IrEnumInit t a)"
  "code_ok p cf u (IrLoopFlow t e)"
  "led_from u (IrString t a) = {}" "led_from u (IrNumber t b) = {}" "led_from u (IrFloat t b) = {}"
  "led_from u (IrBoolean t c) = {}" "led_from u (IrChar t d) = {}" "led_from u (IrEnumInit t a) = {}"
  "led_from u (IrLoopFlow t e) = {}"
  by (simp_all add: unfold_parts)

lemma sound_visit_value:
  assumes "sound_visit p vis"
  shows "sound_visit p (typecheck_value vis)"
  unfolding sound_visit_def
proof (intro allI)
  fix u cf v
  show "does p u cf (code_ok p cf u v) (led_from u v) (typecheck_value vis v)"
  proof (cases v)
    case (IrFunc i)
    then show ?thesis by (simp add: typecheck_value_def unfold_parts does_conv [OF does_Func [OF assms]])
  next
    case (IrValueExtract t w)
    then show ?thesis
      by (simp add: typecheck_value_def typecheck_ValueExtract_def unfold_parts sound_visitD [OF assms])
  next
    case (IrThrow t w)
    then show ?thesis
      by (simp add: typecheck_value_def typecheck_Throw_def unfold_parts sound_visitD [OF assms])
  next
    case (IrWhileLoop t c b d e)
    then show ?thesis
      by (simp add: typecheck_value_def typecheck_WhileLoop_def unfold_parts does_seq [OF sound_visitD [OF assms] sound_visitD [OF assms]])
  next
    case (IrConditional t c b e)
    then show ?thesis
      by (auto simp: typecheck_value_def typecheck_Conditional_def unfold_parts split: option.splits
          intro!: does_conv [OF does_seq [OF sound_visitD [OF assms] does_seq [OF sound_visitD [OF assms] sound_visit_opt [OF assms]]]])
  next
    case (IrTryCatch t b cs xs)
    then show ?thesis
      by (auto simp: typecheck_value_def typecheck_TryCatch_def unfold_parts
          intro!: does_conv [OF does_seq [OF sound_visitD [OF assms] sound_visit_for [OF assms]]])
  qed (simp_all add: typecheck_value_def does_DereferenceTo [OF assms] does_ReferenceTo [OF assms] does_Cast [OF assms]
      does_VariableDeclaration [OF assms] does_IndexExtract does_Switch [OF assms] does_Return [OF assms]
      does_Variable does_Argument does_Call [OF assms] does_Block [OF assms] does_skip)
qed

theorem sound_typecheck: "sound_visit p (typecheck k)"
proof (induction k)
  case 0
  show ?case by (simp add: sound_visit_def does_fail)
next
  case (Suc k)
  have "typecheck (Suc k) = typecheck_value (typecheck k)" by (rule ext) simp
  then show ?case using sound_visit_value [OF Suc] by simp
qed

end
