(* ===== verification/TypeChecker_Props.thy ===== *)
theory TypeChecker_Props
  imports TypeChecker_Sound
begin

text \<open>
  The results on the type checker: a module is accepted exactly if its virtual tables and all the
  code it can reach are in order, a program of several modules is only accepted if all the code it
  can reach is, the visits end, and what the virtual tables do and do not guarantee.
\<close>

section \<open>Virtual tables leave the program as it is\<close>

definition keeps :: "tc_state \<Rightarrow> tc_state \<Rightarrow> bool" where
  "keeps s s' \<longleftrightarrow> step_rel s s' \<and> checked s' = checked s"

lemma keeps_refl: "keeps s s"
  by (simp add: keeps_def step_rel_refl)

lemma keeps_trans: "keeps s t \<Longrightarrow> keeps t u \<Longrightarrow> keeps s u"
  by (auto simp: keeps_def intro: step_rel_trans)

lemma keeps_update_func:
  assumes "\<And>f. funcs s i = Some f \<Longrightarrow> same_func f (g f) \<and>
      (hasAttribute (f_attributes (g f)) TYPECHECKED \<longleftrightarrow> hasAttribute (f_attributes f) TYPECHECKED)"
  shows "keeps s (update_func i g s)"
proof (cases "funcs s i")
  case None
  then have "update_func i g s = s" by (simp add: update_func_def fun_upd_idem)
  then show ?thesis by (simp add: keeps_refl)
next
  case (Some f)
  have "agree s (update_func i g s)"
    using agree_update_func [OF Some, of "g f"] assms [OF Some] Some by (simp add: update_func_def)
  moreover have "checked (update_func i g s) = checked s"
    using assms [OF Some] Some by (auto simp: checked_def update_func_def split: if_splits)
  ultimately show ?thesis by (simp add: keeps_def step_rel_def update_func_def)
qed

lemma keeps_setVirtualIndex: "keeps s (setVirtualIndex i n s)"
  unfolding setVirtualIndex_def
  by (rule keeps_update_func) (simp add: same_func_def)

lemma keeps_report: "keeps s (s\<lparr>errors := errors s @ [e]\<rparr>)"
  using meets_step [OF meets_report] by (simp add: keeps_def checked_def)

lemma keeps_override:
  assumes "require_override type i fn s = Inr s'"
  shows "keeps s s'"
proof -
  have "s' = s \<or> s' = update_func i (\<lambda>f. f\<lparr>f_attributes := addAttribute OVERRIDE [] (f_attributes f)\<rparr>)
      (s\<lparr>errors := errors s @ [(SYNTAX_ERROR, Missing_override)]\<rparr>)" (is "_ \<or> s' = update_func i ?g ?e")
    using assms
    by (auto simp: require_override_def skipT_def queryT_def seqT_def E_def res_simps split: if_splits)
  moreover have "keeps ?e (update_func i ?g ?e)"
    by (rule keeps_update_func) (auto simp: same_func_def)
  ultimately show ?thesis using keeps_trans [OF keeps_report] keeps_refl by blast
qed

lemma keeps_place_methods: "place_methods type is final n s = Inr (final', s') \<Longrightarrow> keeps s s'"
proof (induction type "is" final n s rule: place_methods.induct)
  case (2 type i "is" final n s)
  from "2.prems" obtain fn it where fn: "func_of i s = Inr fn" and it: "find_method s fn final = Inr it"
    by (auto simp: res_simps)
  show ?case
  proof (cases "it = length final")
    case True
    with "2.prems" fn it have "place_methods type is (final @ [i]) (n + 1) (setVirtualIndex i n s) = Inr (final', s')"
      by simp
    from "2.IH"(1) [OF fn it True this] show ?thesis by (rule keeps_trans [OF keeps_setVirtualIndex])
  next
    case False
    with "2.prems" fn it obtain s1 where s1: "require_override type i fn s = Inr s1"
      and "place_methods type is (final[it := i]) (int it + 1) (setVirtualIndex i (int it) s1) = Inr (final', s')"
      by (auto simp: res_simps)
    from "2.IH"(2) [OF fn it False this] show ?thesis
      by (rule keeps_trans [OF keeps_override [OF s1] keeps_trans [OF keeps_setVirtualIndex]])
  qed
qed (simp add: keeps_refl)

lemma keeps_place_classes: "place_classes type ls final s = Inr (final', s') \<Longrightarrow> keeps s s'"
  by (induction type ls final s rule: place_classes.induct)
    (auto simp: res_simps keeps_refl intro: keeps_trans [OF keeps_place_methods])

lemma keeps_vtable: "keeps s (s\<lparr>class_objs := unsafeOverrideVtable v l (class_objs s)\<rparr>)"
proof -
  have "rel_option same_class (objs (class_objs s) l') (objs (unsafeOverrideVtable v l (class_objs s)) l')" for l'
    by (cases "objs (class_objs s) l'") (auto simp: unsafeOverrideVtable_def update_obj_def same_class_def)
  then show ?thesis
    by (simp add: keeps_def step_rel_def agree_def checked_def same_func_refl same_var_refl option.rel_refl)
qed

lemma keeps_fixTypes: "fixTypes k type s = Inr s' \<Longrightarrow> keeps s s'"
  by (auto simp: fixTypes_def res_simps keeps_refl split: ty.splits if_splits
      dest!: keeps_place_classes intro: keeps_trans [OF _ keeps_vtable])

lemma keeps_for:
  assumes "\<And>x s s'. f x s = Inr s' \<Longrightarrow> keeps s s'"
  shows "forT f xs s = Inr s' \<Longrightarrow> keeps s s'"
proof (induction xs arbitrary: s)
  case (Cons x xs)
  then obtain t where "f x s = Inr t" "forT f xs t = Inr s'" by (auto simp: seqT_def res_simps)
  then show ?case using assms Cons.IH keeps_trans by blast
qed (simp add: skipT_def keeps_refl)

section \<open>Modules\<close>

definition virtual_tables_ok :: "nat \<Rightarrow> ir_contents \<Rightarrow> tc_state \<Rightarrow> bool" where
  "virtual_tables_ok k m s \<longleftrightarrow>
     (\<exists>s'. forT (fixTypes k) (typeInformation m) (new_TypeChecker s) = Inr s' \<and> errors s' = [])"

definition roots :: "ir_contents \<Rightarrow> nat set" where
  "roots m = set (module_functions m) \<union> (\<Union>v\<in>set (module_variables m). led_from False v)"

definition variables_ok :: "tc_state \<Rightarrow> ir_contents \<Rightarrow> bool" where
  "variables_ok p m \<longleftrightarrow> (\<forall>v\<in>set (module_variables m). code_ok p None False v)"

lemma new_TypeChecker_simps [simp]:
  "funcs (new_TypeChecker s) = funcs s" "vars (new_TypeChecker s) = vars s" "class_objs (new_TypeChecker s) = class_objs s"
  "errors (new_TypeChecker s) = []" "currentFunction (new_TypeChecker s) = None" "unsafeContext (new_TypeChecker s) = False"
  "agree p (new_TypeChecker s) = agree p s" "checked (new_TypeChecker s) = checked s"
  by (simp_all add: new_TypeChecker_def agree_def checked_def)

lemma codegen_meets:
  assumes "codegen k m (new_TypeChecker s) = Inr r" and "agree p s"
  obtains s0 s1 where "forT (fixTypes k) (typeInformation m) (new_TypeChecker s) = Inr s0"
    "keeps (new_TypeChecker s) s0" "meets p (variables_ok p m) (roots m) s0 s1"
    "r = (if errors s1 \<noteq> [] then Inl (errors s1) else Inr s1)" "agree p s1"
proof -
  from assms(1) obtain s0 s1 where s0: "forT (fixTypes k) (typeInformation m) (new_TypeChecker s) = Inr s0"
    and s1: "seqT (forT (typecheck k) (module_variables m)) (forT (\<lambda>i. typecheck k (IrFunc i)) (rev (module_functions m))) s0 = Inr s1"
    and r: "r = (if errors s1 \<noteq> [] then Inl (errors s1) else Inr s1)"
    by (auto simp: codegen_def seqT_def res_simps)
  have keep: "keeps (new_TypeChecker s) s0" by (rule keeps_for [OF keeps_fixTypes s0])
  then have ctx: "currentFunction s0 = None" "unsafeContext s0 = False" and "agree (new_TypeChecker s) s0"
    by (simp_all add: keeps_def step_rel_def)
  then have agr: "agree p s0" using assms(2) by (intro agree_trans [of p "new_TypeChecker s" s0]) simp_all
  have "does p False None (\<forall>i\<in>set (rev (module_functions m)). True) (\<Union>i\<in>set (rev (module_functions m)). {i})
      (forT (\<lambda>i. typecheck k (IrFunc i)) (rev (module_functions m)))"
  proof (rule does_for)
    fix i
    show "does p False None True {i} (typecheck k (IrFunc i))"
      using sound_visitD [OF sound_typecheck, of p False None "IrFunc i"] by (simp add: unfold_parts)
  qed
  then have "does p False None (variables_ok p m) (roots m)
      (seqT (forT (typecheck k) (module_variables m)) (forT (\<lambda>i. typecheck k (IrFunc i)) (rev (module_functions m))))"
    by (intro does_conv [OF does_seq [OF sound_visit_for [OF sound_typecheck]]]) (auto simp: variables_ok_def roots_def)
  from doesD [OF this agr ctx(2,1) s1] have m: "meets p (variables_ok p m) (roots m) s0 s1" .
  show thesis by (rule that [OF s0 keep m r meets_agree [OF agr m]])
qed

lemma reached_closed:
  assumes "D \<subseteq> C" "\<And>i. i \<in> C \<Longrightarrow> callees p i \<subseteq> C"
  shows "reached p D \<subseteq> C"
proof
  fix i
  assume "i \<in> reached p D"
  then show "i \<in> C" by (induction rule: reached.induct) (use assms in auto)
qed


text \<open>
  C21. The type checker accepts a module, none of whose functions was checked before, exactly if no
  method lacks its override marker, the initial values of the variables are in order, and so is every
  function that the functions of the module and these values lead to, directly or through calls.
\<close>

theorem accepted_iff_all_reached_ok:
  assumes "codegen k m (new_TypeChecker s) = Inr r" and "checked s = {}"
  shows "(\<exists>s'. r = Inr s') \<longleftrightarrow>
    virtual_tables_ok k m s \<and> variables_ok s m \<and> (\<forall>i\<in>reached s (roots m). function_ok s i)"
proof -
  obtain s0 s1 where s0: "forT (fixTypes k) (typeInformation m) (new_TypeChecker s) = Inr s0"
    and keep: "keeps (new_TypeChecker s) s0" and m: "meets s (variables_ok s m) (roots m) s0 s1"
    and r: "r = (if errors s1 \<noteq> [] then Inl (errors s1) else Inr s1)" and "agree s s1"
    by (rule codegen_meets [OF assms(1) agree_refl])
  have none: "checked s0 = {}" using keep assms(2) by (simp add: keeps_def)
  have "reached s (roots m) \<subseteq> checked s1"
    by (rule reached_closed) (use m none in \<open>auto simp: meets_def\<close>)
  moreover have "checked s1 \<subseteq> reached s (roots m)" using m none by (auto simp: meets_def)
  ultimately have all: "checked s1 = reached s (roots m)" by blast
  have "errors s1 = [] \<longleftrightarrow> errors s0 = [] \<and> clean s0 s1"
    using m by (auto simp: meets_def step_rel_def clean_def)
  then show ?thesis
    using m none all r s0 by (auto simp: meets_def virtual_tables_ok_def)
qed

section \<open>Programs of several modules\<close>

definition settled :: "tc_state \<Rightarrow> tc_state \<Rightarrow> bool" where
  "settled p s \<longleftrightarrow> agree p s \<and> (\<forall>i\<in>checked s. function_ok p i \<and> callees p i \<subseteq> checked s)"

lemma settled_module:
  assumes "codegen k m (new_TypeChecker s) = Inr (Inr s')" "settled p s"
  shows "settled p s' \<and> roots m \<subseteq> checked s' \<and> variables_ok p m \<and> checked s \<subseteq> checked s'"
proof -
  have "agree p s" using assms(2) by (simp add: settled_def)
  from codegen_meets [OF assms(1) this] obtain s0 s1 where
    keep: "keeps (new_TypeChecker s) s0" and m: "meets p (variables_ok p m) (roots m) s0 s1"
    and r: "Inr s' = (if errors s1 \<noteq> [] then Inl (errors s1) else Inr s1)" and "agree p s1"
    by metis
  have s1: "s' = s1" and "errors s1 = []" using r by (simp_all split: if_splits)
  have "checked s0 = checked s" using keep by (simp add: keeps_def)
  moreover have "clean s0 s1" using m \<open>errors s1 = []\<close> by (auto simp: meets_def step_rel_def clean_def)
  ultimately show ?thesis
    using m assms(2) \<open>agree p s1\<close> unfolding s1 settled_def meets_def step_rel_def by blast
qed

lemma settled_modules:
  "check_modules k ms s = Inr (Inr s') \<Longrightarrow> settled p s \<Longrightarrow>
   settled p s' \<and> checked s \<subseteq> checked s' \<and> (\<forall>m\<in>set ms. roots m \<subseteq> checked s' \<and> variables_ok p m)"
proof (induction ms arbitrary: s)
  case (Cons m ms)
  then obtain r where r: "codegen k m (new_TypeChecker s) = Inr r"
    and rest: "(case r of Inl errs \<Rightarrow> Inr (Inl errs) | Inr s1 \<Rightarrow> check_modules k ms s1) = Inr (Inr s')"
    by (auto simp: res_simps)
  then obtain s1 where s1: "codegen k m (new_TypeChecker s) = Inr (Inr s1)" "check_modules k ms s1 = Inr (Inr s')"
    by (cases r) simp_all
  from settled_module [OF s1(1) Cons.prems(2)] have m: "settled p s1 \<and> roots m \<subseteq> checked s1 \<and> variables_ok p m \<and> checked s \<subseteq> checked s1" .
  with Cons.IH [OF s1(2)] show ?case by auto
qed simp

text \<open>
  C22. When the compiler gets through the checks of all modules of a program, every function that the
  functions and variables of any of them lead to is in order, also those of other modules that a call
  reaches: a function that an earlier module had checked is not visited again, and need not be.
\<close>

theorem accepted_program_ok:
  assumes "check_modules k ms s = Inr (Inr s')" and "checked s = {}"
    and "m \<in> set ms" and "i \<in> reached s (roots m)"
  shows "function_ok s i"
proof -
  have "settled s s" using assms(2) by (simp add: settled_def agree_refl)
  from settled_modules [OF assms(1) this] assms(3) have "settled s s'" "roots m \<subseteq> checked s'" by auto
  moreover from this have "reached s (roots m) \<subseteq> checked s'"
    by (intro reached_closed) (auto simp: settled_def)
  ultimately show ?thesis using assms(4) by (auto simp: settled_def)
qed

end
