(* ===== verification/TypeChecker_Termination.thy ===== *)
theory TypeChecker_Termination
  imports TypeChecker_Props
begin

text \<open>
  The visits of the type checker end: the depth of the calls is bounded by the size of the bodies
  times the number of functions that are not checked yet, because every function is marked before its
  body is entered.
\<close>

section \<open>Computations that stay within their bound\<close>

definition definite :: "'a tcq \<Rightarrow> bool" where
  "definite q \<longleftrightarrow> (\<forall>s. q s \<noteq> Inl recursion_bound)"

lemma definite_bind: "definite q \<Longrightarrow> (\<And>a. definite (f a)) \<Longrightarrow> definite (\<lambda>s. bindR (q s) (\<lambda>a. f a s))"
  by (auto simp: definite_def bindR_def split: sum.splits)

lemma definite_const: "r \<noteq> Inl recursion_bound \<Longrightarrow> definite (\<lambda>_. r)"
  by (simp add: definite_def)

lemma other_failures [simp]:
  "AssertFail \<noteq> recursion_bound" "Undefined x = recursion_bound \<longleftrightarrow> x = ''recursion bound''"
  by (simp_all add: recursion_bound_def)

lemma objects_definite [simp]:
  "the_type t \<noteq> Inl recursion_bound" "the_object x \<noteq> Inl recursion_bound" "class_at h l \<noteq> Inl recursion_bound"
  by (auto simp: the_type_def the_object_def class_at_def uninitialised_def dangling_def recursion_bound_def split: option.splits)

lemma operators_definite [simp]:
  "operatorID n \<noteq> Inl recursion_bound" "operatorName op \<noteq> Inl recursion_bound"
  by (auto simp: operatorID_def operatorName_def vector_at_def recursion_bound_def Let_def)

lemma names_definite [simp]:
  "opEquals op n \<noteq> Inl recursion_bound" "Func_isConstructor f \<noteq> Inl recursion_bound" "Func_getName f b \<noteq> Inl recursion_bound"
  by (auto simp: opEquals_def Func_isConstructor_def Func_getName_def bindR_def split: sum.splits)

lemma getFunctionType_definite [simp]: "getFunctionType t \<noteq> Inl recursion_bound"
  by (cases t) (auto simp: recursion_bound_def split: list.splits ty.splits)

lemma definite_member [simp]: "func_of i s \<noteq> Inl recursion_bound" "var_of i s \<noteq> Inl recursion_bound"
  "getType v s \<noteq> Inl recursion_bound" "current_func s \<noteq> Inl recursion_bound"
  using objects_definite
  by (auto simp: func_of_def var_of_def getType_def current_func_def dangling_def recursion_bound_def split: option.splits)

lemma definite_members [simp]: "definite (func_of i)" "definite (var_of i)" "definite (getType v)" "definite current_func"
  by (simp_all add: definite_def)

lemma values_definite [simp]:
  "value_isMutable v s \<noteq> Inl recursion_bound" "accessingSelf v s \<noteq> Inl recursion_bound"
proof -
  show "value_isMutable v s \<noteq> Inl recursion_bound"
    by (induction v s rule: value_isMutable.induct) (simp_all add: res_simps)
  show "accessingSelf v s \<noteq> Inl recursion_bound"
  proof (induction v s rule: accessingSelf.induct)
    case (1 t v fl n s)
    then show ?case by (cases v) (auto simp: res_simps)
  qed simp_all
qed

definition unmarked :: "tc_state \<Rightarrow> nat set" where
  "unmarked s = dom (funcs s) - checked s"

definition room :: "nat \<Rightarrow> nat \<Rightarrow> tc_state \<Rightarrow> bool" where
  "room B N s \<longleftrightarrow> finite (dom (funcs s)) \<and> (\<forall>i f b. funcs s i = Some f \<longrightarrow> f_body f = Some b \<longrightarrow> size b \<le> B) \<and>
     card (unmarked s) \<le> N"

definition ends :: "nat \<Rightarrow> nat \<Rightarrow> tc \<Rightarrow> bool" where
  "ends B N m \<longleftrightarrow> (\<forall>s. room B N s \<longrightarrow> m s \<noteq> Inl recursion_bound \<and> (\<forall>s'. m s = Inr s' \<longrightarrow> room B N s'))"

lemma endsI:
  "(\<And>s. room B N s \<Longrightarrow> m s \<noteq> Inl recursion_bound) \<Longrightarrow> (\<And>s s'. room B N s \<Longrightarrow> m s = Inr s' \<Longrightarrow> room B N s') \<Longrightarrow> ends B N m"
  by (simp add: ends_def)

lemma endsD:
  "ends B N m \<Longrightarrow> room B N s \<Longrightarrow> m s \<noteq> Inl recursion_bound"
  "ends B N m \<Longrightarrow> room B N s \<Longrightarrow> m s = Inr s' \<Longrightarrow> room B N s'"
  by (simp_all add: ends_def)

lemma room_frame:
  "funcs s' = funcs s \<Longrightarrow> room B N s \<Longrightarrow> room B N s'"
  by (simp add: room_def unmarked_def checked_def)

lemma ends_skip [simp]: "ends B N skipT" by (simp add: ends_def skipT_def)
lemma ends_fail: "e \<noteq> recursion_bound \<Longrightarrow> ends B N (failT e)" by (simp add: ends_def failT_def)
lemma ends_assert [simp]: "ends B N (assertT b)"
  by (simp add: assertT_def ends_fail recursion_bound_def)
lemma ends_E [simp]: "ends B N (E err msg)"
  by (rule endsI) (auto simp: E_def intro: room_frame)

lemma ends_seq:
  assumes "ends B N m" "ends B N n"
  shows "ends B N (seqT m n)"
proof (rule endsI)
  fix s
  assume s: "room B N s"
  show "seqT m n s \<noteq> Inl recursion_bound"
    using endsD [OF assms(1) s] endsD(1) [OF assms(2)] by (auto simp: seqT_def res_simps)
  fix s'
  assume "seqT m n s = Inr s'"
  then show "room B N s'"
    using endsD(2) [OF assms(1) s] endsD(2) [OF assms(2)] by (auto simp: seqT_def res_simps)
qed

lemma ends_query:
  assumes "definite q" "\<And>a. ends B N (f a)"
  shows "ends B N (queryT q f)"
proof (rule endsI)
  fix s
  assume s: "room B N s"
  show "queryT q f s \<noteq> Inl recursion_bound"
    using assms(1) endsD(1) [OF assms(2) s] by (auto simp: queryT_def res_simps definite_def)
  fix s'
  assume "queryT q f s = Inr s'"
  then show "room B N s'" using endsD(2) [OF assms(2) s] by (auto simp: queryT_def res_simps)
qed

lemma ends_when: "ends B N m \<Longrightarrow> ends B N (whenT b m)" by (simp add: whenT_def)
lemma ends_if: "(b \<Longrightarrow> ends B N m) \<Longrightarrow> (\<not> b \<Longrightarrow> ends B N n) \<Longrightarrow> ends B N (if b then m else n)" by simp
lemma ends_read: "ends B N m \<Longrightarrow> ends B N (\<lambda>s. whenT (c s) m s)"
  by (simp add: ends_def whenT_def skipT_def)
lemma ends_opt: "(\<And>a. x = Some a \<Longrightarrow> ends B N (f a)) \<Longrightarrow> ends B N (optT f x)"
  by (cases x) (auto simp: optT_def)

lemma ends_for: "(\<And>x. x \<in> set xs \<Longrightarrow> ends B N (f x)) \<Longrightarrow> ends B N (forT f xs)"
  by (induction xs) (auto intro!: ends_seq)

lemma definite_the_type [simp]: "definite (\<lambda>_. the_type t)" by (simp add: definite_def)

lemmas ends_rules = ends_seq ends_query ends_when ends_if ends_opt ends_for

section \<open>The visits\<close>

lemma ends_void [simp]: "ends B N (cantBeVoid t)"
  by (simp add: cantBeVoid_def ends_when)

lemma ends_mutating [simp]: "ends B N (check_mutating_call fn m)"
  unfolding check_mutating_call_def by (intro ends_rules) (simp_all add: definite_def)

lemma ends_self [simp]: "ends B N (check_self_assignment a b)"
  unfolding check_self_assignment_def by (intro ends_rules) simp_all

lemma ends_assignable [simp]: "ends B N (check_assignable v)"
  unfolding check_assignable_def by (intro ends_rules) simp_all

lemma ends_checkMutability:
  assumes "ends B N (vis v)"
  shows "ends B N (checkMutability vis kind init fn v)"
  unfolding checkMutability_def Let_def
  by (intro ends_rules) (auto simp: definite_def assms res_simps)

lemma ends_declaration [simp]: "ends B N (checkFunctionDeclaration f)"
proof -
  have "ends B N (test_argument a)" "ends B N (llvm_argument a)" for a
    by (cases a; simp add: test_argument_def llvm_argument_def ends_when)+
  then show ?thesis
    unfolding checkFunctionDeclaration_def check_test_def check_bench_def check_inline_def Let_def
    by (intro ends_rules) simp_all
qed

lemma room_member: "room B N s \<Longrightarrow> funcs s i = Some f \<Longrightarrow> f_body f = Some b \<Longrightarrow> size b \<le> B"
  by (auto simp: room_def)

lemma room_update:
  assumes "room B N s" "funcs s i = Some f" "f_body f' = f_body f"
    "hasAttribute (f_attributes f) TYPECHECKED \<Longrightarrow> hasAttribute (f_attributes f') TYPECHECKED"
  shows "room B N (update_func i (\<lambda>_. f') s)"
proof -
  let ?t = "update_func i (\<lambda>_. f') s"
  have d: "dom (funcs ?t) = dom (funcs s)" using assms(2) by (auto simp: update_func_def)
  have "unmarked ?t \<subseteq> unmarked s"
    using assms(2,4) by (auto simp: unmarked_def checked_def update_func_def split: if_splits)
  then have "card (unmarked ?t) \<le> card (unmarked s)"
    using assms(1) by (intro card_mono) (auto simp: room_def unmarked_def)
  then show ?thesis
    using assms unfolding room_def d by (auto simp: update_func_def split: if_splits)
qed

lemma macro_eq:
  "ADD_TO_PARENT_SCOPE x a s =
     (case currentFunction s of
        None \<Rightarrow> Inr (True, s)
      | Some i \<Rightarrow> bindR (func_of i s) (\<lambda>f. if \<not> f_anon f then Inr (False, s)
          else bindR (var_of x s) (\<lambda>v. Inr (True, if captures a v f
            then update_var x (\<lambda>_. (setUsedInLambda v)\<lparr>v_parentFunc := f_parentScope f\<rparr>)
                   (update_func i (\<lambda>_. f\<lparr>f_usesParentScope := True\<rparr>) s) else s))))"
  by (auto simp: ADD_TO_PARENT_SCOPE_def setUsesParentScope_def setParentFunc_def setUsedInLambda_def
      bindR_def split: option.splits sum.splits)

lemma ends_macro:
  assumes "room B N s"
  shows "ADD_TO_PARENT_SCOPE x a s \<noteq> Inl recursion_bound"
    "ADD_TO_PARENT_SCOPE x a s = Inr (b, s') \<Longrightarrow> room B N s'"
proof -
  show "ADD_TO_PARENT_SCOPE x a s \<noteq> Inl recursion_bound"
    by (cases "currentFunction s") (auto simp: macro_eq res_simps split: if_splits)
  have "room B N (update_var x g (update_func i (\<lambda>_. f\<lparr>f_usesParentScope := True\<rparr>) s))"
    if "funcs s i = Some f" for g i f
    by (rule room_frame [OF _ room_update [OF assms that, of "f\<lparr>f_usesParentScope := True\<rparr>"]])
      (simp_all add: update_var_def)
  then show "ADD_TO_PARENT_SCOPE x a s = Inr (b, s') \<Longrightarrow> room B N s'"
    using assms
    by (cases "currentFunction s") (auto simp: macro_eq res_simps func_of_def split: if_splits)
qed

lemma ends_Variable: "ends B N (typecheck_Variable x)"
proof (rule endsI)
  have tail: "ends B N (queryT (getType (IrVariable x)) cantBeVoid)" by (rule ends_query) simp_all
  fix s
  assume s: "room B N s"
  note m = ends_macro [OF s, of x 0]
  show "typecheck_Variable x s \<noteq> Inl recursion_bound"
    using m endsD(1) [OF tail] by (auto simp: typecheck_Variable_def res_simps split: if_splits)
  fix s'
  assume "typecheck_Variable x s = Inr s'"
  then show "room B N s'"
    using m(2) endsD(2) [OF tail] by (auto simp: typecheck_Variable_def res_simps split: if_splits)
qed

lemma ends_Argument: "ends B N (typecheck_Argument x)"
proof (rule endsI)
  fix s
  assume s: "room B N s"
  note m = ends_macro [OF s, of x 1]
  show "typecheck_Argument x s \<noteq> Inl recursion_bound"
    using m by (auto simp: typecheck_Argument_def res_simps recursion_bound_def)
  fix s'
  assume "typecheck_Argument x s = Inr s'"
  then show "room B N s'" using m(2) by (auto simp: typecheck_Argument_def res_simps split: if_splits)
qed

lemma ends_Block:
  assumes "\<And>v. v \<in> set insts \<Longrightarrow> ends B N (vis v)"
  shows "ends B N (typecheck_Block vis attrs insts)"
proof (rule endsI)
  note body = ends_for [of insts B N vis, OF assms]
  fix s
  assume s: "room B N s"
  then have s': "room B N (s\<lparr>unsafeContext := True\<rparr>)" by (rule room_frame [rotated]) simp
  show "typecheck_Block vis attrs insts s \<noteq> Inl recursion_bound"
    using endsD(1) [OF body s] endsD(1) [OF body s'] by (auto simp: typecheck_Block_def res_simps)
  fix t
  assume "typecheck_Block vis attrs insts s = Inr t"
  then show "room B N t"
    using endsD(2) [OF body s] endsD(2) [OF body s']
    by (auto simp: typecheck_Block_def res_simps split: if_splits intro: room_frame [rotated])
qed

lemma ends_Return:
  assumes "\<And>v. e = Some v \<Longrightarrow> ends B N (vis v)"
  shows "ends B N (typecheck_Return vis t e)"
proof -
  have tail: "ends B N (seqT (optT vis e) (
          queryT (func_of i) (\<lambda>fn.
          queryT (\<lambda>_. the_type (f_retTy fn)) (\<lambda>ret.
          seqT (if is_VoidTy ret \<and> e \<noteq> None
                then queryT (\<lambda>_. the_type t) (\<lambda>_. E TYPE_ERROR Return_with_value) else skipT) (
          seqT (whenT (\<not> is_VoidTy ret \<and> e = None) (E TYPE_ERROR Return_without_value)) (
          queryT (\<lambda>_. the_type t) (\<lambda>own_type.
          whenT (\<not> is_ty own_type ret) (E TYPE_ERROR Return_type))))))))" for i
    by (intro ends_rules) (simp_all add: assms)
  show ?thesis
    by (rule endsI) (auto simp: typecheck_Return_def split: option.splits dest: endsD [OF tail])
qed

lemma ends_Cast:
  assumes "ends B N (vis v)"
  shows "ends B N (typecheck_Cast vis t v c)"
  unfolding typecheck_Cast_def by (intro ends_rules ends_read) (simp_all add: assms)

lemma ends_DereferenceTo:
  assumes "ends B N (vis v)"
  shows "ends B N (typecheck_DereferenceTo vis t v)"
  unfolding typecheck_DereferenceTo_def by (intro ends_rules ends_read) (simp_all add: assms)

lemma ends_Switch:
  assumes "ends B N (vis e)" "\<And>as b n. (as, b, n) \<in> set cs \<Longrightarrow> ends B N (vis b)"
    "\<And>c b. (c, b) \<in> set ccs \<Longrightarrow> ends B N (vis b)"
  shows "ends B N (typecheck_Switch vis e cs ccs)"
  unfolding typecheck_Switch_def
  by (intro ends_rules assms) (auto split: prod.splits intro!: ends_rules dest: assms(2,3))

lemma ends_arguments:
  assumes "\<And>a. a \<in> set args \<Longrightarrow> ends B N (vis a)"
  shows "ends B N (check_arguments vis kind init fn args)"
proof (cases args)
  case (Cons a as)
  have "ends B N (case fn of None \<Rightarrow> skipT | Some i \<Rightarrow> queryT (func_of i) (\<lambda>f. checkMutability vis kind init f a))"
    by (cases fn) (simp_all add: Cons assms ends_checkMutability ends_query)
  moreover have "ends B N (seqT (vis a) (forT vis as))"
    by (intro ends_seq ends_for assms) (simp_all add: Cons)
  ultimately show ?thesis unfolding Cons check_arguments_def by (simp add: ends_seq)
qed (simp add: check_arguments_def)

lemma ends_usable [simp]: "ends B N (callee_usable fn)"
  unfolding callee_usable_def by (intro ends_rules ends_read) simp_all

lemma ends_callable [simp]: "ends B N (callee_callable callee)"
  unfolding callee_callable_def by (cases callee) (auto simp: definite_def intro!: ends_rules)

lemma ends_enum_argument [simp]: "ends B N (enum_argument fts a)"
  unfolding enum_argument_def by (auto simp: recursion_bound_def intro!: ends_rules ends_fail)

lemma typecheck_arguments_ends:
  "(\<And>a. a \<in> set args \<Longrightarrow> ends B N (vis a)) \<Longrightarrow> room B N s \<Longrightarrow>
   typecheck_arguments vis args s \<noteq> Inl recursion_bound \<and> (\<forall>ts s'. typecheck_arguments vis args s = Inr (ts, s') \<longrightarrow> room B N s')"
proof (induction args arbitrary: s)
  case (Cons a as)
  have a: "ends B N (vis a)" by (rule Cons.prems) simp
  show ?case
  proof (cases "vis a s")
    case (Inl e)
    then show ?thesis using endsD(1) [OF a Cons.prems(2)] by simp
  next
    case (Inr s1)
    have "room B N s1" by (rule endsD(2) [OF a Cons.prems(2) Inr])
    with Cons.IH [of s1] Cons.prems(1) Inr show ?thesis by (auto simp: res_simps)
  qed
qed simp

lemma ends_EnumInit:
  assumes "\<And>a. a \<in> set args \<Longrightarrow> ends B N (vis a)"
  shows "ends B N (checkEnumInit vis t name args)"
proof (rule endsI)
  fix s
  assume s: "room B N s"
  have tail: "ends B N (seqT (whenT (length ts \<noteq> length fts) (E TYPE_ERROR Enum_argument_count))
               (forT (enum_argument fts) (List.enumerate 0 ts)))" for ts fts
    by (intro ends_rules) simp_all
  note args = typecheck_arguments_ends [of args B N vis s, OF assms s]
  show "checkEnumInit vis t name args s \<noteq> Inl recursion_bound"
  proof (cases t)
    case (Some a)
    show ?thesis
    proof (cases a)
      case (EnumTy m b gs l)
      then show ?thesis
        using args Some by (auto simp: checkEnumInit_def res_simps split: option.splits dest: endsD [OF tail])
    qed (use Some in \<open>simp_all add: checkEnumInit_def\<close>)
  qed (simp add: checkEnumInit_def res_simps)
  fix s'
  assume "checkEnumInit vis t name args s = Inr s'"
  then show "room B N s'"
    by (rule checkEnumInit_Inr) (use args in \<open>auto dest: endsD [OF tail]\<close>)
qed

lemma ends_Call:
  assumes "\<And>a. a \<in> set args \<Longrightarrow> ends B N (vis a)" "\<And>i. ends B N (vis (IrFunc i))"
  shows "ends B N (typecheck_Call vis t kind callee args init)"
  unfolding typecheck_Call_def
  by (cases kind; cases "is_EnumInit callee")
    (auto intro!: ends_rules ends_arguments ends_EnumInit assms)

lemma room_mono: "room B N s \<Longrightarrow> N \<le> N' \<Longrightarrow> room B N' s"
  by (auto simp: room_def)

lemma room_marked:
  assumes "room B N s" "funcs s i = Some f" "\<not> hasAttribute (f_attributes f) TYPECHECKED"
  shows "0 < N" "room B (N - 1) (update_func i mark_checked s)"
proof -
  let ?t = "update_func i mark_checked s"
  have i: "i \<in> unmarked s" using assms(2,3) by (auto simp: unmarked_def checked_def)
  have fin: "finite (unmarked s)" using assms(1) by (auto simp: room_def unmarked_def)
  have u: "unmarked ?t = unmarked s - {i}"
  proof -
    have "dom (funcs ?t) = dom (funcs s)" by (auto simp: update_func_def)
    then show ?thesis unfolding unmarked_def checked_mark [OF assms(2)] by auto
  qed
  have "card (unmarked s) \<le> N" using assms(1) by (simp add: room_def)
  moreover have "0 < card (unmarked s)" using i fin by (auto simp: card_gt_0_iff)
  ultimately show "0 < N" by simp
  have "card (unmarked ?t) \<le> N - 1" unfolding u using i fin \<open>card (unmarked s) \<le> N\<close> by simp
  moreover have "dom (funcs ?t) = dom (funcs s)" by (auto simp: update_func_def)
  ultimately show "room B (N - 1) ?t"
    using assms unfolding room_def by (auto simp: update_func_def mark_checked_def split: if_splits)
qed

lemma ends_Func:
  assumes "\<And>b. 0 < N \<Longrightarrow> size b \<le> B \<Longrightarrow> ends B (N - 1) (vis b)"
  shows "ends B N (typecheck_Func vis i)"
proof (rule endsI)
  fix s
  assume s: "room B N s"
  have all: "checkFunctionDeclaration (mark_checked f) (update_func i mark_checked s) \<noteq> Inl recursion_bound \<and>
      (\<forall>s1. checkFunctionDeclaration (mark_checked f) (update_func i mark_checked s) = Inr s1 \<longrightarrow>
         optT vis (f_body f) (s1\<lparr>currentFunction := Some i, unsafeContext := body_unsafe f\<rparr>) \<noteq> Inl recursion_bound \<and>
         (\<forall>s2. optT vis (f_body f) (s1\<lparr>currentFunction := Some i, unsafeContext := body_unsafe f\<rparr>) = Inr s2 \<longrightarrow> room B N s2))"
    if f: "funcs s i = Some f" "\<not> hasAttribute (f_attributes f) TYPECHECKED" for f
  proof -
    note marked = room_marked [OF s f]
    have opt: "ends B (N - 1) (optT vis (f_body f))"
      by (rule ends_opt) (use assms [OF marked(1)] room_member [OF s f(1)] in auto)
    show ?thesis
    proof (intro conjI allI impI)
      show "checkFunctionDeclaration (mark_checked f) (update_func i mark_checked s) \<noteq> Inl recursion_bound"
        by (rule endsD(1) [OF ends_declaration marked(2)])
      fix s1
      assume "checkFunctionDeclaration (mark_checked f) (update_func i mark_checked s) = Inr s1"
      then have "room B (N - 1) s1" by (rule endsD(2) [OF ends_declaration marked(2)])
      then have r: "room B (N - 1) (s1\<lparr>currentFunction := Some i, unsafeContext := body_unsafe f\<rparr>)"
        by (rule room_frame [rotated]) simp
      show "optT vis (f_body f) (s1\<lparr>currentFunction := Some i, unsafeContext := body_unsafe f\<rparr>) \<noteq> Inl recursion_bound"
        by (rule endsD(1) [OF opt r])
      fix s2
      assume "optT vis (f_body f) (s1\<lparr>currentFunction := Some i, unsafeContext := body_unsafe f\<rparr>) = Inr s2"
      then have "room B (N - 1) s2" by (rule endsD(2) [OF opt r])
      then show "room B N s2" by (rule room_mono) simp
    qed
  qed
  show "typecheck_Func vis i s \<noteq> Inl recursion_bound"
    using all by (auto simp: typecheck_Func_def res_simps func_of_def)
  fix s'
  assume "typecheck_Func vis i s = Inr s'"
  then show "room B N s'"
    using all s by (auto simp: typecheck_Func_def res_simps func_of_def split: if_splits intro: room_frame [rotated])
qed

text \<open>The sizes of the direct parts.\<close>

lemma size_list_member [simp]: "x \<in> set xs \<Longrightarrow> size x \<le> size_list size xs"
  by (simp add: size_list_estimation')

lemma size_case:
  "(as, b, n) \<in> set cs \<Longrightarrow> size b < size (IrSwitch t e cs ccs d s)"
  "(c, b') \<in> set ccs \<Longrightarrow> size b' < size (IrSwitch t e cs ccs d s)"
proof -
  let ?f = "\<lambda>x :: ir_value list \<times> ir_value \<times> string. size_prod (size_list size) (size_prod size (\<lambda>_. 0)) x"
  assume "(as, b, n) \<in> set cs"
  then have "?f (as, b, n) \<le> size_list ?f cs" by (rule size_list_estimation') simp
  then show "size b < size (IrSwitch t e cs ccs d s)" by simp
next
  let ?g = "\<lambda>x :: ir_value \<times> ir_value. size_prod size size x"
  assume "(c, b') \<in> set ccs"
  then have "?g (c, b') \<le> size_list ?g ccs" by (rule size_list_estimation') simp
  then show "size b' < size (IrSwitch t e cs ccs d s)" by simp
qed

lemma ends_visit: "size v + N * (B + 2) < k \<Longrightarrow> ends B N (typecheck k v)"
proof (induction k arbitrary: v N)
  case (Suc k)
  note IH = Suc.IH
  have part: "ends B N (typecheck k w)" if "size w < size v" for w
    using Suc.prems that by (intro IH) simp
  have fn: "ends B N (typecheck k (IrFunc i))" if "0 < size v" for i
    using Suc.prems that by (intro IH) simp
  have body: "ends B (N - 1) (typecheck k b)" if "0 < N" "size b \<le> B" for b
  proof (rule IH)
    have "N * (B + 2) = (N - 1) * (B + 2) + (B + 2)" using that(1) by (cases N) simp_all
    then show "size b + (N - 1) * (B + 2) < k" using Suc.prems that(2) by simp
  qed
  show ?case
  proof (cases v)
    case (IrFunc i)
    have "ends B N (typecheck_Func (typecheck k) i)" by (rule ends_Func) (rule body)
    then show ?thesis by (simp add: typecheck_value_def IrFunc)
  next
    case (IrBlock t a insts)
    then show ?thesis by (auto simp: typecheck_value_def less_Suc_eq_le intro!: ends_Block part)
  next
    case (IrCall t kd callee args init)
    then show ?thesis
      by (auto simp: typecheck_value_def less_Suc_eq_le trans_le_add2 intro!: ends_Call part fn)
  next
    case (IrSwitch t e cs ccs d s)
    have "ends B N (typecheck_Switch (typecheck k) e cs ccs)"
    proof (rule ends_Switch; rule part)
      show "size e < size v" by (simp add: IrSwitch)
      show "size b < size v" if "(as, b, n) \<in> set cs" for as b n
        unfolding IrSwitch by (rule size_case(1) [OF that])
      show "size b < size v" if "(c, b) \<in> set ccs" for c b
        unfolding IrSwitch by (rule size_case(2) [OF that])
    qed
    then show ?thesis by (simp add: typecheck_value_def IrSwitch)
  next
    case (IrTryCatch t b cs xs)
    then show ?thesis
      by (auto simp: typecheck_value_def typecheck_TryCatch_def less_Suc_eq_le trans_le_add1 trans_le_add2 intro!: ends_rules part)
  next
    case (IrReturn t e)
    then show ?thesis by (cases e) (auto simp: typecheck_value_def intro!: ends_Return part)
  next
    case (IrVariableDeclaration t x e b)
    then show ?thesis
      by (cases e) (auto simp: typecheck_value_def typecheck_VariableDeclaration_def intro!: ends_rules part)
  next
    case (IrConditional t c b e)
    then show ?thesis
      by (cases e) (auto simp: typecheck_value_def typecheck_Conditional_def intro!: ends_rules part)
  qed (auto simp: typecheck_value_def typecheck_ValueExtract_def typecheck_Throw_def typecheck_WhileLoop_def typecheck_ReferenceTo_def
      typecheck_IndexExtract_def intro!: part ends_rules ends_Cast ends_DereferenceTo ends_Variable ends_Argument)
qed simp

section \<open>Virtual tables and modules\<close>

text \<open>No class is its own ancestor: a number per location that is smaller for the parent.\<close>

definition ranked :: "(nat \<Rightarrow> nat) \<Rightarrow> type_heap \<Rightarrow> bool" where
  "ranked r h \<longleftrightarrow> (\<forall>l c m b gs l'. objs h l = Some c \<longrightarrow> cls_parent c = Some (DefinedTy m b gs l') \<longrightarrow> r l' < r l)"

lemma ancestors_end: "ranked r h \<Longrightarrow> r l < k \<Longrightarrow> ancestors k h l \<noteq> Inl recursion_bound"
proof (induction k arbitrary: l)
  case (Suc k)
  show ?case
  proof (cases "objs h l")
    case (Some c)
    have IH: "ancestors k h l' \<noteq> Inl recursion_bound" if "cls_parent c = Some (DefinedTy m b gs l')" for m b gs l'
    proof -
      have "r l' < r l" using Suc.prems(1) Some that by (simp add: ranked_def)
      then show ?thesis using Suc.IH [OF Suc.prems(1)] Suc.prems(2) by simp
    qed
    show ?thesis
    proof (cases "cls_parent c")
      case (Some p)
      with IH show ?thesis using \<open>objs h l = Some c\<close>
        by (cases p) (auto simp: class_at_def res_simps)
    qed (simp add: class_at_def \<open>objs h l = Some c\<close>)
  qed (simp add: class_at_def)
qed simp

lemma same_method_definite [simp]: "same_method f fn \<noteq> Inl recursion_bound"
  by (auto simp: same_method_def res_simps isIgnoringSelf_def split: option.splits ty.splits if_splits)

lemma find_method_definite [simp]: "find_method s fn is \<noteq> Inl recursion_bound"
  by (induction "is") (auto simp: res_simps)

lemma require_override_definite [simp]: "require_override type i fn s \<noteq> Inl recursion_bound"
  by (auto simp: require_override_def skipT_def queryT_def seqT_def E_def res_simps split: if_splits)

lemma place_methods_definite [simp]: "place_methods type is final n s \<noteq> Inl recursion_bound"
  by (induction type "is" final n s rule: place_methods.induct) (auto simp: res_simps split: if_splits)

lemma place_classes_definite [simp]: "place_classes type ls final s \<noteq> Inl recursion_bound"
  by (induction type ls final s rule: place_classes.induct) (auto simp: res_simps)

lemma ranked_agree:
  assumes "ranked r (class_objs p)" "agree p s"
  shows "ranked r (class_objs s)"
  unfolding ranked_def
proof (intro allI impI)
  fix l c m b gs l'
  assume c: "objs (class_objs s) l = Some c" "cls_parent c = Some (DefinedTy m b gs l')"
  obtain c0 where "objs (class_objs p) l = Some c0" "same_class c0 c" by (rule agree_class [OF assms(2) c(1)])
  then show "r l' < r l" using assms(1) c(2) by (auto simp: ranked_def same_classD)
qed

lemma fixTypes_end:
  assumes "ranked r (class_objs s)" "\<And>l. r l < k"
  shows "fixTypes k type s \<noteq> Inl recursion_bound"
  by (cases type) (auto simp: fixTypes_def res_simps ancestors_end [OF assms])

lemma for_fixTypes_end:
  "ranked r (class_objs s) \<Longrightarrow> (\<And>l. r l < k) \<Longrightarrow> forT (fixTypes k) ts s \<noteq> Inl recursion_bound"
proof (induction ts arbitrary: s)
  case (Cons t ts)
  show ?case
  proof (cases "fixTypes k t s")
    case (Inr s1)
    then have "agree s s1" using keeps_fixTypes by (auto simp: keeps_def step_rel_def)
    then have "ranked r (class_objs s1)" by (rule ranked_agree [OF Cons.prems(1)])
    then show ?thesis using Cons.IH Cons.prems(2) Inr by (simp add: seqT_def)
  next
    case (Inl e)
    then show ?thesis using fixTypes_end [OF Cons.prems, of t] by (simp add: seqT_def)
  qed
qed (simp add: skipT_def)

lemma room_keeps:
  assumes "keeps s s'" "room B N s"
  shows "room B N s'"
proof -
  have a: "agree s s'" and ch: "checked s' = checked s" using assms(1) by (auto simp: keeps_def step_rel_def)
  have d: "dom (funcs s') = dom (funcs s)"
    using agree_none(1) [OF a] by (auto simp: dom_def)
  have "size b \<le> B" if "funcs s' i = Some f" "f_body f = Some b" for i f b
    by (rule agree_func [OF a that(1)]) (use that(2) assms(2) in \<open>auto simp: room_def same_func_fields\<close>)
  then show ?thesis using assms(2) d ch by (simp add: room_def unmarked_def)
qed

definition largest_body :: "tc_state \<Rightarrow> nat \<Rightarrow> bool" where
  "largest_body s B \<longleftrightarrow> (\<forall>i f b. funcs s i = Some f \<longrightarrow> f_body f = Some b \<longrightarrow> size b \<le> B)"

text \<open>
  C23. Checking a module ends, in a program with finitely many functions in which no class inherits from
  itself: neither recursive functions nor the second visit that the mutability check makes can exhaust
  the depth of the calls, and that depth is at most the size of a variable's initial value plus one
  body for every function. (Whether an assertion fails or memory is misused on the way is not part of
  this statement.)
\<close>

theorem checks_end:
  assumes "finite (dom (funcs s))" and "largest_body s B" and "\<forall>v\<in>set (module_variables m). size v \<le> V"
    and "ranked r (class_objs s)" and "\<forall>l. r l < k" and "V + card (dom (funcs s)) * (B + 2) < k"
  shows "codegen k m (new_TypeChecker s) \<noteq> Inl recursion_bound"
proof -
  let ?s = "new_TypeChecker s" and ?N = "card (dom (funcs s))"
  have "card (unmarked ?s) \<le> ?N" using assms(1) by (intro card_mono) (auto simp: unmarked_def)
  then have room: "room B ?N ?s" using assms(1,2) by (auto simp: room_def largest_body_def)
  have tables: "forT (fixTypes k) (typeInformation m) ?s \<noteq> Inl recursion_bound"
    by (rule for_fixTypes_end) (use assms(4,5) in auto)
  have visits: "ends B ?N (seqT (forT (typecheck k) (module_variables m)) (forT (\<lambda>i. typecheck k (IrFunc i)) (rev (module_functions m))))"
    by (intro ends_seq ends_for ends_visit) (use assms(3,6) in \<open>auto intro: le_less_trans [OF add_right_mono]\<close>)
  show ?thesis
  proof (cases "forT (fixTypes k) (typeInformation m) ?s")
    case (Inl e)
    then show ?thesis using tables by (simp add: codegen_def seqT_def)
  next
    case (Inr s0)
    have "room B ?N s0" by (rule room_keeps [OF keeps_for [OF keeps_fixTypes Inr] room])
    then show ?thesis using endsD(1) [OF visits] Inr by (auto simp: codegen_def seqT_def res_simps)
  qed
qed

end
