(* ===== verification/Vtables.thy ===== *)
theory Vtables
  imports TypeChecker_Props
begin

text \<open>
  The virtual tables that \<open>fixTypes\<close> builds: the table of a class extends the one of its parent slot
  by slot, and which number a method is given.
\<close>

section \<open>Looking a method up\<close>

lemma same_method_agree:
  "same_func f0 f \<Longrightarrow> same_func g0 g \<Longrightarrow> same_method f g = same_method f0 g0"
  by (simp add: same_method_def same_func_derived same_func_fields cong: if_cong)

lemma find_method_agree:
  assumes "agree s t" "same_func f0 f"
  shows "find_method t f is = find_method s f0 is"
proof (induction "is")
  case (Cons i "is")
  show ?case
  proof (cases "funcs t i")
    case None
    then show ?thesis using agree_none(1) [OF assms(1), of i] by (simp add: func_of_def the_object_def)
  next
    case (Some g)
    then obtain g0 where "funcs s i = Some g0" "same_func g0 g" by (rule agree_func [OF assms(1)])
    then show ?thesis using Some Cons assms(2) by (simp add: func_of_def same_method_agree cong: if_cong)
  qed
qed simp

lemma find_method_range: "find_method s fn is = Inr n \<Longrightarrow> n \<le> length is"
  by (induction "is" arbitrary: n) (auto simp: res_simps split: if_splits)

section \<open>Slots are inherited\<close>

text \<open>\<open>b\<close> takes the slot of \<open>a\<close>: the code found them to be the same method.\<close>

definition overrides :: "tc_state \<Rightarrow> nat \<Rightarrow> nat \<Rightarrow> bool" where
  "overrides s a b \<longleftrightarrow> (\<exists>f g. funcs s a = Some f \<and> funcs s b = Some g \<and> same_method f g = Inr True)"

definition extends :: "tc_state \<Rightarrow> nat list \<Rightarrow> nat list \<Rightarrow> bool" where
  "extends s xs ys \<longleftrightarrow> length xs \<le> length ys \<and> (\<forall>j<length xs. (overrides s)\<^sup>*\<^sup>* (xs ! j) (ys ! j))"

lemma extends_refl: "extends s xs xs"
  by (simp add: extends_def)

lemma extends_trans: "extends s xs ys \<Longrightarrow> extends s ys zs \<Longrightarrow> extends s xs zs"
  unfolding extends_def by (metis (no_types, lifting) le_trans order_less_le_trans rtranclp_trans)

lemma overrides_agree:
  assumes "agree s t" "overrides t a b"
  shows "overrides s a b"
proof -
  from assms(2) obtain f g where f: "funcs t a = Some f" and g: "funcs t b = Some g" and eq: "same_method f g = Inr True"
    by (auto simp: overrides_def)
  obtain f0 where "funcs s a = Some f0" "same_func f0 f" by (rule agree_func [OF assms(1) f])
  moreover obtain g0 where "funcs s b = Some g0" "same_func g0 g" by (rule agree_func [OF assms(1) g])
  ultimately show ?thesis using eq by (auto simp: overrides_def same_method_agree)
qed

lemma extends_agree:
  assumes "agree s t" "extends t xs ys"
  shows "extends s xs ys"
proof -
  have "(overrides t)\<^sup>*\<^sup>* \<le> (overrides s)\<^sup>*\<^sup>*"
    by (rule rtranclp_mono) (use overrides_agree [OF assms(1)] in auto)
  then show ?thesis using assms(2) by (auto simp: extends_def)
qed

lemma find_method_overrides:
  assumes "find_method s fn final = Inr it" "it \<noteq> length final" "funcs s i = Some fn"
  shows "it < length final \<and> overrides s (final ! it) i"
  using assms
proof (induction final arbitrary: it)
  case (Cons j final)
  then obtain g where g: "funcs s j = Some g" by (auto simp: func_of_def res_simps)
  show ?case
  proof (cases "same_method g fn = Inr True")
    case True
    with Cons.prems g show ?thesis by (auto simp: func_of_def overrides_def)
  next
    case False
    with Cons.prems(1) g obtain m where "find_method s fn final = Inr m" "it = Suc m"
      by (auto simp: func_of_def res_simps split: if_splits)
    with Cons.IH [of m] Cons.prems(2,3) show ?thesis by simp
  qed
qed simp

lemma place_methods_extends: "place_methods type is final n s = Inr (final', s') \<Longrightarrow> extends s final final'"
proof (induction type "is" final n s rule: place_methods.induct)
  case (2 type i "is" final n s)
  from "2.prems" obtain fn it where fn: "func_of i s = Inr fn" and it: "find_method s fn final = Inr it"
    by (auto simp: res_simps)
  show ?case
  proof (cases "it = length final")
    case True
    with "2.prems" fn it have "place_methods type is (final @ [i]) (n + 1) (setVirtualIndex i n s) = Inr (final', s')"
      by simp
    from "2.IH"(1) [OF fn it True this] have "extends (setVirtualIndex i n s) (final @ [i]) final'" .
    then have "extends s (final @ [i]) final'"
      by (rule extends_agree [rotated]) (use keeps_setVirtualIndex in \<open>simp add: keeps_def step_rel_def\<close>)
    moreover have "extends s final (final @ [i])" by (simp add: extends_def nth_append)
    ultimately show ?thesis by (rule extends_trans [rotated])
  next
    case False
    with "2.prems" fn it obtain s1 where s1: "require_override type i fn s = Inr s1"
      and rest: "place_methods type is (final[it := i]) (int it + 1) (setVirtualIndex i (int it) s1) = Inr (final', s')"
      by (auto simp: res_simps)
    from "2.IH"(2) [OF fn it False s1 rest] have "extends (setVirtualIndex i (int it) s1) (final[it := i]) final'" .
    moreover have "keeps s (setVirtualIndex i (int it) s1)"
      by (rule keeps_trans [OF keeps_override [OF s1] keeps_setVirtualIndex])
    ultimately have "extends s (final[it := i]) final'"
      by (intro extends_agree [of s "setVirtualIndex i (int it) s1"]) (simp_all add: keeps_def step_rel_def)
    moreover have "extends s final (final[it := i])"
      using find_method_overrides [OF it False, of i] fn
      by (auto simp: extends_def nth_list_update func_of_def)
    ultimately show ?thesis by (rule extends_trans [rotated])
  qed
qed (simp add: extends_refl)

lemma place_classes_extends: "place_classes type ls final s = Inr (final', s') \<Longrightarrow> extends s final final'"
proof (induction type ls final s rule: place_classes.induct)
  case (2 type l ls final s)
  then obtain c t s1 where c: "class_at (class_objs s) l = Inr c"
    and p: "place_methods type (classVtable c) final 0 s = Inr (t, s1)" and r: "place_classes type ls t s1 = Inr (final', s')"
    by (auto simp: res_simps)
  have "extends s1 t final'" using "2.IH" [OF c p refl] r by simp
  then have "extends s t final'"
    by (rule extends_agree [rotated]) (use keeps_place_methods [OF p] in \<open>simp add: keeps_def step_rel_def\<close>)
  then show ?case by (rule extends_trans [OF place_methods_extends [OF p]])
qed (simp add: extends_refl)

lemma place_classes_append:
  "place_classes type (ls @ ls') final s =
     bindR (place_classes type ls final s) (\<lambda>(t, s1). place_classes type ls' t s1)"
proof (induction ls arbitrary: final s)
  case (Cons l ls)
  then show ?case by (simp add: bindR_def split: sum.splits prod.splits)
qed simp

section \<open>The numbers of new methods\<close>

lemma place_methods_objs: "place_methods type is final n s = Inr (final', s') \<Longrightarrow> class_objs s' = class_objs s"
  by (induction type "is" final n s rule: place_methods.induct)
    (auto simp: res_simps setVirtualIndex_def update_func_def require_override_def queryT_def seqT_def E_def skipT_def
      split: if_splits)

lemma place_classes_objs: "place_classes type ls final s = Inr (final', s') \<Longrightarrow> class_objs s' = class_objs s"
  by (induction type ls final s rule: place_classes.induct) (auto simp: res_simps place_methods_objs)

lemma place_new_methods:
  assumes "\<forall>j<length is. \<exists>f. funcs s (is ! j) = Some f \<and> find_method s f (final @ take j is) = Inr (length final + j)"
    and "distinct is"
  shows "\<exists>s'. place_methods type is final n s = Inr (final @ is, s') \<and> keeps s s' \<and> class_objs s' = class_objs s \<and>
    (\<forall>j<length is. map_option f_virtualIndex (funcs s' (is ! j)) = Some (n + int j)) \<and>
    (\<forall>i. i \<notin> set is \<longrightarrow> funcs s' i = funcs s i)"
  using assms
proof (induction "is" arbitrary: final n s)
  case (Cons i "is")
  from Cons.prems(1) obtain f where f: "funcs s i = Some f" "find_method s f final = Inr (length final)"
    by force
  let ?t = "setVirtualIndex i n s"
  have k: "keeps s ?t" by (rule keeps_setVirtualIndex)
  then have agr: "agree s ?t" by (simp add: keeps_def step_rel_def)
  have new: "\<forall>j<length is. \<exists>f. funcs ?t (is ! j) = Some f \<and>
      find_method ?t f ((final @ [i]) @ take j is) = Inr (length (final @ [i]) + j)"
  proof (intro allI impI)
    fix j
    assume "j < length is"
    with Cons.prems(1)[rule_format, of "Suc j"] obtain g where
      g: "funcs s (is ! j) = Some g" "find_method s g ((final @ [i]) @ take j is) = Inr (length (final @ [i]) + j)"
      by auto
    moreover have "funcs ?t (is ! j) = Some g"
      using g(1) Cons.prems(2) \<open>j < length is\<close> by (auto simp: setVirtualIndex_def update_func_def)
    ultimately show "\<exists>f. funcs ?t (is ! j) = Some f \<and>
        find_method ?t f ((final @ [i]) @ take j is) = Inr (length (final @ [i]) + j)"
      using find_method_agree [OF agr same_func_refl] by auto
  qed
  from Cons.IH [OF this] Cons.prems(2) obtain s' where
    s': "place_methods type is (final @ [i]) (n + 1) ?t = Inr (final @ i # is, s')" "keeps ?t s'" "class_objs s' = class_objs ?t"
      "\<forall>j<length is. map_option f_virtualIndex (funcs s' (is ! j)) = Some (n + 1 + int j)"
      "\<forall>j. j \<notin> set is \<longrightarrow> funcs s' j = funcs ?t j"
    by (metis append_Cons append_assoc append_Nil distinct.simps(2))
  have "place_methods type (i # is) final n s = Inr (final @ i # is, s')"
    using f s'(1) by (simp add: func_of_def)
  moreover have "map_option f_virtualIndex (funcs s' ((i # is) ! j)) = Some (n + int j)" if "j < length (i # is)" for j
    using that s'(4) s'(5) Cons.prems(2) f(1)
    by (cases j) (auto simp: setVirtualIndex_def update_func_def algebra_simps)
  moreover have "funcs s' j = funcs s j" if "j \<notin> set (i # is)" for j
    using that s'(5) by (simp add: setVirtualIndex_def update_func_def)
  moreover have "keeps s s'" by (rule keeps_trans [OF k s'(2)])
  moreover have "class_objs s' = class_objs s" using s'(3) by (simp add: setVirtualIndex_def update_func_def)
  ultimately show ?case by blast
qed (simp add: keeps_refl)

lemma class_at_found: "class_at h l = Inr c \<longleftrightarrow> objs h l = Some c"
  by (simp add: class_at_def split: option.splits)

text \<open>
  C24. The table of a class keeps every slot that the chain of its parents filled: the slot holds the
  same method or one that the search found to be the same method apart from its first argument.
\<close>

theorem inherited_slots_stay:
  assumes "fixTypes k type s = Inr s'" and "type = DefinedTy m b gs l"
    and "objs (class_objs s) l = Some c" and "hasVtable c"
    and "ancestors k (class_objs s) l = Inr ps" and "place_classes type ps [] s = Inr (inherited, s1)"
  shows "\<exists>c'. objs (class_objs s') l = Some c' \<and> extends s inherited (classVtable c')"
proof -
  have at: "class_at (class_objs s) l = Inr c" using assms(3) by (simp add: class_at_found)
  obtain final s2 where final: "place_classes type [l] inherited s1 = Inr (final, s2)"
    and s': "s' = s2\<lparr>class_objs := unsafeOverrideVtable final l (class_objs s2)\<rparr>"
    using assms by (auto simp: fixTypes_def at place_classes_append res_simps)
  have "agree s s1" using keeps_place_classes [OF assms(6)] by (simp add: keeps_def step_rel_def)
  then have "extends s inherited final" by (rule extends_agree [OF _ place_classes_extends [OF final]])
  moreover have "class_objs s2 = class_objs s"
    using place_classes_objs [OF final] place_classes_objs [OF assms(6)] by simp
  ultimately show ?thesis using assms(3) s' by (auto simp: unsafeOverrideVtable_def update_obj_def)
qed

text \<open>
  C25. The own methods of a class that override nothing follow the inherited slots of its table in
  order, but the numbers they are given do not count the inherited slots: the first of them has number
  0, like the first inherited method, while its slot is behind all inherited ones.
\<close>

theorem table_of_derived_class:
  assumes "ancestors k (class_objs s) l = Inr ps"
    and "place_classes type ps [] s = Inr (inherited, s1)" and "type = DefinedTy m b gs l"
    and "objs (class_objs s) l = Some c" and "hasVtable c" and "distinct (classVtable c)"
    and "\<forall>j<length (classVtable c). \<exists>f. funcs s (classVtable c ! j) = Some f \<and>
           find_method s f (inherited @ take j (classVtable c)) = Inr (length inherited + j)"
  shows "\<exists>s' c'. fixTypes k type s = Inr s' \<and> objs (class_objs s') l = Some c' \<and>
    classVtable c' = inherited @ classVtable c \<and>
    (\<forall>j<length (classVtable c). map_option f_virtualIndex (funcs s' (classVtable c ! j)) = Some (int j))"
proof -
  have keep: "keeps s s1" by (rule keeps_place_classes [OF assms(2)])
  then have agr: "agree s s1" by (simp add: keeps_def step_rel_def)
  have objs: "class_objs s1 = class_objs s" by (rule place_classes_objs [OF assms(2)])
  have "\<forall>j<length (classVtable c). \<exists>f. funcs s1 (classVtable c ! j) = Some f \<and>
      find_method s1 f (inherited @ take j (classVtable c)) = Inr (length inherited + j)"
  proof (intro allI impI)
    fix j
    assume "j < length (classVtable c)"
    with assms(7) obtain f where f: "funcs s (classVtable c ! j) = Some f"
      "find_method s f (inherited @ take j (classVtable c)) = Inr (length inherited + j)" by blast
    from f(1) agree_none(1) [OF agr] obtain g where g: "funcs s1 (classVtable c ! j) = Some g"
      by (cases "funcs s1 (classVtable c ! j)") auto
    then have "same_func f g" using f(1) by (auto elim: agree_func [OF agr])
    then show "\<exists>f. funcs s1 (classVtable c ! j) = Some f \<and>
        find_method s1 f (inherited @ take j (classVtable c)) = Inr (length inherited + j)"
      using f(2) g find_method_agree [OF agr] by auto
  qed
  from place_new_methods [OF this assms(6), of type 0] obtain s2 where
    s2: "place_methods type (classVtable c) inherited 0 s1 = Inr (inherited @ classVtable c, s2)"
      "class_objs s2 = class_objs s1"
      "\<forall>j<length (classVtable c). map_option f_virtualIndex (funcs s2 (classVtable c ! j)) = Some (0 + int j)"
    by blast
  have at: "class_at (class_objs s) l = Inr c" using assms(4) by (simp add: class_at_found)
  have "fixTypes k type s = Inr (s2\<lparr>class_objs := unsafeOverrideVtable (inherited @ classVtable c) l (class_objs s2)\<rparr>)"
    using assms(1-5) s2(1) objs
    by (simp add: fixTypes_def at place_classes_append)
  then show ?thesis using s2 objs assms(4)
    by (auto simp: unsafeOverrideVtable_def update_obj_def)
qed

end
