(* ===== verification/TypeChecker_Samples.thy ===== *)
theory TypeChecker_Samples
  imports TypeChecker_Termination Vtables
begin

text \<open>
  Small programs on which the type checker is run by rewriting: a program that is accepted, one with
  code the checker never looks at, and a class whose table shows the numbers of its methods.
\<close>

section \<open>Running the checker\<close>

lemmas run_checker = codegen_def forT.simps seqT_def skipT_def queryT_def whenT_def optT_def E_def failT_def assertT_def
  typecheck_value_def typecheck_Func_def typecheck_Block_def typecheck_Call_def typecheck_Return_def typecheck_DereferenceTo_def
  typecheck_Variable_def typecheck_Argument_def typecheck_Switch_def callee_callable_def callee_usable_def called_function_def
  is_EnumInit_def check_arguments_def checkMutability_def check_mutating_call_def checkFunctionDeclaration_def
  Func_getName_def Func_isConstructor_def opEquals_def isOperator_def startsWith_def
  func_of_def var_of_def getType_def the_type_def the_object_def cantBeVoid_def body_unsafe_def mark_checked_def
  update_func_def update_var_def ADD_TO_PARENT_SCOPE_def new_TypeChecker_def

lemma no_attribute [simp]: "hasAttribute no_attributes a = False"
  by (simp add: hasAttribute_def no_attributes_def)

lemma no_arguments [simp]: "getAttributeArgs no_attributes a = []"
  by (simp add: getAttributeArgs_def no_attributes_def)

definition i32 :: ty where "i32 = IntTy False 32 True"
definition i32_ptr :: ty where "i32_ptr = PointerTy False i32"

definition main_module :: ir_module where "main_module = new_Module ''$main'' []"

definition function_type :: "ty list \<Rightarrow> ty" where
  "function_type args = FunctionTy False ''<fn type>'' args i32 False"

definition sample_function :: "string \<Rightarrow> (string \<times> nat) list \<Rightarrow> ty list \<Rightarrow> AttributeHolder \<Rightarrow> ir_value list \<Rightarrow> ir_func" where
  "sample_function name args types attrs insts =
     (new_Func name (Some (IrBlock None no_attributes insts)) args False False False None main_module)
       \<lparr>f_retTy := Some i32, f_type := Some (function_type types), f_attributes := attrs\<rparr>"

definition unsafe :: AttributeHolder where "unsafe = addAttribute UNSAFE [] no_attributes"

text \<open>\<^verbatim>\<open>unsafe func load(p: *const i32) i32 { return *p; }\<close> and a \<^verbatim>\<open>main\<close> that calls it in an unsafe block.\<close>

definition load_function :: ir_func where
  "load_function = sample_function ''load'' [(''p'', 0)] [i32_ptr] unsafe
     [IrReturn (Some i32) (Some (IrDereferenceTo (Some i32) (IrArgument 0)))]"

definition main_function :: ir_func where
  "main_function = sample_function ''main'' [] [] no_attributes
     [IrBlock None unsafe [IrCall (Some i32) PlainCall (Some (IrFunc 1)) [IrVariable 1] False],
      IrReturn (Some i32) (Some (IrNumber (Some i32) 0))]"

definition sample_vars :: "nat \<Rightarrow> ir_var option" where
  "sample_vars = [0 \<mapsto> (new_Argument ''p'' 3)\<lparr>v_type := Some i32_ptr\<rparr>,
     1 \<mapsto> (new_Variable ''x'' False True 3)\<lparr>v_type := Some i32_ptr\<rparr>]"

definition sample_program :: tc_state where
  "sample_program = \<lparr>funcs = [0 \<mapsto> main_function, 1 \<mapsto> load_function], vars = sample_vars, class_objs = empty_heap,
     currentFunction = None, unsafeContext = False, errors = []\<rparr>"

definition sample_module :: ir_contents where
  "sample_module = \<lparr>typeInformation = [], module_variables = [], module_functions = [0]\<rparr>"

lemmas samples = sample_program_def sample_module_def sample_vars_def main_function_def load_function_def sample_function_def
  unsafe_def function_type_def i32_def i32_ptr_def new_Func_def new_Variable_def new_Argument_def

lemma sample_accepted: "\<exists>s'. codegen 20 sample_module (new_TypeChecker sample_program) = Inr (Inr s')"
  by (simp add: samples run_checker eval_nat_numeral)

lemma sample_unchecked: "checked sample_program = {}"
  by (auto simp: checked_def samples split: if_splits)

lemma sample_reaches: "1 \<in> reached sample_program (roots sample_module)"
proof (rule reached.call)
  show "0 \<in> reached sample_program (roots sample_module)"
    by (rule reached.root) (simp add: roots_def sample_module_def)
  show "1 \<in> callees sample_program 0"
    by (simp add: callees_def samples unfold_parts body_unsafe_def called_function_def)
qed

theorem accepted_iff_all_reached_ok_witness: "function_ok sample_program 1"
proof -
  obtain s' where run: "codegen 20 sample_module (new_TypeChecker sample_program) = Inr (Inr s')"
    using sample_accepted by blast
  show ?thesis
    using accepted_iff_all_reached_ok [OF run sample_unchecked] sample_reaches by blast
qed

text \<open>Two modules: the second calls the function that the first one has checked.\<close>

lemma modules_accepted: "\<exists>s'. check_modules 20 [sample_module, sample_module] sample_program = Inr (Inr s')"
  by (simp add: samples run_checker eval_nat_numeral)

theorem accepted_program_ok_witness: "function_ok sample_program 1 \<and> function_ok sample_program 0"
proof -
  obtain s' where run: "check_modules 20 [sample_module, sample_module] sample_program = Inr (Inr s')"
    using modules_accepted by blast
  have "0 \<in> reached sample_program (roots sample_module)"
    by (rule reached.root) (simp add: roots_def sample_module_def)
  then show ?thesis
    using accepted_program_ok [OF run sample_unchecked, of sample_module] sample_reaches by simp
qed

theorem checks_end_witness: "codegen 60 sample_module (new_TypeChecker sample_program) \<noteq> Inl recursion_bound"
proof (rule checks_end [where B = 10 and V = 0 and r = "\<lambda>_. 0"])
  have dom: "dom (funcs sample_program) = {0, 1}" by (auto simp: samples split: if_splits)
  show "finite (dom (funcs sample_program))" unfolding dom by simp
  show "largest_body sample_program 10" by (auto simp: largest_body_def samples split: if_splits)
  show "\<forall>v\<in>set (module_variables sample_module). size v \<le> 0" by (simp add: sample_module_def)
  show "ranked (\<lambda>_. 0) (class_objs sample_program)" by (simp add: ranked_def sample_program_def empty_heap_def)
  show "\<forall>l::nat. (0::nat) < 60" by simp
  show "0 + card (dom (funcs sample_program)) * (10 + 2) < 60" unfolding dom by simp
qed

section \<open>Code that is never looked at\<close>

text \<open>
  \<^verbatim>\<open>switch x { default: { *p } }\<close> in a function that is not unsafe: the default block is not visited, so
  the module is accepted with a pointer dereference outside unsafe code. The same value in a case
  block is reported.
\<close>

definition dereference :: ir_value where
  "dereference = IrBlock None no_attributes [IrDereferenceTo (Some i32) (IrVariable 1)]"

definition switch_function :: "bool \<Rightarrow> ir_func" where
  "switch_function in_default = sample_function ''main'' [] [] no_attributes
     [IrSwitch None (IrNumber (Some i32) 0) []
        (if in_default then [] else [(IrNumber (Some i32) 1, dereference)])
        (if in_default then Some dereference else None) True,
      IrReturn (Some i32) (Some (IrNumber (Some i32) 0))]"

definition switch_program :: "bool \<Rightarrow> tc_state" where
  "switch_program in_default = sample_program\<lparr>funcs := [0 \<mapsto> switch_function in_default]\<rparr>"

lemma default_block_not_checked:
  "\<exists>s'. codegen 20 sample_module (new_TypeChecker (switch_program True)) = Inr (Inr s')"
  "codegen 20 sample_module (new_TypeChecker (switch_program False)) =
     Inr (Inl [(SYNTAX_ERROR, Pointer_dereference_unsafe)])"
  by (simp_all add: samples run_checker switch_program_def switch_function_def dereference_def eval_nat_numeral)

section \<open>A virtual table\<close>

definition sample_method :: "string \<Rightarrow> ir_func" where
  "sample_method name = sample_function name [(''self'', 0)] [i32_ptr] no_attributes []"

definition class_type :: "nat \<Rightarrow> ty" where
  "class_type l = DefinedTy True \<lparr>bt_name = ''C'', uuid = ''C'' @ nat_to_string l, bt_module = main_module, bt_id = l\<rparr> [] l"

definition table_program :: tc_state where
  "table_program = sample_program\<lparr>
     funcs := [0 \<mapsto> sample_method ''first'', 1 \<mapsto> sample_method ''second'', 2 \<mapsto> sample_method ''own''],
     class_objs := empty_heap\<lparr>objs :=
       [0 \<mapsto> empty_class\<lparr>hasVtable := True, classVtable := [0, 1]\<rparr>,
        1 \<mapsto> empty_class\<lparr>hasVtable := True, classVtable := [2], cls_parent := Some (class_type 0)\<rparr>]\<rparr>\<rparr>"

lemmas table_samples = table_program_def class_type_def sample_method_def empty_class_def empty_heap_def class_at_def

lemmas run_tables = fixTypes_def same_method_def isIgnoringSelf_def setVirtualIndex_def unsafeOverrideVtable_def update_obj_def

lemma table_parents: "ancestors 5 (class_objs table_program) 1 = Inr [0]"
  by (simp add: table_samples eval_nat_numeral)

lemma table_inherited: "\<exists>s1. place_classes (class_type 1) [0] [] table_program = Inr ([0, 1], s1)"
  by (simp add: table_samples samples run_checker run_tables)

theorem table_of_derived_class_witness:
  "\<exists>s' c'. fixTypes 5 (class_type 1) table_program = Inr s' \<and> objs (class_objs s') 1 = Some c' \<and>
     classVtable c' = [0, 1, 2] \<and> map_option f_virtualIndex (funcs s' 2) = Some 0"
proof -
  obtain s1 where inherited: "place_classes (class_type 1) [0] [] table_program = Inr ([0, 1], s1)"
    using table_inherited by blast
  let ?c = "empty_class\<lparr>hasVtable := True, classVtable := [2], cls_parent := Some (class_type 0)\<rparr>"
  have "\<exists>s' c'. fixTypes 5 (class_type 1) table_program = Inr s' \<and> objs (class_objs s') 1 = Some c' \<and>
      classVtable c' = [0, 1] @ classVtable ?c \<and>
      (\<forall>j<length (classVtable ?c). map_option f_virtualIndex (funcs s' (classVtable ?c ! j)) = Some (int j))"
    by (rule table_of_derived_class [OF table_parents inherited])
      (simp_all add: table_samples samples run_checker run_tables)
  then show ?thesis by simp
qed

theorem inherited_slots_stay_witness:
  "\<exists>s' c'. fixTypes 5 (class_type 1) table_program = Inr s' \<and> objs (class_objs s') 1 = Some c' \<and>
     extends table_program [0, 1] (classVtable c')"
proof -
  obtain s1 where inherited: "place_classes (class_type 1) [0] [] table_program = Inr ([0, 1], s1)"
    using table_inherited by blast
  have "\<exists>s'. fixTypes 5 (class_type 1) table_program = Inr s'"
    by (simp add: table_samples samples run_checker run_tables eval_nat_numeral)
  then obtain s' where run: "fixTypes 5 (class_type 1) table_program = Inr s'" by blast
  show ?thesis
    using run inherited_slots_stay [OF run class_type_def _ _ table_parents inherited]
    by (simp add: table_samples)
qed

end
