(* ===== verification/Strings.thy ===== *)
theory Strings
  imports Tokens Operators
begin

text \<open>
  The string helpers of \<^verbatim>\<open>src/utils/utils.{h,cc}\<close> and the operations of
  \<^verbatim>\<open>std::filesystem::path\<close> the compiler uses, with their laws. Lengths stay below the range
  of \<^verbatim>\<open>int\<close>, to which \<^verbatim>\<open>split\<close> converts an index.
\<close>

section \<open>Searching\<close>

text \<open>\<^verbatim>\<open>std::string::find\<close>; \<open>None\<close> is \<^verbatim>\<open>npos\<close>.\<close>

fun find_sub :: "string \<Rightarrow> string \<Rightarrow> nat option" where
  "find_sub pat [] = (if pat = [] then Some 0 else None)"
| "find_sub pat (c # cs) = (if startsWith (c # cs) pat then Some 0 else map_option Suc (find_sub pat cs))"

lemma startsWith_Nil [simp]: "startsWith s []"
  by (simp add: startsWith_def)

lemma startsWith_Nil_iff [simp]: "startsWith [] p \<longleftrightarrow> p = []"
  by (auto simp: startsWith_def)

lemma startsWith_append [simp]: "startsWith (p @ s) p"
  by (simp add: startsWith_def)

lemma startsWith_iff: "startsWith s p \<longleftrightarrow> (\<exists>r. s = p @ r)"
  unfolding startsWith_def by (metis append_eq_conv_conj append_take_drop_id)

lemma find_sub_SomeD:
  "find_sub pat s = Some i \<Longrightarrow> s = take i s @ pat @ drop (i + length pat) s"
proof (induction s arbitrary: i)
  case (Cons c cs)
  show ?case
  proof (cases "startsWith (c # cs) pat")
    case True
    with Cons.prems show ?thesis by (auto simp: startsWith_iff)
  next
    case False
    with Cons.prems obtain j where "find_sub pat cs = Some j" and "i = Suc j" by auto
    with Cons.IH show ?thesis by (metis add_Suc append_Cons drop_Suc_Cons take_Suc_Cons)
  qed
qed (simp split: if_splits)

lemma find_sub_bound: "find_sub pat s = Some i \<Longrightarrow> i + length pat \<le> length s"
proof (induction s arbitrary: i)
  case (Cons c cs)
  then show ?case by (auto simp: startsWith_iff split: if_splits) (metis length_Cons length_append le_add1)
qed (simp split: if_splits)

lemma find_sub_first:
  "find_sub pat s = Some i \<Longrightarrow> j < i \<Longrightarrow> \<not> startsWith (drop j s) pat"
proof (induction s arbitrary: i j)
  case (Cons c cs)
  then show ?case by (cases j) (auto split: if_splits)
qed (simp split: if_splits)

lemma find_sub_None_iff: "find_sub pat s = None \<longleftrightarrow> (\<forall>u v. s \<noteq> u @ pat @ v)"
proof (induction s)
  case Nil
  then show ?case by auto
next
  case (Cons c cs)
  have "(\<forall>u v. c # cs \<noteq> u @ pat @ v) \<longleftrightarrow> \<not> startsWith (c # cs) pat \<and> (\<forall>u v. cs \<noteq> u @ pat @ v)"
    unfolding startsWith_iff by (metis append_Cons append_Nil append_eq_Cons_conv)
  with Cons.IH show ?case by simp
qed

section \<open>Replacing\<close>

text \<open>
  \<^verbatim>\<open>utils::replaceAll\<close>: the text before \<^verbatim>\<open>start_pos\<close> and the text that is still searched.
\<close>

function replace_loop :: "string \<Rightarrow> string \<Rightarrow> string \<Rightarrow> string \<Rightarrow> string" where
  "replace_loop from to done rest =
     (if from = [] then done @ rest
      else case find_sub from rest of
          None \<Rightarrow> done @ rest
        | Some i \<Rightarrow> replace_loop from to (done @ take i rest @ to) (drop (i + length from) rest))"
  by pat_completeness auto
termination
proof (relation "measure (\<lambda>(_, _, _, rest). length rest)")
  fix "from" :: string and rest i to "done"
  assume "from \<noteq> []" and "find_sub from rest = Some i"
  then show "((from, to, done @ take i rest @ to, drop (i + length from) rest), from, to, done, rest)
      \<in> measure (\<lambda>(_, _, _, rest). length rest)"
    using find_sub_bound [of "from" rest i] by (cases "from") auto
qed simp

declare replace_loop.simps [simp del]

definition replaceAll :: "string \<Rightarrow> string \<Rightarrow> string \<Rightarrow> string" where
  "replaceAll str from to = (if from = [] then str else replace_loop from to [] str)"

lemma replace_loop_done: "replace_loop from to done rest = done @ replace_loop from to [] rest"
proof (induction "length rest" arbitrary: "done" rest rule: less_induct)
  case less
  show ?case
  proof (cases "from = []")
    case False
    show ?thesis
    proof (cases "find_sub from rest")
      case (Some i)
      with False have "length (drop (i + length from) rest) < length rest"
        using find_sub_bound [OF Some] by (cases "from") auto
      from less [OF this, of "done @ take i rest @ to"] less [OF this, of "take i rest @ to"]
      show ?thesis using Some False
        by (simp add: replace_loop.simps [of _ _ _ rest])
    qed (simp add: replace_loop.simps)
  qed (simp add: replace_loop.simps)
qed

lemma replaceAll_unfold:
  assumes "from \<noteq> []"
  shows "replaceAll s from to = (case find_sub from s of None \<Rightarrow> s
     | Some i \<Rightarrow> take i s @ to @ replaceAll (drop (i + length from) s) from to)"
  using assms replace_loop_done [of "from" to "take i s @ to" for i]
  by (auto simp: replaceAll_def replace_loop.simps [of _ _ _ s] split: option.splits)

lemma replaceAll_absent: "find_sub from s = None \<Longrightarrow> replaceAll s from to = s"
  by (cases "from = []") (simp_all add: replaceAll_def replace_loop.simps)

lemma replaceAll_Nil [simp]: "replaceAll [] from to = []"
  by (cases "from") (simp_all add: replaceAll_def replace_loop.simps)

text \<open>Replacing one character is a concatenation over the characters.\<close>

lemma replaceAll_char: "replaceAll s [c] to = concat (map (\<lambda>x. if x = c then to else [x]) s)"
proof (induction s)
  case (Cons x xs)
  show ?case
  proof (cases "x = c")
    case True
    have "find_sub [c] (c # xs) = Some 0" by (simp add: startsWith_def)
    then have "replaceAll (c # xs) [c] to = to @ replaceAll xs [c] to"
      by (subst replaceAll_unfold) simp_all
    with True Cons.IH show ?thesis by simp
  next
    case False
    have "replaceAll (x # xs) [c] to = x # replaceAll xs [c] to"
      using False by (simp add: replaceAll_unfold [of _ "x # xs"] replaceAll_unfold [of _ xs] startsWith_def
          split: option.splits)
    with False Cons.IH show ?thesis by simp
  qed
qed simp

section \<open>Splitting and joining\<close>

text \<open>
  \<^verbatim>\<open>utils::split\<close>: an empty token is found at the start again and again, so the loop does not end.
\<close>

partial_function (option) split_loop :: "string \<Rightarrow> string list \<Rightarrow> string \<Rightarrow> string list option" where
  "split_loop token result str =
     (if str = [] then Some result
      else case find_sub token str of
          Some index \<Rightarrow>
            (let rest = drop (index + length token) str;
                 result' = result @ [take index str]
             in split_loop token (if rest = [] then result' @ [rest] else result') rest)
        | None \<Rightarrow> split_loop token (result @ [str]) [])"

definition split_string :: "string \<Rightarrow> string \<Rightarrow> string list option" where
  "split_string str token = split_loop token [] str"

text \<open>\<^verbatim>\<open>utils::join\<close> of a range of strings.\<close>

fun join :: "string list \<Rightarrow> string \<Rightarrow> string" where
  "join [] sep = []"
| "join [x] sep = x"
| "join (x # y # xs) sep = x @ sep @ join (y # xs) sep"

lemma split_loop_Nil [simp]: "split_loop token result [] = Some result"
  by (simp add: split_loop.simps)

lemma join_Cons: "xs \<noteq> [] \<Longrightarrow> join (x # xs) sep = x @ sep @ join xs sep"
  by (cases xs) simp_all

lemma split_loop_returns:
  assumes "token \<noteq> []"
  shows "\<exists>parts. (\<forall>result. split_loop token result str = Some (result @ parts)) \<and> join parts token = str
    \<and> (str \<noteq> [] \<longrightarrow> parts \<noteq> []) \<and> (\<forall>p\<in>set parts. find_sub token p = None)"
proof (induction "length str" arbitrary: str rule: less_induct)
  case less
  show ?case
  proof (cases "str = []")
    case True
    then show ?thesis by (intro exI [of _ "[]"]) simp
  next
    case False
    show ?thesis
    proof (cases "find_sub token str")
      case None
      with False show ?thesis
        by (intro exI [of _ "[str]"]) (simp add: split_loop.simps [of _ _ str])
    next
      case (Some i)
      let ?rest = "drop (i + length token) str"
      have head: "find_sub token (take i str) = None"
      proof (rule ccontr)
        assume "find_sub token (take i str) \<noteq> None"
        then obtain j where j: "find_sub token (take i str) = Some j" by auto
        from find_sub_bound [OF j] assms have "j < i" by (cases token) auto
        moreover have "startsWith (drop j str) token"
        proof -
          have "str = take i str @ drop i str" by simp
          also have "take i str = take j (take i str) @ token @ drop (j + length token) (take i str)"
            by (rule find_sub_SomeD [OF j])
          finally have "drop j str = drop j (take j (take i str)) @ token @ drop (j + length token) (take i str) @ drop i str"
            using \<open>j < i\<close> find_sub_bound [OF Some] by (metis append_assoc drop_append drop_drop [symmetric] diff_self_eq_0
              drop0 length_take min.absorb2 min_def nat_less_le le_trans le_add1 append_take_drop_id drop_all le_refl append_Nil)
          then show ?thesis using \<open>j < i\<close> by (simp add: startsWith_iff)
        qed
        ultimately show False using find_sub_first [OF Some] by blast
      qed
      from find_sub_bound [OF Some] assms have "length ?rest < length str" by (cases token) auto
      from less [OF this] obtain parts where parts: "\<And>result. split_loop token result ?rest = Some (result @ parts)"
        and joined: "join parts token = ?rest" and nonempty: "?rest \<noteq> [] \<longrightarrow> parts \<noteq> []"
        and none: "\<forall>p\<in>set parts. find_sub token p = None" by blast
      have split: "split_loop token result str =
          split_loop token (if ?rest = [] then (result @ [take i str]) @ [?rest] else result @ [take i str]) ?rest" for result
        using False Some by (simp add: split_loop.simps [of _ _ str] Let_def)
      show ?thesis
      proof (cases "?rest = []")
        case True
        with split have "split_loop token result str = Some (result @ [take i str, []])" for result by simp
        moreover have "join [take i str, []] token = str"
          using find_sub_SomeD [OF Some] True by simp
        ultimately show ?thesis using head assms by (intro exI [of _ "[take i str, []]"]) simp
      next
        case False
        with split parts have "split_loop token result str = Some (result @ take i str # parts)" for result by simp
        moreover have "join (take i str # parts) token = str"
          using find_sub_SomeD [OF Some] joined nonempty False by (simp add: join_Cons)
        ultimately show ?thesis using head none by (intro exI [of _ "take i str # parts"]) simp
      qed
    qed
  qed
qed

lemma split_loop_empty_token:
  assumes "split_loop token result str = Some r"
  shows "token = [] \<longrightarrow> str = []"
proof (rule split_loop.raw_induct [where P = "\<lambda>token result str r. token = [] \<longrightarrow> str = []", OF _ assms])
  fix loop token result str r
  assume IH: "\<And>token result str r. loop token result str = Some r \<Longrightarrow> token = [] \<longrightarrow> str = []"
    and body: "(if str = [] then Some result
      else case find_sub token str of
          None \<Rightarrow> loop token (result @ [str]) []
        | Some index \<Rightarrow> let rest = drop (index + length token) str; result' = result @ [take index str]
            in loop token (if rest = [] then result' @ [rest] else result') rest) = Some r"
  show "token = [] \<longrightarrow> str = []"
    using body by (cases str) (auto simp: Let_def dest: IH)
qed

text \<open>Splitting ends for every token but the empty one, and joining the parts gives the text back.\<close>

lemma split_string_join:
  assumes "token \<noteq> []"
  shows "\<exists>parts. split_string str token = Some parts \<and> join parts token = str
    \<and> list_all (\<lambda>p. find_sub token p = None) parts"
  using split_loop_returns [OF assms, of str] by (fastforce simp: split_string_def list_all_iff)

lemma split_string_diverges: "str \<noteq> [] \<Longrightarrow> split_string str [] = None"
  by (cases "split_string str []") (auto simp: split_string_def dest: split_loop_empty_token)

section \<open>Paths\<close>

text \<open>
  The operations of \<^verbatim>\<open>std::filesystem::path\<close> on POSIX, on the text of a path: \<^verbatim>\<open>operator/\<close>, \<^verbatim>\<open>filename\<close>,
  \<^verbatim>\<open>stem\<close>, \<^verbatim>\<open>replace_extension("")\<close> and \<^verbatim>\<open>parent_path\<close>.
\<close>

abbreviation SLASH :: char where "SLASH \<equiv> CHR 0x2F"
abbreviation DOT :: char where "DOT \<equiv> CHR 0x2E"

definition path_div :: "string \<Rightarrow> string \<Rightarrow> string" where
  "path_div a b =
     (if startsWith b [SLASH] then b
      else if a = [] \<or> last a = SLASH then a @ b
      else a @ [SLASH] @ b)"

definition path_filename :: "string \<Rightarrow> string" where
  "path_filename p = rev (takeWhile (\<lambda>c. c \<noteq> SLASH) (rev p))"

definition path_directory :: "string \<Rightarrow> string" where
  "path_directory p = rev (dropWhile (\<lambda>c. c \<noteq> SLASH) (rev p))"

definition strip_extension :: "string \<Rightarrow> string" where
  "strip_extension f =
     (let before = rev (drop 1 (dropWhile (\<lambda>c. c \<noteq> DOT) (rev f)))
      in if f = [DOT, DOT] \<or> before = [] then f else before)"

definition path_stem :: "string \<Rightarrow> string" where
  "path_stem p = strip_extension (path_filename p)"

definition remove_extension :: "string \<Rightarrow> string" where
  "remove_extension p = path_directory p @ strip_extension (path_filename p)"

definition parent_path :: "string \<Rightarrow> string" where
  "parent_path p =
     (let d = path_directory p; t = rev (dropWhile (\<lambda>c. c = SLASH) (rev d))
      in if t = [] then take 1 d else t)"

lemma path_parts: "path_directory p @ path_filename p = p"
  unfolding path_directory_def path_filename_def by (metis rev_append rev_rev_ident takeWhile_dropWhile_id)

lemma path_div_inject: "\<not> startsWith b [SLASH] \<Longrightarrow> \<not> startsWith c [SLASH] \<Longrightarrow> path_div a b = path_div a c \<longleftrightarrow> b = c"
  by (simp add: path_div_def)

end
