(* ===== verification/Packages.thy ===== *)
theory Packages
  imports Strings Types
begin

text \<open>
  The package manager (\<^verbatim>\<open>src/pm/Manager.{h,cc}\<close>, called by \<^verbatim>\<open>Compiler::runPackageManager\<close>): it
  installs the dependencies of a project, and those of every package it installs.

  The network (\<^verbatim>\<open>curl\<close>), the JSON reader, the \<^verbatim>\<open>git\<close> command and the environment are parameters,
  gathered in a record. The configuration folder is an absolute path, so the changes of the
  working directory have no effect here and are left out, as are the messages to the user. Of
  the file system the manager sees the package folders and the \<^verbatim>\<open>sn.toml\<close> file in each.
\<close>

section \<open>Documents\<close>

datatype toml = TomlString string | TomlTable "(string \<times> toml) list" | TomlOther

datatype json = JsonNull | JsonString string | JsonArray "json list" | JsonObject "(string \<times> json) list" | JsonOther

text \<open>\<^verbatim>\<open>operator[]\<close> of a TOML node: an empty view when the node is no table.\<close>

fun toml_get :: "toml \<Rightarrow> string \<Rightarrow> toml option" where
  "toml_get (TomlTable t) key = map_of t key"
| "toml_get _ key = None"

text \<open>
  \<^verbatim>\<open>operator[]\<close> of a mutable JSON value with a key: a missing member is inserted as null, and so
  is a member of null itself; other values raise a type error. The conversion to a string
  raises one for everything but a string.
\<close>

definition json_type_error :: failure where
  "json_type_error = StdException ''nlohmann::type_error''"

fun json_get :: "json \<Rightarrow> string \<Rightarrow> json res" where
  "json_get (JsonObject t) key = Inr (case map_of t key of Some v \<Rightarrow> v | None \<Rightarrow> JsonNull)"
| "json_get JsonNull key = Inr JsonNull"
| "json_get _ key = Inl json_type_error"

fun json_string :: "json \<Rightarrow> string res" where
  "json_string (JsonString s) = Inr s"
| "json_string _ = Inl json_type_error"

section \<open>The manager\<close>

datatype Package = Package (pkg_name: string) (pkg_version: string) (pkg_dependencies: "Package list")

datatype curl_answer = NoCurl | CurlFailed string | CurlAnswer int string

datatype toml_file = NoFile | Malformed | Parsed toml

type_synonym folders = "string \<Rightarrow> toml_file option"

record pm_world =
  pm_configFolder :: string
  git_path :: "string option"
  curl :: "string \<Rightarrow> curl_answer"
  json_parse :: "string \<Rightarrow> string + json"
  run_command :: "string list \<Rightarrow> folders \<Rightarrow> int \<times> folders"

text \<open>The manifest the manager works on, the package folders, and the commands run so far.\<close>

record pm_state =
  pm_package :: toml
  pm_folders :: folders
  pm_commands :: "string list list"

definition PACKAGE_REGISTRY :: string where
  "PACKAGE_REGISTRY = ''http://snowball-lang.github.io/packages/pkgs/''"

definition getGit :: "pm_world \<Rightarrow> string" where
  "getGit w = (case git_path w of Some p \<Rightarrow> p | None \<Rightarrow> ''git'')"

definition packageFolder :: "pm_world \<Rightarrow> string \<Rightarrow> string" where
  "packageFolder w name = path_div (path_div (pm_configFolder w) ''deps'') name"

definition isInstalled :: "pm_world \<Rightarrow> Package \<Rightarrow> pm_state \<Rightarrow> bool" where
  "isInstalled w p s \<longleftrightarrow> pm_folders s (packageFolder w (pkg_name p)) \<noteq> None"

definition pm_error :: "string \<Rightarrow> failure" where
  "pm_error msg = CompilerError PM_ERROR msg"

definition getPackageInfoFromRepo :: "pm_world \<Rightarrow> string \<Rightarrow> json res" where
  "getPackageInfoFromRepo w p_repo =
     (case curl w (PACKAGE_REGISTRY @ p_repo @ ''.json'') of
        NoCurl \<Rightarrow> Inl (pm_error ''Failed to initialize curl'')
      | CurlFailed e \<Rightarrow> Inl (pm_error (''Failed to get package info from registry. CURL code '' @ e))
      | CurlAnswer code body \<Rightarrow>
          if code \<noteq> 200
          then Inl (pm_error (''Failed to get package info from registry. HTTP code '' @ to_string code))
          else (case json_parse w body of
              Inl what \<Rightarrow> Inl (pm_error (''Failed to parse package info from registry. '' @ what))
            | Inr info \<Rightarrow> Inr info))"

subsection \<open>Reading the dependencies of a manifest\<close>

text \<open>
  A dependency that is no table has the version \<^verbatim>\<open>latest\<close>. A nested dependency without a version
  string is a null pointer that the code dereferences.
\<close>

definition nested_dependency :: "string \<times> toml \<Rightarrow> Package res" where
  "nested_dependency kv =
     (case toml_get (snd kv) ''version'' of
        Some (TomlString v) \<Rightarrow> Inr (Package (fst kv) v [])
      | _ \<Rightarrow> Inl null_pointer)"

definition read_package :: "string \<times> toml \<Rightarrow> Package res" where
  "read_package kv =
     (let version = (case toml_get (snd kv) ''version'' of Some (TomlString v) \<Rightarrow> v | _ \<Rightarrow> ''latest'')
      in case toml_get (snd kv) ''dependencies'' of
          Some (TomlTable t) \<Rightarrow> bindR (mapR nested_dependency t) (\<lambda>ds. Inr (Package (fst kv) version ds))
        | _ \<Rightarrow> Inr (Package (fst kv) version []))"

subsection \<open>Installing\<close>

text \<open>
  The choice of a version: the registry's list must contain it, \<^verbatim>\<open>latest\<close> is the first entry.
  Past the end of the list, null is inserted. Without a list no branch is named.
\<close>

definition choose_version :: "Package \<Rightarrow> json \<Rightarrow> string res" where
  "choose_version p versions =
     (case versions of
        JsonArray vs \<Rightarrow>
          bindR (if pkg_version p = ''latest'' then json_string (case vs of v # _ \<Rightarrow> v | [] \<Rightarrow> JsonNull)
                 else Inr (pkg_version p)) (\<lambda>version.
          if JsonString version \<in> set vs then Inr version
          else Inl (pm_error (''Failed to install package '' @ quoted (pkg_name p) @ ''. Version ''
                 @ quoted version @ '' not found in package info'')))
      | _ \<Rightarrow> Inr [])"

definition failed_install :: "Package \<Rightarrow> string \<Rightarrow> failure" where
  "failed_install p why = pm_error (''Failed to install package '' @ quoted (pkg_name p) @ why)"

text \<open>The questions to the registry: the address of the package and the branch to clone.\<close>

definition ask_registry :: "pm_world \<Rightarrow> Package \<Rightarrow> (string \<times> string) res" where
  "ask_registry w p =
     bindR (getPackageInfoFromRepo w (pkg_name p)) (\<lambda>pkgInfo.
     bindR (bindR (json_get pkgInfo ''download_url'') json_string) (\<lambda>url.
     if url = [] then Inl (failed_install p ''. No download_url found in package info'')
     else bindR (json_get pkgInfo ''versions'') (\<lambda>versions.
     bindR (choose_version p versions) (\<lambda>commitId. Inr (url, commitId)))))"

definition git_clone :: "pm_world \<Rightarrow> string \<Rightarrow> string \<Rightarrow> string \<Rightarrow> string list" where
  "git_clone w url folder commitId =
     [getGit w, ''-c'', ''advice.detachedHead=false'', ''clone'', url, folder, ''--depth=1'', ''--quiet'']
     @ (if commitId \<noteq> [] then [''--branch'', commitId] else [])"

text \<open>
  An action of the manager: what it leaves in the folders and among the commands stays, whether it
  returns or throws.
\<close>

type_synonym 'a pm = "pm_state \<Rightarrow> pm_state \<times> 'a res"

definition bindP :: "'a pm \<Rightarrow> ('a \<Rightarrow> 'b pm) \<Rightarrow> 'b pm" where
  "bindP m f s = (case m s of (s1, Inl e) \<Rightarrow> (s1, Inl e) | (s1, Inr x) \<Rightarrow> f x s1)"

definition liftP :: "'a res \<Rightarrow> 'a pm" where
  "liftP m s = (s, m)"

definition execute :: "pm_world \<Rightarrow> string list \<Rightarrow> int pm" where
  "execute w cmd s =
     (let (status, fs) = run_command w cmd (pm_folders s)
      in (s\<lparr>pm_folders := fs, pm_commands := pm_commands s @ [cmd]\<rparr>, Inr status))"

text \<open>
  \<^verbatim>\<open>Manager::install\<close> up to the new manifest: the clone, and the \<^verbatim>\<open>sn.toml\<close> file in it. The early
  return of an installed package gives \<^verbatim>\<open>False\<close>.
\<close>

definition read_manifest :: "pm_world \<Rightarrow> Package \<Rightarrow> unit pm" where
  "read_manifest w p s =
     (case pm_folders s (packageFolder w (pkg_name p)) of
        Some (Parsed t) \<Rightarrow> (s\<lparr>pm_package := t\<rparr>, Inr ())
      | Some Malformed \<Rightarrow> (s, Inl (StdException ''toml::parse_error''))
      | _ \<Rightarrow> (s, Inl (failed_install p ''. No sn.toml found in package'')))"

definition clone_package :: "pm_world \<Rightarrow> Package \<Rightarrow> string \<times> string \<Rightarrow> unit pm" where
  "clone_package w p src =
     bindP (execute w (git_clone w (fst src) (packageFolder w (pkg_name p)) (snd src))) (\<lambda>status.
     if status \<noteq> 0 then liftP (Inl (failed_install p ''. See the output above''))
     else read_manifest w p)"

definition fetch_package :: "pm_world \<Rightarrow> Package \<Rightarrow> bool pm" where
  "fetch_package w p s =
     (if isInstalled w p s then (s, Inr False)
      else bindP (liftP (ask_registry w p)) (\<lambda>src.
        bindP (clone_package w p src) (\<lambda>_. liftP (Inr True))) s)"

text \<open>
  \<^verbatim>\<open>Manager::install\<close> and \<^verbatim>\<open>Manager::runAsMain\<close> call each other; the fuel bounds the depth of the
  calls. Both return \<^verbatim>\<open>EXIT_SUCCESS\<close> or throw.
\<close>

definition install_with :: "int pm \<Rightarrow> pm_world \<Rightarrow> Package \<Rightarrow> int pm" where
  "install_with run w p =
     bindP (fetch_package w p) (\<lambda>fetched.
     if \<not> fetched then liftP (Inr 0)
     else bindP run (\<lambda>result. liftP (if result \<noteq> 0 then Inl (failed_install p ''. See the output above'') else Inr 0)))"

fun install_all :: "(Package \<Rightarrow> int pm) \<Rightarrow> Package list \<Rightarrow> unit pm" where
  "install_all inst [] = liftP (Inr ())"
| "install_all inst (p # ps) = bindP (inst p) (\<lambda>result.
     if result \<noteq> 0 then liftP (Inl (pm_error (''Failed to install package '' @ c_str (pkg_name p))))
     else install_all inst ps)"

primrec runAsMain :: "nat \<Rightarrow> pm_world \<Rightarrow> int pm" where
  "runAsMain 0 w s = (s, Inl (Undefined ''stack exhausted''))"
| "runAsMain (Suc k) w s =
     (case toml_get (pm_package s) ''dependencies'' of
        Some (TomlTable t) \<Rightarrow>
          bindP (liftP (mapR read_package t)) (\<lambda>packagesInfo.
          bindP (install_all (install_with (runAsMain k w) w) packagesInfo) (\<lambda>_. liftP (Inr 0))) s
      | _ \<Rightarrow> (s, Inr 0))"

definition install_package :: "nat \<Rightarrow> pm_world \<Rightarrow> Package \<Rightarrow> int pm" where
  "install_package k w = install_with (runAsMain k w) w"

end
