(* ===== verification/Packages_Props.thy ===== *)
theory Packages_Props
  imports Packages
begin

text \<open>
  What the package manager promises: it ends, and when it succeeds every package reachable
  through the manifests is installed. Of \<^verbatim>\<open>git clone\<close> only this is used: when it reports success
  it has created the folder it was asked for and changed nothing else.
\<close>

section \<open>Vocabulary\<close>

definition dependency_names :: "toml \<Rightarrow> string list" where
  "dependency_names t =
     (case toml_get t ''dependencies'' of Some (TomlTable ds) \<Rightarrow> map fst ds | _ \<Rightarrow> [])"

definition clone_creates :: "pm_world \<Rightarrow> bool" where
  "clone_creates w \<longleftrightarrow> (\<forall>url folder c F F'. run_command w (git_clone w url folder c) F = (0, F') \<longrightarrow>
     (\<exists>f. F' = F(folder \<mapsto> f)))"

text \<open>The names in the manifests of all packages that can be cloned stay in one set.\<close>

definition manifests_within :: "pm_world \<Rightarrow> string set \<Rightarrow> bool" where
  "manifests_within w U \<longleftrightarrow> (\<forall>url folder c F F' t. run_command w (git_clone w url folder c) F = (0, F') \<longrightarrow>
     F' folder = Some (Parsed t) \<longrightarrow> set (dependency_names t) \<subseteq> U)"

text \<open>One package folder needs another; every installed package has what it needs.\<close>

definition needs :: "pm_world \<Rightarrow> folders \<Rightarrow> (string \<times> string) set" where
  "needs w F = {(d, packageFolder w n) | d t n. F d = Some (Parsed t) \<and> n \<in> set (dependency_names t)}"

definition all_installed :: "pm_world \<Rightarrow> folders \<Rightarrow> bool" where
  "all_installed w F \<longleftrightarrow> Range (needs w F) \<subseteq> dom F"

text \<open>What a run adds to the package folders is complete.\<close>

definition complete_since :: "pm_world \<Rightarrow> folders \<Rightarrow> folders \<Rightarrow> bool" where
  "complete_since w F F' \<longleftrightarrow> F \<subseteq>\<^sub>m F' \<and> (\<forall>d t n. F d = None \<longrightarrow> F' d = Some (Parsed t) \<longrightarrow>
     n \<in> set (dependency_names t) \<longrightarrow> packageFolder w n \<in> dom F')"

definition missing :: "pm_world \<Rightarrow> string set \<Rightarrow> folders \<Rightarrow> nat" where
  "missing w U F = card {n \<in> U. packageFolder w n \<notin> dom F}"

lemma complete_since_refl: "complete_since w F F"
  by (simp add: complete_since_def)

lemma complete_since_le: "complete_since w F F' \<Longrightarrow> F \<subseteq>\<^sub>m F'"
  by (simp add: complete_since_def)

lemma complete_since_trans:
  assumes "complete_since w F G" "complete_since w G H"
  shows "complete_since w F H"
proof -
  have "packageFolder w n \<in> dom H"
    if "F d = None" "H d = Some (Parsed t)" "n \<in> set (dependency_names t)" for d t n
  proof (cases "G d")
    case None
    with assms(2) that show ?thesis by (auto simp: complete_since_def)
  next
    case (Some f)
    with assms(2) that(2) have "G d = Some (Parsed t)"
      by (metis complete_since_le domI map_le_def)
    with assms that show ?thesis
      by (meson complete_since_def in_mono map_le_implies_dom_le)
  qed
  with assms show ?thesis by (auto simp: complete_since_def intro: map_le_trans)
qed

lemma settled_complete:
  assumes "all_installed w F" "complete_since w F F'"
  shows "all_installed w F'"
proof -
  have "packageFolder w n \<in> dom F'" if "F' d = Some (Parsed t)" "n \<in> set (dependency_names t)" for d t n
  proof (cases "F d")
    case None
    with assms(2) that show ?thesis by (auto simp: complete_since_def)
  next
    case (Some f)
    with assms(2) that(1) have "F d = Some (Parsed t)" by (metis complete_since_le domI map_le_def)
    with that(2) have "packageFolder w n \<in> Range (needs w F)" by (auto simp: needs_def)
    with assms show ?thesis by (meson complete_since_le in_mono map_le_implies_dom_le all_installed_def)
  qed
  then show ?thesis by (auto simp: all_installed_def needs_def)
qed

lemma missing_mono: "finite U \<Longrightarrow> F \<subseteq>\<^sub>m F' \<Longrightarrow> missing w U F' \<le> missing w U F"
  unfolding missing_def by (intro card_mono) (auto dest: map_le_implies_dom_le)

section \<open>One package\<close>

lemma mapR_read_package: "mapR read_package t = Inr ps \<Longrightarrow> map pkg_name ps = map fst t"
proof (induction t arbitrary: ps)
  case (Cons kv t)
  then show ?case
    by (auto simp: res_simps read_package_def Let_def split: option.splits toml.splits)
qed simp

lemma bindP_Inr: "bindP m f s = (s', Inr y) \<longleftrightarrow> (\<exists>t x. m s = (t, Inr x) \<and> f x t = (s', Inr y))"
  by (auto simp: bindP_def split: prod.splits sum.splits)

lemma bindP_Inl:
  "bindP m f s = (s', Inl e) \<longleftrightarrow> m s = (s', Inl e) \<or> (\<exists>t x. m s = (t, Inr x) \<and> f x t = (s', Inl e))"
  by (auto simp: bindP_def split: prod.splits sum.splits)

lemma liftP_eq: "liftP m s = (s', x) \<longleftrightarrow> s' = s \<and> x = m"
  by (auto simp: liftP_def)

lemmas pm_simps = bindP_Inr bindP_Inl liftP_eq

text \<open>
  What the registry offers, read off its answer: the address, and as the branch a version of its
  list - the one that is asked for, or the first one for \<^verbatim>\<open>latest\<close>; without a list no branch.
\<close>

inductive version_listed :: "string \<Rightarrow> json option \<Rightarrow> string \<Rightarrow> bool" where
  newest: "version_listed ''latest'' (Some (JsonArray (JsonString c # vs))) c"
| asked: "JsonString c \<in> set vs \<Longrightarrow> c \<noteq> ''latest'' \<Longrightarrow> version_listed c (Some (JsonArray vs)) c"
| no_list: "\<nexists>vs. versions = Some (JsonArray vs) \<Longrightarrow> version_listed wanted versions []"

inductive_cases version_listedE: "version_listed wanted (Some (JsonArray vs)) c"

inductive_simps version_listed_simps:
  "version_listed wanted None c" "version_listed wanted (Some (JsonArray vs)) c" "version_listed wanted (Some (JsonObject t)) c"
  "version_listed wanted (Some (JsonString t)) c" "version_listed wanted (Some JsonNull) c" "version_listed wanted (Some JsonOther) c"

definition registry_offers :: "pm_world \<Rightarrow> Package \<Rightarrow> string \<Rightarrow> string \<Rightarrow> bool" where
  "registry_offers w p url c \<longleftrightarrow> (\<exists>body fields.
     curl w (PACKAGE_REGISTRY @ pkg_name p @ ''.json'') = CurlAnswer 200 body
     \<and> json_parse w body = Inr (JsonObject fields)
     \<and> map_of fields ''download_url'' = Some (JsonString url) \<and> url \<noteq> []
     \<and> version_listed (pkg_version p) (map_of fields ''versions'') c)"

lemma getPackageInfoFromRepo_Inr:
  "getPackageInfoFromRepo w n = Inr info \<longleftrightarrow>
     (\<exists>body. curl w (PACKAGE_REGISTRY @ n @ ''.json'') = CurlAnswer 200 body \<and> json_parse w body = Inr info)"
  by (auto simp: getPackageInfoFromRepo_def split: curl_answer.splits sum.splits)

lemma json_string_Inr: "json_string j = Inr s \<longleftrightarrow> j = JsonString s"
  by (cases j) (auto simp: json_type_error_def)

lemma json_get_string:
  "json_get info key = Inr (JsonString s) \<longleftrightarrow> (\<exists>fields. info = JsonObject fields \<and> map_of fields key = Some (JsonString s))"
  by (cases "(info, key)" rule: json_get.cases) (auto simp: json_type_error_def split: option.splits)

lemma choose_version_listed:
  "choose_version p (case versions of Some v \<Rightarrow> v | None \<Rightarrow> JsonNull) = Inr c
     \<longleftrightarrow> version_listed (pkg_version p) versions c"
  by (cases p)
    (auto simp: choose_version_def version_listed_simps res_simps json_string_Inr
      split: option.splits json.splits list.splits if_splits)

lemma ask_registry_iff: "ask_registry w p = Inr (url, c) \<longleftrightarrow> registry_offers w p url c"
  by (auto simp: ask_registry_def registry_offers_def res_simps getPackageInfoFromRepo_Inr json_string_Inr
      json_get_string choose_version_listed split: if_splits)

text \<open>What a fetch did: nothing, or one clone into the free folder of the package.\<close>

lemma fetch_package_commands:
  assumes "fetch_package w p s = (s1, x)"
  obtains (nothing) "pm_commands s1 = pm_commands s" "pm_folders s1 = pm_folders s"
      "x \<noteq> Inr True" "x = Inr False \<Longrightarrow> s1 = s \<and> isInstalled w p s"
  | (clone) url c status F where "pm_folders s (packageFolder w (pkg_name p)) = None"
      "registry_offers w p url c"
      "run_command w (git_clone w url (packageFolder w (pkg_name p)) c) (pm_folders s) = (status, F)"
      "pm_commands s1 = pm_commands s @ [git_clone w url (packageFolder w (pkg_name p)) c]" "pm_folders s1 = F"
      "x \<noteq> Inr False" "x = Inr True \<Longrightarrow> status = 0 \<and> F (packageFolder w (pkg_name p)) = Some (Parsed (pm_package s1))"
proof (cases "isInstalled w p s")
  case True
  show thesis by (rule nothing) (use assms True in \<open>auto simp: fetch_package_def\<close>)
next
  case free: False
  show thesis
  proof (cases "ask_registry w p")
    case (Inl e)
    show thesis by (rule nothing) (use assms free Inl in \<open>auto simp: fetch_package_def bindP_def liftP_def\<close>)
  next
    case (Inr src)
    obtain url c where src: "src = (url, c)" by fastforce
    obtain status F where cmd: "run_command w (git_clone w url (packageFolder w (pkg_name p)) c) (pm_folders s) = (status, F)"
      by fastforce
    show thesis
    proof (rule clone [of url c status F])
      show "registry_offers w p url c" using Inr src by (simp add: ask_registry_iff)
    qed (use assms free Inr src cmd in
        \<open>auto simp: fetch_package_def bindP_def liftP_def clone_package_def execute_def read_manifest_def isInstalled_def
          split: if_splits option.splits toml_file.splits\<close>)
  qed
qed

lemma fetch_package_Some:
  assumes "fetch_package w p s = (s1, Inr True)"
  obtains url c F where
    "pm_folders s (packageFolder w (pkg_name p)) = None"
    "run_command w (git_clone w url (packageFolder w (pkg_name p)) c) (pm_folders s) = (0, F)"
    "F (packageFolder w (pkg_name p)) = Some (Parsed (pm_package s1))" "pm_folders s1 = F"
  using assms by (rule fetch_package_commands) (auto intro: that)

lemma fetch_package_None: "fetch_package w p s = (s1, Inr False) \<Longrightarrow> s1 = s \<and> isInstalled w p s"
  by (auto elim: fetch_package_commands)

abbreviation deep_stack :: failure where
  "deep_stack \<equiv> Undefined ''stack exhausted''"

lemma ask_registry_not_exhausted: "ask_registry w p \<noteq> Inl deep_stack"
proof -
  have info: "getPackageInfoFromRepo w n \<noteq> Inl deep_stack" for n
    by (auto simp: getPackageInfoFromRepo_def pm_error_def split: curl_answer.splits sum.splits)
  have get: "json_get j key \<noteq> Inl deep_stack" for j key
    by (cases "(j, key)" rule: json_get.cases) (auto simp: json_type_error_def)
  have str: "json_string j \<noteq> Inl deep_stack" for j
    by (cases j) (auto simp: json_type_error_def)
  have "choose_version p v \<noteq> Inl deep_stack" for v
    using str by (auto simp: choose_version_def res_simps pm_error_def split: json.splits if_splits)
  with info get str show ?thesis
    by (auto simp: ask_registry_def res_simps failed_install_def pm_error_def split: if_splits)
qed

lemma fetch_package_not_exhausted: "fetch_package w p s \<noteq> (s', Inl deep_stack)"
  using ask_registry_not_exhausted [of w p]
  by (auto simp: fetch_package_def pm_simps clone_package_def execute_def read_manifest_def failed_install_def pm_error_def
      split: if_splits prod.splits option.splits toml_file.splits)

lemma mapR_read_package_not_exhausted: "mapR read_package t \<noteq> Inl deep_stack"
proof -
  have "mapR nested_dependency ds \<noteq> Inl deep_stack" for ds
    by (induction ds) (auto simp: res_simps nested_dependency_def null_pointer_def split: option.splits toml.splits)
  then show ?thesis
    by (induction t) (auto simp: res_simps read_package_def Let_def split: option.splits toml.splits)
qed

section \<open>A run\<close>

text \<open>The contract of one call: what it adds is complete, and the manifest's own names are installed.\<close>

definition does_install :: "pm_world \<Rightarrow> int pm \<Rightarrow> bool" where
  "does_install w run \<longleftrightarrow> (\<forall>s r s'. run s = (s', Inr r) \<longrightarrow> r = 0 \<and> complete_since w (pm_folders s) (pm_folders s')
     \<and> (\<forall>n\<in>set (dependency_names (pm_package s)). packageFolder w n \<in> dom (pm_folders s')))"

lemma install_with_complete:
  assumes "clone_creates w" "does_install w run" "install_with run w p s = (s', Inr r)"
  shows "r = 0 \<and> complete_since w (pm_folders s) (pm_folders s') \<and> packageFolder w (pkg_name p) \<in> dom (pm_folders s')"
proof -
  let ?d = "packageFolder w (pkg_name p)"
  from assms(3) obtain s1 fetched where fetch: "fetch_package w p s = (s1, Inr fetched)"
    and rest: "(if \<not> fetched then liftP (Inr 0) else bindP run (\<lambda>result.
      liftP (if result \<noteq> 0 then Inl (failed_install p ''. See the output above'') else Inr 0))) s1 = (s', Inr r)"
    by (auto simp: install_with_def pm_simps)
  show ?thesis
  proof (cases fetched)
    case False
    with fetch rest fetch_package_None [of w p s s1] show ?thesis
      by (auto simp: complete_since_refl isInstalled_def pm_simps)
  next
    case True
    with fetch obtain url c F where free: "pm_folders s ?d = None"
      and cmd: "run_command w (git_clone w url ?d c) (pm_folders s) = (0, F)"
      and F: "F ?d = Some (Parsed (pm_package s1))" and s1: "pm_folders s1 = F"
      by (auto elim!: fetch_package_Some)
    let ?t = "pm_package s1"
    from assms(1) cmd obtain f where "F = (pm_folders s)(?d \<mapsto> f)"
      by (meson clone_creates_def)
    with F have F': "F = (pm_folders s)(?d \<mapsto> Parsed ?t)" by simp
    from True rest have run: "run s1 = (s', Inr 0)" and "r = 0"
      by (auto simp: pm_simps split: if_splits)
    with assms(2) s1 have rec: "complete_since w F (pm_folders s')"
      "\<forall>n\<in>set (dependency_names ?t). packageFolder w n \<in> dom (pm_folders s')"
      by (auto simp: does_install_def)
    then have le: "F \<subseteq>\<^sub>m pm_folders s'" by (simp add: complete_since_def)
    moreover have "pm_folders s \<subseteq>\<^sub>m F" using free F' by (auto simp: map_le_def)
    ultimately have "pm_folders s \<subseteq>\<^sub>m pm_folders s'" by (rule map_le_trans [rotated])
    moreover have "packageFolder w n \<in> dom (pm_folders s')"
      if "pm_folders s d = None" "pm_folders s' d = Some (Parsed u)" "n \<in> set (dependency_names u)" for d u n
    proof (cases "d = ?d")
      case True
      with F le that(2) have "u = ?t" by (metis domI map_le_def option.inject toml_file.inject)
      with rec(2) that(3) show ?thesis by simp
    next
      case False
      with that(1) F' have "F d = None" by simp
      with rec(1) that show ?thesis by (auto simp: complete_since_def)
    qed
    moreover have "?d \<in> dom (pm_folders s')" using F le by (metis domI map_le_def)
    ultimately show ?thesis using \<open>r = 0\<close> by (auto simp: complete_since_def)
  qed
qed

lemma install_all_complete:
  assumes "clone_creates w" "does_install w run"
  shows "install_all (install_with run w) ps s = (s', Inr u) \<Longrightarrow>
    complete_since w (pm_folders s) (pm_folders s') \<and>
    (\<forall>p\<in>set ps. packageFolder w (pkg_name p) \<in> dom (pm_folders s'))"
proof (induction ps arbitrary: s)
  case Nil
  then show ?case by (simp add: complete_since_refl pm_simps)
next
  case (Cons p ps)
  then obtain r s1 where one: "install_with run w p s = (s1, Inr r)"
    and rest: "install_all (install_with run w) ps s1 = (s', Inr u)"
    by (auto simp: pm_simps split: if_splits)
  note first = install_with_complete [OF assms one] and others = Cons.IH [OF rest]
  have "complete_since w (pm_folders s) (pm_folders s')"
    using first others complete_since_trans by blast
  moreover have "packageFolder w (pkg_name p) \<in> dom (pm_folders s')"
    using first others by (meson complete_since_le in_mono map_le_implies_dom_le)
  ultimately show ?case using others by simp
qed

text \<open>A run is the installation of what its manifest names.\<close>

lemma runAsMain_cases:
  assumes "runAsMain (Suc k) w s = (s', x)"
  obtains (none) "dependency_names (pm_package s) = []" "s' = s" "x = Inr 0"
  | (unreadable) e where "x = Inl e" "s' = s" "e \<noteq> deep_stack"
  | (all) ps y where "pkg_name ` set ps = set (dependency_names (pm_package s))"
      "install_all (install_with (runAsMain k w) w) ps s = (s', y)" "x = bindR y (\<lambda>_. Inr 0)"
proof (cases "\<exists>t. toml_get (pm_package s) ''dependencies'' = Some (TomlTable t)")
  case True
  then obtain t where t: "toml_get (pm_package s) ''dependencies'' = Some (TomlTable t)" ..
  show thesis
  proof (cases "mapR read_package t")
    case (Inl e)
    show thesis
      by (rule unreadable) (use assms t Inl mapR_read_package_not_exhausted [of t] in \<open>auto simp: bindP_def liftP_def\<close>)
  next
    case (Inr ps)
    obtain s1 y where y: "install_all (install_with (runAsMain k w) w) ps s = (s1, y)" by fastforce
    have "set (map pkg_name ps) = set (map fst t)" by (simp only: mapR_read_package [OF Inr])
    then have "pkg_name ` set ps = set (dependency_names (pm_package s))"
      using t by (simp add: dependency_names_def)
    then show thesis
      by (rule all [of ps y]) (use assms t Inr y in \<open>auto simp: bindP_def liftP_def bindR_def split: sum.splits\<close>)
  qed
next
  case False
  show thesis
    by (rule none) (use assms False in \<open>auto simp: dependency_names_def split: option.splits toml.splits\<close>)
qed

lemma runAsMain_does_install:
  assumes "clone_creates w"
  shows "does_install w (runAsMain k w)"
proof (induction k)
  case 0
  show ?case by (simp add: does_install_def)
next
  case (Suc k)
  have "r = 0 \<and> complete_since w (pm_folders s) (pm_folders s') \<and>
      (\<forall>n\<in>set (dependency_names (pm_package s)). packageFolder w n \<in> dom (pm_folders s'))"
    if "runAsMain (Suc k) w s = (s', Inr r)" for s r s'
    using that
  proof (cases rule: runAsMain_cases)
    case (all ps y)
    then obtain u where "y = Inr u" "r = 0" by (cases y) auto
    with all install_all_complete [OF assms Suc, of ps s s' u] show ?thesis by (metis image_iff)
  qed (simp_all add: complete_since_refl)
  then show ?case by (simp add: does_install_def)
qed

text \<open>The depth: every nested run has one more of the names installed.\<close>

lemma install_all_returns:
  assumes "clone_creates w" "does_install w run" "finite U"
    and run: "\<And>s. missing w U (pm_folders s) < m \<Longrightarrow> set (dependency_names (pm_package s)) \<subseteq> U \<Longrightarrow>
      snd (run s) \<noteq> Inl deep_stack"
    and within: "manifests_within w U"
  shows "missing w U (pm_folders s) \<le> m \<Longrightarrow> pkg_name ` set ps \<subseteq> U \<Longrightarrow>
    snd (install_all (install_with run w) ps s) \<noteq> Inl deep_stack"
proof (induction ps arbitrary: s)
  case (Cons p ps)
  let ?d = "packageFolder w (pkg_name p)"
  have one: "install_with run w p s \<noteq> (s', Inl deep_stack)" for s'
  proof
    assume *: "install_with run w p s = (s', Inl deep_stack)"
    then obtain s1 where fetch: "fetch_package w p s = (s1, Inr True)" and deep: "run s1 = (s', Inl deep_stack)"
      using fetch_package_not_exhausted [of w p s s']
      by (auto simp: install_with_def pm_simps failed_install_def pm_error_def split: if_splits)
    from fetch obtain url c F where free: "pm_folders s ?d = None"
      and cmd: "run_command w (git_clone w url ?d c) (pm_folders s) = (0, F)"
      and F: "F ?d = Some (Parsed (pm_package s1))" and s1: "pm_folders s1 = F"
      by (auto elim!: fetch_package_Some)
    from assms(1) cmd obtain f where F': "F = (pm_folders s)(?d \<mapsto> f)" by (meson clone_creates_def)
    have "{n \<in> U. packageFolder w n \<notin> dom F} \<subset> {n \<in> U. packageFolder w n \<notin> dom (pm_folders s)}"
      using free Cons.prems(2) F' by (auto simp: domIff)
    then have "missing w U F < missing w U (pm_folders s)"
      unfolding missing_def using \<open>finite U\<close> by (intro psubset_card_mono) auto
    moreover have "set (dependency_names (pm_package s1)) \<subseteq> U"
      using within cmd F by (auto simp: manifests_within_def)
    ultimately show False using run [of s1] s1 Cons.prems(1) deep by simp
  qed
  show ?case
  proof
    assume "snd (install_all (install_with run w) (p # ps) s) = Inl deep_stack"
    then obtain s' where "install_all (install_with run w) (p # ps) s = (s', Inl deep_stack)"
      by (metis prod.collapse)
    with one obtain r s1 where first: "install_with run w p s = (s1, Inr r)"
      and deep: "install_all (install_with run w) ps s1 = (s', Inl deep_stack)"
      by (auto simp: pm_simps pm_error_def split: if_splits)
    from install_with_complete [OF assms(1,2) first] have "pm_folders s \<subseteq>\<^sub>m pm_folders s1"
      by (auto simp: complete_since_def)
    from missing_mono [OF \<open>finite U\<close> this] Cons.prems have "missing w U (pm_folders s1) \<le> m"
      by (meson le_trans)
    with Cons.IH [of s1] Cons.prems deep show False by simp
  qed
qed (simp add: liftP_def)

lemma runAsMain_returns:
  assumes "clone_creates w" "manifests_within w U" "finite U"
  shows "missing w U (pm_folders s) < k \<Longrightarrow> set (dependency_names (pm_package s)) \<subseteq> U \<Longrightarrow>
    snd (runAsMain k w s) \<noteq> Inl deep_stack"
proof (induction k arbitrary: s)
  case (Suc k)
  obtain s' x where run: "runAsMain (Suc k) w s = (s', x)" by fastforce
  then show ?case
  proof (cases rule: runAsMain_cases)
    case (all ps y)
    have "snd (install_all (install_with (runAsMain k w) w) ps s) \<noteq> Inl deep_stack"
      by (rule install_all_returns [OF assms(1) runAsMain_does_install [OF assms(1)] \<open>finite U\<close> Suc.IH assms(2)])
        (use Suc.prems all(1) in auto)
    with all run show ?thesis by (cases y) auto
  qed (use run in auto)
qed simp

section \<open>The commands of a run\<close>

text \<open>A clone: the package, the address and the version.\<close>

type_synonym clone = "Package \<times> string \<times> string"

definition clone_folder :: "pm_world \<Rightarrow> clone \<Rightarrow> string" where
  "clone_folder w cl = packageFolder w (pkg_name (fst cl))"

definition clone_command :: "pm_world \<Rightarrow> clone \<Rightarrow> string list" where
  "clone_command w cl = git_clone w (fst (snd cl)) (clone_folder w cl) (snd (snd cl))"

definition clones_since :: "pm_world \<Rightarrow> clone list \<Rightarrow> pm_state \<Rightarrow> pm_state \<Rightarrow> bool" where
  "clones_since w cls s s' \<longleftrightarrow> pm_commands s' = pm_commands s @ map (clone_command w) cls
     \<and> distinct (map (clone_folder w) cls)
     \<and> set (map (clone_folder w) cls) \<inter> dom (pm_folders s) = {}
     \<and> list_all (\<lambda>(p, url, c). registry_offers w p url c) cls"

text \<open>Every step of a run clones only; when it returns, it has added just the folders of the clones.\<close>

definition only_clones :: "pm_world \<Rightarrow> 'a pm \<Rightarrow> bool" where
  "only_clones w m \<longleftrightarrow> (\<forall>s s' x. m s = (s', x) \<longrightarrow> (\<exists>cls. clones_since w cls s s'
     \<and> (\<forall>r. x = Inr r \<longrightarrow> dom (pm_folders s') = dom (pm_folders s) \<union> set (map (clone_folder w) cls))))"

lemma only_clonesD:
  assumes "only_clones w m" "m s = (s', x)"
  obtains cls where "clones_since w cls s s'"
    "\<And>r. x = Inr r \<Longrightarrow> dom (pm_folders s') = dom (pm_folders s) \<union> set (map (clone_folder w) cls)"
  using assms unfolding only_clones_def by metis

lemma clones_since_refl: "clones_since w [] s s"
  by (simp add: clones_since_def)

lemma clones_since_trans:
  assumes "clones_since w cls s t" "dom (pm_folders t) = dom (pm_folders s) \<union> set (map (clone_folder w) cls)"
    "clones_since w cls' t u"
  shows "clones_since w (cls @ cls') s u"
  using assms by (auto simp: clones_since_def)

lemma only_clones_lift: "only_clones w (liftP m)"
  unfolding only_clones_def liftP_eq using clones_since_refl by fastforce

lemma only_clones_bind:
  assumes "only_clones w m" "\<And>x. only_clones w (f x)"
  shows "only_clones w (bindP m f)"
  unfolding only_clones_def
proof (intro allI impI)
  fix s s' x
  assume run: "bindP m f s = (s', x)"
  obtain t y where t: "m s = (t, y)" by fastforce
  from only_clonesD [OF assms(1) t] obtain cls where cls: "clones_since w cls s t"
    "\<And>r. y = Inr r \<Longrightarrow> dom (pm_folders t) = dom (pm_folders s) \<union> set (map (clone_folder w) cls)"
    by metis
  show "\<exists>cls. clones_since w cls s s' \<and>
      (\<forall>r. x = Inr r \<longrightarrow> dom (pm_folders s') = dom (pm_folders s) \<union> set (map (clone_folder w) cls))"
  proof (cases y)
    case (Inl e)
    with run t cls show ?thesis by (auto simp: bindP_def)
  next
    case (Inr z)
    with run t have "f z t = (s', x)" by (simp add: bindP_def)
    from only_clonesD [OF assms(2) this] obtain cls' where "clones_since w cls' t s'"
      "\<And>r. x = Inr r \<Longrightarrow> dom (pm_folders s') = dom (pm_folders t) \<union> set (map (clone_folder w) cls')"
      by metis
    with cls Inr clones_since_trans [of w cls s t cls' s'] show ?thesis
      by (intro exI [of _ "cls @ cls'"]) auto
  qed
qed

lemma only_clones_fetch:
  assumes "clone_creates w"
  shows "only_clones w (fetch_package w p)"
  unfolding only_clones_def
proof (intro allI impI)
  fix s s' x
  assume "fetch_package w p s = (s', x)"
  then show "\<exists>cls. clones_since w cls s s' \<and>
      (\<forall>r. x = Inr r \<longrightarrow> dom (pm_folders s') = dom (pm_folders s) \<union> set (map (clone_folder w) cls))"
  proof (cases rule: fetch_package_commands)
    case nothing
    then show ?thesis by (intro exI [of _ "[]"]) (auto simp: clones_since_def)
  next
    case (clone url c status F)
    have "dom (pm_folders s') = dom (pm_folders s) \<union> set (map (clone_folder w) [(p, url, c)])" if "x = Inr r" for r
    proof -
      from that clone(6,7) have "status = 0" by (cases r) auto
      with clone assms obtain f where "F = (pm_folders s)(packageFolder w (pkg_name p) \<mapsto> f)"
        by (meson clone_creates_def)
      with clone(5) show ?thesis by (auto simp: clone_folder_def)
    qed
    with clone show ?thesis
      by (intro exI [of _ "[(p, url, c)]"]) (auto simp: clones_since_def clone_command_def clone_folder_def)
  qed
qed

lemma install_with_clones:
  assumes "clone_creates w" "only_clones w run"
  shows "only_clones w (install_with run w p)"
  unfolding install_with_def
  by (intro only_clones_bind only_clones_fetch assms) (auto intro!: only_clones_bind only_clones_lift assms)

lemma install_all_clones:
  "(\<And>p. only_clones w (inst p)) \<Longrightarrow> only_clones w (install_all inst ps)"
  by (induction ps) (auto intro!: only_clones_bind only_clones_lift)

lemma runAsMain_only_clones:
  assumes "clone_creates w"
  shows "only_clones w (runAsMain k w)"
proof (induction k)
  case 0
  show ?case using only_clones_lift [of w "Inl deep_stack"] by (simp add: only_clones_def liftP_def)
next
  case (Suc k)
  show ?case
    unfolding only_clones_def
  proof (intro allI impI)
    fix s s' x
    assume "runAsMain (Suc k) w s = (s', x)"
    then show "\<exists>cls. clones_since w cls s s' \<and>
      (\<forall>r. x = Inr r \<longrightarrow> dom (pm_folders s') = dom (pm_folders s) \<union> set (map (clone_folder w) cls))"
    proof (cases rule: runAsMain_cases)
      case (all ps y)
      have "only_clones w (install_all (install_with (runAsMain k w) w) ps)"
        by (intro install_all_clones install_with_clones assms Suc)
      from only_clonesD [OF this all(2)] obtain cls where "clones_since w cls s s'"
        "\<And>r. y = Inr r \<Longrightarrow> dom (pm_folders s') = dom (pm_folders s) \<union> set (map (clone_folder w) cls)"
        by metis
      with all(3) show ?thesis by (cases y) auto
    qed (use clones_since_refl in fastforce)+
  qed
qed

section \<open>Properties\<close>

text \<open>
  C26. Liveness of the package manager, where \<^verbatim>\<open>git clone\<close> creates the folder it is asked for and all
  names in the manifests come from one finite set: a run ends at a depth bounded by the number of
  those names, whatever cycles there are between the packages. If at the start the packages that are
  installed have what they need (a failed run can leave a package for which this does not hold),
  then, unless a step fails, every package that the project needs, directly or through the
  manifests of installed packages, is installed in the end, and nothing installed before is lost.
\<close>

theorem dependencies_get_installed:
  assumes "clone_creates w" and "manifests_within w U" and "finite U"
    and "set (dependency_names (pm_package s)) \<subseteq> U" and "card U < k" and "all_installed w (pm_folders s)"
  shows "(\<exists>s' e. runAsMain k w s = (s', Inl e) \<and> e \<noteq> Undefined ''stack exhausted'') \<or>
    (\<exists>s'. runAsMain k w s = (s', Inr 0) \<and> pm_folders s \<subseteq>\<^sub>m pm_folders s' \<and>
      (needs w (pm_folders s'))\<^sup>* `` packageFolder w ` set (dependency_names (pm_package s)) \<subseteq> dom (pm_folders s'))"
proof -
  obtain s' x where run: "runAsMain k w s = (s', x)" by fastforce
  show ?thesis
  proof (cases x)
    case (Inl e)
    have "missing w U (pm_folders s) \<le> card U"
      unfolding missing_def using assms(3) by (intro card_mono) auto
    with runAsMain_returns [OF assms(1-3), of s k] assms(4,5) Inl run show ?thesis by auto
  next
    case (Inr r)
    with run runAsMain_does_install [OF assms(1), of k] have r: "r = 0"
      and complete: "complete_since w (pm_folders s) (pm_folders s')"
      and roots: "\<forall>n\<in>set (dependency_names (pm_package s)). packageFolder w n \<in> dom (pm_folders s')"
      by (auto simp: does_install_def)
    from settled_complete [OF assms(6) complete] have range: "Range (needs w (pm_folders s')) \<subseteq> dom (pm_folders s')"
      by (simp add: all_installed_def)
    have "d \<in> dom (pm_folders s')" if "(packageFolder w n, d) \<in> (needs w (pm_folders s'))\<^sup>*"
        "n \<in> set (dependency_names (pm_package s))" for n d
      using that(1) by (cases rule: rtranclE) (use roots that(2) range in auto)
    with Inr run r complete show ?thesis by (auto simp: complete_since_def)
  qed
qed


text \<open>
  An installation that fails after the clone is taken for a success by the next run: when the
  cloned repository has no \<^verbatim>\<open>sn.toml\<close>, the run fails, but it leaves the folder, and any later attempt
  to install the package (whatever its version) returns success without a further step.
\<close>

theorem failed_install_is_remembered:
  assumes "\<not> isInstalled w p s" and "registry_offers w p url c"
    and "run_command w (git_clone w url (packageFolder w (pkg_name p)) c) (pm_folders s)
           = (0, (pm_folders s)(packageFolder w (pkg_name p) \<mapsto> NoFile))"
  shows "\<exists>s2. install_package k w p s = (s2, Inl (failed_install p ''. No sn.toml found in package''))
    \<and> install_package k w (Package (pkg_name p) version ds) s2 = (s2, Inr 0)"
  using assms
  by (simp add: install_package_def install_with_def fetch_package_def isInstalled_def clone_package_def bindP_def
      liftP_def ask_registry_iff [symmetric] execute_def read_manifest_def failed_install_def)

section \<open>Two packages that need each other\<close>

text \<open>A registry of packages \<^verbatim>\<open>a\<close>, \<^verbatim>\<open>b\<close> and \<^verbatim>\<open>c\<close>; the first two need each other, the last one has no manifest.\<close>

definition sample_manifest :: "string \<Rightarrow> toml" where
  "sample_manifest name = TomlTable [(''dependencies'', TomlTable [(name, TomlTable [(''version'', TomlString ''1'')])])]"

definition sample_clone :: "string list \<Rightarrow> folders \<Rightarrow> int \<times> folders" where
  "sample_clone cmd F = (0, F(cmd ! 5 \<mapsto> (if cmd ! 4 = ''a'' then Parsed (sample_manifest ''b'')
     else if cmd ! 4 = ''b'' then Parsed (sample_manifest ''a'') else NoFile)))"

definition sample_world :: pm_world where
  "sample_world = \<lparr>pm_configFolder = ''/p/.sn'', git_path = None,
     curl = (\<lambda>url. CurlAnswer 200 url),
     json_parse = (\<lambda>body. Inr (JsonObject
       [(''download_url'', JsonString (if body = PACKAGE_REGISTRY @ ''a.json'' then ''a''
           else if body = PACKAGE_REGISTRY @ ''b.json'' then ''b'' else ''c'')),
        (''versions'', JsonArray [JsonString ''1'', JsonString ''2''])])),
     run_command = sample_clone\<rparr>"

definition sample_project :: pm_state where
  "sample_project = \<lparr>pm_package = sample_manifest ''a'', pm_folders = (\<lambda>_. None), pm_commands = []\<rparr>"

lemma sample_clone_creates: "clone_creates sample_world"
  by (auto simp: clone_creates_def sample_world_def sample_clone_def git_clone_def eval_nat_numeral)

lemma sample_within: "manifests_within sample_world {''a'', ''b''}"
  by (auto simp: manifests_within_def sample_world_def sample_clone_def git_clone_def eval_nat_numeral
      dependency_names_def sample_manifest_def split: if_splits)

lemma sample_names: "set (dependency_names (pm_package sample_project)) = {''a''}"
  by (simp add: sample_project_def sample_manifest_def dependency_names_def)

lemma sample_settled: "all_installed sample_world (pm_folders sample_project)"
  by (simp add: all_installed_def needs_def sample_project_def)

lemma sample_run: "\<exists>s'. runAsMain 3 sample_world sample_project = (s', Inr 0)"
proof -
  have "snd (runAsMain 3 sample_world sample_project) = Inr 0"
    by code_simp
  then show ?thesis by (metis prod.collapse)
qed

theorem dependencies_get_installed_witness:
  "\<exists>s'. runAsMain 3 sample_world sample_project = (s', Inr 0) \<and>
     (needs sample_world (pm_folders s'))\<^sup>* `` {packageFolder sample_world ''a''} \<subseteq> dom (pm_folders s')"
proof -
  from sample_run obtain s' where s': "runAsMain 3 sample_world sample_project = (s', Inr 0)" ..
  have "card {''a'', ''b''} < (3 :: nat)" by simp
  with dependencies_get_installed [OF sample_clone_creates sample_within, of sample_project 3]
    sample_settled sample_names s' show ?thesis by auto
qed


theorem failed_install_is_remembered_witness:
  "\<exists>s2. install_package 9 sample_world (Package ''c'' ''1'' []) sample_project
     = (s2, Inl (failed_install (Package ''c'' ''1'' []) ''. No sn.toml found in package''))
   \<and> install_package 9 sample_world (Package ''c'' ''2'' []) s2 = (s2, Inr 0)"
proof -
  have "map_of [(''download_url'', x), (''versions'', JsonArray [JsonString ''1'', JsonString ''2''])] ''versions''
      = Some (JsonArray [JsonString ''1'', JsonString ''2''])" for x
    by simp
  then have "registry_offers sample_world (Package ''c'' ''1'' []) ''c'' ''1''"
    by (simp add: registry_offers_def sample_world_def version_listed_simps)
  moreover have "run_command sample_world (git_clone sample_world ''c'' (packageFolder sample_world ''c'') ''1'') (pm_folders sample_project)
      = (0, (pm_folders sample_project)(packageFolder sample_world ''c'' \<mapsto> NoFile))"
    by (simp add: sample_world_def sample_clone_def git_clone_def eval_nat_numeral)
  moreover have "\<not> isInstalled sample_world (Package ''c'' ''1'' []) sample_project"
    by (simp add: isInstalled_def sample_project_def)
  ultimately show ?thesis
    using failed_install_is_remembered [of sample_world "Package ''c'' ''1'' []" sample_project "''c''" "''1''" 9 "''2''" "[]"]
    by simp
qed

end
