(* ===== verification/Context.thy ===== *)
theory Context
  imports Strings Ir
begin

text \<open>
  The context the transformer works in: the stack of scopes (\<^verbatim>\<open>src/ast/visitor/ASTContext.h\<close>),
  the items on it (\<^verbatim>\<open>src/visitors/TransformItem.h\<close>, \<^verbatim>\<open>MacroInstance.h\<close>), saved states
  (\<^verbatim>\<open>TransformState.h\<close>) and \<^verbatim>\<open>TransformContext.{h,cc}\<close> with \<^verbatim>\<open>createIdentifierName.cc\<close>.

  Objects that are shared are named: functions, variables and macro instances by number, class
  objects by their location in the heap of \<open>Types\<close>, modules by their unique name. A saved state
  is a value, since no code changes one that is shared. The builder's module is always the
  context's module and is not kept twice. \<open>typeInfo\<close> holds the \<^verbatim>\<open>typeInformation\<close> of the modules.
\<close>

section \<open>Items and saved states\<close>

datatype Item =
    ItemType ty
  | ItemFunc "nat list"
  | ItemValue ir_value
  | ItemModule ir_module
  | ItemMacro nat
  | ItemAlias node

record macro_instance =
  mi_macro :: node
  mi_module :: ir_module
  mi_stack :: "(string \<times> node \<times> nat option \<times> ArguementType) list"

type_synonym scope = "string \<Rightarrow> Item option"

definition empty_scope :: scope where
  "empty_scope = (\<lambda>_. None)"

record ctx_state =
  s_stack :: "scope list"
  s_module :: ir_module
  s_uuidStack :: "string list"
  s_currentClass :: "ty option"

record function_store =
  fs_function :: node
  fs_state :: ctx_state

text \<open>
  A definition of a type: the node as it was parsed, its state, and what extensions have added to the
  node since - functions, each with the context state it was given, and interfaces.
\<close>

record type_store =
  ts_type :: node
  ts_state :: ctx_state
  ts_methods :: "(node \<times> ctx_state) list"
  ts_impls :: "node list"

text \<open>\<^verbatim>\<open>Cache\<close>; the two maps that code iterates over are lists in the order of their keys.\<close>

record cache =
  cachedFunctions :: "(string \<times> function_store list) list"
  createdFunctions :: "(string \<times> nat list) list"
  functionStates :: "nat \<Rightarrow> ctx_state option"
  cachedTypes :: "string \<Rightarrow> type_store option"
  createdTypes :: "string \<Rightarrow> Item option"
  identifierLookup :: "string \<Rightarrow> string list option"
  cachedModules :: "string \<Rightarrow> ir_module option"

definition empty_cache :: cache where
  "empty_cache = \<lparr>cachedFunctions = [], createdFunctions = [], functionStates = (\<lambda>_. None), cachedTypes = (\<lambda>_. None),
     createdTypes = (\<lambda>_. None), identifierLookup = (\<lambda>_. None), cachedModules = (\<lambda>_. None)\<rparr>"

text \<open>
  The context. The stack has the innermost scope first; the last scope is the one \<^verbatim>\<open>ASTContext\<close>
  creates for the global names. \<open>objects\<close> is the heap of class objects, \<open>funcs\<close> and \<open>vars\<close> hold the
  functions and variables by number, \<open>moduleFunctions\<close> and \<open>moduleVariables\<close> what has been added to a
  module, \<open>argDefaults\<close> the default value of an argument, \<open>llvmBodies\<close> the body of an LLVM function.
  \<open>refTypes\<close> are the type objects that references point to, by address, each with whether it is marked
  as type checked; \<open>aliasPrivacy\<close> is the privacy of a type alias, by its number;
  \<open>voidImpls\<close> are the interfaces that the type object of the name \<^verbatim>\<open>void\<close> has been given. \<open>last_value\<close> is the transformer's member \<^verbatim>\<open>value\<close>.
\<close>

datatype LLVMIRChunk = LLCode string | TypeAccess ty

record tctx =
  stack :: "scope list"
  cur_module :: ir_module
  uuidStack :: "string list"
  currentClass :: "ty option"
  actuallCurrentClass :: "ty option"
  currentFunction :: "nat option"
  generateFunction :: bool
  testMode :: bool
  benchMode :: bool
  isMainModule :: bool
  exported :: "string list"
  macroBacktrace :: "nat list"
  macroDepth :: int
  latestCall :: "node option"
  last_value :: "ir_value option"
  ctx_cache :: cache
  allModules :: "ir_module list"
  objects :: type_heap
  funcs :: "nat \<Rightarrow> ir_func option"
  vars :: "nat \<Rightarrow> ir_var option"
  macros :: "macro_instance list"
  moduleFunctions :: "string \<Rightarrow> nat list"
  moduleVariables :: "string \<Rightarrow> nat list"
  argDefaults :: "nat \<Rightarrow> node option"
  llvmBodies :: "nat \<Rightarrow> LLVMIRChunk list option"
  refTypes :: "(ty \<times> bool) list"
  aliasPrivacy :: "nat \<Rightarrow> Privacy"
  voidImpls :: "ty list"
  importedModules :: "string \<Rightarrow> ir_module option"
  currentPackagePath :: string
  exportedMacros :: "string \<Rightarrow> (string \<times> nat) list"
  coreInterfaces :: "string \<Rightarrow> ty option"
  typeInfo :: "string \<Rightarrow> nat \<Rightarrow> ty option"

section \<open>Computations on the context\<close>

type_synonym 'a tr = "tctx \<Rightarrow> ('a \<times> tctx) res"

definition returnC :: "'a \<Rightarrow> 'a tr" where
  "returnC a = (\<lambda>c. Inr (a, c))"

definition bindC :: "'a tr \<Rightarrow> ('a \<Rightarrow> 'b tr) \<Rightarrow> 'b tr" where
  "bindC m f = (\<lambda>c. bindR (m c) (\<lambda>(a, c'). f a c'))"

definition failC :: "failure \<Rightarrow> 'a tr" where
  "failC e = (\<lambda>c. Inl e)"

definition errorC :: "Error \<Rightarrow> string \<Rightarrow> 'a tr" where
  "errorC code msg = failC (CompilerError code msg)"

definition getC :: "(tctx \<Rightarrow> 'a) \<Rightarrow> 'a tr" where
  "getC f = (\<lambda>c. Inr (f c, c))"

definition modifyC :: "(tctx \<Rightarrow> tctx) \<Rightarrow> unit tr" where
  "modifyC f = (\<lambda>c. Inr ((), f c))"

definition liftC :: "'a res \<Rightarrow> 'a tr" where
  "liftC r = (\<lambda>c. bindR r (\<lambda>a. Inr (a, c)))"

definition whenC :: "bool \<Rightarrow> unit tr \<Rightarrow> unit tr" where
  "whenC b m = (if b then m else returnC ())"

primrec forC :: "('a \<Rightarrow> unit tr) \<Rightarrow> 'a list \<Rightarrow> unit tr" where
  "forC f [] = returnC ()"
| "forC f (x # xs) = bindC (f x) (\<lambda>_. forC f xs)"

primrec mapC :: "('a \<Rightarrow> 'b tr) \<Rightarrow> 'a list \<Rightarrow> 'b list tr" where
  "mapC f [] = returnC []"
| "mapC f (x # xs) = bindC (f x) (\<lambda>y. bindC (mapC f xs) (\<lambda>ys. returnC (y # ys)))"

lemmas tr_defs = returnC_def bindC_def failC_def errorC_def getC_def modifyC_def liftC_def whenC_def

section \<open>The stack of scopes\<close>

text \<open>\<^verbatim>\<open>front\<close>, \<^verbatim>\<open>back\<close> and \<^verbatim>\<open>pop\<close> of an empty list are undefined.\<close>

definition empty_stack :: failure where
  "empty_stack = Undefined ''empty stack''"

definition getInScope :: "string \<Rightarrow> scope \<Rightarrow> Item option" where
  "getInScope name s = s name"

fun search_scopes :: "string \<Rightarrow> scope list \<Rightarrow> Item option" where
  "search_scopes name [] = None"
| "search_scopes name (s # ss) =
     (case getInScope name s of Some i \<Rightarrow> Some i | None \<Rightarrow> search_scopes name ss)"

definition getItem :: "string \<Rightarrow> Item option tr" where
  "getItem name = getC (\<lambda>c. search_scopes name (stack c))"

definition currentScope :: "scope tr" where
  "currentScope = (\<lambda>c. case stack c of [] \<Rightarrow> Inl empty_stack | s # _ \<Rightarrow> Inr (s, c))"

definition getInCurrentScope :: "string \<Rightarrow> Item option tr" where
  "getInCurrentScope name = bindC currentScope (\<lambda>s. returnC (getInScope name s))"

definition addItem :: "string \<Rightarrow> Item \<Rightarrow> unit tr" where
  "addItem name i = (\<lambda>c. case stack c of
       [] \<Rightarrow> Inl empty_stack
     | s # ss \<Rightarrow>
         if s name \<noteq> None then Inl (CompilerError BUG (''Item '' @ quoted name @ '' is already defined!''))
         else Inr ((), c\<lparr>stack := s(name \<mapsto> i) # ss\<rparr>))"

definition addScope :: "unit tr" where
  "addScope = modifyC (\<lambda>c. c\<lparr>stack := empty_scope # stack c\<rparr>)"

definition delScope :: "unit tr" where
  "delScope = (\<lambda>c. case stack c of [] \<Rightarrow> Inl empty_stack | _ # ss \<Rightarrow> Inr ((), c\<lparr>stack := ss\<rparr>))"

definition withScopeC :: "'a tr \<Rightarrow> 'a tr" where
  "withScopeC m = bindC addScope (\<lambda>_. bindC m (\<lambda>a. bindC delScope (\<lambda>_. returnC a)))"

definition isGlobalScope :: "tctx \<Rightarrow> bool" where
  "isGlobalScope c \<longleftrightarrow> length (stack c) = 2"

definition getScopeIndex :: "tctx \<Rightarrow> int" where
  "getScopeIndex c = int (length (stack c)) - 1"

section \<open>Saved states\<close>

definition saveState :: "ctx_state tr" where
  "saveState = (\<lambda>c. if stack c = [] then Inl empty_stack
     else Inr (\<lparr>s_stack = butlast (stack c), s_module = cur_module c, s_uuidStack = uuidStack c,
       s_currentClass = currentClass c\<rparr>, c))"

definition setState :: "ctx_state \<Rightarrow> unit tr" where
  "setState s = (\<lambda>c. if stack c = [] then Inl empty_stack
     else Inr ((), c\<lparr>stack := s_stack s @ [last (stack c)], cur_module := s_module s,
       uuidStack := s_uuidStack s, currentClass := s_currentClass s\<rparr>))"

definition withStateC :: "ctx_state \<Rightarrow> 'a tr \<Rightarrow> 'a tr" where
  "withStateC s cb = bindC saveState (\<lambda>saved. bindC (setState s) (\<lambda>_. bindC cb (\<lambda>a.
     bindC (setState saved) (\<lambda>_. returnC a))))"

section \<open>Names and functions\<close>

definition INT_IMPL :: string where "INT_IMPL = ''$integer-impl''"
definition FUNC_IMPL :: string where "FUNC_IMPL = ''$function-impl''"

definition isMain :: "ir_module \<Rightarrow> bool" where
  "isMain m \<longleftrightarrow> uniqueName m = ''$main''"

definition getCurrentClass :: "bool \<Rightarrow> tctx \<Rightarrow> ty option" where
  "getCurrentClass actual c =
     (if actual then (case actuallCurrentClass c of None \<Rightarrow> currentClass c | Some t \<Rightarrow> Some t) else currentClass c)"

definition setCurrentClass :: "ty option \<Rightarrow> unit tr" where
  "setCurrentClass t = modifyC (\<lambda>c. c\<lparr>currentClass := t\<rparr>)"

text \<open>\<^verbatim>\<open>BaseType::getUUID\<close>, \<open>None\<close> for the other types.\<close>

fun base_uuid :: "ty \<Rightarrow> string option" where
  "base_uuid (TypeAliasTy _ i _ _) = Some (uuid i)"
| "base_uuid (EnumTy _ i _ _) = Some (uuid i)"
| "base_uuid (DefinedTy _ i _ _) = Some (uuid i)"
| "base_uuid (InterfaceTy _ i _ _) = Some (uuid i)"
| "base_uuid _ = None"

fun is_primitive :: "ty \<Rightarrow> bool" where
  "is_primitive (VoidTy _) = True"
| "is_primitive (FloatTy _ _) = True"
| "is_primitive (IntTy _ _ _) = True"
| "is_primitive _ = False"

definition createIdentifierName :: "string \<Rightarrow> bool \<Rightarrow> string tr" where
  "createIdentifierName name includeBase =
     (if name \<in> {CONST_PTR, MUT_PTR, INT_IMPL, FUNC_IMPL} then returnC name
      else (\<lambda>c.
        let in_module = Inr (uniqueName (cur_module c) @ ''.'' @ name, c)
        in if \<not> includeBase then in_module
           else case currentClass c of
               None \<Rightarrow> in_module
             | Some t \<Rightarrow>
                 (case base_uuid t of
                    Some u \<Rightarrow> Inr (u @ ''.'' @ name, c)
                  | None \<Rightarrow>
                      if is_primitive t then Inr (getName t @ ''.'' @ name, c)
                      else case t of PointerTy _ _ \<Rightarrow> Inr (getName t, c) | _ \<Rightarrow> Inl AssertFail)))"

definition getCurrentMacro :: "tctx \<Rightarrow> nat option" where
  "getCurrentMacro c = (if macroBacktrace c = [] then None else Some (last (macroBacktrace c)))"

definition getFirstMacro :: "tctx \<Rightarrow> nat option" where
  "getFirstMacro c = (case macroBacktrace c of [] \<Rightarrow> None | m # _ \<Rightarrow> Some m)"

definition getNameWithBase :: "string \<Rightarrow> tctx \<Rightarrow> string" where
  "getNameWithBase name c = (if isMain (cur_module c) then name else mod_name (cur_module c) @ ''::'' @ name)"

definition isInModuleContext :: "ir_module \<Rightarrow> tctx \<Rightarrow> bool" where
  "isInModuleContext m c \<longleftrightarrow> uniqueName (cur_module c) = uniqueName m"

text \<open>\<^verbatim>\<open>isInClassContext\<close>: classes are compared up to the number of the instance, after a colon.\<close>

definition before_colon :: "string \<Rightarrow> string" where
  "before_colon s = (case find_sub '':'' s of None \<Rightarrow> s | Some i \<Rightarrow> take i s)"

definition isInClassContext :: "ty \<Rightarrow> tctx \<Rightarrow> bool" where
  "isInClassContext t c =
     (case currentClass c of
        None \<Rightarrow> False
      | Some cls \<Rightarrow>
          (case (t, cls) of
             (DefinedTy _ i _ _, DefinedTy _ j _ _) \<Rightarrow> before_colon (uuid j) = before_colon (uuid i)
           | _ \<Rightarrow> is_ty cls t))"

section \<open>The first context\<close>

text \<open>\<^verbatim>\<open>ASTContext\<close> starts with one scope, \<^verbatim>\<open>TransformContext\<close> with the names of the core in it.\<close>

definition empty_context :: "ir_module \<Rightarrow> bool \<Rightarrow> bool \<Rightarrow> tctx" where
  "empty_context m tests benchmarks =
     \<lparr>stack = [empty_scope], cur_module = m, uuidStack = [], currentClass = None, actuallCurrentClass = None,
      currentFunction = None, generateFunction = False, testMode = tests, benchMode = benchmarks,
      isMainModule = True, exported = [], macroBacktrace = [], macroDepth = 0, latestCall = None, last_value = None,
      ctx_cache = empty_cache,
      allModules = [], objects = empty_heap, funcs = (\<lambda>_. None), vars = (\<lambda>_. None), macros = [],
      moduleFunctions = (\<lambda>_. []), moduleVariables = (\<lambda>_. []),
      argDefaults = (\<lambda>_. None), llvmBodies = (\<lambda>_. None), refTypes = [], aliasPrivacy = (\<lambda>_. PRIVATE), voidImpls = [], importedModules = (\<lambda>_. None),
      currentPackagePath = [], exportedMacros = (\<lambda>_. []), coreInterfaces = (\<lambda>_. None),
      typeInfo = (\<lambda>_ _. None)\<rparr>"

definition core_module :: ir_module where
  "core_module = new_Module ''Std'' CORE_UUID"

definition add_core_interface :: "string \<Rightarrow> unit tr" where
  "add_core_interface builtin =
     bindC (\<lambda>c. let (t, h) = new_InterfaceType builtin (CORE_UUID @ builtin) core_module [] [] (objects c)
                in Inr (t, c\<lparr>objects := h\<rparr>)) (\<lambda>t.
     bindC (addItem builtin (ItemType t)) (\<lambda>_.
     modifyC (\<lambda>c. c\<lparr>coreInterfaces := (coreInterfaces c)(builtin \<mapsto> t)\<rparr>)))"

definition new_TransformContext :: "ir_module \<Rightarrow> bool \<Rightarrow> bool \<Rightarrow> tctx res" where
  "new_TransformContext m tests benchmarks =
     bindR ((bindC (addItem ''void'' (ItemType (VoidTy False))) (\<lambda>_.
             bindC (addItem ''Std'' (ItemModule core_module)) (\<lambda>_.
             forC add_core_interface [''Sized'', ''Numeric'', ''Callable'']))) (empty_context m tests benchmarks))
       (\<lambda>(_, c). Inr c)"

definition getBuiltinTypeImpl :: "string \<Rightarrow> ty tr" where
  "getBuiltinTypeImpl name = (\<lambda>c. case coreInterfaces c name of Some t \<Rightarrow> Inr (t, c) | None \<Rightarrow> Inl AssertFail)"

lemma new_TransformContext_returns:
  "\<exists>c. new_TransformContext m tests benchmarks = Inr c
     \<and> set (map (\<lambda>n. coreInterfaces c n = None) [''Sized'', ''Numeric'', ''Callable'']) = {False}"
  by (simp add: new_TransformContext_def add_core_interface_def empty_context_def tr_defs addItem_def
      empty_scope_def Let_def split: prod.splits)

section \<open>Balanced computations\<close>

text \<open>
  The contract of the transformer's computations: the innermost scope may gain names, every other
  scope, the module, the names of the enclosing modules and the class are as before. \<open>rooted\<close> is the
  invariant it rests on: below the global names there is a scope of the module, also in every state
  that has been saved with a definition.
\<close>

definition same_place :: "tctx \<Rightarrow> tctx \<Rightarrow> bool" where
  "same_place c c' \<longleftrightarrow> cur_module c' = cur_module c \<and> uuidStack c' = uuidStack c \<and> currentClass c' = currentClass c"

definition grows_top :: "scope list \<Rightarrow> scope list \<Rightarrow> bool" where
  "grows_top ss ss' \<longleftrightarrow> (case (ss, ss') of (s # r, s' # r') \<Rightarrow> dom s \<subseteq> dom s' \<and> r' = r | _ \<Rightarrow> False)"

definition rooted_state :: "ctx_state \<Rightarrow> bool" where
  "rooted_state s \<longleftrightarrow> s_stack s \<noteq> []"

definition rooted_type :: "type_store \<Rightarrow> bool" where
  "rooted_type t \<longleftrightarrow> rooted_state (ts_state t) \<and> list_all (\<lambda>m. rooted_state (snd m)) (ts_methods t)"

definition rooted_cache :: "cache \<Rightarrow> bool" where
  "rooted_cache ch \<longleftrightarrow>
     list_all (\<lambda>kv. list_all (\<lambda>f. rooted_state (fs_state f)) (snd kv)) (cachedFunctions ch)
     \<and> (\<forall>i s. functionStates ch i = Some s \<longrightarrow> rooted_state s)
     \<and> (\<forall>u t. cachedTypes ch u = Some t \<longrightarrow> rooted_type t)"

definition rooted :: "tctx \<Rightarrow> bool" where
  "rooted c \<longleftrightarrow> 1 < length (stack c) \<and> rooted_cache (ctx_cache c)"

definition balanced :: "'a tr \<Rightarrow> bool" where
  "balanced m \<longleftrightarrow> (\<forall>c a c'. m c = Inr (a, c') \<longrightarrow> rooted c \<longrightarrow>
     rooted c' \<and> same_place c c' \<and> grows_top (stack c) (stack c'))"

text \<open>What a computation returns in such a context.\<close>

definition yields :: "('a \<Rightarrow> bool) \<Rightarrow> 'a tr \<Rightarrow> bool" where
  "yields P m \<longleftrightarrow> (\<forall>c a c'. m c = Inr (a, c') \<longrightarrow> rooted c \<longrightarrow> P a)"

lemma grows_top_iff:
  "grows_top ss ss' \<longleftrightarrow> (\<exists>s s' r. ss = s # r \<and> ss' = s' # r \<and> dom s \<subseteq> dom s')"
  by (auto simp: grows_top_def split: list.splits)

lemma grows_top_refl: "ss \<noteq> [] \<Longrightarrow> grows_top ss ss"
  by (cases ss) (simp_all add: grows_top_def)

lemma grows_top_trans: "grows_top ss ts \<Longrightarrow> grows_top ts us \<Longrightarrow> grows_top ss us"
  by (auto simp: grows_top_iff)

lemma grows_top_length: "grows_top ss ss' \<Longrightarrow> length ss' = length ss"
  by (auto simp: grows_top_iff)

lemma same_place_refl [simp]: "same_place c c"
  by (simp add: same_place_def)

lemma same_place_trans: "same_place c d \<Longrightarrow> same_place d e \<Longrightarrow> same_place c e"
  by (simp add: same_place_def)

lemma rooted_stack: "rooted c \<Longrightarrow> stack c \<noteq> []"
  by (auto simp: rooted_def)

named_theorems balanced_intros \<open>computations that leave the place in the program as it was\<close>

lemma balancedI:
  "(\<And>c a c'. m c = Inr (a, c') \<Longrightarrow> rooted c \<Longrightarrow> rooted c' \<and> same_place c c' \<and> grows_top (stack c) (stack c'))
   \<Longrightarrow> balanced m"
  by (simp add: balanced_def)

text \<open>A computation that changes neither the scopes, the place nor what is saved.\<close>

lemma balanced_same:
  "(\<And>c a c'. m c = Inr (a, c') \<Longrightarrow> stack c' = stack c \<and> same_place c c' \<and> (rooted_cache (ctx_cache c) \<longrightarrow> rooted_cache (ctx_cache c')))
   \<Longrightarrow> balanced m"
  by (rule balancedI) (metis rooted_def rooted_stack grows_top_refl)

lemma yields_any [balanced_intros]: "yields (\<lambda>_. True) m"
  by (simp add: yields_def)

lemma balanced_return [balanced_intros]: "balanced (returnC a)"
  by (auto intro!: balanced_same simp: tr_defs)

lemma balanced_fail [balanced_intros]: "balanced (failC e)" "balanced (errorC code msg)"
  by (simp_all add: balanced_def tr_defs)

lemma balanced_get [balanced_intros]: "balanced (getC f)"
  by (auto intro!: balanced_same simp: tr_defs)

lemma balanced_lift [balanced_intros]: "balanced (liftC r)"
  by (auto intro!: balanced_same simp: tr_defs res_simps)

lemma balanced_bind_yields:
  assumes "balanced m" "yields P m" "\<And>a. P a \<Longrightarrow> balanced (f a)"
  shows "balanced (bindC m f)"
proof (rule balancedI)
  fix c b c'
  assume run: "bindC m f c = Inr (b, c')" and "rooted c"
  then obtain a d where a: "m c = Inr (a, d)" and b: "f a d = Inr (b, c')"
    by (auto simp: bindC_def res_simps)
  from assms(1) a \<open>rooted c\<close> have first: "same_place c d" "grows_top (stack c) (stack d)" "rooted d"
    by (auto simp: balanced_def)
  from assms(2) a \<open>rooted c\<close> have "P a" unfolding yields_def by blast
  with b first(3) assms(3) have "same_place d c'" "grows_top (stack d) (stack c')" "rooted c'"
    unfolding balanced_def by blast+
  with first show "rooted c' \<and> same_place c c' \<and> grows_top (stack c) (stack c')"
    using grows_top_trans same_place_trans by blast
qed

lemma balanced_bind [balanced_intros]: "balanced m \<Longrightarrow> (\<And>a. balanced (f a)) \<Longrightarrow> balanced (bindC m f)"
  by (rule balanced_bind_yields [OF _ yields_any])

lemma balanced_when [balanced_intros]: "balanced m \<Longrightarrow> balanced (whenC b m)"
  by (simp add: whenC_def balanced_return)

lemma balanced_for [balanced_intros]: "(\<And>x. balanced (f x)) \<Longrightarrow> balanced (forC f xs)"
  by (induction xs) (auto intro: balanced_intros)

lemma balanced_map [balanced_intros]: "(\<And>x. balanced (f x)) \<Longrightarrow> balanced (mapC f xs)"
  by (induction xs) (auto intro: balanced_intros)

lemma balanced_modify [balanced_intros]:
  "(\<And>c. stack (f c) = stack c \<and> same_place c (f c) \<and> ctx_cache (f c) = ctx_cache c) \<Longrightarrow> balanced (modifyC f)"
  by (auto intro!: balanced_same simp: tr_defs)

lemma balanced_addItem [balanced_intros]: "balanced (addItem name i)"
  by (auto intro!: balancedI simp: addItem_def rooted_def same_place_def grows_top_def
      split: list.splits if_splits)

lemma balanced_currentScope [balanced_intros]: "balanced currentScope"
  by (auto intro!: balanced_same simp: currentScope_def split: list.splits)

lemma balanced_lookups [balanced_intros]: "balanced (getItem name)" "balanced (getInCurrentScope name)"
  unfolding getItem_def getInCurrentScope_def by (intro balanced_intros)+

lemma balanced_createIdentifierName [balanced_intros]: "balanced (createIdentifierName name b)"
  by (auto intro!: balanced_same simp: createIdentifierName_def tr_defs Let_def split: option.splits if_splits ty.splits)

lemma balanced_saveState [balanced_intros]: "balanced saveState"
  by (auto intro!: balanced_same simp: saveState_def split: if_splits)

lemma yields_saveState [balanced_intros]: "yields rooted_state saveState"
  by (auto simp: yields_def saveState_def rooted_state_def rooted_def split: if_splits)
    (metis One_nat_def length_butlast less_numeral_extra(3) list.size(3) zero_less_diff)

text \<open>What holds when the place may change: the stack alone is kept. \<open>keeps\<close> adds a result to \<open>balanced\<close>.\<close>

definition stacked :: "'a tr \<Rightarrow> bool" where
  "stacked m \<longleftrightarrow> (\<forall>c a c'. m c = Inr (a, c') \<longrightarrow> rooted c \<longrightarrow> rooted c' \<and> grows_top (stack c) (stack c'))"

definition keeps :: "('a \<Rightarrow> bool) \<Rightarrow> 'a tr \<Rightarrow> bool" where
  "keeps P m \<longleftrightarrow> balanced m \<and> yields P m"

named_theorems keeps_intros \<open>computations that keep the place and what they return\<close>
named_theorems stacked_intros \<open>computations that keep the stack\<close>

lemma keeps_balanced: "keeps P m \<Longrightarrow> balanced m"
  by (simp add: keeps_def)

lemma keeps_true: "balanced m \<Longrightarrow> keeps (\<lambda>_. True) m"
  by (simp add: keeps_def yields_any)

lemma keeps_weaken: "keeps P m \<Longrightarrow> (\<And>a. P a \<Longrightarrow> Q a) \<Longrightarrow> keeps Q m"
  by (auto simp: keeps_def yields_def)

lemma yields_bind:
  assumes "balanced m" "yields P m" "\<And>a. P a \<Longrightarrow> yields Q (f a)"
  shows "yields Q (bindC m f)"
  unfolding yields_def
proof (intro allI impI)
  fix c b c'
  assume run: "bindC m f c = Inr (b, c')" and "rooted c"
  then obtain a d where a: "m c = Inr (a, d)" and b: "f a d = Inr (b, c')"
    by (auto simp: bindC_def res_simps)
  from assms(1,2) a \<open>rooted c\<close> have "rooted d" "P a" unfolding balanced_def yields_def by blast+
  with assms(3) b show "Q b" unfolding yields_def by blast
qed

lemma keeps_bind: "keeps P m \<Longrightarrow> (\<And>a. P a \<Longrightarrow> keeps Q (f a)) \<Longrightarrow> keeps Q (bindC m f)"
  unfolding keeps_def using balanced_bind_yields [where m=m and P=P and f=f] yields_bind [where m=m and P=P and f=f] by blast

lemma balanced_keeps: "keeps P m \<Longrightarrow> (\<And>a. P a \<Longrightarrow> balanced (f a)) \<Longrightarrow> balanced (bindC m f)"
  using balanced_bind_yields by (auto simp: keeps_def)

lemma keeps_return: "P a \<Longrightarrow> keeps P (returnC a)"
  by (simp add: keeps_def balanced_return) (simp add: yields_def returnC_def)

lemma keeps_fail [keeps_intros]: "keeps P (failC e)" "keeps P (errorC code msg)"
  by (simp_all add: keeps_def balanced_fail) (simp_all add: yields_def tr_defs)

lemma keeps_saveState [keeps_intros]: "keeps rooted_state saveState"
  by (simp add: keeps_def balanced_saveState yields_saveState)

lemma stackedI:
  "(\<And>c a c'. m c = Inr (a, c') \<Longrightarrow> rooted c \<Longrightarrow> rooted c' \<and> grows_top (stack c) (stack c')) \<Longrightarrow> stacked m"
  by (simp add: stacked_def)

lemma balanced_stacked [stacked_intros]: "balanced m \<Longrightarrow> stacked m"
  by (simp add: balanced_def stacked_def)

lemma stacked_bind_yields: "stacked m \<Longrightarrow> yields P m \<Longrightarrow> (\<And>a. P a \<Longrightarrow> stacked (f a)) \<Longrightarrow> stacked (bindC m f)"
proof (rule stackedI)
  fix c b c'
  assume m: "stacked m" "yields P m" and f: "\<And>a. P a \<Longrightarrow> stacked (f a)"
    and run: "bindC m f c = Inr (b, c')" and "rooted c"
  from run obtain a d where a: "m c = Inr (a, d)" and b: "f a d = Inr (b, c')"
    by (auto simp: bindC_def res_simps)
  from m a \<open>rooted c\<close> have first: "rooted d" "grows_top (stack c) (stack d)" "P a"
    unfolding stacked_def yields_def by blast+
  with f b have "rooted c'" "grows_top (stack d) (stack c')" unfolding stacked_def by blast+
  with first(2) show "rooted c' \<and> grows_top (stack c) (stack c')" using grows_top_trans by blast
qed

lemma stacked_bind: "stacked m \<Longrightarrow> (\<And>a. stacked (f a)) \<Longrightarrow> stacked (bindC m f)"
  by (rule stacked_bind_yields [OF _ yields_any])

lemma stacked_keeps: "keeps P m \<Longrightarrow> (\<And>a. P a \<Longrightarrow> stacked (f a)) \<Longrightarrow> stacked (bindC m f)"
  unfolding keeps_def using stacked_bind_yields [OF balanced_stacked] by blast

lemma stacked_modify: "(\<And>c. stack (f c) = stack c \<and> ctx_cache (f c) = ctx_cache c) \<Longrightarrow> stacked (modifyC f)"
  by (rule stackedI) (auto simp: tr_defs rooted_def intro!: grows_top_refl)

lemma stacked_setCurrentClass: "stacked (setCurrentClass t)"
  unfolding setCurrentClass_def by (rule stacked_modify) simp

text \<open>A scope of its own hides what the computation defines.\<close>

lemma withScope_runs:
  assumes "withScopeC m c = Inr (a, c')"
  obtains d where "m (c\<lparr>stack := empty_scope # stack c\<rparr>) = Inr (a, d)" "delScope d = Inr ((), c')"
  using assms by (auto simp: withScopeC_def addScope_def tr_defs res_simps)

lemma withScope_stack:
  assumes "stacked m" "withScopeC m c = Inr (a, c')" "rooted c"
  shows "stack c' = stack c \<and> rooted c'"
proof -
  from assms(2) obtain d where run: "m (c\<lparr>stack := empty_scope # stack c\<rparr>) = Inr (a, d)" (is "m ?c = _")
    and c': "delScope d = Inr ((), c')" by (rule withScope_runs)
  from assms(3) have "rooted ?c" by (auto simp: rooted_def)
  with assms(1) run have d: "rooted d" "grows_top (empty_scope # stack c) (stack d)"
    by (fastforce simp: stacked_def)+
  with c' have "stack c' = stack c" "ctx_cache c' = ctx_cache d"
    by (auto simp: delScope_def grows_top_iff split: list.splits)
  with d(1) assms(3) show ?thesis by (simp add: rooted_def)
qed

lemma stacked_withScope: "stacked m \<Longrightarrow> stacked (withScopeC m)"
  by (rule stackedI) (metis withScope_stack grows_top_refl rooted_stack)

lemma withScope_exact:
  assumes "balanced m" "withScopeC m c = Inr (a, c')" "rooted c"
  shows "stack c' = stack c \<and> same_place c c' \<and> rooted c'"
proof -
  from assms(2) obtain d where run: "m (c\<lparr>stack := empty_scope # stack c\<rparr>) = Inr (a, d)" (is "m ?c = _")
    and c': "delScope d = Inr ((), c')" by (rule withScope_runs)
  from assms(3) have "rooted ?c" by (auto simp: rooted_def)
  with assms(1) run have "same_place ?c d" by (fastforce simp: balanced_def)
  with c' have "same_place c c'" by (auto simp: delScope_def same_place_def split: list.splits)
  with withScope_stack [OF balanced_stacked [OF assms(1)] assms(2,3)] show ?thesis by simp
qed

lemma balanced_withScope [balanced_intros]: "balanced m \<Longrightarrow> balanced (withScopeC m)"
  by (rule balancedI) (metis withScope_exact grows_top_refl rooted_stack)

text \<open>A computation in a saved state leaves no trace on the stack, and the place is the old one.\<close>

lemma withState_runs:
  assumes "withStateC s m c = Inr (a, c')" "stack c \<noteq> []"
  obtains d where
    "m (c\<lparr>stack := s_stack s @ [last (stack c)], cur_module := s_module s, uuidStack := s_uuidStack s,
       currentClass := s_currentClass s\<rparr>) = Inr (a, d)"
    "stack d \<noteq> []"
    "c' = d\<lparr>stack := butlast (stack c) @ [last (stack d)], cur_module := cur_module c, uuidStack := uuidStack c,
       currentClass := currentClass c\<rparr>"
  using assms by (auto simp: withStateC_def saveState_def setState_def tr_defs res_simps split: if_splits)

lemma withState_exact:
  assumes "stacked m" "rooted_state s" "withStateC s m c = Inr (a, c')" "rooted c"
  shows "same_place c c' \<and> stack c' = stack c \<and> rooted c'"
proof -
  from assms(3) rooted_stack [OF assms(4)] obtain d where run: "m (c\<lparr>stack := s_stack s @ [last (stack c)],
      cur_module := s_module s, uuidStack := s_uuidStack s, currentClass := s_currentClass s\<rparr>) = Inr (a, d)" (is "m ?c = _")
    and c': "c' = d\<lparr>stack := butlast (stack c) @ [last (stack d)], cur_module := cur_module c,
      uuidStack := uuidStack c, currentClass := currentClass c\<rparr>"
    by (rule withState_runs)
  from assms(2,4) have "rooted ?c" by (cases "s_stack s") (auto simp: rooted_def rooted_state_def)
  with assms(1) run have d: "rooted d" "grows_top (stack ?c) (stack d)" by (fastforce simp: stacked_def)+
  then have "last (stack d) = last (stack c)"
    using assms(2) by (cases "s_stack s") (auto simp: grows_top_iff rooted_state_def)
  with c' d(1) rooted_stack [OF assms(4)] assms(4) show ?thesis by (simp add: same_place_def rooted_def)
qed

lemma balanced_withState [balanced_intros]: "stacked m \<Longrightarrow> rooted_state s \<Longrightarrow> balanced (withStateC s m)"
  by (rule balancedI) (metis withState_exact grows_top_refl rooted_stack)

end
