(* ===== verification/Caches.thy ===== *)
theory Caches
  imports Context "HOL-Library.List_Lexorder"
begin

text \<open>
  The caches of the transformer (\<^verbatim>\<open>src/ast/cache/{FunctionCache,TypeCache,ModuleCache}.{h,cc}\<close>):
  overloads and transformed functions by name, types by name with the instances made of them,
  modules by their unique name; and inheritance, which copies the members of a class to another.
\<close>

section \<open>Ordered maps\<close>

text \<open>
  \<^verbatim>\<open>std::map\<close>: a list in the order of the keys. The contract of a store that code reads back from;
  its client lemmas are used for both maps of the function cache.
\<close>

locale ordered_store =
  fixes get :: "'m \<Rightarrow> 'k \<Rightarrow> 'v option" and put :: "'k \<Rightarrow> 'v \<Rightarrow> 'm \<Rightarrow> 'm" and valid :: "'m \<Rightarrow> bool"
  assumes get_put: "\<And>m k v k'. valid m \<Longrightarrow> get (put k v m) k' = (if k' = k then Some v else get m k')"
    and valid_put: "\<And>m k v. valid m \<Longrightarrow> valid (put k v m)"
begin

lemma get_fold_put:
  "valid m \<Longrightarrow> get (fold (\<lambda>(k, v). put k v) kvs m) k' = (case map_of (rev kvs) k' of Some v \<Rightarrow> Some v | None \<Rightarrow> get m k')"
  by (induction kvs arbitrary: m) (auto simp: get_put valid_put map_add_def split: option.splits)

lemma valid_fold_put: "valid m \<Longrightarrow> valid (fold (\<lambda>(k, v). put k v) kvs m)"
  by (induction kvs arbitrary: m) (auto simp: valid_put)

lemma get_updates:
  "valid m \<Longrightarrow> get (fold (\<lambda>(k, f) m. put k (f (get m k)) m) kfs m) k' =
     fold (\<lambda>(k, f) v. if k = k' then Some (f v) else v) kfs (get m k')"
  by (induction kfs arbitrary: m) (auto simp: get_put valid_put intro!: arg_cong [where f = "fold _ _"])

lemma valid_updates: "valid m \<Longrightarrow> valid (fold (\<lambda>(k, f) m. put k (f (get m k)) m) kfs m)"
  by (induction kfs arbitrary: m) (auto simp: valid_put)

end

fun map_put :: "'k::linorder \<Rightarrow> 'v \<Rightarrow> ('k \<times> 'v) list \<Rightarrow> ('k \<times> 'v) list" where
  "map_put k v [] = [(k, v)]"
| "map_put k v ((k', v') # m) =
     (if k < k' then (k, v) # (k', v') # m
      else if k = k' then (k, v) # m
      else (k', v') # map_put k v m)"

definition in_order :: "('k::linorder \<times> 'v) list \<Rightarrow> bool" where
  "in_order m \<longleftrightarrow> sorted_wrt (<) (map fst m)"

lemma set_map_put: "set (map fst (map_put k v m)) = insert k (set (map fst m))"
proof (induction m)
  case (Cons p m)
  obtain k' v' where "p = (k', v')" by fastforce
  with Cons show ?case by simp blast
qed simp

lemma in_order_Cons: "in_order ((k, v) # m) \<longleftrightarrow> in_order m \<and> list_all (\<lambda>x. k < x) (map fst m)"
  by (auto simp: in_order_def list_all_iff)

lemma in_order_put: "in_order m \<Longrightarrow> in_order (map_put k v m)"
proof (induction m)
  case (Cons p m)
  obtain k' v' where p: "p = (k', v')" by fastforce
  with Cons have "in_order (map_put k v m)" and above: "list_all (\<lambda>x. k' < x) (map fst m)"
    by (simp_all add: in_order_Cons)
  moreover have "list_all (\<lambda>x. k' < x) (map fst (map_put k v m))" if "k' < k"
    using above that set_map_put [of k v m] by (simp only: list_all_iff) simp
  moreover have "list_all (\<lambda>x. k < x) (map fst m)" if "k < k'"
    using above that by (auto simp: list_all_iff)
  ultimately show ?case using Cons.prems p by (auto simp: in_order_Cons)
qed (simp add: in_order_def)

lemma map_of_put: "in_order m \<Longrightarrow> map_of (map_put k v m) k' = (if k' = k then Some v else map_of m k')"
proof (induction m)
  case (Cons p m)
  obtain k0 v0 where p: "p = (k0, v0)" by fastforce
  with Cons show ?case by (auto simp: in_order_Cons)
qed simp

interpretation fm: ordered_store map_of "map_put :: string \<Rightarrow> 'v \<Rightarrow> (string \<times> 'v) list \<Rightarrow> (string \<times> 'v) list" in_order
  by unfold_locales (simp_all add: map_of_put in_order_put)

section \<open>Functions\<close>

definition cacheC :: "(cache \<Rightarrow> cache) \<Rightarrow> unit tr" where
  "cacheC f = modifyC (\<lambda>c. c\<lparr>ctx_cache := f (ctx_cache c)\<rparr>)"

definition getFunctionState :: "nat \<Rightarrow> cache \<Rightarrow> ctx_state res" where
  "getFunctionState i c =
     (case functionStates c i of Some s \<Rightarrow> Inr s | None \<Rightarrow> Inl (StdException ''out_of_range''))"

definition setFunctionState :: "nat \<Rightarrow> ctx_state \<Rightarrow> cache \<Rightarrow> cache" where
  "setFunctionState i s c = c\<lparr>functionStates := (functionStates c)(i \<mapsto> s)\<rparr>"

definition getFunction :: "string \<Rightarrow> cache \<Rightarrow> function_store list option" where
  "getFunction name c = map_of (cachedFunctions c) name"

definition setFunction :: "string \<Rightarrow> function_store \<Rightarrow> cache \<Rightarrow> cache" where
  "setFunction name f c =
     c\<lparr>cachedFunctions := map_put name (f # (case getFunction name c of None \<Rightarrow> [] | Some fs \<Rightarrow> fs)) (cachedFunctions c)\<rparr>"

definition getTransformedFunction :: "string \<Rightarrow> cache \<Rightarrow> nat list option" where
  "getTransformedFunction name c = map_of (createdFunctions c) name"

text \<open>The functions of the new item are pushed to the front one by one.\<close>

definition setTransformedFunction :: "string \<Rightarrow> nat list \<Rightarrow> cache \<Rightarrow> cache" where
  "setTransformedFunction name fs c =
     c\<lparr>createdFunctions := map_put name
        (case getTransformedFunction name c of Some old \<Rightarrow> rev fs @ old | None \<Rightarrow> fs) (createdFunctions c)\<rparr>"

text \<open>\<^verbatim>\<open>TransformContext::defineFunction\<close>.\<close>

definition defineFunction :: "nat \<Rightarrow> string \<Rightarrow> unit tr" where
  "defineFunction i namePrefix =
     bindC (bindC (getC (\<lambda>c. funcs c i)) (\<lambda>f. liftC (the_object f))) (\<lambda>fn.
     bindC (liftC (Func_getName fn True)) (\<lambda>fnName.
     bindC (if namePrefix = [] then createIdentifierName fnName True else returnC (namePrefix @ ''.'' @ fnName)) (\<lambda>name.
     cacheC (setTransformedFunction name [i]))))"

section \<open>Inheritance\<close>

definition getAllFunctionsByUUID :: "string \<Rightarrow> (string \<times> 'a) list \<Rightarrow> (string \<times> 'a) list" where
  "getAllFunctionsByUUID u fs = filter (\<lambda>(name, _). startsWith (name @ ''.'') u) fs"

text \<open>The name of an inherited function; \<open>None\<close> for a constructor that is not inherited.\<close>

definition inherited_name :: "string \<Rightarrow> string \<Rightarrow> bool \<Rightarrow> string \<Rightarrow> string option res" where
  "inherited_name parentUUID childUUID allowConstructor f =
     (let name = replaceAll f (parentUUID @ ''.'') []
      in bindR (opEquals OT_CONSTRUCTOR name) (\<lambda>ctor.
         Inr (if ctor \<and> \<not> allowConstructor then None else Some (childUUID @ ''.'' @ name))))"

definition inVirtualTable :: "ir_func \<Rightarrow> bool" where
  "inVirtualTable f \<longleftrightarrow> f_virtualIndex f \<noteq> - 1"

definition inherit_slot :: "nat \<Rightarrow> nat \<Rightarrow> unit tr" where
  "inherit_slot l i =
     bindC (bindC (getC (\<lambda>c. funcs c i)) (\<lambda>f. liftC (the_object f))) (\<lambda>fn.
     whenC (inVirtualTable fn) (modifyC (\<lambda>c. c\<lparr>objects := snd (addVtableItem i l (objects c))\<rparr>)))"

definition inherit_created :: "string \<Rightarrow> string \<Rightarrow> bool \<Rightarrow> nat \<Rightarrow> string \<times> nat list \<Rightarrow> unit tr" where
  "inherit_created parentUUID childUUID allowConstructor l f =
     bindC (liftC (inherited_name parentUUID childUUID allowConstructor (fst f))) (\<lambda>name.
     case name of
       None \<Rightarrow> returnC ()
     | Some n \<Rightarrow> bindC (cacheC (setTransformedFunction n (snd f))) (\<lambda>_. forC (inherit_slot l) (snd f)))"

definition inherit_overloads :: "string \<Rightarrow> string \<Rightarrow> bool \<Rightarrow> string \<times> function_store list \<Rightarrow> unit tr" where
  "inherit_overloads parentUUID childUUID allowConstructor f =
     bindC (liftC (inherited_name parentUUID childUUID allowConstructor (fst f))) (\<lambda>name.
     case name of
       None \<Rightarrow> returnC ()
     | Some n \<Rightarrow> forC (\<lambda>fn. cacheC (setFunction n fn)) (snd f))"

text \<open>The members of one ancestor; both lists of functions are taken before either is copied.\<close>

definition inherit_from :: "base_info \<Rightarrow> nat \<Rightarrow> base_info \<Rightarrow> nat \<Rightarrow> bool \<Rightarrow> unit tr" where
  "inherit_from child l parent lp allowConstructor =
     bindC (getC (\<lambda>c. getAllFunctionsByUUID (uuid parent) (createdFunctions (ctx_cache c)))) (\<lambda>createdFuncs.
     bindC (getC (\<lambda>c. getAllFunctionsByUUID (uuid parent) (cachedFunctions (ctx_cache c)))) (\<lambda>nonGeneratedFunctions.
     bindC (forC (inherit_created (uuid parent) (uuid child) allowConstructor l) createdFuncs) (\<lambda>_.
     bindC (forC (inherit_overloads (uuid parent) (uuid child) allowConstructor) nonGeneratedFunctions) (\<lambda>_.
     bindC (bindC (getC objects) (\<lambda>h. liftC (class_at h lp))) (\<lambda>p.
     modifyC (\<lambda>c. c\<lparr>objects := update_obj (\<lambda>ob. ob\<lparr>cls_fields := cls_fields ob @ cls_fields p,
       hasVtable := hasVtable p\<rparr>) l (objects c)\<rparr>))))))"

text \<open>
  \<^verbatim>\<open>Functions::performInheritance\<close>: first from the parent's own parent, all the way down. The fuel
  bounds the length of the chain of parents.
\<close>

primrec performInheritance :: "nat \<Rightarrow> base_info \<Rightarrow> nat \<Rightarrow> base_info \<Rightarrow> nat \<Rightarrow> bool \<Rightarrow> unit tr" where
  "performInheritance 0 child l parent lp allowConstructor = failC (Undefined ''stack exhausted'')"
| "performInheritance (Suc k) child l parent lp allowConstructor =
     bindC (bindC (getC objects) (\<lambda>h. liftC (class_at h lp))) (\<lambda>p.
     bindC (case cls_parent p of
         None \<Rightarrow> returnC ()
       | Some g \<Rightarrow> (case g of
           DefinedTy _ ig _ lg \<Rightarrow> performInheritance k child l ig lg allowConstructor
         | _ \<Rightarrow> failC (Undefined ''parent is no class''))) (\<lambda>_.
     inherit_from child l parent lp allowConstructor))"

section \<open>Types\<close>

fun is_type_definition :: "node \<Rightarrow> bool" where
  "is_type_definition (EnumTypeDef _ _ _ _ _ _ _ _) = True"
| "is_type_definition (DefinedTypeDef _ _ _ _ _ _ _ _ _ _ _ _) = True"
| "is_type_definition (TypeAlias _ _ _ _ _) = True"
| "is_type_definition _ = False"

text \<open>\<^verbatim>\<open>insert\<close> keeps an entry that is already there.\<close>

definition setType :: "string \<Rightarrow> type_store \<Rightarrow> cache \<Rightarrow> cache res" where
  "setType u t c =
     (if \<not> is_type_definition (ts_type t) then Inl AssertFail
      else Inr (if cachedTypes c u = None then c\<lparr>cachedTypes := (cachedTypes c)(u \<mapsto> t)\<rparr> else c))"

definition getCachedType :: "string \<Rightarrow> cache \<Rightarrow> type_store option" where
  "getCachedType u c = cachedTypes c u"

definition setTransformedType :: "string \<Rightarrow> Item \<Rightarrow> string \<Rightarrow> cache \<Rightarrow> cache" where
  "setTransformedType u ty overloadedUUID c =
     (let storeUUID = (if overloadedUUID = [] then u else overloadedUUID)
      in c\<lparr>identifierLookup := (identifierLookup c)
             (u \<mapsto> (case identifierLookup c u of None \<Rightarrow> [] | Some ids \<Rightarrow> ids) @ [storeUUID]),
           createdTypes := (createdTypes c)(storeUUID \<mapsto> ty)\<rparr>)"

definition created_type :: "cache \<Rightarrow> string \<Rightarrow> Item res" where
  "created_type c i = (case createdTypes c i of None \<Rightarrow> Inl AssertFail | Some t \<Rightarrow> Inr t)"

definition getTransformedType :: "string \<Rightarrow> cache \<Rightarrow> Item list option res" where
  "getTransformedType u c =
     (case identifierLookup c u of
        None \<Rightarrow> Inr None
      | Some ids \<Rightarrow> bindR (mapR (created_type c) ids) (\<lambda>typesFound.
          Inr (if typesFound = [] then None else Some typesFound)))"

section \<open>Modules\<close>

definition getModule :: "string \<Rightarrow> cache \<Rightarrow> ir_module option" where
  "getModule u c = cachedModules c u"

definition addModule :: "string \<Rightarrow> ir_module \<Rightarrow> cache \<Rightarrow> cache res" where
  "addModule u m c =
     (if getModule u c \<noteq> None then Inl AssertFail else Inr (c\<lparr>cachedModules := (cachedModules c)(u \<mapsto> m)\<rparr>))"

section \<open>Balanced computations\<close>

lemma balanced_cacheC: "(\<And>ch. rooted_cache ch \<Longrightarrow> rooted_cache (f ch)) \<Longrightarrow> balanced (cacheC f)"
  by (auto intro!: balanced_same simp: cacheC_def tr_defs same_place_def)

lemma rooted_getFunction: "rooted_cache ch \<Longrightarrow> getFunction name ch = Some fs \<Longrightarrow> f \<in> set fs \<Longrightarrow> rooted_state (fs_state f)"
  by (auto simp: rooted_cache_def getFunction_def list_all_iff dest!: map_of_SomeD)

lemma rooted_setFunction:
  assumes "rooted_cache ch" "rooted_state (fs_state f)"
  shows "rooted_cache (setFunction name f ch)"
proof -
  let ?P = "\<lambda>kv. list_all (\<lambda>f. rooted_state (fs_state f)) (snd kv)"
  have put: "list_all ?P m \<Longrightarrow> ?P (name, v) \<Longrightarrow> list_all ?P (map_put name v m)" for v and m :: "(string \<times> function_store list) list"
    by (induction m) auto
  have "?P (name, f # (case getFunction name ch of None \<Rightarrow> [] | Some fs \<Rightarrow> fs))"
    using assms(2) rooted_getFunction [OF assms(1), of name] by (cases "getFunction name ch") (simp_all add: list_all_iff)
  with assms(1) put show ?thesis by (auto simp: rooted_cache_def setFunction_def)
qed

lemma rooted_updates [simp]:
  "rooted_cache (setTransformedFunction name is ch) = rooted_cache ch"
  "rooted_cache (setTransformedType u t w ch) = rooted_cache ch"
  by (simp_all add: rooted_cache_def setTransformedFunction_def setTransformedType_def Let_def)

lemma rooted_setFunctionState: "rooted_cache ch \<Longrightarrow> rooted_state s \<Longrightarrow> rooted_cache (setFunctionState i s ch)"
  by (auto simp: rooted_cache_def setFunctionState_def)

lemma rooted_getFunctionState: "rooted_cache ch \<Longrightarrow> getFunctionState i ch = Inr s \<Longrightarrow> rooted_state s"
  by (auto simp: rooted_cache_def getFunctionState_def split: option.splits)

lemma rooted_setType: "rooted_cache ch \<Longrightarrow> rooted_type t \<Longrightarrow> setType u t ch = Inr ch' \<Longrightarrow> rooted_cache ch'"
  by (auto simp: rooted_cache_def setType_def split: if_splits)

lemma rooted_getCachedType: "rooted_cache ch \<Longrightarrow> getCachedType u ch = Some t \<Longrightarrow> rooted_type t"
  by (auto simp: rooted_cache_def getCachedType_def)

lemma balanced_setFunction [balanced_intros]: "rooted_state (fs_state f) \<Longrightarrow> balanced (cacheC (setFunction name f))"
  by (intro balanced_cacheC rooted_setFunction)

lemma balanced_setTransformed [balanced_intros]:
  "balanced (cacheC (setTransformedFunction name is))" "balanced (cacheC (setTransformedType u t w))"
  by (auto intro: balanced_cacheC)

lemma balanced_setFunctionState [balanced_intros]: "rooted_state s \<Longrightarrow> balanced (cacheC (setFunctionState i s))"
  by (intro balanced_cacheC rooted_setFunctionState)

lemma yields_getFunction [balanced_intros]:
  "yields (\<lambda>fs. list_all (\<lambda>f. rooted_state (fs_state f)) (case fs of None \<Rightarrow> [] | Some l \<Rightarrow> l))
     (getC (\<lambda>c. getFunction name (ctx_cache c)))"
  by (fastforce simp: yields_def tr_defs rooted_def list_all_iff intro: rooted_getFunction [OF _ sym] split: option.splits)

end
