(* ===== verification/Builder.thy ===== *)
theory Builder
  imports Context
begin

text \<open>
  The builder of the intermediate representation (\<^verbatim>\<open>src/ir/builder/IRBuilder.{h,cc}\<close>), which the
  transformer makes all values with. Functions and variables are objects that get a number from
  the counter of \<^verbatim>\<open>IdMixin\<close>; the other values are trees. Every value gets the module of the builder,
  which is the module of the context.
\<close>

section \<open>Objects\<close>

definition fresh_number :: "nat tr" where
  "fresh_number = (\<lambda>c. let (i, h) = fresh_id (objects c) in Inr (i, c\<lparr>objects := h\<rparr>))"

definition update_var :: "nat \<Rightarrow> (ir_var \<Rightarrow> ir_var) \<Rightarrow> tctx \<Rightarrow> tctx" where
  "update_var i f c = c\<lparr>vars := (vars c)(i := map_option f (vars c i))\<rparr>"

definition update_func :: "nat \<Rightarrow> (ir_func \<Rightarrow> ir_func) \<Rightarrow> tctx \<Rightarrow> tctx" where
  "update_func i f c = c\<lparr>funcs := (funcs c)(i := map_option f (funcs c i))\<rparr>"

definition createFunction :: "string \<Rightarrow> ir_value option \<Rightarrow> (string \<times> nat) list \<Rightarrow> bool \<Rightarrow> bool \<Rightarrow> bool \<Rightarrow> nat tr" where
  "createFunction name block args isExtern isVarArg isAnon =
     bindC fresh_number (\<lambda>i. bindC (modifyC (\<lambda>c. c\<lparr>funcs := (funcs c)
       (i \<mapsto> new_Func name block args isExtern isVarArg isAnon None (cur_module c))\<rparr>)) (\<lambda>_. returnC i))"

definition createVariable :: "string \<Rightarrow> ty option \<Rightarrow> bool \<Rightarrow> bool \<Rightarrow> int \<Rightarrow> nat tr" where
  "createVariable identifier type is_argument is_mutable scopeIndex =
     bindC fresh_number (\<lambda>i. bindC (modifyC (\<lambda>c. c\<lparr>vars := (vars c)
       (i \<mapsto> (new_Variable identifier is_argument is_mutable scopeIndex)\<lparr>v_type := type\<rparr>)\<rparr>)) (\<lambda>_. returnC i))"

definition createArgument :: "string \<Rightarrow> ty option \<Rightarrow> node option \<Rightarrow> int \<Rightarrow> nat tr" where
  "createArgument name type default_value scopeIndex =
     bindC (createVariable name type True False scopeIndex) (\<lambda>i.
     bindC (modifyC (\<lambda>c. c\<lparr>argDefaults := (argDefaults c)(i := default_value)\<rparr>)) (\<lambda>_. returnC i))"

section \<open>Types of values\<close>

definition value_type :: "tctx \<Rightarrow> ir_value \<Rightarrow> ty option" where
  "value_type c v = stored_type (funcs c) (vars c) v"

definition typeC :: "ir_value \<Rightarrow> ty tr" where
  "typeC v = bindC (getC (\<lambda>c. value_type c v)) (\<lambda>t. liftC (the_type t))"

text \<open>\<^verbatim>\<open>IRBuilder::setType\<close>: the value with its new type; shared objects change in place.\<close>

fun with_type :: "ty \<Rightarrow> ir_value \<Rightarrow> ir_value" where
  "with_type t (IrString _ s) = IrString (Some t) s"
| "with_type t (IrNumber _ n) = IrNumber (Some t) n"
| "with_type t (IrFloat _ n) = IrFloat (Some t) n"
| "with_type t (IrBoolean _ b) = IrBoolean (Some t) b"
| "with_type t (IrChar _ ch) = IrChar (Some t) ch"
| "with_type t (IrEnumInit _ n) = IrEnumInit (Some t) n"
| "with_type t (IrBlock _ a vs) = IrBlock (Some t) a vs"
| "with_type t (IrCall _ k f as i) = IrCall (Some t) k f as i"
| "with_type t (IrValueExtract _ v) = IrValueExtract (Some t) v"
| "with_type t (IrReturn _ v) = IrReturn (Some t) v"
| "with_type t (IrCast _ v ty) = IrCast (Some t) v ty"
| "with_type t (IrThrow _ v) = IrThrow (Some t) v"
| "with_type t (IrVariableDeclaration _ x v e) = IrVariableDeclaration (Some t) x v e"
| "with_type t (IrWhileLoop _ cond b d f) = IrWhileLoop (Some t) cond b d f"
| "with_type t (IrConditional _ cond b e) = IrConditional (Some t) cond b e"
| "with_type t (IrTryCatch _ b bs vs) = IrTryCatch (Some t) b bs vs"
| "with_type t (IrReferenceTo _ v) = IrReferenceTo (Some t) v"
| "with_type t (IrDereferenceTo _ v) = IrDereferenceTo (Some t) v"
| "with_type t (IrIndexExtract _ v f i) = IrIndexExtract (Some t) v f i"
| "with_type t (IrLoopFlow _ f) = IrLoopFlow (Some t) f"
| "with_type t (IrSwitch _ e cs ccs d s) = IrSwitch (Some t) e cs ccs d s"
| "with_type t (IrFunc i) = IrFunc i"
| "with_type t (IrVariable i) = IrVariable i"
| "with_type t (IrArgument i) = IrArgument i"

definition setTypeC :: "ir_value \<Rightarrow> ty \<Rightarrow> ir_value tr" where
  "setTypeC v t =
     bindC (case v of
         IrFunc i \<Rightarrow> modifyC (update_func i (\<lambda>f. f\<lparr>f_type := Some t\<rparr>))
       | IrVariable i \<Rightarrow> modifyC (update_var i (\<lambda>x. x\<lparr>v_type := Some t\<rparr>))
       | IrArgument i \<Rightarrow> modifyC (update_var i (\<lambda>x. x\<lparr>v_type := Some t\<rparr>))
       | _ \<Rightarrow> returnC ()) (\<lambda>_. returnC (with_type t v))"

section \<open>Values\<close>

definition createThrow :: "ir_value \<Rightarrow> ir_value" where
  "createThrow v = IrThrow None v"

definition createCast :: "ir_value \<Rightarrow> ty \<Rightarrow> ir_value" where
  "createCast v t = IrCast (Some t) v t"

definition createIndexExtract :: "ir_value \<Rightarrow> class_field \<Rightarrow> nat \<Rightarrow> ir_value" where
  "createIndexExtract v field index = IrIndexExtract (Some (cf_type field)) v field index"

definition createEnumInit :: "ty \<Rightarrow> string \<Rightarrow> ir_value" where
  "createEnumInit t name = IrEnumInit (Some t) name"

definition createLoopFlow :: "FlowType \<Rightarrow> ir_value" where
  "createLoopFlow f = IrLoopFlow None f"

definition createZeroInitialized :: "ty \<Rightarrow> ir_value" where
  "createZeroInitialized t = IrCall (Some t) ZeroInitialized None [] False"

definition createBlock :: "ir_value list \<Rightarrow> ir_value" where
  "createBlock vs = IrBlock None no_attributes vs"

definition createDereferenceTo :: "ir_value \<Rightarrow> ty \<Rightarrow> ir_value" where
  "createDereferenceTo v t = IrDereferenceTo (Some t) v"

definition reference_to :: "ty \<Rightarrow> ty tr" where
  "reference_to t = (\<lambda>c. let (r, h) = getReferenceTo t (objects c) in Inr (setMutable (isMutable t) r, c\<lparr>objects := h\<rparr>))"

definition pointer_to :: "bool \<Rightarrow> ty \<Rightarrow> ty tr" where
  "pointer_to m t = (\<lambda>c. let (p, h) = getPointerTo m t (objects c) in Inr (p, c\<lparr>objects := h\<rparr>))"

definition createReferenceTo :: "ir_value \<Rightarrow> ir_value tr" where
  "createReferenceTo v = bindC (typeC v) (\<lambda>t. bindC (reference_to t) (\<lambda>r. returnC (IrReferenceTo (Some r) v)))"

definition createStringValue :: "string \<Rightarrow> ir_value" where "createStringValue s = IrString None s"
definition createNumberValue :: "64 word \<Rightarrow> ir_value" where "createNumberValue n = IrNumber None n"
definition createFloatValue :: "64 word \<Rightarrow> ir_value" where "createFloatValue n = IrFloat None n"
definition createBooleanValue :: "bool \<Rightarrow> ir_value" where "createBooleanValue b = IrBoolean None b"
definition createCharValue :: "char \<Rightarrow> ir_value" where "createCharValue ch = IrChar None ch"

definition createReturn :: "ir_value option \<Rightarrow> ir_value tr" where
  "createReturn v =
     (case v of
        None \<Rightarrow> returnC (IrReturn None None)
      | Some w \<Rightarrow> bindC (getC (\<lambda>c. value_type c w)) (\<lambda>t. returnC (IrReturn t (Some w))))"

definition createVoidReturn :: ir_value where
  "createVoidReturn = IrReturn None None"

definition createCall :: "ir_value \<Rightarrow> ir_value list \<Rightarrow> ir_value" where
  "createCall callee args = IrCall None PlainCall (Some callee) args False"

definition createVariableDeclaration :: "nat \<Rightarrow> ir_value option \<Rightarrow> bool \<Rightarrow> ir_value tr" where
  "createVariableDeclaration x v isExtern =
     bindC (getC (\<lambda>c. value_type c (case v of Some w \<Rightarrow> w | None \<Rightarrow> IrVariable x))) (\<lambda>t.
     returnC (IrVariableDeclaration t x v isExtern))"

definition createValueExtract :: "ir_value \<Rightarrow> ir_value tr" where
  "createValueExtract v = bindC (getC (\<lambda>c. value_type c v)) (\<lambda>t. returnC (IrValueExtract t v))"

definition createTryCatch :: "ir_value \<Rightarrow> ir_value list \<Rightarrow> ir_value list \<Rightarrow> ir_value" where
  "createTryCatch b bs vs = IrTryCatch None b bs vs"

definition createObjectInitialization :: "ty \<Rightarrow> ir_value option \<Rightarrow> ir_value list \<Rightarrow> bool \<Rightarrow> ir_value" where
  "createObjectInitialization t v args is_struct = IrCall (Some t) (ObjectInitialization is_struct) v args False"

definition createConditional :: "ir_value \<Rightarrow> ir_value \<Rightarrow> ir_value option \<Rightarrow> ir_value" where
  "createConditional cond b e = IrConditional None cond b e"

definition createWhileLoop :: "ir_value \<Rightarrow> ir_value \<Rightarrow> bool \<Rightarrow> ir_value" where
  "createWhileLoop cond body isDoWhile = IrWhileLoop None cond body isDoWhile None"

definition createFromForLoop :: "ir_value \<Rightarrow> ir_value \<Rightarrow> ir_value \<Rightarrow> ir_value" where
  "createFromForLoop cond body forCond = IrWhileLoop None cond body False (Some forCond)"

definition createFunctionType :: "ty list \<Rightarrow> ty \<Rightarrow> bool \<Rightarrow> bool \<Rightarrow> ty" where
  "createFunctionType args ret isVarArg is_mutable = FunctionTy is_mutable ''<fn type>'' args ret isVarArg"

definition createSwitch :: "ir_value \<Rightarrow> (ir_value list \<times> ir_value \<times> string) list \<Rightarrow> ir_value option \<Rightarrow> ir_value" where
  "createSwitch e cases d = IrSwitch None e cases [] d False"

definition createCSwitch :: "ir_value \<Rightarrow> (ir_value \<times> ir_value) list \<Rightarrow> ir_value option \<Rightarrow> ir_value" where
  "createCSwitch e cases d = IrSwitch None e [] cases d True"

definition createTypeAlias :: "string \<Rightarrow> ty \<Rightarrow> ty tr" where
  "createTypeAlias name base = (\<lambda>c. let (t, h) = new_TypeAlias name base (cur_module c) (objects c)
     in Inr (t, c\<lparr>objects := h\<rparr>))"

text \<open>The arguments of the new operator are those of the call; a call that is no call has none to copy.\<close>

definition createBinaryOp :: "ir_value \<Rightarrow> ir_value tr" where
  "createBinaryOp call =
     (case call of
        IrCall t _ callee args isInitialization \<Rightarrow> returnC (IrCall t (BinaryOpCall False) callee args isInitialization)
      | _ \<Rightarrow> failC (Undefined ''null pointer''))"

section \<open>Laws\<close>

text \<open>
  A new object is new: the counter has passed the number of every object. \<open>numbered\<close> is the
  invariant of the counter.
\<close>

definition numbered :: "tctx \<Rightarrow> bool" where
  "numbered c \<longleftrightarrow> (\<forall>i \<ge> currentId (objects c). funcs c i = None \<and> vars c i = None)"

lemma createFunction_result:
  "createFunction name block args isExtern isVarArg isAnon c = Inr (currentId (objects c),
     c\<lparr>objects := (objects c)\<lparr>currentId := currentId (objects c) + 1\<rparr>,
       funcs := (funcs c)(currentId (objects c) \<mapsto>
         new_Func name block args isExtern isVarArg isAnon None (cur_module c))\<rparr>)"
  by (simp add: createFunction_def fresh_number_def fresh_id_def tr_defs)

lemma createVariable_result:
  "createVariable name t a m scope c = Inr (currentId (objects c),
     c\<lparr>objects := (objects c)\<lparr>currentId := currentId (objects c) + 1\<rparr>,
       vars := (vars c)(currentId (objects c) \<mapsto> (new_Variable name a m scope)\<lparr>v_type := t\<rparr>)\<rparr>)"
  by (simp add: createVariable_def fresh_number_def fresh_id_def tr_defs)

lemma createFunction_numbered: "numbered c \<Longrightarrow> createFunction n b as e v a c = Inr (i, c') \<Longrightarrow> numbered c' \<and> funcs c i = None"
  by (auto simp: createFunction_result numbered_def)

lemma createVariable_numbered: "numbered c \<Longrightarrow> createVariable n t a m s c = Inr (i, c') \<Longrightarrow> numbered c' \<and> vars c i = None"
  by (auto simp: createVariable_result numbered_def)

lemma setTypeC_type:
  assumes "setTypeC v t c = Inr (w, c')" "value_type c v \<noteq> None"
  shows "value_type c' w = Some t"
  using assms by (cases v) (auto simp: setTypeC_def tr_defs value_type_def update_func_def update_var_def
      Option.bind_eq_Some_conv)

lemma createReferenceTo_type:
  assumes "createReferenceTo v c = Inr (w, c')"
  obtains t t' where "value_type c v = Some t" "t' = fst (copy_type t (objects c))" "value_type c' w = Some (ReferenceTy (isMutable t) t')"
proof -
  from assms obtain t where t: "value_type c v = Some t"
    by (auto simp: createReferenceTo_def typeC_def tr_defs the_type_def res_simps split: option.splits)
  with assms have "value_type c' w = Some (ReferenceTy (isMutable t) (fst (copy_type t (objects c))))"
    by (auto simp: createReferenceTo_def typeC_def tr_defs the_type_def res_simps reference_to_def getReferenceTo_def
        value_type_def split: prod.splits)
  with t that show thesis by blast
qed

lemma balanced_builder [balanced_intros]:
  "balanced (createFunction n b as e v a)" "balanced (createVariable n t ia im s)" "balanced (createArgument n t dv s)"
  "balanced (typeC x)" "balanced (setTypeC x t')" "balanced (createReferenceTo x)" "balanced (createReturn y)"
  "balanced (createVariableDeclaration z y e)" "balanced (createValueExtract x)" "balanced (createTypeAlias n t')"
  "balanced (createBinaryOp x)" "balanced (reference_to t')" "balanced (pointer_to m t')"
proof -
  show fn: "balanced (createFunction n b as e v a)"
    by (rule balanced_same) (auto simp: createFunction_result same_place_def)
  show var: "balanced (createVariable n t ia im s)" for ia im
    by (rule balanced_same) (auto simp: createVariable_result same_place_def)
  show "balanced (createArgument n t dv s)"
    unfolding createArgument_def by (intro balanced_intros var) (simp_all add: same_place_def)
  show ty: "balanced (typeC x)" unfolding typeC_def by (intro balanced_intros)
  show "balanced (setTypeC x t')"
    by (rule balanced_same) (auto simp: setTypeC_def tr_defs update_func_def update_var_def same_place_def split: ir_value.splits)
  show ref: "balanced (reference_to t')" "balanced (pointer_to m t')" for t'
    by (rule balanced_same; auto simp: reference_to_def pointer_to_def same_place_def split: prod.splits)+
  show "balanced (createReferenceTo x)" unfolding createReferenceTo_def by (intro balanced_intros ty ref)
  show "balanced (createReturn y)" unfolding createReturn_def by (cases y) (auto intro!: balanced_intros)
  show "balanced (createVariableDeclaration z y e)" unfolding createVariableDeclaration_def by (intro balanced_intros)
  show "balanced (createValueExtract x)" unfolding createValueExtract_def by (intro balanced_intros)
  show "balanced (createTypeAlias n t')"
    by (rule balanced_same) (auto simp: createTypeAlias_def same_place_def split: prod.splits)
  show "balanced (createBinaryOp x)" unfolding createBinaryOp_def by (cases x) (auto intro!: balanced_intros)
qed

end
