(* ===== verification/Overloads.thy ===== *)
theory Overloads
  imports Caches Builder
begin

text \<open>
  The choice of a function for a call: deduction of generic parameters
  (\<^verbatim>\<open>src/visitors/transform/utils/deduceFunction.cc\<close>), the comparison of overloads
  (\<^verbatim>\<open>getBestFittingFunction.cc\<close>), \<^verbatim>\<open>getFunction.cc\<close> and the conversions of arguments
  (\<^verbatim>\<open>tryCast.cc\<close>). The transformer's routines that these call and that call them back are fields
  of a record. Messages keep their code; the list of overloads in them is left out.
\<close>

section \<open>Calls into the transformer\<close>

text \<open>What a name stands for (\<^verbatim>\<open>StoreType\<close>), with whether private members may be used.\<close>

record store_type =
  st_value :: "ir_value option"
  st_type :: "ty option"
  st_functions :: "nat list option"
  st_overloads :: "function_store list option"
  st_module :: "ir_module option"
  st_canBePrivate :: bool

text \<open>
  The routines that call each other. \<open>trans\<close> is \<^verbatim>\<open>trans\<close>, \<open>transMethod\<close> is \<^verbatim>\<open>trans\<close> for the node of a function that has been
  given a context state; a class or enum is transformed from its name, its definition and the reference that asks for it.
\<close>

record tcalls =
  transformType :: "node \<Rightarrow> ty tr"
  transformSizedType :: "node \<Rightarrow> bool \<Rightarrow> ty tr"
  transformFunction :: "function_store \<Rightarrow> ty list \<Rightarrow> bool \<Rightarrow> nat list \<Rightarrow> nat tr"
  trans :: "node \<Rightarrow> ir_value option tr"
  transMethod :: "ctx_state \<Rightarrow> node \<Rightarrow> ir_value option tr"
  getFromIdentifier :: "string \<Rightarrow> node list \<Rightarrow> string \<Rightarrow> store_type tr"
  getFromIndex :: "node \<Rightarrow> node \<Rightarrow> bool \<Rightarrow> (store_type \<times> ir_value option) tr"
  transformClass :: "string \<Rightarrow> type_store \<Rightarrow> node option \<Rightarrow> ty tr"
  transformEnum :: "string \<Rightarrow> type_store \<Rightarrow> node option \<Rightarrow> ty tr"
  transformTypeExtension :: "node \<Rightarrow> string \<Rightarrow> unit tr"

text \<open>A pointer to a node that may be null.\<close>

definition derefC :: "'a option \<Rightarrow> 'a tr" where
  "derefC p = (case p of Some x \<Rightarrow> returnC x | None \<Rightarrow> failC null_pointer)"

section \<open>Functions and references to types in the syntax tree\<close>

fun fn_data :: "node \<Rightarrow> node FunctionDefData option" where
  "fn_data (FunctionDef d) = Some d"
| "fn_data (ExternFnDef _ d) = Some d"
| "fn_data (BodiedFunction _ d) = Some d"
| "fn_data (ConstructorDef _ _ _ _ d) = Some d"
| "fn_data (LLVMFunction _ _ d) = Some d"
| "fn_data _ = None"

definition store_data :: "function_store \<Rightarrow> node FunctionDefData tr" where
  "store_data s = derefC (fn_data (fs_function s))"

definition data_generics :: "node FunctionDefData \<Rightarrow> node Param list" where
  "data_generics d = (case fn_generics d of Some gs \<Rightarrow> gs | None \<Rightarrow> [])"

definition hasDefaultValue :: "node Param \<Rightarrow> bool" where
  "hasDefaultValue p \<longleftrightarrow> defaultValue p \<noteq> None"

text \<open>\<^verbatim>\<open>TypeRef::getName\<close> and \<^verbatim>\<open>TypeRef::getGenerics\<close>.\<close>

fun ref_name :: "node \<Rightarrow> string" where
  "ref_name (TypeRef name _ _ _) = name"
| "ref_name (InternalTypeRef name _ _ _) = name"
| "ref_name (DeclType _) = ''decltype(...)''"
| "ref_name (FuncType _ _) = ''fn(...)''"
| "ref_name (TupleType _) = ''<tuple type>''"
| "ref_name (ReferenceTypeRef b _) = ref_name b @ ''&''"
| "ref_name (PointerTypeRef b _) = ref_name b @ ''*''"
| "ref_name _ = []"

fun ref_generics :: "node \<Rightarrow> node list" where
  "ref_generics (TypeRef _ gs _ _) = gs"
| "ref_generics (InternalTypeRef _ gs _ _) = gs"
| "ref_generics _ = []"

section \<open>Deduction\<close>

fun genericMatch :: "string \<Rightarrow> node \<Rightarrow> bool" where
  "genericMatch g (ReferenceTypeRef b _) = (ref_name b = g)"
| "genericMatch g (PointerTypeRef b _) = (ref_name b = g)"
| "genericMatch g (TypeRef name gs _ _) = (name = g \<or> list_ex (genericMatch g) gs)"
| "genericMatch g (InternalTypeRef name gs _ _) = (name = g \<or> list_ex (genericMatch g) gs)"
| "genericMatch g arg = (ref_name arg = g)"

fun isReferenceTypeRef :: "node \<Rightarrow> bool" where
  "isReferenceTypeRef (ReferenceTypeRef _ _) = True"
| "isReferenceTypeRef _ = False"

fun isPointerTypeRef :: "node \<Rightarrow> bool" where
  "isPointerTypeRef (PointerTypeRef _ _) = True"
| "isPointerTypeRef _ = False"

primrec index_where :: "('a \<Rightarrow> bool) \<Rightarrow> 'a list \<Rightarrow> nat option" where
  "index_where P [] = None"
| "index_where P (x # xs) = (if P x then Some 0 else map_option Suc (index_where P xs))"

text \<open>
  \<^verbatim>\<open>matchedGeneric\<close>: \<open>p\<close> is the parameter's type, \<open>g\<close> the generic to deduce. Whether a class type is
  marked as generic makes no difference when its list of generics is empty.
\<close>

definition matched_part :: "(ty \<Rightarrow> ty) \<Rightarrow> node \<Rightarrow> string \<Rightarrow> ty list \<Rightarrow> ty \<Rightarrow> ty \<times> int" where
  "matched_part rec p g generics arg =
     (if length generics < length (ref_generics p) then (arg, 1)
      else case index_where (genericMatch g) (ref_generics p) of
          Some i \<Rightarrow> (rec (generics ! i), 3)
        | None \<Rightarrow> (arg, 1))"

lemma index_where_bound: "index_where P xs = Some i \<Longrightarrow> i < length xs"
  by (induction xs arbitrary: i) (auto split: if_splits)

lemma matched_part_cong [fundef_cong]:
  assumes "p = p'" "g = g'" "gs = gs'" "arg = arg'" "\<And>t. t \<in> set gs' \<Longrightarrow> rec t = rec' t"
  shows "matched_part rec p g gs arg = matched_part rec' p' g' gs' arg'"
proof (cases "index_where (genericMatch g') (ref_generics p')")
  case (Some i)
  then have "i < length (ref_generics p')" by (rule index_where_bound)
  with assms Some show ?thesis by (simp add: matched_part_def)
qed (use assms in \<open>simp add: matched_part_def\<close>)

fun matchedGeneric :: "node \<Rightarrow> string \<Rightarrow> ty \<Rightarrow> ty \<times> int" where
  "matchedGeneric p g (ReferenceTy m b) =
     (if isReferenceTypeRef p then (b, 3) else (ReferenceTy m b, 1))"
| "matchedGeneric p g (PointerTy m b) =
     (if isPointerTypeRef p then (b, 3) else (PointerTy m b, 1))"
| "matchedGeneric p g (TypeAliasTy m i gs b) =
     matched_part (\<lambda>t. fst (matchedGeneric p g t)) p g gs (TypeAliasTy m i gs b)"
| "matchedGeneric p g (EnumTy m i gs l) = matched_part (\<lambda>t. fst (matchedGeneric p g t)) p g gs (EnumTy m i gs l)"
| "matchedGeneric p g (DefinedTy m i gs l) = matched_part (\<lambda>t. fst (matchedGeneric p g t)) p g gs (DefinedTy m i gs l)"
| "matchedGeneric p g (InterfaceTy m i gs l) =
     matched_part (\<lambda>t. fst (matchedGeneric p g t)) p g gs (InterfaceTy m i gs l)"
| "matchedGeneric p g arg = (arg, 1)"

text \<open>\<^verbatim>\<open>find_if\<close> over the parameters; the type of each that is looked at must be there.\<close>

fun matching_param :: "string \<Rightarrow> node Param list \<Rightarrow> (nat \<times> node) option res" where
  "matching_param g [] = Inr None"
| "matching_param g (p # ps) =
     (case param_type p of
        None \<Rightarrow> Inl null_pointer
      | Some t \<Rightarrow> if genericMatch g t then Inr (Some (0, t))
                  else bindR (matching_param g ps) (\<lambda>r. Inr (map_option (map_prod Suc id) r)))"

definition deduceFunctionType :: "tcalls \<Rightarrow> node Param \<Rightarrow> node Param list \<Rightarrow> ty list \<Rightarrow> ty list \<Rightarrow> ty list
    \<Rightarrow> (ty option \<times> int) tr" where
  "deduceFunctionType tc generic fnArgs argTypes generics deducedTypes =
     (if length deducedTypes < length generics then returnC (Some (generics ! length deducedTypes), 1)
      else bindC (liftC (matching_param (param_name generic) fnArgs)) (\<lambda>found.
        case found of
          Some (argIdx, t) \<Rightarrow> bindC (liftC (at_index argTypes argIdx)) (\<lambda>arg.
            let (deduced, imp) = matchedGeneric t (param_name generic) arg in returnC (Some deduced, imp))
        | None \<Rightarrow>
            (case param_type generic of
               Some t \<Rightarrow> bindC (transformType tc t) (\<lambda>ty. returnC (Some ty, 0))
             | None \<Rightarrow> returnC (None, -1))))"

text \<open>\<^verbatim>\<open>deduceFunction\<close>: the types, the error (empty when there is none) and the importance.\<close>

primrec deduce_generics :: "tcalls \<Rightarrow> node Param list \<Rightarrow> ty list \<Rightarrow> ty list \<Rightarrow> node Param list \<Rightarrow> ty list \<Rightarrow> int
    \<Rightarrow> (ty list \<times> string \<times> int) tr" where
  "deduce_generics tc fnArgs argTypes generics [] deducedTypes importance = returnC (deducedTypes, [], importance)"
| "deduce_generics tc fnArgs argTypes generics (g # gs) deducedTypes importance =
     bindC (deduceFunctionType tc g fnArgs argTypes generics deducedTypes) (\<lambda>(deduced, imp).
     case deduced of
       Some t \<Rightarrow> deduce_generics tc fnArgs argTypes generics gs (deducedTypes @ [t]) (importance + imp)
     | None \<Rightarrow> returnC ([], ''Coudn`t deduce type '' @ quoted (param_name g) @ '' in function call!'', -1))"

definition deduceFunction :: "tcalls \<Rightarrow> function_store \<Rightarrow> ty list \<Rightarrow> ty list \<Rightarrow> (ty list \<times> string \<times> int) tr" where
  "deduceFunction tc s argTypes generics =
     bindC (store_data s) (\<lambda>d. deduce_generics tc (fn_args d) argTypes generics (data_generics d) [] 0)"

section \<open>The best overload\<close>

type_synonym candidate = "function_store \<times> ty list"

text \<open>The first loop: the overloads that can take the number of arguments, with their deduced types.\<close>

definition sizes_fit :: "node FunctionDefData \<Rightarrow> nat \<Rightarrow> bool \<Rightarrow> bool" where
  "sizes_fit d n isIdentifier \<longleftrightarrow> argumentSizesEqual hasDefaultValue (fn_args d) n (fn_variadic d) \<or> isIdentifier"

definition collect_one :: "tcalls \<Rightarrow> ty list \<Rightarrow> node list \<Rightarrow> bool \<Rightarrow> function_store \<Rightarrow> (candidate \<times> int) list tr" where
  "collect_one tc argTypes generics isIdentifier n =
     bindC (store_data n) (\<lambda>d.
     if \<not> sizes_fit d (length argTypes) isIdentifier then returnC []
     else bindC (mapC (transformType tc) generics) (\<lambda>genericArguments.
       bindC (deduceFunction tc n argTypes genericArguments) (\<lambda>(deducedArgs, errors, importance).
       if errors = [] then returnC [((n, deducedArgs), importance)]
       else bindC (bindC (getC latestCall) derefC) (\<lambda>_. errorC TYPE_ERROR errors))))"

primrec collect :: "tcalls \<Rightarrow> ty list \<Rightarrow> node list \<Rightarrow> bool \<Rightarrow> function_store list \<Rightarrow> (candidate \<times> int) list tr" where
  "collect tc argTypes generics isIdentifier [] = returnC []"
| "collect tc argTypes generics isIdentifier (n # ns) =
     bindC (collect_one tc argTypes generics isIdentifier n) (\<lambda>xs.
     bindC (collect tc argTypes generics isIdentifier ns) (\<lambda>ys. returnC (xs @ ys)))"

text \<open>
  The comparison of the arguments with the parameters of one function: whether they fit, whether one
  needs a conversion, and the score, an \<^verbatim>\<open>int\<close>.
\<close>

definition i32 :: "int \<Rightarrow> int res" where
  "i32 x = (if - (2 ^ 31) \<le> x \<and> x < 2 ^ 31 then Inr x else Inl (Undefined ''signed overflow''))"

fun castPriority :: "CastType \<Rightarrow> int res" where
  "castPriority NoCast = Inl AssertFail"
| "castPriority AutoDeref = Inr 2"
| "castPriority ToPointer = Inr 2"
| "castPriority Valid = Inr 3"
| "castPriority AutoRef = Inr 4"

record fitting =
  argsEqual :: bool
  argsNeedCasting :: bool
  succeededArgs :: int

definition fit_argument :: "ty \<Rightarrow> ty \<Rightarrow> fitting \<Rightarrow> fitting tr" where
  "fit_argument arg type f =
     (if is_ty arg type then returnC (f\<lparr>argsEqual := True\<rparr>)
      else bindC (getC (\<lambda>c. canCast (objects c) arg type)) (\<lambda>castType.
        if castType = NoCast then returnC (f\<lparr>argsEqual := False\<rparr>)
        else bindC (liftC (castPriority castType)) (\<lambda>prio.
          bindC (liftC (i32 ((succeededArgs f + 1) * (prio + 1)))) (\<lambda>score.
          returnC \<lparr>argsEqual = True, argsNeedCasting = True, succeededArgs = score\<rparr>))))"

primrec fit_arguments :: "tcalls \<Rightarrow> bool \<Rightarrow> ty list \<Rightarrow> nat \<Rightarrow> node Param list \<Rightarrow> nat \<Rightarrow> fitting \<Rightarrow> fitting tr" where
  "fit_arguments tc isIdentifier argTypes n [] i f = returnC f"
| "fit_arguments tc isIdentifier argTypes n (p # ps) i f =
     (if \<not> argsEqual f then returnC f
      else bindC (bindC (derefC (param_type p)) (\<lambda>t. transformSizedType tc t False)) (\<lambda>type.
        if (hasDefaultValue p \<or> isIdentifier) \<and> length argTypes < n
        then fit_arguments tc isIdentifier argTypes n ps (i + 1) f
        else bindC (liftC (at_index argTypes i)) (\<lambda>arg.
          bindC (fit_argument arg type f) (\<lambda>f'. fit_arguments tc isIdentifier argTypes n ps (i + 1) f'))))"

record selection =
  exactFunction :: "candidate option"
  matchedFunctions :: "candidate list"
  matchedFunctionsPerception :: "int list"
  genericIndex :: "nat option"
  genericCount :: int
  generic_i :: nat

definition no_selection :: selection where
  "no_selection = \<lparr>exactFunction = None, matchedFunctions = [], matchedFunctionsPerception = [],
     genericIndex = None, genericCount = -1, generic_i = 0\<rparr>"

definition take_generic :: "int list \<Rightarrow> candidate \<Rightarrow> selection \<Rightarrow> selection res" where
  "take_generic importances found s =
     bindR (at_index importances (generic_i s)) (\<lambda>importance.
     Inr ((if genericCount s < importance
           then s\<lparr>genericIndex := Some (generic_i s), genericCount := importance\<rparr> else s)
          \<lparr>matchedFunctions := matchedFunctions s @ [found], generic_i := generic_i s + 1\<rparr>))"

definition take_fitting :: "candidate \<Rightarrow> fitting \<Rightarrow> selection \<Rightarrow> selection" where
  "take_fitting found f s =
     (if \<not> argsEqual f then s
      else if \<not> argsNeedCasting f then s\<lparr>exactFunction := Some found\<rparr>
      else s\<lparr>matchedFunctions := matchedFunctions s @ [found],
             matchedFunctionsPerception := matchedFunctionsPerception s @ [succeededArgs f]\<rparr>)"

definition compare_one :: "tcalls \<Rightarrow> bool \<Rightarrow> ty list \<Rightarrow> int list \<Rightarrow> candidate \<Rightarrow> selection \<Rightarrow> selection tr" where
  "compare_one tc isIdentifier argTypes importances found s =
     (if snd found \<noteq> [] then liftC (take_generic importances found s)
      else bindC (store_data (fst found)) (\<lambda>d.
        bindC (withStateC (fs_state (fst found)) (fit_arguments tc isIdentifier argTypes (length (fn_args d)) (fn_args d) 0
          \<lparr>argsEqual = True, argsNeedCasting = False, succeededArgs = 0\<rparr>)) (\<lambda>f.
        returnC (take_fitting found f s))))"

primrec compare_all :: "tcalls \<Rightarrow> bool \<Rightarrow> ty list \<Rightarrow> int list \<Rightarrow> candidate list \<Rightarrow> selection \<Rightarrow> selection tr" where
  "compare_all tc isIdentifier argTypes importances [] s = returnC s"
| "compare_all tc isIdentifier argTypes importances (x # xs) s =
     bindC (compare_one tc isIdentifier argTypes importances x s) (\<lambda>s'.
     compare_all tc isIdentifier argTypes importances xs s')"

text \<open>The largest score and its first index; scores that are not positive are passed over.\<close>

fun best_score :: "int list \<Rightarrow> nat \<Rightarrow> int \<Rightarrow> nat option \<Rightarrow> int \<times> nat option" where
  "best_score [] i m mi = (m, mi)"
| "best_score (x # xs) i m mi = (if m < x then best_score xs (i + 1) x (Some i) else best_score xs (i + 1) m mi)"

datatype FunctionFetchResponse = Ok | NoMatchesFound | AmbiguityConflict

definition pick_overload :: "selection \<Rightarrow> (candidate option \<times> FunctionFetchResponse) res" where
  "pick_overload s =
     (if 1 < length (matchedFunctions s) \<and> exactFunction s = None \<and> genericIndex s = None
      then (let (m, maxIndex) = best_score (matchedFunctionsPerception s) 0 0 None
            in case maxIndex of
                Some mi \<Rightarrow>
                  if list_all (\<lambda>i. i = m) (matchedFunctionsPerception s) then Inr (None, AmbiguityConflict)
                  else bindR (at_index (matchedFunctions s) mi) (\<lambda>f. Inr (Some f, Ok))
              | None \<Rightarrow> Inr (None, AmbiguityConflict))
      else case exactFunction s of
          Some f \<Rightarrow> Inr (Some f, Ok)
        | None \<Rightarrow>
            (case genericIndex s of
               Some gi \<Rightarrow> bindR (at_index (matchedFunctions s) gi) (\<lambda>f. Inr (Some f, Ok))
             | None \<Rightarrow>
                 (case matchedFunctions s of
                    [f] \<Rightarrow> Inr (Some f, Ok)
                  | _ \<Rightarrow> Inr (None, NoMatchesFound))))"

definition getBestFittingFunction :: "tcalls \<Rightarrow> function_store list \<Rightarrow> ty list \<Rightarrow> node list \<Rightarrow> bool
    \<Rightarrow> (candidate option \<times> FunctionFetchResponse) tr" where
  "getBestFittingFunction tc overloads argTypes generics isIdentifier =
     bindC (collect tc argTypes generics isIdentifier overloads) (\<lambda>found.
     bindC (compare_all tc isIdentifier argTypes (map snd found) (map fst found) no_selection) (\<lambda>s.
     liftC (pick_overload s)))"

end
