(* ===== verification/Calls.thy ===== *)
theory Calls
  imports Overloads
begin

text \<open>
  What is done with the choice of a function: \<^verbatim>\<open>getFunction.cc\<close>, \<^verbatim>\<open>createObjectConstructor.cc\<close>,
  \<^verbatim>\<open>shouldReturnOverload.cc\<close>, \<^verbatim>\<open>getActualFunction.cc\<close>, the conversions of \<^verbatim>\<open>tryCast.cc\<close> and the
  comparison of the generics of a type with those of its instances, \<^verbatim>\<open>typeGenericMatch.cc\<close>.
\<close>

section \<open>Conversions\<close>

definition tryCast :: "ir_value \<Rightarrow> ty \<Rightarrow> ir_value option tr" where
  "tryCast v t =
     bindC (typeC v) (\<lambda>a.
     bindC (getC (\<lambda>c. canCast (objects c) a t)) (\<lambda>castType.
     case castType of
       Valid \<Rightarrow> returnC (Some (createCast v t))
     | AutoDeref \<Rightarrow> returnC (Some (createDereferenceTo v t))
     | AutoRef \<Rightarrow> bindC (createReferenceTo v) (\<lambda>r. returnC (Some r))
     | ToPointer \<Rightarrow> bindC (createReferenceTo v) (\<lambda>r. bindC (pointer_to (isMutable t) a) (\<lambda>p.
         bindC (setTypeC r p) (\<lambda>r'. returnC (Some r'))))
     | NoCast \<Rightarrow> returnC None))"

section \<open>Structures\<close>

fun is_DefinedTy :: "ty \<Rightarrow> bool" where
  "is_DefinedTy (DefinedTy _ _ _ _) = True"
| "is_DefinedTy _ = False"

text \<open>The loop over the fields; arguments past the last field are not looked at.\<close>

fun check_fields :: "class_field list \<Rightarrow> ty list \<Rightarrow> unit tr" where
  "check_fields [] args = returnC ()"
| "check_fields (f # fs) [] = errorC TYPE_ERROR (''Missing argument '' @ quoted (cf_name f) @ '' of type ''
     @ quoted (getName (cf_type f)) @ '' in struct initializer!'')"
| "check_fields (f # fs) (a # as) =
     (if is_ty (cf_type f) a then check_fields fs as
      else errorC TYPE_ERROR (''Argument '' @ quoted (cf_name f) @ '' does not match struct fields type!''))"

definition createObjectConstructor :: "ty \<Rightarrow> ty list \<Rightarrow> ir_value tr" where
  "createObjectConstructor t args =
     (case t of
        DefinedTy m i gs l \<Rightarrow>
          bindC (bindC (getC objects) (\<lambda>h. liftC (class_at h l))) (\<lambda>ob.
          if \<not> isStruct ob then failC AssertFail
          else bindC (getC (\<lambda>c. typeInfo c (uniqueName (bt_module i)) (bt_id i))) (\<lambda>info.
            case info of
              None \<Rightarrow> failC (StdException ''out_of_range'')
            | Some (DefinedTy _ _ _ k) \<Rightarrow>
                bindC (bindC (getC objects) (\<lambda>h. liftC (class_at h k))) (\<lambda>ob'.
                bindC (check_fields (cls_fields ob') args) (\<lambda>_.
                returnC (createObjectInitialization t None [] True)))
            | Some _ \<Rightarrow> failC AssertFail))
      | _ \<Rightarrow> failC AssertFail)"

section \<open>Functions that exist already\<close>

definition func_at :: "nat \<Rightarrow> ir_func tr" where
  "func_at i = bindC (getC (\<lambda>c. funcs c i)) (\<lambda>f. liftC (the_object f))"

definition same_signature :: "nat \<Rightarrow> nat \<Rightarrow> bool tr" where
  "same_signature i j =
     bindC (func_at i) (\<lambda>f. bindC (func_at j) (\<lambda>g.
     bindC (liftC (the_type (f_type f))) (\<lambda>t. bindC (liftC (the_type (f_type g))) (\<lambda>u.
     returnC (is_ty t u \<and> length (f_generics f) = length (f_generics g)
       \<and> list_all2 is_ty (map snd (f_generics f)) (map snd (f_generics g)))))))"

primrec shouldReturnOverload :: "nat \<Rightarrow> nat list \<Rightarrow> nat option tr" where
  "shouldReturnOverload i [] = returnC None"
| "shouldReturnOverload i (j # js) =
     bindC (same_signature i j) (\<lambda>same. if same then returnC (Some j) else shouldReturnOverload i js)"

definition getActualFunctionArgs :: "function_store \<Rightarrow> node Param list tr" where
  "getActualFunctionArgs s =
     bindC (store_data s) (\<lambda>d.
     returnC (if s_currentClass (fs_state s) \<noteq> None \<and> \<not> fn_static d \<and> fn_args d \<noteq> []
                \<and> param_name (hd (fn_args d)) = ''self''
              then tl (fn_args d) else fn_args d))"

section \<open>Generics of a type and of its instances\<close>

fun ty_generics :: "ty \<Rightarrow> ty list" where
  "ty_generics (TypeAliasTy _ _ gs _) = gs"
| "ty_generics (EnumTy _ _ gs _) = gs"
| "ty_generics (DefinedTy _ _ gs _) = gs"
| "ty_generics (InterfaceTy _ _ gs _) = gs"
| "ty_generics _ = []"

text \<open>The default generics and the number of generics without a default; an alias has none.\<close>

fun ty_defaults :: "type_heap \<Rightarrow> ty \<Rightarrow> (ty list \<times> nat) option" where
  "ty_defaults h (TypeAliasTy _ _ _ _) = Some ([], 0)"
| "ty_defaults h (EnumTy _ _ _ l) = map_option (\<lambda>c. (defaultGenerics c, defaultGenericStart c)) (objs h l)"
| "ty_defaults h (DefinedTy _ _ _ l) = map_option (\<lambda>c. (defaultGenerics c, defaultGenericStart c)) (objs h l)"
| "ty_defaults h (InterfaceTy _ _ _ l) = map_option (\<lambda>c. (defaultGenerics c, defaultGenericStart c)) (objs h l)"
| "ty_defaults h _ = None"

definition add_defaults :: "(ty list \<times> nat) option \<Rightarrow> ty list \<Rightarrow> ty list" where
  "add_defaults ds gs =
     (case ds of
        Some (defaults, start) \<Rightarrow>
          if length gs \<le> start then gs @ drop (size_minus (length gs) start) defaults else gs
      | None \<Rightarrow> gs)"

definition typeGenericsMatch :: "tcalls \<Rightarrow> node \<Rightarrow> ty \<Rightarrow> bool tr" where
  "typeGenericsMatch tc t other =
     bindC (mapC (transformType tc) (ref_generics t)) (\<lambda>generated.
     bindC (getC (\<lambda>c. add_defaults (ty_defaults (objects c) other) generated)) (\<lambda>gs.
     returnC (list_all2 (\<lambda>g h. is_ty g h \<and> isMutable g = isMutable h) gs (ty_generics other))))"

section \<open>The function of a call\<close>

definition checkIfContextEqual :: "string \<Rightarrow> bool \<Rightarrow> nat \<Rightarrow> nat tr" where
  "checkIfContextEqual name canBePrivate i =
     bindC (func_at i) (\<lambda>f.
     if \<not> canBePrivate \<and> f_privacy f = PRIVATE
     then errorC TYPE_ERROR (''Function '' @ quoted name
       @ '' is a private method and it cant be accessed from this context!'')
     else returnC i)"

text \<open>A value that is called: the types of its function must equal those of the arguments.\<close>

definition call_value :: "string \<Rightarrow> ir_value \<Rightarrow> ty list \<Rightarrow> ir_value tr" where
  "call_value name v argTypes =
     bindC (typeC v) (\<lambda>t.
     bindC (liftC (getFunctionType t)) (\<lambda>fnType.
     case v of
       IrEnumInit _ _ \<Rightarrow> returnC v
     | _ \<Rightarrow>
         (case fnType of
            Some (FunctionTy _ _ params r variadic) \<Rightarrow>
              if argumentSizesEqual (\<lambda>_. False) params (length argTypes) variadic
                \<and> list_all (\<lambda>(i, p). if i < length argTypes then is_ty p (argTypes ! i) else variadic)
                    (enumerate 0 params)
              then returnC v
              else errorC TYPE_ERROR (''Call parameters to '' @ quoted name @ '' does not match its function type!'')
          | _ \<Rightarrow> errorC TYPE_ERROR (''Value with name '' @ quoted name @ '' is not callable!''))))"

definition no_match :: "string \<Rightarrow> store_type \<Rightarrow> ty list \<Rightarrow> bool \<Rightarrow> ir_value tr" where
  "no_match name st argTypes hasSelf =
     (case st_value st of
        Some v \<Rightarrow> call_value name v argTypes
      | None \<Rightarrow>
          (case st_type st of
             Some t \<Rightarrow>
               bindC (getC (\<lambda>c. is_DefinedTy t \<and> (case t of DefinedTy _ _ _ l \<Rightarrow>
                  (case objs (objects c) l of Some ob \<Rightarrow> isStruct ob | None \<Rightarrow> False) | _ \<Rightarrow> False))) (\<lambda>is_struct.
               if is_struct then createObjectConstructor t argTypes
               else errorC TYPE_ERROR (''Value with name '' @ quoted name @ '' is a type that cant be called!''))
           | None \<Rightarrow>
               if st_module st \<noteq> None
               then errorC TYPE_ERROR (''Silly billy, you cant call modules! ('' @ quoted name @ '')'')
               else if hasSelf \<and> argTypes = [] then failC (Undefined ''vector index'')
               else if st_overloads st = None \<and> st_functions st = None
               then errorC VARIABLE_ERROR (''Function '' @ quoted name @ '' is not defined!'')
               else errorC VARIABLE_ERROR (''No matches found for '' @ quoted name)))"

definition getFunction_call :: "tcalls \<Rightarrow> store_type \<Rightarrow> string \<Rightarrow> ty list \<Rightarrow> node list \<Rightarrow> bool \<Rightarrow> bool \<Rightarrow> ir_value tr" where
  "getFunction_call tc st name argTypes generics isIdentifier hasSelf =
     bindC (getBestFittingFunction tc (case st_overloads st of Some os \<Rightarrow> os | None \<Rightarrow> []) argTypes generics isIdentifier)
       (\<lambda>(best, res).
     case res of
       Ok \<Rightarrow>
         bindC (derefC best) (\<lambda>(fn, args).
         bindC (transformFunction tc fn args False (case st_functions st of Some fs \<Rightarrow> fs | None \<Rightarrow> [])) (\<lambda>i.
         bindC (checkIfContextEqual name (st_canBePrivate st) i) (\<lambda>j. returnC (IrFunc j))))
     | NoMatchesFound \<Rightarrow> no_match name st argTypes hasSelf
     | AmbiguityConflict \<Rightarrow>
         if hasSelf \<and> argTypes = [] then failC (Undefined ''vector index'')
         else errorC TYPE_ERROR (''Ambiguous function call to '' @ quoted name @ '' found!''))"

end
