(* ===== verification/Overloads_Props.thy ===== *)
theory Overloads_Props
  imports Calls
begin

text \<open>
  What the choice of an overload promises, and where it depends on the order of the declarations.
  A comparison is replayed over a log: the candidates with the results of comparing their arguments.
\<close>

section \<open>Deduction\<close>

lemma matched_part_importance: "0 \<le> snd (matched_part rec p g gs arg)"
  by (simp add: matched_part_def split: option.splits)

lemma matchedGeneric_importance: "0 \<le> snd (matchedGeneric p g t)"
  by (cases t) (simp_all add: matched_part_importance)

lemma deduceFunctionType_success:
  assumes "deduceFunctionType tc g ps argTypes generics ds c = Inr ((Some t, imp), c')"
  shows "0 \<le> imp \<and> (length ds < length generics \<longrightarrow> t = generics ! length ds)"
proof (cases "length ds < length generics")
  case True
  with assms show ?thesis by (simp add: deduceFunctionType_def tr_defs)
next
  case False
  with assms obtain found where found: "matching_param (param_name g) ps = Inr found"
    by (auto simp: deduceFunctionType_def tr_defs res_simps)
  show ?thesis
  proof (cases found)
    case None
    with assms False found show ?thesis
      by (auto simp: deduceFunctionType_def tr_defs res_simps split: option.splits)
  next
    case (Some p)
    obtain i ty where p: "p = (i, ty)" by fastforce
    with assms False found Some obtain arg where "matchedGeneric ty (param_name g) arg = (t, imp)"
      by (auto simp: deduceFunctionType_def tr_defs res_simps split: prod.splits) (metis surj_pair)
    with matchedGeneric_importance [of ty "param_name g" arg] False show ?thesis by simp
  qed
qed

lemma deduce_generics_success:
  assumes "deduce_generics tc ps argTypes generics gs ds imp c = Inr ((ts, [], n), c')" "0 \<le> imp"
  shows "0 \<le> n \<and> length ts = length ds + length gs \<and> take (length ds) ts = ds
    \<and> (\<forall>k < length ts. length ds \<le> k \<longrightarrow> k < length generics \<longrightarrow> ts ! k = generics ! k)"
  using assms
proof (induction gs arbitrary: ds imp c)
  case Nil
  then show ?case by (auto simp: tr_defs)
next
  case (Cons g gs)
  from Cons.prems(1) obtain deduced i d where one: "deduceFunctionType tc g ps argTypes generics ds c = Inr ((deduced, i), d)"
    and rest: "(case deduced of Some t \<Rightarrow> deduce_generics tc ps argTypes generics gs (ds @ [t]) (imp + i)
       | None \<Rightarrow> returnC ([], ''Coudn`t deduce type '' @ quoted (param_name g) @ '' in function call!'', -1)) d
       = Inr ((ts, [], n), c')"
    by (auto simp: bindC_def res_simps)
  from rest obtain t where t: "deduced = Some t" by (cases deduced) (simp_all add: tr_defs)
  from deduceFunctionType_success [OF one [unfolded t]] have "0 \<le> i" and exp: "length ds < length generics \<longrightarrow> t = generics ! length ds"
    by simp_all
  with Cons.IH [of "ds @ [t]" "imp + i" d] rest t Cons.prems(2)
  have IH: "0 \<le> n" "length ts = Suc (length ds + length gs)" "take (Suc (length ds)) ts = ds @ [t]"
    "\<forall>k < length ts. Suc (length ds) \<le> k \<longrightarrow> k < length generics \<longrightarrow> ts ! k = generics ! k"
    by simp_all
  have at: "ts ! length ds = t"
    using IH(2,3) by (metis nth_append_length nth_take lessI)
  have "take (length ds) ts = ds"
    using IH(2,3) by (metis append_take_drop_id append_eq_conv_conj length_append take_take min.absorb1 le_Suc_eq
        butlast_snoc butlast_take diff_Suc_1 Suc_leI less_add_Suc1)
  moreover have "ts ! k = generics ! k" if "k < length ts" "length ds \<le> k" "k < length generics" for k
    using that IH(4) at exp by (cases "k = length ds") auto
  ultimately show ?case using IH(1,2) by simp
qed

lemma deduceFunction_success:
  assumes "deduceFunction tc s argTypes generics c = Inr ((ts, [], n), c')"
  shows "\<exists>d. fn_data (fs_function s) = Some d \<and> 0 \<le> n \<and> length ts = length (data_generics d)
    \<and> (\<forall>k < length ts. k < length generics \<longrightarrow> ts ! k = generics ! k)"
proof -
  from assms obtain d where d: "fn_data (fs_function s) = Some d"
    and run: "deduce_generics tc (fn_args d) argTypes generics (data_generics d) [] 0 c = Inr ((ts, [], n), c')"
    by (auto simp: deduceFunction_def store_data_def derefC_def tr_defs res_simps split: option.splits)
  from deduce_generics_success [OF run] d show ?thesis by simp
qed

section \<open>Collecting\<close>

definition applicable :: "ty list \<Rightarrow> bool \<Rightarrow> function_store list \<Rightarrow> candidate \<Rightarrow> bool" where
  "applicable argTypes isIdentifier overloads x \<longleftrightarrow> fst x \<in> set overloads \<and>
     (\<exists>d. fn_data (fs_function (fst x)) = Some d \<and> sizes_fit d (length argTypes) isIdentifier
       \<and> length (snd x) = length (data_generics d))"

lemma collect_one_applicable:
  assumes "collect_one tc argTypes generics isIdentifier n c = Inr (xs, c')"
  shows "list_all (\<lambda>(x, i). applicable argTypes isIdentifier [n] x \<and> 0 \<le> i) xs"
proof -
  from assms obtain d where d: "fn_data (fs_function n) = Some d"
    by (auto simp: collect_one_def store_data_def derefC_def tr_defs res_simps split: option.splits)
  show ?thesis
  proof (cases "sizes_fit d (length argTypes) isIdentifier")
    case False
    with assms d show ?thesis by (simp add: collect_one_def store_data_def derefC_def tr_defs)
  next
    case True
    with assms d obtain gs e ts err imp h where ded: "deduceFunction tc n argTypes gs e = Inr ((ts, err, imp), h)"
      and fin: "(if err = [] then returnC [((n, ts), imp)]
          else bindC (bindC (getC latestCall) derefC) (\<lambda>_. errorC TYPE_ERROR err)) h = Inr (xs, c')"
      by (auto simp: collect_one_def store_data_def derefC_def tr_defs res_simps)
    from fin have err: "err = []" and xs: "xs = [((n, ts), imp)]"
      by (auto simp: tr_defs res_simps split: if_splits)
    from deduceFunction_success [OF ded [unfolded err]] d True xs show ?thesis
      by (auto simp: applicable_def)
  qed
qed

lemma collect_applicable:
  assumes "collect tc argTypes generics isIdentifier ns c = Inr (xs, c')"
  shows "list_all (\<lambda>(x, i). applicable argTypes isIdentifier ns x \<and> 0 \<le> i) xs"
  using assms
proof (induction ns arbitrary: xs c)
  case Nil
  then show ?case by (simp add: tr_defs)
next
  case (Cons n ns)
  from Cons.prems obtain ys zs d where one: "collect_one tc argTypes generics isIdentifier n c = Inr (ys, d)"
    and rest: "collect tc argTypes generics isIdentifier ns d = Inr (zs, c')" and xs: "xs = ys @ zs"
    by (auto simp: tr_defs res_simps)
  have "applicable argTypes isIdentifier [n] x \<Longrightarrow> applicable argTypes isIdentifier (n # ns) x"
    "applicable argTypes isIdentifier ns x \<Longrightarrow> applicable argTypes isIdentifier (n # ns) x" for x
    by (auto simp: applicable_def)
  with collect_one_applicable [OF one] Cons.IH [OF rest] xs show ?case
    by (fastforce simp: list_all_iff)
qed

section \<open>Comparing\<close>

definition is_generic :: "candidate \<times> fitting \<Rightarrow> bool" where
  "is_generic x \<longleftrightarrow> snd (fst x) \<noteq> []"

definition exact_fit :: "candidate \<times> fitting \<Rightarrow> bool" where
  "exact_fit x \<longleftrightarrow> \<not> is_generic x \<and> argsEqual (snd x) \<and> \<not> argsNeedCasting (snd x)"

definition cast_fit :: "candidate \<times> fitting \<Rightarrow> bool" where
  "cast_fit x \<longleftrightarrow> \<not> is_generic x \<and> argsEqual (snd x) \<and> argsNeedCasting (snd x)"

definition kept_fit :: "candidate \<times> fitting \<Rightarrow> bool" where
  "kept_fit x \<longleftrightarrow> is_generic x \<or> cast_fit x"

fun replay :: "int list \<Rightarrow> (candidate \<times> fitting) list \<Rightarrow> selection \<Rightarrow> selection res" where
  "replay imps [] s = Inr s"
| "replay imps (x # xs) s =
     bindR (if is_generic x then take_generic imps (fst x) s else Inr (take_fitting (fst x) (snd x) s)) (replay imps xs)"

text \<open>What is recorded of a candidate that is not generic: its arguments have been compared in its own state.\<close>

definition compared :: "tcalls \<Rightarrow> bool \<Rightarrow> ty list \<Rightarrow> function_store \<Rightarrow> fitting \<Rightarrow> bool" where
  "compared tc isIdentifier argTypes n f \<longleftrightarrow> (\<exists>d c c'. fn_data (fs_function n) = Some d \<and>
     withStateC (fs_state n) (fit_arguments tc isIdentifier argTypes (length (fn_args d)) (fn_args d) 0
       \<lparr>argsEqual = True, argsNeedCasting = False, succeededArgs = 0\<rparr>) c = Inr (f, c'))"

lemma compare_all_log:
  assumes "compare_all tc isIdentifier argTypes imps xs s c = Inr (s', c')"
  shows "\<exists>log. map fst log = xs \<and> replay imps log s = Inr s'
    \<and> (\<forall>x\<in>set log. \<not> is_generic x \<longrightarrow> compared tc isIdentifier argTypes (fst (fst x)) (snd x))"
  using assms
proof (induction xs arbitrary: s c)
  case Nil
  then show ?case by (simp add: tr_defs)
next
  case (Cons x xs)
  from Cons.prems obtain t d where one: "compare_one tc isIdentifier argTypes imps x s c = Inr (t, d)"
    and rest: "compare_all tc isIdentifier argTypes imps xs t d = Inr (s', c')"
    by (auto simp: bindC_def res_simps)
  from Cons.IH [OF rest] obtain log where log: "map fst log = xs" "replay imps log t = Inr s'"
    "\<forall>x\<in>set log. \<not> is_generic x \<longrightarrow> compared tc isIdentifier argTypes (fst (fst x)) (snd x)" by blast
  show ?case
  proof (cases "snd x = []")
    case False
    with one have "take_generic imps x s = Inr t" by (auto simp: compare_one_def tr_defs res_simps)
    with log False show ?thesis
      by (intro exI [of _ "(x, undefined) # log"]) (simp add: is_generic_def)
  next
    case True
    with one obtain dat f e where "fn_data (fs_function (fst x)) = Some dat"
      and run: "withStateC (fs_state (fst x)) (fit_arguments tc isIdentifier argTypes (length (fn_args dat)) (fn_args dat) 0
          \<lparr>argsEqual = True, argsNeedCasting = False, succeededArgs = 0\<rparr>) c = Inr (f, e)"
      and "t = take_fitting x f s"
      by (auto simp: compare_one_def tr_defs res_simps store_data_def derefC_def split: option.splits)
    moreover from this(1,2) have "compared tc isIdentifier argTypes (fst x) f" by (auto simp: compared_def)
    ultimately show ?thesis using log True
      by (intro exI [of _ "(x, f) # log"]) (simp add: is_generic_def)
  qed
qed

lemma take_generic_Inr:
  assumes "take_generic imps x s = Inr t"
  shows "exactFunction t = exactFunction s" "matchedFunctions t = matchedFunctions s @ [x]"
    "matchedFunctionsPerception t = matchedFunctionsPerception s" "generic_i t = Suc (generic_i s)"
    "genericIndex t = (if genericCount s < imps ! generic_i s then Some (generic_i s) else genericIndex s)"
    "genericCount t = max (genericCount s) (imps ! generic_i s)" "generic_i s < length imps"
  using assms by (auto simp: take_generic_def at_index_def res_simps split: if_splits)

lemma take_fitting_simps [simp]:
  "generic_i (take_fitting x f s) = generic_i s" "genericIndex (take_fitting x f s) = genericIndex s"
  "genericCount (take_fitting x f s) = genericCount s"
  by (simp_all add: take_fitting_def)

lemma replay_lists:
  assumes "replay imps log s = Inr s'"
  shows "exactFunction s' = (case filter exact_fit log of [] \<Rightarrow> exactFunction s | es \<Rightarrow> Some (fst (last es)))
    \<and> matchedFunctions s' = matchedFunctions s @ map fst (filter kept_fit log)
    \<and> matchedFunctionsPerception s' = matchedFunctionsPerception s @ map (succeededArgs \<circ> snd) (filter cast_fit log)"
  using assms
proof (induction log arbitrary: s)
  case (Cons x log)
  from Cons.prems obtain t where one: "(if is_generic x then take_generic imps (fst x) s else Inr (take_fitting (fst x) (snd x) s)) = Inr t"
    and rest: "replay imps log t = Inr s'" by (auto simp: res_simps)
  note IH = Cons.IH [OF rest]
  show ?case
  proof (cases "is_generic x")
    case True
    with one have "take_generic imps (fst x) s = Inr t" by simp
    from take_generic_Inr [OF this] IH True show ?thesis by (simp add: exact_fit_def cast_fit_def kept_fit_def split: list.splits)
  next
    case False
    with one have "t = take_fitting (fst x) (snd x) s" by simp
    with IH False show ?thesis
      by (cases "argsEqual (snd x)"; cases "argsNeedCasting (snd x)")
        (simp_all add: take_fitting_def exact_fit_def cast_fit_def kept_fit_def split: list.splits)
  qed
qed simp

text \<open>A generic index is there exactly if a candidate is generic, and it counts generic candidates.\<close>

lemma replay_index:
  assumes "replay imps log s = Inr s'" "list_all (\<lambda>i. 0 \<le> i) imps" "-1 \<le> genericCount s"
    and "genericIndex s = None \<longleftrightarrow> genericCount s = -1" "case genericIndex s of None \<Rightarrow> True | Some g \<Rightarrow> g < generic_i s"
  shows "(genericIndex s' = None \<longleftrightarrow> genericIndex s = None \<and> filter is_generic log = [])
    \<and> (case genericIndex s' of None \<Rightarrow> True | Some g \<Rightarrow> g < generic_i s + length (filter is_generic log))"
  using assms(1,3-)
proof (induction log arbitrary: s)
  case Nil
  then show ?case by (auto split: option.splits)
next
  case (Cons x log)
  from Cons.prems(1) obtain t where one: "(if is_generic x then take_generic imps (fst x) s else Inr (take_fitting (fst x) (snd x) s)) = Inr t"
    and rest: "replay imps log t = Inr s'" by (auto simp: res_simps)
  show ?case
  proof (cases "is_generic x")
    case True
    with one have "take_generic imps (fst x) s = Inr t" by simp
    note t = take_generic_Inr [OF this]
    from t(7) assms(2) have imp: "0 \<le> imps ! generic_i s" by (simp add: list_all_length)
    have "-1 \<le> genericCount t" "genericIndex t = None \<longleftrightarrow> genericCount t = -1"
      "case genericIndex t of None \<Rightarrow> True | Some g \<Rightarrow> g < generic_i t" "genericIndex t \<noteq> None"
      using t imp Cons.prems by (auto split: option.splits)
    with Cons.IH [OF rest] t True show ?thesis by (auto split: option.splits)
  next
    case False
    with one have t: "t = take_fitting (fst x) (snd x) s" by simp
    with Cons.IH [OF rest, unfolded t] Cons.prems False show ?thesis by (auto split: option.splits)
  qed
qed

section \<open>The choice\<close>

lemma best_score_index:
  "best_score xs i m mi = (m', Some k) \<Longrightarrow> mi = Some k \<and> m' = m \<or> i \<le> k \<and> k < i + length xs \<and> m < m' \<and> xs ! (k - i) = m'"
proof (induction xs arbitrary: i m mi)
  case (Cons x xs)
  then show ?case
    by (auto split: if_splits dest!: Cons.IH simp: nth_Cons' Suc_le_eq less_Suc_eq)
qed simp

lemma best_score_keeps: "\<exists>m' k. best_score xs i m (Some j) = (m', Some k)"
  by (induction xs arbitrary: i m j) auto

lemma best_score_found: "x \<in> set xs \<Longrightarrow> m < x \<Longrightarrow> \<exists>m' k. best_score xs i m mi = (m', Some k)"
proof (induction xs arbitrary: i m mi)
  case (Cons y xs)
  show ?case
  proof (cases "m < y")
    case True
    with best_score_keeps show ?thesis by simp
  next
    case False
    with Cons show ?thesis by auto
  qed
qed simp

lemma best_score_max: "best_score xs i m mi = (m', mi') \<Longrightarrow> m \<le> m' \<and> list_all (\<lambda>x. x \<le> m') xs"
  by (induction xs arbitrary: i m mi) (fastforce split: if_splits)+

text \<open>
  The outcome of a comparison in terms of its log: the last exact match; else, with generic
  candidates, the one at the index found among all that were kept; else the only match by
  conversions, or the first of several with the largest score unless all scores are equal.
\<close>

definition outcome :: "(candidate \<times> fitting) list \<Rightarrow> nat option \<Rightarrow> candidate option \<times> FunctionFetchResponse" where
  "outcome log gi =
     (let exact = filter exact_fit log; kept = filter kept_fit log;
          scores = map (succeededArgs \<circ> snd) (filter cast_fit log)
      in if exact \<noteq> [] then (Some (fst (last exact)), Ok)
         else case gi of
             Some g \<Rightarrow> (Some (fst (kept ! g)), Ok)
           | None \<Rightarrow>
               if kept = [] then (None, NoMatchesFound)
               else if length kept = 1 then (Some (fst (hd kept)), Ok)
               else case best_score scores 0 0 None of
                   (m, Some k) \<Rightarrow> if list_all (\<lambda>i. i = m) scores then (None, AmbiguityConflict) else (Some (fst (kept ! k)), Ok)
                 | (m, None) \<Rightarrow> (None, AmbiguityConflict))"

lemma pick_overload_outcome:
  assumes pick: "pick_overload sel = Inr r"
    and exact: "exactFunction sel = (case filter exact_fit log of [] \<Rightarrow> None | es \<Rightarrow> Some (fst (last es)))"
    and kept: "matchedFunctions sel = map fst (filter kept_fit log)"
    and scores: "matchedFunctionsPerception sel = map (succeededArgs \<circ> snd) (filter cast_fit log)"
  shows "r = outcome log (genericIndex sel)"
proof (cases "filter exact_fit log = []")
  case False
  then have "exactFunction sel = Some (fst (last (filter exact_fit log)))"
    using exact by (cases "filter exact_fit log") simp_all
  with pick False show ?thesis by (simp add: pick_overload_def outcome_def Let_def)
next
  case True
  with exact have none: "exactFunction sel = None" by simp
  show ?thesis
  proof (cases "genericIndex sel")
    case (Some g)
    with pick none True show ?thesis
      by (auto simp: pick_overload_def outcome_def Let_def kept at_index_def res_simps split: if_splits)
  next
    case None
    let ?kept = "filter kept_fit log"
    obtain m mi where best: "best_score (matchedFunctionsPerception sel) 0 0 None = (m, mi)" by fastforce
    consider "?kept = []" | x where "?kept = [x]" | "1 < length ?kept"
      by (cases ?kept rule: list.exhaust; cases "tl ?kept") auto
    then show ?thesis
    proof cases
      case 3
      with pick none True None best show ?thesis
        by (cases mi) (auto simp: pick_overload_def outcome_def Let_def kept scores at_index_def res_simps split: if_splits)
    qed (use pick none True None kept in \<open>simp_all add: pick_overload_def outcome_def Let_def\<close>)
  qed
qed

lemma getBest_outcome:
  assumes "getBestFittingFunction tc overloads argTypes generics isIdentifier c = Inr ((best, res), c')"
  shows "\<exists>log gi. (best, res) = outcome log gi
    \<and> (\<forall>x\<in>set log. applicable argTypes isIdentifier overloads (fst x)
        \<and> (\<not> is_generic x \<longrightarrow> compared tc isIdentifier argTypes (fst (fst x)) (snd x)))
    \<and> (gi = None \<longleftrightarrow> filter is_generic log = []) \<and> (case gi of None \<Rightarrow> True | Some g \<Rightarrow> g < length (filter is_generic log))
    \<and> (\<exists>d e found. collect tc argTypes generics isIdentifier overloads d = Inr (found, e) \<and> map fst log = map fst found)"
proof -
  from assms obtain found d sel e where col: "collect tc argTypes generics isIdentifier overloads c = Inr (found, d)"
    and cmp: "compare_all tc isIdentifier argTypes (map snd found) (map fst found) no_selection d = Inr (sel, e)"
    and ch: "pick_overload sel = Inr (best, res)"
    by (auto simp: getBestFittingFunction_def tr_defs res_simps)
  from compare_all_log [OF cmp] obtain log where log: "map fst log = map fst found"
    and rep: "replay (map snd found) log no_selection = Inr sel"
    and cmpd: "\<forall>x\<in>set log. \<not> is_generic x \<longrightarrow> compared tc isIdentifier argTypes (fst (fst x)) (snd x)" by blast
  from collect_applicable [OF col] have app: "\<forall>x\<in>set found. applicable argTypes isIdentifier overloads (fst x)"
    and imp: "list_all (\<lambda>i. 0 \<le> i) (map snd found)" by (auto simp: list_all_iff)
  have "applicable argTypes isIdentifier overloads (fst x)" if "x \<in> set log" for x
  proof -
    from that have "fst x \<in> set (map fst found)" unfolding log [symmetric] by simp
    with app show ?thesis by auto
  qed
  with cmpd have entries: "\<forall>x\<in>set log. applicable argTypes isIdentifier overloads (fst x)
      \<and> (\<not> is_generic x \<longrightarrow> compared tc isIdentifier argTypes (fst (fst x)) (snd x))" by blast
  have out: "(best, res) = outcome log (genericIndex sel)"
    using replay_lists [OF rep] by (intro pick_overload_outcome [OF ch]) (simp_all add: no_selection_def split: list.splits)
  from replay_index [OF rep imp]
  have "genericIndex sel = None \<longleftrightarrow> filter is_generic log = []"
    "case genericIndex sel of None \<Rightarrow> True | Some g \<Rightarrow> g < length (filter is_generic log)"
    by (simp_all add: no_selection_def split: option.splits)
  moreover have "\<exists>d e found. collect tc argTypes generics isIdentifier overloads d = Inr (found, e) \<and> map fst log = map fst found"
    using col log by blast
  ultimately show ?thesis using out entries by (intro exI [of _ log] exI [of _ "genericIndex sel"] conjI) assumption+
qed

lemma collect_stores:
  "collect tc argTypes generics isIdentifier ns c = Inr (found, c') \<Longrightarrow>
   map (fst \<circ> fst) found = filter (\<lambda>n. case fn_data (fs_function n) of None \<Rightarrow> False
     | Some d \<Rightarrow> sizes_fit d (length argTypes) isIdentifier) ns"
proof (induction ns arbitrary: found c)
  case Nil
  then show ?case by (simp add: tr_defs)
next
  case (Cons n ns)
  from Cons.prems obtain ys zs d where one: "collect_one tc argTypes generics isIdentifier n c = Inr (ys, d)"
    and rest: "collect tc argTypes generics isIdentifier ns d = Inr (zs, c')" and xs: "found = ys @ zs"
    by (auto simp: tr_defs res_simps)
  from one obtain dat where dat: "fn_data (fs_function n) = Some dat"
    by (auto simp: collect_one_def store_data_def derefC_def tr_defs res_simps split: option.splits)
  with one have "map (fst \<circ> fst) ys = (if sizes_fit dat (length argTypes) isIdentifier then [n] else [])" (is "?l = _")
    by (auto simp: collect_one_def store_data_def derefC_def tr_defs res_simps split: if_splits)
  with Cons.IH [OF rest] xs dat show ?case by (simp add: comp_def split: if_splits)
qed

section \<open>Kinds of overloads\<close>

definition takes :: "ty list \<Rightarrow> bool \<Rightarrow> (node FunctionDefData \<Rightarrow> bool) \<Rightarrow> function_store \<Rightarrow> bool" where
  "takes argTypes isIdentifier P s \<longleftrightarrow> (\<exists>d. fn_data (fs_function s) = Some d \<and> sizes_fit d (length argTypes) isIdentifier \<and> P d)"

definition generic_overload :: "ty list \<Rightarrow> bool \<Rightarrow> function_store \<Rightarrow> bool" where
  "generic_overload argTypes isIdentifier = takes argTypes isIdentifier (\<lambda>d. data_generics d \<noteq> [])"

text \<open>A function without generics whose comparison, whenever it succeeds, has a result in \<open>P\<close>.\<close>

definition fits :: "tcalls \<Rightarrow> bool \<Rightarrow> ty list \<Rightarrow> (fitting \<Rightarrow> bool) \<Rightarrow> function_store \<Rightarrow> bool" where
  "fits tc isIdentifier argTypes P s \<longleftrightarrow> takes argTypes isIdentifier (\<lambda>d. data_generics d = []) s
     \<and> (\<forall>f. compared tc isIdentifier argTypes s f \<longrightarrow> P f)"

definition exactly :: "fitting \<Rightarrow> bool" where
  "exactly f \<longleftrightarrow> argsEqual f \<and> \<not> argsNeedCasting f"

definition by_conversion :: "int \<Rightarrow> fitting \<Rightarrow> bool" where
  "by_conversion k f \<longleftrightarrow> argsEqual f \<and> argsNeedCasting f \<and> succeededArgs f = k"

lemma applicable_kinds:
  assumes "applicable argTypes isIdentifier overloads (fst x)"
  shows "fits tc isIdentifier argTypes P (fst (fst x)) \<Longrightarrow> \<not> is_generic x"
    "generic_overload argTypes isIdentifier (fst (fst x)) \<Longrightarrow> is_generic x"
  using assms by (auto simp: applicable_def fits_def generic_overload_def takes_def is_generic_def)

lemma log_stores:
  assumes "collect tc argTypes generics isIdentifier ns c = Inr (found, c')" "map fst log = map fst found"
    and "\<forall>n\<in>set ns. takes argTypes isIdentifier (\<lambda>_. True) n"
  shows "map (fst \<circ> fst) log = ns"
proof -
  have "map (fst \<circ> fst) log = map (fst \<circ> fst) found"
    using assms(2) by (metis map_map)
  with collect_stores [OF assms(1)] assms(3) show ?thesis by (auto simp: takes_def filter_id_conv split: option.splits)
qed

lemma takes_mono: "takes argTypes isIdentifier P s \<Longrightarrow> takes argTypes isIdentifier (\<lambda>_. True) s"
  by (auto simp: takes_def)

section \<open>The properties\<close>

text \<open>
  C29. A call is resolved to one of the overloads, one that takes the number of arguments, with a type
  for each of its generic parameters; one without generics has been compared with the arguments and
  each of them fits.
\<close>

theorem chosen_overload_fits:
  assumes "getBestFittingFunction tc overloads argTypes generics isIdentifier c = Inr ((Some (s, ts), res), c')"
  shows "res = Ok \<and> applicable argTypes isIdentifier overloads (s, ts)
    \<and> (ts = [] \<longrightarrow> Collect (\<lambda>f. compared tc isIdentifier argTypes s f \<and> argsEqual f) \<noteq> {})"
proof -
  from getBest_outcome [OF assms] obtain log gi where out: "(Some (s, ts), res) = outcome log gi"
    and log: "\<forall>x\<in>set log. applicable argTypes isIdentifier overloads (fst x)
        \<and> (\<not> is_generic x \<longrightarrow> compared tc isIdentifier argTypes (fst (fst x)) (snd x))"
    and gi: "gi = None \<longleftrightarrow> filter is_generic log = []" "case gi of None \<Rightarrow> True | Some g \<Rightarrow> g < length (filter is_generic log)"
    by blast
  let ?kept = "filter kept_fit log"
  have "\<exists>x\<in>set log. (s, ts) = fst x \<and> res = Ok \<and> (is_generic x \<or> argsEqual (snd x))"
  proof (cases "filter exact_fit log = []")
    case False
    then have "last (filter exact_fit log) \<in> set (filter exact_fit log)" by (rule last_in_set)
    with out False show ?thesis by (intro bexI [of _ "last (filter exact_fit log)"]) (auto simp: outcome_def Let_def exact_fit_def)
  next
    case True
    have kept: "x \<in> set log \<and> (is_generic x \<or> argsEqual (snd x))" if "x \<in> set ?kept" for x
      using that by (auto simp: cast_fit_def kept_fit_def)
    show ?thesis
    proof (cases gi)
      case (Some g)
      with gi have "g < length (filter is_generic log)" by simp
      also have "\<dots> \<le> length ?kept" by (induction log) (auto simp: kept_fit_def)
      finally have "?kept ! g \<in> set ?kept" by (rule nth_mem)
      note in_log = kept [OF this]
      have "(s, ts) = fst (?kept ! g) \<and> res = Ok" using out True Some by (simp add: outcome_def Let_def)
      with in_log show ?thesis by blast
    next
      case None
      with gi(1) have same: "?kept = filter cast_fit log" by (auto simp: filter_empty_conv kept_fit_def intro!: filter_cong)
      show ?thesis
      proof (cases "length ?kept \<le> 1")
        case True
        with out \<open>filter exact_fit log = []\<close> None have "?kept \<noteq> []" by (auto simp: outcome_def Let_def)
        then have "hd ?kept \<in> set ?kept" by (rule hd_in_set)
        note in_log = kept [OF this]
        from True \<open>?kept \<noteq> []\<close> have "length ?kept = 1" by (cases ?kept) simp_all
        with out \<open>filter exact_fit log = []\<close> None \<open>?kept \<noteq> []\<close> have "(s, ts) = fst (hd ?kept) \<and> res = Ok"
          by (simp add: outcome_def Let_def)
        with in_log show ?thesis by blast
      next
        case False
        let ?scores = "map (succeededArgs \<circ> snd) (filter cast_fit log)"
        obtain m mi where best: "best_score ?scores 0 0 None = (m, mi)" by fastforce
        with out False True None obtain k where k: "mi = Some k" and "(s, ts) = fst (?kept ! k)" "res = Ok"
          by (cases mi) (auto simp: outcome_def Let_def split: if_splits)
        moreover from best_score_index [OF best [unfolded k]] have "k < length ?kept" using same by simp
        then have "?kept ! k \<in> set ?kept" by (rule nth_mem)
        note in_log = kept [OF this]
        ultimately show ?thesis using in_log by blast
      qed
    qed
  qed
  then obtain f where f: "((s, ts), f) \<in> set log" "res = Ok" "is_generic ((s, ts), f) \<or> argsEqual f" by auto
  with log have app: "applicable argTypes isIdentifier overloads (s, ts)"
    and "ts = [] \<longrightarrow> compared tc isIdentifier argTypes s f" by (auto simp: is_generic_def)
  with f show ?thesis by (auto simp: is_generic_def)
qed

text \<open>
  C30. When an overload without generics fits exactly, the call is resolved to an overload that fits
  exactly: no conversion, no generic function and no ambiguity gets in its way.
\<close>

theorem exact_overload_wins:
  assumes "getBestFittingFunction tc overloads argTypes generics isIdentifier c = Inr ((best, res), c')"
    and "s \<in> set overloads" "fits tc isIdentifier argTypes exactly s"
  shows "res = Ok \<and> best \<in> (\<lambda>t. Some (t, [])) ` {t \<in> set overloads. takes argTypes isIdentifier (\<lambda>d. data_generics d = []) t
     \<and> Collect (compared tc isIdentifier argTypes t) \<inter> Collect exactly \<noteq> {}}"
proof -
  from getBest_outcome [OF assms(1)] obtain log gi d e found where out: "(best, res) = outcome log gi"
    and log: "\<forall>x\<in>set log. applicable argTypes isIdentifier overloads (fst x)
        \<and> (\<not> is_generic x \<longrightarrow> compared tc isIdentifier argTypes (fst (fst x)) (snd x))"
    and col: "collect tc argTypes generics isIdentifier overloads d = Inr (found, e)" and same: "map fst log = map fst found"
    by blast
  have "s \<in> set (map (fst \<circ> fst) found)"
    using assms(2,3) by (auto simp only: collect_stores [OF col]) (auto simp: fits_def takes_def)
  also have "map (fst \<circ> fst) found = map (fst \<circ> fst) log" using same by (metis map_map)
  finally obtain x where x: "x \<in> set log" "s = fst (fst x)" by auto
  with log have app: "applicable argTypes isIdentifier overloads (fst x)"
    and cmp: "\<not> is_generic x \<Longrightarrow> compared tc isIdentifier argTypes s (snd x)" by auto
  from applicable_kinds(1) [OF app] assms(3) x have "\<not> is_generic x" by simp
  with cmp assms(3) x have "x \<in> set (filter exact_fit log)" by (simp add: exact_fit_def fits_def exactly_def)
  then have ne: "filter exact_fit log \<noteq> []" by (metis list.set_cases list.distinct(1))
  then have last: "last (filter exact_fit log) \<in> set (filter exact_fit log)" by (rule last_in_set)
  then obtain t f where l: "last (filter exact_fit log) = ((t, []), f)" "((t, []), f) \<in> set log" "exactly f"
  proof -
    obtain y z f where y: "last (filter exact_fit log) = ((y, z), f)" by (metis surj_pair)
    with last have "((y, z), f) \<in> set log" "exact_fit ((y, z), f)" by auto
    with y that [of y f] show thesis by (auto simp: exact_fit_def exactly_def is_generic_def)
  qed
  with log have "t \<in> set overloads" "compared tc isIdentifier argTypes t f"
    "takes argTypes isIdentifier (\<lambda>d. data_generics d = []) t" by (auto simp: applicable_def is_generic_def takes_def)
  with out ne l show ?thesis by (auto simp: outcome_def Let_def)
qed

text \<open>
  C31. Overloads without generics that all fit by conversions with one score are ambiguous as soon as
  there are two of them; that includes two copies of one function.
\<close>

theorem equal_scores_ambiguous:
  assumes "getBestFittingFunction tc overloads argTypes generics isIdentifier c = Inr ((best, res), c')"
    and "list_all (fits tc isIdentifier argTypes (by_conversion k)) overloads" "2 \<le> length overloads"
  shows "best = None \<and> res = AmbiguityConflict"
proof -
  from getBest_outcome [OF assms(1)] obtain log gi d e found where out: "(best, res) = outcome log gi"
    and log: "\<forall>x\<in>set log. applicable argTypes isIdentifier overloads (fst x)
        \<and> (\<not> is_generic x \<longrightarrow> compared tc isIdentifier argTypes (fst (fst x)) (snd x))"
    and gi: "gi = None \<longleftrightarrow> filter is_generic log = []"
    and col: "collect tc argTypes generics isIdentifier overloads d = Inr (found, e)" and same: "map fst log = map fst found"
    by blast
  have fit: "fits tc isIdentifier argTypes (by_conversion k) n" if "n \<in> set overloads" for n
    using assms(2) that by (simp add: list_all_iff)
  then have "map (fst \<circ> fst) log = overloads"
    by (intro log_stores [OF col same]) (auto simp: fits_def dest: takes_mono)
  with assms(3) have len: "2 \<le> length log" by (metis length_map)
  have one: "cast_fit x \<and> succeededArgs (snd x) = k" if "x \<in> set log" for x
  proof -
    from that log have app: "applicable argTypes isIdentifier overloads (fst x)" by simp
    then have "fst (fst x) \<in> set overloads" by (simp add: applicable_def)
    note f = fit [OF this]
    from applicable_kinds(1) [OF app f] have "\<not> is_generic x" by simp
    with that log f show ?thesis by (auto simp: cast_fit_def fits_def by_conversion_def)
  qed
  then have casts: "filter cast_fit log = log" "filter kept_fit log = log" "filter exact_fit log = []"
    "filter is_generic log = []"
    by (auto simp: filter_empty_conv filter_id_conv cast_fit_def exact_fit_def kept_fit_def)
  obtain m mi where best: "best_score (map (succeededArgs \<circ> snd) log) 0 0 None = (m, mi)" by fastforce
  have "list_all (\<lambda>i. i = m) (map (succeededArgs \<circ> snd) log)" if "mi = Some j" for j
  proof -
    from best_score_index [OF best [unfolded that]] have "j < length log" "map (succeededArgs \<circ> snd) log ! j = m" by auto
    with one have "m = k" by (metis comp_apply nth_map nth_mem)
    with one show ?thesis by (simp add: list_all_iff)
  qed
  moreover have "length log \<noteq> 1" "log \<noteq> []" "gi = None" using len gi casts by auto
  ultimately show ?thesis using out casts best
    by (cases mi) (simp_all add: outcome_def Let_def)
qed

text \<open>
  A generic function competes with a function that fits by conversion, and the order of their
  declarations decides: the index of the best generic function counts generic functions only, but is
  used in the list of all that were kept. Two generic candidates are in general compared with the
  importance of other candidates for the same reason.
\<close>

theorem order_decides_generic:
  assumes "fits tc isIdentifier argTypes (by_conversion k) f" "generic_overload argTypes isIdentifier g"
    and "getBestFittingFunction tc [f, g] argTypes generics isIdentifier c = Inr ((best, res), c')"
    and "getBestFittingFunction tc [g, f] argTypes generics isIdentifier d = Inr ((best', res'), d')"
  shows "map_option fst best = Some f \<and> map_option fst best' = Some g \<and> res = Ok \<and> res' = Ok"
proof -
  have known: "map_option fst b = Some a \<and> r = Ok"
    if run: "getBestFittingFunction tc [a, b'] argTypes generics isIdentifier e = Inr ((b, r), e')"
      and kinds: "a = f \<and> b' = g \<or> a = g \<and> b' = f" for a b' b r e e'
  proof -
    from getBest_outcome [OF run] obtain log gi h i found where out: "(b, r) = outcome log gi"
      and log: "\<forall>x\<in>set log. applicable argTypes isIdentifier [a, b'] (fst x)
          \<and> (\<not> is_generic x \<longrightarrow> compared tc isIdentifier argTypes (fst (fst x)) (snd x))"
      and gi: "gi = None \<longleftrightarrow> filter is_generic log = []" "case gi of None \<Rightarrow> True | Some g \<Rightarrow> g < length (filter is_generic log)"
      and col: "collect tc argTypes generics isIdentifier [a, b'] h = Inr (found, i)" and same: "map fst log = map fst found"
      by blast
    have "map (fst \<circ> fst) log = [a, b']"
      using assms(1,2) kinds by (intro log_stores [OF col same]) (auto simp: fits_def generic_overload_def dest: takes_mono)
    then obtain x y where xy: "log = [x, y]" "fst (fst x) = a" "fst (fst y) = b'" by (auto simp: map_eq_Cons_conv)
    with log have app: "applicable argTypes isIdentifier [a, b'] (fst x)" "applicable argTypes isIdentifier [a, b'] (fst y)"
      and cmp: "\<not> is_generic x \<Longrightarrow> compared tc isIdentifier argTypes a (snd x)"
        "\<not> is_generic y \<Longrightarrow> compared tc isIdentifier argTypes b' (snd y)" by auto
    have gen: "is_generic z" if "fst (fst z) = g" "applicable argTypes isIdentifier [a, b'] (fst z)" for z
      using applicable_kinds(2) [OF that(2)] that(1) assms(2) by simp
    have cast: "cast_fit z \<and> \<not> is_generic z" if "fst (fst z) = f" "applicable argTypes isIdentifier [a, b'] (fst z)"
      "\<not> is_generic z \<Longrightarrow> compared tc isIdentifier argTypes f (snd z)" for z
    proof -
      from applicable_kinds(1) [OF that(2)] that(1) assms(1) have "\<not> is_generic z" by simp
      with that(3) assms(1) show ?thesis by (simp add: cast_fit_def fits_def by_conversion_def)
    qed
    have "kept_fit x \<and> kept_fit y \<and> \<not> exact_fit x \<and> \<not> exact_fit y \<and> (is_generic x \<noteq> is_generic y)"
      using kinds gen [of x] gen [of y] cast [of x] cast [of y] xy app cmp
      by (auto simp: kept_fit_def exact_fit_def cast_fit_def)
    with gi xy have "gi = Some 0" "filter kept_fit log = [x, y]" "filter exact_fit log = []"
      by (auto split: if_splits option.splits)
    with out xy show ?thesis by (simp add: outcome_def Let_def)
  qed
  from known [OF assms(3)] known [OF assms(4)] show ?thesis by simp
qed

text \<open>
  Deducing the generic \<open>g\<close> of a parameter of type \<open>g\<close>, \<open>&g\<close>, \<open>*g\<close> or \<open>C<g>\<close> gives the part of the argument's
  type at its place; but the search goes on inside that part, so for an argument \<open>C<C<t>>\<close> it gives \<open>t\<close>.
\<close>

theorem deduced_part:
  "matchedGeneric (TypeRef g [] x inner) g t = (t, 1)"
  "matchedGeneric (ReferenceTypeRef (TypeRef g [] x inner) m') g (ReferenceTy m t) = (t, 3)"
  "matchedGeneric (PointerTypeRef (TypeRef g [] x inner) m') g (PointerTy m t) = (t, 3)"
  "matchedGeneric (TypeRef name [TypeRef g [] x inner] x inner) g (DefinedTy m i [IntTy m' b s] l) = (IntTy m' b s, 3)"
  "matchedGeneric (TypeRef name [TypeRef g [] x inner] x inner) g
     (DefinedTy m i [DefinedTy m'' j [IntTy m' b s] l'] l) = (IntTy m' b s, 3)"
proof -
  show "matchedGeneric (TypeRef g [] x inner) g t = (t, 1)" by (cases t) (simp_all add: matched_part_def)
qed (simp_all add: matched_part_def)

text \<open>
  C32. A value that \<open>tryCast\<close> converts has the type it was asked for: the very type, or one that is equal
  to it as types are compared.
\<close>

theorem tryCast_type:
  assumes "tryCast v t c = Inr (Some w, c')"
  shows "value_type c' w = Some t \<or> (case value_type c' w of Some u \<Rightarrow> is_ty t u | None \<Rightarrow> False)"
proof -
  from assms obtain a where a: "value_type c v = Some a"
    by (auto simp: tryCast_def typeC_def tr_defs the_type_def res_simps split: option.splits)
  have copy: "is_ty b (fst (copy_type a h)) = is_ty b a" for b h
  proof (induction b)
    case (TypeAliasTy m i gs b)
    then show ?case by simp
  qed (cases a; simp add: copy_obj_def)+
  have ref: "is_ty t r" if "value_type e w' = Some r" "createReferenceTo v c = Inr (w', e)" "case t of ReferenceTy _ p \<Rightarrow> is_ty p a | _ \<Rightarrow> False" for w' e r
  proof -
    from createReferenceTo_type [OF that(2)] a that(1) obtain m where "r = ReferenceTy m (fst (copy_type a (objects c)))"
      by (metis option.inject)
    with that(3) copy show ?thesis by (auto split: ty.splits)
  qed
  show ?thesis
  proof (cases "canCast (objects c) a t")
    case NoCast
    with assms a show ?thesis by (simp add: tryCast_def typeC_def tr_defs the_type_def)
  next
    case Valid
    with assms a show ?thesis by (auto simp: tryCast_def typeC_def tr_defs the_type_def createCast_def value_type_def)
  next
    case AutoDeref
    with assms a show ?thesis
      by (auto simp: tryCast_def typeC_def tr_defs the_type_def createDereferenceTo_def value_type_def)
  next
    case AutoRef
    with assms a have "createReferenceTo v c = Inr (w, c')"
      by (auto simp: tryCast_def typeC_def tr_defs the_type_def res_simps)
    moreover from AutoRef have "case t of ReferenceTy _ p \<Rightarrow> is_ty p a | _ \<Rightarrow> False"
      by (auto simp: canCast_def split: if_splits)
    moreover from createReferenceTo_type [OF calculation(1)] obtain r where "value_type c' w = Some r" by blast
    ultimately show ?thesis using ref by simp
  next
    case ToPointer
    with assms a obtain r d p e where "createReferenceTo v c = Inr (r, d)" and p: "pointer_to (isMutable t) a d = Inr (p, e)"
      and set: "setTypeC r p e = Inr (w, c')"
      by (auto simp: tryCast_def typeC_def tr_defs the_type_def res_simps)
    from createReferenceTo_type [OF this(1)] obtain x where r: "r = IrReferenceTo x v" 
      using \<open>createReferenceTo v c = Inr (r, d)\<close> by (auto simp: createReferenceTo_def typeC_def tr_defs res_simps)
    with set have "value_type c' w = Some p" by (auto simp: setTypeC_def tr_defs value_type_def)
    moreover from p have "p = PointerTy (isMutable t) (fst (copy_type a (objects d)))"
      by (auto simp: pointer_to_def getPointerTo_def split: prod.splits)
    moreover from ToPointer have "case t of PointerTy _ q \<Rightarrow> is_ty q a | _ \<Rightarrow> False"
      by (auto simp: canCast_def split: if_splits)
    ultimately show ?thesis using copy by (auto split: ty.splits)
  qed
qed

section \<open>Samples\<close>

text \<open>\<^verbatim>\<open>f(x: i32)\<close>, \<^verbatim>\<open>f(x: i64)\<close> and \<^verbatim>\<open>f<T>(x: T)\<close>, where the types named are those of the language.\<close>

definition sample_type :: "node \<Rightarrow> ty" where
  "sample_type t = IntTy False (if ref_name t = ''i64'' then 64 else 32) True"

definition sample_calls :: tcalls where
  "sample_calls = \<lparr>transformType = (\<lambda>t. returnC (sample_type t)), transformSizedType = (\<lambda>t _. returnC (sample_type t)),
     transformFunction = (\<lambda>_ _ _ _. failC AssertFail), trans = (\<lambda>_. failC AssertFail),
     transMethod = (\<lambda>_ _. failC AssertFail),
     getFromIdentifier = (\<lambda>_ _ _. failC AssertFail), getFromIndex = (\<lambda>_ _ _. failC AssertFail),
     transformClass = (\<lambda>_ _ _. failC AssertFail), transformEnum = (\<lambda>_ _ _. failC AssertFail),
     transformTypeExtension = (\<lambda>_ _. failC AssertFail)\<rparr>"

definition sample_param :: "string \<Rightarrow> node Param" where
  "sample_param t = Param ''x'' (Some (TypeRef t [] [] None)) None None Normal False"

definition sample_overload :: "string \<Rightarrow> node Param list option \<Rightarrow> function_store" where
  "sample_overload t generics = \<lparr>fs_function = FunctionDef (FunctionDefData ''f'' PUBLIC [sample_param t] None False True False False
       generics None no_attributes),
     fs_state = \<lparr>s_stack = [empty_scope], s_module = new_Module ''m'' [], s_uuidStack = [], s_currentClass = None\<rparr>\<rparr>"

definition takes_i32 :: function_store where "takes_i32 = sample_overload ''i32'' None"
definition takes_i64 :: function_store where "takes_i64 = sample_overload ''i64'' None"
definition takes_any :: function_store where
  "takes_any = sample_overload ''T'' (Some [Param ''T'' None None None Generic False])"

definition sample_args :: "ty list" where "sample_args = [IntTy False 32 True]"

definition sample_resolve :: "function_store list \<Rightarrow> ((candidate option \<times> FunctionFetchResponse) \<times> tctx) res" where
  "sample_resolve os = getBestFittingFunction sample_calls os sample_args [] False (empty_context (new_Module ''m'' []) False False)"

lemmas sample_defs = takes_i32_def takes_i64_def takes_any_def sample_overload_def sample_param_def sample_calls_def
  sample_type_def sample_args_def

lemma sample_compared:
  "compared sample_calls False sample_args takes_i32 f \<Longrightarrow> exactly f"
  "compared sample_calls False sample_args takes_i64 f \<Longrightarrow> by_conversion 4 f"
  by (auto simp: compared_def sample_defs withStateC_def saveState_def setState_def tr_defs derefC_def fit_argument_def
      hasDefaultValue_def at_index_def canCast_def int_name_def exactly_def by_conversion_def i32_def res_simps to_string_def
      nat_to_string.simps digit_char_def split: if_splits)

lemma sample_takes:
  "takes sample_args False (\<lambda>d. data_generics d = []) takes_i32" "takes sample_args False (\<lambda>d. data_generics d = []) takes_i64"
  "generic_overload sample_args False takes_any"
  by (simp_all add: takes_def generic_overload_def sample_defs data_generics_def sizes_fit_def argumentSizesEqual_def default_args_def)

lemma sample_fits:
  "fits sample_calls False sample_args exactly takes_i32" "fits sample_calls False sample_args (by_conversion 4) takes_i64"
  using sample_compared sample_takes by (auto simp: fits_def)

definition resolves :: "((candidate option \<times> FunctionFetchResponse) \<times> tctx) res \<Rightarrow> bool" where
  "resolves r = (case r of Inl _ \<Rightarrow> False | Inr _ \<Rightarrow> True)"

lemmas sample_run_simps = getBestFittingFunction_def collect_one_def store_data_def derefC_def
  sample_defs sizes_fit_def argumentSizesEqual_def default_args_def deduceFunction_def data_generics_def
  deduceFunctionType_def tr_defs at_index_def compare_one_def no_selection_def take_generic_def hasDefaultValue_def
  withStateC_def saveState_def setState_def empty_context_def fit_argument_def int_name_def to_string_def
  nat_to_string.simps digit_char_def canCast_def i32_def take_fitting_def pick_overload_def

lemma sample_resolves:
  "resolves (sample_resolve [takes_any, takes_i64, takes_i32])" "resolves (sample_resolve [takes_i64, takes_i64])"
  "resolves (sample_resolve [takes_i64, takes_any])" "resolves (sample_resolve [takes_any, takes_i64])"
  by (simp_all add: resolves_def sample_resolve_def sample_run_simps)

lemma resolvesE: "resolves r \<Longrightarrow> (\<And>b s c. r = Inr ((b, s), c) \<Longrightarrow> P) \<Longrightarrow> P"
  by (cases r) (auto simp: resolves_def)

theorem chosen_overload_fits_witness:
  "\<exists>b c. sample_resolve [takes_any, takes_i64, takes_i32] = Inr ((Some b, Ok), c) \<and> applicable sample_args False [takes_any, takes_i64, takes_i32] b"
proof -
  from sample_resolves(1) obtain b r c where run: "sample_resolve [takes_any, takes_i64, takes_i32] = Inr ((b, r), c)" by (rule resolvesE)
  have "b \<noteq> None"
    using run by (auto simp: sample_resolve_def sample_run_simps)
  then obtain s ts where b: "b = Some (s, ts)" by auto
  from chosen_overload_fits [OF run [unfolded b sample_resolve_def]] run b show ?thesis by auto
qed

theorem exact_overload_wins_witness:
  "\<exists>c. sample_resolve [takes_any, takes_i64, takes_i32] = Inr ((Some (takes_i32, []), Ok), c)"
proof -
  from sample_resolves(1) obtain b r c where run: "sample_resolve [takes_any, takes_i64, takes_i32] = Inr ((b, r), c)" by (rule resolvesE)
  have "r = Ok \<and> b \<in> (\<lambda>t. Some (t, [])) ` {t \<in> set [takes_any, takes_i64, takes_i32].
      takes sample_args False (\<lambda>d. data_generics d = []) t \<and> Collect (compared sample_calls False sample_args t) \<inter> Collect exactly \<noteq> {}}"
    by (rule exact_overload_wins [OF run [unfolded sample_resolve_def]]) (use sample_fits(1) in simp_all)
  moreover have "\<not> (compared sample_calls False sample_args takes_i64 f \<and> exactly f)" for f
    using sample_compared(2) [of f] by (auto simp: exactly_def by_conversion_def)
  moreover have "\<not> takes sample_args False (\<lambda>d. data_generics d = []) takes_any"
    by (simp add: takes_def sample_defs data_generics_def)
  ultimately show ?thesis using run by auto
qed

theorem equal_scores_ambiguous_witness:
  "\<exists>c. sample_resolve [takes_i64, takes_i64] = Inr ((None, AmbiguityConflict), c)"
proof -
  from sample_resolves(2) obtain b r c where run: "sample_resolve [takes_i64, takes_i64] = Inr ((b, r), c)" by (rule resolvesE)
  have "b = None \<and> r = AmbiguityConflict"
    by (rule equal_scores_ambiguous [OF run [unfolded sample_resolve_def], of 4]) (use sample_fits(2) in simp_all)
  with run show ?thesis by blast
qed

theorem order_decides_generic_witness:
  "\<exists>x c y d. sample_resolve [takes_i64, takes_any] = Inr ((Some (takes_i64, x), Ok), c)
     \<and> sample_resolve [takes_any, takes_i64] = Inr ((Some (takes_any, y), Ok), d)"
proof -
  from sample_resolves(3) obtain b r c where run: "sample_resolve [takes_i64, takes_any] = Inr ((b, r), c)" by (rule resolvesE)
  from sample_resolves(4) obtain b' r' c' where run': "sample_resolve [takes_any, takes_i64] = Inr ((b', r'), c')" by (rule resolvesE)
  have "map_option fst b = Some takes_i64 \<and> map_option fst b' = Some takes_any \<and> r = Ok \<and> r' = Ok"
    by (rule order_decides_generic [OF sample_fits(2) sample_takes(3) run [unfolded sample_resolve_def] run' [unfolded sample_resolve_def]])
  with run run' show ?thesis by auto
qed

theorem tryCast_type_witness:
  "\<exists>w c. tryCast (IrBoolean (Some (IntTy False 1 True)) True) (PointerTy False (IntTy False 1 True))
     (empty_context (new_Module ''m'' []) False False) = Inr (Some w, c)
     \<and> (case value_type c w of Some u \<Rightarrow> is_ty (PointerTy False (IntTy False 1 True)) u | None \<Rightarrow> False)"
proof -
  obtain w c where run: "tryCast (IrBoolean (Some (IntTy False 1 True)) True) (PointerTy False (IntTy False 1 True))
     (empty_context (new_Module ''m'' []) False False) = Inr (Some w, c)"
    by (simp add: tryCast_def typeC_def tr_defs value_type_def the_type_def canCast_def createReferenceTo_def reference_to_def
        getReferenceTo_def pointer_to_def getPointerTo_def setTypeC_def int_name_def)
  from tryCast_type [OF run] have "case value_type c w of Some u \<Rightarrow> is_ty (PointerTy False (IntTy False 1 True)) u | None \<Rightarrow> False"
    by (auto simp: int_name_def split: option.splits)
  with run show ?thesis by blast
qed

end
