(* ===== verification/Caches_Props.thy ===== *)
theory Caches_Props
  imports Caches TypeChecker
begin

text \<open>
  What the caches promise: the types made of a definition are found in the order they were made,
  and what exactly a class gets from its ancestors: their fields behind its own, and their
  overloads, those of a grandparent twice.
\<close>

section \<open>Instances of types\<close>

text \<open>A registration: the name of the definition, the item, the name of the instance if it has one.\<close>

type_synonym registration = "string \<times> Item \<times> string"

definition store_name :: "registration \<Rightarrow> string" where
  "store_name r = (case r of (u, _, i) \<Rightarrow> if i = [] then u else i)"

definition register_types :: "registration list \<Rightarrow> cache \<Rightarrow> cache" where
  "register_types rs = fold (\<lambda>(u, t, i). setTransformedType u t i) rs"

definition last_item :: "registration list \<Rightarrow> string \<Rightarrow> Item option" where
  "last_item rs i = map_of (rev (map (\<lambda>r. (store_name r, fst (snd r))) rs)) i"

lemma register_types_state:
  "createdTypes (register_types rs c) i =
     (case last_item rs i of Some t \<Rightarrow> Some t | None \<Rightarrow> createdTypes c i)
   \<and> identifierLookup (register_types rs c) u =
     (case map store_name (filter (\<lambda>r. fst r = u) rs) of
        [] \<Rightarrow> identifierLookup c u
      | ids \<Rightarrow> Some ((case identifierLookup c u of None \<Rightarrow> [] | Some old \<Rightarrow> old) @ ids))"
proof (induction rs rule: rev_induct)
  case Nil
  then show ?case by (simp add: register_types_def last_item_def)
next
  case (snoc r rs)
  obtain v t j where r: "r = (v, t, j)" using prod_cases3 by blast
  have "register_types (rs @ [r]) c = setTransformedType v t j (register_types rs c)"
    by (simp add: register_types_def r)
  with snoc.IH r show ?case
    by (auto simp: setTransformedType_def last_item_def store_name_def Let_def split: list.splits option.splits)
qed

lemma last_item_registered: "r \<in> set rs \<Longrightarrow> last_item rs (store_name r) \<noteq> None"
  by (auto simp: last_item_def map_of_eq_None_iff image_iff)

section \<open>Running the steps of inheritance\<close>

definition overloads :: "string \<Rightarrow> cache \<Rightarrow> function_store list" where
  "overloads name c = (case getFunction name c of None \<Rightarrow> [] | Some fs \<Rightarrow> fs)"

lemma cacheC_run [simp]: "cacheC f c = Inr ((), c\<lparr>ctx_cache := f (ctx_cache c)\<rparr>)"
  by (simp add: cacheC_def tr_defs)

lemma forC_cacheC: "forC (\<lambda>x. cacheC (g x)) xs c = Inr ((), c\<lparr>ctx_cache := fold g xs (ctx_cache c)\<rparr>)"
  by (induction xs arbitrary: c) (simp_all add: tr_defs)

lemma setFunction_overloads:
  assumes "in_order (cachedFunctions c)"
  shows "overloads key (setFunction n f c) = (if key = n then f # overloads key c else overloads key c)"
    and "in_order (cachedFunctions (setFunction n f c))"
  using assms by (simp_all add: overloads_def getFunction_def setFunction_def fm.get_put fm.valid_put)

lemma fold_setFunction:
  "in_order (cachedFunctions c) \<Longrightarrow>
     overloads key (fold (setFunction n) fs c) = (if key = n then rev fs else []) @ overloads key c
     \<and> in_order (cachedFunctions (fold (setFunction n) fs c))"
  by (induction fs arbitrary: c) (simp_all add: setFunction_overloads)

text \<open>The overloads of an ancestor that a key of the child gets, in the order they are copied.\<close>

definition copied :: "string \<Rightarrow> string \<Rightarrow> bool \<Rightarrow> string \<Rightarrow> (string \<times> function_store list) list \<Rightarrow> function_store list" where
  "copied pu cu allow key hits =
     concat (map snd (filter (\<lambda>(name, _). inherited_name pu cu allow name = Inr (Some key)) hits))"

lemma inherit_overloads_run:
  assumes "inherit_overloads pu cu allow (name, fs) c = Inr ((), c')" "in_order (cachedFunctions (ctx_cache c))"
  shows "overloads key (ctx_cache c') = rev (copied pu cu allow key [(name, fs)]) @ overloads key (ctx_cache c)
    \<and> in_order (cachedFunctions (ctx_cache c')) \<and> objects c' = objects c"
proof -
  from assms(1) obtain n where n: "inherited_name pu cu allow name = Inr n"
    and run: "(case n of None \<Rightarrow> returnC () | Some m \<Rightarrow> forC (\<lambda>fn. cacheC (setFunction m fn)) fs) c = Inr ((), c')"
    by (auto simp: inherit_overloads_def bindC_def liftC_def res_simps)
  with fold_setFunction [OF assms(2), of key] assms(2) show ?thesis
    by (cases n) (auto simp: copied_def returnC_def forC_cacheC)
qed

lemma forC_inherit_overloads:
  "forC (inherit_overloads pu cu allow) hits c = Inr ((), c') \<Longrightarrow> in_order (cachedFunctions (ctx_cache c)) \<Longrightarrow>
     overloads key (ctx_cache c') = rev (copied pu cu allow key hits) @ overloads key (ctx_cache c)
     \<and> in_order (cachedFunctions (ctx_cache c')) \<and> objects c' = objects c"
proof (induction hits arbitrary: c)
  case Nil
  then show ?case by (simp add: copied_def returnC_def)
next
  case (Cons h hits)
  obtain name fs where h: "h = (name, fs)" by fastforce
  with Cons.prems obtain d where one: "inherit_overloads pu cu allow (name, fs) c = Inr ((), d)"
    and rest: "forC (inherit_overloads pu cu allow) hits d = Inr ((), c')"
    by (auto simp: bindC_def res_simps)
  from inherit_overloads_run [OF one Cons.prems(2), of key] Cons.IH [OF rest] h show ?case
    by (auto simp: copied_def)
qed

text \<open>What the copies of transformed functions change: their own map and the virtual table of the child.\<close>

definition only_vtable :: "nat \<Rightarrow> tctx \<Rightarrow> tctx \<Rightarrow> bool" where
  "only_vtable l c c' \<longleftrightarrow> cachedFunctions (ctx_cache c') = cachedFunctions (ctx_cache c)
     \<and> (\<forall>i. map_option cls_fields (objs (objects c') i) = map_option cls_fields (objs (objects c) i)
       \<and> map_option cls_parent (objs (objects c') i) = map_option cls_parent (objs (objects c) i)
       \<and> map_option hasVtable (objs (objects c') i) = map_option hasVtable (objs (objects c) i))"

lemma only_vtable_refl: "only_vtable l c c"
  by (simp add: only_vtable_def)

lemma only_vtable_trans: "only_vtable l c d \<Longrightarrow> only_vtable l d e \<Longrightarrow> only_vtable l c e"
  by (simp add: only_vtable_def)

lemma forC_only_vtable:
  assumes "\<And>x c c'. f x c = Inr ((), c') \<Longrightarrow> only_vtable l c c'"
  shows "forC f xs c = Inr ((), c') \<Longrightarrow> only_vtable l c c'"
proof (induction xs arbitrary: c)
  case Nil
  then show ?case by (simp add: returnC_def only_vtable_refl)
next
  case (Cons x xs)
  then obtain d where "f x c = Inr ((), d)" "forC f xs d = Inr ((), c')" by (auto simp: bindC_def res_simps)
  with assms Cons.IH only_vtable_trans show ?case by blast
qed

lemma inherit_slot_only_vtable: "inherit_slot l i c = Inr ((), c') \<Longrightarrow> only_vtable l c c'"
  by (auto simp: inherit_slot_def tr_defs res_simps only_vtable_def addVtableItem_def update_obj_def
      split: if_splits option.splits)

lemma inherit_created_only_vtable:
  assumes "inherit_created pu cu allow l f c = Inr ((), c')"
  shows "only_vtable l c c'"
proof (cases "inherited_name pu cu allow (fst f)")
  case (Inr n)
  show ?thesis
  proof (cases n)
    case None
    with Inr assms have "c' = c" by (simp add: inherit_created_def bindC_def liftC_def returnC_def)
    then show ?thesis by (simp add: only_vtable_refl)
  next
    case (Some m)
    let ?d = "c\<lparr>ctx_cache := setTransformedFunction m (snd f) (ctx_cache c)\<rparr>"
    from Inr Some assms have "forC (inherit_slot l) (snd f) ?d = Inr ((), c')"
      by (simp add: inherit_created_def bindC_def liftC_def)
    from forC_only_vtable [OF inherit_slot_only_vtable this] have "only_vtable l ?d c'" by simp
    moreover have "only_vtable l c ?d" by (simp add: only_vtable_def setTransformedFunction_def)
    ultimately show ?thesis using only_vtable_trans by blast
  qed
qed (use assms in \<open>simp add: inherit_created_def bindC_def liftC_def\<close>)

definition fields_at :: "tctx \<Rightarrow> nat \<Rightarrow> class_field list" where
  "fields_at c l = (case objs (objects c) l of None \<Rightarrow> [] | Some ob \<Rightarrow> cls_fields ob)"

text \<open>One ancestor.\<close>

lemma inherit_from_run:
  assumes run: "inherit_from child l parent lp allow c = Inr ((), c')"
    and order: "in_order (cachedFunctions (ctx_cache c))" and child: "objs (objects c) l \<noteq> None"
  shows "overloads key (ctx_cache c') =
      rev (copied (uuid parent) (uuid child) allow key
        (getAllFunctionsByUUID (uuid parent) (cachedFunctions (ctx_cache c)))) @ overloads key (ctx_cache c)"
    and "in_order (cachedFunctions (ctx_cache c'))"
    and "fields_at c' i = (if i = l then fields_at c l @ fields_at c lp else fields_at c i)"
    and "map_option cls_parent (objs (objects c') i) = map_option cls_parent (objs (objects c) i)"
proof -
  let ?hits = "getAllFunctionsByUUID (uuid parent) (cachedFunctions (ctx_cache c))"
  from run obtain d e p where
      created: "forC (inherit_created (uuid parent) (uuid child) allow l)
        (getAllFunctionsByUUID (uuid parent) (createdFunctions (ctx_cache c))) c = Inr ((), d)"
    and copies: "forC (inherit_overloads (uuid parent) (uuid child) allow) ?hits d = Inr ((), e)"
    and p: "class_at (objects e) lp = Inr p"
    and c': "c' = e\<lparr>objects := update_obj (\<lambda>ob. ob\<lparr>cls_fields := cls_fields ob @ cls_fields p,
       hasVtable := hasVtable p\<rparr>) l (objects e)\<rparr>"
    by (auto simp: inherit_from_def bindC_def getC_def liftC_def modifyC_def res_simps)
  from forC_only_vtable [OF inherit_created_only_vtable created] have d: "only_vtable l c d" by simp
  then have order_d: "in_order (cachedFunctions (ctx_cache d))" using order by (simp add: only_vtable_def)
  from d have same: "overloads key (ctx_cache d) = overloads key (ctx_cache c)"
    by (simp add: only_vtable_def overloads_def getFunction_def)
  note e = forC_inherit_overloads [OF copies order_d, of key]
  from e same c' show "overloads key (ctx_cache c') =
      rev (copied (uuid parent) (uuid child) allow key ?hits) @ overloads key (ctx_cache c)" by simp
  from e c' show "in_order (cachedFunctions (ctx_cache c'))" by simp
  have obj_e: "objects e = objects d" using e by simp
  have at_d: "map_option cls_fields (objs (objects d) i) = map_option cls_fields (objs (objects c) i)" for i
    using d by (simp add: only_vtable_def)
  then have fields_d: "fields_at d i = fields_at c i" for i
    by (cases "objs (objects d) i"; cases "objs (objects c) i")
      (metis at_d fields_at_def option.simps(4,5) option.map option.distinct(1) option.inject)+
  from p obj_e have "fields_at d lp = cls_fields p"
    by (auto simp: fields_at_def class_at_def split: option.splits)
  then have p_fields: "cls_fields p = fields_at c lp" using fields_d by simp
  from at_d [of l] child obtain y where y: "objs (objects d) l = Some y" by auto
  then have "cls_fields y = fields_at c l" using fields_d [of l] by (simp add: fields_at_def)
  with y have "fields_at c' l = fields_at c l @ fields_at c lp"
    using c' obj_e p_fields by (simp add: fields_at_def update_obj_def)
  moreover have "fields_at c' i = fields_at d i" if "i \<noteq> l"
    using c' obj_e that by (simp add: fields_at_def update_obj_def)
  ultimately show "fields_at c' i = (if i = l then fields_at c l @ fields_at c lp else fields_at c i)"
    using fields_d by simp
  have "map_option cls_parent (objs (objects d) i) = map_option cls_parent (objs (objects c) i)"
    using d by (simp add: only_vtable_def)
  with c' obj_e show "map_option cls_parent (objs (objects c') i) = map_option cls_parent (objs (objects c) i)"
    by (auto simp: update_obj_def option.map_comp comp_def)
qed

section \<open>A chain of ancestors\<close>

lemma performInheritance_run:
  assumes "performInheritance k child l parent lp allow c = Inr ((), c')" "in_order (cachedFunctions (ctx_cache c))"
    "objs (objects c) l \<noteq> None" "ancestors k (objects c) lp = Inr ls" "l \<notin> set (ls @ [lp])"
  shows "fields_at c' l = fields_at c l @ concat (map (fields_at c) (ls @ [lp]))
    \<and> (\<forall>i. i \<noteq> l \<longrightarrow> fields_at c' i = fields_at c i)
    \<and> (\<forall>i. map_option cls_parent (objs (objects c') i) = map_option cls_parent (objs (objects c) i))
    \<and> in_order (cachedFunctions (ctx_cache c'))"
  using assms
proof (induction k arbitrary: parent lp c' ls)
  case 0
  then show ?case by (simp add: failC_def)
next
  case (Suc k)
  from Suc.prems(1) obtain p where p: "class_at (objects c) lp = Inr p"
    by (auto simp: bindC_def getC_def liftC_def res_simps)
  show ?case
  proof (cases "cls_parent p")
    case None
    with Suc.prems(1) p have run: "inherit_from child l parent lp allow c = Inr ((), c')"
      by (simp add: bindC_def getC_def liftC_def returnC_def)
    from Suc.prems(4) p None have "ls = []" by simp
    with inherit_from_run [OF run Suc.prems(2,3)] show ?thesis by simp
  next
    case (Some g)
    with p Suc.prems(4) obtain m ig gs lg ls' where g: "g = DefinedTy m ig gs lg"
      and ls': "ancestors k (objects c) lg = Inr ls'" and ls: "ls = ls' @ [lg]"
      by (auto simp: res_simps split: ty.splits)
    from Suc.prems(1) p Some g obtain d where
        first: "performInheritance k child l ig lg allow c = Inr ((), d)"
      and second: "inherit_from child l parent lp allow d = Inr ((), c')"
      by (auto simp: bindC_def getC_def liftC_def res_simps)
    from Suc.prems(5) ls have "l \<notin> set (ls' @ [lg])" "l \<noteq> lp" by auto
    with Suc.IH [OF first Suc.prems(2,3) ls'] have
      d: "fields_at d l = fields_at c l @ concat (map (fields_at c) (ls' @ [lg]))"
        "\<And>i. i \<noteq> l \<Longrightarrow> fields_at d i = fields_at c i"
        "\<And>i. map_option cls_parent (objs (objects d) i) = map_option cls_parent (objs (objects c) i)"
        "in_order (cachedFunctions (ctx_cache d))"
      by auto
    from d(3) [of l] Suc.prems(3) have "objs (objects d) l \<noteq> None" by auto
    from inherit_from_run [OF second d(4) this] d ls \<open>l \<noteq> lp\<close> show ?thesis by simp
  qed
qed

lemma overloads_in_hits:
  assumes "f \<in> set (overloads name c)" "startsWith (name @ ''.'') u" "inherited_name u cu allow name = Inr (Some key)"
  shows "f \<in> set (copied u cu allow key (getAllFunctionsByUUID u (cachedFunctions c)))"
proof -
  from assms(1) obtain fs where fs: "map_of (cachedFunctions c) name = Some fs" "f \<in> set fs"
    by (cases "map_of (cachedFunctions c) name") (auto simp: overloads_def getFunction_def)
  then have "(name, fs) \<in> set (cachedFunctions c)" by (simp add: map_of_SomeD)
  with assms(2,3) fs(2) show ?thesis by (fastforce simp: copied_def getAllFunctionsByUUID_def)
qed

lemma count_list_pos: "x \<in> set xs \<Longrightarrow> 0 < count_list xs x"
  by (induction xs) auto

section \<open>Properties\<close>

text \<open>
  The cache of types is its history: a definition's name leads to the items of all instances
  registered for it, in the order of registration, each with the last item stored under the name of
  the instance; the assertion that every listed instance is stored never fails.
\<close>

theorem transformed_types_history:
  "getTransformedType u (register_types rs empty_cache) =
     Inr (case filter (\<lambda>r. fst r = u) rs of
        [] \<Rightarrow> None
      | found \<Rightarrow> Some (map (\<lambda>r. the (last_item rs (store_name r))) found))"
proof -
  have mapR_known: "mapR (created_type c) (map g xs) = Inr (map (\<lambda>x. the (createdTypes c (g x))) xs)"
    if "\<And>x. x \<in> set xs \<Longrightarrow> createdTypes c (g x) \<noteq> None" for c :: cache and g :: "registration \<Rightarrow> string" and xs
    using that
  proof (induction xs)
    case (Cons x xs)
    obtain t where "createdTypes c (g x) = Some t" using Cons.prems [of x] by auto
    with Cons show ?case by (simp add: created_type_def)
  qed simp
  have known: "createdTypes (register_types rs empty_cache) (store_name r) = last_item rs (store_name r)
      \<and> last_item rs (store_name r) \<noteq> None" if "r \<in> set rs" for r
    using that last_item_registered register_types_state [of rs empty_cache "store_name r"] by fastforce
  let ?found = "filter (\<lambda>r. fst r = u) rs"
  have "mapR (created_type (register_types rs empty_cache)) (map store_name ?found)
      = Inr (map (\<lambda>r. the (last_item rs (store_name r))) ?found)"
  proof (subst mapR_known)
    show "createdTypes (register_types rs empty_cache) (store_name r) \<noteq> None" if "r \<in> set ?found" for r
      using that known [of r] by simp
  qed (use known in auto)
  then show ?thesis
    using register_types_state [of rs empty_cache, THEN conjunct2, of u]
    by (cases ?found) (simp_all add: getTransformedType_def empty_cache_def)
qed

text \<open>
  C28. The fields of a class after inheritance: its own, then the fields of its ancestors from the
  root down. The fields of a parent therefore start behind the own fields of the child (and those of
  its remoter ancestors), not at the place they have in the parent, although a pointer to the child
  can be cast to a pointer to the parent; and as the parent holds its own ancestors' fields
  already, the child gets those once more.
\<close>

theorem inherited_fields:
  assumes "performInheritance k child l parent lp allow c = Inr ((), c')"
    and "in_order (cachedFunctions (ctx_cache c))" and "objs (objects c) l \<noteq> None"
    and "ancestors k (objects c) lp = Inr ls" and "l \<notin> set (ls @ [lp])"
  shows "fields_at c' l = fields_at c l @ concat (map (fields_at c) (ls @ [lp]))
    \<and> (\<forall>j < length (fields_at c lp).
        fields_at c' l ! (length (fields_at c l) + length (concat (map (fields_at c) ls)) + j) = fields_at c lp ! j)"
  using performInheritance_run [OF assms] by (simp add: nth_append add.assoc)

text \<open>
  A function that a class has from its grandparent is among its overloads twice: once copied from
  the grandparent, once from the parent, which has it too.
\<close>

theorem inherited_twice:
  assumes "performInheritance (Suc (Suc k)) child l parent lp allow c = Inr ((), c')"
    and "in_order (cachedFunctions (ctx_cache c))" and "objs (objects c) l \<noteq> None"
    and "map_option cls_parent (objs (objects c) lp) = Some (Some (DefinedTy m grand gs lg))"
    and "map_option cls_parent (objs (objects c) lg) = Some None"
    and "f \<in> set (overloads gname (ctx_cache c))" and "startsWith (gname @ ''.'') (uuid grand)"
    and "inherited_name (uuid grand) (uuid child) allow gname = Inr (Some key)"
    and "f \<in> set (overloads pname (ctx_cache c))" and "startsWith (pname @ ''.'') (uuid parent)"
    and "inherited_name (uuid parent) (uuid child) allow pname = Inr (Some key)"
  shows "count_list (overloads key (ctx_cache c)) f + 2 \<le> count_list (overloads key (ctx_cache c')) f"
proof -
  from assms(4,5) obtain p g where p: "objs (objects c) lp = Some p" "cls_parent p = Some (DefinedTy m grand gs lg)"
    and g: "objs (objects c) lg = Some g" "cls_parent g = None"
    by auto
  with assms(1) obtain d where first: "inherit_from child l grand lg allow c = Inr ((), d)"
    and second: "inherit_from child l parent lp allow d = Inr ((), c')"
    by (auto simp: bindC_def getC_def liftC_def returnC_def class_at_def res_simps)
  note d = inherit_from_run [OF first assms(2,3)]
  from d(4) [of l] assms(3) have "objs (objects d) l \<noteq> None" by auto
  note e = inherit_from_run [OF second d(2) this]
  have in_d: "f \<in> set (overloads pname (ctx_cache d))" using d(1) [of pname] assms(9) by simp
  have one: "0 < count_list (rev (copied (uuid grand) (uuid child) allow key
      (getAllFunctionsByUUID (uuid grand) (cachedFunctions (ctx_cache c))))) f"
    using overloads_in_hits [OF assms(6,7,8)] by (intro count_list_pos) simp
  have two: "0 < count_list (rev (copied (uuid parent) (uuid child) allow key
      (getAllFunctionsByUUID (uuid parent) (cachedFunctions (ctx_cache d))))) f"
    using overloads_in_hits [OF in_d assms(10,11)] by (intro count_list_pos) simp
  from one two show ?thesis using d(1) [of key] e(1) [of key] by simp
qed

section \<open>Three generations\<close>

text \<open>\<^verbatim>\<open>class A { let a: i32; f() }\<close>, \<^verbatim>\<open>class B : A { let b: i64 }\<close> after inheritance, and the object of \<^verbatim>\<open>class C : B { let c: bool }\<close>.\<close>

definition sample_field :: "string \<Rightarrow> ty \<Rightarrow> class_field" where
  "sample_field name t = \<lparr>cf_name = name, cf_type = t, cf_public = True, cf_mutable = False,
     cf_value = None, is_method = False\<rparr>"

definition named_class :: "string \<Rightarrow> base_info" where
  "named_class u = \<lparr>bt_name = u, uuid = u, bt_module = new_Module ''m'' [], bt_id = 0\<rparr>"

definition field_a :: class_field where "field_a = sample_field ''a'' (IntTy False 32 True)"
definition field_b :: class_field where "field_b = sample_field ''b'' (IntTy False 64 True)"
definition field_c :: class_field where "field_c = sample_field ''c'' (IntTy False 1 True)"

definition sample_store :: function_store where
  "sample_store = \<lparr>fs_function = Block no_attributes [], fs_state = \<lparr>s_stack = [], s_module = new_Module ''m'' [],
     s_uuidStack = [], s_currentClass = None\<rparr>\<rparr>"

definition sample_context :: tctx where
  "sample_context = (empty_context (new_Module ''m'' []) False False)
     \<lparr>objects := empty_heap\<lparr>objs := [0 \<mapsto> empty_class\<lparr>cls_fields := [field_a]\<rparr>,
        1 \<mapsto> empty_class\<lparr>cls_fields := [field_b, field_a], cls_parent := Some (DefinedTy True (named_class ''m.A:0'') [] 0)\<rparr>,
        2 \<mapsto> empty_class\<lparr>cls_fields := [field_c]\<rparr>]\<rparr>,
      ctx_cache := empty_cache\<lparr>cachedFunctions := [(''m.A:0.f'', [sample_store]), (''m.B:0.f'', [sample_store])]\<rparr>\<rparr>"

lemma sample_in_order: "in_order (cachedFunctions (ctx_cache sample_context))"
  by (simp add: sample_context_def empty_context_def in_order_def less_char_def)

definition sample_inherits :: "(unit \<times> tctx) res" where
  "sample_inherits = performInheritance 2 (named_class ''m.C:0'') 2 (named_class ''m.B:0'') 1 False sample_context"

lemma sample_succeeds: "\<exists>c'. sample_inherits = Inr ((), c')"
proof -
  have "case sample_inherits of Inl e \<Rightarrow> False | Inr _ \<Rightarrow> True" by code_simp
  then show ?thesis by (auto split: sum.splits)
qed

theorem inherited_fields_witness:
  "\<exists>c'. sample_inherits = Inr ((), c') \<and> fields_at c' 2 = [field_c, field_a, field_b, field_a]"
proof -
  from sample_succeeds obtain c' where c': "sample_inherits = Inr ((), c')" ..
  have "fields_at c' 2 = fields_at sample_context 2 @ concat (map (fields_at sample_context) ([0] @ [1]))"
    by (rule inherited_fields [OF c' [unfolded sample_inherits_def], THEN conjunct1])
      (simp_all add: sample_in_order, simp_all add: sample_context_def empty_context_def class_at_def
        eval_nat_numeral empty_class_def)
  then have "fields_at c' 2 = [field_c, field_a, field_b, field_a]"
    by (simp add: sample_context_def empty_context_def fields_at_def empty_class_def)
  with c' show ?thesis by blast
qed

theorem inherited_twice_witness:
  "\<exists>c'. sample_inherits = Inr ((), c') \<and> 2 \<le> count_list (overloads ''m.C:0.f'' (ctx_cache c')) sample_store"
proof -
  from sample_succeeds obtain c' where c': "sample_inherits = Inr ((), c')" ..
  have names: "inherited_name ''m.A:0'' ''m.C:0'' False ''m.A:0.f'' = Inr (Some ''m.C:0.f'')"
    "inherited_name ''m.B:0'' ''m.C:0'' False ''m.B:0.f'' = Inr (Some ''m.C:0.f'')"
    by code_simp+
  have "2 \<le> count_list (overloads ''m.C:0.f'' (ctx_cache c')) sample_store"
    using c' names sample_in_order inherited_twice [of 0 "named_class ''m.C:0''" 2 "named_class ''m.B:0''" 1 False sample_context c'
        True "named_class ''m.A:0''" "[]" 0 sample_store "''m.A:0.f''" "''m.C:0.f''" "''m.B:0.f''"]
    by (simp add: sample_inherits_def, simp add: sample_context_def empty_context_def class_at_def eval_nat_numeral
        empty_class_def named_class_def overloads_def getFunction_def startsWith_def)
  with c' show ?thesis by blast
qed

end
