(* ===== verification/Transform_Types.thy ===== *)
theory Transform_Types
  imports Calls
begin

text \<open>
  Types in the transformer (\<^verbatim>\<open>src/visitors/transform/utils/\<close>): references to type objects, the tests on
  generic parameters, the types that the language names itself, type aliases, and how a reference to a
  type is resolved. A class or enum is made by routines of \<open>Transform_Classes\<close>. Messages keep their code and
  a constant text. An assertion on \<^verbatim>\<open>std::optional\<close> counts as the library's exception.
\<close>

section \<open>Sequencing\<close>

definition seqC :: "unit tr \<Rightarrow> 'a tr \<Rightarrow> 'a tr" where
  "seqC m n = bindC m (\<lambda>_. n)"

definition assertC :: "bool \<Rightarrow> unit tr" where
  "assertC b = (if b then returnC () else failC AssertFail)"

definition optC :: "('a \<Rightarrow> 'b tr) \<Rightarrow> 'a option \<Rightarrow> 'b option tr" where
  "optC f x = (case x of None \<Rightarrow> returnC None | Some a \<Rightarrow> bindC (f a) (\<lambda>b. returnC (Some b)))"

definition askC :: "(tctx \<Rightarrow> 'a res) \<Rightarrow> 'a tr" where
  "askC f = bindC (getC f) liftC"

lemma mapC_cong [fundef_cong]:
  "xs = ys \<Longrightarrow> (\<And>x. x \<in> set ys \<Longrightarrow> f x = g x) \<Longrightarrow> mapC f xs = mapC g ys"
  by (induction ys arbitrary: xs) (auto simp: bindC_def)

lemma balanced_seq [balanced_intros]: "balanced m \<Longrightarrow> balanced n \<Longrightarrow> balanced (seqC m n)"
  unfolding seqC_def by (intro balanced_intros)

lemma balanced_assert [balanced_intros]: "balanced (assertC b)"
  by (simp add: assertC_def balanced_intros)

lemma balanced_ask [balanced_intros]: "balanced (askC f)"
  unfolding askC_def by (intro balanced_intros)

lemma balanced_opt [balanced_intros]: "(\<And>a. balanced (f a)) \<Longrightarrow> balanced (optC f x)"
  by (cases x) (auto simp: optC_def intro!: balanced_intros)

lemma balanced_deref [balanced_intros]: "balanced (derefC p)"
  by (cases p) (simp_all add: derefC_def balanced_intros)

section \<open>Copies and references\<close>

definition copyC :: "ty \<Rightarrow> ty tr" where
  "copyC t = (\<lambda>c. let (t', h) = copy_type t (objects c) in Inr (t', c\<lparr>objects := h\<rparr>))"

definition plain_reference :: "ty \<Rightarrow> ty tr" where
  "plain_reference t = (\<lambda>c. let (r, h) = getReferenceTo t (objects c) in Inr (r, c\<lparr>objects := h\<rparr>))"

text \<open>\<^verbatim>\<open>toRef\<close>. The reference to a reference type is not mutable, whatever the type was.\<close>

definition new_refType :: "ty \<Rightarrow> nat tr" where
  "new_refType t = (\<lambda>c. Inr (length (refTypes c), c\<lparr>refTypes := refTypes c @ [(t, False)]\<rparr>))"

fun toRef :: "ty \<Rightarrow> node tr" where
  "toRef (ReferenceTy m b) = bindC (toRef b) (\<lambda>r. returnC (ReferenceTypeRef r False))"
| "toRef (PointerTy m b) = bindC (toRef b) (\<lambda>r. returnC (PointerTypeRef r m))"
| "toRef (EnumTy m i gs l) = bindC (new_refType (EnumTy m i gs l)) (\<lambda>p.
     bindC (mapC toRef gs) (\<lambda>rs. returnC (InternalTypeRef (uuid i) rs (uuid i) p)))"
| "toRef (DefinedTy m i gs l) = bindC (new_refType (DefinedTy m i gs l)) (\<lambda>p.
     bindC (mapC toRef gs) (\<lambda>rs. returnC (InternalTypeRef (uuid i) rs (uuid i) p)))"
| "toRef (InterfaceTy m i gs l) = bindC (new_refType (InterfaceTy m i gs l)) (\<lambda>p.
     bindC (mapC toRef gs) (\<lambda>rs. returnC (InternalTypeRef (uuid i) rs (uuid i) p)))"
| "toRef (TypeAliasTy m i gs b) = bindC (new_refType (TypeAliasTy m i gs b)) (\<lambda>p.
     returnC (InternalTypeRef (bt_name i) [] (uuid i) p))"
| "toRef t = bindC (new_refType t) (\<lambda>p. returnC (InternalTypeRef (getName t) [] (getName t) p))"

lemma balanced_copies [balanced_intros]:
  "balanced (copyC t)" "balanced (plain_reference t)" "balanced (new_refType t)"
  by (rule balanced_same; auto simp: copyC_def plain_reference_def new_refType_def same_place_def split: prod.splits)+

lemma balanced_map_set: "(\<And>x. x \<in> set xs \<Longrightarrow> balanced (f x)) \<Longrightarrow> balanced (mapC f xs)"
  by (induction xs) (auto intro!: balanced_intros)

lemma balanced_toRef [balanced_intros]: "balanced (toRef t)"
  by (induction t rule: toRef.induct) (auto intro!: balanced_intros balanced_map_set)

section \<open>Nodes\<close>

fun is_TypeRef :: "node \<Rightarrow> bool" where
  "is_TypeRef (TypeRef _ _ _ _) = True"
| "is_TypeRef (InternalTypeRef _ _ _ _) = True"
| "is_TypeRef (DeclType _) = True"
| "is_TypeRef (FuncType _ _) = True"
| "is_TypeRef (TupleType _) = True"
| "is_TypeRef (ReferenceTypeRef _ _) = True"
| "is_TypeRef (PointerTypeRef _ _) = True"
| "is_TypeRef _ = False"

text \<open>A cast to \<^verbatim>\<open>Identifier\<close>, and the generics of a \<^verbatim>\<open>GenericIdentifier\<close>.\<close>

fun identifier_of :: "node \<Rightarrow> (string \<times> node list) option" where
  "identifier_of (Identifier n) = Some (n, [])"
| "identifier_of (GenericIdentifier n gs) = Some (n, gs)"
| "identifier_of _ = None"

fun ref_ast :: "node \<Rightarrow> node option" where
  "ref_ast (TypeRef _ _ _ a) = a"
| "ref_ast _ = None"

fun ref_id :: "node \<Rightarrow> string" where
  "ref_id (TypeRef _ _ i _) = i"
| "ref_id (InternalTypeRef _ _ i _) = i"
| "ref_id _ = []"

definition plain_ref :: "string \<Rightarrow> node list \<Rightarrow> node" where
  "plain_ref name generics = TypeRef name generics [] None"

section \<open>Sized types\<close>

fun is_indirect :: "ty \<Rightarrow> bool" where
  "is_indirect (PointerTy _ _) = True"
| "is_indirect (ReferenceTy _ _) = True"
| "is_indirect (FunctionTy _ _ _ _ _) = True"
| "is_indirect _ = False"

fun is_FunctionTy :: "ty \<Rightarrow> bool" where
  "is_FunctionTy (FunctionTy _ _ _ _ _) = True"
| "is_FunctionTy _ = False"

fun is_NumericTy :: "ty \<Rightarrow> bool" where
  "is_NumericTy (IntTy _ _ _) = True"
| "is_NumericTy (FloatTy _ _) = True"
| "is_NumericTy _ = False"

text \<open>
  \<^verbatim>\<open>getImpls\<close>: every number type is made by \<^verbatim>\<open>getPrimitiveNumberType\<close> and has the interfaces it adds. That a
  function type is given \<^verbatim>\<open>Sized\<close> is never looked at, since function types are sized anyway.
\<close>

definition type_impls :: "ty \<Rightarrow> tctx \<Rightarrow> ty list" where
  "type_impls t c =
     (let at = (\<lambda>l. case objs (objects c) l of Some ob \<Rightarrow> impls ob | None \<Rightarrow> [])
      in case t of
           DefinedTy _ _ _ l \<Rightarrow> at l
         | EnumTy _ _ _ l \<Rightarrow> at l
         | InterfaceTy _ _ _ l \<Rightarrow> at l
         | VoidTy _ \<Rightarrow> voidImpls c
         | _ \<Rightarrow> if is_NumericTy t then List.map_filter (coreInterfaces c) [''Sized'', ''Numeric''] else [])"

definition numberType :: "ty \<Rightarrow> ty tr" where
  "numberType t = bindC (getBuiltinTypeImpl ''Sized'') (\<lambda>_. bindC (getBuiltinTypeImpl ''Numeric'') (\<lambda>_. returnC t))"

definition is_core :: "ty \<Rightarrow> string \<Rightarrow> bool tr" where
  "is_core t name = bindC (getBuiltinTypeImpl name) (\<lambda>s. returnC (is_ty t s))"

primrec any_core :: "string \<Rightarrow> ty list \<Rightarrow> bool tr" where
  "any_core name [] = returnC False"
| "any_core name (t # ts) = bindC (is_core t name) (\<lambda>b. if b then returnC True else any_core name ts)"

definition assertSizedType :: "ty \<Rightarrow> unit tr" where
  "assertSizedType t =
     bindC (getC (type_impls t)) (\<lambda>is. bindC (any_core ''Sized'' is) (\<lambda>found.
     if is_indirect t \<or> found then returnC () else errorC TYPE_ERROR ''Expected type to be sized!''))"

definition sized_type :: "tcalls \<Rightarrow> node \<Rightarrow> bool \<Rightarrow> ty tr" where
  "sized_type tc t ignoreVoid =
     bindC (transformType tc t) (\<lambda>type.
     if ignoreVoid \<and> is_VoidTy type then returnC type else seqC (assertSizedType type) (returnC type))"

section \<open>Tests on generic parameters\<close>

text \<open>
  \<^verbatim>\<open>executeGenericTests\<close>: a reference is looked through from the first test on that is not answered for the
  reference itself.
\<close>

definition pointed_type :: "ty \<Rightarrow> ty" where
  "pointed_type t = (case t of ReferenceTy _ b \<Rightarrow> b | _ \<Rightarrow> t)"

definition generic_test :: "ty \<Rightarrow> ty \<Rightarrow> (bool \<times> ty) tr" where
  "generic_test interface generic =
     bindC (if is_indirect generic then is_core interface ''Sized'' else returnC False) (\<lambda>a.
     bindC (if a then returnC True else if is_FunctionTy generic then is_core interface ''Callable'' else returnC False) (\<lambda>b.
     if b then returnC (True, generic)
     else bindC (getC (type_impls (pointed_type generic))) (\<lambda>is.
       returnC (list_ex (\<lambda>i. is_ty i interface) is
         \<or> is_NumericTy (pointed_type generic) \<and> base_uuid interface = Some (CORE_UUID @ ''std.ToString:0''),
         pointed_type generic))))"

primrec generic_tests :: "tcalls \<Rightarrow> node list \<Rightarrow> ty \<Rightarrow> unit tr" where
  "generic_tests tc [] generic = returnC ()"
| "generic_tests tc (test # tests) generic =
     bindC (transformType tc test) (\<lambda>type.
     case type of
       InterfaceTy _ _ _ _ \<Rightarrow> bindC (generic_test type generic) (\<lambda>(found, generic').
         if found then generic_tests tc tests generic'
         else errorC TYPE_ERROR ''Type does not implement an interface'')
     | _ \<Rightarrow> errorC TYPE_ERROR ''Type is not an interface'')"

definition executeGenericTests :: "tcalls \<Rightarrow> node list option \<Rightarrow> ty \<Rightarrow> unit tr" where
  "executeGenericTests tc clause generic =
     (case clause of None \<Rightarrow> returnC () | Some tests \<Rightarrow> generic_tests tc tests generic)"

text \<open>The loops that bind the given and the remaining generic parameters of a definition.\<close>

fun bind_generics :: "tcalls \<Rightarrow> bool \<Rightarrow> node Param list \<Rightarrow> ty list \<Rightarrow> unit tr" where
  "bind_generics tc copies ps [] = returnC ()"
| "bind_generics tc copies [] (t # ts) = failC (StdException ''out_of_range'')"
| "bind_generics tc copies (p # ps) (t # ts) =
     bindC (if copies then copyC t else returnC t) (\<lambda>t'.
     seqC (addItem (param_name p) (ItemType t')) (
     seqC (executeGenericTests tc (whereClause p) t) (
     bind_generics tc copies ps ts)))"

primrec bind_defaults :: "tcalls \<Rightarrow> node Param list \<Rightarrow> ty list tr" where
  "bind_defaults tc [] = returnC []"
| "bind_defaults tc (p # ps) =
     bindC (derefC (param_type p)) (\<lambda>n.
     bindC (transformType tc n) (\<lambda>t.
     bindC (copyC t) (\<lambda>t'.
     seqC (addItem (param_name p) (ItemType t')) (
     seqC (executeGenericTests tc (whereClause p) t) (
     bindC (bind_defaults tc ps) (\<lambda>ts. returnC (t # ts)))))))"

section \<open>Types the language names\<close>

definition stoi :: "string \<Rightarrow> int res" where
  "stoi s = (let n = decimal_value s in if n < 2 ^ 31 then Inr (int n) else Inl (StdException ''out_of_range''))"

definition INT_MAX_POWER :: int where "INT_MAX_POWER = 8388608"

definition int_type :: "string \<Rightarrow> bool \<Rightarrow> ty option tr" where
  "int_type bitsString isSigned =
     (if bitsString = [] \<or> \<not> is_digit (hd bitsString) then returnC None
      else if \<not> list_all is_digit bitsString then errorC TYPE_ERROR (''Integer type is expected to be in the form of '' @ quoted ''i[N]'')
      else bindC (liftC (stoi bitsString)) (\<lambda>bits.
        if bits < 1 \<or> INT_MAX_POWER < bits then errorC TYPE_ERROR (''Integer type is expected to be in the form of '' @ quoted ''i[N]'')
        else if bits = 1 then errorC TYPE_ERROR (''If you want a boolean type, use '' @ quoted ''bool'')
        else bindC (numberType (IntTy False bits isSigned)) (\<lambda>t. returnC (Some t))))"

definition float_type :: "string \<Rightarrow> ty option tr" where
  "float_type bitsString =
     (if bitsString = [] \<or> \<not> is_digit (hd bitsString) then returnC None
      else if \<not> list_all is_digit bitsString then errorC TYPE_ERROR (''Float type is expected to be in the form of '' @ quoted ''f[N]'')
      else bindC (liftC (stoi bitsString)) (\<lambda>bits.
        if bits \<notin> {16, 32, 64} then errorC TYPE_ERROR (''Float type is expected to be in the form of '' @ quoted ''f[N]'')
        else bindC (numberType (FloatTy False bits)) (\<lambda>t. returnC (Some t))))"

definition one_generic :: "node \<Rightarrow> node tr" where
  "one_generic t = (case ref_generics t of [g] \<Rightarrow> returnC g | _ \<Rightarrow> errorC TYPE_ERROR ''Expected 1 generic'')"

definition transformSpecialType :: "tcalls \<Rightarrow> node \<Rightarrow> ty option tr" where
  "transformSpecialType tc t =
     (let n = ref_name t in
      if n = ''bool'' then bindC (numberType (IntTy False 1 True)) (\<lambda>t. returnC (Some t))
      else if startsWith n ''i'' \<or> startsWith n ''u'' then int_type (drop 1 n) (startsWith n ''i'')
      else if startsWith n ''f'' then float_type (drop 1 n)
      else if n = ''Std::RemoveReferences'' then
        bindC (one_generic t) (\<lambda>g. bindC (transformType tc g) (\<lambda>type. returnC (Some (pointed_type type))))
      else if n = ''Std::ReturnType'' then
        bindC (one_generic t) (\<lambda>g. bindC (transformType tc g) (\<lambda>type.
        bindC (liftC (getFunctionType type)) (\<lambda>fn.
        case fn of
          Some (FunctionTy _ _ _ r _) \<Rightarrow> returnC (Some r)
        | _ \<Rightarrow> errorC TYPE_ERROR ''Expected first generic parameter to be a function'')))
      else returnC None)"

end
