(* ===== verification/Transform_Lookup.thy ===== *)
theory Transform_Lookup
  imports Transform_Types
begin

text \<open>
  Names in the transformer: what an identifier and an index stand for
  (\<^verbatim>\<open>transformIdentifier.cc\<close>, \<^verbatim>\<open>getFromIndex.cc\<close>), and the type a reference to a type stands for
  (\<^verbatim>\<open>transformType.cc\<close>, \<^verbatim>\<open>transformTypeFromBase.cc\<close>, \<^verbatim>\<open>transformTypeAlias.cc\<close>, \<^verbatim>\<open>getBuiltinTypeUUID.cc\<close>). A name
  that is not on the stack of scopes is looked for in the caches, under its name in the module and then
  under those in the enclosing modules; these searches share \<open>search_names\<close>.
\<close>

section \<open>Results\<close>

definition nothing_found :: store_type where
  "nothing_found = \<lparr>st_value = None, st_type = None, st_functions = None, st_overloads = None,
     st_module = None, st_canBePrivate = False\<rparr>"

definition found_nothing :: "store_type \<Rightarrow> bool" where
  "found_nothing st \<longleftrightarrow> st_value st = None \<and> st_type st = None \<and> st_functions st = None \<and> st_overloads st = None
     \<and> st_module st = None"

section \<open>Definitions of types\<close>

fun unalias :: "ty \<Rightarrow> ty" where
  "unalias (TypeAliasTy _ _ _ b) = b"
| "unalias t = t"

fun definition_generics :: "node \<Rightarrow> node Param list option" where
  "definition_generics (DefinedTypeDef _ _ _ _ _ _ _ _ gs _ _ _) = Some (case gs of None \<Rightarrow> [] | Some ps \<Rightarrow> ps)"
| "definition_generics (TypeAlias _ _ gs _ _) = Some (case gs of None \<Rightarrow> [] | Some ps \<Rightarrow> ps)"
| "definition_generics (EnumTypeDef _ _ _ _ gs _ _ _) = Some (case gs of None \<Rightarrow> [] | Some ps \<Rightarrow> ps)"
| "definition_generics _ = None"

definition names_itself :: "string \<Rightarrow> node \<Rightarrow> bool" where
  "names_itself name aliased \<longleftrightarrow> map_option fst (Option.bind (ref_ast aliased) identifier_of) = Some name"

definition set_alias_privacy :: "base_info \<Rightarrow> Privacy \<Rightarrow> unit tr" where
  "set_alias_privacy i p = modifyC (\<lambda>c. c\<lparr>aliasPrivacy := (aliasPrivacy c)(bt_id i := p)\<rparr>)"

definition transformTypeAlias :: "tcalls \<Rightarrow> string \<Rightarrow> type_store \<Rightarrow> node \<Rightarrow> ty tr" where
  "transformTypeAlias tc u base typeRef =
     (case ts_type base of
        TypeAlias name aliased gs privacy _ \<Rightarrow>
          bindC (mapC (transformType tc) (ref_generics typeRef)) (\<lambda>generics.
          withStateC (ts_state base) (withScopeC (
            let classGenerics = (case gs of None \<Rightarrow> [] | Some ps \<Rightarrow> ps) in
            seqC (bind_generics tc False classGenerics generics) (
            bindC (bind_defaults tc (drop (length generics) classGenerics)) (\<lambda>defaults.
            seqC (if names_itself name aliased then errorC VARIABLE_ERROR (''Type alias '' @ quoted name @ '' cannot be recursive!'')
                  else returnC ()) (
            bindC (transformType tc aliased) (\<lambda>aliasedType.
            bindC (createTypeAlias name aliasedType) (\<lambda>alias.
            case alias of
              TypeAliasTy _ i _ b \<Rightarrow>
                seqC (set_alias_privacy i privacy)
                  (returnC (TypeAliasTy (isMutable aliasedType) (i\<lparr>uuid := u\<rparr>) (generics @ defaults) b))
            | _ \<Rightarrow> failC AssertFail))))))))
      | _ \<Rightarrow> failC AssertFail)"

definition transformTypeFromBase :: "tcalls \<Rightarrow> string \<Rightarrow> type_store \<Rightarrow> node \<Rightarrow> ty tr" where
  "transformTypeFromBase tc u base typeRef =
     (case definition_generics (ts_type base) of
        None \<Rightarrow> failC AssertFail
      | Some generics \<Rightarrow>
          let given = length (ref_generics typeRef);
              requiredArguments = length (filter (\<lambda>p. param_type p = None) generics)
          in if given < requiredArguments \<or> length generics < given
             then errorC TYPE_ERROR (''Type '' @ quoted (ref_name typeRef) @ '' requires to have generic argument(s)'')
             else case ts_type base of
                 TypeAlias _ _ _ _ _ \<Rightarrow> transformTypeAlias tc u base typeRef
               | DefinedTypeDef _ _ _ _ _ _ _ _ _ _ _ _ \<Rightarrow> transformClass tc u base (Some typeRef)
               | _ \<Rightarrow> transformEnum tc u base (Some typeRef))"

section \<open>Searching the caches\<close>

definition item_type :: "Item \<Rightarrow> ty tr" where
  "item_type i = (case i of ItemType t \<Rightarrow> returnC t | _ \<Rightarrow> failC AssertFail)"

primrec matching_type :: "tcalls \<Rightarrow> node \<Rightarrow> Item list \<Rightarrow> ty option tr" where
  "matching_type tc t [] = returnC None"
| "matching_type tc t (x # xs) =
     bindC (item_type x) (\<lambda>transformed.
     bindC (typeGenericsMatch tc t transformed) (\<lambda>same.
     if same then returnC (Some transformed) else matching_type tc t xs))"

text \<open>The names that are tried: an enclosing module without a name stands for the module itself again.\<close>

definition candidate_names :: "string \<Rightarrow> string \<Rightarrow> string list \<Rightarrow> string list" where
  "candidate_names first name modules = first # map (\<lambda>m. if m = [] then first else m @ ''.'' @ name) modules"

primrec search_names :: "(string \<Rightarrow> 'a option tr) \<Rightarrow> string list \<Rightarrow> 'a option tr" where
  "search_names f [] = returnC None"
| "search_names f (u # us) = bindC (f u) (\<lambda>x. case x of Some a \<Rightarrow> returnC (Some a) | None \<Rightarrow> search_names f us)"

section \<open>Identifiers\<close>

definition getTransformedTypeC :: "string \<Rightarrow> Item list option tr" where
  "getTransformedTypeC u = askC (\<lambda>c. getTransformedType u (ctx_cache c))"

definition identifier_in_cache :: "tcalls \<Rightarrow> string \<Rightarrow> node list \<Rightarrow> string \<Rightarrow> store_type option tr" where
  "identifier_in_cache tc identifier generics u =
     bindC (getC (\<lambda>c. getTransformedFunction u (ctx_cache c))) (\<lambda>funs.
     bindC (getTransformedTypeC u) (\<lambda>transformed.
     bindC (matching_type tc (plain_ref identifier generics) (case transformed of None \<Rightarrow> [] | Some ts \<Rightarrow> ts)) (\<lambda>match.
     case match of
       Some t \<Rightarrow> returnC (Some (nothing_found\<lparr>st_type := Some t\<rparr>))
     | None \<Rightarrow>
         bindC (getC (\<lambda>c. getCachedType u (ctx_cache c))) (\<lambda>cached.
         case cached of
           Some base \<Rightarrow> bindC (transformTypeFromBase tc u base (plain_ref identifier generics))
             (\<lambda>t. returnC (Some (nothing_found\<lparr>st_type := Some t\<rparr>)))
         | None \<Rightarrow>
             bindC (getC (\<lambda>c. getFunction u (ctx_cache c))) (\<lambda>overloads.
             if funs \<noteq> None \<or> overloads \<noteq> None
             then returnC (Some (nothing_found\<lparr>st_functions := funs, st_overloads := overloads\<rparr>))
             else bindC (getC (\<lambda>c. getModule u (ctx_cache c))) (\<lambda>m.
               returnC (map_option (\<lambda>x. nothing_found\<lparr>st_module := Some x\<rparr>) m)))))))"

definition item_store :: "tcalls \<Rightarrow> node list \<Rightarrow> Item \<Rightarrow> store_type tr" where
  "item_store tc generics i =
     (case i of
        ItemValue v \<Rightarrow> returnC (nothing_found\<lparr>st_value := Some v\<rparr>)
      | ItemFunc fs \<Rightarrow> returnC (nothing_found\<lparr>st_functions := Some fs\<rparr>)
      | ItemType t \<Rightarrow> returnC (nothing_found\<lparr>st_type := Some t\<rparr>)
      | ItemModule m \<Rightarrow> returnC (nothing_found\<lparr>st_module := Some m\<rparr>)
      | ItemMacro _ \<Rightarrow> errorC SYNTAX_ERROR ''Macros cannot be used as values!''
      | ItemAlias a \<Rightarrow>
          (case a of
             Index base ident isStatic \<Rightarrow>
               bindC (derefC (identifier_of ident)) (\<lambda>(name, _).
               bindC (getFromIndex tc base (if generics = [] then ident else GenericIdentifier name generics) isStatic)
                 (\<lambda>(st, _). returnC (st\<lparr>st_canBePrivate := False\<rparr>)))
           | _ \<Rightarrow> (case identifier_of a of
               Some (name, _) \<Rightarrow> getFromIdentifier tc name generics []
             | None \<Rightarrow> failC AssertFail)))"

definition get_from_identifier :: "tcalls \<Rightarrow> string \<Rightarrow> node list \<Rightarrow> string \<Rightarrow> store_type tr" where
  "get_from_identifier tc identifier generics p_uuid =
     bindC (getItem identifier) (\<lambda>item.
     case (if p_uuid = [] then item else None) of
       Some i \<Rightarrow> item_store tc generics i
     | None \<Rightarrow>
         bindC (if p_uuid = [] then createIdentifierName identifier False else returnC (p_uuid @ ''.'' @ identifier)) (\<lambda>first.
         bindC (getC uuidStack) (\<lambda>modules.
         bindC (search_names (identifier_in_cache tc identifier generics) (candidate_names first identifier modules)) (\<lambda>found.
         case found of
           Some st \<Rightarrow> returnC st
         | None \<Rightarrow> bindC (transformSpecialType tc (plain_ref identifier generics)) (\<lambda>special.
             returnC (nothing_found\<lparr>st_type := special\<rparr>))))))"

section \<open>Members\<close>

primrec find_builtin :: "ty \<Rightarrow> string \<Rightarrow> nat \<Rightarrow> Item list \<Rightarrow> string tr" where
  "find_builtin t name k [] = failC AssertFail"
| "find_builtin t name k (x # xs) =
     (case x of
        ItemType (DefinedTy _ i gs _) \<Rightarrow>
          if bt_name i \<noteq> name then failC AssertFail
          else (case gs of
             [g] \<Rightarrow> if is_ty t g then returnC (name @ '':'' @ nat_to_string k) else find_builtin t name (k + 1) xs
           | _ \<Rightarrow> failC AssertFail)
      | _ \<Rightarrow> failC AssertFail)"

definition getBuiltinTypeUUID :: "tcalls \<Rightarrow> ty \<Rightarrow> string \<Rightarrow> ty option \<Rightarrow> string tr" where
  "getBuiltinTypeUUID tc t name original =
     bindC (optC (\<lambda>x. bindC (toRef x) (transformType tc)) original) (\<lambda>_.
     bindC (getTransformedTypeC name) (\<lambda>pointers.
     case pointers of
       None \<Rightarrow> failC (StdException ''bad_optional_access'')
     | Some ps \<Rightarrow> find_builtin t name 0 ps))"

text \<open>A field of a class or interface; a static field or an enumeration value; or none.\<close>

definition field_value :: "ty \<Rightarrow> string \<Rightarrow> ir_value option \<Rightarrow> ir_value option tr" where
  "field_value x name value =
     (let extract = (\<lambda>l.
        bindC (askC (\<lambda>c. class_at (objects c) l)) (\<lambda>ob.
        case index_where (\<lambda>f. cf_name f = name) (cls_fields ob) of
          None \<Rightarrow> returnC None
        | Some k \<Rightarrow> (case value of
            None \<Rightarrow> failC AssertFail
          | Some v \<Rightarrow> returnC (Some (createIndexExtract v (cls_fields ob ! k) k)))))
      in case x of
           DefinedTy _ _ _ l \<Rightarrow> extract l
         | InterfaceTy _ _ _ l \<Rightarrow> extract l
         | _ \<Rightarrow> returnC None)"

primrec find_variable :: "string \<Rightarrow> nat list \<Rightarrow> ir_value option tr" where
  "find_variable name [] = returnC None"
| "find_variable name (i # is) =
     bindC (askC (\<lambda>c. the_object (vars c i))) (\<lambda>v.
     if v_identifier v = name then returnC (Some (IrVariable i)) else find_variable name is)"

definition static_value :: "ty \<Rightarrow> string \<Rightarrow> ir_value option tr" where
  "static_value x name =
     (case x of
        DefinedTy _ _ _ l \<Rightarrow> bindC (askC (\<lambda>c. class_at (objects c) l)) (\<lambda>ob. find_variable name (staticFields ob))
      | EnumTy _ _ _ l \<Rightarrow> bindC (askC (\<lambda>c. class_at (objects c) l)) (\<lambda>ob.
          returnC (if name \<in> fst ` set (enum_fields ob) then Some (createEnumInit x name) else None))
      | _ \<Rightarrow> errorC TYPE_ERROR ''Only defined types can have static members!'')"

definition builtin_uuid :: "tcalls \<Rightarrow> ty \<Rightarrow> string tr" where
  "builtin_uuid tc t =
     (case t of
        PointerTy m p \<Rightarrow> getBuiltinTypeUUID tc p (if m then MUT_PTR else CONST_PTR) (Some t)
      | FunctionTy _ _ _ _ _ \<Rightarrow> getBuiltinTypeUUID tc t FUNC_IMPL (Some t)
      | _ \<Rightarrow> if is_NumericTy t then getBuiltinTypeUUID tc t INT_IMPL None else returnC (getName t))"

definition get_from_type :: "tcalls \<Rightarrow> string \<Rightarrow> node list \<Rightarrow> bool \<Rightarrow> ty \<Rightarrow> ir_value option \<Rightarrow> store_type tr" where
  "get_from_type tc name generics isStatic type value =
     (let x = unalias (reference_base type) in
      case base_uuid x of
        Some fullUUID \<Rightarrow>
          bindC (get_from_identifier tc name generics fullUUID) (\<lambda>st.
          bindC (if isStatic then static_value x name else field_value x name value) (\<lambda>member.
          let r = st\<lparr>st_value := (if member = None then st_value st else member)\<rparr>
          in if found_nothing r then errorC VARIABLE_ERROR (''Coudnt find '' @ quoted name @ '' inside type'')
             else bindC (getC (isInClassContext x)) (\<lambda>b. returnC (r\<lparr>st_canBePrivate := b\<rparr>))))
      | None \<Rightarrow>
          bindC (builtin_uuid tc x) (\<lambda>u.
          bindC (get_from_identifier tc name generics u) (\<lambda>st.
          if st_functions st = None \<and> st_overloads st = None
          then errorC VARIABLE_ERROR (''Coudnt find member '' @ quoted name @ '' inside type'')
          else returnC (nothing_found\<lparr>st_functions := st_functions st, st_overloads := st_overloads st\<rparr>))))"

definition get_from_module :: "tcalls \<Rightarrow> string \<Rightarrow> node list \<Rightarrow> ir_module \<Rightarrow> store_type tr" where
  "get_from_module tc name generics m =
     bindC (get_from_identifier tc name generics (uniqueName m)) (\<lambda>st.
     bindC (case st_value st of
         Some v \<Rightarrow> returnC (Some v)
       | None \<Rightarrow> bindC (getC (\<lambda>c. moduleVariables c (uniqueName m))) (find_variable name)) (\<lambda>v.
     let r = st\<lparr>st_value := v\<rparr>
     in if found_nothing r then errorC VARIABLE_ERROR (''Coudnt find '' @ quoted name @ '' inside module'')
        else bindC (getC (isInModuleContext m)) (\<lambda>b. returnC (r\<lparr>st_canBePrivate := b\<rparr>))))"

text \<open>The base is an identifier or an index; \<open>missing\<close> is the failure when it stands for nothing.\<close>

definition member_of :: "tcalls \<Rightarrow> string \<Rightarrow> node list \<Rightarrow> bool \<Rightarrow> (store_type \<times> ir_value option) tr \<Rightarrow> store_type
    \<Rightarrow> (store_type \<times> ir_value option) tr" where
  "member_of tc name generics isStatic missing st =
     (case st_value st of
        Some v \<Rightarrow>
          if isStatic then errorC TYPE_ERROR ''Static method call / accesses can only be used with types, not values!''
          else bindC (typeC v) (\<lambda>t. bindC (get_from_type tc name generics isStatic t (Some v)) (\<lambda>r. returnC (r, Some v)))
      | None \<Rightarrow> (case st_module st of
          Some m \<Rightarrow>
            if \<not> isStatic then errorC TYPE_ERROR ''Module members must be accessed by using static indexes!''
            else bindC (get_from_module tc name generics m) (\<lambda>r. returnC (r, None))
        | None \<Rightarrow> (case st_type st of
            Some t \<Rightarrow>
              if \<not> isStatic then errorC TYPE_ERROR ''Cant use type references for method calls / accesses!''
              else bindC (get_from_type tc name generics isStatic t None) (\<lambda>r. returnC (r, None))
          | None \<Rightarrow>
              if st_overloads st \<noteq> None \<or> st_functions st \<noteq> None
              then errorC TYPE_ERROR ''Cant use function pointer as index base!''
              else missing)))"

definition get_from_index :: "tcalls \<Rightarrow> node \<Rightarrow> node \<Rightarrow> bool \<Rightarrow> (store_type \<times> ir_value option) tr" where
  "get_from_index tc base ident isStatic =
     bindC (derefC (identifier_of ident)) (\<lambda>(name, generics).
     case identifier_of base of
       Some (x, gs) \<Rightarrow>
         bindC (getFromIdentifier tc x gs []) (member_of tc name generics isStatic
           (errorC VARIABLE_ERROR (''Cannot find identifier '' @ quoted x)))
     | None \<Rightarrow> (case base of
         Index b i s \<Rightarrow>
           bindC (getFromIndex tc b i s) (\<lambda>(st, _). member_of tc name generics isStatic (failC null_pointer) st)
       | _ \<Rightarrow>
           if is_TypeRef base then
             bindC (sized_type tc base False) (\<lambda>t.
             if \<not> isStatic then errorC TYPE_ERROR ''Cant use type references for method calls / accesses!''
             else bindC (get_from_type tc name generics isStatic t None) (\<lambda>r. returnC (r, None)))
           else if \<not> isStatic then
             bindC (bindC (trans tc base) derefC) (\<lambda>v. bindC (typeC v) (\<lambda>t.
             bindC (get_from_type tc name generics isStatic t (Some v)) (\<lambda>r. returnC (r, Some v))))
           else errorC SYNTAX_ERROR ''Static acces/method call can only be used with indentifiers!''))"

section \<open>References to types\<close>

definition cached_reference :: "tcalls \<Rightarrow> node \<Rightarrow> string \<Rightarrow> ty option tr" where
  "cached_reference tc t u =
     bindC (getTransformedTypeC u) (\<lambda>transformed.
     bindC (matching_type tc t (case transformed of None \<Rightarrow> [] | Some ts \<Rightarrow> ts)) (\<lambda>match.
     case match of
       Some r \<Rightarrow> bindC (copyC (unalias r)) (\<lambda>x. returnC (Some x))
     | None \<Rightarrow>
         bindC (getC (\<lambda>c. getCachedType u (ctx_cache c))) (\<lambda>cached.
         case cached of
           Some base \<Rightarrow> bindC (transformTypeFromBase tc u base t) (\<lambda>r. bindC (copyC (unalias r)) (\<lambda>x. returnC (Some x)))
         | None \<Rightarrow>
             if transformed \<noteq> None then errorC TYPE_ERROR ''Type requires to have no template parameters''
             else returnC None)))"

text \<open>What the syntax the reference was written with stands for, when that is a name.\<close>

definition as_type :: "store_type \<Rightarrow> ty option tr" where
  "as_type st =
     (if st_value st \<noteq> None \<or> st_functions st \<noteq> None \<or> st_overloads st \<noteq> None \<or> st_module st \<noteq> None
      then errorC TYPE_ERROR ''Cant use as a type!'' else returnC (st_type st))"

definition type_privacy :: "tctx \<Rightarrow> ty \<Rightarrow> Privacy" where
  "type_privacy c t =
     (let at = (\<lambda>l. case objs (objects c) l of Some ob \<Rightarrow> obj_privacy ob | None \<Rightarrow> PRIVATE)
      in case t of
           DefinedTy _ _ _ l \<Rightarrow> at l
         | EnumTy _ _ _ l \<Rightarrow> at l
         | InterfaceTy _ _ _ l \<Rightarrow> at l
         | TypeAliasTy _ i _ _ \<Rightarrow> aliasPrivacy c (bt_id i)
         | _ \<Rightarrow> PUBLIC)"

definition named_type :: "tcalls \<Rightarrow> node \<Rightarrow> ty option tr" where
  "named_type tc ast =
     (case identifier_of ast of
        Some (name, generics) \<Rightarrow> bindC (getFromIdentifier tc name generics []) as_type
      | None \<Rightarrow> (case ast of
          Index base ident _ \<Rightarrow>
            bindC (getFromIndex tc base ident True) (\<lambda>(st, _).
            bindC (as_type st) (\<lambda>r.
            bindC (getC (\<lambda>c. map_option (type_privacy c) r)) (\<lambda>privacy.
            if privacy = Some PRIVATE \<and> \<not> st_canBePrivate st then errorC TYPE_ERROR ''This is a private type''
            else returnC r)))
        | _ \<Rightarrow> returnC None))"

definition reference_by_name :: "tcalls \<Rightarrow> node \<Rightarrow> ty tr" where
  "reference_by_name tc t =
     (let name = ref_name t; generics = ref_generics t;
          ast = (case ref_ast t of Some a \<Rightarrow> a
            | None \<Rightarrow> if generics = [] then Identifier name else GenericIdentifier name generics);
          i = (if ref_id t = [] then name else ref_id t)
      in bindC (named_type tc ast) (\<lambda>returned.
         bindC (createIdentifierName i False) (\<lambda>first.
         bindC (getC uuidStack) (\<lambda>modules.
         bindC (search_names (cached_reference tc t)
             (case returned of Some _ \<Rightarrow> [first] | None \<Rightarrow> candidate_names first i modules)) (\<lambda>found.
         case found of
           Some r \<Rightarrow> returnC r
         | None \<Rightarrow> (case returned of
             Some r \<Rightarrow> copyC (unalias r)
           | None \<Rightarrow> errorC VARIABLE_ERROR (''Type '' @ quoted name @ '' not found from the current context!'')))))))"

text \<open>The class that gives the members of a pointer, number or function type is made along with it.\<close>

definition builtin_class :: "tcalls \<Rightarrow> string \<Rightarrow> node \<Rightarrow> unit tr" where
  "builtin_class tc name t = bindC (transformType tc (plain_ref name [t])) (\<lambda>_. returnC ())"

definition transform_internal :: "tcalls \<Rightarrow> nat \<Rightarrow> ty tr" where
  "transform_internal tc p =
     bindC (askC (\<lambda>c. the_object (if p < length (refTypes c) then Some (refTypes c ! p) else None))) (\<lambda>(x, checked).
     seqC (whenC (is_FunctionTy x \<and> \<not> checked)
       (seqC (modifyC (\<lambda>c. c\<lparr>refTypes := (refTypes c)[p := (x, True)]\<rparr>))
             (builtin_class tc FUNC_IMPL (InternalTypeRef (getName x) [] (getName x) p)))) (
     copyC x))"

definition transform_type :: "tcalls \<Rightarrow> node \<Rightarrow> ty tr" where
  "transform_type tc t =
     (case t of
        ReferenceTypeRef b m \<Rightarrow>
          if m then bindC (transformType tc (ReferenceTypeRef b False)) (\<lambda>x. returnC (setMutable True x))
          else bindC (transformType tc b) plain_reference
      | PointerTypeRef b m \<Rightarrow>
          bindC (transformType tc b) (\<lambda>baseType.
          bindC (pointer_to m baseType) (\<lambda>x.
          bindC (toRef baseType) (\<lambda>r.
          seqC (builtin_class tc (if m then MUT_PTR else CONST_PTR) r) (returnC x))))
      | DeclType e \<Rightarrow> bindC (bindC (trans tc e) derefC) (\<lambda>v. bindC (typeC v) copyC)
      | FuncType args ret \<Rightarrow>
          bindC (mapC (transformType tc) args) (\<lambda>as.
          bindC (transformType tc ret) (\<lambda>r.
          bindC (getBuiltinTypeImpl ''Sized'') (\<lambda>_.
          let fn = createFunctionType as r False False in
          bindC (toRef fn) (\<lambda>ref. seqC (builtin_class tc FUNC_IMPL ref) (returnC fn)))))
      | InternalTypeRef _ _ _ p \<Rightarrow> transform_internal tc p
      | _ \<Rightarrow>
          bindC (transformSpecialType tc t) (\<lambda>special.
          case special of
            Some x \<Rightarrow>
              seqC (whenC (is_NumericTy x) (bindC (toRef x) (builtin_class tc INT_IMPL))) (returnC x)
          | None \<Rightarrow> (case t of
              TupleType _ \<Rightarrow> errorC TODO ''Tuple types are not yet supported!''
            | _ \<Rightarrow> reference_by_name tc t)))"

end
