(* ===== verification/Transform_Functions.thy ===== *)
theory Transform_Functions
  imports Transform_Lookup BodyReturns
begin

text \<open>
  Functions in the transformer: their signatures and bodies (\<^verbatim>\<open>transformFunction.cc\<close>,
  \<^verbatim>\<open>transformConstructor.cc\<close>, \<^verbatim>\<open>transformMainFunction.cc\<close>, \<^verbatim>\<open>getLLVMBody.cc\<close>) and the visit of a definition
  (\<^verbatim>\<open>visits/Statement/FunctionDef.cc\<close>). Not kept are the call of the parent's constructor and the object it
  fills, which only the LLVM builder reads, and that \<^verbatim>\<open>setAttributes\<close> empties the arguments of the node's
  attributes.
\<close>

section \<open>Values of nodes\<close>

definition setValue :: "ir_value \<Rightarrow> unit tr" where
  "setValue v = modifyC (\<lambda>c. c\<lparr>last_value := Some v\<rparr>)"

definition run :: "tcalls \<Rightarrow> node \<Rightarrow> unit tr" where
  "run tc n = bindC (trans tc n) (\<lambda>_. returnC ())"

text \<open>
  The value of a node that is used. A node that a configuration excludes has the value null: it counts as
  dereferenced where it is used, also where only a later pass does so. A \<^verbatim>\<open>dyn_cast\<close> to a block or call follows.
\<close>

definition valueC :: "tcalls \<Rightarrow> node \<Rightarrow> ir_value tr" where
  "valueC tc n = bindC (trans tc n) derefC"

fun is_block :: "ir_value \<Rightarrow> bool" where
  "is_block (IrBlock _ _ _) = True"
| "is_block _ = False"

definition blockC :: "tcalls \<Rightarrow> node \<Rightarrow> ir_value tr" where
  "blockC tc n = bindC (valueC tc n) (\<lambda>v. if is_block v then returnC v else failC null_pointer)"

definition ptr_type :: "tcalls \<Rightarrow> node option \<Rightarrow> ty tr" where
  "ptr_type tc t = bindC (derefC t) (transformType tc)"

definition ptr_sized :: "tcalls \<Rightarrow> node option \<Rightarrow> bool \<Rightarrow> ty tr" where
  "ptr_sized tc t ignoreVoid = bindC (derefC t) (\<lambda>n. transformSizedType tc n ignoreVoid)"

definition modify_func :: "nat \<Rightarrow> (ir_func \<Rightarrow> ir_func) \<Rightarrow> unit tr" where
  "modify_func i f = modifyC (update_func i f)"

definition modify_var :: "nat \<Rightarrow> (ir_var \<Rightarrow> ir_var) \<Rightarrow> unit tr" where
  "modify_var i f = modifyC (update_var i f)"

definition modify_object :: "nat \<Rightarrow> (class_obj \<Rightarrow> class_obj) \<Rightarrow> unit tr" where
  "modify_object l f = modifyC (\<lambda>c. c\<lparr>objects := update_obj f l (objects c)\<rparr>)"

definition setCurrentFunction :: "nat option \<Rightarrow> unit tr" where
  "setCurrentFunction i = modifyC (\<lambda>c. c\<lparr>currentFunction := i\<rparr>)"

definition setGenerate :: "bool \<Rightarrow> unit tr" where
  "setGenerate b = modifyC (\<lambda>c. c\<lparr>generateFunction := b\<rparr>)"

definition getVoidType :: "ty tr" where
  "getVoidType = bindC (getItem ''void'') (\<lambda>i. case i of Some (ItemType t) \<Rightarrow> returnC t | _ \<Rightarrow> failC AssertFail)"

section \<open>Bodies in LLVM code\<close>

definition is_access :: "string \<Rightarrow> bool" where
  "is_access s \<longleftrightarrow> startsWith s ''{=''"

fun code_part :: "string \<Rightarrow> string \<times> string" where
  "code_part [] = ([], [])"
| "code_part (c # cs) =
     (if is_access (c # cs) then ([], c # cs) else (c # fst (code_part cs), snd (code_part cs)))"

lemma code_part_append: "fst (code_part s) @ snd (code_part s) = s"
  by (induction s) auto

lemma code_part_length: "s \<noteq> [] \<Longrightarrow> \<not> is_access s \<Longrightarrow> length (snd (code_part s)) < length s"
proof -
  have "length (snd (code_part t)) \<le> length t" for t
    by (induction t) auto
  then show "s \<noteq> [] \<Longrightarrow> \<not> is_access s \<Longrightarrow> ?thesis"
    by (cases s) (auto simp: less_Suc_eq_le)
qed

text \<open>The text after a type; the search runs past the end of a text that does not close the type.\<close>

definition after_access :: "string \<Rightarrow> string option" where
  "after_access s = (case dropWhile (\<lambda>c. c \<noteq> CHR 0x7D) (drop 2 s) of [] \<Rightarrow> None | _ # rest \<Rightarrow> Some rest)"

lemma after_access_length: "after_access s = Some rest \<Longrightarrow> length rest < length s"
  using length_dropWhile_le [of "\<lambda>c. c \<noteq> CHR 0x7D" "drop 2 s"] by (auto simp: after_access_def split: list.splits)

function getLLVMBody :: "tcalls \<Rightarrow> string \<Rightarrow> node list \<Rightarrow> LLVMIRChunk list tr" where
  "getLLVMBody tc s ts =
     (if s = [] then returnC []
      else if is_access s then
        (case after_access s of
           None \<Rightarrow> failC (Undefined ''string index'')
         | Some rest \<Rightarrow> (case ts of
             [] \<Rightarrow> failC (Undefined ''vector index'')
           | t # us \<Rightarrow> bindC (transformType tc t) (\<lambda>x. bindC (getLLVMBody tc rest us) (\<lambda>cs. returnC (TypeAccess x # cs)))))
      else bindC (getLLVMBody tc (snd (code_part s)) ts) (\<lambda>cs. returnC (LLCode (fst (code_part s)) # cs)))"
  by pat_completeness auto
termination
  by (relation "measure (\<lambda>(tc, s, ts). length s)") (auto intro: after_access_length code_part_length)

declare getLLVMBody.simps [simp del]

section \<open>Constructors\<close>

text \<open>An assignment to a member, as the binary operator that may assign to what is not mutable.\<close>

definition member_assignment :: "tcalls \<Rightarrow> node \<Rightarrow> node \<Rightarrow> ir_value tr" where
  "member_assignment tc name value =
     bindC (valueC tc (BinaryOp OT_EQ (Index (Identifier ''self'') name False) (Some value) False False)) (\<lambda>v.
     bindC (createBinaryOp v) (\<lambda>b.
     returnC (case b of IrCall t _ callee args i \<Rightarrow> IrCall t (BinaryOpCall True) callee args i | _ \<Rightarrow> b)))"

primrec field_assignments :: "tcalls \<Rightarrow> class_field list \<Rightarrow> ir_value list tr" where
  "field_assignments tc [] = returnC []"
| "field_assignments tc (f # fs) =
     (case cf_value f of
        None \<Rightarrow> field_assignments tc fs
      | Some e \<Rightarrow> bindC (member_assignment tc (Identifier (cf_name f)) e) (\<lambda>v.
          bindC (field_assignments tc fs) (\<lambda>vs. returnC (v # vs))))"

definition super_call :: "tcalls \<Rightarrow> node list \<Rightarrow> class_obj \<Rightarrow> unit tr" where
  "super_call tc superArgs ob =
     bindC (getInCurrentScope ''self'') (\<lambda>item.
     if item = None then failC AssertFail
     else bindC (derefC (cls_parent ob)) (\<lambda>parent.
       bindC (toRef parent) (\<lambda>r.
       bindC (trans tc (NewInstance (FunctionCall r superArgs) r)) (\<lambda>v.
       case v of
         Some (IrCall _ (ObjectInitialization _) _ _ _) \<Rightarrow> returnC ()
       | Some (IrCall _ _ _ _ _) \<Rightarrow> failC null_pointer
       | _ \<Rightarrow> failC AssertFail))))"

text \<open>The initialisers are a map over the addresses of the names; they are taken in the order of the text.\<close>

definition transformConstructor :: "tcalls \<Rightarrow> bool \<Rightarrow> node list \<Rightarrow> (node \<times> node) list \<Rightarrow> ir_value list tr" where
  "transformConstructor tc hasSuperArgs superArgs initArgs =
     bindC (getC currentClass) (\<lambda>cls.
     case cls of
       Some (DefinedTy m i gs l) \<Rightarrow>
         seqC (if hasSuperArgs then bindC (askC (\<lambda>c. class_at (objects c) l)) (super_call tc superArgs) else returnC ()) (
         bindC (askC (\<lambda>c. class_at (objects c) l)) (\<lambda>ob.
         bindC (field_assignments tc (cls_fields ob)) (\<lambda>fs.
         bindC (mapC (\<lambda>(name, arg). member_assignment tc name arg) initArgs) (\<lambda>is.
         returnC (fs @ is)))))
     | _ \<Rightarrow> failC AssertFail)"

section \<open>Signatures\<close>

fun is_bodied :: "node \<Rightarrow> bool" where
  "is_bodied (BodiedFunction _ _) = True"
| "is_bodied (ConstructorDef _ _ _ _ _) = True"
| "is_bodied _ = False"

fun is_extern :: "node \<Rightarrow> bool" where
  "is_extern (ExternFnDef _ _) = True"
| "is_extern _ = False"

fun is_constructor_node :: "node \<Rightarrow> bool" where
  "is_constructor_node (ConstructorDef _ _ _ _ _) = True"
| "is_constructor_node _ = False"

text \<open>What \<^verbatim>\<open>transformFunction\<close> sets before the arguments, and the linkage.\<close>

definition internal_linkage :: "ir_func \<Rightarrow> bool \<Rightarrow> bool \<Rightarrow> bool" where
  "internal_linkage f isEntryPoint isExtern \<longleftrightarrow>
     ((f_parent f \<noteq> None \<or> \<not> f_static f) \<or> f_privacy f = PRIVATE) \<and> \<not> isEntryPoint \<and> \<not> isExtern
     \<and> \<not> hasAttribute (f_attributes f) EXTERNAL_LINKAGE \<and> \<not> hasAttribute (f_attributes f) EXPORT"

definition set_signature :: "node FunctionDefData \<Rightarrow> bool \<Rightarrow> bool \<Rightarrow> ty list \<Rightarrow> ty \<Rightarrow> tctx \<Rightarrow> ir_func \<Rightarrow> ir_func" where
  "set_signature d isEntryPoint isExtern deducedTypes returnType c f =
     (let g = f\<lparr>f_scopeIndex := getScopeIndex c, f_parent := currentClass c, f_retTy := Some returnType,
              f_privacy := fn_privacy d, f_static := fn_static d,
              f_generics := (if fn_generics d = None then f_generics f else zip (map param_name (data_generics d)) deducedTypes),
              f_module := cur_module c, f_attributes := fn_attributes d\<rparr>
      in if internal_linkage g isEntryPoint isExtern
         then g\<lparr>f_attributes := addAttribute INTERNAL_LINKAGE [] (f_attributes g)\<rparr> else g)"

definition set_mutability :: "bool \<Rightarrow> ir_var \<Rightarrow> ir_var" where
  "set_mutability m v = v\<lparr>v_isMutable := m\<rparr>"

definition self_argument :: "node FunctionDefData \<Rightarrow> (string \<times> nat) list tr" where
  "self_argument d =
     bindC (getC getScopeIndex) (\<lambda>scopeIndex.
     bindC (createArgument ''self'' None None scopeIndex) (\<lambda>a.
     bindC (bindC (getC (getCurrentClass True)) derefC) (\<lambda>cls.
     bindC (plain_reference cls) (\<lambda>t.
     seqC (modify_var a (\<lambda>v. set_mutability (fn_mutable d) (v\<lparr>v_type := Some (setMutable (fn_mutable d) t)\<rparr>)))
       (returnC [(''self'', a)])))))"

definition one_argument :: "tcalls \<Rightarrow> node FunctionDefData \<Rightarrow> node Param \<Rightarrow> (string \<times> nat) tr" where
  "one_argument tc d p =
     bindC (getC getScopeIndex) (\<lambda>scopeIndex.
     bindC (createArgument (param_name p) None (defaultValue p) scopeIndex) (\<lambda>a.
     bindC (ptr_sized tc (param_type p) False) (\<lambda>t.
     seqC (if param_name p = ''self''
           then modify_var a (\<lambda>v. set_mutability (fn_mutable d) (v\<lparr>v_type := Some (setMutable (fn_mutable d) t)\<rparr>))
           else modify_var a (\<lambda>v. set_mutability (mutableArg p) (v\<lparr>v_type := Some t\<rparr>)))
       (returnC (param_name p, a)))))"

text \<open>\<^verbatim>\<open>FunctionType::from\<close>.\<close>

definition argument_types :: "(string \<times> nat) list \<Rightarrow> ty list tr" where
  "argument_types as = mapC (\<lambda>a. typeC (IrArgument (snd a))) as"

definition give_type :: "nat \<Rightarrow> node FunctionDefData \<Rightarrow> (string \<times> nat) list \<Rightarrow> ty \<Rightarrow> unit tr" where
  "give_type i d as returnType =
     bindC (argument_types as) (\<lambda>ts.
     modify_func i (\<lambda>f. f\<lparr>f_arguments := as,
       f_type := Some (FunctionType_from ts returnType (f_variadic f) (Some (fn_mutable d)))\<rparr>))"

text \<open>The entry of a virtual function goes to the class object that the module has registered.\<close>

definition virtual_slot :: "nat \<Rightarrow> bool \<Rightarrow> unit tr" where
  "virtual_slot i isVirtual =
     bindC (getC (getCurrentClass True)) (\<lambda>cls.
     case cls of
       Some (DefinedTy m info gs l) \<Rightarrow>
         if \<not> isVirtual then returnC ()
         else bindC (getC (\<lambda>c. typeInfo c (uniqueName (bt_module info)) (bt_id info))) (\<lambda>t.
           case t of
             None \<Rightarrow> failC (StdException ''out_of_range'')
           | Some (DefinedTy _ _ _ k) \<Rightarrow>
               bindC (getC (\<lambda>c. fst (addVtableItem i k (objects c)))) (\<lambda>index.
               seqC (modifyC (\<lambda>c. c\<lparr>objects := snd (addVtableItem i k (objects c))\<rparr>))
                 (modify_func i (\<lambda>f. f\<lparr>f_virtualIndex := int index\<rparr>)))
           | Some _ \<Rightarrow> failC (Undefined ''no class''))
     | _ \<Rightarrow> returnC ())"

section \<open>Bodies\<close>

definition needs_return :: "ir_func \<Rightarrow> bool \<Rightarrow> ty \<Rightarrow> AttributeHolder \<Rightarrow> node list \<Rightarrow> bool" where
  "needs_return f isConstructor returnType attrs stmts \<longleftrightarrow>
     \<not> bodyReturns stmts \<and> \<not> (is_NumericTy returnType \<or> is_VoidTy returnType) \<and> \<not> isConstructor
     \<and> \<not> hasAttribute attrs NOT_IMPLEMENTED \<and> \<not> hasAttribute attrs BUILTIN"

fun body_of :: "node \<Rightarrow> node option" where
  "body_of (BodiedFunction b _) = Some b"
| "body_of (ConstructorDef b _ _ _ _) = Some b"
| "body_of _ = None"

fun prepend :: "ir_value list \<Rightarrow> ir_value \<Rightarrow> ir_value" where
  "prepend vs (IrBlock t a ws) = IrBlock t a (vs @ ws)"
| "prepend vs v = v"

definition add_arguments :: "(string \<times> nat) list \<Rightarrow> unit tr" where
  "add_arguments as = forC (\<lambda>(name, a). addItem name (ItemValue (IrArgument a))) as"

definition constructor_part :: "tcalls \<Rightarrow> nat \<Rightarrow> node \<Rightarrow> ir_value list tr" where
  "constructor_part tc i n =
     (case n of
        ConstructorDef _ superArgs initArgs hasSuperArgs _ \<Rightarrow>
          seqC (modify_func i (\<lambda>f. f\<lparr>f_type := map_option (setMutable True) (f_type f)\<rparr>))
            (transformConstructor tc hasSuperArgs superArgs initArgs)
      | _ \<Rightarrow> failC AssertFail)"

definition function_body :: "tcalls \<Rightarrow> nat \<Rightarrow> node \<Rightarrow> node FunctionDefData \<Rightarrow> node \<Rightarrow> ty \<Rightarrow> (string \<times> nat) list \<Rightarrow> unit tr" where
  "function_body tc i n d body returnType as =
     bindC (getC currentFunction) (\<lambda>backupFunction.
     seqC (setCurrentFunction (Some i)) (
     seqC (withScopeC (
       seqC (add_arguments as) (
       bindC (func_at i) (\<lambda>f.
       bindC (liftC (Func_isConstructor f)) (\<lambda>isConstructor.
       if needs_return f isConstructor returnType (fn_attributes d) (block_stmts body)
       then errorC TYPE_ERROR ''Function lacks ending return statement!''
       else bindC (if isConstructor then constructor_part tc i n else returnC []) (\<lambda>prepended.
         bindC (blockC tc body) (\<lambda>b.
         modify_func i (\<lambda>f. f\<lparr>f_body := Some (prepend prepended b)\<rparr>)))))))) (
     setCurrentFunction backupFunction)))"

definition finish_function :: "tcalls \<Rightarrow> nat \<Rightarrow> node \<Rightarrow> node FunctionDefData \<Rightarrow> ty \<Rightarrow> (string \<times> nat) list \<Rightarrow> unit tr" where
  "finish_function tc i n d returnType as =
     (case body_of n of
        Some body \<Rightarrow> function_body tc i n d body returnType as
      | None \<Rightarrow> (case n of
          ExternFnDef name _ \<Rightarrow> modify_func i (\<lambda>f. f\<lparr>f_externalName := name\<rparr>)
        | LLVMFunction body typesUsed _ \<Rightarrow> bindC (getLLVMBody tc body typesUsed) (\<lambda>cs.
            modifyC (\<lambda>c. c\<lparr>llvmBodies := (llvmBodies c)(i \<mapsto> cs)\<rparr>))
        | _ \<Rightarrow> returnC ()))"

section \<open>Functions\<close>

definition function_header :: "tcalls \<Rightarrow> node \<Rightarrow> node FunctionDefData \<Rightarrow> ty list \<Rightarrow> bool \<Rightarrow> (nat \<times> ty \<times> (string \<times> nat) list) tr" where
  "function_header tc n d deducedTypes isEntryPoint =
     seqC (assertC (length deducedTypes = length (data_generics d))) (
     seqC (bind_generics tc False (data_generics d) deducedTypes) (
     bindC (ptr_sized tc (fn_retType d) True) (\<lambda>returnType.
     bindC (createFunction (fn_name d) None []
       (\<not> is_bodied n \<and> \<not> hasAttribute (fn_attributes d) LLVM_FUNC) (fn_variadic d) False) (\<lambda>i.
     bindC (getC (\<lambda>c. set_signature d isEntryPoint (is_extern n) deducedTypes returnType c)) (\<lambda>sig.
     seqC (modify_func i sig) (
     bindC (func_at i) (\<lambda>f.
     bindC (liftC (Func_isConstructor f)) (\<lambda>isConstructor.
     bindC (if isConstructor then self_argument d else returnC []) (\<lambda>self.
     bindC (mapC (one_argument tc d) (fn_args d)) (\<lambda>as.
     seqC (give_type i d (self @ as) returnType) (
     returnC (i, returnType, self @ as))))))))))))"

definition transform_function :: "tcalls \<Rightarrow> function_store \<Rightarrow> ty list \<Rightarrow> bool \<Rightarrow> nat list \<Rightarrow> nat tr" where
  "transform_function tc s deducedTypes isEntryPoint overloads =
     bindC (store_data s) (\<lambda>d.
     withStateC (fs_state s) (
     bindC (withScopeC (
       bindC (function_header tc (fs_function s) d deducedTypes isEntryPoint) (\<lambda>(i, returnType, as).
       bindC (shouldReturnOverload i overloads) (\<lambda>old.
       case old of
         Some j \<Rightarrow> returnC (j, False)
       | None \<Rightarrow>
           seqC (virtual_slot i (fn_virtual d)) (
           seqC (defineFunction i []) (
           seqC (cacheC (setFunctionState i (fs_state s))) (
           seqC (finish_function tc i (fs_function s) d returnType as) (
           returnC (i, True))))))))) (\<lambda>(i, isNew).
     seqC (whenC isNew (modifyC (\<lambda>c. c\<lparr>moduleFunctions := (moduleFunctions c)
       (uniqueName (cur_module c) := moduleFunctions c (uniqueName (cur_module c)) @ [i])\<rparr>))) (
     returnC i))))"

section \<open>The entry point\<close>

definition transformMainFunction :: "tcalls \<Rightarrow> node \<Rightarrow> node FunctionDefData \<Rightarrow> unit tr" where
  "transformMainFunction tc n d =
     bindC (getC (\<lambda>c. (isMain (cur_module c), exported c))) (\<lambda>(in_main, ex).
     seqC (assertC (in_main \<and> fn_name d = ''main'' \<and> fn_privacy d = PUBLIC)) (
     if ''main'' \<in> set ex then errorC SYNTAX_ERROR ''Multiple main functions have been defined!''
     else if fn_args d \<noteq> [] then errorC SYNTAX_ERROR ''Program entry point cannot have parameters!''
     else if is_extern n then errorC SYNTAX_ERROR ''Program entry point cannot have and external flag!''
     else if data_generics d \<noteq> [] then errorC SYNTAX_ERROR ''Program entry point cannot have generics!''
     else if \<not> is_bodied n then errorC SYNTAX_ERROR ''Program entry cant be a declaration!''
     else bindC (ptr_type tc (fn_retType d)) (\<lambda>returnType.
       if \<not> isIntType 32 returnType then errorC SYNTAX_ERROR ''Program entry must have i32 as return type!''
       else if 0 < m_attributes (fn_attributes d) then errorC SYNTAX_ERROR ''Program entry point cant have attributes!''
       else bindC saveState (\<lambda>state.
         bindC (transformFunction tc \<lparr>fs_function = n, fs_state = state\<rparr> [] True []) (\<lambda>i.
         seqC (modify_func i (\<lambda>f. f\<lparr>f_externalName := ''main''\<rparr>))
           (modifyC (\<lambda>c. c\<lparr>exported := exported c @ [''main'']\<rparr>)))))))"

section \<open>Definitions\<close>

fun with_data :: "node FunctionDefData \<Rightarrow> node \<Rightarrow> node" where
  "with_data d (FunctionDef _) = FunctionDef d"
| "with_data d (ExternFnDef name _) = ExternFnDef name d"
| "with_data d (BodiedFunction b _) = BodiedFunction b d"
| "with_data d (ConstructorDef b superArgs initArgs h _) = ConstructorDef b superArgs initArgs h d"
| "with_data d (LLVMFunction b ts _) = LLVMFunction b ts d"
| "with_data d n = n"

fun with_args :: "node Param list \<Rightarrow> node FunctionDefData \<Rightarrow> node FunctionDefData" where
  "with_args as (FunctionDefData name p _ r v s vi m gs cm a) = FunctionDefData name p as r v s vi m gs cm a"

fun with_attributes :: "AttributeHolder \<Rightarrow> node FunctionDefData \<Rightarrow> node FunctionDefData" where
  "with_attributes a (FunctionDefData name p as r v s vi m gs cm _) = FunctionDefData name p as r v s vi m gs cm a"

text \<open>A method gets its receiver as first argument.\<close>

definition with_self :: "bool \<Rightarrow> node FunctionDefData \<Rightarrow> ty \<Rightarrow> node FunctionDefData tr" where
  "with_self isConstructor d cls =
     bindC (if hasAttribute (fn_attributes d) NO_POINTER_SELF then copyC cls else plain_reference cls) (\<lambda>p.
     let pointer = setMutable (fn_mutable d \<or> isConstructor) p in
     case fn_args d of
       [] \<Rightarrow>
         if fn_static d then returnC d
         else bindC (toRef pointer) (\<lambda>r. returnC (with_args [Param ''self'' (Some r) None None Normal False] d))
     | a # as \<Rightarrow>
         if fn_static d then returnC d
         else bindC (toRef pointer) (\<lambda>r.
           if param_name a \<noteq> ''self'' then returnC (with_args (Param ''self'' (Some r) None None Normal False # a # as) d)
           else returnC (with_args (Param ''self'' (Some r) (defaultValue a) (whereClause a) (param_status a) (mutableArg a) # as) d)))"

definition receiver :: "bool \<Rightarrow> node FunctionDefData \<Rightarrow> node FunctionDefData tr" where
  "receiver isConstructor d =
     bindC (getC (getCurrentClass True)) (\<lambda>cls.
     case (if hasAttribute (fn_attributes d) FIRST_ARG_IS_SELF then None else cls) of
       Some t \<Rightarrow> with_self isConstructor d t
     | None \<Rightarrow>
         if \<not> hasAttribute (fn_attributes d) FIRST_ARG_IS_SELF then returnC d
         else (case fn_args d of
             [] \<Rightarrow> errorC SYNTAX_ERROR ''Function with first_arg_is_self attribute must have at least one argument!''
           | a # _ \<Rightarrow>
               if param_name a \<noteq> ''self''
               then errorC SYNTAX_ERROR ''First argument of function with first_arg_is_self attribute must be named self!''
               else returnC d))"

text \<open>A function that keeps its name in the program is entered in the list of such names.\<close>

definition keeps_name :: "node \<Rightarrow> node FunctionDefData \<Rightarrow> bool" where
  "keeps_name n d \<longleftrightarrow>
     (hasAttribute (fn_attributes d) NO_MANGLE \<or> hasAttribute (fn_attributes d) EXPORT \<or> is_extern n)
     \<and> \<not> hasAttribute (fn_attributes d) INTRINSIC"

definition exported_name :: "node \<Rightarrow> node FunctionDefData \<Rightarrow> string" where
  "exported_name n d =
     (case n of
        ExternFnDef name _ \<Rightarrow> name
      | _ \<Rightarrow> (case map_of (getAttributeArgs (fn_attributes d) EXPORT) ''name'' of Some x \<Rightarrow> x | None \<Rightarrow> fn_name d))"

definition register_name :: "node \<Rightarrow> node FunctionDefData \<Rightarrow> unit tr" where
  "register_name n d =
     (if fn_generics d \<noteq> None then errorC SYNTAX_ERROR ''Generic functions cannot be exported!''
      else bindC (getC exported) (\<lambda>ex.
        if fn_name d \<in> set ex
        then errorC VARIABLE_ERROR (''Function '' @ quoted (exported_name n d) @ '' is already exported as unmangled!'')
        else modifyC (\<lambda>c. c\<lparr>exported := exported c @ [fn_name d]\<rparr>)))"

definition define_function :: "tcalls \<Rightarrow> node \<Rightarrow> node FunctionDefData \<Rightarrow> ctx_state \<Rightarrow> unit tr" where
  "define_function tc n d state =
     bindC (getC (\<lambda>c. (generateFunction c, fn_name d = ''main'' \<and> isMain (cur_module c)))) (\<lambda>(generate, is_main).
     if \<not> generate \<and> \<not> is_main then
       bindC (createIdentifierName (fn_name d) True) (\<lambda>u.
       seqC (whenC (keeps_name n d) (register_name n d))
         (cacheC (setFunction u \<lparr>fs_function = n, fs_state = state\<rparr>)))
     else if generate \<and> is_main then
       if fn_privacy d \<noteq> PUBLIC then errorC SYNTAX_ERROR ''Program entry point must be public!''
       else transformMainFunction tc n d
     else if generate \<and> fn_generics d = None then
       bindC (transformFunction tc \<lparr>fs_function = n, fs_state = state\<rparr> [] False []) (\<lambda>_. returnC ())
     else returnC ())"

definition not_for_this_build :: "AttributeHolder \<Rightarrow> tctx \<Rightarrow> bool" where
  "not_for_this_build a c \<longleftrightarrow>
     hasAttribute a TEST \<and> (\<not> testMode c \<or> \<not> isMainModule c)
     \<or> hasAttribute a BENCH \<and> (\<not> benchMode c \<or> \<not> isMainModule c)"

definition allow_in_build :: "AttributeHolder \<Rightarrow> AttributeHolder" where
  "allow_in_build a =
     (if hasAttribute a TEST then addAttribute ALLOW_FOR_TEST [] a
      else if hasAttribute a BENCH then addAttribute ALLOW_FOR_BENCH [] a else a)"

text \<open>
  The state a function is stored with. One that a class extension has given a context state is looked up in the
  scopes, module and enclosing modules of the extension, with the current scope in front.
\<close>

definition definition_state :: "ctx_state option \<Rightarrow> ctx_state tr" where
  "definition_state contextState =
     bindC saveState (\<lambda>state.
     case contextState of
       None \<Rightarrow> returnC state
     | Some newState \<Rightarrow> bindC currentScope (\<lambda>s.
         returnC (state\<lparr>s_module := s_module newState, s_stack := s # s_stack newState,
           s_uuidStack := s_uuidStack newState\<rparr>)))"

definition tvisit_FunctionDef :: "tcalls \<Rightarrow> ctx_state option \<Rightarrow> node \<Rightarrow> unit tr" where
  "tvisit_FunctionDef tc contextState n =
     bindC (derefC (fn_data n)) (\<lambda>d.
     let a = fn_attributes d in
     if hasAttribute a TEST \<and> hasAttribute a BENCH
     then errorC SYNTAX_ERROR ''Function cannot be both a test and a benchmark!''
     else bindC (getC (not_for_this_build a)) (\<lambda>skip.
       if skip then returnC ()
       else bindC (receiver (is_constructor_node n) (with_attributes (allow_in_build a) d)) (\<lambda>d'.
         if fn_virtual d' \<and> fn_generics d' \<noteq> None then errorC SYNTAX_ERROR ''Virtual functions cannot be generic!''
         else bindC (definition_state contextState) (\<lambda>state. define_function tc (with_data d' n) d' state))))"

end
