(* ===== verification/Transform_Classes.thy ===== *)
theory Transform_Classes
  imports Transform_Functions
begin

text \<open>
  Classes, structures, interfaces and enumerations in the transformer (\<^verbatim>\<open>transformClass.cc\<close>,
  \<^verbatim>\<open>transformEnum.cc\<close>, \<^verbatim>\<open>implementTypes.cc\<close>, \<^verbatim>\<open>generate_equilizers.h\<close>) and the visits of definitions of
  types, modules and macros, with the extension of types (\<^verbatim>\<open>transformTypeExtension.cc\<close>). The object of a type is entered under its names before its generics are known;
  setting them changes what the names stand for, which \<open>set_generics\<close> does.
\<close>

section \<open>Objects of types\<close>

fun type_loc :: "ty \<Rightarrow> nat option" where
  "type_loc (DefinedTy _ _ _ l) = Some l"
| "type_loc (EnumTy _ _ _ l) = Some l"
| "type_loc (InterfaceTy _ _ _ l) = Some l"
| "type_loc _ = None"

fun type_base :: "ty \<Rightarrow> base_info option" where
  "type_base (DefinedTy _ i _ _) = Some i"
| "type_base (EnumTy _ i _ _) = Some i"
| "type_base (InterfaceTy _ i _ _) = Some i"
| "type_base _ = None"

fun with_generics :: "ty list \<Rightarrow> ty \<Rightarrow> ty" where
  "with_generics gs (DefinedTy m i _ l) = DefinedTy m i gs l"
| "with_generics gs (EnumTy m i _ l) = EnumTy m i gs l"
| "with_generics gs (InterfaceTy m i _ l) = InterfaceTy m i gs l"
| "with_generics gs t = t"

definition modify_type :: "ty \<Rightarrow> (class_obj \<Rightarrow> class_obj) \<Rightarrow> unit tr" where
  "modify_type t f = bindC (derefC (type_loc t)) (\<lambda>l. modify_object l f)"

definition addImpl :: "ty \<Rightarrow> ty \<Rightarrow> unit tr" where
  "addImpl t interface = modify_type t (\<lambda>ob. ob\<lparr>impls := impls ob @ [interface]\<rparr>)"

definition heapC :: "(type_heap \<Rightarrow> ty \<times> type_heap) \<Rightarrow> ty tr" where
  "heapC f = (\<lambda>c. let (t, h) = f (objects c) in Inr (t, c\<lparr>objects := h\<rparr>))"

definition rebind :: "string \<Rightarrow> Item \<Rightarrow> unit tr" where
  "rebind name i = (\<lambda>c. case stack c of [] \<Rightarrow> Inl empty_stack | s # ss \<Rightarrow> Inr ((), c\<lparr>stack := s(name \<mapsto> i) # ss\<rparr>))"

definition set_generics :: "string \<Rightarrow> ty \<Rightarrow> ty list \<Rightarrow> ty tr" where
  "set_generics u t gs =
     (let t' = with_generics gs t
      in seqC (rebind ''Self'' (ItemType t')) (
         seqC (cacheC (\<lambda>ch. ch\<lparr>createdTypes := (createdTypes ch)(u \<mapsto> ItemType t')\<rparr>)) (
         returnC t')))"

definition register_type :: "ty \<Rightarrow> unit tr" where
  "register_type t =
     bindC (derefC (type_base t)) (\<lambda>i.
     modifyC (\<lambda>c. let m = uniqueName (cur_module c) in
       if typeInfo c m (bt_id i) = None then c\<lparr>typeInfo := (typeInfo c)(m := (typeInfo c m)(bt_id i \<mapsto> t))\<rparr> else c))"

section \<open>Assignment operators\<close>

definition has_equalizers :: "string \<Rightarrow> bool" where
  "has_equalizers name \<longleftrightarrow> name \<notin> {CONST_PTR, MUT_PTR, INT_IMPL, FUNC_IMPL}"

definition equalizer :: "string \<Rightarrow> node \<Rightarrow> node \<Rightarrow> node" where
  "equalizer operator argument ret =
     FunctionDef (FunctionDefData operator PUBLIC [Param ''other'' (Some argument) None None Normal False] (Some ret)
       False False False False None None (addAttribute BUILTIN [] no_attributes))"

definition generate_equalizer :: "tcalls \<Rightarrow> ty \<Rightarrow> bool \<Rightarrow> unit tr" where
  "generate_equalizer tc t allowPointer =
     bindC (liftC (getOperatorMangle OT_EQ)) (\<lambda>operator.
     bindC (if allowPointer then bindC (plain_reference t) toRef else toRef t) (\<lambda>argument.
     bindC (bindC getVoidType toRef) (\<lambda>ret.
     run tc (equalizer operator argument ret))))"

definition generate_equalizers :: "tcalls \<Rightarrow> string \<Rightarrow> ty \<Rightarrow> unit tr" where
  "generate_equalizers tc name t =
     whenC (has_equalizers name) (seqC (generate_equalizer tc t False) (generate_equalizer tc t True))"

section \<open>Generics of a new type\<close>

definition instance_name :: "string \<Rightarrow> string \<Rightarrow> string tr" where
  "instance_name u baseUuid =
     bindC (getTransformedTypeC u) (\<lambda>existing.
     returnC (baseUuid @ '':'' @ nat_to_string (case existing of None \<Rightarrow> 0 | Some ts \<Rightarrow> length ts)))"

definition transform_defaults :: "tcalls \<Rightarrow> node Param list \<Rightarrow> ty list tr" where
  "transform_defaults tc ps = mapC (transformType tc) (List.map_filter param_type ps)"

definition new_type_generics :: "tcalls \<Rightarrow> string \<Rightarrow> ty \<Rightarrow> node Param list \<Rightarrow> ty list \<Rightarrow> Privacy \<Rightarrow> ty tr" where
  "new_type_generics tc u t classGenerics generics privacy =
     seqC (bind_generics tc True classGenerics generics) (
     bindC (transform_defaults tc classGenerics) (\<lambda>defaults.
     bindC (bind_defaults tc (drop (length generics) classGenerics)) (\<lambda>rest.
     bindC (set_generics u t (generics @ rest)) (\<lambda>t'.
     seqC (modify_type t' (\<lambda>ob. ob\<lparr>defaultGenerics := defaults,
         defaultGenericStart := length (filter (\<lambda>p. param_type p = None) classGenerics), obj_privacy := privacy\<rparr>))
       (returnC t')))))"

text \<open>The new object, its interface \<^verbatim>\<open>Sized\<close> and its names.\<close>

definition enter_type :: "ty \<Rightarrow> string \<Rightarrow> string \<Rightarrow> unit tr" where
  "enter_type t baseUuid u =
     bindC (getBuiltinTypeImpl ''Sized'') (\<lambda>s.
     seqC (addImpl t s) (
     seqC (cacheC (setTransformedType baseUuid (ItemType t) u))
       (addItem ''Self'' (ItemType t))))"

section \<open>Members of a class\<close>

text \<open>The functions of a type, its own and those that extensions have added, which have a context state.\<close>

type_synonym member = "node \<times> ctx_state option"

definition all_members :: "node list \<Rightarrow> (node \<times> ctx_state) list \<Rightarrow> member list" where
  "all_members own added = map (\<lambda>n. (n, None)) own @ map (\<lambda>(n, s). (n, Some s)) added"

definition run_member :: "tcalls \<Rightarrow> member \<Rightarrow> unit tr" where
  "run_member tc m =
     (case snd m of None \<Rightarrow> run tc (fst m) | Some s \<Rightarrow> bindC (transMethod tc s (fst m)) (\<lambda>_. returnC ()))"

fun variable_name :: "node \<Rightarrow> string" where
  "variable_name (VariableDecl name _ _ _ _ _ _ _ _) = name"
| "variable_name _ = []"

fun field_of :: "ty \<Rightarrow> node \<Rightarrow> class_field" where
  "field_of t (VariableDecl name value isMut _ _ _ privacy _ _) =
     \<lparr>cf_name = name, cf_type = setMutable isMut t, cf_public = (privacy = PUBLIC), cf_mutable = isMut,
      cf_value = value, is_method = False\<rparr>"
| "field_of t _ = undefined"

fun is_constant :: "node \<Rightarrow> bool" where
  "is_constant (VariableDecl _ _ _ _ c _ _ _ _) = c"
| "is_constant _ = False"

fun defined_type :: "node \<Rightarrow> node option" where
  "defined_type (VariableDecl _ _ _ t _ _ _ _ _) = t"
| "defined_type _ = None"

definition add_field :: "tcalls \<Rightarrow> ty \<Rightarrow> node \<Rightarrow> nat tr" where
  "add_field tc t v =
     (case defined_type v of
        None \<Rightarrow> errorC SYNTAX_ERROR ''Cant infer type!''
      | Some r \<Rightarrow> bindC (transformSizedType tc r False) (\<lambda>varTy.
          seqC (modify_type t (\<lambda>ob. ob\<lparr>cls_fields := cls_fields ob @ [field_of varTy v]\<rparr>)) (returnC 1)))"

definition add_member :: "tcalls \<Rightarrow> bool \<Rightarrow> ty \<Rightarrow> node \<Rightarrow> nat tr" where
  "add_member tc isInterface t v =
     (if is_constant v \<and> \<not> isInterface then
        bindC (trans tc v) (\<lambda>var.
        case var of
          Some (IrVariableDeclaration _ x _ _) \<Rightarrow>
            seqC (modify_type t (\<lambda>ob. ob\<lparr>staticFields := staticFields ob @ [x]\<rparr>)) (returnC 0)
        | _ \<Rightarrow> failC AssertFail)
      else add_field tc t v)"

text \<open>A field of an interface that the class must have; the fields of the class are those before the loop.\<close>

definition implement_field :: "ty \<Rightarrow> class_field list \<Rightarrow> class_field \<Rightarrow> unit tr" where
  "implement_field t typeFields field =
     (if is_method field then returnC ()
      else case index_where (\<lambda>f. cf_name f = cf_name field) typeFields of
          None \<Rightarrow>
            if cf_value field = None then errorC TYPE_ERROR (''Field '' @ quoted (cf_name field) @ '' is not implemented!'')
            else modify_type t (\<lambda>ob. ob\<lparr>cls_fields := cls_fields ob @ [field]\<rparr>)
        | Some k \<Rightarrow>
            let f = typeFields ! k in
            if \<not> is_ty (cf_type f) (cf_type field)
            then errorC TYPE_ERROR (''Field '' @ cf_name field @ '' type does not match the interface type!'')
            else if cf_mutable f \<noteq> cf_mutable field
            then errorC TYPE_ERROR (''Field '' @ cf_name field @ '' mutability does not match the interface mutability!'')
            else if cf_public f \<noteq> cf_public field
            then errorC TYPE_ERROR (''Field '' @ cf_name field @ '' privacy does not match the interface privacy!'')
            else returnC ())"

definition interface_of :: "tcalls \<Rightarrow> node \<Rightarrow> ty tr" where
  "interface_of tc r =
     bindC (transformType tc r) (\<lambda>t.
     case t of InterfaceTy _ _ _ _ \<Rightarrow> returnC t | _ \<Rightarrow> errorC TYPE_ERROR ''Type is not an interface!'')"

definition type_object :: "ty \<Rightarrow> class_obj tr" where
  "type_object t = bindC (derefC (type_loc t)) (\<lambda>l. askC (\<lambda>c. class_at (objects c) l))"

definition implementTypes :: "tcalls \<Rightarrow> ty \<Rightarrow> node list \<Rightarrow> unit tr" where
  "implementTypes tc t refs =
     bindC (mapC (interface_of tc) refs) (\<lambda>interfaces.
     bindC (type_object t) (\<lambda>ob.
     forC (\<lambda>i. bindC (type_object i) (\<lambda>iob.
       seqC (forC (implement_field t (cls_fields ob)) (cls_fields iob)) (addImpl t i))) interfaces))"

section \<open>Virtual tables and constructors\<close>

text \<open>The loop over the ancestors, as the modules have registered them; the fuel bounds their number.\<close>

primrec ancestor_has_vtable :: "nat \<Rightarrow> class_obj \<Rightarrow> bool tr" where
  "ancestor_has_vtable 0 ob = failC (Undefined ''stack exhausted'')"
| "ancestor_has_vtable (Suc k) ob =
     (case cls_parent ob of
        None \<Rightarrow> returnC False
      | Some p \<Rightarrow>
          bindC (derefC (type_base p)) (\<lambda>i.
          bindC (getC (\<lambda>c. typeInfo c (uniqueName (bt_module i)) (bt_id i))) (\<lambda>t.
          case t of
            None \<Rightarrow> failC (Undefined ''past the end of a map'')
          | Some (DefinedTy _ _ _ l) \<Rightarrow>
              bindC (askC (\<lambda>c. class_at (objects c) l)) (\<lambda>q.
              if hasVtable q then returnC True else ancestor_has_vtable k q)
          | Some _ \<Rightarrow> returnC False)))"

definition declare_method :: "tcalls \<Rightarrow> ty \<Rightarrow> member \<Rightarrow> unit tr" where
  "declare_method tc t m =
     bindC (derefC (fn_data (fst m))) (\<lambda>d.
     bindC (liftC (opEquals OT_CONSTRUCTOR (fn_name d))) (\<lambda>is_ctor.
     seqC (whenC (is_ctor \<and> is_DefinedTy t) (modify_type t (\<lambda>ob. ob\<lparr>hasConstructor := True\<rparr>))) (
     seqC (whenC (fn_virtual d) (modify_type t (\<lambda>ob. ob\<lparr>hasVtable := True\<rparr>))) (
     run_member tc m))))"

definition find_vtable :: "nat \<Rightarrow> ty \<Rightarrow> unit tr" where
  "find_vtable k t =
     bindC (type_object t) (\<lambda>ob.
     if is_DefinedTy t \<and> \<not> hasVtable ob
     then bindC (ancestor_has_vtable k ob) (\<lambda>b. whenC b (modify_type t (\<lambda>x. x\<lparr>hasVtable := True\<rparr>)))
     else returnC ())"

definition parent_class :: "tcalls \<Rightarrow> node option \<Rightarrow> ty option tr" where
  "parent_class tc extends =
     optC (\<lambda>x. bindC (transformSizedType tc x False) (\<lambda>p.
       if is_DefinedTy p then returnC p else errorC TYPE_ERROR ''Cant inherit from this type'')) extends"

definition inherit :: "nat \<Rightarrow> ty \<Rightarrow> ty option \<Rightarrow> bool \<Rightarrow> unit tr" where
  "inherit k t parent allowConstructor =
     (case (t, parent) of
        (DefinedTy _ i _ l, Some (DefinedTy _ ip _ lp)) \<Rightarrow> performInheritance k i l ip lp allowConstructor
      | _ \<Rightarrow> returnC ())"

definition require_constructor :: "ty \<Rightarrow> ty option \<Rightarrow> bool \<Rightarrow> AttributeHolder \<Rightarrow> unit tr" where
  "require_constructor t parent allowConstructor attrs =
     bindC (optC type_object parent) (\<lambda>p.
     let parentHasConstructor = (allowConstructor \<and> (case p of None \<Rightarrow> False | Some q \<Rightarrow> \<not> isStruct q \<and> hasConstructor q)) in
     bindC (type_object t) (\<lambda>ob.
     if \<not> parentHasConstructor \<and> is_DefinedTy t \<and> \<not> hasConstructor ob \<and> \<not> isStruct ob
       \<and> \<not> hasAttribute attrs BUILTIN \<and> \<not> hasAttribute attrs NO_CONSTRUCTOR
     then errorC SYNTAX_ERROR ''This class does not have a constructor!'' else returnC ()))"

section \<open>Classes\<close>

text \<open>The members, once the generics and the parent are known.\<close>

definition class_members :: "nat \<Rightarrow> tcalls \<Rightarrow> string \<Rightarrow> member list \<Rightarrow> node list \<Rightarrow> node list \<Rightarrow> DefinedKind \<Rightarrow> node list
    \<Rightarrow> bool \<Rightarrow> AttributeHolder \<Rightarrow> ty \<Rightarrow> ty option \<Rightarrow> unit tr" where
  "class_members k tc name functions variables childTypes kind refs declared attrs t parent =
     bindC (getC generateFunction) (\<lambda>backup.
     seqC (setCurrentClass (Some t)) (
     seqC (setGenerate False) (
     seqC (forC (run tc) childTypes) (
     seqC (setGenerate True) (
     seqC (forC (run tc) childTypes) (
     bindC (mapC (add_member tc (kind = DT_INTERFACE) t) variables) (\<lambda>counts.
     seqC (whenC (kind \<noteq> DT_INTERFACE) (modify_type t (\<lambda>ob. ob\<lparr>cls_parent := parent\<rparr>))) (
     let allowConstructor = (\<not> declared \<and> sum_list counts = 0) in
     seqC (inherit k t parent allowConstructor) (
     seqC (whenC (kind \<noteq> DT_INTERFACE) (implementTypes tc t refs)) (
     seqC (assertC (kind = DT_STRUCT \<longrightarrow> functions = [])) (
     seqC (setGenerate False) (
     seqC (register_type t) (
     seqC (generate_equalizers tc name t) (
     seqC (forC (declare_method tc t) functions) (
     seqC (find_vtable k t) (
     seqC (setGenerate True) (
     seqC (generate_equalizers tc name t) (
     seqC (forC (run_member tc) functions) (
     seqC (setGenerate backup) (
     require_constructor t parent allowConstructor attrs))))))))))))))))))))"

definition new_class :: "string \<Rightarrow> string \<Rightarrow> DefinedKind \<Rightarrow> ty tr" where
  "new_class name u kind =
     bindC (getC cur_module) (\<lambda>m.
     if kind = DT_INTERFACE then heapC (new_InterfaceType name u m [] [])
     else heapC (new_DefinedType name u m [] None [] (kind = DT_STRUCT)))"

definition given_generics :: "tcalls \<Rightarrow> node option \<Rightarrow> ty list tr" where
  "given_generics tc typeRef =
     (case typeRef of None \<Rightarrow> returnC [] | Some r \<Rightarrow> mapC (transformType tc) (ref_generics r))"

definition params_of :: "node Param list option \<Rightarrow> node Param list" where
  "params_of gs = (case gs of None \<Rightarrow> [] | Some ps \<Rightarrow> ps)"

definition transform_class :: "nat \<Rightarrow> tcalls \<Rightarrow> string \<Rightarrow> type_store \<Rightarrow> node option \<Rightarrow> ty tr" where
  "transform_class k tc u store typeRef =
     (case ts_type store of
        DefinedTypeDef name functions variables childTypes extends kind refs declared gs privacy cm attrs \<Rightarrow>
          bindC (given_generics tc typeRef) (\<lambda>generics.
          withStateC (ts_state store) (withScopeC (
            bindC (getC currentClass) (\<lambda>backupClass.
            seqC (setCurrentClass None) (
            bindC (createIdentifierName name True) (\<lambda>baseUuid.
            bindC (instance_name u baseUuid) (\<lambda>own.
            bindC (new_class name own kind) (\<lambda>t0.
            seqC (modify_type t0 (\<lambda>ob. ob\<lparr>cls_ast := (if kind = DT_INTERFACE then None else Some (ts_type store))\<rparr>)) (
            seqC (enter_type t0 baseUuid own) (
            bindC (new_type_generics tc own t0 (params_of gs) generics privacy) (\<lambda>t.
            bindC (parent_class tc extends) (\<lambda>parent.
            seqC (class_members k tc name (all_members functions (ts_methods store)) variables childTypes kind
              (refs @ ts_impls store) declared attrs t parent) (
            seqC (setCurrentClass backupClass) (
            returnC t))))))))))))))
      | _ \<Rightarrow> failC AssertFail)"

section \<open>Enumerations\<close>

definition add_enum_field :: "tcalls \<Rightarrow> ty \<Rightarrow> string \<times> node list \<Rightarrow> unit tr" where
  "add_enum_field tc t f =
     bindC (mapC (transformType tc) (snd f)) (\<lambda>ts.
     modify_type t (\<lambda>ob. ob\<lparr>enum_fields := enum_fields ob @ [(fst f, ts)]\<rparr>))"

definition transform_enum_members :: "tcalls \<Rightarrow> string \<Rightarrow> (string \<times> node list) list \<Rightarrow> member list \<Rightarrow> ty \<Rightarrow> ty option \<Rightarrow> unit tr" where
  "transform_enum_members tc name enumFields methods t backupClass =
     bindC (getC generateFunction) (\<lambda>backup.
     seqC (setGenerate False) (
     seqC (setCurrentClass (Some t)) (
     seqC (generate_equalizers tc name t) (
     seqC (forC (add_enum_field tc t) enumFields) (
     seqC (forC (run_member tc) methods) (
     seqC (setGenerate backup) (
     seqC (setCurrentClass backupClass) (
     seqC (setCurrentClass (Some t)) (
     seqC (register_type t) (
     seqC (setGenerate True) (
     seqC (generate_equalizers tc name t) (
     seqC (forC (run_member tc) methods) (
     seqC (setGenerate backup) (
     setCurrentClass backupClass))))))))))))))"

definition transform_enum :: "tcalls \<Rightarrow> string \<Rightarrow> type_store \<Rightarrow> node option \<Rightarrow> ty tr" where
  "transform_enum tc u store typeRef =
     (case ts_type store of
        EnumTypeDef name enumFields methods enumImpls gs privacy cm attrs \<Rightarrow>
          bindC (given_generics tc typeRef) (\<lambda>generics.
          withStateC (ts_state store) (withScopeC (
            bindC (getC currentClass) (\<lambda>backupClass.
            seqC (setCurrentClass None) (
            bindC (createIdentifierName name True) (\<lambda>baseUuid.
            bindC (instance_name u baseUuid) (\<lambda>own.
            bindC (bindC (getC cur_module) (\<lambda>m. heapC (new_EnumType name own m))) (\<lambda>t0.
            seqC (enter_type t0 baseUuid own) (
            bindC (new_type_generics tc own t0 (params_of gs) generics privacy) (\<lambda>t.
            seqC (transform_enum_members tc name enumFields (all_members methods (ts_methods store)) t backupClass) (
            returnC t)))))))))))
      | _ \<Rightarrow> failC AssertFail)"

section \<open>Visits of definitions of types\<close>

definition type_defined :: "string \<Rightarrow> bool tr" where
  "type_defined u = getC (\<lambda>c. getCachedType u (ctx_cache c) \<noteq> None)"

definition already_transformed :: "string \<Rightarrow> bool tr" where
  "already_transformed u = bindC (getTransformedTypeC u) (\<lambda>x. returnC (x \<noteq> None))"

definition new_store :: "node \<Rightarrow> ctx_state \<Rightarrow> type_store" where
  "new_store n state = \<lparr>ts_type = n, ts_state = state, ts_methods = [], ts_impls = []\<rparr>"

definition cache_type :: "string \<Rightarrow> node \<Rightarrow> ctx_state \<Rightarrow> unit tr" where
  "cache_type u n state =
     bindC (askC (\<lambda>c. setType u (new_store n state) (ctx_cache c))) (\<lambda>ch. cacheC (\<lambda>_. ch))"

text \<open>The store of a visited node: extensions have added to the node itself, so what they added is with it.\<close>

definition store_of :: "string \<Rightarrow> node \<Rightarrow> ctx_state \<Rightarrow> type_store tr" where
  "store_of u n state =
     getC (\<lambda>c. case getCachedType u (ctx_cache c) of
         None \<Rightarrow> new_store n state
       | Some st \<Rightarrow> if ts_type st = n then st\<lparr>ts_state := state\<rparr> else new_store n state)"

definition tvisit_DefinedTypeDef :: "tcalls \<Rightarrow> node \<Rightarrow> string \<Rightarrow> bool \<Rightarrow> AttributeHolder \<Rightarrow> unit tr" where
  "tvisit_DefinedTypeDef tc n name isGeneric attrs =
     bindC (createIdentifierName name True) (\<lambda>u.
     bindC saveState (\<lambda>state.
     bindC (type_defined u) (\<lambda>x.
     bindC (getC generateFunction) (\<lambda>generate.
     if hasAttribute attrs CLASS_EXTENDS then whenC generate (transformTypeExtension tc n u)
     else if x \<and> \<not> generate
     then errorC VARIABLE_ERROR (''Type with name '' @ quoted name @ '' is already defined in the current scope!'')
     else if \<not> generate \<or> isGeneric then cache_type u n state
     else bindC (already_transformed u) (\<lambda>done.
       if done then returnC ()
       else bindC (store_of u n state) (\<lambda>store.
         bindC (transformClass tc u store None) (\<lambda>_. returnC ())))))))"

definition tvisit_EnumTypeDef :: "tcalls \<Rightarrow> node \<Rightarrow> string \<Rightarrow> bool \<Rightarrow> unit tr" where
  "tvisit_EnumTypeDef tc n name isGeneric =
     bindC (createIdentifierName name True) (\<lambda>u.
     bindC saveState (\<lambda>state.
     bindC (type_defined u) (\<lambda>x.
     bindC (getC generateFunction) (\<lambda>generate.
     if x \<and> \<not> generate
     then errorC VARIABLE_ERROR (''enum with name '' @ quoted name @ '' is already defined in the current scope!'')
     else if \<not> generate \<or> isGeneric then cache_type u n state
     else bindC (already_transformed u) (\<lambda>done.
       if done then returnC ()
       else bindC (store_of u n state) (\<lambda>store.
         bindC (transformEnum tc u store None) (\<lambda>_. returnC ())))))))"

definition tvisit_TypeAlias :: "tcalls \<Rightarrow> node \<Rightarrow> string \<Rightarrow> node \<Rightarrow> node Param list option \<Rightarrow> Privacy \<Rightarrow> unit tr" where
  "tvisit_TypeAlias tc n name aliased generics privacy =
     bindC (createIdentifierName name True) (\<lambda>u.
     bindC saveState (\<lambda>state.
     bindC (type_defined u) (\<lambda>x.
     bindC (getC generateFunction) (\<lambda>generate.
     if x \<and> \<not> generate
     then errorC VARIABLE_ERROR (''Type alias with name '' @ quoted name @ '' is already defined in the current scope!'')
     else if generate \<and> generics = None then
       bindC (already_transformed u) (\<lambda>done.
       if done then returnC ()
       else bindC (transformType tc aliased) (\<lambda>baseType.
         bindC (createTypeAlias name baseType) (\<lambda>alias.
         case alias of
           TypeAliasTy m i gs b \<Rightarrow>
             let t = TypeAliasTy m (i\<lparr>uuid := u\<rparr>) gs b in
             seqC (set_alias_privacy i privacy) (
             seqC (cacheC (setTransformedType u (ItemType t) []))
               (addItem name (ItemType t)))
         | _ \<Rightarrow> failC AssertFail)))
     else if \<not> generate \<or> params_of generics \<noteq> [] then cache_type u n state
     else failC AssertFail))))"

section \<open>Extensions of types\<close>

definition extension_interface :: "tcalls \<Rightarrow> node \<Rightarrow> ty tr" where
  "extension_interface tc r =
     bindC (transformType tc r) (\<lambda>t.
     case t of InterfaceTy _ _ _ _ \<Rightarrow> returnC t | _ \<Rightarrow> errorC SYNTAX_ERROR ''Cant extend a non-interface!'')"

text \<open>A type that has a name in scope: \<^verbatim>\<open>void\<close> or an interface of the core.\<close>

definition implement :: "ty \<Rightarrow> ty \<Rightarrow> unit tr" where
  "implement t interface =
     (if is_VoidTy t then modifyC (\<lambda>c. c\<lparr>voidImpls := voidImpls c @ [interface]\<rparr>) else addImpl t interface)"

definition extend_named :: "tcalls \<Rightarrow> node list \<Rightarrow> node list \<Rightarrow> ty \<Rightarrow> unit tr" where
  "extend_named tc functions refs t =
     bindC (getC currentClass) (\<lambda>backup.
     seqC (forC (\<lambda>r. bindC (extension_interface tc r) (implement t)) refs) (
     seqC (setCurrentClass (Some t)) (
     seqC (forC (run tc) functions) (
     setCurrentClass backup))))"

text \<open>The names under which the definition is looked for: in the current module, then in the enclosing ones.\<close>

primrec find_extended :: "string list \<Rightarrow> cache \<Rightarrow> (string \<times> type_store) option" where
  "find_extended [] ch = None"
| "find_extended (u # us) ch =
     (case getCachedType u ch of Some st \<Rightarrow> Some (u, st) | None \<Rightarrow> find_extended us ch)"

definition update_store :: "string \<Rightarrow> (type_store \<Rightarrow> type_store) \<Rightarrow> unit tr" where
  "update_store u f = cacheC (\<lambda>ch. ch\<lparr>cachedTypes := (cachedTypes ch)(u := map_option f (cachedTypes ch u))\<rparr>)"

definition add_methods :: "string \<Rightarrow> node list \<Rightarrow> ctx_state \<Rightarrow> unit tr" where
  "add_methods u functions state =
     update_store u (\<lambda>st. st\<lparr>ts_methods := ts_methods st @ map (\<lambda>n. (n, state)) functions\<rparr>)"

definition add_impls :: "string \<Rightarrow> node list \<Rightarrow> unit tr" where
  "add_impls u rs = update_store u (\<lambda>st. st\<lparr>ts_impls := ts_impls st @ rs\<rparr>)"

definition interface_ref :: "tcalls \<Rightarrow> node \<Rightarrow> node tr" where
  "interface_ref tc r = bindC (extension_interface tc r) toRef"

text \<open>
  The functions and interfaces that the definition gets; the state that the functions are given is the result. The
  cache holds no other definitions than aliases, classes and enumerations.
\<close>

definition extend_definition :: "tcalls \<Rightarrow> string \<Rightarrow> node \<Rightarrow> node list \<Rightarrow> node list \<Rightarrow> ctx_state tr" where
  "extend_definition tc u defined functions refs =
     (case defined of
        TypeAlias _ _ _ _ _ \<Rightarrow> errorC SYNTAX_ERROR ''Cant extend a type alias!''
      | DefinedTypeDef _ _ _ _ _ kind _ _ _ _ _ _ \<Rightarrow>
          if kind = DT_INTERFACE then errorC SYNTAX_ERROR ''Cant extend an interface!''
          else bindC saveState (\<lambda>state.
            seqC (add_methods u functions state) (
            bindC (mapC (interface_ref tc) refs) (\<lambda>rs.
            seqC (add_impls u rs) (returnC state))))
      | EnumTypeDef _ _ _ _ _ _ _ _ \<Rightarrow>
          bindC saveState (\<lambda>state.
            seqC (add_methods u functions state) (
            seqC (forC (\<lambda>r. bindC (interface_ref tc r) (\<lambda>i. add_impls u [i])) refs) (
            returnC state)))
      | _ \<Rightarrow> failC AssertFail)"

text \<open>The instances there are already: they get the interfaces, and the functions are declared and defined in each.\<close>

definition bind_instance_generics :: "ty \<Rightarrow> unit tr" where
  "bind_instance_generics t =
     (case t of
        DefinedTy _ _ gs _ \<Rightarrow>
          bindC (type_object t) (\<lambda>ob.
          bindC (derefC (Option.bind (cls_ast ob) definition_generics)) (\<lambda>ps.
          seqC (assertC (length ps = length gs))
            (forC (\<lambda>(p, g). addItem (param_name p) (ItemType g)) (zip ps gs))))
      | _ \<Rightarrow> returnC ())"

definition extend_instance :: "tcalls \<Rightarrow> node list \<Rightarrow> member list \<Rightarrow> Item \<Rightarrow> unit tr" where
  "extend_instance tc refs members item =
     (case item of
        ItemType t \<Rightarrow>
          seqC (forC (\<lambda>r. bindC (extension_interface tc r) (addImpl t)) refs) (
          withScopeC (
            seqC (setCurrentClass (if base_uuid t = None then None else Some t)) (
            seqC (assertC (base_uuid t \<noteq> None)) (
            seqC (bind_instance_generics t) (
            bindC (getC generateFunction) (\<lambda>backup.
            seqC (setGenerate False) (
            seqC (forC (run_member tc) members) (
            seqC (setGenerate True) (
            seqC (forC (run_member tc) members) (
            setGenerate backup))))))))))
      | _ \<Rightarrow> failC AssertFail)"

definition extend_instances :: "tcalls \<Rightarrow> string \<Rightarrow> node list \<Rightarrow> member list \<Rightarrow> unit tr" where
  "extend_instances tc u refs members =
     bindC (getC currentClass) (\<lambda>backup.
     bindC (getTransformedTypeC u) (\<lambda>types.
     seqC (forC (extend_instance tc refs members) (case types of None \<Rightarrow> [] | Some ts \<Rightarrow> ts)) (
     setCurrentClass backup)))"

definition transform_type_extension :: "tcalls \<Rightarrow> node \<Rightarrow> string \<Rightarrow> unit tr" where
  "transform_type_extension tc n u =
     (case n of
        DefinedTypeDef name functions variables childTypes extends kind refs declared gs privacy cm attrs \<Rightarrow>
          seqC (assertC (variables = [])) (
          bindC (getC isGlobalScope) (\<lambda>global.
          if \<not> global then errorC SYNTAX_ERROR ''Class extensions can only be defined in the global scope!''
          else bindC (getItem name) (\<lambda>item.
            case item of
              Some (ItemType t) \<Rightarrow>
                (case t of
                   TypeAliasTy _ _ _ _ \<Rightarrow> errorC SYNTAX_ERROR ''Cant extend a type alias!''
                 | _ \<Rightarrow> extend_named tc functions refs t)
            | Some _ \<Rightarrow> errorC SYNTAX_ERROR ''Cant extend a non-type!''
            | None \<Rightarrow>
                bindC (getC (\<lambda>c. find_extended (u # map (\<lambda>x. x @ ''.'' @ name) (uuidStack c)) (ctx_cache c))) (\<lambda>found.
                case found of
                  None \<Rightarrow> errorC VARIABLE_ERROR ''Cant extend an undefined type!''
                | Some (v, st) \<Rightarrow>
                    bindC (extend_definition tc v (ts_type st) functions refs) (\<lambda>state.
                    extend_instances tc v refs (map (\<lambda>f. (f, Some state)) functions))))))
      | _ \<Rightarrow> failC AssertFail)"

text \<open>
  The tree of a module with what extensions have added to it: \<open>m\<close> is the name of the module, \<open>defined\<close> the cached
  definitions. The code changes the nodes in place; its analyses run on the changed tree.
\<close>

definition qualified_name :: "string \<Rightarrow> string \<Rightarrow> string" where
  "qualified_name m name = (if name \<in> {CONST_PTR, MUT_PTR, INT_IMPL, FUNC_IMPL} then name else m @ ''.'' @ name)"

definition added_to :: "(string \<Rightarrow> type_store option) \<Rightarrow> string \<Rightarrow> node \<Rightarrow> node list \<times> node list" where
  "added_to defined u n =
     (case defined u of
        Some st \<Rightarrow> if ts_type st = n then (map fst (ts_methods st), ts_impls st) else ([], [])
      | None \<Rightarrow> ([], []))"

fun extended_tree :: "(string \<Rightarrow> type_store option) \<Rightarrow> string \<Rightarrow> node \<Rightarrow> node" where
  "extended_tree defined m (Namespace name body cm attrs) =
     Namespace name (map (extended_tree defined (qualified_name m name)) body) cm attrs"
| "extended_tree defined m (DefinedTypeDef name fs vs ts ex kind refs h gs p cm attrs) =
     (let (fs', refs') = added_to defined (qualified_name m name) (DefinedTypeDef name fs vs ts ex kind refs h gs p cm attrs)
      in DefinedTypeDef name (fs @ fs') vs ts ex kind (refs @ refs') h gs p cm attrs)"
| "extended_tree defined m (EnumTypeDef name es ms refs gs p cm attrs) =
     (let (ms', refs') = added_to defined (qualified_name m name) (EnumTypeDef name es ms refs gs p cm attrs)
      in EnumTypeDef name es (ms @ ms') (refs @ refs') gs p cm attrs)"
| "extended_tree defined m n = n"

section \<open>Modules and macros\<close>

definition add_module :: "ir_module \<Rightarrow> unit tr" where
  "add_module m =
     bindC (askC (\<lambda>c. addModule (uniqueName m) m (ctx_cache c))) (\<lambda>ch.
     seqC (cacheC (\<lambda>_. ch)) (modifyC (\<lambda>c. c\<lparr>allModules := allModules c @ [m]\<rparr>)))"

definition set_module :: "ir_module \<Rightarrow> unit tr" where
  "set_module m = modifyC (\<lambda>c. c\<lparr>cur_module := m\<rparr>)"

definition enter_module :: "unit tr" where
  "enter_module = modifyC (\<lambda>c. c\<lparr>uuidStack := uuidStack c @ [uniqueName (cur_module c)]\<rparr>)"

definition leave_module :: "unit tr" where
  "leave_module = modifyC (\<lambda>c. c\<lparr>uuidStack := butlast (uuidStack c)\<rparr>)"

fun can_generate :: "node \<Rightarrow> bool" where
  "can_generate (BodiedFunction _ _) = True"
| "can_generate (ConstructorDef _ _ _ _ _) = True"
| "can_generate (LLVMFunction _ _ _) = True"
| "can_generate (ExternFnDef _ _) = True"
| "can_generate (ImportStmt _ _ _ _ _) = True"
| "can_generate (Namespace _ _ _ _) = True"
| "can_generate (DefinedTypeDef _ _ _ _ _ _ _ _ _ _ _ _) = True"
| "can_generate (TypeAlias _ _ _ _ _) = True"
| "can_generate (Macro _ _ _ _ _ _) = True"
| "can_generate (EnumTypeDef _ _ _ _ _ _ _ _) = True"
| "can_generate _ = False"

definition in_module :: "tcalls \<Rightarrow> ir_module \<Rightarrow> node list \<Rightarrow> unit tr" where
  "in_module tc m nodes =
     bindC (getC cur_module) (\<lambda>backup.
     seqC (set_module m) (
     seqC (withScopeC (forC (run tc) nodes)) (
     set_module backup)))"

definition tvisit_Namespace :: "tcalls \<Rightarrow> string \<Rightarrow> node list \<Rightarrow> unit tr" where
  "tvisit_Namespace tc name body =
     bindC (createIdentifierName name True) (\<lambda>u.
     bindC (getC generateFunction) (\<lambda>generate.
     if \<not> generate then
       bindC (getInCurrentScope name) (\<lambda>item.
       if item \<noteq> None
       then errorC VARIABLE_ERROR (''Namespace '' @ quoted name @ '' is already defined in the current scope!'')
       else bindC (getC (\<lambda>c. new_Module (getNameWithBase name c) u)) (\<lambda>m.
         seqC enter_module (
         seqC (in_module tc m (filter can_generate body)) (
         seqC (add_module m) (
         seqC (addItem name (ItemModule m))
           leave_module)))))
     else
       bindC (getC (\<lambda>c. getModule u (ctx_cache c))) (\<lambda>item.
       case item of
         None \<Rightarrow> failC AssertFail
       | Some m \<Rightarrow> seqC enter_module (seqC (in_module tc m body) leave_module))))"

definition new_macro :: "node \<Rightarrow> nat tr" where
  "new_macro n = (\<lambda>c. Inr (length (macros c),
     c\<lparr>macros := macros c @ [\<lparr>mi_macro = n, mi_module = cur_module c, mi_stack = []\<rparr>]\<rparr>))"

definition tvisit_Macro :: "node \<Rightarrow> string \<Rightarrow> (string \<times> ArguementType \<times> node option) list \<Rightarrow> bool \<Rightarrow> AttributeHolder \<Rightarrow> unit tr" where
  "tvisit_Macro n name args isStatement attrs =
     bindC (getC generateFunction) (\<lambda>generate.
     if \<not> generate then returnC ()
     else bindC (getItem name) (\<lambda>item.
       if item \<noteq> None then errorC VARIABLE_ERROR (''Macro with name '' @ quoted name @ '' is already defined!'')
       else if \<not> isStatement \<and> MA_STATEMENT \<in> set (map (fst \<circ> snd) args)
       then errorC SYNTAX_ERROR ''Expression macro cannot have statement arguements!''
       else bindC (new_macro n) (\<lambda>i.
         seqC (if hasAttribute attrs EXPORT
               then bindC (getC (\<lambda>c. exportedMacros c (uniqueName (cur_module c)))) (\<lambda>ms.
                 if map_of ms name \<noteq> None
                 then errorC VARIABLE_ERROR (''Macro with name '' @ quoted name @ '' is already exported!'')
                 else modifyC (\<lambda>c. c\<lparr>exportedMacros := (exportedMacros c)
                   (uniqueName (cur_module c) := map_put name i ms)\<rparr>))
               else returnC ())
           (addItem name (ItemMacro i)))))"

text \<open>The macros every module has. Their body is null: any node that is no block.\<close>

definition builtin_macro :: "string \<Rightarrow> string \<Rightarrow> ArguementType \<Rightarrow> unit tr" where
  "builtin_macro name arg type =
     bindC (new_macro (Macro name [(arg, type, None)] (Identifier []) False no_attributes None)) (\<lambda>i.
     addItem name (ItemMacro i))"

definition initializePerModuleMacros :: "unit tr" where
  "initializePerModuleMacros =
     seqC (builtin_macro ''pkg'' ''e'' MA_EXPRESSION) (
     seqC (builtin_macro ''zero_initialized'' ''type'' MA_TYPE) (
     seqC (builtin_macro ''sizeof'' ''type'' MA_TYPE) (
     seqC (builtin_macro ''alignof'' ''type'' MA_TYPE) (
     seqC (builtin_macro ''include_str'' ''path'' MA_CONSTANT_STRING)
       (builtin_macro ''env_var'' ''name'' MA_CONSTANT_STRING)))))"

definition createModuleAliases :: "(string \<times> string) list \<Rightarrow> string \<Rightarrow> unit tr" where
  "createModuleAliases aliases exportName =
     forC (\<lambda>(alias, identifier).
       bindC (getItem identifier) (\<lambda>item.
       if item \<noteq> None then errorC VARIABLE_ERROR (''Variable with name '' @ quoted identifier @ '' already exists'')
       else addItem identifier (ItemAlias (Index (Identifier exportName) (Identifier alias) True)))) aliases"

end
