(* ===== verification/Transform_Exprs.thy ===== *)
theory Transform_Exprs
  imports Transform_Classes
begin

text \<open>
  The visits of expressions (\<^verbatim>\<open>src/visitors/transform/visits/Expression/\<close>) and the expansion of macros
  (\<^verbatim>\<open>transformMacro.cc\<close>). What they ask the machine they run on is the record \<open>host\<close>; positions in the source
  text are no part of the tree, so what the context says of them is a field of it too.
\<close>

section \<open>The machine\<close>

text \<open>
  \<open>position\<close> gives line and column of \<^verbatim>\<open>getExpansionData\<close>, \<open>lambda_site\<close> path and line of a lambda, \<open>stod\<close> the bits
  of a floating point literal; \<open>package_main\<close> is the entry \<^verbatim>\<open>package.main\<close> of a \<^verbatim>\<open>sn.toml\<close>.
\<close>

record host =
  os_name :: string
  version :: string
  date :: string
  exe_folder :: string
  lib_folder :: string
  cwd :: string
  packages_path :: string
  getenv :: "string \<Rightarrow> string option"
  read_file :: "string \<Rightarrow> string option"
  access :: "string \<Rightarrow> bool"
  is_directory :: "string \<Rightarrow> bool"
  package_main :: "string \<Rightarrow> string option res"
  stod :: "string \<Rightarrow> 64 word res"
  position :: "node \<Rightarrow> tctx \<Rightarrow> int \<times> int"
  source_path :: "tctx \<Rightarrow> string"
  lambda_site :: "node \<Rightarrow> string"

section \<open>Names for messages and pseudo variables\<close>

definition module_prefix :: "ir_module \<Rightarrow> string" where
  "module_prefix m = (if isMain m then [] else mod_name m @ ''::'')"

definition angle_list :: "string list \<Rightarrow> string" where
  "angle_list gs = (if gs = [] then [] else ''<'' @ join gs '', '' @ ''>'')"

definition EnumType_getPrettyName :: "base_info \<Rightarrow> string list \<Rightarrow> string" where
  "EnumType_getPrettyName i gs = module_prefix (bt_module i) @ bt_name i @ angle_list gs"

definition DefinedType_getPrettyName :: "base_info \<Rightarrow> string list \<Rightarrow> ty list \<Rightarrow> string res" where
  "DefinedType_getPrettyName i gs generics =
     (if bt_name i = CONST_PTR then bindR (at_index generics 0) (\<lambda>g. Inr (''(*const '' @ getName g @ '')''))
      else if bt_name i = MUT_PTR then bindR (at_index generics 0) (\<lambda>g. Inr (''(*mut '' @ getName g @ '')''))
      else Inr (module_prefix (bt_module i) @ bt_name i @ angle_list gs))"

definition InterfaceType_getPrettyName :: "bool \<Rightarrow> base_info \<Rightarrow> string list \<Rightarrow> ty list \<Rightarrow> string res" where
  "InterfaceType_getPrettyName m i gs generics =
     (if bt_name i = CONST_PTR then bindR (at_index generics 0) (\<lambda>g. Inr (''(*const '' @ getName g @ '')''))
      else if bt_name i = MUT_PTR then bindR (at_index generics 0) (\<lambda>g. Inr (''(*mut '' @ getName g @ '')''))
      else Inr ((if m then ''mut '' else []) @ module_prefix (bt_module i) @ bt_name i @ angle_list gs))"

definition TypeAlias_getPrettyName :: "base_info \<Rightarrow> string list \<Rightarrow> string \<Rightarrow> string" where
  "TypeAlias_getPrettyName i gs baseName =
     module_prefix (bt_module i) @ bt_name i @ (if gs = [] then [] else ''<'' @ concat gs @ ''>'') @ '' { aka '' @ baseName @ '' }''"

definition FunctionType_getPrettyName :: "bool \<Rightarrow> string list \<Rightarrow> string \<Rightarrow> bool \<Rightarrow> string" where
  "FunctionType_getPrettyName m args ret variadic =
     (let stringArgs = join args '', '';
          all = (if variadic then stringArgs @ (if stringArgs = [] then [] else '', '') @ ''...'' else stringArgs)
      in ''function ('' @ all @ '') '' @ (if m then ''mut '' else []) @ ''-> '' @ ret)"

fun getPrettyName :: "ty \<Rightarrow> string res" where
  "getPrettyName (PointerTy m b) = bindR (getPrettyName b) (\<lambda>n. Inr (''*'' @ (if m then ''mut '' else ''const '') @ n))"
| "getPrettyName (ReferenceTy m b) = bindR (getPrettyName b) (\<lambda>n. Inr (''&'' @ n))"
| "getPrettyName (FunctionTy m n args ret v) =
     bindR (mapR getPrettyName args) (\<lambda>as. bindR (getPrettyName ret) (\<lambda>r. Inr (FunctionType_getPrettyName m as r v)))"
| "getPrettyName (TypeAliasTy m i gs b) =
     bindR (getPrettyName b) (\<lambda>n. bindR (mapR getPrettyName gs) (\<lambda>ns. Inr (TypeAlias_getPrettyName i ns n)))"
| "getPrettyName (EnumTy m i gs l) = bindR (mapR getPrettyName gs) (\<lambda>ns. Inr (EnumType_getPrettyName i ns))"
| "getPrettyName (DefinedTy m i gs l) = bindR (mapR getPrettyName gs) (\<lambda>ns. DefinedType_getPrettyName i ns gs)"
| "getPrettyName (InterfaceTy m i gs l) = bindR (mapR getPrettyName gs) (\<lambda>ns. InterfaceType_getPrettyName m i ns gs)"
| "getPrettyName t = Inr ((if isMutable t then ''mut '' else []) @ getName t)"

definition PTR_PRELOADS :: string where "PTR_PRELOADS = ''std::internal::preloads::''"

definition Func_getNiceName :: "ir_func \<Rightarrow> string res" where
  "Func_getNiceName f =
     bindR (case f_parent f of
         Some p \<Rightarrow> bindR (getPrettyName p) (\<lambda>n. Inr (n @ ''::''))
       | None \<Rightarrow> Inr (module_prefix (f_module f))) (\<lambda>base.
     bindR (mapR (\<lambda>g. getPrettyName (snd g)) (f_generics f)) (\<lambda>gs.
     bindR (Func_getName f False) (\<lambda>name.
     Inr (if startsWith base (PTR_PRELOADS @ CONST_PTR) \<or> startsWith base (PTR_PRELOADS @ MUT_PTR)
          then base @ name else base @ name @ angle_list gs))))"

section \<open>Names\<close>

definition tvisit_Identifier :: "tcalls \<Rightarrow> string \<Rightarrow> unit tr" where
  "tvisit_Identifier tc name =
     bindC (getFromIdentifier tc name [] []) (\<lambda>st.
     case st_value st of
       Some v \<Rightarrow>
         (case v of
            IrVariable _ \<Rightarrow> bindC (createValueExtract v) setValue
          | IrArgument _ \<Rightarrow> bindC (createValueExtract v) setValue
          | _ \<Rightarrow> failC AssertFail)
     | None \<Rightarrow> (case st_functions st of
         Some fs \<Rightarrow>
           if 1 < length fs then errorC VARIABLE_ERROR (''Identifier '' @ quoted name @ '' points to a function with multiple overloads!'')
           else bindC (liftC (at_index fs 0)) (\<lambda>i. bindC (createValueExtract (IrFunc i)) setValue)
       | None \<Rightarrow>
           if st_type st \<noteq> None then errorC VARIABLE_ERROR ''Cant use types as values!''
           else if st_module st \<noteq> None then errorC VARIABLE_ERROR ''Cant use modules as values!''
           else (case st_overloads st of
               Some os \<Rightarrow>
                 if 1 < length os then errorC VARIABLE_ERROR ''Identifier points to a function with multiple overloads!''
                 else bindC (liftC (at_index os 0)) (\<lambda>s. bindC (store_data s) (\<lambda>d.
                   if data_generics d \<noteq> [] then errorC VARIABLE_ERROR (''Function '' @ quoted name @ '' requires to have generics!'')
                   else failC AssertFail))
             | None \<Rightarrow> errorC VARIABLE_ERROR (''Cannot find identifier '' @ quoted name @ ''!''))))"

definition tvisit_GenericIdentifier :: "tcalls \<Rightarrow> string \<Rightarrow> node list \<Rightarrow> unit tr" where
  "tvisit_GenericIdentifier tc name generics =
     bindC (mapC (transformType tc) generics) (\<lambda>_.
     bindC (getFromIdentifier tc name generics []) (\<lambda>st.
     if st_value st \<noteq> None then errorC VARIABLE_ERROR ''Values cant contain generics!''
     else if st_functions st \<noteq> None \<or> st_overloads st \<noteq> None then
       bindC (getFunction_call tc (st\<lparr>st_canBePrivate := False\<rparr>) name [] generics True False) (\<lambda>f.
       bindC (createValueExtract f) setValue)
     else if st_type st \<noteq> None then errorC VARIABLE_ERROR ''Cant use types as values!''
     else if st_module st \<noteq> None then errorC VARIABLE_ERROR ''Cant use modules as values!''
     else failC AssertFail))"

text \<open>
  Whether the base of an index is a module; looking it up again transforms what it names. The name of the
  base is put together for messages: a base that stands for nothing fails an assertion there.
\<close>

definition base_is_module :: "tcalls \<Rightarrow> node \<Rightarrow> bool tr" where
  "base_is_module tc base =
     (case identifier_of base of
        Some (x, gs) \<Rightarrow> bindC (getFromIdentifier tc x gs []) (\<lambda>st. returnC (st_module st \<noteq> None))
      | None \<Rightarrow> (case base of
          Index b i s \<Rightarrow> bindC (getFromIndex tc b i s) (\<lambda>(st, _). returnC (st_module st \<noteq> None))
        | _ \<Rightarrow> returnC False))"

definition getNiceBaseName :: "store_type \<Rightarrow> string tr" where
  "getNiceBaseName st =
     (case st_value st of
        Some v \<Rightarrow> bindC (typeC v) (\<lambda>t. bindC (liftC (getPrettyName t)) (\<lambda>n. returnC (''('' @ n @ '')'')))
      | None \<Rightarrow> (case st_type st of
          Some t \<Rightarrow> bindC (liftC (getPrettyName t)) (\<lambda>n. returnC (''('' @ n @ '')''))
        | None \<Rightarrow>
            if st_functions st \<noteq> None \<or> st_overloads st \<noteq> None then returnC ''<BUG>''
            else (case st_module st of Some m \<Rightarrow> returnC (mod_name m) | None \<Rightarrow> failC AssertFail)))"

definition called_base :: "tcalls \<Rightarrow> node \<Rightarrow> (bool \<times> string) tr" where
  "called_base tc base =
     (case identifier_of base of
        Some (x, gs) \<Rightarrow> bindC (getFromIdentifier tc x gs []) (\<lambda>st.
          bindC (getNiceBaseName st) (\<lambda>n. returnC (st_module st \<noteq> None, n @ ''::'')))
      | None \<Rightarrow> (case base of
          Index b i s \<Rightarrow> bindC (getFromIndex tc b i s) (\<lambda>(st, _).
            bindC (getNiceBaseName st) (\<lambda>n. returnC (st_module st \<noteq> None, n @ ''::'')))
        | _ \<Rightarrow>
            if is_TypeRef base then bindC (transformType tc base) (\<lambda>t.
              bindC (liftC (getPrettyName t)) (\<lambda>n. returnC (False, n @ ''::'')))
            else returnC (False, [])))"

definition tvisit_Index :: "tcalls \<Rightarrow> node \<Rightarrow> node \<Rightarrow> bool \<Rightarrow> unit tr" where
  "tvisit_Index tc base ident isStatic =
     bindC (derefC (identifier_of ident)) (\<lambda>(name, _).
     bindC (getFromIndex tc base ident isStatic) (\<lambda>(st, _).
     case st_value st of
       Some v \<Rightarrow>
         (case v of
            IrVariable _ \<Rightarrow> bindC (createValueExtract v) setValue
          | IrArgument _ \<Rightarrow> bindC (createValueExtract v) setValue
          | IrIndexExtract _ _ field _ \<Rightarrow>
              if \<not> st_canBePrivate st \<and> \<not> cf_public field
              then errorC TYPE_ERROR (''Variable '' @ quoted name @ '' is a private member and it cant be accessed from this context!'')
              else setValue v
          | IrEnumInit t _ \<Rightarrow> bindC (liftC (the_type t)) (\<lambda>x. bindC (setTypeC (createCall v []) x) setValue)
          | _ \<Rightarrow> failC AssertFail)
     | None \<Rightarrow>
         if st_type st \<noteq> None then errorC VARIABLE_ERROR ''Cant use types as values!''
         else if st_module st \<noteq> None then errorC VARIABLE_ERROR ''Cant use modules as values!''
         else if st_overloads st \<noteq> None \<or> st_functions st \<noteq> None then
           (if (case st_overloads st of Some os \<Rightarrow> 1 < length os | None \<Rightarrow> False)
              \<or> (case st_functions st of Some fs \<Rightarrow> 1 < length fs | None \<Rightarrow> False)
            then errorC VARIABLE_ERROR ''Index points to a function with multiple overloads!''
            else bindC (getFunction_call tc st name [] [] True False) (\<lambda>f.
              case f of
                IrFunc i \<Rightarrow>
                  bindC (func_at i) (\<lambda>fn.
                  if \<not> st_canBePrivate st \<and> f_privacy fn = PRIVATE
                  then errorC TYPE_ERROR (''Variable '' @ quoted name @ '' is a private member and it cant be accessed from this context!'')
                  else bindC (base_is_module tc base) (\<lambda>inModule.
                    if isStatic \<and> \<not> f_static fn \<and> \<not> inModule
                    then errorC TYPE_ERROR ''Cant access class method that is not static as if it was one!''
                    else if \<not> f_static fn \<and> \<not> inModule
                    then errorC TYPE_ERROR ''Reference to non-static member function must be called.''
                    else if \<not> isStatic \<and> f_static fn
                    then errorC TYPE_ERROR ''Cant access static class method as with a non-static index expression!''
                    else bindC (createValueExtract (IrFunc i)) setValue))
              | _ \<Rightarrow> failC null_pointer))
         else errorC VARIABLE_ERROR ''Cannot find index value!''))"

section \<open>Constants\<close>

text \<open>The text between quotes.\<close>

definition unquote :: "string \<Rightarrow> string res" where
  "unquote s = (if s = [] then Inl (StdException ''out_of_range'') else Inr (butlast (tl s)))"

text \<open>
  \<^verbatim>\<open>std::stoull\<close> and its kin on a text that starts with a digit: the longest run of digits of the base. Tokens
  have no sign and no blank.
\<close>

definition digit_value :: "char \<Rightarrow> nat" where
  "digit_value ch =
     (let n = of_char ch :: nat
      in if 48 \<le> n \<and> n \<le> 57 then n - 48 else if 97 \<le> n \<and> n \<le> 102 then n - 87
         else if 65 \<le> n \<and> n \<le> 70 then n - 55 else 16)"

definition leading_digits :: "nat \<Rightarrow> string \<Rightarrow> string" where
  "leading_digits b s = takeWhile (\<lambda>ch. digit_value ch < b) s"

definition number_value :: "nat \<Rightarrow> string \<Rightarrow> nat" where
  "number_value b s = foldl (\<lambda>n ch. n * b + digit_value ch) 0 s"

definition parse_number :: "nat \<Rightarrow> nat \<Rightarrow> string \<Rightarrow> nat res" where
  "parse_number b limit s =
     (if leading_digits b s = [] then Inl (StdException ''invalid_argument'')
      else if limit < number_value b (leading_digits b s) then Inl (StdException ''out_of_range'')
      else Inr (number_value b (leading_digits b s)))"

text \<open>A text that starts like a hexadecimal number but has no digit after that is the number zero.\<close>

definition integer_literal :: "string \<Rightarrow> nat res" where
  "integer_literal s =
     (if startsWith s ''0x'' \<or> startsWith s ''0X'' then
        (if leading_digits 16 (drop 2 s) = [] then Inr 0 else parse_number 16 (2 ^ 63 - 1) (drop 2 s))
      else if startsWith s ''0b'' \<or> startsWith s ''0B'' then parse_number 2 (2 ^ 64 - 1) (drop 2 s)
      else if startsWith s ''0o'' \<or> startsWith s ''0O'' then parse_number 8 (2 ^ 64 - 1) (drop 2 s)
      else parse_number 10 (2 ^ 64 - 1) s)"

definition number_parts :: "string \<Rightarrow> bool \<times> bool \<times> string" where
  "number_parts s =
     (let isUnsigned = startsWith s ''u''; s1 = (if isUnsigned then tl s else s); isLong = startsWith s1 ''l''
      in (isUnsigned, isLong, if isLong then tl s1 else s1))"

definition tvisit_Number :: "string \<Rightarrow> unit tr" where
  "tvisit_Number str =
     (case number_parts str of (isUnsigned, isLong, s) \<Rightarrow>
        bindC (liftC (integer_literal s)) (\<lambda>n.
        bindC (numberType (IntTy False (if isLong then 64 else 32) (\<not> isUnsigned))) (\<lambda>t.
        bindC (setTypeC (createNumberValue (of_nat n)) t) setValue)))"

definition string_class :: "string \<Rightarrow> node" where
  "string_class m =
     (if startsWith m (CORE_UUID @ ''internal'') \<or> startsWith m (CORE_UUID @ ''std'') then Identifier ''String''
      else Index (Identifier ''std'') (Identifier ''String'') True)"

definition tvisit_String :: "tcalls \<Rightarrow> string \<Rightarrow> string \<Rightarrow> unit tr" where
  "tvisit_String tc literal prefix =
     bindC (liftC (unquote literal)) (\<lambda>str.
     bindC (bindC (numberType (IntTy False 8 False)) (pointer_to False)) (\<lambda>ptr.
     bindC (setTypeC (createStringValue str) ptr) (\<lambda>value.
     if prefix = [] then
       bindC (numberType (IntTy False 64 False)) (\<lambda>u64.
       bindC (setTypeC (createNumberValue (of_nat (length str))) u64) (\<lambda>size.
       bindC (getC (\<lambda>c. string_class (uniqueName (cur_module c)))) (\<lambda>cls.
       bindC (getFromIndex tc cls (Identifier ''from'') True) (\<lambda>(st, _).
       bindC (getFunction_call tc st ''String::from'' [ptr, u64] [] False False) (\<lambda>f.
       case f of
         IrFunc i \<Rightarrow>
           bindC (func_at i) (\<lambda>fn.
           bindC (liftC (the_type (f_retTy fn))) (\<lambda>t.
           bindC (setTypeC (createCall f [value, size]) t) setValue))
       | _ \<Rightarrow> failC AssertFail)))))
     else if prefix = ''b'' then setValue value
     else errorC SYNTAX_ERROR (''Invalid string prefix '' @ quoted prefix))))"

definition tvisit_Char :: "string \<Rightarrow> unit tr" where
  "tvisit_Char literal =
     bindC (liftC (unquote literal)) (\<lambda>str.
     bindC (numberType (IntTy False 8 False)) (\<lambda>t.
     bindC (setTypeC (createCharValue (case str of [] \<Rightarrow> CHR 0x00 | ch # _ \<Rightarrow> ch)) t) setValue))"

definition tvisit_ConstantValue :: "tcalls \<Rightarrow> host \<Rightarrow> ConstantType \<Rightarrow> string \<Rightarrow> string \<Rightarrow> unit tr" where
  "tvisit_ConstantValue tc h type str prefix =
     (case type of
        CT_String \<Rightarrow> tvisit_String tc str prefix
      | CT_Number \<Rightarrow> tvisit_Number str
      | CT_Float \<Rightarrow>
          bindC (liftC (stod h str)) (\<lambda>d. bindC (numberType (FloatTy False 64)) (\<lambda>t.
          bindC (setTypeC (createFloatValue d) t) setValue))
      | CT_Bool \<Rightarrow>
          bindC (numberType (IntTy False 1 True)) (\<lambda>t.
          bindC (setTypeC (createBooleanValue (str = ''true'')) t) setValue)
      | CT_Char \<Rightarrow> tvisit_Char str)"

definition tvisit_Cast :: "tcalls \<Rightarrow> node \<Rightarrow> node \<Rightarrow> unit tr" where
  "tvisit_Cast tc e t =
     bindC (valueC tc e) (\<lambda>v. bindC (transformSizedType tc t False) (\<lambda>x. setValue (createCast v x)))"

end
