(* ===== verification/Transform_Calls.thy ===== *)
theory Transform_Calls
  imports Transform_Exprs
begin

text \<open>
  Calls, operators, new objects, lambdas, pseudo variables and macros
  (\<^verbatim>\<open>visits/Expression/{FunctionCall,BinaryOp,NewInstance,LambdaFunction,PseudoVariable}.cc\<close>,
  \<^verbatim>\<open>transformMacro.cc\<close>). The flag that a call initialises a variable is set by the operator that made the call.
\<close>

section \<open>Calls\<close>

definition set_latest :: "node option \<Rightarrow> unit tr" where
  "set_latest n = modifyC (\<lambda>c. c\<lparr>latestCall := n\<rparr>)"

definition passed_directly :: "ty \<Rightarrow> bool" where
  "passed_directly t \<longleftrightarrow> is_primitive t \<or> (case t of ReferenceTy _ _ \<Rightarrow> True | PointerTy _ _ \<Rightarrow> True | _ \<Rightarrow> False)"

definition receiver_type :: "ty \<Rightarrow> ty tr" where
  "receiver_type t = (if passed_directly t then returnC t else plain_reference t)"

definition receiver_value :: "ir_value \<Rightarrow> (ty \<times> ir_value) tr" where
  "receiver_value v =
     bindC (typeC v) (\<lambda>t.
     if passed_directly t then returnC (t, v)
     else bindC (createReferenceTo v) (\<lambda>r. bindC (typeC r) (\<lambda>u. returnC (u, r))))"

text \<open>The callee with the types and values of the arguments; a value that is no function leaves its receiver in the types.\<close>

definition called_member :: "tcalls \<Rightarrow> node \<Rightarrow> node \<Rightarrow> bool \<Rightarrow> ty list \<Rightarrow> ir_value list \<Rightarrow> (ir_value \<times> ty list \<times> ir_value list) tr" where
  "called_member tc base ident isStatic argTypes argValues =
     bindC (derefC (identifier_of ident)) (\<lambda>(name, generics).
     bindC (getFromIndex tc base ident isStatic) (\<lambda>(st, b).
     bindC (called_base tc base) (\<lambda>(inModule, baseName).
     bindC (case b of None \<Rightarrow> returnC argTypes
       | Some v \<Rightarrow> bindC (typeC v) (\<lambda>t. bindC (receiver_type t) (\<lambda>u. returnC (u # argTypes)))) (\<lambda>ts.
     bindC (getFunction_call tc st (baseName @ name) ts generics False (b \<noteq> None)) (\<lambda>f.
     case f of
       IrFunc i \<Rightarrow>
         bindC (func_at i) (\<lambda>fn.
         if isStatic \<and> \<not> f_static fn \<and> \<not> inModule
         then errorC TYPE_ERROR ''Cant access class method that is not static as if it was one!''
         else if \<not> isStatic \<and> f_static fn
         then errorC TYPE_ERROR ''Cant access static class method as with a non-static index expression!''
         else (case b of
             None \<Rightarrow> returnC (f, argTypes, argValues)
           | Some v \<Rightarrow> bindC (receiver_value v) (\<lambda>(t, w). returnC (f, t # argTypes, w # argValues))))
     | _ \<Rightarrow> returnC (f, ts, argValues))))))"

definition callee_of :: "tcalls \<Rightarrow> node \<Rightarrow> ty list \<Rightarrow> ir_value list \<Rightarrow> (ir_value \<times> ty list \<times> ir_value list) tr" where
  "callee_of tc callee argTypes argValues =
     (case identifier_of callee of
        Some (name, generics) \<Rightarrow>
          bindC (getFromIdentifier tc name generics []) (\<lambda>st.
          bindC (getFunction_call tc (st\<lparr>st_canBePrivate := True\<rparr>) name argTypes generics False False) (\<lambda>f.
          returnC (f, argTypes, argValues)))
      | None \<Rightarrow> (case callee of
          Index base ident isStatic \<Rightarrow> called_member tc base ident isStatic argTypes argValues
        | _ \<Rightarrow> bindC (trans tc callee) (\<lambda>v.
            case v of None \<Rightarrow> failC AssertFail | Some f \<Rightarrow> returnC (f, argTypes, argValues))))"

text \<open>The conversions of the arguments to the types of the parameters; what has no parameter is left as it is.\<close>

fun cast_arguments :: "ty list \<Rightarrow> ty list \<Rightarrow> ir_value list \<Rightarrow> (ty list \<times> ir_value list) tr" where
  "cast_arguments [] ts vs = returnC (ts, vs)"
| "cast_arguments (p # ps) [] vs = returnC ([], vs)"
| "cast_arguments (p # ps) (t # ts) vs =
     (if is_ty t p
      then bindC (cast_arguments ps ts (drop 1 vs)) (\<lambda>(us, ws). returnC (t # us, take 1 vs @ ws))
      else bindC (liftC (at_index vs 0)) (\<lambda>v.
        bindC (tryCast v p) (\<lambda>x.
        case x of
          None \<Rightarrow> errorC TYPE_ERROR ''Cant assign value to a parameter of another type''
        | Some w \<Rightarrow> bindC (cast_arguments ps ts (drop 1 vs)) (\<lambda>(us, ws). returnC (p # us, w # ws)))))"

definition is_constructor_fn :: "ir_value \<Rightarrow> bool tr" where
  "is_constructor_fn f = (case f of IrFunc i \<Rightarrow> bindC (func_at i) (\<lambda>fn. liftC (Func_isConstructor fn)) | _ \<Rightarrow> returnC False)"

text \<open>The type of the call and its arguments.\<close>

definition typed_call :: "ir_value \<Rightarrow> ty list \<Rightarrow> ir_value list \<Rightarrow> (ty \<times> ty list \<times> ir_value list) tr" where
  "typed_call f argTypes argValues =
     bindC (typeC f) (\<lambda>ft.
     bindC (liftC (getFunctionType ft)) (\<lambda>fnType.
     case fnType of
       Some (FunctionTy _ _ params ret _) \<Rightarrow>
         bindC (is_constructor_fn f) (\<lambda>ctor.
         bindC (cast_arguments (if ctor then tl params else params) argTypes argValues) (\<lambda>(ts, vs). returnC (ret, ts, vs)))
     | _ \<Rightarrow> (case f of
         IrEnumInit _ _ \<Rightarrow> returnC (ft, argTypes, argValues)
       | _ \<Rightarrow> failC AssertFail)))"

definition default_argument :: "tcalls \<Rightarrow> string \<times> nat \<Rightarrow> ir_value list tr" where
  "default_argument tc a =
     bindC (getC (\<lambda>c. argDefaults c (snd a))) (\<lambda>dv.
     case dv of
       Some e \<Rightarrow>
         bindC (valueC tc e) (\<lambda>v. bindC (typeC v) (\<lambda>t. bindC (typeC (IrArgument (snd a))) (\<lambda>p.
         if is_ty p t then returnC [v]
         else bindC (tryCast v p) (\<lambda>x.
           case x of
             Some w \<Rightarrow> returnC [w]
           | None \<Rightarrow> errorC TYPE_ERROR ''Default value of the function does not match argument type!''))))
     | None \<Rightarrow>
         if fst a = ''self'' then returnC []
         else errorC TYPE_ERROR (''Could not get value for argument '' @ quoted (fst a) @ ''!''))"

definition default_arguments :: "tcalls \<Rightarrow> ir_value \<Rightarrow> nat \<Rightarrow> ir_value list tr" where
  "default_arguments tc f n =
     (case f of
        IrFunc i \<Rightarrow>
          bindC (func_at i) (\<lambda>fn.
          if length (f_arguments fn) \<le> n then returnC []
          else bindC (askC (\<lambda>c. getFunctionState i (ctx_cache c))) (\<lambda>state.
            withStateC state (
              bindC (liftC (Func_isConstructor fn)) (\<lambda>ctor.
              bindC (mapC (default_argument tc)
                (drop (if n = 0 then 0 else n + (if ctor then 1 else 0)) (f_arguments fn))) (\<lambda>vs.
              returnC (concat vs))))))
      | _ \<Rightarrow> returnC [])"

definition argument_value :: "tcalls \<Rightarrow> node \<Rightarrow> (ty \<times> ir_value) tr" where
  "argument_value tc n = bindC (valueC tc n) (\<lambda>v. bindC (typeC v) (\<lambda>t. returnC (t, v)))"

definition tvisit_FunctionCall :: "tcalls \<Rightarrow> node \<Rightarrow> node \<Rightarrow> node list \<Rightarrow> unit tr" where
  "tvisit_FunctionCall tc n callee as =
     bindC (getC latestCall) (\<lambda>callBackUp.
     seqC (set_latest (Some n)) (
     bindC (mapC (argument_value tc) as) (\<lambda>args.
     bindC (callee_of tc callee (map fst args) (map snd args)) (\<lambda>(f, argTypes, argValues).
     case f of
       IrCall t (ObjectInitialization b) g _ i \<Rightarrow> setValue (IrCall t (ObjectInitialization b) g argValues i)
     | _ \<Rightarrow>
         bindC (typed_call f argTypes argValues) (\<lambda>(t, ts, vs).
         bindC (default_arguments tc f (length ts)) (\<lambda>ds.
         seqC (setValue (IrCall (Some t) PlainCall (Some f) (vs @ ds) False))
           (set_latest callBackUp)))))))"

section \<open>Operators and objects\<close>

definition mark_initialization :: "bool \<Rightarrow> ir_value \<Rightarrow> ir_value" where
  "mark_initialization b v = (case v of IrCall t PlainCall f as _ \<Rightarrow> IrCall t PlainCall f as b | _ \<Rightarrow> v)"

definition opt_operand :: "node option \<Rightarrow> node tr" where
  "opt_operand r = derefC r"

definition tvisit_BinaryOp :: "tcalls \<Rightarrow> OperatorType \<Rightarrow> node \<Rightarrow> node option \<Rightarrow> bool \<Rightarrow> bool \<Rightarrow> unit tr" where
  "tvisit_BinaryOp tc op left right isMutableReference isInitialization =
     (if op = OT_REFERENCE then
        bindC (valueC tc left) (\<lambda>v. bindC (createReferenceTo v) (\<lambda>r.
        if isMutableReference then bindC (typeC r) (\<lambda>t. bindC (setTypeC r (setMutable True t)) setValue) else setValue r))
      else if op = OT_DEREFERENCE then
        bindC (valueC tc left) (\<lambda>v. bindC (typeC v) (\<lambda>t.
        case t of
          ReferenceTy _ b \<Rightarrow> setValue (createDereferenceTo v b)
        | PointerTy _ b \<Rightarrow> setValue (createDereferenceTo v b)
        | _ \<Rightarrow> errorC DEREFERENCE_ERROR ''Cant dereference a non-pointer type!''))
      else if op = OT_RANGE then
        bindC (opt_operand right) (\<lambda>r.
        run tc (NewInstance (FunctionCall (Identifier ''Range'') [left, r])
          (TypeRef ''Range'' [] ''Range'' (Some (Identifier ''Range'')))))
      else
        bindC (liftC (getOperatorMangle op)) (\<lambda>name.
        bindC (if isUnary op then returnC [] else bindC (opt_operand right) (\<lambda>r. returnC [r])) (\<lambda>as.
        bindC (valueC tc (FunctionCall (Index left (Identifier name) False) as)) (\<lambda>v.
        bindC (createBinaryOp (mark_initialization isInitialization v)) setValue))))"

definition tvisit_NewInstance :: "tcalls \<Rightarrow> node \<Rightarrow> node \<Rightarrow> unit tr" where
  "tvisit_NewInstance tc call expr =
     (if \<not> is_TypeRef expr then failC AssertFail
      else case call of
          FunctionCall _ as \<Rightarrow>
            bindC (liftC (getOperatorMangle OT_CONSTRUCTOR)) (\<lambda>name.
            bindC (trans tc (FunctionCall (Index expr (Identifier name) True) as)) (\<lambda>v.
            case v of
              Some (IrCall _ _ f args _) \<Rightarrow>
                bindC (transformSizedType tc expr False) (\<lambda>t.
                case t of
                  InterfaceTy _ _ _ _ \<Rightarrow> errorC SYNTAX_ERROR ''Cant create instance of interface type!''
                | _ \<Rightarrow> setValue (createObjectInitialization t f args False))
            | _ \<Rightarrow> failC AssertFail))
        | _ \<Rightarrow> failC null_pointer)"

section \<open>Lambdas\<close>

text \<open>\<^verbatim>\<open>setAttributes\<close> replaces the attribute that was just added.\<close>

definition lambda_signature :: "node FunctionDefData \<Rightarrow> ty \<Rightarrow> tctx \<Rightarrow> ir_func \<Rightarrow> ir_func" where
  "lambda_signature d returnType c f =
     f\<lparr>f_parent := currentClass c, f_parentScope := currentFunction c, f_scopeIndex := getScopeIndex c,
       f_retTy := Some returnType, f_privacy := PRIVATE, f_static := False,
       f_attributes := fst (setAttributes_from (fn_attributes d) (addAttribute INTERNAL_LINKAGE [] (f_attributes f)))\<rparr>"

definition lambda_argument :: "tcalls \<Rightarrow> node Param \<Rightarrow> (string \<times> nat) tr" where
  "lambda_argument tc p =
     bindC (getC getScopeIndex) (\<lambda>scopeIndex.
     bindC (createArgument (param_name p) None (defaultValue p) scopeIndex) (\<lambda>a.
     bindC (ptr_type tc (param_type p)) (\<lambda>t.
     seqC (modify_var a (\<lambda>v. v\<lparr>v_type := Some t\<rparr>)) (returnC (param_name p, a)))))"

definition function_class :: "node \<Rightarrow> node" where
  "function_class r = TypeRef ''std::Function'' [] [] (Some (Index (Identifier ''std'') (GenericIdentifier ''Function'' [r]) True))"

definition tvisit_LambdaFunction :: "tcalls \<Rightarrow> host \<Rightarrow> node \<Rightarrow> node \<Rightarrow> unit tr" where
  "tvisit_LambdaFunction tc h self n =
     bindC (getC generateFunction) (\<lambda>generate.
     if \<not> generate then returnC ()
     else case n of
         BodiedFunction body d \<Rightarrow>
           bindC (getC currentFunction) (\<lambda>parent.
           seqC (assertC (parent \<noteq> None)) (
           bindC (ptr_type tc (fn_retType d)) (\<lambda>returnType.
           bindC (createFunction (''['' @ lambda_site h self @ '' lambda function]'') None [] False (fn_variadic d) True) (\<lambda>i.
           bindC (getC (\<lambda>c. lambda_signature d returnType c)) (\<lambda>sig.
           seqC (modify_func i sig) (
           bindC (mapC (lambda_argument tc) (fn_args d)) (\<lambda>as.
           seqC (modify_func i (\<lambda>f. f\<lparr>f_arguments := as\<rparr>)) (
           bindC (argument_types as) (\<lambda>ts.
           bindC (toRef (FunctionType_from ts returnType (fn_variadic d) None)) (\<lambda>r.
           bindC (transformType tc (function_class r)) (\<lambda>fnType.
           seqC (modify_func i (\<lambda>f. f\<lparr>f_type := Some fnType\<rparr>)) (
           seqC (setCurrentFunction (Some i)) (
           seqC (withScopeC (
             seqC (add_arguments as) (
             bindC (func_at i) (\<lambda>f.
             bindC (liftC (Func_isConstructor f)) (\<lambda>ctor.
             if \<not> ctor \<and> \<not> bodyReturns (block_stmts body) \<and> \<not> (is_NumericTy returnType \<or> is_VoidTy returnType)
             then errorC TYPE_ERROR ''Function lacks ending return statement!''
             else bindC (blockC tc body) (\<lambda>b. modify_func i (\<lambda>f. f\<lparr>f_body := Some b\<rparr>))))))) (
           seqC (setCurrentFunction parent) (
           seqC (modifyC (\<lambda>c. c\<lparr>moduleFunctions := (moduleFunctions c)
             (uniqueName (cur_module c) := moduleFunctions c (uniqueName (cur_module c)) @ [i])\<rparr>)) (
           setValue (IrFunc i)))))))))))))))))
       | _ \<Rightarrow> failC null_pointer)"

section \<open>Macros\<close>

fun is_expression :: "node \<Rightarrow> bool" where
  "is_expression (ConstantValue _ _ _) = True"
| "is_expression (Cast _ _) = True"
| "is_expression (FunctionCall _ _) = True"
| "is_expression (NewInstance _ _) = True"
| "is_expression (Identifier _) = True"
| "is_expression (GenericIdentifier _ _) = True"
| "is_expression (PseudoVariable _ _ _ _) = True"
| "is_expression (Index _ _ _) = True"
| "is_expression (BinaryOp _ _ _ _ _) = True"
| "is_expression (LambdaFunction _) = True"
| "is_expression n = is_TypeRef n"

text \<open>The kind of a macro argument, given the kind that is asked for.\<close>

definition deduced_kind :: "ArguementType \<Rightarrow> node \<Rightarrow> ArguementType option" where
  "deduced_kind argType n =
     (if is_expression n then
        (case n of
           ConstantValue ty _ _ \<Rightarrow>
             Some (if argType = MA_EXPRESSION then MA_EXPRESSION
               else if argType = MA_CONSTANT then MA_CONSTANT
               else case ty of
                   CT_String \<Rightarrow> MA_CONSTANT_STRING
                 | CT_Char \<Rightarrow> MA_CONSTANT_CHAR
                 | _ \<Rightarrow> MA_CONSTANT_NUMBER)
         | _ \<Rightarrow> Some (if is_TypeRef n then MA_TYPE else MA_EXPRESSION))
      else case n of
          Block _ _ \<Rightarrow> None
        | Macro _ _ _ isStatement _ _ \<Rightarrow> Some (if isStatement then MA_STATEMENT else MA_EXPRESSION)
        | _ \<Rightarrow> Some MA_STATEMENT)"

definition macro_at :: "nat \<Rightarrow> macro_instance tr" where
  "macro_at i = askC (\<lambda>c. the_object (if i < length (macros c) then Some (macros c ! i) else None))"

definition modify_macro :: "nat \<Rightarrow> (macro_instance \<Rightarrow> macro_instance) \<Rightarrow> unit tr" where
  "modify_macro i f = modifyC (\<lambda>c. c\<lparr>macros := (macros c)[i := f (macros c ! i)]\<rparr>)"

text \<open>One round of the loop that checks and binds the arguments.\<close>

definition bind_macro_argument :: "nat \<Rightarrow> string \<Rightarrow> node list \<Rightarrow> nat \<times> string \<times> ArguementType \<times> node option \<Rightarrow> unit tr" where
  "bind_macro_argument m macroName as a =
     (case a of (i, name, argType, defaultArg) \<Rightarrow>
       bindC (if length as \<le> i then (case defaultArg of None \<Rightarrow> failC AssertFail | Some d \<Rightarrow> returnC d)
              else returnC (as ! i)) (\<lambda>arg.
       case deduced_kind argType arg of
         None \<Rightarrow> errorC PSEUDO_ERROR (''Unknown arguement type for macro '' @ quoted macroName @ ''!'')
       | Some kind \<Rightarrow>
           if argType \<noteq> kind
           then errorC PSEUDO_ERROR (''Macro '' @ quoted macroName @ '' was given an arguement of another type!'')
           else bindC (macro_at m) (\<lambda>ins.
             if map_of (mi_stack ins) name \<noteq> None
             then errorC PSEUDO_ERROR (''Macro '' @ quoted macroName @ '' already has an arguement with name '' @ quoted name @ ''!'')
             else bindC (getC getCurrentMacro) (\<lambda>parent.
               modify_macro m (\<lambda>x. x\<lparr>mi_stack := mi_stack x @ [(name, arg, parent, kind)]\<rparr>)))))"

definition MAX_MACRO_DEPTH :: int where "MAX_MACRO_DEPTH = 2048"

definition push_macro :: "nat \<Rightarrow> unit tr" where
  "push_macro m = modifyC (\<lambda>c. c\<lparr>macroBacktrace := macroBacktrace c @ [m]\<rparr>)"

definition pop_macro :: "unit tr" where
  "pop_macro = modifyC (\<lambda>c. c\<lparr>macroBacktrace := butlast (macroBacktrace c)\<rparr>)"

definition first_arg :: "node list \<Rightarrow> node tr" where
  "first_arg as = liftC (at_index as 0)"

definition quoted_constant :: "string \<Rightarrow> node" where
  "quoted_constant s = ConstantValue CT_String (dquoted s) []"

definition size_number :: "int \<Rightarrow> unit tr" where
  "size_number n =
     bindC (numberType (IntTy False 32 True)) (\<lambda>t.
     bindC (setTypeC (createNumberValue (word_of_int (n div 8))) t) setValue)"

definition constant_text :: "node list \<Rightarrow> string tr" where
  "constant_text as =
     bindC (first_arg as) (\<lambda>a. case a of ConstantValue _ s _ \<Rightarrow> liftC (unquote s) | _ \<Rightarrow> failC null_pointer)"

definition macro_type :: "tcalls \<Rightarrow> node list \<Rightarrow> ty tr" where
  "macro_type tc as = bindC (first_arg as) (transformType tc)"

text \<open>The macros the compiler knows; the one called \<open>env\<close> is registered under another name.\<close>

definition expand_macro :: "nat \<Rightarrow> tcalls \<Rightarrow> host \<Rightarrow> string \<Rightarrow> node list \<Rightarrow> nat \<Rightarrow> node \<Rightarrow> unit tr" where
  "expand_macro k tc h macroName as m body =
     (if macroName = ''pkg'' then
        bindC (getC getCurrentMacro) (\<lambda>cur.
        case cur of
          None \<Rightarrow> errorC PSEUDO_ERROR ''Cant use pkg macro outside a parent macro!''
        | Some p \<Rightarrow>
            bindC (first_arg as) (\<lambda>expr.
            bindC (getC cur_module) (\<lambda>backup.
            bindC (macro_at p) (\<lambda>ins.
            seqC (set_module (mi_module ins)) (seqC (run tc expr) (set_module backup))))))
      else if macroName = ''zero_initialized'' then
        bindC (macro_type tc as) (\<lambda>t. setValue (createZeroInitialized t))
      else if macroName = ''sizeof'' then
        bindC (macro_type tc as) (\<lambda>t. bindC (askC (\<lambda>c. sizeOf k (objects c) t)) size_number)
      else if macroName = ''alignof'' then
        bindC (macro_type tc as) (\<lambda>t. bindC (askC (\<lambda>c. alignmentOf k (objects c) t)) size_number)
      else if macroName = ''include_str'' then
        bindC (constant_text as) (\<lambda>filename.
        case read_file h filename of
          None \<Rightarrow> errorC PSEUDO_ERROR (''Could not find file '' @ quoted filename @ ''!'')
        | Some text \<Rightarrow> run tc (quoted_constant text))
      else if macroName = ''env'' then
        bindC (constant_text as) (\<lambda>name.
        case getenv h name of
          None \<Rightarrow> errorC PSEUDO_ERROR (''Could not find environment variable '' @ quoted name @ ''!'')
        | Some text \<Rightarrow> run tc (quoted_constant text))
      else (case body of
          Block _ stmts \<Rightarrow> seqC (push_macro m) (seqC (forC (run tc) stmts) pop_macro)
        | _ \<Rightarrow> failC null_pointer))"

definition required_arguments :: "(string \<times> ArguementType \<times> node option) list \<Rightarrow> nat" where
  "required_arguments ps = length (filter (\<lambda>p. snd (snd p) = None) ps)"

definition add_depth :: "int \<Rightarrow> unit tr" where
  "add_depth n = modifyC (\<lambda>c. c\<lparr>macroDepth := macroDepth c + n\<rparr>)"

definition transformMacro :: "nat \<Rightarrow> tcalls \<Rightarrow> host \<Rightarrow> string \<Rightarrow> node list \<Rightarrow> nat \<Rightarrow> unit tr" where
  "transformMacro k tc h macroName as m =
     bindC (macro_at m) (\<lambda>ins.
     case mi_macro ins of
       Macro _ params body _ _ _ \<Rightarrow>
         if length as < required_arguments params
         then errorC PSEUDO_ERROR (''Macro '' @ quoted macroName @ '' expects more arguments!'')
         else
           seqC (forC (bind_macro_argument m macroName as) (enumerate 0 params)) (
           seqC (add_depth 1) (
           bindC (getC macroDepth) (\<lambda>depth.
           if MAX_MACRO_DEPTH < depth
           then errorC PSEUDO_ERROR (''Macro '' @ quoted macroName @ '' has exceeded the maximum macro depth!'')
           else
             seqC (expand_macro k tc h macroName as m body) (
             seqC (add_depth (-1)) (
             modify_macro m (\<lambda>x. x\<lparr>mi_stack := []\<rparr>))))))
     | _ \<Rightarrow> failC null_pointer)"

section \<open>Pseudo variables\<close>

definition current_fn :: "ir_func tr" where
  "current_fn =
     bindC (getC currentFunction) (\<lambda>i.
     case i of None \<Rightarrow> errorC PSEUDO_ERROR ''Cant use this pseudo variable outside a function!'' | Some j \<Rightarrow> func_at j)"

definition function_mangle :: "string tr" where
  "function_mangle =
     bindC (getC currentFunction) (\<lambda>i.
     case i of
       None \<Rightarrow> errorC PSEUDO_ERROR ''Cant use this pseudo variable outside a function!''
     | Some j \<Rightarrow> bindC (func_at j) (\<lambda>f. askC (\<lambda>c. Func_getMangle (vars c) j f)))"

text \<open>The pseudo variables of the language: a text, or a number when the text is empty.\<close>

definition pseudo_text :: "host \<Rightarrow> node \<Rightarrow> string \<Rightarrow> (string \<times> int) option tr" where
  "pseudo_text h n pseudo =
     (let text = (\<lambda>m. bindC m (\<lambda>s. returnC (Some (s, -1))));
          at = (\<lambda>f. getC (\<lambda>c. f (source_path h c) (position h n c)))
      in if pseudo = ''function'' then text (bindC current_fn (\<lambda>f. liftC (Func_getNiceName f)))
         else if pseudo = ''dsohandle'' then text function_mangle
         else if pseudo = ''module'' then text (getC (\<lambda>c. mod_name (cur_module c)))
         else if pseudo = ''class'' then text (bindC (getC currentClass) (\<lambda>cls. case cls of
             Some t \<Rightarrow> liftC (getPrettyName t)
           | None \<Rightarrow> errorC PSEUDO_ERROR ''Cant use the class pseudo variable outside a class!''))
         else if pseudo = ''file'' then text (at (\<lambda>p x. p))
         else if pseudo = ''file_str'' then text (at (\<lambda>p x. to_string (fst x)))
         else if pseudo = ''line'' then bindC (getC (\<lambda>c. fst (position h n c))) (\<lambda>i. returnC (Some ([], i)))
         else if pseudo = ''file_line'' then text (at (\<lambda>p x. p @ '':'' @ to_string (fst x)))
         else if pseudo = ''column_str'' then text (at (\<lambda>p x. to_string (snd x)))
         else if pseudo = ''column'' then bindC (getC (\<lambda>c. snd (position h n c))) (\<lambda>i. returnC (Some ([], i)))
         else if pseudo = ''snowball_version'' then text (returnC (version h))
         else if pseudo = ''date'' then text (returnC (date h))
         else if pseudo = ''_snowball_folder_'' then text (returnC (exe_folder h))
         else returnC None)"

definition pseudo_argument :: "tcalls \<Rightarrow> string \<Rightarrow> bool \<Rightarrow> node \<times> nat option \<times> ArguementType \<Rightarrow> unit tr" where
  "pseudo_argument tc pseudo asStatement a =
     (case a of (n, parentMacro, kind) \<Rightarrow>
       seqC (case parentMacro of Some p \<Rightarrow> push_macro p | None \<Rightarrow> returnC ()) (
       if \<not> asStatement \<and> kind = MA_STATEMENT
       then errorC PSEUDO_ERROR (''Macro arguement '' @ quoted pseudo @ '' is not an expression!'')
       else if is_TypeRef n then errorC SYNTAX_ERROR (''Macro arguement '' @ quoted pseudo @ '' is a type!'')
       else seqC (run tc n) (whenC (parentMacro \<noteq> None) pop_macro)))"

definition pseudo_macro :: "nat \<Rightarrow> tcalls \<Rightarrow> host \<Rightarrow> string \<Rightarrow> node list \<Rightarrow> bool \<Rightarrow> unit tr" where
  "pseudo_macro k tc h pseudo as asStatement =
     bindC (getItem pseudo) (\<lambda>item.
     case item of
       None \<Rightarrow> errorC PSEUDO_ERROR (''Pseudo variable with name '' @ quoted pseudo @ '' hasnt been found!'')
     | Some (ItemMacro m) \<Rightarrow>
         bindC (macro_at m) (\<lambda>ins.
         case mi_macro ins of
           Macro _ _ _ isStatement _ _ \<Rightarrow>
             if \<not> asStatement \<and> isStatement
             then errorC PSEUDO_ERROR (''Macro '' @ quoted pseudo @ '' is not an expression!'')
             else transformMacro k tc h pseudo as m
         | _ \<Rightarrow> failC null_pointer)
     | Some _ \<Rightarrow> failC AssertFail)"

definition tvisit_PseudoVariable :: "nat \<Rightarrow> tcalls \<Rightarrow> host \<Rightarrow> node \<Rightarrow> string \<Rightarrow> node list \<Rightarrow> bool \<Rightarrow> unit tr" where
  "tvisit_PseudoVariable k tc h n pseudo as asStatement =
     bindC (pseudo_text h n pseudo) (\<lambda>r.
     case r of
       Some (text, num) \<Rightarrow>
         if text = [] then seqC (assertC (num \<noteq> -1)) (run tc (ConstantValue CT_Number (to_string num) []))
         else run tc (quoted_constant text)
     | None \<Rightarrow>
         bindC (getC getCurrentMacro) (\<lambda>parent.
         bindC (optC macro_at parent) (\<lambda>ins.
         case Option.bind ins (\<lambda>x. map_of (mi_stack x) pseudo) of
           Some a \<Rightarrow> pseudo_argument tc pseudo asStatement a
         | None \<Rightarrow> pseudo_macro k tc h pseudo as asStatement)))"

end
