(* ===== verification/Transform_Stmts.thy ===== *)
theory Transform_Stmts
  imports Transform_Calls
begin

text \<open>
  The visits of statements (\<^verbatim>\<open>src/visitors/transform/visits/Statement/\<close>) and of blocks
  (\<^verbatim>\<open>visits/Block.cc\<close>), with \<^verbatim>\<open>getBooleanValue.cc\<close>.
\<close>

section \<open>Blocks and conditions\<close>

definition tvisit_Block :: "tcalls \<Rightarrow> AttributeHolder \<Rightarrow> node list \<Rightarrow> unit tr" where
  "tvisit_Block tc attrs stmts =
     withScopeC (bindC (mapC (valueC tc) stmts) (\<lambda>insts. setValue (IrBlock None attrs insts)))"

definition getBooleanValue :: "ir_value \<Rightarrow> ir_value tr" where
  "getBooleanValue v =
     bindC (numberType (IntTy False 1 True)) (\<lambda>boolType.
     bindC (typeC v) (\<lambda>t.
     if isIntType 1 t then returnC v
     else bindC (tryCast v boolType) (\<lambda>x. case x of Some w \<Rightarrow> returnC w | None \<Rightarrow> failC AssertFail)))"

definition tvisit_Conditional :: "tcalls \<Rightarrow> node \<Rightarrow> node \<Rightarrow> node option \<Rightarrow> unit tr" where
  "tvisit_Conditional tc cond body elseBlock =
     bindC (bindC (valueC tc cond) getBooleanValue) (\<lambda>expr.
     bindC (blockC tc body) (\<lambda>truthyBody.
     bindC (optC (blockC tc) elseBlock) (\<lambda>falsyBody.
     setValue (createConditional expr truthyBody falsyBody))))"

definition tvisit_WhileLoop :: "tcalls \<Rightarrow> node \<Rightarrow> node \<Rightarrow> bool \<Rightarrow> node option \<Rightarrow> unit tr" where
  "tvisit_WhileLoop tc cond body isDoWhile forCond =
     bindC (bindC (valueC tc cond) getBooleanValue) (\<lambda>expr.
     bindC (blockC tc body) (\<lambda>b.
     case forCond of
       Some x \<Rightarrow> bindC (valueC tc x) (\<lambda>v. setValue (createFromForLoop expr b v))
     | None \<Rightarrow> setValue (createWhileLoop expr b isDoWhile)))"

text \<open>A for loop as the block, variables and calls it stands for.\<close>

definition method_call :: "string \<Rightarrow> string \<Rightarrow> node" where
  "method_call object name = FunctionCall (Index (Identifier object) (Identifier name) False) []"

definition local_variable :: "string \<Rightarrow> node \<Rightarrow> bool \<Rightarrow> node" where
  "local_variable name value isMut = VariableDecl name (Some value) isMut None False False PRIVATE None no_attributes"

definition desugar_for :: "string \<Rightarrow> node \<Rightarrow> node list \<Rightarrow> node" where
  "desugar_for var expr stmts =
     Block no_attributes
       [local_variable ''$iter'' expr True,
        local_variable ''$iter_value'' (method_call ''$iter'' ''next'') True,
        WhileLoop (method_call ''$iter_value'' ''is_valid'')
          (Block no_attributes (local_variable var (method_call ''$iter_value'' ''value'') False # stmts)) False
          (Some (BinaryOp OT_EQ (Identifier ''$iter_value'') (Some (method_call ''$iter'' ''next'')) False False)),
        method_call ''$iter'' ''reset'']"

definition tvisit_ForLoop :: "tcalls \<Rightarrow> string \<Rightarrow> node \<Rightarrow> node \<Rightarrow> unit tr" where
  "tvisit_ForLoop tc var expr body = run tc (desugar_for var expr (block_stmts body))"

definition tvisit_LoopFlow :: "FlowType \<Rightarrow> unit tr" where
  "tvisit_LoopFlow f = setValue (createLoopFlow f)"

definition tvisit_Raise :: "tcalls \<Rightarrow> node \<Rightarrow> unit tr" where
  "tvisit_Raise tc e = bindC (valueC tc e) (\<lambda>v. setValue (createThrow v))"

section \<open>Return\<close>

definition current_function :: "nat tr" where
  "current_function = bindC (getC currentFunction) derefC"

definition tvisit_Return :: "tcalls \<Rightarrow> node option \<Rightarrow> unit tr" where
  "tvisit_Return tc value =
     bindC current_function (\<lambda>i.
     bindC (func_at i) (\<lambda>f.
     bindC (bindC (liftC (the_type (f_type f))) (\<lambda>t. liftC (getFunctionType t))) (\<lambda>fnType.
     bindC (liftC (Func_isConstructor f)) (\<lambda>ctor.
     case fnType of
       Some (FunctionTy _ _ _ ret _) \<Rightarrow>
         if ctor then errorC SYNTAX_ERROR ''You cant return a value inside a constructor function!''
         else if \<not> is_VoidTy ret then
           (case value of
              None \<Rightarrow> errorC SYNTAX_ERROR ''You must return a value inside a non-void function!''
            | Some e \<Rightarrow>
                bindC (valueC tc e) (\<lambda>v.
                bindC (tryCast v ret) (\<lambda>x.
                bindC (createReturn (Some (case x of Some w \<Rightarrow> w | None \<Rightarrow> v))) setValue)))
         else (case value of
              Some _ \<Rightarrow> errorC SYNTAX_ERROR ''You cant return a value inside a void function!''
            | None \<Rightarrow> bindC getVoidType (\<lambda>t. bindC (setTypeC createVoidReturn t) setValue))
     | _ \<Rightarrow> failC AssertFail))))"

section \<open>Variables\<close>

definition register_variable :: "nat \<Rightarrow> unit tr" where
  "register_variable x =
     bindC (getC (\<lambda>c. currentFunction c = None \<and> currentClass c = None)) (\<lambda>global.
     whenC global (modifyC (\<lambda>c. c\<lparr>moduleVariables := (moduleVariables c)
       (uniqueName (cur_module c) := moduleVariables c (uniqueName (cur_module c)) @ [x])\<rparr>)))"

definition declare_external :: "string \<Rightarrow> unit tr" where
  "declare_external name =
     bindC (getC exported) (\<lambda>ex.
     if name \<in> set ex then errorC VARIABLE_ERROR ''External symbol already exists!''
     else modifyC (\<lambda>c. c\<lparr>exported := exported c @ [name]\<rparr>))"

definition fresh_variable :: "string \<Rightarrow> unit tr" where
  "fresh_variable name =
     bindC (getInCurrentScope name) (\<lambda>item.
     if item \<noteq> None
     then errorC VARIABLE_ERROR (''Variable with name '' @ quoted name @ '' is already defined in the current scope!'')
     else returnC ())"

text \<open>
  The type that was written down is only tested against the value: a conversion is made, but the declaration
  keeps the value as it was, and the variable takes the type of that.
\<close>

definition check_declared :: "ir_value \<Rightarrow> ty \<Rightarrow> ty option \<Rightarrow> unit tr" where
  "check_declared v t definedType =
     (case definedType of
        None \<Rightarrow> returnC ()
      | Some d \<Rightarrow>
          if is_ty d t then returnC ()
          else bindC (tryCast v d) (\<lambda>x.
            if x = None then errorC VARIABLE_ERROR ''Cant assign value to the variable of another type!'' else returnC ()))"

definition initialise_variable :: "tcalls \<Rightarrow> nat \<Rightarrow> node \<Rightarrow> bool \<Rightarrow> bool \<Rightarrow> ty option \<Rightarrow> unit tr" where
  "initialise_variable tc x e isMut isExtern definedType =
     bindC (valueC tc e) (\<lambda>v.
     bindC (createVariableDeclaration x (Some v) isExtern) (\<lambda>varDecl.
     bindC (typeC v) (\<lambda>t.
     bindC (setTypeC varDecl t) (\<lambda>decl.
     seqC (register_variable x) (
     seqC (check_declared v t definedType) (
     bindC (copyC t) (\<lambda>u.
     bindC (setTypeC (IrVariable x) (setMutable isMut u)) (\<lambda>_.
     setValue decl))))))))"

definition tvisit_VariableDecl :: "tcalls \<Rightarrow> string \<Rightarrow> node option \<Rightarrow> bool \<Rightarrow> node option \<Rightarrow> bool \<Rightarrow> unit tr" where
  "tvisit_VariableDecl tc name value isMut declared isExtern =
     bindC (optC (\<lambda>r. transformSizedType tc r False) declared) (\<lambda>type.
     seqC (assertC (value \<noteq> None \<or> type \<noteq> None)) (
     let definedType = map_option (setMutable isMut) type in
     seqC (whenC isExtern (declare_external name)) (
     seqC (fresh_variable name) (
     bindC (getC getScopeIndex) (\<lambda>scopeIndex.
     bindC (createVariable name None False isMut scopeIndex) (\<lambda>x.
     seqC (case value of
         Some e \<Rightarrow> initialise_variable tc x e isMut isExtern definedType
       | None \<Rightarrow>
           bindC (derefC definedType) (\<lambda>t.
           seqC (register_variable x) (
           bindC (setTypeC (IrVariable x) t) (\<lambda>v.
           setValue v)))) (
     addItem name (ItemValue (IrVariable x)))))))))"

section \<open>Exceptions\<close>

definition catch_clause :: "tcalls \<Rightarrow> node CatchBlock \<Rightarrow> (ir_value \<times> ir_value) tr" where
  "catch_clause tc b =
     bindC (transformSizedType tc (exceptionType b) False) (\<lambda>t.
     withScopeC (
       bindC (getC getScopeIndex) (\<lambda>scopeIndex.
       bindC (createVariable (exceptionVar b) (Some t) False False scopeIndex) (\<lambda>x.
       bindC (createVariableDeclaration x None False) (\<lambda>varDecl.
       bindC (setTypeC varDecl t) (\<lambda>decl.
       seqC (addItem (exceptionVar b) (ItemValue (IrVariable x))) (
       bindC (blockC tc (catch_block b)) (\<lambda>block.
       bindC current_function (\<lambda>_. returnC (block, decl))))))))))"

definition tvisit_TryCatch :: "tcalls \<Rightarrow> node \<Rightarrow> node CatchBlock list \<Rightarrow> unit tr" where
  "tvisit_TryCatch tc body catches =
     bindC (blockC tc body) (\<lambda>tryBlock.
     bindC (mapC (catch_clause tc) catches) (\<lambda>cs.
     setValue (createTryCatch tryBlock (map fst cs) (map snd cs))))"

section \<open>Switches\<close>

text \<open>\<^verbatim>\<open>expressionAsString\<close>.\<close>

definition case_name :: "node CaseBlock \<Rightarrow> string res" where
  "case_name b = (if fst (case_expression b) = None then Inr (snd (case_expression b)) else Inl (StdException ''runtime_error''))"

text \<open>The arguments of a case against the types of the field.\<close>

definition check_case :: "node CaseBlock \<Rightarrow> string \<times> ty list \<Rightarrow> unit tr" where
  "check_case b field =
     (let given = length (case_args b); expected = length (snd field) in
      if given \<noteq> expected then
        (if given < expected \<and> isVariadicCase b then returnC ()
         else errorC SYNTAX_ERROR ''Case arguments must match enum fields!'')
      else if isVariadicCase b then errorC SYNTAX_ERROR ''Variadic is not needed!''
      else returnC ())"

definition case_argument :: "string \<times> ty \<Rightarrow> ir_value tr" where
  "case_argument a =
     bindC (getC getScopeIndex) (\<lambda>scopeIndex.
     bindC (createVariable (fst a) None False False scopeIndex) (\<lambda>x.
     bindC (setTypeC (IrVariable x) (snd a)) (\<lambda>_.
     bindC (createVariableDeclaration x None False) (\<lambda>decl.
     seqC (addItem (fst a) (ItemValue (IrVariable x))) (
     bindC (getC currentFunction) (\<lambda>f.
     seqC (assertC (f \<noteq> None)) (returnC decl)))))))"

text \<open>A default block or a case; the last default counts.\<close>

definition enum_case :: "tcalls \<Rightarrow> (string \<times> ty list) list \<Rightarrow> node CaseBlock
    \<Rightarrow> (ir_value + ir_value list \<times> ir_value \<times> string) tr" where
  "enum_case tc enumFields b =
     (if isDefault b then bindC (blockC tc (case_block b)) (\<lambda>d. returnC (Inl d))
      else bindC (if enumFields = [] then returnC [] else liftC (case_name b)) (\<lambda>name.
        case index_where (\<lambda>f. fst f = name) enumFields of
          None \<Rightarrow> errorC SYNTAX_ERROR ''Case arguments must match enum fields!''
        | Some k \<Rightarrow>
            seqC (check_case b (enumFields ! k)) (
            withScopeC (
              bindC (mapC case_argument (zip (case_args b) (snd (enumFields ! k)))) (\<lambda>args.
              bindC (blockC tc (case_block b)) (\<lambda>block.
              returnC (Inr (args, block, fst (enumFields ! k)))))))))"

fun defaults_of :: "('a + 'b) list \<Rightarrow> 'a list" where
  "defaults_of [] = []"
| "defaults_of (Inl a # xs) = a # defaults_of xs"
| "defaults_of (Inr b # xs) = defaults_of xs"

fun cases_of :: "('a + 'b) list \<Rightarrow> 'b list" where
  "cases_of [] = []"
| "cases_of (Inl a # xs) = cases_of xs"
| "cases_of (Inr b # xs) = b # cases_of xs"

definition last_default :: "('a + 'b) list \<Rightarrow> 'a option" where
  "last_default xs = (case defaults_of xs of [] \<Rightarrow> None | ds \<Rightarrow> Some (last ds))"

text \<open>The number of the cases is compared with the number of the fields.\<close>

definition enough_cases :: "node CaseBlock list \<Rightarrow> (string \<times> ty list) list \<Rightarrow> bool" where
  "enough_cases cases enumFields \<longleftrightarrow> length cases = length enumFields \<or> list_ex isDefault cases"

definition switched_value :: "ir_value \<Rightarrow> (ir_value \<times> ty) tr" where
  "switched_value v =
     bindC (typeC v) (\<lambda>t.
     returnC (case t of
         ReferenceTy _ b \<Rightarrow> let switchType = reference_base t in (createDereferenceTo v switchType, switchType)
       | _ \<Rightarrow> (v, t)))"

definition enum_switch :: "tcalls \<Rightarrow> ir_value \<Rightarrow> node CaseBlock list \<Rightarrow> unit tr" where
  "enum_switch tc v cases =
     bindC (switched_value v) (\<lambda>(expr, t).
     case t of
       EnumTy _ _ _ l \<Rightarrow>
         bindC (askC (\<lambda>c. class_at (objects c) l)) (\<lambda>ob.
         if \<not> enough_cases cases (enum_fields ob)
         then errorC SYNTAX_ERROR ''Switch must have a case for every enum field!''
         else bindC (mapC (enum_case tc (enum_fields ob)) cases) (\<lambda>rs.
           setValue (createSwitch expr (cases_of rs) (last_default rs))))
     | _ \<Rightarrow> errorC SYNTAX_ERROR ''Switch expression must be of enum type!'')"

definition c_case :: "tcalls \<Rightarrow> node CaseBlock \<Rightarrow> (ir_value + ir_value \<times> ir_value) tr" where
  "c_case tc b =
     (if isDefault b then
        bindC (trans tc (case_block b)) (\<lambda>v.
        case v of
          Some d \<Rightarrow> if is_block d then returnC (Inl d) else failC AssertFail
        | None \<Rightarrow> failC AssertFail)
      else case fst (case_expression b) of
          Some (ConstantValue CT_String _ _) \<Rightarrow> errorC SYNTAX_ERROR ''Switch case cannot be a string!''
        | Some (ConstantValue CT_Float _ _) \<Rightarrow> errorC SYNTAX_ERROR ''Switch case cannot be a float!''
        | Some (ConstantValue ty s p) \<Rightarrow>
            seqC (assertC (case_args b = [])) (
            bindC (valueC tc (ConstantValue ty s p)) (\<lambda>v.
            bindC (trans tc (case_block b)) (\<lambda>w.
            case w of
              Some d \<Rightarrow> if is_block d then returnC (Inr (v, d)) else failC AssertFail
            | None \<Rightarrow> failC AssertFail)))
        | _ \<Rightarrow> errorC SYNTAX_ERROR ''Switch case must be a constant value!'')"

definition c_switch :: "tcalls \<Rightarrow> ir_value \<Rightarrow> node CaseBlock list \<Rightarrow> unit tr" where
  "c_switch tc v cases =
     bindC (typeC v) (\<lambda>t.
     case t of
       IntTy _ _ _ \<Rightarrow>
         bindC (mapC (c_case tc) cases) (\<lambda>rs.
         if last_default rs = None then errorC SYNTAX_ERROR ''Switch must have a default case!''
         else setValue (createCSwitch v (cases_of rs) (last_default rs)))
     | _ \<Rightarrow> errorC SYNTAX_ERROR ''Switch expression must be of integer type!'')"

definition tvisit_Switch :: "tcalls \<Rightarrow> node \<Rightarrow> node CaseBlock list \<Rightarrow> bool \<Rightarrow> unit tr" where
  "tvisit_Switch tc e cases cStyle =
     bindC (valueC tc e) (\<lambda>v. if cStyle then c_switch tc v cases else enum_switch tc v cases)"

end
