(* ===== verification/Transformer.thy ===== *)
theory Transformer
  imports Transform_Stmts Lexer Parser
begin

text \<open>
  The transformer as a whole: imports (\<^verbatim>\<open>visits/Statement/ImportStmt.cc\<close>, \<^verbatim>\<open>src/services/ImportService.cc\<close>,
  \<^verbatim>\<open>ImportCache.cc\<close>), the dispatch over nodes and the configurations a node may ask for
  (\<^verbatim>\<open>Transformer.cc\<close>), and the part of \<^verbatim>\<open>Compiler::compile\<close> (\<^verbatim>\<open>src/compiler.cc\<close>) from the text of the main
  module to the end of the transformation. The recursion is tied by depth: \<open>calls_of k\<close> are the routines with a stack
  of depth \<open>k\<close>.
\<close>

section \<open>The import service\<close>

definition getPackagePath :: "host \<Rightarrow> string \<Rightarrow> string" where
  "getPackagePath h package =
     (if package = ''std'' then lib_folder h
      else if package = ''pkg'' then cwd h
      else path_div (path_div (packages_path h) ''.sn/deps'') package)"

definition getExportName :: "string \<Rightarrow> string \<Rightarrow> string" where
  "getExportName path symbol = (if symbol = [] then path_stem path else symbol)"

definition isExternalModule :: "string \<Rightarrow> bool" where
  "isExternalModule package \<longleftrightarrow> package \<noteq> ''pkg''"

definition getModuleUUID :: "host \<Rightarrow> string \<Rightarrow> string res" where
  "getModuleUUID h path =
     (if length path < length (packages_path h) + 1 then Inl (StdException ''out_of_range'')
      else Inr (''pkg::'' @ replaceAll (remove_extension (drop (length (packages_path h) + 1) path)) ''/'' ''::''))"

text \<open>The loop over the extensions; a second one that is tried after one has been found is an error.\<close>

primrec find_extension :: "host \<Rightarrow> string \<Rightarrow> string list \<Rightarrow> string option \<Rightarrow> string + string option" where
  "find_extension h fullPath [] found = Inr found"
| "find_extension h fullPath (e # es) found =
     (if found \<noteq> None then Inl ''Multiple paths found without an extension defined''
      else find_extension h fullPath es (if access h (fullPath @ e) then Some e else None))"

definition extensions :: "string list" where "extensions = [''.sn'']"

text \<open>The path of the file and the path it is named after, or an error.\<close>

definition getImportPath :: "host \<Rightarrow> string \<Rightarrow> string list \<Rightarrow> (string + string \<times> string) res" where
  "getImportPath h package path =
     (let fullPath = path_div (getPackagePath h package) (foldl path_div [] path);
          missing = Inr (Inl (''Coudnt find module '' @ quoted (join path ''::'') @ '' imported from '' @ quoted package))
      in case find_extension h fullPath extensions None of
           Inl e \<Rightarrow> Inr (Inl e)
         | Inr (Some e) \<Rightarrow> Inr (Inr (fullPath @ e, fullPath @ e))
         | Inr None \<Rightarrow>
             if is_directory h fullPath then
               bindR (package_main h (path_div fullPath ''sn.toml'')) (\<lambda>main.
               let entry = (case main of Some m \<Rightarrow> m | None \<Rightarrow> ''<invalid>'') in
               if entry = ''<invalid>'' then Inr (Inl ''Package doesnt have a main entry defined!'')
               else if access h (path_div fullPath entry)
               then Inr (Inr (path_div fullPath entry, if path_stem fullPath = [] then parent_path fullPath else fullPath))
               else Inl AssertFail)
             else missing)"

definition getImportedModule :: "string \<Rightarrow> ir_module option tr" where
  "getImportedModule p = getC (\<lambda>c. importedModules c p)"

definition addImportedModule :: "string \<Rightarrow> ir_module \<Rightarrow> unit tr" where
  "addImportedModule p m =
     bindC (getImportedModule p) (\<lambda>x.
     if x \<noteq> None then failC AssertFail else modifyC (\<lambda>c. c\<lparr>importedModules := (importedModules c)(p \<mapsto> m)\<rparr>))"

definition setCurrentPackagePath :: "string \<Rightarrow> unit tr" where
  "setCurrentPackagePath p = modifyC (\<lambda>c. c\<lparr>currentPackagePath := p\<rparr>)"

section \<open>Modules\<close>

definition visitGlobal :: "tcalls \<Rightarrow> node list \<Rightarrow> unit tr" where
  "visitGlobal tc nodes =
     withScopeC (
       seqC initializePerModuleMacros (
       bindC (getC generateFunction) (\<lambda>backup.
       seqC (setGenerate False) (
       seqC (forC (run tc) (filter can_generate nodes)) (
       seqC (setGenerate True) (
       seqC (forC (run tc) nodes) (
       setGenerate backup)))))))"

text \<open>The tree of a text: \<^verbatim>\<open>None\<close> when there are no tokens.\<close>

definition read_tree :: "string \<Rightarrow> node list option res" where
  "read_tree text =
     bindR (tokenize text) (\<lambda>ts.
     if ts = [] then Inr None else bindR (parse ts text False) (\<lambda>ns. Inr (Some ns)))"

definition set_main :: "bool \<Rightarrow> unit tr" where
  "set_main b = modifyC (\<lambda>c. c\<lparr>isMainModule := b\<rparr>)"

text \<open>The tree the analysis of a module gets: the module's own, as the extensions have left it.\<close>

definition extended_trees :: "ir_module \<Rightarrow> node list \<Rightarrow> tctx \<Rightarrow> node list" where
  "extended_trees m ast c = map (extended_tree (cachedTypes (ctx_cache c)) (uniqueName m)) ast"

text \<open>A module that is imported for the first time.\<close>

definition load_module :: "nat \<Rightarrow> tcalls \<Rightarrow> host \<Rightarrow> string \<Rightarrow> ir_module \<Rightarrow> unit tr" where
  "load_module k tc h filePath m =
     (case read_file h filePath of
        None \<Rightarrow> failC AssertFail
      | Some text \<Rightarrow>
          bindC (liftC (read_tree text)) (\<lambda>tree.
          case tree of
            None \<Rightarrow> returnC ()
          | Some ast \<Rightarrow>
              bindC (getC cur_module) (\<lambda>backupModule.
              seqC (set_module m) (
              seqC (visitGlobal tc ast) (
              bindC (getC (extended_trees m ast)) (\<lambda>ast'.
              bindC (liftC (run_analysis k ast')) (\<lambda>_.
              seqC (set_module backupModule) (
              seqC (add_module backupModule) (
              addImportedModule filePath backupModule)))))))))"

definition import_state :: "ir_module \<Rightarrow> string list \<Rightarrow> ctx_state" where
  "import_state m modules =
     \<lparr>s_stack = [], s_module = m, s_uuidStack = (case modules of [] \<Rightarrow> [] | u # _ \<Rightarrow> [u]), s_currentClass = None\<rparr>"

definition import_module :: "nat \<Rightarrow> tcalls \<Rightarrow> host \<Rightarrow> string \<Rightarrow> string \<Rightarrow> string \<Rightarrow> ir_module tr" where
  "import_module k tc h filePath niceFullName u =
     bindC (getC currentPackagePath) (\<lambda>backupPath.
     seqC (setCurrentPackagePath (parent_path filePath)) (
     let m = new_Module niceFullName u in
     bindC (getC uuidStack) (\<lambda>modules.
     seqC (withStateC (import_state m modules) (load_module k tc h filePath m)) (
     seqC (setCurrentPackagePath backupPath)
       (returnC m)))))"

definition import_macro :: "string \<times> nat \<Rightarrow> unit tr" where
  "import_macro m =
     bindC (getInCurrentScope (fst m)) (\<lambda>item.
     if item \<noteq> None then errorC IMPORT_ERROR (''Import with name '' @ quoted (fst m) @ '' is already defined!'')
     else addItem (fst m) (ItemMacro (snd m)))"

definition named_macro :: "(string \<times> nat) list \<Rightarrow> string \<times> string \<Rightarrow> unit tr" where
  "named_macro ms a =
     (if snd a \<noteq> [] then errorC ATTRIBUTE_ERROR (''Attribute macros('' @ fst a @ '') does not take any arguments!'')
      else case map_of ms (fst a) of
          None \<Rightarrow> errorC ATTRIBUTE_ERROR (''Macro '' @ quoted (fst a) @ '' does not exist or hasnt been exported!'')
        | Some i \<Rightarrow> import_macro (fst a, i))"

definition import_macros :: "AttributeHolder \<Rightarrow> ir_module \<Rightarrow> unit tr" where
  "import_macros attrs m =
     (if \<not> hasAttribute attrs MACROS then returnC ()
      else bindC (getC (\<lambda>c. exportedMacros c (uniqueName m))) (\<lambda>ms.
        let args = getAttributeArgs attrs MACROS in
        seqC (forC (named_macro ms) args) (
        if args = [] then forC import_macro ms else returnC ())))"

definition nice_full_name :: "string \<Rightarrow> string list \<Rightarrow> string" where
  "nice_full_name package path =
     (let n = package @ ''::'' @ join path ''::'' in if n = ''std::std'' then ''std'' else n)"

definition tvisit_ImportStmt :: "nat \<Rightarrow> tcalls \<Rightarrow> host \<Rightarrow> string list \<Rightarrow> string \<Rightarrow> (string \<times> string) list \<Rightarrow> string
    \<Rightarrow> AttributeHolder \<Rightarrow> unit tr" where
  "tvisit_ImportStmt k tc h path package variables exportSymbol attrs =
     bindC (getC generateFunction) (\<lambda>generate.
     if generate then returnC ()
     else
       bindC (getC isMainModule) (\<lambda>backup.
       bindC (liftC (getImportPath h package path)) (\<lambda>found.
       case found of
         Inl e \<Rightarrow> errorC IMPORT_ERROR e
       | Inr (filePath, originalPath) \<Rightarrow>
           bindC (if package = ''std'' then returnC (CORE_UUID @ join path ''.'') else liftC (getModuleUUID h filePath)) (\<lambda>u.
           let exportName = getExportName originalPath exportSymbol in
           seqC (set_main (\<not> isExternalModule package)) (
           bindC (getItem exportName) (\<lambda>item.
           if item \<noteq> None then errorC IMPORT_ERROR (''Import with name '' @ quoted exportName @ '' is already defined!'')
           else
             bindC (getImportedModule filePath) (\<lambda>cached.
             bindC (case cached of
                 Some m \<Rightarrow> returnC m
               | None \<Rightarrow> import_module k tc h filePath (nice_full_name package path) u) (\<lambda>m.
             seqC (addItem exportName (ItemModule m)) (
             seqC (createModuleAliases variables exportName) (
             seqC (import_macros attrs m) (
             set_main backup)))))))))))"

section \<open>Dispatch\<close>

fun node_attributes :: "node \<Rightarrow> AttributeHolder" where
  "node_attributes (Block a _) = a"
| "node_attributes (FunctionDef d) = fn_attributes d"
| "node_attributes (ExternFnDef _ d) = fn_attributes d"
| "node_attributes (BodiedFunction _ d) = fn_attributes d"
| "node_attributes (ConstructorDef _ _ _ _ d) = fn_attributes d"
| "node_attributes (LLVMFunction _ _ d) = fn_attributes d"
| "node_attributes (VariableDecl _ _ _ _ _ _ _ _ a) = a"
| "node_attributes (DefinedTypeDef _ _ _ _ _ _ _ _ _ _ _ a) = a"
| "node_attributes (EnumTypeDef _ _ _ _ _ _ _ a) = a"
| "node_attributes (ImportStmt _ _ _ _ a) = a"
| "node_attributes (Namespace _ _ _ a) = a"
| "node_attributes (Macro _ _ _ _ a _) = a"
| "node_attributes _ = no_attributes"

definition dispatch :: "nat \<Rightarrow> host \<Rightarrow> tcalls \<Rightarrow> node \<Rightarrow> unit tr" where
  "dispatch k h tc n =
     (case n of
        Block a ss \<Rightarrow> tvisit_Block tc a ss
      | ConstantValue ty s p \<Rightarrow> tvisit_ConstantValue tc h ty s p
      | Cast e t \<Rightarrow> tvisit_Cast tc e t
      | FunctionCall f as \<Rightarrow> tvisit_FunctionCall tc n f as
      | NewInstance e t \<Rightarrow> tvisit_NewInstance tc e t
      | Identifier x \<Rightarrow> tvisit_Identifier tc x
      | GenericIdentifier x gs \<Rightarrow> tvisit_GenericIdentifier tc x gs
      | PseudoVariable x as _ asStatement \<Rightarrow> tvisit_PseudoVariable k tc h n x as asStatement
      | Index b i s \<Rightarrow> tvisit_Index tc b i s
      | BinaryOp op l r m i \<Rightarrow> tvisit_BinaryOp tc op l r m i
      | LambdaFunction f \<Rightarrow> tvisit_LambdaFunction tc h n f
      | VariableDecl x v m t c e p cm a \<Rightarrow> tvisit_VariableDecl tc x v m t e
      | TypeAlias x t gs p cm \<Rightarrow> tvisit_TypeAlias tc n x t gs p
      | DefinedTypeDef x fs vs ts ex kd is hc gs p cm a \<Rightarrow> tvisit_DefinedTypeDef tc n x (gs \<noteq> None) a
      | EnumTypeDef x fs ms is gs p cm a \<Rightarrow> tvisit_EnumTypeDef tc n x (gs \<noteq> None)
      | Switch e cs b \<Rightarrow> tvisit_Switch tc e cs b
      | Raise e \<Rightarrow> tvisit_Raise tc e
      | Conditional c b e \<Rightarrow> tvisit_Conditional tc c b e
      | LoopFlow f \<Rightarrow> tvisit_LoopFlow f
      | TryCatch b cs \<Rightarrow> tvisit_TryCatch tc b cs
      | ForLoop x e b \<Rightarrow> tvisit_ForLoop tc x e b
      | WhileLoop c b d f \<Rightarrow> tvisit_WhileLoop tc c b d f
      | ImportStmt path package vs symbol a \<Rightarrow> tvisit_ImportStmt k tc h path package vs symbol a
      | Namespace x body cm a \<Rightarrow> tvisit_Namespace tc x body
      | Return v \<Rightarrow> tvisit_Return tc v
      | Macro x as b s a cm \<Rightarrow> tvisit_Macro n x as s a
      | _ \<Rightarrow> if fn_data n \<noteq> None then tvisit_FunctionDef tc None n else failC AssertFail)"

text \<open>
  The loop over the configuration of a node. A test for another system than the one named holds everywhere: the
  negated case never excludes anything.
\<close>

fun configured :: "host \<Rightarrow> bool \<Rightarrow> bool \<Rightarrow> StoreType \<Rightarrow> bool res" where
  "configured h tests bench [] = Inr True"
| "configured h tests bench ((type, os) # args) =
     (if type = ''tests'' then (if \<not> tests then Inr False else configured h tests bench args)
      else if type = ''bench'' then (if \<not> bench then Inr False else configured h tests bench args)
      else if type = ''target_os'' then
        (let isNot = startsWith os ''!''; name = (if isNot then tl os else os)
         in if name \<noteq> os_name h \<and> \<not> isNot then Inr False else configured h tests bench args)
      else Inl (CompilerError SYNTAX_ERROR ''Unknown attribute!''))"

definition when_configured :: "host \<Rightarrow> node \<Rightarrow> unit tr \<Rightarrow> ir_value option tr" where
  "when_configured h n visit_node =
     bindC (askC (\<lambda>c. if hasAttribute (node_attributes n) CFG
         then configured h (testMode c) (benchMode c) (getAttributeArgs (node_attributes n) CFG) else Inr True)) (\<lambda>here.
     if here then seqC visit_node (getC last_value) else returnC None)"

definition trans_node :: "nat \<Rightarrow> host \<Rightarrow> tcalls \<Rightarrow> node \<Rightarrow> ir_value option tr" where
  "trans_node k h tc n = when_configured h n (dispatch k h tc n)"

text \<open>The same for a function that an extension has given a context state.\<close>

definition trans_method :: "host \<Rightarrow> tcalls \<Rightarrow> ctx_state \<Rightarrow> node \<Rightarrow> ir_value option tr" where
  "trans_method h tc s n = when_configured h n (tvisit_FunctionDef tc (Some s) n)"

section \<open>The recursion\<close>

definition exhausted_calls :: tcalls where
  "exhausted_calls =
     (let e = Undefined ''stack exhausted'' in
     \<lparr>transformType = \<lambda>_. failC e, transformSizedType = \<lambda>_ _. failC e, transformFunction = \<lambda>_ _ _ _. failC e,
      trans = \<lambda>_. failC e, transMethod = \<lambda>_ _. failC e, getFromIdentifier = \<lambda>_ _ _. failC e, getFromIndex = \<lambda>_ _ _. failC e,
      transformClass = \<lambda>_ _ _. failC e, transformEnum = \<lambda>_ _ _. failC e, transformTypeExtension = \<lambda>_ _. failC e\<rparr>)"

definition call_step :: "nat \<Rightarrow> host \<Rightarrow> tcalls \<Rightarrow> tcalls" where
  "call_step k h tc =
     \<lparr>transformType = transform_type tc, transformSizedType = sized_type tc, transformFunction = transform_function tc,
      trans = trans_node k h tc, transMethod = trans_method h tc, getFromIdentifier = get_from_identifier tc, getFromIndex = get_from_index tc,
      transformClass = transform_class k tc, transformEnum = transform_enum tc,
      transformTypeExtension = transform_type_extension tc\<rparr>"

primrec calls_of :: "host \<Rightarrow> nat \<Rightarrow> tcalls" where
  "calls_of h 0 = exhausted_calls"
| "calls_of h (Suc k) = call_step k h (calls_of h k)"

section \<open>Programs\<close>

definition initializeCoreRuntime :: "tcalls \<Rightarrow> unit tr" where
  "initializeCoreRuntime tc =
     seqC (modifyC (\<lambda>c. c\<lparr>uuidStack := uuidStack c @ [CORE_UUID @ ''std'']\<rparr>))
       (run tc (ImportStmt [''std''] ''std'' [] [] no_attributes))"

definition new_Transformer :: "tcalls \<Rightarrow> ir_module \<Rightarrow> string \<Rightarrow> bool \<Rightarrow> bool \<Rightarrow> tctx res" where
  "new_Transformer tc m packagePath tests benchmarks =
     bindR (new_TransformContext m tests benchmarks) (\<lambda>c.
     bindR (seqC (setCurrentPackagePath packagePath) (initializeCoreRuntime tc) c) (\<lambda>(_, c'). Inr c'))"

definition new_main_module :: ir_module where
  "new_main_module = new_Module ''$main'' []"

text \<open>The context after the transformation and the tree as the analysis leaves it; nothing for a text without tokens.\<close>

definition compile_tree :: "nat \<Rightarrow> host \<Rightarrow> string \<Rightarrow> bool \<Rightarrow> bool \<Rightarrow> string \<Rightarrow> (tctx \<times> node list) option res" where
  "compile_tree k h path tests benchmarks text =
     bindR (read_tree text) (\<lambda>tree.
     case tree of
       None \<Rightarrow> Inr None
     | Some ast \<Rightarrow>
         bindR (new_Transformer (calls_of h k) new_main_module (parent_path path) tests benchmarks) (\<lambda>c.
         bindR (visitGlobal (calls_of h k) ast c) (\<lambda>(_, c').
         bindR (run_analysis k (extended_trees new_main_module ast c')) (\<lambda>ast'. Inr (Some (c', ast'))))))"

end
