(* ===== verification/Transform_Balanced.thy ===== *)
theory Transform_Balanced
  imports Transformer
begin

text \<open>
  The contract of the transformer's routines. \<open>transformer_calls\<close> is what a routine relies on when it calls the
  others back: they leave the place in the program as it was, and what they say a name stands for carries only
  states with a scope. Every routine and visit keeps the contract when its callees do; \<open>calls_of_contract\<close> ties
  the two.
\<close>

section \<open>Rules\<close>

definition rooted_store :: "store_type \<Rightarrow> bool" where
  "rooted_store st \<longleftrightarrow> list_all (\<lambda>f. rooted_state (fs_state f)) (case st_overloads st of None \<Rightarrow> [] | Some os \<Rightarrow> os)"

lemma balanced_if: "(b \<Longrightarrow> balanced m) \<Longrightarrow> (\<not> b \<Longrightarrow> balanced n) \<Longrightarrow> balanced (if b then m else n)"
  by simp

lemma balanced_let: "balanced (f a) \<Longrightarrow> balanced (Let a f)"
  by simp

lemma balanced_prod: "(\<And>a b. x = (a, b) \<Longrightarrow> balanced (f a b)) \<Longrightarrow> balanced (case x of (a, b) \<Rightarrow> f a b)"
  by (cases x) simp

lemma balanced_option: "(x = None \<Longrightarrow> balanced m) \<Longrightarrow> (\<And>a. x = Some a \<Longrightarrow> balanced (f a)) \<Longrightarrow> balanced (case x of None \<Rightarrow> m | Some a \<Rightarrow> f a)"
  by (cases x) simp_all

lemma balanced_list: "balanced m \<Longrightarrow> (\<And>a as. balanced (f a as)) \<Longrightarrow> balanced (case x of [] \<Rightarrow> m | a # as \<Rightarrow> f a as)"
  by (cases x) simp_all

lemma balanced_sum: "(\<And>a. balanced (f a)) \<Longrightarrow> (\<And>a. balanced (g a)) \<Longrightarrow> balanced (case x of Inl a \<Rightarrow> f a | Inr b \<Rightarrow> g b)"
  by (cases x) simp_all

lemma balanced_ty:
  assumes "\<And>m. balanced (a m)" "\<And>m b. balanced (f m b)" "\<And>m b s. balanced (i m b s)" "\<And>m b. balanced (p m b)"
    "\<And>m b. balanced (r m b)" "\<And>m n as t v. balanced (fn m n as t v)" "\<And>m j gs b. balanced (al m j gs b)"
    "\<And>m j gs l. balanced (e m j gs l)" "\<And>m j gs l. balanced (d m j gs l)" "\<And>m j gs l. balanced (n m j gs l)"
  shows "balanced (case_ty a f i p r fn al e d n t)"
  using assms by (cases t) simp_all

lemma balanced_item:
  assumes "\<And>t. balanced (a t)" "\<And>t. balanced (b t)" "\<And>t. balanced (c t)" "\<And>t. balanced (d t)" "\<And>t. balanced (e t)"
    "\<And>t. balanced (f t)"
  shows "balanced (case_Item a b c d e f i)"
  using assms by (cases i) simp_all

lemma balanced_value:
  "(\<And>w. v = w \<Longrightarrow> balanced (f w)) \<Longrightarrow> balanced (f v)"
  by simp

lemmas balanced_cases = balanced_if balanced_let balanced_prod balanced_option balanced_list balanced_sum balanced_ty balanced_item

text \<open>What a computation returns, where the next one needs it.\<close>

lemma bind_saveState: "(\<And>s. rooted_state s \<Longrightarrow> balanced (f s)) \<Longrightarrow> balanced (bindC saveState f)"
  by (rule balanced_keeps [OF keeps_saveState])

lemma keeps_getC:
  "(\<And>c. rooted c \<Longrightarrow> P (g c)) \<Longrightarrow> keeps P (getC g)"
  by (simp add: keeps_def balanced_get) (simp add: yields_def tr_defs)

lemma keeps_askC:
  "(\<And>c a. rooted c \<Longrightarrow> g c = Inr a \<Longrightarrow> P a) \<Longrightarrow> keeps P (askC g)"
  by (simp add: keeps_def balanced_ask) (auto simp: yields_def askC_def tr_defs res_simps)

lemma bind_getCachedType:
  "(\<And>t. (\<And>s. t = Some s \<Longrightarrow> rooted_type s) \<Longrightarrow> balanced (f t))
   \<Longrightarrow> balanced (bindC (getC (\<lambda>c. getCachedType u (ctx_cache c))) f)"
  by (rule balanced_keeps [OF keeps_getC [where P = "\<lambda>t. \<forall>s. t = Some s \<longrightarrow> rooted_type s"]])
    (auto simp: rooted_def dest: rooted_getCachedType)

lemma bind_getFunctionState:
  "(\<And>s. rooted_state s \<Longrightarrow> balanced (f s)) \<Longrightarrow> balanced (bindC (askC (\<lambda>c. getFunctionState i (ctx_cache c))) f)"
  by (rule balanced_keeps [OF keeps_askC [where P = rooted_state]])
    (auto simp: rooted_def dest: rooted_getFunctionState)

lemmas bind_states = bind_saveState bind_getCachedType bind_getFunctionState

lemma keeps_if: "(b \<Longrightarrow> keeps P m) \<Longrightarrow> (\<not> b \<Longrightarrow> keeps P n) \<Longrightarrow> keeps P (if b then m else n)"
  by simp

lemma keeps_let: "keeps P (f a) \<Longrightarrow> keeps P (Let a f)"
  by simp

lemma keeps_option:
  "(x = None \<Longrightarrow> keeps P m) \<Longrightarrow> (\<And>a. x = Some a \<Longrightarrow> keeps P (f a)) \<Longrightarrow> keeps P (case x of None \<Rightarrow> m | Some a \<Rightarrow> f a)"
  by (cases x) simp_all

lemma keeps_prod: "(\<And>a b. x = (a, b) \<Longrightarrow> keeps P (f a b)) \<Longrightarrow> keeps P (case x of (a, b) \<Rightarrow> f a b)"
  by (cases x) simp

lemma keeps_any: "balanced m \<Longrightarrow> (\<And>a. keeps P (f a)) \<Longrightarrow> keeps P (bindC m f)"
  using keeps_bind [OF keeps_true] by blast

lemma keeps_seq: "balanced m \<Longrightarrow> keeps P n \<Longrightarrow> keeps P (seqC m n)"
  unfolding seqC_def by (rule keeps_any)

lemmas keeps_cases = keeps_if keeps_let keeps_option keeps_prod

text \<open>Pieces of the context that the place does not depend on.\<close>

lemma balanced_updates [balanced_intros]:
  "balanced (setValue v)" "balanced (modify_func i ff)" "balanced (modify_var i fv)" "balanced (modify_object l fo)"
  "balanced (setCurrentFunction fi)" "balanced (setGenerate b)" "balanced (set_latest n)" "balanced (modify_macro i fm)"
  "balanced (push_macro i)" "balanced pop_macro" "balanced (add_depth d)" "balanced (set_main b)"
  "balanced (setCurrentPackagePath p)" "balanced (set_alias_privacy bi pr)" "balanced (heapC fh)" "balanced (new_macro n')"
  unfolding setValue_def modify_func_def modify_var_def modify_object_def setCurrentFunction_def setGenerate_def
    set_latest_def modify_macro_def push_macro_def pop_macro_def add_depth_def set_main_def setCurrentPackagePath_def
    set_alias_privacy_def
  by (intro balanced_intros; simp add: same_place_def update_func_def update_var_def)+
    (rule balanced_same; auto simp: heapC_def new_macro_def same_place_def split: prod.splits)+

lemma balanced_askers [balanced_intros]:
  "balanced getVoidType" "balanced (func_at i)" "balanced (macro_at i)" "balanced current_function" "balanced current_fn"
  "balanced function_mangle" "balanced (first_arg as)" "balanced (constant_text as)" "balanced (store_data s)"
  "balanced (getBuiltinTypeImpl name)" "balanced (getTransformedTypeC u)" "balanced (type_object t)"
  "balanced (numberType t)" "balanced (is_core t name)" "balanced (getImportedModule p)" "balanced (type_defined u)"
  "balanced (already_transformed u)" "balanced (size_number n)" "balanced (instance_name u b)"
proof -
  show fn: "balanced (func_at i)" for i unfolding func_at_def by (intro balanced_intros)
  show impl: "balanced (getBuiltinTypeImpl name)" for name
    by (rule balanced_same) (auto simp: getBuiltinTypeImpl_def same_place_def split: option.splits)
  show "balanced getVoidType" unfolding getVoidType_def by (intro balanced_cases balanced_intros)
  show "balanced (macro_at i)" unfolding macro_at_def by (intro balanced_intros)
  show "balanced current_function" unfolding current_function_def by (intro balanced_intros)
  show "balanced current_fn" unfolding current_fn_def by (intro balanced_cases balanced_intros fn)
  show "balanced function_mangle" unfolding function_mangle_def by (intro balanced_cases balanced_intros fn)
  show first: "balanced (first_arg as)" unfolding first_arg_def by (intro balanced_intros)
  show "balanced (constant_text as)"
    unfolding constant_text_def by (intro balanced_bind first) (auto intro!: balanced_intros split: node.splits)
  show "balanced (store_data s)" unfolding store_data_def by (intro balanced_intros)
  show tt: "balanced (getTransformedTypeC u)" unfolding getTransformedTypeC_def by (intro balanced_intros)
  show "balanced (type_object t)" unfolding type_object_def by (intro balanced_intros)
  show num: "balanced (numberType t)" for t unfolding numberType_def by (intro balanced_intros impl)
  show "balanced (is_core t name)" unfolding is_core_def by (intro balanced_intros impl)
  show "balanced (getImportedModule p)" unfolding getImportedModule_def by (intro balanced_intros)
  show "balanced (type_defined u)" unfolding type_defined_def by (intro balanced_intros)
  show "balanced (already_transformed u)" unfolding already_transformed_def by (intro balanced_intros tt)
  show "balanced (size_number n)" unfolding size_number_def by (intro balanced_intros num)
  show "balanced (instance_name u b)" unfolding instance_name_def by (intro balanced_intros tt)
qed

lemma balanced_tryCast [balanced_intros]: "balanced (tryCast v t)"
  unfolding tryCast_def by (intro balanced_intros) (auto intro!: balanced_intros split: CastType.splits)

lemma balanced_same_signature [balanced_intros]: "balanced (same_signature i j)"
  unfolding same_signature_def by (intro balanced_intros)

lemma balanced_any_core [balanced_intros]: "balanced (any_core name ts)"
  by (induction ts) (auto intro!: balanced_intros)

lemma balanced_shouldReturnOverload [balanced_intros]: "balanced (shouldReturnOverload i js)"
  by (induction js) (auto intro!: balanced_intros)

lemma balanced_find_builtin [balanced_intros]: "balanced (find_builtin t name k items)"
  by (induction items arbitrary: k) (auto intro!: balanced_intros balanced_cases)

lemma balanced_find_variable [balanced_intros]: "balanced (find_variable name is)"
  by (induction "is") (auto intro!: balanced_intros balanced_cases)

lemma balanced_cast_arguments [balanced_intros]: "balanced (cast_arguments ps ts vs)"
  by (induction ps ts vs rule: cast_arguments.induct) (auto intro!: balanced_intros balanced_cases)

lemma balanced_check_fields [balanced_intros]: "balanced (check_fields fs ts)"
  by (induction fs ts rule: check_fields.induct) (auto intro!: balanced_intros)

lemma balanced_ancestor_has_vtable [balanced_intros]: "balanced (ancestor_has_vtable n ob)"
  by (induction n arbitrary: ob) (auto intro!: balanced_intros balanced_cases)

lemma balanced_defineFunction [balanced_intros]: "balanced (defineFunction i prefix)"
  unfolding defineFunction_def by (intro balanced_cases balanced_intros)

lemma balanced_createObjectConstructor [balanced_intros]: "balanced (createObjectConstructor t as)"
  unfolding createObjectConstructor_def by (intro balanced_cases balanced_intros)

lemma balanced_call_value [balanced_intros]: "balanced (call_value name v as)"
  unfolding call_value_def
  by (intro balanced_bind balanced_intros) (auto intro!: balanced_intros balanced_cases split: ir_value.splits)

lemma balanced_no_match [balanced_intros]: "balanced (no_match name st as b)"
  unfolding no_match_def by (intro balanced_cases balanced_intros)

lemma balanced_checkIfContextEqual [balanced_intros]: "balanced (checkIfContextEqual name b i)"
  unfolding checkIfContextEqual_def by (intro balanced_cases balanced_intros)

lemma balanced_inherit_slot [balanced_intros]: "balanced (inherit_slot l i)"
  unfolding inherit_slot_def by (intro balanced_cases balanced_intros) (simp add: same_place_def)

lemma balanced_inherit_created [balanced_intros]: "balanced (inherit_created p u b l f)"
  unfolding inherit_created_def by (intro balanced_cases balanced_intros)

lemma forC_balanced: "(\<And>x. x \<in> set xs \<Longrightarrow> balanced (f x)) \<Longrightarrow> balanced (forC f xs)"
  by (induction xs) (auto intro!: balanced_intros)

lemma balanced_inherit_overloads:
  "list_all (\<lambda>f. rooted_state (fs_state f)) (snd f) \<Longrightarrow> balanced (inherit_overloads p u b f)"
  unfolding inherit_overloads_def
  by (intro balanced_cases balanced_intros forC_balanced) (simp_all add: list_all_iff)

lemma bind_cachedFunctions:
  "(\<And>fs. (\<And>kv. kv \<in> set fs \<Longrightarrow> list_all (\<lambda>f. rooted_state (fs_state f)) (snd kv)) \<Longrightarrow> balanced (g fs))
   \<Longrightarrow> balanced (bindC (getC (\<lambda>c. getAllFunctionsByUUID u (cachedFunctions (ctx_cache c)))) g)"
  by (rule balanced_keeps [OF keeps_getC [where P = "\<lambda>fs. \<forall>kv \<in> set fs. list_all (\<lambda>f. rooted_state (fs_state f)) (snd kv)"]])
    (auto simp: rooted_def rooted_cache_def list_all_iff getAllFunctionsByUUID_def)

lemma balanced_inherit_from [balanced_intros]: "balanced (inherit_from i l ip lp b)"
  unfolding inherit_from_def
  by (intro bind_cachedFunctions balanced_intros forC_balanced balanced_inherit_overloads) (simp_all add: same_place_def)

lemma balanced_performInheritance [balanced_intros]: "balanced (performInheritance k i l ip lp b)"
  by (induction k arbitrary: i l ip lp) (auto intro!: balanced_intros balanced_cases)

lemma balanced_inherit [balanced_intros]: "balanced (inherit k t parent b)"
  unfolding inherit_def by (intro balanced_cases balanced_intros)

lemma balanced_modify_type [balanced_intros]: "balanced (modify_type t f)"
  unfolding modify_type_def by (intro balanced_intros)

lemma balanced_rebind [balanced_intros]: "balanced (rebind name i)"
  by (rule balancedI) (auto simp: rebind_def rooted_def same_place_def grows_top_def split: list.splits)

lemma balanced_cache_types [balanced_intros]: "balanced (cacheC (\<lambda>ch. ch\<lparr>createdTypes := f ch\<rparr>))"
  by (rule balanced_cacheC) (simp add: rooted_cache_def)

lemma balanced_set_generics [balanced_intros]: "balanced (set_generics u t gs)"
  unfolding set_generics_def by (intro balanced_cases balanced_intros)

lemma balanced_register_type [balanced_intros]: "balanced (register_type t)"
  unfolding register_type_def by (intro balanced_intros) (simp add: same_place_def Let_def)

lemma balanced_enter_type [balanced_intros]: "balanced (enter_type t b u)"
  unfolding enter_type_def addImpl_def by (intro balanced_intros)

lemma balanced_virtual_slot [balanced_intros]: "balanced (virtual_slot i b)"
  unfolding virtual_slot_def by (intro balanced_cases balanced_intros) (simp add: same_place_def)

lemma balanced_add_arguments [balanced_intros]: "balanced (add_arguments as)"
  unfolding add_arguments_def by (intro balanced_cases balanced_intros)

lemma balanced_argument_types [balanced_intros]: "balanced (argument_types as)"
  unfolding argument_types_def by (intro balanced_intros)

lemma balanced_give_type [balanced_intros]: "balanced (give_type i d as t)"
  unfolding give_type_def by (intro balanced_intros)

lemma balanced_self_argument [balanced_intros]: "balanced (self_argument d)"
  unfolding self_argument_def by (intro balanced_intros)

lemma balanced_with_self [balanced_intros]: "balanced (with_self b d t)"
  unfolding with_self_def by (intro balanced_cases balanced_intros)

lemma balanced_receiver [balanced_intros]: "balanced (receiver b d)"
  unfolding receiver_def by (intro balanced_cases balanced_intros)

lemma balanced_add_module [balanced_intros]: "balanced (add_module m)"
proof (rule balanced_same)
  fix c a c'
  assume "add_module m c = Inr (a, c')"
  then show "stack c' = stack c \<and> same_place c c' \<and> (rooted_cache (ctx_cache c) \<longrightarrow> rooted_cache (ctx_cache c'))"
    by (auto simp: add_module_def askC_def cacheC_def seqC_def tr_defs res_simps addModule_def same_place_def rooted_cache_def
        split: if_splits)
qed

lemma balanced_addImportedModule [balanced_intros]: "balanced (addImportedModule p m)"
  unfolding addImportedModule_def by (intro balanced_cases balanced_intros) (simp add: same_place_def)

lemma rooted_new_store: "rooted_state s \<Longrightarrow> rooted_type (new_store n s)"
  by (simp add: rooted_type_def new_store_def)

lemma balanced_cache_type [balanced_intros]:
  assumes "rooted_state s"
  shows "balanced (cache_type u n s)"
proof (rule balanced_same)
  fix c a c'
  assume "cache_type u n s c = Inr (a, c')"
  then show "stack c' = stack c \<and> same_place c c' \<and> (rooted_cache (ctx_cache c) \<longrightarrow> rooted_cache (ctx_cache c'))"
    using rooted_setType [OF _ rooted_new_store [OF assms, of n], of "ctx_cache c" u]
    by (auto simp: cache_type_def askC_def cacheC_def tr_defs res_simps same_place_def)
qed

lemma bind_store_of:
  assumes "rooted_state s" "\<And>st. rooted_type st \<Longrightarrow> balanced (f st)"
  shows "balanced (bindC (store_of u n s) f)"
  unfolding store_of_def
  by (rule balanced_keeps [OF keeps_getC [where P = rooted_type]])
    (use assms in \<open>auto simp: new_store_def rooted_def rooted_type_def split: option.splits dest: rooted_getCachedType\<close>)

lemma bind_definition_state:
  assumes "\<And>s. rooted_state s \<Longrightarrow> balanced (f s)"
  shows "balanced (bindC (definition_state contextState) f)"
proof -
  have "keeps rooted_state (definition_state contextState)"
    unfolding definition_state_def
    by (rule keeps_bind [OF keeps_saveState], cases contextState)
      (auto intro!: keeps_return keeps_any balanced_intros simp: rooted_state_def)
  then show ?thesis using assms by (rule balanced_keeps)
qed

lemma balanced_update_store:
  "(\<And>st. rooted_type st \<Longrightarrow> rooted_type (f st)) \<Longrightarrow> balanced (update_store u f)"
  unfolding update_store_def
  by (intro balanced_cacheC) (auto simp: rooted_cache_def split: if_splits)

lemma balanced_add_methods [balanced_intros]: "rooted_state s \<Longrightarrow> balanced (add_methods u ns s)"
  unfolding add_methods_def
  by (intro balanced_update_store) (auto simp: rooted_type_def list_all_iff)

lemma balanced_add_impls [balanced_intros]: "balanced (add_impls u rs)"
  unfolding add_impls_def by (intro balanced_update_store) (simp add: rooted_type_def)

lemma balanced_addImpl [balanced_intros]: "balanced (addImpl t i)"
  unfolding addImpl_def by (intro balanced_intros)

lemma balanced_implement [balanced_intros]: "balanced (implement t i)"
  unfolding implement_def by (intro balanced_cases balanced_intros) (simp add: same_place_def)

lemma balanced_bind_instance_generics [balanced_intros]: "balanced (bind_instance_generics t)"
  unfolding bind_instance_generics_def by (intro balanced_cases balanced_intros)

lemma balanced_builtin_macro [balanced_intros]: "balanced (builtin_macro name arg type)"
  unfolding builtin_macro_def by (intro balanced_intros)

lemma balanced_initializePerModuleMacros [balanced_intros]: "balanced initializePerModuleMacros"
  unfolding initializePerModuleMacros_def by (intro balanced_intros)

lemma balanced_createModuleAliases [balanced_intros]: "balanced (createModuleAliases as name)"
  unfolding createModuleAliases_def by (intro balanced_cases balanced_intros)

lemma balanced_import_macro [balanced_intros]: "balanced (import_macro m)"
  unfolding import_macro_def by (intro balanced_cases balanced_intros)

lemma balanced_import_macros [balanced_intros]: "balanced (import_macros attrs m)"
  unfolding import_macros_def named_macro_def by (intro balanced_cases balanced_intros)

lemma balanced_implement_field [balanced_intros]: "balanced (implement_field t fs f)"
  unfolding implement_field_def by (intro balanced_cases balanced_intros)

lemma balanced_find_vtable [balanced_intros]: "balanced (find_vtable k t)"
  unfolding find_vtable_def by (intro balanced_cases balanced_intros)

lemma balanced_require_constructor [balanced_intros]: "balanced (require_constructor t p b attrs)"
  unfolding require_constructor_def by (intro balanced_cases balanced_intros)

lemma balanced_new_class [balanced_intros]: "balanced (new_class name u kind)"
  unfolding new_class_def by (intro balanced_cases balanced_intros)

lemma balanced_bind_macro_argument [balanced_intros]: "balanced (bind_macro_argument m name as a)"
proof (cases a)
  case (fields i x argType d)
  show ?thesis
    unfolding fields bind_macro_argument_def
    by (auto intro!: balanced_intros balanced_cases split: option.splits)
qed

lemma balanced_pseudo_text [balanced_intros]: "balanced (pseudo_text h n p)"
  unfolding pseudo_text_def by (simp add: Let_def) (intro conjI impI balanced_cases balanced_intros)

lemma balanced_int_type [balanced_intros]: "balanced (int_type s b)"
  unfolding int_type_def by (intro balanced_cases balanced_intros)

lemma balanced_float_type [balanced_intros]: "balanced (float_type s)"
  unfolding float_type_def by (intro balanced_cases balanced_intros)

lemma balanced_assertSizedType [balanced_intros]: "balanced (assertSizedType t)"
  unfolding assertSizedType_def by (intro balanced_cases balanced_intros)

lemma balanced_generic_test [balanced_intros]: "balanced (generic_test i g)"
  unfolding generic_test_def by (intro balanced_cases balanced_intros)

lemma balanced_getBooleanValue [balanced_intros]: "balanced (getBooleanValue v)"
  unfolding getBooleanValue_def by (intro balanced_cases balanced_intros)

lemma balanced_register_variable [balanced_intros]: "balanced (register_variable x)"
  unfolding register_variable_def by (intro balanced_intros) (simp add: same_place_def)

lemma balanced_declare_external [balanced_intros]: "balanced (declare_external x)"
  unfolding declare_external_def by (intro balanced_cases balanced_intros) (simp add: same_place_def)

lemma balanced_fresh_variable [balanced_intros]: "balanced (fresh_variable x)"
  unfolding fresh_variable_def by (intro balanced_cases balanced_intros)

lemma balanced_check_declared [balanced_intros]: "balanced (check_declared v t d)"
  unfolding check_declared_def by (intro balanced_cases balanced_intros)

lemma balanced_case_argument [balanced_intros]: "balanced (case_argument a)"
  unfolding case_argument_def by (intro balanced_intros)

lemma balanced_check_case [balanced_intros]: "balanced (check_case b f)"
  unfolding check_case_def by (intro balanced_cases balanced_intros)

lemma balanced_switched_value [balanced_intros]: "balanced (switched_value v)"
  unfolding switched_value_def by (intro balanced_intros)

lemma balanced_field_value [balanced_intros]: "balanced (field_value x name v)"
  unfolding field_value_def by (simp add: Let_def) (intro balanced_cases balanced_intros)

lemma balanced_static_value [balanced_intros]: "balanced (static_value x name)"
  unfolding static_value_def by (intro balanced_cases balanced_intros)

lemma balanced_receiver_type [balanced_intros]: "balanced (receiver_type t)"
  unfolding receiver_type_def by (intro balanced_cases balanced_intros)

lemma balanced_receiver_value [balanced_intros]: "balanced (receiver_value v)"
  unfolding receiver_value_def by (intro balanced_cases balanced_intros)

lemma balanced_is_constructor_fn [balanced_intros]: "balanced (is_constructor_fn f)"
  unfolding is_constructor_fn_def by (auto intro!: balanced_intros split: ir_value.splits)

lemma balanced_typed_call [balanced_intros]: "balanced (typed_call f ts vs)"
  unfolding typed_call_def
  by (intro balanced_bind balanced_intros) (auto intro!: balanced_intros balanced_cases split: ir_value.splits ty.splits option.splits)

lemma balanced_getNiceBaseName [balanced_intros]: "balanced (getNiceBaseName st)"
  unfolding getNiceBaseName_def by (intro balanced_cases balanced_intros)

lemma balanced_register_name [balanced_intros]: "balanced (register_name n d)"
  unfolding register_name_def by (intro balanced_cases balanced_intros) (simp add: same_place_def)

end
