(* ===== verification/Transform_Contract.thy ===== *)
theory Transform_Contract
  imports Transform_Balanced
begin

text \<open>
  The locale \<open>transformer_calls\<close>: what a routine of the transformer may rely on when it calls the others, and that
  every routine and every visit then gives the same. The interpretation at the end is the transformer itself.
\<close>

section \<open>Overloads\<close>

definition rooted_candidate :: "candidate \<Rightarrow> bool" where
  "rooted_candidate x \<longleftrightarrow> rooted_state (fs_state (fst x))"

definition rooted_selection :: "selection \<Rightarrow> bool" where
  "rooted_selection s \<longleftrightarrow> pred_option rooted_candidate (exactFunction s) \<and> list_all rooted_candidate (matchedFunctions s)"

lemma pick_overload_rooted: "rooted_selection s \<Longrightarrow> pick_overload s = Inr (Some f, r) \<Longrightarrow> rooted_candidate f"
  by (auto simp: pick_overload_def rooted_selection_def at_index_def res_simps Let_def list_all_length
      split: if_splits prod.splits option.splits list.splits)

lemma take_generic_rooted:
  "rooted_selection s \<Longrightarrow> rooted_candidate x \<Longrightarrow> take_generic is x s = Inr s' \<Longrightarrow> rooted_selection s'"
  by (auto simp: take_generic_def rooted_selection_def res_simps)

lemma take_fitting_rooted: "rooted_selection s \<Longrightarrow> rooted_candidate x \<Longrightarrow> rooted_selection (take_fitting x f s)"
  by (simp add: take_fitting_def rooted_selection_def)

lemma balanced_fit_argument [balanced_intros]: "balanced (fit_argument a t f)"
  unfolding fit_argument_def by (intro balanced_cases balanced_intros)

lemma keeps_lift: "(\<And>a. r = Inr a \<Longrightarrow> P a) \<Longrightarrow> keeps P (liftC r)"
  by (simp add: keeps_def balanced_lift) (auto simp: yields_def tr_defs res_simps)

lemma bindC_simps: "bindC (returnC a) f = f a" "bindC (failC e) f = failC e"
  by (simp_all add: tr_defs)

section \<open>Modules\<close>

text \<open>What puts the module or the list of enclosing modules back in the end.\<close>

lemma seqC_assoc: "seqC m (seqC n k) = seqC (seqC m n) k"
proof
  fix c
  show "seqC m (seqC n k) c = seqC (seqC m n) k c"
    by (cases "m c") (auto simp: seqC_def tr_defs res_simps split: prod.splits)
qed

lemma balanced_other_module:
  assumes "balanced m"
  shows "balanced (bindC (getC cur_module) (\<lambda>b. seqC (set_module x) (seqC m (set_module b))))"
proof (rule balancedI)
  fix c a c'
  assume "bindC (getC cur_module) (\<lambda>b. seqC (set_module x) (seqC m (set_module b))) c = Inr (a, c')" and "rooted c"
  then obtain u d where m: "m (c\<lparr>cur_module := x\<rparr>) = Inr (u, d)" and c': "c' = d\<lparr>cur_module := cur_module c\<rparr>"
    by (auto simp: seqC_def set_module_def tr_defs res_simps)
  from \<open>rooted c\<close> have "rooted (c\<lparr>cur_module := x\<rparr>)" by (simp add: rooted_def)
  with assms m have "rooted d \<and> same_place (c\<lparr>cur_module := x\<rparr>) d \<and> grows_top (stack (c\<lparr>cur_module := x\<rparr>)) (stack d)"
    unfolding balanced_def by blast
  with c' show "rooted c' \<and> same_place c c' \<and> grows_top (stack c) (stack c')"
    by (simp add: rooted_def same_place_def)
qed

lemma balanced_inner_module:
  assumes "balanced m"
  shows "balanced (seqC enter_module (seqC m leave_module))"
proof (rule balancedI)
  fix c a c'
  assume "seqC enter_module (seqC m leave_module) c = Inr (a, c')" and "rooted c"
  let ?c = "c\<lparr>uuidStack := uuidStack c @ [uniqueName (cur_module c)]\<rparr>"
  from \<open>seqC enter_module (seqC m leave_module) c = Inr (a, c')\<close>
  obtain u d where m: "m ?c = Inr (u, d)" and c': "c' = d\<lparr>uuidStack := butlast (uuidStack d)\<rparr>"
    by (auto simp: seqC_def enter_module_def leave_module_def tr_defs res_simps)
  from \<open>rooted c\<close> have "rooted ?c" by (simp add: rooted_def)
  with assms m have "rooted d \<and> same_place ?c d \<and> grows_top (stack ?c) (stack d)"
    unfolding balanced_def by blast
  with c' show "rooted c' \<and> same_place c c' \<and> grows_top (stack c) (stack c')"
    by (simp add: rooted_def same_place_def)
qed

lemma getC_askC_swap: "bindC (getC f) (\<lambda>b. bindC (askC g) (k b)) = bindC (askC g) (\<lambda>i. bindC (getC f) (\<lambda>b. k b i))"
proof
  fix c
  show "bindC (getC f) (\<lambda>b. bindC (askC g) (k b)) c = bindC (askC g) (\<lambda>i. bindC (getC f) (\<lambda>b. k b i)) c"
    by (cases "g c") (auto simp: askC_def tr_defs res_simps)
qed

lemma balanced_in_module: "(\<And>n. balanced (run tc n)) \<Longrightarrow> balanced (in_module tc m ns)"
  unfolding in_module_def by (intro balanced_other_module balanced_intros)

section \<open>The current class\<close>

text \<open>What may change the class; when it is put back in the end, the place is kept.\<close>

definition classless :: "'a tr \<Rightarrow> bool" where
  "classless m \<longleftrightarrow> (\<forall>c a c'. m c = Inr (a, c') \<longrightarrow> rooted c \<longrightarrow>
     rooted c' \<and> grows_top (stack c) (stack c') \<and> cur_module c' = cur_module c \<and> uuidStack c' = uuidStack c)"

definition ends_in_class :: "ty option \<Rightarrow> 'a tr \<Rightarrow> bool" where
  "ends_in_class t m \<longleftrightarrow> (\<forall>c a c'. m c = Inr (a, c') \<longrightarrow> currentClass c' = t)"

lemma classless_balanced: "balanced m \<Longrightarrow> classless m"
  unfolding balanced_def classless_def same_place_def by blast

lemma classless_bind:
  assumes "classless m" "\<And>a. classless (f a)"
  shows "classless (bindC m f)"
  unfolding classless_def
proof (intro allI impI)
  fix c b c'
  assume "bindC m f c = Inr (b, c')" and "rooted c"
  then obtain a d where a: "m c = Inr (a, d)" and b: "f a d = Inr (b, c')"
    by (auto simp: bindC_def res_simps)
  from assms(1) a \<open>rooted c\<close> have d: "rooted d" "grows_top (stack c) (stack d)" "cur_module d = cur_module c"
    "uuidStack d = uuidStack c"
    unfolding classless_def by blast+
  with assms(2) b have "rooted c' \<and> grows_top (stack d) (stack c') \<and> cur_module c' = cur_module d \<and> uuidStack c' = uuidStack d"
    unfolding classless_def by blast
  with d show "rooted c' \<and> grows_top (stack c) (stack c') \<and> cur_module c' = cur_module c \<and> uuidStack c' = uuidStack c"
    using grows_top_trans by metis
qed

lemma classless_seq: "classless m \<Longrightarrow> classless n \<Longrightarrow> classless (seqC m n)"
  unfolding seqC_def by (rule classless_bind)

lemma classless_for: "(\<And>x. classless (f x)) \<Longrightarrow> classless (forC f xs)"
  by (induction xs) (auto intro: classless_bind classless_balanced balanced_return)

lemma classless_setCurrentClass: "classless (setCurrentClass t)"
  unfolding classless_def setCurrentClass_def
  by (auto simp: tr_defs rooted_def intro!: grows_top_refl)

lemma classless_withScope:
  assumes "classless m"
  shows "classless (withScopeC m)"
  unfolding classless_def
proof (intro allI impI)
  fix c a c'
  assume run: "withScopeC m c = Inr (a, c')" and c: "rooted c"
  have "stacked m" using assms unfolding classless_def stacked_def by blast
  from withScope_stack [OF this run c] have stack: "stack c' = stack c" "rooted c'" by simp_all
  from run obtain d where d: "m (c\<lparr>stack := empty_scope # stack c\<rparr>) = Inr (a, d)" (is "m ?c = _")
    and c': "delScope d = Inr ((), c')" by (rule withScope_runs)
  from c have "rooted ?c" by (auto simp: rooted_def)
  with assms d have "cur_module d = cur_module c" "uuidStack d = uuidStack c" unfolding classless_def by fastforce+
  with c' stack c show "rooted c' \<and> grows_top (stack c) (stack c') \<and> cur_module c' = cur_module c \<and> uuidStack c' = uuidStack c"
    by (auto simp: delScope_def grows_top_refl rooted_stack split: list.splits)
qed

lemma ends_in_class_set: "ends_in_class t (setCurrentClass t)"
  by (auto simp: ends_in_class_def setCurrentClass_def tr_defs)

lemma ends_in_class_bind: "(\<And>a. ends_in_class t (f a)) \<Longrightarrow> ends_in_class t (bindC m f)"
  unfolding ends_in_class_def by (fastforce simp: tr_defs res_simps)

lemma ends_in_class_seq: "ends_in_class t n \<Longrightarrow> ends_in_class t (seqC m n)"
  unfolding seqC_def by (rule ends_in_class_bind)

lemma balanced_restored_class:
  assumes "\<And>t. classless (m t)" "\<And>t. ends_in_class t (m t)"
  shows "balanced (bindC (getC currentClass) m)"
proof (rule balancedI)
  fix c a c'
  assume "bindC (getC currentClass) m c = Inr (a, c')" and c: "rooted c"
  then have run: "m (currentClass c) c = Inr (a, c')" by (simp add: tr_defs)
  with assms(1) c have "rooted c'" "grows_top (stack c) (stack c')" "cur_module c' = cur_module c" "uuidStack c' = uuidStack c"
    unfolding classless_def by blast+
  moreover from assms(2) run have "currentClass c' = currentClass c" unfolding ends_in_class_def by blast
  ultimately show "rooted c' \<and> same_place c c' \<and> grows_top (stack c) (stack c')" by (simp add: same_place_def)
qed

lemmas classless_rules = classless_seq classless_for classless_setCurrentClass classless_withScope classless_balanced

lemmas ends_rules = ends_in_class_set ends_in_class_seq ends_in_class_bind

section \<open>Imports\<close>

text \<open>A module is loaded on a stack that holds the global scope alone: what keeps even that exactly.\<close>

definition kept :: "'a tr \<Rightarrow> bool" where
  "kept m \<longleftrightarrow> (\<forall>c a c'. m c = Inr (a, c') \<longrightarrow> stack c \<noteq> [] \<longrightarrow> rooted_cache (ctx_cache c) \<longrightarrow>
     stack c' = stack c \<and> rooted_cache (ctx_cache c'))"

lemma kept_same:
  "(\<And>c a c'. m c = Inr (a, c') \<Longrightarrow> rooted_cache (ctx_cache c) \<Longrightarrow> stack c' = stack c \<and> rooted_cache (ctx_cache c')) \<Longrightarrow> kept m"
  by (auto simp: kept_def)

lemma kept_bind: "kept m \<Longrightarrow> (\<And>a. kept (f a)) \<Longrightarrow> kept (bindC m f)"
  unfolding kept_def
proof (intro allI impI)
  fix c a c'
  assume m: "\<forall>c a c'. m c = Inr (a, c') \<longrightarrow> stack c \<noteq> [] \<longrightarrow> rooted_cache (ctx_cache c) \<longrightarrow>
      stack c' = stack c \<and> rooted_cache (ctx_cache c')"
    and f: "\<And>a. \<forall>c b c'. f a c = Inr (b, c') \<longrightarrow> stack c \<noteq> [] \<longrightarrow> rooted_cache (ctx_cache c) \<longrightarrow>
      stack c' = stack c \<and> rooted_cache (ctx_cache c')"
    and run: "bindC m f c = Inr (a, c')" and c: "stack c \<noteq> []" "rooted_cache (ctx_cache c)"
  from run obtain b d where b: "m c = Inr (b, d)" "f b d = Inr (a, c')" by (auto simp: tr_defs res_simps)
  with m c have "stack d = stack c" "rooted_cache (ctx_cache d)" by blast+
  with f b(2) c show "stack c' = stack c \<and> rooted_cache (ctx_cache c')" by metis
qed

lemma kept_seq: "kept m \<Longrightarrow> kept n \<Longrightarrow> kept (seqC m n)"
  unfolding seqC_def by (rule kept_bind)

lemma kept_simple:
  "kept (returnC a)" "kept (failC e)" "kept (getC f)" "kept (liftC r)" "kept (set_module x)" "kept (add_module x)"
  "kept (addImportedModule p x)"
  by (rule kept_same; auto simp: tr_defs res_simps set_module_def add_module_def addImportedModule_def getImportedModule_def
      askC_def cacheC_def seqC_def addModule_def rooted_cache_def errorC_def split: if_splits)+

lemma kept_withScope:
  assumes "stacked m"
  shows "kept (withScopeC m)"
  unfolding kept_def
proof (intro allI impI)
  fix c a c'
  assume run: "withScopeC m c = Inr (a, c')" and c: "stack c \<noteq> []" "rooted_cache (ctx_cache c)"
  let ?c = "c\<lparr>stack := empty_scope # stack c\<rparr>"
  from run obtain d where d: "m ?c = Inr (a, d)" and c': "delScope d = Inr ((), c')"
    by (auto simp: withScopeC_def addScope_def tr_defs res_simps)
  from c have "rooted ?c" by (cases "stack c") (auto simp: rooted_def)
  with assms d have "rooted d" "grows_top (empty_scope # stack c) (stack d)" by (fastforce simp: stacked_def)+
  with c' show "stack c' = stack c \<and> rooted_cache (ctx_cache c')"
    by (auto simp: delScope_def grows_top_iff rooted_def split: list.splits)
qed

lemma balanced_withState_kept:
  assumes "kept m" "s_stack s = []"
  shows "balanced (withStateC s m)"
proof (rule balancedI)
  fix c a c'
  assume run: "withStateC s m c = Inr (a, c')" and c: "rooted c"
  let ?c = "c\<lparr>stack := s_stack s @ [last (stack c)], cur_module := s_module s, uuidStack := s_uuidStack s,
      currentClass := s_currentClass s\<rparr>"
  from run rooted_stack [OF c] obtain d where d: "m ?c = Inr (a, d)"
    and c': "c' = d\<lparr>stack := butlast (stack c) @ [last (stack d)], cur_module := cur_module c,
      uuidStack := uuidStack c, currentClass := currentClass c\<rparr>"
    by (rule withState_runs)
  from c have "rooted_cache (ctx_cache ?c)" by (simp add: rooted_def)
  with assms(1) d have "stack d = [last (stack c)]" "rooted_cache (ctx_cache d)"
    using assms(2) unfolding kept_def by fastforce+
  with c' c rooted_stack [OF c] show "rooted c' \<and> same_place c c' \<and> grows_top (stack c) (stack c')"
    by (simp add: rooted_def same_place_def grows_top_refl)
qed

section \<open>Members with a context state\<close>

definition rooted_member :: "member \<Rightarrow> bool" where
  "rooted_member m \<longleftrightarrow> pred_option rooted_state (snd m)"

lemma all_members_rooted: "rooted_type st \<Longrightarrow> m \<in> set (all_members ns (ts_methods st)) \<Longrightarrow> rooted_member m"
  by (auto simp: all_members_def rooted_member_def rooted_type_def list_all_iff)

section \<open>The contract\<close>

locale transformer_calls =
  fixes tc :: tcalls
  assumes calls_type: "\<And>t. balanced (transformType tc t)"
    and calls_sized: "\<And>t b. balanced (transformSizedType tc t b)"
    and calls_function: "\<And>s ts b fs. rooted_state (fs_state s) \<Longrightarrow> balanced (transformFunction tc s ts b fs)"
    and calls_trans: "\<And>n. balanced (trans tc n)"
    and calls_identifier: "\<And>x gs u. keeps rooted_store (getFromIdentifier tc x gs u)"
    and calls_index: "\<And>b i s. keeps (\<lambda>r. rooted_store (fst r)) (getFromIndex tc b i s)"
    and calls_method: "\<And>s n. rooted_state s \<Longrightarrow> balanced (transMethod tc s n)"
    and calls_class: "\<And>u s r. rooted_type s \<Longrightarrow> balanced (transformClass tc u s r)"
    and calls_enum: "\<And>u s r. rooted_type s \<Longrightarrow> balanced (transformEnum tc u s r)"
    and calls_extension: "\<And>n u. balanced (transformTypeExtension tc n u)"
begin

lemma bind_identifier: "(\<And>st. rooted_store st \<Longrightarrow> balanced (f st)) \<Longrightarrow> balanced (bindC (getFromIdentifier tc x gs u) f)"
  by (rule balanced_keeps [OF calls_identifier])

lemma bind_index: "(\<And>r. rooted_store (fst r) \<Longrightarrow> balanced (f r)) \<Longrightarrow> balanced (bindC (getFromIndex tc b i s) f)"
  by (rule balanced_keeps [OF calls_index])

lemmas calls_kept = keeps_balanced [OF calls_identifier] keeps_balanced [OF calls_index]

lemmas first_rules = bind_identifier bind_index bind_states calls_type calls_sized calls_trans calls_extension

subsection \<open>Types\<close>

lemma run_balanced: "balanced (run tc n)"
  unfolding run_def by (intro first_rules balanced_intros)

lemma valueC_balanced: "balanced (valueC tc n)"
  unfolding valueC_def by (intro first_rules balanced_intros)

lemma blockC_balanced: "balanced (blockC tc n)"
  unfolding blockC_def by (intro balanced_cases balanced_intros valueC_balanced)

lemma ptr_type_balanced: "balanced (ptr_type tc t)"
  unfolding ptr_type_def by (intro first_rules balanced_intros)

lemma ptr_sized_balanced: "balanced (ptr_sized tc t b)"
  unfolding ptr_sized_def by (intro first_rules balanced_intros)

lemmas node_rules = run_balanced valueC_balanced blockC_balanced ptr_type_balanced ptr_sized_balanced

lemma sized_type_balanced: "balanced (sized_type tc t b)"
  unfolding sized_type_def by (intro first_rules balanced_cases balanced_intros)

lemma generic_tests_balanced: "balanced (generic_tests tc tests g)"
  by (induction tests arbitrary: g) (auto intro!: calls_type balanced_intros balanced_cases)

lemma executeGenericTests_balanced: "balanced (executeGenericTests tc c g)"
  unfolding executeGenericTests_def by (intro balanced_cases balanced_intros generic_tests_balanced)

lemma bind_generics_balanced: "balanced (bind_generics tc b ps ts)"
proof (induction ts arbitrary: ps)
  case (Cons t ts)
  then show ?case by (cases ps) (auto intro!: balanced_intros executeGenericTests_balanced)
qed (cases ps; simp add: balanced_intros)

lemma bind_defaults_balanced: "balanced (bind_defaults tc ps)"
  by (induction ps) (auto intro!: balanced_intros calls_type executeGenericTests_balanced)

lemma one_generic_balanced: "balanced (one_generic t)"
  unfolding one_generic_def by (intro balanced_cases balanced_intros)

lemma transformSpecialType_balanced: "balanced (transformSpecialType tc t)"
  unfolding transformSpecialType_def
  by (intro first_rules balanced_cases balanced_intros one_generic_balanced)

lemmas type_rules = sized_type_balanced executeGenericTests_balanced bind_generics_balanced bind_defaults_balanced
  transformSpecialType_balanced

subsection \<open>Overloads\<close>

lemma deduce_balanced: "balanced (deduceFunctionType tc g as ts gs ds)"
  unfolding deduceFunctionType_def by (intro first_rules balanced_cases balanced_intros)

lemma deduce_generics_balanced: "balanced (deduce_generics tc as ts gs ps ds n)"
  by (induction ps arbitrary: ds n) (auto intro!: balanced_intros balanced_cases deduce_balanced)

lemma collect_one_keeps:
  "rooted_state (fs_state s) \<Longrightarrow> keeps (list_all (\<lambda>x. rooted_candidate (fst x))) (collect_one tc ts gs b s)"
  unfolding collect_one_def deduceFunction_def
  by (intro keeps_any keeps_cases keeps_return keeps_fail balanced_intros calls_type deduce_generics_balanced)
    (simp_all add: rooted_candidate_def)

lemma collect_keeps:
  "list_all (\<lambda>s. rooted_state (fs_state s)) os \<Longrightarrow> keeps (list_all (\<lambda>x. rooted_candidate (fst x))) (collect tc ts gs b os)"
proof (induction os)
  case (Cons s os)
  then have "rooted_state (fs_state s)" by simp
  with Cons show ?case
    by (auto intro!: keeps_bind [OF collect_one_keeps] keeps_return intro: keeps_bind)
qed (simp add: keeps_return)

lemma fit_arguments_balanced: "balanced (fit_arguments tc b ts n ps i f)"
  by (induction ps arbitrary: i f) (auto intro!: balanced_intros calls_sized)

lemma compare_one_keeps:
  "rooted_selection s \<Longrightarrow> rooted_candidate x \<Longrightarrow> keeps rooted_selection (compare_one tc b ts is x s)"
  unfolding compare_one_def
  by (intro keeps_any keeps_cases keeps_return keeps_lift balanced_intros balanced_stacked fit_arguments_balanced)
    (auto simp: rooted_candidate_def intro: take_generic_rooted take_fitting_rooted)

lemma compare_all_keeps:
  "rooted_selection s \<Longrightarrow> list_all rooted_candidate xs \<Longrightarrow> keeps rooted_selection (compare_all tc b ts is xs s)"
  by (induction xs arbitrary: s) (auto intro!: keeps_return keeps_bind [OF compare_one_keeps])

lemma getBestFittingFunction_keeps:
  assumes "list_all (\<lambda>s. rooted_state (fs_state s)) os"
  shows "keeps (\<lambda>(x, r). pred_option rooted_candidate x) (getBestFittingFunction tc os ts gs b)"
  unfolding getBestFittingFunction_def
proof (rule keeps_bind [OF collect_keeps [OF assms]])
  fix found :: "(candidate \<times> int) list"
  assume "list_all (\<lambda>x. rooted_candidate (fst x)) found"
  then have "list_all rooted_candidate (map fst found)" by (simp add: list_all_iff)
  then have "keeps rooted_selection (compare_all tc b ts (map snd found) (map fst found) no_selection)"
    by (intro compare_all_keeps) (simp_all add: rooted_selection_def no_selection_def)
  then show "keeps (\<lambda>(x, r). pred_option rooted_candidate x)
      (bindC (compare_all tc b ts (map snd found) (map fst found) no_selection) (\<lambda>s. liftC (pick_overload s)))"
    by (rule keeps_bind) (auto intro!: keeps_lift simp: pred_option_def dest: pick_overload_rooted)
qed

lemma getFunction_call_balanced:
  assumes "rooted_store st"
  shows "balanced (getFunction_call tc st name ts gs b h)"
  unfolding getFunction_call_def
proof (rule balanced_keeps [OF getBestFittingFunction_keeps])
  show "list_all (\<lambda>s. rooted_state (fs_state s)) (case st_overloads st of Some os \<Rightarrow> os | None \<Rightarrow> [])"
    using assms by (simp add: rooted_store_def split: option.splits)
next
  fix x :: "candidate option \<times> FunctionFetchResponse"
  assume "case x of (y, r) \<Rightarrow> pred_option rooted_candidate y"
  then show "balanced (case x of (best, res) \<Rightarrow> case res of
       Ok \<Rightarrow> bindC (derefC best) (\<lambda>(fn, args).
         bindC (transformFunction tc fn args False (case st_functions st of Some fs \<Rightarrow> fs | None \<Rightarrow> [])) (\<lambda>i.
         bindC (checkIfContextEqual name (st_canBePrivate st) i) (\<lambda>j. returnC (IrFunc j))))
     | NoMatchesFound \<Rightarrow> no_match name st ts h
     | AmbiguityConflict \<Rightarrow>
         if h \<and> ts = [] then failC (Undefined ''vector index'')
         else errorC TYPE_ERROR (''Ambiguous function call to '' @ quoted name @ '' found!''))"
    by (cases x; cases "fst x"; cases "snd x")
      (auto simp: rooted_candidate_def derefC_def bindC_simps intro!: balanced_intros calls_function)
qed

subsection \<open>Lookup\<close>

lemma alias_balanced: "rooted_type s \<Longrightarrow> balanced (transformTypeAlias tc u s r)"
  unfolding transformTypeAlias_def
  by (auto simp: rooted_type_def intro!: balanced_intros balanced_cases calls_type type_rules balanced_stacked split: node.splits)

lemma transformTypeFromBase_balanced: "rooted_type s \<Longrightarrow> balanced (transformTypeFromBase tc u s r)"
  unfolding transformTypeFromBase_def
  by (auto simp: Let_def intro!: balanced_intros alias_balanced calls_class calls_enum split: node.splits option.splits)

lemma typeGenericsMatch_balanced: "balanced (typeGenericsMatch tc r t)"
  unfolding typeGenericsMatch_def by (intro calls_type balanced_intros)

lemma matching_type_balanced: "balanced (matching_type tc r is)"
  by (induction "is") (auto simp: item_type_def intro!: balanced_intros balanced_cases typeGenericsMatch_balanced)

lemma search_names_keeps:
  "(\<And>u. keeps (pred_option P) (f u)) \<Longrightarrow> keeps (pred_option P) (search_names f us)"
  by (induction us) (auto intro!: keeps_return keeps_bind keeps_option)

lemma search_names_balanced: "(\<And>u. balanced (f u)) \<Longrightarrow> balanced (search_names f us)"
  by (induction us) (auto intro!: balanced_intros balanced_cases)

lemma nothing_rooted [simp]: "rooted_store nothing_found"
  by (simp add: rooted_store_def nothing_found_def)

lemma store_rooted [simp]:
  "rooted_store (st\<lparr>st_value := v\<rparr>) = rooted_store st" "rooted_store (st\<lparr>st_type := t\<rparr>) = rooted_store st"
  "rooted_store (st\<lparr>st_functions := fs\<rparr>) = rooted_store st" "rooted_store (st\<lparr>st_module := m\<rparr>) = rooted_store st"
  "rooted_store (st\<lparr>st_canBePrivate := b\<rparr>) = rooted_store st"
  by (simp_all add: rooted_store_def)

lemma keeps_getFunction:
  "keeps (\<lambda>fs. list_all (\<lambda>f. rooted_state (fs_state f)) (case fs of None \<Rightarrow> [] | Some l \<Rightarrow> l))
     (getC (\<lambda>c. getFunction name (ctx_cache c)))"
  by (simp add: keeps_def balanced_get yields_getFunction)

lemma keeps_getCachedType:
  "keeps (\<lambda>t. pred_option rooted_type t) (getC (\<lambda>c. getCachedType u (ctx_cache c)))"
  by (rule keeps_getC) (auto simp: rooted_def pred_option_def dest: rooted_getCachedType)

lemmas keeps_found = keeps_bind [OF keeps_getCachedType] keeps_bind [OF keeps_getFunction]

lemma identifier_in_cache_keeps: "keeps (pred_option rooted_store) (identifier_in_cache tc x gs u)"
  unfolding identifier_in_cache_def
  by (intro keeps_found keeps_any keeps_cases keeps_return balanced_intros matching_type_balanced
      transformTypeFromBase_balanced)
    (auto simp: rooted_store_def nothing_found_def pred_option_def)

lemma item_store_keeps: "keeps rooted_store (item_store tc gs i)"
proof (cases i)
  case (ItemAlias a)
  show ?thesis
  proof (cases "\<exists>b j s. a = Index b j s")
    case True
    then obtain b j s where "a = Index b j s" by blast
    then show ?thesis using ItemAlias
      by (auto simp: item_store_def intro!: keeps_any balanced_intros keeps_prod keeps_bind [OF calls_index] keeps_return)
  next
    case False
    then have "item_store tc gs i = (case identifier_of a of
        Some (name, _) \<Rightarrow> getFromIdentifier tc name gs [] | None \<Rightarrow> failC AssertFail)"
      using ItemAlias by (cases a) (simp_all add: item_store_def)
    then show ?thesis by (auto intro!: keeps_option keeps_prod calls_identifier keeps_fail)
  qed
qed (simp_all add: item_store_def keeps_return keeps_fail)

lemma get_from_identifier_keeps: "keeps rooted_store (get_from_identifier tc x gs u)"
  unfolding get_from_identifier_def
  by (intro keeps_any [OF balanced_lookups(1)] keeps_option item_store_keeps keeps_if keeps_return
      keeps_bind [OF search_names_keeps [OF identifier_in_cache_keeps]] keeps_any balanced_intros balanced_if type_rules)
    (auto simp: pred_option_def)

lemma builtin_balanced: "balanced (builtin_uuid tc t)"
  unfolding builtin_uuid_def getBuiltinTypeUUID_def by (intro balanced_cases balanced_intros calls_type)

lemma get_from_type_keeps: "keeps rooted_store (get_from_type tc x gs b t v)"
  unfolding get_from_type_def Let_def
  by (intro keeps_option keeps_bind [OF get_from_identifier_keeps] keeps_any keeps_if keeps_return keeps_fail
      balanced_cases balanced_intros builtin_balanced)
    (simp_all add: rooted_store_def nothing_found_def)

lemma get_from_module_keeps: "keeps rooted_store (get_from_module tc x gs m)"
  unfolding get_from_module_def Let_def
  by (intro keeps_option keeps_bind [OF get_from_identifier_keeps] keeps_any keeps_if keeps_return keeps_fail
      balanced_cases balanced_intros) simp_all

lemma member_of_keeps:
  assumes "keeps (\<lambda>r. rooted_store (fst r)) missing"
  shows "keeps (\<lambda>r. rooted_store (fst r)) (member_of tc x gs b missing st)"
  unfolding member_of_def
  by (intro keeps_option keeps_if keeps_fail keeps_bind [OF get_from_type_keeps] keeps_bind [OF get_from_module_keeps]
      keeps_any keeps_return balanced_intros assms) simp_all

lemma get_from_index_keeps: "keeps (\<lambda>r. rooted_store (fst r)) (get_from_index tc b i s)"
proof -
  have part: "keeps (\<lambda>r. rooted_store (fst r)) (case b of
      Index b i s \<Rightarrow> bindC (getFromIndex tc b i s) (\<lambda>(st, _). member_of tc name gs s0 (failC null_pointer) st)
    | _ \<Rightarrow> if is_TypeRef b then
             bindC (sized_type tc b False) (\<lambda>t.
             if \<not> s0 then errorC TYPE_ERROR ''Cant use type references for method calls / accesses!''
             else bindC (get_from_type tc name gs s0 t None) (\<lambda>r. returnC (r, None)))
           else if \<not> s0 then
             bindC (bindC (trans tc b) derefC) (\<lambda>v. bindC (typeC v) (\<lambda>t.
             bindC (get_from_type tc name gs s0 t (Some v)) (\<lambda>r. returnC (r, Some v))))
           else errorC SYNTAX_ERROR ''Static acces/method call can only be used with indentifiers!'')" for name gs s0
    by (cases b) (auto intro!: keeps_bind [OF calls_index] keeps_prod member_of_keeps keeps_fail keeps_any type_rules
        keeps_bind [OF get_from_type_keeps] keeps_return calls_trans balanced_intros)
  show ?thesis
    unfolding get_from_index_def
    by (intro keeps_any [OF balanced_deref] keeps_prod keeps_option part keeps_bind [OF calls_identifier] member_of_keeps keeps_fail)
qed

lemma cached_reference_balanced: "balanced (cached_reference tc r u)"
  unfolding cached_reference_def
  by (intro bind_getCachedType balanced_cases balanced_intros matching_type_balanced transformTypeFromBase_balanced) simp_all

lemma named_type_balanced: "balanced (named_type tc n)"
  unfolding named_type_def as_type_def
  by (auto intro!: bind_identifier bind_index balanced_intros balanced_cases split: node.splits)

lemma reference_by_name_balanced: "balanced (reference_by_name tc n)"
  unfolding reference_by_name_def Let_def
  by (intro named_type_balanced search_names_balanced cached_reference_balanced balanced_cases balanced_intros)

lemma transform_type_balanced: "balanced (transform_type tc n)"
proof -
  have builtin: "balanced (builtin_class tc x r)" for x r
    unfolding builtin_class_def by (intro calls_type balanced_intros)
  have internal: "balanced (transform_internal tc p)" for p
    unfolding transform_internal_def by (intro builtin balanced_cases balanced_intros) (simp add: same_place_def)
  show ?thesis
    unfolding transform_type_def Let_def
    by (auto intro!: calls_type calls_trans builtin internal type_rules reference_by_name_balanced balanced_intros
        balanced_cases split: node.splits)
qed

subsection \<open>Functions\<close>

lemmas lookup_rules = getFunction_call_balanced transform_type_balanced calls_kept

lemma getLLVMBody_balanced: "balanced (getLLVMBody tc s ts)"
proof (induction "length s" arbitrary: s ts rule: less_induct)
  case less
  then show ?case
    by (subst getLLVMBody.simps)
      (intro balanced_cases balanced_intros calls_type; auto intro: after_access_length code_part_length)
qed

lemma member_assignment_balanced: "balanced (member_assignment tc x e)"
  unfolding member_assignment_def by (intro node_rules balanced_intros)

lemma field_assignments_balanced: "balanced (field_assignments tc fs)"
  by (induction fs) (auto intro!: member_assignment_balanced balanced_intros balanced_cases)

lemma super_call_balanced: "balanced (super_call tc as ob)"
  unfolding super_call_def
  by (intro balanced_if balanced_bind first_rules balanced_intros)
    (auto intro!: balanced_intros split: option.splits ir_value.splits call_kind.splits)

lemma transformConstructor_balanced: "balanced (transformConstructor tc b as is)"
  unfolding transformConstructor_def
  by (intro balanced_cases balanced_intros super_call_balanced field_assignments_balanced member_assignment_balanced)

lemma one_argument_balanced: "balanced (one_argument tc d p)"
  unfolding one_argument_def by (intro balanced_cases node_rules balanced_intros)

lemma function_header_balanced: "balanced (function_header tc n d ts b)"
  unfolding function_header_def
  by (intro balanced_cases node_rules type_rules one_argument_balanced balanced_intros)

lemma constructor_part_balanced: "balanced (constructor_part tc i n)"
  unfolding constructor_part_def
  by (auto intro!: balanced_intros transformConstructor_balanced split: node.splits)

lemma function_body_balanced: "balanced (function_body tc i n d body t as)"
  unfolding function_body_def
  by (intro balanced_cases node_rules constructor_part_balanced balanced_intros)

lemma finish_function_balanced: "balanced (finish_function tc i n d t as)"
proof -
  have llvm: "balanced (bindC (getLLVMBody tc body us) (\<lambda>cs. modifyC (\<lambda>c. c\<lparr>llvmBodies := (llvmBodies c)(i \<mapsto> cs)\<rparr>)))" for body us
    by (intro balanced_bind getLLVMBody_balanced balanced_modify) (simp add: same_place_def)
  show ?thesis
    unfolding finish_function_def
    by (auto intro!: function_body_balanced llvm balanced_intros split: option.splits node.splits)
qed

lemma transform_function_balanced:
  assumes "rooted_state (fs_state s)"
  shows "balanced (transform_function tc s ts b os)"
  unfolding transform_function_def
  by (intro balanced_cases balanced_stacked function_header_balanced finish_function_balanced balanced_intros assms)
    (simp_all add: same_place_def assms)

lemma transformMainFunction_balanced: "balanced (transformMainFunction tc n d)"
  unfolding transformMainFunction_def
  by (intro balanced_cases first_rules node_rules calls_function balanced_intros) (simp_all add: same_place_def)

lemma define_function_balanced: "rooted_state s \<Longrightarrow> balanced (define_function tc n d s)"
  unfolding define_function_def
  by (intro balanced_cases first_rules node_rules calls_function transformMainFunction_balanced balanced_intros)
    (simp_all add: rooted_setFunction)

lemma tvisit_FunctionDef_balanced: "balanced (tvisit_FunctionDef tc own n)"
  unfolding tvisit_FunctionDef_def
  by (intro balanced_cases bind_definition_state first_rules define_function_balanced balanced_intros)

lemma run_member_balanced: "rooted_member m \<Longrightarrow> balanced (run_member tc m)"
  unfolding run_member_def rooted_member_def
  by (intro balanced_option node_rules balanced_intros calls_method) simp

lemma run_members_balanced: "(\<And>m. m \<in> set ms \<Longrightarrow> rooted_member m) \<Longrightarrow> balanced (forC (run_member tc) ms)"
  by (intro forC_balanced run_member_balanced)

subsection \<open>Classes\<close>

lemma stacked_seq: "stacked m \<Longrightarrow> stacked n \<Longrightarrow> stacked (seqC m n)"
  unfolding seqC_def by (rule stacked_bind)

lemmas stacked_rules = stacked_seq stacked_bind stacked_withScope stacked_setCurrentClass balanced_stacked

lemma run_all_balanced: "balanced (forC (run tc) ns)"
  by (intro node_rules balanced_intros)

lemma generate_equalizers_balanced: "balanced (generate_equalizers tc name t)"
  unfolding generate_equalizers_def generate_equalizer_def
  by (intro balanced_cases node_rules balanced_intros)

lemma new_type_generics_balanced: "balanced (new_type_generics tc u t ps ts p)"
  unfolding new_type_generics_def transform_defaults_def
  by (intro type_rules calls_type balanced_intros)

lemma implementTypes_balanced: "balanced (implementTypes tc t rs)"
  unfolding implementTypes_def interface_of_def addImpl_def
  by (intro balanced_cases calls_type balanced_intros)

lemma parent_class_balanced: "balanced (parent_class tc e)"
  unfolding parent_class_def by (intro balanced_cases calls_sized balanced_intros)

lemma add_member_balanced: "balanced (add_member tc b t v)"
  unfolding add_member_def add_field_def
  by (intro balanced_if balanced_bind calls_trans balanced_option calls_sized balanced_intros)
    (auto intro!: balanced_intros split: option.splits ir_value.splits)

lemma declare_method_balanced: "rooted_member m \<Longrightarrow> balanced (declare_method tc t m)"
  unfolding declare_method_def by (intro run_member_balanced balanced_intros)

lemma declare_methods_balanced: "(\<And>m. m \<in> set ms \<Longrightarrow> rooted_member m) \<Longrightarrow> balanced (forC (declare_method tc t) ms)"
  by (intro forC_balanced declare_method_balanced)

lemma given_generics_balanced: "balanced (given_generics tc r)"
  unfolding given_generics_def by (intro balanced_cases calls_type balanced_intros)

lemmas class_rules = run_all_balanced generate_equalizers_balanced new_type_generics_balanced implementTypes_balanced
  parent_class_balanced add_member_balanced given_generics_balanced

lemmas member_rules = declare_methods_balanced run_members_balanced

lemma class_members_stacked:
  "(\<And>m. m \<in> set ms \<Longrightarrow> rooted_member m) \<Longrightarrow> stacked (class_members k tc name ms vs ts kind rs h attrs t p)"
  unfolding class_members_def Let_def
  by (intro stacked_rules class_rules member_rules balanced_intros)

lemma transform_class_balanced:
  assumes "rooted_type s"
  shows "balanced (transform_class k tc u s r)"
proof (cases "ts_type s")
  case (DefinedTypeDef x1 x2 x3 x4 x5 x6 x7 x8 x9 x10 x11 x12)
  have "rooted_state (ts_state s)" using assms by (simp add: rooted_type_def)
  then show ?thesis
    unfolding transform_class_def DefinedTypeDef node.case
    by (intro balanced_bind class_rules balanced_withState stacked_seq stacked_bind stacked_withScope
        stacked_setCurrentClass class_members_stacked all_members_rooted [OF assms] balanced_stacked balanced_intros)
qed (simp_all add: transform_class_def balanced_fail)

lemma add_enum_field_balanced: "balanced (add_enum_field tc t f)"
  unfolding add_enum_field_def by (intro calls_type balanced_intros)

lemma transform_enum_members_stacked:
  "(\<And>m. m \<in> set ms \<Longrightarrow> rooted_member m) \<Longrightarrow> stacked (transform_enum_members tc name fs ms t b)"
  unfolding transform_enum_members_def
  by (intro stacked_rules class_rules member_rules add_enum_field_balanced balanced_intros)

lemma transform_enum_balanced:
  assumes "rooted_type s"
  shows "balanced (transform_enum tc u s r)"
proof (cases "ts_type s")
  case (EnumTypeDef x1 x2 x3 x4 x5 x6 x7 x8)
  have "rooted_state (ts_state s)" using assms by (simp add: rooted_type_def)
  then show ?thesis
    unfolding transform_enum_def EnumTypeDef node.case
    by (intro balanced_bind class_rules balanced_withState stacked_seq stacked_bind stacked_withScope
        stacked_setCurrentClass transform_enum_members_stacked all_members_rooted [OF assms] balanced_stacked balanced_intros)
qed (simp_all add: transform_enum_def balanced_fail)

lemma tvisit_DefinedTypeDef_balanced: "balanced (tvisit_DefinedTypeDef tc n name b attrs)"
  unfolding tvisit_DefinedTypeDef_def
  by (intro balanced_cases bind_store_of first_rules calls_class balanced_intros) simp_all

lemma tvisit_EnumTypeDef_balanced: "balanced (tvisit_EnumTypeDef tc n name b)"
  unfolding tvisit_EnumTypeDef_def
  by (intro balanced_cases bind_store_of first_rules calls_enum balanced_intros) simp_all

lemma tvisit_TypeAlias_balanced: "balanced (tvisit_TypeAlias tc n name a gs p)"
  unfolding tvisit_TypeAlias_def
  by (intro balanced_cases first_rules balanced_intros)

subsection \<open>Extensions of types\<close>

lemma extension_interface_balanced: "balanced (extension_interface tc r)"
  unfolding extension_interface_def by (intro balanced_cases calls_type balanced_intros)

lemma interface_ref_balanced: "balanced (interface_ref tc r)"
  unfolding interface_ref_def by (intro extension_interface_balanced balanced_intros)

lemma extend_named_balanced: "balanced (extend_named tc ns rs t)"
  unfolding extend_named_def
  by (rule balanced_restored_class)
    (intro classless_rules ends_rules run_all_balanced extension_interface_balanced balanced_intros)+

lemma extend_definition_keeps: "keeps rooted_state (extend_definition tc u n ns rs)"
proof -
  have "keeps rooted_state (bindC saveState (\<lambda>s. seqC (add_methods u ns s) (
      bindC (mapC (interface_ref tc) rs) (\<lambda>is. seqC (add_impls u is) (returnC s)))))"
    by (rule keeps_bind [OF keeps_saveState])
      (intro keeps_seq keeps_any keeps_return balanced_intros interface_ref_balanced)
  moreover have "keeps rooted_state (bindC saveState (\<lambda>s. seqC (add_methods u ns s) (
      seqC (forC (\<lambda>r. bindC (interface_ref tc r) (\<lambda>i. add_impls u [i])) rs) (returnC s))))"
    by (rule keeps_bind [OF keeps_saveState])
      (intro keeps_seq keeps_any keeps_return balanced_intros interface_ref_balanced)
  ultimately show ?thesis
    unfolding extend_definition_def by (cases n) (auto intro: keeps_fail)
qed

lemma extend_instance_classless:
  assumes "\<And>m. m \<in> set ms \<Longrightarrow> rooted_member m"
  shows "classless (extend_instance tc rs ms i)"
proof (cases i)
  case (ItemType t)
  show ?thesis
    unfolding extend_instance_def ItemType Item.case
    by (intro classless_balanced [OF run_members_balanced [OF assms]] classless_rules classless_bind
        extension_interface_balanced balanced_intros)
qed (simp_all add: extend_instance_def classless_balanced balanced_fail)

lemma extend_instances_balanced:
  assumes "\<And>m. m \<in> set ms \<Longrightarrow> rooted_member m"
  shows "balanced (extend_instances tc u rs ms)"
  unfolding extend_instances_def
proof (rule balanced_restored_class)
  show "classless (bindC (getTransformedTypeC u) (\<lambda>types. seqC (forC (extend_instance tc rs ms)
      (case types of None \<Rightarrow> [] | Some ts \<Rightarrow> ts)) (setCurrentClass t)))" for t
    by (intro extend_instance_classless assms classless_bind classless_rules balanced_intros)
  show "ends_in_class t (bindC (getTransformedTypeC u) (\<lambda>types. seqC (forC (extend_instance tc rs ms)
      (case types of None \<Rightarrow> [] | Some ts \<Rightarrow> ts)) (setCurrentClass t)))" for t
    by (rule ends_in_class_bind, rule ends_in_class_seq, rule ends_in_class_set)
qed

lemma transform_type_extension_balanced: "balanced (transform_type_extension tc n u)"
proof -
  have found: "balanced (bindC (extend_definition tc v d ns rs) (\<lambda>s. extend_instances tc v rs (map (\<lambda>f. (f, Some s)) ns)))"
    for v d ns rs
    by (rule balanced_keeps [OF extend_definition_keeps]) (auto intro!: extend_instances_balanced simp: rooted_member_def)
  show ?thesis
  proof (cases n)
    case (DefinedTypeDef name fs vs ts ex kind refs h gs p cm attrs)
    show ?thesis
      unfolding transform_type_extension_def DefinedTypeDef node.case
      by (intro balanced_cases found extend_named_balanced balanced_intros)
  qed (simp_all add: transform_type_extension_def balanced_fail)
qed

subsection \<open>Modules and macros\<close>

lemma tvisit_Namespace_balanced: "balanced (tvisit_Namespace tc name body)"
proof -
  have inner: "balanced (seqC enter_module (seqC m leave_module))" if "balanced m" for m
    using that by (rule balanced_inner_module)
  have first: "balanced (seqC enter_module (seqC (in_module tc m ns) (seqC (add_module m) (seqC (addItem name i) leave_module))))" for m ns i
    unfolding seqC_assoc [of "add_module m"] seqC_assoc [of "in_module tc m ns"]
    by (intro inner balanced_in_module run_balanced balanced_intros)
  show ?thesis
    unfolding tvisit_Namespace_def
    by (intro balanced_cases first inner balanced_in_module run_balanced balanced_intros)
qed

lemma tvisit_Macro_balanced: "balanced (tvisit_Macro n name as b attrs)"
  unfolding tvisit_Macro_def
  by (intro balanced_cases balanced_intros) (simp add: same_place_def)

lemma visitGlobal_kept: "kept (visitGlobal tc ns)"
  unfolding visitGlobal_def by (intro kept_withScope balanced_stacked run_all_balanced balanced_intros)

lemma load_module_kept: "kept (load_module k tc h p m)"
  unfolding load_module_def
  by (auto intro!: kept_bind kept_seq kept_simple visitGlobal_kept split: option.splits)

lemma import_module_balanced: "balanced (import_module k tc h p n u)"
  unfolding import_module_def
  by (intro balanced_cases balanced_withState_kept load_module_kept balanced_intros) (simp add: import_state_def)

lemma tvisit_ImportStmt_balanced: "balanced (tvisit_ImportStmt k tc h path package vs symbol attrs)"
  unfolding tvisit_ImportStmt_def
  by (intro balanced_cases import_module_balanced balanced_intros)

subsection \<open>Expressions\<close>

lemma tvisit_Identifier_balanced: "balanced (tvisit_Identifier tc x)"
  unfolding tvisit_Identifier_def
  by (intro bind_identifier balanced_option)
    (auto intro!: balanced_intros balanced_cases split: ir_value.splits)

lemma tvisit_GenericIdentifier_balanced: "balanced (tvisit_GenericIdentifier tc x gs)"
  unfolding tvisit_GenericIdentifier_def
  by (intro balanced_bind [OF balanced_map [OF calls_type]] bind_identifier balanced_cases getFunction_call_balanced balanced_intros)
    simp_all

lemma base_is_module_balanced: "balanced (base_is_module tc b)"
  unfolding base_is_module_def
  by (auto intro!: bind_identifier bind_index balanced_intros split: option.splits node.splits)

lemma called_base_balanced: "balanced (called_base tc b)"
  unfolding called_base_def
  by (auto intro!: bind_identifier bind_index calls_type balanced_intros split: option.splits node.splits)

lemma index_function_balanced: "rooted_store st \<Longrightarrow> balanced (bindC (getFunction_call tc st name ts gs b h) f)"
  if "\<And>v. balanced (f v)" for f :: "ir_value \<Rightarrow> 'a tr"
  using that by (intro balanced_bind getFunction_call_balanced)

lemma tvisit_Index_balanced: "balanced (tvisit_Index tc b i s)"
  unfolding tvisit_Index_def
  by (intro balanced_bind [OF balanced_deref] balanced_prod bind_index balanced_option balanced_if index_function_balanced)
    (auto intro!: balanced_intros balanced_cases base_is_module_balanced split: ir_value.splits)

lemma tvisit_String_balanced: "balanced (tvisit_String tc s p)"
  unfolding tvisit_String_def
  by (intro balanced_if balanced_prod bind_index index_function_balanced balanced_intros)
    (auto intro!: balanced_intros split: ir_value.splits)

lemma tvisit_ConstantValue_balanced: "balanced (tvisit_ConstantValue tc h ty s p)"
  unfolding tvisit_ConstantValue_def tvisit_Number_def tvisit_Char_def
  by (cases ty) (auto intro!: tvisit_String_balanced balanced_intros balanced_cases)

lemma tvisit_Cast_balanced: "balanced (tvisit_Cast tc e t)"
  unfolding tvisit_Cast_def by (intro node_rules calls_sized balanced_intros)

subsection \<open>Calls\<close>

lemma argument_value_balanced: "balanced (argument_value tc n)"
  unfolding argument_value_def by (intro node_rules balanced_intros)

lemma called_member_balanced: "balanced (called_member tc b i s ts vs)"
  unfolding called_member_def
  by (intro balanced_bind [OF balanced_deref] balanced_prod bind_index balanced_bind [OF called_base_balanced]
      balanced_option index_function_balanced balanced_bind)
    (auto intro!: balanced_intros balanced_cases called_base_balanced getFunction_call_balanced split: ir_value.splits)

lemma callee_of_balanced: "balanced (callee_of tc f ts vs)"
  unfolding callee_of_def
  by (auto intro!: bind_identifier getFunction_call_balanced called_member_balanced calls_trans balanced_intros
      split: option.splits node.splits)

lemma default_argument_balanced: "balanced (default_argument tc a)"
  unfolding default_argument_def by (intro balanced_cases node_rules balanced_intros)

lemma default_arguments_balanced: "balanced (default_arguments tc f n)"
proof (cases f)
  case (IrFunc i)
  show ?thesis
    unfolding default_arguments_def IrFunc ir_value.case
    by (intro balanced_cases bind_getFunctionState default_argument_balanced balanced_stacked balanced_intros)
qed (simp_all add: default_arguments_def balanced_return)

lemma tvisit_FunctionCall_balanced: "balanced (tvisit_FunctionCall tc n f as)"
  unfolding tvisit_FunctionCall_def
  by (intro balanced_prod callee_of_balanced argument_value_balanced balanced_intros)
    (auto intro!: default_arguments_balanced balanced_intros split: ir_value.splits call_kind.splits)

lemma tvisit_BinaryOp_balanced: "balanced (tvisit_BinaryOp tc op l r m i)"
  unfolding tvisit_BinaryOp_def opt_operand_def
  by (intro balanced_cases node_rules balanced_intros)

lemma tvisit_NewInstance_balanced: "balanced (tvisit_NewInstance tc c e)"
  unfolding tvisit_NewInstance_def
  by (auto intro!: balanced_intros calls_trans calls_sized split: node.splits option.splits ir_value.splits ty.splits)

lemma lambda_argument_balanced: "balanced (lambda_argument tc p)"
  unfolding lambda_argument_def by (intro node_rules balanced_intros)

lemma tvisit_LambdaFunction_balanced: "balanced (tvisit_LambdaFunction tc h l n)"
proof (cases n)
  case (BodiedFunction b d)
  show ?thesis
    unfolding tvisit_LambdaFunction_def BodiedFunction node.case
    by (intro balanced_cases node_rules calls_type lambda_argument_balanced balanced_intros) (simp add: same_place_def)
qed (simp_all add: tvisit_LambdaFunction_def balanced_bind balanced_get balanced_if balanced_return balanced_fail)

subsection \<open>Macros and pseudo variables\<close>

lemma macro_type_balanced: "balanced (macro_type tc as)"
  unfolding macro_type_def by (intro calls_type balanced_intros)

lemma size_number_balanced: "balanced (size_number n)"
  unfolding size_number_def by (intro balanced_intros)

lemma pkg_balanced:
  "balanced (bindC (getC cur_module) (\<lambda>backup. bindC (macro_at p) (\<lambda>ins.
     seqC (set_module (mi_module ins)) (seqC (run tc e) (set_module backup)))))"
  unfolding macro_at_def getC_askC_swap
  by (intro balanced_bind balanced_ask balanced_other_module run_balanced)

lemma expand_macro_balanced: "balanced (expand_macro k tc h name as m body)"
  unfolding expand_macro_def
  by (auto intro!: balanced_intros balanced_cases pkg_balanced macro_type_balanced size_number_balanced run_balanced
      split: node.splits)

lemma transformMacro_balanced: "balanced (transformMacro k tc h name as m)"
  unfolding transformMacro_def
  by (auto intro!: balanced_intros balanced_cases expand_macro_balanced split: node.splits)

lemma tvisit_PseudoVariable_balanced: "balanced (tvisit_PseudoVariable k tc h n x as b)"
proof -
  have argument: "balanced (pseudo_argument tc x b a)" for a
    unfolding pseudo_argument_def by (intro balanced_cases node_rules balanced_intros)
  have macro: "balanced (pseudo_macro k tc h x as b)"
    unfolding pseudo_macro_def
    by (intro balanced_bind balanced_lookups balanced_option)
      (auto intro!: balanced_intros balanced_cases transformMacro_balanced split: Item.splits node.splits)
  show ?thesis
    unfolding tvisit_PseudoVariable_def
    by (intro balanced_cases argument macro node_rules balanced_intros)
qed

subsection \<open>Statements\<close>

lemma tvisit_Block_balanced: "balanced (tvisit_Block tc a ss)"
  unfolding tvisit_Block_def by (intro node_rules balanced_intros)

lemma tvisit_Conditional_balanced: "balanced (tvisit_Conditional tc c b e)"
  unfolding tvisit_Conditional_def by (intro node_rules balanced_intros)

lemma tvisit_WhileLoop_balanced: "balanced (tvisit_WhileLoop tc c b d f)"
  unfolding tvisit_WhileLoop_def by (intro balanced_cases node_rules balanced_intros)

lemma tvisit_ForLoop_balanced: "balanced (tvisit_ForLoop tc x e b)"
  unfolding tvisit_ForLoop_def by (rule run_balanced)

lemma tvisit_Raise_balanced: "balanced (tvisit_Raise tc e)"
  unfolding tvisit_Raise_def by (intro node_rules balanced_intros)

lemma tvisit_Return_balanced: "balanced (tvisit_Return tc e)"
  unfolding tvisit_Return_def by (intro balanced_cases node_rules balanced_intros)

lemma initialise_variable_balanced: "balanced (initialise_variable tc x e m b d)"
  unfolding initialise_variable_def by (intro node_rules balanced_intros)

lemma tvisit_VariableDecl_balanced: "balanced (tvisit_VariableDecl tc x e m t b)"
  unfolding tvisit_VariableDecl_def
  by (intro balanced_cases calls_sized initialise_variable_balanced balanced_intros)

lemma tvisit_TryCatch_balanced: "balanced (tvisit_TryCatch tc b cs)"
  unfolding tvisit_TryCatch_def catch_clause_def
  by (intro node_rules calls_sized balanced_intros)

lemma enum_case_balanced: "balanced (enum_case tc fs b)"
  unfolding enum_case_def by (intro balanced_cases node_rules balanced_intros)

lemma c_case_balanced: "balanced (c_case tc b)"
  unfolding c_case_def
  by (auto intro!: balanced_intros balanced_cases node_rules calls_trans split: option.splits node.splits ConstantType.splits)

lemma tvisit_Switch_balanced: "balanced (tvisit_Switch tc e cs b)"
  unfolding tvisit_Switch_def enum_switch_def c_switch_def
  by (intro balanced_cases node_rules enum_case_balanced c_case_balanced balanced_intros)

subsection \<open>Every node\<close>

lemmas visit_rules = tvisit_Block_balanced tvisit_ConstantValue_balanced tvisit_Cast_balanced tvisit_FunctionCall_balanced
  tvisit_NewInstance_balanced tvisit_Identifier_balanced tvisit_GenericIdentifier_balanced tvisit_PseudoVariable_balanced
  tvisit_Index_balanced tvisit_BinaryOp_balanced tvisit_LambdaFunction_balanced tvisit_VariableDecl_balanced
  tvisit_TypeAlias_balanced tvisit_DefinedTypeDef_balanced tvisit_EnumTypeDef_balanced tvisit_Switch_balanced
  tvisit_Raise_balanced tvisit_Conditional_balanced tvisit_TryCatch_balanced tvisit_ForLoop_balanced
  tvisit_WhileLoop_balanced tvisit_ImportStmt_balanced tvisit_Namespace_balanced tvisit_Return_balanced
  tvisit_Macro_balanced tvisit_FunctionDef_balanced

lemma dispatch_balanced: "balanced (dispatch k h tc n)"
  unfolding dispatch_def tvisit_LoopFlow_def
  by (cases n) (auto intro!: visit_rules balanced_intros)

lemma trans_node_balanced: "balanced (trans_node k h tc n)"
  unfolding trans_node_def when_configured_def by (intro balanced_cases dispatch_balanced balanced_intros)

lemma trans_method_balanced: "balanced (trans_method h tc s n)"
  unfolding trans_method_def when_configured_def by (intro balanced_cases tvisit_FunctionDef_balanced balanced_intros)

lemma call_step_contract: "transformer_calls (call_step k h tc)"
  by unfold_locales (auto simp: call_step_def intro: transform_type_balanced sized_type_balanced transform_function_balanced
    trans_node_balanced trans_method_balanced get_from_identifier_keeps get_from_index_keeps transform_class_balanced
    transform_enum_balanced transform_type_extension_balanced)

end

section \<open>The transformer keeps its contract\<close>

lemma exhausted_contract: "transformer_calls exhausted_calls"
  by unfold_locales (simp_all add: exhausted_calls_def Let_def balanced_fail keeps_fail)

lemma calls_of_contract: "transformer_calls (calls_of h k)"
  by (induction k) (simp_all add: exhausted_contract transformer_calls.call_step_contract)

interpretation transformer: transformer_calls "calls_of h k"
  by (rule calls_of_contract)

end
