(* ===== verification/Transform_Props.thy ===== *)
theory Transform_Props
  imports Transform_Contract Parser_Exec
begin

text \<open>
  What the transformer guarantees: the place in the program that every visit keeps, the context a compilation ends
  with, the bodies in LLVM code, the names of number types, integer literals, declared variables, switches over
  enumerations and imports.
\<close>

section \<open>The place in the program\<close>

text \<open>
  C33. Whatever node is visited - class extensions and imports included - in a context with a scope of the module below the
  global one, with whatever depth of recursion: a visit that succeeds leaves the module, the enclosing modules, the
  class and all scopes but the innermost as they were, and the innermost scope keeps its names; what has been saved for
  later still has a scope of its module.
\<close>

theorem visit_keeps_place:
  assumes "rooted c" "trans (calls_of h k) n c = Inr (v, c')"
  shows "cur_module c' = cur_module c \<and> uuidStack c' = uuidStack c \<and> currentClass c' = currentClass c
    \<and> tl (stack c') = tl (stack c) \<and> dom (hd (stack c)) \<subseteq> dom (hd (stack c')) \<and> rooted c'"
proof -
  have "balanced (trans (calls_of h k) n)" by (rule transformer.calls_trans)
  with assms have "rooted c'" "same_place c c'" "grows_top (stack c) (stack c')"
    unfolding balanced_def by blast+
  then show ?thesis
    by (auto simp: same_place_def grows_top_iff) blast
qed

definition sample_host :: host where
  "sample_host = \<lparr>os_name = ''linux'', version = ''0.0.5'', date = ''Jan 01 2024'', exe_folder = ''/usr/bin'', lib_folder = ''/lib'',
     cwd = ''/src'', packages_path = ''/src'', getenv = (\<lambda>_. None), read_file = (\<lambda>p. Some '' ''), access = (\<lambda>p. True),
     is_directory = (\<lambda>p. False), package_main = (\<lambda>p. Inr None), stod = (\<lambda>s. Inr 0), position = (\<lambda>n c. (1, 1)),
     source_path = (\<lambda>c. ''main.sn''), lambda_site = (\<lambda>n. ''main.sn@1'')\<rparr>"

definition transform_sample :: tctx where
  "transform_sample = (empty_context new_main_module False False)
     \<lparr>stack := [empty_scope, empty_scope(''Std'' \<mapsto> ItemModule core_module)]\<rparr>"

definition empty_namespace :: node where
  "empty_namespace = Namespace ''tools'' [] None no_attributes"

lemma empty_namespace_visited:
  assumes "generateFunction c = False" "stack c = s # ss" "s ''tools'' = None" "createIdentifierName ''tools'' True c = Inr (u, c)"
    "addModule u (new_Module (getNameWithBase ''tools'' c) u) (ctx_cache c) = Inr ch" "u \<noteq> []"
  shows "\<exists>c'. tvisit_Namespace tc ''tools'' [] c = Inr ((), c') \<and> hd (stack c') ''tools'' \<noteq> None"
  using assms
  by (simp add: tvisit_Namespace_def in_module_def new_Module_def
      enter_module_def leave_module_def set_module_def add_module_def askC_def cacheC_def seqC_def tr_defs res_simps
      getInCurrentScope_def currentScope_def withScopeC_def addScope_def delScope_def addItem_def getInScope_def)

lemma transform_sample_rooted: "rooted transform_sample"
  by (simp add: rooted_def transform_sample_def empty_context_def rooted_cache_def empty_cache_def)

theorem visit_keeps_place_witness:
  "\<exists>v c'. trans (calls_of sample_host 1) empty_namespace transform_sample = Inr (v, c')
     \<and> stack c' = [hd (stack c'), hd (tl (stack transform_sample))] \<and> hd (stack c') ''tools'' \<noteq> None
     \<and> cur_module c' = new_main_module \<and> uuidStack c' = []"
proof -
  have "\<exists>c'. tvisit_Namespace exhausted_calls ''tools'' [] transform_sample = Inr ((), c') \<and> hd (stack c') ''tools'' \<noteq> None"
    by (rule empty_namespace_visited [where u = "''$main.tools''"])
      (simp_all add: transform_sample_def empty_context_def empty_scope_def createIdentifierName_def CONST_PTR_def MUT_PTR_def
        INT_IMPL_def FUNC_IMPL_def new_main_module_def new_Module_def addModule_def empty_cache_def getModule_def Let_def)
  then obtain c' where c': "tvisit_Namespace exhausted_calls ''tools'' [] transform_sample = Inr ((), c')"
    "hd (stack c') ''tools'' \<noteq> None" by blast
  then have run: "trans (calls_of sample_host 1) empty_namespace transform_sample = Inr (last_value c', c')"
    by (simp add: call_step_def trans_node_def when_configured_def empty_namespace_def dispatch_def seqC_def askC_def tr_defs res_simps
        hasAttribute_def no_attributes_def)
  from visit_keeps_place [OF transform_sample_rooted run] c'(2) run
  show ?thesis
    by (cases "stack c'") (auto simp: transform_sample_def empty_context_def)
qed

section \<open>The context a compilation ends with\<close>

text \<open>The import of the core runs on the global scope alone: \<open>steady\<close> is the contract there.\<close>

definition steady :: "'a tr \<Rightarrow> bool" where
  "steady m \<longleftrightarrow> (\<forall>c a c'. m c = Inr (a, c') \<longrightarrow> stack c \<noteq> [] \<longrightarrow> rooted_cache (ctx_cache c) \<longrightarrow>
     length (stack c') = length (stack c) \<and> same_place c c' \<and> rooted_cache (ctx_cache c'))"

lemma steadyI:
  "(\<And>c a c'. m c = Inr (a, c') \<Longrightarrow> stack c \<noteq> [] \<Longrightarrow> rooted_cache (ctx_cache c) \<Longrightarrow>
     length (stack c') = length (stack c) \<and> same_place c c' \<and> rooted_cache (ctx_cache c')) \<Longrightarrow> steady m"
  by (simp add: steady_def)

lemma steady_bind:
  assumes "steady m" "\<And>a. steady (f a)"
  shows "steady (bindC m f)"
proof (rule steadyI)
  fix c b c'
  assume "bindC m f c = Inr (b, c')" and c: "stack c \<noteq> []" "rooted_cache (ctx_cache c)"
  then obtain a d where a: "m c = Inr (a, d)" and b: "f a d = Inr (b, c')" by (auto simp: tr_defs res_simps)
  from assms(1) a c have d: "length (stack d) = length (stack c)" "same_place c d" "rooted_cache (ctx_cache d)"
    unfolding steady_def by blast+
  with c(1) have "stack d \<noteq> []" by auto
  with assms(2) b d(3) have "length (stack c') = length (stack d)" "same_place d c'" "rooted_cache (ctx_cache c')"
    unfolding steady_def by blast+
  with d show "length (stack c') = length (stack c) \<and> same_place c c' \<and> rooted_cache (ctx_cache c')"
    using same_place_trans by auto
qed

lemma steady_simple:
  "steady (returnC a)" "steady (failC e)" "steady (errorC code msg)" "steady (getC f)" "steady (liftC r)" "steady (set_main b)"
  "steady (setCurrentPackagePath p)" "steady (getImportedModule p)" "steady (getItem name)" "steady (getInCurrentScope name)"
  "steady (addItem name i)"
  by (rule steadyI; auto simp: tr_defs res_simps set_main_def setCurrentPackagePath_def getImportedModule_def getItem_def
      getInCurrentScope_def currentScope_def addItem_def same_place_def split: list.splits if_splits)+

lemma steady_if: "steady m \<Longrightarrow> steady n \<Longrightarrow> steady (if b then m else n)"
  by simp

lemma steady_seq: "steady m \<Longrightarrow> steady n \<Longrightarrow> steady (seqC m n)"
  unfolding seqC_def by (rule steady_bind)

lemma steady_for: "(\<And>x. steady (f x)) \<Longrightarrow> steady (forC f xs)"
  by (induction xs) (auto intro: steady_bind steady_simple)

lemma steady_withState_kept:
  assumes "kept m" "s_stack s = []"
  shows "steady (withStateC s m)"
proof (rule steadyI)
  fix c a c'
  assume run: "withStateC s m c = Inr (a, c')" and c: "stack c \<noteq> []" "rooted_cache (ctx_cache c)"
  from run c(1) obtain d where "m (c\<lparr>stack := s_stack s @ [last (stack c)], cur_module := s_module s,
      uuidStack := s_uuidStack s, currentClass := s_currentClass s\<rparr>) = Inr (a, d)"
    and c': "c' = d\<lparr>stack := butlast (stack c) @ [last (stack d)], cur_module := cur_module c,
      uuidStack := uuidStack c, currentClass := currentClass c\<rparr>"
    by (rule withState_runs)
  with assms c(2) have "rooted_cache (ctx_cache d)" unfolding kept_def by fastforce
  with c' c(1) show "length (stack c') = length (stack c) \<and> same_place c c' \<and> rooted_cache (ctx_cache c')"
    by (simp add: same_place_def)
qed

lemma import_module_steady: "transformer_calls tc \<Longrightarrow> steady (import_module k tc h p n u)"
  unfolding import_module_def Let_def
  by (intro steady_bind steady_seq steady_simple steady_withState_kept transformer_calls.load_module_kept)
    (simp_all add: import_state_def)

lemma import_macro_steady: "steady (import_macro m)"
  unfolding import_macro_def by (intro steady_bind steady_if steady_simple)

lemma import_macros_steady: "steady (import_macros attrs m)"
  unfolding import_macros_def named_macro_def Let_def
  by (auto intro!: steady_bind steady_seq steady_for steady_simple import_macro_steady split: option.splits)

lemma createModuleAliases_steady: "steady (createModuleAliases as name)"
  unfolding createModuleAliases_def by (intro steady_for) (auto intro!: steady_bind steady_simple)

lemma tvisit_ImportStmt_steady:
  "transformer_calls tc \<Longrightarrow> steady (tvisit_ImportStmt k tc h path package vs symbol attrs)"
  unfolding tvisit_ImportStmt_def Let_def
  by (auto intro!: steady_bind steady_seq steady_simple import_module_steady import_macros_steady createModuleAliases_steady
      split: option.splits sum.splits)

lemma import_steady: "steady (run (calls_of h k) (ImportStmt path package vs symbol attrs))"
proof (cases k)
  case (Suc j)
  have "steady (tvisit_ImportStmt j (calls_of h j) h path package vs symbol attrs)"
    by (rule tvisit_ImportStmt_steady [OF calls_of_contract])
  then have "steady (trans_node j h (calls_of h j) (ImportStmt path package vs symbol attrs))"
    unfolding trans_node_def when_configured_def dispatch_def askC_def by (auto intro!: steady_bind steady_seq steady_simple)
  with Suc show ?thesis by (auto simp: run_def call_step_def intro!: steady_bind steady_simple)
qed (simp add: run_def exhausted_calls_def Let_def steady_bind steady_simple)

lemma core_interfaces_added:
  assumes "forC add_core_interface ns c = Inr (u, c')"
  shows "length (stack c') = length (stack c) \<and> same_place c c' \<and> ctx_cache c' = ctx_cache c"
  using assms
  by (induction ns arbitrary: c) (auto simp: add_core_interface_def addItem_def tr_defs res_simps same_place_def Let_def
      split: prod.splits list.splits if_splits dest!: meta_spec)

lemma steady_withScope:
  assumes "balanced m"
  shows "steady (withScopeC m)"
proof (rule steadyI)
  fix c a c'
  assume run: "withScopeC m c = Inr (a, c')" and c: "stack c \<noteq> []" "rooted_cache (ctx_cache c)"
  let ?c = "c\<lparr>stack := empty_scope # stack c\<rparr>"
  from run obtain d where d: "m ?c = Inr (a, d)" and c': "delScope d = Inr ((), c')"
    by (auto simp: withScopeC_def addScope_def tr_defs res_simps)
  from c have "rooted ?c" by (cases "stack c") (auto simp: rooted_def)
  with assms d have "rooted d" "same_place ?c d" "grows_top (empty_scope # stack c) (stack d)"
    by (fastforce simp: balanced_def)+
  with c' show "length (stack c') = length (stack c) \<and> same_place c c' \<and> rooted_cache (ctx_cache c')"
    by (auto simp: delScope_def grows_top_iff rooted_def same_place_def split: list.splits)
qed

lemma visitGlobal_steady: "transformer_calls tc \<Longrightarrow> steady (visitGlobal tc ns)"
  unfolding visitGlobal_def
  by (intro steady_withScope transformer_calls.run_all_balanced balanced_intros)

lemma new_context:
  assumes "new_TransformContext m tests benchmarks = Inr c"
  shows "length (stack c) = 1 \<and> cur_module c = m \<and> uuidStack c = [] \<and> currentClass c = None \<and> rooted_cache (ctx_cache c)"
proof -
  from assms obtain c1 c2 u where c1: "addItem ''void'' (ItemType (VoidTy False)) (empty_context m tests benchmarks) = Inr ((), c1)"
    and c2: "addItem ''Std'' (ItemModule core_module) c1 = Inr ((), c2)"
    and c: "forC add_core_interface [''Sized'', ''Numeric'', ''Callable''] c2 = Inr (u, c)"
    by (auto simp: new_TransformContext_def tr_defs res_simps)
  from core_interfaces_added [OF c] c1 c2 show ?thesis
    by (auto simp: addItem_def empty_context_def same_place_def rooted_cache_def empty_cache_def split: if_splits)
qed

lemma steady_run: "steady m \<Longrightarrow> m c = Inr (a, c') \<Longrightarrow> stack c \<noteq> [] \<Longrightarrow> rooted_cache (ctx_cache c) \<Longrightarrow>
    length (stack c') = length (stack c) \<and> same_place c c' \<and> rooted_cache (ctx_cache c')"
  unfolding steady_def by blast

lemma new_transformer:
  assumes "new_Transformer (calls_of h k) m p tests benchmarks = Inr c"
  shows "length (stack c) = 1 \<and> cur_module c = m \<and> uuidStack c = [CORE_UUID @ ''std''] \<and> currentClass c = None
    \<and> rooted_cache (ctx_cache c)"
proof -
  from assms obtain c1 where c1: "new_TransformContext m tests benchmarks = Inr c1"
    and run: "run (calls_of h k) (ImportStmt [''std''] ''std'' [] [] no_attributes)
      (c1\<lparr>currentPackagePath := p, uuidStack := uuidStack c1 @ [CORE_UUID @ ''std'']\<rparr>) = Inr ((), c)"
    by (auto simp: new_Transformer_def initializeCoreRuntime_def setCurrentPackagePath_def seqC_def tr_defs res_simps)
  from steady_run [OF import_steady run] new_context [OF c1] show ?thesis
    by (fastforce simp: same_place_def)
qed

text \<open>
  C34. A compilation that gets through the transformation ends where it began: on the global scope alone, in the main
  module and in no class, with the core as only enclosing module, whatever was imported on the way.
\<close>

theorem compilation_ends_where_it_began:
  assumes "compile_tree k h path tests benchmarks text = Inr (Some (c, ast))"
  shows "length (stack c) = 1 \<and> cur_module c = new_main_module \<and> currentClass c = None
    \<and> uuidStack c = [CORE_UUID @ ''std''] \<and> rooted_cache (ctx_cache c)"
proof -
  from assms obtain tree c1 u where
    c1: "new_Transformer (calls_of h k) new_main_module (parent_path path) tests benchmarks = Inr c1"
    and run: "visitGlobal (calls_of h k) tree c1 = Inr (u, c)"
    by (auto simp: compile_tree_def res_simps split: option.splits)
  from new_transformer [OF c1] steady_run [OF visitGlobal_steady [OF calls_of_contract] run]
  show ?thesis by (fastforce simp: same_place_def)
qed

lemma blank_tokens:
  "tokenize '' '' = Inr [\<lparr>tok_type = TK_EOF, tok_line = 1, tok_col = 2, tok_value = [], tok_comment = []\<rparr>]"
  by code_simp

lemma read_blank: "read_tree '' '' = Inr (Some [])"
  by (simp add: read_tree_def blank_tokens res_simps parse_def initial_state_def parser_def parseGlobal_def loopP_def loopN.simps
      bindP_def ifP_def cur_is_def tok_is_def getP_def assertNoAttributes_def returnP_def)

lemma visit_nothing:
  assumes "stack c = s # ss"
  shows "\<exists>c'. visitGlobal tc [] c = Inr ((), c') \<and> stack c' = stack c \<and> ctx_cache c' = ctx_cache c
    \<and> importedModules c' = importedModules c \<and> cur_module c' = cur_module c \<and> generateFunction c' = generateFunction c"
  using assms
  by (simp add: visitGlobal_def initializePerModuleMacros_def builtin_macro_def new_macro_def setGenerate_def seqC_def
      withScopeC_def addScope_def delScope_def addItem_def empty_scope_def tr_defs res_simps)

lemma blank_loaded:
  assumes "stack c = s # ss" "getModule (uniqueName (cur_module c)) (ctx_cache c) = None" "importedModules c p = None"
  shows "\<exists>c'. load_module k tc sample_host p m c = Inr ((), c') \<and> stack c' = stack c"
proof -
  from assms(1) obtain c1 where c1: "visitGlobal tc [] (c\<lparr>cur_module := m\<rparr>) = Inr ((), c1)" "stack c1 = stack c"
    "ctx_cache c1 = ctx_cache c" "importedModules c1 = importedModules c"
    using visit_nothing [of "c\<lparr>cur_module := m\<rparr>" s ss tc] by auto
  with assms(2,3) show ?thesis
    by (simp add: load_module_def sample_host_def read_blank run_analysis_def extended_trees_def set_module_def add_module_def addModule_def askC_def
        cacheC_def addImportedModule_def getImportedModule_def seqC_def tr_defs res_simps)
qed

lemma core_path: "getImportPath sample_host ''std'' [''std''] = Inr (Inr (''/lib/std.sn'', ''/lib/std.sn''))"
  by (simp add: getImportPath_def sample_host_def getPackagePath_def path_div_def startsWith_def extensions_def)

lemma core_name: "getExportName ''/lib/std.sn'' [] = ''std''"
  by code_simp

lemma core_imported:
  assumes "generateFunction c = False" "stack c = [s]" "s ''std'' = None" "importedModules c = (\<lambda>_. None)"
    "getModule (CORE_UUID @ ''std'') (ctx_cache c) = None"
  shows "\<exists>c'. tvisit_ImportStmt k tc sample_host [''std''] ''std'' [] [] no_attributes c = Inr ((), c') \<and> stack c' \<noteq> []"
proof -
  let ?m = "new_Module ''std'' (CORE_UUID @ ''std'')"
  let ?c = "c\<lparr>isMainModule := False, currentPackagePath := parent_path ''/lib/std.sn'', stack := [s], cur_module := ?m,
    uuidStack := s_uuidStack (import_state ?m (uuidStack c)), currentClass := None\<rparr>"
  have "\<exists>c'. load_module k tc sample_host ''/lib/std.sn'' ?m ?c = Inr ((), c') \<and> stack c' = stack ?c"
    using assms by (intro blank_loaded) (simp_all add: new_Module_def CORE_UUID_def)
  then obtain c1 where c1: "load_module k tc sample_host ''/lib/std.sn'' ?m ?c = Inr ((), c1)" "stack c1 = [s]" by auto
  have name: "nice_full_name ''std'' [''std''] = ''std''" by code_simp
  from assms c1 show ?thesis
    by (simp add: tvisit_ImportStmt_def core_path core_name name import_module_def import_state_def isExternalModule_def
        set_main_def setCurrentPackagePath_def getImportedModule_def getItem_def withStateC_def saveState_def setState_def
        addItem_def createModuleAliases_def import_macros_def hasAttribute_def no_attributes_def seqC_def tr_defs res_simps Let_def
        getInScope_def)
qed

lemma first_context:
  "\<exists>c s. new_TransformContext m tests benchmarks = Inr c \<and> stack c = [s] \<and> s ''std'' = None \<and> generateFunction c = False
     \<and> importedModules c = (\<lambda>_. None) \<and> ctx_cache c = empty_cache"
  by (simp add: new_TransformContext_def add_core_interface_def empty_context_def tr_defs addItem_def res_simps
      empty_scope_def Let_def split: prod.splits)

lemma blank_transformer:
  "\<exists>c. new_Transformer (calls_of sample_host 1) m p tests benchmarks = Inr c \<and> stack c \<noteq> []"
proof -
  obtain c s where c: "new_TransformContext m tests benchmarks = Inr c" "stack c = [s]" "s ''std'' = None"
    "generateFunction c = False" "importedModules c = (\<lambda>_. None)" "ctx_cache c = empty_cache"
    using first_context [of m tests benchmarks] by blast
  let ?c = "c\<lparr>currentPackagePath := p, uuidStack := uuidStack c @ [CORE_UUID @ ''std'']\<rparr>"
  have "\<exists>c'. tvisit_ImportStmt 0 exhausted_calls sample_host [''std''] ''std'' [] [] no_attributes ?c = Inr ((), c') \<and> stack c' \<noteq> []"
    using c by (intro core_imported [where s = s]) (simp_all add: empty_cache_def getModule_def)
  then obtain c' where "tvisit_ImportStmt 0 exhausted_calls sample_host [''std''] ''std'' [] [] no_attributes ?c = Inr ((), c')"
    "stack c' \<noteq> []" by blast
  with c(1) show ?thesis
    by (simp add: new_Transformer_def initializeCoreRuntime_def run_def call_step_def trans_node_def when_configured_def dispatch_def askC_def
        setCurrentPackagePath_def hasAttribute_def no_attributes_def seqC_def tr_defs res_simps)
qed

theorem compilation_ends_where_it_began_witness:
  "\<exists>c ast. compile_tree 1 sample_host ''/src/main.sn'' False False '' '' = Inr (Some (c, ast))
     \<and> length (stack c) = 1 \<and> cur_module c = new_main_module"
proof -
  obtain c where c: "new_Transformer (calls_of sample_host 1) new_main_module (parent_path ''/src/main.sn'') False False = Inr c"
    "stack c \<noteq> []"
    using blank_transformer by blast
  then obtain s ss where "stack c = s # ss" by (cases "stack c") auto
  then obtain c' where "visitGlobal (calls_of sample_host 1) [] c = Inr ((), c')"
    using visit_nothing by blast
  with c(1) have "compile_tree 1 sample_host ''/src/main.sn'' False False '' '' = Inr (Some (c', []))"
    by (simp add: compile_tree_def read_blank run_analysis_def extended_trees_def res_simps)
  with compilation_ends_where_it_began [OF this] show ?thesis by blast
qed

section \<open>Bodies in LLVM code\<close>

fun access_types :: "LLVMIRChunk list \<Rightarrow> ty list" where
  "access_types [] = []"
| "access_types (LLCode s # cs) = access_types cs"
| "access_types (TypeAccess t # cs) = t # access_types cs"

text \<open>A body again as text: the code as it is, and for each type a name in braces.\<close>

fun print_chunks :: "LLVMIRChunk list \<Rightarrow> string list \<Rightarrow> string" where
  "print_chunks [] ns = []"
| "print_chunks (LLCode s # cs) ns = s @ print_chunks cs ns"
| "print_chunks (TypeAccess t # cs) [] = []"
| "print_chunks (TypeAccess t # cs) (n # ns) = ''{='' @ n @ ''}'' @ print_chunks cs ns"

definition type_name_text :: "string \<Rightarrow> bool" where
  "type_name_text n \<longleftrightarrow> CHR 0x7D \<notin> set n"

lemma access_parts:
  assumes "is_access s" "after_access s = Some rest"
  shows "\<exists>n. s = ''{='' @ n @ ''}'' @ rest \<and> type_name_text n"
proof -
  let ?t = "drop 2 s"
  from assms(1) have s: "s = ''{='' @ ?t" 
    using append_take_drop_id [of 2 s] by (simp add: is_access_def startsWith_def eval_nat_numeral)
  from assms(2) obtain d where d: "dropWhile (\<lambda>c. c \<noteq> CHR 0x7D) ?t = d # rest"
    by (auto simp: after_access_def split: list.splits)
  have "d = CHR 0x7D" using hd_dropWhile [of "\<lambda>c. c \<noteq> CHR 0x7D" ?t] d by simp
  with d have "?t = takeWhile (\<lambda>c. c \<noteq> CHR 0x7D) ?t @ ''}'' @ rest"
    using takeWhile_dropWhile_id [of "\<lambda>c. c \<noteq> CHR 0x7D" ?t] by simp
  moreover have "type_name_text (takeWhile (\<lambda>c. c \<noteq> CHR 0x7D) ?t)"
    by (auto simp: type_name_text_def dest: set_takeWhileD)
  ultimately show ?thesis using s by (metis append_assoc)
qed

text \<open>
  C38. The chunks of a body in LLVM code print back to its text: every piece of code is there unchanged and in its place,
  every type is an access to the next of the references that came with the body, resolved in this order, and no
  reference is used twice.
\<close>

theorem llvm_body_prints_back:
  assumes "getLLVMBody tc body refs c = Inr (cs, c')"
  shows "\<exists>ns. print_chunks cs ns = body \<and> list_all type_name_text ns \<and> length ns \<le> length refs
    \<and> mapC (transformType tc) (take (length ns) refs) c = Inr (access_types cs, c')"
  using assms
proof (induction "length body" arbitrary: body refs c cs rule: less_induct)
  case less
  show ?case
  proof (cases "body = []")
    case True
    with less.prems show ?thesis
      by (intro exI [of _ "[]"]) (simp add: getLLVMBody.simps [of _ "[]"] tr_defs)
  next
    case nonempty: False
    show ?thesis
    proof (cases "is_access body")
      case True
      with nonempty less.prems obtain rest t us x d ds where rest: "after_access body = Some rest" and refs: "refs = t # us"
        and x: "transformType tc t c = Inr (x, d)" and ds: "getLLVMBody tc rest us d = Inr (ds, c')" and cs: "cs = TypeAccess x # ds"
        by (subst (asm) getLLVMBody.simps) (auto simp: tr_defs res_simps split: option.splits list.splits)
      from access_parts [OF True rest] obtain n where n: "body = ''{='' @ n @ ''}'' @ rest" "type_name_text n" by blast
      from less.hyps [OF after_access_length [OF rest] ds] obtain ns where "print_chunks ds ns = rest" "list_all type_name_text ns"
        "length ns \<le> length us" "mapC (transformType tc) (take (length ns) us) d = Inr (access_types ds, c')" by blast
      with n cs refs x show ?thesis by (intro exI [of _ "n # ns"]) (simp add: tr_defs res_simps)
    next
      case False
      with nonempty less.prems obtain ds where ds: "getLLVMBody tc (snd (code_part body)) refs c = Inr (ds, c')"
        and cs: "cs = LLCode (fst (code_part body)) # ds"
        by (subst (asm) getLLVMBody.simps) (auto simp: tr_defs res_simps)
      from less.hyps [OF code_part_length [OF nonempty False] ds] obtain ns where "print_chunks ds ns = snd (code_part body)"
        "list_all type_name_text ns" "length ns \<le> length refs"
        "mapC (transformType tc) (take (length ns) refs) c = Inr (access_types ds, c')" by blast
      with cs show ?thesis by (intro exI [of _ ns]) (simp add: code_part_append)
    qed
  qed
qed

definition void_calls :: tcalls where
  "void_calls = exhausted_calls\<lparr>transformType := (\<lambda>n. returnC (VoidTy False))\<rparr>"

theorem llvm_body_prints_back_witness:
  "\<exists>ns. getLLVMBody void_calls ''ret {=T} 0'' [Identifier ''T''] transform_sample =
       Inr ([LLCode ''ret '', TypeAccess (VoidTy False), LLCode '' 0''], transform_sample)
     \<and> print_chunks [LLCode ''ret '', TypeAccess (VoidTy False), LLCode '' 0''] ns = ''ret {=T} 0''"
proof -
  have "getLLVMBody void_calls ''ret {=T} 0'' [Identifier ''T''] transform_sample =
       Inr ([LLCode ''ret '', TypeAccess (VoidTy False), LLCode '' 0''], transform_sample)"
    by (simp add: getLLVMBody.simps is_access_def startsWith_def after_access_def void_calls_def tr_defs res_simps)
  with llvm_body_prints_back [OF this] show ?thesis by blast
qed

section \<open>Number types and literals\<close>

definition has_core :: "tctx \<Rightarrow> bool" where
  "has_core c \<longleftrightarrow> coreInterfaces c ''Sized'' \<noteq> None \<and> coreInterfaces c ''Numeric'' \<noteq> None"

lemma numberType_runs: "has_core c \<Longrightarrow> numberType t c = Inr (t, c)"
  by (auto simp: has_core_def numberType_def getBuiltinTypeImpl_def tr_defs res_simps)

definition integer_keyword :: "bool \<Rightarrow> string \<Rightarrow> string" where
  "integer_keyword isSigned digits = (if isSigned then ''i'' else ''u'') @ digits"

lemma integer_keyword_is_int_type:
  "transformSpecialType tc (plain_ref (integer_keyword b ds) []) = int_type ds b"
  by (simp add: transformSpecialType_def plain_ref_def integer_keyword_def startsWith_def)

text \<open>
  C39. An integer type that is written with digits has exactly the width they say: from 2 to 2^23 bits it is that type, other
  numbers are refused with a type error, and from 2^31 on the conversion of the digits ends in an exception of the
  library that is no diagnostic.
\<close>

theorem integer_type_widths:
  assumes "list_all is_digit ds" "ds \<noteq> []" "has_core c"
  shows "transformSpecialType tc (plain_ref (integer_keyword b ds) []) c =
    (if 2 ^ 31 \<le> decimal_value ds then Inl (StdException ''out_of_range'')
     else if decimal_value ds = 1 then Inl (CompilerError TYPE_ERROR (''If you want a boolean type, use '' @ quoted ''bool''))
     else if decimal_value ds = 0 \<or> 2 ^ 23 < decimal_value ds
     then Inl (CompilerError TYPE_ERROR (''Integer type is expected to be in the form of '' @ quoted ''i[N]''))
     else Inr (Some (IntTy False (int (decimal_value ds)) b), c))"
proof -
  from assms(1,2) have "is_digit (hd ds)" by (cases ds) simp_all
  with assms have run: "int_type ds b c = bindC (liftC (stoi ds)) (\<lambda>bits.
      if bits < 1 \<or> INT_MAX_POWER < bits then errorC TYPE_ERROR (''Integer type is expected to be in the form of '' @ quoted ''i[N]'')
      else if bits = 1 then errorC TYPE_ERROR (''If you want a boolean type, use '' @ quoted ''bool'')
      else bindC (numberType (IntTy False bits b)) (\<lambda>t. returnC (Some t))) c"
    by (simp add: int_type_def)
  show ?thesis
  proof (cases "2 ^ 31 \<le> decimal_value ds")
    case True
    with run show ?thesis
      unfolding integer_keyword_is_int_type by (simp add: stoi_def tr_defs res_simps Let_def)
  next
    case False
    then have "stoi ds = Inr (int (decimal_value ds))" by (simp add: stoi_def Let_def)
    with run False show ?thesis
      unfolding integer_keyword_is_int_type by (simp add: INT_MAX_POWER_def tr_defs res_simps numberType_runs [OF assms(3)])
  qed
qed

theorem integer_type_widths_witness:
  "\<exists>c. transformSpecialType exhausted_calls (plain_ref ''u024'' []) c = Inr (Some (IntTy False 24 False), c)
     \<and> transformSpecialType exhausted_calls (plain_ref ''i8388609'' []) c
       = Inl (CompilerError TYPE_ERROR (''Integer type is expected to be in the form of '' @ quoted ''i[N]''))
     \<and> transformSpecialType exhausted_calls (plain_ref ''i2147483648'' []) c = Inl (StdException ''out_of_range'')"
proof -
  let ?c = "transform_sample\<lparr>coreInterfaces := (\<lambda>n. Some (VoidTy False))\<rparr>"
  have core: "has_core ?c" by (simp add: has_core_def)
  have digits: "list_all is_digit ''024''" "list_all is_digit ''8388609''" "list_all is_digit ''2147483648''"
    and numbers: "decimal_value ''024'' = 24" "decimal_value ''8388609'' = 8388609" "decimal_value ''2147483648'' = 2147483648"
    by (simp_all add: is_digit_def decimal_value_def)
  from integer_type_widths [OF digits(1) _ core, of exhausted_calls False]
    integer_type_widths [OF digits(2) _ core, of exhausted_calls True]
    integer_type_widths [OF digits(3) _ core, of exhausted_calls True]
  show ?thesis by (intro exI [of _ ?c]) (simp add: numbers integer_keyword_def)
qed

lemma digit_values:
  assumes "is_digit ch"
  shows "digit_value ch = of_char ch - 48" "of_char ch - 48 < (10::nat)"
  using assms by (auto simp: is_digit_def digit_value_def Let_def)

lemma decimal_digits:
  assumes "list_all is_digit s"
  shows "leading_digits 10 s = s \<and> foldl (\<lambda>n ch. n * 10 + digit_value ch) a s = foldl (\<lambda>v c. v * 10 + (of_char c - 48)) a s"
  using assms by (induction s arbitrary: a) (auto simp: leading_digits_def digit_values)

lemma starts_with_digit:
  assumes "list_all is_digit s" "\<not> is_digit a"
  shows "\<not> startsWith s [a]" "\<not> startsWith s [b, a]"
  using assms by (cases s; cases "tl s"; auto simp: startsWith_def)+

lemma decimal_literal: "n < 2 ^ 64 \<Longrightarrow> integer_literal (nat_to_string n) = Inr n"
proof -
  assume n: "n < 2 ^ 64"
  note facts = nat_to_string_facts [of n]
  have letters: "\<not> is_digit CHR ''x''" "\<not> is_digit CHR ''X''" "\<not> is_digit CHR ''b''" "\<not> is_digit CHR ''B''"
    "\<not> is_digit CHR ''o''" "\<not> is_digit CHR ''O''"
    by (simp_all add: is_digit_def)
  have "number_value 10 (nat_to_string n) = n" "leading_digits 10 (nat_to_string n) = nat_to_string n"
    using decimal_digits [of "nat_to_string n" 0] facts by (simp_all add: number_value_def decimal_value_def)
  with facts letters n show ?thesis
    by (simp add: integer_literal_def parse_number_def starts_with_digit)
qed

lemma literal_parts:
  "number_parts ((if u then ''u'' else []) @ (if l then ''l'' else []) @ nat_to_string n) = (u, l, nat_to_string n)"
proof -
  have "\<not> is_digit CHR ''u''" "\<not> is_digit CHR ''l''" by (simp_all add: is_digit_def)
  then have "\<not> startsWith (nat_to_string n) ''u''" "\<not> startsWith (nat_to_string n) ''l''"
    using nat_to_string_facts [of n] starts_with_digit by blast+
  then show ?thesis by (auto simp: number_parts_def Let_def startsWith_def)
qed

text \<open>
  C40. A decimal literal below 2^64 keeps its value, and its type is the one its letters name: without letters it is a
  32 bit integer, also when its value does not fit there.
\<close>

theorem decimal_literals:
  assumes "n < 2 ^ 64" "has_core c"
  shows "tvisit_Number ((if isUnsigned then ''u'' else []) @ (if isLong then ''l'' else []) @ nat_to_string n) c =
    Inr ((), c\<lparr>last_value := Some (IrNumber (Some (IntTy False (if isLong then 64 else 32) (\<not> isUnsigned))) (of_nat n))\<rparr>)"
  unfolding tvisit_Number_def literal_parts prod.case decimal_literal [OF assms(1)]
  by (simp add: assms(2) numberType_runs setTypeC_def createNumberValue_def setValue_def tr_defs res_simps)

theorem decimal_literals_witness:
  "\<exists>c c'. tvisit_Number (nat_to_string 3000000000) c = Inr ((), c')
     \<and> last_value c' = Some (IrNumber (Some (IntTy False 32 True)) 3000000000)"
proof -
  let ?c = "transform_sample\<lparr>coreInterfaces := (\<lambda>n. Some (VoidTy False))\<rparr>"
  have "has_core ?c" by (simp add: has_core_def)
  from decimal_literals [OF _ this, of 3000000000 False False]
  have "tvisit_Number (nat_to_string 3000000000) ?c = Inr ((), ?c\<lparr>last_value := Some (IrNumber (Some (IntTy False 32 True)) 3000000000)\<rparr>)"
    by simp
  then show ?thesis by (intro exI conjI) (assumption, simp)
qed

section \<open>Declared variables\<close>

lemma createReferenceTo_vars: "createReferenceTo v c = Inr (x, c') \<Longrightarrow> vars c' = vars c \<and> (\<exists>t. x = IrReferenceTo (Some t) v)"
  by (auto simp: createReferenceTo_def typeC_def reference_to_def Let_def split_beta tr_defs res_simps)

lemma tryCast_vars:
  assumes "tryCast v t c = Inr (x, c')"
  shows "vars c' = vars c"
proof -
  from assms obtain a where "(case canCast (objects c) a t of
       Valid \<Rightarrow> returnC (Some (createCast v t))
     | AutoDeref \<Rightarrow> returnC (Some (createDereferenceTo v t))
     | AutoRef \<Rightarrow> bindC (createReferenceTo v) (\<lambda>r. returnC (Some r))
     | ToPointer \<Rightarrow> bindC (createReferenceTo v) (\<lambda>r. bindC (pointer_to (isMutable t) a) (\<lambda>p.
         bindC (setTypeC r p) (\<lambda>r'. returnC (Some r'))))
     | NoCast \<Rightarrow> returnC None) c = Inr (x, c')"
    by (auto simp: tryCast_def typeC_def tr_defs res_simps)
  then show ?thesis
    by (cases "canCast (objects c) a t")
      (auto simp: pointer_to_def setTypeC_def Let_def split_beta tr_defs res_simps dest!: createReferenceTo_vars)
qed

lemma check_declared_vars: "check_declared v t d c = Inr (x, c') \<Longrightarrow> vars c' = vars c"
  by (auto simp: check_declared_def tr_defs res_simps dest: tryCast_vars split: option.splits if_splits)

lemma register_variable_vars: "register_variable x c = Inr (u, c') \<Longrightarrow> vars c' = vars c"
  by (auto simp: register_variable_def tr_defs res_simps split: if_splits)

lemma initialise_variable_result:
  assumes "initialise_variable tc x e isMut isExtern definedType c = Inr ((), c')"
    "\<And>v d. valueC tc e c = Inr (v, d) \<Longrightarrow> x \<in> dom (vars d)"
  shows "\<exists>v d t h. valueC tc e c = Inr (v, d) \<and> value_type d v = Some t
    \<and> last_value c' = Some (IrVariableDeclaration (Some t) x (Some v) isExtern)
    \<and> value_type c' (IrVariable x) = Some (setMutable isMut (fst (copy_type t h)))"
proof -
  from assms(1) obtain v d t c2 c3 where v: "valueC tc e c = Inr (v, d)" and t: "value_type d v = Some t"
    and r: "register_variable x d = Inr ((), c2)" and k: "check_declared v t definedType c2 = Inr ((), c3)"
    and c': "bindC (copyC t) (\<lambda>u. bindC (setTypeC (IrVariable x) (setMutable isMut u)) (\<lambda>_.
      setValue (IrVariableDeclaration (Some t) x (Some v) isExtern))) c3 = Inr ((), c')"
    by (auto simp: initialise_variable_def seqC_def createVariableDeclaration_def typeC_def the_type_def setTypeC_def
        tr_defs res_simps split: option.splits)
  from assms(2) [OF v] register_variable_vars [OF r] check_declared_vars [OF k] have "x \<in> dom (vars c3)" by simp
  with c' have "last_value c' = Some (IrVariableDeclaration (Some t) x (Some v) isExtern)"
    "value_type c' (IrVariable x) = Some (setMutable isMut (fst (copy_type t (objects c3))))"
    by (auto simp: copyC_def setTypeC_def setValue_def update_var_def value_type_def Let_def tr_defs res_simps split: prod.splits)
  with v t show ?thesis by blast
qed

lemma addItem_value:
  "addItem name i c = Inr (u, c') \<Longrightarrow> hd (stack c') name = Some i \<and> last_value c' = last_value c \<and> value_type c' v = value_type c v"
  by (auto simp: addItem_def value_type_def split: list.splits if_splits)



definition five_calls :: tcalls where
  "five_calls = exhausted_calls\<lparr>transformSizedType := (\<lambda>n b. returnC (IntTy False 64 True)),
     trans := (\<lambda>n. returnC (Some (IrNumber (Some (IntTy False 32 True)) 5)))\<rparr>"

lemma five_value: "valueC five_calls e d = Inr (IrNumber (Some (IntTy False 32 True)) 5, d)"
  by (simp add: valueC_def five_calls_def derefC_def tr_defs res_simps)

lemma five_sized: "transformSizedType five_calls n b = returnC (IntTy False 64 True)"
  by (simp add: five_calls_def)

lemma five_cast: "canCast h (IntTy False 32 True) (IntTy True 64 True) = Valid \<and> \<not> is_ty (IntTy True 64 True) (IntTy False 32 True)"
  by (simp add: canCast_def int_name_def to_string_def nat_to_string.simps digit_char_def)

lemma five_declared:
  assumes "stack c = s # ss" "s ''x'' = None"
  shows "\<exists>c'. tvisit_VariableDecl five_calls ''x'' (Some (ConstantValue CT_Number ''5'' p)) True (Some (Identifier ''i64'')) False c = Inr ((), c')"
  using assms five_cast
  by (simp add: tvisit_VariableDecl_def seqC_def Let_def optC_def assertC_def fresh_variable_def five_value five_sized
      initialise_variable_def createVariable_result createVariableDeclaration_def typeC_def value_type_def the_type_def setTypeC_def
      getInCurrentScope_def currentScope_def getInScope_def
      register_variable_def check_declared_def tryCast_def copyC_def setValue_def addItem_def update_var_def tr_defs res_simps)


section \<open>Switches over enumerations\<close>

definition name_of_case :: "node CaseBlock \<Rightarrow> string" where
  "name_of_case b = snd (case_expression b)"

lemma index_where_holds: "index_where P xs = Some i \<Longrightarrow> i < length xs \<and> P (xs ! i)"
  by (induction xs arbitrary: i) (auto split: if_splits)

lemma enum_case_named:
  assumes "enum_case tc fs b c = Inr (r, c')" "\<not> isDefault b"
  shows "\<exists>args block. r = Inr (args, block, name_of_case b) \<and> name_of_case b \<in> set (map fst fs)"
proof (cases fs)
  case Nil
  with assms show ?thesis by (simp add: enum_case_def tr_defs res_simps)
next
  case (Cons f fs')
  have n: "case_name b = Inr y \<Longrightarrow> y = name_of_case b" for y
    by (auto simp: case_name_def name_of_case_def split: if_splits)
  from Cons have "fs \<noteq> []" by simp
  with assms obtain y k where "case_name b = Inr y" and k: "index_where (\<lambda>f. fst f = y) fs = Some k"
    and run: "seqC (check_case b (fs ! k)) (withScopeC (
              bindC (mapC case_argument (zip (case_args b) (snd (fs ! k)))) (\<lambda>args.
              bindC (blockC tc (case_block b)) (\<lambda>block.
              returnC (Inr (args, block, fst (fs ! k))))))) c = Inr (r, c')"
    by (auto simp: enum_case_def bindC_def liftC_def failC_def errorC_def res_simps split: option.splits)
  then have k: "index_where (\<lambda>f. fst f = name_of_case b) fs = Some k" by (auto dest!: n)
  from run obtain args block where "r = Inr (args, block, fst (fs ! k))"
    by (auto simp: seqC_def withScopeC_def bindC_def returnC_def res_simps)
  moreover from index_where_holds [OF k] have "fst (fs ! k) = name_of_case b" "fst (fs ! k) \<in> set (map fst fs)"
    by (auto intro: image_eqI [of _ fst "fs ! k"])
  ultimately show ?thesis by metis
qed

lemma enum_cases_named:
  assumes "mapC (enum_case tc fs) cases c = Inr (rs, c')" "list_all (\<lambda>b. \<not> isDefault b) cases"
  shows "map (\<lambda>(_, _, n). n) (cases_of rs) = map name_of_case cases \<and> last_default rs = None
    \<and> set (map name_of_case cases) \<subseteq> set (map fst fs)"
  using assms
proof (induction cases arbitrary: c rs)
  case Nil
  then show ?case by (simp add: last_default_def tr_defs)
next
  case (Cons b bs)
  from Cons.prems obtain r rs' d where b: "enum_case tc fs b c = Inr (r, d)" "\<not> isDefault b"
    and bs: "mapC (enum_case tc fs) bs d = Inr (rs', c')" "rs = r # rs'"
    by (auto simp: tr_defs res_simps)
  from enum_case_named [OF b] Cons.IH [OF bs(1)] Cons.prems(2) bs(2) show ?case
    by (auto simp: last_default_def)
qed

text \<open>
  C36. A switch over an enumeration that is accepted without a default block, and whose cases are all different, has a
  branch for every field and no other.
\<close>

theorem switch_is_exhaustive:
  assumes "enum_switch tc v cases c = Inr (u, c')" "list_all (\<lambda>b. \<not> isDefault b) cases" "distinct (map name_of_case cases)"
  shows "\<exists>e m i gs l d ob bs. switched_value v c = Inr ((e, EnumTy m i gs l), d) \<and> class_at (objects d) l = Inr ob
    \<and> last_value c' = Some (createSwitch e bs None) \<and> distinct (map (\<lambda>(_, _, n). n) bs)
    \<and> set (map (\<lambda>(_, _, n). n) bs) = set (map fst (Types.enum_fields ob))"
proof -
  from assms(1) obtain e t d where sw: "switched_value v c = Inr ((e, t), d)"
    and run: "(case t of
       EnumTy _ _ _ l \<Rightarrow> bindC (askC (\<lambda>c. class_at (objects c) l)) (\<lambda>ob.
         if \<not> enough_cases cases (Types.enum_fields ob)
         then errorC SYNTAX_ERROR ''Switch must have a case for every enum field!''
         else bindC (mapC (enum_case tc (Types.enum_fields ob)) cases) (\<lambda>rs.
           setValue (createSwitch e (cases_of rs) (last_default rs))))
     | _ \<Rightarrow> errorC SYNTAX_ERROR ''Switch expression must be of enum type!'') d = Inr (u, c')"
    by (subst (asm) enum_switch_def, subst (asm) (1) bindC_def) (auto simp: res_simps simp del: bindC_def)
  then obtain m i gs l where t: "t = EnumTy m i gs l"
    by (cases t) (auto simp: errorC_def failC_def)
  with run obtain ob rs d' where ob: "class_at (objects d) l = Inr ob" and enough: "enough_cases cases (Types.enum_fields ob)"
    and rs: "mapC (enum_case tc (Types.enum_fields ob)) cases d = Inr (rs, d')"
    and c': "last_value c' = Some (createSwitch e (cases_of rs) (last_default rs))"
    by (auto simp: askC_def setValue_def tr_defs res_simps split: if_splits)
  note named = enum_cases_named [OF rs assms(2)]
  from enough assms(2) have "length cases = length (Types.enum_fields ob)"
    by (auto simp: enough_cases_def list_ex_iff list_all_iff)
  with assms(3) have "card (set (map fst (Types.enum_fields ob))) \<le> card (set (map name_of_case cases))"
    using card_length [of "map fst (Types.enum_fields ob)"] distinct_card [OF assms(3)] by simp
  with named have "set (map name_of_case cases) = set (map fst (Types.enum_fields ob))"
    by (intro card_seteq) auto
  with sw t ob c' named assms(3) show ?thesis by metis
qed

definition block_calls :: tcalls where
  "block_calls = exhausted_calls\<lparr>trans := (\<lambda>n. returnC (Some (IrBlock None no_attributes [])))\<rparr>"

definition plain_case :: "string \<Rightarrow> node CaseBlock" where
  "plain_case s = CaseBlock (None, s) [] False False (Block no_attributes [])"

definition colour :: class_obj where
  "colour = empty_class\<lparr>Types.enum_fields := [(''Red'', []), (''Green'', [])]\<rparr>"

definition colour_base :: base_info where
  "colour_base = \<lparr>bt_name = ''Colour'', uuid = ''Colour'', bt_module = new_main_module, bt_id = 7\<rparr>"

definition coloured :: ir_value where
  "coloured = IrNumber (Some (EnumTy False colour_base [] 0)) 0"

lemma block_case: "i \<in> {0, 1} \<Longrightarrow> stack c \<noteq> [] \<Longrightarrow> enum_case block_calls (Types.enum_fields colour) (plain_case (fst (Types.enum_fields colour ! i))) c
    = Inr (Inr ([], IrBlock None no_attributes [], fst (Types.enum_fields colour ! i)), c)"
  by (auto simp: enum_case_def colour_def plain_case_def case_name_def check_case_def withScopeC_def addScope_def delScope_def
      blockC_def valueC_def derefC_def block_calls_def seqC_def Let_def tr_defs res_simps split: list.splits)

theorem switch_is_exhaustive_witness:
  "\<exists>c c' bs. enum_switch block_calls coloured [plain_case ''Green'', plain_case ''Red''] c = Inr ((), c')
     \<and> last_value c' = Some (createSwitch coloured bs None) \<and> set (map (\<lambda>(_, _, n). n) bs) = {''Red'', ''Green''}"
proof -
  let ?c = "transform_sample\<lparr>objects := empty_heap\<lparr>objs := (\<lambda>_. Some colour)\<rparr>\<rparr>"
  have st: "stack ?c \<noteq> []" by (simp add: transform_sample_def)
  have sw: "switched_value coloured ?c = Inr ((coloured, EnumTy False colour_base [] 0), ?c)"
    by (simp add: switched_value_def coloured_def typeC_def value_type_def the_type_def tr_defs res_simps)
  have at: "class_at (objects ?c) l = Inr colour" for l
    by (simp add: class_at_def)
  from sw obtain c' where "enum_switch block_calls coloured [plain_case ''Green'', plain_case ''Red''] ?c = Inr ((), c')"
    using block_case [OF _ st, of 0] block_case [OF _ st, of 1] at
    by (simp add: enum_switch_def askC_def enough_cases_def setValue_def colour_def tr_defs res_simps)
  note run = this
  have "list_all (\<lambda>b. \<not> isDefault b) [plain_case ''Green'', plain_case ''Red'']"
    "distinct (map name_of_case [plain_case ''Green'', plain_case ''Red''])"
    by (simp_all add: plain_case_def name_of_case_def)
  from switch_is_exhaustive [OF run this] sw at obtain bs where
    "last_value c' = Some (createSwitch coloured bs None)" "set (map (\<lambda>(_, _, n). n) bs) = set (map fst (Types.enum_fields colour))"
    by (metis Pair_inject ty.inject(8) sum.inject(2))
  with run show ?thesis by (intro exI conjI) (assumption, assumption, simp add: colour_def)
qed

section \<open>Circular imports\<close>

definition builtin_macros :: "string list" where
  "builtin_macros = [''pkg'', ''zero_initialized'', ''sizeof'', ''alignof'', ''include_str'', ''env_var'']"

lemma macros_added:
  assumes "stack c = empty_scope # ss"
  shows "\<exists>c' s. initializePerModuleMacros c = Inr ((), c') \<and> stack c' = s # ss \<and> dom s = set builtin_macros
    \<and> importedModules c' = importedModules c \<and> generateFunction c' = generateFunction c"
  using assms
  by (simp add: initializePerModuleMacros_def builtin_macro_def new_macro_def seqC_def addItem_def empty_scope_def builtin_macros_def
      insert_commute tr_defs res_simps)

text \<open>The file an import names and the name it gives the module.\<close>

definition import_target :: "host \<Rightarrow> node \<Rightarrow> (string \<times> string) option" where
  "import_target h n = (case n of
     ImportStmt path package vs symbol attrs \<Rightarrow>
       (case getImportPath h package path of Inr (Inr (f, t)) \<Rightarrow> Some (f, getExportName t symbol) | _ \<Rightarrow> None)
   | _ \<Rightarrow> None)"

definition plain_import :: "node \<Rightarrow> bool" where
  "plain_import n = (case n of
     ImportStmt path package vs symbol attrs \<Rightarrow> \<not> hasAttribute attrs CFG \<and> package \<noteq> ''std'' | _ \<Rightarrow> False)"

lemma plain_import_node:
  assumes "plain_import n"
  shows "\<exists>path package vs symbol attrs. n = ImportStmt path package vs symbol attrs \<and> \<not> hasAttribute attrs CFG \<and> package \<noteq> ''std''"
  using assms by (cases n) (auto simp: plain_import_def)

text \<open>
  Imports of files in which the first statement that the first pass visits is one of the imports again: a plain
  import with no statement before it but such (like variables) as the first pass leaves out.
\<close>

definition circular :: "host \<Rightarrow> node set \<Rightarrow> bool" where
  "circular h S \<longleftrightarrow> (\<forall>n \<in> S. plain_import n \<and> (\<exists>f name u content ast n' rest. import_target h n = Some (f, name)
     \<and> name \<notin> set builtin_macros \<and> getModuleUUID h f = Inr u \<and> read_file h f = Some content
     \<and> read_tree content = Inr (Some ast) \<and> filter can_generate ast = n' # rest \<and> n' \<in> S))"

text \<open>None of the files has been imported to its end, and the names of the modules are free.\<close>

definition not_imported :: "host \<Rightarrow> node set \<Rightarrow> tctx \<Rightarrow> bool" where
  "not_imported h S c \<longleftrightarrow> generateFunction c = False \<and> stack c \<noteq> []
     \<and> (\<forall>n \<in> S. \<forall>f name. import_target h n = Some (f, name) \<longrightarrow>
          importedModules c f = None \<and> search_scopes name (stack c) = None)"

lemma search_last: "search_scopes x ss = None \<Longrightarrow> ss \<noteq> [] \<Longrightarrow> last ss x = None"
  by (induction ss) (auto simp: getInScope_def split: option.splits)

lemma load_fails:
  assumes "stack c = [g]" "cur_module c = m" "read_file h f = Some content" "read_tree content = Inr (Some ast)"
    "filter can_generate ast = n # rest"
    and first: "\<And>d s. stack d = [s, g] \<Longrightarrow> dom s = set builtin_macros \<Longrightarrow> importedModules d = importedModules c
      \<Longrightarrow> generateFunction d = False \<Longrightarrow> trans tc n d = Inl e"
  shows "load_module k tc h f m c = Inl e"
proof -
  obtain d s where d: "initializePerModuleMacros (c\<lparr>stack := [empty_scope, g]\<rparr>) = Inr ((), d)"
    "stack d = [s, g]" "dom s = set builtin_macros" "importedModules d = importedModules c"
    using macros_added [of "c\<lparr>stack := [empty_scope, g]\<rparr>" "[g]"] by auto
  from d first [of "d\<lparr>generateFunction := False\<rparr>" s] have "run tc n (d\<lparr>generateFunction := False\<rparr>) = Inl e"
    by (simp add: run_def tr_defs res_simps)
  with assms(1,5) d(1) have "visitGlobal tc ast c = Inl e"
    by (simp add: visitGlobal_def withScopeC_def addScope_def setGenerate_def seqC_def tr_defs res_simps)
  moreover from assms(2) have "c\<lparr>cur_module := m\<rparr> = c" by simp
  ultimately show ?thesis using assms(3,4)
    by (simp add: load_module_def set_module_def seqC_def tr_defs res_simps)
qed

lemma circular_step:
  assumes circular: "circular h S" and S: "n \<in> S" and fresh: "not_imported h S c"
    and again: "\<And>m d. m \<in> S \<Longrightarrow> not_imported h S d \<Longrightarrow> trans tc m d = Inl e"
  shows "trans_node k h tc n c = Inl e"
proof -
  from circular S obtain f name u content ast n' rest where plain: "plain_import n" and target: "import_target h n = Some (f, name)"
    and u: "getModuleUUID h f = Inr u"
    and content: "read_file h f = Some content" "read_tree content = Inr (Some ast)" "filter can_generate ast = n' # rest"
    and n': "n' \<in> S"
    unfolding circular_def by blast
  from plain obtain path package vs symbol attrs where n: "n = ImportStmt path package vs symbol attrs"
    and attrs: "\<not> hasAttribute attrs CFG" and package: "package \<noteq> ''std''"
    using plain_import_node by blast
  from target n obtain t where path: "getImportPath h package path = Inr (Inr (f, t))" and name: "name = getExportName t symbol"
    by (auto simp: import_target_def split: sum.splits)
  from fresh S target have c: "generateFunction c = False" "stack c \<noteq> []" "importedModules c f = None"
    "search_scopes name (stack c) = None"
    by (auto simp: not_imported_def)
  have "not_imported h S d" if "stack d = [s, last (stack c)]" "dom s = set builtin_macros" "importedModules d = importedModules c"
    "generateFunction d = False" for d s
  proof -
    have "s x = None" if "x \<notin> set builtin_macros" for x using that \<open>dom s = _\<close> by auto
    with that fresh circular show ?thesis
      unfolding not_imported_def circular_def by (fastforce simp: getInScope_def dest: search_last)
  qed
  then have first: "trans tc n' d = Inl e" if "stack d = [s, last (stack c)]" "dom s = set builtin_macros"
    "importedModules d = importedModules c" "generateFunction d = False" for d s
    using that again [OF n'] by blast
  have "load_module k tc h f m d = Inl e" if "stack d = [last (stack c)]" "cur_module d = m" "importedModules d = importedModules c" for m d
    using that content by (intro load_fails [where g = "last (stack c)"]) (auto intro: first)
  with c path package u name have "tvisit_ImportStmt k tc h path package vs symbol attrs c = Inl e"
    by (simp add: tvisit_ImportStmt_def import_module_def import_state_def set_main_def setCurrentPackagePath_def
      getImportedModule_def getItem_def withStateC_def saveState_def setState_def seqC_def tr_defs res_simps Let_def)
  with attrs n show ?thesis
    by (simp add: trans_node_def when_configured_def dispatch_def askC_def seqC_def tr_defs res_simps)
qed

text \<open>
  C35. Files that import each other in a circle, where in each file the import of the next one is the first statement
  that the first pass visits (it has no configuration, does not name the core library, its file is found, and the name
  it gives the module is free and not that of a macro every module has): none is ever read to its end, at whatever depth of
  recursion, since a module counts as imported only when all its statements have been visited.
\<close>

theorem circular_imports_never_end:
  assumes "circular h S" "n \<in> S" "not_imported h S c"
  shows "trans (calls_of h k) n c = Inl (Undefined ''stack exhausted'')"
  using assms(2,3)
proof (induction k arbitrary: n c)
  case 0
  then show ?case by (simp add: exhausted_calls_def Let_def tr_defs)
next
  case (Suc k)
  then show ?case using circular_step [OF assms(1) Suc.prems Suc.IH] by (simp add: call_step_def)
qed

definition import_line :: "string \<Rightarrow> (TokenType \<times> int \<times> string) list" where
  "import_line x = [(Kword KWORD_IMPORT, 1, ''import''), (IDENTIFIER, 8, ''pkg''), (Sym SYM_COLCOL, 11, []), (IDENTIFIER, 13, x), 
     (TK_EOF, 14, [])]"

lemma import_tokens: "tokenize ''import pkg::a'' = Inr (map sample_token (import_line ''a''))"
  "tokenize ''import pkg::b'' = Inr (map sample_token (import_line ''b''))"
  by code_simp+


lemma line_tokens:
  assumes "m_tokens s = map sample_token ls"
  shows "in_tokens s i \<longleftrightarrow> 0 \<le> i \<and> i < int (length ls)"
    "0 \<le> i \<Longrightarrow> i < int (length ls) \<Longrightarrow> token_at s i = sample_token (ls ! nat i)"
  using assms by (simp_all add: in_tokens_def token_at_def nat_less_iff)

lemma no_pending: "m_pending_attributes s = [] \<Longrightarrow> seek s i\<lparr>m_pending_attributes := []\<rparr> = seek s i"
  by (simp add: seek_def)

lemma import_parsed:
  assumes "m_tokens s = map sample_token (import_line x)" "m_pending_attributes s = []"
  shows "parseGlobal (calls_at 24) TK_EOF (seek s 0) = Inr ([ImportStmt [x] ''pkg'' [] [] no_attributes], seek s 4)"
  using assms(2) line_tokens [OF assms(1)] assms(1)
  by (simp add: exec run_simps no_pending import_line_def parseGlobal_def [THEN fun_cong] global_item_def [THEN fun_cong]
    global_declaration_def parseImportStatement_def import_path_def verifyAttributes_def attribute_holder_def)

lemma import_read: "read_tree ''import pkg::a'' = Inr (Some [ImportStmt [''a''] ''pkg'' [] [] no_attributes])"
  "read_tree ''import pkg::b'' = Inr (Some [ImportStmt [''b''] ''pkg'' [] [] no_attributes])"
proof -
  have "parse (map sample_token (import_line x)) src False = Inr [ImportStmt [x] ''pkg'' [] [] no_attributes]" for x src
  proof -
    let ?s = "\<lparr>m_tok_index = 0, m_current = hd (map sample_token (import_line x)), m_tokens = map sample_token (import_line x),
        m_current_class = None, m_inside_loop = False, m_allow_comments = False, m_pending_attributes = [], m_source = src\<rparr>"
    have s: "?s = seek ?s 0" "depth_for ?s = 24"
      by (simp_all add: seek_def token_at_def depth_for_def import_line_def)
    have "parseGlobal (calls_at 24) TK_EOF (seek ?s 0) = Inr ([ImportStmt [x] ''pkg'' [] [] no_attributes], seek ?s 4)"
      by (rule import_parsed) simp_all
    with s show ?thesis
      by (simp add: parse_def initial_state_def parser_def res_simps import_line_def)
  qed
  moreover have "import_line x \<noteq> []" for x by (simp add: import_line_def)
  ultimately show "read_tree ''import pkg::a'' = Inr (Some [ImportStmt [''a''] ''pkg'' [] [] no_attributes])"
    "read_tree ''import pkg::b'' = Inr (Some [ImportStmt [''b''] ''pkg'' [] [] no_attributes])"
    by (simp_all add: read_tree_def import_tokens res_simps)
qed

definition circular_host :: host where
  "circular_host = sample_host\<lparr>read_file := (\<lambda>p. Some (if p = ''/src/a.sn'' then ''import pkg::b'' else ''import pkg::a''))\<rparr>"

definition import_of :: "string \<Rightarrow> node" where
  "import_of x = ImportStmt [x] ''pkg'' [] [] no_attributes"

lemma import_targets:
  "import_target circular_host (import_of ''a'') = Some (''/src/a.sn'', ''a'')"
  "import_target circular_host (import_of ''b'') = Some (''/src/b.sn'', ''b'')"
proof -
  have "getExportName ''/src/a.sn'' [] = ''a''" "getExportName ''/src/b.sn'' [] = ''b''" by code_simp+
  then show "import_target circular_host (import_of ''a'') = Some (''/src/a.sn'', ''a'')"
    "import_target circular_host (import_of ''b'') = Some (''/src/b.sn'', ''b'')"
    by (simp_all add: import_target_def import_of_def getImportPath_def circular_host_def sample_host_def getPackagePath_def
        path_div_def startsWith_def extensions_def)
qed

theorem circular_imports_never_end_witness:
  "read_file circular_host ''/src/a.sn'' = Some ''import pkg::b'' \<and> read_file circular_host ''/src/b.sn'' = Some ''import pkg::a''
   \<and> trans (calls_of circular_host 1000) (import_of ''a'') transform_sample = Inl (Undefined ''stack exhausted'')"
proof -
  have "\<exists>u. getModuleUUID circular_host ''/src/a.sn'' = Inr u" "\<exists>u. getModuleUUID circular_host ''/src/b.sn'' = Inr u"
    by (simp_all add: getModuleUUID_def circular_host_def sample_host_def)
  then have "circular circular_host {import_of ''a'', import_of ''b''}"
    using import_targets import_read
    by (simp add: circular_def plain_import_def import_of_def [symmetric] builtin_macros_def)
      (simp add: import_of_def circular_host_def hasAttribute_def no_attributes_def)
  moreover have "not_imported circular_host {import_of ''a'', import_of ''b''} transform_sample"
    using import_targets by (simp add: not_imported_def transform_sample_def empty_context_def getInScope_def empty_scope_def)
  ultimately have "trans (calls_of circular_host 1000) (import_of ''a'') transform_sample = Inl (Undefined ''stack exhausted'')"
    by (intro circular_imports_never_end) simp_all
  then show ?thesis by (simp add: circular_host_def)
qed

end
