(* ===== verification/Spec2Isabelle.thy ===== *)
theory Spec2Isabelle
  imports Lexer_Props Parser_Props BodyReturns Runtime_Exceptions_Props Types_Props TypeChecker_Samples
    Packages_Props Overloads_Props Caches_Props Transform_Props
begin

text \<open>
  A verification development for Snowball: a compiler written in C++ (\<^verbatim>\<open>src/\<close>, \<^verbatim>\<open>app/\<close>) and the
  runtime its programs link against (\<^verbatim>\<open>runtime/\<close>).

  \<^bold>\<open>The program.\<close> The command line tool reads a project, the lexer turns the text of a module into
  tokens, the parser builds a syntax tree, whose expressions it assembles from flat lists of operands
  and operators. Analyzers check the tree, the transformer resolves names and types and produces an
  intermediate representation, the type checker checks that, and a builder emits LLVM code. Compiled
  programs unwind exceptions through the personality routine of the runtime.

  \<^bold>\<open>Theories.\<close>
  \<^item> \<open>Prelude\<close>: the failures of a C++ routine and their sequencing, the loop contract \<open>iteration\<close>, the
    contract \<open>search_equality\<close> of a comparison that lists are searched with.
  \<^item> \<open>Tokens\<close>, \<open>Lexer\<close>: \<^verbatim>\<open>src/lexer/\<close>; one step of the loop of \<^verbatim>\<open>Lexer::tokenize\<close> per character class, the
    positions kept as the code keeps them. \<open>Lexer_Props\<close>: tokens cover the text in order and end in
    one end-of-file token, words, numbers and literals are read back, errors name their cause.
  \<^item> \<open>Operators\<close>, \<open>Attributes\<close>: \<^verbatim>\<open>src/services/OperatorService\<close>, \<^verbatim>\<open>src/defs/operators.def\<close> and the attribute
    sets of \<^verbatim>\<open>src/ast/syntax/common.h\<close>.
  \<^item> \<open>Ast\<close>: the nodes of \<^verbatim>\<open>src/ast/syntax/nodes.h\<close> as one datatype.
  \<^item> \<open>OperatorTree\<close>: \<^verbatim>\<open>src/parser/buildOperatorTree.cc\<close>, against a specification of precedence and
    associativity.
  \<^item> The parser, \<^verbatim>\<open>src/parser/\<close>. \<open>Parser_State\<close>: the state of \<^verbatim>\<open>Parser\<close>, its moves and tests (\<^verbatim>\<open>next\<close>,
    \<^verbatim>\<open>prev\<close>, \<^verbatim>\<open>peek\<close>, \<^verbatim>\<open>consume\<close>), sequencing and loops. \<open>Parser_Attributes\<close> (attributes and documentation
    comments), \<open>Parser_Types\<close>, \<open>Parser_Expr\<close>, \<open>Parser_Stmts\<close>, \<open>Parser_Function\<close>, \<open>Parser_Decls\<close>: one definition
    per \<^verbatim>\<open>parse*\<close> routine, long ones in stages; a routine takes the routines it recurses to in a record,
    and \<open>Parser\<close> ties them by depth. \<open>Parser_Wp\<close>, \<open>Parser_Trees\<close>, \<open>Parser_Progress\<close>: a calculus of
    postconditions and, in the locale \<open>progressing_calls\<close>, that every routine moves on and restores what it
    changes. \<open>Parser_Run\<close>, \<open>Parser_Exec\<close>: running routines symbolically and on samples.
    \<open>Parser_Type_Syntax\<close>, \<open>Parser_Expr_Syntax\<close>: grammars of types and expressions with what they print to, and
    that the parser reads it back. \<open>Parser_Props\<close>: the properties.
  \<^item> \<open>DefiniteAssignment\<close>: \<^verbatim>\<open>src/visitors/analyzers/\<close>; every visit is a definition with the recursive
    call as a parameter, \<open>accept k\<close> ties them with a stack of depth \<open>k\<close>. \<open>DefiniteAssignment_Props\<close>: the
    visits keep the stack of scopes, accepted programs do not read unassigned variables on the fragment
    the analysis is sound for, and the ways the analysis is not sound.
  \<^item> \<open>BodyReturns\<close>: \<^verbatim>\<open>src/visitors/transform/utils/bodyReturns.cc\<close> against runs of a body.
  \<^item> \<open>Types\<close>: \<^verbatim>\<open>src/ast/types/\<close>; type objects over a heap of class objects, type equality, mangled names,
    casts, sizes. \<open>Types_Props\<close>: what these promise.
  \<^item> \<open>Ir\<close>: the values, functions and variables of \<^verbatim>\<open>src/ir/\<close>. \<open>TypeChecker\<close>: \<^verbatim>\<open>src/visitors/TypeChecker.cc\<close>,
    one definition per visit and check. \<open>TypeChecker_Spec\<close>, \<open>TypeChecker_Logic\<close>, \<open>TypeChecker_Sound\<close>: the
    declarative conditions, a calculus of visits, and that a check that succeeds has looked at every
    function it can reach. \<open>TypeChecker_Props\<close>, \<open>TypeChecker_Termination\<close>, \<open>Vtables\<close>: what is accepted, that
    checks end, and how virtual tables are laid out; \<open>TypeChecker_Samples\<close>: concrete modules.
  \<^item> \<open>Strings\<close>: replacing and splitting of \<^verbatim>\<open>src/utils/utils.cc\<close> and the operations on paths, with their laws.
  \<^item> \<open>Packages\<close>: \<^verbatim>\<open>src/pm/Manager.cc\<close> over a network, a \<^verbatim>\<open>git\<close> command and readers that are parameters.
    An action returns the state it leaves also when it throws. \<open>Packages_Props\<close>: everything a project needs gets
    installed; a run, failed or not, executes only clones the registry offers; a failure is forgotten by the next run.
  \<^item> \<open>Context\<close>: the context of the transformer (\<^verbatim>\<open>src/visitors/TransformContext.cc\<close>): scopes, saved states,
    names; with the calculus \<open>balanced\<close> of computations that leave the context as they found it.
    \<open>Caches\<close>: \<^verbatim>\<open>src/ast/cache/\<close>, over the locale \<open>ordered_store\<close>. \<open>Caches_Props\<close>: instances of types are
    found again, and what a class gets from its ancestors.
  \<^item> \<open>Builder\<close>: \<^verbatim>\<open>src/ir/builder/IRBuilder.cc\<close>, one definition per factory. \<open>Overloads\<close>: the deduction of
    generics and the choice of an overload; \<open>Calls\<close>: casts of arguments, struct initializers, and what a
    name that is called stands for. The transformer's routines they call back are the record \<open>tcalls\<close>.
    \<open>Overloads_Props\<close>: which overload is chosen, and where that depends on the order of declarations.
  \<^item> The transformer, \<^verbatim>\<open>src/visitors/transform/\<close>. \<open>Transform_Types\<close>: the types the language names, aliases, tests
    on generic parameters. \<open>Transform_Lookup\<close>: identifiers, indexes and references to types.
    \<open>Transform_Functions\<close>, \<open>Transform_Classes\<close>, \<open>Transform_Exprs\<close>, \<open>Transform_Calls\<close>, \<open>Transform_Stmts\<close>: one
    definition per routine and visit, long ones in stages. \<open>Transformer\<close>: imports, the dispatch over nodes, and
    \<open>compile_tree\<close>, the part of \<^verbatim>\<open>Compiler::compile\<close> (\<^verbatim>\<open>src/compiler.cc\<close>) from the text of the main module to the end
    of the transformation. Routines take the ones they call back in \<open>tcalls\<close>; \<open>calls_of h k\<close> are all of them
    with a stack of depth \<open>k\<close> on the machine \<open>h\<close>. \<open>Transform_Balanced\<close>, \<open>Transform_Contract\<close>: the locale
    \<open>transformer_calls\<close>, which every routine keeps when its callees do, so that \<open>calls_of\<close> interprets it.
    \<open>Transform_Props\<close>: visits keep their place, where a compilation ends, switches, declared types, literals,
    the names of number types and bodies in LLVM code.
  \<^item> \<open>Runtime_Exceptions\<close>: \<^verbatim>\<open>runtime/libs/exceptions.cc\<close>; exception classes, variable length integers, the
    search of the call site and action tables and the two phases of the personality routine, over a memory
    of bytes. \<open>Runtime_Exceptions_Props\<close>: round trips of the integers, agreement of the phases.

  \<^bold>\<open>Failure and termination.\<close> A routine returns \<open>Inr\<close> of its result or \<open>Inl\<close> of a failure: a thrown
  diagnostic, a failed assertion, an exception of the C++ library, an operation C++ leaves undefined.
  Where the code recurses over data that can be cyclic or calls a virtual method of unknown depth, the
  model takes the depth of the stack as fuel, and \<open>Undefined ''stack exhausted''\<close> is the failure at depth 0.
  The parser's loops have one round more than there are tokens, and its recursion four levels for each
  token; C18 shows that both are always enough.
  Each other such routine has a theorem that a depth above the size (or rank) of its argument is enough
  (C8 for the analysis, C15 for sizes, C23 for the type checker, C26 for the package manager), or one that
  no depth is: \<open>generic_identifier_diverges\<close> in \<open>DefiniteAssignment_Props\<close>, and C35 for modules that import each
  other. The transformer expands generics, macros and imports while it visits, so no depth is enough for every
  program; its other properties hold at every depth.

  \<^bold>\<open>Bounds of the parser's model.\<close> Nodes carry no source positions, except operators that wait for their
  operands, where messages need them; the entries of an unordered map are kept in order of insertion.

  \<^bold>\<open>Class extensions.\<close> \<^verbatim>\<open>transformTypeExtension.cc\<close> adds functions, each with a context state, and interfaces to
  the node of a class that other nodes share. Trees are values here: what is added is kept with the cached definition
  (\<open>ts_methods\<close>, \<open>ts_impls\<close> in \<open>Context\<close>), the transformation of the class takes it from there (\<open>store_of\<close>,
  \<open>all_members\<close> in \<open>Transform_Classes\<close>), and the analyses get the changed tree (\<open>extended_tree\<close>).

  \<^bold>\<open>Not modelled.\<close> The options of the command line are read by a library; the LLVM builder, the optimiser, the linker and
  the driver of the operating system act through LLVM and external programs; the emitter of Snowball's own
  intermediate code, the documentation generator, the texts and source positions of diagnostics, the logger
  and the crash handler only produce text for people. \<^verbatim>\<open>src/vendor/\<close> is third-party code.
\<close>

end
